(* ===== verification/Calf_Prelude.thy ===== *)
theory Calf_Prelude
  imports Main "HOL-Library.Char_ord" "HOL-Library.List_Lexorder" "HOL-Library.Sublist"
    "HOL-Library.Multiset"
begin

text \<open>
  Shared vocabulary of the development: the parts of Go and of its standard library that the
  calf backend uses everywhere.  Go strings are byte strings, modelled as \<^typ>\<open>string\<close>
  (a \<^typ>\<open>char\<close> is a byte); errors are values of \<open>go_error\<close> with their \<open>Error()\<close> text;
  \<open>sort.Slice\<close> is insertion sort, the algorithm Go runs on up to twelve elements.  The theory
  also declares the collections of facts the component theories share.
\<close>

named_theorems go_string "facts about the modelled functions of the strings package"
named_theorems go_sort "facts about sorting"

section \<open>Error values\<close>

text \<open>
  \<open>errors.New\<close> and \<open>fmt.Errorf\<close> without \<open>%w\<close> are \<open>Errorf\<close>; \<open>fmt.Errorf("p: %w", e)\<close>
  is \<open>Wrap ''p'' e\<close>, with more text after the error \<open>WrapMsg\<close>,
  \<open>fmt.Errorf("%w: %v", e, m)\<close> is \<open>Suffixed e m\<close>, and \<open>errors.Join\<close> gives \<open>Joined\<close>.
  The sentinels are the package variables that callers compare with \<open>errors.Is\<close>.
\<close>

datatype sentinel =
    ErrRuntimeNotRunning | ErrNetworkNotFound | ErrContainerNotFound | ErrContainerNotRunning
  | ErrPruneCategoryRequired | ContextCanceled | DeadlineExceeded | ErrNotExist

datatype go_error = Errorf string | Sentinel sentinel | Wrap string go_error | WrapMsg string go_error string
  | Suffixed go_error string | Joined "go_error list"

fun sentinel_text :: "sentinel \<Rightarrow> string" where
  "sentinel_text ErrRuntimeNotRunning = ''runtime is not running''"
| "sentinel_text ErrNetworkNotFound = ''network not found''"
| "sentinel_text ErrContainerNotFound = ''container not found''"
| "sentinel_text ErrContainerNotRunning = ''container is not running''"
| "sentinel_text ErrPruneCategoryRequired = ''select at least one prune category''"
| "sentinel_text ContextCanceled = ''context canceled''"
| "sentinel_text DeadlineExceeded = ''context deadline exceeded''"
| "sentinel_text ErrNotExist = ''file does not exist''"

text \<open>\<open>strings.Join\<close>.\<close>

fun Join :: "string list \<Rightarrow> string \<Rightarrow> string" where
  "Join [] sep = []"
| "Join [w] sep = w"
| "Join (w # v # ws) sep = w @ sep @ Join (v # ws) sep"

fun Error :: "go_error \<Rightarrow> string" where
  "Error (Errorf s) = s"
| "Error (Sentinel e) = sentinel_text e"
| "Error (Wrap p e) = p @ '': '' @ Error e"
| "Error (WrapMsg p e m) = p @ '': '' @ Error e @ '': '' @ m"
| "Error (Suffixed e m) = Error e @ '': '' @ m"
| "Error (Joined es) = Join (map Error es) [CHR 0x0A]"

fun errors_Is :: "go_error \<Rightarrow> sentinel \<Rightarrow> bool" where
  "errors_Is (Errorf _) _ = False"
| "errors_Is (Sentinel e) t = (e = t)"
| "errors_Is (Wrap _ e) t = errors_Is e t"
| "errors_Is (WrapMsg _ e _) t = errors_Is e t"
| "errors_Is (Suffixed e _) t = errors_Is e t"
| "errors_Is (Joined es) t = list_ex (\<lambda>e. errors_Is e t) es"

text \<open>\<open>errors.Join(errs...)\<close> of a list without nil: nil when it is empty.\<close>

definition errors_Join :: "go_error list \<Rightarrow> go_error option" where
  "errors_Join es = (if es = [] then None else Some (Joined es))"

type_synonym 'a result = "go_error + 'a"

text \<open>\<open>if err := f(); err != nil { return err }; return g()\<close> succeeds when both succeed.\<close>

lemma err_seq_None_iff [simp]: "(case x of Some e \<Rightarrow> Some e | None \<Rightarrow> y) = None \<longleftrightarrow> x = None \<and> y = None"
  by (cases x) auto

section \<open>White space: strings.TrimSpace\<close>

text \<open>
  \<open>unicode.IsSpace\<close> on UTF-8 bytes: six ASCII bytes, two two-byte encodings (U+0085, U+00A0) and
  the three-byte encodings of U+1680, U+2000 to U+200A, U+2028, U+2029, U+202F, U+205F, U+3000.
\<close>

definition space1 :: "char \<Rightarrow> bool" where
  "space1 a \<longleftrightarrow> a \<in> {CHR 0x09, CHR 0x0A, CHR 0x0B, CHR 0x0C, CHR 0x0D, CHR 0x20}"

definition space2 :: "char \<Rightarrow> char \<Rightarrow> bool" where
  "space2 a b \<longleftrightarrow> a = CHR 0xC2 \<and> b \<in> {CHR 0x85, CHR 0xA0}"

definition space3 :: "char \<Rightarrow> char \<Rightarrow> char \<Rightarrow> bool" where
  "space3 a b c \<longleftrightarrow>
     (a, b, c) \<in> {(CHR 0xE1, CHR 0x9A, CHR 0x80), (CHR 0xE2, CHR 0x81, CHR 0x9F),
                  (CHR 0xE3, CHR 0x80, CHR 0x80)}
     \<or> (a = CHR 0xE2 \<and> b = CHR 0x80 \<and>
        c \<in> {CHR 0x80, CHR 0x81, CHR 0x82, CHR 0x83, CHR 0x84, CHR 0x85, CHR 0x86, CHR 0x87,
             CHR 0x88, CHR 0x89, CHR 0x8A, CHR 0xA8, CHR 0xA9, CHR 0xAF})"

text \<open>
  One direction of trimming, with the multi-byte tests as arguments, so that the other direction
  is the same loop over the reversed bytes.
\<close>

fun trim_with :: "(char \<Rightarrow> char \<Rightarrow> bool) \<Rightarrow> (char \<Rightarrow> char \<Rightarrow> char \<Rightarrow> bool) \<Rightarrow> string \<Rightarrow> string" where
  "trim_with p q [] = []"
| "trim_with p q [a] = (if space1 a then [] else [a])"
| "trim_with p q [a, b] =
     (if space1 a then trim_with p q [b] else if p a b then [] else [a, b])"
| "trim_with p q (a # b # c # s) =
     (if space1 a then trim_with p q (b # c # s)
      else if p a b then trim_with p q (c # s)
      else if q a b c then trim_with p q s
      else a # b # c # s)"

definition TrimLeftSpace :: "string \<Rightarrow> string" where
  "TrimLeftSpace = trim_with space2 space3"

definition TrimRightSpace :: "string \<Rightarrow> string" where
  "TrimRightSpace s = rev (trim_with (\<lambda>a b. space2 b a) (\<lambda>a b c. space3 c b a) (rev s))"

definition TrimSpace :: "string \<Rightarrow> string" where
  "TrimSpace s = TrimRightSpace (TrimLeftSpace s)"

text \<open>Unfolding these evaluates trimming on concrete strings.\<close>

lemmas trim_eval = TrimSpace_def TrimLeftSpace_def TrimRightSpace_def space1_def space2_def space3_def

lemma trim_with_suffix: "suffix (trim_with p q s) s"
  by (induction p q s rule: trim_with.induct) (auto simp: suffix_Cons)

lemma trim_with_idem: "trim_with p q (trim_with p q s) = trim_with p q s"
  by (induction p q s rule: trim_with.induct) auto

lemma trim_with_length: "length (trim_with p q s) \<le> length s"
  using trim_with_suffix by (rule suffix_length_le)

lemma trim_with_fixed:
  "trim_with p q (a # s) = a # s \<longleftrightarrow>
     \<not> space1 a \<and> (case s of [] \<Rightarrow> True | b # s' \<Rightarrow> \<not> p a b \<and> (case s' of [] \<Rightarrow> True | c # _ \<Rightarrow> \<not> q a b c))"
proof (cases s)
  case (Cons b s')
  show ?thesis
  proof (cases s')
    case Nil
    then show ?thesis using Cons trim_with_length [of p q "[b]"] by auto
  next
    case (Cons c s'')
    then show ?thesis
      using \<open>s = b # s'\<close> trim_with_length [of p q "b # c # s''"]
        trim_with_length [of p q "c # s''"] trim_with_length [of p q s'']
      by auto
  qed
qed simp

lemma trim_with_prefix:
  assumes fix_s: "trim_with p q s = s" and pre: "prefix t s"
  shows "trim_with p q t = t"
proof (cases t)
  case (Cons a t')
  with pre obtain s' where s: "s = a # s'" and pre': "prefix t' s'" by (cases s) auto
  from fix_s show ?thesis unfolding s Cons trim_with_fixed
    using pre' by (cases t'; cases s'; cases "tl t'"; cases "tl s'") auto
qed simp

lemma TrimSpace_Nil [simp, go_string]: "TrimSpace [] = []"
  by (simp add: TrimSpace_def TrimLeftSpace_def TrimRightSpace_def)

lemma TrimRightSpace_prefix: "prefix (TrimRightSpace s) s"
  using trim_with_suffix [of _ _ "rev s"] unfolding TrimRightSpace_def
  by (metis rev_rev_ident suffix_to_prefix)

lemma TrimSpace_idem [simp, go_string]: "TrimSpace (TrimSpace s) = TrimSpace s"
proof -
  let ?l = "TrimLeftSpace s"
  have "TrimLeftSpace ?l = ?l" by (simp add: TrimLeftSpace_def trim_with_idem)
  then have "TrimLeftSpace (TrimRightSpace ?l) = TrimRightSpace ?l"
    using TrimRightSpace_prefix trim_with_prefix unfolding TrimLeftSpace_def by blast
  then show ?thesis
    by (simp add: TrimSpace_def TrimRightSpace_def trim_with_idem)
qed

text \<open>A string that begins with a visible ASCII byte is not blank.\<close>

lemma trim_with_keeps_last:
  assumes "\<not> space1 z" "\<And>x. \<not> p x z" "\<And>x y. \<not> q x y z"
  shows "s \<noteq> [] \<Longrightarrow> last s = z \<Longrightarrow> trim_with p q s \<noteq> []"
  using assms
proof (induction p q s rule: trim_with.induct)
  case (4 p q a b c s)
  then show ?case by (cases s) auto
qed auto

lemma TrimSpace_visible:
  assumes "of_char a < (128::nat)" "\<not> space1 a"
  shows "TrimSpace (a # s) \<noteq> []"
proof -
  have n: "a \<noteq> CHR 0xC2" "a \<noteq> CHR 0xE1" "a \<noteq> CHR 0xE2" "a \<noteq> CHR 0xE3" using assms(1) by auto
  then have m: "\<not> space2 a x" "\<not> space3 a x y" for x y by (auto simp: space2_def space3_def)
  have "TrimLeftSpace (a # s) = a # s"
    unfolding TrimLeftSpace_def trim_with_fixed using assms(2) m by (auto split: list.splits)
  moreover have "TrimRightSpace (a # s) \<noteq> []"
    unfolding TrimRightSpace_def using assms(2) m
    by (simp, intro trim_with_keeps_last [where z = a]) auto
  ultimately show ?thesis by (simp add: TrimSpace_def)
qed

text \<open>What stands between two visible ASCII bytes is not trimmed.\<close>

lemma trim_with_visible_suffix:
  assumes sp: "\<not> space1 c"
    and v: "\<And>a. \<not> P a c" "\<And>a. \<not> P c a" "\<And>a b. \<not> Q a b c" "\<And>a b. \<not> Q a c b" "\<And>a b. \<not> Q c a b"
  shows "suffix (c # r) (trim_with P Q (p @ c # r))"
proof (induction "length p" arbitrary: p rule: less_induct)
  case less
  have IH: "q = drop k p \<Longrightarrow> k > 0 \<Longrightarrow> p \<noteq> [] \<Longrightarrow> suffix (c # r) (trim_with P Q (q @ c # r))" for q k
    using less [of q] by simp
  consider "p = []" | a where "p = [a]" | a b where "p = [a, b]" | a b d q where "p = a # b # d # q"
    by (metis list.exhaust)
  then show ?case
  proof cases
    case 1
    then show ?thesis using sp v by (cases r; cases "tl r") auto
  next
    case 2
    then show ?thesis using IH [of "[]" 1] v by (cases r) (auto simp: suffix_Cons)
  next
    case 3
    then show ?thesis using IH [of "[b]" 1] IH [of "[]" 2] v by (auto simp: suffix_Cons)
  next
    case 4
    then show ?thesis
      using IH [of "b # d # q" 1] IH [of "d # q" 2] IH [of q 3] by (auto simp: suffix_Cons suffix_append)
  qed
qed

lemma ascii_not_multibyte:
  assumes "of_char c < (128::nat)"
  shows "\<not> space2 a c" "\<not> space2 c a" "\<not> space3 a b c" "\<not> space3 a c b" "\<not> space3 c a b"
  using assms by (auto simp: space2_def space3_def)

lemma visible_suffix:
  assumes "of_char c < (128::nat)" "\<not> space1 c"
  shows "suffix (c # r) (trim_with space2 space3 (p @ c # r))"
  by (rule trim_with_visible_suffix) (simp_all add: assms(2) ascii_not_multibyte [OF assms(1)])

lemma TrimSpace_has_visible:
  assumes "of_char c < (128::nat)" "\<not> space1 c" "c \<in> set s"
  shows "TrimSpace s \<noteq> []"
proof -
  obtain p r where s: "s = p @ c # r" using assms(3) by (meson split_list)
  then obtain q where q: "TrimLeftSpace s = q @ c # r"
    using visible_suffix [OF assms(1,2), of r p] by (auto simp: TrimLeftSpace_def suffix_def)
  have "suffix (c # rev q) (trim_with (\<lambda>a b. space2 b a) (\<lambda>a b c. space3 c b a) (rev r @ c # rev q))"
    by (rule trim_with_visible_suffix) (simp_all add: assms(2) ascii_not_multibyte [OF assms(1)])
  then show ?thesis by (auto simp: TrimSpace_def q TrimRightSpace_def)
qed

lemma TrimRightSpace_visible:
  assumes "of_char c < (128::nat)" "\<not> space1 c"
  shows "TrimRightSpace (s @ [c]) = s @ [c]"
proof -
  have "\<not> space2 x c" "\<not> space3 x y c" for x y using assms(1) by (auto simp: space2_def space3_def)
  then show ?thesis unfolding TrimRightSpace_def using assms(2)
    by (cases "rev s"; cases "tl (rev s)") auto
qed

lemma TrimSpace_keeps_tail:
  assumes "of_char c < (128::nat)" "\<not> space1 c" "of_char z < (128::nat)" "\<not> space1 z"
  shows "suffix (c # r @ [z]) (TrimSpace (p @ c # r @ [z]))"
proof -
  obtain p' where t: "TrimLeftSpace (p @ c # r @ [z]) = p' @ c # r @ [z]"
    using visible_suffix [OF assms(1,2), of "r @ [z]" p] by (auto simp: TrimLeftSpace_def suffix_def)
  then show ?thesis
    using TrimRightSpace_visible [OF assms(3,4), of "p' @ c # r"] by (simp add: TrimSpace_def suffix_def)
qed

lemma TrimSpace_sublist: "sublist (TrimSpace s) s"
proof -
  have "prefix (TrimSpace s) (TrimLeftSpace s)"
    by (simp add: TrimSpace_def TrimRightSpace_prefix)
  moreover have "suffix (TrimLeftSpace s) s"
    by (simp add: TrimLeftSpace_def trim_with_suffix)
  ultimately show ?thesis
    by (meson prefix_imp_sublist sublist_order.order_trans suffix_imp_sublist)
qed

lemma set_TrimSpace [go_string]: "set (TrimSpace s) \<subseteq> set s"
  using TrimSpace_sublist by (rule set_mono_sublist)

section \<open>Prefixes, suffixes, search and case\<close>

definition HasPrefix :: "string \<Rightarrow> string \<Rightarrow> bool" where
  "HasPrefix s p = prefix p s"

definition HasSuffix :: "string \<Rightarrow> string \<Rightarrow> bool" where
  "HasSuffix s p = (length p \<le> length s \<and> drop (length s - length p) s = p)"

definition TrimPrefix :: "string \<Rightarrow> string \<Rightarrow> string" where
  "TrimPrefix s p = (if HasPrefix s p then drop (length p) s else s)"

definition TrimSuffix :: "string \<Rightarrow> string \<Rightarrow> string" where
  "TrimSuffix s p = (if HasSuffix s p then take (length s - length p) s else s)"

fun Contains :: "string \<Rightarrow> string \<Rightarrow> bool" where
  "Contains [] p = (p = [])"
| "Contains (c # s) p = (prefix p (c # s) \<or> Contains s p)"

lemma HasSuffix_iff [go_string]: "HasSuffix s p \<longleftrightarrow> suffix p s"
  by (auto simp: HasSuffix_def suffix_def intro: exI [of _ "take (length s - length p) s"])
     (metis append_take_drop_id)

lemma Contains_iff [go_string]: "Contains s p \<longleftrightarrow> sublist p s"
  by (induction s) (auto simp: sublist_Cons_right)

text \<open>
  \<open>strings.ToLower\<close> on ASCII letters; bytes of multi-byte characters are left as they are.
\<close>

definition lower_char :: "char \<Rightarrow> char" where
  "lower_char c = (if CHR ''A'' \<le> c \<and> c \<le> CHR ''Z'' then char_of (of_char c + 32 :: nat) else c)"

definition ToLower :: "string \<Rightarrow> string" where
  "ToLower = map lower_char"

definition EqualFold :: "string \<Rightarrow> string \<Rightarrow> bool" where
  "EqualFold s t = (ToLower s = ToLower t)"

lemma lower_char_idem [simp]: "lower_char (lower_char c) = lower_char c"
proof (cases "CHR ''A'' \<le> c \<and> c \<le> CHR ''Z''")
  case True
  then have r: "65 \<le> (of_char c :: nat)" "(of_char c :: nat) \<le> 90"
    by (simp_all add: less_eq_char_def)
  then have "(of_char (lower_char c) :: nat) = of_char c + 32"
    using True by (simp add: lower_char_def)
  then have "\<not> lower_char c \<le> CHR ''Z''"
    using r by (simp add: less_eq_char_def)
  then show ?thesis by (simp add: lower_char_def [of "lower_char c"])
qed (auto simp: lower_char_def)

lemma ToLower_idem [simp, go_string]: "ToLower (ToLower s) = ToLower s"
  by (simp add: ToLower_def)

text \<open>\<open>strings.Split(s, sep)\<close> for a one-byte separator: never empty.\<close>

fun Split :: "string \<Rightarrow> char \<Rightarrow> string list" where
  "Split [] sep = [[]]"
| "Split (c # s) sep =
     (if c = sep then [] # Split s sep
      else case Split s sep of [] \<Rightarrow> [[c]] | w # ws \<Rightarrow> (c # w) # ws)"

lemma Split_ne [simp]: "Split s sep \<noteq> []"
  by (induction s) (auto split: list.splits)

lemma Split_no_sep: "w \<in> set (Split s sep) \<Longrightarrow> sep \<notin> set w"
proof (induction s arbitrary: w)
  case (Cons c s)
  then show ?case
    by (cases "Split s sep") (auto split: if_splits)
qed simp

text \<open>Joining the pieces of a split gives the string back.\<close>

lemma Join_Cons: "ws \<noteq> [] \<Longrightarrow> Join (w # ws) sep = w @ sep @ Join ws sep"
  by (cases ws) auto

lemma Join_Split [go_string]: "Join (Split s sep) [sep] = s"
proof (induction s)
  case (Cons c s)
  obtain w ws where sp: "Split s sep = w # ws" by (cases "Split s sep") auto
  with Cons show ?case by (cases ws) (auto simp: Join_Cons)
qed simp

text \<open>
  \<open>strings.NewReplacer\<close>: at each position the first pair whose old string matches is replaced and
  the scan goes on behind it.  All old strings used in calf are non-empty.
\<close>

fun match_pair :: "(string \<times> string) list \<Rightarrow> string \<Rightarrow> (string \<times> string) option" where
  "match_pair [] s = None"
| "match_pair ((old, new) # ps) s =
     (if old \<noteq> [] \<and> prefix old s then Some (old, new) else match_pair ps s)"

lemma match_pair_Some: "match_pair ps s = Some (old, new) \<Longrightarrow> old \<noteq> [] \<and> prefix old s \<and> (old, new) \<in> set ps"
  by (induction ps s rule: match_pair.induct) (auto split: if_splits)

function Replace :: "(string \<times> string) list \<Rightarrow> string \<Rightarrow> string" where
  "Replace ps [] = []"
| "Replace ps (c # s) =
     (case match_pair ps (c # s) of
        None \<Rightarrow> c # Replace ps s
      | Some (old, new) \<Rightarrow> new @ Replace ps (drop (length old) (c # s)))"
  by pat_completeness auto
termination
proof (relation "measure (\<lambda>(ps, s). length s)", goal_cases)
  case (3 ps c s old_new old new)
  then have "old \<noteq> []" by (metis match_pair_Some)
  then show ?case by (cases old) auto
qed auto

section \<open>Decimal numerals\<close>

text \<open>\<open>%d\<close> on the non-negative values calf prints with it, and fixed-width fields.\<close>

definition digit :: "nat \<Rightarrow> char" where
  "digit d = char_of (48 + d)"

fun show_nat :: "nat \<Rightarrow> string" where
  "show_nat n = (if n < 10 then [digit n] else show_nat (n div 10) @ [digit (n mod 10)])"

declare show_nat.simps [simp del]

definition show_int :: "int \<Rightarrow> string" where
  "show_int i = (if i < 0 then ''-'' @ show_nat (nat (- i)) else show_nat (nat i))"

definition is_digit :: "char \<Rightarrow> bool" where
  "is_digit c \<longleftrightarrow> CHR ''0'' \<le> c \<and> c \<le> CHR ''9''"

definition digit_val :: "char \<Rightarrow> nat" where
  "digit_val c = of_char c - 48"

definition digits_val :: "string \<Rightarrow> nat" where
  "digits_val s = foldl (\<lambda>n c. 10 * n + digit_val c) 0 s"

lemma of_char_digit: "d < 10 \<Longrightarrow> (of_char (digit d) :: nat) = 48 + d"
  by (simp add: digit_def)

lemma is_digit_digit [simp]: "d < 10 \<Longrightarrow> is_digit (digit d)"
  by (simp add: is_digit_def less_eq_char_def of_char_digit)

lemma digit_val_digit [simp]: "d < 10 \<Longrightarrow> digit_val (digit d) = d"
  by (simp add: digit_val_def of_char_digit)

lemma show_nat_digits: "c \<in> set (show_nat n) \<Longrightarrow> is_digit c"
proof (induction n rule: show_nat.induct)
  case (1 n)
  then show ?case by (cases "n < 10") (auto simp: show_nat.simps [of n])
qed

lemma digits_val_snoc [simp]: "digits_val (s @ [c]) = 10 * digits_val s + digit_val c"
  by (simp add: digits_val_def)

lemma digits_val_show_nat [simp]: "digits_val (show_nat n) = n"
proof (induction n rule: show_nat.induct)
  case (1 n)
  show ?case
  proof (cases "n < 10")
    case True
    then show ?thesis by (simp add: show_nat.simps [of n] digits_val_def)
  next
    case False
    with 1 show ?thesis by (simp add: show_nat.simps [of n])
  qed
qed

lemma show_nat_inj [simp]: "show_nat m = show_nat n \<longleftrightarrow> m = n"
  by (metis digits_val_show_nat)

section \<open>sort.Slice\<close>

text \<open>
  \<open>insertionSortLessFunc\<close>: each element moves to the left while it is less than its left
  neighbour.  The sorted part is kept reversed, so moving left is going down the list.
\<close>

fun sift :: "('a \<Rightarrow> 'a \<Rightarrow> bool) \<Rightarrow> 'a \<Rightarrow> 'a list \<Rightarrow> 'a list" where
  "sift lt x [] = [x]"
| "sift lt x (y # ys) = (if lt x y then y # sift lt x ys else x # y # ys)"

definition sort_Slice :: "('a \<Rightarrow> 'a \<Rightarrow> bool) \<Rightarrow> 'a list \<Rightarrow> 'a list" where
  "sort_Slice lt xs = rev (fold (sift lt) xs [])"

lemma mset_sift: "mset (sift lt x ys) = add_mset x (mset ys)"
  by (induction ys) auto

lemma mset_fold_sift: "mset (fold (sift lt) xs ys) = mset xs + mset ys"
  by (induction xs arbitrary: ys) (auto simp: mset_sift)

lemma mset_sort_Slice [simp, go_sort]: "mset (sort_Slice lt xs) = mset xs"
  by (simp add: sort_Slice_def mset_fold_sift)

lemma set_sort_Slice [simp, go_sort]: "set (sort_Slice lt xs) = set xs"
  using mset_sort_Slice [of lt xs] by (metis set_mset_mset)

lemma length_sort_Slice [simp, go_sort]: "length (sort_Slice lt xs) = length xs"
  using mset_sort_Slice [of lt xs] by (metis size_mset)

lemma sort_Slice_Nil [simp]: "sort_Slice lt [] = []"
  by (simp add: sort_Slice_def)

lemma sort_Slice_eq_Nil [simp]: "sort_Slice lt xs = [] \<longleftrightarrow> xs = []"
  by (metis length_0_conv length_sort_Slice)

text \<open>
  The contract of the \<open>less\<close> argument of \<open>sort.Slice\<close> (a strict weak order) and what the caller
  gets for it: a sorted permutation, and nothing moved when the slice was sorted already.
\<close>

locale sort_less =
  fixes lt :: "'a \<Rightarrow> 'a \<Rightarrow> bool"
  assumes asym: "lt x y \<Longrightarrow> \<not> lt y x"
    and neg_trans: "\<not> lt y x \<Longrightarrow> \<not> lt z y \<Longrightarrow> \<not> lt z x"
begin

lemma sift_sorted:
  "sorted_wrt (\<lambda>a b. \<not> lt a b) ys \<Longrightarrow> sorted_wrt (\<lambda>a b. \<not> lt a b) (sift lt x ys)"
proof (induction ys)
  case (Cons y ys)
  have mem: "set (sift lt x ys) = insert x (set ys)"
    using mset_sift [of lt x ys] by (metis set_mset_mset set_mset_add_mset_insert)
  show ?case
  proof (cases "lt x y")
    case True
    with Cons mem show ?thesis by (auto dest: asym)
  next
    case False
    with Cons.prems show ?thesis using neg_trans by auto
  qed
qed simp

lemma fold_sift_sorted:
  "sorted_wrt (\<lambda>a b. \<not> lt a b) ys \<Longrightarrow> sorted_wrt (\<lambda>a b. \<not> lt a b) (fold (sift lt) xs ys)"
  by (induction xs arbitrary: ys) (auto intro: sift_sorted)

lemma sort_Slice_sorted: "sorted_wrt (\<lambda>a b. \<not> lt b a) (sort_Slice lt xs)"
  using fold_sift_sorted [of "[]" xs] by (simp add: sort_Slice_def sorted_wrt_rev)

lemma fold_sift_id:
  "sorted_wrt (\<lambda>a b. \<not> lt b a) (rev ys @ xs) \<Longrightarrow> fold (sift lt) xs ys = rev xs @ ys"
proof (induction xs arbitrary: ys)
  case (Cons x xs)
  then have "sift lt x ys = x # ys"
    by (cases ys) (auto simp: sorted_wrt_append)
  with Cons show ?case by simp
qed simp

lemma sort_Slice_id: "sorted_wrt (\<lambda>a b. \<not> lt b a) xs \<Longrightarrow> sort_Slice lt xs = xs"
  using fold_sift_id [of "[]" xs] by (simp add: sort_Slice_def)

lemma sort_Slice_idem: "sort_Slice lt (sort_Slice lt xs) = sort_Slice lt xs"
  by (rule sort_Slice_id [OF sort_Slice_sorted])

end

text \<open>\<open>sort.Strings\<close>: the byte-wise order of Go strings is the list order of Isabelle.\<close>

definition sort_Strings :: "string list \<Rightarrow> string list" where
  "sort_Strings = sort_Slice (<)"

interpretation string_less: sort_less "(<) :: string \<Rightarrow> string \<Rightarrow> bool"
  by unfold_locales auto

lemma sort_Strings_idem [simp, go_sort]: "sort_Strings (sort_Strings xs) = sort_Strings xs"
  by (simp add: sort_Strings_def string_less.sort_Slice_idem)

lemma set_sort_Strings [simp, go_sort]: "set (sort_Strings xs) = set xs"
  by (simp add: sort_Strings_def)

lemma mset_sort_Strings [simp, go_sort]: "mset (sort_Strings xs) = mset xs"
  by (simp add: sort_Strings_def)

lemma sort_Strings_eq_Nil [simp]: "sort_Strings xs = [] \<longleftrightarrow> xs = []"
  by (simp add: sort_Strings_def)

section \<open>Quoting\<close>

text \<open>\<open>%q\<close> (\<open>strconv.Quote\<close>) on ASCII; bytes of multi-byte characters are printed as they are.\<close>

definition hex_digit :: "nat \<Rightarrow> char" where
  "hex_digit d = (if d < 10 then digit d else char_of (87 + d))"

definition quote_char :: "char \<Rightarrow> string" where
  "quote_char c =
     (if c = CHR 0x22 \<or> c = CHR 0x5C then [CHR 0x5C, c]
      else if c = CHR 0x07 then [CHR 0x5C, CHR ''a'']
      else if c = CHR 0x08 then [CHR 0x5C, CHR ''b'']
      else if c = CHR 0x0C then [CHR 0x5C, CHR ''f'']
      else if c = CHR 0x0A then [CHR 0x5C, CHR ''n'']
      else if c = CHR 0x0D then [CHR 0x5C, CHR ''r'']
      else if c = CHR 0x09 then [CHR 0x5C, CHR ''t'']
      else if c = CHR 0x0B then [CHR 0x5C, CHR ''v'']
      else if c < CHR 0x20 \<or> c = CHR 0x7F
        then [CHR 0x5C, CHR ''x'', hex_digit (of_char c div 16), hex_digit (of_char c mod 16)]
      else [c])"

definition Quote :: "string \<Rightarrow> string" where
  "Quote s = [CHR 0x22] @ concat (map quote_char s) @ [CHR 0x22]"

section \<open>Paths\<close>

text \<open>
  \<open>path/filepath\<close> on Unix: \<open>Clean\<close> drops empty and \<open>.\<close> segments and lets \<open>..\<close> remove the segment
  before it; \<open>Join\<close> of two elements, the first of them not empty, cleans their concatenation.
\<close>

fun clean_step :: "bool \<Rightarrow> string \<Rightarrow> string list \<Rightarrow> string list" where
  "clean_step rooted seg stack =
     (if seg = '''' \<or> seg = ''.'' then stack
      else if seg = ''..'' then
        (case stack of
           [] \<Rightarrow> if rooted then [] else [''..'']
         | prev # rest \<Rightarrow> if prev = ''..'' then ''..'' # stack else rest)
      else seg # stack)"

declare clean_step.simps [simp del]

definition filepath_Clean :: "string \<Rightarrow> string" where
  "filepath_Clean path =
     (let rooted = HasPrefix path ''/'';
          segs = rev (fold (clean_step rooted) (Split path (CHR ''/'')) [])
      in if rooted then ''/'' @ Join segs ''/'' else if segs = [] then ''.'' else Join segs ''/'')"

definition filepath_Join :: "string \<Rightarrow> string \<Rightarrow> string" where
  "filepath_Join a b =
     (if a = '''' then (if b = '''' then '''' else filepath_Clean b) else filepath_Clean (a @ ''/'' @ b))"

definition filepath_Base :: "string \<Rightarrow> string" where
  "filepath_Base path =
     (if path = '''' then ''.''
      else let s = rev (dropWhile ((=) (CHR ''/'')) (rev path)) in
        if s = '''' then ''/'' else last (Split s (CHR ''/'')))"

definition filepath_IsAbs :: "string \<Rightarrow> bool" where
  "filepath_IsAbs path = HasPrefix path ''/''"

lemma Split_snoc_sep: "sep \<notin> set t \<Longrightarrow> Split (s @ sep # t) sep = Split s sep @ [t]"
proof (induction s)
  case Nil
  have "Split t sep = [t]" using Nil by (induction t) auto
  then show ?case by simp
next
  case (Cons c s)
  then show ?case by (cases "Split s sep") auto
qed

text \<open>Joining a plain component to a rooted path appends it to the cleaned path.\<close>

lemma Join_snoc: "Join (ws @ [w]) sep = (if ws = [] then w else Join ws sep @ sep @ w)"
  by (induction ws) (auto simp: Join_Cons)

lemma clean_segs:
  assumes "\<forall>w \<in> set st. w \<noteq> [] \<and> CHR ''/'' \<notin> set w" "\<forall>w \<in> set ss. CHR ''/'' \<notin> set w"
  shows "\<forall>w \<in> set (fold (clean_step rooted) ss st). w \<noteq> [] \<and> CHR ''/'' \<notin> set w"
  using assms
proof (induction ss arbitrary: st)
  case (Cons w ss)
  have "\<forall>x \<in> set (clean_step rooted w st). x \<noteq> [] \<and> CHR ''/'' \<notin> set x"
  proof
    fix x assume x: "x \<in> set (clean_step rooted w st)"
    have "set (clean_step rooted w st) \<subseteq> set st \<union> {''..''} \<union> (if w = [] then {} else {w})"
      unfolding clean_step.simps [of rooted w st] by (simp split: list.split) blast
    from subsetD [OF this x] have "x \<in> set st \<or> x = ''..'' \<or> (x = w \<and> w \<noteq> [])"
      by (cases "w = []") (simp_all add: disj_ac)
    then show "x \<noteq> [] \<and> CHR ''/'' \<notin> set x"
    proof (elim disjE conjE)
      show ?thesis if "x \<in> set st" using Cons.prems(1) that by simp
      show ?thesis if "x = ''..''" using that by simp
      show ?thesis if "x = w" "w \<noteq> []" using Cons.prems(2) that by simp
    qed
  qed
  moreover have "\<forall>x \<in> set ss. CHR ''/'' \<notin> set x" using Cons.prems(2) by simp
  ultimately show ?case unfolding fold_simps by (rule Cons.IH)
qed simp

lemma Join_segs:
  assumes "\<forall>w \<in> set ws. w \<noteq> [] \<and> CHR ''/'' \<notin> set w"
  shows "\<not> prefix ''/'' (Join ws ''/'')" and "Join ws ''/'' = [] \<longleftrightarrow> ws = []"
proof -
  have "\<not> prefix ''/'' (Join ws ''/'') \<and> (Join ws ''/'' = [] \<longleftrightarrow> ws = [])"
  proof (cases ws)
    case (Cons w rest)
    then obtain x w' where w: "w = x # w'" "x \<noteq> CHR ''/''" using assms by (cases w) auto
    obtain t where "Join ws ''/'' = x # t" using w by (cases rest) (auto simp: Cons)
    then show ?thesis using w(2) Cons by simp
  qed simp
  then show "\<not> prefix ''/'' (Join ws ''/'')" and "Join ws ''/'' = [] \<longleftrightarrow> ws = []" by blast+
qed

lemma IsAbs_Clean: "filepath_IsAbs (filepath_Clean path) \<longleftrightarrow> HasPrefix path ''/''"
proof (cases "HasPrefix path ''/''")
  case True
  then show ?thesis by (simp add: filepath_Clean_def filepath_IsAbs_def HasPrefix_def)
next
  case False
  define segs where "segs = rev (fold (clean_step False) (Split path (CHR ''/'')) [])"
  have "\<forall>w \<in> set segs. w \<noteq> [] \<and> CHR ''/'' \<notin> set w"
    using clean_segs [of "[]" "Split path (CHR ''/'')" False] Split_no_sep by (auto simp: segs_def)
  then have "\<not> prefix ''/'' (Join segs ''/'')" by (rule Join_segs)
  moreover have "filepath_Clean path = (if segs = [] then ''.'' else Join segs ''/'')"
    unfolding filepath_Clean_def Let_def segs_def using False by simp
  ultimately show ?thesis using False by (simp add: filepath_IsAbs_def HasPrefix_def)
qed

lemma filepath_Join_component:
  assumes "HasPrefix folder ''/''" "c \<notin> {[], ''.'', ''..''}" "CHR ''/'' \<notin> set c"
  shows "filepath_Join folder c = (if filepath_Clean folder = ''/'' then [] else filepath_Clean folder) @ ''/'' @ c"
proof -
  define segs where "segs = fold (clean_step True) (Split folder (CHR ''/'')) []"
  have ne: "folder \<noteq> []" using assms(1) by (auto simp: HasPrefix_def)
  have root: "HasPrefix (folder @ ''/'' @ c) ''/''"
    using assms(1) by (auto simp: HasPrefix_def prefix_def)
  have clean: "filepath_Clean folder = ''/'' @ Join (rev segs) ''/''"
    unfolding filepath_Clean_def Let_def segs_def using assms(1) by simp
  have "clean_step True c segs = c # segs" using assms(2) by (simp add: clean_step.simps)
  then have "filepath_Clean (folder @ ''/'' @ c) = ''/'' @ Join (rev segs @ [c]) ''/''"
    unfolding filepath_Clean_def Let_def segs_def
    using root Split_snoc_sep [OF assms(3), of folder] by simp
  moreover have "\<forall>w \<in> set (rev segs). w \<noteq> [] \<and> CHR ''/'' \<notin> set w"
    using clean_segs [of "[]" "Split folder (CHR ''/'')" True] Split_no_sep by (auto simp: segs_def)
  then have "Join (rev segs) ''/'' = [] \<longleftrightarrow> segs = []" using Join_segs(2) by simp
  ultimately show ?thesis
    using ne by (auto simp: filepath_Join_def clean Join_snoc)
qed

end
