(* ===== verification/Calf_Utils.thy ===== *)
theory Calf_Utils
  imports Calf_Prelude
begin

text \<open>
  The package \<open>internal/utils\<close>: file-name sanitising, splitting of command output and human-readable
  byte counts.  A Go panic is the value \<open>None\<close> of \<open>FormatBytes\<close>.
\<close>

section \<open>sanitize.go\<close>

definition SanitizeFileName :: "string \<Rightarrow> string" where
  "SanitizeFileName name = Replace [(''/'', ''_''), ('':'', ''_''), ([CHR 0x5C], ''_'')] name"

definition SanitizeExportFileName :: "string \<Rightarrow> string" where
  "SanitizeExportFileName value =
     Replace [(''/'', ''_''), ([CHR 0x5C], ''_''), ('':'', ''-'')] (TrimSpace value)"

text \<open>On one-byte pairs a replacer is a map over the bytes.\<close>

lemma SanitizeFileName_map:
  "SanitizeFileName name = map (\<lambda>c. if c \<in> {CHR ''/'', CHR '':'', CHR 0x5C} then CHR ''_'' else c) name"
  unfolding SanitizeFileName_def by (induction name) auto

lemma SanitizeExportFileName_map:
  "SanitizeExportFileName value =
     map (\<lambda>c. if c \<in> {CHR ''/'', CHR 0x5C} then CHR ''_'' else if c = CHR '':'' then CHR ''-'' else c)
       (TrimSpace value)"
proof -
  have "Replace [(''/'', ''_''), ([CHR 0x5C], ''_''), ('':'', ''-'')] s =
    map (\<lambda>c. if c \<in> {CHR ''/'', CHR 0x5C} then CHR ''_'' else if c = CHR '':'' then CHR ''-'' else c) s" for s
    by (induction s) auto
  then show ?thesis by (simp add: SanitizeExportFileName_def)
qed

lemma SanitizeFileName_Nil [simp]: "SanitizeFileName name = [] \<longleftrightarrow> name = []"
  by (simp add: SanitizeFileName_map)

lemma SanitizeFileName_clean:
  "set (SanitizeFileName name) \<inter> {CHR ''/'', CHR '':'', CHR 0x5C} = {}"
  by (auto simp: SanitizeFileName_map split: if_splits)

lemma SanitizeFileName_idem [simp]: "SanitizeFileName (SanitizeFileName name) = SanitizeFileName name"
  by (simp add: SanitizeFileName_map)

lemma SanitizeExportFileName_clean:
  "set (SanitizeExportFileName value) \<inter> {CHR ''/'', CHR '':'', CHR 0x5C} = {}"
  by (auto simp: SanitizeExportFileName_map split: if_splits)

section \<open>lines.go\<close>

text \<open>The loop of \<open>ParseLines\<close>; \<open>keep\<close> is a nil-able predicate.\<close>

fun ParseLines_loop :: "string list \<Rightarrow> (string \<Rightarrow> bool) option \<Rightarrow> string list \<Rightarrow> string list" where
  "ParseLines_loop [] keep items = items"
| "ParseLines_loop (line # lines) keep items =
     (let item = TrimSpace line in
      if item = '''' then ParseLines_loop lines keep items
      else if (case keep of None \<Rightarrow> False | Some k \<Rightarrow> \<not> k item) then ParseLines_loop lines keep items
      else ParseLines_loop lines keep (items @ [item]))"

definition ParseLines :: "string \<Rightarrow> (string \<Rightarrow> bool) option \<Rightarrow> string list" where
  "ParseLines output keep = ParseLines_loop (Split output (CHR 0x0A)) keep []"

lemma ParseLines_loop_filter:
  "ParseLines_loop lines keep items =
     items @ filter (\<lambda>l. l \<noteq> '''' \<and> (case keep of None \<Rightarrow> True | Some k \<Rightarrow> k l)) (map TrimSpace lines)"
  by (induction lines keep items rule: ParseLines_loop.induct)
     (auto simp: Let_def split: option.splits)

lemma ParseLines_filter:
  "ParseLines output keep =
     filter (\<lambda>l. l \<noteq> '''' \<and> (case keep of None \<Rightarrow> True | Some k \<Rightarrow> k l))
       (map TrimSpace (Split output (CHR 0x0A)))"
  by (simp add: ParseLines_def ParseLines_loop_filter)

section \<open>bytes.go and int.go\<close>

definition TrimOutputBytes :: "string \<Rightarrow> string" where
  "TrimOutputBytes output = TrimSpace output"

definition MaxInt :: "int \<Rightarrow> int \<Rightarrow> int" where
  "MaxInt a b = (if a > b then a else b)"

section \<open>format.go\<close>

text \<open>
  \<open>%.1f\<close> of \<open>float64(n) / float64(d)\<close> for \<open>n < 2 ^ 53\<close> and \<open>d\<close> a power of two: the quotient is
  exact, so the digits are those of \<open>n / d\<close> rounded to tenths, ties to even.
\<close>

definition tenths :: "int \<Rightarrow> int \<Rightarrow> int" where
  "tenths n d =
     (let q = 10 * n div d; r = 10 * n mod d
      in if 2 * r > d \<or> (2 * r = d \<and> odd q) then q + 1 else q)"

definition show_tenths :: "int \<Rightarrow> string" where
  "show_tenths t = show_int (t div 10) @ ''.'' @ show_int (t mod 10)"

function FormatBytes_loop :: "int \<Rightarrow> int \<Rightarrow> nat \<Rightarrow> int \<times> nat" where
  "FormatBytes_loop numerator dv exp =
     (if numerator \<ge> 1024 then FormatBytes_loop (numerator div 1024) (dv * 1024) (exp + 1)
      else (dv, exp))"
  by pat_completeness auto
termination by (relation "measure (\<lambda>(n, _, _). nat n)") auto

declare FormatBytes_loop.simps [simp del]

definition size_suffixes :: "string list" where
  "size_suffixes = [''KB'', ''MB'', ''GB'', ''TB'']"

definition FormatBytes :: "int \<Rightarrow> string option" where
  "FormatBytes sz =
     (if sz \<le> 0 then Some ''0 B''
      else if sz < 1024 then Some (show_int sz @ '' B'')
      else
        let (dv, exp) = FormatBytes_loop (sz div 1024) 1024 0;
            value = tenths sz dv
        in if exp < length size_suffixes
           then Some (show_tenths value @ '' '' @ size_suffixes ! exp)
           else None)"

text \<open>The loop ends with the greatest power of 1024 that is at most the size.\<close>

lemma FormatBytes_loop_spec:
  assumes "0 < n"
  shows "\<exists>k. FormatBytes_loop n d e = (d * 1024 ^ k, e + k) \<and> 1024 ^ k \<le> n \<and> n < 1024 ^ (k + 1)"
  using assms
proof (induction n d e rule: FormatBytes_loop.induct)
  case (1 n d e)
  show ?case
  proof (cases "n \<ge> 1024")
    case True
    then have "0 < n div 1024" by linarith
    with "1.IH" True obtain k where
      k: "FormatBytes_loop (n div 1024) (d * 1024) (e + 1) = (d * 1024 * 1024 ^ k, e + 1 + k)"
         "1024 ^ k \<le> n div 1024" "n div 1024 < 1024 ^ (k + 1)" by blast
    define p :: int where "p = 1024 ^ k"
    have "1024 * p \<le> n" "n < 1024 * (1024 * p)"
      using k(2,3) by (simp_all add: p_def [symmetric] power_add)
    with k(1) True show ?thesis
      by (intro exI [of _ "Suc k"]) (simp add: FormatBytes_loop.simps [of n] p_def)
  next
    case False
    with "1.prems" show ?thesis
      by (intro exI [of _ 0]) (simp add: FormatBytes_loop.simps [of n])
  qed
qed

lemma FormatBytes_loop_size:
  assumes "1024 \<le> sz"
  obtains k where "FormatBytes_loop (sz div 1024) 1024 0 = (1024 ^ (k + 1), k)"
    and "1024 ^ (k + 1) \<le> sz" and "sz < 1024 ^ (k + 2)"
proof -
  have "0 < sz div 1024" using assms by linarith
  then obtain k where k: "FormatBytes_loop (sz div 1024) 1024 0 = (1024 * 1024 ^ k, 0 + k)"
      "1024 ^ k \<le> sz div 1024" "sz div 1024 < 1024 ^ (k + 1)"
    using FormatBytes_loop_spec by blast
  define p :: int where "p = 1024 ^ k"
  have "1024 * p \<le> sz" "sz < 1024 * (1024 * p)"
    using k(2,3) by (simp_all add: p_def [symmetric] power_add)
  with k(1) that show thesis by (simp add: p_def)
qed

lemma tenths_close:
  assumes "0 < d"
  shows "2 * \<bar>tenths n d * d - 10 * n\<bar> \<le> d"
proof -
  define q r where "q = 10 * n div d" and "r = 10 * n mod d"
  have n: "10 * n = q * d + r" and r: "0 \<le> r" "r < d"
    using assms by (simp_all add: q_def r_def)
  show ?thesis
  proof (cases "2 * r > d \<or> (2 * r = d \<and> odd q)")
    case True
    then have "tenths n d = q + 1" by (simp add: tenths_def q_def r_def)
    then have "tenths n d * d - 10 * n = d - r" using n by (simp add: algebra_simps)
    with True r show ?thesis by auto
  next
    case False
    then have "tenths n d = q" by (auto simp: tenths_def q_def r_def Let_def)
    then have "tenths n d * d - 10 * n = - r" by (simp add: n)
    with False r show ?thesis by auto
  qed
qed

lemma FormatBytes_None_iff: "FormatBytes sz = None \<longleftrightarrow> 1024 ^ 5 \<le> sz"
proof (cases "1024 \<le> sz")
  case True
  then obtain k where k: "FormatBytes_loop (sz div 1024) 1024 0 = (1024 ^ (k + 1), k)"
      "1024 ^ (k + 1) \<le> sz" "sz < 1024 ^ (k + 2)" by (rule FormatBytes_loop_size)
  have "FormatBytes sz = None \<longleftrightarrow> 4 \<le> k"
    using True k(1) by (simp add: FormatBytes_def size_suffixes_def not_less)
  also have "\<dots> \<longleftrightarrow> 1024 ^ 5 \<le> sz"
  proof
    assume "4 \<le> k"
    then have "(1024::int) ^ 5 \<le> 1024 ^ (k + 1)" by (intro power_increasing) auto
    with k(2) show "1024 ^ 5 \<le> sz" by linarith
  next
    assume "1024 ^ 5 \<le> sz"
    with k(3) have "(1024::int) ^ 5 < 1024 ^ (k + 2)" by linarith
    then have "5 < k + 2" by (rule power_less_imp_less_exp [rotated]) simp
    then show "4 \<le> k" by simp
  qed
  finally show ?thesis .
qed (auto simp: FormatBytes_def)

section \<open>Properties\<close>

text \<open>
  A file name that went through \<open>SanitizeFileName\<close> has the length of the original, contains no
  path separator and no colon, keeps every other byte, and is not changed by sanitising it again.
\<close>

theorem SanitizeFileName_safe:
  "length (SanitizeFileName name) = length name
   \<and> set (SanitizeFileName name) \<inter> {CHR ''/'', CHR '':'', CHR 0x5C} = {}
   \<and> filter (\<lambda>c. c \<noteq> CHR ''_'') (SanitizeFileName name)
       = filter (\<lambda>c. c \<notin> {CHR ''/'', CHR '':'', CHR 0x5C, CHR ''_''}) name
   \<and> SanitizeFileName (SanitizeFileName name) = SanitizeFileName name"
proof (intro conjI)
  show "filter (\<lambda>c. c \<noteq> CHR ''_'') (SanitizeFileName name)
       = filter (\<lambda>c. c \<notin> {CHR ''/'', CHR '':'', CHR 0x5C, CHR ''_''}) name"
    unfolding SanitizeFileName_map by (induction name) auto
qed (simp_all add: SanitizeFileName_clean, simp add: SanitizeFileName_map)

text \<open>
  \<open>FormatBytes\<close> panics (index out of range in its table of four suffixes) exactly from one
  pebibyte (1024 to the 5th) on.
\<close>

theorem FormatBytes_panics_iff: "FormatBytes sz = None \<longleftrightarrow> 1024 ^ 5 \<le> sz"
  by (rule FormatBytes_None_iff)

text \<open>
  Below a pebibyte \<open>FormatBytes\<close> shows the size in the greatest unit that is at most the size,
  as a number of tenths that differs from the true quotient by at most half a tenth.
\<close>

theorem FormatBytes_nearest_tenth:
  assumes "1024 \<le> sz" and "sz < 1024 ^ 5"
  shows "\<exists>k t. k < 4 \<and> FormatBytes sz = Some (show_tenths t @ '' '' @ size_suffixes ! k)
           \<and> 1024 ^ (k + 1) \<le> sz \<and> sz < 1024 ^ (k + 2)
           \<and> 2 * \<bar>t * 1024 ^ (k + 1) - 10 * sz\<bar> \<le> 1024 ^ (k + 1)"
proof -
  obtain k where k: "FormatBytes_loop (sz div 1024) 1024 0 = (1024 ^ (k + 1), k)"
      "1024 ^ (k + 1) \<le> sz" "sz < 1024 ^ (k + 2)" using assms(1) by (rule FormatBytes_loop_size)
  have "(1024::int) ^ (k + 1) < 1024 ^ 5" using k(2) assms(2) by linarith
  then have "k + 1 < 5" by (rule power_less_imp_less_exp [rotated]) simp
  then have k4: "k < 4" by simp
  then have "FormatBytes sz =
      Some (show_tenths (tenths sz (1024 ^ (k + 1))) @ '' '' @ size_suffixes ! k)"
    using assms(1) k(1) by (simp add: FormatBytes_def size_suffixes_def)
  moreover have "2 * \<bar>tenths sz (1024 ^ (k + 1)) * 1024 ^ (k + 1) - 10 * sz\<bar> \<le> 1024 ^ (k + 1)"
    by (rule tenths_close) simp
  ultimately show ?thesis using k4 k(2,3) by blast
qed

theorem FormatBytes_nearest_tenth_witness:
  "FormatBytes 1536 = Some ''1.5 KB'' \<and>
   (\<exists>k t. k < 4 \<and> FormatBytes 1536 = Some (show_tenths t @ '' '' @ size_suffixes ! k)
           \<and> 1024 ^ (k + 1) \<le> (1536::int) \<and> (1536::int) < 1024 ^ (k + 2)
           \<and> 2 * \<bar>t * 1024 ^ (k + 1) - 10 * 1536\<bar> \<le> 1024 ^ (k + 1))"
proof
  show "FormatBytes 1536 = Some ''1.5 KB''" by code_simp
  show "\<exists>k t. k < 4 \<and> FormatBytes 1536 = Some (show_tenths t @ '' '' @ size_suffixes ! k)
           \<and> 1024 ^ (k + 1) \<le> (1536::int) \<and> (1536::int) < 1024 ^ (k + 2)
           \<and> 2 * \<bar>t * 1024 ^ (k + 1) - 10 * 1536\<bar> \<le> 1024 ^ (k + 1)"
    by (rule FormatBytes_nearest_tenth) simp_all
qed

text \<open>
  \<open>ParseLines\<close> returns, in order, exactly the lines of the output that are non-empty after
  trimming and pass the filter, each trimmed and without a line break.
\<close>

theorem ParseLines_items:
  "ParseLines output keep =
     [l \<leftarrow> map TrimSpace (Split output (CHR 0x0A)). l \<noteq> '''' \<and> (\<forall>k. keep = Some k \<longrightarrow> k l)]
   \<and> (\<forall>l \<in> set (ParseLines output keep). TrimSpace l = l \<and> CHR 0x0A \<notin> set l)"
proof
  show "ParseLines output keep =
     [l \<leftarrow> map TrimSpace (Split output (CHR 0x0A)). l \<noteq> '''' \<and> (\<forall>k. keep = Some k \<longrightarrow> k l)]"
    unfolding ParseLines_filter by (rule filter_cong) (auto split: option.splits)
  show "\<forall>l \<in> set (ParseLines output keep). TrimSpace l = l \<and> CHR 0x0A \<notin> set l"
    using set_TrimSpace Split_no_sep by (fastforce simp: ParseLines_filter)
qed

theorem ParseLines_items_witness:
  "ParseLines '' a '' (Some (\<lambda>l. l = ''a'')) = [''a''] \<and> TrimSpace ''a'' = ''a''"
  using ParseLines_items [of "'' a ''" "Some (\<lambda>l. l = ''a'')"]
  by (simp add: trim_eval)

end
