(* ===== verification/Calf_Files.thy ===== *)
theory Calf_Files
  imports Calf_Prelude "HOL-Library.Product_Lexorder"
begin

text \<open>
  The part of the file system that the on-disk stores use.  A store's directory is a list of nodes in
  the order of \<open>os.ReadDir\<close> (ascending names); a file holds a decoded JSON value or bytes that do not
  decode.  Which calls fail is an argument of every operation (\<open>faults\<close>), so a theorem covers every
  pattern of I/O errors; a failing \<open>os.WriteFile\<close> may have truncated the file.  JSON encoding is the
  identity on the typed data: the strings of the model are valid UTF-8.
\<close>

named_theorems file_simps "facts about the modelled file operations"

datatype fsop = OpReadDir | OpRead | OpMkdir | OpWrite | OpRemove | OpRename

text \<open>\<open>Fault e truncated\<close>: the call returns \<open>e\<close>, and a write has truncated its file.\<close>

datatype fault = Fault (fault_error: go_error) (fault_truncated: bool)

type_synonym 'k faults = "fsop \<Rightarrow> 'k \<Rightarrow> fault option"

definition no_faults :: "'k faults" where
  "no_faults op k = None"

datatype 'a payload = Json 'a | Garbage go_error

datatype 'a node = Folder | File "'a payload"

type_synonym ('k, 'n) directory = "('k \<times> 'n) list"

text \<open>\<open>os.IsNotExist\<close> tells a missing file from every other failure.\<close>

datatype read_error = NotExist | IOFault go_error

fun file_error :: "read_error \<Rightarrow> go_error" where
  "file_error NotExist = Sentinel ErrNotExist"
| "file_error (IOFault e) = e"

definition entry :: "('k, 'n) directory \<Rightarrow> 'k \<Rightarrow> 'n option" where
  "entry d k = map_of d k"

fun put :: "'k::linorder \<Rightarrow> 'n \<Rightarrow> ('k, 'n) directory \<Rightarrow> ('k, 'n) directory" where
  "put k n [] = [(k, n)]"
| "put k n ((k', n') # d) =
     (if k < k' then (k, n) # (k', n') # d else if k = k' then (k, n) # d else (k', n') # put k n d)"

definition del :: "'k \<Rightarrow> ('k, 'n) directory \<Rightarrow> ('k, 'n) directory" where
  "del k d = filter (\<lambda>(k', _). k' \<noteq> k) d"

text \<open>The laws of a directory that the stores rely on.\<close>

locale directory_laws =
  fixes lookup_node :: "'d \<Rightarrow> 'k \<Rightarrow> 'n option"
    and put_node :: "'k \<Rightarrow> 'n \<Rightarrow> 'd \<Rightarrow> 'd"
    and del_node :: "'k \<Rightarrow> 'd \<Rightarrow> 'd"
  assumes lookup_put: "lookup_node (put_node k n d) k' = (if k' = k then Some n else lookup_node d k')"
    and lookup_del: "lookup_node (del_node k d) k' = (if k' = k then None else lookup_node d k')"
begin

lemma put_put: "lookup_node (put_node k n (put_node k m d)) k' = lookup_node (put_node k n d) k'"
  by (simp add: lookup_put)

lemma del_put: "lookup_node (del_node k (put_node k n d)) k' = lookup_node (del_node k d) k'"
  by (simp add: lookup_put lookup_del)

end

interpretation dir: directory_laws entry put del
proof
  fix k k' :: "'k::linorder" and n :: 'n and d
  show "entry (put k n d) k' = (if k' = k then Some n else entry d k')"
    by (induction k n d rule: put.induct) (auto simp: entry_def)
  show "entry (del k d) k' = (if k' = k then None else entry d k')"
    by (induction d) (auto simp: entry_def del_def)
qed

lemmas dir_laws [simp, file_simps] = dir.lookup_put dir.lookup_del

lemma entry_Nil [simp, file_simps]: "entry [] k = None"
  by (simp add: entry_def)

text \<open>The order of \<open>os.ReadDir\<close> is kept.\<close>

lemma put_keys: "set (map fst (put k n d)) = insert k (set (map fst d))"
  by (induction k n d rule: put.induct) auto

lemma put_sorted: "sorted_wrt (<) (map fst d) \<Longrightarrow> sorted_wrt (<) (map fst (put k n d))"
proof (induction k n d rule: put.induct)
  case (2 k n k' n' d)
  then show ?case using put_keys [of k n d] by (auto simp: sorted_wrt_append)
qed simp

lemma del_sorted: "sorted_wrt (<) (map fst d) \<Longrightarrow> sorted_wrt (<) (map fst (del k d))"
  by (induction d) (auto simp: del_def)

section \<open>Calls\<close>

definition ReadFile :: "'k faults \<Rightarrow> ('k, 'a node) directory \<Rightarrow> 'k \<Rightarrow> read_error + 'a payload" where
  "ReadFile io d k =
     (case io OpRead k of
        Some f \<Rightarrow> Inl (IOFault (fault_error f))
      | None \<Rightarrow>
          (case entry d k of
             None \<Rightarrow> Inl NotExist
           | Some Folder \<Rightarrow> Inl (IOFault (Errorf ''is a directory''))
           | Some (File p) \<Rightarrow> Inr p))"

definition WriteFile ::
    "'k::linorder faults \<Rightarrow> ('k, 'a node) directory \<Rightarrow> 'k \<Rightarrow> 'a \<Rightarrow> go_error option \<times> ('k, 'a node) directory" where
  "WriteFile io d k v =
     (case io OpWrite k of
        Some f \<Rightarrow> (Some (fault_error f),
                   if fault_truncated f then put k (File (Garbage (Errorf ''unexpected end of JSON input''))) d else d)
      | None \<Rightarrow>
          (case entry d k of
             Some Folder \<Rightarrow> (Some (Errorf ''is a directory''), d)
           | _ \<Rightarrow> (None, put k (File (Json v)) d)))"

definition Remove :: "'k faults \<Rightarrow> ('k, 'n) directory \<Rightarrow> 'k \<Rightarrow> go_error option \<times> ('k, 'n) directory" where
  "Remove io d k =
     (case io OpRemove k of
        Some f \<Rightarrow> (Some (fault_error f), d)
      | None \<Rightarrow> (case entry d k of None \<Rightarrow> (Some (Sentinel ErrNotExist), d) | Some _ \<Rightarrow> (None, del k d)))"

text \<open>\<open>os.Rename\<close> replaces a file, but not a folder by a file or a file by a folder.\<close>

definition Rename ::
    "'k::linorder faults \<Rightarrow> ('k, 'a node) directory \<Rightarrow> 'k \<Rightarrow> 'k \<Rightarrow> go_error option \<times> ('k, 'a node) directory" where
  "Rename io d old new =
     (case io OpRename old of
        Some f \<Rightarrow> (Some (fault_error f), d)
      | None \<Rightarrow>
          (case entry d old of
             None \<Rightarrow> (Some (Sentinel ErrNotExist), d)
           | Some n \<Rightarrow>
               (case entry d new of
                  None \<Rightarrow> (None, put new n (del old d))
                | Some m \<Rightarrow>
                    if (m = Folder) \<noteq> (n = Folder) then (Some (Errorf ''file exists''), d) else (None, put new n (del old d)))))"

text \<open>\<open>json.Unmarshal\<close> on what was read.\<close>

fun Unmarshal :: "'a payload \<Rightarrow> 'a result" where
  "Unmarshal (Json v) = Inr v"
| "Unmarshal (Garbage e) = Inl e"

lemma ReadFile_no_faults [simp, file_simps]:
  "entry d k = Some (File p) \<Longrightarrow> ReadFile no_faults d k = Inr p"
  by (simp add: ReadFile_def no_faults_def)

lemma ReadFile_NotExist: "ReadFile io d k = Inl NotExist \<Longrightarrow> entry d k = None"
  by (auto simp: ReadFile_def split: option.splits node.splits)

lemma ReadFile_Inr: "ReadFile io d k = Inr p \<Longrightarrow> entry d k = Some (File p)"
  by (auto simp: ReadFile_def split: option.splits node.splits)

lemma ReadFile_cong: "entry d k = entry d' k \<Longrightarrow> ReadFile io d k = ReadFile io d' k"
  by (simp add: ReadFile_def cong: option.case_cong)

lemma WriteFile_ok:
  assumes "WriteFile io d k v = (None, d')"
  shows "d' = put k (File (Json v)) d"
  using assms by (auto simp: WriteFile_def split: option.splits node.splits)

lemma WriteFile_other:
  assumes "WriteFile io d k v = (e, d')" "k' \<noteq> k"
  shows "entry d' k' = entry d k'"
  using assms by (auto simp: WriteFile_def split: option.splits node.splits if_splits)

lemma Rename_ok:
  "Rename io d old new = (None, d') \<Longrightarrow> \<exists>n. entry d old = Some n \<and> d' = put new n (del old d)"
  by (auto simp: Rename_def split: option.splits if_splits)

lemma Rename_error: "Rename io d old new = (Some e, d') \<Longrightarrow> d' = d"
  by (auto simp: Rename_def split: option.splits if_splits)

section \<open>Stores of keyed items\<close>

text \<open>
  The contract of the stores: after a successful save the item is found under its key, in the form in
  which the store keeps it, and every other key is as before.  \<open>wf\<close> is the invariant of the store.
\<close>

locale keyed_store =
  fixes wf :: "'s \<Rightarrow> bool"
    and find_item :: "'s \<Rightarrow> 'k \<Rightarrow> 'v option"
    and save_item :: "'s \<Rightarrow> 'v \<Rightarrow> 's option"
    and key_of :: "'v \<Rightarrow> 'k"
    and kept :: "'v \<Rightarrow> 'v"
  assumes save_wf: "wf s \<Longrightarrow> save_item s v = Some s' \<Longrightarrow> wf s'"
    and find_save: "wf s \<Longrightarrow> save_item s v = Some s' \<Longrightarrow>
      find_item s' k = (if k = key_of v then Some (kept v) else find_item s k)"
begin

fun save_all :: "'s \<Rightarrow> 'v list \<Rightarrow> 's option" where
  "save_all s [] = Some s"
| "save_all s (v # vs) = (case save_item s v of None \<Rightarrow> None | Some s' \<Rightarrow> save_all s' vs)"

lemma save_all_wf: "wf s \<Longrightarrow> save_all s vs = Some s' \<Longrightarrow> wf s'"
  by (induction vs arbitrary: s) (auto split: option.splits dest: save_wf)

text \<open>After several saves the last item saved under a key is found.\<close>

lemma find_save_all:
  assumes "wf s" "save_all s vs = Some s'"
  shows "find_item s' k =
    (case rev (filter (\<lambda>v. key_of v = k) vs) of [] \<Rightarrow> find_item s k | v # _ \<Rightarrow> Some (kept v))"
  using assms
proof (induction vs arbitrary: s)
  case (Cons v vs)
  then obtain s1 where s1: "save_item s v = Some s1" "save_all s1 vs = Some s'"
    by (auto split: option.splits)
  with Cons.prems have "wf s1" by (auto dest: save_wf)
  with Cons.IH s1 find_save [OF Cons.prems(1) s1(1), of k] show ?case
    by (cases "rev (filter (\<lambda>v. key_of v = k) vs)") auto
qed simp

lemma saves_commute:
  assumes "wf s" "save_all s [v, w] = Some s1" "save_all s [w, v] = Some s2" "key_of v \<noteq> key_of w"
  shows "find_item s1 k = find_item s2 k"
  using find_save_all [OF assms(1,2)] find_save_all [OF assms(1,3)] assms(4) by auto

end

locale keyed_store_delete = keyed_store wf find_item save_item key_of kept
  for wf :: "'s \<Rightarrow> bool" and find_item :: "'s \<Rightarrow> 'k \<Rightarrow> 'v option"
    and save_item :: "'s \<Rightarrow> 'v \<Rightarrow> 's option" and key_of :: "'v \<Rightarrow> 'k" and kept :: "'v \<Rightarrow> 'v" +
  fixes delete_item :: "'s \<Rightarrow> 'q \<Rightarrow> 's option" and target :: "'q \<Rightarrow> 'k"
  assumes delete_wf: "wf s \<Longrightarrow> delete_item s q = Some s' \<Longrightarrow> wf s'"
    and find_delete: "wf s \<Longrightarrow> delete_item s q = Some s' \<Longrightarrow>
      find_item s' k = (if k = target q then None else find_item s k)"
begin

text \<open>Deleting what was just added restores every other key, and the key when it was free before.\<close>

lemma delete_save:
  assumes "wf s" "save_item s v = Some s1" "delete_item s1 q = Some s2" "target q = key_of v"
    and "find_item s (key_of v) = None"
  shows "find_item s2 k = find_item s k"
  using find_save [OF assms(1,2)] find_delete [OF save_wf [OF assms(1,2)] assms(3)] assms(4,5) by auto

end

end
