(* ===== verification/Calf_Time.thy ===== *)
theory Calf_Time
  imports Calf_Prelude "HOL-Library.Monad_Syntax"
begin

text \<open>
  The part of Go's package \<open>time\<close> that calf uses.  An instant (\<open>time.Time\<close>) is a number of
  nanoseconds since the Unix epoch; a location is the table of zone transitions Go keeps.  The
  calendar is the cycle-cutting algorithm of \<open>Time.abs.date\<close>.  The main facts are that the civil
  date of a day determines the day, and that parsing an RFC 3339 time stamp gives back the instant
  it was formatted from, cut to the second.
\<close>

named_theorems calendar "facts about the civil calendar"

type_synonym Time = int

abbreviation Second :: int where "Second \<equiv> 1000000000"

abbreviation Minute :: int where "Minute \<equiv> 60 * Second"

definition zeroTime :: Time where
  "zeroTime = - 62135596800 * Second"

definition IsZero :: "Time \<Rightarrow> bool" where
  "IsZero t \<longleftrightarrow> t = zeroTime"

definition Truncate :: "Time \<Rightarrow> int \<Rightarrow> Time" where
  "Truncate t d = t - t mod d"

section \<open>The civil calendar\<close>

definition isLeap :: "int \<Rightarrow> bool" where
  "isLeap y \<longleftrightarrow> y mod 4 = 0 \<and> (y mod 100 \<noteq> 0 \<or> y mod 400 = 0)"

definition month_lengths :: "bool \<Rightarrow> int list" where
  "month_lengths leap = [31, if leap then 29 else 28, 31, 30, 31, 30, 31, 31, 30, 31, 30, 31]"

text \<open>The month (from 1) and day of a day of the year (from 0).\<close>

fun month_day :: "int list \<Rightarrow> int \<Rightarrow> nat \<Rightarrow> nat \<times> int" where
  "month_day [] d m = (m, d + 1)"
| "month_day (l # ls) d m = (if d < l then (m, d + 1) else month_day ls (d - l) (Suc m))"

text \<open>The year and the day of that year, from the days since 1 January of year 1.\<close>

definition year_day :: "int \<Rightarrow> int \<times> int" where
  "year_day z =
     (let n4 = z div 146097; d1 = z - 146097 * n4;
          c = d1 div 36524 - d1 div 36524 div 4; d2 = d1 - 36524 * c;
          q = d2 div 1461; d3 = d2 - 1461 * q;
          r = d3 div 365 - d3 div 365 div 4; d4 = d3 - 365 * r
      in (400 * n4 + 100 * c + 4 * q + r + 1, d4))"

text \<open>Days from the Unix epoch to year, month and day, and back.\<close>

definition civil_from_days :: "int \<Rightarrow> int \<times> nat \<times> int" where
  "civil_from_days z =
     (let (y, d) = year_day (z + 719162); (m, dd) = month_day (month_lengths (isLeap y)) d 1
      in (y, m, dd))"

definition days_before_year :: "int \<Rightarrow> int" where
  "days_before_year y = 365 * (y - 1) + (y - 1) div 4 - (y - 1) div 100 + (y - 1) div 400"

definition days_from_civil :: "int \<Rightarrow> nat \<Rightarrow> int \<Rightarrow> int" where
  "days_from_civil y m d =
     days_before_year y + sum_list (take (m - 1) (month_lengths (isLeap y))) + d - 1 - 719162"

definition daysIn :: "nat \<Rightarrow> int \<Rightarrow> int" where
  "daysIn m y = month_lengths (isLeap y) ! (m - 1)"

text \<open>0 is Sunday; the epoch was a Thursday.\<close>

definition weekday :: "int \<Rightarrow> int" where
  "weekday z = (z + 4) mod 7"

subsection \<open>The date of a day determines the day\<close>

text \<open>
  Cutting off four cycles of length \<open>n\<close>, the last of them one day longer.
\<close>

lemma cut_cycle:
  fixes d n :: int
  assumes n: "0 < n" and d: "0 \<le> d" "d \<le> 4 * n" and c: "c = d div n - d div n div 4"
  shows "0 \<le> c \<and> c \<le> 3 \<and> 0 \<le> d - n * c \<and> d - n * c \<le> n \<and> (d - n * c = n \<longrightarrow> c = 3 \<and> d = 4 * n)"
proof (cases "d = 4 * n")
  case True
  with n c show ?thesis by simp
next
  case False
  with d have "d < 4 * n" by simp
  have "d div n < 4"
  proof (rule ccontr)
    assume "\<not> d div n < 4"
    then have "4 * n \<le> d div n * n" using n by (intro mult_right_mono) auto
    with \<open>d < 4 * n\<close> pos_mod_sign [OF n, of d] div_mult_mod_eq [of d n] show False by linarith
  qed
  moreover have "0 \<le> d div n" using n d by (simp add: pos_imp_zdiv_nonneg_iff)
  ultimately have c: "c = d div n" and b: "0 \<le> c" "c \<le> 3" using c by auto
  have "d - n * c = d mod n" by (simp add: c minus_mult_div_eq_mod)
  moreover have "d mod n < n" "0 \<le> d mod n" using n by auto
  ultimately show ?thesis using b by auto
qed

definition year_parts :: "int \<Rightarrow> int \<Rightarrow> int \<Rightarrow> int \<Rightarrow> int \<Rightarrow> bool" where
  "year_parts d n4 c q r \<longleftrightarrow>
     0 \<le> c \<and> c \<le> 3 \<and> 0 \<le> q \<and> q \<le> 24 \<and> 0 \<le> r \<and> r \<le> 3 \<and> 0 \<le> d \<and> d \<le> 365
     \<and> (d = 365 \<longrightarrow> r = 3 \<and> (q = 24 \<longrightarrow> c = 3))"

lemma year_day_parts:
  "\<exists>n4 c q r. year_day z = (400 * n4 + 100 * c + 4 * q + r + 1,
       z - 146097 * n4 - 36524 * c - 1461 * q - 365 * r)
     \<and> year_parts (z - 146097 * n4 - 36524 * c - 1461 * q - 365 * r) n4 c q r"
proof -
  define n4 where "n4 = z div 146097"
  define d1 where "d1 = z - 146097 * n4"
  define c where "c = d1 div 36524 - d1 div 36524 div 4"
  define d2 where "d2 = d1 - 36524 * c"
  define q where "q = d2 div 1461"
  define d3 where "d3 = d2 - 1461 * q"
  define r where "r = d3 div 365 - d3 div 365 div 4"
  have d1: "0 \<le> d1" "d1 \<le> 146096" unfolding d1_def n4_def by linarith+
  have c: "0 \<le> c" "c \<le> 3" and d2: "0 \<le> d2" "d2 \<le> 36524" "d2 = 36524 \<longrightarrow> c = 3"
    using cut_cycle [of 36524 d1 c] d1 by (simp_all add: c_def d2_def)
  have q: "0 \<le> q" "q \<le> 24" and d3: "0 \<le> d3" "d3 \<le> 1460" "q = 24 \<and> d3 = 1460 \<longrightarrow> d2 = 36524"
    using d2 unfolding d3_def q_def by linarith+
  have r: "0 \<le> r" "r \<le> 3" and d4: "0 \<le> d3 - 365 * r" "d3 - 365 * r \<le> 365"
      "d3 - 365 * r = 365 \<longrightarrow> r = 3 \<and> d3 = 1460"
    using cut_cycle [of 365 d3 r] d3 by (simp_all add: r_def)
  have yd: "year_day z = (400 * n4 + 100 * c + 4 * q + r + 1, d3 - 365 * r)"
    unfolding year_day_def Let_def r_def d3_def q_def d2_def c_def d1_def n4_def ..
  have "d3 - 365 * r = 365 \<longrightarrow> r = 3 \<and> (q = 24 \<longrightarrow> c = 3)"
    using d4(3) d3(3) d2(3) by blast
  then have "year_parts (d3 - 365 * r) n4 c q r"
    using c q r d4 by (simp add: year_parts_def)
  moreover have e: "d3 = z - 146097 * n4 - 36524 * c - 1461 * q"
    by (simp add: d3_def d2_def d1_def)
  ultimately show ?thesis using yd unfolding e by blast
qed

lemma cycle_mod: "1 \<le> x \<Longrightarrow> x \<le> n \<Longrightarrow> (n * k + x) mod n = 0 \<longleftrightarrow> x = n" for x n k :: int
  by (cases "x = n") auto

lemma cycle_div: "0 \<le> x \<Longrightarrow> x < n \<Longrightarrow> (n * k + x) div n = k" for x n k :: int
  by simp

lemma year_parts_leap:
  assumes "year_parts d n4 c q r"
  shows "isLeap (400 * n4 + 100 * c + 4 * q + r + 1) \<longleftrightarrow> r = 3 \<and> (q = 24 \<longrightarrow> c = 3)"
proof -
  have b: "0 \<le> c" "c \<le> 3" "0 \<le> q" "q \<le> 24" "0 \<le> r" "r \<le> 3"
    using assms by (simp_all add: year_parts_def)
  let ?y = "400 * n4 + 100 * c + 4 * q + r + 1"
  have "?y mod 4 = 0 \<longleftrightarrow> r + 1 = 4"
    using cycle_mod [of "r + 1" 4 "100 * n4 + 25 * c + q"] b by (simp add: algebra_simps)
  moreover have "?y mod 100 = 0 \<longleftrightarrow> 4 * q + r + 1 = 100"
    using cycle_mod [of "4 * q + r + 1" 100 "4 * n4 + c"] b by (simp add: algebra_simps)
  moreover have "?y mod 400 = 0 \<longleftrightarrow> 100 * c + 4 * q + r + 1 = 400"
    using cycle_mod [of "100 * c + 4 * q + r + 1" 400 n4] b by (simp add: algebra_simps)
  moreover have "4 * q + r + 1 = 100 \<longleftrightarrow> q = 24 \<and> r = 3" using b by linarith
  moreover have "100 * c + 4 * q + r + 1 = 400 \<longleftrightarrow> c = 3 \<and> q = 24 \<and> r = 3" using b by linarith
  ultimately show ?thesis unfolding isLeap_def by auto
qed

lemma year_parts_before:
  assumes "year_parts d n4 c q r"
  shows "days_before_year (400 * n4 + 100 * c + 4 * q + r + 1)
     = 146097 * n4 + 36524 * c + 1461 * q + 365 * r"
proof -
  have b: "0 \<le> c" "c \<le> 3" "0 \<le> q" "q \<le> 24" "0 \<le> r" "r \<le> 3"
    using assms by (simp_all add: year_parts_def)
  let ?y = "400 * n4 + 100 * c + 4 * q + r"
  have "?y div 4 = 100 * n4 + 25 * c + q"
    using cycle_div [of r 4 "100 * n4 + 25 * c + q"] b by (simp add: algebra_simps)
  moreover have "?y div 100 = 4 * n4 + c"
    using cycle_div [of "4 * q + r" 100 "4 * n4 + c"] b by (simp add: algebra_simps)
  moreover have "?y div 400 = n4"
    using cycle_div [of "100 * c + 4 * q + r" 400 n4] b by (simp add: algebra_simps)
  ultimately show ?thesis unfolding days_before_year_def by simp
qed

lemma year_day_spec [calendar]:
  assumes "year_day z = (y, d)"
  shows "days_before_year y + d = z \<and> 0 \<le> d \<and> d < (if isLeap y then 366 else 365)"
proof -
  obtain n4 c q r where e: "y = 400 * n4 + 100 * c + 4 * q + r + 1"
      "d = z - 146097 * n4 - 36524 * c - 1461 * q - 365 * r" and p: "year_parts d n4 c q r"
    using year_day_parts [of z] assms by auto
  from p have "0 \<le> d" "d \<le> 365" "d = 365 \<longrightarrow> r = 3 \<and> (q = 24 \<longrightarrow> c = 3)"
    by (simp_all add: year_parts_def)
  moreover have "days_before_year y + d = z" using year_parts_before [OF p] e by simp
  moreover have "isLeap y \<longleftrightarrow> r = 3 \<and> (q = 24 \<longrightarrow> c = 3)"
    unfolding e(1) by (rule year_parts_leap [OF p])
  ultimately show ?thesis by (cases "d = 365") auto
qed

text \<open>Scanning the months: the result is a month and a day that exists in it.\<close>

lemma month_day_spec:
  assumes "0 \<le> d" "d < sum_list ls" "month_day ls d m = (m', d')"
  shows "m \<le> m' \<and> m' < m + length ls \<and> 1 \<le> d' \<and> d' \<le> ls ! (m' - m)
    \<and> sum_list (take (m' - m) ls) + d' - 1 = d"
  using assms
proof (induction ls d m rule: month_day.induct)
  case (2 l ls d m)
  show ?case
  proof (cases "d < l")
    case True
    with 2 show ?thesis by auto
  next
    case False
    with 2 have h: "Suc m \<le> m' \<and> m' < Suc m + length ls \<and> 1 \<le> d' \<and> d' \<le> ls ! (m' - Suc m)
        \<and> sum_list (take (m' - Suc m) ls) + d' - 1 = d - l" by auto
    then have "m' - m = Suc (m' - Suc m)" by linarith
    with h show ?thesis by auto
  qed
qed simp

lemma sum_month_lengths [simp]: "sum_list (month_lengths leap) = (if leap then 366 else 365)"
  by (simp add: month_lengths_def)

lemma length_month_lengths [simp]: "length (month_lengths leap) = 12"
  by (simp add: month_lengths_def)

lemma civil_from_days_spec [calendar]:
  assumes "civil_from_days z = (y, m, d)"
  shows "days_from_civil y m d = z \<and> 1 \<le> m \<and> m \<le> 12 \<and> 1 \<le> d \<and> d \<le> daysIn m y"
proof -
  obtain yd where y: "year_day (z + 719162) = (y, yd)"
      and md: "month_day (month_lengths (isLeap y)) yd 1 = (m, d)"
    using assms by (auto simp: civil_from_days_def split: prod.splits)
  have s: "days_before_year y + yd = z + 719162" "0 \<le> yd" "yd < sum_list (month_lengths (isLeap y))"
    using year_day_spec [OF y] by auto
  then show ?thesis
    using month_day_spec [OF s(2,3) md] by (auto simp: days_from_civil_def daysIn_def)
qed

lemma daysIn_bound: "1 \<le> m \<Longrightarrow> m \<le> 12 \<Longrightarrow> daysIn m y \<le> 31"
proof -
  assume "1 \<le> m" "m \<le> 12"
  then have "month_lengths (isLeap y) ! (m - 1) \<in> set (month_lengths (isLeap y))"
    by (intro nth_mem) simp
  then show ?thesis by (auto simp: daysIn_def month_lengths_def split: if_splits)
qed

section \<open>Locations\<close>

text \<open>
  A location: the offset (seconds east of UTC) before the first transition and the transitions
  (instant in Unix seconds, new offset) in ascending order.
\<close>

record Location =
  firstOffset :: int
  transitions :: "(int \<times> int) list"

text \<open>\<open>Location.lookup\<close>: the offset in force and the bounds of its validity.\<close>

fun zone_lookup :: "int \<Rightarrow> int option \<Rightarrow> (int \<times> int) list \<Rightarrow> int \<Rightarrow> int \<times> int option \<times> int option" where
  "zone_lookup off start [] sec = (off, start, None)"
| "zone_lookup off start ((w, off') # ts) sec =
     (if sec < w then (off, start, Some w) else zone_lookup off' (Some w) ts sec)"

definition lookup :: "Location \<Rightarrow> int \<Rightarrow> int \<times> int option \<times> int option" where
  "lookup loc sec = zone_lookup (firstOffset loc) None (transitions loc) sec"

definition offset_at :: "Location \<Rightarrow> int \<Rightarrow> int" where
  "offset_at loc sec = fst (lookup loc sec)"

definition UTC :: Location where
  "UTC = \<lparr>firstOffset = 0, transitions = []\<rparr>"

definition Unix :: "Time \<Rightarrow> int" where
  "Unix t = t div Second"

definition local_sec :: "Location \<Rightarrow> Time \<Rightarrow> int" where
  "local_sec loc t = Unix t + offset_at loc (Unix t)"

definition local_day :: "Location \<Rightarrow> Time \<Rightarrow> int" where
  "local_day loc t = local_sec loc t div 86400"

definition local_sod :: "Location \<Rightarrow> Time \<Rightarrow> int" where
  "local_sod loc t = local_sec loc t mod 86400"

definition Weekday :: "Location \<Rightarrow> Time \<Rightarrow> int" where
  "Weekday loc t = weekday (local_day loc t)"

text \<open>
  \<open>time.Date\<close> on a day number: local seconds are taken for UTC, the offset found there is applied,
  and looked up once more when the result lies outside its validity.
\<close>

definition date_sec :: "Location \<Rightarrow> int \<Rightarrow> int" where
  "date_sec loc unix =
     (let (off, start, stop) = lookup loc unix in
      if off = 0 then unix
      else
        let utc = unix - off in
        if (case start of None \<Rightarrow> False | Some a \<Rightarrow> utc < a) \<or> (case stop of None \<Rightarrow> False | Some b \<Rightarrow> b \<le> utc)
        then unix - offset_at loc utc
        else unix - off)"

definition Date :: "Location \<Rightarrow> int \<Rightarrow> nat \<Rightarrow> int \<Rightarrow> int \<Rightarrow> int \<Rightarrow> int \<Rightarrow> int \<Rightarrow> Time" where
  "Date loc year month day hour minute sec nsec =
     date_sec loc (days_from_civil year month day * 86400 + hour * 3600 + minute * 60 + sec) * Second + nsec"

text \<open>\<open>t.AddDate(0, 0, days)\<close>.\<close>

definition AddDays :: "Location \<Rightarrow> Time \<Rightarrow> int \<Rightarrow> Time" where
  "AddDays loc t days =
     (let (y, m, d) = civil_from_days (local_day loc t); sod = local_sod loc t
      in Date loc y m (d + days) (sod div 3600) (sod mod 3600 div 60) (sod mod 60) (t mod Second))"

lemma days_from_civil_add: "days_from_civil y m (d + k) = days_from_civil y m d + k"
  by (simp add: days_from_civil_def)

lemma Date_civil:
  "civil_from_days z = (y, m, d) \<Longrightarrow>
   Date loc y m (d + k) h mi s ns = date_sec loc ((z + k) * 86400 + h * 3600 + mi * 60 + s) * Second + ns"
  using civil_from_days_spec [of z y m d] by (simp add: Date_def days_from_civil_add)

lemma sod_parts: "(s :: int) div 3600 * 3600 + s mod 3600 div 60 * 60 + s mod 60 = s"
proof -
  have "s mod 3600 mod 60 = s mod 60" by (simp add: mod_mod_cancel)
  then have "s mod 3600 div 60 * 60 + s mod 60 = s mod 3600"
    by (metis div_mult_mod_eq)
  then show ?thesis using div_mult_mod_eq [of s 3600] by linarith
qed

lemma AddDays_eq:
  "AddDays loc t k = date_sec loc (local_sec loc t + k * 86400) * Second + t mod Second"
proof -
  let ?s = "local_sod loc t"
  obtain y m d where c: "civil_from_days (local_day loc t) = (y, m, d)" by (metis prod_cases3)
  have "local_day loc t * 86400 + ?s = local_sec loc t"
    by (simp add: local_day_def local_sod_def)
  then have e: "(local_day loc t + k) * 86400 + ?s div 3600 * 3600 + ?s mod 3600 div 60 * 60 + ?s mod 60
      = local_sec loc t + k * 86400"
    using sod_parts [of ?s] by (simp add: distrib_right)
  show ?thesis unfolding AddDays_def c Let_def prod.case Date_civil [OF c] e ..
qed

section \<open>Layouts\<close>

text \<open>\<open>appendInt\<close>: decimal, padded with zeros to a width.\<close>

definition appendInt :: "int \<Rightarrow> nat \<Rightarrow> string" where
  "appendInt x width =
     (let s = show_nat (nat \<bar>x\<bar>)
      in (if x < 0 then ''-'' else '''') @ replicate (width - length s) (CHR ''0'') @ s)"

text \<open>The layouts \<open>2006-01-02\<close> (with a separator), \<open>15-04-05\<close> and RFC 3339 in UTC.\<close>

definition format_date :: "string \<Rightarrow> Location \<Rightarrow> Time \<Rightarrow> string" where
  "format_date sep loc t =
     (let (y, m, d) = civil_from_days (local_day loc t)
      in appendInt y 4 @ sep @ appendInt (int m) 2 @ sep @ appendInt d 2)"

definition format_clock :: "string \<Rightarrow> Location \<Rightarrow> Time \<Rightarrow> string" where
  "format_clock sep loc t =
     (let sod = local_sod loc t
      in appendInt (sod div 3600) 2 @ sep @ appendInt (sod mod 3600 div 60) 2 @ sep @ appendInt (sod mod 60) 2)"

definition FormatRFC3339 :: "Time \<Rightarrow> string" where
  "FormatRFC3339 t = format_date ''-'' UTC t @ ''T'' @ format_clock '':'' UTC t @ ''Z''"

text \<open>\<open>getnum\<close>: one or two digits; two when \<open>fixed\<close>.\<close>

fun getnum :: "string \<Rightarrow> bool \<Rightarrow> (int \<times> string) option" where
  "getnum [] fixed = None"
| "getnum [a] fixed = (if is_digit a \<and> \<not> fixed then Some (int (digit_val a), []) else None)"
| "getnum (a # b # s) fixed =
     (if \<not> is_digit a then None
      else if \<not> is_digit b then (if fixed then None else Some (int (digit_val a), b # s))
      else Some (int (10 * digit_val a + digit_val b), s))"

fun skip :: "char \<Rightarrow> string \<Rightarrow> string option" where
  "skip c [] = None"
| "skip c (x # s) = (if x = c then Some s else None)"

definition getyear :: "string \<Rightarrow> (int \<times> string) option" where
  "getyear s =
     (if 4 \<le> length s \<and> list_all is_digit (take 4 s) then Some (int (digits_val (take 4 s)), drop 4 s)
      else None)"

text \<open>A fraction of a second the layout does not mention is accepted behind the seconds.\<close>

definition getfrac :: "string \<Rightarrow> int \<times> string" where
  "getfrac s =
     (case s of
        p # c # _ \<Rightarrow>
          if (p = CHR ''.'' \<or> p = CHR '','') \<and> is_digit c then
            let ds = takeWhile is_digit (tl s); ds9 = take 9 ds
            in (int (digits_val ds9) * 10 ^ (9 - length ds9), drop (length ds) (tl s))
          else (0, s)
      | _ \<Rightarrow> (0, s))"

definition getzone :: "string \<Rightarrow> (int \<times> string) option" where
  "getzone s =
     (case s of
        [] \<Rightarrow> None
      | c # r \<Rightarrow>
          if c = CHR ''Z'' then Some (0, r)
          else if length s < 6 \<or> s ! 3 \<noteq> CHR '':'' then None
          else do {
            (hr, _) \<leftarrow> getnum (take 2 r) True;
            (mm, _) \<leftarrow> getnum (take 2 (drop 4 s)) True;
            if hr > 24 \<or> mm > 60 then None
            else if c = CHR ''+'' then Some ((hr * 60 + mm) * 60, drop 6 s)
            else if c = CHR ''-'' then Some (- ((hr * 60 + mm) * 60), drop 6 s)
            else None
          })"

definition ParseRFC3339 :: "string \<Rightarrow> Time option" where
  "ParseRFC3339 value = do {
     (year, v) \<leftarrow> getyear value;
     v \<leftarrow> skip (CHR ''-'') v;
     (month, v) \<leftarrow> getnum v True;
     (if month \<le> 0 \<or> 12 < month then None else Some ());
     v \<leftarrow> skip (CHR ''-'') v;
     (day, v) \<leftarrow> getnum v True;
     v \<leftarrow> skip (CHR ''T'') v;
     (hour, v) \<leftarrow> getnum v False;
     (if 24 \<le> hour then None else Some ());
     v \<leftarrow> skip (CHR '':'') v;
     (minute, v) \<leftarrow> getnum v True;
     (if 60 \<le> minute then None else Some ());
     v \<leftarrow> skip (CHR '':'') v;
     (sec, v) \<leftarrow> getnum v True;
     (if 60 \<le> sec then None else Some ());
     let (nsec, v) = getfrac v;
     (zone, v) \<leftarrow> getzone v;
     (if v \<noteq> [] then None
      else if day < 1 \<or> day > daysIn (nat month) year then None
      else Some (Date UTC year (nat month) day hour minute sec nsec - zone * Second))
   }"

text \<open>\<open>time.Parse("15:04", value)\<close>.\<close>

definition ParseClock :: "string \<Rightarrow> (int \<times> int) option" where
  "ParseClock value = do {
     (hour, v) \<leftarrow> getnum value False;
     (if 24 \<le> hour then None else Some ());
     v \<leftarrow> skip (CHR '':'') v;
     (minute, v) \<leftarrow> getnum v True;
     (if 60 \<le> minute \<or> v \<noteq> [] then None else Some (hour, minute))
   }"

subsection \<open>Parsing a formatted time stamp\<close>

lemma show_nat_small: "n < 10 \<Longrightarrow> show_nat n = [digit n]"
  by (simp add: show_nat.simps)

lemma show_nat_step: "10 \<le> n \<Longrightarrow> show_nat n = show_nat (n div 10) @ [digit (n mod 10)]"
  by (simp add: show_nat.simps [of n])

lemma zero_digit: "CHR ''0'' = digit 0"
  by code_simp

lemma appendInt_2:
  assumes "0 \<le> x" "x < 100"
  shows "appendInt x 2 = [digit (nat x div 10), digit (nat x mod 10)]"
proof (cases "nat x < 10")
  case True
  with assms show ?thesis by (simp add: appendInt_def show_nat_small zero_digit)
next
  case False
  with assms have "nat x div 10 < 10" by simp
  with False assms show ?thesis by (simp add: appendInt_def show_nat_step show_nat_small)
qed

lemma show_nat_length: "n < 10 ^ Suc k \<Longrightarrow> length (show_nat n) \<le> Suc k"
proof (induction k arbitrary: n)
  case (Suc k)
  show ?case
  proof (cases "n < 10")
    case False
    from Suc.prems have "n div 10 < 10 ^ Suc k" by simp
    with Suc.IH have "length (show_nat (n div 10)) \<le> Suc k" by blast
    with False show ?thesis by (simp add: show_nat_step)
  qed (simp add: show_nat_small)
qed (simp add: show_nat_small)

lemma digits_val_zeros: "digits_val (replicate k (CHR ''0'') @ s) = digits_val s"
proof -
  have "foldl (\<lambda>n c. 10 * n + digit_val c) 0 (replicate k (CHR ''0'')) = 0"
    by (induction k) (simp_all add: digit_val_def)
  then show ?thesis by (simp add: digits_val_def)
qed

lemma appendInt_year:
  assumes "0 \<le> y" "y \<le> 9999"
  shows "length (appendInt y 4) = 4" and "list_all is_digit (appendInt y 4)"
    and "digits_val (appendInt y 4) = nat y"
proof -
  have "length (show_nat (nat y)) \<le> 4"
    using show_nat_length [of "nat y" 3] assms by simp
  then show "length (appendInt y 4) = 4" using assms by (simp add: appendInt_def Let_def)
  have z: "is_digit (CHR ''0'')" by (simp add: is_digit_def)
  then show "list_all is_digit (appendInt y 4)"
    using assms show_nat_digits by (auto simp: appendInt_def list_all_iff Let_def)
  show "digits_val (appendInt y 4) = nat y"
    using assms by (simp add: appendInt_def digits_val_zeros Let_def)
qed

lemma getyear_append:
  assumes "0 \<le> y" "y \<le> 9999"
  shows "getyear (appendInt y 4 @ s) = Some (y, s)"
  using appendInt_year [OF assms] assms by (simp add: getyear_def)

lemma getnum_append:
  assumes "0 \<le> x" "x < 100"
  shows "getnum (appendInt x 2 @ s) fixed = Some (x, s)"
proof -
  have "int (10 * (nat x div 10) + nat x mod 10) = x" using assms by simp
  moreover have "nat x div 10 < 10" using assms by linarith
  ultimately show ?thesis using assms by (simp add: appendInt_2)
qed

lemma skip_append [simp]: "skip c (c # s) = Some s"
  by simp

text \<open>Years 0 to 9999, the range in which a time stamp has four digits of year.\<close>

definition stampable :: "Time \<Rightarrow> bool" where
  "stampable t \<longleftrightarrow> (case civil_from_days (Unix t div 86400) of (y, _, _) \<Rightarrow> 0 \<le> y \<and> y \<le> 9999)"

lemma UTC_simps [simp]: "offset_at UTC s = 0" "local_sec UTC t = Unix t" "date_sec UTC s = s"
  by (simp_all add: offset_at_def lookup_def UTC_def local_sec_def date_sec_def)

lemma getfrac_Z [simp]: "getfrac (CHR ''Z'' # s) = (0, CHR ''Z'' # s)"
  by (simp add: getfrac_def split: list.splits)

lemma sod_bounds: "0 \<le> (s :: int) mod 86400 div 3600" "s mod 86400 div 3600 < 24"
    "0 \<le> s mod 86400 mod 3600 div 60" "s mod 86400 mod 3600 div 60 < 60"
  by linarith+

lemma ParseRFC3339_FormatRFC3339:
  assumes "stampable t"
  shows "ParseRFC3339 (FormatRFC3339 t) = Some (t - t mod Second)"
proof -
  define z sod where "z = Unix t div 86400" and "sod = Unix t mod 86400"
  obtain y m d where c: "civil_from_days z = (y, m, d)" by (metis prod_cases3)
  have y: "0 \<le> y" "y \<le> 9999" using assms c by (simp_all add: stampable_def z_def)
  have m: "1 \<le> m" "m \<le> 12" and d: "1 \<le> d" "d \<le> daysIn m y" and z: "days_from_civil y m d = z"
    using civil_from_days_spec [OF c] by simp_all
  have d100: "d < 100" using d daysIn_bound [of m y] m by linarith
  note b = sod_bounds [of "Unix t", folded sod_def]
  have fmt: "FormatRFC3339 t = appendInt y 4 @ CHR ''-'' # appendInt (int m) 2 @ CHR ''-'' # appendInt d 2
      @ CHR ''T'' # appendInt (sod div 3600) 2 @ CHR '':'' # appendInt (sod mod 3600 div 60) 2
      @ CHR '':'' # appendInt (sod mod 60) 2 @ [CHR ''Z'']"
    using c by (simp add: FormatRFC3339_def format_date_def format_clock_def local_day_def
        local_sod_def z_def sod_def Let_def)
  have "z * 86400 + sod = Unix t" by (simp add: z_def sod_def)
  then have inst: "z * 86400 + sod div 3600 * 3600 + sod mod 3600 div 60 * 60 + sod mod 60 = Unix t"
    using sod_parts [of sod] by linarith
  have "Unix t * Second = t - t mod Second"
    by (simp add: Unix_def minus_mod_eq_div_mult)
  then have res: "Date UTC y m d (sod div 3600) (sod mod 3600 div 60) (sod mod 60) 0 = t - t mod Second"
    by (simp add: Date_def z inst)
  have s60: "getnum (appendInt (sod mod 60) 2 @ s) f = Some (sod mod 60, s)" for s f
    by (rule getnum_append) (simp_all add: order.strict_trans [OF pos_mod_bound])
  have "\<not> 60 \<le> sod mod 60" by (simp add: not_le)
  then show ?thesis
    using y m d d100 b res
    by (simp add: ParseRFC3339_def fmt getyear_append getnum_append s60 getzone_def)
qed

lemma stampable_modern: "0 \<le> t \<Longrightarrow> t < 253402300800 * Second \<Longrightarrow> stampable t"
proof -
  assume t: "0 \<le> t" "t < 253402300800 * Second"
  define z where "z = Unix t div 86400"
  have zb: "0 \<le> z" "z < 2932897" using t by (simp_all add: z_def Unix_def)
  obtain y d where yd: "year_day (z + 719162) = (y, d)" by fastforce
  have s: "days_before_year y + d = z + 719162" "0 \<le> d" "d < 366"
    using year_day_spec [OF yd] by (auto split: if_splits)
  define w where "w = y - 1"
  define a b e where "a = w div 4" and "b = w div 100" and "e = w div 400"
  have h: "4 * a \<le> w" "w < 4 * a + 4" "100 * b \<le> w" "w < 100 * b + 100" "400 * e \<le> w" "w < 400 * e + 400"
    unfolding a_def b_def e_def by linarith+
  have k: "365 * w + a - b + e + d = z + 719162"
    using s(1) by (simp add: days_before_year_def w_def a_def b_def e_def)
  have "- 1 \<le> w" using h k s(2,3) zb by linarith
  moreover have "w < 9999" using h k s(2,3) zb by linarith
  ultimately have "0 \<le> y" "y \<le> 9999" by (simp_all add: w_def)
  then show ?thesis using yd by (simp add: stampable_def civil_from_days_def z_def split: prod.splits)
qed

section \<open>How far a zone can move an instant\<close>

text \<open>
  Zone offsets are less than a day.  Then the local clock is within a day of UTC, and so is the
  instant \<open>Date\<close> chooses for local seconds.
\<close>

definition sane_offsets :: "Location \<Rightarrow> bool" where
  "sane_offsets loc \<longleftrightarrow> \<bar>firstOffset loc\<bar> < 86400 \<and> list_all (\<lambda>(_, off). \<bar>off\<bar> < 86400) (transitions loc)"

lemma zone_lookup_offset:
  "zone_lookup off start ts sec = (off', a, b) \<Longrightarrow> off' = off \<or> (\<exists>w. (w, off') \<in> set ts)"
  by (induction off start ts sec rule: zone_lookup.induct) (auto split: if_splits)

lemma sane_lookup: "sane_offsets loc \<Longrightarrow> lookup loc sec = (off, a, b) \<Longrightarrow> \<bar>off\<bar> < 86400"
  using zone_lookup_offset [of "firstOffset loc" None "transitions loc" sec off a b]
  by (auto simp: sane_offsets_def lookup_def list_all_iff)

lemma sane_offset_at: "sane_offsets loc \<Longrightarrow> \<bar>offset_at loc sec\<bar> < 86400"
  by (metis offset_at_def prod.collapse sane_lookup)

lemma sane_date_sec: "sane_offsets loc \<Longrightarrow> \<bar>date_sec loc s - s\<bar> < 86400"
proof -
  assume sane: "sane_offsets loc"
  obtain off a b where l: "lookup loc s = (off, a, b)" by (metis prod_cases3)
  have "\<bar>off\<bar> < 86400" "\<bar>offset_at loc (s - off)\<bar> < 86400"
    using sane l by (auto intro: sane_lookup sane_offset_at)
  then show ?thesis unfolding date_sec_def l by (simp add: Let_def)
qed

lemma sane_local_sec: "sane_offsets loc \<Longrightarrow> \<bar>local_sec loc t - Unix t\<bar> < 86400"
  by (simp add: local_sec_def sane_offset_at)

end
