(* ===== verification/Calf_Schedule.thy ===== *)
theory Calf_Schedule
  imports Calf_Utils Calf_Time
begin

text \<open>
  Recurring volume exports, package \<open>internal/volumeexport\<close> without its stores: the schedule
  records (\<open>schedule.go\<close>), validation and the computation of the next run (\<open>schedule_timing.go\<close>),
  the API input (\<open>schedule_input.go\<close>) and the file and image name patterns (\<open>name_pattern.go\<close>).
  The local time zone (\<open>now.Location()\<close>) and the clock (\<open>time.Now()\<close>) are arguments.
\<close>

named_theorems schedule_simps "facts about schedules"

section \<open>Schedules (schedule.go)\<close>

record DayTimeSchedule =
  dt_Day :: int
  dt_Times :: "string list"

record Schedule =
  sched_ID :: string
  sched_Volume :: string
  sched_Enabled :: bool
  sched_DayTimes :: "DayTimeSchedule list"
  sched_Type :: string
  sched_FileName :: string
  sched_Folder :: string
  sched_ImageRef :: string
  sched_CreatedAt :: string
  sched_LastRunAt :: string
  sched_NextRunAt :: string
  sched_LastStatus :: string
  sched_LastError :: string

text \<open>Constants of \<open>internal/constants\<close>.\<close>

definition VolumeExportTypeLocalFile :: string where "VolumeExportTypeLocalFile = ''local_file''"
definition VolumeExportTypeLocalImage :: string where "VolumeExportTypeLocalImage = ''local_image''"
definition VolumeExportTypeNewImage :: string where "VolumeExportTypeNewImage = ''new_image''"
definition VolumeExportTypeRegistry :: string where "VolumeExportTypeRegistry = ''registry''"
definition JobStatusRunning :: string where "JobStatusRunning = ''running''"
definition JobStatusCompleted :: string where "JobStatusCompleted = ''completed''"
definition JobStatusFailed :: string where "JobStatusFailed = ''failed''"
definition ScheduleRunGrace :: int where "ScheduleRunGrace = Minute"

lemmas export_type_defs =
  VolumeExportTypeLocalFile_def VolumeExportTypeLocalImage_def VolumeExportTypeNewImage_def
  VolumeExportTypeRegistry_def

section \<open>Normalising and validating (schedule\_timing.go)\<close>

definition NormalizeSchedule :: "Schedule \<Rightarrow> Schedule" where
  "NormalizeSchedule schedule =
     (if sched_DayTimes schedule = [] then schedule
      else schedule\<lparr>sched_DayTimes :=
        map (\<lambda>entry. entry\<lparr>dt_Times := sort_Strings (dt_Times entry)\<rparr>)
          (sort_Slice (\<lambda>a b. dt_Day a < dt_Day b) (sched_DayTimes schedule))\<rparr>)"

definition parseTimeOfDay :: "string \<Rightarrow> (int \<times> int) result" where
  "parseTimeOfDay value0 =
     (let value = TrimSpace value0 in
      if value = '''' then Inl (Errorf ''export time is required'')
      else case ParseClock value of
        None \<Rightarrow> Inl (Errorf ''export times must use HH:MM format'')
      | Some hm \<Rightarrow> Inr hm)"

text \<open>The inner loop of \<open>ValidateScheduleInput\<close>: the times of one day, with the times seen so far.\<close>

fun validateTimes :: "int \<Rightarrow> string list \<Rightarrow> string list \<Rightarrow> go_error option" where
  "validateTimes day seenTimes [] = None"
| "validateTimes day seenTimes (value # rest) =
     (case parseTimeOfDay value of
        Inl err \<Rightarrow> Some err
      | Inr _ \<Rightarrow>
          let key = TrimSpace value in
          if key \<in> set seenTimes
          then Some (Errorf (''duplicate export time '' @ Quote key @ '' on day '' @ show_int day))
          else validateTimes day (key # seenTimes) rest)"

fun validateDays :: "DayTimeSchedule list \<Rightarrow> go_error option" where
  "validateDays [] = None"
| "validateDays (entry # rest) =
     (if dt_Day entry < 0 \<or> dt_Day entry > 6
      then Some (Errorf ''day values must be between 0 (Sunday) and 6 (Saturday)'')
      else if dt_Times entry = []
      then Some (Errorf (''day '' @ show_int (dt_Day entry) @ '' requires at least one export time''))
      else case validateTimes (dt_Day entry) [] (dt_Times entry) of
        Some err \<Rightarrow> Some err
      | None \<Rightarrow> validateDays rest)"

definition ValidateScheduleInput :: "Schedule \<Rightarrow> go_error option" where
  "ValidateScheduleInput schedule0 =
     (let schedule = NormalizeSchedule schedule0 in
      if \<not> sched_Enabled schedule then None
      else if sched_DayTimes schedule = []
      then Some (Errorf ''at least one day with export times is required'')
      else case validateDays (sched_DayTimes schedule) of
        Some err \<Rightarrow> Some err
      | None \<Rightarrow>
          let exportType = TrimSpace (sched_Type schedule) in
          if exportType \<noteq> VolumeExportTypeLocalFile \<and> exportType \<noteq> VolumeExportTypeLocalImage
             \<and> exportType \<noteq> VolumeExportTypeNewImage \<and> exportType \<noteq> VolumeExportTypeRegistry
          then Some (Errorf (''unsupported export type '' @ Quote exportType))
          else if exportType = VolumeExportTypeLocalFile then
            (if TrimSpace (sched_Folder schedule) = '''' then Some (Errorf ''folder is required'') else None)
          else if TrimSpace (sched_ImageRef schedule) = '''' then Some (Errorf ''image_ref is required'')
          else None)"

section \<open>The next run (schedule\_timing.go)\<close>

definition slotStillRunnable :: "Time \<Rightarrow> Time \<Rightarrow> bool" where
  "slotStillRunnable candidate now \<longleftrightarrow> \<not> now > candidate + ScheduleRunGrace"

definition ScheduleDue :: "string \<Rightarrow> Time \<Rightarrow> bool" where
  "ScheduleDue nextRunAt now =
     (if TrimSpace nextRunAt = '''' then False
      else case ParseRFC3339 nextRunAt of
        None \<Rightarrow> False
      | Some nextRun \<Rightarrow>
          if Truncate now Minute < Truncate nextRun Minute then False
          else slotStillRunnable nextRun now)"

fun timesForDay :: "DayTimeSchedule list \<Rightarrow> int \<Rightarrow> string list" where
  "timesForDay [] day = []"
| "timesForDay (entry # rest) day = (if dt_Day entry = day then dt_Times entry else timesForDay rest day)"

text \<open>
  The two nested loops of \<open>computeNextRun\<close>: over the times of a day, and over the 14 days from
  today; \<open>next\<close> is the earliest slot so far, the zero time when there is none.
\<close>

fun slotLoop :: "Location \<Rightarrow> Time \<Rightarrow> bool \<Rightarrow> Time \<Rightarrow> string list \<Rightarrow> Time \<Rightarrow> Time result" where
  "slotLoop loc now afterRun candidateDate [] next = Inr next"
| "slotLoop loc now afterRun candidateDate (timeValue # rest) next =
     (case parseTimeOfDay timeValue of
        Inl err \<Rightarrow> Inl err
      | Inr (hour, minute) \<Rightarrow>
          let (year, month, day) = civil_from_days (local_day loc candidateDate);
              candidate = Date loc year month day hour minute 0 0
          in if (if afterRun then \<not> candidate > now else \<not> slotStillRunnable candidate now)
             then slotLoop loc now afterRun candidateDate rest next
             else slotLoop loc now afterRun candidateDate rest
                    (if IsZero next \<or> candidate < next then candidate else next))"

fun dayLoop :: "Location \<Rightarrow> Time \<Rightarrow> bool \<Rightarrow> DayTimeSchedule list \<Rightarrow> nat list \<Rightarrow> Time \<Rightarrow> Time result" where
  "dayLoop loc now afterRun dayTimes [] next = Inr next"
| "dayLoop loc now afterRun dayTimes (offset # offsets) next =
     (let candidateDate = AddDays loc now (int offset);
          slots = timesForDay dayTimes (Weekday loc candidateDate)
      in if slots = [] then dayLoop loc now afterRun dayTimes offsets next
         else case slotLoop loc now afterRun candidateDate slots next of
           Inl err \<Rightarrow> Inl err
         | Inr next' \<Rightarrow> dayLoop loc now afterRun dayTimes offsets next')"

definition computeNextRun :: "Location \<Rightarrow> Schedule \<Rightarrow> Time \<Rightarrow> bool \<Rightarrow> Time result" where
  "computeNextRun loc schedule0 now afterRun =
     (let schedule = NormalizeSchedule schedule0 in
      if \<not> sched_Enabled schedule then Inr zeroTime
      else case ValidateScheduleInput schedule of
        Some err \<Rightarrow> Inl err
      | None \<Rightarrow>
          (case dayLoop loc now afterRun (sched_DayTimes schedule) [0..<14] zeroTime of
             Inl err \<Rightarrow> Inl err
           | Inr next \<Rightarrow>
               if IsZero next then Inl (Errorf ''no upcoming run found for schedule'') else Inr next))"

definition ComputeNextRun :: "Location \<Rightarrow> Schedule \<Rightarrow> Time \<Rightarrow> Time result" where
  "ComputeNextRun loc schedule now = computeNextRun loc schedule now False"

definition ComputeNextRunAfterRun :: "Location \<Rightarrow> Schedule \<Rightarrow> Time \<Rightarrow> Time result" where
  "ComputeNextRunAfterRun loc schedule now = computeNextRun loc schedule now True"

section \<open>Name patterns (name\_pattern.go)\<close>

definition HasUniqueNameToken :: "string \<Rightarrow> bool" where
  "HasUniqueNameToken pattern0 =
     (let pattern = ToLower (TrimSpace pattern0) in
      if Contains pattern ''{timestamp}'' \<or> Contains pattern ''{datetime}'' then True
      else Contains pattern ''{date}'' \<and> Contains pattern ''{time}'')"

definition DefaultFileNamePattern :: "string \<Rightarrow> string" where
  "DefaultFileNamePattern volumeName = ''{volume}-{timestamp}.tar.gz''"

definition DefaultImageRefPattern :: "string \<Rightarrow> string" where
  "DefaultImageRefPattern volumeName = ''{volume}-backup:{timestamp}''"

definition sanitizeVolumeToken :: "string \<Rightarrow> string" where
  "sanitizeVolumeToken value = SanitizeFileName (TrimSpace value)"

definition expandNamePattern :: "Location \<Rightarrow> string \<Rightarrow> string \<Rightarrow> Time \<Rightarrow> bool \<Rightarrow> string" where
  "expandNamePattern loc pattern0 volumeName runTime forFileExport =
     (let trimmed = TrimSpace pattern0;
          pattern = (if trimmed = '''' then
                       if forFileExport then DefaultFileNamePattern volumeName
                       else DefaultImageRefPattern volumeName
                     else trimmed);
          volumeToken = (if forFileExport then sanitizeVolumeToken volumeName
                         else ToLower (sanitizeVolumeToken volumeName));
          stamp = format_date '''' loc runTime @ ''-'' @ format_clock '''' loc runTime;
          expanded = Replace [(''{volume}'', volumeToken), (''{timestamp}'', stamp),
                              (''{datetime}'', stamp), (''{date}'', format_date ''-'' loc runTime),
                              (''{time}'', format_clock ''-'' loc runTime)] pattern
      in if forFileExport then SanitizeExportFileName expanded
         else ToLower (TrimSpace expanded))"

definition ExpandExportNamePattern :: "Location \<Rightarrow> string \<Rightarrow> string \<Rightarrow> Time \<Rightarrow> string" where
  "ExpandExportNamePattern loc pattern volumeName runTime = expandNamePattern loc pattern volumeName runTime True"

definition ExpandExportImageRefPattern :: "Location \<Rightarrow> string \<Rightarrow> string \<Rightarrow> Time \<Rightarrow> string" where
  "ExpandExportImageRefPattern loc pattern volumeName runTime = expandNamePattern loc pattern volumeName runTime False"

definition ResolveScheduledExportNames :: "Location \<Rightarrow> Schedule \<Rightarrow> Time \<Rightarrow> string \<times> string" where
  "ResolveScheduledExportNames loc schedule runTime =
     (let t = TrimSpace (sched_Type schedule) in
      if t = VolumeExportTypeLocalFile then
        let pattern = (if TrimSpace (sched_FileName schedule) = ''''
                       then DefaultFileNamePattern (sched_Volume schedule) else sched_FileName schedule)
        in (ExpandExportNamePattern loc pattern (sched_Volume schedule) runTime, '''')
      else if t = VolumeExportTypeLocalImage then ('''', sched_ImageRef schedule)
      else if t = VolumeExportTypeNewImage \<or> t = VolumeExportTypeRegistry then
        let pattern = (if TrimSpace (sched_ImageRef schedule) = ''''
                       then DefaultImageRefPattern (sched_Volume schedule) else sched_ImageRef schedule)
        in ('''', ExpandExportImageRefPattern loc pattern (sched_Volume schedule) runTime)
      else ('''', ''''))"

section \<open>API input (schedule\_input.go)\<close>

record DayTimeInput =
  di_Day :: int
  di_Times :: "string list"

record ScheduleInput =
  in_Enabled :: "bool option"
  in_DayTimes :: "DayTimeInput list"
  in_Type :: string
  in_FileName :: string
  in_Folder :: string
  in_ImageRef :: string

definition dayTimesFromInput :: "ScheduleInput \<Rightarrow> DayTimeSchedule list" where
  "dayTimesFromInput input =
     map (\<lambda>entry. \<lparr>dt_Day = di_Day entry, dt_Times = di_Times entry\<rparr>) (in_DayTimes input)"

definition DayTimesToInput :: "DayTimeSchedule list \<Rightarrow> DayTimeInput list" where
  "DayTimesToInput entries = map (\<lambda>entry. \<lparr>di_Day = dt_Day entry, di_Times = dt_Times entry\<rparr>) entries"

definition ScheduleFromInput ::
    "Location \<Rightarrow> Time \<Rightarrow> string \<Rightarrow> string \<Rightarrow> bool \<Rightarrow> ScheduleInput \<Rightarrow> Schedule result" where
  "ScheduleFromInput loc now volumeName scheduleID enabled input =
     (let exportType = TrimSpace (in_Type input);
          fileName = TrimSpace (in_FileName input);
          imageRef = TrimSpace (in_ImageRef input);
          fileName' = (if exportType = VolumeExportTypeLocalFile \<and> fileName = ''''
                       then DefaultFileNamePattern volumeName else fileName);
          imageRef' = (if (exportType = VolumeExportTypeNewImage \<or> exportType = VolumeExportTypeRegistry)
                          \<and> imageRef = '''' then DefaultImageRefPattern volumeName else imageRef);
          schedule = NormalizeSchedule
            \<lparr>sched_ID = scheduleID, sched_Volume = volumeName, sched_Enabled = enabled,
             sched_DayTimes = dayTimesFromInput input, sched_Type = exportType,
             sched_FileName = fileName', sched_Folder = TrimSpace (in_Folder input),
             sched_ImageRef = imageRef', sched_CreatedAt = '''', sched_LastRunAt = '''',
             sched_NextRunAt = '''', sched_LastStatus = '''', sched_LastError = ''''\<rparr>
      in case ValidateScheduleInput schedule of
           Some err \<Rightarrow> Inl err
         | None \<Rightarrow>
             if \<not> enabled then Inr (schedule\<lparr>sched_NextRunAt := ''''\<rparr>)
             else case ComputeNextRun loc schedule now of
               Inl err \<Rightarrow> Inl err
             | Inr nextRun \<Rightarrow> Inr (schedule\<lparr>sched_NextRunAt := FormatRFC3339 nextRun\<rparr>))"

section \<open>Facts about normalising\<close>

interpretation day_less: sort_less "\<lambda>a b :: DayTimeSchedule. dt_Day a < dt_Day b"
  by unfold_locales auto

lemma NormalizeSchedule_fields [simp, schedule_simps]:
  "sched_ID (NormalizeSchedule s) = sched_ID s" "sched_Volume (NormalizeSchedule s) = sched_Volume s"
  "sched_Enabled (NormalizeSchedule s) = sched_Enabled s" "sched_Type (NormalizeSchedule s) = sched_Type s"
  "sched_FileName (NormalizeSchedule s) = sched_FileName s" "sched_Folder (NormalizeSchedule s) = sched_Folder s"
  "sched_ImageRef (NormalizeSchedule s) = sched_ImageRef s" "sched_CreatedAt (NormalizeSchedule s) = sched_CreatedAt s"
  "sched_LastRunAt (NormalizeSchedule s) = sched_LastRunAt s" "sched_NextRunAt (NormalizeSchedule s) = sched_NextRunAt s"
  "sched_LastStatus (NormalizeSchedule s) = sched_LastStatus s" "sched_LastError (NormalizeSchedule s) = sched_LastError s"
  by (simp_all add: NormalizeSchedule_def)

lemma NormalizeSchedule_DayTimes:
  "sched_DayTimes (NormalizeSchedule s) =
     map (\<lambda>e. e\<lparr>dt_Times := sort_Strings (dt_Times e)\<rparr>)
       (sort_Slice (\<lambda>a b. dt_Day a < dt_Day b) (sched_DayTimes s))"
  by (simp add: NormalizeSchedule_def)

lemma NormalizeSchedule_update:
  "NormalizeSchedule s = s\<lparr>sched_DayTimes := sched_DayTimes (NormalizeSchedule s)\<rparr>"
  by (simp add: NormalizeSchedule_def)

lemma NormalizeSchedule_days_sorted:
  "sorted (map dt_Day (sched_DayTimes (NormalizeSchedule s)))"
  using day_less.sort_Slice_sorted [of "sched_DayTimes s"]
  by (simp add: NormalizeSchedule_DayTimes sorted_wrt_map not_less comp_def)

lemma NormalizeSchedule_idem [simp, schedule_simps]:
  "NormalizeSchedule (NormalizeSchedule s) = NormalizeSchedule s"
proof -
  let ?ds = "sched_DayTimes (NormalizeSchedule s)"
  have "sorted_wrt (\<lambda>a b. \<not> dt_Day b < dt_Day a) ?ds"
    using NormalizeSchedule_days_sorted [of s] by (simp add: sorted_wrt_map not_less)
  then have "sort_Slice (\<lambda>a b. dt_Day a < dt_Day b) ?ds = ?ds"
    by (rule day_less.sort_Slice_id)
  moreover have "map (\<lambda>e. e\<lparr>dt_Times := sort_Strings (dt_Times e)\<rparr>) ?ds = ?ds"
    by (simp add: NormalizeSchedule_DayTimes comp_def)
  ultimately have "sched_DayTimes (NormalizeSchedule (NormalizeSchedule s)) = ?ds"
    by (simp add: NormalizeSchedule_DayTimes [of "NormalizeSchedule s"])
  then show ?thesis
    using NormalizeSchedule_update [of "NormalizeSchedule s"] NormalizeSchedule_update [of s] by simp
qed

text \<open>The times of every day, as a multiset, are kept.\<close>

lemma NormalizeSchedule_mset:
  "mset (map (\<lambda>e. (dt_Day e, mset (dt_Times e))) (sched_DayTimes (NormalizeSchedule s)))
   = mset (map (\<lambda>e. (dt_Day e, mset (dt_Times e))) (sched_DayTimes s))"
proof -
  have "map (\<lambda>e. (dt_Day e, mset (dt_Times e))) (sched_DayTimes (NormalizeSchedule s))
      = map (\<lambda>e. (dt_Day e, mset (dt_Times e))) (sort_Slice (\<lambda>a b. dt_Day a < dt_Day b) (sched_DayTimes s))"
    by (simp add: NormalizeSchedule_DayTimes comp_def)
  then show ?thesis by (simp only: mset_map mset_sort_Slice)
qed

section \<open>Facts about validation\<close>

definition timeOK :: "string \<Rightarrow> bool" where
  "timeOK value \<longleftrightarrow> (case parseTimeOfDay value of Inl _ \<Rightarrow> False | Inr _ \<Rightarrow> True)"

text \<open>What a day entry of an accepted schedule looks like.\<close>

definition dayOK :: "DayTimeSchedule \<Rightarrow> bool" where
  "dayOK e \<longleftrightarrow> 0 \<le> dt_Day e \<and> dt_Day e \<le> 6 \<and> dt_Times e \<noteq> []
     \<and> list_all timeOK (dt_Times e) \<and> distinct (map TrimSpace (dt_Times e))"

definition targetOK :: "Schedule \<Rightarrow> bool" where
  "targetOK s \<longleftrightarrow>
     (TrimSpace (sched_Type s) = VolumeExportTypeLocalFile \<and> TrimSpace (sched_Folder s) \<noteq> '''')
     \<or> (TrimSpace (sched_Type s) \<in> {VolumeExportTypeLocalImage, VolumeExportTypeNewImage, VolumeExportTypeRegistry}
        \<and> TrimSpace (sched_ImageRef s) \<noteq> '''')"

lemma timeOK_iff: "timeOK value \<longleftrightarrow> (\<exists>hm. parseTimeOfDay value = Inr hm)"
  by (cases "parseTimeOfDay value") (auto simp: timeOK_def)

lemma validateTimes_None_iff:
  "validateTimes day seen ts = None \<longleftrightarrow>
     list_all timeOK ts \<and> distinct (map TrimSpace ts) \<and> set (map TrimSpace ts) \<inter> set seen = {}"
proof (induction ts arbitrary: seen)
  case (Cons t ts)
  then show ?case
    by (cases "parseTimeOfDay t") (auto simp: Let_def timeOK_iff)
qed simp

lemma validateDays_None_iff: "validateDays es = None \<longleftrightarrow> list_all dayOK es"
  by (induction es) (auto simp: dayOK_def validateTimes_None_iff not_less)

lemma dayOK_sorted: "dayOK (e\<lparr>dt_Times := sort_Strings (dt_Times e)\<rparr>) \<longleftrightarrow> dayOK e"
proof -
  have "distinct (map TrimSpace (sort_Strings ts)) \<longleftrightarrow> distinct (map TrimSpace ts)" for ts
    by (rule mset_eq_imp_distinct_iff) (simp add: mset_map)
  then show ?thesis by (simp add: dayOK_def list_all_iff)
qed

lemma NormalizeSchedule_dayOK:
  "list_all dayOK (sched_DayTimes (NormalizeSchedule s)) \<longleftrightarrow> list_all dayOK (sched_DayTimes s)"
  by (auto simp: NormalizeSchedule_DayTimes list_all_iff dayOK_sorted)

lemma ValidateScheduleInput_None_iff:
  "ValidateScheduleInput s = None \<longleftrightarrow>
     (sched_Enabled s \<longrightarrow> sched_DayTimes s \<noteq> [] \<and> list_all dayOK (sched_DayTimes s) \<and> targetOK s)"
proof -
  have ne: "sched_DayTimes (NormalizeSchedule s) = [] \<longleftrightarrow> sched_DayTimes s = []"
    by (simp add: NormalizeSchedule_DayTimes)
  show ?thesis
    unfolding ValidateScheduleInput_def Let_def NormalizeSchedule_fields ne
    using NormalizeSchedule_dayOK [of s] validateDays_None_iff [of "sched_DayTimes (NormalizeSchedule s)"]
    by (auto simp: targetOK_def export_type_defs)
qed

lemma timesForDay_mem: "ts = timesForDay es d \<Longrightarrow> ts \<noteq> [] \<Longrightarrow> \<exists>e \<in> set es. dt_Day e = d \<and> dt_Times e = ts"
  by (induction es) (auto split: if_splits)

lemma timesForDay_ne: "e \<in> set es \<Longrightarrow> list_all dayOK es \<Longrightarrow> timesForDay es (dt_Day e) \<noteq> []"
  by (induction es) (auto simp: dayOK_def)

lemma timesForDay_ok: "list_all dayOK es \<Longrightarrow> list_all timeOK (timesForDay es d)"
  by (induction es) (auto simp: dayOK_def)

end
