(* ===== verification/Calf_Schedule_Store.thy ===== *)
theory Calf_Schedule_Store
  imports Calf_Files Calf_Schedule
begin

text \<open>
  The store of export schedules (\<open>internal/volumeexport/schedule.go\<close> and \<open>id.go\<close>): one JSON file per
  volume, named after the sanitised volume, with the list of its schedules.  The store behaves as a
  finite map from a volume's file and a schedule ID to the normalised schedule, as long as the IDs
  in each file are distinct, which saving and deleting preserve.
\<close>

section \<open>Names (store.go, id.go)\<close>

definition sanitizeName :: "string \<Rightarrow> string" where
  "sanitizeName value0 =
     (let value = TrimSpace value0 in
      if value = '''' then ''unknown''
      else let v = SanitizeFileName value in
        if v = ''.'' \<or> v = ''..'' \<or> Contains v ''..'' then ''unknown'' else v)"

definition newResourceID :: "string \<Rightarrow> string \<Rightarrow> Time \<Rightarrow> string" where
  "newResourceID pfx volumeName now =
     (let name = sanitizeName volumeName in
      if pfx = '''' then name @ ''-'' @ show_int now
      else pfx @ ''-'' @ name @ ''-'' @ show_int now)"

definition volumePath :: "string \<Rightarrow> string" where
  "volumePath volumeName = sanitizeName volumeName @ ''.json''"

section \<open>Operations (schedule.go)\<close>

type_synonym schedule_dir = "(string, Schedule list node) directory"

definition newerSchedule :: "Schedule \<Rightarrow> Schedule \<Rightarrow> bool" where
  "newerSchedule a b \<longleftrightarrow> sched_CreatedAt a > sched_CreatedAt b"

definition ScheduleStore_List :: "string faults \<Rightarrow> schedule_dir \<Rightarrow> string \<Rightarrow> Schedule list result" where
  "ScheduleStore_List io d volumeName =
     (case ReadFile io d (volumePath volumeName) of
        Inl NotExist \<Rightarrow> Inr []
      | Inl (IOFault e) \<Rightarrow> Inl (Wrap (''read schedules for '' @ volumeName) e)
      | Inr p \<Rightarrow>
          (case Unmarshal p of
             Inl e \<Rightarrow> Inl (Wrap (''decode schedules for '' @ volumeName) e)
           | Inr schedules \<Rightarrow> Inr (map NormalizeSchedule (sort_Slice newerSchedule schedules))))"

text \<open>The loop of \<open>ListAll\<close> over the directory entries: the schedules read and the errors skipped.\<close>

fun ListAll_loop ::
    "string faults \<Rightarrow> schedule_dir \<Rightarrow> schedule_dir \<Rightarrow> Schedule list \<Rightarrow> go_error list \<Rightarrow> Schedule list \<times> go_error list"
where
  "ListAll_loop io d [] schedules skipped = (schedules, skipped)"
| "ListAll_loop io d ((name, n) # entries) schedules skipped =
     (if n = Folder \<or> \<not> HasSuffix name ''.json'' then ListAll_loop io d entries schedules skipped
      else case ReadFile io d name of
        Inl e \<Rightarrow> ListAll_loop io d entries schedules (skipped @ [Wrap (''read '' @ name) (file_error e)])
      | Inr p \<Rightarrow>
          (case Unmarshal p of
             Inl e \<Rightarrow> ListAll_loop io d entries schedules (skipped @ [Wrap (''decode '' @ name) e])
           | Inr volumeSchedules \<Rightarrow> ListAll_loop io d entries (schedules @ volumeSchedules) skipped))"

text \<open>
  \<open>ListAll\<close>, on a root directory that exists (\<open>NewScheduleStore\<close> creates it); \<open>''''\<close> names the root.
\<close>

definition ListAll :: "string faults \<Rightarrow> schedule_dir \<Rightarrow> Schedule list \<times> go_error option" where
  "ListAll io d =
     (case io OpReadDir '''' of
        Some f \<Rightarrow> ([], Some (Wrap ''list schedule files'' (fault_error f)))
      | None \<Rightarrow>
          let (schedules, skipped) = ListAll_loop io d d [] []
          in (map NormalizeSchedule schedules, errors_Join skipped))"

definition ScheduleStore_Get :: "string faults \<Rightarrow> schedule_dir \<Rightarrow> string \<Rightarrow> string \<Rightarrow> Schedule result" where
  "ScheduleStore_Get io d volumeName sid =
     (case ScheduleStore_List io d volumeName of
        Inl e \<Rightarrow> Inl e
      | Inr schedules \<Rightarrow>
          (case find (\<lambda>s. sched_ID s = sid) schedules of
             Some s \<Rightarrow> Inr s
           | None \<Rightarrow> Inl (Errorf (''schedule '' @ sid @ '' not found''))))"

definition writeVolume ::
    "string faults \<Rightarrow> schedule_dir \<Rightarrow> string \<Rightarrow> Schedule list \<Rightarrow> go_error option \<times> schedule_dir" where
  "writeVolume io d volumeName schedules =
     (let path = volumePath volumeName in
      case io OpMkdir path of
        Some f \<Rightarrow> (Some (Wrap ''create schedule dir'' (fault_error f)), d)
      | None \<Rightarrow>
          (case WriteFile io d path schedules of
             (Some e, d') \<Rightarrow> (Some (Wrap ''write schedules'' e), d')
           | (None, d') \<Rightarrow> (None, d')))"

text \<open>The update loop of \<open>Save\<close>: the first schedule with the ID is replaced, else one is appended.\<close>

fun upsert :: "Schedule \<Rightarrow> Schedule list \<Rightarrow> Schedule list" where
  "upsert schedule [] = [schedule]"
| "upsert schedule (existing # rest) =
     (if sched_ID existing = sched_ID schedule then schedule # rest else existing # upsert schedule rest)"

definition ScheduleStore_Save :: "string faults \<Rightarrow> schedule_dir \<Rightarrow> Schedule \<Rightarrow> go_error option \<times> schedule_dir" where
  "ScheduleStore_Save io d schedule0 =
     (if TrimSpace (sched_Volume schedule0) = '''' then (Some (Errorf ''volume is required''), d)
      else if TrimSpace (sched_ID schedule0) = '''' then (Some (Errorf ''id is required''), d)
      else let schedule = NormalizeSchedule schedule0 in
        case ScheduleStore_List io d (sched_Volume schedule) of
          Inl e \<Rightarrow> (Some e, d)
        | Inr schedules \<Rightarrow> writeVolume io d (sched_Volume schedule) (upsert schedule schedules))"

definition ScheduleStore_Delete ::
    "string faults \<Rightarrow> schedule_dir \<Rightarrow> string \<Rightarrow> string \<Rightarrow> go_error option \<times> schedule_dir" where
  "ScheduleStore_Delete io d volumeName sid =
     (case ScheduleStore_List io d volumeName of
        Inl e \<Rightarrow> (Some e, d)
      | Inr schedules \<Rightarrow>
          let filtered = filter (\<lambda>s. sched_ID s \<noteq> sid) schedules in
          if \<not> list_ex (\<lambda>s. sched_ID s = sid) schedules
          then (Some (Errorf (''schedule '' @ sid @ '' not found'')), d)
          else if filtered = [] then Remove io d (volumePath volumeName)
          else writeVolume io d volumeName filtered)"

definition ScheduleStore_NewID :: "string \<Rightarrow> Time \<Rightarrow> string" where
  "ScheduleStore_NewID volumeName now = newResourceID ''schedule'' volumeName now"

section \<open>Facts about names\<close>

lemma sanitizeName_safe_component:
  "sanitizeName v \<noteq> '''' \<and> sanitizeName v \<noteq> ''.'' \<and> \<not> Contains (sanitizeName v) ''..''
   \<and> set (sanitizeName v) \<inter> {CHR ''/'', CHR '':'', CHR 0x5C} = {}"
  unfolding sanitizeName_def Let_def using SanitizeFileName_clean [of "TrimSpace v"] by simp

section \<open>The store as a finite map\<close>

definition ids_distinct :: "schedule_dir \<Rightarrow> bool" where
  "ids_distinct d \<longleftrightarrow>
     list_all (\<lambda>(_, n). case n of File (Json ss) \<Rightarrow> distinct (map sched_ID ss) | _ \<Rightarrow> True) d"

text \<open>The schedule kept under a file name and an ID.\<close>

definition schedule_at :: "schedule_dir \<Rightarrow> string \<times> string \<Rightarrow> Schedule option" where
  "schedule_at d key =
     (case entry d (fst key) of
        Some (File (Json ss)) \<Rightarrow> find (\<lambda>s. sched_ID s = snd key) (map NormalizeSchedule ss)
      | _ \<Rightarrow> None)"

definition schedule_key :: "Schedule \<Rightarrow> string \<times> string" where
  "schedule_key s = (volumePath (sched_Volume s), sched_ID s)"

lemma entry_mem: "entry d k = Some n \<Longrightarrow> (k, n) \<in> set d"
  by (simp add: entry_def map_of_SomeD)

lemma ids_distinct_entry:
  "ids_distinct d \<Longrightarrow> entry d k = Some (File (Json ss)) \<Longrightarrow> distinct (map sched_ID ss)"
  by (auto simp: ids_distinct_def list_all_iff dest!: entry_mem)

lemma set_put: "set (put k n d) \<subseteq> insert (k, n) (set d)"
  by (induction k n d rule: put.induct) auto

lemma ids_distinct_put:
  assumes "ids_distinct d" "distinct (map sched_ID ss)"
  shows "ids_distinct (put k (File (Json ss)) d)"
  using assms set_put [of k "File (Json ss)" d] by (auto simp: ids_distinct_def list_all_iff)

lemma ids_distinct_del: "ids_distinct d \<Longrightarrow> ids_distinct (del k d)"
  by (auto simp: ids_distinct_def list_all_iff del_def)

lemma find_ID_iff:
  assumes "distinct (map sched_ID ss)"
  shows "find (\<lambda>s. sched_ID s = i) ss = Some s \<longleftrightarrow> s \<in> set ss \<and> sched_ID s = i"
  using assms by (induction ss) (auto simp: rev_image_eqI)

lemma find_ID_same_set:
  assumes "distinct (map sched_ID ss)" "distinct (map sched_ID ss')" "set ss = set ss'"
  shows "find (\<lambda>s. sched_ID s = i) ss = find (\<lambda>s. sched_ID s = i) ss'"
  using find_ID_iff [OF assms(1), of i] find_ID_iff [OF assms(2), of i] assms(3)
  by (cases "find (\<lambda>s. sched_ID s = i) ss"; cases "find (\<lambda>s. sched_ID s = i) ss'") auto

text \<open>What \<open>List\<close> returns for a file: its schedules, normalised, in another order.\<close>

lemma List_ids:
  "distinct (map sched_ID (map NormalizeSchedule (sort_Slice newerSchedule ss))) \<longleftrightarrow> distinct (map sched_ID ss)"
  by (rule mset_eq_imp_distinct_iff) (simp add: comp_def mset_map)

lemma List_find:
  assumes "distinct (map sched_ID ss)"
  shows "find (\<lambda>s. sched_ID s = i) (map NormalizeSchedule (sort_Slice newerSchedule ss))
       = find (\<lambda>s. sched_ID s = i) (map NormalizeSchedule ss)"
  using assms List_ids [of ss] by (intro find_ID_same_set) (simp_all add: comp_def)

lemma ScheduleStore_List_Inr:
  assumes "ScheduleStore_List io d v = Inr ss" "ids_distinct d"
  shows "distinct (map sched_ID ss) \<and> (\<forall>s \<in> set ss. NormalizeSchedule s = s)
    \<and> find (\<lambda>s. sched_ID s = i) ss = schedule_at d (volumePath v, i)
    \<and> (\<forall>k. entry d (volumePath v) \<noteq> Some Folder)"
proof (cases "ReadFile io d (volumePath v)")
  case (Inl e)
  with assms(1) have "e = NotExist" "ss = []"
    by (auto simp: ScheduleStore_List_def split: read_error.splits)
  with Inl ReadFile_NotExist [of io d "volumePath v"] show ?thesis by (simp add: schedule_at_def)
next
  case (Inr p)
  then obtain ts where p: "p = Json ts" and ss: "ss = map NormalizeSchedule (sort_Slice newerSchedule ts)"
    using assms(1) by (cases p) (auto simp: ScheduleStore_List_def)
  have e: "entry d (volumePath v) = Some (File (Json ts))" using ReadFile_Inr [OF Inr] p by simp
  then show ?thesis
    using List_find [OF ids_distinct_entry [OF assms(2) e]] List_ids [of ts] ids_distinct_entry [OF assms(2) e]
    by (auto simp: ss schedule_at_def)
qed

lemma upsert_ids:
  "set (map sched_ID (upsert s ss)) = insert (sched_ID s) (set (map sched_ID ss))"
  by (induction ss) auto

lemma upsert_distinct: "distinct (map sched_ID ss) \<Longrightarrow> distinct (map sched_ID (upsert s ss))"
  using upsert_ids by (induction ss) auto

lemma upsert_find:
  "find (\<lambda>t. sched_ID t = i) (upsert s ss) =
     (if i = sched_ID s then Some s else find (\<lambda>t. sched_ID t = i) ss)"
  by (induction ss) auto

lemma upsert_normal:
  "\<forall>t \<in> set ss. NormalizeSchedule t = t \<Longrightarrow> map NormalizeSchedule (upsert (NormalizeSchedule s) ss) = upsert (NormalizeSchedule s) ss"
  by (induction ss) (auto intro: map_idI)

lemma writeVolume_ok:
  "writeVolume io d v ss = (None, d') \<Longrightarrow> d' = put (volumePath v) (File (Json ss)) d"
  by (auto simp: writeVolume_def Let_def split: option.splits prod.splits dest: WriteFile_ok)

lemma ScheduleStore_Save_ok:
  assumes "ScheduleStore_Save io d s = (None, d')" "ids_distinct d"
  shows "ids_distinct d' \<and> schedule_at d' k =
    (if k = schedule_key s then Some (NormalizeSchedule s) else schedule_at d k)"
proof -
  obtain ss where l: "ScheduleStore_List io d (sched_Volume s) = Inr ss"
      and w: "writeVolume io d (sched_Volume s) (upsert (NormalizeSchedule s) ss) = (None, d')"
    using assms(1) by (auto simp: ScheduleStore_Save_def Let_def split: if_splits sum.splits)
  note f = ScheduleStore_List_Inr [OF l assms(2)]
  have d': "d' = put (volumePath (sched_Volume s)) (File (Json (upsert (NormalizeSchedule s) ss))) d"
    by (rule writeVolume_ok [OF w])
  have "ids_distinct d'" unfolding d' using f assms(2) by (intro ids_distinct_put upsert_distinct) auto
  moreover have "schedule_at d' k = (if k = schedule_key s then Some (NormalizeSchedule s) else schedule_at d k)"
  proof (cases "fst k = volumePath (sched_Volume s)")
    case True
    have "schedule_at d' k = find (\<lambda>t. sched_ID t = snd k) (upsert (NormalizeSchedule s) ss)"
      using True f upsert_normal [of ss s] by (simp add: schedule_at_def d')
    also have "\<dots> = (if snd k = sched_ID s then Some (NormalizeSchedule s) else schedule_at d k)"
      using f [of "snd k"] surjective_pairing [of k] unfolding True by (simp add: upsert_find)
    finally show ?thesis using True by (auto simp: schedule_key_def prod_eq_iff)
  next
    case False
    then show ?thesis by (auto simp: schedule_at_def d' schedule_key_def)
  qed
  ultimately show ?thesis by simp
qed

lemma find_filter_ID:
  "find (\<lambda>t. sched_ID t = i) (filter (\<lambda>t. sched_ID t \<noteq> j) ss) = (if i = j then None else find (\<lambda>t. sched_ID t = i) ss)"
  by (induction ss) auto

lemma ScheduleStore_Delete_ok:
  assumes "ScheduleStore_Delete io d v j = (None, d')" "ids_distinct d"
  shows "ids_distinct d' \<and> schedule_at d' k = (if k = (volumePath v, j) then None else schedule_at d k)"
proof -
  obtain ss where l: "ScheduleStore_List io d v = Inr ss"
    using assms(1) by (auto simp: ScheduleStore_Delete_def split: sum.splits)
  let ?ss = "filter (\<lambda>s. sched_ID s \<noteq> j) ss"
  note f = ScheduleStore_List_Inr [OF l assms(2)]
  consider "?ss = []" "d' = del (volumePath v) d"
    | "d' = put (volumePath v) (File (Json ?ss)) d"
    using assms(1) l by (auto simp: ScheduleStore_Delete_def Let_def Remove_def
        split: if_splits option.splits dest: writeVolume_ok)
  then show ?thesis
  proof cases
    case 1
    have none: "schedule_at d (volumePath v, i) = None" if "i \<noteq> j" for i
      using find_filter_ID [of i j ss] 1(1) that f [of i] by simp
    have "schedule_at d' k = (if fst k = volumePath v then None else schedule_at d k)"
      by (simp add: 1(2) schedule_at_def)
    then show ?thesis
      using none [of "snd k"] 1(2) assms(2) by (cases k) (auto simp: ids_distinct_del)
  next
    case 2
    have n: "map NormalizeSchedule ?ss = ?ss" using f by (auto intro: map_idI)
    have "ids_distinct d'" unfolding 2 using f assms(2)
      by (intro ids_distinct_put) (auto intro: distinct_map_filter)
    moreover have "schedule_at d' k = (if k = (volumePath v, j) then None else schedule_at d k)"
      using f [of "snd k"] find_filter_ID [of "snd k" j ss] n
      by (cases k) (auto simp: schedule_at_def 2)
    ultimately show ?thesis by simp
  qed
qed

definition save_schedule :: "string faults \<Rightarrow> schedule_dir \<Rightarrow> Schedule \<Rightarrow> schedule_dir option" where
  "save_schedule io d s = (case ScheduleStore_Save io d s of (None, d') \<Rightarrow> Some d' | (Some _, _) \<Rightarrow> None)"

definition delete_schedule :: "string faults \<Rightarrow> schedule_dir \<Rightarrow> string \<times> string \<Rightarrow> schedule_dir option" where
  "delete_schedule io d q =
     (case ScheduleStore_Delete io d (fst q) (snd q) of (None, d') \<Rightarrow> Some d' | (Some _, _) \<Rightarrow> None)"

interpretation schedules: keyed_store_delete ids_distinct schedule_at "save_schedule io" schedule_key
  NormalizeSchedule "delete_schedule io" "\<lambda>q. (volumePath (fst q), snd q)" for io
proof
  fix d v d' k q
  assume wf: "ids_distinct d"
  show "ids_distinct d'" if "save_schedule io d v = Some d'"
    using that ScheduleStore_Save_ok [OF _ wf, of io v d'] by (auto simp: save_schedule_def split: prod.splits option.splits)
  show "schedule_at d' k = (if k = schedule_key v then Some (NormalizeSchedule v) else schedule_at d k)"
    if "save_schedule io d v = Some d'"
    using that ScheduleStore_Save_ok [OF _ wf, of io v d' k] by (auto simp: save_schedule_def split: prod.splits option.splits)
  show "ids_distinct d'" if "delete_schedule io d q = Some d'"
    using that ScheduleStore_Delete_ok [OF _ wf, of io "fst q" "snd q" d']
    by (auto simp: delete_schedule_def split: prod.splits option.splits)
  show "schedule_at d' k = (if k = (volumePath (fst q), snd q) then None else schedule_at d k)"
    if "delete_schedule io d q = Some d'"
    using that ScheduleStore_Delete_ok [OF _ wf, of io "fst q" "snd q" d' k]
    by (auto simp: delete_schedule_def split: prod.splits option.splits)
qed

text \<open>\<open>Get\<close> reads the map: with no I/O failure and decodable files it finds exactly what is kept.\<close>

definition readable :: "schedule_dir \<Rightarrow> string \<Rightarrow> bool" where
  "readable d k \<longleftrightarrow> (case entry d k of None \<Rightarrow> True | Some (File (Json _)) \<Rightarrow> True | _ \<Rightarrow> False)"

lemma ScheduleStore_List_readable:
  "readable d (volumePath v) \<Longrightarrow> \<exists>ss. ScheduleStore_List no_faults d v = Inr ss"
  by (auto simp: readable_def ScheduleStore_List_def ReadFile_def no_faults_def
      split: option.splits node.splits payload.splits)

lemma ScheduleStore_Get_eq:
  assumes "ids_distinct d" "readable d (volumePath v)"
  shows "ScheduleStore_Get no_faults d v i =
    (case schedule_at d (volumePath v, i) of
       Some s \<Rightarrow> Inr s
     | None \<Rightarrow> Inl (Errorf (''schedule '' @ i @ '' not found'')))"
proof -
  obtain ss where l: "ScheduleStore_List no_faults d v = Inr ss"
    using ScheduleStore_List_readable [OF assms(2)] by blast
  then show ?thesis
    using ScheduleStore_List_Inr [OF l assms(1), of i] by (simp add: ScheduleStore_Get_def)
qed

lemma ScheduleStore_Save_readable:
  assumes "ScheduleStore_Save io d s = (None, d')"
  shows "readable d' (volumePath (sched_Volume s))"
    and "readable d k \<Longrightarrow> readable d' k"
proof -
  obtain ss where "d' = put (volumePath (sched_Volume s)) (File (Json ss)) d"
    using assms by (auto simp: ScheduleStore_Save_def Let_def split: if_splits sum.splits dest: writeVolume_ok)
  then show "readable d' (volumePath (sched_Volume s))" "readable d k \<Longrightarrow> readable d' k"
    by (auto simp: readable_def)
qed

section \<open>Properties\<close>

text \<open>
  A file or directory name made from a volume name is a single safe path component: not empty,
  without separators, not \<open>.\<close> and without \<open>..\<close>, so no volume name leads out of the store.
\<close>

theorem sanitizeName_no_escape:
  "sanitizeName v \<noteq> '''' \<and> sanitizeName v \<noteq> ''.'' \<and> \<not> Contains (sanitizeName v) ''..''
   \<and> set (sanitizeName v) \<inter> {CHR ''/'', CHR '':'', CHR 0x5C} = {}"
  by (rule sanitizeName_safe_component)

text \<open>
  C27: After a successful save the schedule is found under its volume and ID, normalised, and every
  schedule of another volume file or with another ID that could be read before is found as before,
  whatever I/O errors the save met and survived; the IDs stay distinct.
\<close>

theorem ScheduleStore_Get_after_Save:
  assumes "ids_distinct d" "ScheduleStore_Save io d s = (None, d')"
  shows "ids_distinct d' \<and> ScheduleStore_Get no_faults d' (sched_Volume s) (sched_ID s) = Inr (NormalizeSchedule s)
    \<and> (readable d (volumePath v) \<and> (volumePath v, i) \<noteq> schedule_key s \<longrightarrow>
        ScheduleStore_Get no_faults d' v i = ScheduleStore_Get no_faults d v i)"
proof -
  have save: "save_schedule io d s = Some d'" using assms(2) by (simp add: save_schedule_def)
  note wf' = schedules.save_wf [OF assms(1) save]
  note r = ScheduleStore_Save_readable [OF assms(2)]
  have "ScheduleStore_Get no_faults d' (sched_Volume s) (sched_ID s) = Inr (NormalizeSchedule s)"
    using schedules.find_save [OF assms(1) save, of "schedule_key s"]
    by (simp add: ScheduleStore_Get_eq [OF wf' r(1)] schedule_key_def)
  moreover have "ScheduleStore_Get no_faults d' v i = ScheduleStore_Get no_faults d v i"
    if "readable d (volumePath v)" "(volumePath v, i) \<noteq> schedule_key s"
    using schedules.find_save [OF assms(1) save, of "(volumePath v, i)"] that
    by (simp add: ScheduleStore_Get_eq [OF wf' r(2) [OF that(1)]] ScheduleStore_Get_eq [OF assms(1) that(1)])
  ultimately show ?thesis using wf' by simp
qed

definition stored_schedule :: "string \<Rightarrow> string \<Rightarrow> Schedule" where
  "stored_schedule v i =
     \<lparr>sched_ID = i, sched_Volume = v, sched_Enabled = True,
      sched_DayTimes = [\<lparr>dt_Day = 1, dt_Times = [''09:30'']\<rparr>], sched_Type = ''local_file'',
      sched_FileName = '''', sched_Folder = ''/backup'', sched_ImageRef = '''', sched_CreatedAt = '''',
      sched_LastRunAt = '''', sched_NextRunAt = '''', sched_LastStatus = '''', sched_LastError = ''''\<rparr>"

theorem ScheduleStore_Get_after_Save_witness:
  "\<exists>d. ScheduleStore_Save no_faults [] (stored_schedule ''db'' ''s1'') = (None, d)
    \<and> ScheduleStore_Get no_faults d ''db'' ''s1'' = Inr (NormalizeSchedule (stored_schedule ''db'' ''s1''))"
proof -
  have "fst (ScheduleStore_Save no_faults [] (stored_schedule ''db'' ''s1'')) = None" by code_simp
  then obtain d where d: "ScheduleStore_Save no_faults [] (stored_schedule ''db'' ''s1'') = (None, d)"
    by (cases "ScheduleStore_Save no_faults [] (stored_schedule ''db'' ''s1'')") auto
  have "ids_distinct []" by (simp add: ids_distinct_def)
  from ScheduleStore_Get_after_Save [OF this d] d show ?thesis by (auto simp: stored_schedule_def)
qed

text \<open>
  A successful delete removes exactly the schedule with that ID from the volume's file; afterwards
  it is reported as not found and every other schedule is as before.
\<close>

theorem ScheduleStore_Delete_exact:
  assumes "ids_distinct d" "ScheduleStore_Delete io d v i = (None, d')"
  shows "ids_distinct d' \<and> schedule_at d (volumePath v, i) \<noteq> None \<and> schedule_at d' (volumePath v, i) = None
    \<and> (k \<noteq> (volumePath v, i) \<longrightarrow> schedule_at d' k = schedule_at d k)"
proof -
  have del: "delete_schedule io d (v, i) = Some d'" using assms(2) by (simp add: delete_schedule_def)
  obtain ss where l: "ScheduleStore_List io d v = Inr ss" and "list_ex (\<lambda>s. sched_ID s = i) ss"
    using assms(2) by (auto simp: ScheduleStore_Delete_def Let_def split: sum.splits if_splits)
  then have "find (\<lambda>s. sched_ID s = i) ss \<noteq> None" unfolding find_None_iff list_ex_iff by blast
  then have "schedule_at d (volumePath v, i) \<noteq> None"
    using ScheduleStore_List_Inr [OF l assms(1), of i] by metis
  then show ?thesis
    using schedules.delete_wf [OF assms(1) del] schedules.find_delete [OF assms(1) del, of "(volumePath v, i)"]
      schedules.find_delete [OF assms(1) del, of k] by simp
qed

theorem ScheduleStore_Delete_exact_witness:
  "\<exists>d d'. ScheduleStore_Save no_faults [] (stored_schedule ''db'' ''s1'') = (None, d)
    \<and> ScheduleStore_Delete no_faults d ''db'' ''s1'' = (None, d') \<and> schedule_at d' (volumePath ''db'', ''s1'') = None"
proof -
  let ?d = "snd (ScheduleStore_Save no_faults [] (stored_schedule ''db'' ''s1''))"
  let ?d' = "snd (ScheduleStore_Delete no_faults ?d ''db'' ''s1'')"
  have s: "fst (ScheduleStore_Save no_faults [] (stored_schedule ''db'' ''s1'')) = None" by code_simp
  have t: "fst (ScheduleStore_Delete no_faults ?d ''db'' ''s1'') = None" by code_simp
  have wf: "ids_distinct ?d" by code_simp
  have del: "ScheduleStore_Delete no_faults ?d ''db'' ''s1'' = (None, ?d')"
    using t surjective_pairing [of "ScheduleStore_Delete no_faults ?d ''db'' ''s1''"] by simp
  show ?thesis
    using ScheduleStore_Delete_exact [OF wf del] s del
      surjective_pairing [of "ScheduleStore_Save no_faults [] (stored_schedule ''db'' ''s1'')"]
    by (metis (no_types))
qed

text \<open>
  Different volumes can share one schedule file: all volumes whose name contains \<open>..\<close> are kept in
  \<open>unknown.json\<close>, so the schedules of one are listed for the other.
\<close>

theorem dotted_volumes_share_schedules:
  "ScheduleStore_List io d ''a..b'' = Inr ss \<longleftrightarrow> ScheduleStore_List io d ''c..d'' = Inr ss"
proof -
  have "volumePath ''a..b'' = ''unknown.json''" "volumePath ''c..d'' = ''unknown.json''" by code_simp+
  then show ?thesis
    by (auto simp: ScheduleStore_List_def split: sum.splits read_error.splits)
qed

end
