(* ===== verification/Calf_Runtime.thy ===== *)
theory Calf_Runtime
  imports Calf_Utils
begin

text \<open>
  The data of the container runtime (\<open>internal/runtime/runtime.go\<close>) and the helpers of \<open>errors.go\<close>
  that every backend uses.  A runtime is used by the daemon through the interface \<open>Runtime\<close>: here a
  record of the operations the modelled daemon code calls, on an abstract world \<open>'w\<close>; the mock of
  \<open>Calf_Mock\<close> is an instance.
\<close>

section \<open>Data (runtime.go, container\_detail.go, volume\_export.go, registry.go)\<close>

definition RuntimeStateRunning :: string where "RuntimeStateRunning = ''running''"
definition RuntimeStateStopped :: string where "RuntimeStateStopped = ''stopped''"
definition RuntimeStateStarting :: string where "RuntimeStateStarting = ''starting''"
definition RuntimeStateUnknown :: string where "RuntimeStateUnknown = ''unknown''"

lemmas runtime_state_defs =
  RuntimeStateRunning_def RuntimeStateStopped_def RuntimeStateStarting_def RuntimeStateUnknown_def

record PortConflict =
  pc_Port :: int
  pc_Process :: string
  pc_Hint :: string

record Status =
  st_Mode :: string
  st_State :: string
  st_DockerSocket :: string
  st_Rootless :: bool
  st_VMName :: string
  st_PortConflicts :: "PortConflict list"
  st_Log :: string

text \<open>The CPU share is a \<open>float64\<close> that is only passed on: it is kept as its decimal text.\<close>

record ResourceUsage =
  ru_CpuPercent :: string
  ru_MemoryUsedBytes :: int
  ru_DiskUsedBytes :: int

record Container =
  ct_ID :: string
  ct_Name :: string
  ct_Image :: string
  ct_State :: string
  ct_Status :: string
  ct_Ports :: string
  ct_Created :: string
  ct_ComposeProject :: string
  ct_ComposeService :: string

record Image =
  im_ID :: string
  im_Repository :: string
  im_Tag :: string
  im_Size :: string
  im_Created :: string

record ImageLayer =
  il_Index :: int
  il_CreatedBy :: string
  il_Size :: string
  il_Created :: string

record Volume =
  vo_Name :: string
  vo_Driver :: string
  vo_InUse :: bool
  vo_Size :: string
  vo_Created :: string

record VolumeDetail =
  vd_Name :: string
  vd_Driver :: string
  vd_Created :: string
  vd_InUse :: bool
  vd_Mountpoint :: string

record VolumeContainerUsage =
  vu_ID :: string
  vu_Name :: string
  vu_Image :: string
  vu_Port :: string
  vu_Target :: string

record Network =
  nw_ID :: string
  nw_Name :: string
  nw_Driver :: string
  nw_Scope :: string
  nw_Subnet :: string
  nw_Created :: string

record NetworkDetail =
  nd_ID :: string
  nd_Name :: string
  nd_Driver :: string
  nd_Scope :: string
  nd_Subnet :: string
  nd_Gateway :: string
  nd_Created :: string
  nd_Options :: "(string \<times> string) list"

record ContainerFileEntry =
  fe_Name :: string
  fe_Path :: string
  fe_IsDir :: bool
  fe_Size :: int
  fe_Mode :: string
  fe_Modified :: string
  fe_Note :: string

record ContainerStats =
  cs_CPUPerc :: string
  cs_MemUsage :: string
  cs_MemPerc :: string
  cs_NetIO :: string
  cs_BlockIO :: string
  cs_PIDs :: string

record RegistryStatus =
  rs_LoggedIn :: bool
  rs_Server :: string
  rs_Username :: string

record VolumeExportOptions =
  vx_VolumeName :: string
  vx_Type :: string
  vx_FileName :: string
  vx_Folder :: string
  vx_ImageRef :: string
  vx_ArchivePath :: string

record PruneOptions =
  po_Containers :: bool
  po_Images :: bool
  po_Volumes :: bool
  po_Networks :: bool
  po_BuildCache :: bool

record PruneItem =
  pi_ID :: string
  pi_Name :: string
  pi_Size :: string
  pi_SizeBytes :: int

record PruneCategoryPreview =
  pc_Items :: "PruneItem list"
  pc_ReclaimableBytes :: int
  pc_ReclaimableSize :: string

record DiskUsageRow =
  du_Type :: string
  du_Size :: string
  du_SizeBytes :: int
  du_Reclaimable :: string
  du_ReclaimableBytes :: int

type_synonym SystemDiskUsage = "DiskUsageRow list"

record PrunePreview =
  pp_Containers :: PruneCategoryPreview
  pp_Images :: PruneCategoryPreview
  pp_Volumes :: PruneCategoryPreview
  pp_Networks :: PruneCategoryPreview
  pp_BuildCache :: PruneCategoryPreview
  pp_DiskUsage :: SystemDiskUsage
  pp_TotalReclaimableBytes :: int
  pp_TotalReclaimableSize :: string

record PruneResult =
  pr_Containers :: bool
  pr_Images :: bool
  pr_Volumes :: bool
  pr_Networks :: bool
  pr_BuildCache :: bool
  pr_ReclaimedBytes :: int
  pr_ReclaimedSize :: string

section \<open>The interface\<close>

text \<open>
  The operations of the interface that the modelled code calls, each from the state of the world to a
  result and the next state.  In the last three, \<open>None\<close> is a panic of \<open>FormatBytes\<close>.
\<close>

type_synonym 'w action = "'w \<Rightarrow> go_error option \<times> 'w"

type_synonym ('a, 'w) query = "'w \<Rightarrow> 'a result \<times> 'w"

record 'w Runtime =
  rt_Start :: "'w action"
  rt_Stop :: "'w action"
  rt_ForceStop :: "'w action"
  rt_Status :: "(Status, 'w) query"
  rt_ResourceUsage :: "(ResourceUsage, 'w) query"
  rt_DockerSocket :: "'w \<Rightarrow> string"
  rt_ListContainers :: "(Container list, 'w) query"
  rt_ListImages :: "(Image list, 'w) query"
  rt_ImageHistory :: "string \<Rightarrow> (ImageLayer list, 'w) query"
  rt_ListVolumes :: "(Volume list, 'w) query"
  rt_InspectVolume :: "string \<Rightarrow> (VolumeDetail, 'w) query"
  rt_ListVolumeFiles :: "string \<Rightarrow> string \<Rightarrow> (ContainerFileEntry list, 'w) query"
  rt_VolumeContainers :: "string \<Rightarrow> (VolumeContainerUsage list, 'w) query"
  rt_StartContainer :: "string \<Rightarrow> 'w action"
  rt_StopContainer :: "string \<Rightarrow> 'w action"
  rt_RemoveContainer :: "string \<Rightarrow> 'w action"
  rt_RemoveImage :: "string \<Rightarrow> 'w action"
  rt_PullImage :: "string \<Rightarrow> 'w action"
  rt_PushImage :: "string \<Rightarrow> 'w action"
  rt_RunImage :: "string \<Rightarrow> (string, 'w) query"
  rt_CreateVolume :: "string \<Rightarrow> 'w action"
  rt_CloneVolume :: "string \<Rightarrow> string \<Rightarrow> 'w action"
  rt_ExportVolume :: "VolumeExportOptions \<Rightarrow> (string, 'w) query"
  rt_RemoveVolume :: "string \<Rightarrow> 'w action"
  rt_ListContainerFiles :: "string \<Rightarrow> string \<Rightarrow> (ContainerFileEntry list, 'w) query"
  rt_ExecContainer :: "string \<Rightarrow> string \<Rightarrow> (string, 'w) query"
  rt_ContainerStats :: "string \<Rightarrow> (ContainerStats, 'w) query"
  rt_RestartContainer :: "string \<Rightarrow> 'w action"
  rt_RegistryStatus :: "(RegistryStatus, 'w) query"
  rt_RegistryLogin :: "string \<Rightarrow> string \<Rightarrow> string \<Rightarrow> 'w action"
  rt_RegistryLogout :: "string \<Rightarrow> 'w action"
  rt_ListNetworks :: "(Network list, 'w) query"
  rt_InspectNetwork :: "string \<Rightarrow> (NetworkDetail, 'w) query"
  rt_RemoveNetwork :: "string \<Rightarrow> 'w action"
  rt_PrunePreview :: "'w \<Rightarrow> (PrunePreview result \<times> 'w) option"
  rt_Prune :: "PruneOptions \<Rightarrow> 'w \<Rightarrow> (PruneResult result \<times> 'w) option"
  rt_SystemDiskUsage :: "'w \<Rightarrow> (SystemDiskUsage result \<times> 'w) option"

section \<open>Helpers (errors.go)\<close>

definition emptyIfStopped ::
    "('w \<Rightarrow> Status result \<times> 'w) \<Rightarrow> ('w \<Rightarrow> 'a list result \<times> 'w) \<Rightarrow> 'w \<Rightarrow> 'a list result \<times> 'w" where
  "emptyIfStopped statusFn listFn w =
     (case statusFn w of
        (Inl err, w1) \<Rightarrow> (Inl err, w1)
      | (Inr status, w1) \<Rightarrow>
          if st_State status \<noteq> RuntimeStateRunning then (Inr [], w1) else listFn w1)"

text \<open>Both results of \<open>KeepLastList\<close> are returned together, as in Go.\<close>

definition KeepLastList :: "'a list \<Rightarrow> 'a list \<Rightarrow> go_error option \<Rightarrow> 'a list \<times> go_error option" where
  "KeepLastList cached live err =
     (if err = None then (live, None) else if cached = [] then (live, err) else (cached, None))"

definition requireRunning :: "('w \<Rightarrow> Status result \<times> 'w) \<Rightarrow> 'w \<Rightarrow> go_error option \<times> 'w" where
  "requireRunning statusFn w =
     (case statusFn w of
        (Inl err, w1) \<Rightarrow> (Some err, w1)
      | (Inr status, w1) \<Rightarrow>
          if st_State status \<noteq> RuntimeStateRunning then (Some (Sentinel ErrRuntimeNotRunning), w1) else (None, w1))"

section \<open>What the daemon relies on\<close>

text \<open>
  A successful start or stop is visible in the status.  The lemmas hold for every backend that keeps
  this contract.
\<close>

locale runtime_contract =
  fixes rt :: "'w Runtime"
  assumes start_running: "rt_Start rt w = (None, w1) \<Longrightarrow> rt_Status rt w1 = (Inr s, w2) \<Longrightarrow> st_State s = RuntimeStateRunning"
    and stop_stopped: "rt_Stop rt w = (None, w1) \<Longrightarrow> rt_Status rt w1 = (Inr s, w2) \<Longrightarrow> st_State s \<noteq> RuntimeStateRunning"
begin

lemma requireRunning_after_start:
  assumes "rt_Start rt w = (None, w1)" "requireRunning (rt_Status rt) w1 = (e, w2)"
  shows "case rt_Status rt w1 of (Inl err, _) \<Rightarrow> e = Some err | (Inr _, _) \<Rightarrow> e = None"
  using assms start_running [OF assms(1)]
  by (auto simp: requireRunning_def split: prod.splits sum.splits if_splits)

lemma emptyIfStopped_after_stop:
  assumes "rt_Stop rt w = (None, w1)" "emptyIfStopped (rt_Status rt) listFn w1 = (Inr xs, w2)"
  shows "xs = []"
  using assms stop_stopped [OF assms(1)]
  by (auto simp: emptyIfStopped_def split: prod.splits sum.splits if_splits)

end

section \<open>The unsupported runtime (unsupported.go)\<close>

text \<open>
  Engine operations fail with one reason; stopping is a no-op and the status is always stopped.  The
  state of the world is not looked at.
\<close>

record Unsupported =
  us_dockerSocket :: string
  us_reason :: string

definition NewUnsupported :: "string \<Rightarrow> string \<Rightarrow> Unsupported" where
  "NewUnsupported dockerSocket reason =
     \<lparr>us_dockerSocket = dockerSocket,
      us_reason = (if reason = [] then ''container engine is not available on this platform'' else reason)\<rparr>"

definition NewWindowsUnsupported :: "string \<Rightarrow> Unsupported" where
  "NewWindowsUnsupported dockerSocket = NewUnsupported dockerSocket
     ''Windows container engine is not available in this release (Lima was removed); use macOS or Linux''"

definition Unsupported_err :: "Unsupported \<Rightarrow> go_error" where
  "Unsupported_err u = Errorf (us_reason u)"

definition Unsupported_Status :: "Unsupported \<Rightarrow> Status" where
  "Unsupported_Status u = \<lparr>st_Mode = ''vm'', st_State = RuntimeStateStopped, st_DockerSocket = us_dockerSocket u,
     st_Rootless = False, st_VMName = [], st_PortConflicts = [], st_Log = us_reason u\<rparr>"

definition Unsupported_Runtime :: "Unsupported \<Rightarrow> 'w Runtime" where
  "Unsupported_Runtime u =
     (let fails = Pair (Some (Unsupported_err u)) in
      \<lparr>rt_Start = fails, rt_Stop = Pair None, rt_ForceStop = Pair None, rt_Status = Pair (Inr (Unsupported_Status u)),
       rt_ResourceUsage = Pair (Inr \<lparr>ru_CpuPercent = ''0'', ru_MemoryUsedBytes = 0, ru_DiskUsedBytes = 0\<rparr>),
       rt_DockerSocket = (\<lambda>_. us_dockerSocket u), rt_ListContainers = Pair (Inl (Unsupported_err u)),
       rt_ListImages = Pair (Inl (Unsupported_err u)), rt_ImageHistory = (\<lambda>_. Pair (Inl (Unsupported_err u))),
       rt_ListVolumes = Pair (Inl (Unsupported_err u)), rt_InspectVolume = (\<lambda>_. Pair (Inl (Unsupported_err u))),
       rt_ListVolumeFiles = (\<lambda>_ _. Pair (Inl (Unsupported_err u))), rt_VolumeContainers = (\<lambda>_. Pair (Inl (Unsupported_err u))),
       rt_StartContainer = (\<lambda>_. fails), rt_StopContainer = (\<lambda>_. fails), rt_RemoveContainer = (\<lambda>_. fails),
       rt_RemoveImage = (\<lambda>_. fails), rt_PullImage = (\<lambda>_. fails), rt_PushImage = (\<lambda>_. fails),
       rt_RunImage = (\<lambda>_. Pair (Inl (Unsupported_err u))), rt_CreateVolume = (\<lambda>_. fails), rt_CloneVolume = (\<lambda>_ _. fails),
       rt_ExportVolume = (\<lambda>_. Pair (Inl (Unsupported_err u))), rt_RemoveVolume = (\<lambda>_. fails),
       rt_ListContainerFiles = (\<lambda>_ _. Pair (Inl (Unsupported_err u))), rt_ExecContainer = (\<lambda>_ _. Pair (Inl (Unsupported_err u))),
       rt_ContainerStats = (\<lambda>_. Pair (Inl (Unsupported_err u))), rt_RestartContainer = (\<lambda>_. fails),
       rt_RegistryStatus = Pair (Inl (Unsupported_err u)), rt_RegistryLogin = (\<lambda>_ _ _. fails), rt_RegistryLogout = (\<lambda>_. fails),
       rt_ListNetworks = Pair (Inl (Unsupported_err u)), rt_InspectNetwork = (\<lambda>_. Pair (Inl (Unsupported_err u))),
       rt_RemoveNetwork = (\<lambda>_. fails), rt_PrunePreview = (\<lambda>w. Some (Inl (Unsupported_err u), w)),
       rt_Prune = (\<lambda>_ w. Some (Inl (Unsupported_err u), w)), rt_SystemDiskUsage = (\<lambda>w. Some (Inl (Unsupported_err u), w))\<rparr>)"

interpretation unsupported_runtime: runtime_contract "Unsupported_Runtime u"
  by unfold_locales
    (auto simp: Unsupported_Runtime_def Unsupported_Status_def Let_def RuntimeStateRunning_def RuntimeStateStopped_def)

end
