(* ===== verification/Calf_Export_Store.thy ===== *)
theory Calf_Export_Store
  imports Calf_Schedule_Store Calf_Runtime
begin

text \<open>
  The store of finished exports (\<open>internal/volumeexport/store.go\<close>) and the execution of one export
  (\<open>internal/daemon/export_runner.go\<close>).  The store keeps a directory per volume and per export in it,
  with the file \<open>meta.json\<close>; a node of the model is an entry of a volume directory.
\<close>

section \<open>Exports (store.go)\<close>

record Export =
  ex_ID :: string
  ex_Volume :: string
  ex_Type :: string
  ex_Status :: string
  ex_CreatedAt :: string
  ex_FileName :: string
  ex_FilePath :: string
  ex_ImageRef :: string
  ex_Size :: string
  ex_Error :: string
  ex_Downloadable :: bool

text \<open>A plain file, or an export directory with the content of its \<open>meta.json\<close> if there is one.\<close>

datatype export_node = PlainFile | ExportDir "Export payload option"

type_synonym export_dir = "(string \<times> string, export_node) directory"

definition exportDir :: "string \<Rightarrow> string \<Rightarrow> string \<times> string" where
  "exportDir volumeName eid = (sanitizeName volumeName, sanitizeName eid)"

definition readMeta :: "(string \<times> string) faults \<Rightarrow> export_dir \<Rightarrow> string \<Rightarrow> string \<Rightarrow> Export result" where
  "readMeta io d volumeName eid =
     (let k = exportDir volumeName eid in
      case (case io OpRead k of
              Some f \<Rightarrow> Inl (fault_error f)
            | None \<Rightarrow>
                (case entry d k of
                   Some (ExportDir (Some p)) \<Rightarrow> Inr p
                 | Some PlainFile \<Rightarrow> Inl (Errorf ''not a directory'')
                 | _ \<Rightarrow> Inl (Sentinel ErrNotExist))) of
        Inl e \<Rightarrow> Inl (Wrap ''read export meta'' e)
      | Inr p \<Rightarrow>
          (case Unmarshal p of
             Inl e \<Rightarrow> Inl (Wrap ''decode export meta'' e)
           | Inr export \<Rightarrow> Inr export))"

definition newerExport :: "Export \<Rightarrow> Export \<Rightarrow> bool" where
  "newerExport a b \<longleftrightarrow> ex_CreatedAt a > ex_CreatedAt b"

fun List_loop ::
    "(string \<times> string) faults \<Rightarrow> export_dir \<Rightarrow> string \<Rightarrow> (string \<times> export_node) list \<Rightarrow> Export list
     \<Rightarrow> go_error list \<Rightarrow> Export list \<times> go_error list" where
  "List_loop io d volumeName [] exports skipped = (exports, skipped)"
| "List_loop io d volumeName ((name, n) # entries) exports skipped =
     (if n = PlainFile then List_loop io d volumeName entries exports skipped
      else case readMeta io d volumeName name of
        Inl err \<Rightarrow> List_loop io d volumeName entries exports
          (skipped @ [Wrap (''volume '' @ volumeName @ '' export '' @ name) err])
      | Inr export \<Rightarrow> List_loop io d volumeName entries (exports @ [export]) skipped)"

definition volume_entries :: "export_dir \<Rightarrow> string \<Rightarrow> (string \<times> export_node) list" where
  "volume_entries d vdir = map (\<lambda>((_, name), n). (name, n)) (filter (\<lambda>((v, _), _). v = vdir) d)"

definition Store_List :: "(string \<times> string) faults \<Rightarrow> export_dir \<Rightarrow> string \<Rightarrow> Export list \<times> go_error option" where
  "Store_List io d volumeName =
     (case io OpReadDir (sanitizeName volumeName, '''') of
        Some f \<Rightarrow> ([], Some (Wrap (''list exports for '' @ volumeName) (fault_error f)))
      | None \<Rightarrow>
          let (exports, skipped) = List_loop io d volumeName (volume_entries d (sanitizeName volumeName)) [] []
          in (sort_Slice newerExport exports, errors_Join skipped))"

definition Store_Get :: "(string \<times> string) faults \<Rightarrow> export_dir \<Rightarrow> string \<Rightarrow> string \<Rightarrow> Export result" where
  "Store_Get io d volumeName eid = readMeta io d volumeName eid"

definition ensureExportDir ::
    "(string \<times> string) faults \<Rightarrow> export_dir \<Rightarrow> string \<Rightarrow> string \<Rightarrow> go_error option \<times> export_dir" where
  "ensureExportDir io d volumeName eid =
     (let k = exportDir volumeName eid in
      case io OpMkdir k of
        Some f \<Rightarrow> (Some (Wrap ''create export dir'' (fault_error f)), d)
      | None \<Rightarrow>
          (case entry d k of
             None \<Rightarrow> (None, put k (ExportDir None) d)
           | Some PlainFile \<Rightarrow> (Some (Wrap ''create export dir'' (Errorf ''not a directory'')), d)
           | Some (ExportDir _) \<Rightarrow> (None, d)))"

definition Store_Save :: "(string \<times> string) faults \<Rightarrow> export_dir \<Rightarrow> Export \<Rightarrow> go_error option \<times> export_dir" where
  "Store_Save io d export =
     (if TrimSpace (ex_Volume export) = '''' then (Some (Errorf ''volume is required''), d)
      else if TrimSpace (ex_ID export) = '''' then (Some (Errorf ''id is required''), d)
      else case ensureExportDir io d (ex_Volume export) (ex_ID export) of
        (Some e, d1) \<Rightarrow> (Some e, d1)
      | (None, d1) \<Rightarrow>
          let k = exportDir (ex_Volume export) (ex_ID export) in
          case io OpWrite k of
            Some f \<Rightarrow> (Some (Wrap ''write export meta'' (fault_error f)),
                       if fault_truncated f
                       then put k (ExportDir (Some (Garbage (Errorf ''unexpected end of JSON input'')))) d1 else d1)
          | None \<Rightarrow> (None, put k (ExportDir (Some (Json export))) d1))"

definition Store_NewID :: "string \<Rightarrow> Time \<Rightarrow> string" where
  "Store_NewID volumeName now = newResourceID '''' volumeName now"

text \<open>The path of an archive, below the root of the store.\<close>

definition ArchivePath :: "string \<Rightarrow> string \<Rightarrow> string \<Rightarrow> string" where
  "ArchivePath root volumeName eid =
     root @ ''/'' @ sanitizeName volumeName @ ''/'' @ sanitizeName eid @ ''/archive.tar.gz''"

section \<open>Running an export (export\_runner.go)\<close>

record VolumeExportRequest =
  vr_Type :: string
  vr_FileName :: string
  vr_Folder :: string
  vr_ImageRef :: string

text \<open>
  What the daemon meets outside the stores: its runtime, the clock and the local zone, \<open>os.Stat\<close> on
  an archive, the state of its stop channel, and the failures of the stores' directories.  Reading the
  clock and running the runtime's operations change the world \<open>'w\<close>.
\<close>

record 'w Env =
  env_Runtime :: "'w Runtime"
  env_Now :: "'w \<Rightarrow> Time \<times> 'w"
  env_FileSize :: "'w \<Rightarrow> string \<Rightarrow> int option"
  env_Local :: Location
  env_Stopped :: "'w \<Rightarrow> bool"
  env_OpenExports :: "'w \<Rightarrow> go_error option"
  env_OpenSchedules :: "'w \<Rightarrow> go_error option"
  env_ExportRoot :: string
  env_ExportFaults :: "'w \<Rightarrow> (string \<times> string) faults"
  env_ScheduleFaults :: "'w \<Rightarrow> string faults"

definition imageExportTypes :: "string list" where
  "imageExportTypes = [VolumeExportTypeLocalImage, VolumeExportTypeNewImage, VolumeExportTypeRegistry]"

text \<open>
  The switch after a successful run: where the archive went and its size; \<open>None\<close> is the panic of
  \<open>FormatBytes\<close>.
\<close>

definition finishExport :: "Export \<Rightarrow> string \<Rightarrow> int option \<Rightarrow> Export option" where
  "finishExport export resultPath stat =
     (let e1 = export\<lparr>ex_Status := JobStatusCompleted,
                      ex_Downloadable := (ex_Type export = VolumeExportTypeLocalFile)\<rparr>;
          sized = (\<lambda>e. case stat of
                     None \<Rightarrow> Some e
                   | Some n \<Rightarrow> map_option (\<lambda>s. e\<lparr>ex_Size := s\<rparr>) (FormatBytes n))
      in if ex_Type export = VolumeExportTypeLocalFile then sized (e1\<lparr>ex_FilePath := resultPath\<rparr>)
         else if ex_Type export \<in> set imageExportTypes then sized (e1\<lparr>ex_ImageRef := resultPath\<rparr>)
         else Some e1)"

text \<open>The record written before the runtime is called.\<close>

definition initialExport :: "string \<Rightarrow> string \<Rightarrow> Time \<Rightarrow> VolumeExportRequest \<Rightarrow> Export" where
  "initialExport volumeName exportID now request =
     (let export = \<lparr>ex_ID = exportID, ex_Volume = volumeName, ex_Type = vr_Type request,
                     ex_Status = JobStatusRunning, ex_CreatedAt = FormatRFC3339 now,
                     ex_FileName = vr_FileName request, ex_FilePath = vr_Folder request,
                     ex_ImageRef = vr_ImageRef request, ex_Size = [], ex_Error = [], ex_Downloadable = False\<rparr>
      in if vr_Type request = VolumeExportTypeLocalFile \<and> ex_FileName export = ''''
         then export\<lparr>ex_FileName := SanitizeExportFileName volumeName @ ''.tar.gz''\<rparr> else export)"

definition ExecuteVolumeExport ::
    "'w Env \<Rightarrow> string \<Rightarrow> VolumeExportRequest \<Rightarrow> export_dir \<times> 'w \<Rightarrow>
     ((Export option \<times> go_error option) \<times> export_dir \<times> 'w) option" where
  "ExecuteVolumeExport env volumeName request st =
     (let (d, w) = st in
      case env_OpenExports env w of
        Some err \<Rightarrow> Some ((None, Some err), d, w)
      | None \<Rightarrow>
      let exportType = vr_Type request;
          (now1, w1) = env_Now env w;
          exportID = Store_NewID volumeName now1;
          archivePath = ArchivePath (env_ExportRoot env) volumeName exportID;
          (now2, w2) = env_Now env w1;
          export = initialExport volumeName exportID now2 request
      in case ensureExportDir (env_ExportFaults env w2) d volumeName exportID of
           (Some err, d1) \<Rightarrow> Some ((None, Some err), d1, w2)
         | (None, d1) \<Rightarrow>
             (case Store_Save (env_ExportFaults env w2) d1 export of
                (Some err, d2) \<Rightarrow> Some ((None, Some err), d2, w2)
              | (None, d2) \<Rightarrow>
                  let opts = \<lparr>vx_VolumeName = volumeName, vx_Type = exportType, vx_FileName = ex_FileName export,
                              vx_Folder = ex_FilePath export, vx_ImageRef = ex_ImageRef export,
                              vx_ArchivePath = archivePath\<rparr>
                  in (case rt_ExportVolume (env_Runtime env) opts w2 of
                        (Inl err, w3) \<Rightarrow>
                          let failed = export\<lparr>ex_Status := JobStatusFailed, ex_Error := Error err\<rparr>;
                              (_, d3) = Store_Save (env_ExportFaults env w3) d2 failed
                          in Some ((Some failed, Some err), d3, w3)
                      | (Inr resultPath, w3) \<Rightarrow>
                          (case finishExport export resultPath (env_FileSize env w3 archivePath) of
                             None \<Rightarrow> None
                           | Some done_export \<Rightarrow>
                               let (err, d3) = Store_Save (env_ExportFaults env w3) d2 done_export
                               in Some ((Some done_export, err), d3, w3)))))"

section \<open>The store as a finite map\<close>

definition export_at :: "export_dir \<Rightarrow> string \<times> string \<Rightarrow> Export option" where
  "export_at d k = (case entry d k of Some (ExportDir (Some (Json e))) \<Rightarrow> Some e | _ \<Rightarrow> None)"

definition export_key :: "Export \<Rightarrow> string \<times> string" where
  "export_key e = exportDir (ex_Volume e) (ex_ID e)"

definition save_export :: "(string \<times> string) faults \<Rightarrow> export_dir \<Rightarrow> Export \<Rightarrow> export_dir option" where
  "save_export io d e = (case Store_Save io d e of (None, d') \<Rightarrow> Some d' | (Some _, _) \<Rightarrow> None)"

lemma ensureExportDir_at [simp, file_simps]:
  "ensureExportDir io d v i = (r, d') \<Longrightarrow> export_at d' k = export_at d k"
  by (auto simp: ensureExportDir_def export_at_def Let_def split: option.splits export_node.splits if_splits)

lemma Store_Save_at:
  assumes "Store_Save io d e = (None, d')"
  shows "export_at d' k = (if k = export_key e then Some e else export_at d k)"
proof -
  obtain d1 where "ensureExportDir io d (ex_Volume e) (ex_ID e) = (None, d1)"
      "d' = put (export_key e) (ExportDir (Some (Json e))) d1"
    using assms by (auto simp: Store_Save_def Let_def export_key_def split: if_splits prod.splits option.splits)
  then show ?thesis
    using ensureExportDir_at [of io d "ex_Volume e" "ex_ID e" None d1 k] by (auto simp: export_at_def)
qed

interpretation exports: keyed_store "\<lambda>_. True" export_at "save_export io" export_key "\<lambda>e. e" for io
  by unfold_locales (auto simp: save_export_def Store_Save_at split: prod.splits option.splits)

lemma Store_Get_at: "export_at d (exportDir v i) = Some e \<Longrightarrow> Store_Get no_faults d v i = Inr e"
  by (auto simp: Store_Get_def readMeta_def export_at_def no_faults_def Let_def
      split: option.splits export_node.splits payload.splits)

section \<open>Exports always reach a final status\<close>

lemma TrimSpace_newResourceID: "TrimSpace (newResourceID pfx v now) \<noteq> ''''"
  by (rule TrimSpace_has_visible [of "CHR ''-''"]) (auto simp: space1_def newResourceID_def Let_def)

definition no_plain_files :: "export_dir \<Rightarrow> bool" where
  "no_plain_files d \<longleftrightarrow> PlainFile \<notin> snd ` set d"

lemma no_plain_files_entry: "no_plain_files d \<Longrightarrow> entry d k \<noteq> Some PlainFile"
  using entry_mem [of d k PlainFile] by (force simp: no_plain_files_def)

lemma no_plain_files_put: "no_plain_files d \<Longrightarrow> no_plain_files (put k (ExportDir p) d)"
  using set_put [of k "ExportDir p" d] by (auto simp: no_plain_files_def)

lemma ensureExportDir_no_faults:
  assumes "no_plain_files d"
  obtains d' where "ensureExportDir no_faults d v i = (None, d')" "no_plain_files d'"
proof (cases "entry d (exportDir v i)")
  case None
  then show ?thesis
    using no_plain_files_put [OF assms] by (intro that) (simp_all add: ensureExportDir_def no_faults_def Let_def)
next
  case (Some n)
  then show ?thesis
    using no_plain_files_entry [OF assms, of "exportDir v i"] assms
    by (cases n) (auto intro!: that simp: ensureExportDir_def no_faults_def Let_def)
qed

lemma Store_Save_no_faults:
  assumes "no_plain_files d" "TrimSpace (ex_Volume e) \<noteq> ''''" "TrimSpace (ex_ID e) \<noteq> ''''"
  obtains d' where "Store_Save no_faults d e = (None, d')" "no_plain_files d'"
proof -
  obtain d1 where d1: "ensureExportDir no_faults d (ex_Volume e) (ex_ID e) = (None, d1)" "no_plain_files d1"
    by (rule ensureExportDir_no_faults [OF assms(1)])
  then show ?thesis
    using assms no_plain_files_put [OF d1(2)]
    by (intro that [of "put (exportDir (ex_Volume e) (ex_ID e)) (ExportDir (Some (Json e))) d1"])
      (simp_all add: Store_Save_def no_faults_def Let_def)
qed

lemma finishExport_fields:
  assumes "finishExport e path stat = Some e'"
  shows "ex_ID e' = ex_ID e" "ex_Volume e' = ex_Volume e" "ex_Type e' = ex_Type e" "ex_Status e' = JobStatusCompleted"
  using assms by (auto simp: finishExport_def Let_def split: if_splits option.splits)

lemma finishExport_total: "(\<And>n. stat = Some n \<Longrightarrow> n < 1024 ^ 5) \<Longrightarrow> \<exists>e'. finishExport e path stat = Some e'"
  using FormatBytes_None_iff by (cases stat) (auto simp: finishExport_def Let_def not_less [symmetric])

lemma ExecuteVolumeExport_final:
  assumes io: "\<And>w. env_OpenExports env w = None \<and> env_ExportFaults env w = no_faults" and d: "no_plain_files d" and v: "TrimSpace v \<noteq> ''''"
    and size: "\<And>w p n. env_FileSize env w p = Some n \<Longrightarrow> n < 1024 ^ 5"
  shows "\<exists>e err d' w'. ExecuteVolumeExport env v req (d, w) = Some ((Some e, err), d', w')
    \<and> ex_Volume e = v \<and> ex_Type e = vr_Type req \<and> Store_Get no_faults d' v (ex_ID e) = Inr e
    \<and> ex_Status e = (if err = None then JobStatusCompleted else JobStatusFailed)
    \<and> (\<forall>k. k \<noteq> export_key e \<longrightarrow> export_at d' k = export_at d k)"
proof -
  obtain now1 w1 where n1: "env_Now env w = (now1, w1)" by fastforce
  obtain now2 w2 where n2: "env_Now env w1 = (now2, w2)" by fastforce
  define i where "i = Store_NewID v now1"
  define e where "e = initialExport v i now2 req"
  have e: "ex_ID e = i" "ex_Volume e = v" "ex_Type e = vr_Type req" by (simp_all add: e_def initialExport_def Let_def)
  have i: "TrimSpace i \<noteq> ''''" by (simp add: i_def Store_NewID_def TrimSpace_newResourceID)
  obtain d1 where d1: "ensureExportDir no_faults d v i = (None, d1)" "no_plain_files d1"
    by (rule ensureExportDir_no_faults [OF d])
  obtain d2 where d2: "Store_Save no_faults d1 e = (None, d2)" "no_plain_files d2"
    by (rule Store_Save_no_faults [OF d1(2), of e]) (simp_all add: e v i)
  let ?p = "ArchivePath (env_ExportRoot env) v i"
  let ?opts = "\<lparr>vx_VolumeName = v, vx_Type = vr_Type req, vx_FileName = ex_FileName e, vx_Folder = ex_FilePath e,
    vx_ImageRef = ex_ImageRef e, vx_ArchivePath = ?p\<rparr>"
  obtain r w3 where r: "rt_ExportVolume (env_Runtime env) ?opts w2 = (r, w3)" by fastforce
  define e' where "e' = (case r of Inl err \<Rightarrow> e\<lparr>ex_Status := JobStatusFailed, ex_Error := Error err\<rparr>
    | Inr path \<Rightarrow> the (finishExport e path (env_FileSize env w3 ?p)))"
  obtain f where f: "\<And>path. r = Inr path \<Longrightarrow> finishExport e path (env_FileSize env w3 ?p) = Some (f path)"
    using finishExport_total [of "env_FileSize env w3 ?p" e] size by metis
  have e': "ex_ID e' = i" "ex_Volume e' = v" "ex_Type e' = vr_Type req"
      "ex_Status e' = (if isl r then JobStatusFailed else JobStatusCompleted)"
    using f finishExport_fields by (auto simp: e'_def e split: sum.splits)
  obtain d3 where d3: "Store_Save no_faults d2 e' = (None, d3)" "no_plain_files d3"
    by (rule Store_Save_no_faults [OF d2(2), of e']) (simp_all add: e' v i)
  have "ExecuteVolumeExport env v req (d, w) =
      Some ((Some e', case r of Inl err \<Rightarrow> Some err | Inr _ \<Rightarrow> None), d3, w3)"
    using n1 n2 d1(1) d2(1) d3(1) r f
    by (cases r) (auto simp: ExecuteVolumeExport_def Let_def io e'_def e_def [symmetric] i_def [symmetric])
  moreover have "export_key e = export_key e'" by (simp add: export_key_def e' e)
  then have "export_at d3 k = export_at d k" if "k \<noteq> export_key e'" for k
    using that Store_Save_at [OF d3(1), of k] Store_Save_at [OF d2(1), of k] ensureExportDir_at [OF d1(1), of k] by simp
  moreover have "Store_Get no_faults d3 v i = Inr e'"
    using Store_Get_at [of d3 v i e'] Store_Save_at [OF d3(1), of "export_key e'"] by (simp add: export_key_def e')
  ultimately show ?thesis using e' by (cases r) auto
qed

section \<open>Properties\<close>

text \<open>
  The export store: after a successful save the export is read back unchanged under its volume
  and ID, and every export in another directory is as before.
\<close>

theorem Store_Get_after_Save:
  assumes "Store_Save io d e = (None, d')"
  shows "Store_Get no_faults d' (ex_Volume e) (ex_ID e) = Inr e
    \<and> (k \<noteq> export_key e \<longrightarrow> export_at d' k = export_at d k)"
proof -
  have s: "save_export io d e = Some d'" using assms by (simp add: save_export_def)
  have "export_at d' (exportDir (ex_Volume e) (ex_ID e)) = Some e"
    using exports.find_save [OF TrueI s, of "export_key e"] by (simp add: export_key_def)
  then show ?thesis using Store_Get_at exports.find_save [OF TrueI s, of k] by auto
qed

definition demo_export :: Export where
  "demo_export = \<lparr>ex_ID = ''db-1'', ex_Volume = ''db'', ex_Type = VolumeExportTypeLocalFile,
     ex_Status = JobStatusRunning, ex_CreatedAt = [], ex_FileName = ''db.tar.gz'', ex_FilePath = ''/backup'',
     ex_ImageRef = [], ex_Size = [], ex_Error = [], ex_Downloadable = False\<rparr>"

theorem Store_Get_after_Save_witness:
  "\<exists>d. Store_Save no_faults [] demo_export = (None, d) \<and> Store_Get no_faults d ''db'' ''db-1'' = Inr demo_export"
proof -
  obtain d where d: "Store_Save no_faults [] demo_export = (None, d)"
    by (rule Store_Save_no_faults [of "[]" demo_export])
      (simp_all add: no_plain_files_def demo_export_def trim_eval)
  from Store_Get_after_Save [OF d] d show ?thesis by (auto simp: demo_export_def)
qed

text \<open>
  Running an export always ends with a record in the store that is no longer running: without
  I/O errors in the store and with an archive below one pebibyte, \<open>ExecuteVolumeExport\<close> returns the
  export it stored, completed when the runtime succeeded and failed when it did not, and touches no
  other export.
\<close>

theorem export_reaches_final_status:
  assumes io: "\<And>w. env_OpenExports env w = None \<and> env_ExportFaults env w = no_faults" and d: "no_plain_files d" and v: "TrimSpace v \<noteq> ''''"
    and size: "\<And>w p n. env_FileSize env w p = Some n \<Longrightarrow> n < 1024 ^ 5"
  shows "\<exists>e err d' w'. ExecuteVolumeExport env v req (d, w) = Some ((Some e, err), d', w')
    \<and> ex_Volume e = v \<and> ex_Type e = vr_Type req \<and> Store_Get no_faults d' v (ex_ID e) = Inr e
    \<and> ex_Status e = (if err = None then JobStatusCompleted else JobStatusFailed)
    \<and> (\<forall>k. k \<noteq> export_key e \<longrightarrow> export_at d' k = export_at d k)"
  using assms by (rule ExecuteVolumeExport_final)

text \<open>An environment for the witnesses: the world is the clock, and every export succeeds.\<close>

definition demo_status :: Status where
  "demo_status = \<lparr>st_Mode = ''vm'', st_State = RuntimeStateRunning, st_DockerSocket = [], st_Rootless = False,
     st_VMName = ''calf'', st_PortConflicts = [], st_Log = []\<rparr>"

definition demo_env :: "Time Env" where
  "demo_env = \<lparr>env_Runtime =
       (Unsupported_Runtime (NewUnsupported [] []))
         \<lparr>rt_Status := Pair (Inr demo_status), rt_ExportVolume := (\<lambda>opts. Pair (Inr (vx_ArchivePath opts)))\<rparr>,
     env_Now = (\<lambda>w. (\<bar>w\<bar>, w + 1)), env_FileSize = (\<lambda>_ _. Some 2048), env_Local = UTC,
     env_Stopped = (\<lambda>_. False), env_OpenExports = (\<lambda>_. None), env_OpenSchedules = (\<lambda>_. None),
     env_ExportRoot = ''/exports'', env_ExportFaults = (\<lambda>_. no_faults), env_ScheduleFaults = (\<lambda>_. no_faults)\<rparr>"

definition demo_request :: VolumeExportRequest where
  "demo_request = \<lparr>vr_Type = VolumeExportTypeLocalFile, vr_FileName = [], vr_Folder = ''/backup'', vr_ImageRef = []\<rparr>"

theorem export_reaches_final_status_witness:
  "\<exists>e err d' w'. ExecuteVolumeExport demo_env ''db'' demo_request ([], 0) = Some ((Some e, err), d', w')
    \<and> Store_Get no_faults d' ''db'' (ex_ID e) = Inr e"
  using export_reaches_final_status [of demo_env "[]" "''db''" demo_request 0]
  by (auto simp: demo_env_def no_plain_files_def trim_eval)

end
