(* ===== verification/Calf_Next_Run.thy ===== *)
theory Calf_Next_Run
  imports Calf_Schedule
begin

text \<open>
  Correctness of \<open>computeNextRun\<close> and \<open>ScheduleDue\<close>: the nested loops return the least element of
  the list of upcoming slots (the abstract specification \<open>upcoming\<close>); a valid schedule always has a
  next run within eight days, on a configured weekday at a configured time; and the stored time stamp
  makes the schedule due exactly in its run window.
\<close>

section \<open>The specification: the list of upcoming slots\<close>

definition slot_of :: "Location \<Rightarrow> int \<Rightarrow> string \<Rightarrow> Time" where
  "slot_of loc day value =
     (case parseTimeOfDay value of
        Inl _ \<Rightarrow> zeroTime
      | Inr (h, mi) \<Rightarrow> date_sec loc (day * 86400 + h * 3600 + mi * 60) * Second)"

definition eligible :: "Time \<Rightarrow> bool \<Rightarrow> Time \<Rightarrow> bool" where
  "eligible now afterRun c = (if afterRun then c > now else slotStillRunnable c now)"

definition day_slots :: "Location \<Rightarrow> Time \<Rightarrow> DayTimeSchedule list \<Rightarrow> nat \<Rightarrow> Time list" where
  "day_slots loc now dts k =
     (let d = local_day loc (AddDays loc now (int k)) in map (slot_of loc d) (timesForDay dts (weekday d)))"

definition upcoming :: "Location \<Rightarrow> DayTimeSchedule list \<Rightarrow> Time \<Rightarrow> bool \<Rightarrow> Time list" where
  "upcoming loc dts now afterRun =
     filter (eligible now afterRun) (concat (map (day_slots loc now dts) [0..<14]))"

definition pick :: "Time \<Rightarrow> Time \<Rightarrow> Time" where
  "pick c next = (if IsZero next \<or> c < next then c else next)"

section \<open>The loops compute the least upcoming slot\<close>

lemma slotLoop_pick:
  assumes "list_all timeOK ts"
  shows "slotLoop loc now afterRun cd ts next =
    Inr (fold pick (filter (eligible now afterRun) (map (slot_of loc (local_day loc cd)) ts)) next)"
  using assms
proof (induction ts arbitrary: "next")
  case (Cons t ts)
  then obtain h mi where p: "parseTimeOfDay t = Inr (h, mi)" by (auto simp: timeOK_iff)
  obtain y m d where c: "civil_from_days (local_day loc cd) = (y, m, d)" by (metis prod_cases3)
  let ?c = "slot_of loc (local_day loc cd) t"
  have "Date loc y m d h mi 0 0 = ?c"
    using Date_civil [OF c, of loc 0 h mi 0 0] by (simp add: slot_of_def p)
  then have "slotLoop loc now afterRun cd (t # ts) next =
      slotLoop loc now afterRun cd ts (if eligible now afterRun ?c then pick ?c next else next)"
    by (simp add: p c eligible_def pick_def)
  with Cons show ?case by simp
qed simp

lemma dayLoop_pick:
  assumes "list_all dayOK dts"
  shows "dayLoop loc now afterRun dts ks next =
    Inr (fold pick (filter (eligible now afterRun) (concat (map (day_slots loc now dts) ks))) next)"
proof (induction ks arbitrary: "next")
  case (Cons k ks)
  then show ?case
    using slotLoop_pick [OF timesForDay_ok [OF assms]]
    by (simp add: Let_def day_slots_def Weekday_def)
qed simp

lemma fold_pick_Min:
  assumes "\<forall>c \<in> set cs. zeroTime < c" and "zeroTime < n"
  shows "fold pick cs n = Min (insert n (set cs))"
  using assms
proof (induction cs arbitrary: n)
  case (Cons c cs)
  have "pick c n = min n c" using Cons.prems by (auto simp: pick_def IsZero_def)
  moreover have "zeroTime < min n c" using Cons.prems by simp
  ultimately have "fold pick (c # cs) n = Min (insert (min n c) (set cs))"
    using Cons by simp
  also have "\<dots> = Min (insert n (set (c # cs)))"
    by (cases "cs = []") (simp_all add: min.assoc)
  finally show ?case .
qed simp

lemma fold_pick:
  assumes "\<forall>c \<in> set cs. zeroTime < c"
  shows "fold pick cs zeroTime = (if cs = [] then zeroTime else Min (set cs))"
proof (cases cs)
  case (Cons c cs')
  then show ?thesis using assms fold_pick_Min [of cs' c] by (simp add: pick_def IsZero_def)
qed simp

section \<open>Slots lie near the current time\<close>

lemma parseTimeOfDay_bounds:
  assumes "parseTimeOfDay v = Inr (h, mi)"
  shows "0 \<le> h" and "h < 24" and "0 \<le> mi" and "mi < 60"
proof -
  have nonneg: "getnum s f = Some (x, r) \<Longrightarrow> 0 \<le> x" for s f x r
    by (induction s f rule: getnum.induct) (auto split: if_splits)
  have "ParseClock (TrimSpace v) = Some (h, mi)"
    using assms by (auto simp: parseTimeOfDay_def Let_def split: if_splits option.splits)
  then show "0 \<le> h" and "h < 24" and "0 \<le> mi" and "mi < 60"
    by (auto simp: ParseClock_def bind_eq_Some_conv split: if_splits dest: nonneg)
qed

lemma Unix_scale: "Unix (s * Second + n) = s" if "0 \<le> n" "n < Second"
  using that by (simp add: Unix_def)

lemma Unix_AddDays: "Unix (AddDays loc t k) = date_sec loc (local_sec loc t + k * 86400)"
  unfolding AddDays_eq by (rule Unix_scale) auto

lemma slot_of_lower:
  assumes sane: "sane_offsets loc" and ok: "timeOK v"
  shows "(Unix now + k * 86400 - 5 * 86400) * Second < slot_of loc (local_day loc (AddDays loc now k)) v"
proof -
  obtain h mi where p: "parseTimeOfDay v = Inr (h, mi)" using ok by (auto simp: timeOK_iff)
  let ?d = "local_day loc (AddDays loc now k)"
  let ?u = "date_sec loc (local_sec loc now + k * 86400)"
  have "\<bar>local_sec loc (AddDays loc now k) - ?u\<bar> < 86400"
    using sane_local_sec [OF sane, of "AddDays loc now k"] by (simp add: Unix_AddDays)
  moreover have "\<bar>?u - (local_sec loc now + k * 86400)\<bar> < 86400" by (rule sane_date_sec [OF sane])
  moreover have "\<bar>local_sec loc now - Unix now\<bar> < 86400" by (rule sane_local_sec [OF sane])
  moreover have "local_sec loc (AddDays loc now k) - 86400 < ?d * 86400" unfolding local_day_def by linarith
  moreover have "\<bar>date_sec loc (?d * 86400 + h * 3600 + mi * 60) - (?d * 86400 + h * 3600 + mi * 60)\<bar> < 86400"
    by (rule sane_date_sec [OF sane])
  ultimately have "Unix now + k * 86400 - 5 * 86400 < date_sec loc (?d * 86400 + h * 3600 + mi * 60)"
    using parseTimeOfDay_bounds [OF p] by linarith
  then show ?thesis by (simp add: slot_of_def p)
qed

lemma upcoming_eligible: "c \<in> set (upcoming loc dts now ar) \<Longrightarrow> eligible now ar c"
  by (simp add: upcoming_def)

lemma upcoming_after_zero:
  assumes "sane_offsets loc" "0 \<le> now" "list_all dayOK dts" "c \<in> set (upcoming loc dts now ar)"
  shows "zeroTime < c"
proof -
  obtain k v where c: "c = slot_of loc (local_day loc (AddDays loc now (int k))) v"
      and v: "v \<in> set (timesForDay dts (weekday (local_day loc (AddDays loc now (int k)))))"
    using assms(4) by (auto simp: upcoming_def day_slots_def Let_def)
  have "timeOK v" using v timesForDay_ok [OF assms(3)] by (auto simp: list_all_iff)
  then have "(Unix now + int k * 86400 - 5 * 86400) * Second < c"
    unfolding c by (rule slot_of_lower [OF assms(1)])
  moreover have "0 \<le> Unix now" using assms(2) by (simp add: Unix_def)
  moreover have "(0::int) \<le> int k" by simp
  ultimately show ?thesis unfolding zeroTime_def by (simp add: algebra_simps)
qed

lemma computeNextRun_upcoming:
  assumes sane: "sane_offsets loc" and now: "0 \<le> now" and en: "sched_Enabled s"
    and valid: "ValidateScheduleInput s = None"
  shows "computeNextRun loc s now ar =
    (let cs = upcoming loc (sched_DayTimes (NormalizeSchedule s)) now ar
     in if cs = [] then Inl (Errorf ''no upcoming run found for schedule'') else Inr (Min (set cs)))"
proof -
  let ?dts = "sched_DayTimes (NormalizeSchedule s)"
  let ?cs = "upcoming loc ?dts now ar"
  have ok: "list_all dayOK ?dts"
    using valid en by (simp add: ValidateScheduleInput_None_iff NormalizeSchedule_dayOK)
  have v: "ValidateScheduleInput (NormalizeSchedule s) = None"
    using valid by (simp add: ValidateScheduleInput_def)
  have pos: "\<forall>c \<in> set ?cs. zeroTime < c" using upcoming_after_zero [OF sane now ok] by blast
  have "dayLoop loc now ar ?dts [0..<14] zeroTime = Inr (fold pick ?cs zeroTime)"
    by (simp add: dayLoop_pick [OF ok] upcoming_def)
  moreover have "IsZero (fold pick ?cs zeroTime) \<longleftrightarrow> ?cs = []"
  proof (cases "?cs = []")
    case False
    then have "Min (set ?cs) \<in> set ?cs" by simp
    with pos have "zeroTime < Min (set ?cs)" by (rule bspec)
    then have "Min (set ?cs) \<noteq> zeroTime" by (rule less_imp_neq [symmetric])
    with False show ?thesis using fold_pick [OF pos] by (simp add: IsZero_def)
  qed (simp add: IsZero_def)
  ultimately show ?thesis
    using en v fold_pick [OF pos] by (simp add: computeNextRun_def Let_def)
qed

section \<open>A window without zone transitions\<close>

text \<open>
  The offset is constant from three days before to seventeen days after the current time: the
  situation except around a daylight-saving transition.
\<close>

definition settled :: "Location \<Rightarrow> Time \<Rightarrow> int \<Rightarrow> bool" where
  "settled loc now off \<longleftrightarrow> \<bar>off\<bar> < 86400 \<and>
     (\<forall>s. Unix now - 3 * 86400 \<le> s \<and> s \<le> Unix now + 17 * 86400 \<longrightarrow> offset_at loc s = off)"

lemma settled_date_sec:
  assumes "settled loc now off"
    and "Unix now - 2 * 86400 \<le> s" "s \<le> Unix now + 16 * 86400"
  shows "date_sec loc s = s - off"
proof -
  have off: "\<bar>off\<bar> < 86400"
    and win: "Unix now - 3 * 86400 \<le> u \<Longrightarrow> u \<le> Unix now + 17 * 86400 \<Longrightarrow> offset_at loc u = off" for u
    using assms(1) by (auto simp: settled_def)
  obtain off' a b where l: "lookup loc s = (off', a, b)" by (metis prod_cases3)
  have "offset_at loc s = off" using assms(2,3) by (intro win) linarith+
  then have l: "lookup loc s = (off, a, b)" using l by (simp add: offset_at_def)
  have "offset_at loc (s - off) = off" using off assms(2,3) by (intro win) linarith+
  then show ?thesis unfolding date_sec_def l by (simp add: Let_def)
qed

lemma settled_local_sec:
  "settled loc now off \<Longrightarrow> Unix now - 3 * 86400 \<le> Unix t \<Longrightarrow> Unix t \<le> Unix now + 17 * 86400 \<Longrightarrow>
   local_sec loc t = Unix t + off"
  by (simp add: settled_def local_sec_def)

lemma settled_AddDays:
  assumes "settled loc now off" "0 \<le> k" "k \<le> 13"
  shows "local_day loc (AddDays loc now k) = local_day loc now + k"
proof -
  have off: "\<bar>off\<bar> < 86400" using assms(1) by (simp add: settled_def)
  have "local_sec loc now = Unix now + off" by (rule settled_local_sec [OF assms(1)]) auto
  moreover from this have "Unix (AddDays loc now k) = Unix now + k * 86400"
    using settled_date_sec [OF assms(1), of "local_sec loc now + k * 86400"] off assms(2,3)
    by (simp add: Unix_AddDays)
  moreover from this have "local_sec loc (AddDays loc now k) = Unix now + k * 86400 + off"
    using settled_local_sec [OF assms(1), of "AddDays loc now k"] assms(2,3) by simp
  ultimately have "local_sec loc (AddDays loc now k) = local_sec loc now + k * 86400" by simp
  then show ?thesis by (simp add: local_day_def)
qed

lemma settled_day_bounds:
  assumes "settled loc now off"
  shows "local_day loc now * 86400 - off \<le> Unix now" and "Unix now < local_day loc now * 86400 - off + 86400"
proof -
  have "local_sec loc now = Unix now + off" by (rule settled_local_sec [OF assms]) auto
  then show "local_day loc now * 86400 - off \<le> Unix now" and "Unix now < local_day loc now * 86400 - off + 86400"
    unfolding local_day_def by linarith+
qed

lemma settled_slot:
  assumes st: "settled loc now off" and k: "0 \<le> k" "k \<le> 13" and p: "parseTimeOfDay v = Inr (h, mi)"
  shows "slot_of loc (local_day loc now + k) v
    = ((local_day loc now + k) * 86400 + h * 3600 + mi * 60 - off) * Second"
proof -
  let ?s = "(local_day loc now + k) * 86400 + h * 3600 + mi * 60"
  have "\<bar>off\<bar> < 86400" using st by (simp add: settled_def)
  then have "Unix now - 2 * 86400 \<le> ?s" "?s \<le> Unix now + 16 * 86400"
    using settled_day_bounds [OF st] parseTimeOfDay_bounds [OF p] k unfolding distrib_right by linarith+
  then have "date_sec loc ?s = ?s - off" by (rule settled_date_sec [OF st])
  then show ?thesis by (simp add: slot_of_def p)
qed

lemma weekday_hit: "0 \<le> d \<Longrightarrow> d \<le> 6 \<Longrightarrow> \<exists>k. 1 \<le> k \<and> k \<le> 7 \<and> weekday (z + k) = d"
proof (intro exI conjI)
  assume d: "0 \<le> d" "d \<le> 6"
  let ?k = "1 + (d - (z + 5)) mod 7"
  have "weekday (z + ?k) = ((z + 5) + (d - (z + 5)) mod 7) mod 7"
    by (simp add: weekday_def algebra_simps)
  also have "\<dots> = d mod 7" by (simp add: mod_add_right_eq)
  finally show "weekday (z + ?k) = d" using d by simp
  show "1 \<le> ?k" "?k \<le> 7" by linarith+
qed

text \<open>In a settled window every configured weekday has a slot strictly after now within eight days.\<close>

lemma settled_upcoming:
  assumes st: "settled loc now off" and e: "e \<in> set dts" and ok: "list_all dayOK dts"
  shows "\<exists>c \<in> set (upcoming loc dts now ar). now < c \<and> c < now + 8 * 86400 * Second"
proof -
  have "dayOK e" using e ok by (auto simp: list_all_iff)
  then obtain k where k: "1 \<le> k" "k \<le> 7" "weekday (local_day loc now + k) = dt_Day e"
    using weekday_hit by (auto simp: dayOK_def)
  obtain v where v: "v \<in> set (timesForDay dts (dt_Day e))"
    using timesForDay_ne [OF e ok] by (cases "timesForDay dts (dt_Day e)") auto
  then have "timeOK v" using timesForDay_ok [OF ok] by (auto simp: list_all_iff)
  then obtain h mi where p: "parseTimeOfDay v = Inr (h, mi)" by (auto simp: timeOK_iff)
  let ?c = "slot_of loc (local_day loc now + k) v"
  have c: "?c = ((local_day loc now + k) * 86400 + h * 3600 + mi * 60 - off) * Second"
    using k by (intro settled_slot [OF st _ _ p]) auto
  note pb = parseTimeOfDay_bounds [OF p] and db = settled_day_bounds [OF st]
  define w where "w = (local_day loc now + k) * 86400 + h * 3600 + mi * 60 - off"
  have w: "Unix now + 1 \<le> w" "w < Unix now + 8 * 86400"
    using pb db k(1,2) unfolding w_def distrib_right by linarith+
  have n: "Unix now * Second \<le> now" "now < Unix now * Second + Second" unfolding Unix_def by linarith+
  have b: "now < ?c" "?c < now + 8 * 86400 * Second"
    using w n unfolding c w_def [symmetric] by linarith+
  then have "eligible now ar ?c" by (simp add: eligible_def slotStillRunnable_def ScheduleRunGrace_def)
  moreover have "?c \<in> set (day_slots loc now dts (nat k))"
    using k v settled_AddDays [OF st, of k] by (auto simp: day_slots_def Let_def)
  moreover have "nat k \<in> set [0..<14]" using k by auto
  ultimately have "?c \<in> set (upcoming loc dts now ar)" by (auto simp: upcoming_def)
  with b show ?thesis by blast
qed

lemma upcoming_settled_cases:
  assumes st: "settled loc now off" and ok: "list_all dayOK dts" and c: "c \<in> set (upcoming loc dts now ar)"
  obtains k e v h mi where "0 \<le> k" "k \<le> 13" "e \<in> set dts" "dt_Day e = weekday (local_day loc now + k)"
    "v \<in> set (dt_Times e)" "parseTimeOfDay v = Inr (h, mi)" "eligible now ar c"
    "c = ((local_day loc now + k) * 86400 + h * 3600 + mi * 60 - off) * Second"
proof -
  obtain k v where k: "k < 14" and c': "c = slot_of loc (local_day loc (AddDays loc now (int k))) v"
      and v: "v \<in> set (timesForDay dts (weekday (local_day loc (AddDays loc now (int k)))))"
      and el: "eligible now ar c"
    using c by (auto simp: upcoming_def day_slots_def Let_def)
  have d: "local_day loc (AddDays loc now (int k)) = local_day loc now + int k"
    using k by (intro settled_AddDays [OF st]) auto
  have ne: "timesForDay dts (weekday (local_day loc now + int k)) \<noteq> []" using v d by auto
  obtain e where e: "e \<in> set dts" "dt_Day e = weekday (local_day loc now + int k)" "v \<in> set (dt_Times e)"
    using timesForDay_mem [OF refl ne] v d by auto
  have "timeOK v" using v timesForDay_ok [OF ok] by (auto simp: list_all_iff)
  then obtain h mi where p: "parseTimeOfDay v = Inr (h, mi)" by (auto simp: timeOK_iff)
  show thesis
    using that [OF _ _ e p el] k settled_slot [OF st _ _ p, of "int k"] c' d by auto
qed

section \<open>The run window\<close>

lemma stamp_head: "\<exists>c s. FormatRFC3339 t = c # s \<and> (is_digit c \<or> c = CHR ''-'')"
proof -
  obtain y m d where c: "civil_from_days (local_day UTC t) = (y, m, d)" by (metis prod_cases3)
  have z: "is_digit (CHR ''0'')" by (simp add: is_digit_def)
  have ne: "show_nat n \<noteq> []" for n by (subst show_nat.simps) simp
  have "\<exists>c s. appendInt y 4 = c # s \<and> (is_digit c \<or> c = CHR ''-'')"
    using z show_nat_digits [of _ "nat \<bar>y\<bar>"] ne [of "nat \<bar>y\<bar>"]
    by (cases "4 - length (show_nat (nat \<bar>y\<bar>))"; cases "show_nat (nat \<bar>y\<bar>)"; cases "y < 0")
       (auto simp: appendInt_def Let_def)
  then show ?thesis by (auto simp: FormatRFC3339_def format_date_def c)
qed

lemma stamp_not_blank: "TrimSpace (FormatRFC3339 t) \<noteq> ''''"
proof -
  obtain c s where c: "FormatRFC3339 t = c # s" "is_digit c \<or> c = CHR ''-''" using stamp_head by blast
  then have "of_char c < (128::nat)" "45 \<le> (of_char c :: nat)"
    by (auto simp: is_digit_def less_eq_char_def)
  then show ?thesis unfolding c(1) by (intro TrimSpace_visible) (auto simp: space1_def)
qed

lemma ScheduleDue_stamp:
  assumes "stampable t"
  shows "ScheduleDue (FormatRFC3339 t) now \<longleftrightarrow>
    Truncate (t - t mod Second) Minute \<le> now \<and> now \<le> t - t mod Second + Minute"
proof -
  have "Truncate now Minute < Truncate x Minute \<longleftrightarrow> now < Truncate x Minute" for x
    unfolding Truncate_def by (simp add: minus_mod_eq_div_mult) linarith
  then show ?thesis
    using ParseRFC3339_FormatRFC3339 [OF assms] stamp_not_blank [of t]
    by (simp add: ScheduleDue_def slotStillRunnable_def ScheduleRunGrace_def not_less)
qed

section \<open>Names\<close>

lemma Replace_no_match: "\<forall>(old, new) \<in> set ps. \<not> Contains s old \<Longrightarrow> Replace ps s = s"
proof (induction ps s rule: Replace.induct)
  case (2 ps c s)
  have "match_pair ps (c # s) = None"
    using 2 by (cases "match_pair ps (c # s)") (auto dest: match_pair_Some)
  with 2 show ?case by (auto split: prod.splits)
qed simp

section \<open>Properties\<close>

text \<open>A schedule for the witnesses: Mondays at 09:30 to a local file.\<close>

definition demo_schedule :: Schedule where
  "demo_schedule = \<lparr>sched_ID = ''schedule-1'', sched_Volume = ''db'', sched_Enabled = True,
     sched_DayTimes = [\<lparr>dt_Day = 1, dt_Times = [''09:30'']\<rparr>], sched_Type = ''local_file'',
     sched_FileName = '''', sched_Folder = ''/backup'', sched_ImageRef = '''', sched_CreatedAt = '''',
     sched_LastRunAt = '''', sched_NextRunAt = '''', sched_LastStatus = '''', sched_LastError = ''''\<rparr>"

lemma demo_valid: "ValidateScheduleInput demo_schedule = None" and demo_enabled: "sched_Enabled demo_schedule"
  by code_simp+

lemma UTC_settled: "settled UTC now 0"
  by (simp add: settled_def)

lemma UTC_sane: "sane_offsets UTC"
  by (simp add: sane_offsets_def UTC_def)

text \<open>
  \<open>ValidateScheduleInput\<close> accepts exactly the schedules that are disabled, or have at least one
  day, only days 0 to 6 with at least one time, only parsable and pairwise different times, and a
  supported export type with its target.
\<close>

theorem ValidateScheduleInput_accepts:
  "ValidateScheduleInput s = None \<longleftrightarrow>
     (sched_Enabled s \<longrightarrow>
        sched_DayTimes s \<noteq> []
        \<and> (\<forall>e \<in> set (sched_DayTimes s). 0 \<le> dt_Day e \<and> dt_Day e \<le> 6 \<and> dt_Times e \<noteq> []
              \<and> (\<forall>v \<in> set (dt_Times e). \<exists>h mi. parseTimeOfDay v = Inr (h, mi))
              \<and> distinct (map TrimSpace (dt_Times e)))
        \<and> targetOK s)"
  by (simp add: ValidateScheduleInput_None_iff list_all_iff dayOK_def timeOK_iff)

theorem ValidateScheduleInput_accepts_witness:
  "ValidateScheduleInput (demo_schedule\<lparr>sched_DayTimes := []\<rparr>) \<noteq> None"
  using ValidateScheduleInput_accepts [of "demo_schedule\<lparr>sched_DayTimes := []\<rparr>"]
  by (simp add: demo_schedule_def)

text \<open>
  C1: For an accepted, enabled schedule \<open>computeNextRun\<close> returns \<open>t\<close> exactly when \<open>t\<close> is the least
  upcoming slot: a configured time on a configured weekday of the next 14 local days that is still
  eligible (after now when the schedule just ran, else not more than the grace period ago).
\<close>

theorem computeNextRun_earliest:
  assumes "sane_offsets loc" and "0 \<le> now" and "sched_Enabled s" and "ValidateScheduleInput s = None"
  shows "computeNextRun loc s now ar = Inr t \<longleftrightarrow>
    t \<in> set (upcoming loc (sched_DayTimes (NormalizeSchedule s)) now ar)
    \<and> (\<forall>c \<in> set (upcoming loc (sched_DayTimes (NormalizeSchedule s)) now ar). t \<le> c)"
proof -
  let ?cs = "upcoming loc (sched_DayTimes (NormalizeSchedule s)) now ar"
  have "computeNextRun loc s now ar = Inr t \<longleftrightarrow> ?cs \<noteq> [] \<and> Min (set ?cs) = t"
    by (simp add: computeNextRun_upcoming [OF assms] Let_def)
  also have "\<dots> \<longleftrightarrow> t \<in> set ?cs \<and> (\<forall>c \<in> set ?cs. t \<le> c)"
    using Min_eq_iff [of "set ?cs" t] by (cases "?cs = []") simp_all
  finally show ?thesis .
qed

theorem computeNextRun_earliest_witness:
  "computeNextRun UTC demo_schedule 0 True \<noteq> Inr 0"
proof -
  have "0 \<notin> set (upcoming UTC (sched_DayTimes (NormalizeSchedule demo_schedule)) 0 True)"
    by (auto simp: upcoming_def eligible_def)
  then show ?thesis
    using computeNextRun_earliest [OF UTC_sane order.refl demo_enabled demo_valid, of True 0] by simp
qed

text \<open>
  C33: Away from zone transitions an accepted, enabled schedule always gets a next run, less than
  eight days ahead and, after a run, strictly in the future.
\<close>

theorem computeNextRun_finds_run:
  assumes st: "settled loc now off" and sane: "sane_offsets loc" and now: "0 \<le> now"
    and en: "sched_Enabled s" and valid: "ValidateScheduleInput s = None"
  shows "\<exists>t. computeNextRun loc s now ar = Inr t \<and> t < now + 8 * 86400 * Second
           \<and> now \<le> t + Minute \<and> (ar \<longrightarrow> now < t)"
proof -
  let ?dts = "sched_DayTimes (NormalizeSchedule s)"
  let ?cs = "upcoming loc ?dts now ar"
  have ok: "list_all dayOK ?dts"
    using valid en by (simp add: ValidateScheduleInput_None_iff NormalizeSchedule_dayOK)
  have ne: "?dts \<noteq> []"
    using valid en by (simp add: ValidateScheduleInput_None_iff NormalizeSchedule_DayTimes)
  obtain c where c: "c \<in> set ?cs" "c < now + 8 * 86400 * Second"
    using settled_upcoming [OF st hd_in_set [OF ne] ok, of ar] by blast
  then have "?cs \<noteq> []" by auto
  then have "computeNextRun loc s now ar = Inr (Min (set ?cs))"
    by (simp add: computeNextRun_upcoming [OF sane now en valid])
  moreover have "Min (set ?cs) \<le> c" using c(1) by simp
  moreover have "eligible now ar (Min (set ?cs))"
    using \<open>?cs \<noteq> []\<close> by (intro upcoming_eligible [of _ loc ?dts] Min_in) auto
  ultimately show ?thesis using c(2)
    by (auto simp: eligible_def slotStillRunnable_def ScheduleRunGrace_def split: if_splits)
qed

theorem computeNextRun_finds_run_witness:
  "\<exists>t. computeNextRun UTC demo_schedule 0 True = Inr t \<and> t < 8 * 86400 * Second \<and> 0 < t"
  using computeNextRun_finds_run [OF UTC_settled UTC_sane order.refl demo_enabled demo_valid, of True] by auto

text \<open>
  Away from zone transitions the run returned lies on the weekday of a configured day entry, and
  the local clock then shows one of the times of that entry, to the second.
\<close>

theorem computeNextRun_on_the_clock:
  assumes st: "settled loc now off" and sane: "sane_offsets loc" and now: "0 \<le> now"
    and en: "sched_Enabled s" and valid: "ValidateScheduleInput s = None"
    and run: "computeNextRun loc s now ar = Inr t"
  shows "\<exists>e \<in> set (sched_DayTimes s). \<exists>v \<in> set (dt_Times e). \<exists>h mi.
           parseTimeOfDay v = Inr (h, mi) \<and> Weekday loc t = dt_Day e
           \<and> local_sod loc t = h * 3600 + mi * 60 \<and> t mod Second = 0"
proof -
  let ?dts = "sched_DayTimes (NormalizeSchedule s)"
  let ?cs = "upcoming loc ?dts now ar"
  have ok: "list_all dayOK ?dts"
    using valid en by (simp add: ValidateScheduleInput_None_iff NormalizeSchedule_dayOK)
  have "?cs \<noteq> []" "t = Min (set ?cs)"
    using run by (auto simp: computeNextRun_upcoming [OF sane now en valid] Let_def split: if_splits)
  then have "t \<in> set ?cs" using Min_in [of "set ?cs"] by simp
  then obtain k e v h mi where k: "0 \<le> k" "k \<le> 13" and e: "e \<in> set ?dts"
      "dt_Day e = weekday (local_day loc now + k)" "v \<in> set (dt_Times e)"
      and p: "parseTimeOfDay v = Inr (h, mi)"
      and t: "t = ((local_day loc now + k) * 86400 + h * 3600 + mi * 60 - off) * Second"
    by (rule upcoming_settled_cases [OF st ok])
  define w where "w = (local_day loc now + k) * 86400 + h * 3600 + mi * 60"
  have u: "Unix t = w - off" using t by (simp add: w_def Unix_def)
  have "\<bar>off\<bar> < 86400" using st by (simp add: settled_def)
  then have "Unix now - 3 * 86400 \<le> Unix t" "Unix t \<le> Unix now + 17 * 86400"
    using settled_day_bounds [OF st] parseTimeOfDay_bounds [OF p] k unfolding u w_def distrib_right by linarith+
  then have l: "local_sec loc t = w" using settled_local_sec [OF st] u by simp
  define r where "r = h * 3600 + mi * 60"
  have r: "0 \<le> r" "r < 86400" using parseTimeOfDay_bounds [OF p] unfolding r_def by linarith+
  have "local_sec loc t = 86400 * (local_day loc now + k) + r" by (simp add: l w_def r_def)
  then have "local_day loc t = local_day loc now + k" "local_sod loc t = h * 3600 + mi * 60"
    using r cycle_div [of r 86400 "local_day loc now + k"]
    unfolding local_day_def [of loc t] local_sod_def r_def [symmetric]
    by (simp_all only: mod_mult_self4 mod_pos_pos_trivial)
  moreover obtain e0 where e0: "e0 \<in> set (sched_DayTimes s)" "dt_Day e0 = dt_Day e" "v \<in> set (dt_Times e0)"
    using e by (auto simp: NormalizeSchedule_DayTimes)
  moreover have "t mod Second = 0" by (simp add: t)
  ultimately have "Weekday loc t = dt_Day e0" "local_sod loc t = h * 3600 + mi * 60" "t mod Second = 0"
    using e(2) by (simp_all add: Weekday_def)
  with p have "\<exists>h mi. parseTimeOfDay v = Inr (h, mi) \<and> Weekday loc t = dt_Day e0
      \<and> local_sod loc t = h * 3600 + mi * 60 \<and> t mod Second = 0"
    by (intro exI [of _ h] exI [of _ mi]) simp
  with e0(1,3) show ?thesis by (intro bexI [of _ v] bexI [of _ e0])
qed

theorem computeNextRun_on_the_clock_witness:
  "\<exists>t h mi. computeNextRun UTC demo_schedule 0 True = Inr t \<and> parseTimeOfDay ''09:30'' = Inr (h, mi)
     \<and> Weekday UTC t = 1 \<and> local_sod UTC t = h * 3600 + mi * 60"
proof -
  have run: "computeNextRun UTC demo_schedule 0 True = Inr (379800 * Second)" by code_simp
  show ?thesis
    using computeNextRun_on_the_clock [OF UTC_settled UTC_sane order.refl demo_enabled demo_valid run] run
    by (auto simp: demo_schedule_def)
qed

text \<open>
  The time stamp stored in \<open>NextRunAt\<close> makes the schedule due exactly from the beginning of the
  minute of the run to one minute after it.
\<close>

theorem ScheduleDue_window:
  assumes "0 \<le> t" and "t < 253402300800 * Second"
  shows "ScheduleDue (FormatRFC3339 t) now \<longleftrightarrow>
    Truncate (t - t mod Second) Minute \<le> now \<and> now \<le> t - t mod Second + Minute"
  using stampable_modern [OF assms] by (rule ScheduleDue_stamp)

theorem ScheduleDue_window_witness:
  "ScheduleDue (FormatRFC3339 (379800 * Second)) (379859 * Second)
   \<and> \<not> ScheduleDue (FormatRFC3339 (379800 * Second)) (379861 * Second)"
  using ScheduleDue_window [of "379800 * Second" "379859 * Second"]
    ScheduleDue_window [of "379800 * Second" "379861 * Second"]
  by (simp add: Truncate_def)

text \<open>The instants of a scheduler whose ticks are at most a minute apart.\<close>

fun paced :: "Time \<Rightarrow> Time list \<Rightarrow> bool" where
  "paced t [] = True"
| "paced t (u # us) = (t \<le> u \<and> u \<le> t + ScheduleRunGrace \<and> paced u us)"

text \<open>
  A scheduler that ticks at least once per minute does not skip a slot: between a tick at or
  before the slot and a tick at or after it, the schedule is due at some tick.
\<close>

theorem paced_ticks_hit_slot:
  assumes range: "0 \<le> t" "t < 253402300800 * Second" and slot: "n = t - t mod Second"
    and ticks: "paced u us" and before: "u \<le> n" and after: "n \<le> last (u # us)"
  shows "\<exists>v \<in> set (u # us). ScheduleDue (FormatRFC3339 t) v"
  using ticks before after
proof (induction us arbitrary: u)
  case Nil
  have "Truncate n Minute \<le> n" by (simp add: Truncate_def)
  with Nil have "ScheduleDue (FormatRFC3339 t) u"
    unfolding ScheduleDue_stamp [OF stampable_modern [OF range]] slot [symmetric] by simp
  then show ?case by simp
next
  case (Cons w us)
  show ?case
  proof (cases "w \<le> n")
    case True
    with Cons have "\<exists>v \<in> set (w # us). ScheduleDue (FormatRFC3339 t) v" by simp
    then show ?thesis by auto
  next
    case False
    have "Truncate n Minute \<le> n" by (simp add: Truncate_def)
    with False Cons.prems have "ScheduleDue (FormatRFC3339 t) w"
      unfolding ScheduleDue_stamp [OF stampable_modern [OF range]] slot [symmetric]
      by (simp add: ScheduleRunGrace_def)
    then show ?thesis by simp
  qed
qed

theorem paced_ticks_hit_slot_witness:
  "ScheduleDue (FormatRFC3339 (379800 * Second)) (379759 * Second)
   \<or> ScheduleDue (FormatRFC3339 (379800 * Second)) (379815 * Second)"
  using paced_ticks_hit_slot [of "379800 * Second" "379800 * Second" "379759 * Second" "[379815 * Second]"]
  by (auto simp: ScheduleRunGrace_def)

text \<open>
  The time stamp computed after a run does not make the schedule due before its new slot, so a
  slot that was just run is not run again (for a zone with whole-minute offsets).
\<close>

theorem after_run_not_due_before_slot:
  assumes st: "settled loc now off" and sane: "sane_offsets loc" and minute: "off mod 60 = 0"
    and range: "0 \<le> now" "now < 253401000000 * Second"
    and en: "sched_Enabled s" and valid: "ValidateScheduleInput s = None"
    and run: "ComputeNextRunAfterRun loc s now = Inr t" and u: "u < t"
  shows "now < t \<and> \<not> ScheduleDue (FormatRFC3339 t) u"
proof -
  let ?dts = "sched_DayTimes (NormalizeSchedule s)"
  let ?cs = "upcoming loc ?dts now True"
  have run': "computeNextRun loc s now True = Inr t" using run by (simp add: ComputeNextRunAfterRun_def)
  have ok: "list_all dayOK ?dts" and ne: "?dts \<noteq> []"
    using valid en by (simp_all add: ValidateScheduleInput_None_iff NormalizeSchedule_dayOK)
      (simp add: NormalizeSchedule_DayTimes)
  have cs: "?cs \<noteq> []" "t = Min (set ?cs)"
    using run' by (auto simp: computeNextRun_upcoming [OF sane range(1) en valid] Let_def split: if_splits)
  then have mem: "t \<in> set ?cs" using Min_in [of "set ?cs"] by simp
  then obtain k e v h mi where t: "t = ((local_day loc now + k) * 86400 + h * 3600 + mi * 60 - off) * Second"
    by (rule upcoming_settled_cases [OF st ok])
  have later: "now < t" using upcoming_eligible [OF mem] by (simp add: eligible_def)
  obtain c where c: "c \<in> set ?cs" "c < now + 8 * 86400 * Second"
    using settled_upcoming [OF st hd_in_set [OF ne] ok, of True] by blast
  then have "t \<le> c" using cs(2) by simp
  with c(2) have r: "0 \<le> t" "t < 253402300800 * Second" using later range by simp_all
  obtain q where q: "off = 60 * q" using minute by (auto simp: mod_eq_0_iff_dvd dvd_def)
  then have "t = ((local_day loc now + k) * 1440 + h * 60 + mi - q) * Minute"
    by (simp add: t algebra_simps)
  then have "t mod Minute = 0" by (metis mod_mult_self2_is_0)
  moreover have "t mod Second = 0" using t by (metis mod_mult_self2_is_0)
  ultimately have "Truncate (t - t mod Second) Minute = t" by (simp add: Truncate_def)
  with u later show ?thesis
    unfolding ScheduleDue_stamp [OF stampable_modern [OF r]] by simp
qed

theorem after_run_not_due_before_slot_witness:
  "\<not> ScheduleDue (FormatRFC3339 (379800 * Second)) 0"
proof -
  have run: "ComputeNextRunAfterRun UTC demo_schedule 0 = Inr (379800 * Second)" by code_simp
  show ?thesis
    using after_run_not_due_before_slot [OF UTC_settled UTC_sane _ order.refl _ demo_enabled demo_valid run, of 0]
    by simp
qed

end
