(* ===== verification/Calf_Export_Names.thy ===== *)
theory Calf_Export_Names
  imports Calf_Next_Run
begin

text \<open>
  Schedules built from API input, and the names of scheduled exports: an accepted input gives a valid
  normalised schedule whose time stamp is its next run, default names of different runs differ, and
  two places where the code does less than it means to (upper-case tokens, repeated day entries).
\<close>

section \<open>Stable sorting and repeated days\<close>

lemma filter_sift:
  assumes "\<And>a b. P a \<Longrightarrow> P b \<Longrightarrow> \<not> lt a b"
  shows "filter P (sift lt x ys) = (if P x then x # filter P ys else filter P ys)"
  using assms by (induction ys) auto

lemma filter_fold_sift:
  assumes "\<And>a b. P a \<Longrightarrow> P b \<Longrightarrow> \<not> lt a b"
  shows "filter P (fold (sift lt) xs ys) = rev (filter P xs) @ filter P ys"
  by (induction xs arbitrary: ys) (simp_all add: filter_sift [of P lt, OF assms])

lemma filter_sort_Slice:
  assumes "\<And>a b. P a \<Longrightarrow> P b \<Longrightarrow> \<not> lt a b"
  shows "filter P (sort_Slice lt xs) = filter P xs"
  by (simp add: sort_Slice_def flip: rev_filter) (simp add: filter_fold_sift [of P lt, OF assms])

lemma timesForDay_filter:
  "timesForDay es d = (case filter (\<lambda>e. dt_Day e = d) es of [] \<Rightarrow> [] | e # _ \<Rightarrow> dt_Times e)"
  by (induction es) auto

lemma filter_map_Times:
  "filter (\<lambda>e. dt_Day e = d) (map (\<lambda>e. e\<lparr>dt_Times := f e\<rparr>) es)
   = map (\<lambda>e. e\<lparr>dt_Times := f e\<rparr>) (filter (\<lambda>e. dt_Day e = d) es)"
  by (induction es) auto

section \<open>Time stamps in names\<close>

definition run_stamp :: "Location \<Rightarrow> Time \<Rightarrow> string" where
  "run_stamp loc t = format_date '''' loc t @ ''-'' @ format_clock '''' loc t"

definition four_digit_year :: "Location \<Rightarrow> Time \<Rightarrow> bool" where
  "four_digit_year loc t \<longleftrightarrow> (case civil_from_days (local_day loc t) of (y, m, d) \<Rightarrow> 0 \<le> y \<and> y \<le> 9999)"

lemma appendInt_2_inj:
  "0 \<le> x \<Longrightarrow> x < 100 \<Longrightarrow> 0 \<le> y \<Longrightarrow> y < 100 \<Longrightarrow> appendInt x 2 @ s = appendInt y 2 @ t \<Longrightarrow> x = y \<and> s = t"
  by (metis getnum_append option.inject prod.inject)

lemma appendInt_4_inj:
  "0 \<le> x \<Longrightarrow> x \<le> 9999 \<Longrightarrow> 0 \<le> y \<Longrightarrow> y \<le> 9999 \<Longrightarrow> appendInt x 4 @ s = appendInt y 4 @ t \<Longrightarrow> x = y \<and> s = t"
  by (metis getyear_append option.inject prod.inject)

lemma civil_bounds:
  assumes "civil_from_days z = (y, m, d)"
  shows "0 \<le> int m" "int m < 100" "0 \<le> d" "d < 100" "days_from_civil y m d = z"
  using civil_from_days_spec [OF assms] daysIn_bound [of m y] by auto

lemma run_stamp_inj:
  assumes "four_digit_year loc s" "four_digit_year loc t" and eq: "run_stamp loc s = run_stamp loc t"
  shows "local_sec loc s = local_sec loc t"
proof -
  obtain y m d where c: "civil_from_days (local_day loc s) = (y, m, d)" by (metis prod_cases3)
  obtain y' m' d' where c': "civil_from_days (local_day loc t) = (y', m', d')" by (metis prod_cases3)
  let ?u = "local_sod loc s" and ?v = "local_sod loc t"
  have b: "0 \<le> ?u div 3600" "?u div 3600 < 100" "0 \<le> ?v div 3600" "?v div 3600 < 100"
    unfolding local_sod_def using sod_bounds [of "local_sec loc s"] sod_bounds [of "local_sec loc t"] by linarith+
  have r: "0 \<le> x mod 3600 div 60" "x mod 3600 div 60 < 100" "0 \<le> x mod 60" "x mod 60 < 100" for x :: int
    using pos_mod_bound [of 3600 x] pos_mod_sign [of 3600 x] pos_mod_bound [of 60 x] pos_mod_sign [of 60 x]
    by linarith+
  have yb: "0 \<le> y" "y \<le> 9999" "0 \<le> y'" "y' \<le> 9999"
    using assms(1,2) c c' by (simp_all add: four_digit_year_def)
  note cb = civil_bounds [OF c] civil_bounds [OF c']
  have "appendInt y 4 @ appendInt (int m) 2 @ appendInt d 2 @ CHR ''-'' # appendInt (?u div 3600) 2
      @ appendInt (?u mod 3600 div 60) 2 @ appendInt (?u mod 60) 2 @ [] =
    appendInt y' 4 @ appendInt (int m') 2 @ appendInt d' 2 @ CHR ''-'' # appendInt (?v div 3600) 2
      @ appendInt (?v mod 3600 div 60) 2 @ appendInt (?v mod 60) 2 @ []"
    using eq by (simp add: run_stamp_def format_date_def format_clock_def c c' Let_def)
  note e1 = appendInt_4_inj [OF yb this]
  note e2 = appendInt_2_inj [OF cb(1,2,6,7) conjunct2 [OF e1]]
  note e3 = appendInt_2_inj [OF cb(3,4,8,9) conjunct2 [OF e2]]
  note tail = list.inject [THEN iffD1, THEN conjunct2, OF conjunct2 [OF e3]]
  note e4 = appendInt_2_inj [OF b tail]
  note e5 = appendInt_2_inj [OF r(1,2) [of ?u] r(1,2) [of ?v] conjunct2 [OF e4]]
  note e6 = appendInt_2_inj [OF r(3,4) [of ?u] r(3,4) [of ?v] conjunct2 [OF e5]]
  have same: "y = y'" "m = m'" "d = d'" using e1 e2 e3 by (blast dest: of_nat_eq_iff [THEN iffD1])+
  have "?u div 3600 = ?v div 3600" "?u mod 3600 div 60 = ?v mod 3600 div 60" "?u mod 60 = ?v mod 60"
    by (fact conjunct1 [OF e4] conjunct1 [OF e5] conjunct1 [OF e6])+
  then have "?u = ?v" using sod_parts [of ?u] sod_parts [of ?v] by metis
  moreover have "local_day loc s = local_day loc t" using cb(5,10) same by simp
  ultimately show ?thesis unfolding local_day_def local_sod_def by (metis div_mult_mod_eq)
qed

section \<open>Expanding the default patterns\<close>

lemma Replace_Nil_pairs [simp]: "Replace [] s = s"
  by (induction s) auto

lemma ExpandExportNamePattern_default:
  assumes "TrimSpace pattern0 = ''''"
  shows "ExpandExportNamePattern loc pattern0 v t =
    SanitizeExportFileName (sanitizeVolumeToken v @ ''-'' @ run_stamp loc t @ ''.tar.gz'')"
  using assms
  by (simp add: ExpandExportNamePattern_def expandNamePattern_def DefaultFileNamePattern_def run_stamp_def)

lemma run_stamp_chars:
  assumes "four_digit_year loc t"
  shows "length (run_stamp loc t) = 15 \<and> (\<forall>c \<in> set (run_stamp loc t). is_digit c \<or> c = CHR ''-'')"
proof -
  obtain y m d where c: "civil_from_days (local_day loc t) = (y, m, d)" by (metis prod_cases3)
  let ?u = "local_sod loc t"
  have yb: "0 \<le> y" "y \<le> 9999" using assms c by (simp_all add: four_digit_year_def)
  have sb: "0 \<le> ?u div 3600" "?u div 3600 < 100"
    unfolding local_sod_def using sod_bounds [of "local_sec loc t"] by linarith+
  have mb: "0 \<le> ?u mod 3600 div 60" "?u mod 3600 div 60 < 100" "0 \<le> ?u mod 60" "?u mod 60 < 100"
    using pos_mod_bound [of 3600 ?u] pos_mod_sign [of 3600 ?u] pos_mod_bound [of 60 ?u] pos_mod_sign [of 60 ?u]
    by linarith+
  have two: "length (appendInt x 2) = 2 \<and> list_all is_digit (appendInt x 2)" if "0 \<le> x" "x < 100" for x
    using that by (simp add: appendInt_2 [OF that] less_mult_imp_div_less nat_less_iff)
  note parts = two [OF civil_bounds(1,2) [OF c]] two [OF civil_bounds(3,4) [OF c]] two [OF sb]
    two [OF mb(1,2)] two [OF mb(3,4)] appendInt_year(1,2) [OF yb]
  have weak: "list_all is_digit s \<Longrightarrow> list_all (\<lambda>c. is_digit c \<or> c = CHR ''-'') s" for s
    by (auto simp: list_all_iff)
  have "length (run_stamp loc t) = 15"
    unfolding run_stamp_def format_date_def format_clock_def Let_def c prod.case length_append
    by (simp only: parts) simp
  moreover have "list_all (\<lambda>c. is_digit c \<or> c = CHR ''-'') (run_stamp loc t)"
    unfolding run_stamp_def format_date_def format_clock_def Let_def c prod.case list_all_append
    by (intro conjI parts(1-5) [THEN conjunct2, THEN weak] parts(7) [THEN weak]) simp_all
  ultimately show ?thesis by (simp add: list_all_iff)
qed

lemma SanitizeExportFileName_stamp_tail:
  assumes "length st = Suc n" "\<forall>c \<in> set st. is_digit c \<or> c = CHR ''-''"
  shows "suffix (st @ ''.tar.gz'') (SanitizeExportFileName (p @ st @ ''.tar.gz''))"
proof -
  let ?f = "\<lambda>c. if c \<in> {CHR ''/'', CHR 0x5C} then CHR ''_'' else if c = CHR '':'' then CHR ''-'' else c"
  obtain c r where st: "st = c # r" using assms(1) by (cases st) auto
  have c: "of_char c < (128::nat)" "\<not> space1 c"
    using assms(2) st by (auto simp: is_digit_def space1_def less_eq_char_def)
  have "suffix (c # (r @ ''.tar.g'') @ ''z'') (TrimSpace (p @ c # (r @ ''.tar.g'') @ ''z''))"
    by (rule TrimSpace_keeps_tail [OF c]) (simp_all add: space1_def)
  then have "suffix (map ?f (st @ ''.tar.gz'')) (SanitizeExportFileName (p @ st @ ''.tar.gz''))"
    unfolding SanitizeExportFileName_map st by (auto simp: suffix_def)
  moreover have "map ?f st = st"
  proof (rule map_idI)
    fix x assume "x \<in> set st"
    with assms(2) have "is_digit x \<or> x = CHR ''-''" by blast
    then have "x \<noteq> CHR ''/''" "x \<noteq> CHR 0x5C" "x \<noteq> CHR '':''" by (auto simp: is_digit_def)
    then show "?f x = x" by simp
  qed
  ultimately show ?thesis by simp
qed

section \<open>Properties\<close>

lemma NormalizeSchedule_NextRunAt [simp, schedule_simps]:
  "NormalizeSchedule (s\<lparr>sched_NextRunAt := u\<rparr>) = (NormalizeSchedule s)\<lparr>sched_NextRunAt := u\<rparr>"
  by (simp add: NormalizeSchedule_def)

lemma ValidateScheduleInput_NextRunAt [simp, schedule_simps]:
  "ValidateScheduleInput (s\<lparr>sched_NextRunAt := u\<rparr>) = ValidateScheduleInput s"
  unfolding ValidateScheduleInput_def Let_def by (simp cong: if_cong option.case_cong)

lemma computeNextRun_NextRunAt [simp, schedule_simps]:
  "computeNextRun loc (s\<lparr>sched_NextRunAt := u\<rparr>) now ar = computeNextRun loc s now ar"
  unfolding computeNextRun_def Let_def by (simp cong: option.case_cong)

text \<open>
  A schedule that \<open>ScheduleFromInput\<close> returns has the identity and the trimmed type it was asked
  for, is normalised and accepted by the validation, and its time stamp is the next run when it is
  enabled and empty when it is not.
\<close>

theorem ScheduleFromInput_sound:
  assumes "ScheduleFromInput loc now v sid en inp = Inr s"
  shows "sched_ID s = sid \<and> sched_Volume s = v \<and> sched_Enabled s = en
    \<and> sched_Type s = TrimSpace (in_Type inp) \<and> NormalizeSchedule s = s \<and> ValidateScheduleInput s = None
    \<and> (if en then \<exists>t. ComputeNextRun loc s now = Inr t \<and> sched_NextRunAt s = FormatRFC3339 t
       else sched_NextRunAt s = '''')"
  using assms unfolding ScheduleFromInput_def Let_def
  by (auto simp: ComputeNextRun_def split: option.splits if_splits sum.splits)

definition demo_input :: ScheduleInput where
  "demo_input = \<lparr>in_Enabled = Some True, in_DayTimes = [\<lparr>di_Day = 1, di_Times = [''09:30'']\<rparr>],
     in_Type = '' local_file'', in_FileName = '''', in_Folder = ''/backup'', in_ImageRef = ''''\<rparr>"

theorem ScheduleFromInput_sound_witness:
  "\<exists>s. ScheduleFromInput UTC 0 ''db'' ''schedule-1'' True demo_input = Inr s
     \<and> sched_Type s = ''local_file'' \<and> ValidateScheduleInput s = None"
proof -
  have "\<not> isl (ScheduleFromInput UTC 0 ''db'' ''schedule-1'' True demo_input)"
    by code_simp
  then obtain s where s: "ScheduleFromInput UTC 0 ''db'' ''schedule-1'' True demo_input = Inr s"
    by (cases "ScheduleFromInput UTC 0 ''db'' ''schedule-1'' True demo_input") auto
  show ?thesis using ScheduleFromInput_sound [OF s] s by (simp add: demo_input_def trim_eval)
qed

text \<open>
  With an empty file name pattern two runs of a schedule at different local seconds (in years of
  up to four digits) get different archive names, whatever the volume is called.
\<close>

theorem default_names_distinguish_runs:
  assumes "four_digit_year loc t" "four_digit_year loc u" "local_sec loc t \<noteq> local_sec loc u"
  shows "ExpandExportNamePattern loc '''' v t \<noteq> ExpandExportNamePattern loc '''' v u"
proof
  assume eq: "ExpandExportNamePattern loc '''' v t = ExpandExportNamePattern loc '''' v u"
  let ?p = "sanitizeVolumeToken v @ ''-''"
  have "suffix (run_stamp loc w @ ''.tar.gz'') (ExpandExportNamePattern loc '''' v w)"
      if "four_digit_year loc w" for w
    using SanitizeExportFileName_stamp_tail [of "run_stamp loc w" 14 ?p] run_stamp_chars [OF that]
    by (simp add: ExpandExportNamePattern_default)
  from this [OF assms(1)] this [OF assms(2)] eq
  have "run_stamp loc t @ ''.tar.gz'' = run_stamp loc u @ ''.tar.gz''"
    using run_stamp_chars [OF assms(1)] run_stamp_chars [OF assms(2)] by (auto simp: suffix_def)
  then show False using run_stamp_inj [OF assms(1,2)] assms(3) by simp
qed

theorem default_names_distinguish_runs_witness:
  "ExpandExportNamePattern UTC '''' ''db'' 0 \<noteq> ExpandExportNamePattern UTC '''' ''db'' Second"
proof (rule default_names_distinguish_runs)
  show "four_digit_year UTC 0" "four_digit_year UTC Second" "local_sec UTC 0 \<noteq> local_sec UTC Second"
    by code_simp+
qed

text \<open>
  The token check ignores case and the expansion does not: the pattern \<open>{TIMESTAMP}.tar.gz\<close>
  passes as unique, yet every run of the schedule writes the same file.
\<close>

theorem HasUniqueNameToken_ignores_case:
  "HasUniqueNameToken ''{TIMESTAMP}.tar.gz'' \<and>
   ExpandExportNamePattern loc ''{TIMESTAMP}.tar.gz'' v t = ''{TIMESTAMP}.tar.gz''"
proof
  show "HasUniqueNameToken ''{TIMESTAMP}.tar.gz''" by code_simp
  show "ExpandExportNamePattern loc ''{TIMESTAMP}.tar.gz'' v t = ''{TIMESTAMP}.tar.gz''"
    by (simp add: ExpandExportNamePattern_def expandNamePattern_def SanitizeExportFileName_def trim_eval)
qed

text \<open>
  Of several entries for the same day only the first one counts, although the validation accepts
  them all (for up to twelve entries, which \<open>sort.Slice\<close> sorts by insertion).
\<close>

theorem repeated_day_only_first_counts:
  assumes "length (sched_DayTimes s) \<le> 12"
  shows "timesForDay (sched_DayTimes (NormalizeSchedule s)) d =
    (case filter (\<lambda>e. dt_Day e = d) (sched_DayTimes s) of [] \<Rightarrow> [] | e # _ \<Rightarrow> sort_Strings (dt_Times e))"
proof -
  have "filter (\<lambda>e. dt_Day e = d) (sort_Slice (\<lambda>a b. dt_Day a < dt_Day b) (sched_DayTimes s))
      = filter (\<lambda>e. dt_Day e = d) (sched_DayTimes s)"
    by (rule filter_sort_Slice) auto
  then show ?thesis
    by (simp add: timesForDay_filter NormalizeSchedule_DayTimes filter_map_Times split: list.split)
qed

theorem repeated_day_only_first_counts_witness:
  "ValidateScheduleInput (demo_schedule\<lparr>sched_DayTimes :=
      [\<lparr>dt_Day = 1, dt_Times = [''09:30'']\<rparr>, \<lparr>dt_Day = 1, dt_Times = [''18:00'']\<rparr>]\<rparr>) = None
   \<and> timesForDay (sched_DayTimes (NormalizeSchedule (demo_schedule\<lparr>sched_DayTimes :=
      [\<lparr>dt_Day = 1, dt_Times = [''09:30'']\<rparr>, \<lparr>dt_Day = 1, dt_Times = [''18:00'']\<rparr>]\<rparr>))) 1 = [''09:30'']"
proof
  show "ValidateScheduleInput (demo_schedule\<lparr>sched_DayTimes :=
      [\<lparr>dt_Day = 1, dt_Times = [''09:30'']\<rparr>, \<lparr>dt_Day = 1, dt_Times = [''18:00'']\<rparr>]\<rparr>) = None" by code_simp
  show "timesForDay (sched_DayTimes (NormalizeSchedule (demo_schedule\<lparr>sched_DayTimes :=
      [\<lparr>dt_Day = 1, dt_Times = [''09:30'']\<rparr>, \<lparr>dt_Day = 1, dt_Times = [''18:00'']\<rparr>]\<rparr>))) 1 = [''09:30'']"
    by (subst repeated_day_only_first_counts) (simp_all add: sort_Strings_def sort_Slice_def)
qed

end
