(* ===== verification/Calf_Scheduler.thy ===== *)
theory Calf_Scheduler
  imports Calf_Export_Store Calf_Export_Names
begin

text \<open>
  The export scheduler (\<open>internal/daemon/export_scheduler.go\<close>): \<open>tick\<close> walks the stored schedules and
  \<open>runSchedule\<close> runs a due one and writes it back.  Both work on the two stores and the outside world;
  \<open>None\<close> is the panic of \<open>FormatBytes\<close> on an archive of a pebibyte.  Log output is not modelled.
\<close>

type_synonym 'w daemon_state = "schedule_dir \<times> export_dir \<times> 'w"

section \<open>One scheduled run\<close>

definition notRunning :: "Status result \<Rightarrow> bool" where
  "notRunning r = (case r of Inl _ \<Rightarrow> True | Inr status \<Rightarrow> st_State status \<noteq> RuntimeStateRunning)"

text \<open>The schedule written back when the runtime was not running.\<close>

definition skippedSchedule :: "Location \<Rightarrow> Schedule \<Rightarrow> Time \<Rightarrow> Time \<Rightarrow> Schedule" where
  "skippedSchedule loc schedule tickNow now =
     (let s = schedule\<lparr>sched_LastStatus := JobStatusFailed, sched_LastError := ''runtime is not running'',
                       sched_LastRunAt := FormatRFC3339 tickNow\<rparr>
      in case ComputeNextRunAfterRun loc s now of
           Inr nextRun \<Rightarrow> s\<lparr>sched_NextRunAt := FormatRFC3339 nextRun\<rparr>
         | Inl _ \<Rightarrow> s)"

text \<open>The schedule written back after an export was tried.\<close>

definition ranSchedule :: "Location \<Rightarrow> Schedule \<Rightarrow> Time \<Rightarrow> go_error option \<Rightarrow> Time \<Rightarrow> Schedule" where
  "ranSchedule loc schedule tickNow exportErr now =
     (let s = schedule\<lparr>sched_LastRunAt := FormatRFC3339 tickNow\<rparr>;
          s1 = (case exportErr of
                  Some err \<Rightarrow> s\<lparr>sched_LastStatus := JobStatusFailed, sched_LastError := Error err\<rparr>
                | None \<Rightarrow> s\<lparr>sched_LastStatus := JobStatusCompleted, sched_LastError := ''''\<rparr>)
      in case ComputeNextRunAfterRun loc s1 now of
           Inl err \<Rightarrow> s1\<lparr>sched_Enabled := False, sched_LastStatus := JobStatusFailed, sched_LastError := Error err\<rparr>
         | Inr nextRun \<Rightarrow> s1\<lparr>sched_NextRunAt := FormatRFC3339 nextRun\<rparr>)"

definition runSchedule :: "'w Env \<Rightarrow> Schedule \<Rightarrow> Time \<Rightarrow> 'w daemon_state \<Rightarrow> 'w daemon_state option" where
  "runSchedule env schedule tickNow st =
     (let (ds, de, w) = st;
          (status, w1) = rt_Status (env_Runtime env) w
      in if notRunning status then
           let (now, w2) = env_Now env w1;
               (_, ds') = ScheduleStore_Save (env_ScheduleFaults env w2) ds
                            (skippedSchedule (env_Local env) schedule tickNow now)
           in Some (ds', de, w2)
         else
           let (fileName, imageRef) = ResolveScheduledExportNames (env_Local env) schedule tickNow;
               request = \<lparr>vr_Type = sched_Type schedule, vr_FileName = fileName, vr_Folder = sched_Folder schedule,
                          vr_ImageRef = imageRef\<rparr>
           in case ExecuteVolumeExport env (sched_Volume schedule) request (de, w1) of
                None \<Rightarrow> None
              | Some ((_, exportErr), de', w2) \<Rightarrow>
                  let (now, w3) = env_Now env w2;
                      (_, ds') = ScheduleStore_Save (env_ScheduleFaults env w3) ds
                                   (ranSchedule (env_Local env) schedule tickNow exportErr now)
                  in Some (ds', de', w3))"

section \<open>The tick\<close>

fun tick_loop :: "'w Env \<Rightarrow> Time \<Rightarrow> Schedule list \<Rightarrow> 'w daemon_state \<Rightarrow> 'w daemon_state option" where
  "tick_loop env now [] st = Some st"
| "tick_loop env now (schedule # schedules) st =
     (if env_Stopped env (snd (snd st)) then Some st
      else if \<not> sched_Enabled schedule then tick_loop env now schedules st
      else if \<not> ScheduleDue (sched_NextRunAt schedule) now then tick_loop env now schedules st
      else case runSchedule env schedule now st of
        None \<Rightarrow> None
      | Some st' \<Rightarrow> tick_loop env now schedules st')"

definition tick :: "'w Env \<Rightarrow> 'w daemon_state \<Rightarrow> 'w daemon_state option" where
  "tick env st =
     (let (ds, de, w) = st in
      case env_OpenSchedules env w of
        Some _ \<Rightarrow> Some st
      | None \<Rightarrow>
          let (schedules, _) = ListAll (env_ScheduleFaults env w) ds
          in if schedules = [] then Some st
             else let (now, w1) = env_Now env w in tick_loop env now schedules (ds, de, w1))"

section \<open>What a run writes\<close>

lemma ranSchedule_key [simp, schedule_simps]: "schedule_key (ranSchedule loc s t e now) = schedule_key s"
  by (auto simp: ranSchedule_def Let_def schedule_key_def split: option.splits sum.splits)

lemma skippedSchedule_key [simp, schedule_simps]: "schedule_key (skippedSchedule loc s t now) = schedule_key s"
  by (auto simp: skippedSchedule_def Let_def schedule_key_def split: sum.splits)

lemma ran_ID_Volume [simp, schedule_simps]:
  "sched_ID (ranSchedule loc s t e now) = sched_ID s" "sched_Volume (ranSchedule loc s t e now) = sched_Volume s"
  "sched_ID (skippedSchedule loc s t now) = sched_ID s" "sched_Volume (skippedSchedule loc s t now) = sched_Volume s"
  by (auto simp: ranSchedule_def skippedSchedule_def Let_def split: option.splits sum.splits)

text \<open>A run either leaves the schedule store as it was, or saves one version of its schedule.\<close>

lemma runSchedule_cases:
  assumes "runSchedule env s t (ds, de, w) = Some (ds', de', w')"
  obtains io r s' where "ScheduleStore_Save io ds s' = (r, ds')" "io = env_ScheduleFaults env w'"
    "(\<exists>now. s' = skippedSchedule (env_Local env) s t now) \<or> (\<exists>e now. s' = ranSchedule (env_Local env) s t e now)"
  using assms
  by (auto simp: runSchedule_def Let_def split: if_splits prod.splits option.splits) blast

lemma runSchedule_store:
  assumes "runSchedule env s t (ds, de, w) = Some (ds', de', w')" "\<And>w. env_ScheduleFaults env w = no_faults"
    and "ids_distinct ds"
  shows "ids_distinct ds' \<and> (k \<noteq> schedule_key s \<longrightarrow> schedule_at ds' k = schedule_at ds k)"
proof -
  obtain r s' where s: "ScheduleStore_Save no_faults ds s' = (r, ds')" "schedule_key s' = schedule_key s"
    using assms(2) by (auto intro: runSchedule_cases [OF assms(1)])
  show ?thesis
  proof (cases r)
    case None
    then show ?thesis using ScheduleStore_Save_ok [of no_faults ds s' ds' k] s assms(3) by simp
  next
    case (Some e)
    then have "ds' = ds"
      using s(1) by (auto simp: ScheduleStore_Save_def writeVolume_def WriteFile_def no_faults_def Let_def
          split: if_splits sum.splits option.splits node.splits)
    then show ?thesis using assms(3) by simp
  qed
qed

lemma tick_loop_store:
  assumes "tick_loop env now ss st = Some (ds', de', w')" "\<And>w. env_ScheduleFaults env w = no_faults"
    and "ids_distinct (fst st)"
    and "\<And>s. s \<in> set ss \<Longrightarrow> schedule_key s = k \<Longrightarrow> \<not> (sched_Enabled s \<and> ScheduleDue (sched_NextRunAt s) now)"
  shows "ids_distinct ds' \<and> schedule_at ds' k = schedule_at (fst st) k"
  using assms(1,3,4)
proof (induction ss arbitrary: st)
  case (Cons s ss)
  show ?case
  proof (cases "env_Stopped env (snd (snd st)) \<or> \<not> sched_Enabled s \<or> \<not> ScheduleDue (sched_NextRunAt s) now")
    case True
    with Cons show ?thesis by (auto split: if_splits)
  next
    case False
    then obtain ds1 de1 w1 where r: "runSchedule env s now (fst st, fst (snd st), snd (snd st)) = Some (ds1, de1, w1)"
        and l: "tick_loop env now ss (ds1, de1, w1) = Some (ds', de', w')"
      using Cons.prems(1) by (cases "runSchedule env s now st") auto
    note st1 = runSchedule_store [OF r assms(2) Cons.prems(2), of k]
    have "schedule_key s \<noteq> k" using Cons.prems(3) False by auto
    then show ?thesis using Cons.IH [OF l] st1 Cons.prems(3) by auto
  qed
qed simp

section \<open>Properties\<close>

text \<open>A store with one schedule, for the witnesses.\<close>

definition demo_store :: "Schedule \<Rightarrow> schedule_dir" where
  "demo_store s = [(''db.json'', File (Json [s]))]"

lemma demo_store_distinct: "ids_distinct (demo_store s)"
  by (simp add: demo_store_def ids_distinct_def)

lemma ListAll_demo_store: "fst (ListAll no_faults (demo_store s)) = [NormalizeSchedule s]"
  by (simp add: ListAll_def demo_store_def ReadFile_def entry_def no_faults_def HasSuffix_def Let_def)

text \<open>
  A tick rewrites only schedules that are enabled and due: without I/O errors every other stored
  schedule is unchanged and the IDs stay distinct.
\<close>

theorem tick_touches_only_due:
  assumes "tick env (ds, de, w) = Some (ds', de', w')" "\<And>w. env_ScheduleFaults env w = no_faults"
    and "ids_distinct ds"
    and "\<And>s. s \<in> set (fst (ListAll no_faults ds)) \<Longrightarrow> schedule_key s = k \<Longrightarrow>
           \<not> (sched_Enabled s \<and> ScheduleDue (sched_NextRunAt s) (fst (env_Now env w)))"
  shows "ids_distinct ds' \<and> schedule_at ds' k = schedule_at ds k"
proof -
  obtain ss e where l: "ListAll no_faults ds = (ss, e)" by fastforce
  obtain now w1 where n: "env_Now env w = (now, w1)" by fastforce
  consider "ds' = ds" | "tick_loop env now ss (ds, de, w1) = Some (ds', de', w')"
    using assms(1) l n by (auto simp: tick_def assms(2) Let_def split: option.splits if_splits)
  then show ?thesis
  proof cases
    case 1
    then show ?thesis using assms(3) by simp
  next
    case 2
    show ?thesis
      using tick_loop_store [OF 2 assms(2), of k] assms(3,4) by (auto simp: l n)
  qed
qed

theorem tick_touches_only_due_witness:
  "\<exists>ds' de' w'. tick demo_env (demo_store ((stored_schedule ''db'' ''s1'')\<lparr>sched_Enabled := False\<rparr>), [], 0) = Some (ds', de', w')
    \<and> schedule_at ds' (''db.json'', ''s1'') =
        schedule_at (demo_store ((stored_schedule ''db'' ''s1'')\<lparr>sched_Enabled := False\<rparr>)) (''db.json'', ''s1'')"
proof -
  let ?s = "(stored_schedule ''db'' ''s1'')\<lparr>sched_Enabled := False\<rparr>"
  have "tick demo_env (demo_store ?s, [], 0) \<noteq> None" by code_simp
  then obtain ds' de' w' where t: "tick demo_env (demo_store ?s, [], 0) = Some (ds', de', w')" by auto
  have io: "env_ScheduleFaults demo_env w = no_faults" for w by (simp add: demo_env_def)
  show ?thesis
    using tick_touches_only_due [OF t io demo_store_distinct, of "(''db.json'', ''s1'')"] t
    by (auto simp: ListAll_demo_store)
qed

lemma next_run_after:
  assumes "ComputeNextRunAfterRun loc s now = Inr t" "sched_Enabled s" "sane_offsets loc" "0 \<le> now"
  shows "now < t"
proof -
  have run: "computeNextRun loc s now True = Inr t" using assms(1) by (simp add: ComputeNextRunAfterRun_def)
  have v: "ValidateScheduleInput s = None"
  proof (cases "ValidateScheduleInput s")
    case (Some e)
    moreover have "ValidateScheduleInput (NormalizeSchedule s) = ValidateScheduleInput s"
      by (simp add: ValidateScheduleInput_def)
    ultimately show ?thesis using run assms(2) by (simp add: computeNextRun_def Let_def)
  qed simp
  let ?cs = "upcoming loc (sched_DayTimes (NormalizeSchedule s)) now True"
  have "?cs \<noteq> []" "t = Min (set ?cs)"
    using run by (auto simp: computeNextRun_upcoming [OF assms(3,4,2) v] Let_def split: if_splits)
  then have "t \<in> set ?cs" using Min_in [of "set ?cs"] by simp
  then show ?thesis using upcoming_eligible by (fastforce simp: eligible_def)
qed

lemma computeNextRun_cong:
  assumes "sched_Enabled s = sched_Enabled s'" "sched_DayTimes s = sched_DayTimes s'" "sched_Type s = sched_Type s'"
    "sched_Folder s = sched_Folder s'" "sched_ImageRef s = sched_ImageRef s'"
  shows "computeNextRun loc s now ar = computeNextRun loc s' now ar"
proof -
  have d: "sched_DayTimes (NormalizeSchedule s) = sched_DayTimes (NormalizeSchedule s')"
    by (simp add: NormalizeSchedule_DayTimes assms)
  have "ValidateScheduleInput (NormalizeSchedule s) = ValidateScheduleInput (NormalizeSchedule s')"
    unfolding ValidateScheduleInput_def Let_def NormalizeSchedule_idem NormalizeSchedule_fields assms d by (rule refl)
  then show ?thesis by (simp add: computeNextRun_def Let_def assms d cong: option.case_cong)
qed

lemma ScheduleStore_Save_no_faults:
  assumes "ids_distinct d" "readable d (volumePath (sched_Volume s))"
    and "TrimSpace (sched_Volume s) \<noteq> []" "TrimSpace (sched_ID s) \<noteq> []"
  shows "fst (ScheduleStore_Save no_faults d s) = None"
proof -
  obtain ss where l: "ScheduleStore_List no_faults d (sched_Volume s) = Inr ss"
    using ScheduleStore_List_readable [OF assms(2)] by blast
  have "entry d (volumePath (sched_Volume s)) \<noteq> Some Folder"
    using assms(2) by (auto simp: readable_def)
  then show ?thesis
    using l assms(3,4) by (auto simp: ScheduleStore_Save_def writeVolume_def WriteFile_def no_faults_def Let_def
        split: option.splits node.splits)
qed

text \<open>What both versions of a rewritten schedule have in common.\<close>

definition records_run :: "Location \<Rightarrow> Schedule \<Rightarrow> Time \<Rightarrow> Time \<Rightarrow> Schedule \<Rightarrow> bool" where
  "records_run loc s tickNow now s' \<longleftrightarrow>
     sched_LastRunAt s' = FormatRFC3339 tickNow \<and> sched_LastStatus s' \<in> {JobStatusCompleted, JobStatusFailed}
     \<and> (case ComputeNextRunAfterRun loc s now of
          Inr t \<Rightarrow> sched_Enabled s' = sched_Enabled s \<and> sched_NextRunAt s' = FormatRFC3339 t
        | Inl _ \<Rightarrow> sched_NextRunAt s' = sched_NextRunAt s)"

lemma records_run_ran: "records_run loc s tickNow now (ranSchedule loc s tickNow e now)"
  "records_run loc s tickNow now (skippedSchedule loc s tickNow now)"
proof -
  have c: "ComputeNextRunAfterRun loc (s\<lparr>sched_LastRunAt := x, sched_LastStatus := a, sched_LastError := b\<rparr>) now
        = ComputeNextRunAfterRun loc s now"
      "ComputeNextRunAfterRun loc (s\<lparr>sched_LastStatus := a, sched_LastError := b, sched_LastRunAt := x\<rparr>) now
        = ComputeNextRunAfterRun loc s now" for a b x
    unfolding ComputeNextRunAfterRun_def by (rule computeNextRun_cong; simp)+
  show "records_run loc s tickNow now (ranSchedule loc s tickNow e now)"
    "records_run loc s tickNow now (skippedSchedule loc s tickNow now)"
    by (auto simp: records_run_def ranSchedule_def skippedSchedule_def Let_def c split: option.splits sum.splits)
qed

lemma records_run_Normalize: "records_run loc s tickNow now (NormalizeSchedule s') = records_run loc s tickNow now s'"
  by (simp add: records_run_def cong: sum.case_cong)

lemma runSchedule_saves:
  assumes "runSchedule env s t (ds, de, w) = Some (ds', de', w')" "\<And>w. env_ScheduleFaults env w = no_faults"
  shows "\<exists>s' now w2 r. env_Now env w2 = (now, w') \<and> ScheduleStore_Save no_faults ds s' = (r, ds')
    \<and> sched_ID s' = sched_ID s \<and> sched_Volume s' = sched_Volume s \<and> records_run (env_Local env) s t now s'"
  using assms(1) unfolding runSchedule_def assms(2) Let_def
  by (auto split: if_splits prod.splits option.splits intro!: exI conjI records_run_ran)

text \<open>
  C25: After a run of an enabled schedule its stored record has the time of the tick as its last run and
  a final status; and when a next run exists, the schedule stays enabled and the stored next run is
  strictly later than the clock at the end of the run.
\<close>

theorem runSchedule_records_run:
  assumes run: "runSchedule env s tickNow (ds, de, w) = Some (ds', de', w')"
    and io: "\<And>w. env_ScheduleFaults env w = no_faults"
    and ds: "ids_distinct ds" "readable ds (volumePath (sched_Volume s))"
    and named: "TrimSpace (sched_Volume s) \<noteq> []" "TrimSpace (sched_ID s) \<noteq> []" and en: "sched_Enabled s"
    and clock: "sane_offsets (env_Local env)" "\<And>w. 0 \<le> fst (env_Now env w)"
  shows "\<exists>s' now w2. schedule_at ds' (schedule_key s) = Some s' \<and> env_Now env w2 = (now, w')
    \<and> sched_LastRunAt s' = FormatRFC3339 tickNow \<and> sched_LastStatus s' \<in> {JobStatusCompleted, JobStatusFailed}
    \<and> (\<forall>t. ComputeNextRunAfterRun (env_Local env) s now = Inr t \<longrightarrow>
          sched_Enabled s' \<and> sched_NextRunAt s' = FormatRFC3339 t \<and> now < t)"
proof -
  obtain s' now w2 r where n: "env_Now env w2 = (now, w')" and sv: "ScheduleStore_Save no_faults ds s' = (r, ds')"
      and key: "sched_ID s' = sched_ID s" "sched_Volume s' = sched_Volume s"
      and rec: "records_run (env_Local env) s tickNow now s'"
    using runSchedule_saves [OF run io] by blast
  have "r = None" using ScheduleStore_Save_no_faults [OF ds(1), of s'] ds(2) named sv key by simp
  then have "schedule_at ds' (schedule_key s) = Some (NormalizeSchedule s')"
    using ScheduleStore_Save_ok [OF _ ds(1), of no_faults s' ds' "schedule_key s"] sv key by (simp add: schedule_key_def)
  moreover have "records_run (env_Local env) s tickNow now (NormalizeSchedule s')"
    using rec by (simp add: records_run_Normalize)
  moreover have "now < t" if "ComputeNextRunAfterRun (env_Local env) s now = Inr t" for t
    using next_run_after [OF that en clock(1)] clock(2) [of w2] n by simp
  ultimately show ?thesis using n en by (auto simp: records_run_def)
qed

text \<open>Several ticks, one after the other.\<close>

fun ticks :: "nat \<Rightarrow> 'w Env \<Rightarrow> 'w daemon_state \<Rightarrow> 'w daemon_state option" where
  "ticks 0 env st = Some st"
| "ticks (Suc n) env st = (case tick env st of None \<Rightarrow> None | Some st' \<Rightarrow> ticks n env st')"

text \<open>A slot is missed when the grace period after it is over.\<close>

definition missed :: "Schedule \<Rightarrow> Time \<Rightarrow> bool" where
  "missed s t \<longleftrightarrow> stampable t \<and> t mod Second = 0 \<and> sched_NextRunAt s = FormatRFC3339 t"

lemma missed_not_due: "missed s t \<Longrightarrow> t + ScheduleRunGrace < now \<Longrightarrow> \<not> ScheduleDue (sched_NextRunAt s) now"
  by (simp add: missed_def ScheduleDue_stamp ScheduleRunGrace_def)

lemma tick_loop_idle:
  assumes "\<And>s. s \<in> set ss \<Longrightarrow> \<not> (sched_Enabled s \<and> ScheduleDue (sched_NextRunAt s) now)"
  shows "tick_loop env now ss st = Some st"
  using assms by (induction ss) auto

lemma tick_idle:
  assumes "\<And>s. s \<in> set (fst (ListAll (env_ScheduleFaults env w) ds)) \<Longrightarrow>
    \<not> (sched_Enabled s \<and> ScheduleDue (sched_NextRunAt s) (fst (env_Now env w)))"
  shows "\<exists>w'. tick env (ds, de, w) = Some (ds, de, w')"
  using assms tick_loop_idle [of "fst (ListAll (env_ScheduleFaults env w) ds)" "fst (env_Now env w)" env]
  by (auto simp: tick_def Let_def split: option.splits prod.splits)

text \<open>
  C34: A schedule whose slot was missed by more than the grace period is lost: when every enabled
  schedule is in that state, no later tick runs or rewrites anything, however many ticks follow,
  because only a run or an edit computes a new slot.
\<close>

theorem missed_schedules_never_run_again:
  assumes io: "\<And>w. env_ScheduleFaults env w = no_faults"
    and late: "\<And>s. s \<in> set (fst (ListAll no_faults ds)) \<Longrightarrow> sched_Enabled s \<Longrightarrow>
      \<exists>t. missed s t \<and> (\<forall>w. t + ScheduleRunGrace < fst (env_Now env w))"
  shows "\<exists>w'. ticks n env (ds, de, w) = Some (ds, de, w')"
proof (induction n arbitrary: w)
  case (Suc n)
  obtain w1 where "tick env (ds, de, w) = Some (ds, de, w1)"
    using tick_idle [of env w ds de] late missed_not_due by (auto simp: io) blast
  then show ?case using Suc.IH [of w1] by simp
qed simp

text \<open>
  A schedule deleted while its export runs comes back: the run ends by saving the copy it started
  with, which the store inserts again.
\<close>

theorem deleted_schedule_comes_back:
  assumes "ids_distinct ds" "ScheduleStore_Delete io ds (sched_Volume s) (sched_ID s) = (None, ds1)"
    and "ScheduleStore_Save io' ds1 (ranSchedule loc s tickNow e now) = (None, ds2)"
  shows "schedule_at ds1 (schedule_key s) = None
    \<and> schedule_at ds2 (schedule_key s) = Some (NormalizeSchedule (ranSchedule loc s tickNow e now))"
proof -
  have d: "delete_schedule io ds (sched_Volume s, sched_ID s) = Some ds1" using assms(2) by (simp add: delete_schedule_def)
  have s: "save_schedule io' ds1 (ranSchedule loc s tickNow e now) = Some ds2" using assms(3) by (simp add: save_schedule_def)
  show ?thesis
    using schedules.find_delete [OF assms(1) d, of "schedule_key s"]
      schedules.find_save [OF schedules.delete_wf [OF assms(1) d] s, of "schedule_key s"]
    by (simp add: schedule_key_def)
qed

theorem runSchedule_records_run_witness:
  "\<exists>ds' de' w' s'. runSchedule demo_env (stored_schedule ''db'' ''s1'') 0 (demo_store (stored_schedule ''db'' ''s1''), [], 0)
      = Some (ds', de', w')
    \<and> schedule_at ds' (schedule_key (stored_schedule ''db'' ''s1'')) = Some s'
    \<and> sched_LastRunAt s' = FormatRFC3339 0"
proof -
  let ?s = "stored_schedule ''db'' ''s1''"
  obtain fn ir where rn: "ResolveScheduledExportNames UTC ?s 0 = (fn, ir)" by fastforce
  obtain e err d w where "ExecuteVolumeExport demo_env ''db'' \<lparr>vr_Type = ''local_file'', vr_FileName = fn,
      vr_Folder = ''/backup'', vr_ImageRef = ir\<rparr> ([], 0) = Some ((e, err), d, w)"
    using ExecuteVolumeExport_final [of demo_env "[]" "''db''"]
    by (fastforce simp: demo_env_def no_plain_files_def trim_eval)
  with rn have "runSchedule demo_env ?s 0 (demo_store ?s, [], 0) \<noteq> None"
    by (simp add: runSchedule_def demo_env_def notRunning_def demo_status_def stored_schedule_def split: prod.splits)
  then obtain ds' de' w' where r: "runSchedule demo_env ?s 0 (demo_store ?s, [], 0) = Some (ds', de', w')" by auto
  have io: "env_ScheduleFaults demo_env w = no_faults" for w by (simp add: demo_env_def)
  have rd: "readable (demo_store ?s) (volumePath (sched_Volume ?s))" by code_simp
  have names: "TrimSpace (sched_Volume ?s) \<noteq> []" "TrimSpace (sched_ID ?s) \<noteq> []" "sched_Enabled ?s" by code_simp+
  have clock: "sane_offsets (env_Local demo_env)" "0 \<le> fst (env_Now demo_env w)" for w
    by (simp_all add: demo_env_def UTC_sane)
  show ?thesis
    using runSchedule_records_run [OF r io demo_store_distinct rd names clock] r by blast
qed

text \<open>A clock that shows a fixed time, after the slot of the schedule and its grace period.\<close>

definition late_env :: "Time Env" where
  "late_env = demo_env\<lparr>env_Now := (\<lambda>w. (379861 * Second, w))\<rparr>"

theorem missed_schedules_never_run_again_witness:
  "\<exists>w'. ticks 2 late_env
      (demo_store ((stored_schedule ''db'' ''s1'')\<lparr>sched_NextRunAt := FormatRFC3339 (379800 * Second)\<rparr>), [], 0)
    = Some (demo_store ((stored_schedule ''db'' ''s1'')\<lparr>sched_NextRunAt := FormatRFC3339 (379800 * Second)\<rparr>), [], w')"
proof (rule missed_schedules_never_run_again)
  let ?s = "(stored_schedule ''db'' ''s1'')\<lparr>sched_NextRunAt := FormatRFC3339 (379800 * Second)\<rparr>"
  show "env_ScheduleFaults late_env w = no_faults" for w by (simp add: late_env_def demo_env_def)
  have "missed (NormalizeSchedule ?s) (379800 * Second)"
    by (simp add: missed_def stampable_modern)
  then show "\<exists>t. missed s t \<and> (\<forall>w. t + ScheduleRunGrace < fst (env_Now late_env w))"
    if "s \<in> set (fst (ListAll no_faults (demo_store ?s)))" for s
    using that by (intro exI [of _ "379800 * Second"]) (auto simp: ListAll_demo_store late_env_def ScheduleRunGrace_def)
qed

theorem deleted_schedule_comes_back_witness:
  "\<exists>ds1 ds2. ScheduleStore_Delete no_faults (demo_store (stored_schedule ''db'' ''s1'')) ''db'' ''s1'' = (None, ds1)
    \<and> ScheduleStore_Save no_faults ds1 (ranSchedule UTC (stored_schedule ''db'' ''s1'') 0 None 0) = (None, ds2)
    \<and> schedule_at ds1 (schedule_key (stored_schedule ''db'' ''s1'')) = None
    \<and> schedule_at ds2 (schedule_key (stored_schedule ''db'' ''s1'')) \<noteq> None"
proof -
  let ?s = "stored_schedule ''db'' ''s1''"
  let ?d1 = "ScheduleStore_Delete no_faults (demo_store ?s) ''db'' ''s1''"
  let ?d2 = "ScheduleStore_Save no_faults (snd ?d1) (ranSchedule UTC ?s 0 None 0)"
  have f: "fst ?d1 = None" "fst ?d2 = None" by code_simp+
  have d1: "ScheduleStore_Delete no_faults (demo_store ?s) (sched_Volume ?s) (sched_ID ?s) = (None, snd ?d1)"
    using f(1) by (simp add: stored_schedule_def prod_eq_iff)
  have d2: "?d2 = (None, snd ?d2)" using f(2) by (simp add: prod_eq_iff)
  have "?d1 = (None, snd ?d1)" using f(1) by (simp add: prod_eq_iff)
  then show ?thesis
    using deleted_schedule_comes_back [OF demo_store_distinct d1 d2] d2 by blast
qed

end
