(* ===== verification/Calf_Http.thy ===== *)
theory Calf_Http
  imports Calf_Prelude
begin

text \<open>
  Routing and responses of the HTTP API (\<open>internal/httpkit/route.go\<close>, \<open>response.go\<close> and
  \<open>runtime_errors.go\<close>).  A handler is a function from the request and a state to a response and the
  new state; a response is a status code with no body, an error message, the fixed \<open>{status: ok}\<close>
  object, or a value of the handler.
\<close>

named_theorems http_simps "facts about routing and responses"

datatype 'v reply = NoBody | ErrorBody string | OkBody | Value 'v

datatype 'v response = Response (resp_status: nat) (resp_body: "'v reply")

record Request =
  req_Method :: string
  req_Path :: string

type_synonym ('s, 'v) handler = "Request \<Rightarrow> 's \<Rightarrow> 'v response \<times> 's"

section \<open>Responses (response.go, runtime\_errors.go, utils/http\_response.go)\<close>

definition WriteJSON :: "nat \<Rightarrow> 'v \<Rightarrow> 'v response" where
  "WriteJSON status payload = Response status (Value payload)"

definition WriteError :: "nat \<Rightarrow> string \<Rightarrow> 'v response" where
  "WriteError status message = Response status (ErrorBody message)"

definition WriteOK :: "'v response" where
  "WriteOK = Response 200 OkBody"

definition RequireNonEmpty :: "string \<Rightarrow> string \<Rightarrow> 'v response option" where
  "RequireNonEmpty field value =
     (if TrimSpace value = '''' then Some (WriteError 400 (field @ '' is required'')) else None)"

definition MethodNotAllowed :: "Request \<Rightarrow> 'v response" where
  "MethodNotAllowed r =
     (if req_Method r = ''OPTIONS'' then Response 204 NoBody else WriteError 405 ''method not allowed'')"

text \<open>The response for a known runtime error, \<open>None\<close> when the caller has to write one itself.\<close>

definition WriteRuntimeError :: "go_error \<Rightarrow> 'v response option" where
  "WriteRuntimeError err =
     (if errors_Is err ErrRuntimeNotRunning then Some (WriteError 503 ''runtime is not running'')
      else if errors_Is err ErrNetworkNotFound then Some (WriteError 404 ''network not found'')
      else if errors_Is err ErrContainerNotFound then Some (WriteError 404 ''container not found'')
      else if errors_Is err ErrContainerNotRunning then Some (WriteError 409 ''container is not running'')
      else None)"

definition WriteRuntimeOrFail :: "go_error \<Rightarrow> 'v response" where
  "WriteRuntimeOrFail err =
     (case WriteRuntimeError err of Some resp \<Rightarrow> resp | None \<Rightarrow> WriteError 500 ''operation failed'')"

section \<open>Routing (route.go)\<close>

definition TrimSlash :: "string \<Rightarrow> string" where
  "TrimSlash s = rev (dropWhile ((=) (CHR ''/'')) (rev (dropWhile ((=) (CHR ''/'')) s)))"

definition PathParts :: "Request \<Rightarrow> string \<Rightarrow> string list" where
  "PathParts r pfx =
     (let base = TrimSuffix pfx ''/''; path = req_Path r in
      if path \<noteq> base \<and> \<not> HasPrefix path (base @ ''/'') then []
      else if path = base \<or> path = base @ ''/'' then []
      else let rest = TrimSlash (TrimPrefix path (base @ ''/'')) in
        if rest = '''' then [] else filter (\<lambda>part. part \<noteq> '''') (Split rest (CHR ''/'')))"

fun segments_agree :: "string list \<Rightarrow> string list \<Rightarrow> bool" where
  "segments_agree (a # as) (p # ps) = ((p = ''*'' \<or> p = a) \<and> segments_agree as ps)"
| "segments_agree _ _ = True"

definition MatchSegments :: "string list \<Rightarrow> string list \<Rightarrow> bool" where
  "MatchSegments actual pattern = (length actual = length pattern \<and> segments_agree actual pattern)"

definition ServeMethods :: "(string \<times> ('s, 'v) handler) list \<Rightarrow> ('s, 'v) handler" where
  "ServeMethods handlers r s =
     (if req_Method r = ''OPTIONS'' then (Response 204 NoBody, s)
      else case map_of handlers (req_Method r) of
        None \<Rightarrow> (MethodNotAllowed r, s)
      | Some h \<Rightarrow> h r s)"

definition ServeMethod :: "string \<Rightarrow> ('s, 'v) handler \<Rightarrow> ('s, 'v) handler" where
  "ServeMethod meth h r s = (if req_Method r \<noteq> meth then (MethodNotAllowed r, s) else h r s)"

record ('s, 'v) Route =
  route_Segments :: "string list"
  route_Method :: string
  route_Handler :: "string list \<Rightarrow> ('s, 'v) handler"

text \<open>The loop of \<open>ServeRoutes\<close>: the first route whose segments and method fit.\<close>

fun first_route :: "('s, 'v) Route list \<Rightarrow> string list \<Rightarrow> string \<Rightarrow> ('s, 'v) Route option" where
  "first_route [] tail meth = None"
| "first_route (route # routes) tail meth =
     (if \<not> MatchSegments tail (route_Segments route) then first_route routes tail meth
      else if route_Method route \<noteq> '''' \<and> route_Method route \<noteq> meth then first_route routes tail meth
      else Some route)"

definition ServeRoutes ::
    "string \<Rightarrow> string \<Rightarrow> ('s, 'v) Route list \<Rightarrow> (string \<times> (string list \<Rightarrow> ('s, 'v) handler)) list \<Rightarrow> ('s, 'v) handler" where
  "ServeRoutes pfx notFoundMsg routes fallback r s =
     (if req_Method r = ''OPTIONS'' then (Response 204 NoBody, s)
      else case PathParts r pfx of
        [] \<Rightarrow> (WriteError 404 notFoundMsg, s)
      | part # tail \<Rightarrow>
          (if part = '''' then (WriteError 404 notFoundMsg, s)
           else case first_route routes tail (req_Method r) of
             Some route \<Rightarrow> route_Handler route (part # tail) r s
           | None \<Rightarrow>
               (if tail = [] then
                  (case map_of fallback (req_Method r) of
                     Some h \<Rightarrow> h (part # tail) r s
                   | None \<Rightarrow> (MethodNotAllowed r, s))
                else (MethodNotAllowed r, s))))"

definition ServePrefix ::
    "string \<Rightarrow> (string \<times> ('s, 'v) handler) list \<Rightarrow> (string \<Rightarrow> ('s, 'v) handler) option \<Rightarrow> ('s, 'v) handler" where
  "ServePrefix pfx exact fallback r s =
     (let trimmedPrefix = TrimSuffix pfx ''/'' in
      if req_Method r = ''OPTIONS'' then (Response 204 NoBody, s)
      else let remaining = TrimSlash (TrimPrefix (req_Path r) trimmedPrefix) in
        case map_of exact remaining of
          Some h \<Rightarrow> h r s
        | None \<Rightarrow> (case fallback of Some f \<Rightarrow> f remaining r s | None \<Rightarrow> (MethodNotAllowed r, s)))"

section \<open>Facts about paths\<close>

definition path_part :: "string \<Rightarrow> bool" where
  "path_part p \<longleftrightarrow> p \<noteq> [] \<and> CHR ''/'' \<notin> set p"

lemma Split_single: "sep \<notin> set w \<Longrightarrow> Split w sep = [w]"
  by (induction w) auto

lemma Split_append: "sep \<notin> set w \<Longrightarrow> Split (w @ sep # s) sep = w # Split s sep"
  by (induction w) auto

lemma Split_Join:
  "ws \<noteq> [] \<Longrightarrow> (\<And>w. w \<in> set ws \<Longrightarrow> sep \<notin> set w) \<Longrightarrow> Split (Join ws [sep]) sep = ws"
proof (induction ws)
  case (Cons w ws)
  then show ?case by (cases ws) (simp_all add: Split_single Split_append)
qed simp

lemma Join_hd: "ws \<noteq> [] \<Longrightarrow> list_all path_part ws \<Longrightarrow> Join ws ''/'' \<noteq> [] \<and> hd (Join ws ''/'') \<noteq> CHR ''/''"
  by (cases ws; cases "hd ws"; cases "tl ws") (auto simp: path_part_def)

lemma Join_last: "ws \<noteq> [] \<Longrightarrow> list_all path_part ws \<Longrightarrow> Join ws ''/'' \<noteq> [] \<and> last (Join ws ''/'') \<noteq> CHR ''/''"
proof (induction ws rule: rev_induct)
  case (snoc w ws)
  have "w \<noteq> []" "last w \<noteq> CHR ''/''" using snoc.prems by (auto simp: path_part_def dest: last_in_set)
  moreover have "Join (ws @ [w]) ''/'' = (if ws = [] then w else Join ws ''/'' @ ''/'' @ w)"
    by (induction ws) (auto simp: Join_Cons)
  ultimately show ?case by (auto simp: last_append)
qed simp

lemma TrimSlash_id: "s \<noteq> [] \<Longrightarrow> hd s \<noteq> CHR ''/'' \<Longrightarrow> last s \<noteq> CHR ''/'' \<Longrightarrow> TrimSlash s = s"
proof -
  assume s: "s \<noteq> []" "hd s \<noteq> CHR ''/''" "last s \<noteq> CHR ''/''"
  then have "dropWhile ((=) (CHR ''/'')) s = s" by (cases s) auto
  moreover have "dropWhile ((=) (CHR ''/'')) (rev s) = rev s"
    using s by (cases "rev s") (auto simp: hd_rev [symmetric])
  ultimately show ?thesis by (simp add: TrimSlash_def)
qed

section \<open>Properties\<close>

text \<open>
  Path parsing is the inverse of path building: for a prefix without a trailing slash and
  non-empty segments without slashes, \<open>PathParts\<close> recovers the segments, with or without a trailing
  slash on the request path.
\<close>

theorem PathParts_of_path:
  assumes "parts \<noteq> []" "list_all path_part parts" "\<not> HasSuffix base ''/''"
  shows "PathParts \<lparr>req_Method = m, req_Path = base @ ''/'' @ Join parts ''/''\<rparr> (base @ ''/'') = parts"
proof -
  have b: "TrimSuffix (base @ ''/'') ''/'' = base" by (simp add: TrimSuffix_def HasSuffix_def)
  note j = Join_hd [OF assms(1,2)] Join_last [OF assms(1,2)]
  have "TrimSlash (TrimPrefix (base @ ''/'' @ Join parts ''/'') (base @ ''/'')) = Join parts ''/''"
    using j by (simp add: TrimPrefix_def HasPrefix_def TrimSlash_id)
  moreover have "filter (\<lambda>p. p \<noteq> []) (Split (Join parts ''/'') (CHR ''/'')) = parts"
    using Split_Join [OF assms(1), of "CHR ''/''"] assms(2) by (auto simp: path_part_def list_all_iff filter_id_conv)
  ultimately show ?thesis
    using j by (simp add: PathParts_def Let_def b HasPrefix_def)
qed

theorem PathParts_of_path_witness:
  "PathParts \<lparr>req_Method = ''GET'', req_Path = ''/v1/volumes'' @ ''/'' @ Join [''db'', ''exports''] ''/''\<rparr>
     (''/v1/volumes'' @ ''/'') = [''db'', ''exports'']"
  by (rule PathParts_of_path) (simp_all add: path_part_def HasSuffix_def)

text \<open>
  dispatch: a request that is not a preflight and names a resource is answered by the first route
  whose segments and method fit; a request with only a resource ID that no route takes goes to the
  fallback for its method; everything else is 405, and no handler runs.
\<close>

theorem ServeRoutes_dispatch:
  assumes "req_Method r \<noteq> ''OPTIONS''" "PathParts r pfx = part # tail"
  shows "ServeRoutes pfx msg routes fallback r s =
    (case find (\<lambda>route. MatchSegments tail (route_Segments route) \<and> route_Method route \<in> {'''', req_Method r}) routes of
       Some route \<Rightarrow> route_Handler route (part # tail) r s
     | None \<Rightarrow>
         (case (if tail = [] then map_of fallback (req_Method r) else None) of
            Some h \<Rightarrow> h (part # tail) r s
          | None \<Rightarrow> (WriteError 405 ''method not allowed'', s)))"
proof -
  have "first_route routes tail (req_Method r) =
      find (\<lambda>route. MatchSegments tail (route_Segments route) \<and> route_Method route \<in> {'''', req_Method r}) routes"
    by (induction routes) auto
  moreover have "part \<noteq> []"
    using assms(2) by (auto simp: PathParts_def Let_def filter_eq_Cons_iff split: if_splits)
  ultimately show ?thesis
    using assms by (auto simp: ServeRoutes_def MethodNotAllowed_def split: option.split)
qed

theorem ServeRoutes_dispatch_witness:
  "ServeRoutes ''/v1/networks/'' ''network not found'' [] [] \<lparr>req_Method = ''PUT'', req_Path = ''/v1/networks/a''\<rparr> ()
   = (WriteError 405 ''method not allowed'' :: nat response, ())"
proof -
  have "PathParts \<lparr>req_Method = ''PUT'', req_Path = ''/v1/networks/a''\<rparr> ''/v1/networks/'' = [''a'']"
    by code_simp
  then show ?thesis by (subst ServeRoutes_dispatch) simp_all
qed

end
