(* ===== verification/Calf_Volume_Api.thy ===== *)
theory Calf_Volume_Api
  imports Calf_Scheduler Calf_Http
begin

text \<open>
  The handlers of \<open>internal/api/volume_export_schedules.go\<close> and \<open>volume_exports.go\<close>: they decode the
  request, call the stores and the export runner, and answer.  The decoded request body is an argument
  (an error when it did not decode); handlers work on the state of the daemon.  Each handler reads the
  clock at the same points as the code, except that a disabled schedule also reads it once.
\<close>

datatype api_value =
    SchedulesValue "Schedule list"
  | ScheduleValue Schedule
  | ExportsValue "Export list"
  | ExportValue Export
  | Download (dl_fileName: string) (dl_size: int)

type_synonym 'w api_result = "api_value response \<times> 'w daemon_state"

section \<open>Schedules (volume\_export\_schedules.go)\<close>

definition handleVolumeExportSchedulesList :: "'w Env \<Rightarrow> string \<Rightarrow> 'w daemon_state \<Rightarrow> 'w api_result" where
  "handleVolumeExportSchedulesList env volumeName st =
     (let (ds, de, w) = st in
      case env_OpenSchedules env w of
        Some _ \<Rightarrow> (WriteError 500 ''failed to open schedule store'', st)
      | None \<Rightarrow>
          (case ScheduleStore_List (env_ScheduleFaults env w) ds volumeName of
             Inl _ \<Rightarrow> (WriteError 500 ''failed to list export schedules'', st)
           | Inr schedules \<Rightarrow> (WriteJSON 200 (SchedulesValue schedules), st)))"

definition handleVolumeExportScheduleCreate ::
    "'w Env \<Rightarrow> string \<Rightarrow> ScheduleInput result \<Rightarrow> 'w daemon_state \<Rightarrow> 'w api_result" where
  "handleVolumeExportScheduleCreate env volumeName body st =
     (case body of
        Inl err \<Rightarrow> (WriteError 400 (Error err), st)
      | Inr payload \<Rightarrow>
          let (ds, de, w) = st;
              enabled = (case in_Enabled payload of Some b \<Rightarrow> b | None \<Rightarrow> False);
              (now1, w1) = env_Now env w
          in case ScheduleFromInput (env_Local env) now1 volumeName '''' enabled payload of
               Inl err \<Rightarrow> (WriteError 400 (Error err), (ds, de, w1))
             | Inr schedule \<Rightarrow>
                 (case env_OpenSchedules env w1 of
                    Some _ \<Rightarrow> (WriteError 500 ''failed to open schedule store'', (ds, de, w1))
                  | None \<Rightarrow>
                      let (now2, w2) = env_Now env w1;
                          (now3, w3) = env_Now env w2;
                          schedule' = schedule\<lparr>sched_ID := ScheduleStore_NewID volumeName now2,
                                               sched_CreatedAt := FormatRFC3339 now3\<rparr>
                      in case ScheduleStore_Save (env_ScheduleFaults env w3) ds schedule' of
                           (Some _, ds') \<Rightarrow> (WriteError 500 ''failed to save export schedule'', (ds', de, w3))
                         | (None, ds') \<Rightarrow> (WriteJSON 200 (ScheduleValue schedule'), (ds', de, w3))))"

text \<open>The input of an update: the stored schedule with the fields given in the request.\<close>

definition mergedInput :: "Schedule \<Rightarrow> bool \<Rightarrow> ScheduleInput \<Rightarrow> ScheduleInput" where
  "mergedInput existing enabled payload =
     \<lparr>in_Enabled = Some enabled,
      in_DayTimes = (if in_DayTimes payload \<noteq> [] then in_DayTimes payload
                     else DayTimesToInput (sched_DayTimes (NormalizeSchedule existing))),
      in_Type = (if in_Type payload \<noteq> '''' then in_Type payload else sched_Type existing),
      in_FileName = (if in_FileName payload \<noteq> '''' then in_FileName payload else sched_FileName existing),
      in_Folder = (if in_Folder payload \<noteq> '''' then in_Folder payload else sched_Folder existing),
      in_ImageRef = (if in_ImageRef payload \<noteq> '''' then in_ImageRef payload else sched_ImageRef existing)\<rparr>"

definition handleVolumeExportScheduleUpdate ::
    "'w Env \<Rightarrow> string \<Rightarrow> string \<Rightarrow> ScheduleInput result \<Rightarrow> 'w daemon_state \<Rightarrow> 'w api_result" where
  "handleVolumeExportScheduleUpdate env volumeName scheduleID body st =
     (let (ds, de, w) = st in
      case env_OpenSchedules env w of
        Some _ \<Rightarrow> (WriteError 500 ''failed to open schedule store'', st)
      | None \<Rightarrow>
          (case ScheduleStore_Get (env_ScheduleFaults env w) ds volumeName scheduleID of
             Inl _ \<Rightarrow> (WriteError 404 ''schedule not found'', st)
           | Inr existing \<Rightarrow>
               (case body of
                  Inl err \<Rightarrow> (WriteError 400 (Error err), st)
                | Inr payload \<Rightarrow>
                    let enabled = (case in_Enabled payload of Some b \<Rightarrow> b | None \<Rightarrow> sched_Enabled existing);
                        merged = mergedInput existing enabled payload;
                        (now1, w1) = env_Now env w
                    in case ScheduleFromInput (env_Local env) now1 volumeName scheduleID enabled merged of
                         Inl err \<Rightarrow> (WriteError 400 (Error err), (ds, de, w1))
                       | Inr schedule \<Rightarrow>
                           let schedule' = schedule\<lparr>sched_ID := scheduleID,
                                 sched_CreatedAt := sched_CreatedAt existing,
                                 sched_LastRunAt := sched_LastRunAt existing,
                                 sched_LastStatus := sched_LastStatus existing,
                                 sched_LastError := sched_LastError existing\<rparr>
                           in case ScheduleStore_Save (env_ScheduleFaults env w1) ds schedule' of
                                (Some _, ds') \<Rightarrow> (WriteError 500 ''failed to save export schedule'', (ds', de, w1))
                              | (None, ds') \<Rightarrow> (WriteJSON 200 (ScheduleValue schedule'), (ds', de, w1)))))"

definition handleVolumeExportScheduleDelete ::
    "'w Env \<Rightarrow> string \<Rightarrow> string \<Rightarrow> 'w daemon_state \<Rightarrow> 'w api_result" where
  "handleVolumeExportScheduleDelete env volumeName scheduleID st =
     (let (ds, de, w) = st in
      case env_OpenSchedules env w of
        Some _ \<Rightarrow> (WriteError 500 ''failed to open schedule store'', st)
      | None \<Rightarrow>
          (case ScheduleStore_Delete (env_ScheduleFaults env w) ds volumeName scheduleID of
             (Some _, ds') \<Rightarrow> (WriteError 404 ''schedule not found'', (ds', de, w))
           | (None, ds') \<Rightarrow> (WriteOK, (ds', de, w))))"

section \<open>Exports (volume\_exports.go)\<close>

definition handleVolumeExportsList :: "'w Env \<Rightarrow> string \<Rightarrow> 'w daemon_state \<Rightarrow> 'w api_result" where
  "handleVolumeExportsList env volumeName st =
     (let (ds, de, w) = st in
      case env_OpenExports env w of
        Some _ \<Rightarrow> (WriteError 500 ''failed to open export store'', st)
      | None \<Rightarrow> (WriteJSON 200 (ExportsValue (fst (Store_List (env_ExportFaults env w) de volumeName))), st))"

text \<open>The validation in \<open>handleVolumeExportCreate\<close>: a response on failure, else the request to run.\<close>

definition exportRequest :: "string \<Rightarrow> VolumeExportRequest \<Rightarrow> api_value response + VolumeExportRequest" where
  "exportRequest volumeName payload =
     (let exportType = TrimSpace (vr_Type payload) in
      if exportType = '''' then Inl (WriteError 400 ''type is required'')
      else
        let fileName = TrimSpace (vr_FileName payload);
            folder = TrimSpace (vr_Folder payload);
            imageRef = TrimSpace (vr_ImageRef payload);
            request = (\<lambda>f. \<lparr>vr_Type = exportType, vr_FileName = f, vr_Folder = folder, vr_ImageRef = imageRef\<rparr>)
        in if exportType = VolumeExportTypeLocalFile then
             (let fileName' = (if fileName = '''' then SanitizeExportFileName volumeName @ ''.tar.gz''
                               else filepath_Base (SanitizeExportFileName fileName))
              in if fileName' = '''' \<or> fileName' = ''.'' \<or> fileName' = ''..''
                 then Inl (WriteError 400 ''file_name is invalid'')
                 else if folder = '''' then Inl (WriteError 400 ''folder is required'')
                 else if \<not> filepath_IsAbs (filepath_Clean folder) then Inl (WriteError 400 ''folder must be an absolute path'')
                 else Inr (request fileName'))
           else if imageRef = '''' then Inl (WriteError 400 ''image_ref is required'')
           else Inr (request fileName))"

definition handleVolumeExportCreate ::
    "'w Env \<Rightarrow> string \<Rightarrow> VolumeExportRequest result \<Rightarrow> 'w daemon_state \<Rightarrow> 'w api_result option" where
  "handleVolumeExportCreate env volumeName body st =
     (case body of
        Inl err \<Rightarrow> Some (WriteError 400 (Error err), st)
      | Inr payload \<Rightarrow>
          (case exportRequest volumeName payload of
             Inl resp \<Rightarrow> Some (resp, st)
           | Inr request \<Rightarrow>
               let (ds, de, w) = st in
               case ExecuteVolumeExport env volumeName request (de, w) of
                 None \<Rightarrow> None
               | Some ((export, err), de', w') \<Rightarrow>
                   Some (case err of
                           None \<Rightarrow> (WriteJSON 200 (ExportValue (the export)), (ds, de', w'))
                         | Some e \<Rightarrow>
                             (case WriteRuntimeError e of
                                Some resp \<Rightarrow> (resp, (ds, de', w'))
                              | None \<Rightarrow> (WriteError 500 ''volume export failed'', (ds, de', w'))))))"

definition handleVolumeExportDownload :: "'w Env \<Rightarrow> string \<Rightarrow> string \<Rightarrow> 'w daemon_state \<Rightarrow> 'w api_result" where
  "handleVolumeExportDownload env volumeName exportID st =
     (let (ds, de, w) = st in
      case env_OpenExports env w of
        Some _ \<Rightarrow> (WriteError 500 ''failed to open export store'', st)
      | None \<Rightarrow>
          (case Store_Get (env_ExportFaults env w) de volumeName exportID of
             Inl _ \<Rightarrow> (WriteError 404 ''export not found'', st)
           | Inr export \<Rightarrow>
               if \<not> ex_Downloadable export \<or> ex_Status export \<noteq> JobStatusCompleted
               then (WriteError 400 ''export is not downloadable'', st)
               else (case env_FileSize env w (ArchivePath (env_ExportRoot env) volumeName exportID) of
                       None \<Rightarrow> (WriteError 404 ''export archive not found'', st)
                     | Some sz \<Rightarrow>
                         (WriteJSON 200 (Download (if ex_FileName export = [] then ''archive.tar.gz''
                                                   else ex_FileName export) sz), st))))"

section \<open>Helper lemmas\<close>

lemma ScheduleFromInput_Inr:
  assumes "ScheduleFromInput loc now v sid en inp = Inr s"
  shows "sched_ID s = sid" "sched_Volume s = v" "sched_Enabled s = en" "NormalizeSchedule s = s"
    "ValidateScheduleInput s = None"
  using assms unfolding ScheduleFromInput_def Let_def
  by (auto split: option.splits if_splits sum.splits)

lemma NormalizeSchedule_other_fields [simp, schedule_simps]:
  "NormalizeSchedule (s\<lparr>sched_ID := a\<rparr>) = (NormalizeSchedule s)\<lparr>sched_ID := a\<rparr>"
  "NormalizeSchedule (s\<lparr>sched_CreatedAt := b\<rparr>) = (NormalizeSchedule s)\<lparr>sched_CreatedAt := b\<rparr>"
  "NormalizeSchedule (s\<lparr>sched_LastRunAt := c\<rparr>) = (NormalizeSchedule s)\<lparr>sched_LastRunAt := c\<rparr>"
  "NormalizeSchedule (s\<lparr>sched_LastStatus := d\<rparr>) = (NormalizeSchedule s)\<lparr>sched_LastStatus := d\<rparr>"
  "NormalizeSchedule (s\<lparr>sched_LastError := e\<rparr>) = (NormalizeSchedule s)\<lparr>sched_LastError := e\<rparr>"
  by (simp_all add: NormalizeSchedule_def)

lemma Get_saved:
  assumes "ids_distinct ds" "ScheduleStore_Save io ds s = (None, ds')" "NormalizeSchedule s = s"
  shows "ids_distinct ds'" "ScheduleStore_Get no_faults ds' (sched_Volume s) (sched_ID s) = Inr s"
proof -
  note ok = ScheduleStore_Save_ok [OF assms(2,1)]
  show "ids_distinct ds'" using ok by blast
  show "ScheduleStore_Get no_faults ds' (sched_Volume s) (sched_ID s) = Inr s"
    using ok [of "schedule_key s"] assms(3) ScheduleStore_Save_readable(1) [OF assms(2)]
    by (simp add: ScheduleStore_Get_eq schedule_key_def)
qed

section \<open>Properties\<close>

text \<open>
  C26: A schedule that the API reports as created is in the store under the ID in the response, exactly
  as reported; it is valid and belongs to the volume of the request, and the state of the exports is
  unchanged.
\<close>

theorem created_schedule_is_stored:
  assumes "handleVolumeExportScheduleCreate env v body (ds, de, w) = (WriteJSON 200 (ScheduleValue s), (ds', de', w'))"
    and "ids_distinct ds"
  shows "ScheduleStore_Get no_faults ds' v (sched_ID s) = Inr s \<and> sched_Volume s = v
    \<and> ValidateScheduleInput s = None \<and> ids_distinct ds' \<and> de' = de"
proof -
  obtain now en inp s0 now2 now3 where f: "ScheduleFromInput (env_Local env) now v '''' en inp = Inr s0"
      and s: "s = s0\<lparr>sched_ID := ScheduleStore_NewID v now2, sched_CreatedAt := FormatRFC3339 now3\<rparr>"
      and sv: "ScheduleStore_Save (env_ScheduleFaults env w') ds s = (None, ds')" and "de' = de"
    using assms(1) unfolding handleVolumeExportScheduleCreate_def Let_def
    by (auto simp: WriteJSON_def WriteError_def split: sum.splits prod.splits option.splits)
  note f0 = ScheduleFromInput_Inr [OF f]
  have n: "NormalizeSchedule s = s" using f0 by (simp add: s)
  have "ValidateScheduleInput s = None" using f0(5) unfolding s
    by (simp add: ValidateScheduleInput_None_iff targetOK_def)
  then show ?thesis
    using Get_saved [OF assms(2) sv n] f0 \<open>de' = de\<close> by (simp add: s)
qed

lemma create_200:
  assumes "resp_status (fst (handleVolumeExportScheduleCreate env v body st)) = 200"
  obtains s ds' de' w' where
    "handleVolumeExportScheduleCreate env v body st = (WriteJSON 200 (ScheduleValue s), (ds', de', w'))"
  using assms unfolding handleVolumeExportScheduleCreate_def Let_def
  by (auto simp: WriteJSON_def WriteError_def split: sum.splits prod.splits option.splits)

theorem created_schedule_is_stored_witness:
  "\<exists>s ds' de' w'. handleVolumeExportScheduleCreate demo_env ''db'' (Inr demo_input) ([], [], 0)
      = (WriteJSON 200 (ScheduleValue s), (ds', de', w'))
    \<and> ScheduleStore_Get no_faults ds' ''db'' (sched_ID s) = Inr s"
proof -
  have "resp_status (fst (handleVolumeExportScheduleCreate demo_env ''db'' (Inr demo_input) ([], [], 0))) = 200"
    by code_simp
  then obtain s ds' de' w' where h: "handleVolumeExportScheduleCreate demo_env ''db'' (Inr demo_input) ([], [], 0)
      = (WriteJSON 200 (ScheduleValue s), (ds', de', w'))" by (rule create_200)
  have "ids_distinct []" by (simp add: ids_distinct_def)
  from created_schedule_is_stored [OF h this] h show ?thesis by blast
qed

text \<open>
  A successful update keeps the identity and the history of the schedule: ID, creation time, last
  run, last status and last error are those of the stored schedule, and the new version is stored.
\<close>

theorem updated_schedule_keeps_history:
  assumes "handleVolumeExportScheduleUpdate env v sid body (ds, de, w) = (WriteJSON 200 (ScheduleValue s), (ds', de', w'))"
    and "ids_distinct ds"
  shows "\<exists>old. schedule_at ds (volumePath v, sid) = Some old
    \<and> sched_ID s = sid \<and> sched_CreatedAt s = sched_CreatedAt old \<and> sched_LastRunAt s = sched_LastRunAt old
    \<and> sched_LastStatus s = sched_LastStatus old \<and> sched_LastError s = sched_LastError old
    \<and> ValidateScheduleInput s = None \<and> ScheduleStore_Get no_faults ds' v sid = Inr s"
proof -
  obtain old now en inp s0 where g: "ScheduleStore_Get (env_ScheduleFaults env w) ds v sid = Inr old"
      and f: "ScheduleFromInput (env_Local env) now v sid en inp = Inr s0"
      and s: "s = s0\<lparr>sched_ID := sid, sched_CreatedAt := sched_CreatedAt old, sched_LastRunAt := sched_LastRunAt old,
        sched_LastStatus := sched_LastStatus old, sched_LastError := sched_LastError old\<rparr>"
      and sv: "ScheduleStore_Save (env_ScheduleFaults env w') ds s = (None, ds')"
    using assms(1) unfolding handleVolumeExportScheduleUpdate_def Let_def
    by (auto simp: WriteJSON_def WriteError_def split: sum.splits prod.splits option.splits)
  obtain ss where l: "ScheduleStore_List (env_ScheduleFaults env w) ds v = Inr ss"
      "find (\<lambda>s. sched_ID s = sid) ss = Some old"
    using g by (auto simp: ScheduleStore_Get_def split: sum.splits option.splits)
  have old: "schedule_at ds (volumePath v, sid) = Some old"
    using ScheduleStore_List_Inr [OF l(1) assms(2), of sid] l(2) by simp
  note f0 = ScheduleFromInput_Inr [OF f]
  have n: "NormalizeSchedule s = s" using f0 by (simp add: s)
  have "ValidateScheduleInput s = None" using f0(5) unfolding s
    by (simp add: ValidateScheduleInput_None_iff targetOK_def)
  then show ?thesis using Get_saved(2) [OF assms(2) sv n] f0 old by (simp add: s)
qed

lemma update_200:
  assumes "resp_status (fst (handleVolumeExportScheduleUpdate env v sid body st)) = 200"
  obtains s ds' de' w' where
    "handleVolumeExportScheduleUpdate env v sid body st = (WriteJSON 200 (ScheduleValue s), (ds', de', w'))"
  using assms unfolding handleVolumeExportScheduleUpdate_def Let_def
  by (auto simp: WriteJSON_def WriteError_def split: sum.splits prod.splits option.splits)

theorem updated_schedule_keeps_history_witness:
  "\<exists>s ds' de' w'. handleVolumeExportScheduleUpdate demo_env ''db'' ''s1'' (Inr demo_input)
        (demo_store (stored_schedule ''db'' ''s1''), [], 0) = (WriteJSON 200 (ScheduleValue s), (ds', de', w'))
    \<and> sched_ID s = ''s1'' \<and> ScheduleStore_Get no_faults ds' ''db'' ''s1'' = Inr s"
proof -
  let ?st = "(demo_store (stored_schedule ''db'' ''s1''), [], 0)"
  have "resp_status (fst (handleVolumeExportScheduleUpdate demo_env ''db'' ''s1'' (Inr demo_input) ?st)) = 200"
    by code_simp
  then obtain s ds' de' w' where h: "handleVolumeExportScheduleUpdate demo_env ''db'' ''s1'' (Inr demo_input) ?st
      = (WriteJSON 200 (ScheduleValue s), (ds', de', w'))" by (rule update_200)
  from updated_schedule_keeps_history [OF h demo_store_distinct] h show ?thesis by blast
qed

text \<open>
  A one-off export that passes the validation has a safe target: a local file gets a name without
  separators that is neither empty nor \<open>.\<close> nor \<open>..\<close>, in an absolute folder; every other type gets a
  non-empty image reference.
\<close>

theorem exportRequest_safe_target:
  assumes "exportRequest v payload = Inr req"
  shows "vr_Type req \<noteq> '''' \<and>
    (if vr_Type req = VolumeExportTypeLocalFile
     then vr_FileName req \<notin> {'''', ''.'', ''..''} \<and> set (vr_FileName req) \<inter> {CHR ''/'', CHR '':'', CHR 0x5C} = {}
       \<and> HasPrefix (vr_Folder req) ''/''
     else vr_ImageRef req \<noteq> '''')"
proof -
  have base: "filepath_Base s = (if s = [] then ''.'' else s)" if "CHR ''/'' \<notin> set s" for s
  proof (cases "s = []")
    case False
    then have "dropWhile ((=) (CHR ''/'')) (rev s) = rev s"
      using that by (simp add: dropWhile_eq_self_iff) (metis hd_in_set rev_is_Nil_conv set_rev)
    then show ?thesis using False that by (simp add: filepath_Base_def Split_single)
  qed (simp add: filepath_Base_def)
  have clean: "CHR ''/'' \<notin> set (SanitizeExportFileName x)" for x
    using SanitizeExportFileName_clean [of x] by auto
  show ?thesis
    using assms SanitizeExportFileName_clean
    by (auto simp: exportRequest_def Let_def IsAbs_Clean base [OF clean] split: if_splits)
qed

theorem exportRequest_safe_target_witness:
  "\<exists>req. exportRequest ''db'' demo_request = Inr req \<and> HasPrefix (vr_Folder req) ''/''"
proof -
  have "\<not> isl (exportRequest ''db'' demo_request)" by code_simp
  then obtain req where r: "exportRequest ''db'' demo_request = Inr req" by (cases "exportRequest ''db'' demo_request") auto
  moreover have "vr_Type req = VolumeExportTypeLocalFile"
    using r by (auto simp: exportRequest_def demo_request_def Let_def trim_eval export_type_defs split: if_splits)
  ultimately show ?thesis using exportRequest_safe_target [OF r] by simp
qed

text \<open>
  A schedule is not held to the rules of a one-off export: a relative folder and the file name
  \<open>..\<close> are accepted, and the scheduled run asks for that file name.
\<close>

theorem schedule_accepts_unsafe_target:
  "ValidateScheduleInput (demo_schedule\<lparr>sched_Folder := ''backup'', sched_FileName := ''..''\<rparr>) = None
   \<and> ResolveScheduledExportNames loc (demo_schedule\<lparr>sched_Folder := ''backup'', sched_FileName := ''..''\<rparr>) t = (''..'', '''')"
proof
  show "ValidateScheduleInput (demo_schedule\<lparr>sched_Folder := ''backup'', sched_FileName := ''..''\<rparr>) = None" by code_simp
  show "ResolveScheduledExportNames loc (demo_schedule\<lparr>sched_Folder := ''backup'', sched_FileName := ''..''\<rparr>) t = (''..'', '''')"
    by (simp add: ResolveScheduledExportNames_def demo_schedule_def export_type_defs ExpandExportNamePattern_def
        expandNamePattern_def SanitizeExportFileName_def trim_eval)
qed

end
