(* ===== verification/Calf_Sizes.thy ===== *)
theory Calf_Sizes
  imports Complex_Main Calf_Utils
begin

text \<open>
  Human-readable sizes: \<open>ParseDockerHumanSize\<close> (\<open>internal/utils/size.go\<close>) and \<open>parseResourceSize\<close>
  (\<open>internal/runtime/prune.go\<close>).  Both go through \<open>float64\<close>: the theory models the decimal syntax of
  \<open>strconv.ParseFloat\<close>, rounding to the nearest double (ties to even), the multiplication of two
  doubles, and the conversion to \<open>int64\<close> (on amd64).  The names \<open>inf\<close> and \<open>nan\<close> and hexadecimal
  floats, which no size uses, are read as syntax errors.
\<close>

section \<open>Doubles\<close>

definition pow2 :: "int \<Rightarrow> rat" where
  "pow2 k = (if 0 \<le> k then 2 ^ nat k else 1 / 2 ^ nat (- k))"

function bit_len :: "int \<Rightarrow> int" where
  "bit_len n = (if n \<le> 0 then 0 else 1 + bit_len (n div 2))"
  by auto
termination
  by (relation "measure nat") auto

declare bit_len.simps [simp del]

text \<open>The binary exponent of a positive rational: \<open>2 ^ k \<le> x < 2 ^ (k + 1)\<close>.\<close>

definition log2_floor :: "rat \<Rightarrow> int" where
  "log2_floor x =
     (let (a, b) = quotient_of x; k = bit_len a - bit_len b
      in if pow2 k \<le> x then k else k - 1)"

definition round_even :: "rat \<Rightarrow> int" where
  "round_even x =
     (let f = \<lfloor>x\<rfloor>; d = x - of_int f in
      if d < 1 / 2 then f else if d > 1 / 2 then f + 1 else if even f then f else f + 1)"

text \<open>Rounding to the nearest double, without the upper limit of the exponent.\<close>

definition to_double :: "rat \<Rightarrow> rat" where
  "to_double x =
     (if x = 0 then 0
      else let u = pow2 (max (log2_floor \<bar>x\<bar> - 52) (- 1074)) in u * of_int (round_even (x / u)))"

definition float_mul :: "rat \<Rightarrow> rat \<Rightarrow> rat" where
  "float_mul x y = to_double (x * y)"

text \<open>\<open>int64(f)\<close>: truncation; out of range the value the amd64 instruction gives.\<close>

definition int64_of :: "rat \<Rightarrow> int" where
  "int64_of x =
     (let i = (if 0 \<le> x then \<lfloor>x\<rfloor> else \<lceil>x\<rceil>) in
      if - (2 ^ 63) \<le> i \<and> i < 2 ^ 63 then i else - (2 ^ 63))"

section \<open>strconv.ParseFloat\<close>

text \<open>The value of a digit string, as an integer.\<close>

definition digits_int :: "string \<Rightarrow> int" where
  "digits_int s = foldl (\<lambda>n c. 10 * n + of_char c - 48) 0 s"

definition scan_sign :: "string \<Rightarrow> int \<times> string" where
  "scan_sign s =
     (case s of
        c # r \<Rightarrow> if c = CHR ''-'' then (-1, r) else if c = CHR ''+'' then (1, r) else (1, s)
      | [] \<Rightarrow> (1, s))"

definition scan_exponent :: "string \<Rightarrow> int option" where
  "scan_exponent s =
     (case s of
        [] \<Rightarrow> Some 0
      | c # r \<Rightarrow>
          if c = CHR ''e'' \<or> c = CHR ''E'' then
            (let (sg, ds) = scan_sign r in
             if ds \<noteq> [] \<and> list_all is_digit ds then Some (sg * digits_int ds) else None)
          else None)"

definition parse_decimal :: "string \<Rightarrow> rat option" where
  "parse_decimal s =
     (let (sg, s1) = scan_sign s;
          ip = takeWhile is_digit s1;
          s2 = dropWhile is_digit s1;
          (fp, s3) = (case s2 of
                        c # r \<Rightarrow> if c = CHR ''.'' then (takeWhile is_digit r, dropWhile is_digit r) else ([], s2)
                      | [] \<Rightarrow> ([], []))
      in if ip = [] \<and> fp = [] then None
         else case scan_exponent s3 of
           None \<Rightarrow> None
         | Some e \<Rightarrow>
             let m = of_int (sg * digits_int (ip @ fp)); k = e - int (length fp)
             in Some (if 0 \<le> k then m * 10 ^ nat k else m / 10 ^ nat (- k)))"

definition ParseFloat :: "string \<Rightarrow> rat result" where
  "ParseFloat s =
     (case parse_decimal s of
        None \<Rightarrow> Inl (Errorf (''strconv.ParseFloat: parsing '' @ Quote s @ '': invalid syntax''))
      | Some x \<Rightarrow>
          let f = to_double x in
          if f \<noteq> 0 \<and> 1024 \<le> log2_floor \<bar>f\<bar>
          then Inl (Errorf (''strconv.ParseFloat: parsing '' @ Quote s @ '': value out of range''))
          else Inr f)"

section \<open>size.go\<close>

definition docker_units :: "(string \<times> int) list" where
  "docker_units = [(''GB'', 1000 * 1000 * 1000), (''MB'', 1000 * 1000), (''kB'', 1000), (''KB'', 1000), (''B'', 1)]"

fun docker_unit_loop :: "string \<Rightarrow> (string \<times> int) list \<Rightarrow> int result" where
  "docker_unit_loop value [] = Inl (Errorf (''unknown size format '' @ Quote value))"
| "docker_unit_loop value ((sfx, mul) # units) =
     (if HasSuffix value sfx then
        (case ParseFloat (TrimSpace (TrimSuffix value sfx)) of
           Inl err \<Rightarrow> Inl (Wrap (''parse size '' @ Quote value) err)
         | Inr parsed \<Rightarrow> Inr (int64_of (float_mul parsed (to_double (of_int mul)))))
      else docker_unit_loop value units)"

definition ParseDockerHumanSize :: "string \<Rightarrow> int result" where
  "ParseDockerHumanSize value0 =
     (let value = TrimSpace value0 in
      if value = '''' \<or> value = ''0'' \<or> value = ''0B'' then Inr 0 else docker_unit_loop value docker_units)"

section \<open>parseResourceSize (prune.go)\<close>

definition resource_units :: "(string \<times> int) list" where
  "resource_units =
     [(''GiB'', 1024 * 1024 * 1024), (''MiB'', 1024 * 1024), (''KiB'', 1024), (''GB'', 1000 * 1000 * 1000),
      (''MB'', 1000 * 1000), (''kB'', 1000), (''KB'', 1000), (''G'', 1024 * 1024 * 1024), (''M'', 1024 * 1024),
      (''K'', 1024), (''B'', 1)]"

fun resource_unit_loop :: "string \<Rightarrow> (string \<times> int) list \<Rightarrow> int" where
  "resource_unit_loop packed [] = 0"
| "resource_unit_loop packed ((sfx, mul) # units) =
     (if HasSuffix packed sfx then
        (case ParseFloat (TrimSuffix packed sfx) of
           Inl _ \<Rightarrow> 0
         | Inr parsed \<Rightarrow> int64_of (float_mul parsed (of_int mul)))
      else resource_unit_loop packed units)"

definition parseResourceSize :: "string \<Rightarrow> int" where
  "parseResourceSize value0 =
     (let value = TrimSpace value0 in
      if value = '''' then 0
      else case ParseDockerHumanSize value of
        Inr bytes \<Rightarrow> bytes
      | Inl _ \<Rightarrow> resource_unit_loop (filter (\<lambda>c. c \<noteq> CHR '' '') value) resource_units)"

section \<open>Exactness\<close>

lemma bit_len_bound: "n < 2 ^ k \<Longrightarrow> bit_len n \<le> int k"
proof (induction k arbitrary: n)
  case 0
  then show ?case by (simp add: bit_len.simps [of n])
next
  case (Suc k)
  then have "n div 2 < 2 ^ k" by simp
  with Suc.IH [of "n div 2"] show ?case by (simp add: bit_len.simps [of n])
qed

lemma round_even_int [simp]: "round_even (of_int i) = i"
  by (simp add: round_even_def Let_def)

lemma to_double_int: 
  assumes "0 \<le> n" "n < 2 ^ 53"
  shows "to_double (of_int n) = of_int n"
proof (cases "n = 0")
  case False
  have one: "bit_len 1 = 1" by (simp add: bit_len.simps [of 1] bit_len.simps [of 0])
  have "log2_floor (of_int n) \<le> 52"
    using bit_len_bound [of n 53] assms one by (simp add: log2_floor_def Let_def quotient_of_int)
  moreover have "pow2 l = 1 / 2 ^ nat (- l)" if "l \<le> 0" for l
    using that by (cases "l = 0") (auto simp: pow2_def)
  ultimately obtain j where j: "pow2 (max (log2_floor (of_int n) - 52) (- 1074)) = 1 / 2 ^ j"
    by (metis diff_le_0_iff_le max.boundedI neg_le_0_iff_le zero_le_numeral)
  have "(of_int n :: rat) / (1 / 2 ^ j) = of_int (n * 2 ^ j)" by simp
  then have "round_even (of_int n / (1 / 2 ^ j)) = n * 2 ^ j" by (simp only: round_even_int)
  then show ?thesis using False assms j by (simp add: to_double_def Let_def)
qed (simp add: to_double_def)

lemma digits_int_snoc [simp]: "digits_int (s @ [c]) = 10 * digits_int s + of_char c - 48"
  by (simp add: digits_int_def)

lemma digits_int_show_nat [simp]: "digits_int (show_nat n) = int n"
proof (induction n rule: show_nat.induct)
  case (1 n)
  have "(of_char (digit d) :: int) = 48 + int d" if "d < 10" for d
    using of_char_digit [OF that] by (metis of_nat_add of_nat_numeral of_nat_of_char)
  moreover have "10 * int (n div 10) + int (n mod 10) = int n" by presburger
  ultimately show ?case
    using 1 by (cases "n < 10") (simp_all add: show_nat.simps [of n] digits_int_def)
qed

lemma show_nat_ne [simp]: "show_nat n \<noteq> []"
  by (simp add: show_nat.simps [of n])

lemma digits_scan: "list_all is_digit s \<Longrightarrow> s \<noteq> [] \<Longrightarrow> scan_sign s = (1, s) \<and> takeWhile is_digit s = s \<and> dropWhile is_digit s = []"
  by (cases s) (auto simp: scan_sign_def is_digit_def list_all_iff takeWhile_eq_all_conv)

lemma ParseFloat_show_nat:
  assumes "n < 2 ^ 53"
  shows "ParseFloat (show_nat n) = Inr (of_nat n)"
proof -
  have "list_all is_digit (show_nat n)" using show_nat_digits by (auto simp: list_all_iff)
  note d = digits_scan [OF this show_nat_ne]
  have "parse_decimal (show_nat n) = Some (of_int (int n))"
    by (simp add: parse_decimal_def d scan_exponent_def Let_def)
  moreover have "int n < 2 ^ 53" using assms by (metis of_nat_less_iff of_nat_numeral of_nat_power)
  moreover have "log2_floor (of_int (int n)) \<le> 52"
    using bit_len_bound [of "int n" 53] calculation(2)
    by (simp add: log2_floor_def Let_def quotient_of_int bit_len.simps [of 1] bit_len.simps [of 0] del: of_int_of_nat_eq)
  ultimately show ?thesis using to_double_int [of "int n"] by (simp add: ParseFloat_def Let_def)
qed

lemma TrimSpace_visible_id:
  assumes "\<forall>c \<in> set s. of_char c < (128::nat) \<and> \<not> space1 c"
  shows "TrimSpace s = s"
proof (cases s rule: rev_cases)
  case (snoc t z)
  show ?thesis
  proof (cases t)
    case Nil
    then show ?thesis using snoc assms by (simp add: trim_eval)
  next
    case (Cons c r)
    have "suffix (c # r @ [z]) (TrimSpace ([] @ c # r @ [z]))"
      using assms by (intro TrimSpace_keeps_tail) (auto simp: snoc Cons)
    moreover have "sublist (TrimSpace s) s" by (rule TrimSpace_sublist)
    ultimately show ?thesis
      by (metis Cons append_Cons append_Nil snoc sublist_order.order.antisym suffix_imp_sublist)
  qed
qed simp

section \<open>Properties\<close>

text \<open>
  A size that Docker prints as a whole number of bytes, kilobytes, megabytes or gigabytes is parsed
  to exactly that many bytes, as long as it is below \<open>2 ^ 53\<close> bytes.
\<close>

theorem ParseDockerHumanSize_whole:
  assumes "(u, m) \<in> set docker_units" "int n * m < 2 ^ 53"
  shows "ParseDockerHumanSize (show_nat n @ u) = Inr (int n * m)"
proof -
  have dig: "is_digit c" if "c \<in> set (show_nat n)" for c using show_nat_digits that by blast
  have m: "1 \<le> m" "m < 2 ^ 53" using assms(1) by (auto simp: docker_units_def)
  have "int n \<le> int n * m" using m(1) mult_left_mono [of 1 m "int n"] by simp
  then have n: "int n < 2 ^ 53" using assms(2) by linarith
  then have pf: "ParseFloat (show_nat n) = Inr (of_int (int n))"
    using ParseFloat_show_nat [of n] by (metis of_int_of_nat_eq of_nat_less_iff of_nat_numeral of_nat_power)
  have mul: "float_mul (of_int (int n)) (to_double (of_int m)) = of_int (int n * m)"
    using to_double_int [of "int n * m"] to_double_int [of m] assms(2) m by (simp add: float_mul_def)
  have i64: "int64_of (of_int (int n * m)) = int n * m"
  proof -
    have "0 \<le> int n * m" using m by simp
    moreover have "int n * m < 2 ^ 63" using assms(2) by simp
    ultimately show ?thesis by (simp add: int64_of_def Let_def del: of_int_mult)
  qed
  have vis: "\<forall>c \<in> set (show_nat n @ u). of_char c < (128::nat) \<and> \<not> space1 c"
    using dig assms(1) by (force simp: docker_units_def space1_def is_digit_def less_eq_char_def)
  have tn: "TrimSpace (show_nat n) = show_nat n" using vis by (intro TrimSpace_visible_id) auto
  obtain t z where tz: "show_nat n = t @ [z]" by (metis append_butlast_last_id show_nat_ne)
  have z: "z \<noteq> CHR ''G''" "z \<noteq> CHR ''M''" "z \<noteq> CHR ''k''" "z \<noteq> CHR ''K''"
    using dig [of z] by (auto simp: tz is_digit_def)
  have "docker_unit_loop (show_nat n @ u) docker_units = Inr (int n * m)"
    using assms(1) z pf mul i64 tn
    by (auto simp: docker_units_def HasSuffix_def TrimSuffix_def tz)
  moreover have "int n * m = 0" if "show_nat n @ u \<in> {[], ''0'', ''0B''}"
  proof -
    have "char_of (48 :: nat) = CHR ''0''" by code_simp
    then have "show_nat n = show_nat 0"
      using that assms(1) by (auto simp: docker_units_def show_nat.simps [of 0] digit_def append_eq_Cons_conv)
    then show ?thesis by simp
  qed
  ultimately show ?thesis
    using TrimSpace_visible_id [OF vis] by (auto simp: ParseDockerHumanSize_def Let_def)
qed

theorem ParseDockerHumanSize_whole_witness: "ParseDockerHumanSize (show_nat 12 @ ''MB'') = Inr (int 12 * (1000 * 1000))"
  by (rule ParseDockerHumanSize_whole) (simp_all add: docker_units_def)

text \<open>
  The sizes calf prints are not read back: \<open>FormatBytes\<close> counts in powers of 1024 and labels them
  with decimal units, which the parser reads as powers of 1000; and from a terabyte on nothing is
  counted, because no table has the unit \<open>TB\<close> and the final \<open>B\<close> makes the parse fail and return 0.
\<close>

theorem printed_sizes_not_read_back:
  "map_option parseResourceSize (FormatBytes (1024 ^ 2)) = Some 1000000
   \<and> map_option parseResourceSize (FormatBytes (1024 ^ 4)) = Some 0 \<and> parseResourceSize ''1.2TB'' = 0"
  by (intro conjI; code_simp)

end
