(* ===== verification/Calf_Prune.thy ===== *)
theory Calf_Prune
  imports Calf_Sizes Calf_Runtime
begin

text \<open>
  Clean-up of unused resources (\<open>internal/runtime/prune.go\<close>, \<open>system_df.go\<close>): which containers, images,
  volumes and networks count as unused, the preview and the pruning itself.  The command runner and
  the functions that list resources through it are arguments.  \<open>None\<close> is the panic of \<open>FormatBytes\<close>;
  totals are integers (sums of sizes below \<open>2 ^ 63\<close>).
\<close>

named_theorems prune_simps "facts about unused resources"

section \<open>What is in use\<close>

definition containerKeptAlive :: "string \<Rightarrow> bool" where
  "containerKeptAlive state =
     (ToLower (TrimSpace state) \<in> {''running'', ''restarting'', ''paused'', ''removing''})"

definition isDefaultNetwork :: "string \<Rightarrow> bool" where
  "isDefaultNetwork name = (ToLower (TrimSpace name) \<in> {''bridge'', ''host'', ''none''})"

definition shortImageID :: "string \<Rightarrow> string" where
  "shortImageID id0 = (let i = TrimPrefix (TrimSpace id0) ''sha256:'' in if length i > 12 then take 12 i else i)"

definition imageReference :: "Image \<Rightarrow> string" where
  "imageReference img =
     (let repo = TrimSpace (im_Repository img); tag = TrimSpace (im_Tag img) in
      if repo = '''' \<or> repo = ''<none>'' then ''''
      else if tag = '''' \<or> tag = ''<none>'' then repo
      else repo @ '':'' @ tag)"

definition imageMatchesRef :: "Image \<Rightarrow> string \<Rightarrow> bool" where
  "imageMatchesRef img ref0 =
     (let ref = TrimSpace ref0 in
      if ref = '''' then False
      else if im_ID img = ref \<or> shortImageID (im_ID img) = shortImageID ref then True
      else if imageReference img = ref then True
      else if im_Repository img \<noteq> '''' \<and> (im_Repository img = ref \<or> im_Repository img @ '':latest'' = ref) then True
      else HasPrefix (im_ID img) ref \<or> HasPrefix ref (shortImageID (im_ID img)))"

text \<open>The keys of the map \<open>used\<close>, in the order they are added.\<close>

definition container_keys :: "Image list \<Rightarrow> Container \<Rightarrow> string list" where
  "container_keys images container =
     (let ref = TrimSpace (ct_Image container) in
      if ref = '''' then []
      else ref # shortImageID ref # concat (map (\<lambda>img.
        if imageMatchesRef img ref
        then (if im_ID img \<noteq> '''' then [im_ID img, shortImageID (im_ID img)] else []) @ [imageReference img]
        else []) images))"

definition usedImageKeys :: "Container list \<Rightarrow> Image list \<Rightarrow> string list" where
  "usedImageKeys containers images = concat (map (container_keys images) containers)"

definition imageIsUsed :: "Image \<Rightarrow> string list \<Rightarrow> bool" where
  "imageIsUsed img used =
     list_ex (\<lambda>candidate. let c = TrimSpace candidate in c \<noteq> '''' \<and> c \<in> set used)
       ([im_ID img, shortImageID (im_ID img), imageReference img]
        @ (if im_Repository img \<noteq> '''' \<and> im_Repository img \<noteq> ''<none>''
           then im_Repository img # (if im_Tag img \<noteq> '''' \<and> im_Tag img \<noteq> ''<none>''
                                       then [im_Repository img @ '':'' @ im_Tag img] else [])
           else []))"

section \<open>Candidates\<close>

definition stoppedContainerPruneItems :: "Container list \<Rightarrow> PruneItem list" where
  "stoppedContainerPruneItems containers =
     map (\<lambda>c. \<lparr>pi_ID = ct_ID c,
                pi_Name = (if TrimSpace (ct_Name c) = '''' then ct_ID c else TrimSpace (ct_Name c)),
                pi_Size = '''', pi_SizeBytes = 0\<rparr>)
       (filter (\<lambda>c. \<not> containerKeptAlive (ct_State c)) containers)"

definition imagePruneItem :: "Image \<Rightarrow> PruneItem" where
  "imagePruneItem img =
     (let name = imageReference img in
      \<lparr>pi_ID = im_ID img, pi_Name = (if name = '''' \<or> name = '':'' then im_ID img else name),
       pi_Size = im_Size img, pi_SizeBytes = parseResourceSize (im_Size img)\<rparr>)"

fun unusedImage_loop :: "string list \<Rightarrow> string list \<Rightarrow> Image list \<Rightarrow> PruneItem list" where
  "unusedImage_loop used seen [] = []"
| "unusedImage_loop used seen (img # images) =
     (let key = (if im_ID img = '''' then imageReference img else im_ID img) in
      if key \<in> set seen then unusedImage_loop used seen images
      else if imageIsUsed img used then unusedImage_loop used seen images
      else imagePruneItem img # unusedImage_loop used (key # seen) images)"

definition unusedImagePruneItems :: "Container list \<Rightarrow> Image list \<Rightarrow> PruneItem list" where
  "unusedImagePruneItems containers images = unusedImage_loop (usedImageKeys containers images) [] images"

definition unusedVolumePruneItems :: "Volume list \<Rightarrow> PruneItem list" where
  "unusedVolumePruneItems volumes =
     map (\<lambda>v. \<lparr>pi_ID = vo_Name v, pi_Name = vo_Name v, pi_Size = vo_Size v,
                pi_SizeBytes = parseResourceSize (vo_Size v)\<rparr>)
       (filter (\<lambda>v. \<not> vo_InUse v) volumes)"

definition unusedNetworkPruneItems :: "Network list \<Rightarrow> PruneItem list" where
  "unusedNetworkPruneItems networks =
     map (\<lambda>n. \<lparr>pi_ID = nw_ID n, pi_Name = nw_Name n, pi_Size = '''', pi_SizeBytes = 0\<rparr>)
       (filter (\<lambda>n. \<not> isDefaultNetwork (nw_Name n)) networks)"

definition categoryFromItems :: "PruneItem list \<Rightarrow> PruneCategoryPreview option" where
  "categoryFromItems items =
     (let total = sum_list (map pi_SizeBytes items) in
      map_option (\<lambda>s. \<lparr>pc_Items = items, pc_ReclaimableBytes = total, pc_ReclaimableSize = s\<rparr>) (FormatBytes total))"

section \<open>system df (system\_df.go)\<close>

definition isSystemDfType :: "string \<Rightarrow> bool" where
  "isSystemDfType typeName = (typeName \<in> {''Images'', ''Containers'', ''Local Volumes'', ''Build Cache''})"

text \<open>\<open>strings.Cut(s, "(")\<close>: what stands before, trimmed when the separator occurs.\<close>

definition before_paren :: "string \<Rightarrow> string" where
  "before_paren s = (if CHR ''('' \<in> set s then TrimSpace (takeWhile (\<lambda>c. c \<noteq> CHR ''('') s) else s)"

definition size_or_resource :: "string \<Rightarrow> int" where
  "size_or_resource label =
     (let n = (case ParseDockerHumanSize label of Inl _ \<Rightarrow> 0 | Inr n \<Rightarrow> n) in if n = 0 then parseResourceSize label else n)"

definition df_row :: "string \<Rightarrow> DiskUsageRow option" where
  "df_row line =
     (case Split (TrimSpace line) (CHR 0x09) of
        t # sz # rc # _ \<Rightarrow>
          (let typeName = TrimSpace t; sizeLabel = TrimSpace sz; reclaimLabel = before_paren (TrimSpace rc) in
           if \<not> isSystemDfType typeName then None
           else Some \<lparr>du_Type = typeName, du_Size = sizeLabel, du_SizeBytes = size_or_resource sizeLabel,
                      du_Reclaimable = reclaimLabel, du_ReclaimableBytes = size_or_resource reclaimLabel\<rparr>)
      | _ \<Rightarrow> None)"

definition parseSystemDf :: "string \<Rightarrow> SystemDiskUsage" where
  "parseSystemDf output = List.map_filter df_row (Split output (CHR 0x0A))"

type_synonym 'w runner = "string list \<Rightarrow> 'w \<Rightarrow> string result \<times> 'w"

definition systemDiskUsage :: "'w runner \<Rightarrow> 'w \<Rightarrow> SystemDiskUsage result \<times> 'w" where
  "systemDiskUsage run w =
     (case run [''nerdctl'', ''system'', ''df'', ''--format'', ''{{.Type}}'' @ [CHR 0x09] @ ''{{.Size}}'' @ [CHR 0x09] @ ''{{.Reclaimable}}''] w of
        (Inl err, w1) \<Rightarrow> (Inl (Wrap ''system df'' err), w1)
      | (Inr output, w1) \<Rightarrow> (Inr (parseSystemDf output), w1))"

text \<open>The loop of \<open>systemDfReclaimable\<close>: the first line of two fields for the type.\<close>

fun reclaimable_loop :: "string \<Rightarrow> string list \<Rightarrow> (int \<times> string) option" where
  "reclaimable_loop typeName [] = None"
| "reclaimable_loop typeName (line # lines) =
     (case Split (TrimSpace line) (CHR 0x09) of
        [t, rc] \<Rightarrow>
          (if \<not> EqualFold t typeName then reclaimable_loop typeName lines
           else let raw = before_paren (TrimSpace rc) in
             Some (case ParseDockerHumanSize raw of Inr n \<Rightarrow> n | Inl _ \<Rightarrow> parseResourceSize raw, raw))
      | _ \<Rightarrow> reclaimable_loop typeName lines)"

definition systemDfReclaimable :: "'w runner \<Rightarrow> string \<Rightarrow> 'w \<Rightarrow> (int \<times> string) option \<times> 'w" where
  "systemDfReclaimable run typeName w =
     (case run [''nerdctl'', ''system'', ''df'', ''--format'', ''{{.Type}}'' @ [CHR 0x09] @ ''{{.Reclaimable}}''] w of
        (Inl _, w1) \<Rightarrow> (None, w1)
      | (Inr output, w1) \<Rightarrow> (reclaimable_loop typeName (Split output (CHR 0x0A)), w1))"

definition emptyCategory :: PruneCategoryPreview where
  "emptyCategory = \<lparr>pc_Items = [], pc_ReclaimableBytes = 0, pc_ReclaimableSize = ''0 B''\<rparr>"

definition cacheCategory :: "int \<Rightarrow> string \<Rightarrow> PruneCategoryPreview option" where
  "cacheCategory reclaimable sizeLabel =
     (if reclaimable \<le> 0 then Some emptyCategory
      else map_option (\<lambda>s.
        \<lparr>pc_Items = [\<lparr>pi_ID = ''build-cache'', pi_Name = ''Build cache'',
                     pi_Size = (if sizeLabel = '''' then s else sizeLabel), pi_SizeBytes = reclaimable\<rparr>],
         pc_ReclaimableBytes = reclaimable, pc_ReclaimableSize = s\<rparr>) (FormatBytes reclaimable))"

definition buildCachePruneCategory :: "'w runner \<Rightarrow> 'w \<Rightarrow> PruneCategoryPreview option \<times> 'w" where
  "buildCachePruneCategory run w =
     (case systemDfReclaimable run ''Build Cache'' w of
        (None, w1) \<Rightarrow> (Some emptyCategory, w1)
      | (Some (reclaimable, sizeLabel), w1) \<Rightarrow> (cacheCategory reclaimable sizeLabel, w1))"

section \<open>Preview and prune\<close>

text \<open>The functions of \<open>nerdctl.go\<close>, \<open>network.go\<close> and \<open>volume_detail.go\<close> that list resources.\<close>

record 'w Listers =
  ls_Containers :: "'w \<Rightarrow> Container list result \<times> 'w"
  ls_Images :: "'w \<Rightarrow> Image list result \<times> 'w"
  ls_Volumes :: "'w \<Rightarrow> Volume list result \<times> 'w"
  ls_EnrichInUse :: "Volume list \<Rightarrow> 'w \<Rightarrow> Volume list result \<times> 'w"
  ls_Networks :: "'w \<Rightarrow> Network list result \<times> 'w"

definition previewOf ::
    "Container list \<Rightarrow> Image list \<Rightarrow> Volume list \<Rightarrow> Network list \<Rightarrow> PruneCategoryPreview option \<Rightarrow> SystemDiskUsage
     \<Rightarrow> PrunePreview option" where
  "previewOf containers images volumes networks cache usage =
     (case (categoryFromItems (stoppedContainerPruneItems containers),
            categoryFromItems (unusedImagePruneItems containers images),
            categoryFromItems (unusedVolumePruneItems volumes),
            categoryFromItems (unusedNetworkPruneItems networks), cache) of
        (Some cc, Some ci, Some cv, Some cn, Some cb) \<Rightarrow>
          (let total = pc_ReclaimableBytes cc + pc_ReclaimableBytes ci + pc_ReclaimableBytes cv
                       + pc_ReclaimableBytes cn + pc_ReclaimableBytes cb
           in map_option (\<lambda>s. \<lparr>pp_Containers = cc, pp_Images = ci, pp_Volumes = cv, pp_Networks = cn,
                pp_BuildCache = cb, pp_DiskUsage = usage, pp_TotalReclaimableBytes = total,
                pp_TotalReclaimableSize = s\<rparr>) (FormatBytes total))
      | _ \<Rightarrow> None)"

definition prunePreview :: "'w Listers \<Rightarrow> 'w runner \<Rightarrow> 'w \<Rightarrow> (PrunePreview result \<times> 'w) option" where
  "prunePreview L run w =
     (case ls_Containers L w of
        (Inl err, w1) \<Rightarrow> Some (Inl (Wrap ''list containers for prune preview'' err), w1)
      | (Inr containers, w1) \<Rightarrow>
     (case ls_Images L w1 of
        (Inl err, w2) \<Rightarrow> Some (Inl (Wrap ''list images for prune preview'' err), w2)
      | (Inr images, w2) \<Rightarrow>
     (case ls_Volumes L w2 of
        (Inl err, w3) \<Rightarrow> Some (Inl (Wrap ''list volumes for prune preview'' err), w3)
      | (Inr volumes0, w3) \<Rightarrow>
     (case ls_EnrichInUse L volumes0 w3 of
        (Inl err, w4) \<Rightarrow> Some (Inl (Wrap ''enrich volumes for prune preview'' err), w4)
      | (Inr volumes, w4) \<Rightarrow>
     (case ls_Networks L w4 of
        (Inl err, w5) \<Rightarrow> Some (Inl (Wrap ''list networks for prune preview'' err), w5)
      | (Inr networks, w5) \<Rightarrow>
          let (cache, w6) = buildCachePruneCategory run w5;
              (usage, w7) = systemDiskUsage run w6
          in map_option (\<lambda>p. (Inr p, w7))
               (previewOf containers images volumes networks cache
                  (case usage of Inl _ \<Rightarrow> [] | Inr u \<Rightarrow> u)))))))"

definition pruneBuildCache :: "'w runner \<Rightarrow> 'w \<Rightarrow> go_error option \<times> 'w" where
  "pruneBuildCache run w =
     (case run [''nerdctl'', ''builder'', ''prune'', ''-a'', ''-f''] w of
        (Inr _, w1) \<Rightarrow> (None, w1)
      | (Inl err, w1) \<Rightarrow>
          (case run [''nerdctl'', ''buildx'', ''prune'', ''-a'', ''-f''] w1 of
             (Inr _, w2) \<Rightarrow> (None, w2)
           | (Inl _, w2) \<Rightarrow> (Some (Wrap ''prune build cache'' err), w2)))"

text \<open>One \<open>if opts.X\<close> block of \<open>prune\<close>: run the command, mark the category and add its bytes.\<close>

definition prune_step ::
    "bool \<Rightarrow> ('w \<Rightarrow> go_error option \<times> 'w) \<Rightarrow> (PruneResult \<Rightarrow> PruneResult) \<Rightarrow> int
     \<Rightarrow> PruneResult result \<times> 'w \<Rightarrow> PruneResult result \<times> 'w" where
  "prune_step selected command mark bytes st =
     (case st of
        (Inl err, w) \<Rightarrow> (Inl err, w)
      | (Inr result, w) \<Rightarrow>
          if \<not> selected then (Inr result, w)
          else (case command w of
                  (Some err, w1) \<Rightarrow> (Inl err, w1)
                | (None, w1) \<Rightarrow> (Inr ((mark result)\<lparr>pr_ReclaimedBytes := pr_ReclaimedBytes result + bytes\<rparr>), w1)))"

definition run_prune :: "'w runner \<Rightarrow> string \<Rightarrow> string list \<Rightarrow> 'w \<Rightarrow> go_error option \<times> 'w" where
  "run_prune run what args w =
     (case run (''nerdctl'' # args) w of
        (Inl err, w1) \<Rightarrow> (Some (Wrap (''prune '' @ what) err), w1)
      | (Inr _, w1) \<Rightarrow> (None, w1))"

definition emptyPruneResult :: PruneResult where
  "emptyPruneResult = \<lparr>pr_Containers = False, pr_Images = False, pr_Volumes = False, pr_Networks = False,
     pr_BuildCache = False, pr_ReclaimedBytes = 0, pr_ReclaimedSize = ''''\<rparr>"

definition noCategory :: "PruneOptions \<Rightarrow> bool" where
  "noCategory opts \<longleftrightarrow> \<not> po_Containers opts \<and> \<not> po_Images opts \<and> \<not> po_Volumes opts \<and> \<not> po_Networks opts \<and> \<not> po_BuildCache opts"

definition prune :: "'w Listers \<Rightarrow> 'w runner \<Rightarrow> PruneOptions \<Rightarrow> 'w \<Rightarrow> (PruneResult result \<times> 'w) option" where
  "prune L run opts w =
     (if noCategory opts then Some (Inl (Sentinel ErrPruneCategoryRequired), w)
      else case prunePreview L run w of
        None \<Rightarrow> None
      | Some (Inl err, w1) \<Rightarrow> Some (Inl err, w1)
      | Some (Inr preview, w1) \<Rightarrow>
          let s1 = prune_step (po_Containers opts) (run_prune run ''containers'' [''container'', ''prune'', ''-f''])
                     (pr_Containers_update (\<lambda>_. True)) (pc_ReclaimableBytes (pp_Containers preview))
                     (Inr emptyPruneResult, w1);
              s2 = prune_step (po_Networks opts) (run_prune run ''networks'' [''network'', ''prune'', ''-f''])
                     (pr_Networks_update (\<lambda>_. True)) (pc_ReclaimableBytes (pp_Networks preview)) s1;
              s3 = prune_step (po_Images opts) (run_prune run ''images'' [''image'', ''prune'', ''-a'', ''-f''])
                     (pr_Images_update (\<lambda>_. True)) (pc_ReclaimableBytes (pp_Images preview)) s2;
              s4 = prune_step (po_Volumes opts) (run_prune run ''volumes'' [''volume'', ''prune'', ''-f''])
                     (pr_Volumes_update (\<lambda>_. True)) (pc_ReclaimableBytes (pp_Volumes preview)) s3;
              s5 = prune_step (po_BuildCache opts) (pruneBuildCache run)
                     (pr_BuildCache_update (\<lambda>_. True)) (pc_ReclaimableBytes (pp_BuildCache preview)) s4
          in (case s5 of
                (Inl err, w2) \<Rightarrow> Some (Inl err, w2)
              | (Inr result, w2) \<Rightarrow>
                  map_option (\<lambda>s. (Inr (result\<lparr>pr_ReclaimedSize := s\<rparr>), w2)) (FormatBytes (pr_ReclaimedBytes result))))"

section \<open>Images in use are kept\<close>

lemma used_keys_of_match:
  assumes "c \<in> set containers" "TrimSpace (ct_Image c) \<noteq> []" "img \<in> set images"
    and "imageMatchesRef img (TrimSpace (ct_Image c))" "im_ID img \<noteq> []"
  shows "im_ID img \<in> set (usedImageKeys containers images)"
proof -
  have "im_ID img \<in> set (container_keys images c)"
    using assms(2-5) by (force simp: container_keys_def Let_def)
  then show ?thesis using assms(1) by (auto simp: usedImageKeys_def)
qed

lemma matching_image_used:
  assumes "c \<in> set containers" "TrimSpace (ct_Image c) \<noteq> []" "img \<in> set images"
    and "imageMatchesRef img (TrimSpace (ct_Image c))" "im_ID img \<noteq> []" "TrimSpace (im_ID img) = im_ID img"
  shows "imageIsUsed img (usedImageKeys containers images)"
  using used_keys_of_match [OF assms(1-5)] assms(5,6) by (simp add: imageIsUsed_def Let_def)

lemma unusedImage_loop_subset:
  "p \<in> set (unusedImage_loop used seen images) \<Longrightarrow> \<exists>img \<in> set images. \<not> imageIsUsed img used \<and> p = imagePruneItem img"
  by (induction used seen images rule: unusedImage_loop.induct) (auto simp: Let_def split: if_splits)

section \<open>Properties\<close>

lemma used_image_not_offered:
  assumes "c \<in> set containers" "TrimSpace (ct_Image c) \<noteq> ''''" "img \<in> set images"
    and "imageMatchesRef img (TrimSpace (ct_Image c))" "im_ID img \<noteq> ''''" "TrimSpace (im_ID img) = im_ID img"
  shows "im_ID img \<notin> pi_ID ` set (unusedImagePruneItems containers images)"
proof
  assume "im_ID img \<in> pi_ID ` set (unusedImagePruneItems containers images)"
  then obtain other where "\<not> imageIsUsed other (usedImageKeys containers images)" "im_ID other = im_ID img"
    using unusedImage_loop_subset [of _ "usedImageKeys containers images" "[]" images]
    by (fastforce simp: unusedImagePruneItems_def imagePruneItem_def Let_def)
  then show False
    using used_keys_of_match [OF assms(1-5)] assms(5,6) by (simp add: imageIsUsed_def Let_def)
qed

lemma unusedImage_loop_distinct:
  "distinct (filter (\<lambda>i. i \<noteq> '''') (map pi_ID (unusedImage_loop used seen images)))
    \<and> set (filter (\<lambda>i. i \<noteq> '''') (map pi_ID (unusedImage_loop used seen images))) \<inter> set seen = {}"
proof (induction used seen images rule: unusedImage_loop.induct)
  case (2 used seen img images)
  have i: "pi_ID (imagePruneItem img) = im_ID img" by (simp add: imagePruneItem_def Let_def)
  show ?case
  proof (cases "im_ID img = ''''")
    case True
    then show ?thesis using 2 i by (auto simp: Let_def)
  next
    case False
    then show ?thesis using 2 i by (auto simp: Let_def)
  qed
qed simp

text \<open>What names an image, spelled out.\<close>

definition names_image :: "string \<Rightarrow> Image \<Rightarrow> bool" where
  "names_image ref img \<longleftrightarrow>
     ref = im_ID img \<or> HasPrefix (im_ID img) ref
     \<or> im_Repository img \<noteq> '''' \<and> (ref = im_Repository img \<or> ref = im_Repository img @ '':latest'')
     \<or> TrimSpace (im_Repository img) \<notin> {'''', ''<none>''} \<and> TrimSpace (im_Tag img) \<notin> {'''', ''<none>''}
       \<and> ref = TrimSpace (im_Repository img) @ '':'' @ TrimSpace (im_Tag img)"

lemma names_image_matches:
  assumes "names_image (TrimSpace ref) img" "TrimSpace ref \<noteq> ''''"
  shows "imageMatchesRef img (TrimSpace ref)"
  using assms by (auto simp: names_image_def imageMatchesRef_def imageReference_def Let_def)

lemma category_items:
  "categoryFromItems items = Some c \<Longrightarrow> pc_Items c = items \<and> pc_ReclaimableBytes c = sum_list (map pi_SizeBytes items)"
  by (auto simp: categoryFromItems_def Let_def)

lemma preview_parts:
  assumes "previewOf containers images volumes networks cache usage = Some p"
  shows "pc_Items (pp_Containers p) = stoppedContainerPruneItems containers
    \<and> pc_Items (pp_Images p) = unusedImagePruneItems containers images
    \<and> pc_Items (pp_Volumes p) = unusedVolumePruneItems volumes
    \<and> pc_Items (pp_Networks p) = unusedNetworkPruneItems networks
    \<and> (\<forall>c \<in> {pp_Containers p, pp_Images p, pp_Volumes p, pp_Networks p}. pc_ReclaimableBytes c = sum_list (map pi_SizeBytes (pc_Items c)))
    \<and> pp_TotalReclaimableBytes p = pc_ReclaimableBytes (pp_Containers p) + pc_ReclaimableBytes (pp_Images p)
        + pc_ReclaimableBytes (pp_Volumes p) + pc_ReclaimableBytes (pp_Networks p) + pc_ReclaimableBytes (pp_BuildCache p)"
  using assms by (auto simp: previewOf_def Let_def dest!: category_items split: option.splits)


definition demo_container :: Container where
  "demo_container = \<lparr>ct_ID = ''abc123'', ct_Name = ''hello'', ct_Image = ''hello-world'', ct_State = ''running'',
     ct_Status = ''Up'', ct_Ports = [], ct_Created = [], ct_ComposeProject = [], ct_ComposeService = []\<rparr>"

definition demo_image :: Image where
  "demo_image = \<lparr>im_ID = ''def456'', im_Repository = ''hello-world'', im_Tag = ''latest'', im_Size = ''10MB'', im_Created = []\<rparr>"

definition demo_listers :: "Container list \<Rightarrow> unit Listers" where
  "demo_listers cs = \<lparr>ls_Containers = Pair (Inr cs), ls_Images = Pair (Inr [demo_image]), ls_Volumes = Pair (Inr []),
     ls_EnrichInUse = (\<lambda>vs. Pair (Inr vs)), ls_Networks = Pair (Inr [])\<rparr>"


text \<open>A runner that notes its commands and whether they succeeded.\<close>

definition noted_run :: "'w runner \<Rightarrow> ('w \<times> (string list \<times> bool) list) runner" where
  "noted_run run args s = (case run args (fst s) of (r, w) \<Rightarrow> (r, (w, snd s @ [(args, \<not> isl r)])))"

lemma noted_snd: "noted_run run args s = (r, s') \<Longrightarrow> snd s' = snd s @ [(args, \<not> isl r)]"
  by (auto simp: noted_run_def split: prod.splits)

definition went :: "string list list \<Rightarrow> (string list \<times> bool) list" where
  "went cs = map (\<lambda>c. (c, True)) cs"

text \<open>How far the pruning has come: all commands so far have succeeded, or the last one has failed.\<close>

definition progress ::
    "(string list \<times> bool) list \<Rightarrow> string list list \<Rightarrow> PruneResult \<Rightarrow> PruneResult result \<times> 'w \<times> (string list \<times> bool) list \<Rightarrow> bool" where
  "progress base cs res st \<longleftrightarrow>
     (case fst st of
        Inr r \<Rightarrow> r = res \<and> snd (snd st) = base @ went cs
      | Inl _ \<Rightarrow> \<exists>k < length cs. snd (snd st) = base @ went (take k cs) @ [(cs ! k, False)])"

lemma progress_step:
  assumes "progress base cs res st"
  shows "progress base (cs @ (if sel then [''nerdctl'' # args] else []))
    (if sel then (mark res)\<lparr>pr_ReclaimedBytes := pr_ReclaimedBytes res + b\<rparr> else res)
    (prune_step sel (run_prune (noted_run run) what args) mark b st)"
proof -
  obtain x s where st: "st = (x, s)" by (rule prod.exhaust)
  show ?thesis
  proof (cases x)
    case (Inl e)
    then obtain k where k: "k < length cs" "snd s = base @ went (take k cs) @ [(cs ! k, False)]"
      using assms by (auto simp: progress_def st)
    then have "(cs @ (if sel then [''nerdctl'' # args] else [])) ! k = cs ! k"
      "take k (cs @ (if sel then [''nerdctl'' # args] else [])) = take k cs" by (simp_all add: nth_append)
    then show ?thesis using k Inl by (auto simp: progress_def st prune_step_def intro!: exI [of _ k])
  next
    case (Inr r)
    then have r: "r = res" "snd s = base @ went cs" using assms by (simp_all add: progress_def st)
    obtain y s1 where y: "noted_run run (''nerdctl'' # args) s = (y, s1)" by (rule prod.exhaust)
    have n: "snd s1 = base @ went cs @ [(''nerdctl'' # args, \<not> isl y)]" using noted_snd [OF y] r(2) by simp
    show ?thesis
    proof (cases y)
      case (Inl e)
      then show ?thesis using Inr r n y
        by (auto simp: progress_def st prune_step_def run_prune_def intro!: exI [of _ "length cs"])
    qed (use Inr r n y in \<open>simp add: progress_def st prune_step_def run_prune_def went_def\<close>)
  qed
qed

text \<open>The last category: its command, and the one to fall back on.\<close>

lemma noted_cache:
  assumes "pruneBuildCache (noted_run run) s = (e, s')"
  shows "e = None \<and> snd s' \<in> {snd s @ [([''nerdctl'', ''builder'', ''prune'', ''-a'', ''-f''], True)],
      snd s @ [([''nerdctl'', ''builder'', ''prune'', ''-a'', ''-f''], False), ([''nerdctl'', ''buildx'', ''prune'', ''-a'', ''-f''], True)]}
    \<or> e \<noteq> None \<and> snd s' = snd s @ [([''nerdctl'', ''builder'', ''prune'', ''-a'', ''-f''], False), ([''nerdctl'', ''buildx'', ''prune'', ''-a'', ''-f''], False)]"
proof -
  obtain y s1 where y: "noted_run run [''nerdctl'', ''builder'', ''prune'', ''-a'', ''-f''] s = (y, s1)" by (rule prod.exhaust)
  obtain z s2 where z: "noted_run run [''nerdctl'', ''buildx'', ''prune'', ''-a'', ''-f''] s1 = (z, s2)" by (rule prod.exhaust)
  show ?thesis using assms noted_snd [OF y] noted_snd [OF z] by (cases y; cases z) (auto simp: pruneBuildCache_def y z)
qed

lemma last_step:
  assumes "progress base cmds res4 t4"
    and "t5 = prune_step cache (pruneBuildCache (noted_run run)) (pr_BuildCache_update (\<lambda>_. True)) b t4"
    and "(case t5 of (Inl err, w2) \<Rightarrow> Some (Inl err, w2)
        | (Inr result, w2) \<Rightarrow> map_option (\<lambda>s. (Inr (result\<lparr>pr_ReclaimedSize := s\<rparr>), w2)) (FormatBytes (pr_ReclaimedBytes result))) = Some (r, s')"
  shows "\<exists>ran. snd s' = base @ ran \<and>
      (case r of
         Inl _ \<Rightarrow> (\<exists>k < length cmds. ran = went (take k cmds) @ [(cmds ! k, False)])
           \<or> cache \<and> ran = went cmds @ [([''nerdctl'', ''builder'', ''prune'', ''-a'', ''-f''], False),
               ([''nerdctl'', ''buildx'', ''prune'', ''-a'', ''-f''], False)]
       | Inr res \<Rightarrow>
           ran \<in> (\<lambda>b. went cmds @ b) ` (if cache then {[([''nerdctl'', ''builder'', ''prune'', ''-a'', ''-f''], True)],
               [([''nerdctl'', ''builder'', ''prune'', ''-a'', ''-f''], False), ([''nerdctl'', ''buildx'', ''prune'', ''-a'', ''-f''], True)]} else {[]})
           \<and> (\<exists>z. res = (if cache then res4\<lparr>pr_BuildCache := True, pr_ReclaimedBytes := pr_ReclaimedBytes res4 + b\<rparr>
               else res4)\<lparr>pr_ReclaimedSize := z\<rparr>))"
proof -
  obtain x s where t4: "t4 = (x, s)" by (rule prod.exhaust)
  show ?thesis
  proof (cases x)
    case (Inl err)
    then show ?thesis using assms by (auto simp: progress_def t4 prune_step_def)
  next
    case (Inr res)
    then have res: "res = res4" "snd s = base @ went cmds" using assms(1) by (simp_all add: progress_def t4)
    obtain e s1 where e: "pruneBuildCache (noted_run run) s = (e, s1)" by (rule prod.exhaust)
    show ?thesis
    proof (cases "cache")
      case True
      then show ?thesis using assms(2,3) noted_cache [OF e] Inr res e
        by (cases e) (auto simp: t4 prune_step_def)
    next
      case False
      then have "t5 = (Inr res4, s)" using assms(2) Inr res by (simp add: t4 prune_step_def)
      then show ?thesis using assms(3) res False by auto
    qed
  qed
qed

text \<open>
  C38: What a clean-up does. Without a selected category nothing is run; when the preview fails, nothing more is
  run and its error is returned. Otherwise the commands of the selected categories are run, and no others, in the order containers, networks,
  images, volumes, build cache, up to the first that fails, which makes the clean-up fail; only for the build cache a
  second command is tried. A clean-up that succeeds has run them all, reports exactly the selected
  categories, and as reclaimed bytes the sum of what the preview showed for these.
\<close>

theorem prune_runs_selection:
  fixes opts :: PruneOptions
  defines "cmds \<equiv> (if po_Containers opts then [[''nerdctl'', ''container'', ''prune'', ''-f'']] else [])
        @ (if po_Networks opts then [[''nerdctl'', ''network'', ''prune'', ''-f'']] else [])
        @ (if po_Images opts then [[''nerdctl'', ''image'', ''prune'', ''-a'', ''-f'']] else [])
        @ (if po_Volumes opts then [[''nerdctl'', ''volume'', ''prune'', ''-f'']] else [])"
    and "builder \<equiv> [''nerdctl'', ''builder'', ''prune'', ''-a'', ''-f'']" and "buildx \<equiv> [''nerdctl'', ''buildx'', ''prune'', ''-a'', ''-f'']"
  assumes "prune L (noted_run run) opts s = Some (r, s')"
  shows "if cmds = [] \<and> \<not> po_BuildCache opts then r = Inl (Sentinel ErrPruneCategoryRequired) \<and> s' = s
    else \<exists>x s1. prunePreview L (noted_run run) s = Some (x, s1) \<and>
      (case x of
         Inl err \<Rightarrow> r = Inl err \<and> s' = s1
       | Inr p \<Rightarrow>
          (\<exists>ran. snd s' = snd s1 @ ran \<and>
            (case r of
               Inl _ \<Rightarrow> (\<exists>k < length cmds. ran = map (\<lambda>c. (c, True)) (take k cmds) @ [(cmds ! k, False)])
                 \<or> po_BuildCache opts \<and> ran = map (\<lambda>c. (c, True)) cmds @ [(builder, False), (buildx, False)]
             | Inr res \<Rightarrow>
                 ran \<in> (\<lambda>b. map (\<lambda>c. (c, True)) cmds @ b) ` (if po_BuildCache opts then {[(builder, True)], [(builder, False), (buildx, True)]} else {[]})
                 \<and> pr_Containers res = po_Containers opts \<and> pr_Images res = po_Images opts \<and> pr_Volumes res = po_Volumes opts
                 \<and> pr_Networks res = po_Networks opts \<and> pr_BuildCache res = po_BuildCache opts
                 \<and> pr_ReclaimedBytes res =
                     (if po_Containers opts then pc_ReclaimableBytes (pp_Containers p) else 0)
                     + (if po_Networks opts then pc_ReclaimableBytes (pp_Networks p) else 0)
                     + (if po_Images opts then pc_ReclaimableBytes (pp_Images p) else 0)
                     + (if po_Volumes opts then pc_ReclaimableBytes (pp_Volumes p) else 0)
                     + (if po_BuildCache opts then pc_ReclaimableBytes (pp_BuildCache p) else 0))))"
proof (cases "noCategory opts")
  case True
  then show ?thesis using assms(4) by (auto simp: prune_def noCategory_def cmds_def)
next
  case False
  then have ne: "\<not> (cmds = [] \<and> \<not> po_BuildCache opts)" by (auto simp: noCategory_def cmds_def)
  obtain x s1 where x: "prunePreview L (noted_run run) s = Some (x, s1)"
    using assms(4) False by (cases "prunePreview L (noted_run run) s") (auto simp: prune_def)
  show ?thesis
  proof (cases x)
    case (Inl err)
    then have "r = Inl err \<and> s' = s1" using assms(4) False x by (simp add: prune_def)
    then show ?thesis using x Inl ne by auto
  next
    case (Inr p)
    define t1 where "t1 = prune_step (po_Containers opts) (run_prune (noted_run run) ''containers'' [''container'', ''prune'', ''-f''])
        (pr_Containers_update (\<lambda>_. True)) (pc_ReclaimableBytes (pp_Containers p)) (Inr emptyPruneResult, s1)"
    define t2 where "t2 = prune_step (po_Networks opts) (run_prune (noted_run run) ''networks'' [''network'', ''prune'', ''-f''])
        (pr_Networks_update (\<lambda>_. True)) (pc_ReclaimableBytes (pp_Networks p)) t1"
    define t3 where "t3 = prune_step (po_Images opts) (run_prune (noted_run run) ''images'' [''image'', ''prune'', ''-a'', ''-f''])
        (pr_Images_update (\<lambda>_. True)) (pc_ReclaimableBytes (pp_Images p)) t2"
    define t4 where "t4 = prune_step (po_Volumes opts) (run_prune (noted_run run) ''volumes'' [''volume'', ''prune'', ''-f''])
        (pr_Volumes_update (\<lambda>_. True)) (pc_ReclaimableBytes (pp_Volumes p)) t3"
    have "progress (snd s1) [] emptyPruneResult (Inr emptyPruneResult, s1)" by (simp add: progress_def went_def)
    note p1 = progress_step [OF this, where sel = "po_Containers opts" and args = "[''container'', ''prune'', ''-f'']" and mark = "pr_Containers_update (\<lambda>_. True)"
        and b = "pc_ReclaimableBytes (pp_Containers p)" and run = run and what = "''containers''", folded t1_def]
    note p2 = progress_step [OF p1, where sel = "po_Networks opts" and args = "[''network'', ''prune'', ''-f'']" and mark = "pr_Networks_update (\<lambda>_. True)"
        and b = "pc_ReclaimableBytes (pp_Networks p)" and run = run and what = "''networks''", folded t2_def]
    note p3 = progress_step [OF p2, where sel = "po_Images opts" and args = "[''image'', ''prune'', ''-a'', ''-f'']" and mark = "pr_Images_update (\<lambda>_. True)"
        and b = "pc_ReclaimableBytes (pp_Images p)" and run = run and what = "''images''", folded t3_def]
    note p4 = progress_step [OF p3, where sel = "po_Volumes opts" and args = "[''volume'', ''prune'', ''-f'']" and mark = "pr_Volumes_update (\<lambda>_. True)"
        and b = "pc_ReclaimableBytes (pp_Volumes p)" and run = run and what = "''volumes''", folded t4_def]
    obtain res4 where p4: "progress (snd s1) cmds res4 t4"
      and f4: "pr_Containers res4 = po_Containers opts" "pr_Images res4 = po_Images opts" "pr_Volumes res4 = po_Volumes opts"
        "pr_Networks res4 = po_Networks opts" "\<not> pr_BuildCache res4" "pr_ReclaimedBytes res4 =
           (if po_Containers opts then pc_ReclaimableBytes (pp_Containers p) else 0)
           + (if po_Networks opts then pc_ReclaimableBytes (pp_Networks p) else 0)
           + (if po_Images opts then pc_ReclaimableBytes (pp_Images p) else 0)
           + (if po_Volumes opts then pc_ReclaimableBytes (pp_Volumes p) else 0)"
      using that [OF p4 [unfolded append_Nil append_assoc, folded cmds_def]] by (simp add: emptyPruneResult_def)
    define t5 where "t5 = prune_step (po_BuildCache opts) (pruneBuildCache (noted_run run)) (pr_BuildCache_update (\<lambda>_. True))
        (pc_ReclaimableBytes (pp_BuildCache p)) t4"
    have r5: "(case t5 of (Inl err, w2) \<Rightarrow> Some (Inl err, w2)
        | (Inr result, w2) \<Rightarrow> map_option (\<lambda>s. (Inr (result\<lparr>pr_ReclaimedSize := s\<rparr>), w2)) (FormatBytes (pr_ReclaimedBytes result))) = Some (r, s')"
      using assms(4) False x Inr by (simp add: prune_def Let_def t5_def t4_def t3_def t2_def t1_def)
    obtain ran where ran: "snd s' = snd s1 @ ran \<and>
            (case r of
               Inl _ \<Rightarrow> (\<exists>k < length cmds. ran = went (take k cmds) @ [(cmds ! k, False)])
                 \<or> po_BuildCache opts \<and> ran = went cmds @ [(builder, False), (buildx, False)]
             | Inr res \<Rightarrow>
                 ran \<in> (\<lambda>b. went cmds @ b) ` (if po_BuildCache opts then {[(builder, True)], [(builder, False), (buildx, True)]} else {[]})
                 \<and> (\<exists>z. res = (if po_BuildCache opts then res4\<lparr>pr_BuildCache := True, pr_ReclaimedBytes := pr_ReclaimedBytes res4
                     + pc_ReclaimableBytes (pp_BuildCache p)\<rparr> else res4)\<lparr>pr_ReclaimedSize := z\<rparr>))"
      using last_step [OF p4 t5_def r5, folded builder_def buildx_def] by blast
    have "case r of
               Inl _ \<Rightarrow> (\<exists>k < length cmds. ran = map (\<lambda>c. (c, True)) (take k cmds) @ [(cmds ! k, False)])
                 \<or> po_BuildCache opts \<and> ran = map (\<lambda>c. (c, True)) cmds @ [(builder, False), (buildx, False)]
             | Inr res \<Rightarrow>
                 ran \<in> (\<lambda>b. map (\<lambda>c. (c, True)) cmds @ b) ` (if po_BuildCache opts then {[(builder, True)], [(builder, False), (buildx, True)]} else {[]})
                 \<and> pr_Containers res = po_Containers opts \<and> pr_Images res = po_Images opts \<and> pr_Volumes res = po_Volumes opts
                 \<and> pr_Networks res = po_Networks opts \<and> pr_BuildCache res = po_BuildCache opts
                 \<and> pr_ReclaimedBytes res =
                     (if po_Containers opts then pc_ReclaimableBytes (pp_Containers p) else 0)
                     + (if po_Networks opts then pc_ReclaimableBytes (pp_Networks p) else 0)
                     + (if po_Images opts then pc_ReclaimableBytes (pp_Images p) else 0)
                     + (if po_Volumes opts then pc_ReclaimableBytes (pp_Volumes p) else 0)
                     + (if po_BuildCache opts then pc_ReclaimableBytes (pp_BuildCache p) else 0)"
    proof (cases r)
      case (Inl e)
      then show ?thesis using ran by (simp add: went_def)
    next
      case (Inr res)
      then show ?thesis using ran f4 by (cases "po_BuildCache opts") (auto simp: went_def)
    qed
    with ran ne x Inr show ?thesis by (auto intro!: exI [of _ x] exI [of _ s1] exI [of _ ran])
  qed
qed

definition demo_noted :: "Container list \<Rightarrow> (unit \<times> (string list \<times> bool) list) Listers" where
  "demo_noted cs = \<lparr>ls_Containers = Pair (Inr cs), ls_Images = Pair (Inr [demo_image]), ls_Volumes = Pair (Inr []),
     ls_EnrichInUse = (\<lambda>vs. Pair (Inr vs)), ls_Networks = Pair (Inr [])\<rparr>"

definition demo_options :: PruneOptions where
  "demo_options = \<lparr>po_Containers = False, po_Images = True, po_Volumes = False, po_Networks = False, po_BuildCache = False\<rparr>"

theorem prune_runs_selection_witness:
  "\<exists>r w'. prune (demo_noted []) (noted_run (\<lambda>_. Pair (Inr []))) demo_options ((), []) = Some (Inr r, w') \<and> pr_Images r \<and> \<not> pr_Volumes r
     \<and> last (snd w') = ([''nerdctl'', ''image'', ''prune'', ''-a'', ''-f''], True)"
proof -
  let ?p = "prune (demo_noted []) (noted_run (\<lambda>_. Pair (Inr []))) demo_options ((), [])"
  have "case ?p of Some (Inr r, w') \<Rightarrow> True | _ \<Rightarrow> False" by code_simp
  then obtain r w' where r: "?p = Some (Inr r, w')" by (auto split: option.splits sum.splits prod.splits)
  note f = prune_runs_selection [OF r]
  have "pr_Images r \<and> \<not> pr_Volumes r \<and> last (snd w') = ([''nerdctl'', ''image'', ''prune'', ''-a'', ''-f''], True)"
    using f apply (simp add: demo_options_def)
    apply (elim exE conjE)
    subgoal for x w1 cs1 by (cases x) (auto simp: demo_options_def)
    done
  then show ?thesis using r by blast
qed


end
