(* ===== verification/Calf_Mock.thy ===== *)
theory Calf_Mock
  imports Calf_Prune
begin

text \<open>
  The mock runtime (\<open>internal/runtime/mock.go\<close>), the in-memory implementation of the interface
  \<open>Runtime\<close>, and the port parser of \<open>ports.go\<close> it uses.  The mutex is taken for the whole of an
  operation, so each operation is one function on the state.  Not modelled: \<open>RunBuild\<close>,
  \<open>ContainerMounts\<close> and \<open>AttachExec\<close>, which go through the build-log and inspect parsers and a terminal.
\<close>

section \<open>State\<close>

record Mock =
  mk_StatusValue :: Status
  mk_Containers :: "Container list"
  mk_Images :: "Image list"
  mk_Volumes :: "Volume list"
  mk_Networks :: "Network list"
  mk_StartErr :: "go_error option"
  mk_StartHold :: bool
  mk_StopErr :: "go_error option"
  mk_StatusErr :: "go_error option"
  mk_ContainersErr :: "go_error option"
  mk_ImagesErr :: "go_error option"
  mk_ContainerErr :: "go_error option"
  mk_ExportVolumeErr :: "go_error option"
  mk_ImageErr :: "go_error option"
  mk_NetworksErr :: "go_error option"
  mk_NetworkErr :: "go_error option"
  mk_LogLines :: "string list"
  mk_Started :: bool
  mk_registryLoggedIn :: bool
  mk_buildCacheBytes :: int
  mk_applyProxyCalls :: int

definition NewMock :: Mock where
  "NewMock =
     \<lparr>mk_StatusValue = \<lparr>st_Mode = ''vm'', st_State = RuntimeStateRunning, st_DockerSocket = ''/tmp/calf-test.sock'',
        st_Rootless = False, st_VMName = ''calf'', st_PortConflicts = [], st_Log = ''''\<rparr>,
      mk_Containers = [\<lparr>ct_ID = ''abc123'', ct_Name = ''hello'', ct_Image = ''hello-world'', ct_State = ''running'',
        ct_Status = ''Up 1 minute'', ct_Ports = '''', ct_Created = '''', ct_ComposeProject = '''', ct_ComposeService = ''''\<rparr>],
      mk_Images = [\<lparr>im_ID = ''def456'', im_Repository = ''hello-world'', im_Tag = ''latest'', im_Size = ''10MB'', im_Created = ''''\<rparr>],
      mk_Volumes = [\<lparr>vo_Name = ''calf-data'', vo_Driver = ''local'', vo_InUse = False, vo_Size = '''', vo_Created = ''''\<rparr>],
      mk_Networks = [\<lparr>nw_ID = ''9d1ce4c80488'', nw_Name = ''bridge'', nw_Driver = ''bridge'', nw_Scope = ''local'',
        nw_Subnet = ''192.168.215.0/24'', nw_Created = ''9 months ago''\<rparr>],
      mk_StartErr = None, mk_StartHold = False, mk_StopErr = None, mk_StatusErr = None, mk_ContainersErr = None,
      mk_ImagesErr = None, mk_ContainerErr = None, mk_ExportVolumeErr = None, mk_ImageErr = None,
      mk_NetworksErr = None, mk_NetworkErr = None, mk_LogLines = [''hello'', ''world''], mk_Started = False,
      mk_registryLoggedIn = False, mk_buildCacheBytes = 0, mk_applyProxyCalls = 0\<rparr>"

definition running :: "Mock \<Rightarrow> bool" where
  "running m \<longleftrightarrow> st_State (mk_StatusValue m) = RuntimeStateRunning"

definition set_state :: "string \<Rightarrow> Mock \<Rightarrow> Mock" where
  "set_state s m = m\<lparr>mk_StatusValue := (mk_StatusValue m)\<lparr>st_State := s\<rparr>\<rparr>"

section \<open>Lifecycle\<close>

definition Mock_DockerSocket :: "Mock \<Rightarrow> string" where
  "Mock_DockerSocket m = st_DockerSocket (mk_StatusValue m)"

text \<open>\<open>ctxErr\<close>: the error of the context if it ends while \<open>Start\<close> waits for the hold.\<close>

definition Mock_Start :: "go_error option \<Rightarrow> Mock \<Rightarrow> go_error option \<times> Mock" where
  "Mock_Start ctxErr m =
     (case mk_StartErr m of
        Some err \<Rightarrow> (Some err, m)
      | None \<Rightarrow>
          if mk_StartHold m \<and> ctxErr \<noteq> None then (ctxErr, m)
          else (None, set_state RuntimeStateRunning (m\<lparr>mk_Started := True\<rparr>)))"

definition Mock_Stop :: "Mock \<Rightarrow> go_error option \<times> Mock" where
  "Mock_Stop m =
     (case mk_StopErr m of
        Some err \<Rightarrow> (Some err, m)
      | None \<Rightarrow> (None, set_state RuntimeStateStopped (m\<lparr>mk_Started := False\<rparr>)))"

definition Mock_ForceStop :: "Mock \<Rightarrow> go_error option \<times> Mock" where
  "Mock_ForceStop m = Mock_Stop m"

definition Mock_ResourceUsage :: "Mock \<Rightarrow> ResourceUsage result" where
  "Mock_ResourceUsage m =
     (if \<not> running m then Inr \<lparr>ru_CpuPercent = ''0'', ru_MemoryUsedBytes = 0, ru_DiskUsedBytes = 0\<rparr>
      else Inr \<lparr>ru_CpuPercent = ''2.5'', ru_MemoryUsedBytes = 1 * 1024 ^ 3, ru_DiskUsedBytes = 10 * 1024 ^ 3\<rparr>)"

definition Mock_Status :: "Mock \<Rightarrow> Status result" where
  "Mock_Status m = (case mk_StatusErr m of Some err \<Rightarrow> Inl err | None \<Rightarrow> Inr (mk_StatusValue m))"

section \<open>Lists and details\<close>

definition Mock_ListContainers :: "Mock \<Rightarrow> Container list result" where
  "Mock_ListContainers m =
     (case mk_ContainersErr m of
        Some err \<Rightarrow> Inl err
      | None \<Rightarrow> if \<not> running m then Inr [] else Inr (mk_Containers m))"

definition Mock_ListImages :: "Mock \<Rightarrow> Image list result" where
  "Mock_ListImages m =
     (case mk_ImagesErr m of
        Some err \<Rightarrow> Inl err
      | None \<Rightarrow> if \<not> running m then Inr [] else Inr (mk_Images m))"

definition Mock_ImageHistory :: "string \<Rightarrow> Mock \<Rightarrow> ImageLayer list result" where
  "Mock_ImageHistory ref m =
     (case mk_ImagesErr m of
        Some err \<Rightarrow> Inl err
      | None \<Rightarrow>
          if \<not> running m then Inl (Sentinel ErrRuntimeNotRunning)
          else Inr [\<lparr>il_Index = 0, il_CreatedBy = ''# debian.sh --arch '' @ [CHR 0x27] @ ''arm64'' @ [CHR 0x27],
                     il_Size = ''104.3 MiB'', il_Created = ''6 months ago''\<rparr>,
                    \<lparr>il_Index = 1, il_CreatedBy = ''RUN apt-get update && apt-get install -y coturn'',
                     il_Size = ''31.7 MiB'', il_Created = ''5 months ago''\<rparr>,
                    \<lparr>il_Index = 2, il_CreatedBy = ''CMD ['' @ [CHR 0x22] @ ''--log-file=stdout'' @ [CHR 0x22] @ '']'',
                     il_Size = ''0 B'', il_Created = ''5 months ago''\<rparr>])"

definition Mock_ListVolumes :: "Mock \<Rightarrow> Volume list result" where
  "Mock_ListVolumes m =
     (if \<not> running m then Inr []
      else Inr (map (\<lambda>v. v\<lparr>vo_InUse := (mk_Containers m \<noteq> []), vo_Size := ''88 B'', vo_Created := ''9 months ago''\<rparr>)
                  (mk_Volumes m)))"

definition Mock_InspectVolume :: "string \<Rightarrow> Mock \<Rightarrow> VolumeDetail result" where
  "Mock_InspectVolume name m =
     (if \<not> running m then Inl (Sentinel ErrRuntimeNotRunning)
      else case find (\<lambda>v. vo_Name v = name) (mk_Volumes m) of
        Some v \<Rightarrow> Inr \<lparr>vd_Name = vo_Name v, vd_Driver = vo_Driver v, vd_Created = ''9 months ago'',
                      vd_InUse = (mk_Containers m \<noteq> []),
                      vd_Mountpoint = ''/var/lib/mock/volumes/'' @ vo_Name v @ ''/_data''\<rparr>
      | None \<Rightarrow> Inl (Errorf (''volume '' @ name @ '' not found'')))"

definition file_entry :: "string \<Rightarrow> string \<Rightarrow> bool \<Rightarrow> int \<Rightarrow> string \<Rightarrow> string \<Rightarrow> string \<Rightarrow> ContainerFileEntry" where
  "file_entry name path dir sz md modified note =
     \<lparr>fe_Name = name, fe_Path = path, fe_IsDir = dir, fe_Size = sz, fe_Mode = md, fe_Modified = modified, fe_Note = note\<rparr>"

definition Mock_ListVolumeFiles :: "string \<Rightarrow> string \<Rightarrow> Mock \<Rightarrow> ContainerFileEntry list result" where
  "Mock_ListVolumeFiles name path0 m =
     (if \<not> running m then Inl (Sentinel ErrRuntimeNotRunning)
      else if \<not> list_ex (\<lambda>v. vo_Name v = name) (mk_Volumes m) then Inl (Errorf (''volume '' @ name @ '' not found''))
      else let path = (if path0 = '''' then ''/'' else path0) in
        if path = ''/'' then
          Inr [file_entry ''app'' ''/app'' True 0 ''drwxr-xr-x'' ''5 months ago'' '''',
               file_entry ''dump.rdb'' ''/dump.rdb'' False 88 ''-rw-------'' ''7 months ago'' '''']
        else if path = ''/app'' then
          Inr [file_entry ''data.txt'' ''/app/data.txt'' False 12 ''-rw-r--r--'' ''2 days ago'' '''']
        else Inr [])"

text \<open>
  \<open>ports.go\<close>: the regular expression \<open>:(\d+)->\d+/tcp\<close>, whose greedy digits need no backtracking
  because what follows them is not a digit.
\<close>

definition match_port :: "string \<Rightarrow> string option" where
  "match_port s =
     (let host = takeWhile is_digit s; r = dropWhile is_digit s in
      if host = '''' \<or> \<not> HasPrefix r ''->'' then None
      else let r2 = drop 2 r; guest = takeWhile is_digit r2; r3 = dropWhile is_digit r2 in
        if guest = '''' \<or> \<not> HasPrefix r3 ''/tcp'' then None else Some host)"

fun ExtractHostTCPPort :: "string \<Rightarrow> string" where
  "ExtractHostTCPPort [] = ''''"
| "ExtractHostTCPPort (c # s) =
     (if c = CHR '':'' then (case match_port s of Some p \<Rightarrow> p | None \<Rightarrow> ExtractHostTCPPort s) else ExtractHostTCPPort s)"

definition Mock_VolumeContainers :: "string \<Rightarrow> Mock \<Rightarrow> VolumeContainerUsage list result" where
  "Mock_VolumeContainers name m =
     (if \<not> running m then Inl (Sentinel ErrRuntimeNotRunning)
      else if \<not> list_ex (\<lambda>v. vo_Name v = name) (mk_Volumes m) then Inl (Errorf (''volume '' @ name @ '' not found''))
      else case mk_Containers m of
        [] \<Rightarrow> Inr []
      | c # _ \<Rightarrow> Inr [\<lparr>vu_ID = ct_ID c, vu_Name = ct_Name c, vu_Image = ct_Image c,
                      vu_Port = ExtractHostTCPPort (ct_Ports c), vu_Target = ''/data''\<rparr>])"

section \<open>Volumes\<close>

definition Mock_CreateVolume :: "string \<Rightarrow> Mock \<Rightarrow> go_error option \<times> Mock" where
  "Mock_CreateVolume name m =
     (case mk_ContainerErr m of
        Some err \<Rightarrow> (Some err, m)
      | None \<Rightarrow> (None, m\<lparr>mk_Volumes := mk_Volumes m @
          [\<lparr>vo_Name = name, vo_Driver = ''local'', vo_InUse = False, vo_Size = '''', vo_Created = ''''\<rparr>]\<rparr>))"

definition Mock_CloneVolume :: "string \<Rightarrow> string \<Rightarrow> Mock \<Rightarrow> go_error option \<times> Mock" where
  "Mock_CloneVolume source dest m =
     (case mk_ContainerErr m of
        Some err \<Rightarrow> (Some err, m)
      | None \<Rightarrow>
          (case find (\<lambda>v. vo_Name v = source) (mk_Volumes m) of
             None \<Rightarrow> (Some (Errorf (''volume '' @ source @ '' not found'')), m)
           | Some v \<Rightarrow>
               if list_ex (\<lambda>v. vo_Name v = dest) (mk_Volumes m)
               then (Some (Errorf (''volume '' @ dest @ '' already exists'')), m)
               else (None, m\<lparr>mk_Volumes := mk_Volumes m @
                 [\<lparr>vo_Name = dest, vo_Driver = vo_Driver v, vo_InUse = False, vo_Size = '''', vo_Created = ''''\<rparr>]\<rparr>)))"

definition Mock_ExportVolume :: "VolumeExportOptions \<Rightarrow> Mock \<Rightarrow> string result" where
  "Mock_ExportVolume opts m =
     (case mk_ExportVolumeErr m of
        Some err \<Rightarrow> Inl err
      | None \<Rightarrow>
          if vx_Type opts = ''local_file'' then
            (if vx_Folder opts = '''' then Inl (Errorf ''destination folder is required'')
             else Inr (filepath_Join (vx_Folder opts) (vx_FileName opts)))
          else if vx_Type opts \<in> {''local_image'', ''new_image'', ''registry''} then
            (if vx_ImageRef opts = '''' then Inl (Errorf ''image reference is required'')
             else Inr (vx_ImageRef opts))
          else Inl (Errorf (''unsupported export type '' @ Quote (vx_Type opts))))"

definition Mock_RemoveVolume :: "string \<Rightarrow> Mock \<Rightarrow> go_error option \<times> Mock" where
  "Mock_RemoveVolume name m =
     (case mk_ContainerErr m of
        Some err \<Rightarrow> (Some err, m)
      | None \<Rightarrow> (None, m\<lparr>mk_Volumes := filter (\<lambda>v. vo_Name v \<noteq> name) (mk_Volumes m)\<rparr>))"

section \<open>Containers and images\<close>

definition mark_container :: "string \<Rightarrow> string \<Rightarrow> string \<Rightarrow> Container \<Rightarrow> Container" where
  "mark_container cid state status c = (if ct_ID c = cid then c\<lparr>ct_State := state, ct_Status := status\<rparr> else c)"

definition Mock_StartContainer :: "string \<Rightarrow> Mock \<Rightarrow> go_error option \<times> Mock" where
  "Mock_StartContainer cid m =
     (case mk_ContainerErr m of
        Some err \<Rightarrow> (Some err, m)
      | None \<Rightarrow> (None, m\<lparr>mk_Containers := map (mark_container cid ''running'' ''Up'') (mk_Containers m)\<rparr>))"

definition Mock_StopContainer :: "string \<Rightarrow> Mock \<Rightarrow> go_error option \<times> Mock" where
  "Mock_StopContainer cid m =
     (case mk_ContainerErr m of
        Some err \<Rightarrow> (Some err, m)
      | None \<Rightarrow> (None, m\<lparr>mk_Containers := map (mark_container cid ''exited'' ''Exited'') (mk_Containers m)\<rparr>))"

definition Mock_RestartContainer :: "string \<Rightarrow> Mock \<Rightarrow> go_error option \<times> Mock" where
  "Mock_RestartContainer cid m =
     (case Mock_StopContainer cid m of
        (Some err, m1) \<Rightarrow> (Some err, m1)
      | (None, m1) \<Rightarrow> Mock_StartContainer cid m1)"

definition Mock_RemoveContainer :: "string \<Rightarrow> Mock \<Rightarrow> go_error option \<times> Mock" where
  "Mock_RemoveContainer cid m =
     (case mk_ContainerErr m of
        Some err \<Rightarrow> (Some err, m)
      | None \<Rightarrow> (None, m\<lparr>mk_Containers := filter (\<lambda>c. ct_ID c \<noteq> cid) (mk_Containers m)\<rparr>))"

definition Mock_RemoveImage :: "string \<Rightarrow> Mock \<Rightarrow> go_error option \<times> Mock" where
  "Mock_RemoveImage ref m =
     (case mk_ImageErr m of
        Some err \<Rightarrow> (Some err, m)
      | None \<Rightarrow> (None, m\<lparr>mk_Images :=
          filter (\<lambda>i. im_Repository i @ '':'' @ im_Tag i \<noteq> ref \<and> im_ID i \<noteq> ref) (mk_Images m)\<rparr>))"

definition Mock_PullImage :: "string \<Rightarrow> Mock \<Rightarrow> go_error option \<times> Mock" where
  "Mock_PullImage ref m =
     (case mk_ImageErr m of
        Some err \<Rightarrow> (Some err, m)
      | None \<Rightarrow> (None, m\<lparr>mk_Images := mk_Images m @
          [\<lparr>im_ID = ''pulled'', im_Repository = ref, im_Tag = ''latest'', im_Size = ''1MB'', im_Created = ''''\<rparr>]\<rparr>))"

definition Mock_PushImage :: "string \<Rightarrow> Mock \<Rightarrow> go_error option" where
  "Mock_PushImage ref m = mk_ImageErr m"

definition Mock_RunImage :: "string \<Rightarrow> Mock \<Rightarrow> string result" where
  "Mock_RunImage ref m =
     (case mk_ImageErr m of
        Some err \<Rightarrow> Inl err
      | None \<Rightarrow> if \<not> running m then Inl (Sentinel ErrRuntimeNotRunning) else Inr ''mock-container-id'')"

text \<open>The lines passed to the output callback.\<close>

definition Mock_StreamLogs :: "Mock \<Rightarrow> string list" where
  "Mock_StreamLogs m = mk_LogLines m"

definition pathJoin :: "string \<Rightarrow> string \<Rightarrow> string" where
  "pathJoin base name = (if base = ''/'' then ''/'' @ name else base @ ''/'' @ name)"

definition Mock_ListContainerFiles :: "string \<Rightarrow> Mock \<Rightarrow> ContainerFileEntry list result" where
  "Mock_ListContainerFiles path0 m =
     (case mk_ContainerErr m of
        Some err \<Rightarrow> Inl err
      | None \<Rightarrow>
          let path = (if path0 = '''' then ''/'' else path0) in
          Inr [file_entry ''app'' (pathJoin path ''app'') True 0 ''drwxr-xr-x'' ''5 months ago'' '''',
               file_entry ''.dockerenv'' (pathJoin path ''.dockerenv'') False 0 ''-rw-r--r--'' ''13 seconds ago'' '''',
               file_entry ''bin'' (pathJoin path ''bin'') True 0 ''drwxr-xr-x'' ''2 years ago'' ''usr/bin''])"

definition Mock_ExecContainer :: "string \<Rightarrow> Mock \<Rightarrow> string result" where
  "Mock_ExecContainer command m =
     (case mk_ContainerErr m of
        Some err \<Rightarrow> Inl err
      | None \<Rightarrow> Inr (''# '' @ command @ [CHR 0x0A] @ ''mock output''))"

definition Mock_ContainerStats :: "string \<Rightarrow> Mock \<Rightarrow> ContainerStats result" where
  "Mock_ContainerStats cid m =
     (case mk_ContainerErr m of
        Some err \<Rightarrow> Inl err
      | None \<Rightarrow> Inr \<lparr>cs_CPUPerc = ''0.00%'', cs_MemUsage = ''32.77MB / 7.65GB'', cs_MemPerc = ''0.42%'',
                     cs_NetIO = ''1.17KB / 126B'', cs_BlockIO = ''1.52MB / 4.1KB'', cs_PIDs = ''5''\<rparr>)"

section \<open>Registry and networks\<close>

definition Mock_RegistryStatus :: "Mock \<Rightarrow> RegistryStatus result" where
  "Mock_RegistryStatus m =
     (if running m \<and> mk_registryLoggedIn m
      then Inr \<lparr>rs_LoggedIn = True, rs_Server = ''docker.io'', rs_Username = ''demo''\<rparr>
      else Inr \<lparr>rs_LoggedIn = False, rs_Server = ''docker.io'', rs_Username = ''''\<rparr>)"

definition Mock_RegistryLogin :: "string \<Rightarrow> string \<Rightarrow> Mock \<Rightarrow> go_error option \<times> Mock" where
  "Mock_RegistryLogin username password m =
     (case mk_ImageErr m of
        Some err \<Rightarrow> (Some err, m)
      | None \<Rightarrow>
          if \<not> running m then (Some (Sentinel ErrRuntimeNotRunning), m)
          else if username = '''' \<or> password = '''' then (Some (Errorf ''username and password are required''), m)
          else (None, m\<lparr>mk_registryLoggedIn := True\<rparr>))"

definition Mock_RegistryLogout :: "Mock \<Rightarrow> go_error option \<times> Mock" where
  "Mock_RegistryLogout m =
     (case mk_ImageErr m of
        Some err \<Rightarrow> (Some err, m)
      | None \<Rightarrow>
          if \<not> running m then (Some (Sentinel ErrRuntimeNotRunning), m)
          else (None, m\<lparr>mk_registryLoggedIn := False\<rparr>))"

definition Mock_ListNetworks :: "Mock \<Rightarrow> Network list result" where
  "Mock_ListNetworks m =
     (if \<not> running m then Inr []
      else case mk_NetworksErr m of Some err \<Rightarrow> Inl err | None \<Rightarrow> Inr (mk_Networks m))"

definition Mock_InspectNetwork :: "string \<Rightarrow> Mock \<Rightarrow> NetworkDetail result" where
  "Mock_InspectNetwork name m =
     (if \<not> running m then Inl (Sentinel ErrRuntimeNotRunning)
      else case mk_NetworkErr m of
        Some err \<Rightarrow> Inl err
      | None \<Rightarrow>
          (case find (\<lambda>n. nw_Name n = name) (mk_Networks m) of
             Some n \<Rightarrow> Inr \<lparr>nd_ID = nw_ID n, nd_Name = nw_Name n, nd_Driver = nw_Driver n, nd_Scope = nw_Scope n,
                           nd_Subnet = nw_Subnet n, nd_Gateway = ''192.168.215.1'', nd_Created = nw_Created n,
                           nd_Options = [(''com.docker.network.bridge.default_bridge'', ''true'')]\<rparr>
           | None \<Rightarrow> Inl (Sentinel ErrNetworkNotFound)))"

definition Mock_RemoveNetwork :: "string \<Rightarrow> Mock \<Rightarrow> go_error option \<times> Mock" where
  "Mock_RemoveNetwork name m =
     (if \<not> running m then (Some (Sentinel ErrRuntimeNotRunning), m)
      else case mk_NetworkErr m of
        Some err \<Rightarrow> (Some err, m)
      | None \<Rightarrow> (None, m\<lparr>mk_Networks := filter (\<lambda>n. nw_Name n \<noteq> name) (mk_Networks m)\<rparr>))"

definition Mock_ApplyProxy :: "Mock \<Rightarrow> go_error option \<times> Mock" where
  "Mock_ApplyProxy m = (None, m\<lparr>mk_applyProxyCalls := mk_applyProxyCalls m + 1\<rparr>)"

definition Mock_ApplyProxyCalls :: "Mock \<Rightarrow> int" where
  "Mock_ApplyProxyCalls m = mk_applyProxyCalls m"

definition Mock_SetBuildCacheBytes :: "int \<Rightarrow> Mock \<Rightarrow> Mock" where
  "Mock_SetBuildCacheBytes bytes m = m\<lparr>mk_buildCacheBytes := bytes\<rparr>"

section \<open>Disk usage and prune\<close>

definition volume_bytes :: "Volume \<Rightarrow> int" where
  "volume_bytes v = (let n = parseResourceSize (vo_Size v) in if n = 0 then 88 else n)"

definition df_line :: "string \<Rightarrow> int \<Rightarrow> int \<Rightarrow> DiskUsageRow option" where
  "df_line typ bytes reclaimable =
     (case (FormatBytes bytes, FormatBytes reclaimable) of
        (Some s, Some r) \<Rightarrow> Some \<lparr>du_Type = typ, du_Size = s, du_SizeBytes = bytes, du_Reclaimable = r,
                                du_ReclaimableBytes = reclaimable\<rparr>
      | _ \<Rightarrow> None)"

definition systemDiskUsageLocked :: "Mock \<Rightarrow> SystemDiskUsage option" where
  "systemDiskUsageLocked m =
     (let imageBytes = sum_list (map (\<lambda>i. parseResourceSize (im_Size i)) (mk_Images m));
          volumeBytes = sum_list (map volume_bytes (mk_Volumes m))
      in case (df_line ''Images'' imageBytes (if 0 \<le> imageBytes then imageBytes div 2 else - (- imageBytes div 2)),
               df_line ''Local Volumes'' volumeBytes volumeBytes,
               df_line ''Build Cache'' (mk_buildCacheBytes m) (mk_buildCacheBytes m)) of
           (Some a, Some b, Some c) \<Rightarrow>
             Some [a, \<lparr>du_Type = ''Containers'', du_Size = ''0 B'', du_SizeBytes = 0, du_Reclaimable = ''0 B'',
                      du_ReclaimableBytes = 0\<rparr>, b, c]
         | _ \<Rightarrow> None)"

definition Mock_SystemDiskUsage :: "Mock \<Rightarrow> SystemDiskUsage result option" where
  "Mock_SystemDiskUsage m =
     (if \<not> running m then Some (Inl (Sentinel ErrRuntimeNotRunning)) else map_option Inr (systemDiskUsageLocked m))"

definition Mock_PrunePreview :: "Mock \<Rightarrow> PrunePreview result option" where
  "Mock_PrunePreview m =
     (if \<not> running m then Some (Inl (Sentinel ErrRuntimeNotRunning))
      else
        let volumes = map (\<lambda>v. v\<lparr>vo_InUse := (mk_Containers m \<noteq> []),
                                 vo_Size := (if vo_Size v = '''' then ''88 B'' else vo_Size v)\<rparr>) (mk_Volumes m)
        in case systemDiskUsageLocked m of
             None \<Rightarrow> None
           | Some usage \<Rightarrow>
               map_option Inr (previewOf (mk_Containers m) (mk_Images m) volumes (mk_Networks m)
                 (cacheCategory (mk_buildCacheBytes m) '''') usage))"

text \<open>The blocks of \<open>Prune\<close>: each changes the inventory and the bytes reclaimed so far.\<close>

definition prune_containers :: "Mock \<Rightarrow> Mock" where
  "prune_containers m = m\<lparr>mk_Containers := filter (\<lambda>c. containerKeptAlive (ct_State c)) (mk_Containers m)\<rparr>"

definition unused_images :: "Mock \<Rightarrow> Image list" where
  "unused_images m = filter (\<lambda>i. \<not> imageIsUsed i (usedImageKeys (mk_Containers m) (mk_Images m))) (mk_Images m)"

definition prune_images :: "Mock \<Rightarrow> Mock" where
  "prune_images m = m\<lparr>mk_Images := filter (\<lambda>i. imageIsUsed i (usedImageKeys (mk_Containers m) (mk_Images m))) (mk_Images m)\<rparr>"

definition prune_volumes :: "Mock \<Rightarrow> Mock" where
  "prune_volumes m = (if mk_Containers m \<noteq> [] then m else m\<lparr>mk_Volumes := []\<rparr>)"

definition prune_networks :: "Mock \<Rightarrow> Mock" where
  "prune_networks m = m\<lparr>mk_Networks := filter (\<lambda>n. isDefaultNetwork (nw_Name n)) (mk_Networks m)\<rparr>"

definition Mock_Prune :: "PruneOptions \<Rightarrow> Mock \<Rightarrow> (PruneResult result \<times> Mock) option" where
  "Mock_Prune opts m =
     (if \<not> running m then Some (Inl (Sentinel ErrRuntimeNotRunning), m)
      else if noCategory opts then Some (Inl (Sentinel ErrPruneCategoryRequired), m)
      else
        let m1 = (if po_Containers opts then prune_containers m else m);
            m2 = (if po_Images opts then prune_images m1 else m1);
            r2 = (if po_Images opts then sum_list (map (\<lambda>i. parseResourceSize (im_Size i)) (unused_images m1)) else 0);
            m3 = (if po_Volumes opts then prune_volumes m2 else m2);
            r3 = (if po_Volumes opts \<and> mk_Containers m2 = [] then sum_list (map volume_bytes (mk_Volumes m2)) else 0);
            m4 = (if po_Networks opts then prune_networks m3 else m3);
            m5 = (if po_BuildCache opts then m4\<lparr>mk_buildCacheBytes := 0\<rparr> else m4);
            r5 = (if po_BuildCache opts then mk_buildCacheBytes m4 else 0);
            reclaimed = r2 + r3 + r5
        in map_option (\<lambda>s. (Inr \<lparr>pr_Containers = po_Containers opts, pr_Images = po_Images opts,
             pr_Volumes = po_Volumes opts, pr_Networks = po_Networks opts, pr_BuildCache = po_BuildCache opts,
             pr_ReclaimedBytes = reclaimed, pr_ReclaimedSize = s\<rparr>, m5)) (FormatBytes reclaimed))"

section \<open>The mock as a runtime\<close>

definition Mock_Runtime :: "Mock Runtime" where
  "Mock_Runtime =
     \<lparr>rt_Start = Mock_Start None, rt_Stop = Mock_Stop, rt_ForceStop = Mock_ForceStop, rt_Status = (\<lambda>m. (Mock_Status m, m)),
       rt_ResourceUsage = (\<lambda>m. (Mock_ResourceUsage m, m)), rt_DockerSocket = Mock_DockerSocket,
       rt_ListContainers = (\<lambda>m. (Mock_ListContainers m, m)), rt_ListImages = (\<lambda>m. (Mock_ListImages m, m)),
       rt_ImageHistory = (\<lambda>ref m. (Mock_ImageHistory ref m, m)), rt_ListVolumes = (\<lambda>m. (Mock_ListVolumes m, m)),
       rt_InspectVolume = (\<lambda>name m. (Mock_InspectVolume name m, m)),
       rt_ListVolumeFiles = (\<lambda>name path m. (Mock_ListVolumeFiles name path m, m)),
       rt_VolumeContainers = (\<lambda>name m. (Mock_VolumeContainers name m, m)),
       rt_StartContainer = Mock_StartContainer, rt_StopContainer = Mock_StopContainer,
       rt_RemoveContainer = Mock_RemoveContainer, rt_RemoveImage = Mock_RemoveImage, rt_PullImage = Mock_PullImage,
       rt_PushImage = (\<lambda>ref m. (Mock_PushImage ref m, m)), rt_RunImage = (\<lambda>ref m. (Mock_RunImage ref m, m)),
       rt_CreateVolume = Mock_CreateVolume, rt_CloneVolume = Mock_CloneVolume,
       rt_ExportVolume = (\<lambda>opts m. (Mock_ExportVolume opts m, m)), rt_RemoveVolume = Mock_RemoveVolume,
       rt_ListContainerFiles = (\<lambda>_ path m. (Mock_ListContainerFiles path m, m)),
       rt_ExecContainer = (\<lambda>_ command m. (Mock_ExecContainer command m, m)),
       rt_ContainerStats = (\<lambda>cid m. (Mock_ContainerStats cid m, m)), rt_RestartContainer = Mock_RestartContainer,
       rt_RegistryStatus = (\<lambda>m. (Mock_RegistryStatus m, m)), rt_RegistryLogin = (\<lambda>_. Mock_RegistryLogin),
       rt_RegistryLogout = (\<lambda>_. Mock_RegistryLogout), rt_ListNetworks = (\<lambda>m. (Mock_ListNetworks m, m)),
       rt_InspectNetwork = (\<lambda>name m. (Mock_InspectNetwork name m, m)), rt_RemoveNetwork = Mock_RemoveNetwork,
       rt_PrunePreview = (\<lambda>m. map_option (\<lambda>r. (r, m)) (Mock_PrunePreview m)), rt_Prune = Mock_Prune,
       rt_SystemDiskUsage = (\<lambda>m. map_option (\<lambda>r. (r, m)) (Mock_SystemDiskUsage m))\<rparr>"

interpretation mock_runtime: runtime_contract Mock_Runtime
  by unfold_locales
    (auto simp: Mock_Runtime_def Mock_Start_def Mock_Stop_def Mock_Status_def set_state_def runtime_state_defs
      split: option.splits if_splits)

section \<open>Pruning keeps what is used and is idempotent\<close>

definition proper_image :: "Image \<Rightarrow> bool" where
  "proper_image i \<longleftrightarrow> im_ID i \<noteq> '''' \<and> TrimSpace (im_ID i) = im_ID i"

lemma mock_prune_fields [simp, prune_simps]:
  "mk_Images (prune_containers m) = mk_Images m" "mk_Volumes (prune_containers m) = mk_Volumes m"
  "mk_Networks (prune_containers m) = mk_Networks m" "mk_Containers (prune_images m) = mk_Containers m"
  "mk_Volumes (prune_images m) = mk_Volumes m" "mk_Networks (prune_images m) = mk_Networks m"
  "mk_Containers (prune_volumes m) = mk_Containers m" "mk_Images (prune_volumes m) = mk_Images m"
  "mk_Networks (prune_volumes m) = mk_Networks m" "mk_Containers (prune_networks m) = mk_Containers m"
  "mk_Images (prune_networks m) = mk_Images m" "mk_Volumes (prune_networks m) = mk_Volumes m"
  "mk_buildCacheBytes (prune_containers m) = mk_buildCacheBytes m" "mk_buildCacheBytes (prune_images m) = mk_buildCacheBytes m"
  "mk_buildCacheBytes (prune_volumes m) = mk_buildCacheBytes m" "mk_buildCacheBytes (prune_networks m) = mk_buildCacheBytes m"
  "running (prune_containers m) = running m" "running (prune_images m) = running m"
  "running (prune_volumes m) = running m" "running (prune_networks m) = running m"
  by (simp_all add: prune_containers_def prune_images_def prune_volumes_def prune_networks_def running_def)

text \<open>The state after a successful prune.\<close>

lemma Mock_Prune_state:
  assumes "Mock_Prune opts m = Some (Inr r, m')"
  shows "running m \<and> \<not> noCategory opts
    \<and> mk_Containers m' = (if po_Containers opts then filter (\<lambda>c. containerKeptAlive (ct_State c)) (mk_Containers m) else mk_Containers m)
    \<and> mk_Images m' = (if po_Images opts
        then filter (\<lambda>i. imageIsUsed i (usedImageKeys (mk_Containers m') (mk_Images m))) (mk_Images m) else mk_Images m)
    \<and> mk_Volumes m' = (if po_Volumes opts \<and> mk_Containers m' = [] then [] else mk_Volumes m)
    \<and> mk_Networks m' = (if po_Networks opts then filter (\<lambda>n. isDefaultNetwork (nw_Name n)) (mk_Networks m) else mk_Networks m)
    \<and> mk_buildCacheBytes m' = (if po_BuildCache opts then 0 else mk_buildCacheBytes m)
    \<and> running m'"
proof -
  have m': "m' = (let m1 = (if po_Containers opts then prune_containers m else m);
      m2 = (if po_Images opts then prune_images m1 else m1); m3 = (if po_Volumes opts then prune_volumes m2 else m2);
      m4 = (if po_Networks opts then prune_networks m3 else m3)
      in if po_BuildCache opts then m4\<lparr>mk_buildCacheBytes := 0\<rparr> else m4)" and r: "running m" "\<not> noCategory opts"
    using assms by (auto simp: Mock_Prune_def Let_def split: if_splits)
  have c: "mk_Containers (prune_containers x) = filter (\<lambda>c. containerKeptAlive (ct_State c)) (mk_Containers x)"
    "mk_Images (prune_images x) = filter (\<lambda>i. imageIsUsed i (usedImageKeys (mk_Containers x) (mk_Images x))) (mk_Images x)"
    "mk_Volumes (prune_volumes x) = (if mk_Containers x = [] then [] else mk_Volumes x)"
    "mk_Networks (prune_networks x) = filter (\<lambda>n. isDefaultNetwork (nw_Name n)) (mk_Networks x)"
    "running (x\<lparr>mk_buildCacheBytes := 0\<rparr>) = running x" for x
    by (simp_all add: prune_containers_def prune_images_def prune_volumes_def prune_networks_def running_def)
  show ?thesis using r by (auto simp: m' Let_def c)
qed

text \<open>Images with proper IDs that match a container are kept, so the used keys do not change.\<close>

lemma container_keys_filter:
  assumes "\<And>i. i \<in> set images \<Longrightarrow> TrimSpace (ct_Image c) \<noteq> '''' \<Longrightarrow> imageMatchesRef i (TrimSpace (ct_Image c)) \<Longrightarrow> P i"
  shows "set (container_keys (filter P images) c) = set (container_keys images c)"
  using assms by (auto simp: container_keys_def Let_def)

lemma used_keys_filter:
  assumes "\<forall>i \<in> set images. proper_image i"
  shows "set (usedImageKeys cs (filter (\<lambda>i. imageIsUsed i (usedImageKeys cs images)) images)) = set (usedImageKeys cs images)"
proof -
  have "set (container_keys (filter (\<lambda>i. imageIsUsed i (usedImageKeys cs images)) images) c) = set (container_keys images c)"
    if "c \<in> set cs" for c
    using that assms by (intro container_keys_filter matching_image_used) (auto simp: proper_image_def)
  then show ?thesis by (auto simp: usedImageKeys_def)
qed

lemma imageIsUsed_cong: "set used = set used' \<Longrightarrow> imageIsUsed i used = imageIsUsed i used'"
  by (simp add: imageIsUsed_def)

text \<open>The same facts, one per category.\<close>

lemma Mock_Prune_stateD:
  assumes "Mock_Prune opts m = Some (Inr r, m')"
  shows "running m'" "\<not> noCategory opts"
    "po_Containers opts \<Longrightarrow> mk_Containers m' = filter (\<lambda>c. containerKeptAlive (ct_State c)) (mk_Containers m)"
    "po_Images opts \<Longrightarrow> mk_Images m' = filter (\<lambda>i. imageIsUsed i (usedImageKeys (mk_Containers m') (mk_Images m))) (mk_Images m)"
    "po_Volumes opts \<Longrightarrow> mk_Containers m' = [] \<Longrightarrow> mk_Volumes m' = []"
    "po_Networks opts \<Longrightarrow> mk_Networks m' = filter (\<lambda>n. isDefaultNetwork (nw_Name n)) (mk_Networks m)"
    "po_BuildCache opts \<Longrightarrow> mk_buildCacheBytes m' = 0"
  using Mock_Prune_state [OF assms] by (elim conjE, simp)+

lemma prune_images_stable:
  assumes im: "mk_Images m' = filter (\<lambda>i. imageIsUsed i (usedImageKeys (mk_Containers m') images)) images"
    and "\<forall>i \<in> set images. proper_image i"
  shows "prune_images m' = m' \<and> unused_images m' = []"
proof -
  have "set (usedImageKeys (mk_Containers m') (mk_Images m')) = set (usedImageKeys (mk_Containers m') images)"
    unfolding im by (rule used_keys_filter [OF assms(2)])
  note used = imageIsUsed_cong [OF this]
  have "imageIsUsed x (usedImageKeys (mk_Containers m') (mk_Images m'))" if "x \<in> set (mk_Images m')" for x
    using that unfolding used by (subst (asm) im) simp
  then show ?thesis by (simp add: prune_images_def unused_images_def filter_True filter_empty_conv)
qed

text \<open>A state that each selected block leaves alone, with nothing to count.\<close>

lemma Mock_Prune_at_fixpoint:
  assumes "running m" "\<not> noCategory opts"
    and "po_Containers opts \<Longrightarrow> prune_containers m = m"
    and "po_Images opts \<Longrightarrow> prune_images m = m" "po_Images opts \<Longrightarrow> unused_images m = []"
    and "po_Volumes opts \<Longrightarrow> prune_volumes m = m"
    and "po_Volumes opts \<Longrightarrow> mk_Containers m = [] \<Longrightarrow> mk_Volumes m = []"
    and "po_Networks opts \<Longrightarrow> prune_networks m = m"
    and "po_BuildCache opts \<Longrightarrow> mk_buildCacheBytes m = 0"
  shows "\<exists>r. Mock_Prune opts m = Some (Inr r, m) \<and> pr_ReclaimedBytes r = 0"
proof -
  have z: "FormatBytes 0 = Some ''0 B''" by (simp add: FormatBytes_def)
  have b: "po_BuildCache opts \<Longrightarrow> m\<lparr>mk_buildCacheBytes := 0\<rparr> = m" using assms(9) by simp
  have e: "(if po_Containers opts then prune_containers m else m) = m" "(if po_Images opts then prune_images m else m) = m"
    "(if po_Volumes opts then prune_volumes m else m) = m" "(if po_Networks opts then prune_networks m else m) = m"
    "(if po_BuildCache opts then m\<lparr>mk_buildCacheBytes := 0\<rparr> else m) = m"
    "(if po_Images opts then sum_list (map (\<lambda>i. parseResourceSize (im_Size i)) (unused_images m)) else 0) = 0"
    "(if po_Volumes opts \<and> mk_Containers m = [] then sum_list (map volume_bytes (mk_Volumes m)) else 0) = 0"
    "(if po_BuildCache opts then mk_buildCacheBytes m else 0) = 0"
    using assms b by simp_all
  show ?thesis unfolding Mock_Prune_def Let_def e using assms(1,2) z by simp
qed

section \<open>Properties\<close>

text \<open>
  Pruning in the mock never removes anything in use: running containers stay, an image with a proper ID that
  matches a remaining container stays, volumes stay while a container remains, and the default
  networks stay.
\<close>

theorem Mock_Prune_keeps_used:
  assumes "Mock_Prune opts m = Some (Inr r, m')"
  shows "(c \<in> set (mk_Containers m) \<and> containerKeptAlive (ct_State c) \<longrightarrow> c \<in> set (mk_Containers m'))
    \<and> (c \<in> set (mk_Containers m') \<and> i \<in> set (mk_Images m) \<and> proper_image i \<and> TrimSpace (ct_Image c) \<noteq> ''''
        \<and> imageMatchesRef i (TrimSpace (ct_Image c)) \<longrightarrow> i \<in> set (mk_Images m'))
    \<and> (mk_Containers m' \<noteq> [] \<longrightarrow> mk_Volumes m' = mk_Volumes m)
    \<and> (n \<in> set (mk_Networks m) \<and> isDefaultNetwork (nw_Name n) \<longrightarrow> n \<in> set (mk_Networks m'))"
  using Mock_Prune_state [OF assms] matching_image_used [of c "mk_Containers m'" i "mk_Images m"]
  by (auto simp: proper_image_def)

definition all_options :: PruneOptions where
  "all_options = \<lparr>po_Containers = True, po_Images = True, po_Volumes = True, po_Networks = True, po_BuildCache = True\<rparr>"

theorem Mock_Prune_keeps_used_witness:
  "\<exists>r m'. Mock_Prune all_options NewMock = Some (Inr r, m') \<and> hd (mk_Containers NewMock) \<in> set (mk_Containers m')"
proof -
  have "case Mock_Prune all_options NewMock of Some (Inr r, m') \<Rightarrow> True | _ \<Rightarrow> False" by code_simp
  then obtain r m' where r: "Mock_Prune all_options NewMock = Some (Inr r, m')"
    by (auto split: option.splits sum.splits prod.splits)
  have "containerKeptAlive (ct_State (hd (mk_Containers NewMock)))" by code_simp
  then show ?thesis using Mock_Prune_keeps_used [OF r, of "hd (mk_Containers NewMock)"] r by (simp add: NewMock_def)
qed

text \<open>
  Pruning is complete in one go: with proper image IDs, pruning the same categories again changes
  nothing and reclaims nothing.
\<close>

theorem Mock_Prune_idempotent:
  assumes "Mock_Prune opts m = Some (Inr r, m')" "\<forall>i \<in> set (mk_Images m). proper_image i"
  shows "\<exists>r'. Mock_Prune opts m' = Some (Inr r', m') \<and> pr_ReclaimedBytes r' = 0"
proof -
  note st = Mock_Prune_stateD [OF assms(1)]
  have i: "prune_images m' = m' \<and> unused_images m' = []" if "po_Images opts"
    using prune_images_stable [OF st(4) [OF that] assms(2)] .
  show ?thesis
    by (rule Mock_Prune_at_fixpoint)
      (use st i in \<open>auto simp: prune_containers_def prune_volumes_def prune_networks_def\<close>)
qed

theorem Mock_Prune_idempotent_witness:
  "\<exists>r m' r'. Mock_Prune all_options NewMock = Some (Inr r, m') \<and> Mock_Prune all_options m' = Some (Inr r', m')"
proof -
  have "case Mock_Prune all_options NewMock of Some (Inr r, m') \<Rightarrow> True | _ \<Rightarrow> False" by code_simp
  then obtain r m' where r: "Mock_Prune all_options NewMock = Some (Inr r, m')"
    by (auto split: option.splits sum.splits prod.splits)
  have "\<forall>i \<in> set (mk_Images NewMock). proper_image i" by (simp add: NewMock_def proper_image_def trim_eval)
  from Mock_Prune_idempotent [OF r this] r show ?thesis by blast
qed

end
