(* ===== verification/Calf_Idle.thy ===== *)
theory Calf_Idle
  imports Calf_Mock Calf_Time
begin

text \<open>
  The idle engine (\<open>internal/daemon/resource_saver.go\<close>, \<open>resource_snapshot.go\<close>) and the start of the engine
  on demand (\<open>runtime_ready.go\<close>).  The resource saver stops an engine without running containers; while it
  is stopped, list requests are answered from a snapshot; a request that needs the engine starts it, and
  concurrent requests share one start.  The socket proxy is called for its effect only (its error is
  logged), so it is an argument, as is waiting.
\<close>

section \<open>State\<close>

record resourceSnapshot =
  sn_containers :: "Container list"
  sn_images :: "Image list"
  sn_volumes :: "Volume list"
  sn_networks :: "Network list"

record 'w Core =
  co_active :: bool
  co_idleAt :: Time
  co_snapshot :: resourceSnapshot
  co_world :: 'w

text \<open>What the core calls: the runtime, and \<open>UseProxy\<close> of the socket proxy.\<close>

record 'w Engine =
  en_Runtime :: "'w Runtime"
  en_UseProxy :: "'w \<Rightarrow> 'w"

text \<open>A call of the runtime changes the world of the core.\<close>

definition call :: "('w \<Rightarrow> 'a \<times> 'w) \<Rightarrow> 'w Core \<Rightarrow> 'a \<times> 'w Core" where
  "call f c = (let (r, w) = f (co_world c) in (r, c\<lparr>co_world := w\<rparr>))"

section \<open>The snapshot\<close>

definition replaceContainers :: "Container list \<Rightarrow> resourceSnapshot \<Rightarrow> resourceSnapshot" where
  "replaceContainers items s = s\<lparr>sn_containers := items\<rparr>"

definition replaceImages :: "Image list \<Rightarrow> resourceSnapshot \<Rightarrow> resourceSnapshot" where
  "replaceImages items s = s\<lparr>sn_images := items\<rparr>"

definition replaceVolumes :: "Volume list \<Rightarrow> resourceSnapshot \<Rightarrow> resourceSnapshot" where
  "replaceVolumes items s = s\<lparr>sn_volumes := items\<rparr>"

definition replaceNetworks :: "Network list \<Rightarrow> resourceSnapshot \<Rightarrow> resourceSnapshot" where
  "replaceNetworks items s = s\<lparr>sn_networks := items\<rparr>"

definition ResourceSaverActive :: "'w Core \<Rightarrow> bool" where
  "ResourceSaverActive c = co_active c"

definition serveResourceSnapshot :: "'w Engine \<Rightarrow> 'w Core \<Rightarrow> bool \<times> 'w Core" where
  "serveResourceSnapshot en c =
     (if \<not> ResourceSaverActive c then (False, c)
      else case call (rt_Status (en_Runtime en)) c of
        (Inl _, c1) \<Rightarrow> (True, c1)
      | (Inr status, c1) \<Rightarrow> (st_State status \<noteq> RuntimeStateRunning, c1))"

definition listSnapshot ::
    "'w Engine \<Rightarrow> ('a list, 'w) query \<Rightarrow> (resourceSnapshot \<Rightarrow> 'a list) \<Rightarrow> ('a list \<Rightarrow> resourceSnapshot \<Rightarrow> resourceSnapshot) \<Rightarrow>
     'w Core \<Rightarrow> 'a list result \<times> 'w Core" where
  "listSnapshot en live getItems setItems c =
     (case serveResourceSnapshot en c of
        (True, c1) \<Rightarrow> (Inr (getItems (co_snapshot c1)), c1)
      | (False, c1) \<Rightarrow>
          (case call live c1 of
             (Inl err, c2) \<Rightarrow> (Inl err, c2)
           | (Inr items, c2) \<Rightarrow> (Inr items, c2\<lparr>co_snapshot := setItems items (co_snapshot c2)\<rparr>)))"

definition Core_ListContainers :: "'w Engine \<Rightarrow> 'w Core \<Rightarrow> Container list result \<times> 'w Core" where
  "Core_ListContainers en = listSnapshot en (rt_ListContainers (en_Runtime en)) sn_containers replaceContainers"

definition Core_ListImages :: "'w Engine \<Rightarrow> 'w Core \<Rightarrow> Image list result \<times> 'w Core" where
  "Core_ListImages en = listSnapshot en (rt_ListImages (en_Runtime en)) sn_images replaceImages"

definition Core_ListVolumes :: "'w Engine \<Rightarrow> 'w Core \<Rightarrow> Volume list result \<times> 'w Core" where
  "Core_ListVolumes en = listSnapshot en (rt_ListVolumes (en_Runtime en)) sn_volumes replaceVolumes"

definition Core_ListNetworks :: "'w Engine \<Rightarrow> 'w Core \<Rightarrow> Network list result \<times> 'w Core" where
  "Core_ListNetworks en = listSnapshot en (rt_ListNetworks (en_Runtime en)) sn_networks replaceNetworks"

text \<open>One of the four blocks of \<open>captureResourceSnapshot\<close>: a list that cannot be read leaves the old one.\<close>

definition capture :: "('a list, 'w) query \<Rightarrow> ('a list \<Rightarrow> resourceSnapshot \<Rightarrow> resourceSnapshot) \<Rightarrow> 'w Core \<Rightarrow> 'w Core" where
  "capture live setItems c =
     (case call live c of
        (Inl _, c1) \<Rightarrow> c1
      | (Inr items, c1) \<Rightarrow> c1\<lparr>co_snapshot := setItems items (co_snapshot c1)\<rparr>)"

definition captureResourceSnapshot :: "'w Engine \<Rightarrow> 'w Core \<Rightarrow> 'w Core" where
  "captureResourceSnapshot en c =
     (let rt = en_Runtime en;
          c1 = capture (rt_ListContainers rt) replaceContainers c;
          c2 = capture (rt_ListImages rt) replaceImages c1;
          c3 = capture (rt_ListVolumes rt) replaceVolumes c2
      in capture (rt_ListNetworks rt) replaceNetworks c3)"

definition clearResourceSnapshot :: "'w Core \<Rightarrow> 'w Core" where
  "clearResourceSnapshot c =
     c\<lparr>co_snapshot := replaceNetworks [] (replaceVolumes [] (replaceImages [] (replaceContainers [] (co_snapshot c))))\<rparr>"

section \<open>The resource saver\<close>

definition Saver_Clear :: "'w Core \<Rightarrow> 'w Core" where
  "Saver_Clear c = c\<lparr>co_active := False, co_idleAt := zeroTime\<rparr>"

definition markActive :: "'w Core \<Rightarrow> 'w Core" where
  "markActive c = c\<lparr>co_active := True, co_idleAt := zeroTime\<rparr>"

definition ClearResourceSaver :: "'w Core \<Rightarrow> 'w Core" where
  "ClearResourceSaver c = Saver_Clear c"

definition hasRunningContainer :: "Container list \<Rightarrow> bool" where
  "hasRunningContainer containers =
     list_ex (\<lambda>container.
       let state = ToLower (TrimSpace (ct_State container)); status = ToLower (TrimSpace (ct_Status container))
       in state = ''running'' \<or> HasPrefix status ''up'') containers"

definition ForceStopRuntime :: "'w Engine \<Rightarrow> 'w Core \<Rightarrow> go_error option \<times> 'w Core" where
  "ForceStopRuntime en c =
     (case call (rt_ForceStop (en_Runtime en)) c of (err, c1) \<Rightarrow> (err, c1\<lparr>co_world := en_UseProxy en (co_world c1)\<rparr>))"

definition EnterResourceSaver :: "'w Engine \<Rightarrow> 'w Core \<Rightarrow> go_error option \<times> 'w Core" where
  "EnterResourceSaver en c =
     (case ForceStopRuntime en (markActive (captureResourceSnapshot en c)) of
        (Some err, c1) \<Rightarrow> (Some err, ClearResourceSaver c1)
      | (None, c1) \<Rightarrow> (None, c1))"

definition ResourceSaverTimeoutMinSec :: int where "ResourceSaverTimeoutMinSec = 30"

definition Saver_tick :: "'w Engine \<Rightarrow> bool \<Rightarrow> int \<Rightarrow> Time \<Rightarrow> 'w Core \<Rightarrow> 'w Core" where
  "Saver_tick en enabled timeoutSec0 now c =
     (if \<not> enabled then c\<lparr>co_idleAt := zeroTime\<rparr>
      else
        let timeoutSec = (if timeoutSec0 < ResourceSaverTimeoutMinSec then ResourceSaverTimeoutMinSec else timeoutSec0) in
        case call (rt_Status (en_Runtime en)) c of
          (Inl _, c1) \<Rightarrow> c1
        | (Inr status, c1) \<Rightarrow>
            if st_State status \<noteq> RuntimeStateRunning then c1\<lparr>co_idleAt := zeroTime\<rparr>
            else case call (rt_ListContainers (en_Runtime en)) c1 of
              (Inl _, c2) \<Rightarrow> c2
            | (Inr containers, c2) \<Rightarrow>
                if hasRunningContainer containers then c2\<lparr>co_idleAt := zeroTime, co_active := False\<rparr>
                else if IsZero (co_idleAt c2) then c2\<lparr>co_idleAt := now\<rparr>
                else
                  let idleFor = now - co_idleAt c2; alreadyActive = co_active c2 in
                  if alreadyActive \<or> idleFor < timeoutSec * Second then c2
                  else snd (EnterResourceSaver en c2))"

section \<open>What a tick sees\<close>

datatype observation = Disabled | ProbeFailed | NotRunning | Busy | Idle

definition observe :: "'w Engine \<Rightarrow> bool \<Rightarrow> 'w Core \<Rightarrow> observation" where
  "observe en enabled c =
     (if \<not> enabled then Disabled
      else case rt_Status (en_Runtime en) (co_world c) of
        (Inl _, w) \<Rightarrow> ProbeFailed
      | (Inr status, w) \<Rightarrow>
          if st_State status \<noteq> RuntimeStateRunning then NotRunning
          else case rt_ListContainers (en_Runtime en) w of
            (Inl _, _) \<Rightarrow> ProbeFailed
          | (Inr containers, _) \<Rightarrow> if hasRunningContainer containers then Busy else Idle)"

text \<open>
  Runs of the saver: a tick, with what it sees logged; any change of the world by others; and a clear
  by a request that starts or stops the engine.  The log has the latest tick first.
\<close>

type_synonym saver_log = "(Time \<times> observation) list"

inductive saver_run :: "'w Engine \<Rightarrow> 'w Core \<Rightarrow> saver_log \<Rightarrow> bool" for en :: "'w Engine" where
  sr_start: "IsZero (co_idleAt c) \<Longrightarrow> saver_run en c []"
| sr_tick: "saver_run en c seen \<Longrightarrow> saver_run en (Saver_tick en enabled timeoutSec now c) ((now, observe en enabled c) # seen)"
| sr_world: "saver_run en c seen \<Longrightarrow> saver_run en (c\<lparr>co_world := w, co_snapshot := s\<rparr>) seen"
| sr_clear: "saver_run en c seen \<Longrightarrow> saver_run en (ClearResourceSaver c) seen"

lemma capture_saver_fields [simp]: "co_idleAt (capture live setItems c) = co_idleAt c" "co_active (capture live setItems c) = co_active c"
  by (auto simp: capture_def call_def Let_def split: prod.splits sum.splits)

lemma EnterResourceSaver_saver:
  assumes "EnterResourceSaver en c = (e, c')"
  shows "co_idleAt c' = zeroTime \<and> (co_active c' \<longleftrightarrow> e = None)"
  using assms
  by (auto simp: EnterResourceSaver_def ForceStopRuntime_def ClearResourceSaver_def Saver_Clear_def markActive_def call_def
      Let_def split: prod.splits option.splits)

lemma Saver_tick_idleAt:
  "co_idleAt (Saver_tick en enabled timeoutSec now c) =
    (case observe en enabled c of
       ProbeFailed \<Rightarrow> co_idleAt c
     | Idle \<Rightarrow> if IsZero (co_idleAt c) then now
         else if co_active c \<or> now - co_idleAt c < max timeoutSec ResourceSaverTimeoutMinSec * Second then co_idleAt c else zeroTime
     | _ \<Rightarrow> zeroTime)"
  using EnterResourceSaver_saver [OF prod.collapse [symmetric]]
  by (auto simp: Saver_tick_def observe_def call_def Let_def max_def split: prod.splits sum.splits)

lemma Saver_tick_active:
  assumes "co_active (Saver_tick en enabled timeoutSec now c)" "\<not> co_active c"
  shows "observe en enabled c = Idle \<and> \<not> IsZero (co_idleAt c)
    \<and> max timeoutSec ResourceSaverTimeoutMinSec * Second \<le> now - co_idleAt c"
  using assms
  by (auto simp: Saver_tick_def observe_def call_def Let_def max_def split: prod.splits sum.splits if_splits)

text \<open>While the clock runs, it runs from a tick that saw the engine idle, and no later tick saw anything else.\<close>

definition idle_since :: "Time \<Rightarrow> saver_log \<Rightarrow> bool" where
  "idle_since t0 seen \<longleftrightarrow> (\<exists>post pre. seen = post @ (t0, Idle) # pre \<and> (\<forall>e \<in> set post. snd e \<in> {Idle, ProbeFailed}))"

lemma idle_since_Cons: "idle_since t0 seen \<Longrightarrow> ob \<in> {Idle, ProbeFailed} \<Longrightarrow> idle_since t0 ((t, ob) # seen)"
  unfolding idle_since_def by (metis append_Cons list.set_intros(1) set_ConsD snd_conv)

lemma saver_run_idle_since: "saver_run en c seen \<Longrightarrow> \<not> IsZero (co_idleAt c) \<Longrightarrow> idle_since (co_idleAt c) seen"
proof (induction rule: saver_run.induct)
  case (sr_tick c seen enabled timeoutSec now)
  have now: "idle_since now ((now, Idle) # seen)" unfolding idle_since_def by (metis append_Nil empty_iff list.set(1))
  show ?case
  proof (cases "observe en enabled c")
    case Idle
    then show ?thesis using sr_tick now by (auto simp: Saver_tick_idleAt IsZero_def intro: idle_since_Cons split: if_splits)
  next
    case ProbeFailed
    then show ?thesis using sr_tick by (auto simp: Saver_tick_idleAt intro: idle_since_Cons)
  qed (use sr_tick in \<open>auto simp: Saver_tick_idleAt IsZero_def\<close>)
next
  case (sr_clear c seen)
  then show ?case by (simp add: ClearResourceSaver_def Saver_Clear_def IsZero_def)
qed simp_all

section \<open>Snapshots\<close>

text \<open>A list as the engine last had it: what \<open>capture\<close> stores is what \<open>listSnapshot\<close> serves.\<close>

text \<open>A query that fits one list of the snapshot: what is stored is read back, and the other lists are kept.\<close>

locale snapshot_part =
  fixes getItems :: "resourceSnapshot \<Rightarrow> 'a list"
    and setItems :: "'a list \<Rightarrow> resourceSnapshot \<Rightarrow> resourceSnapshot"
  assumes get_set: "getItems (setItems items s) = items"
begin

lemma capture_stores:
  assumes "live (co_world c) = (Inr items, w)"
  shows "getItems (co_snapshot (capture live setItems c)) = items"
  using assms by (simp add: capture_def call_def get_set)

text \<open>While the engine is stopped by the saver, the stored list is served.\<close>

lemma served_from_snapshot:
  assumes "co_active c" "rt_Status (en_Runtime en) (co_world c) = (Inr status, w)" "st_State status \<noteq> RuntimeStateRunning"
  shows "fst (listSnapshot en live getItems setItems c) = Inr (getItems (co_snapshot c))"
  using assms by (simp add: listSnapshot_def serveResourceSnapshot_def ResourceSaverActive_def call_def)

text \<open>Otherwise the live list is served, and stored on the way.\<close>

lemma served_live:
  assumes "\<not> co_active c" "live (co_world c) = (Inr items, w)"
  shows "listSnapshot en live getItems setItems c = (Inr items, c\<lparr>co_world := w, co_snapshot := setItems items (co_snapshot c)\<rparr>)"
  using assms by (simp add: listSnapshot_def serveResourceSnapshot_def ResourceSaverActive_def call_def)

lemma live_then_idle:
  assumes "\<not> co_active c" "live (co_world c) = (Inr items, w)" "listSnapshot en live getItems setItems c = (r, c1)"
    and "co_active c2" "co_snapshot c2 = co_snapshot c1"
    and "rt_Status (en_Runtime en) (co_world c2) = (Inr status, w2)" "st_State status \<noteq> RuntimeStateRunning"
  shows "fst (listSnapshot en live getItems setItems c2) = r"
  using assms served_live [of c live items w en] served_from_snapshot [of c2 en status w2 live] by (auto simp: get_set)

end

interpretation containers_part: snapshot_part sn_containers replaceContainers
  by unfold_locales (simp add: replaceContainers_def)

interpretation images_part: snapshot_part sn_images replaceImages
  by unfold_locales (simp add: replaceImages_def)

interpretation volumes_part: snapshot_part sn_volumes replaceVolumes
  by unfold_locales (simp add: replaceVolumes_def)

interpretation networks_part: snapshot_part sn_networks replaceNetworks
  by unfold_locales (simp add: replaceNetworks_def)

lemma capture_keeps:
  "sn_containers (co_snapshot (capture q replaceImages c)) = sn_containers (co_snapshot c)"
  "sn_containers (co_snapshot (capture q' replaceVolumes c)) = sn_containers (co_snapshot c)"
  "sn_containers (co_snapshot (capture q'' replaceNetworks c)) = sn_containers (co_snapshot c)"
  by (auto simp: capture_def call_def Let_def replaceImages_def replaceVolumes_def replaceNetworks_def
      split: prod.splits sum.splits)

lemma EnterResourceSaver_snapshot:
  assumes "rt_ListContainers (en_Runtime en) (co_world c) = (Inr items, w)"
  shows "sn_containers (co_snapshot (snd (EnterResourceSaver en c))) = items"
proof -
  have "sn_containers (co_snapshot (captureResourceSnapshot en c)) = items"
    using containers_part.capture_stores [of "rt_ListContainers (en_Runtime en)" c items w, OF assms]
    by (simp add: captureResourceSnapshot_def Let_def capture_keeps)
  then show ?thesis
    by (simp add: EnterResourceSaver_def ForceStopRuntime_def ClearResourceSaver_def Saver_Clear_def markActive_def call_def
        Let_def split: prod.splits option.splits)
qed


section \<open>Starting on demand\<close>

text \<open>
  The poll after \<open>Start\<close>.  \<open>wait\<close> is the \<open>select\<close> between the start deadline, the end of the daemon and two
  seconds of sleep; the fuel bounds the number of polls.
\<close>

datatype wakeup = DeadlineHit | Canceled go_error | Slept

fun pollRunning :: "nat \<Rightarrow> 'w Engine \<Rightarrow> ('w \<Rightarrow> wakeup \<times> 'w) \<Rightarrow> 'w Core \<Rightarrow> (go_error option \<times> 'w Core) option" where
  "pollRunning 0 en wait c = None"
| "pollRunning (Suc n) en wait c =
     (case call (rt_Status (en_Runtime en)) c of
        (Inl err, c1) \<Rightarrow> Some (Some (Wrap ''Runtime.Status'' err), c1)
      | (Inr status, c1) \<Rightarrow>
          if st_State status = RuntimeStateRunning
          then let c2 = ClearResourceSaver c1 in Some (None, c2\<lparr>co_world := en_UseProxy en (co_world c2)\<rparr>)
          else case call wait c1 of
            (DeadlineHit, c2) \<Rightarrow> Some (Some (Errorf ''calf runtime did not start in time''), c2)
          | (Canceled err, c2) \<Rightarrow> Some (Some err, c2)
          | (Slept, c2) \<Rightarrow> pollRunning n en wait c2)"

definition startRuntimeUntilRunning ::
    "nat \<Rightarrow> 'w Engine \<Rightarrow> ('w \<Rightarrow> wakeup \<times> 'w) \<Rightarrow> 'w Core \<Rightarrow> (go_error option \<times> 'w Core) option" where
  "startRuntimeUntilRunning n en wait c =
     (case call (rt_Status (en_Runtime en)) c of
        (Inl err, c1) \<Rightarrow> Some (Some (Wrap ''Runtime.Status'' err), c1)
      | (Inr _, c1) \<Rightarrow>
          (case call (rt_Start (en_Runtime en)) c1 of
             (Some err, c2) \<Rightarrow> Some (Some (Wrap ''failed to start calf runtime'' err), c2)
           | (None, c2) \<Rightarrow> pollRunning n en wait c2))"

text \<open>
  The shared start of \<open>EnsureRuntimeRunning\<close>.  A start is a result object, numbered; \<open>sf_started\<close> are the
  goroutines that run one, \<open>sf_done\<close> the results that are set (the channel is closed then), and
  \<open>sf_waiting\<close> the callers in \<open>waitRuntimeStart\<close> with the object they wait for.  \<open>sf_returned\<close> is what callers
  got.
\<close>

record flights =
  sf_inflight :: "nat option"
  sf_next :: nat
  sf_started :: "nat list"
  sf_done :: "nat \<rightharpoonup> go_error option"
  sf_waiting :: "(nat \<times> nat) list"
  sf_returned :: "(nat \<times> nat \<times> go_error option) list"

definition no_flights :: flights where
  "no_flights = \<lparr>sf_inflight = None, sf_next = 0, sf_started = [], sf_done = (\<lambda>_. None), sf_waiting = [], sf_returned = []\<rparr>"

definition EnsureRuntimeRunning :: "nat \<Rightarrow> flights \<Rightarrow> flights" where
  "EnsureRuntimeRunning caller s =
     (case sf_inflight s of
        Some inflight \<Rightarrow> s\<lparr>sf_waiting := (caller, inflight) # sf_waiting s\<rparr>
      | None \<Rightarrow>
          let inflight = sf_next s
          in s\<lparr>sf_inflight := Some inflight, sf_next := inflight + 1, sf_started := inflight # sf_started s,
               sf_waiting := (caller, inflight) # sf_waiting s\<rparr>)"

text \<open>The end of the goroutine, under the lock.\<close>

definition startFinished :: "nat \<Rightarrow> go_error option \<Rightarrow> flights \<Rightarrow> flights" where
  "startFinished k err s =
     s\<lparr>sf_done := (sf_done s)(k \<mapsto> err), sf_inflight := None, sf_started := removeAll k (sf_started s)\<rparr>"

definition RuntimeStarting :: "flights \<Rightarrow> bool" where
  "RuntimeStarting s \<longleftrightarrow> sf_inflight s \<noteq> None"

definition waitRuntimeStart :: "nat \<Rightarrow> nat \<Rightarrow> go_error option \<Rightarrow> flights \<Rightarrow> flights" where
  "waitRuntimeStart caller k r s =
     s\<lparr>sf_waiting := removeAll (caller, k) (sf_waiting s), sf_returned := (caller, k, r) # sf_returned s\<rparr>"

inductive fstep :: "flights \<Rightarrow> flights \<Rightarrow> bool" where
  f_call: "caller \<notin> fst ` set (sf_waiting s) \<Longrightarrow> fstep s (EnsureRuntimeRunning caller s)"
| f_finish: "k \<in> set (sf_started s) \<Longrightarrow> fstep s (startFinished k err s)"
| f_return: "(caller, k) \<in> set (sf_waiting s) \<Longrightarrow> sf_done s k = Some r \<Longrightarrow> fstep s (waitRuntimeStart caller k r s)"
| f_give_up: "(caller, k) \<in> set (sf_waiting s) \<Longrightarrow> fstep s (waitRuntimeStart caller k (Some ctxErr) s)"

inductive_simps fstep_iff: "fstep s s'"

definition flights_inv :: "flights \<Rightarrow> bool" where
  "flights_inv s \<longleftrightarrow> sf_started s = (case sf_inflight s of Some k \<Rightarrow> [k] | None \<Rightarrow> [])
     \<and> (\<forall>k \<in> set (sf_started s). k < sf_next s \<and> sf_done s k = None) \<and> (\<forall>k. sf_done s k \<noteq> None \<longrightarrow> k < sf_next s)
     \<and> (\<forall>(caller, k) \<in> set (sf_waiting s). k \<in> set (sf_started s) \<or> sf_done s k \<noteq> None)"

lemma flights_inv_init: "flights_inv no_flights"
  by (simp add: flights_inv_def no_flights_def)

lemma flights_inv_step:
  assumes "fstep s s'" "flights_inv s"
  shows "flights_inv s'"
  using assms(1)
proof (cases rule: fstep.cases)
  case (f_call caller)
  then show ?thesis using assms(2)
    by (cases "sf_inflight s") (fastforce simp: flights_inv_def EnsureRuntimeRunning_def Let_def)+
next
  case (f_finish k err)
  then show ?thesis using assms(2)
    by (cases "sf_inflight s") (fastforce simp: flights_inv_def startFinished_def)+
qed (use assms(2) in \<open>auto simp: flights_inv_def waitRuntimeStart_def\<close>)

lemma flights_inv_steps: "fstep\<^sup>*\<^sup>* s s' \<Longrightarrow> flights_inv s \<Longrightarrow> flights_inv s'"
  by (induction rule: rtranclp_induct) (auto intro: flights_inv_step)


lemma pollRunning_returns:
  fixes left :: "'w \<Rightarrow> nat"
  assumes "\<And>w w'. wait w = (Slept, w') \<Longrightarrow> left w' < left w"
    and "\<And>w r w'. rt_Status (en_Runtime en) w = (r, w') \<Longrightarrow> left w' \<le> left w"
    and "left (co_world c) < n"
  shows "\<exists>r c'. pollRunning n en wait c = Some (r, c')
    \<and> (r = None \<longrightarrow> \<not> co_active c' \<and> (\<exists>w status w'. rt_Status (en_Runtime en) w = (Inr status, w')
        \<and> st_State status = RuntimeStateRunning \<and> co_world c' = en_UseProxy en w'))"
  using assms(3)
proof (induction n arbitrary: c)
  case (Suc n)
  obtain r w1 where s: "rt_Status (en_Runtime en) (co_world c) = (r, w1)" by (rule prod.exhaust)
  obtain k w2 where w: "wait w1 = (k, w2)" by (rule prod.exhaust)
  show ?case
  proof (cases "\<exists>status. r = Inr status \<and> st_State status \<noteq> RuntimeStateRunning \<and> k = Slept")
    case True
    then have "left w2 < n" using assms(1) [of w1 w2] assms(2) [OF s] w Suc.prems by fastforce
    then have ih: "left (co_world (c\<lparr>co_world := w2\<rparr>)) < n" by simp
    have "pollRunning (Suc n) en wait c = pollRunning n en wait (c\<lparr>co_world := w2\<rparr>)"
      using True by (auto simp: call_def s w)
    with Suc.IH [OF ih] show ?thesis by simp
  next
    case False
    have "\<exists>w status' w'. rt_Status (en_Runtime en) w = (Inr status', w') \<and> st_State status' = RuntimeStateRunning
        \<and> en_UseProxy en w1 = en_UseProxy en w'" if "r = Inr status" "st_State status = RuntimeStateRunning" for status
      using s that by blast
    with False show ?thesis
      by (cases r; cases k) (auto simp: call_def s w ClearResourceSaver_def Saver_Clear_def Let_def)
  qed
qed simp

section \<open>Properties\<close>

text \<open>
  C5: The resource saver stops the engine only after it has been idle for the configured time, and for
  thirty seconds at least: a tick that long ago saw the engine running without a running container, and
  no tick since saw a running container, a stopped engine or the saver disabled.
\<close>

theorem saver_waits_for_idle:
  assumes "saver_run en c seen" "\<not> co_active c" "co_active (Saver_tick en enabled timeoutSec now c)"
  shows "observe en enabled c = Idle
    \<and> (\<exists>t0. idle_since t0 seen \<and> timeoutSec * Second \<le> now - t0 \<and> 30 * Second \<le> now - t0)"
proof -
  have t: "observe en enabled c = Idle" "\<not> IsZero (co_idleAt c)"
      "max timeoutSec ResourceSaverTimeoutMinSec * Second \<le> now - co_idleAt c"
    using Saver_tick_active [OF assms(3,2)] by auto
  have "timeoutSec * Second \<le> now - co_idleAt c" "30 * Second \<le> now - co_idleAt c"
    using t(3) by (auto simp: ResourceSaverTimeoutMinSec_def max_def split: if_splits)
  then show ?thesis using t(1) saver_run_idle_since [OF assms(1) t(2)] by blast
qed

definition mock_engine :: "Mock Engine" where
  "mock_engine = \<lparr>en_Runtime = Mock_Runtime, en_UseProxy = (\<lambda>m. m)\<rparr>"

definition idle_core :: "Mock Core" where
  "idle_core = \<lparr>co_active = False, co_idleAt = zeroTime,
     co_snapshot = \<lparr>sn_containers = [], sn_images = [], sn_volumes = [], sn_networks = []\<rparr>, co_world = NewMock\<lparr>mk_Containers := []\<rparr>\<rparr>"

theorem saver_waits_for_idle_witness:
  "\<exists>t0. idle_since t0 [(0, observe mock_engine True idle_core)] \<and> 300 * Second \<le> 400 * Second - t0"
proof -
  have "saver_run mock_engine (Saver_tick mock_engine True 300 0 idle_core) [(0, observe mock_engine True idle_core)]"
    by (intro sr_tick sr_start) (simp add: idle_core_def IsZero_def)
  moreover have "\<not> co_active (Saver_tick mock_engine True 300 0 idle_core)" by code_simp
  moreover have "co_active (Saver_tick mock_engine True 300 (400 * Second) (Saver_tick mock_engine True 300 0 idle_core))" by code_simp
  ultimately show ?thesis using saver_waits_for_idle by blast
qed

text \<open>A world in which the first reading of the container list comes before a container starts, the second after.\<close>

definition race_runtime :: "bool Runtime" where
  "race_runtime = (Unsupported_Runtime (NewUnsupported '''' ''''))
     \<lparr>rt_Status := Pair (Inr ((Unsupported_Status (NewUnsupported '''' ''''))\<lparr>st_State := RuntimeStateRunning\<rparr>)),
      rt_ListContainers := (\<lambda>started. (Inr (if started then mk_Containers NewMock else []), True))\<rparr>"

text \<open>
  The list is read once to decide and once more for the snapshot, and the second reading is not
  looked at: a container that starts in between is seen, stored as running, and the engine is stopped
  under it.
\<close>

theorem saver_can_stop_running_container:
  "let c = Saver_tick \<lparr>en_Runtime = race_runtime, en_UseProxy = (\<lambda>w. w)\<rparr> True 300 (400 * Second)
       \<lparr>co_active = False, co_idleAt = 0,
        co_snapshot = \<lparr>sn_containers = [], sn_images = [], sn_volumes = [], sn_networks = []\<rparr>, co_world = False\<rparr>
   in co_active c \<and> hasRunningContainer (sn_containers (co_snapshot c))"
  by code_simp

text \<open>
  After the saver has stopped the engine, the container list that clients see is the one the engine
  had, as long as the engine is stopped.
\<close>

theorem idle_list_is_last_list:
  assumes "rt_ListContainers (en_Runtime en) (co_world c) = (Inr items, w)" "EnterResourceSaver en c = (None, c1)"
    and "rt_Status (en_Runtime en) (co_world c1) = (Inr status, w1)" "st_State status \<noteq> RuntimeStateRunning"
  shows "fst (Core_ListContainers en c1) = Inr items"
proof -
  have "sn_containers (co_snapshot c1) = items" using EnterResourceSaver_snapshot [OF assms(1)] assms(2) by simp
  moreover have "co_active c1" using EnterResourceSaver_saver [OF assms(2)] by simp
  ultimately show ?thesis unfolding Core_ListContainers_def
    using containers_part.served_from_snapshot [OF _ assms(3,4)] by simp
qed

theorem idle_list_is_last_list_witness:
  "fst (Core_ListContainers mock_engine (snd (EnterResourceSaver mock_engine (idle_core\<lparr>co_world := NewMock\<rparr>)))) = Inr (mk_Containers NewMock)"
proof (rule idle_list_is_last_list)
  show "rt_ListContainers (en_Runtime mock_engine) (co_world (idle_core\<lparr>co_world := NewMock\<rparr>)) = (Inr (mk_Containers NewMock), NewMock)"
    by (simp add: mock_engine_def Mock_Runtime_def Mock_ListContainers_def running_def NewMock_def)
  have e: "fst (EnterResourceSaver mock_engine (idle_core\<lparr>co_world := NewMock\<rparr>)) = None" by code_simp
  then show "EnterResourceSaver mock_engine (idle_core\<lparr>co_world := NewMock\<rparr>) = (None, snd (EnterResourceSaver mock_engine (idle_core\<lparr>co_world := NewMock\<rparr>)))"
    by (metis prod.collapse)
  let ?w = "co_world (snd (EnterResourceSaver mock_engine (idle_core\<lparr>co_world := NewMock\<rparr>)))"
  have "mk_StatusErr ?w = None" by code_simp
  then show "rt_Status (en_Runtime mock_engine) ?w = (Inr (mk_StatusValue ?w), ?w)"
    by (simp add: mock_engine_def Mock_Runtime_def Mock_Status_def)
  show "st_State (mk_StatusValue ?w) \<noteq> RuntimeStateRunning" by code_simp
qed

text \<open>
  C35: Starting the engine always comes to an end, given that sleeping brings the deadline nearer and that
  no sleep is left at the deadline; and when it reports success the engine was seen running, the saver
  is cleared and the socket proxy is restored.
\<close>

theorem start_terminates:
  fixes left :: "'w \<Rightarrow> nat"
  assumes "\<And>w w'. wait w = (Slept, w') \<Longrightarrow> left w' < left w"
    and "\<And>w r w'. rt_Status (en_Runtime en) w = (r, w') \<Longrightarrow> left w' \<le> left w"
    and "\<And>w r w'. rt_Start (en_Runtime en) w = (r, w') \<Longrightarrow> left w' \<le> left w"
    and "left (co_world c) < n"
  shows "\<exists>r c'. startRuntimeUntilRunning n en wait c = Some (r, c')
    \<and> (r = None \<longrightarrow> \<not> co_active c' \<and> (\<exists>w status w'. rt_Status (en_Runtime en) w = (Inr status, w')
        \<and> st_State status = RuntimeStateRunning \<and> co_world c' = en_UseProxy en w'))"
proof -
  obtain r1 w1 where s: "rt_Status (en_Runtime en) (co_world c) = (r1, w1)" by (rule prod.exhaust)
  obtain r2 w2 where t: "rt_Start (en_Runtime en) w1 = (r2, w2)" by (rule prod.exhaust)
  have "left (co_world (c\<lparr>co_world := w2\<rparr>)) < n" using assms(2) [OF s] assms(3) [OF t] assms(4) by simp
  from pollRunning_returns [where left = left and wait = wait and en = en, OF assms(1,2) this] show ?thesis
    by (cases r1; cases r2) (auto simp: startRuntimeUntilRunning_def call_def s t)
qed

theorem start_terminates_witness:
  "\<exists>r c'. startRuntimeUntilRunning 1 mock_engine (Pair DeadlineHit) idle_core = Some (r, c')"
  using start_terminates [of "Pair DeadlineHit" "\<lambda>_. 0" mock_engine idle_core 1] by auto

text \<open>
  However calls, ends of starts and cancelled waits interleave, at most one start runs at a time, a
  start is reported as running exactly while it runs, and every waiting caller waits for a start that
  runs or has finished, so none is left behind.
\<close>

theorem starts_are_shared:
  assumes "fstep\<^sup>*\<^sup>* no_flights s"
  shows "length (sf_started s) \<le> 1 \<and> (RuntimeStarting s \<longleftrightarrow> sf_started s \<noteq> [])
    \<and> ((caller, k) \<in> set (sf_waiting s) \<longrightarrow> k \<in> set (sf_started s) \<or> sf_done s k \<noteq> None)"
  using flights_inv_steps [OF assms flights_inv_init]
  by (cases "sf_inflight s") (auto simp: flights_inv_def RuntimeStarting_def)

theorem starts_are_shared_witness:
  "length (sf_started (EnsureRuntimeRunning 1 (EnsureRuntimeRunning 0 no_flights))) \<le> 1"
proof -
  have "fstep no_flights (EnsureRuntimeRunning 0 no_flights)" by (rule f_call) (simp add: no_flights_def)
  moreover have "fstep (EnsureRuntimeRunning 0 no_flights) (EnsureRuntimeRunning 1 (EnsureRuntimeRunning 0 no_flights))"
    by (rule f_call) (simp add: no_flights_def EnsureRuntimeRunning_def Let_def)
  ultimately show ?thesis using starts_are_shared rtranclp.rtrancl_into_rtrancl r_into_rtranclp by metis
qed


end
