(* ===== verification/Calf_Stats.thy ===== *)
theory Calf_Stats
  imports Calf_Runtime Calf_Time "HOL-Library.AList"
begin

text \<open>
  The stats history (\<open>internal/daemon/stats_history.go\<close>) and the sampler that fills it
  (\<open>stats_sampler.go\<close>).  The map of the code is an association list with distinct keys.  Go walks a map
  in an unspecified order, and the only walk whose order can matter is the one of \<open>resolveKeyLocked\<close>,
  which takes the order of the keys as an argument (\<open>order\<close>, any permutation).
\<close>

section \<open>The history\<close>

record StatsSample =
  ss_T :: int
  ss_CPUPerc :: string
  ss_MemUsage :: string
  ss_MemPerc :: string
  ss_NetIO :: string
  ss_BlockIO :: string
  ss_PIDs :: string

record statsHistory =
  sh_byID :: "(string \<times> StatsSample list) list"
  sh_retain :: int

type_synonym key_order = "string list \<Rightarrow> string list"

definition newStatsHistory :: "int \<Rightarrow> statsHistory" where
  "newStatsHistory retain = \<lparr>sh_byID = [], sh_retain = retain\<rparr>"

definition UnixMilli :: "Time \<Rightarrow> int" where
  "UnixMilli t = t div 1000000"

definition containerIDMatch :: "string \<Rightarrow> string \<Rightarrow> bool" where
  "containerIDMatch a b \<longleftrightarrow> a = b \<or> HasPrefix a b \<or> HasPrefix b a"

definition containerIDInSet :: "string \<Rightarrow> string list \<Rightarrow> bool" where
  "containerIDInSet cid keep \<longleftrightarrow> cid \<in> set keep \<or> list_ex (containerIDMatch cid) keep"

definition resolveKeyLocked :: "key_order \<Rightarrow> statsHistory \<Rightarrow> string \<Rightarrow> string" where
  "resolveKeyLocked order h cid =
     (let keys = map fst (sh_byID h) in
      if cid \<in> set keys then cid
      else case find (\<lambda>key. containerIDMatch key cid) (order keys) of Some key \<Rightarrow> key | None \<Rightarrow> '''')"

definition sample_of :: "ContainerStats \<Rightarrow> Time \<Rightarrow> StatsSample" where
  "sample_of stats at = \<lparr>ss_T = UnixMilli at, ss_CPUPerc = cs_CPUPerc stats, ss_MemUsage = cs_MemUsage stats,
     ss_MemPerc = cs_MemPerc stats, ss_NetIO = cs_NetIO stats, ss_BlockIO = cs_BlockIO stats, ss_PIDs = cs_PIDs stats\<rparr>"

definition Append :: "key_order \<Rightarrow> string \<Rightarrow> ContainerStats \<Rightarrow> Time \<Rightarrow> statsHistory \<Rightarrow> statsHistory" where
  "Append order id0 stats at h =
     (let cid = TrimSpace id0 in
      if cid = '''' then h
      else
        let key0 = resolveKeyLocked order h cid;
            key = (if key0 = '''' then cid else key0);
            cutoff = UnixMilli (at - sh_retain h);
            previous = (case map_of (sh_byID h) key of Some xs \<Rightarrow> xs | None \<Rightarrow> []);
            nxt = filter (\<lambda>existing. ss_T existing \<ge> cutoff) previous @ [sample_of stats at]
        in h\<lparr>sh_byID := AList.update key nxt (sh_byID h)\<rparr>)"

definition Samples :: "key_order \<Rightarrow> string \<Rightarrow> statsHistory \<Rightarrow> StatsSample list" where
  "Samples order id0 h =
     (let cid = TrimSpace id0 in
      if cid = '''' then []
      else let key = resolveKeyLocked order h cid in
        if key = '''' then [] else case map_of (sh_byID h) key of Some xs \<Rightarrow> xs | None \<Rightarrow> [])"

definition Forget :: "string \<Rightarrow> statsHistory \<Rightarrow> statsHistory" where
  "Forget id0 h =
     (let cid = TrimSpace id0 in
      if cid = '''' then h
      else h\<lparr>sh_byID := filter (\<lambda>(key, _). \<not> containerIDMatch key cid) (sh_byID h)\<rparr>)"

definition RetainOnly :: "string list \<Rightarrow> statsHistory \<Rightarrow> statsHistory" where
  "RetainOnly keep h = h\<lparr>sh_byID := filter (\<lambda>(key, _). containerIDInSet key keep) (sh_byID h)\<rparr>"

section \<open>The sampler\<close>

text \<open>The loop over the listed containers, with the IDs to keep so far.\<close>

fun sample_loop ::
    "'w Runtime \<Rightarrow> key_order \<Rightarrow> Time \<Rightarrow> Container list \<Rightarrow> string list \<Rightarrow> statsHistory \<Rightarrow> 'w \<Rightarrow>
     string list \<times> statsHistory \<times> 'w" where
  "sample_loop rt order now [] keep h w = (keep, h, w)"
| "sample_loop rt order now (container # containers) keep h w =
     (let cid = TrimSpace (ct_ID container) in
      if cid = '''' then sample_loop rt order now containers keep h w
      else let keep1 = cid # keep in
        if \<not> EqualFold (TrimSpace (ct_State container)) ''running''
        then sample_loop rt order now containers keep1 h w
        else case rt_ContainerStats rt cid w of
          (Inl _, w1) \<Rightarrow> sample_loop rt order now containers keep1 h w1
        | (Inr stats, w1) \<Rightarrow> sample_loop rt order now containers keep1 (Append order cid stats now h) w1)"

definition sampleContainerStats :: "'w Runtime \<Rightarrow> key_order \<Rightarrow> Time \<Rightarrow> statsHistory \<Rightarrow> 'w \<Rightarrow> statsHistory \<times> 'w" where
  "sampleContainerStats rt order now h w =
     (case rt_Status rt w of
        (Inl _, w1) \<Rightarrow> (h, w1)
      | (Inr status, w1) \<Rightarrow>
          if st_State status \<noteq> RuntimeStateRunning then (h, w1)
          else case rt_ListContainers rt w1 of
            (Inl _, w2) \<Rightarrow> (h, w2)
          | (Inr containers, w2) \<Rightarrow>
              let (keep, h1, w3) = sample_loop rt order now containers [] h w2
              in (RetainOnly keep h1, w3))"

section \<open>Keys\<close>

text \<open>The walk over a map visits every key, in some order.\<close>

definition order_ok :: "key_order \<Rightarrow> bool" where
  "order_ok order \<longleftrightarrow> (\<forall>ks. set (order ks) = set ks)"

abbreviation keys :: "statsHistory \<Rightarrow> string set" where
  "keys h \<equiv> fst ` set (sh_byID h)"

definition samples_of :: "statsHistory \<Rightarrow> string \<Rightarrow> StatsSample list" where
  "samples_of h key = (case map_of (sh_byID h) key of Some xs \<Rightarrow> xs | None \<Rightarrow> [])"

text \<open>No two keys name the same container.\<close>

definition stats_inv :: "statsHistory \<Rightarrow> bool" where
  "stats_inv h \<longleftrightarrow> distinct (map fst (sh_byID h)) \<and> '''' \<notin> keys h
     \<and> (\<forall>k1 \<in> keys h. \<forall>k2 \<in> keys h. containerIDMatch k1 k2 \<longrightarrow> k1 = k2)"

lemma match_iff: "containerIDMatch a b \<longleftrightarrow> prefix a b \<or> prefix b a"
  by (auto simp: containerIDMatch_def HasPrefix_def)

lemma match_refl [simp]: "containerIDMatch a a" and match_sym: "containerIDMatch a b = containerIDMatch b a"
  by (auto simp: match_iff)

lemma find_SomeD: "find P xs = Some x \<Longrightarrow> x \<in> set xs \<and> P x"
  by (auto simp: find_Some_iff)

lemma resolve_cases:
  assumes "order_ok order" "stats_inv h"
  obtains "cid \<in> keys h" "resolveKeyLocked order h cid = cid"
  | key where "cid \<notin> keys h" "key \<in> keys h" "containerIDMatch key cid" "resolveKeyLocked order h cid = key" "key \<noteq> ''''"
  | "\<And>key. key \<in> keys h \<Longrightarrow> \<not> containerIDMatch key cid" "resolveKeyLocked order h cid = ''''"
proof (cases "cid \<in> keys h")
  case True
  then show ?thesis using that(1) by (simp add: resolveKeyLocked_def Let_def image_image)
next
  case False
  have o: "set (order (map fst (sh_byID h))) = keys h" using assms(1) by (simp add: order_ok_def)
  show ?thesis
  proof (cases "find (\<lambda>key. containerIDMatch key cid) (order (map fst (sh_byID h)))")
    case None
    then have "\<not> containerIDMatch key cid" if "key \<in> keys h" for key using that o by (auto simp: find_None_iff)
    with None False show ?thesis by (intro that(3)) (simp_all add: resolveKeyLocked_def Let_def)
  next
    case (Some key)
    with find_SomeD [OF this] o have k: "key \<in> keys h" "containerIDMatch key cid" by auto
    then have "key \<noteq> []" using assms(2) unfolding stats_inv_def by blast
    with k Some False show ?thesis by (intro that(2) [of key]) (auto simp: resolveKeyLocked_def Let_def)
  qed
qed

text \<open>The key \<open>Append\<close> writes to.\<close>

definition target_key :: "key_order \<Rightarrow> statsHistory \<Rightarrow> string \<Rightarrow> string" where
  "target_key order h cid = (let key0 = resolveKeyLocked order h cid in if key0 = '''' then cid else key0)"

lemma Append_at:
  assumes "TrimSpace id0 = cid" "cid \<noteq> ''''"
  shows "Append order id0 stats at h = h\<lparr>sh_byID := AList.update (target_key order h cid)
    (filter (\<lambda>s. ss_T s \<ge> UnixMilli (at - sh_retain h)) (samples_of h (target_key order h cid)) @ [sample_of stats at]) (sh_byID h)\<rparr>"
  using assms by (simp add: Append_def Let_def target_key_def samples_of_def)

lemma keys_Append: "TrimSpace id0 = cid \<Longrightarrow> cid \<noteq> '''' \<Longrightarrow> keys (Append order id0 stats at h) = insert (target_key order h cid) (keys h)"
  by (simp add: Append_at dom_update)

lemma samples_of_Append:
  assumes "TrimSpace id0 = cid" "cid \<noteq> ''''"
  shows "samples_of (Append order id0 stats at h) key =
    (if key = target_key order h cid then filter (\<lambda>s. ss_T s \<ge> UnixMilli (at - sh_retain h)) (samples_of h key) @ [sample_of stats at]
     else samples_of h key)"
  using assms by (simp add: Append_at samples_of_def update_conv)

lemma target_key_cases:
  assumes "order_ok order" "stats_inv h" "cid \<noteq> ''''"
  shows "containerIDMatch (target_key order h cid) cid \<and> target_key order h cid \<noteq> ''''
    \<and> (target_key order h cid \<in> keys h \<or> (target_key order h cid = cid \<and> (\<forall>key \<in> keys h. \<not> containerIDMatch key cid)))"
  using assms(1,2)
proof (cases rule: resolve_cases [where cid = cid])
  case 1
  then show ?thesis using assms(3) by (simp add: target_key_def Let_def)
next
  case (2 key)
  then show ?thesis by (simp add: target_key_def Let_def)
next
  case 3
  then have "target_key order h cid = cid" by (simp add: target_key_def Let_def)
  with 3 assms(3) show ?thesis by simp
qed

lemmas target_key_matches = target_key_cases [THEN conjunct1] target_key_cases [THEN conjunct2, THEN conjunct1]
  target_key_cases [THEN conjunct2, THEN conjunct2]

lemma stats_inv_Append:
  assumes "order_ok order" "stats_inv h"
  shows "stats_inv (Append order id0 stats at h)"
proof (cases "TrimSpace id0 = ''''")
  case True
  then show ?thesis using assms by (simp add: Append_def)
next
  case False
  let ?k = "target_key order h (TrimSpace id0)"
  note k = target_key_matches [OF assms False]
  have d: "distinct (map fst (sh_byID h))" and e: "'''' \<notin> keys h"
    and u: "\<And>k1 k2. k1 \<in> keys h \<Longrightarrow> k2 \<in> keys h \<Longrightarrow> containerIDMatch k1 k2 \<Longrightarrow> k1 = k2"
    using assms(2) by (auto simp: stats_inv_def)
  have new: "k1 = ?k" if "k1 \<in> keys h" "containerIDMatch k1 ?k" for k1
    using k(3)
  proof
    assume "?k \<in> keys h"
    then show ?thesis using u that by blast
  next
    assume "?k = TrimSpace id0 \<and> (\<forall>key \<in> keys h. \<not> containerIDMatch key (TrimSpace id0))"
    then show ?thesis using that by metis
  qed
  have "k1 = k2" if "k1 \<in> insert ?k (keys h)" "k2 \<in> insert ?k (keys h)" "containerIDMatch k1 k2" for k1 k2
    using that new u by (metis insert_iff match_sym)
  moreover have "distinct (map fst (sh_byID (Append order id0 stats at h)))"
    using d False by (simp add: Append_at distinct_update)
  moreover have "'''' \<notin> insert ?k (keys h)" using k(2) e by auto
  ultimately show ?thesis unfolding stats_inv_def keys_Append [OF refl False] by blast
qed

lemma stats_inv_filter: "stats_inv h \<Longrightarrow> stats_inv (h\<lparr>sh_byID := filter P (sh_byID h)\<rparr>)"
  unfolding stats_inv_def by (auto simp: distinct_map intro: inj_on_subset) (metis fst_conv imageI)

lemma stats_inv_Forget: "stats_inv h \<Longrightarrow> stats_inv (Forget id0 h)"
  by (simp add: Forget_def Let_def stats_inv_filter)

lemma stats_inv_RetainOnly: "stats_inv h \<Longrightarrow> stats_inv (RetainOnly keep h)"
  by (simp add: RetainOnly_def stats_inv_filter)

lemma stats_inv_new [simp]: "stats_inv (newStatsHistory retain)"
  by (simp add: stats_inv_def newStatsHistory_def)


section \<open>Looking up\<close>

text \<open>A name that fits at most one key is resolved the same way in every order.\<close>

definition unambiguous :: "statsHistory \<Rightarrow> string \<Rightarrow> bool" where
  "unambiguous h cid \<longleftrightarrow> (\<forall>k1 \<in> keys h. \<forall>k2 \<in> keys h. containerIDMatch k1 cid \<and> containerIDMatch k2 cid \<longrightarrow> k1 = k2)"

text \<open>Only a name that two keys extend is ambiguous.\<close>

lemma unambiguous_if:
  assumes "stats_inv h" "\<And>k1 k2. k1 \<in> keys h \<Longrightarrow> k2 \<in> keys h \<Longrightarrow> strict_prefix cid k1 \<Longrightarrow> strict_prefix cid k2 \<Longrightarrow> k1 = k2"
  shows "unambiguous h cid"
  unfolding unambiguous_def
proof (intro ballI impI)
  fix k1 k2 assume k: "k1 \<in> keys h" "k2 \<in> keys h" and m: "containerIDMatch k1 cid \<and> containerIDMatch k2 cid"
  show "k1 = k2"
  proof (cases "strict_prefix cid k1 \<and> strict_prefix cid k2")
    case True
    then show ?thesis using assms(2) k by blast
  next
    case False
    with m have "containerIDMatch k1 k2"
      unfolding match_iff strict_prefix_def by (metis prefix_order.trans prefix_same_cases)
    then show ?thesis using assms(1) k unfolding stats_inv_def by blast
  qed
qed

lemma resolve_unique:
  assumes "order_ok order" "stats_inv h" "unambiguous h cid" "key \<in> keys h" "containerIDMatch key cid"
  shows "resolveKeyLocked order h cid = key"
  using assms(1,2)
proof (cases rule: resolve_cases [where cid = cid])
  case 1
  then have "key = cid" using assms(3,4,5) match_refl unfolding unambiguous_def by blast
  with 1 show ?thesis by simp
next
  case (2 k)
  then have "key = k" using assms(3,4,5) unfolding unambiguous_def by blast
  with 2 show ?thesis by simp
next
  case 3
  then show ?thesis using assms(4,5) by blast
qed

lemma Samples_resolved:
  assumes "TrimSpace id0 = cid" "cid \<noteq> ''''" "resolveKeyLocked order h cid = key" "key \<noteq> ''''"
  shows "Samples order id0 h = samples_of h key"
  using assms by (simp add: Samples_def Let_def samples_of_def)

lemma Samples_none:
  assumes "order_ok order" "stats_inv h" "\<And>key. key \<in> keys h \<Longrightarrow> \<not> containerIDMatch key (TrimSpace id0)"
  shows "Samples order id0 h = []"
  using assms(1,2)
proof (cases rule: resolve_cases [where cid = "TrimSpace id0"])
  case 1
  then show ?thesis using assms(3) match_refl by blast
next
  case (2 key)
  then show ?thesis using assms(3) by blast
next
  case 3
  then show ?thesis by (simp add: Samples_def Let_def)
qed

section \<open>Retention\<close>

text \<open>Samples in order of time, none older than the window before the latest.\<close>

definition windowed :: "int \<Rightarrow> StatsSample list \<Rightarrow> bool" where
  "windowed retain xs \<longleftrightarrow> sorted (map ss_T xs) \<and> (\<forall>x \<in> set xs. \<forall>y \<in> set xs. ss_T y - ss_T x \<le> UnixMilli retain + 1)"

lemma windowed_Append_list:
  assumes "windowed retain xs" "\<forall>x \<in> set xs. ss_T x \<le> UnixMilli at" "ss_T s = UnixMilli at" "0 \<le> retain"
  shows "windowed retain (filter (\<lambda>x. ss_T x \<ge> UnixMilli (at - retain)) xs @ [s])"
proof -
  have "UnixMilli at - UnixMilli (at - retain) \<le> UnixMilli retain + 1" unfolding UnixMilli_def by linarith
  moreover have "0 \<le> UnixMilli retain" unfolding UnixMilli_def using assms(4) by linarith
  moreover have "sorted (map ss_T (filter (\<lambda>x. ss_T x \<ge> UnixMilli (at - retain)) xs))"
    using assms(1) by (simp add: windowed_def sorted_filter)
  ultimately show ?thesis using assms(1-3) by (fastforce simp: windowed_def sorted_append)
qed


text \<open>The histories that arise from recording with a clock that does not go back.\<close>

inductive recorded :: "int \<Rightarrow> statsHistory \<Rightarrow> Time \<Rightarrow> bool" for retain :: int where
  rec_new: "recorded retain (newStatsHistory retain) t"
| rec_append: "recorded retain h t \<Longrightarrow> t \<le> at \<Longrightarrow> order_ok order \<Longrightarrow> recorded retain (Append order id0 stats at h) at"
| rec_forget: "recorded retain h t \<Longrightarrow> recorded retain (Forget id0 h) t"
| rec_retain: "recorded retain h t \<Longrightarrow> recorded retain (RetainOnly keep h) t"

lemma samples_of_filter:
  assumes "distinct (map fst (sh_byID h))"
  shows "samples_of (h\<lparr>sh_byID := filter P (sh_byID h)\<rparr>) key \<in> {[], samples_of h key}"
proof (cases "map_of (filter P (sh_byID h)) key")
  case (Some xs)
  then have "(key, xs) \<in> set (sh_byID h)" using map_of_SomeD by fastforce
  then have "map_of (sh_byID h) key = Some xs" using assms by (simp add: map_of_is_SomeI)
  with Some show ?thesis by (simp add: samples_of_def)
qed (simp add: samples_of_def)

lemma sh_retain_simps [simp]:
  "sh_retain (Append order id0 stats at h) = sh_retain h" "sh_retain (Forget id0 h) = sh_retain h"
  "sh_retain (RetainOnly keep h) = sh_retain h"
  by (simp_all add: Append_def Forget_def RetainOnly_def Let_def)

definition rec_inv :: "int \<Rightarrow> statsHistory \<Rightarrow> Time \<Rightarrow> bool" where
  "rec_inv retain h t \<longleftrightarrow> stats_inv h \<and> sh_retain h = retain
     \<and> (\<forall>key. windowed retain (samples_of h key) \<and> (\<forall>x \<in> set (samples_of h key). ss_T x \<le> UnixMilli t))"

lemma rec_inv_filter:
  assumes "rec_inv retain h t"
  shows "rec_inv retain (h\<lparr>sh_byID := filter P (sh_byID h)\<rparr>) t"
proof -
  have d: "distinct (map fst (sh_byID h))" using assms by (simp add: rec_inv_def stats_inv_def)
  have "windowed retain (samples_of (h\<lparr>sh_byID := filter P (sh_byID h)\<rparr>) key)
      \<and> (\<forall>x \<in> set (samples_of (h\<lparr>sh_byID := filter P (sh_byID h)\<rparr>) key). ss_T x \<le> UnixMilli t)" for key
    using samples_of_filter [OF d, of P key] assms by (auto simp: rec_inv_def windowed_def)
  then show ?thesis using assms stats_inv_filter by (simp add: rec_inv_def)
qed

lemma rec_inv_Append:
  assumes "rec_inv retain h t" "t \<le> at" "order_ok order" "0 \<le> retain"
  shows "rec_inv retain (Append order id0 stats at h) at"
proof -
  have mono: "UnixMilli t \<le> UnixMilli at" unfolding UnixMilli_def using assms(2) by (rule zdiv_mono1) simp
  have old: "windowed retain (samples_of h key)" "\<forall>x \<in> set (samples_of h key). ss_T x \<le> UnixMilli at" for key
    using assms(1) mono by (auto simp: rec_inv_def intro: order_trans)
  have r: "sh_retain h = retain" "stats_inv h" using assms(1) by (simp_all add: rec_inv_def)
  have T: "ss_T (sample_of stats at) = UnixMilli at" by (simp add: sample_of_def)
  have "windowed retain (samples_of (Append order id0 stats at h) key)
      \<and> (\<forall>x \<in> set (samples_of (Append order id0 stats at h) key). ss_T x \<le> UnixMilli at)" for key
  proof (cases "TrimSpace id0 = ''''")
    case True
    then show ?thesis using old by (simp add: Append_def)
  next
    case False
    then show ?thesis using old [of key] windowed_Append_list [OF old [of key] T assms(4)] T
      by (auto simp: samples_of_Append r)
  qed
  then show ?thesis using stats_inv_Append [OF assms(3)] r by (simp add: rec_inv_def)
qed

lemma recorded_inv: "recorded retain h t \<Longrightarrow> 0 \<le> retain \<Longrightarrow> rec_inv retain h t"
proof (induction rule: recorded.induct)
  case (rec_new t)
  then show ?case by (simp add: rec_inv_def newStatsHistory_def samples_of_def windowed_def stats_inv_def)
next
  case (rec_append h t at order id0 stats)
  then show ?case by (simp add: rec_inv_Append)
next
  case (rec_forget h t id0)
  then show ?case by (simp add: Forget_def Let_def rec_inv_filter)
next
  case (rec_retain h t keep)
  then show ?case by (simp add: RetainOnly_def rec_inv_filter)
qed


section \<open>The sampler\<close>

definition sampled :: "statsHistory \<Rightarrow> string \<Rightarrow> Time \<Rightarrow> bool" where
  "sampled h cid now \<longleftrightarrow> (\<exists>key \<in> keys h. containerIDMatch key cid \<and> samples_of h key \<noteq> [] \<and> ss_T (last (samples_of h key)) = UnixMilli now)"

lemma sampled_Append:
  assumes "order_ok order" "stats_inv h" "TrimSpace id0 \<noteq> ''''"
  shows "sampled (Append order id0 stats now h) (TrimSpace id0) now"
  unfolding sampled_def keys_Append [OF refl assms(3)]
  using target_key_matches(1) [OF assms]
  by (intro bexI [of _ "target_key order h (TrimSpace id0)"]) (simp_all add: samples_of_Append [OF refl assms(3)] sample_of_def)

lemma sampled_Append_mono:
  assumes "sampled h cid now"
  shows "sampled (Append order id0 stats now h) cid now"
proof (cases "TrimSpace id0 = ''''")
  case False
  from assms obtain key where k: "key \<in> keys h" "containerIDMatch key cid" "samples_of h key \<noteq> []"
      "ss_T (last (samples_of h key)) = UnixMilli now"
    by (auto simp: sampled_def)
  then show ?thesis unfolding sampled_def keys_Append [OF refl False]
    by (intro bexI [of _ key]) (auto simp: samples_of_Append [OF refl False] sample_of_def)
qed (use assms in \<open>simp add: Append_def\<close>)

lemma sample_loop_keep:
  "set (fst (sample_loop rt order now cs keep h w)) = set keep \<union> {TrimSpace (ct_ID c) | c. c \<in> set cs \<and> TrimSpace (ct_ID c) \<noteq> ''''}"
  by (induction rt order now cs keep h w rule: sample_loop.induct)
    (auto simp: Let_def split: prod.splits sum.splits)

lemma sample_loop_inv:
  assumes "order_ok order" "stats_inv h"
  shows "stats_inv (fst (snd (sample_loop rt order now cs keep h w)))"
  using assms(2)
proof (induction cs arbitrary: keep h w)
  case (Cons c cs)
  then show ?case using stats_inv_Append [OF assms(1)] by (auto simp: Let_def split: prod.splits sum.splits)
qed simp

lemma sample_loop_mono:
  "sampled h cid now \<Longrightarrow> sampled (fst (snd (sample_loop rt order now cs keep h w))) cid now"
proof (induction cs arbitrary: keep h w)
  case (Cons c cs)
  then show ?case using sampled_Append_mono by (simp add: Let_def split: prod.splits sum.splits)
qed simp

text \<open>A running container whose stats can always be read.\<close>

definition readable :: "'w Runtime \<Rightarrow> Container \<Rightarrow> bool" where
  "readable rt c \<longleftrightarrow> TrimSpace (ct_ID c) \<noteq> '''' \<and> EqualFold (TrimSpace (ct_State c)) ''running''
     \<and> (\<forall>w. \<exists>stats w'. rt_ContainerStats rt (TrimSpace (ct_ID c)) w = (Inr stats, w'))"

lemma sample_loop_samples:
  assumes "order_ok order" "stats_inv h" "c \<in> set cs" "readable rt c"
  shows "sampled (fst (snd (sample_loop rt order now cs keep h w))) (TrimSpace (ct_ID c)) now"
  using assms(2,3)
proof (induction cs arbitrary: keep h w)
  case (Cons d cs)
  show ?case
  proof (cases "d = c")
    case True
    obtain stats w' where s: "rt_ContainerStats rt (TrimSpace (ct_ID c)) w = (Inr stats, w')"
      using assms(4) unfolding readable_def by blast
    have "sampled (Append order (TrimSpace (ct_ID c)) stats now h) (TrimSpace (ct_ID c)) now"
      using sampled_Append [OF assms(1) Cons.prems(1), of "TrimSpace (ct_ID c)"] assms(4) by (simp add: readable_def)
    then show ?thesis using assms(4) by (simp add: True readable_def s Let_def sample_loop_mono)
  next
    case False
    then have c: "c \<in> set cs" using Cons.prems(2) by simp
    show ?thesis using Cons.IH [OF _ c] Cons.prems(1) stats_inv_Append [OF assms(1) Cons.prems(1)]
      by (auto simp: Let_def split: prod.splits sum.splits)
  qed
qed simp

lemma keys_RetainOnly: "keys (RetainOnly keep h) = {key \<in> keys h. containerIDInSet key keep}"
  by (force simp: RetainOnly_def)

lemma samples_of_RetainOnly: "containerIDInSet key keep \<Longrightarrow> samples_of (RetainOnly keep h) key = samples_of h key"
proof -
  assume "containerIDInSet key keep"
  then have "map_of (filter (\<lambda>(k, _). containerIDInSet k keep) xs) key = map_of xs key" for xs :: "(string \<times> StatsSample list) list"
    by (induction xs) auto
  then show ?thesis by (simp add: RetainOnly_def samples_of_def)
qed

lemma inSet_iff: "containerIDInSet key keep \<longleftrightarrow> (\<exists>c \<in> set keep. containerIDMatch key c)"
  unfolding containerIDInSet_def list_ex_iff using match_refl by blast

section \<open>Properties\<close>

text \<open>
  Whatever is recorded and dropped, with a clock that does not go back: no two keys of the
  history name the same container, the samples of a container are in order of time, and no two of them
  are further apart than the retention window (in milliseconds, with one for rounding).
\<close>

theorem history_invariant:
  assumes "recorded retain h t" "0 \<le> retain"
  shows "stats_inv h \<and> windowed retain (samples_of h key)"
  using recorded_inv [OF assms] by (simp add: rec_inv_def)

definition zero_stats :: ContainerStats where
  "zero_stats = \<lparr>cs_CPUPerc = '''', cs_MemUsage = '''', cs_MemPerc = '''', cs_NetIO = '''', cs_BlockIO = '''', cs_PIDs = ''''\<rparr>"

theorem history_invariant_witness:
  "stats_inv (Append id ''a1'' zero_stats 7000000 (newStatsHistory 5000000))
   \<and> windowed 5000000 (samples_of (Append id ''a1'' zero_stats 7000000 (newStatsHistory 5000000)) ''a1'')"
proof -
  have "recorded 5000000 (Append id ''a1'' zero_stats 7000000 (newStatsHistory 5000000)) 7000000"
    by (rule rec_append [OF rec_new [of _ 0]]) (simp_all add: order_ok_def)
  from history_invariant [OF this] show ?thesis by simp
qed

text \<open>
  What is recorded is found again, under the same name and whatever order Go walks the map in, after
  the retained earlier samples, and nothing changes for any other key.
\<close>

theorem Samples_after_Append:
  assumes "order_ok order" "order_ok order'" "stats_inv h" "unambiguous h (TrimSpace id0)" "TrimSpace id0 \<noteq> ''''"
  shows "Samples order' id0 (Append order id0 stats at h) =
      filter (\<lambda>s. ss_T s \<ge> UnixMilli (at - sh_retain h)) (Samples order' id0 h) @ [sample_of stats at]
    \<and> (key \<noteq> target_key order h (TrimSpace id0) \<longrightarrow> samples_of (Append order id0 stats at h) key = samples_of h key)"
proof -
  let ?c = "TrimSpace id0" and ?h = "Append order id0 stats at h"
  let ?k = "target_key order h ?c"
  note k = target_key_matches [OF assms(1,3,5)] and inv = stats_inv_Append [OF assms(1,3)]
  have keys: "keys ?h = insert ?k (keys h)" by (rule keys_Append [OF refl assms(5)])
  have un: "unambiguous ?h ?c" unfolding unambiguous_def keys using k(1,3) assms(4) unfolding unambiguous_def by blast
  have "resolveKeyLocked order' ?h ?c = ?k" using k(1) by (intro resolve_unique [OF assms(2) inv un]) (simp_all add: keys)
  then have new: "Samples order' id0 ?h = samples_of ?h ?k" using k(2) assms(5) Samples_resolved by blast
  have old: "Samples order' id0 h = samples_of h ?k" using k(3)
  proof
    assume "?k \<in> keys h"
    then have "resolveKeyLocked order' h ?c = ?k" using resolve_unique [OF assms(2,3,4)] k(1) by blast
    then show ?thesis using k(2) assms(5) Samples_resolved by blast
  next
    assume "?k = ?c \<and> (\<forall>key \<in> keys h. \<not> containerIDMatch key ?c)"
    moreover from this have "?k \<notin> keys h" by (metis match_refl)
    ultimately have "samples_of h ?k = []" and n: "\<And>key. key \<in> keys h \<Longrightarrow> \<not> containerIDMatch key ?c"
      by (auto simp: samples_of_def map_of_eq_None_iff [THEN iffD2])
    then show ?thesis using Samples_none [OF assms(2,3) n] by simp
  qed
  show ?thesis unfolding new old by (simp add: samples_of_Append [OF refl assms(5)])
qed

theorem Samples_after_Append_witness:
  "Samples rev ''ab'' (Append id ''ab'' zero_stats 7000000 (Append id ''abc'' zero_stats 6000000 (newStatsHistory 5000000)))
    = [sample_of zero_stats 6000000, sample_of zero_stats 7000000]"
proof -
  let ?h = "Append id ''abc'' zero_stats 6000000 (newStatsHistory 5000000)"
  have h: "sh_byID ?h = [(''abc'', [sample_of zero_stats 6000000])]" by code_simp
  have i: "stats_inv ?h" by (rule stats_inv_Append) (simp_all add: order_ok_def)
  have t: "TrimSpace ''ab'' = ''ab''" by code_simp
  have "unambiguous ?h (TrimSpace ''ab'')" by (simp add: unambiguous_def h)
  then have "Samples rev ''ab'' (Append id ''ab'' zero_stats 7000000 ?h) =
      filter (\<lambda>s. ss_T s \<ge> UnixMilli (7000000 - sh_retain ?h)) (Samples rev ''ab'' ?h) @ [sample_of zero_stats 7000000]"
    using Samples_after_Append [of id rev ?h "''ab''" zero_stats 7000000] i by (simp add: order_ok_def t)
  moreover have "filter (\<lambda>s. ss_T s \<ge> UnixMilli (7000000 - sh_retain ?h)) (Samples rev ''ab'' ?h) = [sample_of zero_stats 6000000]"
    by code_simp
  ultimately show ?thesis by simp
qed

text \<open>
  A sampling round leaves the history with exactly the live containers: every key that is left fits
  a listed container, and every listed running container whose stats can be read has a sample of now.
\<close>

theorem sampling_round:
  assumes "order_ok order" "stats_inv h" "rt_Status rt w = (Inr status, w1)" "st_State status = RuntimeStateRunning"
    and "rt_ListContainers rt w1 = (Inr cs, w2)" "sampleContainerStats rt order now h w = (h', w')"
  shows "stats_inv h' \<and> (key \<in> keys h' \<longrightarrow> (\<exists>c. c \<in> set cs \<and> TrimSpace (ct_ID c) \<noteq> '''' \<and> containerIDMatch key (TrimSpace (ct_ID c))))
    \<and> (c \<in> set cs \<and> readable rt c \<longrightarrow> sampled h' (TrimSpace (ct_ID c)) now)"
proof -
  let ?l = "sample_loop rt order now cs [] h w2"
  have h': "h' = RetainOnly (fst ?l) (fst (snd ?l))"
    using assms(3-6) by (simp add: sampleContainerStats_def split: prod.splits)
  have keep: "set (fst ?l) = {TrimSpace (ct_ID c) | c. c \<in> set cs \<and> TrimSpace (ct_ID c) \<noteq> ''''}"
    using sample_loop_keep [of rt order now cs "[]" h w2] by simp
  have "sampled h' (TrimSpace (ct_ID c)) now" if c: "c \<in> set cs" "readable rt c"
  proof -
    obtain k where k: "k \<in> keys (fst (snd ?l))" "containerIDMatch k (TrimSpace (ct_ID c))"
        "samples_of (fst (snd ?l)) k \<noteq> []" "ss_T (last (samples_of (fst (snd ?l)) k)) = UnixMilli now"
      using sample_loop_samples [OF assms(1,2) c, of now "[]" w2] by (auto simp: sampled_def)
    have "containerIDInSet k (fst ?l)" using k(2) c by (auto simp: inSet_iff keep readable_def)
    with k show ?thesis unfolding sampled_def h' keys_RetainOnly by (auto simp: samples_of_RetainOnly)
  qed
  moreover have "stats_inv h'" unfolding h' by (intro stats_inv_RetainOnly sample_loop_inv assms(1,2))
  moreover have "key \<in> keys h' \<longrightarrow> (\<exists>c. c \<in> set cs \<and> TrimSpace (ct_ID c) \<noteq> [] \<and> containerIDMatch key (TrimSpace (ct_ID c)))"
    unfolding h' keys_RetainOnly inSet_iff keep by blast
  ultimately show ?thesis by blast
qed


definition stats_runtime :: "unit Runtime" where
  "stats_runtime = (Unsupported_Runtime (NewUnsupported '''' ''''))
     \<lparr>rt_Status := Pair (Inr ((Unsupported_Status (NewUnsupported '''' ''''))\<lparr>st_State := RuntimeStateRunning\<rparr>)),
      rt_ListContainers := Pair (Inr [\<lparr>ct_ID = ''abc'', ct_Name = ''web'', ct_Image = ''nginx'', ct_State = ''Running'',
        ct_Status = ''Up'', ct_Ports = '''', ct_Created = '''', ct_ComposeProject = '''', ct_ComposeService = ''''\<rparr>]),
      rt_ContainerStats := (\<lambda>_. Pair (Inr zero_stats))\<rparr>"

theorem sampling_round_witness:
  "\<exists>h' w'. sampleContainerStats stats_runtime id 7000000 (newStatsHistory 5000000) () = (h', w') \<and> sampled h' ''abc'' 7000000"
proof -
  define c where "c = \<lparr>ct_ID = ''abc'', ct_Name = ''web'', ct_Image = ''nginx'', ct_State = ''Running'',
        ct_Status = ''Up'', ct_Ports = '''', ct_Created = '''', ct_ComposeProject = '''', ct_ComposeService = ''''\<rparr>"
  obtain h' w' where s: "sampleContainerStats stats_runtime id 7000000 (newStatsHistory 5000000) () = (h', w')"
    by (rule prod.exhaust)
  have t: "TrimSpace ''abc'' = ''abc''" "EqualFold (TrimSpace ''Running'') ''running''" by code_simp+
  have "sampled h' (TrimSpace (ct_ID c)) 7000000"
    using sampling_round [OF _ _ _ _ _ s, of _ "()" "[c]" "()" "''''" c]
    by (simp add: stats_runtime_def order_ok_def readable_def c_def t)
  with s show ?thesis by (auto simp: c_def t)
qed


end
