(* ===== verification/Calf_Broadcaster.thy ===== *)
theory Calf_Broadcaster
  imports Calf_Time
begin

text \<open>
  The log broadcaster (\<open>internal/daemon/log_broadcaster.go\<close>): one log process per container is shared by
  all its subscribers.  Streams are objects with identity, so they live in a heap (a list, the index is
  the address); a run is the goroutine of one \<open>runStream\<close>, and the \<open>cancel\<close> field of a stream is the run it
  cancels.  Every section under a mutex is one function; the operations are compositions of sections.
  Two step relations use them: \<open>astep\<close>, where an operation is not interrupted, and \<open>istep\<close>, where
  the sections of different goroutines interleave.  Log output is not modelled.
\<close>

section \<open>State\<close>

record sharedLogStream =
  sl_containerID :: string
  sl_subscribers :: "nat list"
  sl_cancel :: "nat option"
  sl_stopping :: bool
  sl_history :: "string list"

record logBroadcaster =
  lb_streams :: "string \<rightharpoonup> nat"
  lb_heap :: "sharedLogStream list"
  lb_nextRun :: nat
  lb_runs :: "(nat \<times> nat) list"
  lb_canceled :: "nat list"
  lb_buffers :: "nat \<Rightarrow> string list"

definition newLogBroadcaster :: logBroadcaster where
  "newLogBroadcaster = \<lparr>lb_streams = (\<lambda>_. None), lb_heap = [], lb_nextRun = 0, lb_runs = [], lb_canceled = [],
     lb_buffers = (\<lambda>_. [])\<rparr>"

definition isStopping :: "sharedLogStream \<Rightarrow> bool" where
  "isStopping s = sl_stopping s"

definition hasSubscribers :: "sharedLogStream \<Rightarrow> bool" where
  "hasSubscribers s \<longleftrightarrow> 0 < length (sl_subscribers s)"

definition upd_stream :: "nat \<Rightarrow> (sharedLogStream \<Rightarrow> sharedLogStream) \<Rightarrow> logBroadcaster \<Rightarrow> logBroadcaster" where
  "upd_stream ref f b = b\<lparr>lb_heap := (lb_heap b)[ref := f (lb_heap b ! ref)]\<rparr>"

section \<open>Lines\<close>

definition LogTailLineCount :: nat where "LogTailLineCount = 500"

definition chanCapacity :: nat where "chanCapacity = 256"

definition trySendLogLine :: "string \<Rightarrow> string list \<Rightarrow> string list" where
  "trySendLogLine line buffer = (if length buffer < chanCapacity then buffer @ [line] else buffer)"

text \<open>The ring buffer of \<open>publish\<close>, and the send to every subscriber after the lock is released.\<close>

definition push_history :: "string \<Rightarrow> string list \<Rightarrow> string list" where
  "push_history line h =
     (let h1 = h @ [line] in if length h1 > LogTailLineCount then drop (length h1 - LogTailLineCount) h1 else h1)"

definition send :: "nat \<Rightarrow> string \<Rightarrow> logBroadcaster \<Rightarrow> logBroadcaster" where
  "send ch line b = b\<lparr>lb_buffers := (lb_buffers b)(ch := trySendLogLine line (lb_buffers b ch))\<rparr>"

definition publish :: "nat \<Rightarrow> string \<Rightarrow> logBroadcaster \<Rightarrow> logBroadcaster" where
  "publish ref line b =
     (let subscribers = sl_subscribers (lb_heap b ! ref);
          b1 = upd_stream ref (\<lambda>s. s\<lparr>sl_history := push_history line (sl_history s)\<rparr>) b
      in fold (\<lambda>ch. send ch line) subscribers b1)"

definition replay :: "nat \<Rightarrow> string list \<Rightarrow> logBroadcaster \<Rightarrow> logBroadcaster" where
  "replay ch history b = fold (send ch) history b"

section \<open>Subscribing\<close>

text \<open>The section under the broadcaster's lock: the stream to join, a new one if there is none to share.\<close>

definition findStream :: "string \<Rightarrow> logBroadcaster \<Rightarrow> nat \<times> logBroadcaster" where
  "findStream containerID b =
     (case (case lb_streams b containerID of
              Some ref \<Rightarrow> if isStopping (lb_heap b ! ref) then None else Some ref
            | None \<Rightarrow> None) of
        Some ref \<Rightarrow> (ref, b)
      | None \<Rightarrow>
          let ref = length (lb_heap b);
              stream = \<lparr>sl_containerID = containerID, sl_subscribers = [], sl_cancel = None, sl_stopping = False,
                        sl_history = []\<rparr>
          in (ref, b\<lparr>lb_streams := (lb_streams b)(containerID \<mapsto> ref), lb_heap := lb_heap b @ [stream]\<rparr>))"

text \<open>The section under the stream's lock: register the channel and start the run when needed.\<close>

definition joinStream :: "nat \<Rightarrow> nat \<Rightarrow> logBroadcaster \<Rightarrow> string list \<times> nat option \<times> logBroadcaster" where
  "joinStream ref ch b =
     (let b1 = upd_stream ref (\<lambda>s. s\<lparr>sl_subscribers := List.insert ch (sl_subscribers s)\<rparr>) b;
          stream = lb_heap b1 ! ref;
          history = sl_history stream
      in if sl_cancel stream = None \<and> \<not> sl_stopping stream
         then let run = lb_nextRun b1
              in (history, Some run,
                  (upd_stream ref (\<lambda>s. s\<lparr>sl_cancel := Some run\<rparr>) b1)
                    \<lparr>lb_nextRun := run + 1, lb_runs := (run, ref) # lb_runs b1\<rparr>)
         else (history, None, b1))"

definition subscribe :: "string \<Rightarrow> nat \<Rightarrow> logBroadcaster \<Rightarrow> logBroadcaster" where
  "subscribe containerID ch b =
     (let (ref, b1) = findStream containerID b; (history, _, b2) = joinStream ref ch b1 in replay ch history b2)"

section \<open>Releasing\<close>

definition leaveStream :: "nat \<Rightarrow> nat \<Rightarrow> logBroadcaster \<Rightarrow> nat option \<times> logBroadcaster" where
  "leaveStream ref ch b =
     (let b1 = upd_stream ref (\<lambda>s. s\<lparr>sl_subscribers := removeAll ch (sl_subscribers s)\<rparr>) b
      in if length (sl_subscribers (lb_heap b1 ! ref)) = 0
         then (sl_cancel (lb_heap b1 ! ref), upd_stream ref (\<lambda>s. s\<lparr>sl_stopping := True\<rparr>) b1)
         else (None, b1))"

definition cancelRun :: "nat \<Rightarrow> logBroadcaster \<Rightarrow> logBroadcaster" where
  "cancelRun run b = b\<lparr>lb_canceled := run # lb_canceled b\<rparr>"

definition release :: "string \<Rightarrow> nat \<Rightarrow> logBroadcaster \<Rightarrow> logBroadcaster" where
  "release containerID ch b =
     (case lb_streams b containerID of
        None \<Rightarrow> b
      | Some ref \<Rightarrow> (case leaveStream ref ch b of (Some run, b1) \<Rightarrow> cancelRun run b1 | (None, b1) \<Rightarrow> b1))"

section \<open>The run\<close>

text \<open>The two sections of \<open>cleanupStream\<close>.\<close>

definition resetStream :: "nat \<Rightarrow> logBroadcaster \<Rightarrow> logBroadcaster" where
  "resetStream ref b = upd_stream ref (\<lambda>s. s\<lparr>sl_cancel := None, sl_stopping := False\<rparr>) b"

definition dropStream :: "string \<Rightarrow> nat \<Rightarrow> logBroadcaster \<Rightarrow> logBroadcaster" where
  "dropStream containerID ref b =
     (if lb_streams b containerID = Some ref then b\<lparr>lb_streams := (lb_streams b)(containerID := None)\<rparr> else b)"

definition cleanupStream :: "string \<Rightarrow> nat \<Rightarrow> logBroadcaster \<Rightarrow> logBroadcaster" where
  "cleanupStream containerID ref b = dropStream containerID ref (resetStream ref b)"

definition LogStreamRetryBase :: int where "LogStreamRetryBase = 500 * 1000000"

definition LogStreamRetryMax :: int where "LogStreamRetryMax = 5 * Second"

definition nextLogStreamRetryDelay :: "int \<Rightarrow> int" where
  "nextLogStreamRetryDelay current =
     (if current \<ge> LogStreamRetryMax then LogStreamRetryMax
      else let nxt = current * 2 in if nxt > LogStreamRetryMax then LogStreamRetryMax else nxt)"

text \<open>
  The loop of \<open>runStream\<close>, over what it finds in each round: whether the context is cancelled before the
  call, whether there are subscribers, the error of the call, whether the context is cancelled after it,
  and whether the wait ran to its end.  The result is the calls made, each with the delay waited after
  it, and whether the loop returned within the given rounds.
\<close>

datatype phase = History | Follow

record attempt =
  at_canceled :: bool
  at_subscribers :: bool
  at_err :: "go_error option"
  at_canceledAfter :: bool
  at_waited :: bool

fun runStream_loop :: "bool \<Rightarrow> int \<Rightarrow> attempt list \<Rightarrow> (phase \<times> int option) list \<times> bool" where
  "runStream_loop sentHistory retryDelay [] = ([], False)"
| "runStream_loop sentHistory retryDelay (a # as) =
     (if at_canceled a then ([], True)
      else if \<not> at_subscribers a then ([], True)
      else
        let phase = (if \<not> sentHistory then History else Follow) in
        if at_canceledAfter a then ([(phase, None)], True)
        else if at_err a \<noteq> None then
          (if \<not> at_waited a then ([(phase, Some retryDelay)], True)
           else let (calls, ended) = runStream_loop True (nextLogStreamRetryDelay retryDelay) as
                in ((phase, Some retryDelay) # calls, ended))
        else
          (if \<not> at_waited a then ([(phase, Some LogStreamRetryBase)], True)
           else let (calls, ended) = runStream_loop True LogStreamRetryBase as
                in ((phase, Some LogStreamRetryBase) # calls, ended)))"

definition runStream :: "attempt list \<Rightarrow> (phase \<times> int option) list \<times> bool" where
  "runStream attempts = runStream_loop False LogStreamRetryBase attempts"

section \<open>Uninterrupted operations\<close>

text \<open>
  The clients are the subscribers that have not released their channel yet, each with its container.
  A run ends when it finds its context cancelled or its stream without subscribers.
\<close>

type_synonym clients = "(nat \<times> string) list"

definition finishRun :: "nat \<Rightarrow> nat \<Rightarrow> logBroadcaster \<Rightarrow> logBroadcaster" where
  "finishRun run ref b =
     cleanupStream (sl_containerID (lb_heap b ! ref)) ref (b\<lparr>lb_runs := removeAll (run, ref) (lb_runs b)\<rparr>)"

inductive astep :: "logBroadcaster \<times> clients \<Rightarrow> logBroadcaster \<times> clients \<Rightarrow> bool" where
  a_subscribe: "ch \<notin> fst ` set cl \<Longrightarrow> astep (b, cl) (subscribe cid ch b, (ch, cid) # cl)"
| a_release: "(ch, cid) \<in> set cl \<Longrightarrow> astep (b, cl) (release cid ch b, removeAll (ch, cid) cl)"
| a_publish: "(run, ref) \<in> set (lb_runs b) \<Longrightarrow> astep (b, cl) (publish ref line b, cl)"
| a_finish: "(run, ref) \<in> set (lb_runs b) \<Longrightarrow> run \<in> set (lb_canceled b) \<or> \<not> hasSubscribers (lb_heap b ! ref) \<Longrightarrow>
    astep (b, cl) (finishRun run ref b, cl)"

inductive areachable :: "logBroadcaster \<times> clients \<Rightarrow> bool" where
  ar_init: "areachable (newLogBroadcaster, [])"
| ar_step: "areachable s \<Longrightarrow> astep s s' \<Longrightarrow> areachable s'"

text \<open>A stream is live under a run: not stopping, with subscribers, and the run goes on.\<close>

definition live :: "logBroadcaster \<Rightarrow> nat \<Rightarrow> nat \<Rightarrow> bool" where
  "live b run ref \<longleftrightarrow>
     ref < length (lb_heap b) \<and> \<not> sl_stopping (lb_heap b ! ref) \<and> sl_subscribers (lb_heap b ! ref) \<noteq> []
     \<and> sl_cancel (lb_heap b ! ref) = Some run \<and> (run, ref) \<in> set (lb_runs b) \<and> run \<notin> set (lb_canceled b)"

text \<open>What can be seen of it from outside: the process of a run goes on, nobody told it to end.\<close>

definition follows :: "logBroadcaster \<Rightarrow> nat \<Rightarrow> nat \<Rightarrow> bool" where
  "follows b run ref \<longleftrightarrow> (run, ref) \<in> set (lb_runs b) \<and> run \<notin> set (lb_canceled b)"

definition streams_ok :: "logBroadcaster \<Rightarrow> bool" where
  "streams_ok b \<longleftrightarrow> (\<forall>cid ref. lb_streams b cid = Some ref \<longrightarrow>
     ref < length (lb_heap b) \<and> sl_containerID (lb_heap b ! ref) = cid
     \<and> (sl_stopping (lb_heap b ! ref) \<and> sl_subscribers (lb_heap b ! ref) = [] \<or> (\<exists>run. live b run ref)))"

definition clients_ok :: "logBroadcaster \<Rightarrow> clients \<Rightarrow> bool" where
  "clients_ok b cl \<longleftrightarrow> distinct (map fst cl)
     \<and> (\<forall>ch cid. (ch, cid) \<in> set cl \<longrightarrow> (\<exists>ref. lb_streams b cid = Some ref \<and> ch \<in> set (sl_subscribers (lb_heap b ! ref))))
     \<and> (\<forall>ref < length (lb_heap b). \<forall>ch \<in> set (sl_subscribers (lb_heap b ! ref)).
          (ch, sl_containerID (lb_heap b ! ref)) \<in> set cl \<and> lb_streams b (sl_containerID (lb_heap b ! ref)) = Some ref)"

definition runs_ok :: "logBroadcaster \<Rightarrow> bool" where
  "runs_ok b \<longleftrightarrow> distinct (map fst (lb_runs b)) \<and> (\<forall>run \<in> set (lb_canceled b). run < lb_nextRun b)
     \<and> (\<forall>run ref. (run, ref) \<in> set (lb_runs b) \<longrightarrow> run < lb_nextRun b \<and> ref < length (lb_heap b)
          \<and> (if run \<in> set (lb_canceled b) then sl_subscribers (lb_heap b ! ref) = []
             else live b run ref \<and> lb_streams b (sl_containerID (lb_heap b ! ref)) = Some ref))"

definition bc_inv :: "logBroadcaster \<times> clients \<Rightarrow> bool" where
  "bc_inv s \<longleftrightarrow> streams_ok (fst s) \<and> clients_ok (fst s) (snd s) \<and> runs_ok (fst s)"

lemmas bc_defs = bc_inv_def streams_ok_def clients_ok_def runs_ok_def live_def

subsection \<open>Fields\<close>

lemma distinct_fst_removeAll: "distinct (map fst xs) \<Longrightarrow> distinct (map fst (removeAll x xs))"
  by (auto simp: distinct_map intro: inj_on_subset distinct_removeAll)

lemma nth_updated: "j < length xs \<Longrightarrow> xs[i := x] ! j = (if i = j then x else xs ! j)"
  by auto

lemma insert_not_Nil [simp]: "List.insert x xs \<noteq> []"
  by (cases xs) (auto simp: List.insert_def)

lemma upd_stream_simps [simp]:
  "lb_streams (upd_stream ref f b) = lb_streams b" "lb_nextRun (upd_stream ref f b) = lb_nextRun b"
  "lb_runs (upd_stream ref f b) = lb_runs b" "lb_canceled (upd_stream ref f b) = lb_canceled b"
  "lb_buffers (upd_stream ref f b) = lb_buffers b" "length (lb_heap (upd_stream ref f b)) = length (lb_heap b)"
  "lb_heap (upd_stream ref f b) = (lb_heap b)[ref := f (lb_heap b ! ref)]"
  by (simp_all add: upd_stream_def)

text \<open>The lifecycle does not look at buffers and histories.\<close>

definition same_lifecycle :: "logBroadcaster \<Rightarrow> logBroadcaster \<Rightarrow> bool" where
  "same_lifecycle b b' \<longleftrightarrow>
     lb_streams b' = lb_streams b \<and> lb_nextRun b' = lb_nextRun b \<and> lb_runs b' = lb_runs b \<and> lb_canceled b' = lb_canceled b
     \<and> length (lb_heap b') = length (lb_heap b)
     \<and> (\<forall>ref < length (lb_heap b). sl_containerID (lb_heap b' ! ref) = sl_containerID (lb_heap b ! ref)
          \<and> sl_subscribers (lb_heap b' ! ref) = sl_subscribers (lb_heap b ! ref)
          \<and> sl_cancel (lb_heap b' ! ref) = sl_cancel (lb_heap b ! ref)
          \<and> sl_stopping (lb_heap b' ! ref) = sl_stopping (lb_heap b ! ref))"

lemma same_lifecycle_live: "same_lifecycle b b' \<Longrightarrow> live b' run ref = live b run ref"
  by (auto simp: same_lifecycle_def live_def)

lemma same_lifecycle_fields:
  assumes "same_lifecycle b b'"
  shows "lb_streams b' = lb_streams b" "lb_nextRun b' = lb_nextRun b" "lb_runs b' = lb_runs b"
    "lb_canceled b' = lb_canceled b" "length (lb_heap b') = length (lb_heap b)"
    "ref < length (lb_heap b) \<Longrightarrow> sl_containerID (lb_heap b' ! ref) = sl_containerID (lb_heap b ! ref)"
    "ref < length (lb_heap b) \<Longrightarrow> sl_subscribers (lb_heap b' ! ref) = sl_subscribers (lb_heap b ! ref)"
    "ref < length (lb_heap b) \<Longrightarrow> sl_stopping (lb_heap b' ! ref) = sl_stopping (lb_heap b ! ref)"
  using assms by (simp_all add: same_lifecycle_def)

lemma same_lifecycle_streams: "same_lifecycle b b' \<Longrightarrow> streams_ok b \<Longrightarrow> streams_ok b'"
  unfolding streams_ok_def by (simp add: same_lifecycle_live same_lifecycle_fields)

lemma same_lifecycle_clients: "same_lifecycle b b' \<Longrightarrow> streams_ok b \<Longrightarrow> clients_ok b cl \<Longrightarrow> clients_ok b' cl"
  unfolding clients_ok_def streams_ok_def by (simp add: same_lifecycle_fields cong: conj_cong)

lemma same_lifecycle_runs: "same_lifecycle b b' \<Longrightarrow> runs_ok b \<Longrightarrow> runs_ok b'"
  unfolding runs_ok_def by (simp add: same_lifecycle_live same_lifecycle_fields cong: conj_cong)

lemma same_lifecycle_inv: "same_lifecycle b b' \<Longrightarrow> bc_inv (b, cl) \<Longrightarrow> bc_inv (b', cl)"
  using same_lifecycle_streams same_lifecycle_clients same_lifecycle_runs by (simp add: bc_inv_def)

lemma send_fields [simp]:
  "lb_streams (send ch line b) = lb_streams b" "lb_heap (send ch line b) = lb_heap b"
  "lb_nextRun (send ch line b) = lb_nextRun b" "lb_runs (send ch line b) = lb_runs b"
  "lb_canceled (send ch line b) = lb_canceled b"
  by (simp_all add: send_def)

lemma send_all_fields [simp]:
  "lb_streams (fold (\<lambda>ch. send ch line) chs b) = lb_streams b" "lb_heap (fold (\<lambda>ch. send ch line) chs b) = lb_heap b"
  "lb_nextRun (fold (\<lambda>ch. send ch line) chs b) = lb_nextRun b" "lb_runs (fold (\<lambda>ch. send ch line) chs b) = lb_runs b"
  "lb_canceled (fold (\<lambda>ch. send ch line) chs b) = lb_canceled b"
  by (induction chs arbitrary: b) simp_all

lemma replay_fields [simp]:
  "lb_streams (replay ch lines b) = lb_streams b" "lb_heap (replay ch lines b) = lb_heap b"
  "lb_nextRun (replay ch lines b) = lb_nextRun b" "lb_runs (replay ch lines b) = lb_runs b"
  "lb_canceled (replay ch lines b) = lb_canceled b"
  unfolding replay_def by (induction lines arbitrary: b) simp_all

lemma publish_lifecycle: "same_lifecycle b (publish ref line b)"
  by (simp add: publish_def Let_def same_lifecycle_def nth_updated)

lemma replay_lifecycle: "same_lifecycle b (replay ch lines b)"
  by (simp add: same_lifecycle_def)

subsection \<open>Every operation keeps the invariant\<close>

lemma subscribe_shared:
  assumes "lb_streams b cid = Some ref" "live b run ref"
  shows "subscribe cid ch b = replay ch (sl_history (lb_heap b ! ref))
    (upd_stream ref (\<lambda>s. s\<lparr>sl_subscribers := List.insert ch (sl_subscribers s)\<rparr>) b)"
  using assms by (simp add: subscribe_def findStream_def joinStream_def isStopping_def live_def Let_def)

definition fresh_stream :: "string \<Rightarrow> nat \<Rightarrow> nat \<Rightarrow> sharedLogStream" where
  "fresh_stream cid ch run = \<lparr>sl_containerID = cid, sl_subscribers = [ch], sl_cancel = Some run, sl_stopping = False,
     sl_history = []\<rparr>"

lemma subscribe_fresh:
  assumes "\<And>ref. lb_streams b cid = Some ref \<Longrightarrow> sl_stopping (lb_heap b ! ref)"
  shows "subscribe cid ch b =
    b\<lparr>lb_streams := (lb_streams b)(cid \<mapsto> length (lb_heap b)), lb_heap := lb_heap b @ [fresh_stream cid ch (lb_nextRun b)],
      lb_nextRun := lb_nextRun b + 1, lb_runs := (lb_nextRun b, length (lb_heap b)) # lb_runs b\<rparr>"
  using assms
  by (cases "lb_streams b cid")
    (simp_all add: subscribe_def findStream_def joinStream_def isStopping_def Let_def upd_stream_def
      fresh_stream_def replay_def)

text \<open>The parts of the invariant, one fact at a time.\<close>

lemma streams_okD:
  assumes "streams_ok b" "lb_streams b cid = Some ref"
  shows "ref < length (lb_heap b)" "sl_containerID (lb_heap b ! ref) = cid"
    "sl_stopping (lb_heap b ! ref) \<and> sl_subscribers (lb_heap b ! ref) = [] \<or> (\<exists>run. live b run ref)"
  using assms by (auto simp: streams_ok_def)

lemma clients_okD:
  assumes "clients_ok b cl"
  shows "distinct (map fst cl)"
    "(ch, cid) \<in> set cl \<Longrightarrow> \<exists>ref. lb_streams b cid = Some ref \<and> ch \<in> set (sl_subscribers (lb_heap b ! ref))"
    "ref < length (lb_heap b) \<Longrightarrow> ch \<in> set (sl_subscribers (lb_heap b ! ref)) \<Longrightarrow> (ch, sl_containerID (lb_heap b ! ref)) \<in> set cl"
    "ref < length (lb_heap b) \<Longrightarrow> ch \<in> set (sl_subscribers (lb_heap b ! ref)) \<Longrightarrow>
      lb_streams b (sl_containerID (lb_heap b ! ref)) = Some ref"
  using assms by (simp_all add: clients_ok_def)

lemma runs_okD:
  assumes "runs_ok b"
  shows "distinct (map fst (lb_runs b))" "run \<in> set (lb_canceled b) \<Longrightarrow> run < lb_nextRun b"
    "(run, ref) \<in> set (lb_runs b) \<Longrightarrow> run < lb_nextRun b"
    "(run, ref) \<in> set (lb_runs b) \<Longrightarrow> ref < length (lb_heap b)"
    "(run, ref) \<in> set (lb_runs b) \<Longrightarrow> run \<in> set (lb_canceled b) \<Longrightarrow> sl_subscribers (lb_heap b ! ref) = []"
    "(run, ref) \<in> set (lb_runs b) \<Longrightarrow> run \<notin> set (lb_canceled b) \<Longrightarrow> live b run ref"
    "(run, ref) \<in> set (lb_runs b) \<Longrightarrow> run \<notin> set (lb_canceled b) \<Longrightarrow> lb_streams b (sl_containerID (lb_heap b ! ref)) = Some ref"
  using assms by (auto simp: runs_ok_def)

lemma liveD:
  assumes "live b run ref"
  shows "ref < length (lb_heap b)" "\<not> sl_stopping (lb_heap b ! ref)" "sl_subscribers (lb_heap b ! ref) \<noteq> []"
    "sl_cancel (lb_heap b ! ref) = Some run" "(run, ref) \<in> set (lb_runs b)" "run \<notin> set (lb_canceled b)"
  using assms by (simp_all add: live_def)

lemma follows_live: "runs_ok b \<Longrightarrow> follows b run ref = live b run ref"
  using runs_okD(6) liveD(5,6) by (auto simp: follows_def)

lemma streams_okI:
  assumes "\<And>cid ref. lb_streams b cid = Some ref \<Longrightarrow> ref < length (lb_heap b) \<and> sl_containerID (lb_heap b ! ref) = cid
     \<and> (sl_stopping (lb_heap b ! ref) \<and> sl_subscribers (lb_heap b ! ref) = [] \<or> (\<exists>run. live b run ref))"
  shows "streams_ok b"
  using assms by (simp add: streams_ok_def)

lemma clients_okI:
  assumes "distinct (map fst cl)"
    and "\<And>ch cid. (ch, cid) \<in> set cl \<Longrightarrow> \<exists>ref. lb_streams b cid = Some ref \<and> ch \<in> set (sl_subscribers (lb_heap b ! ref))"
    and "\<And>ref ch. ref < length (lb_heap b) \<Longrightarrow> ch \<in> set (sl_subscribers (lb_heap b ! ref)) \<Longrightarrow>
      (ch, sl_containerID (lb_heap b ! ref)) \<in> set cl \<and> lb_streams b (sl_containerID (lb_heap b ! ref)) = Some ref"
  shows "clients_ok b cl"
  using assms by (simp add: clients_ok_def)

lemma runs_okI:
  assumes "distinct (map fst (lb_runs b))" "\<And>run. run \<in> set (lb_canceled b) \<Longrightarrow> run < lb_nextRun b"
    and "\<And>run ref. (run, ref) \<in> set (lb_runs b) \<Longrightarrow> run < lb_nextRun b \<and> ref < length (lb_heap b)"
    and "\<And>run ref. (run, ref) \<in> set (lb_runs b) \<Longrightarrow> run \<in> set (lb_canceled b) \<Longrightarrow> sl_subscribers (lb_heap b ! ref) = []"
    and "\<And>run ref. (run, ref) \<in> set (lb_runs b) \<Longrightarrow> run \<notin> set (lb_canceled b) \<Longrightarrow>
      live b run ref \<and> lb_streams b (sl_containerID (lb_heap b ! ref)) = Some ref"
  shows "runs_ok b"
  using assms by (simp add: runs_ok_def)

lemma inv_subscribe_shared:
  assumes inv: "streams_ok b" "clients_ok b cl" "runs_ok b"
    and ref: "lb_streams b cid = Some ref" "live b run ref" and ch: "ch \<notin> fst ` set cl"
  shows "bc_inv (upd_stream ref (\<lambda>s. s\<lparr>sl_subscribers := List.insert ch (sl_subscribers s)\<rparr>) b, (ch, cid) # cl)"
proof -
  let ?b = "upd_stream ref (\<lambda>s. s\<lparr>sl_subscribers := List.insert ch (sl_subscribers s)\<rparr>) b"
  note r = liveD [OF ref(2)] and cid = streams_okD(2) [OF inv(1) ref(1)]
  have f: "sl_containerID (lb_heap ?b ! x) = sl_containerID (lb_heap b ! x)" "sl_stopping (lb_heap ?b ! x) = sl_stopping (lb_heap b ! x)"
    "set (sl_subscribers (lb_heap ?b ! x)) = (if x = ref then insert ch (set (sl_subscribers (lb_heap b ! x))) else set (sl_subscribers (lb_heap b ! x)))"
    if "x < length (lb_heap b)" for x
    using that by (simp_all add: nth_updated)
  have live: "live ?b r x = live b r x" for r x
    using r by (auto simp: live_def nth_updated split: if_splits)
  have "streams_ok ?b"
  proof (rule streams_okI)
    fix c x assume "lb_streams ?b c = Some x"
    then show "x < length (lb_heap ?b) \<and> sl_containerID (lb_heap ?b ! x) = c
      \<and> (sl_stopping (lb_heap ?b ! x) \<and> sl_subscribers (lb_heap ?b ! x) = [] \<or> (\<exists>run. live ?b run x))"
      using streams_okD [OF inv(1), of c x] f [of x] r ref(2) by (cases "x = ref") (auto simp: live)
  qed
  moreover have "runs_ok ?b"
  proof (rule runs_okI)
    fix r' x assume "(r', x) \<in> set (lb_runs ?b)" "r' \<in> set (lb_canceled ?b)"
    then show "sl_subscribers (lb_heap ?b ! x) = []" using runs_okD(4,5) [OF inv(3), of r' x] f [of x] r by (cases "x = ref") auto
  qed (use runs_okD [OF inv(3)] live f in auto)
  moreover have "clients_ok ?b ((ch, cid) # cl)"
  proof (rule clients_okI)
    show "distinct (map fst ((ch, cid) # cl))" using clients_okD(1) [OF inv(2)] ch by simp
    fix c i assume "(c, i) \<in> set ((ch, cid) # cl)"
    then show "\<exists>x. lb_streams ?b i = Some x \<and> c \<in> set (sl_subscribers (lb_heap ?b ! x))"
      using clients_okD(2) [OF inv(2), of c i] ref r f streams_okD(1) [OF inv(1), of i] by auto
  next
    fix x c assume x: "x < length (lb_heap ?b)" and c: "c \<in> set (sl_subscribers (lb_heap ?b ! x))"
    show "(c, sl_containerID (lb_heap ?b ! x)) \<in> set ((ch, cid) # cl) \<and> lb_streams ?b (sl_containerID (lb_heap ?b ! x)) = Some x"
      using clients_okD(3,4) [OF inv(2), of x c] x c ref(1) cid f [of x] by (cases "x = ref") auto
  qed
  ultimately show ?thesis by (simp add: bc_inv_def)
qed

lemma inv_subscribe_fresh:
  assumes inv: "streams_ok b" "clients_ok b cl" "runs_ok b"
    and old: "\<And>ref. lb_streams b cid = Some ref \<Longrightarrow> sl_stopping (lb_heap b ! ref)" and ch: "ch \<notin> fst ` set cl"
  shows "bc_inv (subscribe cid ch b, (ch, cid) # cl)"
proof -
  let ?n = "length (lb_heap b)" and ?r = "lb_nextRun b"
  define b' where "b' = subscribe cid ch b"
  have f: "lb_streams b' = (lb_streams b)(cid \<mapsto> ?n)" "lb_heap b' = lb_heap b @ [fresh_stream cid ch ?r]"
    "lb_nextRun b' = ?r + 1" "lb_runs b' = (?r, ?n) # lb_runs b" "lb_canceled b' = lb_canceled b"
    using subscribe_fresh [OF old, where ch = ch] unfolding b'_def by auto
  have new: "live b' ?r ?n" using runs_okD(2) [OF inv(3), of ?r] by (auto simp: live_def f fresh_stream_def)
  have live: "live b r x \<Longrightarrow> live b' r x" for r x by (auto simp: live_def f nth_append)
  have notlive: "\<not> live b r x" if "lb_streams b cid = Some x" for r x using old [OF that] by (auto simp: live_def)
  have "streams_ok b'"
  proof (rule streams_okI)
    fix c x assume "lb_streams b' c = Some x"
    then show "x < length (lb_heap b') \<and> sl_containerID (lb_heap b' ! x) = c
      \<and> (sl_stopping (lb_heap b' ! x) \<and> sl_subscribers (lb_heap b' ! x) = [] \<or> (\<exists>run. live b' run x))"
      using streams_okD [OF inv(1), of c x] live new
      by (cases "c = cid") (auto simp: f fresh_stream_def nth_append)
  qed
  moreover have "runs_ok b'"
  proof (rule runs_okI)
    show "distinct (map fst (lb_runs b'))" using runs_okD(1,3) [OF inv(3)] by (fastforce simp: f)
    fix r x assume rx: "(r, x) \<in> set (lb_runs b')"
    show "sl_subscribers (lb_heap b' ! x) = []" if "r \<in> set (lb_canceled b')"
      using rx that runs_okD(2) [OF inv(3), of r] runs_okD(4,5) [OF inv(3), of r x] by (auto simp: f nth_append)
    show "live b' r x \<and> lb_streams b' (sl_containerID (lb_heap b' ! x)) = Some x" if "r \<notin> set (lb_canceled b')"
    proof (cases "(r, x) = (?r, ?n)")
      case True
      then show ?thesis using new by (simp add: f fresh_stream_def)
    next
      case False
      with rx have o: "(r, x) \<in> set (lb_runs b)" "r \<notin> set (lb_canceled b)" using that by (auto simp: f)
      note d = runs_okD(4,6,7) [OF inv(3) o(1)]
      have "sl_containerID (lb_heap b ! x) \<noteq> cid" using notlive [of x r] d(2,3) [OF o(2)] by auto
      then show ?thesis using d live o(2) by (simp add: f nth_append)
    qed
  qed (use runs_okD(2,3,4) [OF inv(3)] in \<open>fastforce simp: f\<close>)+
  moreover have "clients_ok b' ((ch, cid) # cl)"
  proof (rule clients_okI)
    show "distinct (map fst ((ch, cid) # cl))" using clients_okD(1) [OF inv(2)] ch by simp
    have none: "c \<notin> set (sl_subscribers (lb_heap b ! x))" if "lb_streams b cid = Some x" for c x
      using notlive [OF that] streams_okD(3) [OF inv(1) that] by auto
    fix c i assume "(c, i) \<in> set ((ch, cid) # cl)"
    then show "\<exists>x. lb_streams b' i = Some x \<and> c \<in> set (sl_subscribers (lb_heap b' ! x))"
      using clients_okD(2) [OF inv(2), of c i] streams_okD(1) [OF inv(1), of i] none
      by (cases "i = cid") (auto simp: f nth_append fresh_stream_def)
  next
    fix x c assume "x < length (lb_heap b')" "c \<in> set (sl_subscribers (lb_heap b' ! x))"
    then show "(c, sl_containerID (lb_heap b' ! x)) \<in> set ((ch, cid) # cl) \<and> lb_streams b' (sl_containerID (lb_heap b' ! x)) = Some x"
      using clients_okD(3,4) [OF inv(2), of x c] notlive [of x] streams_okD(3) [OF inv(1), of cid x]
      by (cases "x = ?n") (auto simp: f nth_append fresh_stream_def)
  qed
  ultimately show ?thesis by (simp add: bc_inv_def b'_def)
qed

lemma inv_subscribe:
  assumes inv: "bc_inv (b, cl)" and ch: "ch \<notin> fst ` set cl"
  shows "bc_inv (subscribe cid ch b, (ch, cid) # cl)"
proof -
  note i = inv [unfolded bc_inv_def, simplified]
  consider ref run where "lb_streams b cid = Some ref" "live b run ref"
    | "\<And>ref. lb_streams b cid = Some ref \<Longrightarrow> sl_stopping (lb_heap b ! ref)"
    using streams_okD(3) [of b cid] i by blast
  then show ?thesis
  proof cases
    case 1
    then show ?thesis using inv_subscribe_shared [OF _ _ _ 1 ch] i
      by (simp add: subscribe_shared same_lifecycle_inv [OF replay_lifecycle])
  next
    case 2
    then show ?thesis using inv_subscribe_fresh [OF _ _ _ 2 ch] i by blast
  qed
qed


text \<open>Releasing: the stream stays while others use it, and the last one to leave cancels its run.\<close>

definition left :: "nat \<Rightarrow> nat \<Rightarrow> logBroadcaster \<Rightarrow> logBroadcaster" where
  "left ref ch b = upd_stream ref (\<lambda>s. s\<lparr>sl_subscribers := removeAll ch (sl_subscribers s)\<rparr>) b"

lemma release_live:
  assumes "lb_streams b cid = Some ref" "live b run ref"
  shows "release cid ch b =
    (if removeAll ch (sl_subscribers (lb_heap b ! ref)) = []
     then cancelRun run (upd_stream ref (\<lambda>s. s\<lparr>sl_stopping := True\<rparr>) (left ref ch b)) else left ref ch b)"
  using assms by (simp add: release_def leaveStream_def live_def Let_def left_def)

lemma inv_release:
  assumes inv: "streams_ok b" "clients_ok b cl" "runs_ok b" and c: "(ch, cid) \<in> set cl"
  shows "bc_inv (release cid ch b, removeAll (ch, cid) cl)"
proof -
  obtain ref where ref: "lb_streams b cid = Some ref" and sub: "ch \<in> set (sl_subscribers (lb_heap b ! ref))"
    using clients_okD(2) [OF inv(2) c] by blast
  then obtain run where l: "live b run ref" using streams_okD(3) [OF inv(1) ref] by auto
  note r = liveD [OF l] and cid = streams_okD(2) [OF inv(1) ref]
  let ?last = "removeAll ch (sl_subscribers (lb_heap b ! ref)) = []"
  define b' where "b' = release cid ch b"
  have f: "lb_streams b' = lb_streams b" "lb_runs b' = lb_runs b" "lb_nextRun b' = lb_nextRun b"
    "lb_canceled b' = (if ?last then run # lb_canceled b else lb_canceled b)" "length (lb_heap b') = length (lb_heap b)"
    using release_live [OF ref l, of ch] by (simp_all add: b'_def left_def cancelRun_def)
  have h: "sl_containerID (lb_heap b' ! x) = sl_containerID (lb_heap b ! x)"
    "sl_cancel (lb_heap b' ! x) = sl_cancel (lb_heap b ! x)"
    "sl_stopping (lb_heap b' ! x) = (sl_stopping (lb_heap b ! x) \<or> x = ref \<and> ?last)"
    "sl_subscribers (lb_heap b' ! x) = (if x = ref then removeAll ch (sl_subscribers (lb_heap b ! x)) else sl_subscribers (lb_heap b ! x))"
    if "x < length (lb_heap b)" for x
    using release_live [OF ref l, of ch] that by (auto simp: b'_def left_def cancelRun_def nth_updated)
  have live: "live b' q x" if "live b q x" "\<not> (x = ref \<and> ?last)" for q x
  proof -
    have "q \<noteq> run" if "?last"
    proof
      assume "q = run"
      with runs_okD(1) [OF inv(3)] liveD(5) [OF \<open>live b q x\<close>] r(5) have "x = ref" by (meson eq_key_imp_eq_value)
      with that \<open>\<not> (x = ref \<and> ?last)\<close> show False by simp
    qed
    with that h [of x] show ?thesis by (auto simp: live_def f)
  qed
  have dead: "x = ref \<Longrightarrow> ?last \<Longrightarrow> sl_stopping (lb_heap b' ! x) \<and> sl_subscribers (lb_heap b' ! x) = []" for x
    using h [of ref] r(1) by simp
  have "streams_ok b'"
  proof (rule streams_okI)
    fix c x assume "lb_streams b' c = Some x"
    then show "x < length (lb_heap b') \<and> sl_containerID (lb_heap b' ! x) = c
      \<and> (sl_stopping (lb_heap b' ! x) \<and> sl_subscribers (lb_heap b' ! x) = [] \<or> (\<exists>run. live b' run x))"
      using streams_okD [OF inv(1), of c x] h [of x] live [of _ x] dead [of x] r(2) by (auto simp: f)
  qed
  moreover have "runs_ok b'"
  proof (rule runs_okI)
    fix q x assume qx: "(q, x) \<in> set (lb_runs b')"
    note d = runs_okD(4,5,6,7) [OF inv(3), of q x]
    have same: "q = run \<Longrightarrow> x = ref" using qx r(5) runs_okD(1) [OF inv(3)] by (metis eq_key_imp_eq_value f(2))
    show "sl_subscribers (lb_heap b' ! x) = []" if "q \<in> set (lb_canceled b')"
      using that d qx same h [of x] dead [of x] by (cases "q = run \<and> ?last") (auto simp: f split: if_splits)
    show "live b' q x \<and> lb_streams b' (sl_containerID (lb_heap b' ! x)) = Some x" if "q \<notin> set (lb_canceled b')"
    proof -
      have q: "q \<notin> set (lb_canceled b)" "?last \<Longrightarrow> q \<noteq> run" using that by (auto simp: f split: if_splits)
      have "x = ref \<Longrightarrow> q = run" using liveD(4) [OF d(3)] q qx r(4) by (auto simp: f)
      then show ?thesis using d q qx h [of x] live [of q x] by (auto simp: f)
    qed
  qed (use runs_okD(1,2,3,4) [OF inv(3)] r(5) in \<open>auto simp: f split: if_splits\<close>)
  moreover have "clients_ok b' (removeAll (ch, cid) cl)"
  proof (rule clients_okI)
    show "distinct (map fst (removeAll (ch, cid) cl))"
      using clients_okD(1) [OF inv(2)] by (rule distinct_fst_removeAll)
    fix c' i assume ci: "(c', i) \<in> set (removeAll (ch, cid) cl)"
    then have "c' \<noteq> ch" using c clients_okD(1) [OF inv(2)] by (auto dest: eq_key_imp_eq_value)
    then show "\<exists>x. lb_streams b' i = Some x \<and> c' \<in> set (sl_subscribers (lb_heap b' ! x))"
      using ci clients_okD(2) [OF inv(2), of c' i] streams_okD(1) [OF inv(1), of i] h by (fastforce simp: f)
  next
    fix x c' assume "x < length (lb_heap b')" "c' \<in> set (sl_subscribers (lb_heap b' ! x))"
    then show "(c', sl_containerID (lb_heap b' ! x)) \<in> set (removeAll (ch, cid) cl)
        \<and> lb_streams b' (sl_containerID (lb_heap b' ! x)) = Some x"
      using clients_okD(3,4) [OF inv(2), of x c'] h [of x] ref cid by (cases "x = ref") (auto simp: f)
  qed
  ultimately show ?thesis by (simp add: bc_inv_def b'_def)
qed

text \<open>A run that ends was cancelled, and its stream has nobody left.\<close>

lemma inv_finish:
  assumes inv: "streams_ok b" "clients_ok b cl" "runs_ok b" and qr: "(q, ref) \<in> set (lb_runs b)"
    and e: "q \<in> set (lb_canceled b) \<or> \<not> hasSubscribers (lb_heap b ! ref)"
  shows "bc_inv (finishRun q ref b, cl)"
proof -
  have none: "sl_subscribers (lb_heap b ! ref) = []" using e runs_okD(5) [OF inv(3) qr] by (auto simp: hasSubscribers_def)
  note len = runs_okD(4) [OF inv(3) qr]
  define b' where "b' = finishRun q ref b"
  have st: "lb_streams b' c = (if lb_streams b c = Some ref then None else lb_streams b c)" for c
  proof (cases "lb_streams b c = Some ref")
    case True
    from streams_okD(2) [OF inv(1) True] True show ?thesis
      by (simp add: b'_def finishRun_def cleanupStream_def dropStream_def resetStream_def)
  next
    case False
    then show ?thesis by (auto simp: b'_def finishRun_def cleanupStream_def dropStream_def resetStream_def)
  qed
  have f: "lb_runs b' = removeAll (q, ref) (lb_runs b)" "lb_nextRun b' = lb_nextRun b" "lb_canceled b' = lb_canceled b"
    "length (lb_heap b') = length (lb_heap b)"
    by (simp_all add: b'_def finishRun_def cleanupStream_def dropStream_def resetStream_def)
  note f = st f
  have h: "sl_containerID (lb_heap b' ! x) = sl_containerID (lb_heap b ! x)"
    "sl_subscribers (lb_heap b' ! x) = sl_subscribers (lb_heap b ! x)"
    "x \<noteq> ref \<Longrightarrow> lb_heap b' ! x = lb_heap b ! x"
    if "x < length (lb_heap b)" for x
    using that by (auto simp: b'_def finishRun_def cleanupStream_def dropStream_def resetStream_def nth_updated)
  have notlive: "\<not> live b r ref" for r using none by (simp add: live_def)
  have live: "live b r x \<Longrightarrow> live b' r x" for r x using h(3) [of x] notlive [of r] by (cases "x = ref") (auto simp: live_def f)
  have "streams_ok b'"
  proof (rule streams_okI)
    fix c x assume "lb_streams b' c = Some x"
    then have "lb_streams b c = Some x" "x \<noteq> ref" by (auto simp: f split: if_splits)
    then show "x < length (lb_heap b') \<and> sl_containerID (lb_heap b' ! x) = c
      \<and> (sl_stopping (lb_heap b' ! x) \<and> sl_subscribers (lb_heap b' ! x) = [] \<or> (\<exists>run. live b' run x))"
      using streams_okD [OF inv(1), of c x] h [of x] live by (auto simp: f)
  qed
  moreover have "runs_ok b'"
  proof (rule runs_okI)
    show "distinct (map fst (lb_runs b'))" unfolding f using runs_okD(1) [OF inv(3)] by (rule distinct_fst_removeAll)
    fix r x assume "(r, x) \<in> set (lb_runs b')"
    then have rx: "(r, x) \<in> set (lb_runs b)" by (simp add: f)
    show "sl_subscribers (lb_heap b' ! x) = []" if "r \<in> set (lb_canceled b')"
      using that runs_okD(4,5) [OF inv(3) rx] h [of x] by (simp add: f)
    show "live b' r x \<and> lb_streams b' (sl_containerID (lb_heap b' ! x)) = Some x" if "r \<notin> set (lb_canceled b')"
      using that runs_okD(4,6,7) [OF inv(3) rx] h [of x] live notlive [of r] by (auto simp: f)
  qed (use runs_okD(2,3,4) [OF inv(3)] in \<open>auto simp: f\<close>)
  moreover have "clients_ok b' cl"
  proof (rule clients_okI)
    fix c i assume "(c, i) \<in> set cl"
    then show "\<exists>x. lb_streams b' i = Some x \<and> c \<in> set (sl_subscribers (lb_heap b' ! x))"
      using clients_okD(2) [OF inv(2), of c i] none streams_okD(1) [OF inv(1), of i] h(2) by (fastforce simp: f)
  next
    fix x c assume "x < length (lb_heap b')" "c \<in> set (sl_subscribers (lb_heap b' ! x))"
    then show "(c, sl_containerID (lb_heap b' ! x)) \<in> set cl \<and> lb_streams b' (sl_containerID (lb_heap b' ! x)) = Some x"
      using clients_okD(3,4) [OF inv(2), of x c] h [of x] none by (auto simp: f)
  qed (rule clients_okD(1) [OF inv(2)])
  ultimately show ?thesis by (simp add: bc_inv_def b'_def)
qed

lemma inv_step:
  assumes "astep s s'" "bc_inv s"
  shows "bc_inv s'"
  using assms(1)
proof (cases rule: astep.cases)
  case (a_subscribe ch cl b cid)
  then show ?thesis using assms(2) inv_subscribe by simp
next
  case (a_release ch cid cl b)
  then show ?thesis using assms(2) inv_release [of b cl ch cid] by (simp add: bc_inv_def)
next
  case (a_publish run ref b cl line)
  then show ?thesis using assms(2) same_lifecycle_inv [OF publish_lifecycle] by simp
next
  case (a_finish run ref b cl)
  then show ?thesis using assms(2) inv_finish [of b cl run ref] by (simp add: bc_inv_def)
qed

lemma inv_reachable: "areachable s \<Longrightarrow> bc_inv s"
proof (induction rule: areachable.induct)
  case ar_init
  show ?case by (simp add: bc_defs newLogBroadcaster_def)
qed (rule inv_step)

section \<open>Interleaved sections\<close>

text \<open>
  What a goroutine has left to do between two of its critical sections: join the stream it found, leave
  the stream it found, cancel the run, or take the stream out of the map.  The last component of a
  state numbers the channels.
\<close>

datatype pending = Join nat string nat | Leave nat nat | Cancel nat | Drop nat

type_synonym isystem = "logBroadcaster \<times> clients \<times> pending list \<times> nat"

inductive istep :: "isystem \<Rightarrow> isystem \<Rightarrow> bool" where
  i_find: "findStream cid b = (ref, b') \<Longrightarrow> istep (b, cl, ps, n) (b', cl, Join n cid ref # ps, n + 1)"
| i_join: "Join ch cid ref \<in> set ps \<Longrightarrow> joinStream ref ch b = (lines, started, b') \<Longrightarrow>
    istep (b, cl, ps, n) (replay ch lines b', (ch, cid) # cl, remove1 (Join ch cid ref) ps, n)"
| i_release: "(ch, cid) \<in> set cl \<Longrightarrow>
    istep (b, cl, ps, n)
      (b, removeAll (ch, cid) cl, (case lb_streams b cid of Some ref \<Rightarrow> [Leave ch ref] | None \<Rightarrow> []) @ ps, n)"
| i_leave: "Leave ch ref \<in> set ps \<Longrightarrow> leaveStream ref ch b = (canceled, b') \<Longrightarrow>
    istep (b, cl, ps, n) (b', cl, (case canceled of Some run \<Rightarrow> [Cancel run] | None \<Rightarrow> []) @ remove1 (Leave ch ref) ps, n)"
| i_cancel: "Cancel run \<in> set ps \<Longrightarrow> istep (b, cl, ps, n) (cancelRun run b, cl, remove1 (Cancel run) ps, n)"
| i_publish: "(run, ref) \<in> set (lb_runs b) \<Longrightarrow> istep (b, cl, ps, n) (publish ref line b, cl, ps, n)"
| i_reset: "(run, ref) \<in> set (lb_runs b) \<Longrightarrow> run \<in> set (lb_canceled b) \<or> \<not> hasSubscribers (lb_heap b ! ref) \<Longrightarrow>
    istep (b, cl, ps, n) (resetStream ref (b\<lparr>lb_runs := removeAll (run, ref) (lb_runs b)\<rparr>), cl, Drop ref # ps, n)"
| i_drop: "Drop ref \<in> set ps \<Longrightarrow>
    istep (b, cl, ps, n) (dropStream (sl_containerID (lb_heap b ! ref)) ref b, cl, remove1 (Drop ref) ps, n)"

abbreviation isteps :: "isystem \<Rightarrow> isystem \<Rightarrow> bool" where "isteps \<equiv> istep\<^sup>*\<^sup>*"

text \<open>Nobody will write to a channel: it is registered only with a stream that is out of reach.\<close>

fun pending_ref :: "pending \<Rightarrow> nat option" where
  "pending_ref (Join ch cid ref) = Some ref"
| "pending_ref (Leave ch ref) = Some ref"
| "pending_ref (Cancel run) = None"
| "pending_ref (Drop ref) = Some ref"

definition refs_of :: "logBroadcaster \<Rightarrow> pending list \<Rightarrow> nat set" where
  "refs_of b ps = ran (lb_streams b) \<union> snd ` set (lb_runs b) \<union> {ref. Some ref \<in> pending_ref ` set ps}"

definition starved :: "nat \<Rightarrow> nat \<Rightarrow> isystem \<Rightarrow> bool" where
  "starved ch ref s = (case s of (b, cl, ps, n) \<Rightarrow>
     ref < length (lb_heap b) \<and> ch < n \<and> ref \<notin> refs_of b ps \<and> (\<forall>x \<in> refs_of b ps. x < length (lb_heap b))
     \<and> (\<forall>x < length (lb_heap b). ch \<in> set (sl_subscribers (lb_heap b ! x)) \<longrightarrow> x = ref)
     \<and> (\<forall>cid x. Join ch cid x \<notin> set ps) \<and> lb_buffers b ch = [])"


lemma pending_refs_remove1: "{ref. Some ref \<in> pending_ref ` set (remove1 p ps)} \<subseteq> {ref. Some ref \<in> pending_ref ` set ps}"
  using set_remove1_subset [of p ps] by auto

lemma send_other: "c \<noteq> ch \<Longrightarrow> lb_buffers (send c line b) ch = lb_buffers b ch"
  by (simp add: send_def)

lemma replay_other: "c \<noteq> ch \<Longrightarrow> lb_buffers (replay c lines b) ch = lb_buffers b ch"
  unfolding replay_def by (induction lines arbitrary: b) (simp_all add: send_other)

lemma send_all_other: "ch \<notin> set chs \<Longrightarrow> lb_buffers (fold (\<lambda>c. send c line) chs b) ch = lb_buffers b ch"
  by (induction chs arbitrary: b) (simp_all add: send_other)

lemma starvedI:
  assumes "ref < length (lb_heap b)" "ch < n" "ref \<notin> refs_of b ps" "\<And>x. x \<in> refs_of b ps \<Longrightarrow> x < length (lb_heap b)"
    and "\<And>x. x < length (lb_heap b) \<Longrightarrow> ch \<in> set (sl_subscribers (lb_heap b ! x)) \<Longrightarrow> x = ref"
    and "\<And>cid x. Join ch cid x \<notin> set ps" "lb_buffers b ch = []"
  shows "starved ch ref (b, cl, ps, n)"
  using assms by (simp add: starved_def)

lemma starvedD:
  assumes "starved ch ref (b, cl, ps, n)"
  shows "ref < length (lb_heap b)" "ch < n" "ref \<notin> refs_of b ps" "x \<in> refs_of b ps \<Longrightarrow> x < length (lb_heap b)"
    and "x < length (lb_heap b) \<Longrightarrow> ch \<in> set (sl_subscribers (lb_heap b ! x)) \<Longrightarrow> x = ref"
    and "Join ch cid x \<notin> set ps" "lb_buffers b ch = []"
  using assms by (auto simp: starved_def)

lemma starved_find:
  assumes s: "starved ch ref (b, cl, ps, n)" and f: "findStream cid b = (r, b')"
  shows "starved ch ref (b', cl, Join n cid r # ps, n + 1)"
proof -
  have r: "b' = b \<and> r \<in> refs_of b ps \<or> r = length (lb_heap b) \<and> lb_buffers b' = lb_buffers b \<and> lb_runs b' = lb_runs b
      \<and> lb_streams b' = (lb_streams b)(cid \<mapsto> r) \<and> (\<exists>c. lb_heap b' = lb_heap b @ [c] \<and> sl_subscribers c = [])"
    using f by (auto simp: findStream_def Let_def refs_of_def ran_def split: option.splits if_splits)
  note d = starvedD [OF s]
  from r show ?thesis
  proof
    assume r: "b' = b \<and> r \<in> refs_of b ps"
    then have "refs_of b' (Join n cid r # ps) = refs_of b ps" by (auto simp: refs_of_def)
    then show ?thesis using r d by (intro starvedI) auto
  next
    assume r: "r = length (lb_heap b) \<and> lb_buffers b' = lb_buffers b \<and> lb_runs b' = lb_runs b
      \<and> lb_streams b' = (lb_streams b)(cid \<mapsto> r) \<and> (\<exists>c. lb_heap b' = lb_heap b @ [c] \<and> sl_subscribers c = [])"
    then obtain c where c: "lb_heap b' = lb_heap b @ [c]" "sl_subscribers c = []" by blast
    have sub: "refs_of b' (Join n cid r # ps) \<subseteq> insert r (refs_of b ps)"
      using r by (auto simp: refs_of_def ran_def split: if_splits)
    show ?thesis
    proof (rule starvedI)
      show "ref \<notin> refs_of b' (Join n cid r # ps)" using sub r d(1,3) by auto
      show "x < length (lb_heap b')" if "x \<in> refs_of b' (Join n cid r # ps)" for x
        using that sub r c d(4) [of x] by auto
      show "x = ref" if "x < length (lb_heap b')" "ch \<in> set (sl_subscribers (lb_heap b' ! x))" for x
        using that c d(5) [of x] by (cases "x < length (lb_heap b)") (auto simp: nth_append not_less_eq)
    qed (use r c d(1,2,6,7) in auto)
  qed
qed

lemma starved_join:
  assumes s: "starved ch ref (b, cl, ps, n)" and j: "Join c cid r \<in> set ps" "joinStream r c b = (lines, started, b')"
  shows "starved ch ref (replay c lines b', (c, cid) # cl, remove1 (Join c cid r) ps, n)"
proof -
  note d = starvedD [OF s]
  have ne: "c \<noteq> ch" using d(6) j(1) by auto
  have r: "r \<in> refs_of b ps" using j(1) by (force simp: refs_of_def image_iff)
  have f: "lb_streams b' = lb_streams b" "lb_buffers b' = lb_buffers b" "length (lb_heap b') = length (lb_heap b)"
    "set (lb_runs b') \<subseteq> insert (lb_nextRun b, r) (set (lb_runs b))"
    using j(2) by (auto simp: joinStream_def Let_def split: if_splits)
  have h: "set (sl_subscribers (lb_heap b' ! x)) \<subseteq> insert c (set (sl_subscribers (lb_heap b ! x)))" if "x < length (lb_heap b)" for x
    using j(2) that by (auto simp: joinStream_def Let_def nth_updated split: if_splits)
  have "snd ` set (lb_runs b') \<subseteq> insert r (snd ` set (lb_runs b))" using f(4) by auto
  then have sub: "refs_of (replay c lines b') (remove1 (Join c cid r) ps) \<subseteq> refs_of b ps"
    using r pending_refs_remove1 [of "Join c cid r" ps] f(1) unfolding refs_of_def by auto
  show ?thesis
  proof (rule starvedI)
    show "Join ch cid' x \<notin> set (remove1 (Join c cid r) ps)" for cid' x using d(6) by (meson notin_set_remove1)
    show "x = ref" if "x < length (lb_heap (replay c lines b'))" "ch \<in> set (sl_subscribers (lb_heap (replay c lines b') ! x))" for x
      using that h [of x] ne d(5) [of x] f(3) by auto
  qed (use d sub f ne in \<open>auto simp: replay_other\<close>)
qed


text \<open>Every other section only loses references and subscribers.\<close>

lemma starved_mono:
  assumes s: "starved ch ref (b, cl, ps, n)"
    and "length (lb_heap b') = length (lb_heap b)" "refs_of b' ps' \<subseteq> refs_of b ps" "lb_buffers b' ch = lb_buffers b ch"
    and "\<And>x. x < length (lb_heap b) \<Longrightarrow> set (sl_subscribers (lb_heap b' ! x)) \<subseteq> set (sl_subscribers (lb_heap b ! x))"
    and "\<And>cid x. Join ch cid x \<in> set ps' \<Longrightarrow> Join ch cid x \<in> set ps"
  shows "starved ch ref (b', cl', ps', n)"
proof (rule starvedI)
  fix x assume "x < length (lb_heap b')" "ch \<in> set (sl_subscribers (lb_heap b' ! x))"
  then show "x = ref" using assms(2) assms(5) [of x] starvedD(5) [OF s, of x] by auto
qed (use assms(2,3,4,6) starvedD(1,2,3,4,6,7) [OF s] in auto)

lemma refs_of_remove1: "refs_of b (remove1 p ps) \<subseteq> refs_of b ps"
  using pending_refs_remove1 [of p ps] by (auto simp: refs_of_def)

lemma starved_release:
  assumes "starved ch ref (b, cl, ps, n)"
  shows "starved ch ref (b, cl', (case lb_streams b cid of Some r \<Rightarrow> [Leave c r] | None \<Rightarrow> []) @ ps, n)"
  using assms by (rule starved_mono) (auto simp: refs_of_def ran_def split: option.splits)

lemma starved_leave:
  assumes "starved ch ref (b, cl, ps, n)" "leaveStream r c b = (canceled, b')"
  shows "starved ch ref (b', cl, (case canceled of Some run \<Rightarrow> [Cancel run] | None \<Rightarrow> []) @ remove1 (Leave c r) ps, n)"
proof (rule starved_mono [OF assms(1)])
  have f: "lb_streams b' = lb_streams b" "lb_runs b' = lb_runs b"
    using assms(2) by (auto simp: leaveStream_def Let_def split: if_splits)
  show "refs_of b' ((case canceled of Some run \<Rightarrow> [Cancel run] | None \<Rightarrow> []) @ remove1 (Leave c r) ps) \<subseteq> refs_of b ps"
    using pending_refs_remove1 [of "Leave c r" ps] by (auto simp: refs_of_def f split: option.splits)
  show "set (sl_subscribers (lb_heap b' ! x)) \<subseteq> set (sl_subscribers (lb_heap b ! x))" if "x < length (lb_heap b)" for x
    using assms(2) that by (auto simp: leaveStream_def Let_def nth_updated split: if_splits)
qed (use assms(2) in \<open>auto simp: leaveStream_def Let_def split: if_splits option.splits dest: notin_set_remove1\<close>)

lemma starved_publish:
  assumes "starved ch ref (b, cl, ps, n)" "(run, r) \<in> set (lb_runs b)"
  shows "starved ch ref (publish r line b, cl, ps, n)"
proof -
  have "r \<in> refs_of b ps" using assms(2) by (force simp: refs_of_def)
  then have "ch \<notin> set (sl_subscribers (lb_heap b ! r))" using starvedD(3,4,5) [OF assms(1)] by metis
  then show ?thesis
    by (intro starved_mono [OF assms(1)]) (simp_all add: publish_def Let_def refs_of_def send_all_other nth_updated)
qed

lemma starved_reset:
  assumes "starved ch ref (b, cl, ps, n)" "(run, r) \<in> set (lb_runs b)"
  shows "starved ch ref (resetStream r (b\<lparr>lb_runs := removeAll (run, r) (lb_runs b)\<rparr>), cl, Drop r # ps, n)"
proof (rule starved_mono [OF assms(1)])
  have r: "r \<in> snd ` set (lb_runs b)" using assms(2) by force
  then show "refs_of (resetStream r (b\<lparr>lb_runs := removeAll (run, r) (lb_runs b)\<rparr>)) (Drop r # ps) \<subseteq> refs_of b ps"
    by (auto simp: refs_of_def resetStream_def)
qed (simp_all add: resetStream_def nth_updated)

lemma starved_drop:
  assumes "starved ch ref (b, cl, ps, n)"
  shows "starved ch ref (dropStream cid r b, cl, remove1 (Drop r) ps, n)"
proof (rule starved_mono [OF assms])
  show "refs_of (dropStream cid r b) (remove1 (Drop r) ps) \<subseteq> refs_of b ps"
    using pending_refs_remove1 [of "Drop r" ps] by (auto simp: refs_of_def dropStream_def ran_def split: if_splits)
qed (auto simp: dropStream_def dest: notin_set_remove1)

lemma starved_cancel:
  assumes "starved ch ref (b, cl, ps, n)"
  shows "starved ch ref (cancelRun run b, cl, remove1 (Cancel run) ps, n)"
proof (rule starved_mono [OF assms])
  show "refs_of (cancelRun run b) (remove1 (Cancel run) ps) \<subseteq> refs_of b ps"
    using pending_refs_remove1 [of "Cancel run" ps] by (auto simp: refs_of_def cancelRun_def)
qed (auto simp: cancelRun_def dest: notin_set_remove1)

lemma starved_step: "istep s s' \<Longrightarrow> starved ch ref s \<Longrightarrow> starved ch ref s'"
  by (induction rule: istep.induct)
    (blast intro: starved_find starved_join starved_release starved_leave starved_cancel starved_publish starved_reset
      starved_drop)+

lemma starved_forever: "isteps s s' \<Longrightarrow> starved ch ref s \<Longrightarrow> starved ch ref s'"
  by (induction rule: rtranclp_induct) (auto intro: starved_step)


section \<open>Lines and delays\<close>

text \<open>What a channel nobody reads from holds, and what a history holds, after a list of lines.\<close>

definition keep_first :: "nat \<Rightarrow> 'a list \<Rightarrow> 'a list" where "keep_first n xs = take n xs"

definition keep_last :: "nat \<Rightarrow> 'a list \<Rightarrow> 'a list" where "keep_last n xs = drop (length xs - n) xs"

lemma push_history_snoc: "push_history line (keep_last LogTailLineCount xs) = keep_last LogTailLineCount (xs @ [line])"
proof (cases "length xs < 500")
  case True
  then show ?thesis by (simp add: push_history_def keep_last_def Let_def LogTailLineCount_def)
next
  case False
  then have "Suc (length xs - 500) = length xs - 499" by simp
  with False show ?thesis by (simp add: push_history_def keep_last_def Let_def LogTailLineCount_def)
qed

lemma fold_push_history: "fold push_history lines (keep_last LogTailLineCount xs) = keep_last LogTailLineCount (xs @ lines)"
  by (induction lines arbitrary: xs) (simp_all add: push_history_snoc)

lemma trySend_snoc: "trySendLogLine line (keep_first chanCapacity xs) = keep_first chanCapacity (xs @ [line])"
  by (simp add: trySendLogLine_def keep_first_def)

lemma fold_trySend: "fold trySendLogLine lines (keep_first chanCapacity xs) = keep_first chanCapacity (xs @ lines)"
  by (induction lines arbitrary: xs) (simp_all add: trySend_snoc)

lemma replay_buffer: "lb_buffers (replay ch lines b) ch = fold trySendLogLine lines (lb_buffers b ch)"
  unfolding replay_def by (induction lines arbitrary: b) (simp_all add: send_def)

lemma send_all_buffer:
  "distinct chs \<Longrightarrow> ch \<in> set chs \<Longrightarrow> lb_buffers (fold (\<lambda>c. send c line) chs b) ch = trySendLogLine line (lb_buffers b ch)"
  by (induction chs arbitrary: b) (auto simp: send_all_other send_def)

lemma publish_effect:
  assumes "ref < length (lb_heap b)"
  shows "sl_history (lb_heap (publish ref line b) ! ref) = push_history line (sl_history (lb_heap b ! ref))"
    and "sl_subscribers (lb_heap (publish ref line b) ! ref) = sl_subscribers (lb_heap b ! ref)"
    and "length (lb_heap (publish ref line b)) = length (lb_heap b)"
    and "distinct (sl_subscribers (lb_heap b ! ref)) \<Longrightarrow> ch \<in> set (sl_subscribers (lb_heap b ! ref)) \<Longrightarrow>
      lb_buffers (publish ref line b) ch = trySendLogLine line (lb_buffers b ch)"
  using assms by (simp_all add: publish_def Let_def nth_updated send_all_buffer)

lemma publish_all_effect:
  assumes "ref < length (lb_heap b)"
  shows "sl_history (lb_heap (fold (publish ref) lines b) ! ref) = fold push_history lines (sl_history (lb_heap b ! ref))
    \<and> (distinct (sl_subscribers (lb_heap b ! ref)) \<and> ch \<in> set (sl_subscribers (lb_heap b ! ref)) \<longrightarrow>
       lb_buffers (fold (publish ref) lines b) ch = fold trySendLogLine lines (lb_buffers b ch))"
  using assms
proof (induction lines arbitrary: b)
  case (Cons line lines)
  then show ?case using Cons.IH [of "publish ref line b"] by (simp add: publish_effect)
qed simp

lemma next_delay: "nextLogStreamRetryDelay (min LogStreamRetryMax (LogStreamRetryBase * 2 ^ k)) = min LogStreamRetryMax (LogStreamRetryBase * 2 ^ Suc k)"
proof -
  have "LogStreamRetryBase * 2 ^ Suc k = 2 * (LogStreamRetryBase * 2 ^ k)" by simp
  moreover have "0 < LogStreamRetryBase * 2 ^ k" by (simp add: LogStreamRetryBase_def)
  ultimately show ?thesis by (auto simp: nextLogStreamRetryDelay_def Let_def min_def LogStreamRetryMax_def)
qed

text \<open>
  The specification of the delays: after the \<open>k\<close>-th failure in a row (from 0) the wait is the base delay
  doubled \<open>k\<close> times, cut at the maximum; after a success it is the base delay.
\<close>

fun delays_spec :: "nat \<Rightarrow> bool list \<Rightarrow> int list" where
  "delays_spec k [] = []"
| "delays_spec k (failed # fs) =
     (if failed then min LogStreamRetryMax (LogStreamRetryBase * 2 ^ k) # delays_spec (Suc k) fs
      else LogStreamRetryBase # delays_spec 0 fs)"

text \<open>A round that neither finds the stream abandoned nor is cancelled.\<close>

definition full_round :: "attempt \<Rightarrow> bool" where
  "full_round a \<longleftrightarrow> \<not> at_canceled a \<and> at_subscribers a \<and> \<not> at_canceledAfter a \<and> at_waited a"

lemma base_delay: "LogStreamRetryBase = min LogStreamRetryMax (LogStreamRetryBase * 2 ^ 0)"
  by (simp add: LogStreamRetryBase_def LogStreamRetryMax_def)

lemma runStream_loop_delays:
  assumes "list_all full_round as"
  shows "runStream_loop sent (min LogStreamRetryMax (LogStreamRetryBase * 2 ^ k)) as =
    (zip (map (\<lambda>i. if i = 0 \<and> \<not> sent then History else Follow) [0..<length as])
       (map Some (delays_spec k (map (\<lambda>a. at_err a \<noteq> None) as))), False)"
  using assms
proof (induction as arbitrary: sent k)
  case (Cons a as)
  then have a: "\<not> at_canceled a" "at_subscribers a" "\<not> at_canceledAfter a" "at_waited a" 
    by (simp_all add: full_round_def)
  from Cons.prems have r: "list_all full_round as" by simp
  have up: "map (\<lambda>i. if i = 0 \<and> \<not> sent then History else Follow) [0..<length (a # as)]
      = (if \<not> sent then History else Follow) # map (\<lambda>i. if i = 0 \<and> \<not> True then History else Follow) [0..<length as]"
    by (simp add: upt_conv_Cons map_Suc_upt [symmetric] del: upt_Suc)
  show ?case
  proof (cases "at_err a = None")
    case True
    with Cons.IH [OF r, of True 0, folded base_delay] show ?thesis unfolding up by (simp add: a Let_def)
  next
    case False
    with Cons.IH [OF r, of True "Suc k"] show ?thesis unfolding up by (simp add: a Let_def next_delay del: power_Suc)
  qed
qed simp

lemma delays_spec_bounds: "d \<in> set (delays_spec k fs) \<Longrightarrow> LogStreamRetryBase \<le> d \<and> d \<le> LogStreamRetryMax"
proof (induction fs arbitrary: k)
  case (Cons f fs)
  have "LogStreamRetryBase * 1 \<le> LogStreamRetryBase * 2 ^ k" by (intro mult_left_mono) (simp_all add: LogStreamRetryBase_def)
  moreover have "LogStreamRetryBase \<le> LogStreamRetryMax" by (simp add: LogStreamRetryBase_def LogStreamRetryMax_def)
  ultimately show ?case using Cons by (auto split: if_splits)
qed simp


section \<open>Properties\<close>

text \<open>
  C3: While operations are not interrupted, a container has a log process that was not told to end exactly
  when somebody is subscribed to it, never more than one, and every subscriber is registered with the
  stream of that process.
\<close>

theorem subscribers_are_served:
  assumes "areachable (b, cl)"
  shows "((\<exists>ch. (ch, cid) \<in> set cl) \<longleftrightarrow> (\<exists>run ref. follows b run ref \<and> sl_containerID (lb_heap b ! ref) = cid))
    \<and> (follows b run ref \<and> follows b run' ref' \<and> sl_containerID (lb_heap b ! ref) = sl_containerID (lb_heap b ! ref')
       \<longrightarrow> run = run' \<and> ref = ref')
    \<and> ((ch, cid) \<in> set cl \<longrightarrow>
       (\<exists>run ref. follows b run ref \<and> lb_streams b cid = Some ref \<and> ch \<in> set (sl_subscribers (lb_heap b ! ref))))"
proof -
  have inv: "streams_ok b" "clients_ok b cl" "runs_ok b" using inv_reachable [OF assms] by (simp_all add: bc_inv_def)
  have eq: "follows b r x = live b r x" for r x using follows_live [OF inv(3)] .
  have served: "\<exists>run ref. live b run ref \<and> lb_streams b cid = Some ref \<and> ch \<in> set (sl_subscribers (lb_heap b ! ref))"
    if "(ch, cid) \<in> set cl" for ch
    using clients_okD(2) [OF inv(2) that] streams_okD(3) [OF inv(1), of cid] by (metis empty_iff list.set(1))
  have mapped: "lb_streams b (sl_containerID (lb_heap b ! x)) = Some x" if "live b r x" for r x
    using runs_okD(7) [OF inv(3)] liveD(5,6) [OF that] by blast
  have "\<exists>ch. (ch, sl_containerID (lb_heap b ! x)) \<in> set cl" if "live b r x" for r x
    using clients_okD(3) [OF inv(2) liveD(1) [OF that]] liveD(3) [OF that] by (meson last_in_set)
  moreover have "run = run' \<and> ref = ref'"
    if "live b run ref" "live b run' ref'" "sl_containerID (lb_heap b ! ref) = sl_containerID (lb_heap b ! ref')"
    using mapped [OF that(1)] mapped [OF that(2)] that liveD(4) by (metis option.inject)
  ultimately show ?thesis unfolding eq using served streams_okD(2) [OF inv(1)] by blast
qed

theorem subscribers_are_served_witness:
  "\<exists>run ref. follows (subscribe ''c'' 0 newLogBroadcaster) run ref
     \<and> sl_containerID (lb_heap (subscribe ''c'' 0 newLogBroadcaster) ! ref) = ''c''"
proof -
  have "areachable (subscribe ''c'' 0 newLogBroadcaster, [(0, ''c'')])"
    by (rule ar_step [OF ar_init]) (simp add: a_subscribe)
  from subscribers_are_served [OF this, of "''c''"] show ?thesis by auto
qed

text \<open>
  When the sections of two operations interleave, a subscriber can be lost for good: it finds the
  stream before the last other subscriber leaves and joins it afterwards, the run ends and takes the
  stream out of the map, and whatever happens later no line reaches the new subscriber.
\<close>

theorem late_subscriber_can_starve:
  "\<exists>b. isteps (newLogBroadcaster, [], [], 0) (b, [(1, ''c'')], [], 2)
     \<and> (\<nexists>b' cl' ps' n'. isteps (b, [(1, ''c'')], [], 2) (b', cl', ps', n') \<and> lb_buffers b' 1 \<noteq> [])"
proof -
  define c where "c = ''c''"
  define b1 where "b1 = snd (findStream c newLogBroadcaster)"
  define b2 where "b2 = snd (snd (joinStream 0 0 b1))"
  define b3 where "b3 = snd (leaveStream 0 0 b2)"
  define b4 where "b4 = snd (snd (joinStream 0 1 b3))"
  define b5 where "b5 = resetStream 0 (cancelRun 0 b4\<lparr>lb_runs := []\<rparr>)"
  define b6 where "b6 = dropStream c 0 b5"
  note defs = b1_def b2_def b3_def b4_def b5_def b6_def findStream_def joinStream_def leaveStream_def resetStream_def
    cancelRun_def dropStream_def newLogBroadcaster_def upd_stream_def isStopping_def Let_def replay_def
  have "isteps (newLogBroadcaster, [], [], 0) (b1, [], [Join 0 c 0], 1)"
    using i_find [of c newLogBroadcaster 0 b1 "[]" "[]" 0] by (simp add: defs)
  also have "istep (b1, [], [Join 0 c 0], 1) (b2, [(0, c)], [], 1)"
    using i_join [of 0 c 0 "[Join 0 c 0]" b1 "[]" "Some 0" b2 "[]" 1] by (simp add: defs)
  also have "istep (b2, [(0, c)], [], 1) (b2, [(0, c)], [Join 1 c 0], 2)"
    using i_find [of c b2 0 b2 "[(0, c)]" "[]" 1] by (simp add: defs numeral_2_eq_2)
  also have "istep (b2, [(0, c)], [Join 1 c 0], 2) (b2, [], [Leave 0 0, Join 1 c 0], 2)"
    using i_release [of 0 c "[(0, c)]" b2 "[Join 1 c 0]" 2] by (simp add: defs)
  also have "istep (b2, [], [Leave 0 0, Join 1 c 0], 2) (b3, [], [Cancel 0, Join 1 c 0], 2)"
    using i_leave [of 0 0 "[Leave 0 0, Join 1 c 0]" b2 "Some 0" b3 "[]" 2] by (simp add: defs)
  also have "istep (b3, [], [Cancel 0, Join 1 c 0], 2) (b4, [(1, c)], [Cancel 0], 2)"
    using i_join [of 1 c 0 "[Cancel 0, Join 1 c 0]" b3 "[]" None b4 "[]" 2] by (simp add: defs)
  also have "istep (b4, [(1, c)], [Cancel 0], 2) (cancelRun 0 b4, [(1, c)], [], 2)"
    using i_cancel [of 0 "[Cancel 0]" b4 "[(1, c)]" 2] by simp
  also have "istep (cancelRun 0 b4, [(1, c)], [], 2) (b5, [(1, c)], [Drop 0], 2)"
    using i_reset [of 0 0 "cancelRun 0 b4" "[(1, c)]" "[]" 2] by (simp add: defs)
  also have "istep (b5, [(1, c)], [Drop 0], 2) (b6, [(1, c)], [], 2)"
    using i_drop [of 0 "[Drop 0]" b5 "[(1, c)]" 2] by (simp add: defs)
  finally have reach: "isteps (newLogBroadcaster, [], [], 0) (b6, [(1, c)], [], 2)" .
  have "starved 1 0 (b6, [(1, c)], [], 2)" by (simp add: starved_def refs_of_def ran_def defs)
  then have "lb_buffers b' 1 = []" if "isteps (b6, [(1, c)], [], 2) (b', cl', ps', n')" for b' cl' ps' n'
    using starvedD(7) starved_forever [OF that] by blast
  with reach show ?thesis unfolding c_def by blast
qed

text \<open>
  The history of a stream is exactly the last 500 lines published, a subscriber that does not read
  keeps the first 256 lines sent to it, and so a late subscriber that has not read yet holds the oldest
  256 of the last 500 lines.
\<close>

theorem lines_kept:
  assumes "ref < length (lb_heap b)" "sl_history (lb_heap b ! ref) = []" "distinct (sl_subscribers (lb_heap b ! ref))"
    and "ch \<in> set (sl_subscribers (lb_heap b ! ref))" "lb_buffers b ch = []" "lb_buffers b' late = []"
  shows "sl_history (lb_heap (fold (publish ref) lines b) ! ref) = keep_last 500 lines
    \<and> lb_buffers (fold (publish ref) lines b) ch = keep_first 256 lines
    \<and> lb_buffers (replay late (sl_history (lb_heap (fold (publish ref) lines b) ! ref)) b') late
      = keep_first 256 (keep_last 500 lines)"
proof -
  have e: "keep_last n [] = []" "keep_first n [] = []" for n by (simp_all add: keep_last_def keep_first_def)
  have h: "sl_history (lb_heap (fold (publish ref) lines b) ! ref) = keep_last 500 lines"
    using publish_all_effect [OF assms(1), of lines] fold_push_history [of lines "[]"] assms(2)
    by (simp add: e LogTailLineCount_def)
  moreover have "lb_buffers (fold (publish ref) lines b) ch = keep_first 256 lines"
    using publish_all_effect [OF assms(1), of lines ch] fold_trySend [of lines "[]"] assms(3,4,5)
    by (simp add: e chanCapacity_def)
  moreover have "lb_buffers (replay late (sl_history (lb_heap (fold (publish ref) lines b) ! ref)) b') late
      = keep_first 256 (keep_last 500 lines)"
    using fold_trySend [of "keep_last 500 lines" "[]"] assms(6) by (simp add: h replay_buffer e chanCapacity_def)
  ultimately show ?thesis by blast
qed

theorem lines_kept_witness:
  "lb_buffers (fold (publish 0) (replicate 300 ''x'') (subscribe ''c'' 0 newLogBroadcaster)) 0 = keep_first 256 (replicate 300 ''x'')"
proof -
  have s: "subscribe ''c'' 0 newLogBroadcaster
    = newLogBroadcaster\<lparr>lb_streams := [''c'' \<mapsto> 0], lb_heap := [fresh_stream ''c'' 0 0], lb_nextRun := 1, lb_runs := [(0, 0)]\<rparr>"
    by (subst subscribe_fresh) (simp_all add: newLogBroadcaster_def)
  show ?thesis
    using lines_kept [of 0 "subscribe ''c'' 0 newLogBroadcaster" 0 newLogBroadcaster 1 "replicate 300 ''x''"]
    unfolding s by (simp add: newLogBroadcaster_def fresh_stream_def)
qed

text \<open>
  The run asks for the history once, at the start, and then only follows; the delays between calls
  are the exponential back-off of the specification, between half a second and five seconds.
\<close>

theorem runStream_backs_off:
  assumes "list_all full_round attempts"
  shows "map fst (fst (runStream attempts)) = map (\<lambda>i. if i = 0 then History else Follow) [0..<length attempts]
    \<and> map snd (fst (runStream attempts)) = map Some (delays_spec 0 (map (\<lambda>a. at_err a \<noteq> None) attempts))
    \<and> (d \<in> set (delays_spec 0 (map (\<lambda>a. at_err a \<noteq> None) attempts)) \<longrightarrow> 500 * 1000000 \<le> d \<and> d \<le> 5 * Second)"
proof -
  have "length (delays_spec k fs) = length fs" for k fs by (induction fs arbitrary: k) simp_all
  then show ?thesis
    using runStream_loop_delays [OF assms, of False 0, folded base_delay] delays_spec_bounds [of d]
    by (simp add: runStream_def LogStreamRetryBase_def LogStreamRetryMax_def)
qed

theorem runStream_backs_off_witness:
  "map snd (fst (runStream (replicate 6 \<lparr>at_canceled = False, at_subscribers = True, at_err = Some (Errorf []), at_canceledAfter = False, at_waited = True\<rparr>)))
     = map (\<lambda>ms. Some (ms * 1000000)) [500, 1000, 2000, 4000, 5000, 5000]"
  using runStream_backs_off [of "replicate 6 \<lparr>at_canceled = False, at_subscribers = True, at_err = Some (Errorf []), at_canceledAfter = False, at_waited = True\<rparr>"]
  by (simp add: full_round_def numeral_eq_Suc LogStreamRetryBase_def LogStreamRetryMax_def)


end
