(* ===== verification/Calf_Commands.thy ===== *)
theory Calf_Commands
  imports Calf_Prelude
begin

text \<open>
  Running commands (\<open>internal/runtime/exec.go\<close>), the classification and the wording of their failures
  (\<open>command_error.go\<close>), and the clean-up of corrupt containers (\<open>container_ghosts.go\<close>).  The process itself
  is an argument.  \<open>None\<close> stands for the nil error.
\<close>

section \<open>Text\<close>

text \<open>The bytes of a white-space character at the front, 0 if there is none.\<close>

fun lead_space :: "string \<Rightarrow> nat" where
  "lead_space [] = 0"
| "lead_space [a] = (if space1 a then 1 else 0)"
| "lead_space [a, b] = (if space1 a then 1 else if space2 a b then 2 else 0)"
| "lead_space (a # b # c # s) = (if space1 a then 1 else if space2 a b then 2 else if space3 a b c then 3 else 0)"

text \<open>\<open>strings.Fields\<close>, with the current field in reverse.\<close>

function fields_loop :: "string \<Rightarrow> string \<Rightarrow> string list" where
  "fields_loop cur [] = (if cur = [] then [] else [rev cur])"
| "fields_loop cur (a # s) =
     (let n = lead_space (a # s) in
      if n = 0 then fields_loop (a # cur) s
      else if cur = [] then fields_loop [] (drop (n - 1) s)
      else rev cur # fields_loop [] (drop (n - 1) s))"
  by pat_completeness auto
termination by (relation "measure (\<lambda>(cur, s). length s)") auto

definition Fields :: "string \<Rightarrow> string list" where
  "Fields s = fields_loop [] s"

text \<open>\<open>strings.LastIndex\<close> of a byte, with -1 for none.\<close>

fun last_index_loop :: "char \<Rightarrow> string \<Rightarrow> int \<Rightarrow> int \<Rightarrow> int" where
  "last_index_loop c [] i found = found"
| "last_index_loop c (d # s) i found = last_index_loop c s (i + 1) (if d = c then i else found)"

definition LastIndex :: "string \<Rightarrow> char \<Rightarrow> int" where
  "LastIndex s c = last_index_loop c s 0 (-1)"

text \<open>\<open>strings.Cut\<close> at a byte.\<close>

definition Cut :: "string \<Rightarrow> char \<Rightarrow> string \<times> string \<times> bool" where
  "Cut s c = (if c \<in> set s then (takeWhile (\<lambda>d. d \<noteq> c) s, drop 1 (dropWhile (\<lambda>d. d \<noteq> c) s), True) else (s, [], False))"

text \<open>
  The pattern for ANSI sequences: escape, bracket, digits and semicolons, a letter.  What ends the
  digits is not one of them, so the greedy match needs no backtracking.
\<close>

definition is_letter :: "char \<Rightarrow> bool" where
  "is_letter c \<longleftrightarrow> (CHR ''A'' \<le> c \<and> c \<le> CHR ''Z'') \<or> (CHR ''a'' \<le> c \<and> c \<le> CHR ''z'')"

definition ansi_length :: "string \<Rightarrow> nat option" where
  "ansi_length s =
     (case s of
        e # b # t \<Rightarrow>
          if e = CHR 0x1B \<and> b = CHR ''['' then
            let ps = takeWhile (\<lambda>c. is_digit c \<or> c = CHR '';'') t in
            (case drop (length ps) t of
               c # _ \<Rightarrow> if is_letter c then Some (length ps + 3) else None
             | [] \<Rightarrow> None)
          else None
      | _ \<Rightarrow> None)"

function strip_ansi :: "string \<Rightarrow> string" where
  "strip_ansi [] = []"
| "strip_ansi (c # s) =
     (case ansi_length (c # s) of
        Some n \<Rightarrow> strip_ansi (drop (n - 1) s)
      | None \<Rightarrow> c # strip_ansi s)"
  by pat_completeness auto
termination by (relation "measure length") auto

text \<open>The pattern for the fatal message: the text between the quotes of the first fatal entry that has any.\<close>

definition fatal_at :: "string \<Rightarrow> string option" where
  "fatal_at s =
     (let lead = ''level=fatal msg='' @ [CHR 0x22] in
      if HasPrefix s lead then
        let r = drop (length lead) s; m = takeWhile (\<lambda>c. c \<noteq> CHR 0x22) r in
        if m \<noteq> [] \<and> length m < length r then Some m else None
      else None)"

fun fatal_message :: "string \<Rightarrow> string option" where
  "fatal_message [] = None"
| "fatal_message (c # s) = (case fatal_at (c # s) of Some m \<Rightarrow> Some m | None \<Rightarrow> fatal_message s)"

section \<open>Wording of failures (command_error.go)\<close>

definition preferredErrorMarkers :: "string list" where
  "preferredErrorMarkers = [''unknown command'', ''unknown flag'', ''not found'', ''is not a docker command'',
     ''permission denied'', ''error during connect'', ''driver not connecting'',
     ''cannot connect to the docker daemon'', ''unexpected eof'', ''error:'', ''fatal:'']"

definition isProgressLine :: "string \<Rightarrow> bool" where
  "isProgressLine line \<longleftrightarrow> Contains line ''elapsed:'' \<or> Contains line ''waiting''
     \<or> Contains line ''--------------------------------------''"

definition isUsageLine :: "string \<Rightarrow> bool" where
  "isUsageLine line \<longleftrightarrow> HasPrefix line ''Usage:'' \<or> HasPrefix line (''Run '' @ [CHR 0x27])"

text \<open>The loop runs from the last line to the first; its argument has the last line first.\<close>

fun marker_loop :: "string list \<Rightarrow> string" where
  "marker_loop [] = []"
| "marker_loop (raw # rest) =
     (let line = TrimSpace raw in
      if line = [] \<or> isProgressLine line then marker_loop rest
      else case fatal_message line of
        Some m \<Rightarrow> m
      | None \<Rightarrow>
          if HasPrefix line ''time='' then marker_loop rest
          else if isUsageLine line then marker_loop rest
          else if list_ex (\<lambda>marker. Contains (ToLower line) marker) preferredErrorMarkers then line
          else marker_loop rest)"

definition commandErrorMarkerLine :: "string \<Rightarrow> string" where
  "commandErrorMarkerLine output = marker_loop (rev (Split (strip_ansi output) (CHR 0x0A)))"

fun useful_loop :: "string list \<Rightarrow> string" where
  "useful_loop [] = []"
| "useful_loop (raw # rest) =
     (let line = TrimSpace raw in
      if line = [] \<or> isProgressLine line then useful_loop rest
      else if HasPrefix line ''time='' \<or> isUsageLine line then useful_loop rest
      else line)"

definition FormatCommandError :: "string \<Rightarrow> string" where
  "FormatCommandError output =
     (let line = commandErrorMarkerLine output in
      if line \<noteq> [] then line
      else
        let cleaned = strip_ansi output; lastUseful = useful_loop (rev (Split cleaned (CHR 0x0A))) in
        if lastUseful \<noteq> [] then lastUseful
        else let cleaned = TrimSpace cleaned in
          if cleaned = [] then []
          else if length cleaned > 500 then drop (length cleaned - 500) cleaned
          else cleaned)"

definition WrapGuestWaitError :: "go_error option \<Rightarrow> string \<Rightarrow> go_error option" where
  "WrapGuestWaitError waitErr logs =
     (case waitErr of
        None \<Rightarrow> None
      | Some err \<Rightarrow>
          let msg = commandErrorMarkerLine logs in
          if msg \<noteq> [] then Some (WrapMsg ''guest wait'' err msg) else Some (Wrap ''guest wait'' err))"

definition ParseInspectStateLine :: "string \<Rightarrow> string \<times> string \<times> bool" where
  "ParseInspectStateLine out =
     (let fields = Fields (TrimSpace out) in
      case fields of a # b # _ \<Rightarrow> (ToLower a, b, True) | _ \<Rightarrow> ([], [], False))"

definition InspectStateExited :: "string \<Rightarrow> bool" where
  "InspectStateExited status \<longleftrightarrow> ToLower (TrimSpace status) \<in> {''exited'', ''dead''}"

text \<open>Both functions on references cut off a tag, a colon after the last slash.\<close>

definition without_tag :: "string \<Rightarrow> string" where
  "without_tag ref =
     (let name = TrimSpace ref; colon = LastIndex name (CHR '':'')
      in if colon > LastIndex name (CHR ''/'') then take (nat colon) name else name)"

definition isNamespacedImageReference :: "string \<Rightarrow> bool" where
  "isNamespacedImageReference ref = Contains (without_tag ref) ''/''"

definition imageRepositoryName :: "string \<Rightarrow> string" where
  "imageRepositoryName ref =
     (let name = without_tag ref; slash = LastIndex name (CHR ''/'')
      in if slash \<ge> 0 then drop (nat (slash + 1)) name else name)"

definition WrapPushError :: "string \<Rightarrow> go_error \<Rightarrow> go_error" where
  "WrapPushError ref err =
     (let message = Error err; lower = ToLower message in
      if \<not> Contains lower ''authorization'' \<and> \<not> Contains lower ''access denied'' \<and> \<not> Contains lower ''insufficient_scope''
      then err
      else if \<not> isNamespacedImageReference ref
      then Errorf (message @ ''. Tag the image for Docker Hub first, e.g. docker.io/USERNAME/'' @ imageRepositoryName ref
             @ '':latest, then push again'')
      else Errorf (message @ ''. Sign in to Docker Hub from Settings (browser login), then push again''))"

definition IsContainerNotFoundError :: "go_error option \<Rightarrow> bool" where
  "IsContainerNotFoundError err = (case err of None \<Rightarrow> False | Some e \<Rightarrow>
     let message = ToLower (Error e) in Contains message ''no such object'' \<or> Contains message ''no such container'')"

definition IsContainerNotRunningError :: "go_error option \<Rightarrow> bool" where
  "IsContainerNotRunningError err = (case err of None \<Rightarrow> False | Some e \<Rightarrow>
     let message = ToLower (Error e) in Contains message ''is not running'' \<or> Contains message ''container not running'')"

definition transientMarkers :: "string list" where
  "transientMarkers = [''text file busy'', ''transport is closing'', ''connection reset'', ''connection refused'',
     ''cannot connect to the docker daemon'', ''deadline exceeded'', ''i/o timeout'', ''broken pipe'',
     ''error during connect'', ''unexpected eof'', '': eof'', ''driver not connecting'']"

definition startupPathMarkers :: "string list" where
  "startupPathMarkers = [''no such file or directory'', ''executable file not found'']"

definition startupContexts :: "string list" where
  "startupContexts = [''nerdctl'', ''krunkit'', ''gvproxy'', ''containerd'', ''docker.sock'', ''/run/containerd'']"

definition IsTransientCommandError :: "go_error option \<Rightarrow> bool" where
  "IsTransientCommandError err = (case err of None \<Rightarrow> False | Some e \<Rightarrow>
     let message = ToLower (Error e) in
       TrimSpace message = ''eof'' \<or> list_ex (Contains message) transientMarkers
       \<or> list_ex (\<lambda>marker. Contains message marker \<and> list_ex (Contains message) startupContexts) startupPathMarkers)"

definition wrapCommandOutputError :: "string \<Rightarrow> string list \<Rightarrow> string \<Rightarrow> go_error \<Rightarrow> go_error" where
  "wrapCommandOutputError name args output err =
     (let formatted = FormatCommandError output in
      if formatted \<noteq> [] then Errorf formatted else Wrap (name @ '' '' @ Join args '' '') err)"

section \<open>Running commands (exec.go)\<close>

text \<open>
  \<open>exec\<close> is the process: its combined output, and its error if it failed; \<open>ctxErr\<close> is the error of the
  context, and \<open>sleep\<close> the \<open>select\<close> between the context and a delay.
\<close>

definition runCommandOnceEnv ::
    "('w \<Rightarrow> (string \<times> go_error option) \<times> 'w) \<Rightarrow> ('w \<Rightarrow> go_error option) \<Rightarrow> string \<Rightarrow> string list \<Rightarrow> 'w \<Rightarrow> string result \<times> 'w" where
  "runCommandOnceEnv exec ctxErr name args w =
     (case exec w of
        ((output, None), w1) \<Rightarrow> (Inr output, w1)
      | ((output, Some err), w1) \<Rightarrow>
          (case ctxErr w1 of
             Some e \<Rightarrow> (Inl e, w1)
           | None \<Rightarrow> (Inl (wrapCommandOutputError name args output err), w1)))"

text \<open>The loop, with the attempts that are left after this one.\<close>

fun retry_loop ::
    "('w \<Rightarrow> string result \<times> 'w) \<Rightarrow> (int \<Rightarrow> 'w \<Rightarrow> go_error option \<times> 'w) \<Rightarrow> nat \<Rightarrow> int \<Rightarrow> 'w \<Rightarrow> string result \<times> 'w" where
  "retry_loop once sleep 0 delay w = once w"
| "retry_loop once sleep (Suc left) delay w =
     (case once w of
        (Inr output, w1) \<Rightarrow> (Inr output, w1)
      | (Inl err, w1) \<Rightarrow>
          if \<not> IsTransientCommandError (Some err) then (Inl err, w1)
          else case sleep delay w1 of
            (Some e, w2) \<Rightarrow> (Inl e, w2)
          | (None, w2) \<Rightarrow> retry_loop once sleep left (if delay < 2 * 1000000000 then delay * 2 else delay) w2)"

definition runCommandWithRetryEnv ::
    "('w \<Rightarrow> string result \<times> 'w) \<Rightarrow> (int \<Rightarrow> 'w \<Rightarrow> go_error option \<times> 'w) \<Rightarrow> int \<Rightarrow> int \<Rightarrow> 'w \<Rightarrow> string result \<times> 'w" where
  "runCommandWithRetryEnv once sleep retries delay w =
     retry_loop once sleep (nat (if retries < 0 then 0 else retries)) delay w"

section \<open>Corrupt containers (container\_ghosts.go)\<close>

definition is_hex :: "char \<Rightarrow> bool" where
  "is_hex c \<longleftrightarrow> (CHR ''0'' \<le> c \<and> c \<le> CHR ''9'') \<or> (CHR ''a'' \<le> c \<and> c \<le> CHR ''f'') \<or> (CHR ''A'' \<le> c \<and> c \<le> CHR ''F'')"

definition isDockerContainerID :: "string \<Rightarrow> bool" where
  "isDockerContainerID s \<longleftrightarrow> \<not> (length s < 12 \<or> length s > 64) \<and> list_all is_hex s"

text \<open>The ID and the name of a line of \<open>docker ps\<close>.\<close>

definition ps_line :: "string \<Rightarrow> (string \<times> string) option" where
  "ps_line raw =
     (let line = TrimSpace raw in
      if line = [] then None
      else case Cut line (CHR 0x09) of
        (cid, name, True) \<Rightarrow> Some (TrimSpace cid, name)
      | (_, _, False) \<Rightarrow>
          (case Fields line of
             [] \<Rightarrow> None
           | [a] \<Rightarrow> Some (TrimSpace a, [])
           | a # b # _ \<Rightarrow> Some (TrimSpace a, b)))"

fun collect_loop :: "string list \<Rightarrow> string list \<Rightarrow> string list" where
  "collect_loop ids [] = ids"
| "collect_loop ids (raw # rest) =
     (case ps_line raw of
        None \<Rightarrow> collect_loop ids rest
      | Some (cid, name) \<Rightarrow>
          if \<not> isDockerContainerID cid \<or> TrimSpace name \<noteq> [] then collect_loop ids rest
          else if cid \<in> set ids then collect_loop ids rest
          else collect_loop (ids @ [cid]) rest)"

definition CollectEmptyNameContainerIDs :: "string \<Rightarrow> string list" where
  "CollectEmptyNameContainerIDs psOutput = collect_loop [] (Split psOutput (CHR 0x0A))"

definition isNoSuchContainerError :: "go_error option \<Rightarrow> bool" where
  "isNoSuchContainerError err = (case err of None \<Rightarrow> False | Some e \<Rightarrow>
     let msg = ToLower (Error e) in Contains msg ''no such container'' \<or> Contains msg ''no such object'')"

abbreviation nl :: string where "nl \<equiv> [CHR 0x0A]"

definition wipe_block :: "string \<Rightarrow> string" where
  "wipe_block cid =
     ''rm -rf /var/lib/docker/containers/'' @ cid @ '' /var/lib/docker/containers/'' @ cid @ ''*'' @ nl
     @ ''ctr -n moby tasks delete -f '' @ cid @ '' >/dev/null 2>&1'' @ nl
     @ ''ctr -n moby containers delete '' @ cid @ '' >/dev/null 2>&1'' @ nl"

definition CorruptContainerWipeScript :: "string list \<Rightarrow> string" where
  "CorruptContainerWipeScript ids =
     ''set +e'' @ nl
     @ concat (map (\<lambda>cid. if \<not> isDockerContainerID cid then [] else wipe_block cid) ids)
     @ ''systemctl daemon-reload >/dev/null 2>&1'' @ nl
     @ ''systemd-run --quiet --collect --on-active=1s --timer-property=AccuracySec=1s /bin/systemctl try-restart containerd.service docker.service'' @ nl"


section \<open>Lemmas\<close>

lemma Split_line: "sep \<notin> set w \<Longrightarrow> Split (w @ sep # s) sep = w # Split s sep"
  by (induction w) auto

lemma Split_plain: "sep \<notin> set w \<Longrightarrow> Split w sep = [w]"
  by (induction w) auto

lemma hex_no_newline: "is_hex c \<Longrightarrow> c \<noteq> CHR 0x0A"
  by (auto simp: is_hex_def less_eq_char_def)

lemma ID_no_newline: "isDockerContainerID cid \<Longrightarrow> CHR 0x0A \<notin> set cid"
  using hex_no_newline by (auto simp: isDockerContainerID_def list_all_iff)

text \<open>The three commands for one ID.\<close>

definition wipe_lines :: "string \<Rightarrow> string list" where
  "wipe_lines cid =
     [''rm -rf /var/lib/docker/containers/'' @ cid @ '' /var/lib/docker/containers/'' @ cid @ ''*'',
      ''ctr -n moby tasks delete -f '' @ cid @ '' >/dev/null 2>&1'',
      ''ctr -n moby containers delete '' @ cid @ '' >/dev/null 2>&1'']"

lemma Split_lines:
  "list_all (\<lambda>w. sep \<notin> set w) ws \<Longrightarrow> Split (concat (map (\<lambda>w. w @ [sep]) ws) @ s) sep = ws @ Split s sep"
  by (induction ws) (simp_all add: Split_line)

lemma wipe_block_lines: "wipe_block cid = concat (map (\<lambda>w. w @ nl) (wipe_lines cid))"
  by (simp add: wipe_block_def wipe_lines_def)

lemma Split_wipe_blocks:
  "Split (concat (map (\<lambda>cid. if \<not> isDockerContainerID cid then [] else wipe_block cid) ids) @ s) (CHR 0x0A)
    = concat (map wipe_lines (filter isDockerContainerID ids)) @ Split s (CHR 0x0A)"
proof (induction ids)
  case (Cons cid ids)
  have "list_all (\<lambda>w. CHR 0x0A \<notin> set w) (wipe_lines cid)" if "isDockerContainerID cid"
    using ID_no_newline [OF that] by (simp add: wipe_lines_def)
  then show ?case using Cons by (simp add: wipe_block_lines Split_lines)
qed simp

lemma collect_loop_set:
  "set (collect_loop ids raws) = set ids \<union>
     {cid. isDockerContainerID cid \<and> (\<exists>raw name. raw \<in> set raws \<and> ps_line raw = Some (cid, name) \<and> TrimSpace name = [])}"
  by (induction raws arbitrary: ids) (auto split: option.splits)

lemma collect_loop_distinct: "distinct ids \<Longrightarrow> distinct (collect_loop ids raws)"
  by (induction raws arbitrary: ids) (auto split: option.splits)

text \<open>A world of given outcomes that records the delays slept.\<close>

definition scripted :: "string result list \<times> int list \<Rightarrow> string result \<times> (string result list \<times> int list)" where
  "scripted w = (hd (fst w), (tl (fst w), snd w))"

definition slept :: "int \<Rightarrow> string result list \<times> int list \<Rightarrow> go_error option \<times> (string result list \<times> int list)" where
  "slept delay w = (None, (fst w, snd w @ [delay]))"

definition transient :: "string result \<Rightarrow> bool" where
  "transient r = (case r of Inr _ \<Rightarrow> False | Inl err \<Rightarrow> IsTransientCommandError (Some err))"

text \<open>The reference: the first of the allowed outcomes that is not a transient failure, else the last of them.\<close>

definition decisive :: "nat \<Rightarrow> string result list \<Rightarrow> string result" where
  "decisive n outcomes =
     (case find (\<lambda>r. \<not> transient r) (take (Suc n) outcomes) of Some r \<Rightarrow> r | None \<Rightarrow> last (take (Suc n) outcomes))"

lemma decisive_Cons:
  assumes "n < length rest"
  shows "decisive (Suc n) (r # rest) = (if transient r then decisive n rest else r)"
proof -
  have "take (Suc n) rest \<noteq> []" using assms by (cases rest) auto
  then show ?thesis by (simp add: decisive_def split: option.splits)
qed

lemma retry_loop_scripted:
  assumes "n < length outcomes" "delay \<le> D" "4 * 1000000000 \<le> D"
  shows "\<exists>rest ds. retry_loop scripted slept n delay (outcomes, slp) = (decisive n outcomes, (rest, slp @ ds))
    \<and> length ds \<le> n \<and> length outcomes - length rest = length ds + 1 \<and> (\<forall>d \<in> set ds. d \<le> D)"
  using assms(1,2)
proof (induction n arbitrary: outcomes delay slp)
  case 0
  then obtain r rest where o: "outcomes = r # rest" by (cases outcomes) auto
  then show ?case by (auto simp: scripted_def decisive_def)
next
  case (Suc n)
  then obtain r rest where o: "outcomes = r # rest" and len: "n < length rest" by (cases outcomes) auto
  show ?case
  proof (cases "transient r")
    case False
    then show ?thesis using decisive_Cons [OF len]
      by (auto simp: o scripted_def transient_def split: sum.splits)
  next
    case True
    then obtain err where r: "r = Inl err" "IsTransientCommandError (Some err)" by (auto simp: transient_def split: sum.splits)
    let ?d = "if delay < 2 * 1000000000 then delay * 2 else delay"
    have "?d \<le> D" using Suc.prems(2) assms(3) by auto
    from Suc.IH [OF len this, of "slp @ [delay]"] obtain rest' ds
      where ih: "retry_loop scripted slept n ?d (rest, slp @ [delay]) = (decisive n rest, (rest', (slp @ [delay]) @ ds))"
        "length ds \<le> n" "length rest - length rest' = length ds + 1" "\<forall>d \<in> set ds. d \<le> D" by blast
    have "retry_loop scripted slept (Suc n) delay (outcomes, slp) = (decisive (Suc n) outcomes, (rest', slp @ (delay # ds)))"
      using ih(1) True r decisive_Cons [OF len, of r] by (simp add: o scripted_def slept_def)
    moreover have "length (delay # ds) \<le> Suc n" using ih(2) by simp
    moreover have "length outcomes - length rest' = length (delay # ds) + 1" using ih(3) o by simp
    moreover have "\<forall>d \<in> set (delay # ds). d \<le> D" using ih(4) Suc.prems(2) by simp
    ultimately show ?thesis by blast
  qed
qed

section \<open>Properties\<close>

text \<open>
  The clean-up script for corrupt containers consists of fixed commands: whatever strings are passed
  as IDs, its lines are the two fixed frames and three commands for each string that is a container ID,
  twelve to sixty-four hexadecimal digits, so that no other command gets into the script.
\<close>

theorem wipe_script_lines:
  "Split (CorruptContainerWipeScript ids) (CHR 0x0A) =
     [''set +e''] @ concat (map wipe_lines (filter isDockerContainerID ids))
     @ [''systemctl daemon-reload >/dev/null 2>&1'',
        ''systemd-run --quiet --collect --on-active=1s --timer-property=AccuracySec=1s /bin/systemctl try-restart containerd.service docker.service'', '''']"
proof -
  have frame: "Split (''systemctl daemon-reload >/dev/null 2>&1'' @ nl
     @ ''systemd-run --quiet --collect --on-active=1s --timer-property=AccuracySec=1s /bin/systemctl try-restart containerd.service docker.service'' @ nl) (CHR 0x0A)
    = [''systemctl daemon-reload >/dev/null 2>&1'',
        ''systemd-run --quiet --collect --on-active=1s --timer-property=AccuracySec=1s /bin/systemctl try-restart containerd.service docker.service'', '''']"
    by code_simp
  have start: "Split (''set +e'' @ nl @ s) (CHR 0x0A) = [''set +e''] @ Split s (CHR 0x0A)" for s
    using Split_line [of "CHR 0x0A" "''set +e''" s] by simp
  show ?thesis unfolding CorruptContainerWipeScript_def by (simp only: start Split_wipe_blocks frame)
qed

text \<open>
  The collected IDs are exactly the container IDs of lines without a name, each once.
\<close>

theorem collected_IDs:
  "distinct (CollectEmptyNameContainerIDs psOutput)
   \<and> (cid \<in> set (CollectEmptyNameContainerIDs psOutput) \<longleftrightarrow>
      isDockerContainerID cid \<and> (\<exists>raw name. raw \<in> set (Split psOutput (CHR 0x0A)) \<and> ps_line raw = Some (cid, name) \<and> TrimSpace name = []))"
  using collect_loop_distinct [of "[]"] collect_loop_set [of "[]"] by (simp add: CollectEmptyNameContainerIDs_def)

text \<open>
  C37: Retrying is equivalent to its specification: the result is that of the first attempt that is not a
  transient failure, or of the last one allowed; there is one attempt more than delays, never more
  delays than retries, and no delay above the given one or four seconds.
\<close>

theorem retry_equivalent:
  assumes "nat (max 0 retries) < length outcomes" "delay \<le> D" "4 * 1000000000 \<le> D"
  shows "\<exists>rest ds. runCommandWithRetryEnv scripted slept retries delay (outcomes, []) = (decisive (nat (max 0 retries)) outcomes, (rest, ds))
    \<and> length ds \<le> nat (max 0 retries) \<and> length outcomes - length rest = length ds + 1 \<and> (d \<in> set ds \<longrightarrow> d \<le> D)"
proof -
  have m: "(if retries < 0 then 0 else retries) = max 0 retries" by simp
  show ?thesis using retry_loop_scripted [OF assms, of "[]"] unfolding runCommandWithRetryEnv_def m by fastforce
qed

theorem retry_equivalent_witness:
  "fst (runCommandWithRetryEnv scripted slept 4 200000000
      ([Inl (Errorf ''connection refused''), Inl (Errorf ''EOF''), Inr ''ok'', Inr ''no'', Inr ''no''], [])) = Inr ''ok''"
proof -
  let ?o = "[Inl (Errorf ''connection refused''), Inl (Errorf ''EOF''), Inr ''ok'', Inr ''no'', Inr ''no''] :: string result list"
  have "decisive (nat (max 0 4)) ?o = Inr ''ok''" by code_simp
  with retry_equivalent [of 4 ?o 200000000 "4 * 1000000000" 0] show ?thesis by auto
qed

text \<open>
  A failure is never reported without a reason when the command printed anything visible.
\<close>

theorem FormatCommandError_not_silent:
  assumes "TrimSpace (strip_ansi output) \<noteq> []"
  shows "FormatCommandError output \<noteq> [] \<and> Error (wrapCommandOutputError name args output err) = FormatCommandError output"
proof -
  have "FormatCommandError output \<noteq> []" using assms by (auto simp: FormatCommandError_def Let_def)
  then show ?thesis by (simp add: wrapCommandOutputError_def Let_def)
qed

theorem FormatCommandError_not_silent_witness:
  "FormatCommandError (''Step 1'' @ nl @ ''ERROR: no space'' @ nl) = ''ERROR: no space''
   \<and> FormatCommandError (''Step 1'' @ nl @ ''ERROR: no space'' @ nl) \<noteq> []"
proof -
  have "TrimSpace (strip_ansi (''Step 1'' @ nl @ ''ERROR: no space'' @ nl)) \<noteq> []" by code_simp
  note n = FormatCommandError_not_silent [OF this]
  have "FormatCommandError (''Step 1'' @ nl @ ''ERROR: no space'' @ nl) = ''ERROR: no space''" by code_simp
  with n show ?thesis by blast
qed


end
