(* ===== verification/Calf_Build_Log.thy ===== *)
theory Calf_Build_Log
  imports Calf_Sizes Calf_Time Calf_Commands
begin

text \<open>
  Image builds as data (\<open>internal/runtime/build.go\<close>), the parser of build logs
  (\<open>internal/runtime/build_parser.go\<close>) and the rows of the buildx history
  (\<open>internal/buildhistory/history.go\<close>).  The regular expressions are written out as scanners; they
  are used on trimmed lines only, where leftmost-first matching needs no backtracking.  The map of steps
  and the list of their IDs are one association list in order of insertion.  A nil slice and an empty one
  are not told apart.
\<close>

section \<open>Data (build.go)\<close>

record BuildStep =
  stp_Index :: int
  stp_Total :: int
  stp_Name :: string
  stp_Cached :: bool
  stp_DurationMs :: int
  stp_Log :: string

record BuildDependency =
  dep_Source :: string
  dep_Platform :: string
  dep_Digest :: string

record BuildArtifact =
  art_Name :: string
  art_Platform :: string
  art_Digest :: string
  art_Size :: string

record BuildTag =
  btag_Tag :: string
  btag_Digest :: string

record BuildTiming =
  tim_ImagePullsMs :: int
  tim_LocalTransfersMs :: int
  tim_ExecutionsMs :: int
  tim_FileOperationsMs :: int
  tim_ResultExportsMs :: int
  tim_IdleMs :: int

record Build =
  bd_ID :: string
  bd_HistoryRef :: string
  bd_Tag :: string
  bd_Context :: string
  bd_Dockerfile :: string
  bd_Platform :: string
  bd_Status :: string
  bd_CreatedAt :: string
  bd_FinishedAt :: string
  bd_DurationMs :: int
  bd_Error :: string
  bd_Builder :: string
  bd_CachedSteps :: int
  bd_TotalSteps :: int
  bd_Steps :: "BuildStep list"
  bd_Dependencies :: "BuildDependency list"
  bd_Results :: "BuildArtifact list"
  bd_Tags :: "BuildTag list"
  bd_Timing :: BuildTiming
  bd_SourceRevision :: string
  bd_RemoteSource :: string
  bd_RawLog :: string

record BuildResult =
  br_RawLog :: string
  br_Steps :: "BuildStep list"
  br_Timing :: BuildTiming
  br_CachedSteps :: int
  br_TotalSteps :: int
  br_Dependencies :: "BuildDependency list"
  br_Results :: "BuildArtifact list"
  br_Tags :: "BuildTag list"

definition noTiming :: BuildTiming where
  "noTiming = \<lparr>tim_ImagePullsMs = 0, tim_LocalTransfersMs = 0, tim_ExecutionsMs = 0, tim_FileOperationsMs = 0,
     tim_ResultExportsMs = 0, tim_IdleMs = 0\<rparr>"

definition noStep :: BuildStep where
  "noStep = \<lparr>stp_Index = 0, stp_Total = 0, stp_Name = '''', stp_Cached = False, stp_DurationMs = 0, stp_Log = ''''\<rparr>"

definition noResult :: BuildResult where
  "noResult = \<lparr>br_RawLog = '''', br_Steps = [], br_Timing = noTiming, br_CachedSteps = 0, br_TotalSteps = 0,
     br_Dependencies = [], br_Results = [], br_Tags = []\<rparr>"

section \<open>Lines of a build log\<close>

text \<open>The class \<open>\s\<close>, and \<open>strconv.Atoi\<close> on digits with its error ignored.\<close>

definition re_space :: "char \<Rightarrow> bool" where
  "re_space c \<longleftrightarrow> c \<in> {CHR 0x09, CHR 0x0A, CHR 0x0C, CHR 0x0D, CHR 0x20}"

definition Atoi_digits :: "string \<Rightarrow> int" where
  "Atoi_digits ds = min (int (digits_val ds)) (2 ^ 63 - 1)"

text \<open>What the four expressions have in common: \<open>^#(\d+)\s+\<close>.\<close>

definition step_line :: "string \<Rightarrow> (string \<times> string) option" where
  "step_line s =
     (case s of
        [] \<Rightarrow> None
      | c # r \<Rightarrow>
          let ds = takeWhile is_digit r; r1 = dropWhile is_digit r; r2 = dropWhile re_space r1
          in if c \<noteq> CHR ''#'' \<or> ds = [] \<or> r2 = r1 then None else Some (ds, r2))"

definition buildStepDone :: "string \<Rightarrow> (string \<times> string) option" where
  "buildStepDone s =
     (case step_line s of
        None \<Rightarrow> None
      | Some (ds, r) \<Rightarrow>
          if \<not> HasPrefix r ''DONE'' then None
          else
            let r1 = drop 4 r; r2 = dropWhile re_space r1;
                num = takeWhile (\<lambda>c. is_digit c \<or> c = CHR ''.'') r2; r3 = dropWhile (\<lambda>c. is_digit c \<or> c = CHR ''.'') r2
            in if r2 = r1 \<or> num = [] \<or> \<not> HasPrefix r3 ''s'' then None else Some (ds, num))"

definition buildStepCached :: "string \<Rightarrow> string option" where
  "buildStepCached s =
     (case step_line s of None \<Rightarrow> None | Some (ds, r) \<Rightarrow> if HasPrefix r ''CACHED'' then Some ds else None)"

text \<open>The last component is what follows the match.\<close>

definition buildStepIndex :: "string \<Rightarrow> (string \<times> string \<times> string \<times> string) option" where
  "buildStepIndex s =
     (case step_line s of
        None \<Rightarrow> None
      | Some (ds, r) \<Rightarrow>
          let i = takeWhile is_digit (drop 1 r); r1 = dropWhile is_digit (drop 1 r);
              t = takeWhile is_digit (drop 1 r1); r2 = dropWhile is_digit (drop 1 r1)
          in if \<not> HasPrefix r ''['' \<or> i = [] \<or> \<not> HasPrefix r1 ''/'' \<or> t = [] \<or> \<not> HasPrefix r2 '']'' then None
             else Some (ds, i, t, drop 1 r2))"

definition buildStepHeader :: "string \<Rightarrow> (string \<times> string) option" where
  "buildStepHeader s =
     (case step_line s of
        None \<Rightarrow> None
      | Some (ds, r) \<Rightarrow>
          let body = takeWhile (\<lambda>c. c \<noteq> CHR '']'') (drop 1 r); r1 = drop 1 (dropWhile (\<lambda>c. c \<noteq> CHR '']'') (drop 1 r));
              r2 = dropWhile re_space r1
          in if r = [] then None
             else if HasPrefix r ''['' \<and> body \<noteq> [] \<and> r2 \<noteq> r1 \<and> r2 \<noteq> [] then Some (ds, r2) else Some (ds, r))"

section \<open>Steps and timing (build\_parser.go)\<close>

definition parseBuildLogStepDurationMs :: "string \<Rightarrow> int" where
  "parseBuildLogStepDurationMs value =
     (case ParseFloat (TrimSuffix value ''s'') of Inl _ \<Rightarrow> 0 | Inr seconds \<Rightarrow> int64_of (float_mul seconds 1000))"

definition classifyTiming :: "string \<Rightarrow> int \<Rightarrow> BuildTiming \<Rightarrow> BuildTiming" where
  "classifyTiming stepName ms t =
     (let lower = ToLower stepName; has = Contains lower in
      if has ''load metadata'' \<or> has ''from '' then t\<lparr>tim_ImagePullsMs := tim_ImagePullsMs t + ms\<rparr>
      else if has ''transferring'' \<or> has ''load build context'' \<or> has ''load .dockerignore''
      then t\<lparr>tim_LocalTransfersMs := tim_LocalTransfersMs t + ms\<rparr>
      else if has ''exporting'' \<or> has ''export to'' then t\<lparr>tim_ResultExportsMs := tim_ResultExportsMs t + ms\<rparr>
      else if has ''resolve'' \<or> has ''load build definition'' then t\<lparr>tim_FileOperationsMs := tim_FileOperationsMs t + ms\<rparr>
      else if has ''run '' \<or> has ''copy '' then t\<lparr>tim_ExecutionsMs := tim_ExecutionsMs t + ms\<rparr>
      else if ms = 0 then t\<lparr>tim_IdleMs := tim_IdleMs t + ms\<rparr>
      else if has ''internal'' then t\<lparr>tim_FileOperationsMs := tim_FileOperationsMs t + ms\<rparr>
      else t\<lparr>tim_ExecutionsMs := tim_ExecutionsMs t + ms\<rparr>)"

type_synonym steps = "(int \<times> BuildStep) list"

definition ensureStep :: "int \<Rightarrow> steps \<Rightarrow> steps" where
  "ensureStep stepID ss = (if stepID \<in> set (map fst ss) then ss else ss @ [(stepID, noStep)])"

definition upd_step :: "int \<Rightarrow> (BuildStep \<Rightarrow> BuildStep) \<Rightarrow> steps \<Rightarrow> steps" where
  "upd_step stepID f ss = map (\<lambda>(k, s). (k, if k = stepID then f s else s)) ss"

definition step_of :: "int \<Rightarrow> steps \<Rightarrow> BuildStep" where
  "step_of stepID ss = (case map_of ss stepID of Some s \<Rightarrow> s | None \<Rightarrow> noStep)"

definition add_log :: "string \<Rightarrow> BuildStep \<Rightarrow> BuildStep" where
  "add_log line step =
     step\<lparr>stp_Log := (if stp_Log step \<noteq> '''' then stp_Log step @ [CHR 0x0A] else stp_Log step) @ line\<rparr>"

record parse_state =
  pst_steps :: steps
  pst_current :: int
  pst_Timing :: BuildTiming

definition parse_line :: "string \<Rightarrow> parse_state \<Rightarrow> parse_state" where
  "parse_line line p =
     (let trimmed = TrimSpace line; ss = pst_steps p; cur = pst_current p in
      if trimmed = '''' then p
      else case buildStepDone trimmed of
        Some (ds, num) \<Rightarrow>
          let stepID = Atoi_digits ds; durationMs = parseBuildLogStepDurationMs num; ss1 = ensureStep stepID ss
          in \<lparr>pst_steps = upd_step stepID (\<lambda>s. s\<lparr>stp_DurationMs := durationMs\<rparr>) ss1, pst_current = 0,
              pst_Timing = classifyTiming (stp_Name (step_of stepID ss1)) durationMs (pst_Timing p)\<rparr>
      | None \<Rightarrow>
      case buildStepCached trimmed of
        Some ds \<Rightarrow>
          let stepID = Atoi_digits ds
          in p\<lparr>pst_steps := upd_step stepID (\<lambda>s. s\<lparr>stp_Cached := True\<rparr>) (ensureStep stepID ss), pst_current := 0\<rparr>
      | None \<Rightarrow>
      case buildStepIndex trimmed of
        Some (ds, i, t, after) \<Rightarrow>
          let stepID = Atoi_digits ds; rest = TrimSpace after;
              f = (\<lambda>s. let s1 = s\<lparr>stp_Index := Atoi_digits i, stp_Total := Atoi_digits t\<rparr>
                        in if rest \<noteq> '''' then s1\<lparr>stp_Name := rest\<rparr> else s1)
          in p\<lparr>pst_steps := upd_step stepID f (ensureStep stepID ss), pst_current := stepID\<rparr>
      | None \<Rightarrow>
      case buildStepHeader trimmed of
        Some (ds, text) \<Rightarrow>
          let stepID = Atoi_digits ds; name = TrimSpace text in
          if cur > 0 \<and> stepID = cur then p\<lparr>pst_steps := upd_step cur (add_log trimmed) ss\<rparr>
          else p\<lparr>pst_steps := upd_step stepID (\<lambda>s. if name \<noteq> '''' then s\<lparr>stp_Name := name\<rparr> else s) (ensureStep stepID ss),
                 pst_current := stepID\<rparr>
      | None \<Rightarrow>
          if HasPrefix trimmed ''#'' \<and> cur > 0 then p\<lparr>pst_steps := upd_step cur (add_log trimmed) ss\<rparr> else p)"

definition parse_lines :: "string list \<Rightarrow> parse_state" where
  "parse_lines lines = fold parse_line lines \<lparr>pst_steps = [], pst_current = 0, pst_Timing = noTiming\<rparr>"

definition ParseBuildOutput :: "string \<Rightarrow> BuildResult" where
  "ParseBuildOutput output =
     (let p = parse_lines (Split output (CHR 0x0A)); ss = map snd (pst_steps p)
      in noResult\<lparr>br_Steps := ss, br_CachedSteps := int (length (filter stp_Cached ss)),
           br_TotalSteps := int (length ss), br_Timing := pst_Timing p, br_RawLog := output\<rparr>)"

definition ApplyBuildLogs :: "Build \<Rightarrow> string \<Rightarrow> Build" where
  "ApplyBuildLogs build logs =
     (if TrimSpace logs = '''' then build
      else
        let parsed = ParseBuildOutput logs;
            b1 = build\<lparr>bd_Steps := br_Steps parsed, bd_Timing := br_Timing parsed, bd_RawLog := br_RawLog parsed\<rparr>;
            b2 = (if br_CachedSteps parsed > 0 then b1\<lparr>bd_CachedSteps := br_CachedSteps parsed\<rparr> else b1)
        in if br_TotalSteps parsed > 0 then b2\<lparr>bd_TotalSteps := br_TotalSteps parsed\<rparr> else b2)"

section \<open>Trimmed lines\<close>

lemma TrimSpace_fixedD:
  assumes "TrimSpace t = t"
  shows "TrimLeftSpace t = t" "TrimRightSpace t = t"
proof -
  have s: "suffix (TrimLeftSpace t) t" unfolding TrimLeftSpace_def by (rule trim_with_suffix)
  have "length t \<le> length (TrimLeftSpace t)"
    using assms TrimRightSpace_prefix [of "TrimLeftSpace t"] unfolding TrimSpace_def by (metis prefix_length_le)
  moreover obtain zs where "t = zs @ TrimLeftSpace t" using s by (auto elim: suffixE)
  moreover from this have "length t = length zs + length (TrimLeftSpace t)" by (metis length_append)
  ultimately show l: "TrimLeftSpace t = t" by auto
  then show "TrimRightSpace t = t" using assms by (simp add: TrimSpace_def)
qed

lemma TrimLeftSpace_visible:
  "of_char a < (128::nat) \<Longrightarrow> \<not> space1 a \<Longrightarrow> TrimLeftSpace (a # s) = a # s"
  unfolding TrimLeftSpace_def trim_with_fixed by (auto simp: space2_def space3_def split: list.splits)

lemma TrimRightSpace_after_blank:
  assumes "TrimRightSpace t = t" "t \<noteq> []"
  shows "TrimRightSpace (p @ CHR '' '' # t) = p @ CHR '' '' # t"
proof -
  obtain x xs where x: "rev t = x # xs" using assms(2) by (cases "rev t") auto
  have "trim_with (\<lambda>a b. space2 b a) (\<lambda>a b c. space3 c b a) (x # xs) = x # xs"
    using assms(1) x unfolding TrimRightSpace_def by (metis rev_rev_ident)
  then have "trim_with (\<lambda>a b. space2 b a) (\<lambda>a b c. space3 c b a) (x # xs @ CHR '' '' # rev p) = x # xs @ CHR '' '' # rev p"
    unfolding trim_with_fixed by (auto simp: space2_def space3_def split: list.splits)
  then show ?thesis using x unfolding TrimRightSpace_def by simp
qed

lemma TrimSpace_line:
  assumes "TrimSpace t = t" "t \<noteq> []"
  shows "TrimSpace (''#'' @ p @ '' '' @ t) = ''#'' @ p @ '' '' @ t"
  using TrimRightSpace_after_blank [OF TrimSpace_fixedD(2) [OF assms(1)] assms(2), of "''#'' @ p"]
  by (simp add: TrimSpace_def TrimLeftSpace_visible space1_def)

lemma trimmed_hd: "TrimSpace t = t \<Longrightarrow> t \<noteq> [] \<Longrightarrow> \<not> re_space (hd t)"
  using TrimSpace_fixedD(1) [of t] unfolding TrimLeftSpace_def
  by (cases t) (auto simp: trim_with_fixed space1_def re_space_def)

lemma TrimRight_trimmed: "TrimSpace t = t \<Longrightarrow> t \<noteq> [] \<Longrightarrow> TrimSpace (CHR '' '' # t) = t"
proof -
  assume t: "TrimSpace t = t" "t \<noteq> []"
  obtain a s where "t = a # s" using t(2) by (cases t) auto
  then have "TrimLeftSpace (CHR '' '' # t) = TrimLeftSpace t"
    unfolding TrimLeftSpace_def by (cases s) (auto simp: space1_def)
  then show ?thesis using t(1) by (simp add: TrimSpace_def)
qed

section \<open>Scanning\<close>

lemma step_digits_scan:
  assumes "list_all is_digit ds" "r = [] \<or> \<not> is_digit (hd r)"
  shows "takeWhile is_digit (ds @ r) = ds" "dropWhile is_digit (ds @ r) = r"
  using assms by (induction ds) (cases r; auto)+

lemma show_nat_all: "list_all is_digit (show_nat n)"
  by (auto simp: list_all_iff dest: show_nat_digits)

lemma Atoi_show_nat [simp]: "n < 2 ^ 63 \<Longrightarrow> Atoi_digits (show_nat n) = int n"
  by (simp add: Atoi_digits_def)

lemma step_line_render:
  assumes "r \<noteq> []" "\<not> re_space (hd r)"
  shows "step_line (''#'' @ show_nat n @ '' '' @ r) = Some (show_nat n, r)"
proof -
  have "dropWhile re_space (CHR '' '' # r) = r" using assms by (cases r) (auto simp: re_space_def)
  moreover have "\<not> is_digit (CHR '' '')" by (simp add: is_digit_def less_eq_char_def)
  ultimately show ?thesis
    using step_digits_scan [OF show_nat_all, of "CHR '' '' # r" n] by (simp add: step_line_def Let_def)
qed

section \<open>Printed logs\<close>

text \<open>What buildkit prints for a step: its header, its output lines, and how it ended.\<close>

datatype step_end = Done string | FromCache

record log_step =
  ls_id :: nat
  ls_index :: nat
  ls_total :: nat
  ls_name :: string
  ls_lines :: "string list"
  ls_end :: step_end

definition step_text :: "log_step \<Rightarrow> string \<Rightarrow> string" where
  "step_text s l = ''#'' @ show_nat (ls_id s) @ '' '' @ l"

definition head_text :: "log_step \<Rightarrow> string" where
  "head_text s = ''['' @ show_nat (ls_index s) @ ''/'' @ show_nat (ls_total s) @ '']'' @ '' '' @ ls_name s"

fun end_text :: "step_end \<Rightarrow> string" where
  "end_text (Done d) = ''DONE'' @ '' '' @ d @ ''s''"
| "end_text FromCache = ''CACHED''"

definition render_step :: "log_step \<Rightarrow> string list" where
  "render_step s = [step_text s (head_text s)] @ map (step_text s) (ls_lines s) @ [step_text s (end_text (ls_end s)), '''']"

definition render_log :: "log_step list \<Rightarrow> string" where
  "render_log ss = concat (map (\<lambda>l. l @ [CHR 0x0A]) (concat (map render_step ss)))"

definition plain_text :: "string \<Rightarrow> bool" where
  "plain_text l \<longleftrightarrow> l \<noteq> '''' \<and> TrimSpace l = l \<and> CHR 0x0A \<notin> set l"

definition output_line :: "string \<Rightarrow> bool" where
  "output_line l \<longleftrightarrow> plain_text l \<and> \<not> HasPrefix l ''DONE'' \<and> \<not> HasPrefix l ''CACHED'' \<and> \<not> HasPrefix l ''[''"

fun end_ok :: "step_end \<Rightarrow> bool" where
  "end_ok (Done d) \<longleftrightarrow> d \<noteq> '''' \<and> list_all (\<lambda>c. is_digit c \<or> c = CHR ''.'') d"
| "end_ok FromCache \<longleftrightarrow> True"

definition step_ok :: "log_step \<Rightarrow> bool" where
  "step_ok s \<longleftrightarrow> 0 < ls_id s \<and> ls_id s < 2 ^ 63 \<and> ls_index s < 2 ^ 63 \<and> ls_total s < 2 ^ 63 \<and> plain_text (ls_name s)
     \<and> list_all output_line (ls_lines s) \<and> end_ok (ls_end s)"

fun end_ms :: "step_end \<Rightarrow> int" where
  "end_ms (Done d) = parseBuildLogStepDurationMs d"
| "end_ms FromCache = 0"

definition logged_step :: "log_step \<Rightarrow> BuildStep" where
  "logged_step s = \<lparr>stp_Index = int (ls_index s), stp_Total = int (ls_total s), stp_Name = ls_name s,
     stp_Cached = (ls_end s = FromCache), stp_DurationMs = end_ms (ls_end s),
     stp_Log = Join (map (step_text s) (ls_lines s)) [CHR 0x0A]\<rparr>"

fun end_timing :: "string \<Rightarrow> step_end \<Rightarrow> BuildTiming \<Rightarrow> BuildTiming" where
  "end_timing name (Done d) t = classifyTiming name (parseBuildLogStepDurationMs d) t"
| "end_timing name FromCache t = t"

lemma plain_visible: "plain_text l \<Longrightarrow> l \<noteq> [] \<and> \<not> re_space (hd l)"
  using trimmed_hd unfolding plain_text_def by blast

lemma step_text_scan:
  assumes "l \<noteq> []" "\<not> re_space (hd l)"
  shows "step_line (step_text s l) = Some (show_nat (ls_id s), l)"
  unfolding step_text_def using step_line_render [OF assms] .

lemma step_text_ne [simp]: "step_text s l \<noteq> []"
  by (simp add: step_text_def)

lemma head_scan:
  assumes "plain_text (ls_name s)"
  shows "TrimSpace (step_text s (head_text s)) = step_text s (head_text s)"
    "buildStepDone (step_text s (head_text s)) = None" "buildStepCached (step_text s (head_text s)) = None"
    "buildStepIndex (step_text s (head_text s)) =
       Some (show_nat (ls_id s), show_nat (ls_index s), show_nat (ls_total s), '' '' @ ls_name s)"
proof -
  have scan: "step_line (step_text s (head_text s)) = Some (show_nat (ls_id s), head_text s)"
    by (rule step_text_scan) (simp_all add: head_text_def re_space_def)
  have "\<not> is_digit (CHR ''/'')" "\<not> is_digit (CHR '']'')" by (simp_all add: is_digit_def less_eq_char_def)
  then have d: "takeWhile is_digit (show_nat n @ CHR ''/'' # r) = show_nat n" "dropWhile is_digit (show_nat n @ CHR ''/'' # r) = CHR ''/'' # r"
    "takeWhile is_digit (show_nat n @ CHR '']'' # r) = show_nat n" "dropWhile is_digit (show_nat n @ CHR '']'' # r) = CHR '']'' # r" for n r
    using step_digits_scan [OF show_nat_all] by simp_all
  show "buildStepDone (step_text s (head_text s)) = None" "buildStepCached (step_text s (head_text s)) = None"
    unfolding buildStepDone_def buildStepCached_def scan by (simp_all add: head_text_def HasPrefix_def)
  show "buildStepIndex (step_text s (head_text s)) =
       Some (show_nat (ls_id s), show_nat (ls_index s), show_nat (ls_total s), '' '' @ ls_name s)"
    unfolding buildStepIndex_def scan by (simp add: head_text_def d HasPrefix_def Let_def)
  show "TrimSpace (step_text s (head_text s)) = step_text s (head_text s)"
    using TrimSpace_line [of "ls_name s" "show_nat (ls_id s) @ '' ['' @ show_nat (ls_index s) @ ''/'' @ show_nat (ls_total s) @ '']''"] assms
    by (simp add: step_text_def head_text_def plain_text_def)
qed

lemma output_scan:
  assumes "output_line l"
  shows "TrimSpace (step_text s l) = step_text s l" "buildStepDone (step_text s l) = None"
    "buildStepCached (step_text s l) = None" "buildStepIndex (step_text s l) = None"
    "buildStepHeader (step_text s l) = Some (show_nat (ls_id s), l)"
proof -
  have l: "plain_text l" "\<not> HasPrefix l ''DONE''" "\<not> HasPrefix l ''CACHED''" "\<not> HasPrefix l ''[''"
    using assms by (auto simp: output_line_def)
  have scan: "step_line (step_text s l) = Some (show_nat (ls_id s), l)"
    using plain_visible [OF l(1)] by (intro step_text_scan) auto
  show "TrimSpace (step_text s l) = step_text s l"
    using TrimSpace_line l(1) unfolding step_text_def plain_text_def by blast
  show "buildStepDone (step_text s l) = None" "buildStepCached (step_text s l) = None" "buildStepIndex (step_text s l) = None"
    unfolding buildStepDone_def buildStepCached_def buildStepIndex_def scan using l by simp_all
  show "buildStepHeader (step_text s l) = Some (show_nat (ls_id s), l)"
    unfolding buildStepHeader_def scan using l plain_visible [OF l(1)] by (simp add: Let_def)
qed

lemma step_text_trim:
  assumes "l \<noteq> []" "of_char (last l) < (128::nat)" "\<not> space1 (last l)"
  shows "TrimSpace (step_text s l) = step_text s l"
proof -
  have "step_text s l = butlast (step_text s l) @ [last l]" using assms(1) by (simp add: step_text_def butlast_append)
  with TrimRightSpace_visible [OF assms(2,3)] have "TrimRightSpace (step_text s l) = step_text s l" by metis
  then show ?thesis by (simp add: step_text_def TrimSpace_def TrimLeftSpace_visible space1_def)
qed

lemma end_scan:
  assumes "end_ok (ls_end s)"
  shows "TrimSpace (step_text s (end_text (ls_end s))) = step_text s (end_text (ls_end s))"
    "buildStepDone (step_text s (end_text (ls_end s))) = (case ls_end s of Done d \<Rightarrow> Some (show_nat (ls_id s), d) | FromCache \<Rightarrow> None)"
    "ls_end s = FromCache \<Longrightarrow> buildStepCached (step_text s (end_text (ls_end s))) = Some (show_nat (ls_id s))"
proof -
  have scan: "step_line (step_text s (end_text (ls_end s))) = Some (show_nat (ls_id s), end_text (ls_end s))"
    by (rule step_text_scan) (cases "ls_end s"; simp add: re_space_def)+
  show "TrimSpace (step_text s (end_text (ls_end s))) = step_text s (end_text (ls_end s))"
    by (rule step_text_trim) (cases "ls_end s"; simp add: space1_def)+
  show "ls_end s = FromCache \<Longrightarrow> buildStepCached (step_text s (end_text (ls_end s))) = Some (show_nat (ls_id s))"
    unfolding buildStepCached_def scan by (simp add: HasPrefix_def)
  show "buildStepDone (step_text s (end_text (ls_end s))) = (case ls_end s of Done d \<Rightarrow> Some (show_nat (ls_id s), d) | FromCache \<Rightarrow> None)"
  proof (cases "ls_end s")
    case (Done d)
    then have d: "d \<noteq> []" "\<forall>c \<in> set d. is_digit c \<or> c = CHR ''.''" using assms by (auto simp: list_all_iff)
    have "\<not> is_digit (CHR ''s'')" by (simp add: is_digit_def less_eq_char_def)
    then have t: "takeWhile (\<lambda>c. is_digit c \<or> c = CHR ''.'') (d @ ''s'') = d" "dropWhile (\<lambda>c. is_digit c \<or> c = CHR ''.'') (d @ ''s'') = ''s''"
      using d(2) by simp_all
    obtain c d' where "d = c # d'" using d(1) by (cases d) auto
    then have "dropWhile re_space (CHR '' '' # d @ ''s'') = d @ ''s''"
      using d(2) by (auto simp: re_space_def is_digit_def less_eq_char_def)
    then show ?thesis unfolding buildStepDone_def scan using d t Done by (simp add: HasPrefix_def Let_def)
  next
    case FromCache
    then show ?thesis unfolding buildStepDone_def scan by (simp add: HasPrefix_def)
  qed
qed

section \<open>Reading a printed log\<close>

lemma new_step:
  assumes "k \<notin> set (map fst ss)"
  shows "ensureStep k ss = ss @ [(k, noStep)]" "ensureStep k (ss @ [(k, st)]) = ss @ [(k, st)]"
    "upd_step k f (ss @ [(k, st)]) = ss @ [(k, f st)]" "step_of k (ss @ [(k, st)]) = st"
proof -
  have "map (\<lambda>(k', s). (k', if k' = k then f s else s)) ss = ss" using assms by (intro map_idI) (auto simp: image_iff split: prod.splits)
  then show "upd_step k f (ss @ [(k, st)]) = ss @ [(k, f st)]" by (simp add: upd_step_def)
  have "map_of ss k = None" using assms by (simp add: map_of_eq_None_iff)
  then show "step_of k (ss @ [(k, st)]) = st" by (simp add: step_of_def map_add_def)
qed (use assms in \<open>auto simp: ensureStep_def\<close>)

definition headed :: "log_step \<Rightarrow> BuildStep" where
  "headed s = noStep\<lparr>stp_Index := int (ls_index s), stp_Total := int (ls_total s), stp_Name := ls_name s\<rparr>"

lemma parse_head:
  assumes "step_ok s" "int (ls_id s) \<notin> set (map fst (pst_steps p))"
  shows "parse_line (step_text s (head_text s)) p =
    p\<lparr>pst_steps := pst_steps p @ [(int (ls_id s), headed s)], pst_current := int (ls_id s)\<rparr>"
proof -
  have "plain_text (ls_name s)" "ls_id s < 2 ^ 63" "ls_index s < 2 ^ 63" "ls_total s < 2 ^ 63"
    using assms(1) by (auto simp: step_ok_def)
  moreover from this have "TrimSpace ('' '' @ ls_name s) = ls_name s" "ls_name s \<noteq> []"
    using TrimRight_trimmed by (auto simp: plain_text_def)
  ultimately show ?thesis
    by (simp add: parse_line_def head_scan new_step [OF assms(2)] headed_def Let_def)
qed

lemma parse_output:
  assumes "output_line l" "0 < ls_id s" "ls_id s < 2 ^ 63" "int (ls_id s) \<notin> set (map fst ss)"
  shows "parse_line (step_text s l) \<lparr>pst_steps = ss @ [(int (ls_id s), st)], pst_current = int (ls_id s), pst_Timing = t\<rparr> =
    \<lparr>pst_steps = ss @ [(int (ls_id s), add_log (step_text s l) st)], pst_current = int (ls_id s), pst_Timing = t\<rparr>"
  using assms(2,3) by (simp add: parse_line_def output_scan [OF assms(1)] new_step [OF assms(4)] Let_def)

lemma parse_outputs:
  assumes "list_all output_line ls" "0 < ls_id s" "ls_id s < 2 ^ 63" "int (ls_id s) \<notin> set (map fst ss)"
  shows "fold parse_line (map (step_text s) ls) \<lparr>pst_steps = ss @ [(int (ls_id s), st)], pst_current = int (ls_id s), pst_Timing = t\<rparr> =
    \<lparr>pst_steps = ss @ [(int (ls_id s), fold add_log (map (step_text s) ls) st)], pst_current = int (ls_id s), pst_Timing = t\<rparr>"
  using assms(1)
proof (induction ls arbitrary: st)
  case (Cons l ls)
  then show ?case using parse_output [OF _ assms(2-4), of l st t] by simp
qed simp

lemma log_Join_Cons: "Join (l # ls) sep = l @ concat (map (\<lambda>w. sep @ w) ls)"
  by (induction ls arbitrary: l) auto

lemma fold_add_log:
  assumes "stp_Log st \<noteq> ''''"
  shows "fold add_log ls st = st\<lparr>stp_Log := stp_Log st @ concat (map (\<lambda>w. [CHR 0x0A] @ w) ls)\<rparr>"
  using assms
proof (induction ls arbitrary: st)
  case (Cons l ls)
  then show ?case by (simp add: add_log_def)
qed simp

lemma log_is_join:
  assumes "stp_Log st = ''''" "list_all (\<lambda>l. l \<noteq> '''') ls"
  shows "fold add_log ls st = st\<lparr>stp_Log := Join ls [CHR 0x0A]\<rparr>"
proof (cases ls)
  case (Cons l ls')
  then show ?thesis using assms by (simp add: fold_add_log log_Join_Cons add_log_def del: Join.simps)
qed (use assms in simp)

lemma parse_end:
  assumes "end_ok (ls_end s)" "ls_id s < 2 ^ 63" "int (ls_id s) \<notin> set (map fst ss)"
  shows "parse_line (step_text s (end_text (ls_end s))) \<lparr>pst_steps = ss @ [(int (ls_id s), st)], pst_current = c, pst_Timing = t\<rparr> =
    \<lparr>pst_steps = ss @ [(int (ls_id s), if ls_end s = FromCache then st\<lparr>stp_Cached := True\<rparr> else st\<lparr>stp_DurationMs := end_ms (ls_end s)\<rparr>)],
     pst_current = 0, pst_Timing = end_timing (stp_Name st) (ls_end s) t\<rparr>"
proof (cases "ls_end s")
  case (Done d)
  then have "end_ok (Done d)" using assms(1) by simp
  with Done show ?thesis using end_scan [OF assms(1)] assms(2)
    by (simp add: parse_line_def new_step [OF assms(3)] Let_def)
next
  case FromCache
  then show ?thesis using end_scan [OF assms(1)] assms(2)
    by (simp add: parse_line_def new_step [OF assms(3)] Let_def)
qed

lemma parse_step:
  assumes "step_ok s" "int (ls_id s) \<notin> set (map fst (pst_steps p))"
  shows "fold parse_line (render_step s) p =
    \<lparr>pst_steps = pst_steps p @ [(int (ls_id s), logged_step s)], pst_current = 0,
     pst_Timing = end_timing (ls_name s) (ls_end s) (pst_Timing p)\<rparr>"
proof -
  have ok: "list_all output_line (ls_lines s)" "0 < ls_id s" "ls_id s < 2 ^ 63" "end_ok (ls_end s)"
    using assms(1) by (auto simp: step_ok_def)
  have h: "parse_line (step_text s (head_text s)) p =
    \<lparr>pst_steps = pst_steps p @ [(int (ls_id s), headed s)], pst_current = int (ls_id s), pst_Timing = pst_Timing p\<rparr>"
    using parse_head [OF assms] by simp
  have l: "fold add_log (map (step_text s) (ls_lines s)) (headed s) =
      (headed s)\<lparr>stp_Log := Join (map (step_text s) (ls_lines s)) [CHR 0x0A]\<rparr>"
    by (rule log_is_join) (simp_all add: headed_def noStep_def list_all_iff)
  show ?thesis unfolding render_step_def
    by (simp add: h parse_outputs [OF ok(1-3) assms(2)] l parse_end [OF ok(4,3) assms(2)])
      (cases "ls_end s"; simp add: parse_line_def logged_step_def headed_def noStep_def)
qed

lemma parse_rendered:
  assumes "list_all step_ok ss" "distinct (map ls_id ss)" "\<forall>s \<in> set ss. int (ls_id s) \<notin> set (map fst (pst_steps p))"
  shows "pst_steps (fold parse_line (concat (map render_step ss)) p) = pst_steps p @ map (\<lambda>s. (int (ls_id s), logged_step s)) ss
    \<and> pst_Timing (fold parse_line (concat (map render_step ss)) p) = fold (\<lambda>s. end_timing (ls_name s) (ls_end s)) ss (pst_Timing p)"
  using assms
proof (induction ss arbitrary: p)
  case (Cons s ss)
  define q where "q = fold parse_line (render_step s) p"
  have q: "q = \<lparr>pst_steps = pst_steps p @ [(int (ls_id s), logged_step s)], pst_current = 0,
      pst_Timing = end_timing (ls_name s) (ls_end s) (pst_Timing p)\<rparr>"
    unfolding q_def using Cons.prems by (intro parse_step) auto
  have "\<forall>s' \<in> set ss. int (ls_id s') \<notin> set (map fst (pst_steps q))"
    using Cons.prems by (auto simp: q dest: image_eqI [rotated, where f = ls_id])
  with Cons.IH [of q] Cons.prems show ?case by (simp add: q_def [symmetric]) (simp add: q)
qed simp

lemma render_one_line: "step_ok s \<Longrightarrow> list_all (\<lambda>w. CHR 0x0A \<notin> set w) (render_step s)"
proof -
  assume s: "step_ok s"
  have num: "CHR 0x0A \<notin> set (show_nat n)" for n using show_nat_digits [of "CHR 0x0A" n] by (auto simp: is_digit_def less_eq_char_def)
  have d: "\<not> is_digit (CHR 0x0A)" by (simp add: is_digit_def less_eq_char_def)
  have "CHR 0x0A \<notin> set (end_text e)" if "end_ok e" for e using that d by (cases e) (auto simp: list_all_iff)
  with s show ?thesis using num
    by (auto simp: step_ok_def render_step_def step_text_def head_text_def plain_text_def output_line_def list_all_iff)
qed

section \<open>Properties\<close>

text \<open>
  A log of numbered steps that were printed one after another is read back: the parser recovers every step with its
  number, name, duration, output and whether it came from the cache, and the counts that belong to them; each
  duration is added to the timing that the name of the step stands for.  Steps of other kinds, and steps whose lines
  are interleaved, are not among these logs.
\<close>

theorem parse_printed_log:
  assumes "list_all step_ok ss" "distinct (map ls_id ss)"
  shows "ParseBuildOutput (render_log ss) = noResult\<lparr>br_Steps := map logged_step ss,
    br_CachedSteps := int (length (filter (\<lambda>s. ls_end s = FromCache) ss)), br_TotalSteps := int (length ss),
    br_Timing := fold (\<lambda>s. end_timing (ls_name s) (ls_end s)) ss noTiming, br_RawLog := render_log ss\<rparr>"
proof -
  have "list_all (\<lambda>w. CHR 0x0A \<notin> set w) (concat (map render_step ss))"
    using assms(1) render_one_line by (auto simp: list_all_iff)
  from Split_lines [OF this, of "[]"]
  have lines: "Split (render_log ss) (CHR 0x0A) = concat (map render_step ss) @ [[]]" by (simp add: render_log_def)
  let ?p = "\<lparr>pst_steps = [], pst_current = 0, pst_Timing = noTiming\<rparr>"
  have "pst_steps (parse_lines (concat (map render_step ss) @ [[]])) = map (\<lambda>s. (int (ls_id s), logged_step s)) ss"
    "pst_Timing (parse_lines (concat (map render_step ss) @ [[]])) = fold (\<lambda>s. end_timing (ls_name s) (ls_end s)) ss noTiming"
    using parse_rendered [OF assms, of ?p] by (simp_all add: parse_lines_def parse_line_def)
  then show ?thesis by (simp add: ParseBuildOutput_def lines Let_def filter_map comp_def logged_step_def)
qed

definition demo_log :: "log_step list" where
  "demo_log = [\<lparr>ls_id = 4, ls_index = 1, ls_total = 2, ls_name = ''FROM alpine'', ls_lines = [], ls_end = FromCache\<rparr>,
     \<lparr>ls_id = 5, ls_index = 2, ls_total = 2, ls_name = ''RUN x'', ls_lines = [''0.1 a'', ''0.2 b''], ls_end = Done ''0.5''\<rparr>]"

lemma demo_log_ok: "list_all step_ok demo_log" "distinct (map ls_id demo_log)"
  by (simp_all add: demo_log_def step_ok_def output_line_def plain_text_def trim_eval HasPrefix_def is_digit_def less_eq_char_def)

theorem parse_printed_log_witness:
  "map stp_Name (br_Steps (ParseBuildOutput (render_log demo_log))) = [''FROM alpine'', ''RUN x'']
   \<and> br_CachedSteps (ParseBuildOutput (render_log demo_log)) = 1"
  using parse_printed_log [OF demo_log_ok] by (simp add: demo_log_def logged_step_def)

text \<open>The time that a line adds.\<close>

definition done_ms :: "string \<Rightarrow> int" where
  "done_ms line = (case buildStepDone (TrimSpace line) of Some (_, num) \<Rightarrow> parseBuildLogStepDurationMs num | None \<Rightarrow> 0)"

definition timing_total :: "BuildTiming \<Rightarrow> int" where
  "timing_total t = tim_ImagePullsMs t + tim_LocalTransfersMs t + tim_ExecutionsMs t + tim_FileOperationsMs t
     + tim_ResultExportsMs t + tim_IdleMs t"

lemma classify_total: "timing_total (classifyTiming name ms t) = timing_total t + ms"
  by (simp add: classifyTiming_def timing_total_def Let_def)

lemma parse_line_total: "timing_total (pst_Timing (parse_line line p)) = timing_total (pst_Timing p) + done_ms line"
proof (cases "buildStepDone (TrimSpace line)")
  case None
  then show ?thesis by (auto simp: parse_line_def done_ms_def Let_def split: option.splits)
next
  case (Some m)
  then have "TrimSpace line \<noteq> ''''" by (auto simp: buildStepDone_def step_line_def)
  with Some show ?thesis by (cases m) (simp add: parse_line_def done_ms_def Let_def classify_total)
qed

lemma parse_line_keys: "distinct (map fst (pst_steps p)) \<Longrightarrow> distinct (map fst (pst_steps (parse_line line p)))"
proof -
  assume d: "distinct (map fst (pst_steps p))"
  have u: "map fst (upd_step k f ss) = map fst ss" for k f ss by (induction ss) (auto simp: upd_step_def)
  have e: "distinct (map fst (ensureStep k (pst_steps p)))" for k using d by (auto simp: ensureStep_def)
  show ?thesis using d e by (auto simp: parse_line_def Let_def u split: option.splits)
qed

text \<open>
  The timing of a build accounts for every finished step: the six categories add up to the durations of
  all lines that report one, whatever the log contains.
\<close>

theorem timing_adds_up:
  "timing_total (br_Timing (ParseBuildOutput output)) = sum_list (map done_ms (Split output (CHR 0x0A)))"
proof -
  have "timing_total (pst_Timing (fold parse_line ls p)) = timing_total (pst_Timing p) + sum_list (map done_ms ls)" for ls p
    by (induction ls arbitrary: p) (simp_all add: parse_line_total)
  then show ?thesis by (simp add: ParseBuildOutput_def parse_lines_def Let_def noTiming_def timing_total_def)
qed

text \<open>
  The time for loading the build definition is counted as pulling images: the step buildkit prints for
  it contains the words of the category for file operations, but also \<open>from\<close> followed by a blank, which
  is tested first.
\<close>

theorem definition_counted_as_pull:
  "classifyTiming ''[internal] load build definition from Dockerfile'' ms t = t\<lparr>tim_ImagePullsMs := tim_ImagePullsMs t + ms\<rparr>"
  by (simp add: classifyTiming_def Let_def ToLower_def lower_char_def)

end
