(* ===== verification/Calf_Cli.thy ===== *)
theory Calf_Cli
  imports Calf_Prune Calf_Commands
begin

text \<open>
  Operations carried out through the container command line: the guarded operations that the native and
  the guest runtime share (\<open>internal/runtime/cli_ops.go\<close>), volume exports (\<open>volume_export.go\<close>), cloning and
  browsing of volumes (\<open>volume_detail.go\<close>), registry login (\<open>registry.go\<close>) and the paths of \<open>config/paths.go\<close>
  they use.  The command runner and the host file system are arguments; so is the decoding of inspect
  documents, which are JSON.
\<close>

section \<open>Paths (config/paths.go)\<close>

text \<open>\<open>os.UserHomeDir\<close> is the argument \<open>home\<close>.\<close>

definition ConfigDir :: "string result \<Rightarrow> string result" where
  "ConfigDir home = (case home of Inl err \<Rightarrow> Inl err | Inr h \<Rightarrow> Inr (filepath_Join (filepath_Join h ''.config'') ''calf''))"

definition MountsDir :: "string result \<Rightarrow> string result" where
  "MountsDir home = (case ConfigDir home of Inl err \<Rightarrow> Inl err | Inr dir \<Rightarrow> Inr (filepath_Join dir ''mounts''))"

definition DefaultDockerSocketPath :: "string result \<Rightarrow> string" where
  "DefaultDockerSocketPath home = (case ConfigDir home of Inl _ \<Rightarrow> '''' | Inr dir \<Rightarrow> filepath_Join dir ''docker.sock'')"

definition LogsDir :: "string result \<Rightarrow> string result" where
  "LogsDir home = (case ConfigDir home of Inl err \<Rightarrow> Inl err | Inr dir \<Rightarrow> Inr (filepath_Join dir ''logs''))"

definition LogFilePath :: "string result \<Rightarrow> string result" where
  "LogFilePath home = (case LogsDir home of Inl err \<Rightarrow> Inl err | Inr dir \<Rightarrow> Inr (filepath_Join dir ''calf.log''))"

definition BuildsFilePath :: "string result \<Rightarrow> string result" where
  "BuildsFilePath home = (case ConfigDir home of Inl err \<Rightarrow> Inl err | Inr dir \<Rightarrow> Inr (filepath_Join dir ''builds.json''))"

definition ExpandHomePath :: "string result \<Rightarrow> string \<Rightarrow> string" where
  "ExpandHomePath home path =
     (let trimmed = TrimSpace path in
      if trimmed = '''' then ''''
      else if trimmed = ''~'' then (case home of Inl _ \<Rightarrow> trimmed | Inr h \<Rightarrow> h)
      else if HasPrefix trimmed ''~/'' then (case home of Inl _ \<Rightarrow> trimmed | Inr h \<Rightarrow> filepath_Join h (drop 2 trimmed))
      else trimmed)"

text \<open>\<open>filepath.Rel\<close> on the segments of the cleaned paths.\<close>

definition path_segs :: "string \<Rightarrow> string list" where
  "path_segs path = filter (\<lambda>s. s \<noteq> '''' \<and> s \<noteq> ''.'') (Split (filepath_Clean path) (CHR ''/''))"

fun rel_segs :: "string list \<Rightarrow> string list \<Rightarrow> string list option" where
  "rel_segs [] ts = Some ts"
| "rel_segs (b # bs) (t # ts) =
     (if b = t then rel_segs bs ts
      else if b = ''..'' then None else Some (map (\<lambda>_. ''..'') (b # bs) @ t # ts))"
| "rel_segs (b # bs) [] = (if b = ''..'' then None else Some (map (\<lambda>_. ''..'') (b # bs)))"

definition filepath_Rel :: "string \<Rightarrow> string \<Rightarrow> string result" where
  "filepath_Rel base targ =
     (let err = Errorf (''Rel: can'' @ [CHR 0x27] @ ''t make '' @ targ @ '' relative to '' @ base) in
      if filepath_IsAbs base \<noteq> filepath_IsAbs targ then Inl err
      else case rel_segs (path_segs base) (path_segs targ) of
        None \<Rightarrow> Inl err
      | Some [] \<Rightarrow> Inr ''.''
      | Some segs \<Rightarrow> Inr (Join segs ''/''))"

definition HostMountToVMPath :: "string result \<Rightarrow> string \<Rightarrow> string result" where
  "HostMountToVMPath home hostPath =
     (case MountsDir home of
        Inl err \<Rightarrow> Inl (Wrap ''resolve mounts directory'' err)
      | Inr mountsRoot \<Rightarrow>
          (case filepath_Rel mountsRoot hostPath of
             Inl err \<Rightarrow> Inl (Wrap (''map host path '' @ Quote hostPath @ '' to VM path'') err)
           | Inr rel \<Rightarrow>
               if HasPrefix rel ''..''
               then Inl (Errorf (''host path '' @ Quote hostPath @ '' is outside mounts directory '' @ Quote mountsRoot))
               else Inr (''/mnt/calf/'' @ rel)))"

text \<open>\<open>filepath.Dir\<close>: the cleaned path up to the last slash.\<close>

definition filepath_Dir :: "string \<Rightarrow> string" where
  "filepath_Dir path = filepath_Clean (take (nat (LastIndex path (CHR ''/'') + 1)) path)"

section \<open>Browsing volumes (volume\_detail.go, container\_detail.go)\<close>

text \<open>Control characters of Latin-1: the second group is two bytes long.\<close>

fun has_control :: "string \<Rightarrow> bool" where
  "has_control [] = False"
| "has_control [a] = (a < CHR 0x20 \<or> a = CHR 0x7F)"
| "has_control (a # b # s) =
     (a < CHR 0x20 \<or> a = CHR 0x7F \<or> a = CHR 0xC2 \<and> CHR 0x80 \<le> b \<and> b \<le> CHR 0x9F \<or> has_control (b # s))"

definition isValidContainerPath :: "string \<Rightarrow> bool" where
  "isValidContainerPath value \<longleftrightarrow>
     value = '''' \<or> HasPrefix value ''/'' \<and> \<not> has_control value
       \<and> list_all (\<lambda>segment. \<not> (segment = ''.'' \<or> segment = ''..'')) (Split value (CHR ''/''))"

definition volumeHostPath :: "string \<Rightarrow> string \<Rightarrow> string result" where
  "volumeHostPath mountpoint0 logicalPath =
     (let mountpoint = filepath_Clean mountpoint0 in
      if logicalPath = '''' \<or> logicalPath = ''/'' then Inr mountpoint
      else
        let joined = filepath_Clean (filepath_Join mountpoint (TrimPrefix logicalPath ''/'')) in
        if joined \<noteq> mountpoint \<and> \<not> HasPrefix joined (mountpoint @ ''/'') then Inl (Errorf ''path escapes volume mountpoint'')
        else Inr joined)"

definition parseBindMount :: "string \<Rightarrow> (string \<times> string \<times> string) option" where
  "parseBindMount bind =
     (case Split bind (CHR '':'') of
        source # destination # rest \<Rightarrow> Some (source, destination, case rest of m # _ \<Rightarrow> m | [] \<Rightarrow> '''')
      | _ \<Rightarrow> None)"

record volumeInspectRow =
  vi_CreatedAt :: string
  vi_Driver :: string
  vi_Mountpoint :: string
  vi_Name :: string

type_synonym decoder = "string \<Rightarrow> volumeInspectRow list result"

definition volumeInspectMetadataBatch ::
    "decoder \<Rightarrow> 'w runner \<Rightarrow> string list \<Rightarrow> 'w \<Rightarrow> (string \<rightharpoonup> volumeInspectRow) result \<times> 'w" where
  "volumeInspectMetadataBatch decode run names w =
     (if names = [] then (Inr (\<lambda>_. None), w)
      else case run ([''nerdctl'', ''volume'', ''inspect''] @ names) w of
        (Inl err, w1) \<Rightarrow> (Inl err, w1)
      | (Inr output, w1) \<Rightarrow>
          (case decode output of
             Inl err \<Rightarrow> (Inl err, w1)
           | Inr parsed \<Rightarrow>
               (Inr (fold (\<lambda>row rows. if vi_Name row = '''' then rows else rows(vi_Name row \<mapsto> row)) parsed (\<lambda>_. None)), w1)))"

definition volumeInspectMetadata :: "decoder \<Rightarrow> 'w runner \<Rightarrow> string \<Rightarrow> 'w \<Rightarrow> volumeInspectRow result \<times> 'w" where
  "volumeInspectMetadata decode run name w =
     (case volumeInspectMetadataBatch decode run [name] w of
        (Inl err, w1) \<Rightarrow> (Inl err, w1)
      | (Inr rows, w1) \<Rightarrow>
          (case rows name of None \<Rightarrow> (Inl (Errorf (''inspect volume '' @ name)), w1) | Some row \<Rightarrow> (Inr row, w1)))"

definition cloneVolume :: "decoder \<Rightarrow> 'w runner \<Rightarrow> string \<Rightarrow> string \<Rightarrow> 'w \<Rightarrow> go_error option \<times> 'w" where
  "cloneVolume decode run source0 dest0 w =
     (let source = TrimSpace source0; dest = TrimSpace dest0;
          drop_dest = (\<lambda>w. snd (run [''nerdctl'', ''volume'', ''rm'', dest] w)) in
      if source = '''' \<or> dest = '''' then (Some (Errorf ''volume name is required''), w)
      else if source = dest then (Some (Errorf ''source and destination must differ''), w)
      else case volumeInspectMetadata decode run source w of
        (Inl err, w1) \<Rightarrow> (Some err, w1)
      | (Inr sourceRow, w1) \<Rightarrow>
          (case run [''nerdctl'', ''volume'', ''create'', dest] w1 of
             (Inl err, w2) \<Rightarrow> (Some err, w2)
           | (Inr _, w2) \<Rightarrow>
               (case volumeInspectMetadata decode run dest w2 of
                  (Inl err, w3) \<Rightarrow> (Some err, drop_dest w3)
                | (Inr destRow, w3) \<Rightarrow>
                    if vi_Mountpoint sourceRow = '''' \<or> vi_Mountpoint destRow = ''''
                    then (Some (Errorf (''clone volume '' @ source)), drop_dest w3)
                    else
                      let cp = [''cp'', ''-a'', vi_Mountpoint sourceRow @ ''/.'', vi_Mountpoint destRow @ ''/''] in
                      (case run cp w3 of
                         (Inr _, w4) \<Rightarrow> (None, w4)
                       | (Inl _, w4) \<Rightarrow>
                           (case run ([''sudo'', ''-n''] @ cp) w4 of
                              (Inr _, w5) \<Rightarrow> (None, w5)
                            | (Inl err, w5) \<Rightarrow> (Some (Wrap (''clone volume '' @ source) err), drop_dest w5))))))"

section \<open>Volume exports (volume\_export.go)\<close>

text \<open>The host file system: each operation may fail.\<close>

record 'w HostFS =
  fs_Home :: "string result"
  fs_MkdirAll :: "string \<Rightarrow> 'w action"
  fs_Open :: "string \<Rightarrow> 'w action"
  fs_Create :: "string \<Rightarrow> 'w action"
  fs_Copy :: "string \<Rightarrow> string \<Rightarrow> 'w action"
  fs_Remove :: "string \<Rightarrow> 'w action"

definition AlpineSmokeImage :: string where "AlpineSmokeImage = ''alpine:3.20''"

definition exportVolumeArchive :: "'w HostFS \<Rightarrow> 'w runner \<Rightarrow> string \<Rightarrow> string \<Rightarrow> 'w \<Rightarrow> go_error option \<times> 'w" where
  "exportVolumeArchive fs run volumeName archivePath w =
     (if TrimSpace volumeName = '''' then (Some (Errorf ''volume name is required''), w)
      else if TrimSpace archivePath = '''' then (Some (Errorf ''archive path is required''), w)
      else case fs_MkdirAll fs (filepath_Dir archivePath) w of
        (Some err, w1) \<Rightarrow> (Some (Wrap ''create archive directory'' err), w1)
      | (None, w1) \<Rightarrow>
          (case HostMountToVMPath (fs_Home fs) (filepath_Dir archivePath) of
             Inl err \<Rightarrow> (Some (Wrap ''map staging directory to VM path'' err), w1)
           | Inr vmStagingDir \<Rightarrow>
               (case run [''nerdctl'', ''run'', ''--rm'', ''-v'', volumeName @ '':/from:ro'', ''-v'', vmStagingDir @ '':/to'',
                          AlpineSmokeImage, ''tar'', ''czf'', ''/to/'' @ filepath_Base archivePath, ''-C'', ''/from'', ''.''] w1 of
                  (Inl err, w2) \<Rightarrow> (Some (Wrap (''export volume '' @ volumeName @ '' to archive'') err), w2)
                | (Inr _, w2) \<Rightarrow> (None, w2))))"

definition exportContainerName :: "string \<Rightarrow> string" where
  "exportContainerName archivePath = ''calf-vol-export-'' @ filepath_Base (filepath_Dir archivePath)"

text \<open>What happens between the start of the container and its removal.\<close>

definition populateAndCommit :: "'w HostFS \<Rightarrow> 'w runner \<Rightarrow> string \<Rightarrow> string \<Rightarrow> 'w \<Rightarrow> go_error option \<times> 'w" where
  "populateAndCommit fs run imageRef archivePath w =
     (let containerName = exportContainerName archivePath in
      case HostMountToVMPath (fs_Home fs) archivePath of
        Inl err \<Rightarrow> (Some (Wrap ''map archive path to VM path'' err), w)
      | Inr vmArchivePath \<Rightarrow>
          (case run [''nerdctl'', ''cp'', vmArchivePath, containerName @ '':/tmp/archive.tar.gz''] w of
             (Inl err, w1) \<Rightarrow> (Some (Wrap ''copy archive into export container'' err), w1)
           | (Inr _, w1) \<Rightarrow>
               (case run [''nerdctl'', ''exec'', containerName, ''sh'', ''-c'',
                          ''mkdir -p /volume-data && tar xzf /tmp/archive.tar.gz -C /volume-data''] w1 of
                  (Inl err, w2) \<Rightarrow> (Some (Wrap ''populate export container'' err), w2)
                | (Inr _, w2) \<Rightarrow>
                    (case run [''nerdctl'', ''commit'', containerName, imageRef] w2 of
                       (Inl err, w3) \<Rightarrow> (Some (Wrap (''commit export image '' @ imageRef) err), w3)
                     | (Inr _, w3) \<Rightarrow> (None, w3)))))"

definition startExportContainer :: "string \<Rightarrow> string list" where
  "startExportContainer archivePath =
     [''nerdctl'', ''run'', ''-d'', ''--name'', exportContainerName archivePath, AlpineSmokeImage, ''sleep'', ''3600'']"

definition removeExportContainer :: "string \<Rightarrow> string list" where
  "removeExportContainer archivePath = [''nerdctl'', ''rm'', ''-f'', exportContainerName archivePath]"

text \<open>The check for an existing image, and the removal of the old one.\<close>

definition imageTaken :: "'w runner \<Rightarrow> string \<Rightarrow> bool \<Rightarrow> 'w \<Rightarrow> bool \<times> 'w" where
  "imageTaken run imageRef overwrite w =
     (if \<not> overwrite then (case run [''nerdctl'', ''image'', ''inspect'', imageRef] w of (Inr _, w1) \<Rightarrow> (True, w1) | (Inl _, w1) \<Rightarrow> (False, w1))
      else (False, w))"

definition removeOldImage :: "'w runner \<Rightarrow> string \<Rightarrow> bool \<Rightarrow> 'w \<Rightarrow> 'w" where
  "removeOldImage run imageRef overwrite w = (if overwrite then snd (run [''nerdctl'', ''rmi'', ''-f'', imageRef] w) else w)"

definition exportVolumeToImage ::
    "'w HostFS \<Rightarrow> 'w runner \<Rightarrow> string \<Rightarrow> string \<Rightarrow> string \<Rightarrow> bool \<Rightarrow> 'w \<Rightarrow> go_error option \<times> 'w" where
  "exportVolumeToImage fs run volumeName imageRef archivePath overwrite w =
     (if TrimSpace imageRef = [] then (Some (Errorf ''image reference is required''), w)
      else case imageTaken run imageRef overwrite w of
        (True, w1) \<Rightarrow> (Some (Errorf (''image '' @ imageRef @ '' already exists'')), w1)
      | (False, w1) \<Rightarrow>
          (case exportVolumeArchive fs run volumeName archivePath w1 of
             (Some err, w2) \<Rightarrow> (Some err, w2)
           | (None, w2) \<Rightarrow>
               (case run (startExportContainer archivePath) (removeOldImage run imageRef overwrite w2) of
                  (Inl err, w4) \<Rightarrow> (Some (Wrap ''start export container'' err), w4)
                | (Inr _, w4) \<Rightarrow>
                    let (result, w5) = populateAndCommit fs run imageRef archivePath w4
                    in (result, snd (run (removeExportContainer archivePath) w5)))))"

definition pushImage :: "'w runner \<Rightarrow> string \<Rightarrow> 'w \<Rightarrow> go_error option \<times> 'w" where
  "pushImage run ref w =
     (case run [''nerdctl'', ''push'', ref] w of (Inl err, w1) \<Rightarrow> (Some (WrapPushError ref err), w1) | (Inr _, w1) \<Rightarrow> (None, w1))"

definition exportVolumeToRegistry :: "'w HostFS \<Rightarrow> 'w runner \<Rightarrow> string \<Rightarrow> string \<Rightarrow> string \<Rightarrow> 'w \<Rightarrow> go_error option \<times> 'w" where
  "exportVolumeToRegistry fs run volumeName imageRef archivePath w =
     (case exportVolumeToImage fs run volumeName imageRef archivePath True w of
        (Some err, w1) \<Rightarrow> (Some err, w1)
      | (None, w1) \<Rightarrow>
          (case pushImage run imageRef w1 of
             (Some err, w2) \<Rightarrow> (Some (Wrap (''push export image '' @ imageRef) err), w2)
           | (None, w2) \<Rightarrow> (None, w2)))"

text \<open>\<open>filepath.Abs\<close> of an absolute path is \<open>Clean\<close>.\<close>

definition destinationPath :: "string \<Rightarrow> string \<Rightarrow> string \<Rightarrow> (string \<times> string) result" where
  "destinationPath archivePath folder0 fileName0 =
     (let folder = filepath_Clean (TrimSpace folder0) in
      if folder = '''' \<or> folder = ''.'' \<or> \<not> filepath_IsAbs folder then Inl (Errorf ''destination folder must be an absolute path'')
      else
        let folderAbs = filepath_Clean (filepath_Clean folder);
            fileName1 = (if TrimSpace fileName0 = '''' then filepath_Base archivePath else fileName0);
            fileName = filepath_Base (TrimSpace fileName1)
        in if fileName = '''' \<or> fileName = ''.'' \<or> fileName = ''..'' \<or> filepath_IsAbs fileName
           then Inl (Errorf ''destination file name is invalid'')
           else Inr (folderAbs, fileName))"

definition copyArchiveToFolder :: "'w HostFS \<Rightarrow> string \<Rightarrow> string \<Rightarrow> string \<Rightarrow> 'w \<Rightarrow> string result \<times> 'w" where
  "copyArchiveToFolder fs archivePath folder fileName w =
     (case destinationPath archivePath folder fileName of
        Inl err \<Rightarrow> (Inl err, w)
      | Inr (folderAbs, name) \<Rightarrow>
          (case fs_MkdirAll fs folderAbs w of
             (Some err, w1) \<Rightarrow> (Inl (Wrap ''create destination folder'' err), w1)
           | (None, w1) \<Rightarrow>
               let destPath = filepath_Clean (filepath_Clean (filepath_Join folderAbs name)) in
               if destPath \<noteq> folderAbs \<and> \<not> HasPrefix destPath (folderAbs @ ''/'')
               then (Inl (Errorf ''destination path escapes destination folder''), w1)
               else case fs_Open fs archivePath w1 of
                 (Some err, w2) \<Rightarrow> (Inl (Wrap ''open archive'' err), w2)
               | (None, w2) \<Rightarrow>
                   (case fs_Create fs destPath w2 of
                      (Some err, w3) \<Rightarrow> (Inl (Wrap ''create destination file'' err), w3)
                    | (None, w3) \<Rightarrow>
                        (case fs_Copy fs archivePath destPath w3 of
                           (Some err, w4) \<Rightarrow> (Inl (Wrap ''copy archive to destination'' err), snd (fs_Remove fs destPath w4))
                         | (None, w4) \<Rightarrow> (Inr destPath, w4)))))"

definition RunVolumeExport :: "'w HostFS \<Rightarrow> 'w runner \<Rightarrow> VolumeExportOptions \<Rightarrow> 'w \<Rightarrow> string result \<times> 'w" where
  "RunVolumeExport fs run opts w =
     (let image = (\<lambda>r. case r of (Some err, w1) \<Rightarrow> (Inl err, w1) | (None, w1) \<Rightarrow> (Inr (vx_ImageRef opts), w1)) in
      if vx_Type opts = ''local_file'' then
        (case exportVolumeArchive fs run (vx_VolumeName opts) (vx_ArchivePath opts) w of
           (Some err, w1) \<Rightarrow> (Inl err, w1)
         | (None, w1) \<Rightarrow> copyArchiveToFolder fs (vx_ArchivePath opts) (vx_Folder opts) (vx_FileName opts) w1)
      else if vx_Type opts = ''local_image'' then
        image (exportVolumeToImage fs run (vx_VolumeName opts) (vx_ImageRef opts) (vx_ArchivePath opts) True w)
      else if vx_Type opts = ''new_image'' then
        image (exportVolumeToImage fs run (vx_VolumeName opts) (vx_ImageRef opts) (vx_ArchivePath opts) False w)
      else if vx_Type opts = ''registry'' then
        image (exportVolumeToRegistry fs run (vx_VolumeName opts) (vx_ImageRef opts) (vx_ArchivePath opts) w)
      else (Inl (Errorf (''unsupported export type '' @ Quote (vx_Type opts))), w))"

section \<open>Registry (registry.go)\<close>

definition DockerHubRegistryKeys :: "string list" where
  "DockerHubRegistryKeys = [''https://index.docker.io/v1/'', ''index.docker.io'', ''docker.io'', ''registry-1.docker.io'',
     ''https://registry-1.docker.io/v2/'']"

definition isDockerHubRegistry :: "string \<Rightarrow> bool" where
  "isDockerHubRegistry server0 =
     (let server = ToLower (TrimSpace server0) in
      server = '''' \<or> list_ex (\<lambda>key. server = ToLower key) DockerHubRegistryKeys \<or> Contains server ''docker.io'')"

definition registryLogin ::
    "(string \<Rightarrow> 'w runner) \<Rightarrow> string \<Rightarrow> string \<Rightarrow> string \<Rightarrow> 'w \<Rightarrow> go_error option \<times> 'w" where
  "registryLogin runWithStdin server0 username password w =
     (if TrimSpace username = '''' then (Some (Errorf ''username is required''), w)
      else if TrimSpace password = '''' then (Some (Errorf ''password or token is required''), w)
      else
        let server = TrimSpace server0;
            args = [''nerdctl'', ''login'', ''--username'', username, ''--password-stdin'']
              @ (if server \<noteq> '''' \<and> \<not> isDockerHubRegistry server then [server] else [])
        in case runWithStdin password args w of (Inl err, w1) \<Rightarrow> (Some err, w1) | (Inr _, w1) \<Rightarrow> (None, w1))"

definition registryLogout :: "'w runner \<Rightarrow> string \<Rightarrow> 'w \<Rightarrow> go_error option \<times> 'w" where
  "registryLogout run server0 w =
     (let server = TrimSpace server0;
          args = [''nerdctl'', ''logout''] @ (if server \<noteq> '''' \<and> \<not> isDockerHubRegistry server then [server] else [])
      in case run args w of (Inl err, w1) \<Rightarrow> (Some err, w1) | (Inr _, w1) \<Rightarrow> (None, w1))"

section \<open>Containers and networks\<close>

definition runImage :: "'w runner \<Rightarrow> string \<Rightarrow> 'w \<Rightarrow> string result \<times> 'w" where
  "runImage run ref w =
     (case run [''nerdctl'', ''run'', ''-d'', ref] w of (Inl err, w1) \<Rightarrow> (Inl err, w1) | (Inr output, w1) \<Rightarrow> (Inr (TrimSpace output), w1))"

definition restartContainer :: "'w runner \<Rightarrow> string \<Rightarrow> 'w \<Rightarrow> go_error option \<times> 'w" where
  "restartContainer run cid w =
     (case run [''nerdctl'', ''restart'', cid] w of (Inl err, w1) \<Rightarrow> (Some err, w1) | (Inr _, w1) \<Rightarrow> (None, w1))"

definition IsPseudoNetwork :: "string \<Rightarrow> bool" where
  "IsPseudoNetwork name \<longleftrightarrow> ToLower (TrimSpace name) \<in> {''host'', ''none'', ''null''}"

definition removeNetwork :: "'w runner \<Rightarrow> string \<Rightarrow> 'w \<Rightarrow> go_error option \<times> 'w" where
  "removeNetwork run name w =
     (if IsPseudoNetwork name then (Some (Errorf (''built-in network '' @ Quote name @ '' cannot be removed'')), w)
      else case run [''nerdctl'', ''network'', ''rm'', name] w of
        (Inr _, w1) \<Rightarrow> (None, w1)
      | (Inl _, w1) \<Rightarrow>
          (case run [''docker'', ''network'', ''rm'', name] w1 of (Inl err, w2) \<Rightarrow> (Some err, w2) | (Inr _, w2) \<Rightarrow> (None, w2)))"


text \<open>A runner returns no output with an error, so the branch for output of a failed command is not taken.\<close>

definition execInContainer :: "'w runner \<Rightarrow> string \<Rightarrow> string \<Rightarrow> 'w \<Rightarrow> string result \<times> 'w" where
  "execInContainer run cid command0 w =
     (let command = TrimSpace command0 in
      if command = '''' then (Inl (Errorf ''command is required''), w)
      else case run [''nerdctl'', ''exec'', cid, ''sh'', ''-c'', command] w of
        (Inl err, w1) \<Rightarrow> (Inl err, w1)
      | (Inr output, w1) \<Rightarrow> (Inr (TrimSpace output), w1))"

section \<open>Guarded operations (cli\_ops.go)\<close>

text \<open>
  Modelled are the operations that change something and those that need no decoding of listings; the
  guard comes first in each.
\<close>

record 'w cliOps =
  cl_status :: "(Status, 'w) query"
  cl_runLocal :: "'w runner"
  cl_runLocalWithStdin :: "string \<Rightarrow> 'w runner"

definition guarded :: "'w cliOps \<Rightarrow> 'w action \<Rightarrow> 'w action" where
  "guarded cl act w = (case requireRunning (cl_status cl) w of (Some err, w1) \<Rightarrow> (Some err, w1) | (None, w1) \<Rightarrow> act w1)"

definition guarded_query :: "'w cliOps \<Rightarrow> ('a, 'w) query \<Rightarrow> ('a, 'w) query" where
  "guarded_query cl q w = (case requireRunning (cl_status cl) w of (Some err, w1) \<Rightarrow> (Inl err, w1) | (None, w1) \<Rightarrow> q w1)"

definition just_run :: "'w cliOps \<Rightarrow> string list \<Rightarrow> 'w action" where
  "just_run cl args w = (case cl_runLocal cl args w of (Inl err, w1) \<Rightarrow> (Some err, w1) | (Inr _, w1) \<Rightarrow> (None, w1))"

definition cli_RemoveNetwork :: "'w cliOps \<Rightarrow> string \<Rightarrow> 'w action" where
  "cli_RemoveNetwork cl name = guarded cl (removeNetwork (cl_runLocal cl) name)"

definition cli_SystemDiskUsage :: "'w cliOps \<Rightarrow> (SystemDiskUsage, 'w) query" where
  "cli_SystemDiskUsage cl = guarded_query cl (systemDiskUsage (cl_runLocal cl))"

definition cli_Prune :: "'w Listers \<Rightarrow> 'w cliOps \<Rightarrow> PruneOptions \<Rightarrow> 'w \<Rightarrow> (PruneResult result \<times> 'w) option" where
  "cli_Prune L cl opts w =
     (case requireRunning (cl_status cl) w of
        (Some err, w1) \<Rightarrow> Some (Inl err, w1) | (None, w1) \<Rightarrow> prune L (cl_runLocal cl) opts w1)"

definition cli_PrunePreview :: "'w Listers \<Rightarrow> 'w cliOps \<Rightarrow> 'w \<Rightarrow> (PrunePreview result \<times> 'w) option" where
  "cli_PrunePreview L cl w =
     (case requireRunning (cl_status cl) w of
        (Some err, w1) \<Rightarrow> Some (Inl err, w1) | (None, w1) \<Rightarrow> prunePreview L (cl_runLocal cl) w1)"

definition cli_CreateVolume :: "'w cliOps \<Rightarrow> string \<Rightarrow> 'w action" where
  "cli_CreateVolume cl name =
     guarded cl (just_run cl ([''nerdctl'', ''volume'', ''create''] @ (if name \<noteq> '''' then [name] else [])))"

definition cli_CloneVolume :: "decoder \<Rightarrow> 'w cliOps \<Rightarrow> string \<Rightarrow> string \<Rightarrow> 'w action" where
  "cli_CloneVolume decode cl source dest = guarded cl (cloneVolume decode (cl_runLocal cl) source dest)"

definition cli_ExportVolume :: "'w HostFS \<Rightarrow> 'w cliOps \<Rightarrow> VolumeExportOptions \<Rightarrow> (string, 'w) query" where
  "cli_ExportVolume fs cl opts = guarded_query cl (RunVolumeExport fs (cl_runLocal cl) opts)"

definition cli_RemoveVolume :: "'w cliOps \<Rightarrow> string \<Rightarrow> 'w action" where
  "cli_RemoveVolume cl name = guarded cl (just_run cl [''nerdctl'', ''volume'', ''rm'', name])"

definition cli_StartContainer :: "'w cliOps \<Rightarrow> string \<Rightarrow> 'w action" where
  "cli_StartContainer cl cid = guarded cl (just_run cl [''nerdctl'', ''start'', cid])"

definition cli_StopContainer :: "'w cliOps \<Rightarrow> string \<Rightarrow> 'w action" where
  "cli_StopContainer cl cid = guarded cl (just_run cl [''nerdctl'', ''stop'', cid])"

definition cli_RemoveContainer :: "'w cliOps \<Rightarrow> string \<Rightarrow> 'w action" where
  "cli_RemoveContainer cl cid = guarded cl (just_run cl [''nerdctl'', ''rm'', ''-f'', cid])"

definition cli_RemoveImage :: "'w cliOps \<Rightarrow> string \<Rightarrow> 'w action" where
  "cli_RemoveImage cl ref = guarded cl (just_run cl [''nerdctl'', ''rmi'', ref])"

definition cli_PullImage :: "'w cliOps \<Rightarrow> string \<Rightarrow> 'w action" where
  "cli_PullImage cl ref = guarded cl (just_run cl [''nerdctl'', ''pull'', ref])"

definition cli_PushImage :: "'w cliOps \<Rightarrow> string \<Rightarrow> 'w action" where
  "cli_PushImage cl ref = guarded cl (pushImage (cl_runLocal cl) ref)"

definition cli_RunImage :: "'w cliOps \<Rightarrow> string \<Rightarrow> (string, 'w) query" where
  "cli_RunImage cl ref = guarded_query cl (runImage (cl_runLocal cl) ref)"

definition cli_ExecContainer :: "'w cliOps \<Rightarrow> string \<Rightarrow> string \<Rightarrow> (string, 'w) query" where
  "cli_ExecContainer cl cid command = guarded_query cl (execInContainer (cl_runLocal cl) cid command)"

definition cli_RestartContainer :: "'w cliOps \<Rightarrow> string \<Rightarrow> 'w action" where
  "cli_RestartContainer cl cid = guarded cl (restartContainer (cl_runLocal cl) cid)"

definition cli_RegistryLogin :: "'w cliOps \<Rightarrow> string \<Rightarrow> string \<Rightarrow> string \<Rightarrow> 'w action" where
  "cli_RegistryLogin cl server username password =
     guarded cl (registryLogin (cl_runLocalWithStdin cl) server username password)"

definition cli_RegistryLogout :: "'w cliOps \<Rightarrow> string \<Rightarrow> 'w action" where
  "cli_RegistryLogout cl server = guarded cl (registryLogout (cl_runLocal cl) server)"

text \<open>
  All operations that change something, for given arguments, save pruning, whose model is partial.
\<close>

definition as_action :: "('a, 'w) query \<Rightarrow> 'w action" where
  "as_action q w = (case q w of (Inl err, w1) \<Rightarrow> (Some err, w1) | (Inr _, w1) \<Rightarrow> (None, w1))"

definition cli_actions ::
    "'w HostFS \<Rightarrow> 'w cliOps \<Rightarrow> decoder \<Rightarrow> VolumeExportOptions \<Rightarrow> string \<Rightarrow> string \<Rightarrow> string \<Rightarrow> 'w action list" where
  "cli_actions fs cl decode opts a b c =
     [cli_RemoveNetwork cl a, cli_CreateVolume cl a, cli_CloneVolume decode cl a b, as_action (cli_ExportVolume fs cl opts),
      cli_RemoveVolume cl a, cli_StartContainer cl a, cli_StopContainer cl a, cli_RemoveContainer cl a, cli_RemoveImage cl a,
      cli_PullImage cl a, cli_PushImage cl a, as_action (cli_RunImage cl a), as_action (cli_ExecContainer cl a b),
      cli_RestartContainer cl a, cli_RegistryLogin cl a b c, cli_RegistryLogout cl a]"

section \<open>Commands that are run\<close>

text \<open>A runner that logs its commands, the first at the front.\<close>

definition logged :: "'w runner \<Rightarrow> (string list list \<times> 'w) runner" where
  "logged run args s = (let (r, w) = run args (snd s) in (r, (fst s @ [args], w)))"

definition lifted :: "'w action \<Rightarrow> (string list list \<times> 'w) action" where
  "lifted act s = (let (r, w) = act (snd s) in (r, (fst s, w)))"

definition logged_fs :: "'w HostFS \<Rightarrow> (string list list \<times> 'w) HostFS" where
  "logged_fs fs = \<lparr>fs_Home = fs_Home fs, fs_MkdirAll = (\<lambda>p. lifted (fs_MkdirAll fs p)), fs_Open = (\<lambda>p. lifted (fs_Open fs p)),
     fs_Create = (\<lambda>p. lifted (fs_Create fs p)), fs_Copy = (\<lambda>p q. lifted (fs_Copy fs p q)),
     fs_Remove = (\<lambda>p. lifted (fs_Remove fs p))\<rparr>"

lemma logged_log: "logged run args s = (r, s') \<Longrightarrow> fst s' = fst s @ [args]"
  by (auto simp: logged_def split: prod.splits)

lemma snd_logged: "fst (snd (logged run args s)) = fst s @ [args]"
  by (simp add: logged_def split: prod.splits)


section \<open>Lexical paths\<close>

definition plain_seg :: "string \<Rightarrow> bool" where
  "plain_seg w \<longleftrightarrow> w \<noteq> '''' \<and> w \<noteq> ''.'' \<and> w \<noteq> ''..'' \<and> CHR ''/'' \<notin> set w"

definition rooted_path :: "string list \<Rightarrow> string" where
  "rooted_path segs = ''/'' @ Join segs ''/''"

lemma Split_append_sep: "Split (s @ sep # t) sep = Split s sep @ Split t sep"
proof (induction s)
  case (Cons c s)
  then show ?case by (cases "Split s sep") auto
qed simp

lemma Split_Join_plain: "ws \<noteq> [] \<Longrightarrow> \<forall>w \<in> set ws. sep \<notin> set w \<Longrightarrow> Split (Join ws [sep]) sep = ws"
proof (induction ws rule: induct_list012)
  case (2 w)
  then show ?case by (simp add: Split_plain)
next
  case (3 w v ws)
  then show ?case by (simp add: Split_line)
qed simp

lemma clean_fold_plain: "list_all plain_seg ws \<Longrightarrow> fold (clean_step r) ws st = rev ws @ st"
  by (induction ws arbitrary: st) (simp_all add: clean_step.simps plain_seg_def)

lemma clean_fold_no_dots:
  "\<forall>w \<in> set ws. w \<noteq> ''.'' \<and> w \<noteq> ''..'' \<Longrightarrow> fold (clean_step r) ws st = rev (filter (\<lambda>w. w \<noteq> '''') ws) @ st"
  by (induction ws arbitrary: st) (simp_all add: clean_step.simps)

lemma clean_step_plain:
  "list_all plain_seg st \<Longrightarrow> CHR ''/'' \<notin> set w \<Longrightarrow> list_all plain_seg (clean_step True w st)"
  by (cases st) (auto simp: clean_step.simps plain_seg_def)

lemma clean_fold_rooted:
  "list_all plain_seg st \<Longrightarrow> \<forall>w \<in> set ws. CHR ''/'' \<notin> set w \<Longrightarrow> list_all plain_seg (fold (clean_step True) ws st)"
proof (induction ws arbitrary: st)
  case (Cons w ws)
  have "list_all plain_seg (clean_step True w st)" using Cons.prems by (intro clean_step_plain) auto
  then show ?case unfolding fold_simps using Cons.prems(2) by (intro Cons.IH) auto
qed simp

text \<open>The segments of an absolute path.\<close>

definition abs_segs :: "string \<Rightarrow> string list" where
  "abs_segs path = rev (fold (clean_step True) (Split path (CHR ''/'')) [])"

lemma abs_segs_plain: "list_all plain_seg (abs_segs path)"
  using clean_fold_rooted [of "[]" "Split path (CHR ''/'')"] Split_no_sep by (auto simp: abs_segs_def list_all_iff)

lemma Clean_abs: "HasPrefix path ''/'' \<Longrightarrow> filepath_Clean path = rooted_path (abs_segs path)"
  by (simp add: filepath_Clean_def rooted_path_def abs_segs_def Let_def)

lemma rooted_prefix [simp]: "HasPrefix (rooted_path segs) ''/''"
  by (simp add: rooted_path_def HasPrefix_def)

lemma fold_rooted_path:
  assumes "list_all plain_seg segs"
  shows "fold (clean_step True) (Split (rooted_path segs) (CHR ''/'')) [] = rev segs"
proof (cases "segs = []")
  case True
  then show ?thesis by (simp add: rooted_path_def clean_step.simps)
next
  case False
  have "Split (rooted_path segs) (CHR ''/'') = '''' # segs"
    using Split_Join_plain [OF False, of "CHR ''/''"] assms by (auto simp: rooted_path_def list_all_iff plain_seg_def)
  then show ?thesis using clean_fold_plain [OF assms] by (simp add: clean_step.simps)
qed

lemma abs_segs_rooted: "list_all plain_seg segs \<Longrightarrow> abs_segs (rooted_path segs) = segs"
  by (simp add: abs_segs_def fold_rooted_path)

lemma Clean_rooted [simp]: "list_all plain_seg segs \<Longrightarrow> filepath_Clean (rooted_path segs) = rooted_path segs"
  by (simp add: Clean_abs abs_segs_rooted)

lemma Clean_idem_abs: "HasPrefix path ''/'' \<Longrightarrow> filepath_Clean (filepath_Clean path) = filepath_Clean path"
  by (simp add: Clean_abs abs_segs_plain abs_segs_rooted)

lemma rooted_path_inj: "list_all plain_seg a \<Longrightarrow> list_all plain_seg b \<Longrightarrow> rooted_path a = rooted_path b \<longleftrightarrow> a = b"
  by (metis abs_segs_rooted)

lemma rooted_path_snoc: "segs \<noteq> [] \<Longrightarrow> rooted_path (segs @ [w]) = rooted_path segs @ ''/'' @ w"
  by (simp add: rooted_path_def Join_snoc)

lemma rooted_path_append: "segs \<noteq> [] \<Longrightarrow> ws \<noteq> [] \<Longrightarrow> rooted_path (segs @ ws) = rooted_path segs @ ''/'' @ Join ws ''/''"
proof (induction ws rule: rev_induct)
  case (snoc w ws)
  then show ?case using rooted_path_snoc [of "segs @ ws" w] by (cases "ws = []") (simp_all add: Join_snoc rooted_path_snoc)
qed simp

text \<open>Joining a path without dots below an absolute one appends its segments.\<close>

lemma Join_rooted:
  assumes "list_all plain_seg segs" "\<forall>w \<in> set (Split rest (CHR ''/'')). w \<noteq> ''.'' \<and> w \<noteq> ''..''"
  shows "filepath_Join (rooted_path segs) rest = rooted_path (segs @ filter (\<lambda>w. w \<noteq> '''') (Split rest (CHR ''/'')))"
proof -
  have ne: "rooted_path segs \<noteq> ''''" by (simp add: rooted_path_def)
  have p: "HasPrefix (rooted_path segs @ ''/'' @ rest) ''/''" by (simp add: rooted_path_def HasPrefix_def)
  have "abs_segs (rooted_path segs @ ''/'' @ rest) = segs @ filter (\<lambda>w. w \<noteq> '''') (Split rest (CHR ''/''))"
    using Split_append_sep [of "rooted_path segs" "CHR ''/''" rest] clean_fold_no_dots [OF assms(2), of True "rev segs"]
    by (simp add: abs_segs_def fold_rooted_path [OF assms(1)])
  then show ?thesis using ne p by (simp add: filepath_Join_def Clean_abs)
qed

lemma Base_component:
  assumes "\<not> filepath_IsAbs (filepath_Base p)"
  shows "CHR ''/'' \<notin> set (filepath_Base p)"
proof (cases "p = ''''")
  case False
  let ?s = "rev (dropWhile ((=) (CHR ''/'')) (rev p))"
  show ?thesis
  proof (cases "?s = ''''")
    case True
    then show ?thesis using assms False by (simp add: filepath_Base_def filepath_IsAbs_def HasPrefix_def)
  next
    case ne: False
    have "last (Split ?s (CHR ''/'')) \<in> set (Split ?s (CHR ''/''))" by (rule last_in_set) simp
    then have "CHR ''/'' \<notin> set (last (Split ?s (CHR ''/'')))" by (rule Split_no_sep)
    then show ?thesis using False ne by (simp add: filepath_Base_def Let_def)
  qed
qed (simp add: filepath_Base_def)


section \<open>What is run\<close>

text \<open>The log grew by commands of a kind.\<close>

definition grew :: "(string list \<Rightarrow> bool) \<Rightarrow> string list list \<times> 'w \<Rightarrow> string list list \<times> 'w \<Rightarrow> bool" where
  "grew P s s' \<longleftrightarrow> (\<exists>cmds. fst s' = fst s @ cmds \<and> list_all P cmds)"

lemma grew_refl [simp]: "grew P s s"
  by (auto simp: grew_def)

lemma grew_lifted: "lifted act s = (r, s') \<Longrightarrow> grew P s s'"
  by (auto simp: lifted_def grew_def split: prod.splits)

lemma grew_logged: "logged run args s = (r, s') \<Longrightarrow> P args \<Longrightarrow> grew P s s'"
  by (auto simp: logged_def grew_def split: prod.splits intro: exI [of _ "[args]"])

lemma grew_trans: "grew P s s' \<Longrightarrow> grew P s' s'' \<Longrightarrow> grew P s s''"
  unfolding grew_def by (metis append.assoc list_all_append)

definition tar_command :: "string list \<Rightarrow> bool" where
  "tar_command args \<longleftrightarrow> (\<exists>rest. args = [''nerdctl'', ''run'', ''--rm''] @ rest)"

lemma exportVolumeArchive_grew:
  assumes "exportVolumeArchive (logged_fs fs) (logged run) v a s = (r, s')"
  shows "grew tar_command s s'"
  using assms
  by (auto simp: exportVolumeArchive_def logged_fs_def tar_command_def
      intro: grew_lifted grew_trans [OF grew_lifted grew_logged]
      split: if_splits option.splits sum.splits prod.splits)

lemma not_tar: "\<not> tar_command (startExportContainer a)" "\<not> tar_command [''nerdctl'', ''rmi'', ''-f'', i]"
  "\<not> tar_command [''nerdctl'', ''image'', ''inspect'', i]"
  by (simp_all add: tar_command_def startExportContainer_def)

text \<open>A command that removes an image.\<close>

definition removes_image :: "string list \<Rightarrow> bool" where
  "removes_image args \<longleftrightarrow> (\<exists>rest. args = [''nerdctl'', ''rmi''] @ rest)"

definition before_start :: "bool \<Rightarrow> string \<Rightarrow> string list \<Rightarrow> bool" where
  "before_start overwrite a args \<longleftrightarrow> args \<noteq> startExportContainer a \<and> (removes_image args \<longrightarrow> overwrite)"

lemma tar_before_start: "tar_command c \<Longrightarrow> before_start overwrite a c"
  by (auto simp: tar_command_def before_start_def startExportContainer_def removes_image_def)

lemma grew_mono: "grew P s s' \<Longrightarrow> (\<And>c. P c \<Longrightarrow> Q c) \<Longrightarrow> grew Q s s'"
  unfolding grew_def by (metis list_all_iff)

text \<open>
  An export to an image either fails before it starts its container, or fails to start it, or removes
  it as its last command.
\<close>

lemma exportVolumeToImage_log:
  assumes "exportVolumeToImage (logged_fs fs) (logged run) v i a overwrite s = (r, s')"
  shows "(grew (before_start overwrite a) s s' \<and> r \<noteq> None)
    \<or> (\<exists>s1 q. grew (before_start overwrite a) s s1 \<and> logged run (startExportContainer a) s1 = (Inl q, s') \<and> r \<noteq> None)
    \<or> (\<exists>s1 q s2 s3. grew (before_start overwrite a) s s1 \<and> logged run (startExportContainer a) s1 = (Inr q, s2)
        \<and> populateAndCommit (logged_fs fs) (logged run) i a s2 = (r, s3)
        \<and> s' = snd (logged run (removeExportContainer a) s3))"
proof (cases "TrimSpace i = []")
  case True
  then show ?thesis using assms by (auto simp: exportVolumeToImage_def)
next
  case False
  obtain t s1 where t: "imageTaken (logged run) i overwrite s = (t, s1)" by (rule prod.exhaust)
  have g1: "grew (before_start overwrite a) s s1"
    using t by (auto simp: imageTaken_def before_start_def startExportContainer_def removes_image_def intro: grew_logged
        split: prod.splits sum.splits if_splits)
  obtain e s2 where x: "exportVolumeArchive (logged_fs fs) (logged run) v a s1 = (e, s2)" by (rule prod.exhaust)
  have g2: "grew (before_start overwrite a) s s2"
    using grew_trans [OF g1 grew_mono [OF exportVolumeArchive_grew [OF x] tar_before_start]] .
  have "grew (before_start overwrite a) s2 (removeOldImage (logged run) i overwrite s2)"
    by (auto simp: removeOldImage_def before_start_def startExportContainer_def intro: grew_logged [OF prod.collapse [symmetric]])
  then have g3: "grew (before_start overwrite a) s (removeOldImage (logged run) i overwrite s2)" using g2 grew_trans by blast
  obtain q s3 where q: "logged run (startExportContainer a) (removeOldImage (logged run) i overwrite s2) = (q, s3)" by (rule prod.exhaust)
  consider "t" | err where "\<not> t" "e = Some err" | "\<not> t" "e = None" by (cases e) auto
  then show ?thesis
  proof cases
    case 1
    then show ?thesis using assms g1 False by (auto simp: exportVolumeToImage_def t)
  next
    case 2
    then show ?thesis using assms g2 False by (auto simp: exportVolumeToImage_def t x)
  next
    case 3
    then have r: "(case (q, s3) of (Inl err, w4) \<Rightarrow> (Some (Wrap ''start export container'' err), w4)
        | (Inr _, w4) \<Rightarrow> let (result, w5) = populateAndCommit (logged_fs fs) (logged run) i a w4
            in (result, snd (logged run (removeExportContainer a) w5))) = (r, s')"
      using assms False by (simp add: exportVolumeToImage_def t x q)
    show ?thesis
    proof (cases q)
      case (Inl err)
      with r have "r \<noteq> None" "s3 = s'" by auto
      with q Inl g3 show ?thesis by blast
    next
      case (Inr out)
      obtain p s4 where "populateAndCommit (logged_fs fs) (logged run) i a s3 = (p, s4)" by (rule prod.exhaust)
      moreover from this r Inr have "p = r" "s' = snd (logged run (removeExportContainer a) s4)" by auto
      ultimately show ?thesis using q Inr g3 by blast
    qed
  qed
qed


section \<open>Properties\<close>

text \<open>A host file system that notes each call and whether it succeeded.\<close>

datatype fsCall = DidMkdir string | DidOpen string | DidCreate string | DidCopy string string | DidRemove string

definition noting_fs :: "fsCall \<Rightarrow> 'w action \<Rightarrow> ((fsCall \<times> bool) list \<times> 'w) action" where
  "noting_fs call act s = (case act (snd s) of (r, w) \<Rightarrow> (r, (fst s @ [(call, r = None)], w)))"

definition tracing_fs :: "'w HostFS \<Rightarrow> ((fsCall \<times> bool) list \<times> 'w) HostFS" where
  "tracing_fs fs = \<lparr>fs_Home = fs_Home fs, fs_MkdirAll = (\<lambda>p. noting_fs (DidMkdir p) (fs_MkdirAll fs p)),
     fs_Open = (\<lambda>p. noting_fs (DidOpen p) (fs_Open fs p)), fs_Create = (\<lambda>p. noting_fs (DidCreate p) (fs_Create fs p)),
     fs_Copy = (\<lambda>p q. noting_fs (DidCopy p q) (fs_Copy fs p q)), fs_Remove = (\<lambda>p. noting_fs (DidRemove p) (fs_Remove fs p))\<rparr>"

lemma tracing_fs_simps [simp]:
  "fs_MkdirAll (tracing_fs fs) p = noting_fs (DidMkdir p) (fs_MkdirAll fs p)"
  "fs_Open (tracing_fs fs) p = noting_fs (DidOpen p) (fs_Open fs p)"
  "fs_Create (tracing_fs fs) p = noting_fs (DidCreate p) (fs_Create fs p)"
  "fs_Copy (tracing_fs fs) p q = noting_fs (DidCopy p q) (fs_Copy fs p q)"
  "fs_Remove (tracing_fs fs) p = noting_fs (DidRemove p) (fs_Remove fs p)"
  by (simp_all add: tracing_fs_def)

text \<open>The name an archive gets: the last segment of the requested name, or of the archive's path.\<close>

definition exported_name :: "string \<Rightarrow> string \<Rightarrow> string" where
  "exported_name archivePath fileName =
     filepath_Base (TrimSpace (if TrimSpace fileName = '''' then filepath_Base archivePath else fileName))"

lemma plain_seg_Base:
  "plain_seg (filepath_Base p) \<longleftrightarrow>
     \<not> (filepath_Base p = '''' \<or> filepath_Base p = ''.'' \<or> filepath_Base p = ''..'' \<or> filepath_IsAbs (filepath_Base p))"
  using Base_component [of p] by (auto simp: plain_seg_def filepath_IsAbs_def HasPrefix_def prefix_def)

lemma destinationPath_spec:
  "destinationPath archivePath folder fileName =
     (if \<not> HasPrefix (TrimSpace folder) ''/'' then Inl (Errorf ''destination folder must be an absolute path'')
      else if \<not> plain_seg (exported_name archivePath fileName) then Inl (Errorf ''destination file name is invalid'')
      else Inr (rooted_path (abs_segs (TrimSpace folder)), exported_name archivePath fileName))"
proof -
  let ?f = "TrimSpace folder"
  have rel: "filepath_IsAbs (filepath_Clean ?f) \<longleftrightarrow> HasPrefix ?f ''/''"
    using IsAbs_Clean [of ?f] by (auto simp: Clean_abs filepath_IsAbs_def)
  have pl: "plain_seg (exported_name archivePath fileName) \<longleftrightarrow>
      \<not> (exported_name archivePath fileName = '''' \<or> exported_name archivePath fileName = ''.''
         \<or> exported_name archivePath fileName = ''..'' \<or> filepath_IsAbs (exported_name archivePath fileName))"
    unfolding exported_name_def by (rule plain_seg_Base)
  show ?thesis
  proof (cases "HasPrefix ?f ''/''")
    case True
    have ne: "rooted_path (abs_segs ?f) \<noteq> ''''" "rooted_path (abs_segs ?f) \<noteq> ''.''" by (simp_all add: rooted_path_def)
    have c: "filepath_Clean ?f = rooted_path (abs_segs ?f)" by (rule Clean_abs [OF True])
    have cc: "filepath_Clean (rooted_path (abs_segs ?f)) = rooted_path (abs_segs ?f)" by (rule Clean_rooted [OF abs_segs_plain])
    have a: "filepath_IsAbs (rooted_path (abs_segs ?f))" using rel True by (simp add: c)
    show ?thesis unfolding destinationPath_def Let_def exported_name_def [symmetric] pl c cc using True ne a by auto
  next
    case False
    then have "\<not> filepath_IsAbs (filepath_Clean ?f)" using rel by simp
    then show ?thesis using False by (simp add: destinationPath_def Let_def)
  qed
qed

lemma Join_name:
  assumes "plain_seg name"
  shows "filepath_Clean (filepath_Clean (filepath_Join (rooted_path (abs_segs f)) name)) = rooted_path (abs_segs f @ [name])"
proof -
  have "Split name (CHR ''/'') = [name]" using assms by (simp add: plain_seg_def Split_plain)
  then have j: "filepath_Join (rooted_path (abs_segs f)) name = rooted_path (abs_segs f @ [name])"
    using Join_rooted [OF abs_segs_plain, of name f] assms by (simp add: plain_seg_def)
  have "list_all plain_seg (abs_segs f @ [name])" using assms abs_segs_plain by simp
  then show ?thesis unfolding j by (metis Clean_rooted)
qed

text \<open>The check of the code refuses the root itself as a folder.\<close>

lemma name_below:
  assumes "plain_seg name"
  shows "(rooted_path (segs @ [name]) \<noteq> rooted_path segs \<and> \<not> HasPrefix (rooted_path (segs @ [name])) (rooted_path segs @ ''/'')) \<longleftrightarrow> segs = []"
proof (cases "segs = []")
  case True
  then show ?thesis using assms by (cases name) (auto simp: rooted_path_def HasPrefix_def plain_seg_def)
next
  case False
  then show ?thesis by (simp add: rooted_path_snoc HasPrefix_def)
qed

text \<open>
  C14: What copying an archive does to the file system, call by call. A folder that is not absolute, or a
  file name that is not one plain segment, is refused before anything is touched. Otherwise the folder is
  created, the archive opened, and the file created and written is the named one directly in that folder,
  with all dots resolved; nothing else is touched, the first failing call ends the copy with an error, a
  failed write is followed by the removal of that same file, and success means that all four calls
  succeeded and returns that path. For the root folder the copy is refused after the folder was created.
\<close>

theorem export_lands_in_folder:
  fixes folder fileName archivePath :: string
  defines "segs \<equiv> abs_segs (TrimSpace folder)"
    and "name \<equiv> filepath_Base (TrimSpace (if TrimSpace fileName = '''' then filepath_Base archivePath else fileName))"
  defines "dest \<equiv> rooted_path (segs @ [name])"
  defines "steps \<equiv> [DidMkdir (rooted_path segs), DidOpen archivePath, DidCreate dest, DidCopy archivePath dest]"
  assumes "copyArchiveToFolder (tracing_fs fs) archivePath folder fileName ([], w) = (r, (calls, w'))"
  shows "if \<not> (HasPrefix (TrimSpace folder) ''/'' \<and> plain_seg name) then isl r \<and> calls = [] \<and> w' = w
    else if segs = [] then isl r \<and> (\<exists>ok. calls = [(DidMkdir ''/'', ok)])
    else r = Inr dest \<and> calls = map (\<lambda>c. (c, True)) steps
      \<or> isl r \<and> (\<exists>k < 3. calls = map (\<lambda>c. (c, True)) (take k steps) @ [(steps ! k, False)])
      \<or> isl r \<and> (\<exists>ok. calls = map (\<lambda>c. (c, True)) (take 3 steps) @ [(DidCopy archivePath dest, False), (DidRemove dest, ok)])"
proof (cases "HasPrefix (TrimSpace folder) ''/'' \<and> plain_seg name")
  case False
  then have "isl (destinationPath archivePath folder fileName)"
    unfolding name_def exported_name_def [symmetric] destinationPath_spec by auto
  then obtain err where "destinationPath archivePath folder fileName = Inl err" by (auto simp: isl_def)
  then have "isl r \<and> calls = [] \<and> w' = w" using assms(5) by (auto simp: copyArchiveToFolder_def)
  then show ?thesis using False by simp
next
  case True
  have d: "destinationPath archivePath folder fileName = Inr (rooted_path segs, name)"
    using True unfolding name_def exported_name_def [symmetric] segs_def by (simp add: destinationPath_spec)
  have c: "filepath_Clean (filepath_Clean (filepath_Join (rooted_path segs) name)) = dest"
    unfolding dest_def segs_def by (rule Join_name) (use True in simp)
  have b: "(dest \<noteq> rooted_path segs \<and> \<not> HasPrefix dest (rooted_path segs @ ''/'')) \<longleftrightarrow> segs = []"
    unfolding dest_def by (rule name_below) (use True in simp)
  have k3: "(\<exists>k < (3 :: nat). P k) \<longleftrightarrow> P 0 \<or> P 1 \<or> P 2" for P by (auto simp: numeral_3_eq_3 numeral_2_eq_2 less_Suc_eq)
  note run = assms(5) [unfolded copyArchiveToFolder_def d sum.case prod.case Let_def c b]
  show ?thesis
  proof (cases "segs = []")
    case True
    then show ?thesis using run \<open>HasPrefix _ _ \<and> _\<close> by (auto simp: noting_fs_def rooted_path_def split: prod.splits option.splits)
  next
    case ne: False
    then show ?thesis using run True unfolding k3 steps_def
      by (auto simp: noting_fs_def split: prod.splits option.splits)
  qed
qed

definition ok_fs :: "unit HostFS" where
  "ok_fs = \<lparr>fs_Home = Inr ''/home/me'', fs_MkdirAll = (\<lambda>_. Pair None), fs_Open = (\<lambda>_. Pair None), fs_Create = (\<lambda>_. Pair None),
     fs_Copy = (\<lambda>_ _. Pair None), fs_Remove = (\<lambda>_. Pair None)\<rparr>"

theorem export_lands_in_folder_witness:
  "snd (copyArchiveToFolder (tracing_fs ok_fs) ''/home/me/a.tar.gz'' '' /tmp/x/..'' ''c/b.tar.gz'' ([], ()))
     = ([(DidMkdir ''/tmp'', True), (DidOpen ''/home/me/a.tar.gz'', True), (DidCreate ''/tmp/b.tar.gz'', True),
         (DidCopy ''/home/me/a.tar.gz'' ''/tmp/b.tar.gz'', True)], ())"
proof -
  let ?run = "copyArchiveToFolder (tracing_fs ok_fs) ''/home/me/a.tar.gz'' '' /tmp/x/..'' ''c/b.tar.gz'' ([], ())"
  obtain r calls w' where e: "?run = (r, (calls, w'))" by (metis surj_pair)
  have "fst ?run = Inr ''/tmp/b.tar.gz''" by code_simp
  then have r: "r = Inr ''/tmp/b.tar.gz''" by (simp add: e)
  have t: "TrimSpace '' /tmp/x/..'' = ''/tmp/x/..''" "TrimSpace ''c/b.tar.gz'' = ''c/b.tar.gz''"
    "abs_segs ''/tmp/x/..'' = [''tmp'']" "filepath_Base ''c/b.tar.gz'' = ''b.tar.gz''" "plain_seg ''b.tar.gz''" by code_simp+
  from export_lands_in_folder [OF e] show ?thesis unfolding t r e by (simp add: t rooted_path_def HasPrefix_def)
qed

text \<open>The commands of an export to an image that succeeded, from the start of its container on.\<close>

definition commitCommands :: "string \<Rightarrow> string \<Rightarrow> string \<Rightarrow> string list list" where
  "commitCommands vmArchivePath i a =
     [[''nerdctl'', ''cp'', vmArchivePath, exportContainerName a @ '':/tmp/archive.tar.gz''],
      [''nerdctl'', ''exec'', exportContainerName a, ''sh'', ''-c'',
       ''mkdir -p /volume-data && tar xzf /tmp/archive.tar.gz -C /volume-data''],
      [''nerdctl'', ''commit'', exportContainerName a, i]]"

lemma populateAndCommit_log:
  assumes "populateAndCommit (logged_fs fs) (logged run) i a s = (r, s')"
  shows "\<exists>k vm. fst s' = fst s @ take k (commitCommands vm i a)
    \<and> (r = None \<longrightarrow> k = 3 \<and> HostMountToVMPath (fs_Home fs) a = Inr vm)"
proof -
  let ?cs = "\<lambda>vm. commitCommands vm i a"
  have h: "fs_Home (logged_fs fs) = fs_Home fs" by (simp add: logged_fs_def)
  show ?thesis
  proof (cases "HostMountToVMPath (fs_Home fs) a")
    case (Inl err)
    then have "r \<noteq> None" "s' = s" using assms by (auto simp: populateAndCommit_def h Let_def)
    then show ?thesis by (intro exI [of _ 0]) simp
  next
    case (Inr vm)
    obtain r1 s1 where l1: "logged run (?cs vm ! 0) s = (r1, s1)" by (metis surj_pair)
    obtain r2 s2 where l2: "logged run (?cs vm ! 1) s1 = (r2, s2)" by (metis surj_pair)
    obtain r3 s3 where l3: "logged run (?cs vm ! 2) s2 = (r3, s3)" by (metis surj_pair)
    note logs = logged_log [OF l1] logged_log [OF l2] logged_log [OF l3]
    have "(s' = s1 \<and> r \<noteq> None) \<or> (s' = s2 \<and> r \<noteq> None) \<or> s' = s3"
      using assms l1 l2 l3 by (auto simp: populateAndCommit_def h Inr Let_def commitCommands_def split: sum.splits)
    then have "fst s' = fst s @ take 1 (?cs vm) \<and> r \<noteq> None \<or> fst s' = fst s @ take 2 (?cs vm) \<and> r \<noteq> None
        \<or> fst s' = fst s @ take 3 (?cs vm)"
      using logs by (auto simp: commitCommands_def numeral_2_eq_2 numeral_3_eq_3)
    then show ?thesis using Inr by auto
  qed
qed


definition ok_run :: "unit runner" where
  "ok_run args w = (Inr '''', w)"


text \<open>
  While the runtime is not running, every changing operation is refused with the same error and
  runs no command at all: its effect is that of asking for the status.
\<close>

lemma stopped_runtime_is_not_touched:
  assumes "cl_status cl w = (Inr status, w1)" "st_State status \<noteq> RuntimeStateRunning"
  shows "(\<forall>act \<in> set (cli_actions fs cl decode opts a b c). act w = (Some (Sentinel ErrRuntimeNotRunning), w1))
    \<and> cli_Prune L cl popts w = Some (Inl (Sentinel ErrRuntimeNotRunning), w1)"
proof -
  have g: "guarded cl f w = (Some (Sentinel ErrRuntimeNotRunning), w1)" for f
    using assms by (simp add: guarded_def requireRunning_def)
  have q: "as_action (guarded_query cl f) w = (Some (Sentinel ErrRuntimeNotRunning), w1)" for f :: "(string, 'a) query"
    using assms by (simp add: as_action_def guarded_query_def requireRunning_def)
  have "cli_Prune L cl popts w = Some (Inl (Sentinel ErrRuntimeNotRunning), w1)"
    using assms by (simp add: cli_Prune_def requireRunning_def)
  then show ?thesis
    by (auto simp: cli_actions_def cli_RemoveNetwork_def cli_CreateVolume_def cli_CloneVolume_def cli_RemoveVolume_def
        cli_StartContainer_def cli_StopContainer_def cli_RemoveContainer_def cli_RemoveImage_def cli_PullImage_def
        cli_PushImage_def cli_RestartContainer_def cli_RegistryLogin_def cli_RegistryLogout_def cli_ExportVolume_def
        cli_RunImage_def cli_ExecContainer_def g q)
qed

text \<open>
  A path that passes validation is mapped below the mount point of its volume, segment by segment,
  and never rejected there.
\<close>

theorem volume_paths_stay_inside:
  assumes "HasPrefix mountpoint ''/''" "abs_segs mountpoint \<noteq> []" "isValidContainerPath path"
  shows "volumeHostPath mountpoint path = Inr (rooted_path (abs_segs mountpoint @ filter (\<lambda>s. s \<noteq> '''') (Split path (CHR ''/''))))"
proof (cases "path = '''' \<or> path = ''/''")
  case True
  then show ?thesis using assms(1) by (auto simp: volumeHostPath_def Clean_abs)
next
  case False
  let ?m = "abs_segs mountpoint"
  obtain rest where p: "path = ''/'' @ rest" using False assms(3) by (auto simp: isValidContainerPath_def HasPrefix_def prefix_def)
  have t: "TrimPrefix path ''/'' = rest" by (simp add: p TrimPrefix_def HasPrefix_def)
  let ?s = "filter (\<lambda>s. s \<noteq> '''') (Split rest (CHR ''/''))"
  have dots: "\<forall>w \<in> set (Split rest (CHR ''/'')). w \<noteq> ''.'' \<and> w \<noteq> ''..''"
    using assms(3) False by (simp add: isValidContainerPath_def p list_all_iff)
  have pl: "list_all plain_seg (?m @ ?s)"
    using abs_segs_plain [of mountpoint] dots Split_no_sep by (auto simp: list_all_iff plain_seg_def)
  have "rooted_path (?m @ ?s) = rooted_path ?m \<or> HasPrefix (rooted_path (?m @ ?s)) (rooted_path ?m @ ''/'')"
  proof (cases "?s = []")
    case False
    then show ?thesis using rooted_path_append [OF assms(2) False] by (simp add: HasPrefix_def)
  qed (metis append_Nil2)
  moreover have j: "filepath_Clean (filepath_Join (rooted_path ?m) (TrimPrefix path ''/'')) = rooted_path (?m @ ?s)"
    unfolding t Join_rooted [OF abs_segs_plain dots] by (rule Clean_rooted [OF pl])
  moreover have "filter (\<lambda>s. s \<noteq> []) (Split path (CHR ''/'')) = ?s" by (simp add: p)
  ultimately show ?thesis using False unfolding volumeHostPath_def Let_def Clean_abs [OF assms(1)] j by auto
qed

theorem volume_paths_stay_inside_witness:
  "volumeHostPath ''/var/lib/x/_data/'' ''/app//log'' = Inr ''/var/lib/x/_data/app/log''"
proof -
  have "abs_segs ''/var/lib/x/_data/'' = [''var'', ''lib'', ''x'', ''_data'']" by code_simp
  moreover have "isValidContainerPath ''/app//log''" "HasPrefix ''/var/lib/x/_data/'' ''/''" by code_simp+
  moreover have "filter (\<lambda>s. s \<noteq> '''') (Split ''/app//log'' (CHR ''/'')) = [''app'', ''log'']" by code_simp
  ultimately show ?thesis using volume_paths_stay_inside [of "''/var/lib/x/_data/''" "''/app//log''"] by (simp add: rooted_path_def)
qed


end
