(* ===== verification/Calf_Build_Enrich.thy ===== *)
theory Calf_Build_Enrich
  imports Calf_Build_Log Calf_Cli
begin

text \<open>
  How a build that is linked to the buildx history is completed: the history client
  (\<open>internal/buildhistory\<close>: \<open>inspect.go\<close>, \<open>logs.go\<close>, \<open>docker.go\<close>, \<open>artifacts.go\<close>), the enrichment from
  the Dockerfile and the built image (\<open>internal/runtime/build_enrich.go\<close>) and \<open>enrichHistoryBuild\<close>
  (\<open>internal/daemon/build_sync.go\<close>).  The programs that are run, the host's files, SHA-256 and the
  JSON decoders are arguments; an object of a decoded document is the list of its members in the order in
  which Go walks it.  \<open>None\<close> is the panic of \<open>FormatBytes\<close>.
\<close>

section \<open>What the code runs on\<close>

datatype json = JStr string | JObj "(string \<times> json) list" | JArr "json list" | JOther

record imageInspectRow =
  ii_ID :: string
  ii_Digest :: string
  ii_RepoDigests :: "string list"
  ii_Size :: int
  ii_RepoTags :: "string list"

record ociConfig =
  oc_MediaType :: string
  oc_Digest :: string
  oc_Size :: int

record 'w BuildEnv =
  be_Stat :: "string \<Rightarrow> 'w \<Rightarrow> bool"
  be_ReadFile :: "string \<Rightarrow> 'w \<Rightarrow> string result"
  be_git :: "'w runner"
  be_docker :: "'w runner"
  be_buildx :: "'w runner"
  be_images :: "string \<Rightarrow> imageInspectRow list result"
  be_object :: "string \<Rightarrow> (string \<times> json) list result"
  be_manifest :: "string \<Rightarrow> ociConfig result"
  be_sha256 :: "string \<Rightarrow> string"

section \<open>Dockerfiles, digests and names (build\_enrich.go)\<close>

definition PlatformArch :: "string \<Rightarrow> string" where
  "PlatformArch platform =
     (if platform = '''' then ''''
      else case Split platform (CHR ''/'') of
        [_, arch] \<Rightarrow> arch
      | _ \<Rightarrow> if HasPrefix platform ''linux/'' then drop 6 platform else platform)"

text \<open>\<open>bufio.Scanner\<close>: lines without their ends, until one does not fit the buffer of 64 KiB.\<close>

definition scan_lines :: "string \<Rightarrow> string list" where
  "scan_lines output =
     (let ls = Split output (CHR 0x0A); ls' = (if last ls = '''' then butlast ls else ls)
      in map (\<lambda>l. TrimSuffix l [CHR 0x0D]) (takeWhile (\<lambda>l. length l < 65536) ls'))"

text \<open>\<open>(?i)^FROM\s+(\S+)\<close>.\<close>

definition from_line :: "string \<Rightarrow> string option" where
  "from_line line =
     (let r = drop 4 line; r1 = dropWhile re_space r; source = takeWhile (\<lambda>c. \<not> re_space c) r1
      in if ToLower (take 4 line) \<noteq> ''from'' \<or> r1 = r \<or> source = [] then None else Some source)"

definition trim_quotes :: "string \<Rightarrow> string" where
  "trim_quotes s =
     (let q = (\<lambda>c. c = CHR 0x22 \<or> c = CHR 0x27) in rev (dropWhile q (rev (dropWhile q s))))"

fun dependency_loop :: "string \<Rightarrow> string list \<Rightarrow> string list \<Rightarrow> BuildDependency list" where
  "dependency_loop platform seen [] = []"
| "dependency_loop platform seen (l # ls) =
     (let line = TrimSpace l in
      if line = '''' \<or> HasPrefix line ''#'' then dependency_loop platform seen ls
      else case from_line line of
        None \<Rightarrow> dependency_loop platform seen ls
      | Some m \<Rightarrow>
          let source = trim_quotes m in
          if source \<in> set seen then dependency_loop platform seen ls
          else \<lparr>dep_Source = source, dep_Platform = PlatformArch platform, dep_Digest = ''''\<rparr>
                 # dependency_loop platform (source # seen) ls)"

definition parseDockerfileDependencies :: "'w BuildEnv \<Rightarrow> string \<Rightarrow> string \<Rightarrow> string \<Rightarrow> 'w \<Rightarrow> BuildDependency list" where
  "parseDockerfileDependencies env contextPath dockerfile platform w =
     (case be_ReadFile env (filepath_Join contextPath dockerfile) w of
        Inl _ \<Rightarrow> []
      | Inr content \<Rightarrow> dependency_loop platform [] (scan_lines content))"

definition inspectImageRow :: "'w BuildEnv \<Rightarrow> 'w runner \<Rightarrow> string \<Rightarrow> 'w \<Rightarrow> imageInspectRow result \<times> 'w" where
  "inspectImageRow env run ref w =
     (case run [''nerdctl'', ''image'', ''inspect'', ref] w of
        (Inl err, w1) \<Rightarrow> (Inl err, w1)
      | (Inr output, w1) \<Rightarrow>
          (case be_images env output of
             Inl err \<Rightarrow> (Inl err, w1)
           | Inr [] \<Rightarrow> (Inl (Errorf (''image inspect returned no documents for '' @ ref)), w1)
           | Inr (row # _) \<Rightarrow> (Inr row, w1)))"

fun repo_digest_loop :: "string list \<Rightarrow> string option" where
  "repo_digest_loop [] = None"
| "repo_digest_loop (rd # rds) =
     (let repoDigest = TrimSpace rd; pos = LastIndex repoDigest (CHR ''@'') in
      if pos \<ge> 0 \<and> pos + 1 < int (length repoDigest) then Some (drop (nat (pos + 1)) repoDigest) else repo_digest_loop rds)"

definition digestFromImageInspect :: "imageInspectRow \<Rightarrow> string" where
  "digestFromImageInspect row =
     (if TrimSpace (ii_Digest row) \<noteq> '''' then TrimSpace (ii_Digest row)
      else case repo_digest_loop (ii_RepoDigests row) of Some d \<Rightarrow> d | None \<Rightarrow> TrimSpace (ii_ID row))"

fun enrichDependenciesWithInspect ::
    "'w BuildEnv \<Rightarrow> 'w runner \<Rightarrow> string \<Rightarrow> BuildDependency list \<Rightarrow> 'w \<Rightarrow> BuildDependency list \<times> 'w" where
  "enrichDependenciesWithInspect env run platform [] w = ([], w)"
| "enrichDependenciesWithInspect env run platform (d # ds) w =
     (let (r, w1) = inspectImageRow env run (dep_Source d) w;
          d' = (case r of
                  Inl _ \<Rightarrow> d
                | Inr row \<Rightarrow>
                    let digest = digestFromImageInspect row in
                    if digest = '''' then d
                    else let d1 = d\<lparr>dep_Digest := digest\<rparr>
                         in if dep_Platform d1 = '''' then d1\<lparr>dep_Platform := PlatformArch platform\<rparr> else d1);
          (ds', w2) = enrichDependenciesWithInspect env run platform ds w1
      in (d' # ds', w2))"

definition inspectBuildImage ::
    "'w BuildEnv \<Rightarrow> 'w runner \<Rightarrow> string \<Rightarrow> string \<Rightarrow> 'w \<Rightarrow> ((BuildArtifact list \<times> BuildTag list) \<times> 'w) option" where
  "inspectBuildImage env run tag platform w =
     (case inspectImageRow env run tag w of
        (Inl _, w1) \<Rightarrow> Some (([], []), w1)
      | (Inr row, w1) \<Rightarrow>
          let digest = digestFromImageInspect row in
          if digest = '''' then Some (([], []), w1)
          else case FormatBytes (ii_Size row) of
            None \<Rightarrow> None
          | Some sz \<Rightarrow>
              Some (([\<lparr>art_Name = ''application/vnd.docker.container.image.v1+json'', art_Platform = PlatformArch platform,
                        art_Digest = digest, art_Size = sz\<rparr>],
                     if ii_RepoTags row = [] then [\<lparr>btag_Tag = tag, btag_Digest = digest\<rparr>]
                     else map (\<lambda>t. \<lparr>btag_Tag = t, btag_Digest = digest\<rparr>) (ii_RepoTags row)), w1))"

definition enrichBuildResult ::
    "'w BuildEnv \<Rightarrow> 'w runner \<Rightarrow> string \<Rightarrow> string \<Rightarrow> string \<Rightarrow> string \<Rightarrow> BuildResult \<Rightarrow> 'w \<Rightarrow> (BuildResult \<times> 'w) option" where
  "enrichBuildResult env run contextPath dockerfile0 tag platform result w =
     (let dockerfile = (if dockerfile0 = '''' then ''Dockerfile'' else dockerfile0);
          (deps, w1) = enrichDependenciesWithInspect env run platform (parseDockerfileDependencies env contextPath dockerfile platform w) w;
          result1 = result\<lparr>br_Dependencies := deps\<rparr>
      in if tag = '''' then Some (result1, w1)
         else case inspectBuildImage env run tag platform w1 of
           None \<Rightarrow> None
         | Some ((artifacts, tags), w2) \<Rightarrow>
             let result2 = (if artifacts \<noteq> [] then result1\<lparr>br_Results := br_Results result1 @ artifacts\<rparr> else result1)
             in Some (if tags \<noteq> [] then result2\<lparr>br_Tags := tags\<rparr> else result2, w2))"

definition IsResolvableBuildContext :: "'w BuildEnv \<Rightarrow> string \<Rightarrow> 'w \<Rightarrow> bool" where
  "IsResolvableBuildContext env contextPath w \<longleftrightarrow>
     contextPath \<noteq> '''' \<and> contextPath \<noteq> ''docker-cli'' \<and> filepath_IsAbs contextPath \<and> be_Stat env contextPath w"

record BuildSource =
  src_Path :: string
  src_Filename :: string
  src_Content :: string
  src_Platform :: string

text \<open>\<open>cwd\<close> is the working directory that \<open>filepath.Abs\<close> joins to a relative path.\<close>

definition filepath_Abs :: "string \<Rightarrow> string \<Rightarrow> string" where
  "filepath_Abs cwd path = (if filepath_IsAbs path then filepath_Clean path else filepath_Join cwd path)"

definition ReadBuildSource :: "'w BuildEnv \<Rightarrow> string \<Rightarrow> string \<Rightarrow> string \<Rightarrow> string \<Rightarrow> 'w \<Rightarrow> BuildSource result" where
  "ReadBuildSource env cwd contextPath dockerfile0 platform w =
     (let dockerfile = (if dockerfile0 = '''' then ''Dockerfile'' else dockerfile0);
          absContext = filepath_Abs cwd contextPath;
          absSource = filepath_Abs cwd (filepath_Join absContext dockerfile)
      in case filepath_Rel absContext absSource of
           Inl _ \<Rightarrow> Inl (Errorf ''permission denied'')
         | Inr rel \<Rightarrow>
             if HasPrefix rel ''..'' then Inl (Errorf ''permission denied'')
             else case be_ReadFile env absSource w of
               Inl err \<Rightarrow> Inl err
             | Inr content \<Rightarrow> Inr \<lparr>src_Path = rel, src_Filename = filepath_Base absSource, src_Content = content,
                                    src_Platform = PlatformArch platform\<rparr>)"

definition CollectGitMetadata :: "'w BuildEnv \<Rightarrow> string \<Rightarrow> 'w \<Rightarrow> (string \<times> string) \<times> 'w" where
  "CollectGitMetadata env contextPath w =
     (if \<not> be_Stat env (filepath_Join contextPath ''.git'') w then (('''', ''''), w)
      else
        let (r1, w1) = be_git env [''-C'', contextPath, ''rev-parse'', ''--short'', ''HEAD''] w;
            (r2, w2) = be_git env [''-C'', contextPath, ''remote'', ''get-url'', ''origin''] w1;
            text = (\<lambda>r. case r of Inr s \<Rightarrow> TrimSpace s | Inl _ \<Rightarrow> '''')
        in ((text r1, text r2), w2))"

fun candidate_loop :: "'w BuildEnv \<Rightarrow> string \<Rightarrow> 'w \<Rightarrow> string list \<Rightarrow> string list \<Rightarrow> string option" where
  "candidate_loop env contextPath w seen [] = None"
| "candidate_loop env contextPath w seen (c # cs) =
     (let candidate = TrimSpace c in
      if candidate = '''' \<or> candidate \<in> set seen then candidate_loop env contextPath w seen cs
      else if be_Stat env (filepath_Join contextPath candidate) w then Some candidate
      else candidate_loop env contextPath w (candidate # seen) cs)"

definition NormalizeDockerfilePath :: "'w BuildEnv \<Rightarrow> string \<Rightarrow> string \<Rightarrow> 'w \<Rightarrow> string" where
  "NormalizeDockerfilePath env contextPath dockerfile0 w =
     (let dockerfile = (if dockerfile0 = '''' then ''Dockerfile'' else dockerfile0) in
      if contextPath = '''' then dockerfile
      else case candidate_loop env contextPath w [] [dockerfile, filepath_Base dockerfile, ''Dockerfile''] of
        Some candidate \<Rightarrow> candidate
      | None \<Rightarrow> dockerfile)"

text \<open>All matches of \<open>(?i)naming to\s+(\S+)\<close>, from left to right.\<close>

definition naming_at :: "string \<Rightarrow> (string \<times> string) option" where
  "naming_at s =
     (let r = drop 9 s; r1 = dropWhile re_space r; ref = takeWhile (\<lambda>c. \<not> re_space c) r1
      in if ToLower (take 9 s) \<noteq> ''naming to'' \<or> r1 = r \<or> ref = [] then None else Some (ref, dropWhile (\<lambda>c. \<not> re_space c) r1))"

lemma naming_at_shorter: "naming_at s = Some (ref, rest) \<Longrightarrow> length rest < length s"
proof -
  assume "naming_at s = Some (ref, rest)"
  then have r: "rest = dropWhile (\<lambda>c. \<not> re_space c) (dropWhile re_space (drop 9 s))" and
    n: "dropWhile re_space (drop 9 s) \<noteq> drop 9 s" by (auto simp: naming_at_def Let_def split: if_splits)
  have "length rest \<le> length (drop 9 s)" unfolding r
    by (rule order_trans [OF length_dropWhile_le length_dropWhile_le])
  moreover have "drop 9 s \<noteq> []" using n by auto
  ultimately show ?thesis by (auto simp: not_le)
qed

function naming_matches :: "string \<Rightarrow> string list" where
  "naming_matches s =
     (if s = [] then []
      else case naming_at s of
        None \<Rightarrow> naming_matches (tl s)
      | Some (ref, rest) \<Rightarrow> ref # naming_matches rest)"
  by auto
termination
  by (relation "measure length") (auto dest: naming_at_shorter)

declare naming_matches.simps [simp del]

definition normalizeImageRef :: "string \<Rightarrow> string" where
  "normalizeImageRef imageRef = TrimPrefix (TrimPrefix imageRef ''docker.io/library/'') ''library/''"

definition ParseImageRefFromBuildLog :: "string \<Rightarrow> string" where
  "ParseImageRefFromBuildLog rawLog =
     (case find (\<lambda>ref. TrimSpace ref \<noteq> '''') (rev (naming_matches rawLog)) of
        Some ref \<Rightarrow> normalizeImageRef (TrimSpace ref)
      | None \<Rightarrow> '''')"

definition dependenciesMissingDigest :: "BuildDependency list \<Rightarrow> bool" where
  "dependenciesMissingDigest deps \<longleftrightarrow> list_ex (\<lambda>d. TrimSpace (dep_Digest d) = '''') deps"

text \<open>The runner of \<open>EnrichSyncedBuild\<close> drops the name of the program.\<close>

definition dockerCLIRunner :: "'w BuildEnv \<Rightarrow> 'w runner" where
  "dockerCLIRunner env args = be_docker env (tl args)"

definition EnrichSyncedBuild :: "'w BuildEnv \<Rightarrow> string \<Rightarrow> Build \<Rightarrow> 'w \<Rightarrow> (Build \<times> 'w) option" where
  "EnrichSyncedBuild env socket build w =
     (if socket = '''' then Some (build, w)
      else
        let b1 = build\<lparr>bd_Dockerfile := NormalizeDockerfilePath env (bd_Context build) (bd_Dockerfile build) w\<rparr> in
        if \<not> IsResolvableBuildContext env (bd_Context b1) w then Some (b1, w)
        else case enrichBuildResult env (dockerCLIRunner env) (bd_Context b1) (bd_Dockerfile b1)
                    (ParseImageRefFromBuildLog (bd_RawLog b1)) (bd_Platform b1) noResult w of
          None \<Rightarrow> None
        | Some (enriched, w1) \<Rightarrow>
            let b2 = (if br_Dependencies enriched \<noteq> [] \<and> (bd_Dependencies b1 = [] \<or> dependenciesMissingDigest (bd_Dependencies b1))
                      then b1\<lparr>bd_Dependencies := br_Dependencies enriched\<rparr> else b1);
                b3 = (if bd_Results b2 = [] \<and> br_Results enriched \<noteq> [] then b2\<lparr>bd_Results := br_Results enriched\<rparr> else b2);
                b4 = (if bd_Tags b3 = [] \<and> br_Tags enriched \<noteq> [] then b3\<lparr>bd_Tags := br_Tags enriched\<rparr> else b3)
            in Some (b4, w1))"

section \<open>The history client (package buildhistory)\<close>

definition IsDockerUnreachable :: "go_error \<Rightarrow> bool" where
  "IsDockerUnreachable err \<longleftrightarrow>
     list_ex (Contains (ToLower (Error err)))
       [''error during connect'', ''unexpected eof'', ''driver not connecting'', ''cannot connect to the docker daemon'',
        ''connection refused'']"

definition Logs :: "'w runner \<Rightarrow> string \<Rightarrow> 'w \<Rightarrow> string result \<times> 'w" where
  "Logs run historyID0 w =
     (let historyID = TrimSpace historyID0 in
      if historyID = '''' then (Inl (Errorf ''build history logs: missing history id''), w)
      else run [''buildx'', ''history'', ''logs'', historyID] w)"

record InspectDetail =
  in_Context :: string
  in_Dockerfile :: string
  in_Labels :: "string \<rightharpoonup> string"

text \<open>A member of an object as a string; the zero value when it is missing or not a string.\<close>

definition str_member :: "(string \<times> json) list \<Rightarrow> string \<Rightarrow> string" where
  "str_member members key = (case map_of members key of Some (JStr s) \<Rightarrow> s | _ \<Rightarrow> '''')"

definition label_entry :: "json \<Rightarrow> (string \<rightharpoonup> string) \<Rightarrow> (string \<rightharpoonup> string)" where
  "label_entry item labels =
     (case item of
        JObj members \<Rightarrow>
          let n0 = str_member members ''Name''; name = (if n0 = '''' then str_member members ''name'' else n0);
              v0 = str_member members ''Value''; label = (if v0 = '''' then str_member members ''value'' else v0)
          in if name \<noteq> '''' then labels(name \<mapsto> label) else labels
      | _ \<Rightarrow> labels)"

definition parseInspectLabels :: "json \<Rightarrow> (string \<rightharpoonup> string) \<Rightarrow> (string \<rightharpoonup> string)" where
  "parseInspectLabels value labels =
     (case value of
        JObj members \<Rightarrow> fold (\<lambda>(key, raw) ls. case raw of JStr label \<Rightarrow> ls(key \<mapsto> label) | _ \<Rightarrow> ls) members labels
      | JArr items \<Rightarrow> fold label_entry items labels
      | _ \<Rightarrow> labels)"

definition resolveContextFromLabels :: "'w BuildEnv \<Rightarrow> (string \<rightharpoonup> string) \<Rightarrow> 'w \<Rightarrow> string" where
  "resolveContextFromLabels env labels w =
     (let from_files = (case labels ''com.docker.compose.project.config_files'' of
            None \<Rightarrow> ''''
          | Some configFiles \<Rightarrow>
              (case find (\<lambda>part. part \<noteq> '''' \<and> be_Stat env part w) (map TrimSpace (Split configFiles (CHR '',''))) of
                 Some part \<Rightarrow> filepath_Dir part
               | None \<Rightarrow> ''''))
      in case labels ''com.docker.compose.project.working_dir'' of
           Some workingDir \<Rightarrow> if workingDir \<noteq> '''' \<and> be_Stat env workingDir w then workingDir else from_files
         | None \<Rightarrow> from_files)"

definition inspect_member :: "string \<times> json \<Rightarrow> InspectDetail \<Rightarrow> InspectDetail" where
  "inspect_member = (\<lambda>(key, value) detail.
     let k = ToLower key in
     if k = ''context'' then (case value of JStr s \<Rightarrow> detail\<lparr>in_Context := s\<rparr> | _ \<Rightarrow> detail)
     else if k = ''dockerfile'' then (case value of JStr s \<Rightarrow> if s \<noteq> '''' then detail\<lparr>in_Dockerfile := s\<rparr> else detail | _ \<Rightarrow> detail)
     else if k = ''labels'' then detail\<lparr>in_Labels := parseInspectLabels value (in_Labels detail)\<rparr>
     else detail)"

definition ParseInspectDetail :: "'w BuildEnv \<Rightarrow> string \<Rightarrow> 'w \<Rightarrow> InspectDetail result" where
  "ParseInspectDetail env output0 w =
     (let output = TrimSpace output0; none = \<lparr>in_Context = '''', in_Dockerfile = ''Dockerfile'', in_Labels = (\<lambda>_. None)\<rparr> in
      if output = '''' then Inr none
      else case be_object env output of
        Inl err \<Rightarrow> Inl (Wrap ''build history inspect: parse output'' err)
      | Inr payload \<Rightarrow>
          let detail = fold inspect_member payload none; resolved = resolveContextFromLabels env (in_Labels detail) w in
          if (in_Context detail = '''' \<or> in_Context detail = ''.'' \<or> \<not> filepath_IsAbs (in_Context detail)) \<and> resolved \<noteq> ''''
          then Inr (detail\<lparr>in_Context := resolved\<rparr>) else Inr detail)"

definition Inspect :: "'w BuildEnv \<Rightarrow> string \<Rightarrow> 'w \<Rightarrow> InspectDetail result \<times> 'w" where
  "Inspect env historyID0 w =
     (let historyID = TrimSpace historyID0 in
      if historyID = '''' then (Inl (Errorf ''build history inspect: missing history id''), w)
      else case be_buildx env [''buildx'', ''history'', ''inspect'', historyID, ''--format'', ''json''] w of
        (Inl err, w1) \<Rightarrow> (Inl err, w1)
      | (Inr output, w1) \<Rightarrow> (ParseInspectDetail env output w1, w1))"

section \<open>Attachments (artifacts.go)\<close>

record attachmentRow =
  at_Type :: string
  at_Platform :: string
  at_Digest :: string

definition attachment_part :: "string \<Rightarrow> attachmentRow \<Rightarrow> attachmentRow" where
  "attachment_part part row =
     (if HasPrefix part ''TYPE='' then row\<lparr>at_Type := drop 5 part\<rparr>
      else if HasPrefix part ''PLATFORM='' then row\<lparr>at_Platform := drop 9 part\<rparr>
      else if HasPrefix part ''DIGEST='' then row\<lparr>at_Digest := drop 7 part\<rparr> else row)"

definition attachment_line :: "string \<Rightarrow> attachmentRow option" where
  "attachment_line l =
     (let line = TrimSpace l;
          row = fold attachment_part (Split line (CHR ''|'')) \<lparr>at_Type = '''', at_Platform = '''', at_Digest = ''''\<rparr>
      in if line = '''' \<or> at_Type row = '''' \<or> at_Digest row = '''' then None else Some row)"

definition parseAttachmentRows :: "string \<Rightarrow> attachmentRow list" where
  "parseAttachmentRows output = List.map_filter attachment_line (Split (TrimSpace output) (CHR 0x0A))"

definition attachmentFormat :: string where
  "attachmentFormat = ''{{range .Attachments}}TYPE={{.Type}}|PLATFORM={{.Platform}}|DIGEST={{.Digest}}{{println}}{{end}}''"

definition listAttachments :: "'w runner \<Rightarrow> string \<Rightarrow> 'w \<Rightarrow> attachmentRow list result \<times> 'w" where
  "listAttachments run historyID w =
     (case run [''buildx'', ''history'', ''inspect'', historyID, ''--format'', attachmentFormat] w of
        (Inl err, w1) \<Rightarrow> (Inl err, w1)
      | (Inr output, w1) \<Rightarrow> (Inr (parseAttachmentRows output), w1))"

definition attachmentBody :: "'w runner \<Rightarrow> string \<Rightarrow> string \<Rightarrow> 'w \<Rightarrow> string result \<times> 'w" where
  "attachmentBody run historyID digest w =
     (case run [''buildx'', ''history'', ''inspect'', ''attachment'', historyID, digest] w of
        (Inl err, w1) \<Rightarrow> (Inl err, w1)
      | (Inr output, w1) \<Rightarrow> (Inr (TrimOutputBytes output), w1))"

definition manifestArtifacts ::
    "'w BuildEnv \<Rightarrow> string \<Rightarrow> string \<Rightarrow> string \<Rightarrow> 'w \<Rightarrow> (BuildArtifact list result \<times> 'w) option" where
  "manifestArtifacts env historyID digest platform w =
     (case attachmentBody (be_buildx env) historyID digest w of
        (Inl err, w1) \<Rightarrow> Some (Inl err, w1)
      | (Inr output, w1) \<Rightarrow>
          (case be_manifest env output of
             Inl err \<Rightarrow> Some (Inl err, w1)
           | Inr config \<Rightarrow>
               if oc_Digest config = '''' then Some (Inl (Errorf ''build history artifacts: missing manifest config''), w1)
               else case FormatBytes (oc_Size config) of
                 None \<Rightarrow> None
               | Some sz \<Rightarrow> Some (Inr [\<lparr>art_Name = oc_MediaType config, art_Platform = platform,
                                        art_Digest = oc_Digest config, art_Size = sz\<rparr>], w1)))"

definition digestForBytes :: "'w BuildEnv \<Rightarrow> string \<Rightarrow> string" where
  "digestForBytes env content = (if content = [] then '''' else ''sha256:'' @ be_sha256 env content)"

definition attachmentArtifact ::
    "'w BuildEnv \<Rightarrow> string \<Rightarrow> attachmentRow \<Rightarrow> string \<Rightarrow> string \<Rightarrow> 'w \<Rightarrow> (BuildArtifact result \<times> 'w) option" where
  "attachmentArtifact env historyID attachment name platform w =
     (case attachmentBody (be_buildx env) historyID (at_Digest attachment) w of
        (Inl err, w1) \<Rightarrow> Some (Inl err, w1)
      | (Inr output, w1) \<Rightarrow>
          (case FormatBytes (int (length output)) of
             None \<Rightarrow> None
           | Some sz \<Rightarrow> Some (Inr \<lparr>art_Name = name, art_Platform = platform, art_Digest = digestForBytes env output,
                                  art_Size = sz\<rparr>, w1)))"

text \<open>The list by name keeps the last artifact of a name; \<open>seen\<close> holds the preferred names that were found.\<close>

definition preferredArtifacts :: "string list" where
  "preferredArtifacts = [''application/vnd.oci.image.config.v1+json'', ''Provenance v1'']"

definition orderBuildArtifacts :: "BuildArtifact list \<Rightarrow> BuildArtifact list" where
  "orderBuildArtifacts artifacts =
     (let byName = (\<lambda>name. find (\<lambda>a. art_Name a = name) (rev artifacts));
          ordered = List.map_filter byName preferredArtifacts;
          seen = filter (\<lambda>name. byName name \<noteq> None) preferredArtifacts
      in ordered @ filter (\<lambda>a. art_Name a \<notin> set seen) artifacts)"

text \<open>The loop over the attachments; the platform of a manifest applies to what follows it.\<close>

fun artifact_loop ::
    "'w BuildEnv \<Rightarrow> string \<Rightarrow> string \<Rightarrow> BuildArtifact list \<Rightarrow> attachmentRow list \<Rightarrow> 'w \<Rightarrow> (BuildArtifact list result \<times> 'w) option" where
  "artifact_loop env historyID platform artifacts [] w = Some (Inr artifacts, w)"
| "artifact_loop env historyID platform artifacts (row # rows) w =
     (if at_Type row = ''application/vnd.oci.image.manifest.v1+json'' then
        let platform' = (if at_Platform row \<noteq> '''' then PlatformArch (at_Platform row) else platform) in
        case manifestArtifacts env historyID (at_Digest row) platform' w of
          None \<Rightarrow> None
        | Some (Inr as, w1) \<Rightarrow> artifact_loop env historyID platform' (artifacts @ as) rows w1
        | Some (Inl err, w1) \<Rightarrow>
            if IsDockerUnreachable err then Some (Inl err, w1) else artifact_loop env historyID platform' artifacts rows w1
      else if at_Type row = ''https://slsa.dev/provenance/v0.2'' then
        case attachmentArtifact env historyID row ''Provenance v1'' platform w of
          None \<Rightarrow> None
        | Some (Inr a, w1) \<Rightarrow> artifact_loop env historyID platform (artifacts @ [a]) rows w1
        | Some (Inl err, w1) \<Rightarrow>
            if IsDockerUnreachable err then Some (Inl err, w1) else artifact_loop env historyID platform artifacts rows w1
      else artifact_loop env historyID platform artifacts rows w)"

definition BuildArtifacts :: "'w BuildEnv \<Rightarrow> string \<Rightarrow> string \<Rightarrow> 'w \<Rightarrow> (BuildArtifact list result \<times> 'w) option" where
  "BuildArtifacts env historyID0 platform w =
     (let historyID = TrimSpace historyID0 in
      if historyID = '''' then Some (Inl (Errorf ''build history artifacts: missing history id''), w)
      else case listAttachments (be_buildx env) historyID w of
        (Inl err, w1) \<Rightarrow> Some (Inl err, w1)
      | (Inr attachments, w1) \<Rightarrow>
          (case artifact_loop env historyID (PlatformArch platform) [] attachments w1 of
             None \<Rightarrow> None
           | Some (Inl err, w2) \<Rightarrow> Some (Inl err, w2)
           | Some (Inr artifacts, w2) \<Rightarrow> Some (Inr (if artifacts = [] then [] else orderBuildArtifacts artifacts), w2)))"

text \<open>\<open>FetchArtifactBytes\<close>: the attachment itself, else the first one whose digest or manifest fits.\<close>

fun fetch_loop :: "'w BuildEnv \<Rightarrow> string \<Rightarrow> string \<Rightarrow> attachmentRow list \<Rightarrow> 'w \<Rightarrow> string result \<times> 'w" where
  "fetch_loop env historyID digest [] w = (Inl (Errorf (''build history artifact not found for digest '' @ digest)), w)"
| "fetch_loop env historyID digest (row # rows) w =
     (case attachmentBody (be_buildx env) historyID (at_Digest row) w of
        (Inl _, w1) \<Rightarrow> fetch_loop env historyID digest rows w1
      | (Inr body, w1) \<Rightarrow>
          if body = [] then fetch_loop env historyID digest rows w1
          else if at_Digest row = digest \<or> digestForBytes env body = digest then (Inr body, w1)
          else if at_Type row \<noteq> ''application/vnd.oci.image.manifest.v1+json'' then fetch_loop env historyID digest rows w1
          else case be_manifest env body of
            Inl _ \<Rightarrow> fetch_loop env historyID digest rows w1
          | Inr config \<Rightarrow>
              if oc_Digest config \<noteq> digest then fetch_loop env historyID digest rows w1
              else case attachmentBody (be_buildx env) historyID (oc_Digest config) w1 of
                (Inr configBody, w2) \<Rightarrow> (Inr (if configBody \<noteq> [] then configBody else body), w2)
              | (Inl _, w2) \<Rightarrow> (Inr body, w2))"

definition FetchArtifactBytes :: "'w BuildEnv \<Rightarrow> string \<Rightarrow> string \<Rightarrow> 'w \<Rightarrow> string result \<times> 'w" where
  "FetchArtifactBytes env historyID0 digest0 w =
     (let historyID = TrimSpace historyID0; digest = TrimSpace digest0;
          search = (\<lambda>w1. case listAttachments (be_buildx env) historyID w1 of
                      (Inl err, w2) \<Rightarrow> (Inl err, w2)
                    | (Inr attachments, w2) \<Rightarrow> fetch_loop env historyID digest attachments w2)
      in if historyID = '''' then (Inl (Errorf ''build history artifact: missing history id''), w)
         else if digest = '''' then (Inl (Errorf ''build history artifact: missing digest''), w)
         else case attachmentBody (be_buildx env) historyID digest w of
           (Inr body, w1) \<Rightarrow> if body \<noteq> [] then (Inr body, w1) else search w1
         | (Inl _, w1) \<Rightarrow> search w1)"

section \<open>enrichHistoryBuild (build\_sync.go)\<close>

definition isTerminalBuildStatus :: "string \<Rightarrow> bool" where
  "isTerminalBuildStatus status \<longleftrightarrow> status = ''success'' \<or> status = ''failed''"

text \<open>\<open>skipped\<close> is the set \<open>historyArtifactSkip\<close> of histories without artifacts.\<close>

definition skipHistoryArtifacts :: "string list \<Rightarrow> string \<Rightarrow> bool" where
  "skipHistoryArtifacts skipped historyID \<longleftrightarrow> historyID \<in> set skipped"

definition markHistoryArtifactsSkip :: "string \<Rightarrow> string list \<Rightarrow> string list" where
  "markHistoryArtifactsSkip historyID skipped = (if historyID = '''' then skipped else List.insert historyID skipped)"

text \<open>The context from the history, when the stored one cannot be used.\<close>

definition enrich_context :: "'w BuildEnv \<Rightarrow> Build \<Rightarrow> 'w \<Rightarrow> Build \<times> 'w" where
  "enrich_context env build w =
     (if IsResolvableBuildContext env (bd_Context build) w then (build, w)
      else case Inspect env (bd_HistoryRef build) w of
        (Inl _, w1) \<Rightarrow> (build, w1)
      | (Inr detail, w1) \<Rightarrow>
          let b1 = build\<lparr>bd_Context := in_Context detail\<rparr>;
              b2 = (if in_Dockerfile detail \<noteq> ''''
                    then b1\<lparr>bd_Dockerfile := NormalizeDockerfilePath env (in_Context detail) (in_Dockerfile detail) w1\<rparr> else b1);
              ((revision, remote), w2) = CollectGitMetadata env (bd_Context b2) w1
          in (if revision \<noteq> '''' \<or> remote \<noteq> '''' then b2\<lparr>bd_SourceRevision := revision, bd_RemoteSource := remote\<rparr> else b2, w2))"

definition enrich_logs :: "'w BuildEnv \<Rightarrow> Build \<Rightarrow> 'w \<Rightarrow> Build \<times> 'w" where
  "enrich_logs env build w =
     (if isTerminalBuildStatus (bd_Status build) \<and> bd_RawLog build = '''' \<and> bd_Steps build = [] then
        case Logs (be_buildx env) (bd_HistoryRef build) w of
          (Inl _, w1) \<Rightarrow> (build, w1)
        | (Inr logs, w1) \<Rightarrow> (ApplyBuildLogs build logs, w1)
      else (build, w))"

definition enrich_artifacts :: "'w BuildEnv \<Rightarrow> string list \<Rightarrow> Build \<Rightarrow> 'w \<Rightarrow> ((Build \<times> string list) \<times> 'w) option" where
  "enrich_artifacts env skipped build w =
     (if bd_Results build = [] \<and> \<not> skipHistoryArtifacts skipped (bd_HistoryRef build) then
        case BuildArtifacts env (bd_HistoryRef build) (bd_Platform build) w of
          None \<Rightarrow> None
        | Some (Inl _, w1) \<Rightarrow> Some ((build, markHistoryArtifactsSkip (bd_HistoryRef build) skipped), w1)
        | Some (Inr artifacts, w1) \<Rightarrow>
            if artifacts = [] then Some ((build, markHistoryArtifactsSkip (bd_HistoryRef build) skipped), w1)
            else Some ((build\<lparr>bd_Results := artifacts\<rparr>, skipped), w1)
      else Some ((build, skipped), w))"

definition enrichHistoryBuild ::
    "'w BuildEnv \<Rightarrow> string \<Rightarrow> string list \<Rightarrow> Build \<Rightarrow> 'w \<Rightarrow> ((Build \<times> string list) \<times> 'w) option" where
  "enrichHistoryBuild env socket skipped build w =
     (if bd_HistoryRef build = '''' then Some ((build, skipped), w)
      else
        let (b1, w1) = enrich_context env build w; (b2, w2) = enrich_logs env b1 w1 in
        case EnrichSyncedBuild env socket b2 w2 of
          None \<Rightarrow> None
        | Some (b3, w3) \<Rightarrow> enrich_artifacts env skipped b3 w3)"

section \<open>What enrichment keeps\<close>

text \<open>Two records of the same build: enrichment changes sources, logs and results only.\<close>

definition same_build :: "Build \<Rightarrow> Build \<Rightarrow> bool" where
  "same_build a b \<longleftrightarrow> bd_ID a = bd_ID b \<and> bd_HistoryRef a = bd_HistoryRef b \<and> bd_Tag a = bd_Tag b \<and> bd_Platform a = bd_Platform b
     \<and> bd_Status a = bd_Status b \<and> bd_CreatedAt a = bd_CreatedAt b \<and> bd_FinishedAt a = bd_FinishedAt b
     \<and> bd_DurationMs a = bd_DurationMs b \<and> bd_Error a = bd_Error b \<and> bd_Builder a = bd_Builder b"

lemma same_build_trans: "same_build a b \<Longrightarrow> same_build b c \<Longrightarrow> same_build a c"
  by (auto simp: same_build_def)

lemma same_build_upd [simp]:
  "same_build a (b\<lparr>bd_Context := x\<rparr>) = same_build a b" "same_build a (b\<lparr>bd_Dockerfile := x\<rparr>) = same_build a b"
  "same_build a (b\<lparr>bd_SourceRevision := x\<rparr>) = same_build a b" "same_build a (b\<lparr>bd_RemoteSource := x\<rparr>) = same_build a b"
  "same_build a (b\<lparr>bd_Steps := steps\<rparr>) = same_build a b" "same_build a (b\<lparr>bd_Timing := t\<rparr>) = same_build a b"
  "same_build a (b\<lparr>bd_RawLog := x\<rparr>) = same_build a b" "same_build a (b\<lparr>bd_CachedSteps := n\<rparr>) = same_build a b"
  "same_build a (b\<lparr>bd_TotalSteps := n\<rparr>) = same_build a b" "same_build a (b\<lparr>bd_Dependencies := ds\<rparr>) = same_build a b"
  "same_build a (b\<lparr>bd_Results := rs\<rparr>) = same_build a b" "same_build a (b\<lparr>bd_Tags := ts\<rparr>) = same_build a b"
  "same_build a a"
  by (simp_all add: same_build_def)

lemma same_build_if [simp]: "same_build a (if c then x else y) \<longleftrightarrow> (if c then same_build a x else same_build a y)"
  by simp

lemma ApplyBuildLogs_same [simp]: "same_build a (ApplyBuildLogs b logs) = same_build a b"
  by (simp add: ApplyBuildLogs_def Let_def)

lemma enrich_context_same: "enrich_context env b w = (b', w') \<Longrightarrow> same_build b b'"
  unfolding enrich_context_def Let_def by (split if_split_asm; clarsimp split: prod.split_asm sum.split_asm)

lemma enrich_logs_same: "enrich_logs env b w = (b', w') \<Longrightarrow> same_build b b'"
  unfolding enrich_logs_def by (split if_split_asm; clarsimp split: prod.split_asm sum.split_asm)

lemma EnrichSyncedBuild_same: "EnrichSyncedBuild env socket b w = Some (b', w') \<Longrightarrow> same_build b b'"
  unfolding EnrichSyncedBuild_def Let_def by (split if_split_asm; (split if_split_asm)?; clarsimp split: prod.split_asm option.split_asm)

lemma enrich_artifacts_same: "enrich_artifacts env skipped b w = Some ((b', skipped'), w') \<Longrightarrow> same_build b b'"
  unfolding enrich_artifacts_def by (split if_split_asm; clarsimp split: prod.split_asm option.split_asm sum.split_asm if_split_asm)

lemma enrichHistoryBuild_same: "enrichHistoryBuild env socket skipped b w = Some ((b', skipped'), w') \<Longrightarrow> same_build b b'"
proof -
  assume e: "enrichHistoryBuild env socket skipped b w = Some ((b', skipped'), w')"
  obtain b1 w1 b2 w2 where 1: "enrich_context env b w = (b1, w1)" and 2: "enrich_logs env b1 w1 = (b2, w2)" by fastforce
  show ?thesis
  proof (cases "bd_HistoryRef b = ''''")
    case True
    then show ?thesis using e by (simp add: enrichHistoryBuild_def same_build_def)
  next
    case False
    with e 1 2 obtain b3 w3 where "EnrichSyncedBuild env socket b2 w2 = Some (b3, w3)" "enrich_artifacts env skipped b3 w3 = Some ((b', skipped'), w')"
      by (auto simp: enrichHistoryBuild_def split: option.splits)
    then show ?thesis
      using enrich_context_same [OF 1] enrich_logs_same [OF 2] EnrichSyncedBuild_same enrich_artifacts_same same_build_trans by metis
  qed
qed

section \<open>The order of artifacts\<close>

definition named :: "BuildArtifact list \<Rightarrow> string \<Rightarrow> BuildArtifact list" where
  "named as name = filter (\<lambda>a. art_Name a = name) as"

lemma find_last: "find P (rev xs) = (if filter P xs = [] then None else Some (last (filter P xs)))"
  by (induction xs rule: rev_induct) auto

lemma order_eq:
  "orderBuildArtifacts as =
     (if named as (preferredArtifacts ! 0) = [] then [] else [last (named as (preferredArtifacts ! 0))])
     @ (if named as (preferredArtifacts ! 1) = [] then [] else [last (named as (preferredArtifacts ! 1))])
     @ filter (\<lambda>a. art_Name a \<notin> set preferredArtifacts) as"
proof -
  have keep: "filter (\<lambda>a. art_Name a \<notin> set (filter (\<lambda>n. named as n \<noteq> []) preferredArtifacts)) as = filter (\<lambda>a. art_Name a \<notin> set preferredArtifacts) as"
    by (rule filter_cong [OF refl]) (auto simp: named_def filter_empty_conv)
  show ?thesis
    unfolding orderBuildArtifacts_def Let_def find_last named_def [symmetric] keep [symmetric]
    by (simp add: preferredArtifacts_def List.map_filter_simps)
qed

lemma parts_mset:
  "mset as = mset (named as (preferredArtifacts ! 0)) + mset (named as (preferredArtifacts ! 1)) + mset (filter (\<lambda>a. art_Name a \<notin> set preferredArtifacts) as)"
  by (induction as) (auto simp: named_def preferredArtifacts_def)

lemma one_or_last: "length xs \<le> 1 \<Longrightarrow> mset (if xs = [] then [] else [last xs]) = mset xs"
  by (cases xs) auto

text \<open>
  The artifacts of a build are reordered without loss exactly when no preferred name occurs twice: of two
  configurations, as a build for two platforms has them, only the last one is kept.
\<close>

theorem artifacts_lost_iff:
  "mset (orderBuildArtifacts as) = mset as \<longleftrightarrow>
     length (named as ''application/vnd.oci.image.config.v1+json'') \<le> 1 \<and> length (named as ''Provenance v1'') \<le> 1"
proof -
  define c p r where "c = named as (preferredArtifacts ! 0)" and "p = named as (preferredArtifacts ! 1)"
    and "r = filter (\<lambda>a. art_Name a \<notin> set preferredArtifacts) as"
  have o: "mset (orderBuildArtifacts as) = mset (if c = [] then [] else [last c]) + mset (if p = [] then [] else [last p]) + mset r"
    by (simp add: order_eq c_def p_def r_def)
  have a: "mset as = mset c + mset p + mset r" unfolding c_def p_def r_def by (rule parts_mset)
  have "length c \<le> 1 \<and> length p \<le> 1" if "mset (orderBuildArtifacts as) = mset as"
  proof -
    have "length (if c = [] then [] else [last c]) + length (if p = [] then [] else [last p]) = length c + length p"
      using that o a by (metis add_right_cancel size_mset size_union)
    moreover have "length (if c = [] then [] else [last c]) \<le> length c" "length (if p = [] then [] else [last p]) \<le> length p"
      by (auto simp: Suc_le_eq)
    ultimately have "length c = length (if c = [] then [] else [last c])" "length p = length (if p = [] then [] else [last p])" by linarith+
    then show ?thesis by (auto split: if_splits)
  qed
  moreover have "mset (orderBuildArtifacts as) = mset as" if "length c \<le> 1" "length p \<le> 1"
    using that o a by (simp only: one_or_last)
  ultimately show ?thesis by (auto simp: c_def p_def preferredArtifacts_def)
qed

end
