(* ===== verification/Calf_Builds.thy ===== *)
theory Calf_Builds
  imports Calf_Build_Enrich Calf_Files
begin

text \<open>
  The build history of the daemon: rows of the buildx history (\<open>internal/buildhistory/history.go\<close>), the
  file of builds (\<open>internal/buildstore/store.go\<close>), the list in memory and what changes it
  (\<open>internal/daemon/builds.go\<close>) and the import from buildx (\<open>internal/daemon/build_sync.go\<close>).  The
  critical sections under \<open>BuildsMu\<close> are single functions.  The clock's readings are arguments.
\<close>

section \<open>Durations\<close>

text \<open>\<open>time.ParseDuration\<close>, in nanoseconds; \<open>None\<close> stands for its errors.\<close>

definition leadingInt :: "string \<Rightarrow> (nat \<times> string) option" where
  "leadingInt s =
     (let v = digits_val (takeWhile is_digit s) in if v > 2 ^ 63 then None else Some (v, dropWhile is_digit s))"

text \<open>Digits that do not fit any more are skipped.\<close>

fun leadingFraction :: "nat \<Rightarrow> nat \<Rightarrow> bool \<Rightarrow> string \<Rightarrow> nat \<times> nat \<times> string" where
  "leadingFraction x sc full [] = (x, sc, [])"
| "leadingFraction x sc full (c # s) =
     (if \<not> is_digit c then (x, sc, c # s)
      else
        let y = 10 * x + digit_val c in
        if full \<or> x > (2 ^ 63 - 1) div 10 \<or> y > 2 ^ 63 then leadingFraction x sc True s
        else leadingFraction y (10 * sc) False s)"

definition duration_units :: "(string \<times> nat) list" where
  "duration_units = [(''ns'', 1), (''us'', 10 ^ 3), ([CHR 0xC2, CHR 0xB5, CHR ''s''], 10 ^ 3), ([CHR 0xCE, CHR 0xBC, CHR ''s''], 10 ^ 3),
     (''ms'', 10 ^ 6), (''s'', 10 ^ 9), (''m'', 60 * 10 ^ 9), (''h'', 3600 * 10 ^ 9)]"

definition duration_part :: "string \<Rightarrow> (nat \<times> string) option" where
  "duration_part s =
     (case leadingInt s of
        None \<Rightarrow> None
      | Some (v, s1) \<Rightarrow>
          let pre = (takeWhile is_digit s \<noteq> []);
              (f, sc, s2) = (if HasPrefix s1 ''.'' then leadingFraction 0 1 False (drop 1 s1) else (0, 1, s1));
              post = (HasPrefix s1 ''.'' \<and> takeWhile is_digit (drop 1 s1) \<noteq> []);
              letter = (\<lambda>c. \<not> (c = CHR ''.'' \<or> is_digit c));
              u = takeWhile letter s2; s3 = dropWhile letter s2
          in if \<not> pre \<and> \<not> post \<or> u = [] then None
             else case map_of duration_units u of
               None \<Rightarrow> None
             | Some unit \<Rightarrow>
                 if v > 2 ^ 63 div unit then None
                 else
                   let v1 = v * unit;
                       v2 = (if f > 0 then v1 + nat \<lfloor>float_mul (to_double (of_nat f)) (to_double (of_nat unit / of_nat sc))\<rfloor> else v1)
                   in if f > 0 \<and> v2 > 2 ^ 63 then None else Some (v2, s3))"

lemma duration_part_shorter: "duration_part s = Some (v, r) \<Longrightarrow> length r < length s"
proof -
  assume "duration_part s = Some (v, r)"
  then obtain f sc s2 where d: "(f, sc, s2) = (if HasPrefix (dropWhile is_digit s) ''.''
        then leadingFraction 0 1 False (drop 1 (dropWhile is_digit s)) else (0, 1, dropWhile is_digit s))"
    and r: "r = dropWhile (\<lambda>c. \<not> (c = CHR ''.'' \<or> is_digit c)) s2" and u: "takeWhile (\<lambda>c. \<not> (c = CHR ''.'' \<or> is_digit c)) s2 \<noteq> []"
    by (auto simp: duration_part_def leadingInt_def Let_def split: option.splits if_splits prod.splits)
  have f: "length (snd (snd (leadingFraction x sc full t))) \<le> length t" for x sc full t
    by (induction x sc full t rule: leadingFraction.induct) (auto simp: Let_def)
  have "length s2 \<le> length (dropWhile is_digit s)"
  proof (cases "HasPrefix (dropWhile is_digit s) ''.''")
    case True
    then have "s2 = snd (snd (leadingFraction 0 1 False (drop 1 (dropWhile is_digit s))))" using d by (metis snd_conv)
    then show ?thesis using f [of 0 1 False "drop 1 (dropWhile is_digit s)"] by simp
  qed (use d in simp)
  moreover have "length r < length s2" using u unfolding r by (cases s2) (auto simp: length_dropWhile_le less_Suc_eq_le)
  moreover have "length (dropWhile is_digit s) \<le> length s" by (rule length_dropWhile_le)
  ultimately show ?thesis by linarith
qed

function duration_loop :: "nat \<Rightarrow> string \<Rightarrow> nat option" where
  "duration_loop d s =
     (if s = [] then Some d
      else case duration_part s of
        None \<Rightarrow> None
      | Some (v, r) \<Rightarrow> if d + v > 2 ^ 63 then None else duration_loop (d + v) r)"
  by auto
termination
  by (relation "measure (length \<circ> snd)") (auto dest: duration_part_shorter)

declare duration_loop.simps [simp del]

definition ParseDuration :: "string \<Rightarrow> int option" where
  "ParseDuration s0 =
     (let neg = HasPrefix s0 ''-''; s = (if neg \<or> HasPrefix s0 ''+'' then drop 1 s0 else s0) in
      if s = ''0'' then Some 0
      else if s = [] then None
      else case duration_loop 0 s of
        None \<Rightarrow> None
      | Some d \<Rightarrow> if neg then Some (- int d) else if d > 2 ^ 63 - 1 then None else Some (int d))"

text \<open>\<open>Duration.Milliseconds\<close> truncates towards zero.\<close>

definition Milliseconds :: "int \<Rightarrow> int" where
  "Milliseconds d = (if d < 0 then - (- d div 1000000) else d div 1000000)"

definition ParseDurationMs :: "string \<Rightarrow> int" where
  "ParseDurationMs value0 =
     (let value = TrimSpace value0 in
      if value = '''' then 0
      else case ParseDuration (filter (\<lambda>c. c \<noteq> CHR '' '') value) of None \<Rightarrow> 0 | Some d \<Rightarrow> Milliseconds d)"

section \<open>Rows (history.go)\<close>

record Row =
  rw_ID :: string
  rw_Ref :: string
  rw_Name :: string
  rw_NameLower :: string
  rw_Status :: string
  rw_StatusLower :: string
  rw_CreatedAt :: string
  rw_CreatedAtLower :: string
  rw_CompletedAt :: string
  rw_Duration :: string
  rw_CachedSteps :: int
  rw_TotalSteps :: int

definition HistoryID :: "Row \<Rightarrow> string" where
  "HistoryID r =
     (if rw_ID r \<noteq> '''' then rw_ID r else if rw_Ref r = '''' then '''' else last (Split (rw_Ref r) (CHR ''/'')))"

definition BuildName :: "Row \<Rightarrow> string" where
  "BuildName r = (if rw_Name r \<noteq> '''' then rw_Name r else rw_NameLower r)"

definition BuildStatus :: "Row \<Rightarrow> string" where
  "BuildStatus r = (if rw_Status r \<noteq> '''' then rw_Status r else rw_StatusLower r)"

definition BuildCreatedAt :: "Row \<Rightarrow> string" where
  "BuildCreatedAt r = (if rw_CreatedAt r \<noteq> '''' then rw_CreatedAt r else rw_CreatedAtLower r)"

text \<open>\<open>Time.Sub\<close> saturates.\<close>

definition BuildDurationMs :: "Row \<Rightarrow> int" where
  "BuildDurationMs r =
     (if ParseDurationMs (rw_Duration r) > 0 then ParseDurationMs (rw_Duration r)
      else case (ParseRFC3339 (BuildCreatedAt r), ParseRFC3339 (rw_CompletedAt r)) of
        (Some created, Some completed) \<Rightarrow> Milliseconds (max (- (2 ^ 63)) (min (2 ^ 63 - 1) (completed - created)))
      | _ \<Rightarrow> 0)"

definition parseRows :: "(string \<Rightarrow> Row result) \<Rightarrow> string \<Rightarrow> Row list" where
  "parseRows decode output =
     List.map_filter (\<lambda>l. let line = TrimSpace l in
       if line = '''' then None
       else case decode line of
         Inl _ \<Rightarrow> None
       | Inr row \<Rightarrow> if HistoryID row = '''' \<and> BuildName row = '''' then None else Some row) (scan_lines output)"

definition emptyRow :: Row where
  "emptyRow = \<lparr>rw_ID = '''', rw_Ref = '''', rw_Name = '''', rw_NameLower = '''', rw_Status = '''', rw_StatusLower = '''',
     rw_CreatedAt = '''', rw_CreatedAtLower = '''', rw_CompletedAt = '''', rw_Duration = '''', rw_CachedSteps = 0, rw_TotalSteps = 0\<rparr>"

definition ParsePlaintextRows :: "(string \<Rightarrow> Row result) \<Rightarrow> string \<Rightarrow> Row list" where
  "ParsePlaintextRows decode output =
     List.map_filter (\<lambda>l. let line = TrimSpace l in
       if line = '''' then None
       else case decode line of
         Inl _ \<Rightarrow> Some (emptyRow\<lparr>rw_Name := line, rw_NameLower := line, rw_Status := ''migrated'', rw_StatusLower := ''migrated''\<rparr>)
       | Inr row \<Rightarrow> if BuildName row = '''' then None else Some row) (scan_lines output)"

definition history_List :: "(string \<Rightarrow> Row result) \<Rightarrow> 'w runner \<Rightarrow> 'w \<Rightarrow> Row list result \<times> 'w" where
  "history_List decode run w =
     (case run [''buildx'', ''history'', ''ls'', ''--format'', ''{{json .}}''] w of
        (Inl err, w1) \<Rightarrow> (Inl err, w1)
      | (Inr output, w1) \<Rightarrow> (Inr (parseRows decode output), w1))"

fun MergeRows :: "string list \<Rightarrow> Row list \<Rightarrow> Row list" where
  "MergeRows existing [] = []"
| "MergeRows existing (row # rows) =
     (let historyID = HistoryID row in
      if historyID = '''' \<or> historyID \<in> set existing then MergeRows existing rows
      else row # MergeRows (historyID # existing) rows)"

definition RowByHistoryID :: "Row list \<Rightarrow> (string \<rightharpoonup> Row)" where
  "RowByHistoryID rows =
     fold (\<lambda>row indexed. if HistoryID row = '''' then indexed else indexed(HistoryID row \<mapsto> row)) rows (\<lambda>_. None)"

definition NormalizeStatus :: "string \<Rightarrow> string" where
  "NormalizeStatus status =
     (let s = ToLower (TrimSpace status) in
      if s \<in> {''completed'', ''complete'', ''success''} then ''success''
      else if s \<in> {''error'', ''failed'', ''canceled'', ''cancelled''} then ''failed''
      else if s \<in> {''running'', ''in progress'', ''in_progress''} then ''running''
      else if status = '''' then ''success'' else ToLower status)"

definition NormalizeTag :: "string \<Rightarrow> string" where
  "NormalizeTag name = (let tag = TrimSpace name in if tag = '''' then ''untagged-build'' else tag)"

section \<open>The file of builds (store.go)\<close>

definition MaxBuilds :: nat where "MaxBuilds = 200"

record BuildsFile =
  bf_Builds :: "Build list"
  bf_Seq :: int

type_synonym build_dir = "(string, BuildsFile node) directory"

definition Load :: "string faults \<Rightarrow> string result \<Rightarrow> build_dir \<Rightarrow> BuildsFile result" where
  "Load io home d =
     (case BuildsFilePath home of
        Inl err \<Rightarrow> Inl err
      | Inr path \<Rightarrow>
          (case ReadFile io d path of
             Inl NotExist \<Rightarrow> Inr \<lparr>bf_Builds = [], bf_Seq = 0\<rparr>
           | Inl (IOFault err) \<Rightarrow> Inl err
           | Inr content \<Rightarrow> Unmarshal content))"

definition trimBuilds :: "Build list \<Rightarrow> Build list" where
  "trimBuilds builds = (if length builds \<le> MaxBuilds then builds else take MaxBuilds builds)"

definition Save :: "string faults \<Rightarrow> string result \<Rightarrow> build_dir \<Rightarrow> Build list \<Rightarrow> int \<Rightarrow> go_error option \<times> build_dir" where
  "Save io home d builds sq =
     (case BuildsFilePath home of
        Inl err \<Rightarrow> (Some err, d)
      | Inr path \<Rightarrow>
          (case io OpMkdir path of
             Some f \<Rightarrow> (Some (fault_error f), d)
           | None \<Rightarrow>
               let tmpPath = path @ ''.tmp'' in
               (case WriteFile io d tmpPath \<lparr>bf_Builds = trimBuilds builds, bf_Seq = sq\<rparr> of
                  (Some err, d1) \<Rightarrow> (Some err, d1)
                | (None, d1) \<Rightarrow> Rename io d1 tmpPath path)))"

section \<open>Builds in memory (builds.go)\<close>

record BuildCore =
  bc_Builds :: "Build list"
  bc_Seq :: int
  bc_Skip :: "string list"
  bc_Disk :: build_dir

text \<open>The host: which file operations fail, and the home directory.\<close>

type_synonym host = "string faults \<times> string result"

definition persistBuildsLocked :: "host \<Rightarrow> BuildCore \<Rightarrow> go_error option \<times> BuildCore" where
  "persistBuildsLocked = (\<lambda>(io, home) c.
     let (err, d) = Save io home (bc_Disk c) (bc_Builds c) (bc_Seq c);
         builds = (if length (bc_Builds c) > MaxBuilds then take MaxBuilds (bc_Builds c) else bc_Builds c)
     in (err, c\<lparr>bc_Builds := builds, bc_Disk := d\<rparr>))"

definition persisted :: "host \<Rightarrow> BuildCore \<Rightarrow> BuildCore" where
  "persisted h c = snd (persistBuildsLocked h c)"

definition loadBuilds :: "host \<Rightarrow> BuildCore \<Rightarrow> BuildCore" where
  "loadBuilds = (\<lambda>(io, home) c.
     case Load io home (bc_Disk c) of
       Inl _ \<Rightarrow> c
     | Inr file \<Rightarrow> c\<lparr>bc_Builds := bf_Builds file, bc_Seq := bf_Seq file\<rparr>)"

text \<open>A new process starts with an empty history and loads the file.\<close>

definition restart :: "host \<Rightarrow> BuildCore \<Rightarrow> BuildCore" where
  "restart h c = loadBuilds h (c\<lparr>bc_Builds := [], bc_Seq := 0, bc_Skip := []\<rparr>)"

definition emptyBuild :: Build where
  "emptyBuild = \<lparr>bd_ID = '''', bd_HistoryRef = '''', bd_Tag = '''', bd_Context = '''', bd_Dockerfile = '''', bd_Platform = '''',
     bd_Status = '''', bd_CreatedAt = '''', bd_FinishedAt = '''', bd_DurationMs = 0, bd_Error = '''', bd_Builder = '''',
     bd_CachedSteps = 0, bd_TotalSteps = 0, bd_Steps = [], bd_Dependencies = [], bd_Results = [], bd_Tags = [],
     bd_Timing = noTiming, bd_SourceRevision = '''', bd_RemoteSource = '''', bd_RawLog = ''''\<rparr>"

definition NewBuild ::
    "host \<Rightarrow> Time \<Rightarrow> string \<Rightarrow> string \<Rightarrow> string \<Rightarrow> string \<Rightarrow> string \<Rightarrow> BuildCore \<Rightarrow> Build \<times> BuildCore" where
  "NewBuild h now contextPath tag dockerfile platform status c =
     (let sq = bc_Seq c + 1;
          build = emptyBuild\<lparr>bd_ID := ''build-'' @ show_int sq, bd_Tag := tag, bd_Context := contextPath,
            bd_Dockerfile := (if dockerfile = '''' then ''Dockerfile'' else dockerfile), bd_Platform := platform,
            bd_Status := status, bd_CreatedAt := FormatRFC3339 now, bd_Builder := ''default''\<rparr>
      in (build, persisted h (c\<lparr>bc_Seq := sq, bc_Builds := build # bc_Builds c\<rparr>)))"

definition AddMigratedBuild :: "host \<Rightarrow> Build \<Rightarrow> BuildCore \<Rightarrow> BuildCore" where
  "AddMigratedBuild h build c =
     (let sq = bc_Seq c + 1;
          b1 = build\<lparr>bd_ID := ''migrated-'' @ show_int sq\<rparr>;
          b2 = (if bd_Builder b1 = '''' then b1\<lparr>bd_Builder := ''default''\<rparr> else b1)
      in persisted h (c\<lparr>bc_Seq := sq, bc_Builds := b2 # bc_Builds c\<rparr>))"

text \<open>The loops that look for an ID change the first build that has it.\<close>

fun upd_build :: "string \<Rightarrow> (Build \<Rightarrow> Build) \<Rightarrow> Build list \<Rightarrow> Build list" where
  "upd_build bid f [] = []"
| "upd_build bid f (b # bs) = (if bd_ID b = bid then f b # bs else b # upd_build bid f bs)"

definition GetBuild :: "string \<Rightarrow> BuildCore \<Rightarrow> Build option" where
  "GetBuild bid c = find (\<lambda>b. bd_ID b = bid) (bc_Builds c)"

definition UpdateBuildSourcePaths :: "host \<Rightarrow> string \<Rightarrow> string \<Rightarrow> string \<Rightarrow> BuildCore \<Rightarrow> BuildCore" where
  "UpdateBuildSourcePaths h buildID contextPath dockerfile c =
     (if GetBuild buildID c = None then c
      else persisted h (c\<lparr>bc_Builds :=
        upd_build buildID (\<lambda>b. b\<lparr>bd_Context := contextPath, bd_Dockerfile := dockerfile\<rparr>) (bc_Builds c)\<rparr>))"

datatype ctx_state = Live | DeadlineExceeded | Canceled

text \<open>The section of \<open>RunBuildJob\<close> under the lock, and the whole job.\<close>

definition finishedBuild ::
    "BuildResult \<Rightarrow> go_error option \<Rightarrow> ctx_state \<Rightarrow> string \<Rightarrow> int \<Rightarrow> string \<times> string \<Rightarrow> Build \<Rightarrow> Build" where
  "finishedBuild result err ctx finishedAt durationMs git build =
     (let b = build\<lparr>bd_FinishedAt := finishedAt, bd_DurationMs := durationMs, bd_SourceRevision := fst git, bd_RemoteSource := snd git,
                bd_Steps := br_Steps result, bd_Timing := br_Timing result, bd_CachedSteps := br_CachedSteps result,
                bd_TotalSteps := br_TotalSteps result, bd_Dependencies := br_Dependencies result, bd_Results := br_Results result,
                bd_Tags := br_Tags result, bd_RawLog := br_RawLog result\<rparr>
      in case err of
           None \<Rightarrow> b\<lparr>bd_Status := ''success''\<rparr>
         | Some e \<Rightarrow> b\<lparr>bd_Status := ''failed'',
             bd_Error := (case ctx of DeadlineExceeded \<Rightarrow> ''build timed out'' | Canceled \<Rightarrow> ''build canceled'' | Live \<Rightarrow> Error e)\<rparr>)"

definition finishJob ::
    "host \<Rightarrow> string \<Rightarrow> BuildResult \<Rightarrow> go_error option \<Rightarrow> ctx_state \<Rightarrow> string \<Rightarrow> int \<Rightarrow> string \<times> string \<Rightarrow> BuildCore \<Rightarrow> BuildCore" where
  "finishJob h buildID result err ctx finishedAt durationMs git c =
     (if GetBuild buildID c = None then c
      else persisted h (c\<lparr>bc_Builds := upd_build buildID (finishedBuild result err ctx finishedAt durationMs git) (bc_Builds c)\<rparr>))"

definition RunBuildJob ::
    "'w BuildEnv \<Rightarrow> host \<Rightarrow> ('w \<Rightarrow> (BuildResult \<times> go_error option) \<times> 'w) \<Rightarrow> ctx_state \<Rightarrow> Time \<Rightarrow> Time \<Rightarrow> Time \<Rightarrow> string \<Rightarrow> string
      \<Rightarrow> BuildCore \<Rightarrow> 'w \<Rightarrow> BuildCore \<times> 'w" where
  "RunBuildJob env h runBuild ctx started finished later buildID contextPath c w =
     (let ((result, err), w1) = runBuild w; (git, w2) = CollectGitMetadata env contextPath w1
      in (finishJob h buildID result err ctx (FormatRFC3339 finished) (Milliseconds (later - started)) git c, w2))"

definition dependenciesNeedDigest :: "BuildDependency list \<Rightarrow> bool" where
  "dependenciesNeedDigest deps \<longleftrightarrow> list_ex (\<lambda>d. TrimSpace (dep_Digest d) = '''') deps"

text \<open>
  Every condition reads the field it guards, so the assignments are one update; \<open>resolvable\<close> is
  whether the current context can be used.
\<close>

definition applyBuildEnrichment :: "bool \<Rightarrow> Build \<Rightarrow> Build \<Rightarrow> Build" where
  "applyBuildEnrichment resolvable current enriched =
     current\<lparr>
       bd_Context := (if bd_Context enriched \<noteq> '''' \<and> \<not> resolvable then bd_Context enriched else bd_Context current),
       bd_Dockerfile := (if bd_Dockerfile enriched \<noteq> '''' \<and> bd_Dockerfile enriched \<noteq> ''Dockerfile''
                            \<and> (bd_Dockerfile current = '''' \<or> bd_Dockerfile current = ''Dockerfile'')
                         then bd_Dockerfile enriched else bd_Dockerfile current),
       bd_SourceRevision := (if bd_SourceRevision enriched \<noteq> '''' \<and> bd_SourceRevision current = ''''
                             then bd_SourceRevision enriched else bd_SourceRevision current),
       bd_RemoteSource := (if bd_RemoteSource enriched \<noteq> '''' \<and> bd_RemoteSource current = ''''
                           then bd_RemoteSource enriched else bd_RemoteSource current),
       bd_RawLog := (if bd_RawLog enriched \<noteq> '''' \<and> bd_RawLog current = '''' then bd_RawLog enriched else bd_RawLog current),
       bd_Steps := (if bd_Steps enriched \<noteq> [] \<and> bd_Steps current = [] then bd_Steps enriched else bd_Steps current),
       bd_Dependencies := (if bd_Dependencies enriched \<noteq> [] \<and> (bd_Dependencies current = [] \<or> dependenciesNeedDigest (bd_Dependencies current))
                           then bd_Dependencies enriched else bd_Dependencies current),
       bd_Results := (if bd_Results enriched \<noteq> [] \<and> bd_Results current = [] then bd_Results enriched else bd_Results current),
       bd_Tags := (if bd_Tags enriched \<noteq> [] \<and> bd_Tags current = [] then bd_Tags enriched else bd_Tags current),
       bd_Timing := (if bd_Timing enriched \<noteq> noTiming \<and> bd_Timing current = noTiming then bd_Timing enriched else bd_Timing current),
       bd_CachedSteps := (if bd_CachedSteps enriched > 0 \<and> bd_CachedSteps current = 0 then bd_CachedSteps enriched else bd_CachedSteps current),
       bd_TotalSteps := (if bd_TotalSteps enriched > 0 \<and> bd_TotalSteps current = 0 then bd_TotalSteps enriched else bd_TotalSteps current)\<rparr>"

definition timingEqual :: "BuildTiming \<Rightarrow> BuildTiming \<Rightarrow> bool" where
  "timingEqual l r \<longleftrightarrow> tim_ImagePullsMs l = tim_ImagePullsMs r \<and> tim_LocalTransfersMs l = tim_LocalTransfersMs r
     \<and> tim_ExecutionsMs l = tim_ExecutionsMs r \<and> tim_FileOperationsMs l = tim_FileOperationsMs r
     \<and> tim_ResultExportsMs l = tim_ResultExportsMs r \<and> tim_IdleMs l = tim_IdleMs r"

definition buildsEqual :: "Build \<Rightarrow> Build \<Rightarrow> bool" where
  "buildsEqual l r \<longleftrightarrow> bd_Tag l = bd_Tag r \<and> bd_Status l = bd_Status r \<and> bd_CreatedAt l = bd_CreatedAt r
     \<and> bd_FinishedAt l = bd_FinishedAt r \<and> bd_DurationMs l = bd_DurationMs r \<and> bd_CachedSteps l = bd_CachedSteps r
     \<and> bd_TotalSteps l = bd_TotalSteps r \<and> bd_Context l = bd_Context r \<and> bd_Dockerfile l = bd_Dockerfile r
     \<and> bd_Steps l = bd_Steps r \<and> bd_RawLog l = bd_RawLog r \<and> bd_Dependencies l = bd_Dependencies r
     \<and> bd_Results l = bd_Results r \<and> bd_Tags l = bd_Tags r \<and> timingEqual (bd_Timing l) (bd_Timing r)"

definition needsEnrichment :: "'w BuildEnv \<Rightarrow> Build \<Rightarrow> 'w \<Rightarrow> bool" where
  "needsEnrichment env build w \<longleftrightarrow>
     \<not> IsResolvableBuildContext env (bd_Context build) w \<or> (bd_RawLog build = '''' \<and> bd_Steps build = [])
     \<or> bd_Dependencies build = [] \<or> dependenciesNeedDigest (bd_Dependencies build) \<or> bd_Results build = [] \<or> bd_Tags build = []"

text \<open>The section of \<open>EnrichHistoryBuildIfNeeded\<close> under the lock.\<close>

definition mergeEnriched :: "'w BuildEnv \<Rightarrow> host \<Rightarrow> string \<Rightarrow> Build \<Rightarrow> BuildCore \<Rightarrow> 'w \<Rightarrow> Build \<times> BuildCore" where
  "mergeEnriched env h buildID enriched c w =
     (case GetBuild buildID c of
        None \<Rightarrow> (enriched, c)
      | Some candidate \<Rightarrow>
          let merged = applyBuildEnrichment (IsResolvableBuildContext env (bd_Context candidate) w) candidate enriched in
          if buildsEqual merged candidate then (merged, c)
          else (merged, persisted h (c\<lparr>bc_Builds := upd_build buildID (\<lambda>_. merged) (bc_Builds c)\<rparr>)))"

definition EnrichHistoryBuildIfNeeded ::
    "'w BuildEnv \<Rightarrow> host \<Rightarrow> string \<Rightarrow> Build \<Rightarrow> BuildCore \<Rightarrow> 'w \<Rightarrow> ((Build \<times> BuildCore) \<times> 'w) option" where
  "EnrichHistoryBuildIfNeeded env h socket build c w =
     (if bd_HistoryRef build = '''' \<or> \<not> needsEnrichment env build w \<or> socket = '''' then Some ((build, c), w)
      else case enrichHistoryBuild env socket (bc_Skip c) build w of
        None \<Rightarrow> None
      | Some ((enriched, skipped), w1) \<Rightarrow>
          let c1 = c\<lparr>bc_Skip := skipped\<rparr> in
          if buildsEqual build enriched then Some ((build, c1), w1) else Some (mergeEnriched env h (bd_ID build) enriched c1 w1, w1))"

definition ResolveBuildSourcePaths :: "'w BuildEnv \<Rightarrow> Build \<Rightarrow> 'w \<Rightarrow> (string \<times> string) \<times> 'w" where
  "ResolveBuildSourcePaths env build w =
     (let contextPath = bd_Context build; dockerfile = (if bd_Dockerfile build = '''' then ''Dockerfile'' else bd_Dockerfile build) in
      if IsResolvableBuildContext env contextPath w \<or> bd_HistoryRef build = '''' then ((contextPath, dockerfile), w)
      else case Inspect env (bd_HistoryRef build) w of
        (Inl _, w1) \<Rightarrow> ((contextPath, dockerfile), w1)
      | (Inr detail, w1) \<Rightarrow> ((in_Context detail, if in_Dockerfile detail \<noteq> '''' then in_Dockerfile detail else dockerfile), w1))"

definition artifactDownloadFileName :: "string \<Rightarrow> string" where
  "artifactDownloadFileName digest =
     (let hash = TrimPrefix digest ''sha256:'' in ''sha256_'' @ (if hash = '''' then ''artifact'' else hash) @ ''.json'')"

definition nonempty :: "string result \<Rightarrow> bool" where
  "nonempty r \<longleftrightarrow> (case r of Inr s \<Rightarrow> s \<noteq> '''' | Inl _ \<Rightarrow> False)"

definition body_of :: "string result \<Rightarrow> string" where
  "body_of r = (case r of Inr s \<Rightarrow> s | Inl _ \<Rightarrow> '''')"

text \<open>\<open>encode\<close> prints the artifact's own record, when nothing better is found.\<close>

definition DownloadBuildArtifact ::
    "'w BuildEnv \<Rightarrow> host \<Rightarrow> (BuildArtifact \<Rightarrow> string) \<Rightarrow> string \<Rightarrow> string \<Rightarrow> string \<Rightarrow> BuildCore \<Rightarrow> 'w
      \<Rightarrow> (((string \<times> string) result \<times> BuildCore) \<times> 'w) option" where
  "DownloadBuildArtifact env h encode socket buildID digest0 c w =
     (let digest = TrimSpace digest0 in
      if digest = '''' then Some ((Inl (Errorf ''digest is required''), c), w)
      else case GetBuild buildID c of
        None \<Rightarrow> Some ((Inl (Errorf ''build not found''), c), w)
      | Some build0 \<Rightarrow>
          (case EnrichHistoryBuildIfNeeded env h socket build0 c w of
             None \<Rightarrow> None
           | Some ((build, c1), w1) \<Rightarrow>
               (case find (\<lambda>a. art_Digest a = digest) (bd_Results build) of
                  None \<Rightarrow> Some ((Inl (Errorf ''build result not found''), c1), w1)
                | Some matched \<Rightarrow>
                    let fileName = artifactDownloadFileName digest;
                        (r1, w2) = (if bd_HistoryRef build \<noteq> '''' then FetchArtifactBytes env (bd_HistoryRef build) digest w1 else (Inr '''', w1))
                    in if nonempty r1 then Some ((Inr (body_of r1, fileName), c1), w2)
                       else
                         let (r2, w3) = (if socket \<noteq> '''' \<and> bd_Tag build \<noteq> '''' then be_docker env [''image'', ''inspect'', bd_Tag build] w2 else (Inr '''', w2))
                         in Some ((Inr (if nonempty r2 then body_of r2 else encode matched, fileName), c1), w3))))"

section \<open>Import from buildx (build\_sync.go)\<close>

definition DefaultBuildPlatform :: "string \<Rightarrow> string" where
  "DefaultBuildPlatform goarch = ''linux/'' @ goarch"

definition baseBuildFromHistoryRow :: "string \<Rightarrow> Time \<Rightarrow> Row \<Rightarrow> Build" where
  "baseBuildFromHistoryRow goarch now row =
     emptyBuild\<lparr>bd_HistoryRef := HistoryID row, bd_Tag := NormalizeTag (BuildName row), bd_Dockerfile := ''Dockerfile'',
       bd_Platform := DefaultBuildPlatform goarch, bd_Status := NormalizeStatus (BuildStatus row),
       bd_CreatedAt := (if BuildCreatedAt row = '''' then FormatRFC3339 now else BuildCreatedAt row),
       bd_FinishedAt := rw_CompletedAt row, bd_DurationMs := BuildDurationMs row, bd_Builder := ''default'',
       bd_CachedSteps := rw_CachedSteps row, bd_TotalSteps := rw_TotalSteps row\<rparr>"

definition applyHistoryRow :: "Build \<Rightarrow> Row \<Rightarrow> Build" where
  "applyHistoryRow build row =
     (let u1 = build\<lparr>bd_Tag := NormalizeTag (BuildName row), bd_Status := NormalizeStatus (BuildStatus row)\<rparr>;
          u2 = (if BuildCreatedAt row \<noteq> '''' then u1\<lparr>bd_CreatedAt := BuildCreatedAt row\<rparr> else u1);
          u3 = (if rw_CompletedAt row \<noteq> '''' then u2\<lparr>bd_FinishedAt := rw_CompletedAt row\<rparr> else u2);
          u4 = (if BuildDurationMs row > 0 then u3\<lparr>bd_DurationMs := BuildDurationMs row\<rparr> else u3);
          u5 = (if rw_CachedSteps row > 0 then u4\<lparr>bd_CachedSteps := rw_CachedSteps row\<rparr> else u4)
      in if rw_TotalSteps row > 0 then u5\<lparr>bd_TotalSteps := rw_TotalSteps row\<rparr> else u5)"

text \<open>The two loops without the lock.\<close>

fun refresh_loop ::
    "'w BuildEnv \<Rightarrow> string \<Rightarrow> (string \<rightharpoonup> Row) \<Rightarrow> (string \<rightharpoonup> Build) \<Rightarrow> string list \<Rightarrow> Build list \<Rightarrow> 'w
      \<Rightarrow> (((string \<rightharpoonup> Build) \<times> string list) \<times> 'w) option" where
  "refresh_loop env socket byHistoryID m skipped [] w = Some ((m, skipped), w)"
| "refresh_loop env socket byHistoryID m skipped (build # builds) w =
     (case byHistoryID (bd_HistoryRef build) of
        None \<Rightarrow> refresh_loop env socket byHistoryID m skipped builds w
      | Some row \<Rightarrow>
          (case enrichHistoryBuild env socket skipped (applyHistoryRow build row) w of
             None \<Rightarrow> None
           | Some ((updated, skipped1), w1) \<Rightarrow>
               refresh_loop env socket byHistoryID (if buildsEqual updated build then m else m(bd_ID build \<mapsto> updated)) skipped1 builds w1))"

fun import_loop :: "'w BuildEnv \<Rightarrow> string \<Rightarrow> string list \<Rightarrow> Build list \<Rightarrow> 'w \<Rightarrow> ((Build list \<times> string list) \<times> 'w) option" where
  "import_loop env socket skipped [] w = Some (([], skipped), w)"
| "import_loop env socket skipped (b # bs) w =
     (case enrichHistoryBuild env socket skipped b w of
        None \<Rightarrow> None
      | Some ((b', skipped1), w1) \<Rightarrow>
          (case import_loop env socket skipped1 bs w1 of
             None \<Rightarrow> None
           | Some ((bs', skipped2), w2) \<Rightarrow> Some ((b' # bs', skipped2), w2)))"

text \<open>What a synchronisation has computed when it takes the lock to write.\<close>

record sync_result =
  sy_enriched :: "string \<rightharpoonup> Build"
  sy_new :: "Build list"

definition knownRefs :: "Build list \<Rightarrow> string list" where
  "knownRefs builds = filter (\<lambda>r. r \<noteq> '''') (map bd_HistoryRef builds)"

definition syncCollect ::
    "'w BuildEnv \<Rightarrow> string \<Rightarrow> Time \<Rightarrow> string \<Rightarrow> Row list \<Rightarrow> BuildCore \<Rightarrow> 'w \<Rightarrow> ((sync_result \<times> BuildCore) \<times> 'w) option" where
  "syncCollect env goarch now socket rows c w =
     (case refresh_loop env socket (RowByHistoryID rows) (\<lambda>_. None) (bc_Skip c) (filter (\<lambda>b. bd_HistoryRef b \<noteq> '''') (bc_Builds c)) w of
        None \<Rightarrow> None
      | Some ((m, skipped1), w1) \<Rightarrow>
          (case import_loop env socket skipped1 (map (baseBuildFromHistoryRow goarch now) (MergeRows (knownRefs (bc_Builds c)) rows)) w1 of
             None \<Rightarrow> None
           | Some ((bs, skipped2), w2) \<Rightarrow> Some ((\<lparr>sy_enriched = m, sy_new = bs\<rparr>, c\<lparr>bc_Skip := skipped2\<rparr>), w2)))"

fun number_builds :: "int \<Rightarrow> Build list \<Rightarrow> Build list" where
  "number_builds sq [] = []"
| "number_builds sq (b # bs) = b\<lparr>bd_ID := ''history-'' @ show_int (sq + 1)\<rparr> # number_builds (sq + 1) bs"

definition syncWrite :: "host \<Rightarrow> sync_result \<Rightarrow> BuildCore \<Rightarrow> BuildCore" where
  "syncWrite h sy c =
     (let builds = map (\<lambda>b. case sy_enriched sy (bd_ID b) of Some u \<Rightarrow> u | None \<Rightarrow> b) (bc_Builds c);
          changed = list_ex (\<lambda>b. sy_enriched sy (bd_ID b) \<noteq> None) (bc_Builds c) \<or> sy_new sy \<noteq> [];
          c1 = c\<lparr>bc_Builds := number_builds (bc_Seq c) (sy_new sy) @ builds, bc_Seq := bc_Seq c + int (length (sy_new sy))\<rparr>
      in if changed then persisted h c1 else c1)"

definition syncBuildHistory ::
    "'w Runtime \<Rightarrow> 'w BuildEnv \<Rightarrow> (string \<Rightarrow> Row result) \<Rightarrow> host \<Rightarrow> string \<Rightarrow> Time \<Rightarrow> BuildCore \<Rightarrow> 'w \<Rightarrow> (BuildCore \<times> 'w) option" where
  "syncBuildHistory rt env decode h goarch now c w =
     (let socket = rt_DockerSocket rt w in
      if socket = '''' \<or> \<not> be_Stat env socket w then Some (c, w)
      else case rt_Status rt w of
        (Inl _, w1) \<Rightarrow> Some (c, w1)
      | (Inr status, w1) \<Rightarrow>
          if st_State status \<noteq> RuntimeStateRunning then Some (c, w1)
          else case history_List decode (be_buildx env) w1 of
            (Inl _, w2) \<Rightarrow> Some (c, w2)
          | (Inr rows, w2) \<Rightarrow>
              if rows = [] then Some (c, w2)
              else case syncCollect env goarch now socket rows c w2 of
                None \<Rightarrow> None
              | Some ((sy, c1), w3) \<Rightarrow> Some (syncWrite h sy c1, w3))"

section \<open>Well-formed histories\<close>

text \<open>The number at the end of an ID.\<close>

definition id_num :: "string \<Rightarrow> nat" where
  "id_num bid = digits_val (rev (takeWhile is_digit (rev bid)))"

lemma id_num_show: "0 \<le> n \<Longrightarrow> id_num (p @ CHR ''-'' # show_int n) = nat n"
proof -
  assume n: "0 \<le> n"
  have "\<not> is_digit (CHR ''-'')" by (simp add: is_digit_def less_eq_char_def)
  moreover have "list_all is_digit (rev (show_nat (nat n)))" using show_nat_all by simp
  ultimately show ?thesis using n step_digits_scan(1) [of "rev (show_nat (nat n))" "CHR ''-'' # rev p"]
    by (simp add: id_num_def show_int_def)
qed

lemma new_ids [simplified, simp]:
  "0 \<le> n \<Longrightarrow> id_num (''build-'' @ show_int n) = nat n" "0 \<le> n \<Longrightarrow> id_num (''migrated-'' @ show_int n) = nat n"
  "0 \<le> n \<Longrightarrow> id_num (''history-'' @ show_int n) = nat n"
  using id_num_show [of n "''build''"] id_num_show [of n "''migrated''"] id_num_show [of n "''history''"] by simp_all

text \<open>
  A history is well formed when its IDs carry different numbers up to the counter and no entry of the
  buildx history is in it twice.  The condition reads the IDs and history references only.
\<close>

definition lists_ok :: "string list \<Rightarrow> string list \<Rightarrow> int \<Rightarrow> bool" where
  "lists_ok ids refs sq \<longleftrightarrow> 0 \<le> sq \<and> distinct (map id_num ids) \<and> list_all (\<lambda>i. 1 \<le> id_num i \<and> int (id_num i) \<le> sq) ids
     \<and> distinct (filter (\<lambda>r. r \<noteq> '''') refs)"

definition builds_ok :: "Build list \<Rightarrow> int \<Rightarrow> bool" where
  "builds_ok bs sq = lists_ok (map bd_ID bs) (map bd_HistoryRef bs) sq"

definition disk_ok :: "build_dir \<Rightarrow> bool" where
  "disk_ok d \<longleftrightarrow> (\<forall>path f. entry d path = Some (File (Json f)) \<longrightarrow> builds_ok (bf_Builds f) (bf_Seq f) \<and> length (bf_Builds f) \<le> MaxBuilds)"

definition core_ok :: "BuildCore \<Rightarrow> bool" where
  "core_ok c \<longleftrightarrow> builds_ok (bc_Builds c) (bc_Seq c) \<and> length (bc_Builds c) \<le> MaxBuilds \<and> disk_ok (bc_Disk c)"

lemma builds_ok_take: "builds_ok bs sq \<Longrightarrow> builds_ok (take n bs) sq"
proof -
  assume "builds_ok bs sq"
  then have "lists_ok (map bd_ID (take n bs) @ map bd_ID (drop n bs)) (map bd_HistoryRef (take n bs) @ map bd_HistoryRef (drop n bs)) sq"
    unfolding builds_ok_def by (simp flip: map_append)
  then show ?thesis unfolding builds_ok_def lists_ok_def by simp
qed

lemma builds_ok_Nil [simp]: "builds_ok [] 0"
  by (simp add: builds_ok_def lists_ok_def)

lemma disk_okI:
  assumes "disk_ok d" "\<And>k f. entry d' k = Some (File (Json f)) \<Longrightarrow> entry d k = Some (File (Json f)) \<or> (builds_ok (bf_Builds f) (bf_Seq f) \<and> length (bf_Builds f) \<le> MaxBuilds)"
  shows "disk_ok d'"
  using assms unfolding disk_ok_def by blast

lemma WriteFile_entry:
  "WriteFile io d k v = (e, d') \<Longrightarrow> entry d' k' = Some (File (Json f)) \<Longrightarrow> entry d k' = Some (File (Json f)) \<or> f = v"
  by (auto simp: WriteFile_def split: option.splits node.splits if_splits)

lemma Rename_entry:
  "Rename io d old new = (e, d') \<Longrightarrow> entry d' k = Some n \<Longrightarrow> entry d k = Some n \<or> entry d old = Some n"
  by (auto simp: Rename_def split: option.splits if_splits)

lemma trimBuilds_eq: "trimBuilds bs = take MaxBuilds bs"
  by (simp add: trimBuilds_def)

lemma Save_disk_ok:
  assumes "disk_ok d" "builds_ok bs sq" "Save io home d bs sq = (e, d')"
  shows "disk_ok d'"
proof -
  let ?f = "\<lparr>bf_Builds = trimBuilds bs, bf_Seq = sq\<rparr>"
  have new: "builds_ok (bf_Builds ?f) (bf_Seq ?f) \<and> length (bf_Builds ?f) \<le> MaxBuilds"
    using builds_ok_take [OF assms(2)] by (simp add: trimBuilds_eq)
  have wr: "disk_ok d1" if "WriteFile io d k ?f = (e1, d1)" for k e1 d1
    by (rule disk_okI [OF assms(1)]) (use WriteFile_entry [OF that] new in blast)
  have ren: "disk_ok d2" if "disk_ok d1" "Rename io d1 k k' = (e1, d2)" for d1 d2 k k' e1
    by (rule disk_okI [OF that(1)]) (use Rename_entry [OF that(2)] that(1) in \<open>auto simp: disk_ok_def\<close>)
  show ?thesis
    using assms(1,3) by (auto simp: Save_def Let_def split: sum.splits option.splits prod.splits dest: wr intro: ren)
qed

lemma persisted_fields [simp]:
  "bc_Builds (persisted h c) = take MaxBuilds (bc_Builds c)" "bc_Seq (persisted h c) = bc_Seq c" "bc_Skip (persisted h c) = bc_Skip c"
  by (simp_all add: persisted_def persistBuildsLocked_def Let_def split: prod.splits)

lemma persisted_ok: "disk_ok (bc_Disk c) \<Longrightarrow> builds_ok (bc_Builds c) (bc_Seq c) \<Longrightarrow> core_ok (persisted h c)"
  using Save_disk_ok builds_ok_take [of "bc_Builds c" "bc_Seq c" MaxBuilds]
  by (auto simp: core_ok_def persisted_def persistBuildsLocked_def Let_def split: prod.splits)

lemma restart_ok: "disk_ok (bc_Disk c) \<Longrightarrow> core_ok (restart h c)"
  by (auto simp: restart_def loadBuilds_def Load_def core_ok_def disk_ok_def
      split: prod.splits sum.splits read_error.splits payload.splits dest!: ReadFile_Inr elim!: Unmarshal.elims)

section \<open>Operations keep histories well formed\<close>

lemma upd_build_map: "(\<And>b. g (f b) = g b) \<Longrightarrow> map g (upd_build bid f bs) = map g bs"
  by (induction bs) auto

lemma upd_build_found:
  "find (\<lambda>b. bd_ID b = bid) bs = Some candidate \<Longrightarrow> g merged = g candidate \<Longrightarrow> map g (upd_build bid (\<lambda>_. merged) bs) = map g bs"
  by (induction bs) (auto split: if_splits)

lemma builds_ok_cong:
  "map bd_ID bs = map bd_ID bs' \<Longrightarrow> map bd_HistoryRef bs = map bd_HistoryRef bs' \<Longrightarrow> builds_ok bs sq = builds_ok bs' sq"
  by (simp add: builds_ok_def)

lemma builds_ok_new:
  assumes "builds_ok bs sq" "id_num (bd_ID b) = nat (sq + 1)" "bd_HistoryRef b = ''''"
  shows "builds_ok (b # bs) (sq + 1)"
proof -
  have ok: "0 \<le> sq" "distinct (map id_num (map bd_ID bs))" "\<forall>i \<in> set (map bd_ID bs). 1 \<le> id_num i \<and> int (id_num i) \<le> sq"
    "distinct (filter (\<lambda>r. r \<noteq> '''') (map bd_HistoryRef bs))"
    using assms(1) by (auto simp: builds_ok_def lists_ok_def list_all_iff)
  have "nat (sq + 1) \<notin> id_num ` set (map bd_ID bs)" using ok(1,3) by fastforce
  with ok assms(2,3) show ?thesis by (fastforce simp: builds_ok_def lists_ok_def list_all_iff)
qed

lemma number_refs [simp]: "map bd_HistoryRef (number_builds sq bs) = map bd_HistoryRef bs"
  by (induction sq bs rule: number_builds.induct) auto

lemma number_length [simp]: "length (number_builds sq bs) = length bs"
  by (induction sq bs rule: number_builds.induct) auto

lemma number_ids: "0 \<le> sq \<Longrightarrow> map (\<lambda>b. int (id_num (bd_ID b))) (number_builds sq bs) = [sq + 1 .. sq + int (length bs)]"
proof (induction sq bs rule: number_builds.induct)
  case (2 sq b bs)
  then show ?case by (simp add: upto_rec1 [of "sq + 1"] add.assoc)
qed simp

lemma builds_ok_imported:
  assumes "builds_ok bs sq" "distinct (map bd_HistoryRef new)" "'''' \<notin> set (map bd_HistoryRef new)"
    "set (map bd_HistoryRef new) \<inter> set (map bd_HistoryRef bs) = {}"
  shows "builds_ok (number_builds sq new @ bs) (sq + int (length new))"
proof -
  have ok: "0 \<le> sq" "distinct (map id_num (map bd_ID bs))" "\<forall>i \<in> set (map bd_ID bs). 1 \<le> id_num i \<and> int (id_num i) \<le> sq"
    "distinct (filter (\<lambda>r. r \<noteq> '''') (map bd_HistoryRef bs))"
    using assms(1) by (auto simp: builds_ok_def lists_ok_def list_all_iff)
  let ?n = "map (\<lambda>b. id_num (bd_ID b)) (number_builds sq new)"
  have n: "map int ?n = [sq + 1 .. sq + int (length new)]" using number_ids [OF ok(1)] by (simp add: comp_def)
  then have d: "distinct ?n" by (metis distinct_map distinct_upto)
  have r: "sq + 1 \<le> int i \<and> int i \<le> sq + int (length new)" if "i \<in> set ?n" for i
  proof -
    have "int i \<in> int ` set ?n" using that by (rule imageI)
    then have "int i \<in> set (map int ?n)" by (simp only: set_map)
    then show ?thesis unfolding n by simp
  qed
  have dis: "set ?n \<inter> set (map id_num (map bd_ID bs)) = {}" using r ok(3) by fastforce
  have "list_all (\<lambda>i. 1 \<le> id_num i \<and> int (id_num i) \<le> sq + int (length new)) (map bd_ID (number_builds sq new @ bs))"
    using r ok(1,3) by (fastforce simp: list_all_iff)
  moreover have "distinct (map id_num (map bd_ID (number_builds sq new @ bs)))" using d dis ok(2) by (simp add: comp_def)
  moreover have "filter (\<lambda>r. r \<noteq> '''') (map bd_HistoryRef new) = map bd_HistoryRef new"
    using assms(3) by (intro filter_True) (metis)
  then have "distinct (filter (\<lambda>r. r \<noteq> '''') (map bd_HistoryRef (number_builds sq new @ bs)))"
    using assms(2,4) ok(4) by auto
  ultimately show ?thesis using ok(1) unfolding builds_ok_def lists_ok_def by simp
qed

text \<open>What every operation but the import does to the list: builds keep their ID and reference, and new ones have new numbers.\<close>

definition keeps :: "BuildCore \<Rightarrow> BuildCore \<Rightarrow> bool" where
  "keeps c c' \<longleftrightarrow> bc_Seq c \<le> bc_Seq c' \<and>
     (\<forall>b' \<in> set (bc_Builds c'). (\<exists>b \<in> set (bc_Builds c). bd_ID b = bd_ID b' \<and> bd_HistoryRef b = bd_HistoryRef b')
        \<or> int (id_num (bd_ID b')) > bc_Seq c \<and> bd_HistoryRef b' = '''')"

lemma keeps_refl [simp]: "keeps c c" "keeps c (c\<lparr>bc_Skip := s\<rparr>)"
  by (auto simp: keeps_def)

lemma updated_ok:
  assumes "core_ok c" "map bd_ID bs = map bd_ID (bc_Builds c)" "map bd_HistoryRef bs = map bd_HistoryRef (bc_Builds c)"
  shows "core_ok (persisted h (c\<lparr>bc_Builds := bs\<rparr>)) \<and> keeps c (persisted h (c\<lparr>bc_Builds := bs\<rparr>))"
proof
  show "core_ok (persisted h (c\<lparr>bc_Builds := bs\<rparr>))"
    using assms builds_ok_cong [OF assms(2,3)] by (intro persisted_ok) (auto simp: core_ok_def)
  have "\<exists>b \<in> set (bc_Builds c). bd_ID b = bd_ID b' \<and> bd_HistoryRef b = bd_HistoryRef b'" if b': "b' \<in> set bs" for b'
  proof -
    obtain i where i: "i < length bs" "b' = bs ! i" using b' by (auto simp: in_set_conv_nth)
    have len: "length bs = length (bc_Builds c)" using arg_cong [OF assms(2), of length] by simp
    then have "bd_ID (bc_Builds c ! i) = bd_ID b'" "bd_HistoryRef (bc_Builds c ! i) = bd_HistoryRef b'"
      using arg_cong [OF assms(2), of "\<lambda>xs. xs ! i"] arg_cong [OF assms(3), of "\<lambda>xs. xs ! i"] i by simp_all
    then show ?thesis using i len nth_mem [of i "bc_Builds c"] by auto
  qed
  then show "keeps c (persisted h (c\<lparr>bc_Builds := bs\<rparr>))" by (auto simp: keeps_def dest: in_set_takeD)
qed

lemma added_ok:
  assumes "core_ok c" "id_num (bd_ID b) = nat (bc_Seq c + 1)" "bd_HistoryRef b = ''''"
  shows "core_ok (persisted h (c\<lparr>bc_Seq := bc_Seq c + 1, bc_Builds := b # bc_Builds c\<rparr>))
    \<and> keeps c (persisted h (c\<lparr>bc_Seq := bc_Seq c + 1, bc_Builds := b # bc_Builds c\<rparr>))"
proof
  let ?c = "c\<lparr>bc_Seq := bc_Seq c + 1, bc_Builds := b # bc_Builds c\<rparr>"
  have ok: "builds_ok (bc_Builds c) (bc_Seq c)" "disk_ok (bc_Disk c)" "0 \<le> bc_Seq c"
    using assms(1) by (auto simp: core_ok_def builds_ok_def lists_ok_def)
  show "core_ok (persisted h ?c)" using builds_ok_new [OF ok(1) assms(2,3)] ok(2) by (intro persisted_ok) simp_all
  show "keeps c (persisted h ?c)" unfolding keeps_def
  proof (intro conjI ballI)
    fix b' assume "b' \<in> set (bc_Builds (persisted h ?c))"
    then have "b' = b \<or> b' \<in> set (bc_Builds c)" by (auto dest: in_set_takeD)
    then show "(\<exists>b \<in> set (bc_Builds c). bd_ID b = bd_ID b' \<and> bd_HistoryRef b = bd_HistoryRef b') \<or> int (id_num (bd_ID b')) > bc_Seq c \<and> bd_HistoryRef b' = []"
      using assms(2,3) ok(3) by auto
  qed simp
qed

lemma enrichment_same: "same_build current (applyBuildEnrichment resolvable current enriched)"
  by (simp add: applyBuildEnrichment_def)

lemma historyRow_same: "bd_ID (applyHistoryRow b row) = bd_ID b" "bd_HistoryRef (applyHistoryRow b row) = bd_HistoryRef b"
  by (simp_all add: applyHistoryRow_def Let_def)

lemma NewBuild_ok: "core_ok c \<Longrightarrow> core_ok (snd (NewBuild h now cp tag df pf st c)) \<and> keeps c (snd (NewBuild h now cp tag df pf st c))"
  unfolding NewBuild_def Let_def snd_conv
  by (rule added_ok) (auto simp: core_ok_def builds_ok_def lists_ok_def emptyBuild_def)

lemma AddMigratedBuild_ok: "core_ok c \<Longrightarrow> bd_HistoryRef b = '''' \<Longrightarrow> core_ok (AddMigratedBuild h b c) \<and> keeps c (AddMigratedBuild h b c)"
  unfolding AddMigratedBuild_def Let_def by (rule added_ok) (auto simp: core_ok_def builds_ok_def lists_ok_def)

lemma finished_same: "bd_ID (finishedBuild r e x f d g b) = bd_ID b" "bd_HistoryRef (finishedBuild r e x f d g b) = bd_HistoryRef b"
  by (auto simp: finishedBuild_def Let_def split: option.splits)

lemma finishJob_ok: "core_ok c \<Longrightarrow> core_ok (finishJob h bid r e x f d g c) \<and> keeps c (finishJob h bid r e x f d g c)"
  using updated_ok by (auto simp: finishJob_def upd_build_map finished_same)

lemma UpdateBuildSourcePaths_ok:
  "core_ok c \<Longrightarrow> core_ok (UpdateBuildSourcePaths h bid cp df c) \<and> keeps c (UpdateBuildSourcePaths h bid cp df c)"
  using updated_ok by (auto simp: UpdateBuildSourcePaths_def upd_build_map)

lemma mergeEnriched_ok:
  assumes "core_ok c" "mergeEnriched env h bid enriched c w = (b, c')"
  shows "core_ok c' \<and> keeps c c'"
proof (cases "GetBuild bid c")
  case (Some candidate)
  define merged where "merged = applyBuildEnrichment (IsResolvableBuildContext env (bd_Context candidate) w) candidate enriched"
  have same: "bd_ID merged = bd_ID candidate" "bd_HistoryRef merged = bd_HistoryRef candidate"
    using enrichment_same unfolding merged_def same_build_def by metis+
  have "map bd_ID (upd_build bid (\<lambda>_. merged) (bc_Builds c)) = map bd_ID (bc_Builds c)"
    "map bd_HistoryRef (upd_build bid (\<lambda>_. merged) (bc_Builds c)) = map bd_HistoryRef (bc_Builds c)"
    using Some same by (auto simp: GetBuild_def intro!: upd_build_found)
  from updated_ok [OF assms(1) this, of h] show ?thesis
    using assms Some by (auto simp: mergeEnriched_def merged_def [symmetric] Let_def split: if_splits)
qed (use assms in \<open>simp add: mergeEnriched_def\<close>)

section \<open>What an import collects\<close>

lemma MergeRows_new:
  "distinct (map HistoryID (MergeRows existing rows)) \<and> '''' \<notin> set (map HistoryID (MergeRows existing rows))
   \<and> set (map HistoryID (MergeRows existing rows)) \<inter> set existing = {}
   \<and> set (map HistoryID rows) \<subseteq> insert '''' (set existing \<union> set (map HistoryID (MergeRows existing rows)))"
proof (induction existing rows rule: MergeRows.induct)
  case (2 existing row rows)
  show ?case
  proof (cases "HistoryID row = '''' \<or> HistoryID row \<in> set existing")
    case True
    then show ?thesis using 2 by (auto simp: Let_def)
  next
    case False
    then show ?thesis using 2(2) [OF refl False] by (auto simp: Let_def)
  qed
qed simp

lemma refresh_map:
  assumes "refresh_loop env socket idx m s bs w = Some ((m', s'), w')" "m' bid = Some u"
  shows "m bid = Some u \<or> (\<exists>b. b \<in> set bs \<and> bd_ID b = bid \<and> bd_ID u = bid \<and> bd_HistoryRef u = bd_HistoryRef b)"
  using assms
proof (induction env socket idx m s bs w rule: refresh_loop.induct)
  case (2 env socket idx m s b bs w)
  show ?case
  proof (cases "idx (bd_HistoryRef b)")
    case None
    then show ?thesis using 2 by auto
  next
    case (Some row)
    then obtain x s1 w1 where e: "enrichHistoryBuild env socket s (applyHistoryRow b row) w = Some ((x, s1), w1)"
      and r: "refresh_loop env socket idx (if buildsEqual x b then m else m(bd_ID b \<mapsto> x)) s1 bs w1 = Some ((m', s'), w')"
      using 2(3) by (auto split: option.splits)
    have "bd_ID x = bd_ID b" "bd_HistoryRef x = bd_HistoryRef b"
      using enrichHistoryBuild_same [OF e] by (simp_all add: same_build_def historyRow_same)
    then show ?thesis using 2(2) [OF Some e refl refl r 2(4)] by (auto split: if_splits)
  qed
qed simp

lemma import_refs:
  "import_loop env socket s bs w = Some ((bs', s'), w') \<Longrightarrow> map bd_HistoryRef bs' = map bd_HistoryRef bs"
proof (induction bs arbitrary: s w bs' s' w')
  case (Cons b bs)
  then obtain b1 s1 w1 r where e: "enrichHistoryBuild env socket s b w = Some ((b1, s1), w1)"
    and r: "import_loop env socket s1 bs w1 = Some r" by (auto split: option.splits)
  obtain bs2 s2 w2 where r2: "r = ((bs2, s2), w2)" by (metis surj_pair)
  have "bs' = b1 # bs2" using Cons.prems e r r2 by simp
  moreover have "map bd_HistoryRef bs2 = map bd_HistoryRef bs" using r unfolding r2 by (rule Cons.IH)
  ultimately show ?case using enrichHistoryBuild_same [OF e] by (simp add: same_build_def)
qed simp

text \<open>What has been collected still fits the list when it is written, whatever was done to the list meanwhile.\<close>

definition pend_ok :: "BuildCore \<Rightarrow> sync_result \<Rightarrow> bool" where
  "pend_ok c sy \<longleftrightarrow>
     (\<forall>bid u. sy_enriched sy bid = Some u \<longrightarrow> bd_ID u = bid \<and> bd_HistoryRef u \<noteq> '''' \<and> int (id_num bid) \<le> bc_Seq c
        \<and> (\<forall>b \<in> set (bc_Builds c). bd_ID b = bid \<longrightarrow> bd_HistoryRef b = bd_HistoryRef u))
     \<and> distinct (map bd_HistoryRef (sy_new sy)) \<and> '''' \<notin> set (map bd_HistoryRef (sy_new sy))
     \<and> set (map bd_HistoryRef (sy_new sy)) \<inter> set (map bd_HistoryRef (bc_Builds c)) = {}"

lemma same_id: "builds_ok bs sq \<Longrightarrow> b \<in> set bs \<Longrightarrow> b' \<in> set bs \<Longrightarrow> bd_ID b = bd_ID b' \<Longrightarrow> b = b'"
  by (auto simp: builds_ok_def lists_ok_def distinct_map inj_on_def)

lemma collect_ok:
  assumes "core_ok c" "syncCollect env goarch now socket rows c w = Some ((sy, c'), w')"
  shows "pend_ok c' sy \<and> core_ok c' \<and> keeps c c'"
proof -
  obtain m s1 w1 bs s2 where m: "refresh_loop env socket (RowByHistoryID rows) (\<lambda>_. None) (bc_Skip c) (filter (\<lambda>b. bd_HistoryRef b \<noteq> '''') (bc_Builds c)) w = Some ((m, s1), w1)"
    and i: "import_loop env socket s1 (map (baseBuildFromHistoryRow goarch now) (MergeRows (knownRefs (bc_Builds c)) rows)) w1 = Some ((bs, s2), w')"
    and c': "sy = \<lparr>sy_enriched = m, sy_new = bs\<rparr>" "c' = c\<lparr>bc_Skip := s2\<rparr>"
    using assms(2) unfolding syncCollect_def by (auto split: option.splits)
  have ok: "builds_ok (bc_Builds c) (bc_Seq c)" using assms(1) by (simp add: core_ok_def)
  have refs: "map bd_HistoryRef bs = map HistoryID (MergeRows (knownRefs (bc_Builds c)) rows)"
    using import_refs [OF i] by (simp add: baseBuildFromHistoryRow_def comp_def)
  have "bd_ID u = bid \<and> bd_HistoryRef u \<noteq> '''' \<and> int (id_num bid) \<le> bc_Seq c
        \<and> (\<forall>b \<in> set (bc_Builds c). bd_ID b = bid \<longrightarrow> bd_HistoryRef b = bd_HistoryRef u)" if mu: "m bid = Some u" for bid u
  proof -
    obtain b where "b \<in> set (bc_Builds c)" "bd_HistoryRef b \<noteq> ''''" "bd_ID b = bid" "bd_ID u = bid" "bd_HistoryRef u = bd_HistoryRef b"
      using refresh_map [OF m mu] by auto
    then show ?thesis using same_id [OF ok] ok by (auto simp: builds_ok_def lists_ok_def list_all_iff)
  qed
  moreover have "set (map bd_HistoryRef bs) \<inter> set (map bd_HistoryRef (bc_Builds c)) = {}"
  proof -
    have k: "set (knownRefs (bc_Builds c)) = set (map bd_HistoryRef (bc_Builds c)) - {[]}" by (auto simp: knownRefs_def)
    have "set (map bd_HistoryRef bs) \<inter> set (knownRefs (bc_Builds c)) = {}" "[] \<notin> set (map bd_HistoryRef bs)"
      using MergeRows_new [of "knownRefs (bc_Builds c)" rows] unfolding refs by blast+
    then show ?thesis unfolding k by blast
  qed
  ultimately have "pend_ok c' sy" using MergeRows_new [of "knownRefs (bc_Builds c)" rows]
    unfolding pend_ok_def c' by (simp add: refs)
  then show ?thesis using assms(1) c' by (simp add: core_ok_def)
qed

lemma pend_keeps:
  assumes p: "pend_ok c sy" and k: "keeps c c'"
  shows "pend_ok c' sy"
proof -
  have sq: "bc_Seq c \<le> bc_Seq c'" using k by (simp add: keeps_def)
  have e: "bd_ID u = bid \<and> bd_HistoryRef u \<noteq> [] \<and> int (id_num bid) \<le> bc_Seq c" if "sy_enriched sy bid = Some u" for bid u
    using p that unfolding pend_ok_def by blast
  have "bd_HistoryRef b' = bd_HistoryRef u" if x: "sy_enriched sy bid = Some u" "b' \<in> set (bc_Builds c')" "bd_ID b' = bid" for bid u b'
  proof -
    have "\<not> int (id_num (bd_ID b')) > bc_Seq c" using e [OF x(1)] x(3) by simp
    then obtain b where "b \<in> set (bc_Builds c)" "bd_ID b = bd_ID b'" "bd_HistoryRef b = bd_HistoryRef b'"
      using k x(2) unfolding keeps_def by blast
    then show ?thesis using p x unfolding pend_ok_def by metis
  qed
  moreover have "set (map bd_HistoryRef (bc_Builds c')) \<subseteq> insert [] (set (map bd_HistoryRef (bc_Builds c)))"
  proof
    fix r assume "r \<in> set (map bd_HistoryRef (bc_Builds c'))"
    then obtain b' where b': "b' \<in> set (bc_Builds c')" "r = bd_HistoryRef b'" by auto
    then have "(\<exists>b \<in> set (bc_Builds c). bd_HistoryRef b = bd_HistoryRef b') \<or> bd_HistoryRef b' = []" using k unfolding keeps_def by blast
    then show "r \<in> insert [] (set (map bd_HistoryRef (bc_Builds c)))" unfolding b'(2) by (auto intro: rev_image_eqI)
  qed
  ultimately show ?thesis using p e sq order_trans [OF _ sq] unfolding pend_ok_def by (intro conjI allI impI ballI) blast+
qed

lemma syncWrite_ok:
  assumes "core_ok c" "pend_ok c sy"
  shows "core_ok (syncWrite h sy c)"
proof -
  define bs where "bs = map (\<lambda>b. case sy_enriched sy (bd_ID b) of Some u \<Rightarrow> u | None \<Rightarrow> b) (bc_Builds c)"
  have ids: "map bd_ID bs = map bd_ID (bc_Builds c)" and refs: "map bd_HistoryRef bs = map bd_HistoryRef (bc_Builds c)"
    using assms(2) by (auto simp: bs_def pend_ok_def split: option.splits)
  have "builds_ok bs (bc_Seq c)" using assms(1) builds_ok_cong [OF ids refs] by (simp add: core_ok_def)
  then have new: "builds_ok (number_builds (bc_Seq c) (sy_new sy) @ bs) (bc_Seq c + int (length (sy_new sy)))"
    using assms(2) refs by (intro builds_ok_imported) (auto simp: pend_ok_def)
  show ?thesis
  proof (cases "list_ex (\<lambda>b. sy_enriched sy (bd_ID b) \<noteq> None) (bc_Builds c) \<or> sy_new sy \<noteq> []")
    case True
    then have "syncWrite h sy c = persisted h (c\<lparr>bc_Builds := number_builds (bc_Seq c) (sy_new sy) @ bs, bc_Seq := bc_Seq c + int (length (sy_new sy))\<rparr>)"
      unfolding syncWrite_def Let_def bs_def by simp
    moreover have "core_ok (persisted h (c\<lparr>bc_Builds := number_builds (bc_Seq c) (sy_new sy) @ bs, bc_Seq := bc_Seq c + int (length (sy_new sy))\<rparr>))"
      using new assms(1) by (intro persisted_ok) (simp_all add: core_ok_def)
    ultimately show ?thesis by simp
  next
    case False
    then show ?thesis using new assms(1) ids by (auto simp: syncWrite_def Let_def bs_def [symmetric] core_ok_def dest!: arg_cong [of _ _ length])
  qed
qed

section \<open>The history as a state machine\<close>

text \<open>
  A state: the core, the IDs of the builds whose job runs, and what a synchronisation has collected and
  not yet written.  Any operation may come between the two halves of a synchronisation.
  Purging and the factory reset, which empty the list, are not among the steps; they are in \<open>Calf_Troubleshoot\<close>.
\<close>

type_synonym build_state = "BuildCore \<times> string list \<times> sync_result option"

inductive bstep :: "'w BuildEnv \<Rightarrow> build_state \<Rightarrow> build_state \<Rightarrow> bool" for env where
  b_new: "NewBuild h now cp tag df pf ''running'' c = (b, c') \<Longrightarrow> bstep env (c, js, p) (c', bd_ID b # js, p)"
| b_finish: "bid \<in> set js \<Longrightarrow> bstep env (c, js, p) (finishJob h bid r e x f d g c, remove1 bid js, p)"
| b_migrate: "bd_HistoryRef b = '''' \<Longrightarrow> bstep env (c, js, p) (AddMigratedBuild h b c, js, p)"
| b_source: "bstep env (c, js, p) (UpdateBuildSourcePaths h bid cp df c, js, p)"
| b_merge: "mergeEnriched env h bid enriched c w = (b, c') \<Longrightarrow> bstep env (c, js, p) (c', js, p)"
| b_skip: "bstep env (c, js, p) (c\<lparr>bc_Skip := s\<rparr>, js, p)"
| b_collect: "syncCollect env goarch now socket rows c w = Some ((sy, c'), w') \<Longrightarrow> bstep env (c, js, None) (c', js, Some sy)"
| b_write: "bstep env (c, js, Some sy) (syncWrite h sy c, js, None)"

inductive breachable :: "'w BuildEnv \<Rightarrow> build_state \<Rightarrow> bool" for env where
  br_init: "disk_ok (bc_Disk c) \<Longrightarrow> breachable env (restart h c, [], None)"
| br_restart: "breachable env (c, js, p) \<Longrightarrow> breachable env (restart h c, [], None)"
| br_step: "breachable env s \<Longrightarrow> bstep env s s' \<Longrightarrow> breachable env s'"

definition state_ok :: "build_state \<Rightarrow> bool" where
  "state_ok = (\<lambda>(c, js, p). core_ok c \<and> (case p of None \<Rightarrow> True | Some sy \<Rightarrow> pend_ok c sy))"

lemma state_ok_kept:
  "state_ok (c, js, p) \<Longrightarrow> core_ok c' \<and> keeps c c' \<Longrightarrow> state_ok (c', js', p)"
  by (auto simp: state_ok_def intro: pend_keeps split: option.splits)

lemma state_okD: "state_ok (c, js, p) \<Longrightarrow> core_ok c"
  by (simp add: state_ok_def)

lemma bstep_ok: "bstep env s s' \<Longrightarrow> state_ok s \<Longrightarrow> state_ok s'"
proof (induction rule: bstep.induct)
  case (b_new h now cp tag df pf c b c' js p)
  then show ?case using NewBuild_ok [OF state_okD, of c js p h now cp tag df pf "''running''"] state_ok_kept by fastforce
next
  case (b_finish bid js c p h r e x f d g)
  then show ?case using finishJob_ok [OF state_okD] state_ok_kept by blast
next
  case (b_migrate b c js p h)
  then show ?case using AddMigratedBuild_ok [OF state_okD] state_ok_kept by blast
next
  case (b_source c js p h bid cp df)
  then show ?case using UpdateBuildSourcePaths_ok [OF state_okD] state_ok_kept by blast
next
  case (b_merge h bid enriched c w b c' js p)
  then show ?case using mergeEnriched_ok [OF state_okD [OF b_merge(2)] b_merge(1)] state_ok_kept [OF b_merge(2)] by blast
next
  case (b_skip c js p s)
  then show ?case using state_ok_kept [of c js p "c\<lparr>bc_Skip := s\<rparr>"] by (simp add: state_ok_def core_ok_def)
next
  case (b_collect goarch now socket rows c w sy c' w' js)
  then show ?case using collect_ok [OF state_okD [OF b_collect(2)] b_collect(1)] by (simp add: state_ok_def)
next
  case (b_write c js sy h)
  then show ?case using syncWrite_ok by (simp add: state_ok_def)
qed

lemma breachable_ok: "breachable env s \<Longrightarrow> state_ok s"
proof (induction rule: breachable.induct)
  case (br_init c h)
  then show ?case using restart_ok by (simp add: state_ok_def)
next
  case (br_restart c js p h)
  then show ?case using restart_ok [of c h] by (simp add: state_ok_def core_ok_def)
next
  case (br_step s s')
  then show ?case by (blast intro: bstep_ok)
qed

section \<open>Properties\<close>

text \<open>
  C8: However builds are started, finished, migrated, imported and saved, with any file failing at any time
  and across restarts: no two builds in the list have the same ID, none has a number above the counter,
  there are 200 at most, and no entry of the buildx history is listed twice.
\<close>

theorem builds_well_formed:
  assumes "breachable env (c, js, p)"
  shows "distinct (map bd_ID (bc_Builds c)) \<and> length (bc_Builds c) \<le> 200 \<and> distinct (knownRefs (bc_Builds c))
    \<and> (b \<in> set (bc_Builds c) \<longrightarrow> 1 \<le> id_num (bd_ID b) \<and> int (id_num (bd_ID b)) \<le> bc_Seq c)"
proof -
  have "core_ok c" using breachable_ok [OF assms] by (simp add: state_ok_def)
  then have ok: "distinct (map id_num (map bd_ID (bc_Builds c)))" "length (bc_Builds c) \<le> 200" "distinct (knownRefs (bc_Builds c))"
    "\<forall>i \<in> set (map bd_ID (bc_Builds c)). 1 \<le> id_num i \<and> int (id_num i) \<le> bc_Seq c"
    by (auto simp: core_ok_def builds_ok_def lists_ok_def knownRefs_def MaxBuilds_def list_all_iff)
  from ok(1) have "distinct (map bd_ID (bc_Builds c))" unfolding distinct_map [of id_num] by blast
  with ok show ?thesis by auto
qed

definition home :: "string result" where "home = Inr ''/h''"

definition buildsPath :: string where "buildsPath = ''/h/.config/calf/builds.json''"

definition orphan :: Build where
  "orphan = emptyBuild\<lparr>bd_ID := ''build-1'', bd_Tag := ''app'', bd_Status := ''running''\<rparr>"

definition orphan_core :: BuildCore where
  "orphan_core = \<lparr>bc_Builds = [], bc_Seq = 0, bc_Skip = [], bc_Disk = [(buildsPath, File (Json \<lparr>bf_Builds = [orphan], bf_Seq = 1\<rparr>))]\<rparr>"

definition fresh_core :: BuildCore where
  "fresh_core = \<lparr>bc_Builds = [], bc_Seq = 0, bc_Skip = [], bc_Disk = []\<rparr>"

lemma buildsPath_home: "BuildsFilePath home = Inr buildsPath"
  by code_simp

lemma orphan_loaded: "restart (no_faults, home) orphan_core = orphan_core\<lparr>bc_Builds := [orphan], bc_Seq := 1\<rparr>"
  by (simp add: restart_def loadBuilds_def Load_def buildsPath_home orphan_core_def entry_def)

lemma orphan_disk_ok: "disk_ok (bc_Disk orphan_core)"
proof -
  have "id_num ''build-1'' = 1" by code_simp
  then show ?thesis by (auto simp: disk_ok_def orphan_core_def entry_def builds_ok_def lists_ok_def orphan_def emptyBuild_def MaxBuilds_def)
qed

text \<open>An environment in which every program fails.\<close>

definition dead_env :: "unit BuildEnv" where
  "dead_env = \<lparr>be_Stat = (\<lambda>_ _. False), be_ReadFile = (\<lambda>_ _. Inl (Errorf ''gone'')), be_git = (\<lambda>_ w. (Inl (Errorf ''gone''), w)),
     be_docker = (\<lambda>_ w. (Inl (Errorf ''gone''), w)), be_buildx = (\<lambda>_ w. (Inl (Errorf ''gone''), w)), be_images = (\<lambda>_. Inl (Errorf ''gone'')),
     be_object = (\<lambda>_. Inl (Errorf ''gone'')), be_manifest = (\<lambda>_. Inl (Errorf ''gone'')), be_sha256 = (\<lambda>_. '''')\<rparr>"

theorem builds_well_formed_witness:
  "breachable dead_env (orphan_core\<lparr>bc_Builds := [orphan], bc_Seq := 1\<rparr>, [], None) \<and> int (id_num (bd_ID orphan)) \<le> 1"
proof -
  have "breachable dead_env (orphan_core\<lparr>bc_Builds := [orphan], bc_Seq := 1\<rparr>, [], None)"
    using br_init [OF orphan_disk_ok, of dead_env "(no_faults, home)"] by (simp add: orphan_loaded)
  then show ?thesis using builds_well_formed [of dead_env "orphan_core\<lparr>bc_Builds := [orphan], bc_Seq := 1\<rparr>" "[]" None orphan] by simp
qed

lemma Save_effect:
  assumes "Save io hm d bs sq = (err, d')" "BuildsFilePath hm = Inr path"
  shows "entry d' path = (if err = None then Some (File (Json \<lparr>bf_Builds = take MaxBuilds bs, bf_Seq = sq\<rparr>)) else entry d path)"
proof -
  let ?f = "\<lparr>bf_Builds = take MaxBuilds bs, bf_Seq = sq\<rparr>" and ?tmp = "path @ ''.tmp''"
  show ?thesis
  proof (cases "io OpMkdir path")
    case (Some f)
    then show ?thesis using assms by (auto simp: Save_def)
  next
    case None
    obtain e1 d1 where w: "WriteFile io d ?tmp ?f = (e1, d1)" by fastforce
    have same: "entry d1 path = entry d path" using WriteFile_other [OF w] by simp
    show ?thesis
    proof (cases e1)
      case (Some e)
      then show ?thesis using assms None w same by (auto simp: Save_def Let_def trimBuilds_eq)
    next
      case e1: None
      then have r: "Rename io d1 ?tmp path = (err, d')" using assms None w by (simp add: Save_def Let_def trimBuilds_eq)
      have t: "entry d1 ?tmp = Some (File (Json ?f))" using WriteFile_ok w e1 by fastforce
      show ?thesis using r same t Rename_ok [of io d1 ?tmp path d'] Rename_error [of io d1 ?tmp path _ d'] by (cases err) auto
    qed
  qed
qed

text \<open>
  C9: Saving is atomic: after a successful save a new process loads exactly the list and the counter that are
  in memory, and after one that failed at any point it loads what it would have loaded before.
\<close>

theorem save_is_atomic:
  assumes "persistBuildsLocked (io, hm) c = (err, c')" "BuildsFilePath hm = Inr path" "io' OpRead path = None"
  shows "(err = None \<longrightarrow> Load io' hm (bc_Disk c') = Inr \<lparr>bf_Builds = bc_Builds c', bf_Seq = bc_Seq c'\<rparr>)
    \<and> (err \<noteq> None \<longrightarrow> Load io' hm (bc_Disk c') = Load io' hm (bc_Disk c))"
proof -
  obtain d' where s: "Save io hm (bc_Disk c) (bc_Builds c) (bc_Seq c) = (err, d')"
    and c': "bc_Disk c' = d'" "bc_Builds c' = take MaxBuilds (bc_Builds c)" "bc_Seq c' = bc_Seq c"
    using assms(1) by (auto simp: persistBuildsLocked_def Let_def split: prod.splits)
  have e: "entry d' path = (if err = None then Some (File (Json \<lparr>bf_Builds = bc_Builds c', bf_Seq = bc_Seq c'\<rparr>)) else entry (bc_Disk c) path)"
    using Save_effect [OF s assms(2)] c' by simp
  show ?thesis
  proof (cases "err = None")
    case True
    then have "ReadFile io' d' path = Inr (Json \<lparr>bf_Builds = bc_Builds c', bf_Seq = bc_Seq c'\<rparr>)" using e assms(3) by (simp add: ReadFile_def)
    then show ?thesis using True assms(2) c'(1) by (simp add: Load_def)
  next
    case False
    then have "ReadFile io' d' path = ReadFile io' (bc_Disk c) path" using e False by (intro ReadFile_cong) (simp split: if_splits)
    then have "Load io' hm (bc_Disk c') = Load io' hm (bc_Disk c)" using assms(2) c'(1) by (simp add: Load_def)
    with False show ?thesis by blast
  qed
qed

theorem save_is_atomic_witness:
  "Load no_faults home (bc_Disk (snd (persistBuildsLocked (no_faults, home) (fresh_core\<lparr>bc_Builds := [orphan], bc_Seq := 1\<rparr>))))
     = Inr \<lparr>bf_Builds = [orphan], bf_Seq = 1\<rparr>"
proof -
  let ?c = "fresh_core\<lparr>bc_Builds := [orphan], bc_Seq := 1\<rparr>"
  have e: "fst (persistBuildsLocked (no_faults, home) ?c) = None"
    by (simp add: persistBuildsLocked_def Save_def buildsPath_home no_faults_def WriteFile_def Rename_def fresh_core_def Let_def
        buildsPath_def entry_def MaxBuilds_def)
  have "no_faults OpRead buildsPath = None" by (simp add: no_faults_def)
  moreover obtain c' where "persistBuildsLocked (no_faults, home) ?c = (None, c')" using e by (metis prod.collapse)
  ultimately show ?thesis using save_is_atomic [OF _ buildsPath_home, of no_faults ?c None c' no_faults]
    by (simp add: persistBuildsLocked_def Let_def MaxBuilds_def fresh_core_def split: prod.splits) auto
qed

section \<open>Imports that do not fit\<close>

lemma collected_new:
  assumes "syncCollect env goarch now socket rows c w = Some ((sy, c'), w')"
  shows "map bd_HistoryRef (sy_new sy) = map HistoryID (MergeRows (knownRefs (bc_Builds c)) rows)"
    "bc_Builds c' = bc_Builds c" "bc_Seq c' = bc_Seq c"
proof -
  obtain m s1 w1 bs s2 where i: "import_loop env socket s1 (map (baseBuildFromHistoryRow goarch now) (MergeRows (knownRefs (bc_Builds c)) rows)) w1 = Some ((bs, s2), w')"
    and c': "sy_new sy = bs" "c' = c\<lparr>bc_Skip := s2\<rparr>"
    using assms unfolding syncCollect_def by (auto split: option.splits)
  show "map bd_HistoryRef (sy_new sy) = map HistoryID (MergeRows (knownRefs (bc_Builds c)) rows)"
    using import_refs [OF i] c'(1) by (simp add: baseBuildFromHistoryRow_def comp_def)
  show "bc_Builds c' = bc_Builds c" "bc_Seq c' = bc_Seq c" using c'(2) by simp_all
qed

lemma known_bound: "core_ok c \<Longrightarrow> card (set (knownRefs (bc_Builds c))) \<le> 200"
proof -
  assume "core_ok c"
  then have "length (map bd_HistoryRef (bc_Builds c)) \<le> 200" by (simp add: core_ok_def MaxBuilds_def)
  then have "length (knownRefs (bc_Builds c)) \<le> 200" unfolding knownRefs_def using length_filter_le order_trans by blast
  then show ?thesis using card_length order_trans by blast
qed

lemma written_seq: "bc_Seq (syncWrite h sy c) = bc_Seq c + int (length (sy_new sy))"
  by (simp add: syncWrite_def Let_def)

lemma written_builds:
  "sy_new sy \<noteq> [] \<Longrightarrow> bc_Builds (syncWrite h sy c) =
     take MaxBuilds (number_builds (bc_Seq c) (sy_new sy) @ map (\<lambda>b. case sy_enriched sy (bd_ID b) of Some u \<Rightarrow> u | None \<Rightarrow> b) (bc_Builds c))"
  by (simp add: syncWrite_def Let_def)

text \<open>
  When buildx keeps more than 200 builds, the import never settles: every synchronisation with that
  history imports builds again under new numbers, because the list has dropped them; and when 200 or
  more are imported at once, no build that was made through calf is left in the list.
\<close>

theorem import_never_settles:
  assumes "breachable env (c, js, p)" "200 < card (set (map HistoryID rows) - {''''})"
    and "syncCollect env goarch now socket rows c w = Some ((sy, c1), w1)"
  shows "bc_Seq c < bc_Seq (syncWrite h sy c1)
    \<and> (200 \<le> length (sy_new sy) \<and> b \<in> set (bc_Builds (syncWrite h sy c1)) \<longrightarrow> bd_HistoryRef b \<noteq> '''')"
proof -
  have ok: "core_ok c" using breachable_ok [OF assms(1)] by (simp add: state_ok_def)
  note n = collected_new [OF assms(3)]
  let ?k = "knownRefs (bc_Builds c)"
  have "sy_new sy \<noteq> []"
  proof
    assume "sy_new sy = []"
    then have "MergeRows ?k rows = []" using n(1) by simp
    then have "set (map HistoryID rows) - {[]} \<subseteq> set ?k" using MergeRows_new [of ?k rows] by auto
    then have "card (set (map HistoryID rows) - {[]}) \<le> 200" using known_bound [OF ok] card_mono [of "set ?k"] order_trans by blast
    then show False using assms(2) by simp
  qed
  moreover have "bd_HistoryRef b \<noteq> []" if "200 \<le> length (sy_new sy)" "b \<in> set (bc_Builds (syncWrite h sy c1))"
  proof -
    have "b \<in> set (number_builds (bc_Seq c1) (sy_new sy))"
      using that written_builds [of sy h c1] by (cases "sy_new sy = []") (auto simp: MaxBuilds_def dest: in_set_takeD)
    then have "bd_HistoryRef b \<in> set (map bd_HistoryRef (number_builds (bc_Seq c1) (sy_new sy)))" unfolding set_map by (rule imageI)
    then show ?thesis using n(1) MergeRows_new [of ?k rows] by (metis number_refs)
  qed
  ultimately show ?thesis using n(3) by (simp add: written_seq)
qed

lemma dead_import: "\<exists>r. import_loop dead_env '''' s bs () = Some r"
proof -
  have one: "\<exists>b' s'. enrichHistoryBuild dead_env '''' s b () = Some ((b', s'), ())" for s b
    by (auto simp: enrichHistoryBuild_def EnrichSyncedBuild_def enrich_artifacts_def BuildArtifacts_def listAttachments_def dead_env_def Let_def
        split: prod.splits)
  show ?thesis
  proof (induction bs arbitrary: s)
    case (Cons b bs)
    obtain b' s' where "enrichHistoryBuild dead_env '''' s b () = Some ((b', s'), ())" using one by blast
    moreover obtain bs2 s2 where "import_loop dead_env '''' s' bs () = Some ((bs2, s2), ())" using Cons [of s'] by (metis (full_types) old.unit.exhaust surj_pair)
    ultimately show ?case by simp
  qed simp
qed

definition many_rows :: "Row list" where
  "many_rows = map (\<lambda>n. emptyRow\<lparr>rw_ID := show_nat n\<rparr>) [0..<201]"

lemma many_rows_card: "card (set (map HistoryID many_rows) - {''''}) = 201"
proof -
  have "map HistoryID many_rows = map show_nat [0..<201]" by (simp add: many_rows_def HistoryID_def comp_def)
  moreover have "set (map show_nat [0..<201]) - {''''} = show_nat ` {0..<201}" using show_nat_ne by force
  moreover have "inj_on show_nat {0..<201}" by (auto simp: inj_on_def)
  ultimately show ?thesis using card_image by (metis card_atLeastLessThan diff_zero)
qed

theorem import_never_settles_witness:
  "\<exists>sy c1. syncCollect dead_env ''amd64'' 0 '''' many_rows fresh_core () = Some ((sy, c1), ()) \<and> 0 < bc_Seq (syncWrite (no_faults, home) sy c1)"
proof -
  have "breachable dead_env (restart (no_faults, home) fresh_core, [], None)" by (rule br_init) (simp add: fresh_core_def disk_ok_def)
  moreover have "restart (no_faults, home) fresh_core = fresh_core"
    by (simp add: restart_def loadBuilds_def Load_def buildsPath_home fresh_core_def ReadFile_def no_faults_def)
  ultimately have b: "breachable dead_env (fresh_core, [], None)" by simp
  obtain sy c1 where s: "syncCollect dead_env ''amd64'' 0 '''' many_rows fresh_core () = Some ((sy, c1), ())"
    using dead_import [of "[]" "map (baseBuildFromHistoryRow ''amd64'' 0) (MergeRows (knownRefs (bc_Builds fresh_core)) many_rows)"]
    by (auto simp: syncCollect_def fresh_core_def split: option.splits prod.splits)
  show ?thesis using import_never_settles [OF b _ s] s many_rows_card by (auto simp: fresh_core_def)
qed

section \<open>Builds without a job\<close>

text \<open>A build whose job is gone: nobody will finish it.\<close>

definition abandoned :: "string \<Rightarrow> build_state \<Rightarrow> bool" where
  "abandoned bid = (\<lambda>(c, js, p). state_ok (c, js, p) \<and> bid \<notin> set js \<and> int (id_num bid) \<le> bc_Seq c
     \<and> (\<forall>b \<in> set (bc_Builds c). bd_ID b = bid \<longrightarrow> bd_Status b = ''running'' \<and> bd_HistoryRef b = ''''))"

lemma upd_build_set: "b' \<in> set (upd_build bid f bs) \<Longrightarrow> b' \<in> set bs \<or> (\<exists>b \<in> set bs. bd_ID b = bid \<and> b' = f b)"
  by (induction bs) (auto split: if_splits)

text \<open>It is enough that the builds with this ID come from builds with it that had the same status and reference.\<close>

lemma abandoned_kept:
  assumes "abandoned bid (c, js, p)" "state_ok (c', js', p')" "bid \<notin> set js'" "bc_Seq c \<le> bc_Seq c'"
    and "\<And>b'. b' \<in> set (bc_Builds c') \<Longrightarrow> bd_ID b' = bid \<Longrightarrow>
      \<exists>b \<in> set (bc_Builds c). bd_ID b = bid \<and> bd_Status b' = bd_Status b \<and> bd_HistoryRef b' = bd_HistoryRef b"
  shows "abandoned bid (c', js', p')"
  using assms unfolding abandoned_def by fastforce

lemma abandoned_upd:
  assumes "abandoned bid (c, js, p)" "state_ok (persisted h (c\<lparr>bc_Builds := upd_build i f (bc_Builds c)\<rparr>), js', p)" "bid \<notin> set js'"
    and "\<And>b. b \<in> set (bc_Builds c) \<Longrightarrow> bd_ID b = i \<Longrightarrow> bd_ID (f b) = bid \<Longrightarrow> bd_ID b = bid \<and> bd_Status (f b) = bd_Status b \<and> bd_HistoryRef (f b) = bd_HistoryRef b"
  shows "abandoned bid (persisted h (c\<lparr>bc_Builds := upd_build i f (bc_Builds c)\<rparr>), js', p)"
  by (rule abandoned_kept [OF assms(1-3)]) (auto dest!: in_set_takeD upd_build_set dest: assms(4))

lemma seq_pos: "state_ok (c, js, p) \<Longrightarrow> 0 \<le> bc_Seq c"
  by (auto simp: state_ok_def core_ok_def builds_ok_def lists_ok_def)

lemma abandoned_other: "abandoned bid (c, js, p) \<Longrightarrow> id_num i = nat (bc_Seq c + 1) \<Longrightarrow> i \<noteq> bid"
  using seq_pos [of c js p] by (auto simp: abandoned_def split: if_splits)

lemma abandoned_added:
  assumes "abandoned bid (c, js, p)" "state_ok (persisted h (c\<lparr>bc_Seq := bc_Seq c + 1, bc_Builds := b # bc_Builds c\<rparr>), js', p)"
    "bid \<notin> set js'" "id_num (bd_ID b) = nat (bc_Seq c + 1)"
  shows "abandoned bid (persisted h (c\<lparr>bc_Seq := bc_Seq c + 1, bc_Builds := b # bc_Builds c\<rparr>), js', p)"
proof -
  have "bd_ID b \<noteq> bid" using assms(1,4) by (rule abandoned_other)
  then show ?thesis by (intro abandoned_kept [OF assms(1-3)]) (auto dest!: in_set_takeD)
qed

lemma number_set: "b \<in> set (number_builds sq bs) \<Longrightarrow> 0 \<le> sq \<Longrightarrow> sq < int (id_num (bd_ID b))"
proof -
  assume "b \<in> set (number_builds sq bs)" "0 \<le> sq"
  then have "int (id_num (bd_ID b)) \<in> set [sq + 1 .. sq + int (length bs)]" unfolding number_ids [OF \<open>0 \<le> sq\<close>, symmetric] by simp
  then show ?thesis by simp
qed

lemma abandoned_step: "bstep env s s' \<Longrightarrow> abandoned bid s \<Longrightarrow> abandoned bid s'"
proof (induction rule: bstep.induct)
  case (b_new h now cp tag df pf c b c' js p)
  have ok: "state_ok (c', bd_ID b # js, p)" using bstep_ok [OF bstep.b_new [OF b_new(1)]] b_new(2) by (auto simp: abandoned_def)
  have sq: "0 \<le> bc_Seq c" using b_new(2) seq_pos by (auto simp: abandoned_def)
  have i: "id_num (bd_ID b) = nat (bc_Seq c + 1)" and c': "c' = persisted h (c\<lparr>bc_Seq := bc_Seq c + 1, bc_Builds := b # bc_Builds c\<rparr>)"
    using b_new(1) sq by (auto simp: NewBuild_def Let_def)
  have "bid \<notin> set (bd_ID b # js)" using b_new(2) abandoned_other [OF b_new(2) i] by (auto simp: abandoned_def)
  then show ?case using abandoned_added [OF b_new(2) ok [unfolded c'] _ i] unfolding c' by simp
next
  case (b_finish i js c p h r e x f d g)
  have ok: "state_ok (finishJob h i r e x f d g c, remove1 i js, p)" using bstep_ok [OF bstep.b_finish [OF b_finish(1)]] b_finish(2) by (auto simp: abandoned_def)
  have n: "bid \<notin> set js" "i \<noteq> bid" using b_finish by (auto simp: abandoned_def)
  then have "bid \<notin> set (remove1 i js)" by (auto dest: set_remove1_subset [THEN subsetD])
  with ok b_finish(2) n show ?case
    by (cases "GetBuild i c = None") (auto simp: finishJob_def finished_same intro!: abandoned_upd intro: abandoned_kept)
next
  case (b_migrate b c js p h)
  have ok: "state_ok (AddMigratedBuild h b c, js, p)" using bstep_ok [OF bstep.b_migrate [OF b_migrate(1)]] b_migrate(2) by (auto simp: abandoned_def)
  have "0 \<le> bc_Seq c" "bid \<notin> set js" using b_migrate(2) seq_pos by (auto simp: abandoned_def)
  then show ?case using ok b_migrate(2) unfolding AddMigratedBuild_def Let_def by (intro abandoned_added) auto
next
  case (b_source c js p h i cp df)
  have ok: "state_ok (UpdateBuildSourcePaths h i cp df c, js, p)" using bstep_ok [OF bstep.b_source] b_source by (auto simp: abandoned_def)
  have "bid \<notin> set js" using b_source by (auto simp: abandoned_def)
  with ok b_source show ?case by (auto simp: UpdateBuildSourcePaths_def intro!: abandoned_upd)
next
  case (b_merge h i enriched c w b c' js p)
  have ok: "state_ok (c', js, p)" using bstep_ok [OF bstep.b_merge [OF b_merge(1)]] b_merge(2) by (auto simp: abandoned_def)
  have n: "bid \<notin> set js" using b_merge(2) by (auto simp: abandoned_def)
  show ?case
  proof (cases "c' = c")
    case False
    then obtain candidate where g: "GetBuild i c = Some candidate" using b_merge(1) by (auto simp: mergeEnriched_def split: option.splits)
    define merged where "merged = applyBuildEnrichment (IsResolvableBuildContext env (bd_Context candidate) w) candidate enriched"
    have s: "same_build candidate merged" unfolding merged_def by (rule enrichment_same)
    have c': "c' = persisted h (c\<lparr>bc_Builds := upd_build i (\<lambda>_. merged) (bc_Builds c)\<rparr>)"
      using False b_merge(1) g by (auto simp: mergeEnriched_def merged_def Let_def split: if_splits)
    have "candidate \<in> set (bc_Builds c)" "bd_ID candidate = i" using g by (auto simp: GetBuild_def find_Some_iff)
    moreover have "builds_ok (bc_Builds c) (bc_Seq c)" using b_merge(2) by (auto simp: abandoned_def state_ok_def core_ok_def)
    ultimately have only: "b = candidate" if "b \<in> set (bc_Builds c)" "bd_ID b = i" for b using same_id that by metis
    show ?thesis unfolding c' using ok n b_merge(2) s only unfolding c' by (intro abandoned_upd) (auto simp: same_build_def)
  qed (use b_merge(2) in simp)
next
  case (b_skip c js p s)
  then show ?case by (auto simp: abandoned_def state_ok_def core_ok_def pend_ok_def split: option.splits)
next
  case (b_collect goarch now socket rows c w sy c' w' js)
  have ok: "state_ok (c', js, Some sy)" using bstep_ok [OF bstep.b_collect [OF b_collect(1)]] b_collect(2) by (auto simp: abandoned_def)
  then show ?case using b_collect(2) collected_new [OF b_collect(1)] by (auto simp: abandoned_def)
next
  case (b_write c js sy h)
  have ok: "state_ok (syncWrite h sy c, js, None)" using bstep_ok [OF bstep.b_write] b_write by (auto simp: abandoned_def)
  have a: "state_ok (c, js, Some sy)" "bid \<notin> set js" "int (id_num bid) \<le> bc_Seq c" using b_write by (auto simp: abandoned_def)
  let ?upd = "\<lambda>b. case sy_enriched sy (bd_ID b) of Some u \<Rightarrow> u | None \<Rightarrow> b"
  have p: "pend_ok c sy" using a(1) by (simp add: state_ok_def)
  have w: "bc_Builds (syncWrite h sy c) = take MaxBuilds (number_builds (bc_Seq c) (sy_new sy) @ map ?upd (bc_Builds c))
      \<or> bc_Builds (syncWrite h sy c) = number_builds (bc_Seq c) (sy_new sy) @ map ?upd (bc_Builds c)"
    by (auto simp: syncWrite_def Let_def)
  have "\<exists>b \<in> set (bc_Builds c). bd_ID b = bid \<and> bd_Status b' = bd_Status b \<and> bd_HistoryRef b' = bd_HistoryRef b"
    if b': "b' \<in> set (bc_Builds (syncWrite h sy c))" "bd_ID b' = bid" for b'
  proof -
    have "b' \<in> set (number_builds (bc_Seq c) (sy_new sy) @ map ?upd (bc_Builds c))"
      using w b'(1) by (elim disjE) (simp_all only: in_set_takeD)
    moreover have "b' \<notin> set (number_builds (bc_Seq c) (sy_new sy))" using number_set [OF _ seq_pos [OF a(1)]] a(3) b'(2) by fastforce
    ultimately obtain b where b: "b \<in> set (bc_Builds c)" "b' = ?upd b" by auto
    have "sy_enriched sy (bd_ID b) = None"
    proof (rule ccontr)
      assume "sy_enriched sy (bd_ID b) \<noteq> None"
      then obtain u where u: "sy_enriched sy (bd_ID b) = Some u" by auto
      then have "bd_ID u = bd_ID b" "bd_HistoryRef u \<noteq> []" "bd_HistoryRef b = bd_HistoryRef u" using p b(1) unfolding pend_ok_def by metis+
      then show False using b b'(2) u b_write by (auto simp: abandoned_def)
    qed
    then show ?thesis using b b'(2) by auto
  qed
  then show ?case using abandoned_kept [OF b_write ok a(2)] by (simp add: written_seq)
qed

text \<open>
  A build that is running when the daemon stops stays running: after a restart no job works on it, and
  whatever happens then, as long as it is listed its status is \<open>running\<close>.
\<close>

theorem orphan_stays_running:
  assumes "breachable env (c, js, p)" "b \<in> set (bc_Builds (restart h c))" "bd_Status b = ''running''" "bd_HistoryRef b = ''''"
    and "(bstep env)\<^sup>*\<^sup>* (restart h c, [], None) (c', js', p')" "b' \<in> set (bc_Builds c')" "bd_ID b' = bd_ID b"
  shows "bd_Status b' = ''running''"
proof -
  have ok: "state_ok (restart h c, [], None)" using breachable_ok [OF br_restart [OF assms(1)]] .
  then have bs: "builds_ok (bc_Builds (restart h c)) (bc_Seq (restart h c))" by (simp add: state_ok_def core_ok_def)
  then have "int (id_num (bd_ID b)) \<le> bc_Seq (restart h c)" using assms(2) by (auto simp: builds_ok_def lists_ok_def list_all_iff)
  then have "abandoned (bd_ID b) (restart h c, [], None)"
    using ok assms(2-4) same_id [OF bs _ assms(2)] by (auto simp: abandoned_def)
  with assms(5) have "abandoned (bd_ID b) (c', js', p')" by (induction rule: rtranclp_induct) (auto intro: abandoned_step)
  then show ?thesis using assms(6,7) by (auto simp: abandoned_def)
qed

theorem orphan_stays_running_witness:
  "bd_Status (hd (bc_Builds (UpdateBuildSourcePaths (no_faults, home) ''build-1'' ''/src'' ''Dockerfile'' (restart (no_faults, home) orphan_core))))
     = ''running''"
proof -
  let ?h = "(no_faults, home)"
  let ?c = "restart ?h orphan_core"
  let ?d = "UpdateBuildSourcePaths ?h ''build-1'' ''/src'' ''Dockerfile'' ?c"
  have r: "breachable dead_env (?c, [], None)" by (rule br_init [OF orphan_disk_ok])
  have id: "restart ?h ?c = ?c" by (simp add: restart_def loadBuilds_def Load_def buildsPath_home orphan_core_def entry_def)
  have d: "bc_Builds ?d = [orphan\<lparr>bd_Context := ''/src'', bd_Dockerfile := ''Dockerfile''\<rparr>]"
    unfolding orphan_loaded by (simp add: UpdateBuildSourcePaths_def GetBuild_def MaxBuilds_def) (simp add: orphan_def)
  have s: "(bstep dead_env)\<^sup>*\<^sup>* (restart ?h ?c, [], None) (?d, [], None)" unfolding id by (rule r_into_rtranclp) (rule b_source)
  have f: "orphan \<in> set (bc_Builds (restart ?h ?c))" by (subst id) (simp add: orphan_loaded)
  have st: "bd_Status orphan = ''running''" "bd_HistoryRef orphan = []" by (simp_all add: orphan_def emptyBuild_def)
  have m: "hd (bc_Builds ?d) \<in> set (bc_Builds ?d)" "bd_ID (hd (bc_Builds ?d)) = bd_ID orphan" unfolding d by simp_all
  show ?thesis by (rule orphan_stays_running [OF r f st s m])
qed

text \<open>
  A history file that cannot be read at start is lost: the daemon goes on with an empty list and counter,
  and the first build that is started replaces the file by one with that build alone.
\<close>

theorem unreadable_history_is_lost:
  assumes "BuildsFilePath hm = Inr path" "io OpRead path = Some f" "entry (bc_Disk c) path = Some (File content)"
    and "entry (bc_Disk c) (path @ ''.tmp'') \<noteq> Some Folder"
  shows "Load no_faults hm (bc_Disk (snd (NewBuild (no_faults, hm) now cp tag df pf st (restart (io, hm) c))))
    = Inr \<lparr>bf_Builds = [fst (NewBuild (no_faults, hm) now cp tag df pf st fresh_core)], bf_Seq = 1\<rparr>"
proof -
  let ?b = "fst (NewBuild (no_faults, hm) now cp tag df pf st fresh_core)" and ?tmp = "path @ ''.tmp''"
  let ?f = "\<lparr>bf_Builds = [?b], bf_Seq = 1\<rparr>"
  have l: "restart (io, hm) c = c\<lparr>bc_Builds := [], bc_Seq := 0, bc_Skip := []\<rparr>"
    using assms(1,2) by (simp add: restart_def loadBuilds_def Load_def ReadFile_def)
  have w: "WriteFile no_faults (bc_Disk c) ?tmp ?f = (None, put ?tmp (File (Json ?f)) (bc_Disk c))"
    using assms(4) by (auto simp: WriteFile_def no_faults_def split: option.splits node.splits)
  have r: "Rename no_faults (put ?tmp (File (Json ?f)) (bc_Disk c)) ?tmp path = (None, put path (File (Json ?f)) (del ?tmp (put ?tmp (File (Json ?f)) (bc_Disk c))))"
    using assms(3) by (simp add: Rename_def no_faults_def)
  have s: "Save no_faults hm (bc_Disk c) [?b] 1 = (None, put path (File (Json ?f)) (del ?tmp (put ?tmp (File (Json ?f)) (bc_Disk c))))"
    using assms(1) w r by (simp add: Save_def no_faults_def [of OpMkdir] trimBuilds_def MaxBuilds_def Let_def)
  have "bc_Disk (snd (NewBuild (no_faults, hm) now cp tag df pf st (restart (io, hm) c))) = put path (File (Json ?f)) (del ?tmp (put ?tmp (File (Json ?f)) (bc_Disk c)))"
    unfolding l using s by (simp add: NewBuild_def Let_def persisted_def persistBuildsLocked_def fresh_core_def)
  then show ?thesis using assms(1) by (simp add: Load_def)
qed

theorem unreadable_history_is_lost_witness:
  "Load no_faults home (bc_Disk orphan_core) = Inr \<lparr>bf_Builds = [orphan], bf_Seq = 1\<rparr>
   \<and> Load no_faults home (bc_Disk (snd (NewBuild (no_faults, home) 0 ''/src'' ''web'' '''' '''' ''running''
        (restart (\<lambda>op k. if op = OpRead then Some (Fault (Errorf ''input/output error'') False) else None, home) orphan_core))))
     = Inr \<lparr>bf_Builds = [fst (NewBuild (no_faults, home) 0 ''/src'' ''web'' '''' '''' ''running'' fresh_core)], bf_Seq = 1\<rparr>"
proof -
  have "Load no_faults home (bc_Disk orphan_core) = Inr \<lparr>bf_Builds = [orphan], bf_Seq = 1\<rparr>"
    by (simp add: Load_def buildsPath_home orphan_core_def entry_def)
  then show ?thesis
    using unreadable_history_is_lost [OF buildsPath_home, of "\<lambda>op k. if op = OpRead then Some (Fault (Errorf ''input/output error'') False) else None"
        "Fault (Errorf ''input/output error'') False" orphan_core] by (simp add: orphan_core_def entry_def)
qed

end
