(* ===== verification/Calf_Strings.thy ===== *)
theory Calf_Strings
  imports Calf_Prelude
begin

text \<open>
  More of the Go string library, for the parts of calf that read protocols and listings: searching,
  splitting at strings, bounded splitting, numbers with sign and range, and the line scanner of
  \<open>bufio\<close>.  The second half has the lemmas on texts made of lines that the parsers share.
\<close>

section \<open>Searching and splitting\<close>

text \<open>\<open>strings.Index\<close> and \<open>bytes.Index\<close>; no position is \<open>None\<close>.\<close>

fun Index :: "string \<Rightarrow> string \<Rightarrow> nat option" where
  "Index [] p = (if p = [] then Some 0 else None)"
| "Index (c # s) p = (if prefix p (c # s) then Some 0 else map_option Suc (Index s p))"

lemma Index_Some: "Index s p = Some i \<Longrightarrow> i + length p \<le> length s \<and> s = take i s @ p @ drop (i + length p) s"
proof (induction s arbitrary: i)
  case (Cons c s)
  then show ?case using prefix_length_le [of p "c # s"] by (auto simp: prefix_def split: if_splits)
qed (auto split: if_splits)

lemma Index_None: "Index s p = None \<longleftrightarrow> \<not> sublist p s"
  by (induction s) (auto simp: sublist_Cons_right)

lemma Index_append: "\<not> sublist p (s @ butlast p) \<Longrightarrow> p \<noteq> [] \<Longrightarrow> Index (s @ p @ t) p = Some (length s)"
proof (induction s)
  case Nil
  then show ?case by (cases p) auto
next
  case (Cons c s)
  have "\<not> prefix p (c # s @ p @ t)"
  proof
    assume a: "prefix p (c # s @ p @ t)"
    have "p = butlast p @ [last p]" using Cons.prems(2) by simp
    then have "length p \<le> length ((c # s) @ butlast p)" by (metis One_nat_def Suc_eq_plus1 add.commute
        add_le_mono1 le_add1 length_Cons length_append length_append_singleton list.size(3) plus_1_eq_Suc)
    moreover have "prefix ((c # s) @ butlast p) (c # s @ p @ t)"
      using \<open>p = butlast p @ [last p]\<close> by (metis append_Cons append_assoc prefixI)
    ultimately have "prefix p ((c # s) @ butlast p)" using a prefix_length_prefix by blast
    then show False using Cons.prems(1) prefix_imp_sublist by blast
  qed
  moreover have "\<not> sublist p (s @ butlast p)" using Cons.prems(1) by (simp add: sublist_Cons_right)
  ultimately show ?case using Cons by simp
qed

text \<open>\<open>strings.Split\<close> for a separator of any length.\<close>

function SplitOn :: "string \<Rightarrow> string \<Rightarrow> string list" where
  "SplitOn s sep =
     (if sep = [] then map (\<lambda>c. [c]) s
      else case Index s sep of
             None \<Rightarrow> [s]
           | Some i \<Rightarrow> take i s # SplitOn (drop (i + length sep) s) sep)"
  by pat_completeness auto
termination
proof (relation "measure (\<lambda>(s, sep). length s)", goal_cases)
  case (2 s sep i)
  then have "i + length sep \<le> length s" "0 < length sep" using Index_Some by auto
  then have "length s - (i + length sep) < length s" by linarith
  then show ?case by simp
qed simp

declare SplitOn.simps [simp del]

lemma SplitOn_ne: "sep \<noteq> [] \<Longrightarrow> SplitOn s sep \<noteq> []"
  by (subst SplitOn.simps) (auto split: option.splits)

lemma Join_SplitOn: "sep \<noteq> [] \<Longrightarrow> Join (SplitOn s sep) sep = s"
proof (induction s sep rule: SplitOn.induct)
  case (1 s sep)
  show ?case
  proof (cases "Index s sep")
    case (Some i)
    obtain w ws where "SplitOn (drop (i + length sep) s) sep = w # ws"
      using SplitOn_ne [OF 1(2)] by (metis list.exhaust)
    moreover have "Join (SplitOn (drop (i + length sep) s) sep) sep = drop (i + length sep) s"
      using 1 Some by simp
    ultimately have "Join (SplitOn s sep) sep = take i s @ sep @ drop (i + length sep) s"
      using 1(2) Some by (subst SplitOn.simps) simp
    then show ?thesis using Index_Some [OF Some] by simp
  qed (simp add: SplitOn.simps 1(2))
qed

text \<open>\<open>strings.SplitN\<close> for a one-byte separator and a positive number of parts.\<close>

fun SplitN :: "nat \<Rightarrow> string \<Rightarrow> char \<Rightarrow> string list" where
  "SplitN 0 s sep = []"
| "SplitN (Suc 0) s sep = [s]"
| "SplitN (Suc (Suc n)) s sep =
     (if sep \<in> set s then takeWhile (\<lambda>c. c \<noteq> sep) s # SplitN (Suc n) (tl (dropWhile (\<lambda>c. c \<noteq> sep) s)) sep else [s])"

lemma takeWhile_sep: "sep \<notin> set w \<Longrightarrow> takeWhile (\<lambda>c. c \<noteq> sep) (w @ sep # s) = w"
  by (induction w) auto

lemma dropWhile_sep: "sep \<notin> set w \<Longrightarrow> dropWhile (\<lambda>c. c \<noteq> sep) (w @ sep # s) = sep # s"
  by (induction w) auto

lemma SplitN_part: "sep \<notin> set w \<Longrightarrow> SplitN (Suc (Suc n)) (w @ sep # s) sep = w # SplitN (Suc n) s sep"
  by (simp add: takeWhile_sep dropWhile_sep)

text \<open>\<open>strings.ReplaceAll\<close> for a non-empty old string.\<close>

definition ReplaceAll :: "string \<Rightarrow> string \<Rightarrow> string \<Rightarrow> string" where
  "ReplaceAll s old new = Replace [(old, new)] s"

section \<open>Numbers\<close>

text \<open>The digits of a signed decimal number, if the text is one.\<close>

definition int_text :: "string \<Rightarrow> (bool \<times> string) option" where
  "int_text s =
     (let neg = (s \<noteq> [] \<and> hd s = CHR ''-''); ds = (if s \<noteq> [] \<and> hd s \<in> {CHR ''-'', CHR ''+''} then tl s else s)
      in if ds \<noteq> [] \<and> list_all is_digit ds then Some (neg, ds) else None)"

definition signed_val :: "bool \<Rightarrow> string \<Rightarrow> int" where
  "signed_val neg ds = (if neg then - int (digits_val ds) else int (digits_val ds))"

text \<open>\<open>strconv.ParseInt(s, 10, 64)\<close>, and the value that \<open>strconv.Atoi\<close> returns beside its error.\<close>

definition ParseInt64 :: "string \<Rightarrow> int option" where
  "ParseInt64 s =
     (case int_text s of
        None \<Rightarrow> None
      | Some (neg, ds) \<Rightarrow>
          let v = signed_val neg ds in if - (2 ^ 63) \<le> v \<and> v \<le> 2 ^ 63 - 1 then Some v else None)"

definition Atoi_value :: "string \<Rightarrow> int" where
  "Atoi_value s =
     (case int_text s of None \<Rightarrow> 0 | Some (neg, ds) \<Rightarrow> max (- (2 ^ 63)) (min (signed_val neg ds) (2 ^ 63 - 1)))"

section \<open>Scanning lines\<close>

text \<open>
  \<open>bufio.Scanner\<close> with its default split function: lines without their end, and whether it stopped at a
  line that does not fit its buffer of 64 KiB.
\<close>

abbreviation newline :: char where "newline \<equiv> CHR 0x0A"

abbreviation cr :: char where "cr \<equiv> CHR 0x0D"

definition raw_lines :: "string \<Rightarrow> string list" where
  "raw_lines s = (let ls = Split s newline in if last ls = [] then butlast ls else ls)"

definition dropCR :: "string \<Rightarrow> string" where
  "dropCR l = (if l \<noteq> [] \<and> last l = cr then butlast l else l)"

definition fits :: "string \<Rightarrow> bool" where
  "fits l \<longleftrightarrow> int (length l) < 65536"

definition Scan :: "string \<Rightarrow> string list \<times> bool" where
  "Scan s = (let ls = raw_lines s in (map dropCR (takeWhile fits ls), \<not> list_all fits ls))"

definition ErrTooLong :: go_error where
  "ErrTooLong = Errorf ''bufio.Scanner: token too long''"

lemma raw_lines_lines:
  assumes "\<forall>l \<in> set ls. newline \<notin> set l"
  shows "raw_lines (concat (map (\<lambda>l. l @ [newline]) ls)) = ls"
proof -
  have "Split (concat (map (\<lambda>l. l @ [newline]) ls)) newline = ls @ [[]]" using assms
  proof (induction ls)
    case (Cons l ls)
    have "Split (l @ newline # s) newline = l # Split s newline" if "newline \<notin> set l" for s
      using that by (induction l) auto
    with Cons show ?case by simp
  qed simp
  then show ?thesis by (simp add: raw_lines_def Let_def)
qed

section \<open>Lines of a protocol\<close>

definition crlf :: string where "crlf = [cr, newline]"

lemma crlf_simps [simp]: "crlf \<noteq> []" "length crlf = 2" "butlast crlf = [cr]"
  by (simp_all add: crlf_def)

text \<open>A text without the separator followed by the separator: no match straddles the border.\<close>

lemma no_crlf_border: "\<not> sublist crlf l \<Longrightarrow> \<not> sublist crlf (l @ [cr])"
proof
  assume l: "\<not> sublist crlf l" and "sublist crlf (l @ [cr])"
  then obtain a b where "l @ [cr] = a @ [cr, newline] @ b" by (auto simp: sublist_def crlf_def)
  then have "b \<noteq> []" "l = a @ crlf @ butlast b"
    by (cases b rule: rev_cases; simp add: crlf_def)+
  then show False using l by (auto simp: sublist_def)
qed

lemma SplitOn_crlf: "\<not> sublist crlf l \<Longrightarrow> SplitOn (l @ crlf @ s) crlf = l # SplitOn s crlf"
  using Index_append [of crlf l s] no_crlf_border [of l] by (subst SplitOn.simps) simp

lemma SplitOn_plain: "\<not> sublist crlf l \<Longrightarrow> SplitOn l crlf = [l]"
  by (subst SplitOn.simps) (simp add: Index_None [THEN iffD2])

lemma SplitOn_Join:
  assumes "ls \<noteq> []" "\<forall>l \<in> set ls. \<not> sublist crlf l"
  shows "SplitOn (Join ls crlf) crlf = ls"
  using assms
proof (induction ls)
  case (Cons l ls)
  then show ?case by (cases ls) (simp_all add: SplitOn_crlf SplitOn_plain)
qed simp

lemma Join_append_crlf:
  "ls \<noteq> [] \<Longrightarrow> ms \<noteq> [] \<Longrightarrow> Join (ls @ ms) sep = Join ls sep @ sep @ Join ms sep"
proof (induction ls)
  case (Cons l ls)
  then show ?case by (cases ls; cases ms) auto
qed simp

text \<open>Behind a line, a match of a break starts at its end or later.\<close>

lemma break_after_line:
  assumes l0: "\<not> sublist crlf l0"
  shows "sublist (crlf @ p) (l0 @ crlf @ R) \<longleftrightarrow> sublist (crlf @ p) R \<or> prefix p R"
proof
  assume "sublist (crlf @ p) (l0 @ crlf @ R)"
  then obtain a b where ab: "l0 @ crlf @ R = a @ crlf @ p @ b" by (auto simp: sublist_def)
  consider (inside) "length a < length l0" | (here) "length a = length l0" | (one) "length a = Suc (length l0)"
    | (later) "length a \<ge> length l0 + 2" by linarith
  then show "sublist (crlf @ p) R \<or> prefix p R"
  proof cases
    case inside
    then obtain c x where x: "l0 = a @ c # x" using ab
      by (metis append_eq_append_conv_if append_take_drop_id id_take_nth_drop less_imp_le_nat take_all_iff
          append_eq_conv_conj)
    then show ?thesis using ab l0 by (cases x) (auto simp: crlf_def sublist_def)
  next
    case here
    then have "R = p @ b" using ab by (metis append_eq_append_conv)
    then show ?thesis by simp
  next
    case one
    then obtain c where "a = l0 @ [c]" using ab by (metis append_eq_append_conv_if length_Suc_conv_rev
        Suc_n_not_le_n append_eq_conv_conj length_append_singleton nat_le_linear take_hd_drop)
    then show ?thesis using ab by (simp add: crlf_def)
  next
    case later
    then have "take (length l0 + 2) (l0 @ crlf @ R) = take (length l0 + 2) a"
      unfolding ab by simp
    then have "a = (l0 @ crlf) @ drop (length l0 + 2) a"
      by (metis append_take_drop_id append_assoc append_eq_conv_conj crlf_simps(2) length_append)
    then have "R = drop (length l0 + 2) a @ crlf @ p @ b" using ab by (metis append_assoc same_append_eq)
    then show ?thesis by (auto simp: sublist_def)
  qed
next
  assume "sublist (crlf @ p) R \<or> prefix p R"
  then show "sublist (crlf @ p) (l0 @ crlf @ R)"
  proof
    assume "prefix p R"
    then obtain b where "R = p @ b" by (auto simp: prefix_def)
    then show ?thesis unfolding sublist_def by (intro exI [of _ l0] exI [of _ b]) simp
  next
    assume "sublist (crlf @ p) R"
    then show ?thesis by (simp add: sublist_append)
  qed
qed

text \<open>A line break followed by a text without breaks occurs exactly where a later line starts with it.\<close>

lemma line_start:
  assumes "cr \<notin> set p" "\<forall>l \<in> set (l0 # ls). \<not> sublist crlf l"
  shows "sublist (crlf @ p) (Join (l0 # ls) crlf) \<longleftrightarrow> (\<exists>l \<in> set ls. prefix p l)"
  using assms(2)
proof (induction ls arbitrary: l0)
  case Nil
  then show ?case using sublist_order.order.trans [of crlf "crlf @ p" l0] by auto
next
  case (Cons l ls)
  let ?R = "Join (l # ls) crlf"
  have l0: "\<not> sublist crlf l0" and ls: "\<forall>l \<in> set (l # ls). \<not> sublist crlf l" using Cons.prems by auto
  have pre: "prefix p ?R \<longleftrightarrow> prefix p l"
  proof (cases ls)
    case (Cons m ms)
    then have R: "?R = l @ cr # newline # Join ls crlf" by (simp add: crlf_def)
    show ?thesis
    proof
      assume "prefix p ?R"
      then consider "prefix p l" | r where "p = l @ r" "prefix r (cr # newline # Join ls crlf)" unfolding R by (auto simp: prefix_append)
      then show "prefix p l"
      proof cases
        case 2
        then show ?thesis using assms(1) by (cases r) auto
      qed
    qed (simp add: R)
  qed simp
  have "sublist (crlf @ p) (l0 @ crlf @ ?R) \<longleftrightarrow> sublist (crlf @ p) ?R \<or> prefix p ?R"
    by (rule break_after_line [OF l0])
  with Cons.IH [OF ls] pre show ?case by auto
qed

lemma find_append: "find P (xs @ ys) = (case find P xs of Some x \<Rightarrow> Some x | None \<Rightarrow> find P ys)"
  by (induction xs) auto

end
