(* ===== verification/Calf_Docker_Proxy.thy ===== *)
theory Calf_Docker_Proxy
  imports Calf_Strings
begin

text \<open>
  The Docker API proxy: \<open>runtime/docker_http_proxy.go\<close>, which reads the head of a request from the Docker
  CLI, lowers the API version, forces the connection to close and forwards one request, and
  \<open>daemon/docker_socket_proxy.go\<close>, which owns the public socket and limits the connections.
\<close>

section \<open>Reading the request head\<close>

definition dockerAPIMaxHTTPHeader :: int where "dockerAPIMaxHTTPHeader = 1048576"

abbreviation crlf2 :: string where "crlf2 \<equiv> crlf @ crlf"

definition httpRequestHeadIsUpgrade :: "string \<Rightarrow> bool" where
  "httpRequestHeadIsUpgrade head = Contains (ToLower head) (crlf @ ''upgrade:'')"

text \<open>
  What one call of \<open>Read\<close> returns: some bytes and perhaps an error.  The loop runs over the calls; when there
  are none left it waits, which is \<open>None\<close>.
\<close>

datatype read_err = EOF | ReadErr go_error

fun stream_error :: "read_err \<Rightarrow> go_error" where
  "stream_error EOF = Errorf ''EOF''"
| "stream_error (ReadErr e) = e"

type_synonym reads = "(string \<times> read_err option) list"

fun readHead :: "string \<Rightarrow> reads \<Rightarrow> ((string \<times> string \<times> bool) result \<times> reads) option" where
  "readHead buf rs =
     (if int (length buf) > dockerAPIMaxHTTPHeader
      then Some (Inl (Errorf (''docker API headers exceed '' @ show_int dockerAPIMaxHTTPHeader @ '' bytes'')), rs)
      else case rs of
        [] \<Rightarrow> None
      | (bytes, err) # rest \<Rightarrow>
          let buf1 = buf @ bytes in
          case (if bytes = [] then None else Index buf1 crlf2) of
            Some idx \<Rightarrow>
              Some (Inr (take (idx + 4) buf1, drop (idx + 4) buf1, httpRequestHeadIsUpgrade (take (idx + 4) buf1)), rest)
          | None \<Rightarrow>
              (case err of
                 None \<Rightarrow> readHead buf1 rest
               | Some e \<Rightarrow>
                   if buf1 = [] then Some (Inl (stream_error e), rest)
                   else if e = EOF then Some (Inr (buf1, [], httpRequestHeadIsUpgrade buf1), rest)
                   else Some (Inl (stream_error e), rest)))"

declare readHead.simps [simp del]

definition ReadDockerAPIRequestHead :: "reads \<Rightarrow> ((string \<times> string \<times> bool) result \<times> reads) option" where
  "ReadDockerAPIRequestHead rs = readHead [] rs"

section \<open>Rewriting the head\<close>

fun version_loop :: "string list \<Rightarrow> string list \<Rightarrow> bool" where
  "version_loop [] [] = False"
| "version_loop (a # as) [] = (if Atoi_value a \<noteq> 0 then Atoi_value a > 0 else version_loop as [])"
| "version_loop [] (b # bs) = (if 0 \<noteq> Atoi_value b then 0 > Atoi_value b else version_loop [] bs)"
| "version_loop (a # as) (b # bs) =
     (if Atoi_value a \<noteq> Atoi_value b then Atoi_value a > Atoi_value b else version_loop as bs)"

definition dockerAPIVersionNewer :: "string \<Rightarrow> string \<Rightarrow> bool" where
  "dockerAPIVersionNewer a b = version_loop (Split a CHR ''.'') (Split b CHR ''.'')"

definition version_char :: "char \<Rightarrow> bool" where
  "version_char c \<longleftrightarrow> is_digit c \<or> c = CHR ''.''"

definition ClampDockerAPIVersion :: "string \<Rightarrow> string \<Rightarrow> string" where
  "ClampDockerAPIVersion head maxVersion =
     (if head = [] \<or> maxVersion = [] then head
      else case SplitOn (TrimSuffix head crlf2) crlf of
        [] \<Rightarrow> head
      | line # lines \<Rightarrow>
          (case SplitN 3 line CHR '' '' of
             meth # path # proto \<Rightarrow>
               (case Index path ''/v'' of
                  None \<Rightarrow> head
                | Some idx \<Rightarrow>
                    let verStart = idx + 2; clientVersion = takeWhile version_char (drop verStart path);
                        verEnd = verStart + length clientVersion
                    in if clientVersion = [] then head
                       else if \<not> dockerAPIVersionNewer clientVersion maxVersion then head
                       else let newPath = take verStart path @ maxVersion @ drop verEnd path
                            in Join (Join (meth # newPath # proto) '' '' # lines) crlf @ crlf2)
           | _ \<Rightarrow> head))"

definition connectionHeader :: "string \<Rightarrow> bool" where
  "connectionHeader line = HasPrefix (ToLower line) ''connection:''"

definition forceHTTPConnectionClose :: "string \<Rightarrow> string" where
  "forceHTTPConnectionClose head =
     (if head = [] then head
      else case SplitOn (TrimSuffix head crlf2) crlf of
        [] \<Rightarrow> Join [''Connection: close''] crlf @ crlf2
      | line # lines \<Rightarrow> Join (line # filter (\<lambda>l. \<not> connectionHeader l) lines @ [''Connection: close'']) crlf @ crlf2)"

section \<open>Forwarding\<close>

fun length_loop :: "string list \<Rightarrow> int option" where
  "length_loop [] = Some 0"
| "length_loop (line # lines) =
     (if \<not> HasPrefix (ToLower line) ''content-length:'' then length_loop lines
      else case ParseInt64 (TrimSpace (drop 15 line)) of
             None \<Rightarrow> None
           | Some n \<Rightarrow> if n < 0 then None else Some n)"

text \<open>\<open>None\<close> is the result whose flag is false.\<close>

definition httpRequestContentLength :: "string \<Rightarrow> int option" where
  "httpRequestContentLength head =
     (if Contains (ToLower head) (crlf @ ''transfer-encoding: chunked'') then None
      else length_loop (SplitOn head crlf))"

text \<open>
  The two connections: what the client still sends before it closes, what the engine has received and how
  much more it takes before writing to it fails, what it answers, and what the client has received.
\<close>

record conns =
  cn_client :: string
  cn_engine :: string
  cn_room :: "nat option"
  cn_answer :: string
  cn_received :: string
  cn_closed :: bool

definition broken_pipe :: go_error where "broken_pipe = Errorf ''write: broken pipe''"

definition server_Write :: "string \<Rightarrow> conns \<Rightarrow> go_error option \<times> conns" where
  "server_Write bytes c =
     (case cn_room c of
        None \<Rightarrow> (None, c\<lparr>cn_engine := cn_engine c @ bytes\<rparr>)
      | Some k \<Rightarrow>
          if length bytes \<le> k then (None, c\<lparr>cn_engine := cn_engine c @ bytes, cn_room := Some (k - length bytes)\<rparr>)
          else (Some broken_pipe, c\<lparr>cn_engine := cn_engine c @ take k bytes, cn_room := Some 0\<rparr>))"

text \<open>\<open>io.CopyN\<close> and \<open>io.Copy\<close> from the bytes read with the head and then from the client.\<close>

definition copy_from_client :: "string \<Rightarrow> nat \<Rightarrow> conns \<Rightarrow> go_error option \<times> conns" where
  "copy_from_client rest n c =
     (let all = rest @ cn_client c;
          (err, c1) = server_Write (take n all) (c\<lparr>cn_client := drop (n - length rest) (cn_client c)\<rparr>)
      in case err of Some e \<Rightarrow> (Some e, c1) | None \<Rightarrow> (if length all < n then Some (Errorf ''EOF'') else None, c1))"

definition forwardDockerAPIRequestBody :: "string \<Rightarrow> string \<Rightarrow> conns \<Rightarrow> go_error option \<times> conns" where
  "forwardDockerAPIRequestBody rest head c =
     (case httpRequestContentLength head of
        None \<Rightarrow> if rest = [] then (None, c) else server_Write rest c
      | Some n \<Rightarrow> if n \<le> 0 then (None, c) else copy_from_client rest (nat n) c)"

definition GuestDockerAPIVersion :: string where "GuestDockerAPIVersion = ''1.52''"

definition proxyDockerAPIUpgrade :: "string \<Rightarrow> string \<Rightarrow> conns \<Rightarrow> conns" where
  "proxyDockerAPIUpgrade head rest c =
     (case server_Write head c of
        (Some _, c1) \<Rightarrow> c1
      | (None, c1) \<Rightarrow>
          let (_, c2) = server_Write (rest @ cn_client c1) (c1\<lparr>cn_client := []\<rparr>)
          in c2\<lparr>cn_received := cn_received c2 @ cn_answer c2, cn_answer := [], cn_closed := True\<rparr>)"

definition ProxyDockerAPIWithHead :: "string \<Rightarrow> string \<Rightarrow> bool \<Rightarrow> conns \<Rightarrow> conns" where
  "ProxyDockerAPIWithHead head0 rest upgrade c =
     (if upgrade then proxyDockerAPIUpgrade head0 rest c
      else
        let head = forceHTTPConnectionClose (ClampDockerAPIVersion head0 GuestDockerAPIVersion) in
        case server_Write head c of
          (Some _, c1) \<Rightarrow> c1
        | (None, c1) \<Rightarrow>
            (case forwardDockerAPIRequestBody rest head c1 of
               (Some _, c2) \<Rightarrow> c2
             | (None, c2) \<Rightarrow> c2\<lparr>cn_received := cn_received c2 @ cn_answer c2, cn_answer := [], cn_closed := True\<rparr>))"

definition ProxyDockerAPI :: "reads \<Rightarrow> conns \<Rightarrow> conns option" where
  "ProxyDockerAPI rs c =
     (case ReadDockerAPIRequestHead rs of
        None \<Rightarrow> None
      | Some (Inl _, _) \<Rightarrow> Some c
      | Some (Inr (head, rest, upgrade), rs') \<Rightarrow>
          Some (ProxyDockerAPIWithHead head rest upgrade (c\<lparr>cn_client := concat (map fst rs')\<rparr>)))"

section \<open>Requests made of lines\<close>

definition request_head :: "string \<Rightarrow> string list \<Rightarrow> string" where
  "request_head line headers = Join (line # headers) crlf @ crlf2"

definition one_line :: "string \<Rightarrow> bool" where
  "one_line l \<longleftrightarrow> \<not> Contains l crlf"

definition chunkedHeader :: "string \<Rightarrow> bool" where
  "chunkedHeader l = HasPrefix (ToLower l) ''transfer-encoding: chunked''"

lemma request_head_Join: "request_head line headers = Join (line # headers @ [[], []]) crlf"
  using Join_append_crlf [of "line # headers" "[[], []]" crlf] by (simp add: request_head_def)

lemma not_sublist_Nil [simp]: "\<not> sublist crlf []" by (simp add: crlf_def)

lemma head_lines:
  "list_all one_line (line # headers) \<Longrightarrow> SplitOn (TrimSuffix (request_head line headers) crlf2) crlf = line # headers"
  using SplitOn_Join [of "line # headers"] suffixI [of "request_head line headers" "Join (line # headers) crlf" crlf2]
  by (simp add: request_head_def TrimSuffix_def HasSuffix_iff one_line_def Contains_iff list_all_iff)

lemma all_head_lines:
  "list_all one_line (line # headers) \<Longrightarrow> SplitOn (request_head line headers) crlf = line # headers @ [[], []]"
  unfolding request_head_Join by (rule SplitOn_Join) (auto simp: one_line_def Contains_iff list_all_iff)

lemma request_head_ne [simp]: "request_head line headers \<noteq> []"
  by (simp add: request_head_def)

lemma lower_char_cr: "lower_char c = cr \<longleftrightarrow> c = cr" "lower_char c = newline \<longleftrightarrow> c = newline"
proof -
  have big: "97 \<le> (of_char (lower_char c) :: nat)" if "CHR ''A'' \<le> c \<and> c \<le> CHR ''Z''"
    using that by (simp add: lower_char_def less_eq_char_def)
  have other: "lower_char c = c" if "\<not> (CHR ''A'' \<le> c \<and> c \<le> CHR ''Z'')" using that unfolding lower_char_def by (rule if_not_P)
  have "lower_char c \<noteq> cr" "lower_char c \<noteq> newline" "c \<noteq> cr" "c \<noteq> newline" if "CHR ''A'' \<le> c \<and> c \<le> CHR ''Z''"
    using big [OF that] that by (auto simp: less_eq_char_def)
  then show "lower_char c = cr \<longleftrightarrow> c = cr" "lower_char c = newline \<longleftrightarrow> c = newline" using other by metis+
qed

lemma lower_crlf [simp]: "ToLower crlf = crlf"
  using lower_char_cr by (simp add: ToLower_def crlf_def)

lemma ToLower_Join: "ToLower (Join ls crlf) = Join (map ToLower ls) crlf"
proof (induction ls)
  case (Cons l ls)
  then show ?case using lower_crlf by (cases ls) (simp_all add: ToLower_def)
qed (simp add: ToLower_def)

lemma one_line_ToLower: "one_line l \<Longrightarrow> \<not> sublist crlf (ToLower l)"
proof
  assume l: "one_line l" and "sublist crlf (ToLower l)"
  then obtain a b where "ToLower l = a @ cr # newline # b" by (auto simp: sublist_def crlf_def)
  then have "map lower_char l = a @ cr # newline # b" by (simp add: ToLower_def)
  then obtain a' v where v: "l = a' @ v" "cr # newline # b = map lower_char v" using map_eq_append_conv by metis
  then obtain c d b' where "v = c # d # b'" "lower_char c = cr" "lower_char d = newline" by (cases v; cases "tl v") auto
  with v have "l = a' @ cr # newline # b'" using lower_char_cr by simp
  then show False using l by (auto simp: one_line_def Contains_iff crlf_def sublist_def)
qed

lemma header_starts:
  assumes "list_all one_line (line # headers)" "cr \<notin> set p" "p \<noteq> []"
  shows "Contains (ToLower (request_head line headers)) (crlf @ p) \<longleftrightarrow> (\<exists>h \<in> set headers. HasPrefix (ToLower h) p)"
proof -
  have "\<forall>l \<in> set (ToLower line # map ToLower (headers @ [[], []])). \<not> sublist crlf l"
    using assms(1) one_line_ToLower by (auto simp: list_all_iff ToLower_def)
  then show ?thesis
    using line_start [OF assms(2), of "ToLower line" "map ToLower (headers @ [[], []])"] assms(3)
    unfolding request_head_Join ToLower_Join Contains_iff by (auto simp: HasPrefix_def ToLower_def)
qed

lemma no_cr_literals [simp]: "cr \<notin> set ''upgrade:''" "cr \<notin> set ''transfer-encoding: chunked''"
  by simp_all

lemma length_loop_append: "length_loop (ls @ [[], []]) = length_loop ls"
  by (induction ls) (auto simp: HasPrefix_def ToLower_def split: option.splits)

lemma content_length_head:
  assumes "list_all one_line (line # headers)" "\<not> HasPrefix (ToLower line) ''content-length:''"
  shows "httpRequestContentLength (request_head line headers) =
    (if list_ex chunkedHeader headers then None else length_loop headers)"
  using header_starts [OF assms(1) no_cr_literals(2)] assms(2) length_loop_append [of "line # headers"]
  unfolding httpRequestContentLength_def all_head_lines [OF assms(1)]
  by (auto simp: list_ex_iff chunkedHeader_def)

lemma one_line_close: "one_line ''Connection: close''"
  by (simp add: one_line_def crlf_def)

lemma close_head:
  "list_all one_line (line # headers) \<Longrightarrow>
    forceHTTPConnectionClose (request_head line headers) =
    request_head line (filter (\<lambda>l. \<not> connectionHeader l) headers @ [''Connection: close''])"
  by (simp add: forceHTTPConnectionClose_def head_lines) (simp add: request_head_def)

lemma distinct_headers: "connectionHeader l \<Longrightarrow> \<not> HasPrefix (ToLower l) ''content-length:''" "connectionHeader l \<Longrightarrow> \<not> chunkedHeader l"
  by (auto simp: connectionHeader_def chunkedHeader_def HasPrefix_def prefix_def)

lemma length_loop_close:
  "length_loop (filter (\<lambda>l. \<not> connectionHeader l) headers @ [''Connection: close'']) = length_loop headers"
proof (induction headers)
  case Nil
  then show ?case by code_simp
next
  case (Cons l headers)
  then show ?case using distinct_headers(1) [of l] by (auto split: option.splits)
qed

lemma chunked_close:
  "list_ex chunkedHeader (filter (\<lambda>l. \<not> connectionHeader l) headers @ [''Connection: close'']) = list_ex chunkedHeader headers"
proof -
  have "\<not> chunkedHeader ''Connection: close''" by code_simp
  then show ?thesis using distinct_headers(2) by (auto simp: list_ex_iff)
qed

text \<open>A request line with a version in its path, and the version that is sent on.\<close>

definition request_line :: "string \<Rightarrow> string \<Rightarrow> string \<Rightarrow> string \<Rightarrow> string" where
  "request_line meth ver path proto = meth @ '' /v'' @ ver @ path @ '' '' @ proto"

definition sent_version :: "string \<Rightarrow> string" where
  "sent_version ver = (if dockerAPIVersionNewer ver GuestDockerAPIVersion then GuestDockerAPIVersion else ver)"

definition versioned :: "string \<Rightarrow> string \<Rightarrow> string \<Rightarrow> bool" where
  "versioned meth ver path \<longleftrightarrow> CHR '' '' \<notin> set meth \<and> CHR '' '' \<notin> set path \<and> ver \<noteq> [] \<and> list_all version_char ver
     \<and> (case path of [] \<Rightarrow> True | c # _ \<Rightarrow> \<not> version_char c)"

lemma takeWhile_version:
  "list_all version_char ver \<Longrightarrow> (case path of [] \<Rightarrow> True | c # _ \<Rightarrow> \<not> version_char c) \<Longrightarrow> takeWhile version_char (ver @ path) = ver"
  by (induction ver) (auto split: list.splits simp: takeWhile_eq_Nil_iff)

lemma version_no_space: "list_all version_char ver \<Longrightarrow> CHR '' '' \<notin> set ver"
  by (auto simp: list_all_iff version_char_def is_digit_def less_eq_char_def)

lemma clamp_head:
  assumes v: "versioned meth ver path" and l: "list_all one_line (request_line meth ver path proto # headers)"
  shows "ClampDockerAPIVersion (request_head (request_line meth ver path proto) headers) GuestDockerAPIVersion =
    request_head (request_line meth (sent_version ver) path proto) headers"
proof -
  let ?p = "''/v'' @ ver @ path"
  have "request_line meth ver path proto = meth @ CHR '' '' # ?p @ CHR '' '' # proto" by (simp add: request_line_def)
  moreover have m: "CHR '' '' \<notin> set meth" "CHR '' '' \<notin> set ?p" using v version_no_space by (auto simp: versioned_def)
  ultimately have s: "SplitN 3 (request_line meth ver path proto) CHR '' '' = [meth, ?p, proto]"
    using SplitN_part [OF m(1), of 1] SplitN_part [OF m(2), of 0] by (simp only: numeral_3_eq_3 One_nat_def SplitN.simps(2))
  have i: "Index ?p ''/v'' = Some 0" by simp
  have w: "takeWhile version_char (drop 2 ?p) = ver" "ver \<noteq> []"
    using v takeWhile_version by (simp_all add: versioned_def)
  have g: "GuestDockerAPIVersion \<noteq> []" by (simp add: GuestDockerAPIVersion_def)
  show ?thesis unfolding ClampDockerAPIVersion_def head_lines [OF l] using s i w g
    by (simp add: sent_version_def request_head_def request_line_def Let_def)
qed

lemma version_loop_irrefl: "\<not> version_loop vs vs"
  by (induction vs) auto

lemma sent_version_not_newer: "\<not> dockerAPIVersionNewer (sent_version ver) GuestDockerAPIVersion"
  using version_loop_irrefl by (auto simp: sent_version_def dockerAPIVersionNewer_def)

subsection \<open>Reading in pieces\<close>

text \<open>No line of the head is empty, so the first empty line ends it.\<close>

lemma crlf2_simps [simp]: "length crlf2 = 4" "butlast crlf2 = [cr, newline, cr]"
  by (simp_all add: crlf_def)

lemma before_terminator:
  assumes "prefix buf (h @ crlf2 @ t)" "\<not> sublist crlf2 (h @ butlast crlf2)" "sublist crlf2 buf"
  shows "\<exists>t1. buf = h @ crlf2 @ t1 \<and> prefix t1 t"
proof -
  have "h @ crlf2 @ t = (h @ butlast crlf2) @ newline # t" by (simp add: crlf_def)
  then consider "prefix buf (h @ butlast crlf2)" | u where "buf = (h @ butlast crlf2) @ u" "prefix u (newline # t)"
    using assms(1) by (metis prefix_append)
  then show ?thesis
  proof cases
    case 1
    then show ?thesis using assms(2,3) sublist_order.order.trans prefix_imp_sublist by blast
  next
    case 2
    then show ?thesis
    proof (cases u)
      case Nil
      then show ?thesis using 2 assms(2,3) by simp
    next
      case (Cons c u')
      then have "buf = h @ crlf2 @ u'" "prefix u' t" using 2 by (simp_all add: crlf_def)
      then show ?thesis by blast
    qed
  qed
qed

lemma readHead_split:
  assumes "buf @ concat (map fst rs) = h @ crlf2 @ t" "\<not> sublist crlf2 (h @ butlast crlf2)" "\<not> sublist crlf2 buf"
    "\<forall>r \<in> set rs. snd r = None" "int (length h) + 3 \<le> dockerAPIMaxHTTPHeader"
  shows "\<exists>rest rs'. readHead buf rs = Some (Inr (h @ crlf2, rest, httpRequestHeadIsUpgrade (h @ crlf2)), rs')
    \<and> rest @ concat (map fst rs') = t"
  using assms(1,3,4)
proof (induction rs arbitrary: buf)
  case Nil
  then show ?case by (auto simp: sublist_def)
next
  case (Cons r rs)
  obtain bytes where r: "r = (bytes, None)" using Cons.prems(3) by (cases r) auto
  have pre: "prefix buf (h @ crlf2 @ t)" "prefix (buf @ bytes) (h @ crlf2 @ t)"
    using Cons.prems(1) r prefixI [of _ buf "bytes @ concat (map fst rs)"] prefixI [of _ "buf @ bytes" "concat (map fst rs)"]
    by auto
  have "length buf \<le> length (h @ butlast crlf2)"
  proof (rule ccontr)
    assume "\<not> length buf \<le> length (h @ butlast crlf2)"
    moreover have "h @ crlf2 @ t = (h @ crlf2) @ t" by simp
    ultimately have "prefix (h @ crlf2) buf" using pre(1) by (intro prefix_length_prefix [of "h @ crlf2" "h @ crlf2 @ t" buf]) auto
    then show False using Cons.prems(2) sublist_order.order.trans [of crlf2 "h @ crlf2" buf] prefix_imp_sublist by blast
  qed
  then have small: "\<not> int (length buf) > dockerAPIMaxHTTPHeader" using assms(5) by simp
  show ?case
  proof (cases "sublist crlf2 (buf @ bytes)")
    case True
    obtain t1 where t1: "buf @ bytes = h @ crlf2 @ t1" using before_terminator [OF pre(2) assms(2) True] by blast
    have "Index (buf @ bytes) crlf2 = Some (length h)" unfolding t1 using Index_append [OF assms(2)] by simp
    moreover have "bytes \<noteq> []" using True Cons.prems(2) by auto
    ultimately have "readHead buf (r # rs) = Some (Inr (h @ crlf2, t1, httpRequestHeadIsUpgrade (h @ crlf2)), rs)"
      using small t1 by (subst readHead.simps) (simp add: r Let_def)
    moreover have "t1 @ concat (map fst rs) = t" using Cons.prems(1) t1 r
      by (metis append_assoc concat.simps(2) fst_conv list.simps(9) same_append_eq)
    ultimately show ?thesis by blast
  next
    case False
    then have "Index (buf @ bytes) crlf2 = None" using Index_None by blast
    then have "readHead buf (r # rs) = readHead (buf @ bytes) rs"
      using small by (subst readHead.simps) (simp add: r Let_def)
    then show ?thesis using Cons.IH [of "buf @ bytes"] Cons.prems False r by simp
  qed
qed

lemma one_line_no_terminator:
  assumes "list_all one_line ls" "[] \<notin> set ls" "ls \<noteq> []"
  shows "\<not> sublist crlf2 (Join ls crlf @ crlf @ [cr])"
  using assms
proof (induction ls)
  case (Cons l ls)
  have l: "\<not> sublist crlf l" using Cons.prems(1) by (simp add: one_line_def Contains_iff)
  let ?R = "(if ls = [] then [] else Join ls crlf @ crlf) @ [cr]"
  have "\<not> prefix crlf ?R"
  proof (cases ls)
    case (Cons m ms)
    then have m: "m \<noteq> []" "\<not> sublist crlf m" using Cons.prems(1,2) by (auto simp: one_line_def Contains_iff)
    have "\<not> prefix crlf (m @ cr # x)" for x using m by (cases m; cases "tl m") (auto simp: crlf_def)
    moreover have "\<exists>x. ?R = m @ cr # x" using Cons by (cases ms) (auto simp: crlf_def)
    ultimately show ?thesis by metis
  qed (simp add: crlf_def)
  moreover have "\<not> sublist crlf2 ?R"
  proof (cases "ls = []")
    case False
    then show ?thesis using Cons.IH Cons.prems by simp
  qed (simp add: crlf_def sublist_Cons_right)
  ultimately have "\<not> sublist crlf2 (l @ crlf @ ?R)" using break_after_line [OF l, of crlf ?R] by simp
  moreover have "Join (l # ls) crlf @ crlf @ [cr] = l @ crlf @ ?R" by (cases ls) simp_all
  ultimately show ?case by metis
qed simp

lemma ReadDockerAPIRequestHead_split:
  assumes "concat (map fst rs) = request_head line headers @ t" "\<forall>r \<in> set rs. snd r = None"
    "list_all one_line (line # headers)" "[] \<notin> set (line # headers)"
    "int (length (request_head line headers)) \<le> dockerAPIMaxHTTPHeader"
  shows "\<exists>rest rs'. ReadDockerAPIRequestHead rs =
      Some (Inr (request_head line headers, rest, httpRequestHeadIsUpgrade (request_head line headers)), rs')
    \<and> rest @ concat (map fst rs') = t"
proof -
  let ?h = "Join (line # headers) crlf"
  have "\<not> sublist crlf2 (?h @ butlast crlf2)"
    using one_line_no_terminator [OF assms(3,4)] by (simp add: crlf_def)
  moreover have "\<not> sublist crlf2 []" by (simp add: crlf_def)
  ultimately show ?thesis using assms(1,2,5) readHead_split [of "[]" rs ?h t]
    by (simp add: ReadDockerAPIRequestHead_def request_head_def)
qed

definition upgradeHeader :: "string \<Rightarrow> bool" where
  "upgradeHeader l = HasPrefix (ToLower l) ''upgrade:''"

lemma upgrade_head:
  "list_all one_line (line # headers) \<Longrightarrow>
    httpRequestHeadIsUpgrade (request_head line headers) = list_ex upgradeHeader headers"
  using header_starts [OF _ no_cr_literals(1)] by (simp add: httpRequestHeadIsUpgrade_def upgradeHeader_def list_ex_iff)

text \<open>A request as Docker clients send it: a request line with a version, headers, no upgrade.\<close>

definition docker_request :: "string \<Rightarrow> string \<Rightarrow> string \<Rightarrow> string \<Rightarrow> string list \<Rightarrow> bool" where
  "docker_request meth ver path proto headers \<longleftrightarrow>
     versioned meth ver path \<and> list_all one_line (request_line meth ver path proto # headers)
     \<and> one_line (request_line meth (sent_version ver) path proto)
     \<and> \<not> HasPrefix (ToLower meth) ''content-length:'' \<and> list_all (\<lambda>h. h \<noteq> [] \<and> \<not> upgradeHeader h) headers
     \<and> int (length (request_head (request_line meth ver path proto) headers)) \<le> dockerAPIMaxHTTPHeader"

definition sent_head :: "string \<Rightarrow> string \<Rightarrow> string \<Rightarrow> string \<Rightarrow> string list \<Rightarrow> string" where
  "sent_head meth ver path proto headers =
     request_head (request_line meth (sent_version ver) path proto)
       (filter (\<lambda>l. \<not> connectionHeader l) headers @ [''Connection: close''])"

lemma rewritten_head:
  assumes "docker_request meth ver path proto headers"
  shows "forceHTTPConnectionClose
      (ClampDockerAPIVersion (request_head (request_line meth ver path proto) headers) GuestDockerAPIVersion)
    = sent_head meth ver path proto headers"
  using assms clamp_head [of meth ver path proto headers] close_head [of "request_line meth (sent_version ver) path proto" headers]
  by (simp add: docker_request_def sent_head_def)

lemma no_length_line: "\<not> HasPrefix (ToLower meth) ''content-length:'' \<Longrightarrow> CHR '' '' \<notin> set meth \<Longrightarrow>
  \<not> HasPrefix (ToLower (request_line meth ver path proto)) ''content-length:''"
proof
  let ?p = "''content-length:''" and ?r = "CHR '' '' # ToLower (''/v'' @ ver @ path @ '' '' @ proto)"
  assume a: "\<not> HasPrefix (ToLower meth) ?p"
    and "HasPrefix (ToLower (request_line meth ver path proto)) ?p"
  moreover have "ToLower (request_line meth ver path proto) = ToLower meth @ ?r"
    by (simp add: request_line_def ToLower_def lower_char_def)
  ultimately obtain x where "?p = ToLower meth @ x" "prefix x ?r" "x \<noteq> []"
    by (auto simp: HasPrefix_def prefix_append)
  then have "CHR '' '' \<in> set ?p" by (cases x) auto
  then show False by simp
qed

lemma sent_length:
  assumes "docker_request meth ver path proto headers"
  shows "httpRequestContentLength (sent_head meth ver path proto headers) =
    (if list_ex chunkedHeader headers then None else length_loop headers)"
proof -
  have "list_all one_line (request_line meth (sent_version ver) path proto # filter (\<lambda>l. \<not> connectionHeader l) headers @ [''Connection: close''])"
    using assms one_line_close by (auto simp: docker_request_def list_all_iff)
  moreover have "\<not> HasPrefix (ToLower (request_line meth (sent_version ver) path proto)) ''content-length:''"
    using assms no_length_line by (simp add: docker_request_def versioned_def)
  ultimately show ?thesis
    using content_length_head chunked_close length_loop_close by (simp add: sent_head_def)
qed

lemma copied_body:
  assumes "cn_room c = None" "n \<le> length (rest @ cn_client c)"
  shows "copy_from_client rest n c =
    (None, c\<lparr>cn_engine := cn_engine c @ take n (rest @ cn_client c), cn_client := drop (n - length rest) (cn_client c)\<rparr>)"
  using assms by (simp add: copy_from_client_def server_Write_def Let_def)

section \<open>Properties of the forwarding\<close>

text \<open>
  C22: However the bytes of a request arrive, the engine gets exactly this request: the version lowered to what it
  accepts, the connection headers replaced by one that closes, and as many body bytes as announced; what the
  client sends after it is not forwarded.
\<close>

theorem one_request_forwarded:
  assumes "docker_request meth ver path proto headers" "\<not> list_ex chunkedHeader headers" "length_loop headers = Some n"
    "concat (map fst rs) = request_head (request_line meth ver path proto) headers @ body @ later" "length body = nat n"
    "\<forall>r \<in> set rs. snd r = None" "cn_room c = None"
  shows "\<exists>c'. ProxyDockerAPI rs c = Some c'
    \<and> cn_engine c' = cn_engine c @ sent_head meth ver path proto headers @ body
    \<and> cn_received c' = cn_received c @ cn_answer c \<and> cn_closed c'
    \<and> \<not> dockerAPIVersionNewer (sent_version ver) GuestDockerAPIVersion"
proof -
  let ?l = "request_line meth ver path proto"
  have ok: "list_all one_line (?l # headers)" "[] \<notin> set (?l # headers)"
    "int (length (request_head ?l headers)) \<le> dockerAPIMaxHTTPHeader"
    using assms(1) by (auto simp: docker_request_def list_all_iff request_line_def)
  obtain rest rs' where r: "ReadDockerAPIRequestHead rs = Some (Inr (request_head ?l headers, rest, httpRequestHeadIsUpgrade (request_head ?l headers)), rs')"
    "rest @ concat (map fst rs') = body @ later"
    using ReadDockerAPIRequestHead_split [OF assms(4,6) ok] by blast
  have up: "\<not> httpRequestHeadIsUpgrade (request_head ?l headers)"
    using assms(1) upgrade_head [OF ok(1)] by (simp add: docker_request_def list_ex_iff list_all_iff)
  have len: "httpRequestContentLength (sent_head meth ver path proto headers) = Some n"
    using sent_length [OF assms(1)] assms(2,3) by simp
  let ?c0 = "c\<lparr>cn_client := concat (map fst rs')\<rparr>"
  have w: "server_Write (sent_head meth ver path proto headers) ?c0 = (None, ?c0\<lparr>cn_engine := cn_engine c @ sent_head meth ver path proto headers\<rparr>)"
    using assms(7) by (simp add: server_Write_def)
  have body: "take (nat n) (rest @ concat (map fst rs')) = body" "nat n \<le> length (rest @ concat (map fst rs'))"
    unfolding r(2) using assms(5) by simp_all
  have "body = []" if "n \<le> 0" using assms(5) that by simp
  then show ?thesis
    using r(1) up w len rewritten_head [OF assms(1)] body copied_body [of "?c0\<lparr>cn_engine := cn_engine c @ sent_head meth ver path proto headers\<rparr>" "nat n" rest]
      assms(5,7) sent_version_not_newer
    by (simp add: ProxyDockerAPI_def ProxyDockerAPIWithHead_def forwardDockerAPIRequestBody_def Let_def split: if_splits)
qed

definition create_headers :: "string list" where
  "create_headers = [''Host: docker'', ''Connection: keep-alive'', ''Content-Length: 2'']"

definition fresh_conns :: conns where
  "fresh_conns = \<lparr>cn_client = [], cn_engine = [], cn_room = None, cn_answer = ''HTTP/1.1 201 Created'', cn_received = [], cn_closed = False\<rparr>"

theorem one_request_forwarded_witness:
  "\<exists>c'. ProxyDockerAPI [(''POST /v1.55/containers/create HTTP/1.1'' @ crlf @ ''Host: docker'' @ crlf @ ''Connection: keep'', None),
        (''-alive'' @ crlf @ ''Content-Length: 2'' @ crlf2 @ ''{}GET'', None)] fresh_conns = Some c'
    \<and> cn_engine c' = request_head ''POST /v1.52/containers/create HTTP/1.1''
        [''Host: docker'', ''Content-Length: 2'', ''Connection: close''] @ ''{}''"
proof -
  let ?rs = "[(''POST /v1.55/containers/create HTTP/1.1'' @ crlf @ ''Host: docker'' @ crlf @ ''Connection: keep'', None),
        (''-alive'' @ crlf @ ''Content-Length: 2'' @ crlf2 @ ''{}GET'', None)] :: reads"
  have r: "docker_request ''POST'' ''1.55'' ''/containers/create'' ''HTTP/1.1'' create_headers" by code_simp
  have h: "\<not> list_ex chunkedHeader create_headers" by code_simp
  have l: "length_loop create_headers = Some 2" by code_simp
  have s: "sent_head ''POST'' ''1.55'' ''/containers/create'' ''HTTP/1.1'' create_headers =
      request_head ''POST /v1.52/containers/create HTTP/1.1'' [''Host: docker'', ''Content-Length: 2'', ''Connection: close'']"
    by code_simp
  have b: "concat (map fst ?rs) = request_head (request_line ''POST'' ''1.55'' ''/containers/create'' ''HTTP/1.1'') create_headers
      @ ''{}'' @ ''GET''" by code_simp
  show ?thesis
    using one_request_forwarded [OF r h l b, of fresh_conns] by (auto simp: fresh_conns_def s)
qed

text \<open>
  The body of a chunked request is forwarded only as far as it was read together with the head: whatever the
  client sends later is lost, and the engine waits for the rest of it.
\<close>

theorem chunked_body_is_cut:
  assumes "docker_request meth ver path proto headers" "list_ex chunkedHeader headers" "cn_room c = None"
  shows "cn_engine (ProxyDockerAPIWithHead (request_head (request_line meth ver path proto) headers) rest False c) =
    cn_engine c @ sent_head meth ver path proto headers @ rest
    \<and> cn_client (ProxyDockerAPIWithHead (request_head (request_line meth ver path proto) headers) rest False c) = cn_client c"
  using rewritten_head [OF assms(1)] sent_length [OF assms(1)] assms(2,3)
  by (simp add: ProxyDockerAPIWithHead_def forwardDockerAPIRequestBody_def server_Write_def Let_def)

theorem chunked_body_is_cut_witness:
  "cn_engine (ProxyDockerAPIWithHead (request_head (request_line ''POST'' ''1.52'' ''/build'' ''HTTP/1.1'') [''Transfer-Encoding: chunked''])
      ''5'' False (fresh_conns\<lparr>cn_client := ''later''\<rparr>)) =
    sent_head ''POST'' ''1.52'' ''/build'' ''HTTP/1.1'' [''Transfer-Encoding: chunked''] @ ''5''"
proof -
  have r: "docker_request ''POST'' ''1.52'' ''/build'' ''HTTP/1.1'' [''Transfer-Encoding: chunked'']" by code_simp
  have c: "list_ex chunkedHeader [''Transfer-Encoding: chunked'']" by code_simp
  show ?thesis using chunked_body_is_cut [OF r c, of "fresh_conns\<lparr>cn_client := ''later''\<rparr>" "''5''"] by (simp add: fresh_conns_def)
qed

text \<open>
  The version is looked for anywhere in the path: a request without a version for a container named like one
  is sent to another container.
\<close>

theorem clamp_renames_container:
  "ClampDockerAPIVersion (request_head ''GET /containers/v2/json HTTP/1.1'' [''Host: docker'']) GuestDockerAPIVersion
    = request_head ''GET /containers/v1.52/json HTTP/1.1'' [''Host: docker'']"
  by code_simp

end
