(* ===== verification/Calf_Socket_Proxy.thy ===== *)
theory Calf_Socket_Proxy
  imports Calf_Docker_Proxy Calf_Time
begin

text \<open>
  \<open>daemon/docker_socket_proxy.go\<close>: the owner of the public Docker socket.  The first part is the life cycle of
  the listener, with the channels that tell an accept loop to end and wait for it; the second part is the
  handling of one connection: the gate, dialling the engine, waking it.
\<close>

section \<open>The listener\<close>

text \<open>
  What is at the public path: nothing, a symbolic link, a plain file, a directory that cannot be removed, the
  socket of one of our listeners, or a socket of somebody else.
\<close>

datatype path_node = Absent | Link | Plain | Full | Sock nat | ForeignSock

fun is_socket :: "path_node \<Rightarrow> bool" where
  "is_socket (Sock _) = True"
| "is_socket ForeignSock = True"
| "is_socket _ = False"

text \<open>
  Listeners and channels are numbered as they are made.  \<open>sp_loops\<close> are the accept loops that run, each with its
  listener and the channel it closes at its end; \<open>sp_closed\<close> are the closed channels.
\<close>

record dockerSocketProxy =
  sp_public :: string
  sp_engine :: string
  sp_listener :: "nat option"
  sp_stopCh :: nat
  sp_doneCh :: nat
  sp_stopped :: bool
  sp_next :: nat
  sp_open :: "nat list"
  sp_loops :: "(nat \<times> nat) list"
  sp_closed :: "nat list"
  sp_path :: path_node

definition newDockerSocketProxy :: "string \<Rightarrow> string \<Rightarrow> path_node \<Rightarrow> dockerSocketProxy" where
  "newDockerSocketProxy public engine node =
     \<lparr>sp_public = public, sp_engine = engine, sp_listener = None, sp_stopCh = 0, sp_doneCh = 1, sp_stopped = False,
      sp_next = 2, sp_open = [], sp_loops = [], sp_closed = [], sp_path = node\<rparr>"

text \<open>The faults of one attempt to listen.\<close>

record listen_faults =
  lf_mkdir :: "go_error option"
  lf_remove :: "go_error option"
  lf_listen :: "go_error option"
  lf_chmod :: "go_error option"

definition no_listen_faults :: listen_faults where
  "no_listen_faults = \<lparr>lf_mkdir = None, lf_remove = None, lf_listen = None, lf_chmod = None\<rparr>"

definition unlinked :: "path_node \<Rightarrow> path_node" where
  "unlinked node = (if node = Full then Full else Absent)"

definition removePath :: "listen_faults \<Rightarrow> dockerSocketProxy \<Rightarrow> dockerSocketProxy" where
  "removePath io p = (if lf_remove io = None then p\<lparr>sp_path := unlinked (sp_path p)\<rparr> else p)"

text \<open>Closing a listener unlinks its path and ends its accept loop, which closes its channel.\<close>

definition closeListener :: "nat \<Rightarrow> dockerSocketProxy \<Rightarrow> dockerSocketProxy" where
  "closeListener l p =
     (if l \<in> set (sp_open p)
      then p\<lparr>sp_open := removeAll l (sp_open p), sp_path := unlinked (sp_path p),
             sp_closed := map snd (filter (\<lambda>(x, _). x = l) (sp_loops p)) @ sp_closed p,
             sp_loops := filter (\<lambda>(x, _). x \<noteq> l) (sp_loops p)\<rparr>
      else p)"

text \<open>
  An accept loop that meets an error of \<open>Accept\<close> ends in the same way, but its listener stays open, and set.
\<close>

definition accept_ends :: "nat \<Rightarrow> dockerSocketProxy \<Rightarrow> dockerSocketProxy" where
  "accept_ends l p =
     p\<lparr>sp_closed := map snd (filter (\<lambda>(x, _). x = l) (sp_loops p)) @ sp_closed p,
       sp_loops := filter (\<lambda>(x, _). x \<noteq> l) (sp_loops p)\<rparr>"

definition failDone :: "dockerSocketProxy \<Rightarrow> dockerSocketProxy" where
  "failDone p = (if sp_doneCh p \<in> set (sp_closed p) then p else p\<lparr>sp_closed := sp_doneCh p # sp_closed p\<rparr>)"

definition inUse :: go_error where "inUse = Errorf ''bind: address already in use''"

definition listen :: "listen_faults \<Rightarrow> dockerSocketProxy \<Rightarrow> go_error option \<times> dockerSocketProxy" where
  "listen io p =
     (case lf_mkdir io of
        Some e \<Rightarrow> (Some (Wrap ''create docker socket dir'' e), failDone p)
      | None \<Rightarrow>
          let p1 = removePath io p in
          case (if sp_path p1 \<noteq> Absent then Some inUse else lf_listen io) of
            Some e \<Rightarrow> (Some (Wrap (''listen on docker socket '' @ sp_public p) e), failDone p1)
          | None \<Rightarrow>
              let l = sp_next p1; p2 = p1\<lparr>sp_path := Sock l, sp_open := l # sp_open p1, sp_next := l + 1\<rparr> in
              (case lf_chmod io of
                 Some e \<Rightarrow> (Some (Wrap ''chmod docker socket'' e), failDone (removePath io (closeListener l p2)))
               | None \<Rightarrow>
                   (None, p2\<lparr>sp_listener := Some l, sp_stopCh := l + 1, sp_doneCh := l + 2, sp_stopped := False,
                             sp_loops := (l, l + 2) # sp_loops p2, sp_next := l + 3\<rparr>)))"

text \<open>
  It waits until the accept loop has ended; \<open>None\<close> is waiting forever, because nobody is left who would close
  the channel.
\<close>

definition shutdownListener :: "dockerSocketProxy \<Rightarrow> dockerSocketProxy option" where
  "shutdownListener p =
     (let p1 = p\<lparr>sp_listener := None\<rparr>;
          p2 = (if sp_stopCh p \<in> set (sp_closed p1) then p1 else p1\<lparr>sp_closed := sp_stopCh p # sp_closed p1\<rparr>);
          p3 = (case sp_listener p of Some l \<Rightarrow> closeListener l p2 | None \<Rightarrow> p2)
      in if sp_doneCh p \<in> set (sp_closed p3) then Some p3 else None)"

definition publicPathIsSocket :: "dockerSocketProxy \<Rightarrow> bool" where
  "publicPathIsSocket p = is_socket (sp_path p)"

definition owns :: "dockerSocketProxy \<Rightarrow> bool" where
  "owns p \<longleftrightarrow> sp_listener p \<noteq> None \<and> publicPathIsSocket p"

text \<open>Closing a closed channel panics; the outer \<open>None\<close> is a panic or a wait without end.\<close>

definition Start :: "listen_faults \<Rightarrow> dockerSocketProxy \<Rightarrow> (go_error option \<times> dockerSocketProxy) option" where
  "Start io p =
     (if sp_public p = [] \<or> sp_engine p = [] \<or> sp_public p = sp_engine p
      then if sp_doneCh p \<in> set (sp_closed p) then None
           else Some (None, p\<lparr>sp_stopped := True, sp_closed := sp_doneCh p # sp_closed p\<rparr>)
      else Some (listen io p))"

definition relisten :: "listen_faults \<Rightarrow> dockerSocketProxy \<Rightarrow> (go_error option \<times> dockerSocketProxy) option" where
  "relisten io p = map_option (listen io) (shutdownListener p)"

definition UseProxy :: "listen_faults \<Rightarrow> dockerSocketProxy \<Rightarrow> (go_error option \<times> dockerSocketProxy) option" where
  "UseProxy io p = (if sp_stopped p then Some (None, p) else if owns p then Some (None, p) else relisten io p)"

definition UseDirect :: "listen_faults \<Rightarrow> dockerSocketProxy \<Rightarrow> (go_error option \<times> dockerSocketProxy) option" where
  "UseDirect io p = UseProxy io p"

definition Rebind :: "listen_faults \<Rightarrow> dockerSocketProxy \<Rightarrow> (go_error option \<times> dockerSocketProxy) option" where
  "Rebind io p =
     (if sp_stopped p then Some (None, p)
      else if sp_path p = Link then relisten io p
      else if owns p then Some (None, p)
      else relisten io p)"

definition Stop :: "listen_faults \<Rightarrow> dockerSocketProxy \<Rightarrow> dockerSocketProxy option" where
  "Stop io p =
     (if sp_stopped p then Some p
      else map_option (removePath io) (shutdownListener (p\<lparr>sp_stopped := True\<rparr>)))"

subsection \<open>Runs of the proxy\<close>

text \<open>
  After \<open>Start\<close>, the daemon calls \<open>UseProxy\<close>, the watcher calls \<open>Rebind\<close>, shutdown calls \<open>Stop\<close>, each under the
  switch mutex and with faults of its own; between them other programs may change the public path, and an accept
  loop may end on an error of \<open>Accept\<close>.
\<close>

inductive sstep :: "dockerSocketProxy \<Rightarrow> dockerSocketProxy \<Rightarrow> bool" where
  s_use: "UseProxy io p = Some (e, p') \<Longrightarrow> sstep p p'"
| s_rebind: "Rebind io p = Some (e, p') \<Longrightarrow> sstep p p'"
| s_stop: "Stop io p = Some p' \<Longrightarrow> sstep p p'"
| s_outside: "(\<And>l. node \<noteq> Sock l) \<Longrightarrow> sstep p (p\<lparr>sp_path := node\<rparr>)"
| s_accept_error: "sstep p (accept_ends l p)"

inductive started :: "dockerSocketProxy \<Rightarrow> bool" where
  st_init: "Start io (newDockerSocketProxy public engine node) = Some (e, p) \<Longrightarrow> (\<And>l. node \<noteq> Sock l) \<Longrightarrow> started p"
| st_step: "started p \<Longrightarrow> sstep p p' \<Longrightarrow> started p'"

text \<open>
  The invariant: there is at most one listener and one accept loop, they belong together, and the channel of a
  proxy that does not listen, or whose accept loop has ended, is closed.
\<close>

definition sock_inv :: "dockerSocketProxy \<Rightarrow> bool" where
  "sock_inv p \<longleftrightarrow>
     (case sp_listener p of
        None \<Rightarrow> sp_open p = [] \<and> sp_loops p = [] \<and> sp_doneCh p \<in> set (sp_closed p)
      | Some l \<Rightarrow> sp_open p = [l] \<and> l < sp_next p \<and> \<not> sp_stopped p
          \<and> (sp_loops p = [(l, sp_doneCh p)] \<or> sp_loops p = [] \<and> sp_doneCh p \<in> set (sp_closed p)))
     \<and> (\<forall>l. sp_path p = Sock l \<longrightarrow> sp_listener p = Some l)"

lemma unlinked_not_Sock [simp]: "unlinked node \<noteq> Sock l" "unlinked node \<noteq> ForeignSock" "unlinked node \<noteq> Link"
  by (simp_all add: unlinked_def)

lemma shutdown_idle:
  assumes "sock_inv p"
  shows "\<exists>p'. shutdownListener p = Some p' \<and> sp_listener p' = None \<and> sp_open p' = [] \<and> sp_loops p' = []
    \<and> sp_doneCh p' \<in> set (sp_closed p') \<and> sp_stopped p' = sp_stopped p
    \<and> (\<forall>l. sp_path p' \<noteq> Sock l) \<and> sp_path p' \<in> {sp_path p, unlinked (sp_path p)}"
  using assms by (cases "sp_listener p") (auto simp: sock_inv_def shutdownListener_def closeListener_def Let_def)

lemma listen_idle:
  assumes "sp_listener p = None" "sp_open p = []" "sp_loops p = []" "sp_doneCh p \<in> set (sp_closed p)" "\<forall>l. sp_path p \<noteq> Sock l"
    "listen io p = (e, p')"
  shows "sock_inv p'" "e = None \<longleftrightarrow> sp_listener p' \<noteq> None" "e = None \<Longrightarrow> \<exists>l. sp_listener p' = Some l \<and> sp_path p' = Sock l"
    "sp_stopped p' \<longrightarrow> sp_stopped p" "e = None \<Longrightarrow> sp_loops p' \<noteq> []"
  using assms
  by (auto simp: listen_def sock_inv_def failDone_def removePath_def closeListener_def Let_def
      split: option.splits if_splits)

lemma listen_repairs:
  assumes "listen no_listen_faults p = (e, p')" "sp_path p \<noteq> Full"
  shows "e = None"
  using assms by (auto simp: listen_def removePath_def unlinked_def no_listen_faults_def Let_def split: if_splits)

lemma relisten_ok:
  assumes "sock_inv p"
  shows "\<exists>e p'. relisten io p = Some (e, p') \<and> sock_inv p'
    \<and> (e = None \<longrightarrow> (\<exists>l. sp_listener p' = Some l \<and> sp_path p' = Sock l \<and> sp_loops p' \<noteq> []))
    \<and> (e \<noteq> None \<longrightarrow> sp_listener p' = None)
    \<and> (io = no_listen_faults \<and> sp_path p \<noteq> Full \<longrightarrow> e = None)"
proof -
  obtain q where q: "shutdownListener p = Some q" "sp_listener q = None" "sp_open q = []" "sp_loops q = []"
      "sp_doneCh q \<in> set (sp_closed q)" "\<forall>l. sp_path q \<noteq> Sock l" "sp_path q \<in> {sp_path p, unlinked (sp_path p)}"
    using shutdown_idle [OF assms] by blast
  obtain e p' where l: "listen io q = (e, p')" by fastforce
  have "sp_path p \<noteq> Full \<Longrightarrow> sp_path q \<noteq> Full" using q(7) by (auto simp: unlinked_def split: if_splits)
  then show ?thesis using q(1) l listen_idle [OF q(2-6) l] listen_repairs [of q e p'] by (auto simp: relisten_def)
qed

lemma stop_ok:
  assumes "sock_inv p"
  shows "\<exists>p'. Stop io p = Some p' \<and> sock_inv p' \<and> sp_stopped p'
    \<and> (\<not> sp_stopped p \<longrightarrow> sp_listener p' = None \<and> sp_loops p' = [] \<and> \<not> is_socket (sp_path p') \<or> lf_remove io \<noteq> None)"
proof (cases "sp_stopped p")
  case True
  then show ?thesis using assms by (simp add: Stop_def)
next
  case False
  have "\<exists>p'. shutdownListener (p\<lparr>sp_stopped := True\<rparr>) = Some p' \<and> sp_listener p' = None \<and> sp_open p' = [] \<and> sp_loops p' = []
    \<and> sp_doneCh p' \<in> set (sp_closed p') \<and> sp_stopped p' \<and> (\<forall>l. sp_path p' \<noteq> Sock l)"
    using assms by (cases "sp_listener p") (auto simp: sock_inv_def shutdownListener_def closeListener_def Let_def)
  then obtain q where q: "shutdownListener (p\<lparr>sp_stopped := True\<rparr>) = Some q" "sp_listener q = None" "sp_open q = []" "sp_loops q = []"
    "sp_doneCh q \<in> set (sp_closed q)" "sp_stopped q" "\<forall>l. sp_path q \<noteq> Sock l" by blast
  have "Stop io p = Some (removePath io q)" using False q(1) by (simp add: Stop_def)
  moreover have "sock_inv (removePath io q)" "sp_stopped (removePath io q)" "sp_listener (removePath io q) = None"
    "sp_loops (removePath io q) = []" "\<not> is_socket (sp_path (removePath io q)) \<or> lf_remove io \<noteq> None"
    using q(2-7) by (auto simp: sock_inv_def removePath_def unlinked_def)
  ultimately show ?thesis by blast
qed

lemma UseProxy_ok: "sock_inv p \<Longrightarrow> \<exists>e p'. UseProxy io p = Some (e, p') \<and> sock_inv p'"
  using relisten_ok [of p io] by (auto simp: UseProxy_def)

lemma Rebind_ok: "sock_inv p \<Longrightarrow> \<exists>e p'. Rebind io p = Some (e, p') \<and> sock_inv p'"
  using relisten_ok [of p io] by (auto simp: Rebind_def)

lemma started_inv: "started p \<Longrightarrow> sock_inv p"
proof (induction rule: started.induct)
  case (st_init io public engine node e p)
  let ?n = "newDockerSocketProxy public engine node"
  consider "p = ?n\<lparr>sp_stopped := True, sp_closed := [1]\<rparr>" | "listen io ?n = (e, p)"
    using st_init(1) by (auto simp: Start_def newDockerSocketProxy_def split: if_splits)
  then show ?case
  proof cases
    case 2
    then show ?thesis using st_init(2)
      by (auto simp: newDockerSocketProxy_def listen_def sock_inv_def failDone_def removePath_def closeListener_def Let_def
          split: option.splits if_splits)
  qed (use st_init(2) in \<open>simp add: sock_inv_def newDockerSocketProxy_def\<close>)
next
  case (st_step p p')
  from st_step(2) show ?case
  proof cases
    case (s_use io e)
    then show ?thesis using UseProxy_ok [OF st_step(3), of io] by auto
  next
    case (s_rebind io e)
    then show ?thesis using Rebind_ok [OF st_step(3), of io] by auto
  next
    case (s_stop io)
    then show ?thesis using stop_ok [OF st_step(3), of io] by auto
  next
    case (s_outside node)
    then show ?thesis using st_step(3) by (auto simp: sock_inv_def split: option.splits)
  next
    case (s_accept_error l)
    have "sock_inv (accept_ends l p)"
    proof (cases "\<exists>d. sp_listener p = Some l \<and> sp_loops p = [(l, d)]")
      case False
      then have "accept_ends l p = p" using st_step(3) by (auto simp: sock_inv_def accept_ends_def split: option.splits)
      then show ?thesis using st_step(3) by simp
    qed (use st_step(3) in \<open>auto simp: sock_inv_def accept_ends_def\<close>)
    then show ?thesis using s_accept_error by simp
  qed
qed

section \<open>Handling a connection\<close>

definition dockerProxyMaxConcurrent :: nat where "dockerProxyMaxConcurrent = 4"

definition dockerProxyDialProbe :: int where "dockerProxyDialProbe = 2 * Second"

definition dockerProxyDialAfterWake :: int where "dockerProxyDialAfterWake = 30 * Second"

text \<open>
  Two gates limit the connections: the one of the guest runtime (\<open>runtime/guest_darwin.go\<close>), a nil channel for a guest
  made without one, which the proxy uses when the runtime is a guest, and the proxy's own one otherwise. Of a buffered
  channel only the number of entries matters. A \<open>select\<close> between entering it and the end of the context may take either
  that is ready: the value lists the possible outcomes, none being a wait.
\<close>

definition engineConnMaxConcurrent :: nat where "engineConnMaxConcurrent = 4"

definition select_slot :: "nat \<Rightarrow> go_error option \<Rightarrow> nat \<Rightarrow> (go_error option \<times> nat) list" where
  "select_slot capacity ctxErr slots =
     (if slots < capacity then [(None, slots + 1)] else []) @ (case ctxErr of Some e \<Rightarrow> [(Some e, slots)] | None \<Rightarrow> [])"

definition AcquireEngineConn :: "go_error option \<Rightarrow> nat option \<Rightarrow> (go_error option \<times> nat option) list" where
  "AcquireEngineConn ctxErr engineConnGate =
     (case engineConnGate of
        None \<Rightarrow> [(None, None)]
      | Some slots \<Rightarrow> map (\<lambda>(e, s). (e, Some s)) (select_slot engineConnMaxConcurrent ctxErr slots))"

definition ReleaseEngineConn :: "nat option \<Rightarrow> nat option" where
  "ReleaseEngineConn engineConnGate =
     (case engineConnGate of None \<Rightarrow> None | Some slots \<Rightarrow> Some (if slots > 0 then slots - 1 else slots))"

text \<open>\<open>cg_gater\<close>: whether the runtime is a guest, which is then the gater; the last two are the dial mutexes.\<close>

record connGates =
  cg_gater :: bool
  cg_engineConnGate :: "nat option"
  cg_gate :: nat
  cg_engineDialMu :: bool
  cg_dialMu :: bool

definition acquireConn :: "go_error option \<Rightarrow> connGates \<Rightarrow> (go_error option \<times> connGates) list" where
  "acquireConn ctxErr g =
     (if cg_gater g then map (\<lambda>(e, s). (e, g\<lparr>cg_engineConnGate := s\<rparr>)) (AcquireEngineConn ctxErr (cg_engineConnGate g))
      else map (\<lambda>(e, s). (e, g\<lparr>cg_gate := s\<rparr>)) (select_slot dockerProxyMaxConcurrent ctxErr (cg_gate g)))"

definition releaseConn :: "connGates \<Rightarrow> connGates" where
  "releaseConn g =
     (if cg_gater g then g\<lparr>cg_engineConnGate := ReleaseEngineConn (cg_engineConnGate g)\<rparr>
      else g\<lparr>cg_gate := (if cg_gate g > 0 then cg_gate g - 1 else cg_gate g)\<rparr>)"

text \<open>One dial is made while its mutex is held: the guest's, or that of the proxy; \<open>None\<close> is a wait for the mutex.\<close>

definition DialEngineSocket_lock :: "connGates \<Rightarrow> connGates option" where
  "DialEngineSocket_lock g = (if cg_engineDialMu g then None else Some (g\<lparr>cg_engineDialMu := True\<rparr>))"

definition DialEngineSocket_unlock :: "connGates \<Rightarrow> connGates" where
  "DialEngineSocket_unlock g = g\<lparr>cg_engineDialMu := False\<rparr>"

definition dialEngineOnce_lock :: "connGates \<Rightarrow> connGates option" where
  "dialEngineOnce_lock g =
     (if cg_gater g then DialEngineSocket_lock g else if cg_dialMu g then None else Some (g\<lparr>cg_dialMu := True\<rparr>))"

definition dialEngineOnce_unlock :: "connGates \<Rightarrow> connGates" where
  "dialEngineOnce_unlock g = (if cg_gater g then DialEngineSocket_unlock g else g\<lparr>cg_dialMu := False\<rparr>)"

text \<open>
  Dialling: one entry per round of the loop, with the time at its start, what the dial returns and the error
  of the context after it.  \<open>None\<close> is a loop that has not ended.
\<close>

fun dial_loop :: "string \<Rightarrow> (Time \<times> 'c result \<times> go_error option) list \<Rightarrow> Time \<Rightarrow> go_error option \<Rightarrow> 'c result option" where
  "dial_loop engine [] deadline lastErr = None"
| "dial_loop engine ((now, res, ctxErr) # rounds) deadline lastErr =
     (if \<not> now < deadline
      then Some (Inl (case lastErr of None \<Rightarrow> Errorf (''engine socket not ready at '' @ engine) | Some e \<Rightarrow> e))
      else case res of
        Inr conn \<Rightarrow> Some (Inr conn)
      | Inl e \<Rightarrow> (case ctxErr of Some ce \<Rightarrow> Some (Inl ce) | None \<Rightarrow> dial_loop engine rounds deadline (Some e)))"

definition dialEngine ::
    "string \<Rightarrow> Time option \<Rightarrow> Time \<Rightarrow> int \<Rightarrow> (Time \<times> 'c result \<times> go_error option) list \<Rightarrow> 'c result option" where
  "dialEngine engine ctxDeadline now timeout rounds =
     (let deadline = (case ctxDeadline of Some t \<Rightarrow> if t < now + timeout then t else now + timeout | None \<Rightarrow> now + timeout)
      in dial_loop engine rounds deadline None)"

text \<open>
  What happens to one accepted connection, given what each step meets: the head of the request, the context
  while it waits at the gate, the dials, and the wake-up.  The result lists what was done.
\<close>

datatype event = Acquired | Woken | Forwarded string string bool | Released | ClosedClient

definition handle ::
    "(string \<times> string \<times> bool) result \<Rightarrow> bool \<Rightarrow> unit result option \<Rightarrow> go_error option \<Rightarrow> unit result option \<Rightarrow> event list option" where
  "handle head gotSlot probe wakeErr dial2 =
     (case head of
        Inl _ \<Rightarrow> Some [ClosedClient]
      | Inr (h, rest, upgrade) \<Rightarrow>
          if \<not> gotSlot then Some [ClosedClient]
          else case probe of
            None \<Rightarrow> None
          | Some (Inr _) \<Rightarrow> Some [Acquired, Forwarded h rest upgrade, Released, ClosedClient]
          | Some (Inl _) \<Rightarrow>
              (case wakeErr of
                 Some _ \<Rightarrow> Some [Acquired, Woken, Released, ClosedClient]
               | None \<Rightarrow>
                   (case dial2 of
                      None \<Rightarrow> None
                    | Some (Inl _) \<Rightarrow> Some [Acquired, Woken, Released, ClosedClient]
                    | Some (Inr _) \<Rightarrow> Some [Acquired, Woken, Forwarded h rest upgrade, Released, ClosedClient])))"

definition resolveEngineDockerSocket :: "string option \<Rightarrow> string \<Rightarrow> string" where
  "resolveEngineDockerSocket engine docker = (case engine of Some e \<Rightarrow> if e \<noteq> [] then e else docker | None \<Rightarrow> docker)"

text \<open>\<open>startDockerSocketProxy\<close>: no proxy is kept when there is nothing to proxy or the first listen fails.\<close>

definition startDockerSocketProxy ::
    "listen_faults \<Rightarrow> string \<Rightarrow> string option \<Rightarrow> path_node \<Rightarrow> dockerSocketProxy option" where
  "startDockerSocketProxy io public engineSock node =
     (let engine = resolveEngineDockerSocket engineSock public in
      if public = [] \<or> engine = [] \<or> public = engine then None
      else case Start io (newDockerSocketProxy public engine node) of
             Some (None, p) \<Rightarrow> Some p
           | _ \<Rightarrow> None)"

subsection \<open>Concurrent connections\<close>

text \<open>
  Connections run concurrently; the phases of each, and the steps at the gate and at the dial mutex, which is where they
  meet. Besides the connections to the public socket there are the guest's own users of the engine, which exist
  when the runtime is a guest: connections to its gated socket and the probe of the Docker API.
\<close>

datatype conn_user = PublicConn | GuestUser

datatype conn_phase = Reading | Waiting | Holding | Dialling | Done

definition acquire_slot :: "conn_user \<Rightarrow> go_error option \<Rightarrow> connGates \<Rightarrow> (go_error option \<times> connGates) list" where
  "acquire_slot u ctxErr g =
     (case u of
        PublicConn \<Rightarrow> acquireConn ctxErr g
      | GuestUser \<Rightarrow> map (\<lambda>(e, s). (e, g\<lparr>cg_engineConnGate := s\<rparr>)) (AcquireEngineConn ctxErr (cg_engineConnGate g)))"

definition release_slot :: "conn_user \<Rightarrow> connGates \<Rightarrow> connGates" where
  "release_slot u g =
     (case u of PublicConn \<Rightarrow> releaseConn g | GuestUser \<Rightarrow> g\<lparr>cg_engineConnGate := ReleaseEngineConn (cg_engineConnGate g)\<rparr>)"

definition lock_dial :: "conn_user \<Rightarrow> connGates \<Rightarrow> connGates option" where
  "lock_dial u g = (case u of PublicConn \<Rightarrow> dialEngineOnce_lock g | GuestUser \<Rightarrow> DialEngineSocket_lock g)"

definition unlock_dial :: "conn_user \<Rightarrow> connGates \<Rightarrow> connGates" where
  "unlock_dial u g = (case u of PublicConn \<Rightarrow> dialEngineOnce_unlock g | GuestUser \<Rightarrow> DialEngineSocket_unlock g)"

inductive gstep :: "connGates \<times> (conn_user \<times> conn_phase) list \<Rightarrow> connGates \<times> (conn_user \<times> conn_phase) list \<Rightarrow> bool" where
  g_accept: "u = GuestUser \<longrightarrow> cg_gater g \<Longrightarrow> gstep (g, cs) (g, cs @ [(u, Reading)])"
| g_head: "i < length cs \<Longrightarrow> cs ! i = (u, Reading) \<Longrightarrow> gstep (g, cs) (g, cs[i := (u, Waiting)])"
| g_bad_head: "i < length cs \<Longrightarrow> cs ! i = (u, Reading) \<Longrightarrow> gstep (g, cs) (g, cs[i := (u, Done)])"
| g_acquire: "i < length cs \<Longrightarrow> cs ! i = (u, Waiting) \<Longrightarrow> (None, g') \<in> set (acquire_slot u ctxErr g) \<Longrightarrow>
    gstep (g, cs) (g', cs[i := (u, Holding)])"
| g_cancel: "i < length cs \<Longrightarrow> cs ! i = (u, Waiting) \<Longrightarrow> (Some e, g') \<in> set (acquire_slot u ctxErr g) \<Longrightarrow>
    gstep (g, cs) (g', cs[i := (u, Done)])"
| g_dial: "i < length cs \<Longrightarrow> cs ! i = (u, Holding) \<Longrightarrow> lock_dial u g = Some g' \<Longrightarrow> gstep (g, cs) (g', cs[i := (u, Dialling)])"
| g_dialled: "i < length cs \<Longrightarrow> cs ! i = (u, Dialling) \<Longrightarrow> gstep (g, cs) (unlock_dial u g, cs[i := (u, Holding)])"
| g_release: "i < length cs \<Longrightarrow> cs ! i = (u, Holding) \<Longrightarrow> gstep (g, cs) (release_slot u g, cs[i := (u, Done)])"

definition new_gates :: "bool \<Rightarrow> connGates" where
  "new_gates gater = \<lparr>cg_gater = gater, cg_engineConnGate = (if gater then Some 0 else None), cg_gate = 0,
     cg_engineDialMu = False, cg_dialMu = False\<rparr>"

inductive greachable :: "connGates \<times> (conn_user \<times> conn_phase) list \<Rightarrow> bool" where
  g_init: "greachable (new_gates gater, [])"
| g_step: "greachable s \<Longrightarrow> gstep s s' \<Longrightarrow> greachable s'"

text \<open>The number of connections in some phases, and what it becomes when one of them moves on.\<close>

definition in_phase :: "conn_phase list \<Rightarrow> (conn_user \<times> conn_phase) list \<Rightarrow> nat" where
  "in_phase phs cs = length (filter (\<lambda>(u, ph). ph \<in> set phs) cs)"

lemma in_phase_snoc [simp]: "in_phase phs (cs @ [(u, ph)]) = in_phase phs cs + (if ph \<in> set phs then 1 else 0)"
  by (simp add: in_phase_def)

lemma in_phase_update:
  "i < length cs \<Longrightarrow> cs ! i = (u, ph) \<Longrightarrow>
    in_phase phs (cs[i := (u, ph')]) + (if ph \<in> set phs then 1 else 0) = in_phase phs cs + (if ph' \<in> set phs then 1 else 0)"
proof (induction cs arbitrary: i)
  case (Cons a cs)
  then show ?case by (cases i) (auto simp: in_phase_def split: prod.splits if_splits)
qed simp

text \<open>
  The invariant: the gate in use has one entry for each connection that holds a slot, the other gate is not used, and
  the dial mutex is held exactly while one connection dials.
\<close>

definition gate_ok :: "connGates \<Rightarrow> (conn_user \<times> conn_phase) list \<Rightarrow> bool" where
  "gate_ok g cs \<longleftrightarrow>
     in_phase [Holding, Dialling] cs \<le> 4 \<and> in_phase [Dialling] cs = (if cg_engineDialMu g \<or> cg_dialMu g then 1 else 0)
     \<and> (if cg_gater g
        then cg_engineConnGate g = Some (in_phase [Holding, Dialling] cs) \<and> cg_gate g = 0 \<and> \<not> cg_dialMu g
        else cg_gate g = in_phase [Holding, Dialling] cs \<and> cg_engineConnGate g = None \<and> \<not> cg_engineDialMu g
          \<and> GuestUser \<notin> fst ` set cs)"

lemmas gate_defs = acquire_slot_def release_slot_def lock_dial_def unlock_dial_def acquireConn_def releaseConn_def
  AcquireEngineConn_def ReleaseEngineConn_def dialEngineOnce_lock_def dialEngineOnce_unlock_def DialEngineSocket_lock_def
  DialEngineSocket_unlock_def select_slot_def engineConnMaxConcurrent_def dockerProxyMaxConcurrent_def

lemma fst_update: "i < length cs \<Longrightarrow> cs ! i = (u, ph) \<Longrightarrow> fst ` set (cs[i := (u, ph')]) = fst ` set cs"
proof -
  assume a: "i < length cs" "cs ! i = (u, ph)"
  have "map fst (cs[i := (u, ph')]) = map fst cs" using a by (simp add: map_update) (metis fst_conv list_update_id nth_map)
  then show ?thesis by (metis set_map)
qed

lemma gate_inv: "greachable s \<Longrightarrow> gate_ok (fst s) (snd s)"
proof (induction rule: greachable.induct)
  case (g_init gater)
  then show ?case by (simp add: gate_ok_def new_gates_def in_phase_def)
next
  case (g_step s s')
  obtain g cs where s: "s = (g, cs)" by (rule prod.exhaust)
  note inv = g_step(3) [unfolded s fst_conv snd_conv gate_ok_def]
  have up: "in_phase phs (cs[i := (u, ph')]) = in_phase phs cs + (if ph' \<in> set phs then 1 else 0) - (if ph \<in> set phs then 1 else 0)"
    "fst ` set (cs[i := (u, ph')]) = fst ` set cs" "u \<in> fst ` set cs"
    if "i < length cs" "cs ! i = (u, ph)" for i u ph ph' phs
    using in_phase_update [OF that, of phs ph'] fst_update [OF that, of ph'] that by (auto simp: image_iff) (metis fst_conv nth_mem)
  from g_step(2) show ?case unfolding s
  proof cases
    case (g_accept u)
    then show ?thesis using inv by (auto simp: gate_ok_def)
  next
    case (g_head i u)
    then show ?thesis using inv up [OF g_head(2,3)] by (simp add: gate_ok_def)
  next
    case (g_bad_head i u)
    then show ?thesis using inv up [OF g_bad_head(2,3)] by (simp add: gate_ok_def)
  next
    case (g_acquire i u g' ctxErr)
    then show ?thesis using inv up [OF g_acquire(2,3)]
      by (cases u; cases ctxErr) (auto simp: gate_ok_def gate_defs split: if_splits)
  next
    case (g_cancel i u e g' ctxErr)
    then show ?thesis using inv up [OF g_cancel(2,3)]
      by (cases u; cases ctxErr) (auto simp: gate_ok_def gate_defs split: if_splits)
  next
    case (g_dial i u g')
    then show ?thesis using inv up [OF g_dial(2,3)] by (cases u) (auto simp: gate_ok_def gate_defs split: if_splits)
  next
    case (g_dialled i u)
    then show ?thesis using inv up [OF g_dialled(2,3)] by (cases u) (auto simp: gate_ok_def gate_defs split: if_splits)
  next
    case (g_release i u)
    then show ?thesis using inv up [OF g_release(2,3)] by (cases u) (auto simp: gate_ok_def gate_defs split: if_splits)
  qed
qed

text \<open>A loop whose rounds are at least the pause apart ends.\<close>

fun in_order :: "int \<Rightarrow> Time \<Rightarrow> (Time \<times> 'c result \<times> go_error option) list \<Rightarrow> bool" where
  "in_order d t [] = True"
| "in_order d t ((now, _) # rounds) = (t \<le> now \<and> in_order d (now + d) rounds)"

lemma dial_loop_ends:
  "in_order d t rounds \<Longrightarrow> 0 < d \<Longrightarrow> deadline - t \<le> (int (length rounds) - 1) * d \<Longrightarrow> rounds \<noteq> [] \<Longrightarrow>
    \<exists>r. dial_loop engine rounds deadline lastErr = Some r"
proof (induction d t rounds arbitrary: lastErr rule: in_order.induct)
  case (2 d t now x rounds)
  obtain res ctxErr where x: "x = (res, ctxErr)" by fastforce
  show ?case
  proof (cases "now < deadline")
    case True
    have "deadline - (now + d) \<le> (int (length rounds) - 1) * d" using 2(2,4) by (simp add: algebra_simps)
    moreover have "rounds \<noteq> []" using True 2(2,4) by auto
    ultimately have "\<exists>r. dial_loop engine rounds deadline e = Some r" for e using 2(1) 2(2,3) x by simp
    then show ?thesis using True x by (auto split: sum.splits option.splits)
  qed (simp add: x)
qed simp

section \<open>Properties of the proxy\<close>

text \<open>
  C2: Whatever faults occur and whatever other programs do to the public path, no operation of a started proxy
  waits forever for an accept loop, there is never a second listener or accept loop, and a stopped proxy
  has none.
\<close>

theorem socket_proxy_never_hangs:
  assumes "started p"
  shows "UseProxy io p \<noteq> None \<and> Rebind io p \<noteq> None \<and> Stop io p \<noteq> None
    \<and> length (sp_loops p) \<le> 1 \<and> length (sp_open p) \<le> 1 \<and> (sp_stopped p \<longrightarrow> sp_loops p = [] \<and> sp_open p = [])"
proof -
  have i: "sock_inv p" by (rule started_inv [OF assms])
  then have "length (sp_loops p) \<le> 1 \<and> length (sp_open p) \<le> 1 \<and> (sp_stopped p \<longrightarrow> sp_loops p = [] \<and> sp_open p = [])"
    by (auto simp: sock_inv_def split: option.splits)
  then show ?thesis using UseProxy_ok [OF i, of io] Rebind_ok [OF i, of io] stop_ok [OF i, of io] by auto
qed

theorem socket_proxy_never_hangs_witness:
  "Stop no_listen_faults (snd (the (Start no_listen_faults (newDockerSocketProxy ''a'' ''b'' Link)))) \<noteq> None"
proof -
  let ?n = "newDockerSocketProxy ''a'' ''b'' Link"
  have "Start no_listen_faults ?n \<noteq> None" by (simp add: Start_def newDockerSocketProxy_def)
  then obtain e p where "Start no_listen_faults ?n = Some (e, p)" by auto
  then have "started p" by (auto intro: st_init)
  then show ?thesis using socket_proxy_never_hangs [of p no_listen_faults] \<open>Start no_listen_faults ?n = Some (e, p)\<close> by simp
qed

text \<open>
  C21: What one tick of the watcher does to the public path, with any faults of the file system, when the proxy is not stopped and
  no other program has put a socket there. Without faults, and unless a directory that cannot be
  removed is at the path, the tick succeeds. After a tick that succeeds, the path is the socket of the proxy's listener, and
  the accept loop of that listener runs, save in one case: the path already was that socket, but its accept loop had ended on an
  error of \<open>Accept\<close>. After a tick that fails there is no listener, so the next one tries again.
\<close>

theorem rebind_restores_socket:
  assumes "started p" "\<not> sp_stopped p" "sp_path p \<noteq> ForeignSock"
  shows "\<exists>e p'. Rebind io p = Some (e, p') \<and> (io = no_listen_faults \<and> sp_path p \<noteq> Full \<longrightarrow> e = None)
    \<and> (e \<noteq> None \<longrightarrow> sp_listener p' = None)
    \<and> (e = None \<longrightarrow> (\<exists>l. sp_listener p' = Some l \<and> sp_path p' = Sock l
        \<and> sp_loops p' = (if sp_path p = Sock l \<and> sp_loops p = [] then [] else [(l, sp_doneCh p')])))"
proof -
  have i: "sock_inv p" by (rule started_inv [OF assms(1)])
  obtain e q where q: "relisten io p = Some (e, q)" "sock_inv q" "e \<noteq> None \<longrightarrow> sp_listener q = None"
      "io = no_listen_faults \<and> sp_path p \<noteq> Full \<longrightarrow> e = None"
      "e = None \<longrightarrow> (\<exists>l. sp_listener q = Some l \<and> sp_path q = Sock l \<and> sp_loops q \<noteq> [])"
    using relisten_ok [OF i, of io] by blast
  show ?thesis
  proof (cases "owns p \<and> sp_path p \<noteq> Link")
    case True
    then have "Rebind io p = Some (None, p)" using assms(2) by (simp add: Rebind_def)
    moreover obtain l where "sp_path p = Sock l" using True assms(3) by (cases "sp_path p") (auto simp: owns_def publicPathIsSocket_def)
    ultimately show ?thesis using i by (auto simp: sock_inv_def)
  next
    case False
    then have "Rebind io p = Some (e, q)" using assms(2) q(1) by (auto simp: Rebind_def)
    moreover have "sp_path p \<noteq> Sock l" for l
      using False i by (auto simp: owns_def publicPathIsSocket_def sock_inv_def)
    moreover have "e = None \<longrightarrow> (\<exists>l. sp_listener q = Some l \<and> sp_path q = Sock l \<and> sp_loops q = [(l, sp_doneCh q)])"
      using q(2,5) by (auto simp: sock_inv_def)
    ultimately show ?thesis using q(3,4) by auto
  qed
qed

theorem rebind_restores_socket_witness:
  "\<exists>p' l. Rebind no_listen_faults ((snd (the (Start no_listen_faults (newDockerSocketProxy ''a'' ''b'' Absent))))\<lparr>sp_path := Link\<rparr>)
      = Some (None, p') \<and> sp_listener p' = Some l \<and> sp_path p' = Sock l"
proof -
  let ?n = "newDockerSocketProxy ''a'' ''b'' Absent"
  have "Start no_listen_faults ?n \<noteq> None" by (simp add: Start_def newDockerSocketProxy_def)
  then obtain e p where s: "Start no_listen_faults ?n = Some (e, p)" by auto
  then have "started p" by (auto intro: st_init)
  then have "started (p\<lparr>sp_path := Link\<rparr>)" by (rule st_step) (simp add: s_outside)
  moreover have "\<not> sp_stopped p" using s
    by (auto simp: Start_def newDockerSocketProxy_def listen_def no_listen_faults_def removePath_def Let_def unlinked_def split: if_splits)
  ultimately show ?thesis using rebind_restores_socket [of "p\<lparr>sp_path := Link\<rparr>" no_listen_faults] s by auto
qed

text \<open>
  A listener whose accept loop has ended is taken for a working one: neither the watcher nor \<open>UseProxy\<close> starts a
  new loop, so connections to the public socket are never accepted again.
\<close>

theorem dead_accept_loop_stays:
  assumes "started p" "\<not> sp_stopped p" "sp_path p = Sock l"
  shows "started (accept_ends l p) \<and> sp_loops (accept_ends l p) = []
    \<and> Rebind io (accept_ends l p) = Some (None, accept_ends l p) \<and> UseProxy io (accept_ends l p) = Some (None, accept_ends l p)"
proof -
  have "sp_listener p = Some l" "sp_loops p \<in> {[], [(l, sp_doneCh p)]}"
    using started_inv [OF assms(1)] assms(3) by (auto simp: sock_inv_def)
  then show ?thesis using assms st_step [OF assms(1) s_accept_error]
    by (auto simp: Rebind_def UseProxy_def owns_def publicPathIsSocket_def accept_ends_def)
qed

text \<open>A socket that another program put at the public path is taken for the proxy's own, and stays.\<close>

theorem foreign_socket_is_kept:
  assumes "sp_listener p = Some l" "sp_path p = ForeignSock"
  shows "Rebind io p = Some (None, p) \<and> UseProxy io p = Some (None, p)"
  using assms by (simp add: Rebind_def UseProxy_def owns_def publicPathIsSocket_def)



text \<open>Dialling ends: with the pause of 100 ms between its rounds, after at most 21 or 301 of them.\<close>

theorem dial_terminates:
  assumes "in_order 100000000 now rounds" "timeout \<le> (int (length rounds) - 1) * 100000000" "rounds \<noteq> []"
  shows "\<exists>r. dialEngine engine ctxDeadline now timeout rounds = Some r"
proof -
  have "d - now \<le> (int (length rounds) - 1) * 100000000" if "d \<le> now + timeout" for d using assms(2) that by linarith
  then show ?thesis using dial_loop_ends [OF assms(1) _ _ assms(3)]
    by (auto simp: dialEngine_def Let_def split: option.splits)
qed

definition refused_rounds :: "nat \<Rightarrow> nat \<Rightarrow> (Time \<times> unit result \<times> go_error option) list" where
  "refused_rounds k m = map (\<lambda>i. (int i * 100000000, Inl (Errorf ''refused''), None)) [k..<k + m]"

lemma refused_paced: "in_order 100000000 (int k * 100000000) (refused_rounds k m)"
proof (induction m arbitrary: k)
  case (Suc m)
  have "refused_rounds k (Suc m) = (int k * 100000000, Inl (Errorf ''refused''), None) # refused_rounds (Suc k) m"
    by (simp add: refused_rounds_def upt_conv_Cons del: upt_Suc)
  then show ?case using Suc [of "Suc k"] by (simp add: algebra_simps)
qed (simp add: refused_rounds_def)

theorem dial_terminates_witness: "\<exists>r. dialEngine ''e'' None 0 dockerProxyDialProbe (refused_rounds 0 21) = Some r"
proof -
  have "length (refused_rounds 0 21) = 21" "refused_rounds 0 21 \<noteq> []" by (simp_all add: refused_rounds_def)
  then show ?thesis
    using dial_terminates [of 0 "refused_rounds 0 21" dockerProxyDialProbe "''e''" None] refused_paced [of 0 21]
    by (simp add: dockerProxyDialProbe_def)
qed

end
