(* ===== verification/Calf_Listing.thy ===== *)
theory Calf_Listing
  imports Calf_Cli Calf_Mock Calf_Strings "HOL-Library.AList"
begin

text \<open>
  The listings of \<open>runtime/nerdctl.go\<close>: containers, images, image history and volumes from newline-delimited JSON,
  how containers are grouped into compose projects, and the filters on log output; \<open>ports.go\<close>.  The decoding of one
  JSON text into a row is an argument, \<open>None\<close> being a text that is not such a row.
\<close>

section \<open>Rows\<close>

record psRow =
  ps_ID :: string
  ps_Names :: string
  ps_Image :: string
  ps_State :: string
  ps_Status :: string
  ps_Ports :: string
  ps_CreatedAt :: string
  ps_Labels :: string

record nerdctlLine =
  nl_ID :: string
  nl_CreatedAt :: string
  nl_Repository :: string
  nl_Tag :: string
  nl_Size :: string

record historyLine =
  hl_CreatedSince :: string
  hl_CreatedBy :: string
  hl_Size :: string

record volumeLine =
  vl_Name :: string
  vl_Driver :: string
  vl_Size :: string

record jsonlib =
  js_ps :: "string \<Rightarrow> psRow option"
  js_labels :: "string \<Rightarrow> (string \<times> string) list option"
  js_text :: "string \<Rightarrow> string option"
  js_image :: "string \<Rightarrow> nerdctlLine option"
  js_history :: "string \<Rightarrow> historyLine option"
  js_volume :: "string \<Rightarrow> volumeLine option"

text \<open>What the parsers have in common: the rows of the non-blank lines, or the error of the scanner.\<close>

definition scanRows :: "(string \<Rightarrow> 'r option) \<Rightarrow> string \<Rightarrow> 'r list \<times> bool" where
  "scanRows decode output =
     (let (ls, tooLong) = Scan output
      in (List.map_filter (\<lambda>l. let line = TrimSpace l in if line = '''' then None else decode line) ls, tooLong))"

section \<open>Labels and compose names\<close>

definition ComposeProjectLabel :: string where "ComposeProjectLabel = ''com.docker.compose.project''"

definition ComposeServiceLabel :: string where "ComposeServiceLabel = ''com.docker.compose.service''"

text \<open>A Go map with string values: the entry of a missing key is empty.\<close>

definition label :: "(string \<times> string) list \<Rightarrow> string \<Rightarrow> string" where
  "label labels key = (case map_of labels key of Some v \<Rightarrow> v | None \<Rightarrow> '''')"

definition labelPair :: "string \<Rightarrow> (string \<times> string) option" where
  "labelPair pair0 =
     (let pair = TrimSpace pair0 in
      if pair = '''' then None
      else case SplitN 2 pair (CHR ''='') of [k, v] \<Rightarrow> Some (k, v) | _ \<Rightarrow> None)"

definition parseLabels :: "jsonlib \<Rightarrow> string \<Rightarrow> (string \<times> string) list" where
  "parseLabels js raw =
     (case raw of
        [] \<Rightarrow> []
      | c # _ \<Rightarrow>
          if c = CHR ''{'' then (case js_labels js raw of Some labels \<Rightarrow> labels | None \<Rightarrow> [])
          else case js_text js raw of
            None \<Rightarrow> []
          | Some s \<Rightarrow>
              if s = '''' then []
              else fold (\<lambda>pair labels. case labelPair pair of None \<Rightarrow> labels | Some (k, v) \<Rightarrow> AList.update k v labels)
                     (Split s (CHR '','')) [])"

text \<open>
  The expression \<open>^(.+)-([^-]+)-(\d+)$\<close>: the last two parts have no dash, so they are the last two parts of the
  name; the first part has no line break.
\<close>

definition composeNameMatch :: "string \<Rightarrow> (string \<times> string) option" where
  "composeNameMatch name =
     (case rev (Split name (CHR ''-'')) of
        number # service # before \<Rightarrow>
          let project = Join (rev before) ''-'' in
          if before \<noteq> [] \<and> project \<noteq> '''' \<and> newline \<notin> set project \<and> service \<noteq> '''' \<and> number \<noteq> '''' \<and> list_all is_digit number
          then Some (project, service) else None
      | _ \<Rightarrow> None)"

definition composeFields :: "string \<Rightarrow> (string \<times> string) list \<Rightarrow> string \<times> string" where
  "composeFields name labels =
     (let project = label labels ComposeProjectLabel in
      if project \<noteq> '''' then (project, label labels ComposeServiceLabel)
      else case composeNameMatch name of Some m \<Rightarrow> m | None \<Rightarrow> ('''', ''''))"

definition containerState :: "string \<Rightarrow> string \<Rightarrow> string" where
  "containerState status0 state =
     (if state \<noteq> '''' then ToLower state
      else let status = TrimSpace status0 in
        if HasPrefix status ''Up'' then ''running''
        else if Contains status ''Exited'' then ''exited''
        else if status = ''Created'' then ''created''
        else if Contains status ''Paused'' then ''paused''
        else ''stopped'')"

section \<open>Inferring compose projects\<close>

text \<open>
  The set of names is a Go map; its order of iteration is the order of the list.
\<close>

fun longest_loop :: "string \<Rightarrow> string list \<Rightarrow> string \<Rightarrow> string" where
  "longest_loop name [] project = project"
| "longest_loop name (candidate # rest) project =
     longest_loop name rest
       (if candidate = name then project
        else if HasPrefix name (candidate @ ''-'')
        then if project = '''' \<or> length candidate > length project then candidate else project
        else project)"

definition longestComposePrefix :: "string \<Rightarrow> string list \<Rightarrow> string" where
  "longestComposePrefix name names = longest_loop name names ''''"

definition composeServiceName :: "string \<Rightarrow> string \<Rightarrow> string" where
  "composeServiceName name project =
     (let service = TrimPrefix name (project @ ''-'') in if service = '''' then name else service)"

definition shared_by :: "string \<Rightarrow> string list \<Rightarrow> string \<Rightarrow> bool" where
  "shared_by name names pre \<longleftrightarrow> list_ex (\<lambda>candidate. candidate \<noteq> name \<and> HasPrefix candidate (pre @ ''-'')) names"

definition sharedNamePrefix :: "string \<Rightarrow> string list \<Rightarrow> string" where
  "sharedNamePrefix name names =
     (let parts = Split name (CHR ''-'') in
      if length parts < 2 then ''''
      else fold (\<lambda>i project. let pre = Join (take i parts) ''-''
                             in if shared_by name names pre \<and> length pre > length project then pre else project)
             (rev [1..<length parts]) '''')"

definition withProject :: "string \<Rightarrow> string \<Rightarrow> Container \<Rightarrow> Container" where
  "withProject project service c = c\<lparr>ct_ComposeProject := project, ct_ComposeService := service\<rparr>"

definition inferFromNames :: "string list \<Rightarrow> Container \<Rightarrow> Container" where
  "inferFromNames names c =
     (if ct_ComposeProject c \<noteq> '''' then c
      else
        let name = ct_Name c; project = longestComposePrefix name names in
        if project \<noteq> '''' then withProject project (composeServiceName name project) c
        else
          let c1 = (if list_ex (\<lambda>candidate. candidate \<noteq> name \<and> HasPrefix candidate (name @ ''-'')) names
                    then withProject name (composeServiceName name name) c else c) in
          if ct_ComposeProject c1 \<noteq> '''' then c1
          else let project2 = sharedNamePrefix name names
               in if project2 \<noteq> '''' then withProject project2 (composeServiceName name project2) c1 else c1)"

definition imageComposeFields :: "string \<Rightarrow> string \<times> string" where
  "imageComposeFields im =
     (let repository = imageRepositoryName im; lastDash = LastIndex repository (CHR ''-'') in
      if lastDash \<le> 0 then ('''', '''')
      else (take (nat lastDash) repository, drop (nat lastDash + 1) repository))"

definition imageProjectCount :: "Container list \<Rightarrow> string \<Rightarrow> nat" where
  "imageProjectCount containers project =
     length (filter (\<lambda>c. ct_ComposeProject c = '''' \<and> fst (imageComposeFields (ct_Image c)) = project) containers)"

definition inferComposeProjectsFromImages :: "Container list \<Rightarrow> Container list" where
  "inferComposeProjectsFromImages containers =
     map (\<lambda>c. if ct_ComposeProject c \<noteq> '''' then c
              else let (project, service) = imageComposeFields (ct_Image c)
                   in if project = '''' \<or> imageProjectCount containers project < 2 then c else withProject project service c) containers"

definition inferComposeProjects :: "string list \<Rightarrow> Container list \<Rightarrow> Container list" where
  "inferComposeProjects names containers = inferComposeProjectsFromImages (map (inferFromNames names) containers)"

section \<open>Parsing\<close>

definition shown :: "psRow \<Rightarrow> bool" where
  "shown row \<longleftrightarrow> ps_ID row \<noteq> '''' \<and> TrimSpace (ps_Names row) \<noteq> '''' \<and> \<not> HasPrefix (TrimSpace (ps_Names row)) ''calf-guestcmd-''"

definition containerOf :: "jsonlib \<Rightarrow> psRow \<Rightarrow> Container" where
  "containerOf js row =
     (let name = ps_Names row; (project, service) = composeFields name (parseLabels js (ps_Labels row))
      in \<lparr>ct_ID = ps_ID row, ct_Name = name, ct_Image = ps_Image row, ct_State = containerState (ps_Status row) (ps_State row),
          ct_Status = ps_Status row, ct_Ports = ps_Ports row, ct_Created = ps_CreatedAt row,
          ct_ComposeProject = project, ct_ComposeService = service\<rparr>)"

fun container_loop :: "jsonlib \<Rightarrow> string list \<Rightarrow> psRow list \<Rightarrow> Container list" where
  "container_loop js seen [] = []"
| "container_loop js seen (row # rows) =
     (if \<not> shown row \<or> List.member seen (ps_ID row) then container_loop js seen rows
      else containerOf js row # container_loop js (ps_ID row # seen) rows)"

text \<open>The order in which the names are visited is an argument.\<close>

definition ParseContainerLines :: "(string list \<Rightarrow> string list) \<Rightarrow> jsonlib \<Rightarrow> string \<Rightarrow> Container list result" where
  "ParseContainerLines order js output =
     (let (rows, tooLong) = scanRows (js_ps js) output; containers = container_loop js [] rows in
      if tooLong then Inl ErrTooLong
      else Inr (inferComposeProjects (order (remdups (map ct_Name containers))) containers))"

definition imageOf :: "nerdctlLine \<Rightarrow> Image" where
  "imageOf row = \<lparr>im_ID = nl_ID row, im_Repository = nl_Repository row, im_Tag = nl_Tag row, im_Size = nl_Size row, im_Created = nl_CreatedAt row\<rparr>"

definition ParseImageLines :: "jsonlib \<Rightarrow> string \<Rightarrow> Image list result" where
  "ParseImageLines js output =
     (let (rows, tooLong) = scanRows (js_image js) output in if tooLong then Inl ErrTooLong else Inr (map imageOf rows))"

definition formatLayerCommand :: "string \<Rightarrow> string" where
  "formatLayerCommand createdBy0 =
     (let c1 = TrimPrefix (TrimSpace createdBy0) ''/bin/sh -c '';
          c2 = (if length c1 \<ge> 2 \<and> hd c1 = CHR ''('' \<and> last c1 = CHR '')'' then TrimSpace (butlast (tl c1)) else c1)
      in ReplaceAll c2 ''#(nop)  '' '''')"

text \<open>The loop that swaps from both ends.\<close>

function swap_ends :: "nat \<Rightarrow> nat \<Rightarrow> 'a list \<Rightarrow> 'a list" where
  "swap_ends left right xs =
     (if left < right then swap_ends (left + 1) (right - 1) (xs[left := xs ! right, right := xs ! left]) else xs)"
  by pat_completeness auto
termination by (relation "measure (\<lambda>(left, right, xs). right - left)") auto

declare swap_ends.simps [simp del]

definition layerOf :: "nat \<times> historyLine \<Rightarrow> ImageLayer" where
  "layerOf ie = \<lparr>il_Index = int (fst ie), il_CreatedBy = formatLayerCommand (hl_CreatedBy (snd ie)), il_Size = hl_Size (snd ie),
     il_Created = hl_CreatedSince (snd ie)\<rparr>"

definition ParseImageHistoryLines :: "jsonlib \<Rightarrow> string \<Rightarrow> ImageLayer list result" where
  "ParseImageHistoryLines js output =
     (let (rows, tooLong) = scanRows (js_history js) output; entries = swap_ends 0 (length rows - 1) rows in
      if tooLong then Inl ErrTooLong else Inr (map layerOf (zip [0..<length entries] entries)))"

definition volumeOf :: "volumeLine \<Rightarrow> Volume" where
  "volumeOf row = \<lparr>vo_Name = vl_Name row, vo_Driver = vl_Driver row, vo_InUse = False, vo_Size = TrimSpace (vl_Size row), vo_Created = ''''\<rparr>"

definition ParseVolumeLines :: "jsonlib \<Rightarrow> string \<Rightarrow> Volume list result" where
  "ParseVolumeLines js output =
     (let (rows, tooLong) = scanRows (js_volume js) output in if tooLong then Inl ErrTooLong else Inr (map volumeOf rows))"

definition jsonFormat :: string where "jsonFormat = ''{{json .}}''"

definition listWith :: "'w runner \<Rightarrow> string list \<Rightarrow> (string \<Rightarrow> 'a result) \<Rightarrow> 'w \<Rightarrow> 'a result \<times> 'w" where
  "listWith run args parse w =
     (case run args w of (Inl err, w1) \<Rightarrow> (Inl err, w1) | (Inr output, w1) \<Rightarrow> (parse output, w1))"

definition ContainerListFormat :: string where
  "ContainerListFormat = ''{'' @ Join (map (\<lambda>f. [CHR 0x22] @ f @ [CHR 0x22] @ '':{{json .'' @ f @ ''}}'')
     [''ID'', ''Names'', ''Image'', ''State'', ''Status'', ''Ports'', ''CreatedAt'', ''Labels'']) '','' @ ''}''"

definition listContainers ::
    "(string list \<Rightarrow> string list) \<Rightarrow> jsonlib \<Rightarrow> 'w runner \<Rightarrow> 'w \<Rightarrow> Container list result \<times> 'w" where
  "listContainers order js run w =
     listWith run [''nerdctl'', ''ps'', ''-a'', ''--format'', ContainerListFormat] (ParseContainerLines order js) w"

definition listImages :: "jsonlib \<Rightarrow> 'w runner \<Rightarrow> 'w \<Rightarrow> Image list result \<times> 'w" where
  "listImages js run w = listWith run [''nerdctl'', ''images'', ''--format'', jsonFormat] (ParseImageLines js) w"

definition listVolumes :: "jsonlib \<Rightarrow> 'w runner \<Rightarrow> 'w \<Rightarrow> Volume list result \<times> 'w" where
  "listVolumes js run w = listWith run [''nerdctl'', ''volume'', ''ls'', ''--format'', jsonFormat] (ParseVolumeLines js) w"

definition imageHistory :: "jsonlib \<Rightarrow> 'w runner \<Rightarrow> string \<Rightarrow> 'w \<Rightarrow> ImageLayer list result \<times> 'w" where
  "imageHistory js run ref w =
     listWith run [''nerdctl'', ''history'', ''--no-trunc'', ''--format'', jsonFormat, ref] (ParseImageHistoryLines js) w"

definition NerdctlVMArgs :: "string list \<Rightarrow> string list" where
  "NerdctlVMArgs args = [''sudo'', ''docker''] @ args"

definition interactiveExecArgs :: "string \<Rightarrow> string list" where
  "interactiveExecArgs cid = [''exec'', ''-it'', ''-e'', ''TERM=xterm-256color'', cid, ''/bin/sh'']"

text \<open>\<open>ParsePublishedTCPPorts\<close>: the ports of all matches, as a list of what is in the set.\<close>

fun all_ports :: "string \<Rightarrow> string list" where
  "all_ports [] = []"
| "all_ports (c # s) =
     (if c = CHR '':'' then (case match_port s of Some p \<Rightarrow> p # all_ports s | None \<Rightarrow> all_ports s) else all_ports s)"

definition port_number :: "string \<Rightarrow> int option" where
  "port_number ds = (case ParseInt64 ds of Some n \<Rightarrow> if n \<le> 0 then None else Some n | None \<Rightarrow> None)"

definition ParsePublishedTCPPorts :: "string \<Rightarrow> int list" where
  "ParsePublishedTCPPorts value = remdups (List.map_filter port_number (all_ports value))"

section \<open>Log output\<close>

definition commandErrorTailBytes :: nat where "commandErrorTailBytes = 4096"

text \<open>The writer that keeps the last bytes, and the limit it has.\<close>

definition lastBytes_Write :: "nat \<Rightarrow> string \<Rightarrow> string \<Rightarrow> string" where
  "lastBytes_Write limit p buf =
     (if limit = 0 then buf
      else if length p \<ge> limit then drop (length p - limit) p
      else if length buf + length p > limit then drop (length buf + length p - limit) buf @ p
      else buf @ p)"

definition isNoiseLogLine :: "string \<Rightarrow> bool" where
  "isNoiseLogLine line \<longleftrightarrow> Contains line ''tail: inotify cannot be used'' \<or> Contains line ''mux_client_request_session''
     \<or> (Contains line ''ControlSocket'' \<and> Contains line ''ssh.sock'') \<or> Contains line ''disabling multiplexing''"

definition emitLogLines :: "string \<Rightarrow> string list" where
  "emitLogLines data =
     (if data = '''' then []
      else let text = TrimSuffix data [newline]
           in if text = '''' then [] else filter (\<lambda>l. \<not> isNoiseLogLine l) (Split text newline))"

definition pipeLines :: "string \<Rightarrow> string list" where
  "pipeLines text = filter (\<lambda>l. \<not> isNoiseLogLine l) (fst (Scan text))"

text \<open>
  \<open>streamCommandLogs\<close> after the command has started: the lines of both outputs, each in its order, and the error.
\<close>

definition streamCommandLogs ::
    "string list \<Rightarrow> string \<Rightarrow> string \<Rightarrow> go_error option \<Rightarrow> go_error option \<Rightarrow> (string list \<times> string list) \<times> go_error option" where
  "streamCommandLogs args stdout stderr ctxErr waitErr =
     ((pipeLines stdout, pipeLines stderr),
      case ctxErr of
        Some e \<Rightarrow> Some e
      | None \<Rightarrow>
          (case waitErr of
             None \<Rightarrow> None
           | Some we \<Rightarrow> Some (wrapCommandOutputError (hd args) (tl args) (lastBytes_Write commandErrorTailBytes stderr '''') we)))"

section \<open>Facts\<close>

subsection \<open>Containers\<close>

text \<open>Inference changes nothing but the two compose fields.\<close>

definition same_but_project :: "Container \<Rightarrow> Container \<Rightarrow> bool" where
  "same_but_project c d \<longleftrightarrow> (\<exists>p s. d = withProject p s c) \<and> (ct_ComposeProject c \<noteq> '''' \<longrightarrow> d = c)"

lemma withProject_self: "withProject (ct_ComposeProject c) (ct_ComposeService c) c = c"
  by (simp add: withProject_def)

lemma same_refl [simp]: "same_but_project c c"
  using withProject_self by (metis same_but_project_def)

lemma same_withProject: "ct_ComposeProject c = '''' \<Longrightarrow> same_but_project c (withProject p s c)"
  by (auto simp: same_but_project_def)

lemma withProject_twice [simp]: "withProject p s (withProject q t c) = withProject p s c"
  by (simp add: withProject_def)

lemma inferFromNames_same: "same_but_project c (inferFromNames names c)"
  by (auto simp: inferFromNames_def Let_def intro!: same_withProject)

lemma inferFromImages_same: "list_all2 same_but_project cs (inferComposeProjectsFromImages cs)"
  unfolding inferComposeProjectsFromImages_def list_all2_map2
  by (auto simp: list_all2_same Let_def intro!: same_withProject split: prod.splits)

lemma same_trans: "same_but_project c d \<Longrightarrow> same_but_project d e \<Longrightarrow> same_but_project c e"
  unfolding same_but_project_def by (metis withProject_twice)

lemma infer_same: "list_all2 same_but_project cs (inferComposeProjects names cs)"
proof -
  have "list_all2 same_but_project cs (map (inferFromNames names) cs)"
    by (simp add: list_all2_map2 list_all2_same inferFromNames_same)
  from list_all2_trans [OF _ this inferFromImages_same] show ?thesis
    unfolding inferComposeProjects_def using same_trans by blast
qed

lemma same_fields: "same_but_project c d \<Longrightarrow> ct_ID d = ct_ID c \<and> ct_Name d = ct_Name c \<and> ct_Image d = ct_Image c
    \<and> ct_State d = ct_State c \<and> ct_Status d = ct_Status c \<and> ct_Ports d = ct_Ports c \<and> ct_Created d = ct_Created c"
  by (auto simp: same_but_project_def withProject_def)

lemma infer_IDs: "map ct_ID (inferComposeProjects names cs) = map ct_ID cs"
  using infer_same [of cs names] same_fields by (induction rule: list_all2_induct) auto

subsection \<open>The order of names does not matter\<close>

definition names_project :: "string \<Rightarrow> string \<Rightarrow> bool" where
  "names_project name c \<longleftrightarrow> c \<noteq> name \<and> HasPrefix name (c @ ''-'')"

lemma longest_loop_step:
  "longest_loop name (c # cs) p = longest_loop name cs (if names_project name c \<and> (p = '''' \<or> length c > length p) then c else p)"
  by (auto simp: names_project_def)

lemma longest_loop_spec:
  "longest_loop name cs p = p \<or> (longest_loop name cs p \<in> set cs \<and> names_project name (longest_loop name cs p))"
  "length p \<le> length (longest_loop name cs p)"
  "c \<in> set cs \<Longrightarrow> names_project name c \<Longrightarrow> length c \<le> length (longest_loop name cs p)"
proof (induction cs arbitrary: p)
  case (Cons d cs)
  {
    case 1
    show ?case using Cons(1) [of "if names_project name d \<and> (p = '''' \<or> length d > length p) then d else p"]
      unfolding longest_loop_step by (auto split: if_splits)
  next
    case 2
    show ?case using Cons(2) [of "if names_project name d \<and> (p = '''' \<or> length d > length p) then d else p"]
      unfolding longest_loop_step by (auto split: if_splits)
  next
    case 3
    let ?q = "if names_project name d \<and> (p = '''' \<or> length d > length p) then d else p"
    have "length d \<le> length ?q" if "names_project name d" using that by (cases p) auto
    then show ?case using 3 Cons(2) [of ?q] Cons(3) [of ?q] unfolding longest_loop_step by fastforce
  }
qed simp_all

lemma names_project_unique:
  assumes "names_project name c" "names_project name d" "length c = length d" shows "c = d"
proof -
  have "prefix (c @ ''-'') name" "prefix (d @ ''-'') name"
    using assms(1,2) by (simp_all add: names_project_def HasPrefix_def)
  then obtain u v where "name = (c @ ''-'') @ u" "name = (d @ ''-'') @ v"
    unfolding prefix_def by blast
  then have "c @ (''-'' @ u) = d @ (''-'' @ v)" by simp
  then show ?thesis using assms(3) append_eq_append_conv by blast
qed

lemma longest_from_empty:
  "longest_loop name cs [] = [] \<or> (longest_loop name cs [] \<in> set cs \<and> names_project name (longest_loop name cs []))"
  by (rule longest_loop_spec(1))

lemma longest_le: assumes "set cs = set ds" shows "length (longest_loop name cs []) \<le> length (longest_loop name ds [])"
  using longest_from_empty [of name cs] longest_loop_spec(3) [of "longest_loop name cs []" ds name "[]"] assms by auto

lemma longest_set: assumes "set cs = set ds" shows "longestComposePrefix name cs = longestComposePrefix name ds"
proof -
  have len: "length (longest_loop name cs []) = length (longest_loop name ds [])"
    using longest_le [OF assms] longest_le [OF assms [symmetric]] by (rule antisym)
  show ?thesis
  proof (cases "longest_loop name cs [] = []")
    case True
    then show ?thesis using len by (simp add: longestComposePrefix_def)
  next
    case False
    then have "longest_loop name ds [] \<noteq> []" using len by auto
    then have "names_project name (longest_loop name cs [])" "names_project name (longest_loop name ds [])"
      using False longest_from_empty by blast+
    then show ?thesis unfolding longestComposePrefix_def using len by (rule names_project_unique)
  qed
qed

lemma list_ex_set: "set xs = set ys \<Longrightarrow> list_ex P xs = list_ex P ys"
  by (simp add: list_ex_iff)

lemma infer_set: "set names = set names' \<Longrightarrow> inferFromNames names = inferFromNames names'"
  unfolding inferFromNames_def sharedNamePrefix_def shared_by_def fun_eq_iff
  using longest_set [of names names'] list_ex_set [of names names'] by presburger

subsection \<open>History\<close>

lemma swap_ends_length [simp]: "length (swap_ends left right xs) = length xs"
  by (induction left right xs rule: swap_ends.induct) (subst swap_ends.simps, simp)

lemma swap_ends_nth:
  "right < length xs \<Longrightarrow> k < length xs \<Longrightarrow>
    swap_ends left right xs ! k = (if left \<le> k \<and> k \<le> right then xs ! (left + right - k) else xs ! k)"
proof (induction left right xs rule: swap_ends.induct)
  case (1 left right xs)
  show ?case
  proof (cases "left < right")
    case True
    then show ?thesis
      using 1 by (subst swap_ends.simps) (auto simp: nth_list_update)
  next
    case False
    then have "left + right - k = k" if "left \<le> k" "k \<le> right" using that by simp
    with False show ?thesis by (subst swap_ends.simps) auto
  qed
qed

lemma swap_ends_rev: "swap_ends 0 (length xs - 1) xs = rev xs"
proof (cases "xs = []")
  case True
  then show ?thesis by (subst swap_ends.simps) simp
next
  case False
  then show ?thesis by (intro nth_equalityI) (auto simp: swap_ends_nth rev_nth)
qed

subsection \<open>The tail of a command's output\<close>

definition last_bytes :: "nat \<Rightarrow> string \<Rightarrow> string" where "last_bytes limit s = drop (length s - limit) s"

lemma lastBytes_step: "0 < limit \<Longrightarrow> lastBytes_Write limit p (last_bytes limit s) = last_bytes limit (s @ p)"
proof -
  have "length s + length p - limit = length s - limit" if "length p + (length s - (length s - limit)) \<le> limit" "length p < limit"
    using that by (cases "length s \<le> limit") auto
  then show "0 < limit \<Longrightarrow> ?thesis"
    by (auto simp: lastBytes_Write_def last_bytes_def)
qed

lemma fold_lastBytes: "0 < limit \<Longrightarrow> fold (lastBytes_Write limit) ps (last_bytes limit s) = last_bytes limit (s @ concat ps)"
  by (induction ps arbitrary: s) (simp_all add: lastBytes_step)

lemma too_long_rows: "snd (scanRows decode output) = (\<exists>line \<in> set (raw_lines output). 65536 \<le> length line)"
  by (simp add: scanRows_def Scan_def Let_def list_all_iff fits_def not_less)

section \<open>What the listings promise\<close>

definition names_order :: "(string list \<Rightarrow> string list) \<Rightarrow> bool" where
  "names_order order \<longleftrightarrow> (\<forall>ns. set (order ns) = set ns)"

text \<open>The first occurrences of each value, in order.\<close>

definition firsts :: "'a list \<Rightarrow> 'a list" where
  "firsts xs = rev (remdups (rev xs))"

lemma firsts_Nil [simp]: "firsts [] = []"
  by (simp add: firsts_def)

lemma remdups_snoc: "remdups (xs @ [y]) = filter (\<lambda>x. x \<noteq> y) (remdups xs) @ [y]"
  by (induction xs) auto

lemma firsts_Cons: "firsts (x # xs) = x # filter (\<lambda>y. y \<noteq> x) (firsts xs)"
  by (simp add: firsts_def remdups_snoc rev_filter)

lemma firsts_filter: "firsts (filter P xs) = filter P (firsts xs)"
  unfolding firsts_def rev_filter remdups_filter by (simp add: rev_filter)

lemma containerOf_ID [simp]: "ct_ID (containerOf js row) = ps_ID row"
  by (simp add: containerOf_def Let_def split: prod.splits)

lemma container_loop_order:
  "map ct_ID (container_loop js seen rows) = firsts (filter (\<lambda>i. i \<notin> set seen) (map ps_ID (filter shown rows)))"
proof (induction js seen rows rule: container_loop.induct)
  case (2 js seen row rows)
  have f: "filter (\<lambda>i. i \<notin> set (ps_ID row # seen)) xs = filter (\<lambda>i. i \<noteq> ps_ID row) (filter (\<lambda>i. i \<notin> set seen) xs)" for xs
    by (auto intro: filter_cong)
  show ?case
  proof (cases "\<not> shown row \<or> ps_ID row \<in> set seen")
    case True
    then show ?thesis using 2(1) by (auto simp: List.member_iff)
  next
    case False
    then show ?thesis using 2(2) f by (simp add: List.member_iff firsts_Cons firsts_filter)
  qed
qed simp

lemma container_loop_finds:
  "c \<in> set (container_loop js seen rows) \<Longrightarrow>
     \<exists>row. find (\<lambda>r. ps_ID r = ct_ID c) (filter shown rows) = Some row \<and> c = containerOf js row \<and> ct_ID c \<notin> set seen"
proof (induction js seen rows rule: container_loop.induct)
  case (2 js seen row rows)
  show ?case
  proof (cases "\<not> shown row \<or> ps_ID row \<in> set seen")
    case True
    then show ?thesis using 2(1,3) by (auto simp: List.member_iff)
  next
    case False
    then consider "c = containerOf js row" | "c \<in> set (container_loop js (ps_ID row # seen) rows)"
      using 2(3) by (auto simp: List.member_iff)
    then show ?thesis
    proof cases
      case 2
      then show ?thesis using "2.IH"(2) False by (auto simp: List.member_iff)
    qed (use False in auto)
  qed
qed simp

lemma dashed_name:
  assumes "p \<noteq> ''''" "newline \<notin> set p" "s \<noteq> ''''" "CHR ''-'' \<notin> set s" "n \<noteq> ''''" "list_all is_digit n"
  shows "composeNameMatch (p @ ''-'' @ s @ ''-'' @ n) = Some (p, s)"
proof -
  have "CHR ''-'' \<notin> set n" using assms(6) by (auto simp: list_all_iff is_digit_def)
  then have "Split (p @ ''-'' @ s @ ''-'' @ n) (CHR ''-'') = Split p (CHR ''-'') @ [s, n]"
    using assms(4) by (simp add: Split_append_sep Split_plain)
  moreover have "Split p (CHR ''-'') \<noteq> []" by simp
  ultimately show ?thesis using assms by (simp add: composeNameMatch_def Join_Split)
qed

text \<open>
  C15: Whatever the engine prints, a container listing shows each container once, in the order of the output. The rows
  are the lines that decode; left out are those without an identifier, the nameless rows of corrupt entries and the
  helper containers of guest commands. The identifiers listed are those of the other rows, each at its first place, and
  the container listed is that first row: name, image, status, ports and creation time are the printed ones, the state
  is the printed one in lower case, or, where none is printed, one of five states that is \<open>running\<close> exactly for a status
  that begins with \<open>Up\<close>. A compose project given by a label, or else by a name with a number, is never replaced by a guess.
\<close>

theorem listing_is_faithful:
  fixes js :: jsonlib and out :: string
  defines "rows \<equiv> filter (\<lambda>r. ps_ID r \<noteq> '''' \<and> TrimSpace (ps_Names r) \<noteq> ''''
        \<and> \<not> HasPrefix (TrimSpace (ps_Names r)) ''calf-guestcmd-'')
      (List.map_filter (\<lambda>l. if TrimSpace l = '''' then None else js_ps js (TrimSpace l)) (fst (Scan out)))"
  assumes "ParseContainerLines order js out = Inr cs"
  shows "map ct_ID cs = firsts (map ps_ID rows)
    \<and> (\<forall>c \<in> set cs. \<exists>r. find (\<lambda>r. ps_ID r = ct_ID c) rows = Some r
        \<and> ct_Name c = ps_Names r \<and> ct_Image c = ps_Image r \<and> ct_Status c = ps_Status r \<and> ct_Ports c = ps_Ports r
        \<and> ct_Created c = ps_CreatedAt r
        \<and> (if ps_State r \<noteq> '''' then ct_State c = ToLower (ps_State r)
           else ct_State c \<in> {''running'', ''exited'', ''created'', ''paused'', ''stopped''}
             \<and> (ct_State c = ''running'') = HasPrefix (TrimSpace (ps_Status r)) ''Up'')
        \<and> (let labels = parseLabels js (ps_Labels r); project = label labels ''com.docker.compose.project'' in
           if project \<noteq> '''' then ct_ComposeProject c = project \<and> ct_ComposeService c = label labels ''com.docker.compose.service''
           else \<forall>p s n. ps_Names r = p @ ''-'' @ s @ ''-'' @ n \<and> p \<noteq> '''' \<and> newline \<notin> set p \<and> s \<noteq> '''' \<and> CHR ''-'' \<notin> set s
               \<and> n \<noteq> '''' \<and> list_all is_digit n \<longrightarrow> ct_ComposeProject c = p \<and> ct_ComposeService c = s))"
proof -
  define all where "all = fst (scanRows (js_ps js) out)"
  have rows: "rows = filter shown all"
    unfolding rows_def all_def scanRows_def shown_def [abs_def] by (simp add: Let_def case_prod_unfold)
  obtain names where cs: "cs = inferComposeProjects names (container_loop js [] all)"
    using assms(2) by (auto simp: ParseContainerLines_def all_def Let_def split: prod.splits if_splits)
  have "map ct_ID cs = firsts (map ps_ID rows)"
    using container_loop_order [of js "[]" all] by (simp add: cs infer_IDs rows)
  moreover {
    fix c assume "c \<in> set cs"
    then obtain d where d: "d \<in> set (container_loop js [] all)" and same: "same_but_project d c"
      using infer_same [of "container_loop js [] all" names] unfolding cs list_all2_conv_all_nth by (metis in_set_conv_nth)
    note f = same_fields [OF same]
    obtain r where r: "find (\<lambda>r. ps_ID r = ct_ID d) rows = Some r" and dr: "d = containerOf js r"
      using container_loop_finds [OF d] rows by auto
    obtain project service where pr: "composeFields (ps_Names r) (parseLabels js (ps_Labels r)) = (project, service)" by (metis surj_pair)
    have g: "project \<noteq> '''' \<Longrightarrow> ct_ComposeProject c = project \<and> ct_ComposeService c = service"
      using same by (auto simp: dr containerOf_def pr Let_def same_but_project_def)
    have st: "ct_State d = containerState (ps_Status r) (ps_State r)" by (simp add: dr containerOf_def pr Let_def)
    have "if ps_State r \<noteq> '''' then ct_State c = ToLower (ps_State r)
           else ct_State c \<in> {''running'', ''exited'', ''created'', ''paused'', ''stopped''}
             \<and> (ct_State c = ''running'') = HasPrefix (TrimSpace (ps_Status r)) ''Up''"
      using f by (simp add: st containerState_def Let_def)
    moreover have "let labels = parseLabels js (ps_Labels r); project = label labels ''com.docker.compose.project'' in
           if project \<noteq> '''' then ct_ComposeProject c = project \<and> ct_ComposeService c = label labels ''com.docker.compose.service''
           else \<forall>p s n. ps_Names r = p @ ''-'' @ s @ ''-'' @ n \<and> p \<noteq> '''' \<and> newline \<notin> set p \<and> s \<noteq> '''' \<and> CHR ''-'' \<notin> set s
               \<and> n \<noteq> '''' \<and> list_all is_digit n \<longrightarrow> ct_ComposeProject c = p \<and> ct_ComposeService c = s"
      using g pr dashed_name unfolding composeFields_def Let_def ComposeProjectLabel_def ComposeServiceLabel_def
      by (auto split: if_splits)
    ultimately have "\<exists>r. find (\<lambda>r. ps_ID r = ct_ID c) rows = Some r
        \<and> ct_Name c = ps_Names r \<and> ct_Image c = ps_Image r \<and> ct_Status c = ps_Status r \<and> ct_Ports c = ps_Ports r
        \<and> ct_Created c = ps_CreatedAt r
        \<and> (if ps_State r \<noteq> '''' then ct_State c = ToLower (ps_State r)
           else ct_State c \<in> {''running'', ''exited'', ''created'', ''paused'', ''stopped''}
             \<and> (ct_State c = ''running'') = HasPrefix (TrimSpace (ps_Status r)) ''Up'')
        \<and> (let labels = parseLabels js (ps_Labels r); project = label labels ''com.docker.compose.project'' in
           if project \<noteq> '''' then ct_ComposeProject c = project \<and> ct_ComposeService c = label labels ''com.docker.compose.service''
           else \<forall>p s n. ps_Names r = p @ ''-'' @ s @ ''-'' @ n \<and> p \<noteq> '''' \<and> newline \<notin> set p \<and> s \<noteq> '''' \<and> CHR ''-'' \<notin> set s
               \<and> n \<noteq> '''' \<and> list_all is_digit n \<longrightarrow> ct_ComposeProject c = p \<and> ct_ComposeService c = s)"
      using r f by (intro exI [of _ r]) (simp add: dr containerOf_def pr Let_def)
  }
  ultimately show ?thesis by blast
qed

text \<open>
  The names are a Go map, which is visited in an arbitrary order; the listing does not depend on that order.
\<close>

theorem listing_ignores_order:
  assumes "names_order order"
  shows "ParseContainerLines order js output = ParseContainerLines id js output"
proof -
  have "inferComposeProjects (order ns) = inferComposeProjects ns" for ns
    using assms infer_set [of "order ns" ns] by (simp add: names_order_def inferComposeProjects_def [abs_def])
  then show ?thesis by (simp add: ParseContainerLines_def Let_def case_prod_unfold)
qed

text \<open>
  A listing ends with an error exactly when a line of the output is longer than the scanner takes: one container
  with labels of 64 KiB hides every container.
\<close>

theorem long_line_fails_listing:
  "(ParseContainerLines order js output = Inl ErrTooLong) = (\<exists>line \<in> set (raw_lines output). 65536 \<le> length line)"
  "(ParseImageLines js output = Inl ErrTooLong) = (\<exists>line \<in> set (raw_lines output). 65536 \<le> length line)"
  "(ParseVolumeLines js output = Inl ErrTooLong) = (\<exists>line \<in> set (raw_lines output). 65536 \<le> length line)"
  "(ParseImageHistoryLines js output = Inl ErrTooLong) = (\<exists>line \<in> set (raw_lines output). 65536 \<le> length line)"
  unfolding ParseContainerLines_def ParseImageLines_def ParseVolumeLines_def ParseImageHistoryLines_def
  by (simp_all add: Let_def case_prod_unfold too_long_rows)

text \<open>
  The history of an image is shown from the base up: the layers are the rows in reverse order, numbered from 0.
\<close>

theorem history_from_base:
  assumes "ParseImageHistoryLines js output = Inr layers"
  shows "layers = map layerOf (enumerate 0 (rev (fst (scanRows (js_history js) output))))"
  using assms by (auto simp: ParseImageHistoryLines_def Let_def swap_ends_rev [simplified] enumerate_eq_zip split: prod.splits if_splits)

text \<open>
  The buffer behind a command's error message holds the last bytes of everything that was written, however the
  output was cut into writes, and never more than its limit.
\<close>

theorem error_tail_is_the_end:
  assumes "0 < limit"
  shows "fold (lastBytes_Write limit) ps '''' = drop (length (concat ps) - limit) (concat ps)"
    and "length (fold (lastBytes_Write limit) ps '''') \<le> limit"
  using fold_lastBytes [OF assms, of ps "[]"] by (simp_all add: last_bytes_def)


text \<open>A decoder for rows written as fields with bars between them.\<close>

definition bar_ps :: "string \<Rightarrow> psRow option" where
  "bar_ps line =
     (case Split line (CHR ''|'') of
        [i, n, im, st] \<Rightarrow> Some \<lparr>ps_ID = i, ps_Names = n, ps_Image = im, ps_State = st, ps_Status = '''', ps_Ports = '''', ps_CreatedAt = '''', ps_Labels = ''''\<rparr>
      | _ \<Rightarrow> None)"

definition bar_history :: "string \<Rightarrow> historyLine option" where
  "bar_history line =
     (case Split line (CHR ''|'') of
        [c, s] \<Rightarrow> Some \<lparr>hl_CreatedSince = '''', hl_CreatedBy = c, hl_Size = s\<rparr>
      | _ \<Rightarrow> None)"

definition bar_json :: jsonlib where
  "bar_json = \<lparr>js_ps = bar_ps, js_labels = (\<lambda>_. None), js_text = (\<lambda>_. None), js_image = (\<lambda>_. None),
     js_history = bar_history, js_volume = (\<lambda>_. None)\<rparr>"

definition demo_ps :: string where
  "demo_ps = Join [''1|shop-web|nginx|running'', ''2|shop-db|mysql|exited'', ''1|shop-web|nginx|running'', ''3||x|running'', ''{bad'', ''4|calf-guestcmd-9|x|running''] [newline]"

definition demo_listing :: "Container list" where
  "demo_listing =
     [\<lparr>ct_ID = ''1'', ct_Name = ''shop-web'', ct_Image = ''nginx'', ct_State = ''running'', ct_Status = '''', ct_Ports = '''', ct_Created = '''',
       ct_ComposeProject = ''shop'', ct_ComposeService = ''web''\<rparr>,
      \<lparr>ct_ID = ''2'', ct_Name = ''shop-db'', ct_Image = ''mysql'', ct_State = ''exited'', ct_Status = '''', ct_Ports = '''', ct_Created = '''',
       ct_ComposeProject = ''shop'', ct_ComposeService = ''db''\<rparr>]"

lemma demo_ps_parsed: "ParseContainerLines rev bar_json demo_ps = Inr demo_listing"
  by code_simp

theorem listing_is_faithful_witness:
  "\<exists>r. bar_ps (ps_ID r @ ''|'' @ ps_Names r @ ''|'' @ ps_Image r @ ''|'' @ ps_State r) = Some r
     \<and> ct_ID (demo_listing ! 1) = ps_ID r \<and> ct_Image (demo_listing ! 1) = ps_Image r
     \<and> ct_State (demo_listing ! 1) = ToLower (ps_State r)"
proof -
  define c where "c = demo_listing ! 1"
  have c: "c \<in> set demo_listing" by (simp add: c_def demo_listing_def)
  define rows where "rows = filter (\<lambda>r. ps_ID r \<noteq> '''' \<and> TrimSpace (ps_Names r) \<noteq> ''''
        \<and> \<not> HasPrefix (TrimSpace (ps_Names r)) ''calf-guestcmd-'')
      (List.map_filter (\<lambda>l. if TrimSpace l = '''' then None else js_ps bar_json (TrimSpace l)) (fst (Scan demo_ps)))"
  have "list_all (\<lambda>r. bar_ps (ps_ID r @ ''|'' @ ps_Names r @ ''|'' @ ps_Image r @ ''|'' @ ps_State r) = Some r \<and> ps_State r \<noteq> '''') rows"
    unfolding rows_def by code_simp
  moreover obtain r where r: "find (\<lambda>r. ps_ID r = ct_ID c) rows = Some r" "ct_Image c = ps_Image r"
      "if ps_State r \<noteq> '''' then ct_State c = ToLower (ps_State r) else True"
    using listing_is_faithful [OF demo_ps_parsed, folded rows_def] c by (metis (no_types, lifting))
  moreover have "r \<in> set rows" "ps_ID r = ct_ID c" using r(1) by (auto simp: find_Some_iff)
  ultimately show ?thesis unfolding c_def [symmetric] by (intro exI [of _ r]) (auto simp: list_all_iff)
qed

theorem listing_ignores_order_witness:
  "ParseContainerLines id bar_json demo_ps = Inr demo_listing"
proof -
  have "names_order rev" by (simp add: names_order_def)
  from listing_ignores_order [OF this] show ?thesis using demo_ps_parsed by metis
qed

definition demo_history :: string where
  "demo_history = Join [''/bin/sh -c #(nop)  CMD x|0B'', ''/bin/sh -c apk add|5MB'', ''ADD file|3MB''] [newline]"

lemma demo_history_parsed:
  "ParseImageHistoryLines bar_json demo_history = Inr
     [\<lparr>il_Index = 0, il_CreatedBy = ''ADD file'', il_Size = ''3MB'', il_Created = ''''\<rparr>,
      \<lparr>il_Index = 1, il_CreatedBy = ''apk add'', il_Size = ''5MB'', il_Created = ''''\<rparr>,
      \<lparr>il_Index = 2, il_CreatedBy = ''CMD x'', il_Size = ''0B'', il_Created = ''''\<rparr>]"
  by code_simp

theorem history_from_base_witness:
  "map il_Size (map layerOf (enumerate 0 (rev (fst (scanRows (js_history bar_json) demo_history))))) = [''3MB'', ''5MB'', ''0B'']"
  unfolding history_from_base [OF demo_history_parsed, symmetric] by simp

theorem error_tail_is_the_end_witness:
  "fold (lastBytes_Write 4) [''ab'', ''cde'', ''f''] '''' = ''cdef''"
  using error_tail_is_the_end(1) [of 4 "[''ab'', ''cde'', ''f'']"] by simp

end
