(* ===== verification/Calf_Config.thy ===== *)
theory Calf_Config
  imports Calf_Cli Calf_Files Calf_Http Calf_Strings
begin

text \<open>
  Configuration: \<open>config/config.go\<close> (defaults, reading, writing), \<open>config/validate_proxy.go\<close> (what an update may
  contain), \<open>api/config.go\<close> (the handlers), the log level and log file of \<open>config/logger.go\<close> and \<open>log_file.go\<close>, and
  the host capacities of \<open>daemon/host.go\<close> that updates are checked against.
\<close>

section \<open>The configuration\<close>

record Config =
  cf_ListenAddr :: string
  cf_LogLevel :: string
  cf_VMName :: string
  cf_DockerSocket :: string
  cf_PollIntervalMs :: int
  cf_DockerContextManaged :: bool
  cf_CPUs :: int
  cf_MemoryGB :: int
  cf_MemorySwapGB :: int
  cf_DiskGB :: int
  cf_DiskImage :: string
  cf_HTTPProxy :: string
  cf_HTTPSProxy :: string
  cf_NoProxy :: string
  cf_VMKeepAlive :: bool
  cf_Rootless :: bool
  cf_ResourceSaverEnabled :: bool
  cf_ResourceSaverTimeoutSec :: int

definition DefaultListenAddr :: string where "DefaultListenAddr = ''127.0.0.1:8765''"

definition DefaultVMName :: string where "DefaultVMName = ''calf''"

definition DefaultPollIntervalMS :: int where "DefaultPollIntervalMS = 3000"

definition TimeoutMinSec :: int where "TimeoutMinSec = 30"

definition TimeoutMaxSec :: int where "TimeoutMaxSec = 3600"

text \<open>The embedded \<open>config.yaml\<close>.\<close>

definition Default :: Config where
  "Default = \<lparr>cf_ListenAddr = ''127.0.0.1:8765'', cf_LogLevel = ''info'', cf_VMName = ''calf'', cf_DockerSocket = '''',
     cf_PollIntervalMs = 3000, cf_DockerContextManaged = True, cf_CPUs = 4, cf_MemoryGB = 4, cf_MemorySwapGB = 1,
     cf_DiskGB = 100, cf_DiskImage = '''', cf_HTTPProxy = '''', cf_HTTPSProxy = '''', cf_NoProxy = '''',
     cf_VMKeepAlive = True, cf_Rootless = True, cf_ResourceSaverEnabled = True, cf_ResourceSaverTimeoutSec = 300\<rparr>"

definition clampTimeout :: "int \<Rightarrow> int" where
  "clampTimeout sec0 =
     (let sec1 = (if sec0 \<le> 0 then cf_ResourceSaverTimeoutSec Default else sec0);
          sec2 = (if sec1 < TimeoutMinSec then TimeoutMinSec else sec1)
      in if sec2 > TimeoutMaxSec then TimeoutMaxSec else sec2)"

definition defaultListen :: "string \<Rightarrow> string" where
  "defaultListen addr0 =
     (let addr = (if addr0 = '''' then DefaultListenAddr else addr0)
      in if addr = '':8765'' \<or> addr = ''0.0.0.0:8765'' then DefaultListenAddr else addr)"

definition positiveOr :: "int \<Rightarrow> int \<Rightarrow> int" where
  "positiveOr n dflt = (if n \<le> 0 then dflt else n)"

definition withDefaults :: "Config \<Rightarrow> Config" where
  "withDefaults cfg = cfg\<lparr>
     cf_ListenAddr := defaultListen (cf_ListenAddr cfg),
     cf_LogLevel := (if cf_LogLevel cfg = '''' then cf_LogLevel Default else cf_LogLevel cfg),
     cf_VMName := (if cf_VMName cfg = '''' then DefaultVMName else cf_VMName cfg),
     cf_PollIntervalMs := positiveOr (cf_PollIntervalMs cfg) DefaultPollIntervalMS,
     cf_CPUs := positiveOr (cf_CPUs cfg) (cf_CPUs Default),
     cf_MemoryGB := positiveOr (cf_MemoryGB cfg) (cf_MemoryGB Default),
     cf_MemorySwapGB := positiveOr (cf_MemorySwapGB cfg) (cf_MemorySwapGB Default),
     cf_DiskGB := positiveOr (cf_DiskGB cfg) (cf_DiskGB Default),
     cf_ResourceSaverTimeoutSec := clampTimeout (cf_ResourceSaverTimeoutSec cfg)\<rparr>"

text \<open>
  A YAML document: the keys it has.  Unmarshalling into a configuration sets the fields whose keys are there.
\<close>

record ConfigDoc =
  cd_ListenAddr :: "string option"
  cd_LogLevel :: "string option"
  cd_VMName :: "string option"
  cd_DockerSocket :: "string option"
  cd_PollIntervalMs :: "int option"
  cd_DockerContextManaged :: "bool option"
  cd_CPUs :: "int option"
  cd_MemoryGB :: "int option"
  cd_MemorySwapGB :: "int option"
  cd_DiskGB :: "int option"
  cd_DiskImage :: "string option"
  cd_HTTPProxy :: "string option"
  cd_HTTPSProxy :: "string option"
  cd_NoProxy :: "string option"
  cd_VMKeepAlive :: "bool option"
  cd_Rootless :: "bool option"
  cd_ResourceSaverEnabled :: "bool option"
  cd_ResourceSaverTimeoutSec :: "int option"

definition or_else :: "'a option \<Rightarrow> 'a \<Rightarrow> 'a" where
  "or_else x dflt = (case x of Some v \<Rightarrow> v | None \<Rightarrow> dflt)"

lemma or_else_simps [simp]: "or_else (Some v) d = v" "or_else None d = d"
  by (simp_all add: or_else_def)

definition yaml_into :: "ConfigDoc \<Rightarrow> Config \<Rightarrow> Config" where
  "yaml_into d cfg = \<lparr>cf_ListenAddr = or_else (cd_ListenAddr d) (cf_ListenAddr cfg),
     cf_LogLevel = or_else (cd_LogLevel d) (cf_LogLevel cfg), cf_VMName = or_else (cd_VMName d) (cf_VMName cfg),
     cf_DockerSocket = or_else (cd_DockerSocket d) (cf_DockerSocket cfg),
     cf_PollIntervalMs = or_else (cd_PollIntervalMs d) (cf_PollIntervalMs cfg),
     cf_DockerContextManaged = or_else (cd_DockerContextManaged d) (cf_DockerContextManaged cfg),
     cf_CPUs = or_else (cd_CPUs d) (cf_CPUs cfg), cf_MemoryGB = or_else (cd_MemoryGB d) (cf_MemoryGB cfg),
     cf_MemorySwapGB = or_else (cd_MemorySwapGB d) (cf_MemorySwapGB cfg), cf_DiskGB = or_else (cd_DiskGB d) (cf_DiskGB cfg),
     cf_DiskImage = or_else (cd_DiskImage d) (cf_DiskImage cfg), cf_HTTPProxy = or_else (cd_HTTPProxy d) (cf_HTTPProxy cfg),
     cf_HTTPSProxy = or_else (cd_HTTPSProxy d) (cf_HTTPSProxy cfg), cf_NoProxy = or_else (cd_NoProxy d) (cf_NoProxy cfg),
     cf_VMKeepAlive = or_else (cd_VMKeepAlive d) (cf_VMKeepAlive cfg), cf_Rootless = or_else (cd_Rootless d) (cf_Rootless cfg),
     cf_ResourceSaverEnabled = or_else (cd_ResourceSaverEnabled d) (cf_ResourceSaverEnabled cfg),
     cf_ResourceSaverTimeoutSec = or_else (cd_ResourceSaverTimeoutSec d) (cf_ResourceSaverTimeoutSec cfg)\<rparr>"

definition yaml_of :: "Config \<Rightarrow> ConfigDoc" where
  "yaml_of c = \<lparr>cd_ListenAddr = Some (cf_ListenAddr c), cd_LogLevel = Some (cf_LogLevel c), cd_VMName = Some (cf_VMName c),
     cd_DockerSocket = Some (cf_DockerSocket c), cd_PollIntervalMs = Some (cf_PollIntervalMs c),
     cd_DockerContextManaged = Some (cf_DockerContextManaged c), cd_CPUs = Some (cf_CPUs c), cd_MemoryGB = Some (cf_MemoryGB c),
     cd_MemorySwapGB = Some (cf_MemorySwapGB c), cd_DiskGB = Some (cf_DiskGB c), cd_DiskImage = Some (cf_DiskImage c),
     cd_HTTPProxy = Some (cf_HTTPProxy c), cd_HTTPSProxy = Some (cf_HTTPSProxy c), cd_NoProxy = Some (cf_NoProxy c),
     cd_VMKeepAlive = Some (cf_VMKeepAlive c), cd_Rootless = Some (cf_Rootless c),
     cd_ResourceSaverEnabled = Some (cf_ResourceSaverEnabled c),
     cd_ResourceSaverTimeoutSec = Some (cf_ResourceSaverTimeoutSec c)\<rparr>"

type_synonym config_dir = "(string, ConfigDoc node) directory"

definition Path :: "string result \<Rightarrow> string result" where
  "Path home = (case ConfigDir home of Inl err \<Rightarrow> Inl err | Inr dir \<Rightarrow> Inr (filepath_Join dir ''config.yaml''))"

definition Config_Save :: "string faults \<Rightarrow> string result \<Rightarrow> config_dir \<Rightarrow> Config \<Rightarrow> go_error option \<times> config_dir" where
  "Config_Save io home d cfg =
     (case Path home of
        Inl err \<Rightarrow> (Some err, d)
      | Inr path \<Rightarrow>
          (case io OpMkdir (filepath_Dir path) of
             Some f \<Rightarrow> (Some (fault_error f), d)
           | None \<Rightarrow> WriteFile io d path (yaml_of (withDefaults cfg))))"

text \<open>A configuration that cannot be read ends the program, so only the error is a result.\<close>

definition Config_Load :: "string faults \<Rightarrow> string result \<Rightarrow> config_dir \<Rightarrow> Config result \<times> config_dir" where
  "Config_Load io home d =
     (case Path home of
        Inl err \<Rightarrow> (Inl err, d)
      | Inr path \<Rightarrow>
          (case ReadFile io d path of
             Inl NotExist \<Rightarrow>
               (case Config_Save io home d Default of (Some saveErr, d1) \<Rightarrow> (Inl saveErr, d1) | (None, d1) \<Rightarrow> (Inr Default, d1))
           | Inl (IOFault err) \<Rightarrow> (Inl err, d)
           | Inr data \<Rightarrow>
               (case Unmarshal data of
                  Inl err \<Rightarrow> (Inl err, d)
                | Inr raw \<Rightarrow>
                    let cfg = yaml_into raw Default;
                        cfg1 = (if cd_DockerContextManaged raw = None
                                then cfg\<lparr>cf_DockerContextManaged := cf_DockerContextManaged Default\<rparr> else cfg);
                        cfg2 = (if cd_VMKeepAlive raw = None then cfg1\<lparr>cf_VMKeepAlive := cf_VMKeepAlive Default\<rparr> else cfg1);
                        cfg3 = (if cd_Rootless raw = None then cfg2\<lparr>cf_Rootless := cf_Rootless Default\<rparr> else cfg2);
                        cfg4 = (if cd_ResourceSaverEnabled raw = None
                                then cfg3\<lparr>cf_ResourceSaverEnabled := cf_ResourceSaverEnabled Default\<rparr> else cfg3);
                        cfg5 = (if cd_ResourceSaverTimeoutSec raw = None
                                then cfg4\<lparr>cf_ResourceSaverTimeoutSec := cf_ResourceSaverTimeoutSec Default\<rparr> else cfg4)
                    in (Inr (withDefaults cfg5), d))))"

definition DefaultDiskImagePath :: "string result \<Rightarrow> string \<Rightarrow> string" where
  "DefaultDiskImagePath home vmName0 =
     (let vmName = (if vmName0 = '''' then DefaultVMName else vmName0) in
      case ConfigDir home of
        Inl _ \<Rightarrow> ''''
      | Inr dir \<Rightarrow> filepath_Join (filepath_Join (filepath_Join dir ''guest'') vmName) ''disk.raw'')"

definition EffectiveDiskImage :: "string result \<Rightarrow> Config \<Rightarrow> string" where
  "EffectiveDiskImage home cfg =
     (let path = ExpandHomePath home (cf_DiskImage cfg)
      in if path \<noteq> '''' then path else DefaultDiskImagePath home (cf_VMName cfg))"

section \<open>Host capacities (daemon/host.go)\<close>

definition BytesPerGiB :: int where "BytesPerGiB = 1073741824"

text \<open>Dividing an \<open>int64\<close> by a positive constant; only its sign matters below one.\<close>

definition HostMemoryGB :: "int option \<Rightarrow> int" where
  "HostMemoryGB bytes = (case bytes of None \<Rightarrow> 8 | Some b \<Rightarrow> let gb = b div BytesPerGiB in if gb < 1 then 1 else gb)"

definition HostDiskGB :: "string result \<Rightarrow> (string \<Rightarrow> int option) \<Rightarrow> int" where
  "HostDiskGB home hostDiskAvailableBytes =
     (case home of
        Inl _ \<Rightarrow> 500
      | Inr h \<Rightarrow>
          if h = '''' then 500
          else case hostDiskAvailableBytes h of
            None \<Rightarrow> 500
          | Some b \<Rightarrow> let gb = b div BytesPerGiB in if gb < 1 then 1 else gb)"

definition darwinHostMemoryBytes :: "string result \<Rightarrow> int option" where
  "darwinHostMemoryBytes out =
     (case out of
        Inl _ \<Rightarrow> None
      | Inr text \<Rightarrow> (case ParseInt64 (TrimSpace text) of None \<Rightarrow> None | Some b \<Rightarrow> if b \<le> 0 then None else Some b))"

text \<open>The lines of \<open>/proc/meminfo\<close>; the product wraps like an \<open>int64\<close>.\<close>

definition wrap64 :: "int \<Rightarrow> int" where
  "wrap64 n = (n + 2 ^ 63) mod 2 ^ 64 - 2 ^ 63"

fun meminfo_loop :: "string list \<Rightarrow> int option" where
  "meminfo_loop [] = None"
| "meminfo_loop (line # lines) =
     (if \<not> HasPrefix line ''MemTotal:'' then meminfo_loop lines
      else case Fields line of
        _ # kb # _ \<Rightarrow> (case ParseInt64 kb of None \<Rightarrow> None | Some n \<Rightarrow> if n \<le> 0 then None else Some (wrap64 (n * 1024)))
      | _ \<Rightarrow> None)"

definition linuxHostMemoryBytes :: "string result \<Rightarrow> int option" where
  "linuxHostMemoryBytes meminfo = (case meminfo of Inl _ \<Rightarrow> None | Inr text \<Rightarrow> meminfo_loop (fst (Scan text)))"

section \<open>Updates (validate\_proxy.go)\<close>

record UpdateRequest =
  ur_CPUs :: "int option"
  ur_MemoryGB :: "int option"
  ur_MemorySwapGB :: "int option"
  ur_DiskGB :: "int option"
  ur_DiskImage :: "string option"
  ur_DockerContextManaged :: "bool option"
  ur_Rootless :: "bool option"
  ur_HTTPProxy :: "string option"
  ur_HTTPSProxy :: "string option"
  ur_NoProxy :: "string option"
  ur_ResourceSaverEnabled :: "bool option"
  ur_ResourceSaverTimeoutSec :: "int option"
  ur_LogLevel :: "string option"

text \<open>A field is absent or passes a test.\<close>

definition given :: "'a option \<Rightarrow> ('a \<Rightarrow> bool) \<Rightarrow> bool" where
  "given x test = (case x of Some v \<Rightarrow> test v | None \<Rightarrow> False)"

lemma given_simps [simp]: "given (Some v) test = test v" "given None test = False"
  by (simp_all add: given_def)

definition ProxyUpdateChanged :: "UpdateRequest \<Rightarrow> Config \<Rightarrow> bool" where
  "ProxyUpdateChanged req current \<longleftrightarrow>
     given (ur_HTTPProxy req) (\<lambda>v. TrimSpace v \<noteq> cf_HTTPProxy current)
     \<or> given (ur_HTTPSProxy req) (\<lambda>v. TrimSpace v \<noteq> cf_HTTPSProxy current)
     \<or> given (ur_NoProxy req) (\<lambda>v. TrimSpace v \<noteq> cf_NoProxy current)"

definition between :: "string \<Rightarrow> int \<Rightarrow> int \<Rightarrow> go_error" where
  "between field lo hi = Errorf (field @ '': must be between '' @ show_int lo @ '' and '' @ show_int hi)"

definition atLeastOne :: "int \<Rightarrow> int" where
  "atLeastOne n = (if n < 1 then 1 else n)"

definition ValidateResourceUpdate :: "string result \<Rightarrow> UpdateRequest \<Rightarrow> int \<Rightarrow> int \<Rightarrow> int \<Rightarrow> go_error option" where
  "ValidateResourceUpdate home req hostCPUs0 hostMemoryGB0 hostDiskGB0 =
     (let hostCPUs = atLeastOne hostCPUs0; hostMemoryGB = atLeastOne hostMemoryGB0; hostDiskGB = atLeastOne hostDiskGB0 in
      if given (ur_CPUs req) (\<lambda>n. n < 1 \<or> n > hostCPUs) then Some (between ''cpus'' 1 hostCPUs)
      else if given (ur_MemoryGB req) (\<lambda>n. n < 1 \<or> n > hostMemoryGB) then Some (between ''memory_gb'' 1 hostMemoryGB)
      else if given (ur_MemorySwapGB req) (\<lambda>n. n < 0 \<or> n > hostMemoryGB) then Some (between ''memory_swap_gb'' 0 hostMemoryGB)
      else if given (ur_DiskGB req) (\<lambda>n. n < 1 \<or> n > hostDiskGB) then Some (between ''disk_gb'' 1 hostDiskGB)
      else if given (ur_DiskImage req) (\<lambda>p. TrimSpace p \<noteq> '''' \<and> \<not> filepath_IsAbs (ExpandHomePath home (TrimSpace p)))
      then Some (Errorf ''disk_image: must be an absolute path'')
      else if given (ur_ResourceSaverTimeoutSec req) (\<lambda>n. n < TimeoutMinSec \<or> n > TimeoutMaxSec)
      then Some (between ''resource_saver_timeout_sec'' TimeoutMinSec TimeoutMaxSec)
      else None)"

text \<open>
  What is used of the packages \<open>net/url\<close> and \<open>net\<close>: the scheme and host of a URL, whether a text is an address
  or a network, and the host of a host and port.
\<close>

record netlib =
  url_Parse :: "string \<Rightarrow> (string \<times> string) result"
  net_ParseIP :: "string \<Rightarrow> bool"
  net_ParseCIDR :: "string \<Rightarrow> bool"
  net_SplitHostPort :: "string \<Rightarrow> string option"

definition validateProxyURL :: "netlib \<Rightarrow> string \<Rightarrow> string list \<Rightarrow> go_error option" where
  "validateProxyURL net raw allowedSchemes =
     (case url_Parse net raw of
        Inl err \<Rightarrow> Some (Wrap (''invalid URL '' @ Quote raw) err)
      | Inr (scheme, host) \<Rightarrow>
          if scheme = '''' then Some (Errorf (''missing scheme in '' @ Quote raw @ '' (expected http:// or https://)''))
          else if \<not> List.member allowedSchemes scheme
          then Some (Errorf (''unsupported scheme '' @ Quote scheme @ '' in '' @ Quote raw))
          else if host = '''' then Some (Errorf (''missing host in '' @ Quote raw))
          else None)"

definition domain_char :: "char \<Rightarrow> bool" where
  "domain_char c \<longleftrightarrow> (CHR ''a'' \<le> c \<and> c \<le> CHR ''z'') \<or> (CHR ''A'' \<le> c \<and> c \<le> CHR ''Z'') \<or> is_digit c \<or> c = CHR ''-'' \<or> c = CHR ''_''"

definition domainLabel :: "string \<Rightarrow> bool" where
  "domainLabel part \<longleftrightarrow> part \<noteq> '''' \<and> length part \<le> 63 \<and> hd part \<noteq> CHR ''-'' \<and> last part \<noteq> CHR ''-'' \<and> list_all domain_char part"

definition isValidDomain :: "string \<Rightarrow> bool" where
  "isValidDomain host \<longleftrightarrow> host \<noteq> '''' \<and> length host \<le> 253 \<and> list_all domainLabel (Split host CHR ''.'')"

definition validateNoProxyEntry :: "netlib \<Rightarrow> string \<Rightarrow> go_error option" where
  "validateNoProxyEntry net entry0 =
     (if Contains entry0 ''/'' then
        if net_ParseCIDR net entry0 then None
        else Some (Errorf (''invalid no_proxy entry '' @ Quote entry0 @ '': must not contain a path''))
      else
        let host = TrimPrefix entry0 ''.'' in
        if net_ParseIP net host then None
        else
          let (isIP, host1) = (case net_SplitHostPort net host of None \<Rightarrow> (False, host) | Some h \<Rightarrow> (net_ParseIP net h, h)) in
          if isIP then None
          else if isValidDomain host1 then None
          else Some (Errorf (''invalid no_proxy entry '' @ Quote entry0 @ '': must be a valid hostname or IP address'')))"

fun noProxy_loop :: "netlib \<Rightarrow> string list \<Rightarrow> go_error option" where
  "noProxy_loop net [] = None"
| "noProxy_loop net (part # parts) =
     (let e = TrimSpace part in
      if e = '''' then noProxy_loop net parts
      else case validateNoProxyEntry net e of Some err \<Rightarrow> Some (Wrap ''no_proxy'' err) | None \<Rightarrow> noProxy_loop net parts)"

text \<open>The check of one field of the request; a blank value is no value.\<close>

definition checkField :: "string option \<Rightarrow> (string \<Rightarrow> go_error option) \<Rightarrow> go_error option" where
  "checkField field check =
     (case field of None \<Rightarrow> None | Some raw \<Rightarrow> let v = TrimSpace raw in if v = '''' then None else check v)"

definition ValidateProxyUpdate :: "netlib \<Rightarrow> UpdateRequest \<Rightarrow> go_error option" where
  "ValidateProxyUpdate net req =
     (case checkField (ur_HTTPProxy req) (\<lambda>v. map_option (Wrap ''http_proxy'') (validateProxyURL net v [''http''])) of
        Some err \<Rightarrow> Some err
      | None \<Rightarrow>
     (case checkField (ur_HTTPSProxy req) (\<lambda>v. map_option (Wrap ''https_proxy'') (validateProxyURL net v [''http'', ''https''])) of
        Some err \<Rightarrow> Some err
      | None \<Rightarrow> checkField (ur_NoProxy req) (\<lambda>v. noProxy_loop net (Split v CHR '',''))))"

definition NormalizeLogLevel :: "string \<Rightarrow> string result" where
  "NormalizeLogLevel level =
     (let l = ToLower (TrimSpace level) in
      if l = ''debug'' then Inr ''debug''
      else if l = ''info'' then Inr ''info''
      else if l = ''warn'' \<or> l = ''warning'' then Inr ''warn''
      else if l = ''error'' then Inr ''error''
      else Inl (Errorf ''log_level: must be debug, info, warn, or error''))"

datatype Level = LevelDebug | LevelInfo | LevelWarn | LevelError

definition parseLogLevel :: "string \<Rightarrow> Level" where
  "parseLogLevel level =
     (let l = ToLower (TrimSpace level) in
      if l = ''debug'' then LevelDebug
      else if l = ''warn'' \<or> l = ''warning'' then LevelWarn
      else if l = ''error'' then LevelError
      else LevelInfo)"

definition SetLogLevel :: "string \<Rightarrow> Level" where
  "SetLogLevel level = parseLogLevel (case NormalizeLogLevel level of Inl _ \<Rightarrow> ''info'' | Inr n \<Rightarrow> n)"

section \<open>The handlers (api/config.go)\<close>

record ProxyConfig =
  px_HTTPProxy :: string
  px_HTTPSProxy :: string
  px_NoProxy :: string

text \<open>
  The state the handlers change: the configuration in memory, the files, the log level, the goroutines that were
  started to apply a proxy, and how often the Docker context was activated.
\<close>

record confCore =
  cc_Cfg :: Config
  cc_Disk :: config_dir
  cc_Level :: Level
  cc_proxyJobs :: "ProxyConfig list"
  cc_activations :: nat

text \<open>What the handlers find around them.\<close>

record confEnv =
  ce_home :: "string result"
  ce_faults :: "string faults"
  ce_net :: netlib
  ce_hostCPUs :: int
  ce_hostMemoryGB :: int
  ce_hostDiskGB :: int
  ce_isNative :: bool

definition newDiskImage :: "string result \<Rightarrow> string \<Rightarrow> string \<Rightarrow> string" where
  "newDiskImage home vmName raw =
     (let path = TrimSpace raw in
      if path = '''' then ''''
      else let expanded = ExpandHomePath home path
           in if expanded = DefaultDiskImagePath home vmName then '''' else expanded)"

text \<open>The fields that \<open>applyConfigUpdate\<close> sets before the log level.\<close>

definition mergedConfig :: "string result \<Rightarrow> UpdateRequest \<Rightarrow> Config \<Rightarrow> Config" where
  "mergedConfig home req c = c\<lparr>
     cf_CPUs := or_else (ur_CPUs req) (cf_CPUs c),
     cf_MemoryGB := or_else (ur_MemoryGB req) (cf_MemoryGB c),
     cf_MemorySwapGB := or_else (ur_MemorySwapGB req) (cf_MemorySwapGB c),
     cf_DiskGB := or_else (ur_DiskGB req) (cf_DiskGB c),
     cf_DiskImage := (case ur_DiskImage req of None \<Rightarrow> cf_DiskImage c | Some raw \<Rightarrow> newDiskImage home (cf_VMName c) raw),
     cf_DockerContextManaged := or_else (ur_DockerContextManaged req) (cf_DockerContextManaged c),
     cf_Rootless := or_else (ur_Rootless req) (cf_Rootless c),
     cf_HTTPProxy := or_else (map_option TrimSpace (ur_HTTPProxy req)) (cf_HTTPProxy c),
     cf_HTTPSProxy := or_else (map_option TrimSpace (ur_HTTPSProxy req)) (cf_HTTPSProxy c),
     cf_NoProxy := or_else (map_option TrimSpace (ur_NoProxy req)) (cf_NoProxy c),
     cf_ResourceSaverEnabled := or_else (ur_ResourceSaverEnabled req) (cf_ResourceSaverEnabled c),
     cf_ResourceSaverTimeoutSec := or_else (ur_ResourceSaverTimeoutSec req) (cf_ResourceSaverTimeoutSec c)\<rparr>"

definition applyConfigUpdate :: "confEnv \<Rightarrow> UpdateRequest \<Rightarrow> confCore \<Rightarrow> Config result \<times> confCore" where
  "applyConfigUpdate env req s =
     (let s1 = s\<lparr>cc_Cfg := mergedConfig (ce_home env) req (cc_Cfg s)\<rparr> in
      case (case ur_LogLevel req of
              None \<Rightarrow> Inr s1
            | Some level \<Rightarrow>
                (case NormalizeLogLevel level of
                   Inl err \<Rightarrow> Inl err
                 | Inr normalized \<Rightarrow>
                     Inr (s1\<lparr>cc_Cfg := (cc_Cfg s1)\<lparr>cf_LogLevel := normalized\<rparr>, cc_Level := SetLogLevel normalized\<rparr>))) of
        Inl err \<Rightarrow> (Inl err, s1)
      | Inr s2 \<Rightarrow>
          (case Config_Save (ce_faults env) (ce_home env) (cc_Disk s2) (cc_Cfg s2) of
             (Some err, d) \<Rightarrow> (Inl err, s2\<lparr>cc_Disk := d\<rparr>)
           | (None, d) \<Rightarrow> (Inr (cc_Cfg s2), s2\<lparr>cc_Disk := d\<rparr>)))"

text \<open>The view has the configuration, the disk image in effect and the host's capacities.\<close>

record configView =
  cv_Cfg :: Config
  cv_DiskImage :: string
  cv_HostCPUs :: int
  cv_HostMemoryGB :: int
  cv_HostDiskGB :: int

definition buildConfigView :: "confEnv \<Rightarrow> confCore \<Rightarrow> configView" where
  "buildConfigView env s =
     (let cfg = cc_Cfg s in
      \<lparr>cv_Cfg = cfg, cv_DiskImage = EffectiveDiskImage (ce_home env) cfg, cv_HostCPUs = ce_hostCPUs env,
       cv_HostMemoryGB = ce_hostMemoryGB env,
       cv_HostDiskGB = (if cf_DiskGB cfg > ce_hostDiskGB env then cf_DiskGB cfg else ce_hostDiskGB env)\<rparr>)"

definition handleConfigGet :: "confEnv \<Rightarrow> (confCore, configView) handler" where
  "handleConfigGet env r s = (WriteJSON 200 (buildConfigView env s), s)"

definition rootlessConflict :: "confEnv \<Rightarrow> UpdateRequest \<Rightarrow> confCore \<Rightarrow> bool" where
  "rootlessConflict env req s \<longleftrightarrow> given (ur_Rootless req) (\<lambda>b. b \<noteq> cf_Rootless (cc_Cfg s)) \<and> ce_isNative env"

definition handleConfigPut :: "confEnv \<Rightarrow> UpdateRequest result \<Rightarrow> (confCore, configView) handler" where
  "handleConfigPut env body r s =
     (case body of
        Inl err \<Rightarrow> (WriteError 400 (''invalid JSON: '' @ Error err), s)
      | Inr req \<Rightarrow>
          (case ValidateProxyUpdate (ce_net env) req of
             Some err \<Rightarrow> (WriteError 400 (Error err), s)
           | None \<Rightarrow>
               (case (case ur_LogLevel req of None \<Rightarrow> None
                      | Some level \<Rightarrow> (case NormalizeLogLevel level of Inl err \<Rightarrow> Some err | Inr _ \<Rightarrow> None)) of
                  Some err \<Rightarrow> (WriteError 400 (Error err), s)
                | None \<Rightarrow>
                    let diskGB = cf_DiskGB (cc_Cfg s);
                        hostDiskGB = (if diskGB > ce_hostDiskGB env then diskGB else ce_hostDiskGB env) in
                    (case ValidateResourceUpdate (ce_home env) req (ce_hostCPUs env) (ce_hostMemoryGB env) hostDiskGB of
                       Some err \<Rightarrow> (WriteError 400 (Error err), s)
                     | None \<Rightarrow>
                         if rootlessConflict env req s
                         then (WriteError 409 ''changing rootless requires restarting the calf daemon'', s)
                         else
                           let proxyChanged = ProxyUpdateChanged req (cc_Cfg s) in
                           (case applyConfigUpdate env req s of
                              (Inl err, s1) \<Rightarrow> (WriteError 500 (''failed to save config: '' @ Error err), s1)
                            | (Inr saved, s1) \<Rightarrow>
                                let job = \<lparr>px_HTTPProxy = cf_HTTPProxy saved, px_HTTPSProxy = cf_HTTPSProxy saved, px_NoProxy = cf_NoProxy saved\<rparr>;
                                    s2 = (if proxyChanged then s1\<lparr>cc_proxyJobs := cc_proxyJobs s1 @ [job]\<rparr> else s1);
                                    s3 = (if cf_DockerContextManaged saved then s2\<lparr>cc_activations := cc_activations s2 + 1\<rparr> else s2)
                                in (WriteJSON 200 (buildConfigView env s1), s3))))))"

text \<open>The goroutine that applies a proxy: once more after starting the runtime, if it was not running.\<close>

definition applyProxyJob :: "(ProxyConfig \<Rightarrow> 'w \<Rightarrow> go_error option \<times> 'w) \<Rightarrow> ('w \<Rightarrow> go_error option \<times> 'w) \<Rightarrow> ProxyConfig \<Rightarrow> 'w \<Rightarrow> 'w" where
  "applyProxyJob ApplyProxy EnsureRuntimeRunning job w =
     (case ApplyProxy job w of
        (None, w1) \<Rightarrow> w1
      | (Some err, w1) \<Rightarrow>
          if \<not> errors_Is err ErrRuntimeNotRunning then w1
          else case EnsureRuntimeRunning w1 of
            (Some _, w2) \<Rightarrow> w2
          | (None, w2) \<Rightarrow> snd (ApplyProxy job w2))"

section \<open>The log file (log\_file.go)\<close>

text \<open>
  The file and its backup, whether it is open, and the faults of a call.  Sizes are those of the contents.
\<close>

definition DaemonLogMaxBytes :: int where "DaemonLogMaxBytes = 5242880"

definition DaemonLogTailBytes :: int where "DaemonLogTailBytes = 524288"

record rotatingFile =
  rf_open :: bool
  rf_file :: "string option"
  rf_backup :: "string option"

definition file_size :: "string option \<Rightarrow> int" where
  "file_size f = (case f of None \<Rightarrow> 0 | Some s \<Rightarrow> int (length s))"

definition rotateIfNeeded :: "go_error option \<Rightarrow> rotatingFile \<Rightarrow> go_error option \<times> rotatingFile" where
  "rotateIfNeeded renameErr w =
     (case rf_file w of
        None \<Rightarrow> (None, w)
      | Some s \<Rightarrow>
          if int (length s) < DaemonLogMaxBytes then (None, w)
          else case renameErr of
            Some e \<Rightarrow> (Some e, w\<lparr>rf_backup := None\<rparr>)
          | None \<Rightarrow> (None, w\<lparr>rf_file := None, rf_backup := Some s\<rparr>))"

definition openAppend :: "go_error option \<Rightarrow> rotatingFile \<Rightarrow> go_error option \<times> rotatingFile" where
  "openAppend openErr w =
     (case openErr of
        Some e \<Rightarrow> (Some e, w)
      | None \<Rightarrow> (None, w\<lparr>rf_open := True, rf_file := Some (or_else (rf_file w) '''')\<rparr>))"

definition Reopen :: "go_error option \<Rightarrow> go_error option \<Rightarrow> rotatingFile \<Rightarrow> go_error option \<times> rotatingFile" where
  "Reopen renameErr openErr w =
     (case rotateIfNeeded renameErr (w\<lparr>rf_open := False\<rparr>) of
        (Some e, w1) \<Rightarrow> (Some e, w1)
      | (None, w1) \<Rightarrow> openAppend openErr w1)"

definition newRotatingFile :: "go_error option \<Rightarrow> go_error option \<Rightarrow> rotatingFile \<Rightarrow> go_error option \<times> rotatingFile" where
  "newRotatingFile renameErr openErr w = Reopen renameErr openErr w"

definition ErrClosed :: go_error where "ErrClosed = Errorf ''file already closed''"

definition rotating_Write :: "go_error option \<Rightarrow> go_error option \<Rightarrow> string \<Rightarrow> rotatingFile \<Rightarrow> go_error option \<times> rotatingFile" where
  "rotating_Write renameErr openErr p w =
     (if \<not> rf_open w then (Some ErrClosed, w)
      else
        let (err, w1) = (if file_size (rf_file w) + int (length p) > DaemonLogMaxBytes then Reopen renameErr openErr w else (None, w))
        in case err of
             Some e \<Rightarrow> (Some e, w1)
           | None \<Rightarrow> (None, w1\<lparr>rf_file := Some (or_else (rf_file w1) '''' @ p)\<rparr>))"

definition rotating_Close :: "rotatingFile \<Rightarrow> rotatingFile" where
  "rotating_Close w = w\<lparr>rf_open := False\<rparr>"

definition ReadLogTail :: "string result \<Rightarrow> int \<Rightarrow> string option result \<Rightarrow> (string \<times> string) result" where
  "ReadLogTail home maxBytes0 content =
     (let maxBytes = (if maxBytes0 \<le> 0 then DaemonLogTailBytes else maxBytes0) in
      case LogFilePath home of
        Inl err \<Rightarrow> Inl err
      | Inr path \<Rightarrow>
          (case content of
             Inl err \<Rightarrow> Inl err
           | Inr None \<Rightarrow> Inr ('''', path)
           | Inr (Some data) \<Rightarrow>
               let start0 = int (length data) - maxBytes; start = (if start0 < 0 then 0 else start0);
                   text = drop (nat start) data
               in Inr (if start > 0 \<and> newline \<in> set text then tl (dropWhile (\<lambda>c. c \<noteq> newline) text) else text, path)))"

definition handleDebugLogs :: "string result \<Rightarrow> string option result \<Rightarrow> (unit, string \<times> string) handler" where
  "handleDebugLogs home content r s =
     (case ReadLogTail home DaemonLogTailBytes content of
        Inl _ \<Rightarrow> (WriteError 500 ''failed to read daemon logs'', s)
      | Inr v \<Rightarrow> (WriteJSON 200 v, s))"

section \<open>Reading back what was written\<close>

text \<open>A configuration that writing and reading leaves alone, a swap size of zero apart.\<close>

definition kept_config :: "Config \<Rightarrow> bool" where
  "kept_config c \<longleftrightarrow> defaultListen (cf_ListenAddr c) = cf_ListenAddr c \<and> cf_LogLevel c \<noteq> '''' \<and> cf_VMName c \<noteq> ''''
     \<and> 0 < cf_PollIntervalMs c \<and> 0 < cf_CPUs c \<and> 0 < cf_MemoryGB c \<and> 0 < cf_DiskGB c \<and> 0 \<le> cf_MemorySwapGB c
     \<and> TimeoutMinSec \<le> cf_ResourceSaverTimeoutSec c \<and> cf_ResourceSaverTimeoutSec c \<le> TimeoutMaxSec"

definition restored :: "Config \<Rightarrow> Config" where
  "restored c = c\<lparr>cf_MemorySwapGB := (if cf_MemorySwapGB c = 0 then 1 else cf_MemorySwapGB c)\<rparr>"

lemma defaultListen_idem [simp]: "defaultListen (defaultListen a) = defaultListen a"
  by (simp add: defaultListen_def DefaultListenAddr_def Let_def)

lemma clampTimeout_range: "TimeoutMinSec \<le> clampTimeout n" "clampTimeout n \<le> TimeoutMaxSec"
  by (simp_all add: clampTimeout_def TimeoutMinSec_def TimeoutMaxSec_def Default_def Let_def)

lemma clampTimeout_id: "TimeoutMinSec \<le> n \<Longrightarrow> n \<le> TimeoutMaxSec \<Longrightarrow> clampTimeout n = n"
  by (simp add: clampTimeout_def TimeoutMinSec_def TimeoutMaxSec_def Let_def)

lemma kept_withDefaults: "kept_config (withDefaults c)"
  using clampTimeout_range by (simp add: kept_config_def withDefaults_def positiveOr_def Default_def DefaultVMName_def DefaultPollIntervalMS_def)

lemma withDefaults_kept: "kept_config c \<Longrightarrow> withDefaults c = restored c"
  by (cases c) (simp add: kept_config_def withDefaults_def restored_def positiveOr_def clampTimeout_id Default_def)

lemma restored_withDefaults [simp]: "withDefaults (restored c) = withDefaults c" if "kept_config c"
proof -
  have "kept_config (restored c)" using that by (simp add: kept_config_def restored_def)
  then show ?thesis using that withDefaults_kept by (simp add: restored_def)
qed

lemma withDefaults_idem [simp]: "withDefaults (withDefaults c) = withDefaults c"
proof -
  have "cf_MemorySwapGB (withDefaults c) \<noteq> 0" by (simp add: withDefaults_def positiveOr_def Default_def)
  then show ?thesis using withDefaults_kept [OF kept_withDefaults, of c] by (simp add: restored_def)
qed

lemma yaml_roundtrip [simp]: "yaml_into (yaml_of c) d = c"
  by (cases c) (simp add: yaml_into_def yaml_of_def)

lemma yaml_present [simp]:
  "cd_DockerContextManaged (yaml_of c) = Some (cf_DockerContextManaged c)" "cd_VMKeepAlive (yaml_of c) = Some (cf_VMKeepAlive c)"
  "cd_Rootless (yaml_of c) = Some (cf_Rootless c)" "cd_ResourceSaverEnabled (yaml_of c) = Some (cf_ResourceSaverEnabled c)"
  "cd_ResourceSaverTimeoutSec (yaml_of c) = Some (cf_ResourceSaverTimeoutSec c)"
  by (simp_all add: yaml_of_def)

lemma Load_after_Save:
  assumes "Config_Save io home d c = (None, d')" "Path home = Inr path" "io' OpRead path = None"
  shows "Config_Load io' home d' = (Inr (withDefaults c), d')"
proof -
  have "WriteFile io d path (yaml_of (withDefaults c)) = (None, d')"
    using assms(1,2) by (auto simp: Config_Save_def split: option.splits)
  then have "entry d' path = Some (File (Json (yaml_of (withDefaults c))))"
    by (auto simp: WriteFile_def split: option.splits node.splits)
  then show ?thesis using assms(2,3) by (simp add: Config_Load_def ReadFile_def Let_def)
qed

text \<open>What a request leaves in memory.\<close>

definition updated :: "string result \<Rightarrow> UpdateRequest \<Rightarrow> Config \<Rightarrow> Config" where
  "updated home req c =
     (let m = mergedConfig home req c in
      case ur_LogLevel req of
        None \<Rightarrow> m
      | Some level \<Rightarrow> (case NormalizeLogLevel level of Inl _ \<Rightarrow> m | Inr n \<Rightarrow> m\<lparr>cf_LogLevel := n\<rparr>))"

lemma applied_config:
  assumes "applyConfigUpdate env req s = (res, s')"
  shows "cc_Cfg s' = updated (ce_home env) req (cc_Cfg s)"
    "res = Inr saved \<Longrightarrow> saved = cc_Cfg s'
      \<and> Config_Save (ce_faults env) (ce_home env) (cc_Disk s) (cc_Cfg s') = (None, cc_Disk s')"
  using assms by (auto simp: applyConfigUpdate_def updated_def Let_def split: option.splits sum.splits prod.splits)

lemma NormalizeLogLevel_ne: "NormalizeLogLevel l = Inr n \<Longrightarrow> n \<noteq> ''''"
  by (auto simp: NormalizeLogLevel_def Let_def split: if_splits)

lemma kept_updated:
  assumes "kept_config c" "ValidateResourceUpdate home req a b d = None"
  shows "kept_config (updated home req c)"
proof -
  have "kept_config (mergedConfig home req c)"
    using assms
    by (cases "ur_CPUs req"; cases "ur_MemoryGB req"; cases "ur_MemorySwapGB req"; cases "ur_DiskGB req"; cases "ur_ResourceSaverTimeoutSec req")
       (auto simp: kept_config_def mergedConfig_def ValidateResourceUpdate_def Let_def split: if_splits)
  then show ?thesis using NormalizeLogLevel_ne
    by (auto simp: updated_def Let_def kept_config_def split: option.splits sum.splits)
qed

text \<open>The path of a request to its answer 200 or 500.\<close>

lemma put_cases:
  assumes "handleConfigPut env body r s = (Response st b, s')" "st = 200 \<or> st = 500"
  obtains req res s1 where "body = Inr req"
    "ValidateResourceUpdate (ce_home env) req (ce_hostCPUs env) (ce_hostMemoryGB env)
       (max (cf_DiskGB (cc_Cfg s)) (ce_hostDiskGB env)) = None"
    "applyConfigUpdate env req s = (res, s1)" "cc_Cfg s' = cc_Cfg s1" "cc_Disk s' = cc_Disk s1" "st = 200 \<longleftrightarrow> (\<exists>c. res = Inr c)"
  using assms
  by (auto simp: handleConfigPut_def Let_def WriteError_def WriteJSON_def max_def split: sum.splits option.splits if_splits prod.splits)

section \<open>Properties\<close>


definition conf_env :: "go_error option \<Rightarrow> confEnv" where
  "conf_env err = \<lparr>ce_home = Inr ''/home/u'', ce_faults = (\<lambda>op k. if op = OpWrite then map_option (\<lambda>e. Fault e False) err else None),
     ce_net = \<lparr>url_Parse = (\<lambda>_. Inr (''http'', ''h'')), net_ParseIP = (\<lambda>_. False), net_ParseCIDR = (\<lambda>_. False), net_SplitHostPort = (\<lambda>_. None)\<rparr>,
     ce_hostCPUs = 8, ce_hostMemoryGB = 16, ce_hostDiskGB = 500, ce_isNative = False\<rparr>"

definition demo_core :: confCore where
  "demo_core = \<lparr>cc_Cfg = Default, cc_Disk = [], cc_Level = LevelInfo, cc_proxyJobs = [], cc_activations = 0\<rparr>"

definition swap_request :: UpdateRequest where
  "swap_request = \<lparr>ur_CPUs = Some 6, ur_MemoryGB = None, ur_MemorySwapGB = Some 0, ur_DiskGB = None, ur_DiskImage = None,
     ur_DockerContextManaged = None, ur_Rootless = None, ur_HTTPProxy = None, ur_HTTPSProxy = None, ur_NoProxy = None,
     ur_ResourceSaverEnabled = None, ur_ResourceSaverTimeoutSec = None, ur_LogLevel = None\<rparr>"

definition put_request :: Request where
  "put_request = \<lparr>req_Method = ''PUT'', req_Path = ''/v1/config''\<rparr>"

lemma demo_saved: "applyConfigUpdate (conf_env None) swap_request demo_core \<noteq> (Inl e, s)"
  by (simp add: applyConfigUpdate_def conf_env_def swap_request_def demo_core_def Config_Save_def Path_def ConfigDir_def WriteFile_def Let_def)

lemma demo_put:
  "\<exists>b s'. handleConfigPut (conf_env None) (Inr swap_request) put_request demo_core = (Response 200 b, s')"
proof -
  obtain res s1 where a: "applyConfigUpdate (conf_env None) swap_request demo_core = (Inr res, s1)"
    using demo_saved by (metis sum.exhaust surj_pair)
  then show ?thesis
    by (simp add: handleConfigPut_def ValidateProxyUpdate_def ValidateResourceUpdate_def checkField_def swap_request_def
        rootlessConflict_def WriteJSON_def Let_def atLeastOne_def conf_env_def)
qed


text \<open>Values outside the capacities of the host are never taken over, and accepted ones are stored as they are.\<close>

theorem accepted_resources_fit_host:
  assumes "handleConfigPut env (Inr req) r s = (Response 200 b, s')"
  shows "(\<forall>n. ur_CPUs req = Some n \<longrightarrow> cf_CPUs (cc_Cfg s') = n \<and> 1 \<le> n \<and> n \<le> max 1 (ce_hostCPUs env))
    \<and> (\<forall>n. ur_MemoryGB req = Some n \<longrightarrow> cf_MemoryGB (cc_Cfg s') = n \<and> 1 \<le> n \<and> n \<le> max 1 (ce_hostMemoryGB env))
    \<and> (\<forall>n. ur_DiskGB req = Some n \<longrightarrow> cf_DiskGB (cc_Cfg s') = n \<and> 1 \<le> n \<and> n \<le> max 1 (max (cf_DiskGB (cc_Cfg s)) (ce_hostDiskGB env)))
    \<and> (ur_CPUs req = None \<longrightarrow> cf_CPUs (cc_Cfg s') = cf_CPUs (cc_Cfg s))"
proof -
  obtain res s1 where p: "ValidateResourceUpdate (ce_home env) req (ce_hostCPUs env) (ce_hostMemoryGB env)
        (max (cf_DiskGB (cc_Cfg s)) (ce_hostDiskGB env)) = None" "applyConfigUpdate env req s = (res, s1)" "cc_Cfg s' = cc_Cfg s1"
    using put_cases [OF assms] by (metis sum.inject(2))
  have m: "cf_CPUs (cc_Cfg s') = or_else (ur_CPUs req) (cf_CPUs (cc_Cfg s))"
    "cf_MemoryGB (cc_Cfg s') = or_else (ur_MemoryGB req) (cf_MemoryGB (cc_Cfg s))"
    "cf_DiskGB (cc_Cfg s') = or_else (ur_DiskGB req) (cf_DiskGB (cc_Cfg s))"
    using applied_config(1) [OF p(2)] p(3)
    by (simp_all add: updated_def mergedConfig_def Let_def split: option.splits sum.splits)
  show ?thesis using p(1) unfolding m
    by (auto simp: ValidateResourceUpdate_def atLeastOne_def Let_def split: if_splits)
qed

theorem accepted_resources_fit_host_witness:
  "\<exists>b s'. handleConfigPut (conf_env None) (Inr swap_request) put_request demo_core = (Response 200 b, s') \<and> cf_CPUs (cc_Cfg s') = 6"
proof -
  obtain b s' where r: "handleConfigPut (conf_env None) (Inr swap_request) put_request demo_core = (Response 200 b, s')"
    using demo_put by blast
  show ?thesis using accepted_resources_fit_host [OF r] r by (auto simp: swap_request_def)
qed

text \<open>
  When saving fails the answer is an error, but the new configuration is already in effect, and the next request
  for the configuration shows it.
\<close>

theorem failed_update_is_in_effect:
  assumes "handleConfigPut env (Inr req) r s = (Response 500 b, s')"
  shows "cc_Cfg s' = updated (ce_home env) req (cc_Cfg s)
    \<and> handleConfigGet env r' s' = (Response 200 (Value (buildConfigView env s')), s')"
proof -
  obtain res s1 where "applyConfigUpdate env req s = (res, s1)" "cc_Cfg s' = cc_Cfg s1"
    using put_cases [OF assms] by (metis sum.inject(2))
  then show ?thesis using applied_config(1) by (simp add: handleConfigGet_def WriteJSON_def)
qed

theorem failed_update_is_in_effect_witness:
  "\<exists>b s'. handleConfigPut (conf_env (Some (Errorf ''disk full''))) (Inr swap_request) put_request demo_core = (Response 500 b, s')
    \<and> cf_CPUs (cc_Cfg s') = 6 \<and> cc_Disk s' = []"
proof -
  let ?env = "conf_env (Some (Errorf ''disk full''))"
  have a: "\<exists>e s1. applyConfigUpdate ?env swap_request demo_core = (Inl e, s1) \<and> cc_Disk s1 = []"
    by (simp add: applyConfigUpdate_def conf_env_def swap_request_def demo_core_def Config_Save_def Path_def ConfigDir_def WriteFile_def Let_def)
  then obtain b s' where r: "handleConfigPut ?env (Inr swap_request) put_request demo_core = (Response 500 b, s')" "cc_Disk s' = []"
    by (auto simp: handleConfigPut_def ValidateProxyUpdate_def ValidateResourceUpdate_def checkField_def swap_request_def
        rootlessConflict_def WriteError_def Let_def atLeastOne_def conf_env_def)
  show ?thesis using failed_update_is_in_effect [OF r(1)] r by (auto simp: updated_def mergedConfig_def swap_request_def Let_def)
qed

subsection \<open>The log\<close>

definition write_all :: "string list \<Rightarrow> rotatingFile \<Rightarrow> rotatingFile" where
  "write_all ps w = fold (\<lambda>p w. snd (rotating_Write None None p w)) ps w"

definition logged_text :: "rotatingFile \<Rightarrow> string" where
  "logged_text w = or_else (rf_backup w) [] @ or_else (rf_file w) []"

lemma rotating_Write_step:
  assumes "rf_open w"
  shows "rf_open (snd (rotating_Write None None p w))" "suffix (logged_text (snd (rotating_Write None None p w))) (logged_text w @ p)"
    "file_size (rf_file w) < DaemonLogMaxBytes + k \<Longrightarrow> int (length p) \<le> k \<Longrightarrow> 0 < k \<Longrightarrow>
      file_size (rf_file (snd (rotating_Write None None p w))) < DaemonLogMaxBytes + k"
  using assms
  by (auto simp: rotating_Write_def Reopen_def rotateIfNeeded_def openAppend_def logged_text_def file_size_def suffix_def
      DaemonLogMaxBytes_def Let_def split: option.splits)

text \<open>
  The log file and its backup together are the end of what was logged, and the file exceeds its limit by less
  than one entry.
\<close>

theorem log_keeps_latest:
  assumes "rf_open w" "file_size (rf_file w) < DaemonLogMaxBytes + k" "list_all (\<lambda>p. int (length p) \<le> k) ps" "0 < k"
  shows "suffix (logged_text (write_all ps w)) (logged_text w @ concat ps)
    \<and> file_size (rf_file (write_all ps w)) < DaemonLogMaxBytes + k"
  using assms
proof (induction ps arbitrary: w)
  case (Cons p ps)
  let ?w = "snd (rotating_Write None None p w)"
  note st = rotating_Write_step [where p = p, OF Cons.prems(1)]
  have "suffix (logged_text (write_all ps ?w)) (logged_text ?w @ concat ps)" "file_size (rf_file (write_all ps ?w)) < DaemonLogMaxBytes + k"
    using Cons.IH [OF st(1) st(3)] Cons.prems by simp_all
  moreover have "suffix (logged_text ?w @ concat ps) (logged_text w @ p @ concat ps)" using st(2) by (auto simp: suffix_def)
  ultimately show ?case by (auto simp: write_all_def intro: suffix_order.trans)
qed (simp add: write_all_def)

theorem log_keeps_latest_witness:
  "suffix (logged_text (write_all [''a'', ''bc''] \<lparr>rf_open = True, rf_file = Some ''x'', rf_backup = None\<rparr>)) ''xabc''"
  using log_keeps_latest [of "\<lparr>rf_open = True, rf_file = Some ''x'', rf_backup = None\<rparr>" 2 "[''a'', ''bc'']"]
  by (simp add: file_size_def DaemonLogMaxBytes_def logged_text_def)

text \<open>
  The limit is exceeded all the same: a write that would cross it closes and opens the file again, but only a file
  that has already reached it is moved away.
\<close>

theorem log_exceeds_limit:
  assumes "int (length s) = DaemonLogMaxBytes - 1"
  shows "rotating_Write None None ''ab'' \<lparr>rf_open = True, rf_file = Some s, rf_backup = b\<rparr> =
    (None, \<lparr>rf_open = True, rf_file = Some (s @ ''ab''), rf_backup = b\<rparr>)"
  using assms by (simp add: rotating_Write_def Reopen_def rotateIfNeeded_def openAppend_def file_size_def Let_def)

theorem log_exceeds_limit_witness:
  "rotating_Write None None ''ab'' \<lparr>rf_open = True, rf_file = Some (replicate 5242879 (CHR ''x'')), rf_backup = None\<rparr> =
    (None, \<lparr>rf_open = True, rf_file = Some (replicate 5242879 (CHR ''x'') @ ''ab''), rf_backup = None\<rparr>)"
  by (rule log_exceeds_limit) (simp add: DaemonLogMaxBytes_def)

text \<open>The tail that is shown is the end of the file and, if it is not all of it, starts with a whole line where there is one.\<close>

theorem log_tail_whole_lines:
  assumes "LogFilePath home = Inr path" "0 < n" "ReadLogTail home n (Inr (Some data)) = Inr (text, p)"
  shows "p = path \<and> int (length text) \<le> n
    \<and> (text = data \<or> (\<exists>a. data = a @ newline # text) \<or> suffix text data \<and> newline \<notin> set text)"
proof -
  let ?start = "int (length data) - n"
  let ?t = "drop (nat ?start) data"
  show ?thesis
  proof (cases "?start > 0 \<and> newline \<in> set ?t")
    case True
    then have "text = tl (dropWhile (\<lambda>c. c \<noteq> newline) ?t)" "p = path" using assms by (auto simp: ReadLogTail_def Let_def split: if_splits)
    moreover obtain u v where u: "?t = u @ newline # v" "newline \<notin> set u" using True split_list_first by metis
    ultimately have "text = v" using dropWhile_sep [OF u(2)] by simp
    moreover have "data = take (nat ?start) data @ u @ newline # v" using u(1) by (metis append_take_drop_id)
    moreover have "int (length ?t) = n" using True assms(2) by (simp add: of_nat_diff)
    moreover have "length v \<le> length ?t" using u(1) by simp
    ultimately have "int (length text) \<le> n" "data = (take (nat ?start) data @ u) @ newline # text" by simp_all
    then show ?thesis using \<open>p = path\<close> by blast
  next
    case False
    then have "text = drop (nat ?start) data" "p = path" using assms by (auto simp: ReadLogTail_def Let_def split: if_splits)
    then show ?thesis using False assms(2) suffix_drop by (cases "?start > 0") auto
  qed
qed

theorem log_tail_whole_lines_witness:
  "ReadLogTail (Inr ''/u'') 4 (Inr (Some ''xx'')) = Inr (''xx'', ''/u/.config/calf/logs/calf.log'')"
proof -
  have l: "LogFilePath (Inr ''/u'') = Inr ''/u/.config/calf/logs/calf.log''" by code_simp
  have "\<exists>text p. ReadLogTail (Inr ''/u'') 4 (Inr (Some ''xx'')) = Inr (text, p) \<and> text = ''xx''"
    using l by (simp add: ReadLogTail_def Let_def)
  then show ?thesis using log_tail_whole_lines [OF l, of 4 "''xx''"] by auto
qed

end
