(* ===== verification/Calf_Details.thy ===== *)
theory Calf_Details
  imports Calf_Listing Calf_Config Calf_Time Calf_Sizes
begin

text \<open>
  What the runtime shows of one container or one volume: \<open>runtime/container_detail.go\<close> (inspect, mounts, file
  listings through \<open>ls\<close> and \<open>tar\<close>, statistics), the rest of \<open>volume_detail.go\<close> (usage, sizes, files, relative
  times), \<open>inspect_decode.go\<close> and the shell scripts of \<open>proxy.go\<close>.  JSON texts are decoded by arguments.
\<close>

section \<open>Inspect documents\<close>

text \<open>
  The arguments of \<open>decodeInspectDocuments\<close>: the text as an array, the first JSON value of a text with the offset
  behind it, and the text as one document.
\<close>

record 'a documents =
  dc_array :: "string \<Rightarrow> 'a list option"
  dc_value :: "string \<Rightarrow> (string \<times> int) option"
  dc_one :: "string \<Rightarrow> 'a result"

definition isOpening :: "char \<Rightarrow> bool" where "isOpening c \<longleftrightarrow> c = CHR ''{'' \<or> c = CHR ''[''"

lemma dropWhile_TrimSpace_length: "length (dropWhile P (TrimSpace s)) \<le> length s"
  using length_dropWhile_le [of P "TrimSpace s"] sublist_length_le [OF TrimSpace_sublist, of s] by linarith

lemma shorter_by_offset: "\<not> (offset \<le> 0 \<or> offset > int m) \<Longrightarrow> m \<le> n \<Longrightarrow> m - nat offset < n"
  by auto

function document_loop :: "'a documents \<Rightarrow> string \<Rightarrow> 'a list \<Rightarrow> 'a list result" where
  "document_loop dc remaining0 results =
     (let remaining = dropWhile (\<lambda>c. \<not> isOpening c) (TrimSpace remaining0) in
      if remaining = '''' then Inr results
      else case dc_value dc remaining of
        None \<Rightarrow> Inr results
      | Some (value, offset) \<Rightarrow>
          if offset \<le> 0 \<or> offset > int (length remaining) then Inr results
          else let rest = drop (nat offset) remaining in
            case dc_array dc value of
              Some items \<Rightarrow> document_loop dc rest (results @ items)
            | None \<Rightarrow>
                (case dc_one dc value of
                   Inl err \<Rightarrow> Inl (Wrap ''decode inspect document'' err)
                 | Inr item \<Rightarrow> document_loop dc rest (results @ [item])))"
  by pat_completeness auto

termination
proof (relation "measure (\<lambda>(dc, remaining, results). length remaining)", goal_cases)
  case (2 dc remaining0)
  then show ?case using shorter_by_offset [OF _ dropWhile_TrimSpace_length [of "\<lambda>c. \<not> isOpening c" remaining0]] by simp
next
  case (3 dc remaining0)
  then show ?case using shorter_by_offset [OF _ dropWhile_TrimSpace_length [of "\<lambda>c. \<not> isOpening c" remaining0]] by simp
qed simp

declare document_loop.simps [simp del]

definition decodeInspectDocuments :: "'a documents \<Rightarrow> string \<Rightarrow> 'a list result" where
  "decodeInspectDocuments dc output0 =
     (let output = TrimSpace output0 in
      if output = '''' then Inr []
      else case dc_array dc output of
        Some items \<Rightarrow> Inr items
      | None \<Rightarrow>
          (case document_loop dc output [] of
             Inl err \<Rightarrow> Inl err
           | Inr results \<Rightarrow> if results = [] then Inl (Errorf ''no inspect documents decoded'') else Inr results))"

section \<open>Containers\<close>

record ContainerMount =
  mt_Type :: string
  mt_Name :: string
  mt_Source :: string
  mt_Destination :: string
  mt_Mode :: string
  mt_RW :: bool

text \<open>The JSON texts that are read, and as what.\<close>

record inspectlib =
  in_rows :: "string \<Rightarrow> string list result"
  in_mounts :: "string \<Rightarrow> (ContainerMount list \<times> string list) result"
  in_stats :: "string \<Rightarrow> ContainerStats result"
  in_object :: "string \<Rightarrow> (string \<times> string) list result"

definition inspectContainer :: "inspectlib \<Rightarrow> 'w runner \<Rightarrow> string \<Rightarrow> 'w \<Rightarrow> string result \<times> 'w" where
  "inspectContainer il run cid w =
     (case run [''nerdctl'', ''inspect'', cid] w of
        (Inl err, w1) \<Rightarrow> (Inl (if IsContainerNotFoundError (Some err) then Sentinel ErrContainerNotFound else err), w1)
      | (Inr output, w1) \<Rightarrow>
          (case in_rows il output of
             Inl err \<Rightarrow> (Inl (Wrap (''inspect container '' @ cid) err), w1)
           | Inr rows \<Rightarrow> (if rows = [] then Inl (Sentinel ErrContainerNotFound) else Inr (hd rows), w1)))"

text \<open>The key under which a mount is kept, and the mount that a bind string describes.\<close>

definition mountKey :: "ContainerMount \<Rightarrow> string" where
  "mountKey m = (if mt_Destination m = '''' then mt_Source m else mt_Destination m)"

fun addMount :: "ContainerMount \<Rightarrow> ContainerMount list \<times> string list \<Rightarrow> ContainerMount list \<times> string list" where
  "addMount m (mounts, seen) =
     (let key = mountKey m in
      if key = '''' \<or> List.member seen key then (mounts, seen) else (mounts @ [m], key # seen))"

definition bindMount :: "string \<Rightarrow> ContainerMount option" where
  "bindMount text =
     (case parseBindMount text of
        None \<Rightarrow> None
      | Some (source, destination, mode) \<Rightarrow>
          Some \<lparr>mt_Type = ''bind'', mt_Name = '''', mt_Source = source, mt_Destination = destination, mt_Mode = mode,
                mt_RW = (\<not> Contains mode ''ro'')\<rparr>)"

definition parseContainerMounts :: "inspectlib \<Rightarrow> string \<Rightarrow> ContainerMount list result" where
  "parseContainerMounts il inspect =
     (case in_mounts il inspect of
        Inl err \<Rightarrow> Inl err
      | Inr (listed, binds) \<Rightarrow> Inr (fst (fold addMount (List.map_filter bindMount binds) (fold addMount listed ([], [])))))"

section \<open>Scanning numbers\<close>

text \<open>
  \<open>fmt.Sscanf(s, "%d", &size)\<close> on a text without white space, into a variable that is 0: what is not a number, or
  one out of range, leaves it so.
\<close>

definition Sscanf_d :: "string \<Rightarrow> int" where
  "Sscanf_d s =
     (let neg = (s \<noteq> [] \<and> hd s = CHR ''-''); rest = (if s \<noteq> [] \<and> hd s \<in> {CHR ''-'', CHR ''+''} then tl s else s);
          ds = takeWhile is_digit rest; v = signed_val neg ds
      in if ds = [] \<or> v < - (2 ^ 63) \<or> v > 2 ^ 63 - 1 then 0 else v)"

text \<open>\<open>strings.Trim\<close> with one byte.\<close>

definition TrimByte :: "string \<Rightarrow> char \<Rightarrow> string" where
  "TrimByte s c = rev (dropWhile ((=) c) (rev (dropWhile ((=) c) s)))"

definition entryPath :: "string \<Rightarrow> string \<Rightarrow> string" where
  "entryPath dirPath name = (if dirPath = ''/'' then ''/'' @ name else filepath_Join dirPath name)"

section \<open>Listings of ls and tar\<close>

definition lsEntry :: "string \<Rightarrow> string \<Rightarrow> ContainerFileEntry option" where
  "lsEntry dirPath line0 =
     (let line = TrimSpace line0; cols = Fields line in
      if line = '''' \<or> HasPrefix line ''total '' then None
      else if length cols < 8 then None
      else
        let mode = cols ! 0; name0 = Join (drop 8 cols) '' '' in
        if name0 = ''.'' \<or> name0 = ''..'' then None
        else
          let name = (if HasPrefix name0 [CHR 0x27] \<and> HasSuffix name0 [CHR 0x27] then TrimByte name0 (CHR 0x27) else name0);
              arrow = (if HasPrefix mode ''l'' then Index name '' -> '' else None);
              shownName = (case arrow of None \<Rightarrow> name | Some a \<Rightarrow> TrimSpace (take a name))
          in Some \<lparr>fe_Name = shownName, fe_Path = entryPath dirPath shownName, fe_IsDir = HasPrefix mode ''d'',
                   fe_Size = Sscanf_d (cols ! 4), fe_Mode = mode, fe_Modified = Join (take 3 (drop 5 cols)) '' '',
                   fe_Note = (case arrow of None \<Rightarrow> '''' | Some a \<Rightarrow> TrimSpace (drop (a + 4) name))\<rparr>)"

definition parseLsOutput :: "string \<Rightarrow> string \<Rightarrow> ContainerFileEntry list" where
  "parseLsOutput dirPath output = List.map_filter (lsEntry dirPath) (Split output newline)"

definition tarTvIsMonth :: "string \<Rightarrow> bool" where
  "tarTvIsMonth field = List.member [''Jan'', ''Feb'', ''Mar'', ''Apr'', ''May'', ''Jun'', ''Jul'', ''Aug'', ''Sep'', ''Oct'', ''Nov'', ''Dec''] field"

definition tarTvAllDigits :: "string \<Rightarrow> bool" where
  "tarTvAllDigits value \<longleftrightarrow> value \<noteq> '''' \<and> list_all is_digit value"

definition tarTvIsISODate :: "string \<Rightarrow> bool" where
  "tarTvIsISODate field \<longleftrightarrow> length field = 10 \<and> field ! 4 = CHR ''-'' \<and> field ! 7 = CHR ''-''
     \<and> tarTvAllDigits (take 4 field) \<and> tarTvAllDigits (take 2 (drop 5 field)) \<and> tarTvAllDigits (drop 8 field)"

text \<open>The index of the first field that satisfies a test, and of the last.\<close>

fun firstIndex :: "(string \<Rightarrow> bool) \<Rightarrow> string list \<Rightarrow> nat option" where
  "firstIndex P [] = None"
| "firstIndex P (x # xs) = (if P x then Some 0 else map_option Suc (firstIndex P xs))"

definition lastIndexOf :: "(string \<Rightarrow> bool) \<Rightarrow> string list \<Rightarrow> nat option" where
  "lastIndexOf P xs = map_option (\<lambda>i. length xs - 1 - i) (firstIndex P (rev xs))"

definition tarTvSizeAndModified :: "string list \<Rightarrow> bool \<Rightarrow> int \<times> string" where
  "tarTvSizeAndModified metaFields isDir =
     (if length metaFields < 3 then (0, '''')
      else
        let body = butlast (tl metaFields) in
        case firstIndex (\<lambda>f. tarTvIsMonth f \<or> tarTvIsISODate f) body of
          None \<Rightarrow>
            (case lastIndexOf tarTvAllDigits body of
               None \<Rightarrow> (0, Join body '' '')
             | Some i \<Rightarrow> (if isDir then 0 else Sscanf_d (body ! i), Join (drop (i + 1) body) '' ''))
        | Some dateStart \<Rightarrow>
            (if isDir then 0
             else case lastIndexOf tarTvAllDigits (take dateStart body) of None \<Rightarrow> 0 | Some i \<Rightarrow> Sscanf_d (body ! i),
             Join (drop dateStart body) '' ''))"

definition tarImmediateChildName :: "string \<Rightarrow> string \<Rightarrow> string option" where
  "tarImmediateChildName dirPath entryName0 =
     (let entryName = TrimSuffix (TrimPrefix (TrimPrefix entryName0 ''./'') ''/'') ''/'' in
      if entryName = '''' \<or> entryName = ''.'' then None
      else
        let base = TrimByte dirPath (CHR ''/'') in
        if base = '''' then (if Contains entryName ''/'' then None else Some entryName)
        else
          let pre = base @ ''/'' in
          if \<not> HasPrefix entryName pre then None
          else let rest = TrimPrefix entryName pre in if rest = '''' \<or> Contains rest ''/'' then None else Some rest)"

text \<open>The columns of one line: the member, the note behind an arrow and the cols in front of it.\<close>

definition tarColumns :: "string \<Rightarrow> string list \<Rightarrow> string \<times> string \<times> string list" where
  "tarColumns line cols =
     (case Index line '' -> '' of
        None \<Rightarrow> (last cols, '''', cols)
      | Some a \<Rightarrow>
          let note = TrimSpace (drop (a + 4) line); beforeFields = Fields (TrimSpace (take a line))
          in if beforeFields \<noteq> [] then (last beforeFields, note, beforeFields) else (last cols, note, cols))"

fun tar_loop :: "string \<Rightarrow> string list \<Rightarrow> string list \<Rightarrow> ContainerFileEntry list" where
  "tar_loop dirPath seen [] = []"
| "tar_loop dirPath seen (line0 # rest) =
     (let line = TrimSpace line0; cols = Fields line in
      if line = '''' \<or> length cols < 2 then tar_loop dirPath seen rest
      else
        let mode = cols ! 0; (name, note, metaFields) = tarColumns line cols in
        case tarImmediateChildName dirPath name of
          None \<Rightarrow> tar_loop dirPath seen rest
        | Some childName \<Rightarrow>
            if List.member seen childName then tar_loop dirPath seen rest
            else
              let isDir = (HasPrefix mode ''d'' \<or> HasSuffix name ''/'');
                  (size, modified) = tarTvSizeAndModified metaFields isDir
              in \<lparr>fe_Name = childName, fe_Path = entryPath dirPath childName, fe_IsDir = isDir, fe_Size = size, fe_Mode = mode,
                  fe_Modified = modified, fe_Note = (if HasPrefix mode ''l'' \<and> note = '''' then ''symlink'' else note)\<rparr>
                # tar_loop dirPath (childName # seen) rest)"

definition parseTarTvOutput :: "string \<Rightarrow> string \<Rightarrow> ContainerFileEntry list" where
  "parseTarTvOutput dirPath output = tar_loop dirPath [] (Split output newline)"

section \<open>Shell text\<close>

definition shellQuote :: "string \<Rightarrow> string" where
  "shellQuote value0 =
     (let value = TrimSpace value0 in
      if value = '''' then '''' else ReplaceAll value [CHR 0x27] [CHR 0x27, CHR 0x5C, CHR 0x27, CHR 0x27])"

definition shellDoubleQuote :: "string \<Rightarrow> string" where
  "shellDoubleQuote value0 =
     (let value = TrimSpace value0 in
      if value = '''' then ''''
      else
        let v1 = ReplaceAll value [CHR 0x5C] [CHR 0x5C, CHR 0x5C];
            v2 = ReplaceAll v1 [CHR 0x22] [CHR 0x5C, CHR 0x22]
        in ReplaceAll v2 ''$'' [CHR 0x5C, CHR ''$''])"

definition listContainerFilesFromArchive ::
    "'w runner \<Rightarrow> string \<Rightarrow> string \<Rightarrow> 'w \<Rightarrow> ContainerFileEntry list result \<times> 'w" where
  "listContainerFilesFromArchive run cid dirPath w =
     (let copyPath = (if dirPath = '''' then ''/'' else dirPath); ref = cid @ '':'' @ copyPath;
          script = ''(command -v docker >/dev/null 2>&1 && docker cp '' @ [CHR 0x27] @ shellQuote ref @ [CHR 0x27]
                     @ '' - || nerdctl cp '' @ [CHR 0x27] @ shellQuote ref @ [CHR 0x27] @ '' -) | tar -tv''
      in case run [''sh'', ''-c'', script] w of
           (Inl err, w1) \<Rightarrow> (Inl (if IsContainerNotFoundError (Some err) then Sentinel ErrContainerNotFound else err), w1)
         | (Inr output, w1) \<Rightarrow> (Inr (parseTarTvOutput dirPath output), w1))"

definition lsScript :: "string \<Rightarrow> string" where
  "lsScript dirPath = ''ls -la '' @ [CHR 0x27] @ shellQuote dirPath @ [CHR 0x27]"

definition listContainerFiles ::
    "'w runner \<Rightarrow> string \<Rightarrow> string \<Rightarrow> 'w \<Rightarrow> ContainerFileEntry list result \<times> 'w" where
  "listContainerFiles run cid dirPath0 w =
     (let dirPath = (if dirPath0 = '''' then ''/'' else dirPath0) in
      case run [''nerdctl'', ''exec'', cid, ''sh'', ''-c'', lsScript dirPath] w of
        (Inr output, w1) \<Rightarrow> (Inr (parseLsOutput dirPath output), w1)
      | (Inl err, w1) \<Rightarrow>
          if IsContainerNotFoundError (Some err) then (Inl (Sentinel ErrContainerNotFound), w1)
          else if \<not> IsContainerNotRunningError (Some err) then (Inl err, w1)
          else case listContainerFilesFromArchive run cid dirPath w1 of
            (Inr entries, w2) \<Rightarrow> (Inr entries, w2)
          | (Inl archiveErr, w2) \<Rightarrow>
              (Inl (if IsContainerNotFoundError (Some archiveErr) then Sentinel ErrContainerNotFound
                    else Suffixed (Sentinel ErrContainerNotRunning) (Error archiveErr)), w2))"

definition containerStats :: "inspectlib \<Rightarrow> 'w runner \<Rightarrow> string \<Rightarrow> 'w \<Rightarrow> ContainerStats result \<times> 'w" where
  "containerStats il run cid w =
     (case run [''nerdctl'', ''stats'', ''--no-stream'', ''--format'', jsonFormat, cid] w of
        (Inl err, w1) \<Rightarrow> (Inl err, w1)
      | (Inr output, w1) \<Rightarrow>
          let line = TrimSpace (TrimSpace output) in
          if line = '''' then (Inl (Errorf (''stats unavailable for container '' @ cid)), w1)
          else case in_stats il line of
            Inl err \<Rightarrow> (Inl err, w1)
          | Inr row \<Rightarrow>
              (Inr \<lparr>cs_CPUPerc = TrimSpace (cs_CPUPerc row), cs_MemUsage = TrimSpace (cs_MemUsage row),
                    cs_MemPerc = TrimSpace (cs_MemPerc row), cs_NetIO = TrimSpace (cs_NetIO row),
                    cs_BlockIO = TrimSpace (cs_BlockIO row), cs_PIDs = TrimSpace (cs_PIDs row)\<rparr>, w1))"

text \<open>
  \<open>InspectSection\<close>; the object is a Go map, the entries of which are visited in the order of the list.
\<close>

definition InspectSection :: "inspectlib \<Rightarrow> string \<Rightarrow> string \<Rightarrow> string result" where
  "InspectSection il raw section0 =
     (let wanted = TrimSpace section0 in
      if wanted = '''' then Inr raw
      else case in_object il raw of
        Inl err \<Rightarrow> Inl err
      | Inr payload \<Rightarrow>
          (case map_of payload wanted of
             Some v \<Rightarrow> Inr v
           | None \<Rightarrow>
               (case find (\<lambda>(key, candidate). EqualFold key wanted) payload of
                  Some (key, candidate) \<Rightarrow> Inr candidate
                | None \<Rightarrow> Inl (Errorf (''section '' @ Quote wanted @ '' not found'')))))"

section \<open>Times\<close>

definition Hour :: int where "Hour = 60 * Minute"

text \<open>\<open>Duration.Minutes\<close> and \<open>Duration.Hours\<close> of a duration that is not negative, as doubles.\<close>

definition float_Minutes :: "int \<Rightarrow> rat" where
  "float_Minutes d = to_double (of_int (d div Minute) + to_double (of_int (d mod Minute) / of_int Minute))"

definition float_Hours :: "int \<Rightarrow> rat" where
  "float_Hours d = to_double (of_int (d div Hour) + to_double (of_int (d mod Hour) / of_int Hour))"

definition ago :: "int \<Rightarrow> string \<Rightarrow> string" where
  "ago n unit = (if n = 1 then ''1 '' @ unit @ '' ago'' else show_int n @ '' '' @ unit @ ''s ago'')"

definition humanizeDuration :: "int \<Rightarrow> string" where
  "humanizeDuration d =
     (if d < Minute then ''just now''
      else if d < Hour then ago \<lfloor>float_Minutes d\<rfloor> ''minute''
      else if d < 24 * Hour then ago \<lfloor>float_Hours d\<rfloor> ''hour''
      else
        let days = \<lfloor>to_double (float_Hours d / 24)\<rfloor> in
        if days < 30 then ago days ''day''
        else let months = days div 30 in if months < 12 then ago months ''month'' else ago (months div 12) ''year'')"

definition humanizeTime :: "Time \<Rightarrow> string \<Rightarrow> string" where
  "humanizeTime now text =
     (if text = '''' then ''''
      else case ParseRFC3339 text of
        None \<Rightarrow> text
      | Some parsed \<Rightarrow> humanizeDuration (max (- (2 ^ 63)) (min (2 ^ 63 - 1) (now - parsed))))"

section \<open>Volumes\<close>

definition volumeMountName :: "ContainerMount \<Rightarrow> string" where
  "volumeMountName m = (if mt_Name m \<noteq> '''' then mt_Name m else mt_Source m)"

definition sizeLine :: "string \<Rightarrow> (string \<times> string) option" where
  "sizeLine line0 =
     (let line = TrimSpace line0 in
      if line = '''' then None
      else case Index line [CHR 0x09] of
        None \<Rightarrow> None
      | Some tab \<Rightarrow>
          let size = TrimSpace (take tab line); path = TrimSpace (drop (tab + 1) line)
          in if path = '''' \<or> size = '''' then None else Some (path, size))"

definition volumeSizesAtPaths :: "'w runner \<Rightarrow> string list \<Rightarrow> 'w \<Rightarrow> (string \<rightharpoonup> string) \<times> 'w" where
  "volumeSizesAtPaths run paths w =
     (let read = (\<lambda>output. map_of (rev (List.map_filter sizeLine (Split output newline)))) in
      if paths = [] then (\<lambda>_. None, w)
      else case run ([''du'', ''-sh''] @ paths) w of
        (Inr output, w1) \<Rightarrow> (read output, w1)
      | (Inl _, w1) \<Rightarrow>
          (case run ([''sudo'', ''-n'', ''du'', ''-sh''] @ paths) w1 of
             (Inr output, w2) \<Rightarrow> (read output, w2)
           | (Inl _, w2) \<Rightarrow> (\<lambda>_. None, w2)))"

definition ListFilesAtPath :: "'w runner \<Rightarrow> string \<Rightarrow> string \<Rightarrow> 'w \<Rightarrow> ContainerFileEntry list result \<times> 'w" where
  "ListFilesAtPath run hostPath logicalPath0 w =
     (let logicalPath = (if logicalPath0 = '''' then ''/'' else logicalPath0) in
      case run [''ls'', ''-la'', hostPath] w of
        (Inr output, w1) \<Rightarrow> (Inr (parseLsOutput logicalPath output), w1)
      | (Inl _, w1) \<Rightarrow>
          (case run [''sudo'', ''-n'', ''ls'', ''-la'', hostPath] w1 of
             (Inr output, w2) \<Rightarrow> (Inr (parseLsOutput logicalPath output), w2)
           | (Inl err, w2) \<Rightarrow> (Inl (Wrap (''list files at '' @ hostPath) err), w2)))"

definition listVolumeFiles ::
    "decoder \<Rightarrow> 'w runner \<Rightarrow> string \<Rightarrow> string \<Rightarrow> 'w \<Rightarrow> ContainerFileEntry list result \<times> 'w" where
  "listVolumeFiles decode run name path w =
     (if \<not> isValidContainerPath path then (Inl (Errorf ''invalid path''), w)
      else case volumeInspectMetadata decode run name w of
        (Inl err, w1) \<Rightarrow> (Inl err, w1)
      | (Inr row, w1) \<Rightarrow>
          if vi_Mountpoint row = '''' then (Inr [], w1)
          else let logicalPath = (if path = '''' then ''/'' else path) in
            case volumeHostPath (vi_Mountpoint row) logicalPath of
              Inl err \<Rightarrow> (Inl err, w1)
            | Inr hostPath \<Rightarrow> ListFilesAtPath run hostPath logicalPath w1)"

text \<open>The mounts of a container, when it can be inspected.\<close>

definition mountsOf :: "inspectlib \<Rightarrow> 'w runner \<Rightarrow> string \<Rightarrow> 'w \<Rightarrow> ContainerMount list \<times> 'w" where
  "mountsOf il run cid w =
     (case inspectContainer il run cid w of
        (Inl _, w1) \<Rightarrow> ([], w1)
      | (Inr inspect, w1) \<Rightarrow> (case parseContainerMounts il inspect of Inl _ \<Rightarrow> ([], w1) | Inr mounts \<Rightarrow> (mounts, w1)))"

fun usage_loop :: "inspectlib \<Rightarrow> 'w runner \<Rightarrow> string \<Rightarrow> Container list \<Rightarrow> 'w \<Rightarrow> VolumeContainerUsage list \<times> 'w" where
  "usage_loop il run volumeName [] w = ([], w)"
| "usage_loop il run volumeName (c # cs) w =
     (let (mounts, w1) = mountsOf il run (ct_ID c) w;
          used = map (\<lambda>m. \<lparr>vu_ID = ct_ID c, vu_Name = ct_Name c, vu_Image = ct_Image c, vu_Port = ExtractHostTCPPort (ct_Ports c),
                            vu_Target = mt_Destination m\<rparr>)
                   (filter (\<lambda>m. mt_Type m = ''volume'' \<and> volumeMountName m = volumeName) mounts);
          (rest, w2) = usage_loop il run volumeName cs w1
      in (used @ rest, w2))"

definition volumeContainerUsages ::
    "(string list \<Rightarrow> string list) \<Rightarrow> jsonlib \<Rightarrow> inspectlib \<Rightarrow> 'w runner \<Rightarrow> string \<Rightarrow> 'w \<Rightarrow> VolumeContainerUsage list result \<times> 'w" where
  "volumeContainerUsages order js il run volumeName w =
     (case listContainers order js run w of
        (Inl err, w1) \<Rightarrow> (Inl err, w1)
      | (Inr containers, w1) \<Rightarrow> let (usages, w2) = usage_loop il run volumeName containers w1 in (Inr usages, w2))"

definition inspectVolume ::
    "(string list \<Rightarrow> string list) \<Rightarrow> jsonlib \<Rightarrow> inspectlib \<Rightarrow> decoder \<Rightarrow> Time \<Rightarrow> 'w runner \<Rightarrow> string \<Rightarrow> 'w \<Rightarrow> VolumeDetail result \<times> 'w" where
  "inspectVolume order js il decode now run name w =
     (case volumeInspectMetadata decode run name w of
        (Inl err, w1) \<Rightarrow> (Inl err, w1)
      | (Inr row, w1) \<Rightarrow>
          (case volumeContainerUsages order js il run name w1 of
             (Inl err, w2) \<Rightarrow> (Inl err, w2)
           | (Inr usages, w2) \<Rightarrow>
               (Inr \<lparr>vd_Name = vi_Name row, vd_Driver = vi_Driver row, vd_Created = humanizeTime now (vi_CreatedAt row),
                     vd_InUse = (usages \<noteq> []), vd_Mountpoint = vi_Mountpoint row\<rparr>, w2)))"

text \<open>
  \<open>volumeNamesInUse\<close>: one goroutine per container.  The containers that are inspected (all of them unless the
  context ends before their turn), in the order of their turns, are what \<open>sched\<close> makes of the listing.
\<close>

definition mountedNames :: "ContainerMount list \<Rightarrow> string set" where
  "mountedNames mounts = {name. \<exists>m \<in> set mounts. mt_Type m = ''volume'' \<and> volumeMountName m = name \<and> name \<noteq> ''''}"

lemma mountedNames_code [code]:
  "mountedNames mounts = set (filter (\<lambda>n. n \<noteq> '''') (map volumeMountName (filter (\<lambda>m. mt_Type m = ''volume'') mounts)))"
  by (auto simp: mountedNames_def)

fun inUse_loop :: "inspectlib \<Rightarrow> 'w runner \<Rightarrow> Container list \<Rightarrow> string set \<Rightarrow> 'w \<Rightarrow> string set \<times> 'w" where
  "inUse_loop il run [] inUse w = (inUse, w)"
| "inUse_loop il run (c # cs) inUse w =
     (let (mounts, w1) = mountsOf il run (ct_ID c) w in inUse_loop il run cs (inUse \<union> mountedNames mounts) w1)"

definition volumeNamesInUse ::
    "(string list \<Rightarrow> string list) \<Rightarrow> (Container list \<Rightarrow> Container list) \<Rightarrow> jsonlib \<Rightarrow> inspectlib \<Rightarrow> 'w runner \<Rightarrow> 'w \<Rightarrow> string set result \<times> 'w" where
  "volumeNamesInUse order sched js il run w =
     (case listContainers order js run w of
        (Inl err, w1) \<Rightarrow> (Inl err, w1)
      | (Inr containers, w1) \<Rightarrow> let (inUse, w2) = inUse_loop il run (sched containers) {} w1 in (Inr inUse, w2))"

definition enrichedVolume ::
    "Time \<Rightarrow> string set \<Rightarrow> (string \<rightharpoonup> volumeInspectRow) \<Rightarrow> (string \<rightharpoonup> string) \<Rightarrow> Volume \<Rightarrow> Volume" where
  "enrichedVolume now inUse rows sizes v0 =
     (let v = v0\<lparr>vo_InUse := (vo_Name v0 \<in> inUse)\<rparr> in
      case rows (vo_Name v) of
        None \<Rightarrow> v
      | Some row \<Rightarrow>
          let v1 = (if vo_Created v = '''' then v\<lparr>vo_Created := humanizeTime now (vi_CreatedAt row)\<rparr> else v)
          in if vo_Size v1 = '''' \<and> vi_Mountpoint row \<noteq> ''''
             then v1\<lparr>vo_Size := (case sizes (vi_Mountpoint row) of Some s \<Rightarrow> s | None \<Rightarrow> '''')\<rparr> else v1)"

definition mountpointsToSize :: "(string \<rightharpoonup> volumeInspectRow) \<Rightarrow> Volume list \<Rightarrow> string list" where
  "mountpointsToSize rows volumes =
     List.map_filter (\<lambda>v. if vo_Size v \<noteq> '''' then None
        else case rows (vo_Name v) of None \<Rightarrow> None | Some row \<Rightarrow> if vi_Mountpoint row = '''' then None else Some (vi_Mountpoint row)) volumes"

definition enrichVolumesInUse ::
    "(string list \<Rightarrow> string list) \<Rightarrow> (Container list \<Rightarrow> Container list) \<Rightarrow> jsonlib \<Rightarrow> inspectlib \<Rightarrow> decoder \<Rightarrow> Time \<Rightarrow> 'w runner
      \<Rightarrow> Volume list \<Rightarrow> 'w \<Rightarrow> Volume list \<times> 'w" where
  "enrichVolumesInUse order sched js il decode now run volumes w =
     (let (used, w1) = volumeNamesInUse order sched js il run w;
          inUse = (case used of Inl _ \<Rightarrow> {} | Inr s \<Rightarrow> s);
          (found, w2) = volumeInspectMetadataBatch decode run (map vo_Name volumes) w1;
          rows = (case found of Inl _ \<Rightarrow> (\<lambda>_. None) | Inr r \<Rightarrow> r);
          (sizes, w3) = volumeSizesAtPaths run (mountpointsToSize rows volumes) w2
      in (sort_Slice (\<lambda>a b. vo_Name a < vo_Name b) (map (enrichedVolume now inUse rows sizes) volumes), w3))"

section \<open>The proxy in the guest (proxy.go)\<close>

definition unitFile :: "string \<Rightarrow> string \<Rightarrow> string \<Rightarrow> string list" where
  "unitFile http https no =
     ''[Service]'' # map (\<lambda>(n, v). ''Environment='' @ [CHR 0x22] @ n @ ''='' @ v @ [CHR 0x22])
       [(''HTTP_PROXY'', http), (''HTTPS_PROXY'', https), (''NO_PROXY'', no), (''http_proxy'', http), (''https_proxy'', https), (''no_proxy'', no)]"

definition profileFile :: "string \<Rightarrow> string \<Rightarrow> string \<Rightarrow> string list" where
  "profileFile http https no =
     map (\<lambda>(n, v). ''export '' @ n @ ''='' @ [CHR 0x27] @ v @ [CHR 0x27])
       [(''HTTP_PROXY'', http), (''HTTPS_PROXY'', https), (''NO_PROXY'', no), (''http_proxy'', http), (''https_proxy'', https), (''no_proxy'', no)]"

definition hereDoc :: "string \<Rightarrow> string list \<Rightarrow> string list" where
  "hereDoc file ls = (''sudo tee '' @ file @ '' >/dev/null <<'' @ [CHR 0x27] @ ''EOF'' @ [CHR 0x27]) # ls @ [''EOF'']"

definition proxyScript :: "ProxyConfig \<Rightarrow> string" where
  "proxyScript proxy = concat (map (\<lambda>l. l @ [newline])
     ([''set -eux -o pipefail'', ''sudo mkdir -p /etc/systemd/system/containerd.service.d'']
      @ hereDoc ''/etc/systemd/system/containerd.service.d/calf-proxy.conf''
          (unitFile (shellDoubleQuote (px_HTTPProxy proxy)) (shellDoubleQuote (px_HTTPSProxy proxy)) (shellDoubleQuote (px_NoProxy proxy)))
      @ hereDoc ''/etc/profile.d/calf-proxy.sh''
          (profileFile (shellQuote (px_HTTPProxy proxy)) (shellQuote (px_HTTPSProxy proxy)) (shellQuote (px_NoProxy proxy)))
      @ [''sudo systemctl daemon-reload'',
         ''sudo systemd-run --quiet --collect --on-active=1s --timer-property=AccuracySec=1s /bin/systemctl try-restart containerd.service docker.service'']))"

definition applyProxyInVM :: "'w runner \<Rightarrow> ProxyConfig \<Rightarrow> 'w \<Rightarrow> go_error option \<times> 'w" where
  "applyProxyInVM run proxy w =
     (case run [''bash'', ''-lc'', proxyScript proxy] w of (Inl err, w1) \<Rightarrow> (Some err, w1) | (Inr _, w1) \<Rightarrow> (None, w1))"


section \<open>Facts\<close>

subsection \<open>Mounts\<close>

definition mounts_ok :: "ContainerMount list \<Rightarrow> ContainerMount list \<Rightarrow> bool" where
  "mounts_ok cs ms \<longleftrightarrow> distinct (map mountKey ms) \<and> set (map mountKey ms) = set (map mountKey cs) - {''''}
     \<and> (\<forall>m \<in> set ms. find (\<lambda>c. mountKey c = mountKey m) cs = Some m)"

lemma mounts_ok_step:
  assumes "mounts_ok cs ms" "set seen = set (map mountKey ms)"
  shows "mounts_ok (cs @ [m]) (fst (addMount m (ms, seen)))
    \<and> set (snd (addMount m (ms, seen))) = set (map mountKey (fst (addMount m (ms, seen))))"
proof (cases "mountKey m = '''' \<or> mountKey m \<in> set seen")
  case True
  have "find (\<lambda>c. mountKey c = mountKey x) (cs @ [m]) = Some x" if "x \<in> set ms" for x
    using that assms(1) by (simp add: mounts_ok_def find_append)
  then show ?thesis using True assms by (auto simp: mounts_ok_def Let_def List.member_iff)
next
  case False
  then have new: "mountKey m \<notin> mountKey ` set cs" using assms by (auto simp: mounts_ok_def)
  then have "find (\<lambda>c. mountKey c = mountKey m) cs = None" unfolding find_None_iff by (metis imageI)
  then have "find (\<lambda>c. mountKey c = mountKey x) (cs @ [m]) = Some x" if "x \<in> set (ms @ [m])" for x
    using that assms(1) by (auto simp: mounts_ok_def find_append)
  then show ?thesis using False assms by (auto simp: mounts_ok_def Let_def List.member_iff)
qed

lemma fold_addMount:
  "mounts_ok cs ms \<Longrightarrow> set seen = set (map mountKey ms) \<Longrightarrow> mounts_ok (cs @ new) (fst (fold addMount new (ms, seen)))"
proof (induction new arbitrary: cs ms seen)
  case (Cons m new)
  obtain ms' seen' where a: "addMount m (ms, seen) = (ms', seen')" by fastforce
  then have "mounts_ok (cs @ [m]) ms'" "set seen' = set (map mountKey ms')"
    using mounts_ok_step [OF Cons.prems, of m] by simp_all
  from Cons.IH [OF this] show ?case by (simp add: a del: addMount.simps)
qed simp

subsection \<open>A shell that reads words\<close>

text \<open>
  The part of the shell language that the scripts use: words of plain characters, characters quoted by a backslash
  and text between single quotes, in which nothing is special.  Anything else is not a list of words.
\<close>

definition plain :: "char \<Rightarrow> bool" where
  "plain c \<longleftrightarrow> is_letter c \<or> is_digit c \<or> c \<in> {CHR ''-'', CHR ''.'', CHR ''/'', CHR '':'', CHR ''_'', CHR ''=''}"

fun sh_scan :: "bool \<Rightarrow> bool \<Rightarrow> string \<Rightarrow> string \<Rightarrow> string list option" where
  "sh_scan quoted started cur [] = (if quoted then None else Some (if started then [rev cur] else []))"
| "sh_scan True started cur (c # s) = (if c = CHR 0x27 then sh_scan False True cur s else sh_scan True True (c # cur) s)"
| "sh_scan False started cur (c # s) =
     (if c = CHR 0x27 then sh_scan True True cur s
      else if c = CHR 0x5C then (case s of [] \<Rightarrow> None | d # r \<Rightarrow> sh_scan False True (d # cur) r)
      else if c = CHR '' '' then
        (if started then map_option (\<lambda>ws. rev cur # ws) (sh_scan False False [] s) else sh_scan False False [] s)
      else if plain c then sh_scan False True (c # cur) s else None)"

definition sh_words :: "string \<Rightarrow> string list option" where "sh_words = sh_scan False False []"

lemma ReplaceAll_quote:
  "ReplaceAll (c # s) [q] new = (if c = q then new @ ReplaceAll s [q] new else c # ReplaceAll s [q] new)"
  by (simp add: ReplaceAll_def)

lemma ReplaceAll_Nil: "ReplaceAll [] old new = []"
  by (simp add: ReplaceAll_def)

lemma sh_scan_quoted:
  "sh_scan True True cur (ReplaceAll v [CHR 0x27] [CHR 0x27, CHR 0x5C, CHR 0x27, CHR 0x27] @ CHR 0x27 # s) = sh_scan False True (rev v @ cur) s"
  by (induction v arbitrary: cur) (simp_all add: ReplaceAll_quote ReplaceAll_Nil)

lemma shellQuote_eq: "shellQuote v = ReplaceAll (TrimSpace v) [CHR 0x27] [CHR 0x27, CHR 0x5C, CHR 0x27, CHR 0x27]"
  by (simp add: shellQuote_def Let_def ReplaceAll_Nil)

text \<open>A quoted value is one word, whatever it holds.\<close>

lemma sh_scan_shellQuote:
  "sh_scan False started cur ([CHR 0x27] @ shellQuote v @ CHR 0x27 # s) = sh_scan False True (rev (TrimSpace v) @ cur) s"
  using sh_scan_quoted [of cur "TrimSpace v" s] by (simp add: shellQuote_eq)

subsection \<open>Archive members\<close>

lemma no_slash: "Contains s ''/'' \<longleftrightarrow> CHR ''/'' \<in> set s"
  by (simp add: Contains_iff sublist_def in_set_conv_decomp)

lemma TrimPrefix_append [simp]: "TrimPrefix (p @ s) p = s"
  by (simp add: TrimPrefix_def HasPrefix_def)

definition memberPath :: "string \<Rightarrow> string" where
  "memberPath name = TrimSuffix (TrimPrefix (TrimPrefix name ''./'') ''/'') ''/''"

text \<open>A member is a child of a directory when it is named by the path of the directory and one more part.\<close>

lemma tarImmediateChildName_iff:
  "tarImmediateChildName dir name = Some child \<longleftrightarrow>
     child \<noteq> '''' \<and> CHR ''/'' \<notin> set child
     \<and> (if TrimByte dir (CHR ''/'') = '''' then memberPath name = child \<and> child \<noteq> ''.''
        else memberPath name = TrimByte dir (CHR ''/'') @ ''/'' @ child)"
proof (cases "TrimByte dir (CHR ''/'') = ''''")
  case True
  then show ?thesis by (auto simp: tarImmediateChildName_def Let_def no_slash memberPath_def)
next
  case False
  let ?pre = "TrimByte dir (CHR ''/'') @ ''/''"
  have "tarImmediateChildName dir name = Some child \<longleftrightarrow>
      HasPrefix (memberPath name) ?pre \<and> TrimPrefix (memberPath name) ?pre = child \<and> child \<noteq> '''' \<and> CHR ''/'' \<notin> set child"
    using False by (auto simp: tarImmediateChildName_def Let_def no_slash memberPath_def [symmetric] HasPrefix_def prefix_def
        Cons_eq_append_conv)
  also have "\<dots> \<longleftrightarrow> child \<noteq> '''' \<and> CHR ''/'' \<notin> set child \<and> memberPath name = ?pre @ child"
    by (auto simp: HasPrefix_def prefix_def TrimPrefix_def)
  finally show ?thesis using False by simp
qed

lemma tar_loop_step:
  obtains "tar_loop dir seen (l # ls) = tar_loop dir seen ls"
  | e where "tar_loop dir seen (l # ls) = e # tar_loop dir (fe_Name e # seen) ls" "fe_Name e \<notin> set seen"
      "fe_Name e \<noteq> '''' \<and> CHR ''/'' \<notin> set (fe_Name e) \<and> fe_Path e = entryPath dir (fe_Name e)"
proof -
  obtain name nt meta where c: "tarColumns (TrimSpace l) (Fields (TrimSpace l)) = (name, nt, meta)"
    by (metis prod_cases3)
  show ?thesis
  proof (cases "TrimSpace l = '''' \<or> length (Fields (TrimSpace l)) < 2 \<or> tarImmediateChildName dir name = None
      \<or> the (tarImmediateChildName dir name) \<in> set seen")
    case True
    then have "tar_loop dir seen (l # ls) = tar_loop dir seen ls"
      by (cases "tarImmediateChildName dir name") (auto simp: Let_def c List.member_iff)
    then show ?thesis by (rule that(1))
  next
    case False
    then obtain child where child: "tarImmediateChildName dir name = Some child" "child \<notin> set seen" by auto
    have named: "child \<noteq> '''' \<and> CHR ''/'' \<notin> set child" using child(1) unfolding tarImmediateChildName_iff by blast
    let ?d = "HasPrefix (Fields (TrimSpace l) ! 0) ''d'' \<or> HasSuffix name ''/''"
    obtain size modified where m: "tarTvSizeAndModified meta ?d = (size, modified)" by fastforce
    show ?thesis
      by (rule that(2) [of "\<lparr>fe_Name = child, fe_Path = entryPath dir child, fe_IsDir = ?d, fe_Size = size,
            fe_Mode = Fields (TrimSpace l) ! 0, fe_Modified = modified,
            fe_Note = (if HasPrefix (Fields (TrimSpace l) ! 0) ''l'' \<and> nt = '''' then ''symlink'' else nt)\<rparr>"])
        (use False child named m c in \<open>simp_all add: Let_def List.member_iff\<close>)
  qed
qed

lemma tar_loop_children:
  "distinct (map fe_Name (tar_loop dir seen ls)) \<and> set (map fe_Name (tar_loop dir seen ls)) \<inter> set seen = {}
   \<and> (\<forall>e \<in> set (tar_loop dir seen ls). fe_Name e \<noteq> '''' \<and> CHR ''/'' \<notin> set (fe_Name e) \<and> fe_Path e = entryPath dir (fe_Name e))"
proof (induction ls arbitrary: seen)
  case (Cons l ls)
  show ?case
  proof (rule tar_loop_step [of dir seen l ls])
    assume "tar_loop dir seen (l # ls) = tar_loop dir seen ls"
    then show ?thesis using Cons [of seen] by metis
  next
    fix e
    assume e: "tar_loop dir seen (l # ls) = e # tar_loop dir (fe_Name e # seen) ls" "fe_Name e \<notin> set seen"
      "fe_Name e \<noteq> '''' \<and> CHR ''/'' \<notin> set (fe_Name e) \<and> fe_Path e = entryPath dir (fe_Name e)"
    show ?thesis unfolding e(1) using Cons [of "fe_Name e # seen"] e(2,3) by auto
  qed
qed simp

subsection \<open>Streams of documents\<close>

definition braced :: "string \<Rightarrow> bool" where
  "braced d \<longleftrightarrow> (\<exists>b. d = CHR ''{'' # b @ ''}'')"

lemma TrimSpace_newline_left [simp]: "TrimSpace (newline # s) = TrimSpace s"
proof -
  have "trim_with space2 space3 (newline # s) = trim_with space2 space3 s"
    by (cases s; cases "tl s") (auto simp: space1_def)
  then show ?thesis by (simp add: TrimSpace_def TrimLeftSpace_def)
qed

lemma TrimLeft_brace [simp]: "TrimLeftSpace (CHR ''{'' # s) = CHR ''{'' # s"
  unfolding TrimLeftSpace_def trim_with_fixed by (auto simp: space1_def space2_def space3_def split: list.splits)

lemma TrimSpace_braced: "braced d \<Longrightarrow> TrimSpace d = d"
  using TrimRightSpace_visible [of "CHR ''}''" "CHR ''{'' # b" for b] by (auto simp: braced_def TrimSpace_def space1_def)

lemma TrimRight_newline [simp]: "TrimRightSpace (s @ [newline]) = TrimRightSpace s"
proof -
  have "trim_with (\<lambda>a b. space2 b a) (\<lambda>a b c. space3 c b a) (newline # rev s) = trim_with (\<lambda>a b. space2 b a) (\<lambda>a b c. space3 c b a) (rev s)"
    by (cases "rev s"; cases "tl (rev s)") (auto simp: space1_def)
  then show ?thesis by (simp add: TrimRightSpace_def)
qed

lemma TrimSpace_braced_line: assumes "braced d" shows "TrimSpace (d @ [newline]) = d"
proof -
  obtain b where d: "d = CHR ''{'' # b" using assms by (auto simp: braced_def)
  have "TrimRightSpace d = d" using TrimSpace_braced [OF assms] by (simp add: d TrimSpace_def)
  then show ?thesis using TrimRight_newline [of d] by (simp add: TrimSpace_def d)
qed

lemma braced_Join: assumes "docs \<noteq> []" "list_all braced docs" shows "braced (Join docs [newline])"
  using assms
proof (induction docs rule: list_nonempty_induct)
  case (cons d docs)
  then obtain a b where "d = CHR ''{'' # a @ ''}''" "Join docs [newline] = CHR ''{'' # b @ ''}''" by (auto simp: braced_def)
  then have "Join (d # docs) [newline] = CHR ''{'' # (a @ ''}'' @ [newline] @ CHR ''{'' # b) @ ''}''"
    using cons by (simp add: Join_Cons)
  then show ?case unfolding braced_def by blast
qed simp

text \<open>What the JSON decoder does with the documents of a stream: each is read up to the line break behind it.\<close>

definition stream_of :: "'a documents \<Rightarrow> string list \<Rightarrow> (string \<Rightarrow> 'a) \<Rightarrow> bool" where
  "stream_of dc docs item \<longleftrightarrow> (\<forall>d \<in> set docs. braced d \<and> dc_array dc d = None \<and> dc_one dc d = Inr (item d)
     \<and> dc_value dc d = Some (d, int (length d)) \<and> (\<forall>rest. dc_value dc (d @ newline # rest) = Some (d, int (length d))))"

lemma document_loop_stream:
  "stream_of dc docs item \<Longrightarrow> TrimSpace s = Join docs [newline] \<Longrightarrow> document_loop dc s results = Inr (results @ map item docs)"
proof (induction docs arbitrary: s results)
  case Nil
  then show ?case by (subst document_loop.simps) simp
next
  case (Cons d docs)
  have d: "braced d" "dc_array dc d = None" "dc_one dc d = Inr (item d)" and s: "stream_of dc docs item"
    using Cons.prems(1) by (auto simp: stream_of_def)
  have all: "list_all braced (d # docs)" using Cons.prems(1) by (auto simp: stream_of_def list_all_iff)
  obtain t where t: "Join (d # docs) [newline] = CHR ''{'' # t" using braced_Join [OF _ all] by (auto simp: braced_def)
  define rest where "rest = drop (length d) (Join (d # docs) [newline])"
  have v: "dc_value dc (Join (d # docs) [newline]) = Some (d, int (length d))"
    using Cons.prems(1) by (cases docs) (auto simp: stream_of_def)
  have len: "0 < length d" "length d \<le> length (Join (d # docs) [newline])"
    using d(1) by (auto simp: braced_def, cases docs, auto)
  have "TrimSpace rest = Join docs [newline]"
  proof (cases docs)
    case (Cons e es)
    then have "rest = newline # Join docs [newline]" by (simp add: rest_def)
    then show ?thesis using braced_Join [of docs] all Cons TrimSpace_braced by auto
  qed (simp add: rest_def)
  from Cons.IH [OF s this, of "results @ [item d]"] have IH: "document_loop dc rest (results @ [item d]) = Inr (results @ item d # map item docs)"
    by simp
  have "dropWhile (\<lambda>c. \<not> isOpening c) (TrimSpace s) = Join (d # docs) [newline]"
    using Cons.prems(2) t by (simp add: isOpening_def)
  then have "document_loop dc s results = document_loop dc rest (results @ [item d])"
    using v len d t unfolding rest_def by (subst document_loop.simps) (simp add: Let_def)
  then show ?case using IH by simp
qed


subsection \<open>Volumes in use\<close>

text \<open>A runtime that answers each command the same way while it is asked.\<close>

definition answering :: "(string list \<Rightarrow> string result) \<Rightarrow> 'w runner" where
  "answering answer args w = (answer args, w)"

definition answeredMounts :: "inspectlib \<Rightarrow> (string list \<Rightarrow> string result) \<Rightarrow> string \<Rightarrow> ContainerMount list" where
  "answeredMounts il answer cid = fst (mountsOf il (answering answer) cid ())"

lemma mountsOf_answering [simp]: "mountsOf il (answering answer) cid w = (answeredMounts il answer cid, w)"
  by (simp add: answeredMounts_def mountsOf_def inspectContainer_def answering_def split: sum.splits prod.splits)

lemma inUse_answering [simp]:
  "inUse_loop il (answering answer) cs inUse w = (inUse \<union> (\<Union>c \<in> set cs. mountedNames (answeredMounts il answer (ct_ID c))), w)"
  by (induction cs arbitrary: inUse) auto

lemma usage_answering:
  "snd (usage_loop il (answering answer) v cs w) = w"
  "fst (usage_loop il (answering answer) v cs w) = [] \<longleftrightarrow>
     (\<forall>c \<in> set cs. \<forall>m \<in> set (answeredMounts il answer (ct_ID c)). \<not> (mt_Type m = ''volume'' \<and> volumeMountName m = v))"
  by (induction cs) (auto simp: Let_def filter_empty_conv split: prod.splits)

lemma mountedNames_iff:
  "name \<noteq> '''' \<Longrightarrow> name \<in> mountedNames mounts \<longleftrightarrow> (\<exists>m \<in> set mounts. mt_Type m = ''volume'' \<and> volumeMountName m = name)"
  by (auto simp: mountedNames_def)

definition answeredContainers ::
    "(string list \<Rightarrow> string list) \<Rightarrow> jsonlib \<Rightarrow> (string list \<Rightarrow> string result) \<Rightarrow> Container list result" where
  "answeredContainers order js answer = fst (listContainers order js (answering answer) ())"

lemma listContainers_answering [simp]: "listContainers order js (answering answer) w = (answeredContainers order js answer, w)"
  by (simp add: answeredContainers_def listContainers_def listWith_def answering_def split: sum.splits prod.splits)

lemma enrichedVolume_flag: "vo_Name (enrichedVolume now inUse rows sizes v) = vo_Name v"
  "vo_InUse (enrichedVolume now inUse rows sizes v) = (vo_Name v \<in> inUse)"
  by (simp_all add: enrichedVolume_def Let_def split: option.splits)

lemma enrich_in_use:
  assumes "v \<in> set (fst (enrichVolumesInUse order sched js il decode now (answering answer) vols w))"
    and "answeredContainers order js answer = Inr cs" "set (sched cs) = set cs"
  shows "vo_InUse v = (\<exists>c \<in> set cs. vo_Name v \<in> mountedNames (answeredMounts il answer (ct_ID c)))"
  using assms by (auto simp: enrichVolumesInUse_def volumeNamesInUse_def Let_def enrichedVolume_flag split: prod.splits)

lemma usages_in_use:
  assumes "answeredContainers order js answer = Inr cs" "name \<noteq> ''''"
    and "fst (volumeContainerUsages order js il (answering answer) name w) = Inr usages"
  shows "usages \<noteq> [] \<longleftrightarrow> (\<exists>c \<in> set cs. name \<in> mountedNames (answeredMounts il answer (ct_ID c)))"
  using assms usage_answering(2) [of il answer name cs w]
  by (auto simp: volumeContainerUsages_def mountedNames_iff split: prod.splits)

section \<open>What is shown is right\<close>

text \<open>
  The mounts shown for a container have distinct destinations, none of those that are known is left out, and where
  the list of mounts and the bind strings name the same destination the list decides.
\<close>

theorem mounts_are_complete:
  assumes "in_mounts il inspect = Inr (listed, binds)"
  shows "\<exists>ms. parseContainerMounts il inspect = Inr ms \<and> mounts_ok (listed @ List.map_filter bindMount binds) ms"
proof -
  have "mounts_ok [] []" by (simp add: mounts_ok_def)
  then have "mounts_ok ([] @ listed @ List.map_filter bindMount binds)
      (fst (fold addMount (listed @ List.map_filter bindMount binds) ([], [])))"
    by (rule fold_addMount) simp
  then show ?thesis using assms by (simp add: parseContainerMounts_def)
qed

text \<open>
  A directory is passed to the shell of the container as one word: whatever its name holds, quotes, blanks and
  command separators included, the script lists that directory (without the white space around it) and does nothing else.
\<close>

theorem listing_script_is_one_command:
  "sh_words (lsScript dirPath) = Some [''ls'', ''-la'', TrimSpace dirPath]"
proof -
  have "sh_scan False False [] ([CHR 0x27] @ shellQuote dirPath @ CHR 0x27 # []) = Some [TrimSpace dirPath]"
    unfolding sh_scan_shellQuote by simp
  then have "sh_scan False False [] (CHR 0x27 # shellQuote dirPath @ [CHR 0x27]) = Some [TrimSpace dirPath]" by simp
  then show ?thesis
    by (simp add: sh_words_def lsScript_def plain_def is_letter_def is_digit_def del: sh_scan.simps(3)) (simp add: plain_def is_letter_def)
qed

text \<open>
  The files listed from the archive of a stopped container are the immediate children of the directory: their names
  are distinct, not empty and without a slash, and their paths are those of the directory and the name.
\<close>

theorem archive_lists_children:
  shows "distinct (map fe_Name (parseTarTvOutput dirPath output))"
    and "e \<in> set (parseTarTvOutput dirPath output) \<Longrightarrow>
      fe_Name e \<noteq> '''' \<and> CHR ''/'' \<notin> set (fe_Name e) \<and> fe_Path e = entryPath dirPath (fe_Name e)"
  using tar_loop_children [of dirPath "[]" "Split output newline"] unfolding parseTarTvOutput_def by blast+

text \<open>
  A stream of JSON documents, one per line, is decoded in full and in order.
\<close>

theorem inspect_stream_decoded:
  assumes "stream_of dc docs item" "docs \<noteq> []" "dc_array dc (Join docs [newline]) = None"
  shows "decodeInspectDocuments dc (Join docs [newline] @ [newline]) = Inr (map item docs)"
proof -
  have b: "braced (Join docs [newline])"
    using assms(1,2) by (intro braced_Join) (auto simp: stream_of_def list_all_iff)
  then have "Join docs [newline] \<noteq> ''''" by (auto simp: braced_def)
  then show ?thesis
    using document_loop_stream [OF assms(1) TrimSpace_braced [OF b]] assms(2,3)
    by (simp add: decodeInspectDocuments_def TrimSpace_braced_line [OF b] Let_def)
qed

text \<open>
  While the engine does not change, the volume list and the page of a volume agree on whether it is in use, in
  whatever order the containers are inspected.
\<close>

theorem in_use_agrees:
  fixes w' :: 'b
  assumes "\<And>cs. set (sched cs) = set cs" "vo_Name v \<noteq> ''''"
    and "v \<in> set (fst (enrichVolumesInUse order sched js il decode now (answering answer) vols w))"
    and "fst (inspectVolume order js il decode later (answering answer) (vo_Name v) w') = Inr detail"
  shows "vo_InUse v = vd_InUse detail"
proof -
  obtain w1 w2 :: 'b and usages where u: "volumeContainerUsages order js il (answering answer) (vo_Name v) w1 = (Inr usages, w2)"
      "vd_InUse detail = (usages \<noteq> [])"
    using assms(4) by (auto simp: inspectVolume_def split: prod.splits sum.splits)
  then obtain cs where cs: "answeredContainers order js answer = Inr cs"
    by (auto simp: volumeContainerUsages_def split: sum.splits)
  show ?thesis
    using enrich_in_use [OF assms(3) cs assms(1)] usages_in_use [OF cs assms(2), of il w1 usages] u by simp
qed


section \<open>Examples\<close>

definition demo_mount :: "string \<Rightarrow> string \<Rightarrow> ContainerMount" where
  "demo_mount name dest = \<lparr>mt_Type = ''volume'', mt_Name = name, mt_Source = '''', mt_Destination = dest, mt_Mode = '''', mt_RW = True\<rparr>"

definition demo_inspect :: inspectlib where
  "demo_inspect = \<lparr>in_rows = (\<lambda>s. Inr [s]), in_mounts = (\<lambda>s. Inr ([demo_mount s ''/data''], [''/etc:/data:ro'', ''/tmp:/tmp''])),
     in_stats = (\<lambda>_. Inl (Errorf ''none'')), in_object = (\<lambda>_. Inl (Errorf ''none''))\<rparr>"

theorem mounts_are_complete_witness:
  "\<exists>ms. parseContainerMounts demo_inspect ''db'' = Inr ms \<and> map mountKey ms = [''/data'', ''/tmp'']
     \<and> mounts_ok (demo_mount ''db'' ''/data'' # List.map_filter bindMount [''/etc:/data:ro'', ''/tmp:/tmp'']) ms"
proof -
  have "in_mounts demo_inspect ''db'' = Inr ([demo_mount ''db'' ''/data''], [''/etc:/data:ro'', ''/tmp:/tmp''])"
    by (simp add: demo_inspect_def)
  from mounts_are_complete [OF this] obtain ms where
    ms: "parseContainerMounts demo_inspect ''db'' = Inr ms"
    "mounts_ok (demo_mount ''db'' ''/data'' # List.map_filter bindMount [''/etc:/data:ro'', ''/tmp:/tmp'']) ms" by auto
  have "map_sum id (map mountKey) (parseContainerMounts demo_inspect ''db'') = Inr [''/data'', ''/tmp'']" by code_simp
  then show ?thesis using ms by simp
qed

definition demo_tar :: string where
  "demo_tar = Join [''drwxr-xr-x root/root 0 2024-01-01 10:00 srv/'', ''-rw-r--r-- root/root 12 2024-01-01 10:00 srv/a.txt'',
     ''-rw-r--r-- root/root 7 2024-01-01 10:00 srv/sub/b.txt'', ''-rw-r--r-- root/root 12 2024-01-01 10:00 srv/a.txt''] [newline]"

definition demo_entry :: ContainerFileEntry where
  "demo_entry = \<lparr>fe_Name = ''a.txt'', fe_Path = ''/srv/a.txt'', fe_IsDir = False, fe_Size = 12, fe_Mode = ''-rw-r--r--'',
     fe_Modified = ''2024-01-01 10:00'', fe_Note = ''''\<rparr>"

theorem archive_lists_children_witness:
  "distinct (map fe_Name (parseTarTvOutput ''/srv'' demo_tar)) \<and> parseTarTvOutput ''/srv'' demo_tar = [demo_entry]
    \<and> fe_Path demo_entry = entryPath ''/srv'' (fe_Name demo_entry)"
proof -
  have p: "parseTarTvOutput ''/srv'' demo_tar = [demo_entry]" by code_simp
  then show ?thesis
    using archive_lists_children(1) [of "''/srv''" demo_tar] archive_lists_children(2) [of demo_entry "''/srv''" demo_tar] by simp
qed

definition line_documents :: "string documents" where
  "line_documents = \<lparr>dc_array = (\<lambda>_. None), dc_value = (\<lambda>s. let d = takeWhile (\<lambda>c. c \<noteq> newline) s in Some (d, int (length d))),
     dc_one = Inr\<rparr>"

theorem inspect_stream_decoded_witness:
  "decodeInspectDocuments line_documents (Join [''{one}'', ''{two}''] [newline] @ [newline]) = Inr [''{one}'', ''{two}'']"
proof -
  have "stream_of line_documents [''{one}'', ''{two}''] id"
    by (auto simp: stream_of_def line_documents_def braced_def Let_def)
  from inspect_stream_decoded [OF this] show ?thesis by (simp add: line_documents_def)
qed

definition demo_answer :: "string list \<Rightarrow> string result" where
  "demo_answer args = Inr (if args ! 1 = ''ps'' then ''1|web|nginx|running'' else ''db'')"

definition demo_decode :: decoder where
  "demo_decode _ = Inr [\<lparr>vi_CreatedAt = '''', vi_Driver = ''local'', vi_Mountpoint = '''', vi_Name = ''db''\<rparr>]"

definition demo_volume :: "bool \<Rightarrow> Volume" where
  "demo_volume used = \<lparr>vo_Name = ''db'', vo_Driver = ''local'', vo_InUse = used, vo_Size = ''1kB'', vo_Created = ''''\<rparr>"

lemma demo_enriched:
  "fst (enrichVolumesInUse id rev bar_json demo_inspect demo_decode 0 (answering demo_answer) [demo_volume False] ()) = [demo_volume True]"
  by code_simp

definition demo_detail :: VolumeDetail where
  "demo_detail = \<lparr>vd_Name = ''db'', vd_Driver = ''local'', vd_Created = '''', vd_InUse = True, vd_Mountpoint = ''''\<rparr>"

lemma demo_inspected:
  "fst (inspectVolume id bar_json demo_inspect demo_decode 5 (answering demo_answer) ''db'' ()) = Inr demo_detail"
  by code_simp

theorem in_use_agrees_witness: "vo_InUse (demo_volume True) = vd_InUse demo_detail"
  using in_use_agrees [of rev "demo_volume True" id bar_json demo_inspect demo_decode 0 demo_answer "[demo_volume False]" "()" 5 "()" demo_detail]
  by (simp add: demo_enriched demo_inspected) (simp add: demo_volume_def demo_inspected)

text \<open>
  What \<open>docker cp\<close> writes for a nested directory begins with the last part of its path, not with the path: none of its
  members is taken for a child.
\<close>

lemma nested_archive_is_empty:
  "parseTarTvOutput ''/var/srv'' demo_tar = []"
  by code_simp

end
