(* ===== verification/Calf_Networks.thy ===== *)
theory Calf_Networks
  imports Calf_Details
begin

text \<open>
  Networks (\<open>runtime/network.go\<close>): the lists of the two engines and their merge, the standard and the native inspect
  documents and what is shown of them.  JSON texts are decoded by arguments.
\<close>

section \<open>Rows\<close>

record networkLine =
  ne_ID :: string
  ne_Name :: string
  ne_Driver :: string

record networkIPAMConfig =
  ic_Subnet :: string
  ic_Gateway :: string

record networkInspectRow =
  nr_ID :: string
  nr_Name :: string
  nr_Created :: string
  nr_Scope :: string
  nr_Driver :: string
  nr_IPAM :: "networkIPAMConfig list"
  nr_Options :: "(string \<times> string) list"

record nativeCNIIPAMRange =
  ra_subnet :: string
  ra_gateway :: string

record nativeCNIPlugin =
  pl_Type :: string
  pl_Bridge :: string
  pl_IsGateway :: bool
  pl_IPMasq :: bool
  pl_HairpinMode :: bool
  pl_MTU :: int
  pl_Ranges :: "nativeCNIIPAMRange list list list"

record nativeNetworkCNI =
  cni_Name :: string
  cni_Plugins :: "nativeCNIPlugin list"

record enrichedNetworkInspectRow =
  er_row :: networkInspectRow
  er_NativeDriver :: string
  er_NativeSubnet :: string
  er_NativeGateway :: string
  er_NativeOptions :: "(string \<times> string) list"

record networklib =
  nt_line :: "string \<Rightarrow> networkLine option"
  nt_rows :: "networkInspectRow documents"
  nt_native :: "nativeNetworkCNI documents"

section \<open>Helpers\<close>

definition firstNonEmpty :: "string list \<Rightarrow> string" where
  "firstNonEmpty values = (case find (\<lambda>v. TrimSpace v \<noteq> '''') values of Some v \<Rightarrow> TrimSpace v | None \<Rightarrow> '''')"

definition shortNetworkID :: "string \<Rightarrow> string" where
  "shortNetworkID value0 = (let v = TrimSpace value0 in if length v > 12 then take 12 v else v)"

definition firstSubnet :: "enrichedNetworkInspectRow \<Rightarrow> string" where
  "firstSubnet row = firstNonEmpty (map ic_Subnet (nr_IPAM (er_row row)))"

definition firstGateway :: "enrichedNetworkInspectRow \<Rightarrow> string" where
  "firstGateway row = firstNonEmpty (map ic_Gateway (nr_IPAM (er_row row)))"

definition emptyNetworkRow :: networkInspectRow where
  "emptyNetworkRow = \<lparr>nr_ID = '''', nr_Name = '''', nr_Created = '''', nr_Scope = '''', nr_Driver = '''', nr_IPAM = [], nr_Options = []\<rparr>"

section \<open>Lists\<close>

definition DefaultNetworkScope :: string where "DefaultNetworkScope = ''local''"

definition networkOf :: "networkLine \<Rightarrow> Network" where
  "networkOf row = \<lparr>nw_ID = shortNetworkID (ne_ID row), nw_Name = ne_Name row, nw_Driver = ne_Driver row,
     nw_Scope = DefaultNetworkScope, nw_Subnet = '''', nw_Created = ''''\<rparr>"

definition ParseNetworkLines :: "networklib \<Rightarrow> string \<Rightarrow> Network list result" where
  "ParseNetworkLines nt output =
     (let (rows, tooLong) = scanRows (nt_line nt) output;
          networks = map networkOf (filter (\<lambda>row. \<not> (ne_Name row = '''' \<or> IsPseudoNetwork (ne_Name row))) rows) in
      if tooLong then Inl ErrTooLong
      else Inr (sort_Slice (\<lambda>a b. nw_Name a < nw_Name b) networks))"

definition queryNerdctlNetworks :: "networklib \<Rightarrow> 'w runner \<Rightarrow> 'w \<Rightarrow> Network list result \<times> 'w" where
  "queryNerdctlNetworks nt run w = listWith run [''nerdctl'', ''network'', ''ls'', ''--format'', jsonFormat] (ParseNetworkLines nt) w"

definition queryDockerNetworks :: "networklib \<Rightarrow> 'w runner \<Rightarrow> 'w \<Rightarrow> Network list result \<times> 'w" where
  "queryDockerNetworks nt run w = listWith run [''docker'', ''network'', ''ls'', ''--format'', jsonFormat] (ParseNetworkLines nt) w"

fun merge_loop :: "Network list \<Rightarrow> Network list \<Rightarrow> Network list" where
  "merge_loop result [] = result"
| "merge_loop result (dn # rest) =
     (if List.member (map nw_Name result) (nw_Name dn) then merge_loop result rest else merge_loop (result @ [dn]) rest)"

definition mergeNetworksByName :: "Network list \<Rightarrow> Network list \<Rightarrow> Network list" where
  "mergeNetworksByName nerdctlNetworks dockerNetworks =
     (if dockerNetworks = [] then nerdctlNetworks else merge_loop nerdctlNetworks dockerNetworks)"

definition networkDriverFromList :: "networklib \<Rightarrow> 'w runner \<Rightarrow> string \<Rightarrow> 'w \<Rightarrow> string result \<times> 'w" where
  "networkDriverFromList nt run name w =
     (case queryNerdctlNetworks nt run w of
        (Inl err, w1) \<Rightarrow> (Inl err, w1)
      | (Inr networks, w1) \<Rightarrow>
          (case find (\<lambda>n. nw_Name n = name) networks of
             Some n \<Rightarrow> (Inr (nw_Driver n), w1)
           | None \<Rightarrow>
               (case queryDockerNetworks nt run w1 of
                  (Inl err, w2) \<Rightarrow> (Inl (Errorf (''network '' @ name @ '' not found'')), w2)
                | (Inr dockerNetworks, w2) \<Rightarrow>
                    (case find (\<lambda>n. nw_Name n = name) dockerNetworks of
                       Some n \<Rightarrow> (Inr (nw_Driver n), w2)
                     | None \<Rightarrow> (Inl (Errorf (''network '' @ name @ '' not found'')), w2)))))"

section \<open>Inspect\<close>

definition nativeRange :: "nativeCNIIPAMRange \<Rightarrow> enrichedNetworkInspectRow \<Rightarrow> enrichedNetworkInspectRow" where
  "nativeRange r row =
     (let row1 = (if er_NativeSubnet row = '''' \<and> TrimSpace (ra_subnet r) \<noteq> '''' then row\<lparr>er_NativeSubnet := TrimSpace (ra_subnet r)\<rparr> else row)
      in if er_NativeGateway row1 = '''' \<and> TrimSpace (ra_gateway r) \<noteq> '''' then row1\<lparr>er_NativeGateway := TrimSpace (ra_gateway r)\<rparr> else row1)"

definition setOption :: "bool \<Rightarrow> string \<Rightarrow> string \<Rightarrow> enrichedNetworkInspectRow \<Rightarrow> enrichedNetworkInspectRow" where
  "setOption cond key v row = (if cond then row\<lparr>er_NativeOptions := AList.update key v (er_NativeOptions row)\<rparr> else row)"

definition nativePlugin :: "nativeCNIPlugin \<Rightarrow> enrichedNetworkInspectRow \<Rightarrow> enrichedNetworkInspectRow" where
  "nativePlugin p row =
     (let pluginType = TrimSpace (pl_Type p);
          row1 = (if er_NativeDriver row = '''' \<and> pluginType \<noteq> '''' \<and> pluginType \<noteq> ''portmap'' \<and> pluginType \<noteq> ''firewall''
                     \<and> pluginType \<noteq> ''tuning'' then row\<lparr>er_NativeDriver := pluginType\<rparr> else row);
          row2 = fold nativeRange (concat (concat (pl_Ranges p))) row1;
          br = TrimSpace (pl_Bridge p);
          row3 = setOption (br \<noteq> '''') ''com.docker.network.bridge.name'' br row2;
          row4 = setOption (pl_MTU p > 0) ''com.docker.network.driver.mtu'' (show_int (pl_MTU p)) row3;
          row5 = setOption (pl_IPMasq p) ''com.docker.network.bridge.enable_ip_masquerade'' ''true'' row4;
          row6 = setOption (pl_HairpinMode p) ''com.docker.network.bridge.enable_hairpin_mode'' ''true'' row5
      in setOption (pl_IsGateway p) ''com.docker.network.bridge.enable_icc'' ''true'' row6)"

definition applyNativeNetworkInspect :: "networklib \<Rightarrow> string \<Rightarrow> enrichedNetworkInspectRow \<Rightarrow> enrichedNetworkInspectRow" where
  "applyNativeNetworkInspect nt output row =
     (case decodeInspectDocuments (nt_native nt) output of
        Inl _ \<Rightarrow> row
      | Inr [] \<Rightarrow> row
      | Inr (native # _) \<Rightarrow>
          let row1 = fold nativePlugin (cni_Plugins native) row
          in setOption (nr_Name (er_row row1) = ''bridge'') ''com.docker.network.bridge.default_bridge'' ''true'' row1)"

definition enrichedRow :: "networklib \<Rightarrow> 'w runner \<Rightarrow> string \<Rightarrow> string \<Rightarrow> 'w \<Rightarrow> enrichedNetworkInspectRow result \<times> 'w" where
  "enrichedRow nt run name output w =
     (case decodeInspectDocuments (nt_rows nt) output of
        Inl err \<Rightarrow> (Inl err, w)
      | Inr [] \<Rightarrow> (Inl (Errorf (''inspect network '' @ name)), w)
      | Inr (parsed # _) \<Rightarrow>
          let row = \<lparr>er_row = (if nr_Name parsed = '''' then parsed\<lparr>nr_Name := name\<rparr> else parsed), er_NativeDriver = '''',
                     er_NativeSubnet = '''', er_NativeGateway = '''', er_NativeOptions = []\<rparr>
          in case run [''nerdctl'', ''network'', ''inspect'', ''--mode=native'', name] w of
               (Inl _, w1) \<Rightarrow> (Inr row, w1)
             | (Inr nativeOutput, w1) \<Rightarrow> (Inr (applyNativeNetworkInspect nt nativeOutput row), w1))"

definition inspectNetworkMetadata :: "networklib \<Rightarrow> 'w runner \<Rightarrow> string \<Rightarrow> 'w \<Rightarrow> enrichedNetworkInspectRow result \<times> 'w" where
  "inspectNetworkMetadata nt run name w =
     (case run [''nerdctl'', ''network'', ''inspect'', name] w of
        (Inr output, w1) \<Rightarrow> enrichedRow nt run name output w1
      | (Inl _, w1) \<Rightarrow>
          (case run [''docker'', ''network'', ''inspect'', name] w1 of
             (Inr output, w2) \<Rightarrow> enrichedRow nt run name output w2
           | (Inl err, w2) \<Rightarrow> (Inl err, w2)))"

fun networkInspectMetadataBatch ::
    "networklib \<Rightarrow> 'w runner \<Rightarrow> string list \<Rightarrow> (string \<rightharpoonup> enrichedNetworkInspectRow) \<Rightarrow> 'w \<Rightarrow> (string \<rightharpoonup> enrichedNetworkInspectRow) \<times> 'w" where
  "networkInspectMetadataBatch nt run [] rows w = (rows, w)"
| "networkInspectMetadataBatch nt run (name # names) rows w =
     (if IsPseudoNetwork name then networkInspectMetadataBatch nt run names rows w
      else case inspectNetworkMetadata nt run name w of
        (Inl _, w1) \<Rightarrow> networkInspectMetadataBatch nt run names rows w1
      | (Inr row, w1) \<Rightarrow> networkInspectMetadataBatch nt run names (rows(name \<mapsto> row)) w1)"

section \<open>What is shown\<close>

definition enrichedNetwork :: "Time \<Rightarrow> (string \<rightharpoonup> enrichedNetworkInspectRow) \<Rightarrow> Network \<Rightarrow> Network" where
  "enrichedNetwork now metadata n =
     (case metadata (nw_Name n) of
        None \<Rightarrow> if nw_Scope n = '''' then n\<lparr>nw_Scope := DefaultNetworkScope\<rparr> else n
      | Some row \<Rightarrow>
          let n1 = n\<lparr>nw_ID := shortNetworkID (firstNonEmpty [nr_ID (er_row row), nw_ID n])\<rparr>;
              driver0 = TrimSpace (nr_Driver (er_row row));
              driver = (if driver0 = '''' then er_NativeDriver row else driver0);
              n2 = (if driver \<noteq> '''' then n1\<lparr>nw_Driver := driver\<rparr> else n1);
              scope = TrimSpace (nr_Scope (er_row row));
              n3 = n2\<lparr>nw_Scope := (if scope \<noteq> '''' then scope else DefaultNetworkScope)\<rparr>;
              n4 = n3\<lparr>nw_Subnet := (if firstSubnet row = '''' then er_NativeSubnet row else firstSubnet row)\<rparr>;
              created = humanizeTime now (nr_Created (er_row row))
          in if created \<noteq> '''' then n4\<lparr>nw_Created := created\<rparr> else n4)"

definition enrichNetworks :: "networklib \<Rightarrow> Time \<Rightarrow> 'w runner \<Rightarrow> Network list \<Rightarrow> 'w \<Rightarrow> Network list result \<times> 'w" where
  "enrichNetworks nt now run networks w =
     (if networks = [] then (Inr networks, w)
      else let (metadata, w1) = networkInspectMetadataBatch nt run (map nw_Name networks) (\<lambda>_. None) w
           in (Inr (map (enrichedNetwork now metadata) networks), w1))"

definition listNetworks :: "networklib \<Rightarrow> Time \<Rightarrow> 'w runner \<Rightarrow> 'w \<Rightarrow> Network list result \<times> 'w" where
  "listNetworks nt now run w =
     (case queryNerdctlNetworks nt run w of
        (Inl nerdctlErr, w1) \<Rightarrow>
          (case queryDockerNetworks nt run w1 of
             (Inl _, w2) \<Rightarrow> (Inl nerdctlErr, w2)
           | (Inr dockerNetworks, w2) \<Rightarrow> enrichNetworks nt now run dockerNetworks w2)
      | (Inr networks, w1) \<Rightarrow>
          (case queryDockerNetworks nt run w1 of
             (Inl _, w2) \<Rightarrow> enrichNetworks nt now run networks w2
           | (Inr dockerExtra, w2) \<Rightarrow> enrichNetworks nt now run (mergeNetworksByName networks dockerExtra) w2))"

definition inspectNetwork :: "networklib \<Rightarrow> Time \<Rightarrow> 'w runner \<Rightarrow> string \<Rightarrow> 'w \<Rightarrow> NetworkDetail result \<times> 'w" where
  "inspectNetwork nt now run name w =
     (if IsPseudoNetwork name then (Inl (Errorf (''built-in network '' @ Quote name @ '' cannot be inspected'')), w)
      else
        let (listed, w1) = networkDriverFromList nt run name w in
        case inspectNetworkMetadata nt run name w1 of
          (Inl err, w2) \<Rightarrow> (Inl err, w2)
        | (Inr row, w2) \<Rightarrow>
            let driver0 = (case listed of Inl _ \<Rightarrow> '''' | Inr d \<Rightarrow> d);
                driver1 = (if driver0 = '''' then TrimSpace (nr_Driver (er_row row)) else driver0);
                scope = TrimSpace (nr_Scope (er_row row))
            in (Inr \<lparr>nd_ID = shortNetworkID (nr_ID (er_row row)), nd_Name = nr_Name (er_row row),
                     nd_Driver = (if driver1 = '''' then er_NativeDriver row else driver1),
                     nd_Scope = (if scope = '''' then DefaultNetworkScope else scope),
                     nd_Subnet = (if firstSubnet row = '''' then er_NativeSubnet row else firstSubnet row),
                     nd_Gateway = (if firstGateway row = '''' then er_NativeGateway row else firstGateway row),
                     nd_Created = humanizeTime now (TrimSpace (nr_Created (er_row row))),
                     nd_Options = AList.updates (map fst (er_NativeOptions row)) (map snd (er_NativeOptions row)) (nr_Options (er_row row))\<rparr>, w2))"

section \<open>Facts\<close>

definition network_ok :: "Network \<Rightarrow> bool" where
  "network_ok n \<longleftrightarrow> nw_Name n \<noteq> '''' \<and> \<not> IsPseudoNetwork (nw_Name n) \<and> nw_Scope n \<noteq> '''' \<and> length (nw_ID n) \<le> 12"

lemma shortNetworkID_length: "length (shortNetworkID v) \<le> 12"
  by (simp add: shortNetworkID_def Let_def)

lemma ParseNetworkLines_ok: "ParseNetworkLines nt output = Inr ns \<Longrightarrow> list_all network_ok ns"
  by (auto simp: ParseNetworkLines_def Let_def list_all_iff network_ok_def networkOf_def DefaultNetworkScope_def shortNetworkID_length
      split: prod.splits if_splits)

lemma query_ok:
  "queryNerdctlNetworks nt run w = (Inr ns, w1) \<Longrightarrow> list_all network_ok ns"
  "queryDockerNetworks nt run w = (Inr ns, w1) \<Longrightarrow> list_all network_ok ns"
  by (auto simp: queryNerdctlNetworks_def queryDockerNetworks_def listWith_def dest: ParseNetworkLines_ok split: prod.splits sum.splits)

lemma merge_loop_append: "\<exists>more. merge_loop ns ds = ns @ more \<and> set more \<subseteq> set ds"
proof (induction ns ds rule: merge_loop.induct)
  case (2 result dn rest)
  then show ?case by (cases "nw_Name dn \<in> set (map nw_Name result)") (auto simp: List.member_iff)
qed simp

lemma merge_loop_names:
  "set (map nw_Name (merge_loop ns ds)) = set (map nw_Name ns) \<union> set (map nw_Name ds)"
  "distinct (map nw_Name ns) \<Longrightarrow> distinct (map nw_Name (merge_loop ns ds))"
  by (induction ns ds rule: merge_loop.induct) (auto simp: List.member_iff)

lemma merge_ok: "list_all network_ok ns \<Longrightarrow> list_all network_ok ds \<Longrightarrow> list_all network_ok (mergeNetworksByName ns ds)"
  using merge_loop_append [of ns ds] by (auto simp: mergeNetworksByName_def list_all_iff subset_iff)

lemma enrichedNetwork_ok: "network_ok n \<Longrightarrow> network_ok (enrichedNetwork now metadata n) \<and> nw_Name (enrichedNetwork now metadata n) = nw_Name n"
  by (auto simp: enrichedNetwork_def network_ok_def Let_def shortNetworkID_length DefaultNetworkScope_def split: option.splits)

lemma enrichNetworks_ok:
  assumes "list_all network_ok ns"
  obtains ms w1 where "enrichNetworks nt now run ns w = (Inr ms, w1)" "list_all network_ok ms" "map nw_Name ms = map nw_Name ns"
proof (cases "ns = []")
  case True
  then show ?thesis using that [of "[]" w] by (simp add: enrichNetworks_def)
next
  case False
  obtain metadata w1 where m: "networkInspectMetadataBatch nt run (map nw_Name ns) (\<lambda>_. None) w = (metadata, w1)" by fastforce
  show ?thesis
    by (rule that [of "map (enrichedNetwork now metadata) ns" w1])
      (use assms False m enrichedNetwork_ok in \<open>auto simp: enrichNetworks_def list_all_iff\<close>)
qed

section \<open>The networks that are listed\<close>

text \<open>
  When either engine can list its networks, the list succeeds, whatever the inspections answer: it never holds a
  built-in network, and every network has a name, a scope and a short identifier.
\<close>

theorem networks_listed:
  assumes "fst (queryNerdctlNetworks nt run w) = Inr ns \<or> fst (queryDockerNetworks nt run (snd (queryNerdctlNetworks nt run w))) = Inr ns"
  shows "\<exists>ms. fst (listNetworks nt now run w) = Inr ms \<and> list_all network_ok ms"
proof -
  obtain a w1 where a: "queryNerdctlNetworks nt run w = (a, w1)" by fastforce
  obtain b w2 where b: "queryDockerNetworks nt run w1 = (b, w2)" by fastforce
  have e: "\<exists>ms. fst (enrichNetworks nt now run xs w2) = Inr ms \<and> list_all network_ok ms" if "list_all network_ok xs" for xs
    using enrichNetworks_ok [OF that, of nt now run w2] by (metis fst_conv)
  show ?thesis
  proof (cases a)
    case (Inl err)
    then obtain ds where "b = Inr ds" using assms a b by (cases b) auto
    then show ?thesis using a b Inl e [OF query_ok(2)] by (simp add: listNetworks_def)
  next
    case (Inr xs)
    then have "list_all network_ok xs" using query_ok(1) [of nt run w xs w1] a by simp
    then show ?thesis
      using a b Inr e merge_ok [of xs] query_ok(2) [of nt run w1] by (cases b) (simp_all add: listNetworks_def)
  qed
qed

text \<open>
  Merging keeps the networks of the first engine as they are, adds of the other those it does not know, and has no
  name twice.
\<close>

theorem merge_prefers_first:
  shows "\<exists>added. mergeNetworksByName ns ds = ns @ added \<and> set added \<subseteq> set ds"
    and "set (map nw_Name (mergeNetworksByName ns ds)) = set (map nw_Name ns) \<union> set (map nw_Name ds)"
    and "distinct (map nw_Name ns) \<Longrightarrow> distinct (map nw_Name (mergeNetworksByName ns ds))"
  using merge_loop_append [of ns ds] merge_loop_names [of ns ds] by (auto simp: mergeNetworksByName_def)

definition bar_network :: "string \<Rightarrow> networkLine option" where
  "bar_network line = (case Split line (CHR ''|'') of [i, n, d] \<Rightarrow> Some \<lparr>ne_ID = i, ne_Name = n, ne_Driver = d\<rparr> | _ \<Rightarrow> None)"

definition no_documents :: "'a documents" where
  "no_documents = \<lparr>dc_array = (\<lambda>_. Some []), dc_value = (\<lambda>_. None), dc_one = (\<lambda>_. Inl (Errorf ''no document''))\<rparr>"

definition bar_networks :: networklib where
  "bar_networks = \<lparr>nt_line = bar_network, nt_rows = no_documents, nt_native = no_documents\<rparr>"

definition network_answer :: "string list \<Rightarrow> string result" where
  "network_answer args = (if hd args = ''docker'' \<and> args ! 2 = ''ls'' then Inr (''7|host|host'' @ [newline] @ ''1|app|bridge'') else Inl (Errorf ''no engine''))"

lemma network_queries:
  "fst (queryDockerNetworks bar_networks (answering network_answer) (snd (queryNerdctlNetworks bar_networks (answering network_answer) ())))
     = Inr [networkOf \<lparr>ne_ID = ''1'', ne_Name = ''app'', ne_Driver = ''bridge''\<rparr>]"
  by code_simp

theorem networks_listed_witness:
  "\<exists>ms. fst (listNetworks bar_networks 0 (answering network_answer) ()) = Inr ms \<and> list_all network_ok ms"
  using networks_listed [OF disjI2 [OF network_queries]] by blast

theorem merge_prefers_first_witness:
  "distinct (map nw_Name (mergeNetworksByName [networkOf \<lparr>ne_ID = ''1'', ne_Name = ''a'', ne_Driver = ''bridge''\<rparr>]
      [networkOf \<lparr>ne_ID = ''2'', ne_Name = ''a'', ne_Driver = ''x''\<rparr>, networkOf \<lparr>ne_ID = ''3'', ne_Name = ''b'', ne_Driver = ''x''\<rparr>]))"
  by (rule merge_prefers_first(3)) simp

end
