(* ===== verification/Calf_Gateway.thy ===== *)
theory Calf_Gateway
  imports Calf_Http Calf_Idle Calf_Stats Calf_Builds Calf_Config Calf_Details
begin

text \<open>
  The HTTP gateway: the routes of \<open>api/gateway.go\<close> and of the resource handlers, the handlers themselves
  (\<open>containers.go\<close>, \<open>images.go\<close>, \<open>volumes.go\<close>, \<open>networks.go\<close>, \<open>prune.go\<close>, \<open>runtime.go\<close>, \<open>status.go\<close>, \<open>registry.go\<close>,
  \<open>builds.go\<close>, \<open>health.go\<close>), request bodies (\<open>httpkit/json.go\<close>, \<open>runtime_ready.go\<close>) and the middlewares.  Routing is
  separate from handling: an endpoint is a handler with the path segments it is called with.  The decoding of a body
  and the parsing of URLs and addresses are arguments.
\<close>

section \<open>Request bodies\<close>

definition maxJSONBodyBytes :: int where "maxJSONBodyBytes = 4 * 1024 * 1024"

definition JSONDecode :: "(string \<Rightarrow> 'p result) \<Rightarrow> string \<Rightarrow> 'p result" where
  "JSONDecode unmarshal body =
     (if int (length body) > maxJSONBodyBytes then Inl (Errorf ''http: request body too large'') else unmarshal body)"

definition JSONDecodeOrFail :: "(string \<Rightarrow> 'p result) \<Rightarrow> string \<Rightarrow> 'v response + 'p" where
  "JSONDecodeOrFail unmarshal body =
     (case JSONDecode unmarshal body of Inl _ \<Rightarrow> Inl (WriteError 400 ''invalid json body'') | Inr p \<Rightarrow> Inr p)"

section \<open>Handlers\<close>

datatype gw_value =
    Health string
  | Containers "Container list"
  | Inspect_doc string
  | Mounts "ContainerMount list"
  | Files "ContainerFileEntry list"
  | Exec string "string option"
  | Stats_now ContainerStats "StatsSample list"
  | Images "Image list"
  | Layers "ImageLayer list"
  | Ran string
  | Volumes "Volume list"
  | Volume_page VolumeDetail
  | Usages "VolumeContainerUsage list"
  | Cloned string
  | Networks "Network list"
  | Network_page NetworkDetail
  | Preview PrunePreview
  | Pruned PruneResult
  | Disk SystemDiskUsage
  | Registry RegistryStatus
  | Runtime_state Status
  | Builds_list "Build list"
  | Build_page Build
  | Source BuildSource
  | Build_log string "BuildStep list"
  | Artifact string string

text \<open>
  What the daemon holds for these handlers.  \<open>gv_Ensure\<close> is what \<open>EnsureRuntimeRunning\<close> reports to the caller (the shared
  start of \<open>runtime_ready.go\<close>); three operations of the runtime return more than the record of operations has.
\<close>

record 'w Gw =
  gw_core :: "'w Core"
  gw_stats :: statsHistory

record 'w GwEnv =
  gv_engine :: "'w Engine"
  gv_Ensure :: "'w Core \<Rightarrow> go_error option \<times> 'w Core"
  gv_order :: key_order
  gv_Inspect :: "string \<Rightarrow> (string, 'w) query"
  gv_Mounts :: "string \<Rightarrow> (ContainerMount list, 'w) query"
  gv_Exec :: "string \<Rightarrow> string \<Rightarrow> 'w \<Rightarrow> (string \<times> go_error option) \<times> 'w"

type_synonym 'w gw_answer = "gw_value response \<times> 'w Gw"

definition rt_of :: "'w GwEnv \<Rightarrow> 'w Runtime" where
  "rt_of env = en_Runtime (gv_engine env)"

definition onCore :: "('w Core \<Rightarrow> 'a \<times> 'w Core) \<Rightarrow> 'w Gw \<Rightarrow> 'a \<times> 'w Gw" where
  "onCore f g = (let (r, c) = f (gw_core g) in (r, g\<lparr>gw_core := c\<rparr>))"

text \<open>The two shapes that most handlers have: a value or an error, and done or an error.\<close>

definition serveQuery :: "('w Core \<Rightarrow> 'a result \<times> 'w Core) \<Rightarrow> ('a \<Rightarrow> gw_value) \<Rightarrow> 'w Gw \<Rightarrow> 'w gw_answer" where
  "serveQuery q wrap g =
     (case onCore q g of
        (Inl err, g1) \<Rightarrow> (WriteRuntimeOrFail err, g1)
      | (Inr v, g1) \<Rightarrow> (WriteJSON 200 (wrap v), g1))"

definition serveAction :: "'w action \<Rightarrow> 'w Gw \<Rightarrow> 'w gw_answer" where
  "serveAction a g =
     (case onCore (call a) g of
        (Some err, g1) \<Rightarrow> (WriteRuntimeOrFail err, g1)
      | (None, g1) \<Rightarrow> (WriteOK, g1))"

definition EnsureRuntimeOrFail :: "'w GwEnv \<Rightarrow> 'w Gw \<Rightarrow> gw_value response option \<times> 'w Gw" where
  "EnsureRuntimeOrFail env g =
     (case onCore (gv_Ensure env) g of
        (None, g1) \<Rightarrow> (None, g1)
      | (Some err, g1) \<Rightarrow>
          (Some (case WriteRuntimeError err of Some resp \<Rightarrow> resp | None \<Rightarrow> WriteError 503 (Error err)), g1))"

definition handleHealth :: "'w Gw \<Rightarrow> 'w gw_answer" where
  "handleHealth g = (WriteJSON 200 (Health ''ok''), g)"

subsection \<open>Containers\<close>

definition handleContainers :: "'w GwEnv \<Rightarrow> 'w Gw \<Rightarrow> 'w gw_answer" where
  "handleContainers env = serveQuery (Core_ListContainers (gv_engine env)) Containers"

definition handleContainerDelete :: "'w GwEnv \<Rightarrow> string \<Rightarrow> 'w Gw \<Rightarrow> 'w gw_answer" where
  "handleContainerDelete env cid g =
     (case onCore (call (rt_RemoveContainer (rt_of env) cid)) g of
        (Some err, g1) \<Rightarrow> (WriteRuntimeOrFail err, g1)
      | (None, g1) \<Rightarrow> (WriteOK, g1\<lparr>gw_stats := Forget cid (gw_stats g1)\<rparr>))"

definition handleContainerLifecycle :: "'w GwEnv \<Rightarrow> 'w action \<Rightarrow> bool \<Rightarrow> 'w Gw \<Rightarrow> 'w gw_answer" where
  "handleContainerLifecycle env act wakeEngine g =
     (if wakeEngine then
        (case EnsureRuntimeOrFail env g of
           (Some resp, g1) \<Rightarrow> (resp, g1)
         | (None, g1) \<Rightarrow> serveAction act g1)
      else serveAction act g)"

definition handleContainerInspect :: "'w GwEnv \<Rightarrow> inspectlib \<Rightarrow> (string \<Rightarrow> string) \<Rightarrow> string \<Rightarrow> 'w Gw \<Rightarrow> 'w gw_answer" where
  "handleContainerInspect env il query cid g =
     (case onCore (call (gv_Inspect env cid)) g of
        (Inl err, g1) \<Rightarrow> (WriteRuntimeOrFail err, g1)
      | (Inr inspect, g1) \<Rightarrow>
          let wanted = TrimSpace (query ''section'') in
          if wanted = '''' then (WriteJSON 200 (Inspect_doc inspect), g1)
          else case InspectSection il inspect wanted of
            Inl err \<Rightarrow> (WriteError 400 (Error err), g1)
          | Inr part \<Rightarrow> (WriteJSON 200 (Inspect_doc part), g1))"

definition handleContainerMounts :: "'w GwEnv \<Rightarrow> string \<Rightarrow> 'w Gw \<Rightarrow> 'w gw_answer" where
  "handleContainerMounts env cid = serveQuery (call (gv_Mounts env cid)) Mounts"

definition handleContainerFiles :: "'w GwEnv \<Rightarrow> (string \<Rightarrow> string) \<Rightarrow> string \<Rightarrow> 'w Gw \<Rightarrow> 'w gw_answer" where
  "handleContainerFiles env query cid = serveQuery (call (rt_ListContainerFiles (rt_of env) cid (TrimSpace (query ''path'')))) Files"

definition handleContainerExecOnce :: "'w GwEnv \<Rightarrow> (string \<Rightarrow> string result) \<Rightarrow> string \<Rightarrow> string \<Rightarrow> 'w Gw \<Rightarrow> 'w gw_answer" where
  "handleContainerExecOnce env unmarshal body cid g =
     (case JSONDecodeOrFail unmarshal body of
        Inl resp \<Rightarrow> (resp, g)
      | Inr command \<Rightarrow>
          (case onCore (call (gv_Exec env cid command)) g of
             ((output, Some err), g1) \<Rightarrow>
               (if output \<noteq> '''' then WriteJSON 200 (Exec output (Some (Error err))) else WriteRuntimeOrFail err, g1)
           | ((output, None), g1) \<Rightarrow> (WriteJSON 200 (Exec output None), g1)))"

definition handleContainerStats :: "'w GwEnv \<Rightarrow> string \<Rightarrow> 'w Gw \<Rightarrow> 'w gw_answer" where
  "handleContainerStats env cid g =
     (case onCore (call (rt_ContainerStats (rt_of env) cid)) g of
        (Inl err, g1) \<Rightarrow> (WriteRuntimeOrFail err, g1)
      | (Inr stats, g1) \<Rightarrow> (WriteJSON 200 (Stats_now stats (Samples (gv_order env) cid (gw_stats g1))), g1))"

subsection \<open>Images\<close>

definition handleImagesList :: "'w GwEnv \<Rightarrow> 'w Gw \<Rightarrow> 'w gw_answer" where
  "handleImagesList env = serveQuery (Core_ListImages (gv_engine env)) Images"

text \<open>A body with a reference that is not blank, which three handlers read.\<close>

definition withReference :: "(string \<Rightarrow> string result) \<Rightarrow> string \<Rightarrow> (string \<Rightarrow> 'w Gw \<Rightarrow> 'w gw_answer) \<Rightarrow> 'w Gw \<Rightarrow> 'w gw_answer" where
  "withReference unmarshal body f g =
     (case JSONDecodeOrFail unmarshal body of
        Inl resp \<Rightarrow> (resp, g)
      | Inr ref \<Rightarrow> (case RequireNonEmpty ''reference'' ref of Some resp \<Rightarrow> (resp, g) | None \<Rightarrow> f ref g))"

definition handleImagesPull :: "'w GwEnv \<Rightarrow> (string \<Rightarrow> string result) \<Rightarrow> string \<Rightarrow> 'w Gw \<Rightarrow> 'w gw_answer" where
  "handleImagesPull env unmarshal body = withReference unmarshal body (\<lambda>ref. serveAction (rt_PullImage (rt_of env) ref))"

definition handleImageDelete :: "'w GwEnv \<Rightarrow> string \<Rightarrow> 'w Gw \<Rightarrow> 'w gw_answer" where
  "handleImageDelete env ref = serveAction (rt_RemoveImage (rt_of env) ref)"

definition handleImageLayers :: "'w GwEnv \<Rightarrow> (string \<Rightarrow> string) \<Rightarrow> 'w Gw \<Rightarrow> 'w gw_answer" where
  "handleImageLayers env query g =
     (let ref = query ''reference'' in
      case RequireNonEmpty ''reference'' ref of
        Some resp \<Rightarrow> (resp, g)
      | None \<Rightarrow> serveQuery (call (rt_ImageHistory (rt_of env) ref)) Layers g)"

definition handleImageRun :: "'w GwEnv \<Rightarrow> (string \<Rightarrow> string result) \<Rightarrow> string \<Rightarrow> 'w Gw \<Rightarrow> 'w gw_answer" where
  "handleImageRun env unmarshal body = withReference unmarshal body (\<lambda>ref g.
     case EnsureRuntimeOrFail env g of
       (Some resp, g1) \<Rightarrow> (resp, g1)
     | (None, g1) \<Rightarrow> serveQuery (call (rt_RunImage (rt_of env) ref)) Ran g1)"

definition handleImagePush :: "'w GwEnv \<Rightarrow> (string \<Rightarrow> string result) \<Rightarrow> string \<Rightarrow> 'w Gw \<Rightarrow> 'w gw_answer" where
  "handleImagePush env unmarshal body = withReference unmarshal body (\<lambda>ref. serveAction (rt_PushImage (rt_of env) ref))"

subsection \<open>Volumes and networks\<close>

definition handleVolumesList :: "'w GwEnv \<Rightarrow> 'w Gw \<Rightarrow> 'w gw_answer" where
  "handleVolumesList env = serveQuery (Core_ListVolumes (gv_engine env)) Volumes"

definition handleVolumesCreate :: "'w GwEnv \<Rightarrow> (string \<Rightarrow> string result) \<Rightarrow> string \<Rightarrow> 'w Gw \<Rightarrow> 'w gw_answer" where
  "handleVolumesCreate env unmarshal body g =
     (case JSONDecodeOrFail unmarshal body of Inl resp \<Rightarrow> (resp, g) | Inr name \<Rightarrow> serveAction (rt_CreateVolume (rt_of env) name) g)"

definition handleVolumeDelete :: "'w GwEnv \<Rightarrow> string \<Rightarrow> 'w Gw \<Rightarrow> 'w gw_answer" where
  "handleVolumeDelete env name = serveAction (rt_RemoveVolume (rt_of env) name)"

definition handleVolumeDetail :: "'w GwEnv \<Rightarrow> string \<Rightarrow> 'w Gw \<Rightarrow> 'w gw_answer" where
  "handleVolumeDetail env name = serveQuery (call (rt_InspectVolume (rt_of env) name)) Volume_page"

definition handleVolumeFiles :: "'w GwEnv \<Rightarrow> (string \<Rightarrow> string) \<Rightarrow> string \<Rightarrow> 'w Gw \<Rightarrow> 'w gw_answer" where
  "handleVolumeFiles env query name = serveQuery (call (rt_ListVolumeFiles (rt_of env) name (TrimSpace (query ''path'')))) Files"

definition handleVolumeContainers :: "'w GwEnv \<Rightarrow> string \<Rightarrow> 'w Gw \<Rightarrow> 'w gw_answer" where
  "handleVolumeContainers env name = serveQuery (call (rt_VolumeContainers (rt_of env) name)) Usages"

definition handleVolumeClone :: "'w GwEnv \<Rightarrow> (string \<Rightarrow> string result) \<Rightarrow> string \<Rightarrow> string \<Rightarrow> 'w Gw \<Rightarrow> 'w gw_answer" where
  "handleVolumeClone env unmarshal body name g =
     (case JSONDecodeOrFail unmarshal body of
        Inl resp \<Rightarrow> (resp, g)
      | Inr new \<Rightarrow>
          (case RequireNonEmpty ''name'' new of
             Some resp \<Rightarrow> (resp, g)
           | None \<Rightarrow>
               (case onCore (call (rt_CloneVolume (rt_of env) name new)) g of
                  (Some err, g1) \<Rightarrow> (WriteRuntimeOrFail err, g1)
                | (None, g1) \<Rightarrow> (WriteJSON 200 (Cloned new), g1))))"

definition handleNetworksList :: "'w GwEnv \<Rightarrow> 'w Gw \<Rightarrow> 'w gw_answer" where
  "handleNetworksList env = serveQuery (Core_ListNetworks (gv_engine env)) Networks"

definition handleNetworkInspect :: "'w GwEnv \<Rightarrow> string \<Rightarrow> 'w Gw \<Rightarrow> 'w gw_answer" where
  "handleNetworkInspect env name = serveQuery (call (rt_InspectNetwork (rt_of env) name)) Network_page"

definition handleNetworkDelete :: "'w GwEnv \<Rightarrow> string \<Rightarrow> 'w Gw \<Rightarrow> 'w gw_answer" where
  "handleNetworkDelete env name = serveAction (rt_RemoveNetwork (rt_of env) name)"

subsection \<open>Prune, disk usage and registry\<close>

text \<open>These runtime operations may panic (\<open>None\<close>); \<open>Recovery\<close> answers then.\<close>

definition onCoreOr :: "('w \<Rightarrow> ('a \<times> 'w) option) \<Rightarrow> 'w Gw \<Rightarrow> ('a \<times> 'w Gw) option" where
  "onCoreOr f g = (case f (co_world (gw_core g)) of None \<Rightarrow> None | Some (r, w) \<Rightarrow> Some (r, g\<lparr>gw_core := (gw_core g)\<lparr>co_world := w\<rparr>\<rparr>))"

definition handlePrunePreview :: "'w GwEnv \<Rightarrow> 'w Gw \<Rightarrow> 'w gw_answer option" where
  "handlePrunePreview env g =
     map_option (\<lambda>(r, g1). (case r of Inl err \<Rightarrow> WriteRuntimeOrFail err | Inr v \<Rightarrow> WriteJSON 200 (Preview v), g1))
       (onCoreOr (rt_PrunePreview (rt_of env)) g)"

definition handlePrune :: "'w GwEnv \<Rightarrow> (string \<Rightarrow> PruneOptions result) \<Rightarrow> string \<Rightarrow> 'w Gw \<Rightarrow> 'w gw_answer option" where
  "handlePrune env unmarshal body g =
     (case JSONDecode unmarshal body of
        Inl _ \<Rightarrow> Some (WriteError 400 ''invalid json body'', g)
      | Inr opts \<Rightarrow>
          map_option (\<lambda>(r, g1).
              (case r of
                 Inl err \<Rightarrow> if errors_Is err ErrPruneCategoryRequired then WriteError 400 (Error err) else WriteRuntimeOrFail err
               | Inr v \<Rightarrow> WriteJSON 200 (Pruned v), g1))
            (onCoreOr (rt_Prune (rt_of env) opts) g))"

definition handleSystemDf :: "'w GwEnv \<Rightarrow> 'w Gw \<Rightarrow> 'w gw_answer option" where
  "handleSystemDf env g =
     map_option (\<lambda>(r, g1). (case r of Inl err \<Rightarrow> WriteRuntimeOrFail err | Inr v \<Rightarrow> WriteJSON 200 (Disk v), g1))
       (onCoreOr (rt_SystemDiskUsage (rt_of env)) g)"

definition handleRegistryStatus :: "'w GwEnv \<Rightarrow> 'w Gw \<Rightarrow> 'w gw_answer" where
  "handleRegistryStatus env = serveQuery (call (rt_RegistryStatus (rt_of env))) Registry"

definition handleRegistryCredentials ::
    "'w GwEnv \<Rightarrow> (string \<Rightarrow> (string \<times> string \<times> string) result) \<Rightarrow> string \<Rightarrow> 'w Gw \<Rightarrow> 'w gw_answer" where
  "handleRegistryCredentials env unmarshal body g =
     (case JSONDecodeOrFail unmarshal body of
        Inl resp \<Rightarrow> (resp, g)
      | Inr (server, username, password) \<Rightarrow>
          (case EnsureRuntimeOrFail env g of
             (Some resp, g1) \<Rightarrow> (resp, g1)
           | (None, g1) \<Rightarrow> serveAction (rt_RegistryLogin (rt_of env) server username password) g1))"

definition handleRegistryLogout :: "'w GwEnv \<Rightarrow> (string \<Rightarrow> string) \<Rightarrow> 'w Gw \<Rightarrow> 'w gw_answer" where
  "handleRegistryLogout env query g =
     (case EnsureRuntimeOrFail env g of
        (Some resp, g1) \<Rightarrow> (resp, g1)
      | (None, g1) \<Rightarrow> serveAction (rt_RegistryLogout (rt_of env) (query ''server'')) g1)"

subsection \<open>The runtime\<close>

definition start_markers :: "string list" where
  "start_markers = [''guest disk missing'', ''no GitHub release asset'', ''not enough free disk space'', ''krunkit not found'',
     ''gvproxy not found'', ''docker CLI not found'']"

definition startMessage :: "go_error \<Rightarrow> string" where
  "startMessage err =
     (if list_ex (Contains (Error err)) start_markers then Error err
      else if errors_Is err sentinel.DeadlineExceeded then ''timed out starting the container runtime''
      else if errors_Is err ContextCanceled then ''container runtime start was canceled''
      else ''failed to start the container runtime'')"

definition currentStatus :: "'w GwEnv \<Rightarrow> 'w Gw \<Rightarrow> 'w gw_answer" where
  "currentStatus env g =
     (case onCore (call (rt_Status (rt_of env))) g of
        (Inl _, g1) \<Rightarrow> (WriteError 500 ''failed to read runtime status'', g1)
      | (Inr status, g1) \<Rightarrow> (WriteJSON 200 (Runtime_state status), g1))"

definition handleRuntimeStart :: "'w GwEnv \<Rightarrow> 'w Gw \<Rightarrow> 'w gw_answer" where
  "handleRuntimeStart env g =
     (case onCore (gv_Ensure env) g of
        (Some err, g1) \<Rightarrow> (WriteError 503 (startMessage err), g1)
      | (None, g1) \<Rightarrow> currentStatus env g1)"

definition handleRuntimeStop :: "'w GwEnv \<Rightarrow> 'w Gw \<Rightarrow> 'w gw_answer" where
  "handleRuntimeStop env g =
     (case onCore (ForceStopRuntime (gv_engine env)) g of
        (Some _, g1) \<Rightarrow> (WriteError 500 ''failed to stop the container runtime'', g1)
      | (None, g1) \<Rightarrow> currentStatus env (g1\<lparr>gw_core := ClearResourceSaver (gw_core g1)\<rparr>))"

record statusResponse =
  sr_Version :: string
  sr_UptimeSeconds :: int
  sr_ListenAddr :: string
  sr_LogLevel :: string
  sr_Runtime :: Status
  sr_CpuPercent :: string
  sr_MemoryUsedBytes :: int
  sr_MemoryReservedBytes :: int
  sr_DiskUsedBytes :: int
  sr_DiskReservedBytes :: int
  sr_ResourceSaverActive :: bool

definition float_Seconds :: "int \<Rightarrow> rat" where
  "float_Seconds d = to_double (of_int (d div Second) + to_double (of_int (d mod Second) / of_int Second))"

definition handleStatus ::
    "'w GwEnv \<Rightarrow> string \<Rightarrow> Config \<Rightarrow> flights \<Rightarrow> int \<Rightarrow> 'w Gw \<Rightarrow> statusResponse response \<times> 'w Gw" where
  "handleStatus env version cfg starts uptime g =
     (case onCore (call (rt_Status (rt_of env))) g of
        (Inl _, g1) \<Rightarrow> (WriteError 500 ''failed to read runtime status'', g1)
      | (Inr status0, g1) \<Rightarrow>
          let (usage, g2) = onCore (call (rt_ResourceUsage (rt_of env))) g1;
              (cpu, mem, disk) = (case usage of Inl _ \<Rightarrow> (''0'', 0, 0) | Inr u \<Rightarrow> (ru_CpuPercent u, ru_MemoryUsedBytes u, ru_DiskUsedBytes u));
              status = (if RuntimeStarting starts \<and> st_State status0 \<noteq> RuntimeStateRunning then status0\<lparr>st_State := RuntimeStateStarting\<rparr> else status0)
          in (WriteJSON 200 \<lparr>sr_Version = version, sr_UptimeSeconds = \<lfloor>float_Seconds uptime\<rfloor>, sr_ListenAddr = cf_ListenAddr cfg,
                sr_LogLevel = cf_LogLevel cfg, sr_Runtime = status, sr_CpuPercent = cpu, sr_MemoryUsedBytes = mem,
                sr_MemoryReservedBytes = wrap64 (cf_MemoryGB cfg * BytesPerGiB), sr_DiskUsedBytes = disk,
                sr_DiskReservedBytes = wrap64 (cf_DiskGB cfg * BytesPerGiB), sr_ResourceSaverActive = ResourceSaverActive (gw_core g2)\<rparr>, g2))"

subsection \<open>Builds\<close>

definition handleBuildsList :: "(string \<Rightarrow> string) \<Rightarrow> BuildCore \<Rightarrow> gw_value response" where
  "handleBuildsList query c =
     (let tagFilter = TrimSpace (query ''tag'') in
      WriteJSON 200 (Builds_list (if tagFilter \<noteq> '''' then filter (\<lambda>b. bd_Tag b = tagFilter) (bc_Builds c) else bc_Builds c)))"

record buildPayload =
  bp_Context :: string
  bp_Tag :: string
  bp_Dockerfile :: string
  bp_Platform :: string

text \<open>The build that is answered is also the job that is started in the background.\<close>

definition handleBuildsCreate ::
    "host \<Rightarrow> string \<Rightarrow> Time \<Rightarrow> (string \<Rightarrow> buildPayload result) \<Rightarrow> string \<Rightarrow> BuildCore \<Rightarrow> gw_value response \<times> Build option \<times> BuildCore" where
  "handleBuildsCreate h goarch now unmarshal body c =
     (case JSONDecodeOrFail unmarshal body of
        Inl resp \<Rightarrow> (resp, None, c)
      | Inr p \<Rightarrow>
          if bp_Context p = '''' \<or> bp_Tag p = '''' then (WriteError 400 ''context and tag are required'', None, c)
          else
            let platform0 = TrimSpace (bp_Platform p); platform = (if platform0 = '''' then DefaultBuildPlatform goarch else platform0) in
            if Contains platform '','' then (WriteError 400 ''multi-platform builds are not supported yet; choose a single platform'', None, c)
            else let (build, c1) = NewBuild h now (bp_Context p) (bp_Tag p) (bp_Dockerfile p) platform ''running'' c
                 in (WriteJSON 202 (Build_page build), Some build, c1))"

text \<open>\<open>None\<close> is a panic while the build is enriched.\<close>

definition withBuild ::
    "'w BuildEnv \<Rightarrow> host \<Rightarrow> string \<Rightarrow> string \<Rightarrow> (Build \<Rightarrow> gw_value) \<Rightarrow> BuildCore \<Rightarrow> 'w \<Rightarrow> ((gw_value response \<times> BuildCore) \<times> 'w) option" where
  "withBuild env h socket bid wrap c w =
     (case GetBuild bid c of
        None \<Rightarrow> Some ((WriteError 404 ''build not found'', c), w)
      | Some build \<Rightarrow>
          map_option (\<lambda>((b, c1), w1). ((WriteJSON 200 (wrap b), c1), w1)) (EnrichHistoryBuildIfNeeded env h socket build c w))"

definition handleBuildGet ::
    "'w BuildEnv \<Rightarrow> host \<Rightarrow> string \<Rightarrow> string \<Rightarrow> BuildCore \<Rightarrow> 'w \<Rightarrow> ((gw_value response \<times> BuildCore) \<times> 'w) option" where
  "handleBuildGet env h socket bid = withBuild env h socket bid Build_page"

definition handleBuildLogs ::
    "'w BuildEnv \<Rightarrow> host \<Rightarrow> string \<Rightarrow> string \<Rightarrow> BuildCore \<Rightarrow> 'w \<Rightarrow> ((gw_value response \<times> BuildCore) \<times> 'w) option" where
  "handleBuildLogs env h socket bid = withBuild env h socket bid (\<lambda>b. Build_log (bd_RawLog b) (bd_Steps b))"

definition handleBuildSource ::
    "'w BuildEnv \<Rightarrow> host \<Rightarrow> string \<Rightarrow> string \<Rightarrow> BuildCore \<Rightarrow> 'w \<Rightarrow> (gw_value response \<times> BuildCore) \<times> 'w" where
  "handleBuildSource env h cwd bid c w =
     (case GetBuild bid c of
        None \<Rightarrow> ((WriteError 404 ''build not found'', c), w)
      | Some build \<Rightarrow>
          let ((contextPath, dockerfile), w1) = ResolveBuildSourcePaths env build w in
          if \<not> IsResolvableBuildContext env contextPath w1
          then ((WriteError 404 ''Dockerfile source is not available for this build'', c), w1)
          else case ReadBuildSource env cwd contextPath dockerfile (bd_Platform build) w1 of
            Inl err \<Rightarrow> ((WriteError 404 (Error err), c), w1)
          | Inr source \<Rightarrow>
              ((WriteJSON 200 (Source source),
                if bd_Context build \<noteq> contextPath \<or> bd_Dockerfile build \<noteq> dockerfile then UpdateBuildSourcePaths h bid contextPath dockerfile c else c), w1))"

definition handleBuildArtifactDownload ::
    "'w BuildEnv \<Rightarrow> host \<Rightarrow> (BuildArtifact \<Rightarrow> string) \<Rightarrow> string \<Rightarrow> (string \<Rightarrow> string) \<Rightarrow> string \<Rightarrow> BuildCore \<Rightarrow> 'w
      \<Rightarrow> ((gw_value response \<times> BuildCore) \<times> 'w) option" where
  "handleBuildArtifactDownload env h encode socket query bid c w =
     (let digest = TrimSpace (query ''digest'') in
      if digest = '''' then Some ((WriteError 400 ''digest is required'', c), w)
      else map_option (\<lambda>((r, c1), w1).
          ((case r of
              Inr (body, fileName) \<Rightarrow> WriteJSON 200 (Artifact fileName body)
            | Inl err \<Rightarrow>
                let message = Error err in
                if Contains message ''build not found'' then WriteError 404 ''build not found''
                else if Contains message ''build result not found'' then WriteError 404 ''build result not found''
                else if Contains message ''digest is required'' then WriteError 400 ''digest is required''
                else WriteError 500 ''failed to download build artifact'', c1), w1))
        (DownloadBuildArtifact env h encode socket bid digest c w))"


section \<open>Routes\<close>

text \<open>The handlers that routes lead to, with the path segments they get.\<close>

datatype global_op =
    HealthGet | StatusGet | RuntimeStart | RuntimeStop | ContainersGet | ImagesGet | ImagesPull | ImageLayers | ImageRun | ImagePush
  | VolumesGet | VolumesCreate | NetworksGet | BuildsGet | BuildsCreate

datatype system_op =
    RegistryGet | RegistryPost | RegistryDelete | LoginStart | ConfigGet | ConfigPut | DebugLogs | MigrationStatusGet | MigrationStart
  | Purge | FactoryResetPost | PrunePreviewGet | PrunePost | SystemDf

datatype container_op =
    ContainerLogs | ContainerInspect | ContainerMounts | ContainerFiles | ContainerExecWebSocket | ContainerExecOnce
  | ContainerStatsGet | ContainerStart | ContainerStop | ContainerRestart | ContainerDelete

datatype volume_op =
    VolumeGet | VolumeDelete | VolumeFiles | VolumeContainers | VolumeClone | ExportsGet | ExportCreate | SchedulesGet | ScheduleCreate

datatype part_op = ExportDownload | ScheduleUpdate | ScheduleDelete

datatype build_op = BuildGet | BuildSourceGet | BuildLogsGet | BuildArtifact

datatype endpoint =
    Global global_op
  | System system_op
  | OnContainer container_op string
  | ImageDelete string
  | OnVolume volume_op string
  | OnVolumePart part_op string string
  | NetworkGet string | NetworkDelete string
  | OnBuild build_op string
  | LoginStatus string | LoginCancel string

type_synonym ('s, 'v) serving = "endpoint \<Rightarrow> ('s, 'v) handler"

definition only :: "string \<Rightarrow> ('s, 'v) handler \<Rightarrow> (string \<times> ('s, 'v) handler) list" where
  "only meth h = [(meth, h)]"

definition route :: "string list \<Rightarrow> string \<Rightarrow> (string list \<Rightarrow> ('s, 'v) handler) \<Rightarrow> ('s, 'v) Route" where
  "route segments meth h = \<lparr>route_Segments = segments, route_Method = meth, route_Handler = h\<rparr>"

definition container_routes :: "('s, 'v) serving \<Rightarrow> ('s, 'v) Route list" where
  "container_routes serve =
     [route [''logs''] ''GET'' (\<lambda>parts. serve (OnContainer ContainerLogs (parts ! 0))),
      route [''inspect''] ''GET'' (\<lambda>parts. serve (OnContainer ContainerInspect (parts ! 0))),
      route [''mounts''] ''GET'' (\<lambda>parts. serve (OnContainer ContainerMounts (parts ! 0))),
      route [''files''] ''GET'' (\<lambda>parts. serve (OnContainer ContainerFiles (parts ! 0))),
      route [''exec''] '''' (\<lambda>parts. ServeMethods
        [(''GET'', serve (OnContainer ContainerExecWebSocket (parts ! 0))), (''POST'', serve (OnContainer ContainerExecOnce (parts ! 0)))]),
      route [''stats''] ''GET'' (\<lambda>parts. serve (OnContainer ContainerStatsGet (parts ! 0))),
      route [''start''] ''POST'' (\<lambda>parts. serve (OnContainer ContainerStart (parts ! 0))),
      route [''stop''] ''POST'' (\<lambda>parts. serve (OnContainer ContainerStop (parts ! 0))),
      route [''restart''] ''POST'' (\<lambda>parts. serve (OnContainer ContainerRestart (parts ! 0)))]"

definition handleContainerAction :: "('s, 'v) serving \<Rightarrow> ('s, 'v) handler" where
  "handleContainerAction serve = ServeRoutes ''/v1/containers/'' ''container not found'' (container_routes serve)
     [(''DELETE'', \<lambda>parts. serve (OnContainer ContainerDelete (parts ! 0)))]"

definition handleImageSubpath :: "('s, 'v) serving \<Rightarrow> ('s, 'v) handler" where
  "handleImageSubpath serve = ServePrefix ''/v1/images/''
     [(''layers'', ServeMethods (only ''GET'' (serve (Global ImageLayers)))),
      (''run'', ServeMethods (only ''POST'' (serve (Global ImageRun)))),
      (''push'', ServeMethods (only ''POST'' (serve (Global ImagePush))))]
     (Some (\<lambda>remaining r s.
        if remaining = '''' then (WriteError 404 ''image not found'', s)
        else ServeMethod ''DELETE'' (serve (ImageDelete remaining)) r s))"

definition handleVolumeAction :: "('s, 'v) serving \<Rightarrow> ('s, 'v) handler" where
  "handleVolumeAction serve = ServeRoutes ''/v1/volumes/'' ''volume not found''
     [route [''files''] ''GET'' (\<lambda>parts. serve (OnVolume VolumeFiles (parts ! 0))),
      route [''containers''] ''GET'' (\<lambda>parts. serve (OnVolume VolumeContainers (parts ! 0))),
      route [''clone''] ''POST'' (\<lambda>parts. serve (OnVolume VolumeClone (parts ! 0))),
      route [''exports''] '''' (\<lambda>parts. ServeMethods
        [(''GET'', serve (OnVolume ExportsGet (parts ! 0))), (''POST'', serve (OnVolume ExportCreate (parts ! 0)))]),
      route [''export-schedules''] '''' (\<lambda>parts. ServeMethods
        [(''GET'', serve (OnVolume SchedulesGet (parts ! 0))), (''POST'', serve (OnVolume ScheduleCreate (parts ! 0)))]),
      route [''export-schedules'', ''*''] ''PUT'' (\<lambda>parts. serve (OnVolumePart ScheduleUpdate (parts ! 0) (parts ! 2))),
      route [''export-schedules'', ''*''] ''DELETE'' (\<lambda>parts. serve (OnVolumePart ScheduleDelete (parts ! 0) (parts ! 2))),
      route [''exports'', ''*'', ''download''] ''GET'' (\<lambda>parts. serve (OnVolumePart ExportDownload (parts ! 0) (parts ! 2)))]
     [(''GET'', \<lambda>parts. serve (OnVolume VolumeGet (parts ! 0))), (''DELETE'', \<lambda>parts. serve (OnVolume VolumeDelete (parts ! 0)))]"

definition handleNetworkAction :: "('s, 'v) serving \<Rightarrow> ('s, 'v) handler" where
  "handleNetworkAction serve = ServeRoutes ''/v1/networks/'' ''network not found'' []
     [(''GET'', \<lambda>parts. serve (NetworkGet (parts ! 0))), (''DELETE'', \<lambda>parts. serve (NetworkDelete (parts ! 0)))]"

definition handleBuildAction :: "('s, 'v) serving \<Rightarrow> ('s, 'v) handler" where
  "handleBuildAction serve = ServeRoutes ''/v1/builds/'' ''build not found''
     [route [''source''] ''GET'' (\<lambda>parts. serve (OnBuild BuildSourceGet (parts ! 0))),
      route [''logs''] ''GET'' (\<lambda>parts. serve (OnBuild BuildLogsGet (parts ! 0))),
      route [''artifacts'', ''download''] ''GET'' (\<lambda>parts. serve (OnBuild BuildArtifact (parts ! 0)))]
     [(''GET'', \<lambda>parts. serve (OnBuild BuildGet (parts ! 0)))]"

definition onePart :: "(string \<Rightarrow> ('s, 'v) handler) \<Rightarrow> ('s, 'v) handler" where
  "onePart h r s = (case PathParts r ''/v1/registry/login/'' of [part] \<Rightarrow> h part r s | _ \<Rightarrow> (MethodNotAllowed r, s))"

definition handleRegistryLogin :: "('s, 'v) serving \<Rightarrow> ('s, 'v) handler" where
  "handleRegistryLogin serve = ServeMethods
     [(''POST'', \<lambda>r s. if PathParts r ''/v1/registry/login/'' \<noteq> [] then (MethodNotAllowed r, s) else serve (System LoginStart) r s),
      (''GET'', onePart (\<lambda>part. serve (LoginStatus part))),
      (''DELETE'', onePart (\<lambda>part. serve (LoginCancel part)))]"

definition mux_routes :: "('s, 'v) serving \<Rightarrow> (string \<times> ('s, 'v) handler) list" where
  "mux_routes serve =
     [(''/v1/health'', ServeMethods (only ''GET'' (serve (Global HealthGet)))),
      (''/v1/status'', ServeMethods (only ''GET'' (serve (Global StatusGet)))),
      (''/v1/runtime/start'', ServeMethods (only ''POST'' (serve (Global RuntimeStart)))),
      (''/v1/runtime/stop'', ServeMethods (only ''POST'' (serve (Global RuntimeStop)))),
      (''/v1/runtime/kill'', ServeMethods (only ''POST'' (serve (Global RuntimeStop)))),
      (''/v1/containers'', ServeMethods (only ''GET'' (serve (Global ContainersGet)))),
      (''/v1/containers/'', handleContainerAction serve),
      (''/v1/images'', ServeMethods [(''GET'', serve (Global ImagesGet)), (''POST'', serve (Global ImagesPull))]),
      (''/v1/images/'', handleImageSubpath serve),
      (''/v1/volumes'', ServeMethods [(''GET'', serve (Global VolumesGet)), (''POST'', serve (Global VolumesCreate))]),
      (''/v1/volumes/'', handleVolumeAction serve),
      (''/v1/networks'', ServeMethods (only ''GET'' (serve (Global NetworksGet)))),
      (''/v1/networks/'', handleNetworkAction serve),
      (''/v1/builds'', ServeMethods [(''GET'', serve (Global BuildsGet)), (''POST'', serve (Global BuildsCreate))]),
      (''/v1/builds/'', handleBuildAction serve),
      (''/v1/registry'', ServeMethods [(''GET'', serve (System RegistryGet)), (''POST'', serve (System RegistryPost)), (''DELETE'', serve (System RegistryDelete))]),
      (''/v1/registry/login'', handleRegistryLogin serve),
      (''/v1/registry/login/'', handleRegistryLogin serve),
      (''/v1/config'', ServeMethods [(''GET'', serve (System ConfigGet)), (''PUT'', serve (System ConfigPut))]),
      (''/v1/debug/logs'', ServeMethods (only ''GET'' (serve (System DebugLogs)))),
      (''/v1/migrate/docker-desktop'', ServeMethods [(''GET'', serve (System MigrationStatusGet)), (''POST'', serve (System MigrationStart))]),
      (''/v1/troubleshoot/purge'', ServeMethods (only ''POST'' (serve (System Purge)))),
      (''/v1/troubleshoot/factory-reset'', ServeMethods (only ''POST'' (serve (System FactoryResetPost)))),
      (''/v1/system/prune/preview'', ServeMethods (only ''GET'' (serve (System PrunePreviewGet)))),
      (''/v1/system/prune'', ServeMethods (only ''POST'' (serve (System PrunePost)))),
      (''/v1/system/df'', ServeMethods (only ''GET'' (serve (System SystemDf))))]"

text \<open>
  \<open>http.ServeMux\<close> for these patterns and a path without escapes: a path that is not clean is redirected; a pattern that
  ends in a slash stands for its subtree, and the longest pattern that fits wins.
\<close>

definition cleanPath :: "string \<Rightarrow> string" where
  "cleanPath p =
     (let p1 = (if p = '''' \<or> hd p \<noteq> CHR ''/'' then ''/'' @ p else p); np = filepath_Clean p1
      in if last p1 = CHR ''/'' \<and> np \<noteq> ''/'' then np @ ''/'' else np)"

definition pattern_fits :: "string \<Rightarrow> string \<Rightarrow> bool" where
  "pattern_fits pat path = (if HasSuffix pat ''/'' then HasPrefix path pat else path = pat)"

definition mux_find :: "(string \<times> 'h) list \<Rightarrow> string \<Rightarrow> (string \<times> 'h) option" where
  "mux_find routes path =
     fold (\<lambda>(pat, h) best.
        if pattern_fits pat path \<and> (case best of None \<Rightarrow> True | Some (b, _) \<Rightarrow> length b < length pat) then Some (pat, h) else best) routes None"

definition ServeMux :: "(string \<times> ('s, 'v) handler) list \<Rightarrow> ('s, 'v) handler" where
  "ServeMux routes r s =
     (if req_Method r \<noteq> ''CONNECT'' \<and> cleanPath (req_Path r) \<noteq> req_Path r then (Response 301 NoBody, s)
      else case mux_find routes (req_Path r) of
        None \<Rightarrow> (Response 404 (ErrorBody ''404 page not found''), s)
      | Some (_, h) \<Rightarrow> h r s)"

section \<open>Middleware\<close>

text \<open>
  A handler behind middleware sees the \<open>Origin\<close> header; what it writes is the \<open>Access-Control-Allow-Origin\<close> header and a
  response, or none when it panics before it writes one.
\<close>

type_synonym ('s, 'v) http = "string \<Rightarrow> Request \<Rightarrow> 's \<Rightarrow> (string option \<times> 'v response option) \<times> 's"

type_synonym ('s, 'v) Middleware = "('s, 'v) http \<Rightarrow> ('s, 'v) http"

text \<open>\<open>url.Parse\<close> with \<open>Hostname\<close>, and whether a text is a loopback address.\<close>

record originlib =
  ol_Hostname :: "string \<Rightarrow> string option"
  ol_Loopback :: "string \<Rightarrow> bool"

definition IsLocalHost :: "originlib \<Rightarrow> string \<Rightarrow> bool" where
  "IsLocalHost ol host \<longleftrightarrow> host \<in> {''localhost'', ''127.0.0.1'', ''::1''} \<or> ol_Loopback ol host"

definition IsLocalOrigin :: "originlib \<Rightarrow> string \<Rightarrow> bool" where
  "IsLocalOrigin ol origin \<longleftrightarrow> origin \<noteq> '''' \<and> (case ol_Hostname ol origin of None \<Rightarrow> False | Some host \<Rightarrow> IsLocalHost ol host)"

definition isLocalOrNoOrigin :: "originlib \<Rightarrow> string \<Rightarrow> bool" where
  "isLocalOrNoOrigin ol origin \<longleftrightarrow> origin = '''' \<or> IsLocalOrigin ol origin"

definition CORS :: "originlib \<Rightarrow> ('s, 'v) Middleware" where
  "CORS ol next origin r s =
     (let allow = (if IsLocalOrigin ol origin then Some origin else None) in
      if req_Method r = ''OPTIONS'' then ((allow, Some (Response 204 NoBody)), s)
      else let ((_, resp), s1) = next origin r s in ((allow, resp), s1))"

definition Recovery :: "('s, 'v) Middleware" where
  "Recovery next origin r s =
     (let ((allow, resp), s1) = next origin r s
      in ((allow, Some (case resp of Some x \<Rightarrow> x | None \<Rightarrow> WriteError 500 ''internal server error'')), s1))"

text \<open>Logging adds a line with method, path and status; a handler that panics leaves none.\<close>

definition Logging :: "(string \<times> string \<times> nat \<Rightarrow> 's \<Rightarrow> 's) \<Rightarrow> ('s, 'v) Middleware" where
  "Logging write_line next origin r s =
     (let ((allow, resp), s1) = next origin r s
      in ((allow, resp), case resp of None \<Rightarrow> s1 | Some x \<Rightarrow> write_line (req_Method r, req_Path r, resp_status x) s1))"

definition Chain :: "('s, 'v) http \<Rightarrow> ('s, 'v) Middleware list \<Rightarrow> ('s, 'v) http" where
  "Chain handler middlewares = foldr (\<lambda>m h. m h) middlewares handler"

text \<open>The chain that \<open>main\<close> sets up around the routes; \<open>panics\<close> tells which requests make their handler panic.\<close>

definition plain_http :: "(Request \<Rightarrow> 's \<Rightarrow> 'v response option \<times> 's) \<Rightarrow> ('s, 'v) http" where
  "plain_http h origin r s = (let (resp, s1) = h r s in ((None, resp), s1))"

definition Handler ::
    "(string \<times> string \<times> nat \<Rightarrow> 's \<Rightarrow> 's) \<Rightarrow> originlib \<Rightarrow> (Request \<Rightarrow> 's \<Rightarrow> bool) \<Rightarrow> ('s, 'v) serving \<Rightarrow> ('s, 'v) http" where
  "Handler write_line ol panics serve =
     Chain (plain_http (\<lambda>r s. let (resp, s1) = ServeMux (mux_routes serve) r s in (if panics r s then None else Some resp, s1)))
       [CORS ol, Recovery, Logging write_line]"


section \<open>Facts about the routes\<close>

lemma cleanPath_rooted: "list_all plain_seg segs \<Longrightarrow> segs \<noteq> [] \<Longrightarrow> cleanPath (rooted_path segs) = rooted_path segs"
proof -
  assume s: "list_all plain_seg segs" "segs \<noteq> []"
  then have "list_all path_part segs" by (auto simp: list_all_iff plain_seg_def path_part_def)
  then have "last (rooted_path segs) \<noteq> CHR ''/''" using Join_last [OF s(2)] by (simp add: rooted_path_def)
  then show ?thesis using s(1) by (simp add: cleanPath_def Let_def rooted_path_def [symmetric]) (simp add: rooted_path_def)
qed

lemmas mux_eval = mux_find_def mux_routes_def pattern_fits_def HasSuffix_def HasPrefix_def rooted_path_def

lemma mux_containers:
  "parts \<noteq> [] \<Longrightarrow> mux_find (mux_routes serve) (rooted_path (''v1'' # ''containers'' # parts)) = Some (''/v1/containers/'', handleContainerAction serve)"
  by (cases parts) (simp_all add: mux_eval Join_Cons suffix_def)


definition request :: "string \<Rightarrow> string list \<Rightarrow> Request" where
  "request meth segs = \<lparr>req_Method = meth, req_Path = rooted_path segs\<rparr>"

lemma request_sel [simp]: "req_Method (request meth segs) = meth" "req_Path (request meth segs) = rooted_path segs"
  by (simp_all add: request_def)

lemma ServeMux_request:
  "list_all plain_seg segs \<Longrightarrow> segs \<noteq> [] \<Longrightarrow> mux_find routes (rooted_path segs) = Some (pat, h) \<Longrightarrow>
    ServeMux routes (request meth segs) s = h (request meth segs) s"
  by (simp add: ServeMux_def cleanPath_rooted)

lemma parts_of_request:
  assumes "parts \<noteq> []" "list_all plain_seg parts" "base = rooted_path [a, b]" "plain_seg b"
  shows "PathParts (request meth (a # b # parts)) (base @ ''/'') = parts"
proof -
  have "list_all path_part parts" using assms(2) by (auto simp: list_all_iff plain_seg_def path_part_def)
  moreover have "last base = last b" "last b \<noteq> CHR ''/''" "base \<noteq> []"
    using assms(3,4) last_in_set [of b] by (auto simp: rooted_path_def plain_seg_def) (metis last_in_set)
  then have "\<not> HasSuffix base ''/''" by (cases base rule: rev_cases) (auto simp: HasSuffix_def)
  moreover have "rooted_path (a # b # parts) = base @ ''/'' @ Join parts ''/''"
    using assms(1,3) by (simp add: rooted_path_def Join_Cons)
  ultimately show ?thesis using PathParts_of_path [OF assms(1), of base meth] by (simp add: request_def)
qed

lemma plain_names [simp]:
  "plain_seg ''v1''" "plain_seg ''containers''" "plain_seg ''volumes''" "plain_seg ''networks''" "plain_seg ''builds''" "plain_seg ''images''"
  by (simp_all add: plain_seg_def)

lemma container_dispatch:
  assumes "plain_seg cid" "list_all plain_seg rest"
  shows "ServeMux (mux_routes serve) (request meth (''v1'' # ''containers'' # cid # rest)) s
    = handleContainerAction serve (request meth (''v1'' # ''containers'' # cid # rest)) s"
    and "PathParts (request meth (''v1'' # ''containers'' # cid # rest)) ''/v1/containers/'' = cid # rest"
  using assms ServeMux_request [OF _ _ mux_containers, of "cid # rest"] parts_of_request [of "cid # rest" "''/v1/containers''" "''v1''" "''containers''" meth]
  by (simp_all add: rooted_path_def)

lemma MatchSegments_one [simp]: "MatchSegments [a] [p] \<longleftrightarrow> p = ''*'' \<or> p = a" "MatchSegments [] [p] \<longleftrightarrow> False"
  by (auto simp: MatchSegments_def)

definition container_table :: "(string list \<times> string \<times> container_op) list" where
  "container_table =
     [([''logs''], ''GET'', ContainerLogs), ([''inspect''], ''GET'', ContainerInspect), ([''mounts''], ''GET'', ContainerMounts),
      ([''files''], ''GET'', ContainerFiles), ([''exec''], ''GET'', ContainerExecWebSocket), ([''exec''], ''POST'', ContainerExecOnce),
      ([''stats''], ''GET'', ContainerStatsGet), ([''start''], ''POST'', ContainerStart), ([''stop''], ''POST'', ContainerStop),
      ([''restart''], ''POST'', ContainerRestart), ([], ''DELETE'', ContainerDelete)]"

text \<open>
  Every operation on a container is reached under its path and method, for every identifier that is one path segment;
  any other method on these paths is refused and runs nothing.
\<close>

theorem container_requests:
  assumes "plain_seg cid" "list_all plain_seg rest" "meth \<noteq> ''OPTIONS''"
  shows "ServeMux (mux_routes serve) (request meth (''v1'' # ''containers'' # cid # rest)) s =
    (case find (\<lambda>(r, m, op). r = rest \<and> m = meth) container_table of
       Some (_, _, op) \<Rightarrow> serve (OnContainer op cid) (request meth (''v1'' # ''containers'' # cid # rest)) s
     | None \<Rightarrow> (WriteError 405 ''method not allowed'', s))"
proof -
  have "cid \<noteq> ''''" using assms(1) by (simp add: plain_seg_def)
  then have serve: "ServeMux (mux_routes serve) (request meth (''v1'' # ''containers'' # cid # rest)) s =
      (case first_route (container_routes serve) rest meth of
         Some rt \<Rightarrow> route_Handler rt (cid # rest) (request meth (''v1'' # ''containers'' # cid # rest)) s
       | None \<Rightarrow> if rest = [] \<and> meth = ''DELETE'' then serve (OnContainer ContainerDelete cid) (request meth (''v1'' # ''containers'' # cid # rest)) s
           else (WriteError 405 ''method not allowed'', s))"
    unfolding container_dispatch(1) [OF assms(1,2)] handleContainerAction_def
    using assms(3) by (simp add: ServeRoutes_def container_dispatch(2) [OF assms(1,2)] MethodNotAllowed_def split: option.split)
  consider "rest = []" | a where "rest = [a]" | a b r where "rest = a # b # r" by (metis list.exhaust)
  then show ?thesis
  proof cases
    case (2 a)
    show ?thesis
    proof (cases "a \<in> {''logs'', ''inspect'', ''mounts'', ''files'', ''exec'', ''stats'', ''start'', ''stop'', ''restart''}")
      case True
      then show ?thesis using assms(3) unfolding serve unfolding 2
        by (elim insertE emptyE) (simp_all add: container_routes_def container_table_def route_def ServeMethods_def MethodNotAllowed_def)
    next
      case False
      then have "\<forall>x \<in> {''logs'', ''inspect'', ''mounts'', ''files'', ''exec'', ''stats'', ''start'', ''stop'', ''restart''}. x \<noteq> a" by blast
      then show ?thesis unfolding serve unfolding 2 by (simp add: container_routes_def container_table_def route_def)
    qed
  next
    case 1
    show ?thesis unfolding serve unfolding 1 by (simp add: container_routes_def container_table_def route_def)
  next
    case (3 a b r)
    show ?thesis unfolding serve unfolding 3 by (simp add: container_routes_def container_table_def route_def MatchSegments_def)
  qed
qed

text \<open>Handlers that answer which endpoint they are.\<close>

definition echo :: "(unit, endpoint) serving" where
  "echo ep r s = (WriteJSON 200 ep, s)"

theorem container_requests_witness:
  "ServeMux (mux_routes echo) (request ''POST'' [''v1'', ''containers'', ''web'', ''stop'']) ()
     = (WriteJSON 200 (OnContainer ContainerStop ''web''), ())"
proof -
  have "plain_seg ''web''" "list_all plain_seg [''stop'']" by (simp_all add: plain_seg_def)
  from container_requests [OF this, of "''POST''" echo "()"] show ?thesis by (simp add: container_table_def echo_def)
qed

text \<open>
  An image whose reference is \<open>run\<close> cannot be deleted: its path is that of another operation.
\<close>

lemma image_named_run_stays:
  "ServeMux (mux_routes serve) (request ''DELETE'' [''v1'', ''images'', ''run'']) s = (WriteError 405 ''method not allowed'', s)"
proof -
  have "list_all plain_seg [''v1'', ''images'', ''run'']" by (simp add: plain_seg_def)
  moreover have "mux_find (mux_routes serve) (rooted_path [''v1'', ''images'', ''run'']) = Some (''/v1/images/'', handleImageSubpath serve)"
    by (simp add: mux_eval suffix_def)
  ultimately have "ServeMux (mux_routes serve) (request ''DELETE'' [''v1'', ''images'', ''run'']) s
      = handleImageSubpath serve (request ''DELETE'' [''v1'', ''images'', ''run'']) s"
    by (intro ServeMux_request) simp_all
  moreover have "TrimSlash (TrimPrefix (rooted_path [''v1'', ''images'', ''run'']) (TrimSuffix ''/v1/images/'' ''/'')) = ''run''" by code_simp
  ultimately show ?thesis
    by (simp add: handleImageSubpath_def ServePrefix_def Let_def ServeMethods_def only_def MethodNotAllowed_def)
qed

section \<open>Facts about the chain\<close>

lemma Handler_unfold:
  "Handler write_line ol panics serve origin r s =
     (let allow = (if IsLocalOrigin ol origin then Some origin else None); (resp, s1) = ServeMux (mux_routes serve) r s in
      if req_Method r = ''OPTIONS'' then ((allow, Some (Response 204 NoBody)), s)
      else if panics r s then ((allow, Some (WriteError 500 ''internal server error'')), s1)
      else ((allow, Some resp), write_line (req_Method r, req_Path r, resp_status resp) s1))"
  by (simp add: Handler_def Chain_def CORS_def Recovery_def Logging_def plain_http_def Let_def split: prod.splits)

text \<open>
  Every request is answered, also when its handler panics, and only a page of the local machine may read the answer:
  the header that allows it is set for local origins and no others.
\<close>

theorem only_local_pages_read:
  "\<exists>resp. fst (Handler write_line ol panics serve origin r s) = (if IsLocalOrigin ol origin then Some origin else None, Some resp)"
  by (auto simp: Handler_unfold Let_def split: prod.splits)

text \<open>A request from any other page is carried out all the same.\<close>

lemma remote_requests_act:
  "req_Method r \<noteq> ''OPTIONS'' \<Longrightarrow> \<not> panics r s \<Longrightarrow> \<not> IsLocalOrigin ol origin \<Longrightarrow>
    snd (Handler (\<lambda>_. id) ol panics serve origin r s) = snd (ServeMux (mux_routes serve) r s)"
  by (simp add: Handler_unfold Let_def split: prod.splits)

section \<open>Facts about the handlers\<close>

lemma Forget_Samples:
  assumes "order_ok order"
  shows "Samples order cid (Forget cid h) = []"
proof -
  let ?c = "TrimSpace cid"
  let ?kept = "filter (\<lambda>(key, _). \<not> containerIDMatch key ?c) (sh_byID h)"
  have none: "\<not> containerIDMatch key ?c" if "key \<in> set (map fst ?kept)" for key using that by auto
  have "containerIDMatch ?c ?c" by (simp add: containerIDMatch_def)
  then have "?c \<notin> set (map fst ?kept)" using none by blast
  moreover have "find (\<lambda>key. containerIDMatch key ?c) (order (map fst ?kept)) = None"
    using none assms unfolding find_None_iff order_ok_def by metis
  ultimately show ?thesis by (simp add: Samples_def Forget_def resolveKeyLocked_def Let_def)
qed

text \<open>
  When a container was deleted, its statistics are forgotten: no later request shows samples for it, until it is
  sampled again.
\<close>

theorem deleted_container_has_no_samples:
  assumes "order_ok (gv_order env)" "handleContainerDelete env cid g = (Response 200 body, g1)"
    and "gw_stats g2 = gw_stats g1" "handleContainerStats env cid g2 = (Response 200 (Value (Stats_now now samples)), g3)"
  shows "samples = []"
proof -
  have "gw_stats g1 = Forget cid (gw_stats g)"
    using assms(2) by (auto simp: handleContainerDelete_def onCore_def WriteOK_def WriteRuntimeOrFail_def WriteRuntimeError_def WriteError_def Let_def
        split: prod.splits option.splits if_splits)
  moreover have "samples = Samples (gv_order env) cid (gw_stats g2)"
    using assms(4) by (auto simp: handleContainerStats_def onCore_def WriteJSON_def WriteRuntimeOrFail_def WriteRuntimeError_def WriteError_def Let_def
        split: prod.splits sum.splits option.splits if_splits)
  ultimately show ?thesis using assms(1,3) Forget_Samples by metis
qed


definition demo_runtime :: "unit Runtime" where
  "demo_runtime = (Unsupported_Runtime (NewUnsupported '''' ''''))\<lparr>rt_RemoveContainer := \<lambda>_. Pair None, rt_ContainerStats := \<lambda>_. Pair (Inr zero_stats)\<rparr>"

definition demo_gateway :: "unit GwEnv" where
  "demo_gateway = \<lparr>gv_engine = \<lparr>en_Runtime = demo_runtime, en_UseProxy = id\<rparr>, gv_Ensure = Pair None, gv_order = id,
     gv_Inspect = (\<lambda>_. Pair (Inr '''')), gv_Mounts = (\<lambda>_. Pair (Inr [])), gv_Exec = (\<lambda>_ _. Pair ('''', None))\<rparr>"

definition demo_gw :: "unit Gw" where
  "demo_gw = \<lparr>gw_core = \<lparr>co_active = False, co_idleAt = 0, co_snapshot = \<lparr>sn_containers = [], sn_images = [], sn_volumes = [], sn_networks = []\<rparr>,
       co_world = ()\<rparr>, gw_stats = Append id ''web'' zero_stats 1 (newStatsHistory 60)\<rparr>"

theorem deleted_container_has_no_samples_witness:
  "Samples id ''web'' (gw_stats demo_gw) \<noteq> []
   \<and> fst (handleContainerStats demo_gateway ''web'' (snd (handleContainerDelete demo_gateway ''web'' demo_gw))) = WriteJSON 200 (Stats_now zero_stats [])"
proof -
  let ?g = "snd (handleContainerDelete demo_gateway ''web'' demo_gw)"
  have d: "fst (handleContainerDelete demo_gateway ''web'' demo_gw) = Response 200 OkBody" by code_simp
  obtain samples where s: "fst (handleContainerStats demo_gateway ''web'' ?g) = Response 200 (Value (Stats_now zero_stats samples))"
    by (auto simp: handleContainerStats_def onCore_def call_def rt_of_def demo_gateway_def demo_runtime_def WriteJSON_def)
  have "samples = []"
    by (rule deleted_container_has_no_samples [of demo_gateway "''web''" demo_gw OkBody ?g ?g zero_stats samples])
      (use d s in \<open>auto simp: demo_gateway_def order_ok_def intro: prod_eqI\<close>)
  moreover have "Samples id ''web'' (gw_stats demo_gw) \<noteq> []" by code_simp
  ultimately show ?thesis using s by (simp add: WriteJSON_def)
qed

end
