(* ===== verification/Calf_Login.thy ===== *)
theory Calf_Login
  imports Calf_Cli Calf_Strings
begin

text \<open>
  Signing in to Docker Hub: what the credential files say (\<open>runtime/registry.go\<close>), the device flow of
  \<open>oauth/dockerhub/device.go\<close> and the login sessions of \<open>daemon/registry_login.go\<close> with the goroutine that completes
  them.  JSON texts are decoded by arguments; so is the exchange of HTTP requests.
\<close>

section \<open>Credentials on disk\<close>

record dockerConfigFile =
  df_Auths :: "(string \<times> string) list"
  df_CredsStore :: string
  df_CredHelpers :: "(string \<times> string) list"

definition DefaultRegistryServer :: string where "DefaultRegistryServer = ''docker.io''"

text \<open>\<open>base64\<close>: an alphabet, and whether the text is padded; line breaks are skipped.\<close>

definition b64_char :: "char \<Rightarrow> char \<Rightarrow> char \<Rightarrow> nat option" where
  "b64_char c62 c63 c =
     (let n = of_char c in
      if CHR ''A'' \<le> c \<and> c \<le> CHR ''Z'' then Some (n - 65)
      else if CHR ''a'' \<le> c \<and> c \<le> CHR ''z'' then Some (n - 71)
      else if is_digit c then Some (n + 4)
      else if c = c62 then Some 62 else if c = c63 then Some 63 else None)"

fun b64_quads :: "bool \<Rightarrow> (char \<Rightarrow> nat option) \<Rightarrow> string \<Rightarrow> string option" where
  "b64_quads padded val [] = Some []"
| "b64_quads padded val [a] = None"
| "b64_quads padded val [a, b] =
     (case (val a, val b) of
        (Some x, Some y) \<Rightarrow> if padded then None else Some [char_of (x * 4 + y div 16)]
      | _ \<Rightarrow> None)"
| "b64_quads padded val [a, b, c] =
     (case (val a, val b, val c) of
        (Some x, Some y, Some z) \<Rightarrow> if padded then None else Some [char_of (x * 4 + y div 16), char_of (y mod 16 * 16 + z div 4)]
      | _ \<Rightarrow> None)"
| "b64_quads padded val (a # b # c # d # s) =
     (case (val a, val b, val c, val d) of
        (Some x, Some y, Some z, Some u) \<Rightarrow>
          map_option (\<lambda>r. char_of (x * 4 + y div 16) # char_of (y mod 16 * 16 + z div 4) # char_of (z mod 4 * 64 + u) # r)
            (b64_quads padded val s)
      | (Some x, Some y, Some z, None) \<Rightarrow>
          if padded \<and> d = CHR ''='' \<and> s = [] then Some [char_of (x * 4 + y div 16), char_of (y mod 16 * 16 + z div 4)] else None
      | (Some x, Some y, None, None) \<Rightarrow>
          if padded \<and> c = CHR ''='' \<and> d = CHR ''='' \<and> s = [] then Some [char_of (x * 4 + y div 16)] else None
      | _ \<Rightarrow> None)"

definition without_breaks :: "string \<Rightarrow> string" where
  "without_breaks s = filter (\<lambda>c. c \<noteq> newline \<and> c \<noteq> cr) s"

definition StdEncoding_Decode :: "string \<Rightarrow> string option" where
  "StdEncoding_Decode s = b64_quads True (b64_char (CHR ''+'') (CHR ''/'')) (without_breaks s)"

definition RawURLEncoding_Decode :: "string \<Rightarrow> string option" where
  "RawURLEncoding_Decode s = b64_quads False (b64_char (CHR ''-'') (CHR ''_'')) (without_breaks s)"

text \<open>The result is the name and whether there is an entry; an entry without a readable name counts.\<close>

definition dockerConfigAuthUsername :: "string \<Rightarrow> string option" where
  "dockerConfigAuthUsername auth =
     (if TrimSpace auth = '''' then None
      else case StdEncoding_Decode auth of
        None \<Rightarrow> Some ''''
      | Some decoded \<Rightarrow> Some (hd (SplitN 2 decoded (CHR '':''))))"

definition auth_of :: "dockerConfigFile \<Rightarrow> string \<Rightarrow> string" where
  "auth_of cfg key = (case map_of (df_Auths cfg) key of Some a \<Rightarrow> a | None \<Rightarrow> '''')"

fun first_some :: "('a \<Rightarrow> 'b option) \<Rightarrow> 'a list \<Rightarrow> 'b option" where
  "first_some f [] = None"
| "first_some f (x # xs) = (case f x of Some y \<Rightarrow> Some y | None \<Rightarrow> first_some f xs)"

text \<open>The entries of the file are a Go map: the list has them in the order in which they are visited.\<close>

definition dockerConfigCredentials :: "(string \<Rightarrow> dockerConfigFile option) \<Rightarrow> string \<Rightarrow> string option" where
  "dockerConfigCredentials decode output =
     (case decode output of
        None \<Rightarrow> None
      | Some cfg \<Rightarrow>
          (case first_some (\<lambda>key. dockerConfigAuthUsername (auth_of cfg key)) DockerHubRegistryKeys of
             Some username \<Rightarrow> Some username
           | None \<Rightarrow>
               first_some (\<lambda>(key, auth). if Contains key DefaultRegistryServer then dockerConfigAuthUsername auth else None) (df_Auths cfg)))"

definition loggedOut :: RegistryStatus where
  "loggedOut = \<lparr>rs_LoggedIn = False, rs_Server = DefaultRegistryServer, rs_Username = ''''\<rparr>"

definition loggedInAs :: "string \<Rightarrow> RegistryStatus" where
  "loggedInAs username = \<lparr>rs_LoggedIn = True, rs_Server = DefaultRegistryServer, rs_Username = username\<rparr>"

definition RegistryStatusFromConfig :: "(string \<Rightarrow> dockerConfigFile option) \<Rightarrow> string \<Rightarrow> RegistryStatus" where
  "RegistryStatusFromConfig decode output =
     (case dockerConfigCredentials decode output of Some username \<Rightarrow> loggedInAs username | None \<Rightarrow> loggedOut)"

definition isSafeCredentialHelperName :: "string \<Rightarrow> bool" where
  "isSafeCredentialHelperName name \<longleftrightarrow>
     name \<noteq> '''' \<and> list_all (\<lambda>c. is_letter c \<or> is_digit c \<or> c = CHR ''-'' \<or> c = CHR ''_'') name"

definition ParseCredentialHelperUsername :: "(string \<Rightarrow> string option) \<Rightarrow> string \<Rightarrow> string option" where
  "ParseCredentialHelperUsername decode output =
     (case decode output of
        None \<Rightarrow> None
      | Some raw \<Rightarrow> let username = TrimSpace raw in if username = '''' then None else Some username)"

definition lookupCredentialUsername ::
    "(string \<Rightarrow> string option) \<Rightarrow> (string \<Rightarrow> 'w runner) \<Rightarrow> string \<Rightarrow> string \<Rightarrow> 'w \<Rightarrow> string option \<times> 'w" where
  "lookupCredentialUsername decode runWithStdin helper0 serverURL w =
     (let helper = TrimSpace helper0 in
      if \<not> isSafeCredentialHelperName helper then (None, w)
      else case runWithStdin (serverURL @ [newline]) [''docker-credential-'' @ helper, ''get''] w of
        (Inl _, w1) \<Rightarrow> (None, w1)
      | (Inr output, w1) \<Rightarrow> (ParseCredentialHelperUsername decode output, w1))"

definition credentialHelperFor :: "dockerConfigFile \<Rightarrow> string \<Rightarrow> string" where
  "credentialHelperFor cfg registryKey =
     (let fromStore = (if map_of (df_Auths cfg) registryKey \<noteq> None then TrimSpace (df_CredsStore cfg) else '''') in
      case map_of (df_CredHelpers cfg) registryKey of
        Some helper \<Rightarrow> if TrimSpace helper \<noteq> '''' then TrimSpace helper else fromStore
      | None \<Rightarrow> fromStore)"

fun helper_loop ::
    "(string \<Rightarrow> string \<Rightarrow> 'w \<Rightarrow> string option \<times> 'w) \<Rightarrow> dockerConfigFile \<Rightarrow> string list \<Rightarrow> 'w \<Rightarrow> RegistryStatus \<times> 'w" where
  "helper_loop look cfg [] w = (loggedOut, w)"
| "helper_loop look cfg (key # keys) w =
     (let helper = credentialHelperFor cfg key in
      if helper = '''' then helper_loop look cfg keys w
      else case look helper key w of
        (None, w1) \<Rightarrow> helper_loop look cfg keys w1
      | (Some username, w1) \<Rightarrow> (loggedInAs username, w1))"

definition RegistryStatusFromCredentialHelpers ::
    "(string \<Rightarrow> dockerConfigFile option) \<Rightarrow> string \<Rightarrow> (string \<Rightarrow> string \<Rightarrow> 'w \<Rightarrow> string option \<times> 'w) \<Rightarrow> 'w \<Rightarrow> RegistryStatus \<times> 'w" where
  "RegistryStatusFromCredentialHelpers decode output look w =
     (case decode output of None \<Rightarrow> (loggedOut, w) | Some cfg \<Rightarrow> helper_loop look cfg DockerHubRegistryKeys w)"

fun registryStatus ::
    "(string \<Rightarrow> dockerConfigFile option) \<Rightarrow> (string \<Rightarrow> string option) \<Rightarrow> 'w runner \<Rightarrow> (string \<Rightarrow> 'w runner) option \<Rightarrow> string list \<Rightarrow> 'w
      \<Rightarrow> RegistryStatus \<times> 'w" where
  "registryStatus decode decodeHelper run stdinRun [] w = (loggedOut, w)"
| "registryStatus decode decodeHelper run stdinRun (path # paths) w =
     (case run [''cat'', path] w of
        (Inl _, w1) \<Rightarrow> registryStatus decode decodeHelper run stdinRun paths w1
      | (Inr output, w1) \<Rightarrow>
          if rs_LoggedIn (RegistryStatusFromConfig decode output) then (RegistryStatusFromConfig decode output, w1)
          else case stdinRun of
            None \<Rightarrow> registryStatus decode decodeHelper run stdinRun paths w1
          | Some runWithStdin \<Rightarrow>
              (case RegistryStatusFromCredentialHelpers decode output (lookupCredentialUsername decodeHelper runWithStdin) w1 of
                 (parsed, w2) \<Rightarrow> if rs_LoggedIn parsed then (parsed, w2) else registryStatus decode decodeHelper run stdinRun paths w2))"

section \<open>The device flow\<close>

record DeviceCode =
  dv_DeviceCode :: string
  dv_UserCode :: string
  dv_VerificationURI :: string
  dv_ExpiresIn :: int
  dv_Interval :: int

record tokenResponse =
  tk_AccessToken :: string
  tk_Error :: "string option"
  tk_ErrorDescription :: string

text \<open>A response: status code, status line and body.  \<open>oa_error\<close> gives the two fields of an error document, blank when not there.\<close>

record httpResponse =
  hr_StatusCode :: nat
  hr_Status :: string
  hr_Body :: string

record oauthlib =
  oa_device :: "string \<Rightarrow> DeviceCode result"
  oa_token :: "string \<Rightarrow> tokenResponse result"
  oa_pat :: "string \<Rightarrow> string result"
  oa_claims :: "string \<Rightarrow> string result"
  oa_error :: "string \<Rightarrow> (string \<times> string) option"

text \<open>What is sent: the URL, the form body and the bearer token.\<close>

type_synonym 'w exchange = "string \<times> string \<times> string \<Rightarrow> 'w \<Rightarrow> httpResponse result \<times> 'w"

definition hex_char :: "nat \<Rightarrow> char" where
  "hex_char d = (if d < 10 then char_of (48 + d) else char_of (55 + d))"

definition QueryEscape :: "string \<Rightarrow> string" where
  "QueryEscape s = concat (map (\<lambda>c.
     if is_letter c \<or> is_digit c \<or> c \<in> {CHR ''-'', CHR ''_'', CHR ''.'', CHR ''~''} then [c]
     else if c = CHR '' '' then ''+''
     else [CHR ''%'', hex_char (of_char c div 16), hex_char (of_char c mod 16)]) s)"

text \<open>\<open>url.Values.Encode\<close> of values whose keys are given in order.\<close>

definition Values_Encode :: "(string \<times> string) list \<Rightarrow> string" where
  "Values_Encode vs = Join (map (\<lambda>(k, v). QueryEscape k @ ''='' @ QueryEscape v) vs) ''&''"

definition DockerHubOAuthTenantURL :: string where "DockerHubOAuthTenantURL = ''https://login.docker.com''"

definition DockerHubOAuthAudience :: string where "DockerHubOAuthAudience = ''https://hub.docker.com''"

definition DockerHubOAuthClientID :: string where "DockerHubOAuthClientID = ''L4v0dmlNBpYUjGGab0C2JtgTgXr1Qz4d''"

definition decodeOAuthError :: "oauthlib \<Rightarrow> httpResponse \<Rightarrow> go_error" where
  "decodeOAuthError oa resp =
     (let failed = Errorf (''oauth request failed: '' @ hr_Status resp) in
      case oa_error oa (hr_Body resp) of
        None \<Rightarrow> failed
      | Some (description, err) \<Rightarrow> if description \<noteq> '''' then Errorf description else if err \<noteq> '''' then Errorf err else failed)"

definition StartDeviceLogin :: "oauthlib \<Rightarrow> 'w exchange \<Rightarrow> 'w \<Rightarrow> DeviceCode result \<times> 'w" where
  "StartDeviceLogin oa http w =
     (case http (DockerHubOAuthTenantURL @ ''/oauth/device/code'',
          Values_Encode [(''audience'', DockerHubOAuthAudience), (''client_id'', DockerHubOAuthClientID), (''scope'', ''openid offline_access'')], '''') w of
        (Inl err, w1) \<Rightarrow> (Inl err, w1)
      | (Inr resp, w1) \<Rightarrow>
          if hr_StatusCode resp \<noteq> 200 then (Inl (decodeOAuthError oa resp), w1)
          else case oa_device oa (hr_Body resp) of
            Inl err \<Rightarrow> (Inl (Wrap ''decode device code'' err), w1)
          | Inr state \<Rightarrow>
              if dv_UserCode state = '''' \<or> dv_DeviceCode state = '''' then (Inl (Errorf ''device login did not return a user code''), w1)
              else (Inr state, w1))"

text \<open>The result is a token, or \<open>None\<close> while the user has not decided.\<close>

definition pollDeviceToken :: "oauthlib \<Rightarrow> 'w exchange \<Rightarrow> string \<Rightarrow> 'w \<Rightarrow> string option result \<times> 'w" where
  "pollDeviceToken oa http deviceCode w =
     (case http (DockerHubOAuthTenantURL @ ''/oauth/token'',
          Values_Encode [(''client_id'', DockerHubOAuthClientID), (''device_code'', deviceCode),
            (''grant_type'', ''urn:ietf:params:oauth:grant-type:device_code'')], '''') w of
        (Inl err, w1) \<Rightarrow> (Inl err, w1)
      | (Inr resp, w1) \<Rightarrow>
          (case oa_token oa (hr_Body resp) of
             Inl err \<Rightarrow> (Inl (Wrap ''decode token response'' err), w1)
           | Inr res \<Rightarrow>
               (case tk_Error res of
                  Some e \<Rightarrow>
                    (if e = ''authorization_pending'' then Inr None
                     else if tk_ErrorDescription res \<noteq> '''' then Inl (Errorf (tk_ErrorDescription res))
                     else Inl (Errorf e), w1)
                | None \<Rightarrow> (if tk_AccessToken res = '''' then Inl (Errorf ''missing access token'') else Inr (Some (tk_AccessToken res)), w1))))"

definition ErrDeviceLoginTimeout :: go_error where "ErrDeviceLoginTimeout = Errorf ''timed out waiting for browser login''"

text \<open>
  \<open>WaitForDeviceToken\<close>: what the \<open>select\<close> finds each time, and the fuel that bounds the number of times.
\<close>

datatype waking = CtxDone go_error | TimedOut | Tick

fun WaitForDeviceToken :: "nat \<Rightarrow> oauthlib \<Rightarrow> 'w exchange \<Rightarrow> ('w \<Rightarrow> waking \<times> 'w) \<Rightarrow> string \<Rightarrow> 'w \<Rightarrow> (string result \<times> 'w) option" where
  "WaitForDeviceToken 0 oa http await deviceCode w = None"
| "WaitForDeviceToken (Suc n) oa http await deviceCode w =
     (case await w of
        (CtxDone err, w1) \<Rightarrow> Some (Inl err, w1)
      | (TimedOut, w1) \<Rightarrow> Some (Inl ErrDeviceLoginTimeout, w1)
      | (Tick, w1) \<Rightarrow>
          (case pollDeviceToken oa http deviceCode w1 of
             (Inl err, w2) \<Rightarrow> Some (Inl err, w2)
           | (Inr None, w2) \<Rightarrow> WaitForDeviceToken n oa http await deviceCode w2
           | (Inr (Some token), w2) \<Rightarrow> Some (Inr token, w2)))"

definition GeneratePAT :: "oauthlib \<Rightarrow> 'w exchange \<Rightarrow> string \<Rightarrow> 'w \<Rightarrow> string result \<times> 'w" where
  "GeneratePAT oa http accessToken w =
     (case http (DockerHubOAuthAudience @ ''/v2/access-tokens/desktop-generate'', '''', accessToken) w of
        (Inl err, w1) \<Rightarrow> (Inl err, w1)
      | (Inr resp, w1) \<Rightarrow>
          if hr_StatusCode resp \<noteq> 201 then (Inl (decodeOAuthError oa resp), w1)
          else case oa_pat oa (hr_Body resp) of
            Inl err \<Rightarrow> (Inl (Wrap ''decode PAT response'' err), w1)
          | Inr token \<Rightarrow> (if token = '''' then Inl (Errorf ''missing personal access token'') else Inr token, w1))"

definition UsernameFromAccessToken :: "oauthlib \<Rightarrow> string \<Rightarrow> string result" where
  "UsernameFromAccessToken oa accessToken =
     (let parts = Split accessToken (CHR ''.'') in
      if length parts < 2 then Inl (Errorf ''invalid access token'')
      else case RawURLEncoding_Decode (parts ! 1) of
        None \<Rightarrow> Inl (Wrap ''decode access token claims'' (Errorf ''illegal base64 data''))
      | Some payload \<Rightarrow>
          (case oa_claims oa payload of
             Inl err \<Rightarrow> Inl (Wrap ''parse access token claims'' err)
           | Inr username \<Rightarrow> if username \<noteq> '''' then Inr username else Inl (Errorf ''username not found in access token'')))"

section \<open>Login sessions (registry\_login.go)\<close>

record loginSession =
  ls_status :: string
  ls_userCode :: string
  ls_verificationURL :: string
  ls_username :: string
  ls_err :: string

text \<open>How far the goroutine of a session is.\<close>

datatype stage =
    Waiting
  | GotToken string
  | GotUsername string string
  | SavingAs string string
  | EngineReady string string
  | LoggedIn string
  | Finished

text \<open>
  The sessions by identifier (the objects outlive their entry in the map, which \<open>lg_tracked\<close> is), the goroutines, the
  contexts that were cancelled, and the logins the runtime has carried out.
\<close>

record logins =
  lg_tracked :: "string set"
  lg_session :: "string \<rightharpoonup> loginSession"
  lg_stage :: "string \<rightharpoonup> stage"
  lg_canceled :: "string set"
  lg_stored :: "(string \<times> string) set"

definition defaultDeviceLoginExpiresInSeconds :: int where "defaultDeviceLoginExpiresInSeconds = 900"

record RegistryDeviceLoginStart =
  st_SessionID :: string
  st_UserCode :: string
  st_VerificationURL :: string
  st_ExpiresIn :: int

definition StartRegistryDeviceLogin :: "string \<Rightarrow> DeviceCode result \<Rightarrow> logins \<Rightarrow> RegistryDeviceLoginStart result \<times> logins" where
  "StartRegistryDeviceLogin sid answer lg =
     (case answer of
        Inl err \<Rightarrow> (Inl err, lg)
      | Inr state \<Rightarrow>
          let expiresIn = (if dv_ExpiresIn state \<le> 0 then defaultDeviceLoginExpiresInSeconds else dv_ExpiresIn state);
              session = \<lparr>ls_status = ''pending'', ls_userCode = dv_UserCode state, ls_verificationURL = dv_VerificationURI state,
                         ls_username = '''', ls_err = ''''\<rparr>
          in (Inr \<lparr>st_SessionID = sid, st_UserCode = dv_UserCode state, st_VerificationURL = dv_VerificationURI state, st_ExpiresIn = expiresIn\<rparr>,
              lg\<lparr>lg_tracked := insert sid (lg_tracked lg), lg_session := (lg_session lg)(sid \<mapsto> session), lg_stage := (lg_stage lg)(sid \<mapsto> Waiting)\<rparr>))"

definition RegistryDeviceLoginStatus :: "string \<Rightarrow> logins \<Rightarrow> (string \<times> string \<times> string) option" where
  "RegistryDeviceLoginStatus sid lg =
     (if sid \<notin> lg_tracked lg then None else map_option (\<lambda>s. (ls_status s, ls_username s, ls_err s)) (lg_session lg sid))"

definition upd_session :: "string \<Rightarrow> (loginSession \<Rightarrow> loginSession) \<Rightarrow> logins \<Rightarrow> logins" where
  "upd_session sid f lg = lg\<lparr>lg_session := (lg_session lg)(sid := map_option f (lg_session lg sid))\<rparr>"

definition CancelRegistryDeviceLogin :: "string \<Rightarrow> logins \<Rightarrow> bool \<times> logins" where
  "CancelRegistryDeviceLogin sid lg =
     (if sid \<notin> lg_tracked lg then (False, lg)
      else let lg1 = upd_session sid (\<lambda>s. s\<lparr>ls_status := ''cancelled''\<rparr>) lg
           in (True, lg1\<lparr>lg_canceled := insert sid (lg_canceled lg1), lg_tracked := lg_tracked lg1 - {sid}\<rparr>))"

definition stopRegistryLoginSessions :: "logins \<Rightarrow> logins" where
  "stopRegistryLoginSessions lg = lg\<lparr>lg_canceled := lg_canceled lg \<union> lg_tracked lg, lg_tracked := {}\<rparr>"

text \<open>The sections of \<open>completeRegistryDeviceLogin\<close> under the lock of the session; each ends a stage.\<close>

definition at_stage :: "string \<Rightarrow> stage \<Rightarrow> logins \<Rightarrow> logins" where
  "at_stage sid st lg = lg\<lparr>lg_stage := (lg_stage lg)(sid \<mapsto> st)\<rparr>"

definition finished :: "string \<Rightarrow> logins \<Rightarrow> logins" where
  "finished sid lg = at_stage sid Finished (lg\<lparr>lg_canceled := insert sid (lg_canceled lg)\<rparr>)"

definition setFailed :: "string \<Rightarrow> string \<Rightarrow> logins \<Rightarrow> logins" where
  "setFailed sid message lg = finished sid (upd_session sid (\<lambda>s. s\<lparr>ls_status := ''failed'', ls_err := message\<rparr>) lg)"

definition tokenFailed :: "string \<Rightarrow> go_error \<Rightarrow> logins \<Rightarrow> logins" where
  "tokenFailed sid err lg =
     (let status = (if err = Sentinel DeadlineExceeded \<or> err = ErrDeviceLoginTimeout then ''expired'' else ''failed'')
      in finished sid (upd_session sid (\<lambda>s. s\<lparr>ls_status := status, ls_err := Error err\<rparr>) lg))"

definition saving :: "string \<Rightarrow> string \<Rightarrow> string \<Rightarrow> logins \<Rightarrow> logins" where
  "saving sid username pat lg = at_stage sid (SavingAs username pat) (upd_session sid (\<lambda>s. s\<lparr>ls_status := ''saving'', ls_username := username\<rparr>) lg)"

definition stored :: "string \<Rightarrow> string \<Rightarrow> logins \<Rightarrow> logins" where
  "stored sid username lg = at_stage sid (LoggedIn username) (lg\<lparr>lg_stored := insert (sid, username) (lg_stored lg)\<rparr>)"

definition completed :: "string \<Rightarrow> string \<Rightarrow> logins \<Rightarrow> logins" where
  "completed sid username lg = finished sid (upd_session sid (\<lambda>s. s\<lparr>ls_status := ''complete'', ls_username := username\<rparr>) lg)"

definition cleanup :: "string \<Rightarrow> logins \<Rightarrow> logins" where
  "cleanup sid lg = lg\<lparr>lg_tracked := lg_tracked lg - {sid}\<rparr>"

text \<open>
  Steps of the daemon.  Identifiers are drawn at random and taken to be new.  \<open>sent\<close> is the password the runtime is
  called with.
\<close>

inductive lstep :: "oauthlib \<Rightarrow> logins \<Rightarrow> logins \<Rightarrow> bool" for oa where
  l_start: "lg_session lg sid = None \<Longrightarrow> lstep oa lg (snd (StartRegistryDeviceLogin sid answer lg))"
| l_no_token: "lg_stage lg sid = Some Waiting \<Longrightarrow> lstep oa lg (tokenFailed sid err lg)"
| l_token: "lg_stage lg sid = Some Waiting \<Longrightarrow> lstep oa lg (at_stage sid (GotToken token) lg)"
| l_no_name: "lg_stage lg sid = Some (GotToken token) \<Longrightarrow> UsernameFromAccessToken oa token = Inl err \<Longrightarrow> lstep oa lg (setFailed sid (Error err) lg)"
| l_name: "lg_stage lg sid = Some (GotToken token) \<Longrightarrow> UsernameFromAccessToken oa token = Inr username \<Longrightarrow>
    lstep oa lg (at_stage sid (GotUsername token username) lg)"
| l_no_pat: "lg_stage lg sid = Some (GotUsername token username) \<Longrightarrow> lstep oa lg (setFailed sid (Error err) lg)"
| l_pat: "lg_stage lg sid = Some (GotUsername token username) \<Longrightarrow> lstep oa lg (saving sid username pat lg)"
| l_no_engine: "lg_stage lg sid = Some (SavingAs username pat) \<Longrightarrow> lstep oa lg (setFailed sid (Error err) lg)"
| l_engine: "lg_stage lg sid = Some (SavingAs username pat) \<Longrightarrow> lstep oa lg (at_stage sid (EngineReady username pat) lg)"
| l_no_login: "lg_stage lg sid = Some (EngineReady username pat) \<Longrightarrow> lstep oa lg (setFailed sid (Error err) lg)"
| l_login: "lg_stage lg sid = Some (EngineReady username pat) \<Longrightarrow> lstep oa lg (stored sid username lg)"
| l_complete: "lg_stage lg sid = Some (LoggedIn username) \<Longrightarrow> lstep oa lg (completed sid username lg)"
| l_cancel: "lstep oa lg (snd (CancelRegistryDeviceLogin sid lg))"
| l_cleanup: "lg_stage lg sid = Some Finished \<Longrightarrow> lstep oa lg (cleanup sid lg)"
| l_stop: "lstep oa lg (stopRegistryLoginSessions lg)"

definition no_logins :: logins where
  "no_logins = \<lparr>lg_tracked = {}, lg_session = (\<lambda>_. None), lg_stage = (\<lambda>_. None), lg_canceled = {}, lg_stored = {}\<rparr>"

inductive lreachable :: "oauthlib \<Rightarrow> logins \<Rightarrow> bool" for oa where
  lr_init: "lreachable oa no_logins"
| lr_step: "lreachable oa lg \<Longrightarrow> lstep oa lg lg' \<Longrightarrow> lreachable oa lg'"

section \<open>Facts about sessions\<close>

definition over :: "string \<Rightarrow> bool" where
  "over status \<longleftrightarrow> status \<in> {''complete'', ''failed'', ''expired''}"

text \<open>What holds of each session: what it says agrees with how far its goroutine is.\<close>

definition session_ok :: "logins \<Rightarrow> string \<Rightarrow> bool" where
  "session_ok lg sid \<longleftrightarrow>
     (case lg_session lg sid of
        None \<Rightarrow> lg_stage lg sid = None \<and> sid \<notin> lg_tracked lg
      | Some s \<Rightarrow>
          lg_stage lg sid \<noteq> None
          \<and> (over (ls_status s) \<longrightarrow> lg_stage lg sid = Some Finished)
          \<and> (sid \<in> lg_tracked lg \<and> lg_stage lg sid = Some Finished \<longrightarrow> over (ls_status s))
          \<and> (\<forall>u. lg_stage lg sid = Some (LoggedIn u) \<longrightarrow> (sid, u) \<in> lg_stored lg)
          \<and> (ls_status s = ''complete'' \<longrightarrow> (sid, ls_username s) \<in> lg_stored lg))"

lemmas login_defs = StartRegistryDeviceLogin_def CancelRegistryDeviceLogin_def stopRegistryLoginSessions_def upd_session_def at_stage_def
  finished_def setFailed_def tokenFailed_def saving_def stored_def completed_def cleanup_def Let_def

lemma lstep_ok:
  assumes "lstep oa lg lg'" "session_ok lg k"
  shows "session_ok lg' k"
  using assms(1)
proof (cases rule: lstep.cases)
  case (l_start sid answer)
  then show ?thesis using assms(2)
    by (cases answer; cases "k = sid") (auto simp: session_ok_def login_defs over_def split: option.splits if_splits)
next
  case (l_no_token sid err)
  then show ?thesis using assms(2)
    by (cases "k = sid"; cases "lg_session lg k") (auto simp: session_ok_def login_defs over_def)
next
  case (l_token sid token)
  then show ?thesis using assms(2)
    by (cases "k = sid"; cases "lg_session lg k") (auto simp: session_ok_def login_defs over_def)
next
  case (l_no_name sid token err)
  then show ?thesis using assms(2)
    by (cases "k = sid"; cases "lg_session lg k") (auto simp: session_ok_def login_defs over_def)
next
  case (l_name sid token username)
  then show ?thesis using assms(2)
    by (cases "k = sid"; cases "lg_session lg k") (auto simp: session_ok_def login_defs over_def)
next
  case (l_no_pat sid token username err)
  then show ?thesis using assms(2)
    by (cases "k = sid"; cases "lg_session lg k") (auto simp: session_ok_def login_defs over_def)
next
  case (l_pat sid token username pat)
  then show ?thesis using assms(2)
    by (cases "k = sid"; cases "lg_session lg k") (auto simp: session_ok_def login_defs over_def)
next
  case (l_no_engine sid username pat err)
  then show ?thesis using assms(2)
    by (cases "k = sid"; cases "lg_session lg k") (auto simp: session_ok_def login_defs over_def)
next
  case (l_engine sid username pat)
  then show ?thesis using assms(2)
    by (cases "k = sid"; cases "lg_session lg k") (auto simp: session_ok_def login_defs over_def)
next
  case (l_no_login sid username pat err)
  then show ?thesis using assms(2)
    by (cases "k = sid"; cases "lg_session lg k") (auto simp: session_ok_def login_defs over_def)
next
  case (l_login sid username pat)
  then show ?thesis using assms(2)
    by (cases "k = sid"; cases "lg_session lg k") (auto simp: session_ok_def login_defs over_def)
next
  case (l_complete sid username)
  then show ?thesis using assms(2)
    by (cases "k = sid"; cases "lg_session lg k") (auto simp: session_ok_def login_defs over_def)
next
  case (l_cancel sid)
  then show ?thesis using assms(2)
    by (cases "k = sid"; cases "lg_session lg k") (auto simp: session_ok_def login_defs over_def)
next
  case (l_cleanup sid)
  then show ?thesis using assms(2)
    by (cases "k = sid"; cases "lg_session lg k") (auto simp: session_ok_def login_defs over_def)
next
  case l_stop
  then show ?thesis using assms(2)
    by (auto simp: session_ok_def login_defs over_def split: option.splits)
qed

lemma lreachable_ok: "lreachable oa lg \<Longrightarrow> session_ok lg k"
proof (induction rule: lreachable.induct)
  case lr_init
  then show ?case by (simp add: session_ok_def no_logins_def)
next
  case (lr_step lg lg')
  then show ?case using lstep_ok by blast
qed

text \<open>A session whose goroutine has ended changes in one way only: it is no longer reported.\<close>

lemma lstep_over:
  assumes "lstep oa lg lg'" "session_ok lg k" "lg_stage lg k = Some Finished"
  shows "lg_stage lg' k = Some Finished \<and>
    (RegistryDeviceLoginStatus k lg' = RegistryDeviceLoginStatus k lg \<or> RegistryDeviceLoginStatus k lg' = None)"
  using assms(1)
proof (cases rule: lstep.cases)
  case (l_start sid answer)
  then have "sid \<noteq> k" using assms(2,3) by (auto simp: session_ok_def)
  then show ?thesis using l_start assms(3)
    by (cases answer) (auto simp: login_defs RegistryDeviceLoginStatus_def)
next
  case (l_cancel sid)
  then show ?thesis using assms(3) by (auto simp: login_defs RegistryDeviceLoginStatus_def)
qed (use assms(3) in \<open>auto simp: login_defs RegistryDeviceLoginStatus_def\<close>)

lemma unreported_stays:
  assumes "lstep oa lg lg'" "session_ok lg k" "lg_session lg k \<noteq> None" "RegistryDeviceLoginStatus k lg = None"
  shows "lg_session lg' k \<noteq> None \<and> RegistryDeviceLoginStatus k lg' = None"
  using assms(1)
proof (cases rule: lstep.cases)
  case (l_start sid answer)
  then have "sid \<noteq> k" using assms(3) by auto
  then show ?thesis using l_start assms(3,4)
    by (cases answer) (auto simp: login_defs RegistryDeviceLoginStatus_def)
qed (use assms(3,4) in \<open>auto simp: login_defs RegistryDeviceLoginStatus_def split: if_splits\<close>)

definition stays_over :: "string \<Rightarrow> (string \<times> string \<times> string) option \<Rightarrow> logins \<Rightarrow> bool" where
  "stays_over k st lg \<longleftrightarrow> lg_session lg k \<noteq> None \<and> session_ok lg k
     \<and> (RegistryDeviceLoginStatus k lg = None \<or> RegistryDeviceLoginStatus k lg = st \<and> lg_stage lg k = Some Finished)"

lemma settled_step: assumes "lstep oa lg lg'" "stays_over k st lg" shows "stays_over k st lg'"
proof (cases "RegistryDeviceLoginStatus k lg = None")
  case True
  then show ?thesis using assms unreported_stays lstep_ok unfolding stays_over_def by blast
next
  case False
  then have f: "lg_stage lg k = Some Finished" "RegistryDeviceLoginStatus k lg = st" using assms(2) by (auto simp: stays_over_def)
  have "session_ok lg' k" using assms lstep_ok by (auto simp: stays_over_def)
  moreover note lstep_over [OF assms(1) _ f(1)]
  ultimately show ?thesis using assms(2) f by (auto simp: stays_over_def session_ok_def split: option.splits)
qed

section \<open>What a session says is true\<close>

text \<open>
  C13: In every interleaving of logins, cancellations, expiry and shutdown, a session that reports that it is complete names
  the user whose login the runtime has carried out for it.
\<close>

theorem complete_means_logged_in:
  assumes "lreachable oa lg" "RegistryDeviceLoginStatus sid lg = Some (''complete'', username, err)"
  shows "(sid, username) \<in> lg_stored lg"
  using lreachable_ok [OF assms(1), of sid] assms(2)
  by (auto simp: session_ok_def RegistryDeviceLoginStatus_def split: if_splits option.splits)

text \<open>
  A result that was reported is final: when a session has reported that it is complete, has failed or has expired, it
  reports the same ever after, until it is no longer known.
\<close>

theorem login_result_is_final:
  assumes "lreachable oa lg" "RegistryDeviceLoginStatus sid lg = Some (status, username, err)" "over status" "(lstep oa)\<^sup>*\<^sup>* lg lg'"
  shows "RegistryDeviceLoginStatus sid lg' \<in> {Some (status, username, err), None}"
proof -
  have ok: "session_ok lg sid" by (rule lreachable_ok [OF assms(1)])
  then have "stays_over sid (Some (status, username, err)) lg"
    using assms(2,3) by (auto simp: stays_over_def session_ok_def RegistryDeviceLoginStatus_def split: if_splits option.splits)
  with assms(4) have "stays_over sid (Some (status, username, err)) lg'"
    by (induction rule: rtranclp_induct) (auto intro: settled_step)
  then show ?thesis by (auto simp: stays_over_def)
qed


text \<open>A login from beginning to end.\<close>

definition demo_oauth :: oauthlib where
  "demo_oauth = \<lparr>oa_device = (\<lambda>_. Inl (Errorf ''none'')), oa_token = (\<lambda>_. Inl (Errorf ''none'')), oa_pat = Inr, oa_claims = (\<lambda>_. Inr ''ada''),
     oa_error = (\<lambda>_. None)\<rparr>"

definition demo_code :: DeviceCode where
  "demo_code = \<lparr>dv_DeviceCode = ''d'', dv_UserCode = ''ABCD'', dv_VerificationURI = ''https://login'', dv_ExpiresIn = 0, dv_Interval = 5\<rparr>"

definition login_ready :: logins where
  "login_ready = at_stage ''s1'' (EngineReady ''ada'' ''pat'') (saving ''s1'' ''ada'' ''pat'' (at_stage ''s1'' (GotUsername ''a.YQ.b'' ''ada'')
     (at_stage ''s1'' (GotToken ''a.YQ.b'') (snd (StartRegistryDeviceLogin ''s1'' (Inr demo_code) no_logins)))))"

definition login_done :: logins where
  "login_done = completed ''s1'' ''ada'' (stored ''s1'' ''ada'' login_ready)"

lemma login_done_reachable: "lreachable demo_oauth login_done"
proof -
  let ?l1 = "snd (StartRegistryDeviceLogin ''s1'' (Inr demo_code) no_logins)"
  let ?l2 = "at_stage ''s1'' (GotToken ''a.YQ.b'') ?l1"
  let ?l3 = "at_stage ''s1'' (GotUsername ''a.YQ.b'' ''ada'') ?l2"
  let ?l4 = "saving ''s1'' ''ada'' ''pat'' ?l3"
  have u: "UsernameFromAccessToken demo_oauth ''a.YQ.b'' = Inr ''ada''" by code_simp
  have "lreachable demo_oauth ?l1" by (rule lr_step [OF lr_init l_start]) (simp add: no_logins_def)
  then have "lreachable demo_oauth ?l2" by (rule lr_step) (rule l_token, simp add: login_defs)
  then have "lreachable demo_oauth ?l3" by (rule lr_step) (rule l_name, simp add: login_defs, rule u)
  then have "lreachable demo_oauth ?l4" by (rule lr_step) (rule l_pat, simp add: login_defs)
  then have "lreachable demo_oauth login_ready" unfolding login_ready_def by (rule lr_step) (rule l_engine, simp add: login_defs)
  then have "lreachable demo_oauth (stored ''s1'' ''ada'' login_ready)" by (rule lr_step) (rule l_login, simp add: login_ready_def login_defs)
  then show ?thesis unfolding login_done_def by (rule lr_step) (rule l_complete, simp add: login_defs)
qed

lemma login_done_status: "RegistryDeviceLoginStatus ''s1'' login_done = Some (''complete'', ''ada'', '''')"
  by (simp add: RegistryDeviceLoginStatus_def login_done_def login_ready_def login_defs demo_code_def no_logins_def)

theorem complete_means_logged_in_witness: "(''s1'', ''ada'') \<in> lg_stored login_done"
  by (rule complete_means_logged_in [OF login_done_reachable login_done_status])

theorem login_result_is_final_witness:
  "RegistryDeviceLoginStatus ''s1'' (snd (CancelRegistryDeviceLogin ''s1'' login_done)) \<in> {Some (''complete'', ''ada'', ''''), None}"
proof -
  have "(lstep demo_oauth)\<^sup>*\<^sup>* login_done (snd (CancelRegistryDeviceLogin ''s1'' login_done))"
    by (rule r_into_rtranclp, rule l_cancel)
  from login_result_is_final [OF login_done_reachable login_done_status _ this] show ?thesis by (simp add: over_def)
qed

section \<open>Reading credentials back\<close>

text \<open>The standard encoding, as a reference.\<close>

definition b64_digit :: "nat \<Rightarrow> char" where
  "b64_digit n = (if n < 26 then char_of (n + 65) else if n < 52 then char_of (n + 71) else if n < 62 then char_of (n - 4)
     else if n = 62 then CHR ''+'' else CHR ''/'')"

fun b64_encode :: "string \<Rightarrow> string" where
  "b64_encode [] = []"
| "b64_encode [a] = (let x = of_char a in [b64_digit (x div 4), b64_digit (x mod 4 * 16), CHR ''='', CHR ''=''])"
| "b64_encode [a, b] =
     (let x = of_char a; y = of_char b in [b64_digit (x div 4), b64_digit (x mod 4 * 16 + y div 16), b64_digit (y mod 16 * 4), CHR ''=''])"
| "b64_encode (a # b # c # s) =
     (let x = of_char a; y = of_char b; z = of_char c
      in b64_digit (x div 4) # b64_digit (x mod 4 * 16 + y div 16) # b64_digit (y mod 16 * 4 + z div 64) # b64_digit (z mod 64) # b64_encode s)"

abbreviation std_val :: "char \<Rightarrow> nat option" where "std_val \<equiv> b64_char (CHR ''+'') (CHR ''/'')"

lemma std_val_digit: "n < 64 \<Longrightarrow> std_val (b64_digit n) = Some n"
  by (simp add: b64_digit_def b64_char_def less_eq_char_def is_digit_def Let_def) arith

lemma std_val_pad: "std_val (CHR ''='') = None"
  by code_simp

lemma byte_parts: "of_char c = (n::nat) \<Longrightarrow> n < 256 \<and> char_of n = c"
  by auto

lemma b64_decode_encode: "b64_quads True std_val (b64_encode s) = Some s"
proof (induction s rule: b64_encode.induct)
  case (2 a)
  define x where "x = (of_char a :: nat)"
  have x: "x < 256" "char_of x = a" using byte_parts [of a x] by (simp_all add: x_def)
  then show ?case by (simp add: Let_def std_val_digit std_val_pad x_def [symmetric])
next
  case (3 a b)
  define x y where "x = (of_char a :: nat)" and "y = (of_char b :: nat)"
  have x: "x < 256" "char_of x = a" "y < 256" "char_of y = b" using byte_parts [of a x] byte_parts [of b y] by (simp_all add: x_def y_def)
  then have "x mod 4 * 16 + y div 16 < 64" "(x mod 4 * 16 + y div 16) div 16 = x mod 4" "(x mod 4 * 16 + y div 16) mod 16 = y div 16"
    "y mod 16 * 4 < 64" by auto
  with x show ?case by (simp add: Let_def std_val_digit std_val_pad x_def [symmetric] y_def [symmetric])
next
  case (4 a b c s)
  define x y z where "x = (of_char a :: nat)" and "y = (of_char b :: nat)" and "z = (of_char c :: nat)"
  have x: "x < 256" "char_of x = a" "y < 256" "char_of y = b" "z < 256" "char_of z = c"
    using byte_parts [of a x] byte_parts [of b y] byte_parts [of c z] by (simp_all add: x_def y_def z_def)
  then have "x mod 4 * 16 + y div 16 < 64" "(x mod 4 * 16 + y div 16) div 16 = x mod 4" "(x mod 4 * 16 + y div 16) mod 16 = y div 16"
    "y mod 16 * 4 + z div 64 < 64" "(y mod 16 * 4 + z div 64) div 4 = y mod 16" "(y mod 16 * 4 + z div 64) mod 4 = z div 64" "x div 4 < 64"
    by auto
  with x 4 show ?case by (simp add: Let_def std_val_digit x_def [symmetric] y_def [symmetric] z_def [symmetric])
qed simp


lemma std_val_visible: "std_val c \<noteq> None \<or> c = CHR ''='' \<Longrightarrow> of_char c < (128::nat) \<and> \<not> space1 c \<and> c \<noteq> newline \<and> c \<noteq> cr"
  by (auto simp: b64_char_def Let_def less_eq_char_def is_digit_def space1_def split: if_splits)

lemma byte_bounds:
  "(of_char a :: nat) div 4 < 64" "(of_char a :: nat) mod 4 * 16 < 64" "(of_char a :: nat) mod 4 * 16 + of_char b div 16 < 64"
  "(of_char b :: nat) mod 16 * 4 < 64" "(of_char b :: nat) mod 16 * 4 + of_char c div 64 < 64" "(of_char c :: nat) mod 64 < 64"
proof -
  define x y z where "x = (of_char a :: nat)" and "y = (of_char b :: nat)" and "z = (of_char c :: nat)"
  have "x < 256" "y < 256" "z < 256" using byte_parts by (simp_all add: x_def y_def z_def)
  then have "x div 4 < 64" "x mod 4 * 16 < 64" "x mod 4 * 16 + y div 16 < 64" "y mod 16 * 4 < 64" "y mod 16 * 4 + z div 64 < 64" "z mod 64 < 64"
    by auto
  then show "(of_char a :: nat) div 4 < 64" "(of_char a :: nat) mod 4 * 16 < 64" "(of_char a :: nat) mod 4 * 16 + of_char b div 16 < 64"
    "(of_char b :: nat) mod 16 * 4 < 64" "(of_char b :: nat) mod 16 * 4 + of_char c div 64 < 64" "(of_char c :: nat) mod 64 < 64"
    by (simp_all add: x_def y_def z_def)
qed

lemma b64_encode_chars: "c \<in> set (b64_encode s) \<Longrightarrow> std_val c \<noteq> None \<or> c = CHR ''=''"
  by (induction s rule: b64_encode.induct) (auto simp: Let_def std_val_digit byte_bounds)

lemma b64_encode_ne: "s \<noteq> [] \<Longrightarrow> b64_encode s \<noteq> []"
  by (cases s rule: b64_encode.cases) (auto simp: Let_def)

text \<open>
  The entry that a login writes into the credential file, user name and password with a colon between them in base64,
  is read back as the user name.
\<close>

theorem stored_login_is_read_back:
  assumes "CHR '':'' \<notin> set username"
  shows "dockerConfigAuthUsername (b64_encode (username @ '':'' @ password)) = Some username"
proof -
  let ?e = "b64_encode (username @ '':'' @ password)"
  obtain c r where e: "?e = c # r" using b64_encode_ne [of "username @ '':'' @ password"] by (cases ?e) auto
  have "\<forall>c \<in> set ?e. of_char c < (128::nat) \<and> \<not> space1 c \<and> c \<noteq> newline \<and> c \<noteq> cr"
    using b64_encode_chars std_val_visible by blast
  then have "TrimSpace ?e \<noteq> ''''" "without_breaks ?e = ?e"
    using TrimSpace_has_visible [of c ?e] e by (auto simp: without_breaks_def filter_id_conv)
  then show ?thesis
    using b64_decode_encode [of "username @ '':'' @ password"] SplitN_part [OF assms, of 0 password]
    by (simp add: dockerConfigAuthUsername_def StdEncoding_Decode_def numeral_2_eq_2)
qed

theorem stored_login_is_read_back_witness:
  "dockerConfigAuthUsername (b64_encode (''ada'' @ '':'' @ ''s3:cret'')) = Some ''ada''"
  by (rule stored_login_is_read_back) simp

section \<open>Which programs are run\<close>

text \<open>A runtime that notes the commands it is given.\<close>

definition noting :: "(string list \<Rightarrow> string result) \<Rightarrow> string list list runner" where
  "noting answer args cmds = (answer args, cmds @ [args])"

definition known_command :: "string list \<Rightarrow> bool" where
  "known_command cmd \<longleftrightarrow> (\<exists>path. cmd = [''cat'', path]) \<or> (\<exists>helper. isSafeCredentialHelperName helper \<and> cmd = [''docker-credential-'' @ helper, ''get''])"

lemma cat_known: "known_command [''cat'', path]"
  by (simp add: known_command_def)

lemma lookup_known:
  "list_all known_command cmds \<Longrightarrow> list_all known_command (snd (lookupCredentialUsername dec (\<lambda>_. noting answer) helper url cmds))"
  by (auto simp: lookupCredentialUsername_def noting_def known_command_def Let_def split: sum.splits)

lemma helper_loop_known:
  "list_all known_command cmds \<Longrightarrow>
    list_all known_command (snd (helper_loop (lookupCredentialUsername dec (\<lambda>_. noting answer)) cfg keys cmds))"
proof (induction keys arbitrary: cmds)
  case (Cons key keys)
  show ?case
    using Cons lookup_known [OF Cons.prems, of dec answer "credentialHelperFor cfg key" key]
    by (auto simp: Let_def split: prod.splits option.splits)
qed simp

lemma helpers_known:
  "list_all known_command cmds \<Longrightarrow>
    list_all known_command (snd (RegistryStatusFromCredentialHelpers dec output (lookupCredentialUsername decHelper (\<lambda>_. noting answer)) cmds))"
  by (cases "dec output") (simp_all add: RegistryStatusFromCredentialHelpers_def helper_loop_known)

text \<open>
  Whatever the credential files contain, asking for the login state runs nothing but \<open>cat\<close> on the given paths and
  credential helpers whose names are made of letters, digits, dashes and underscores.
\<close>

theorem only_helpers_are_run:
  "list_all known_command (snd (registryStatus dec decHelper (noting answer) (Some (\<lambda>_. noting answer)) paths []))"
proof -
  have "list_all known_command cmds \<Longrightarrow>
      list_all known_command (snd (registryStatus dec decHelper (noting answer) (Some (\<lambda>_. noting answer)) paths cmds))" for cmds
  proof (induction paths arbitrary: cmds)
    case (Cons path paths)
    have p: "list_all known_command (cmds @ [[''cat'', path]])" using Cons.prems cat_known by simp
    show ?case
    proof (cases "answer [''cat'', path]")
      case (Inr out)
      obtain parsed cmds' where h: "RegistryStatusFromCredentialHelpers dec out (lookupCredentialUsername decHelper (\<lambda>_. noting answer)) (cmds @ [[''cat'', path]])
          = (parsed, cmds')" by fastforce
      then have "list_all known_command cmds'" using helpers_known [OF p] by (metis snd_conv)
      moreover have "noting answer [''cat'', path] cmds = (Inr out, cmds @ [[''cat'', path]])" by (simp add: noting_def Inr)
      ultimately show ?thesis using h p Cons.IH by simp
    next
      case (Inl err)
      then have "noting answer [''cat'', path] cmds = (Inl err, cmds @ [[''cat'', path]])" by (simp add: noting_def)
      then show ?thesis using p Cons.IH by simp
    qed
  qed simp
  then show ?thesis by simp
qed

section \<open>Defects\<close>

text \<open>
  Any server whose name contains \<open>docker.io\<close> is taken for Docker Hub: the password for it is sent there.
\<close>

lemma lookalike_registry:
  "Contains (ToLower (TrimSpace server)) ''docker.io'' \<Longrightarrow>
    registryLogin runWithStdin server username password w = registryLogin runWithStdin '''' username password w"
  by (simp add: registryLogin_def isDockerHubRegistry_def Let_def)

text \<open>\<open>slow_down\<close>, which asks the client to poll less often, ends the login.\<close>

lemma slow_down_ends_login:
  "http (DockerHubOAuthTenantURL @ ''/oauth/token'',
      Values_Encode [(''client_id'', DockerHubOAuthClientID), (''device_code'', code),
        (''grant_type'', ''urn:ietf:params:oauth:grant-type:device_code'')], '''') w = (Inr resp, w1) \<Longrightarrow>
    oa_token oa (hr_Body resp) = Inr \<lparr>tk_AccessToken = '''', tk_Error = Some ''slow_down'', tk_ErrorDescription = ''''\<rparr> \<Longrightarrow>
    pollDeviceToken oa http code w = (Inl (Errorf ''slow_down''), w1)"
  by (simp add: pollDeviceToken_def)

text \<open>
  Waiting for the browser ends: with a timer that fires after finitely many ticks, the wait returns a token or an
  error.
\<close>

theorem device_wait_ends:
  fixes left :: "'w \<Rightarrow> nat"
  assumes "\<And>w w'. await w = (Tick, w') \<Longrightarrow> left w' < left w"
    and "\<And>req w r w'. http req w = (r, w') \<Longrightarrow> left w' \<le> left w" and "left w < n"
  shows "\<exists>r w'. WaitForDeviceToken n oa http await code w = Some (r, w')"
  using assms(3)
proof (induction n arbitrary: w)
  case (Suc n)
  obtain e w1 where e: "await w = (e, w1)" by fastforce
  obtain r w2 where r: "pollDeviceToken oa http code w1 = (r, w2)" by fastforce
  have "left w2 \<le> left w1"
    using r assms(2) by (auto simp: pollDeviceToken_def split: prod.splits sum.splits option.splits if_splits)
  then have "left w2 < n" if "e = Tick" using that assms(1) [of w w1] e Suc.prems by fastforce
  then show ?case using e r Suc.IH [of w2]
    by (cases e; cases r) (auto split: option.splits)
qed simp

theorem device_wait_ends_witness:
  "\<exists>r w'. WaitForDeviceToken 4 demo_oauth (\<lambda>_ w. (Inl (Errorf ''offline''), w)) (\<lambda>w. if w = 0 then (TimedOut, w) else (Tick, w - 1)) ''d'' (3::nat) = Some (r, w')"
  by (rule device_wait_ends [where left = id]) (auto split: if_splits)

end
