(* ===== verification/Calf_Compose.thy ===== *)
theory Calf_Compose
  imports Calf_Listing
begin

text \<open>
  Compose projects in a migration from Docker Desktop (\<open>migration/compose_migration.go\<close>): which containers form a
  project, where its compose file is, what is copied for it, and how the file is changed so that services run the
  image that was migrated.  The YAML decoder and encoder and the file system are arguments; a decoded document is a tree.
\<close>

section \<open>Inspected containers\<close>

text \<open>The mounts and the other parts of an inspect document that a migration reads; a nil map or slice is empty.\<close>

record inspectMount =
  im_Type :: string
  im_Name :: string
  im_Source :: string
  im_Destination :: string
  im_Mode :: string
  im_RW :: bool

record containerInspect =
  ci_Name :: string
  ci_Image :: string
  ci_Env :: "string list"
  ci_Cmd :: "string list"
  ci_Entrypoint :: "string list"
  ci_WorkingDir :: string
  ci_Hostname :: string
  ci_User :: string
  ci_Labels :: "(string \<times> string) list"
  ci_NetworkMode :: string
  ci_Binds :: "string list"
  ci_ExtraHosts :: "string list"
  ci_PortBindings :: "(string \<times> (string \<times> string) list) list"
  ci_RestartPolicy :: string
  ci_Mounts :: "inspectMount list"
  ci_Status :: string

definition containerName :: "containerInspect \<Rightarrow> string" where
  "containerName i = TrimPrefix (ci_Name i) ''/''"

definition ComposeWorkingDirLabel :: string where "ComposeWorkingDirLabel = ''com.docker.compose.project.working_dir''"

definition ComposeConfigFilesLabel :: string where "ComposeConfigFilesLabel = ''com.docker.compose.project.config_files''"

definition composeProjectName :: "containerInspect \<Rightarrow> string" where
  "composeProjectName i = label (ci_Labels i) ComposeProjectLabel"

definition composeConfigFiles :: "containerInspect \<Rightarrow> string list" where
  "composeConfigFiles i =
     (let raw = TrimSpace (label (ci_Labels i) ComposeConfigFilesLabel) in
      if raw = '''' then [] else filter (\<lambda>p. p \<noteq> '''') (map TrimSpace (Split raw (CHR '',''))))"

fun image_loop :: "containerInspect list \<Rightarrow> (string \<times> string) list \<Rightarrow> (string \<times> string) list" where
  "image_loop [] images = images"
| "image_loop (i # is) images =
     (let service = label (ci_Labels i) ComposeServiceLabel in
      if service = '''' \<or> ci_Image i = '''' then image_loop is images
      else image_loop is (AList.update service (ci_Image i) images))"

definition composeServiceImages :: "containerInspect list \<Rightarrow> (string \<times> string) list" where
  "composeServiceImages containers = image_loop containers []"

definition migrationLabels :: "containerInspect \<Rightarrow> (string \<times> string) list" where
  "migrationLabels i =
     filter (\<lambda>(_, v). v \<noteq> '''') (map (\<lambda>key. (key, label (ci_Labels i) key)) (sort_Strings (map fst (ci_Labels i))))"

section \<open>Projects\<close>

record composeProjectGroup =
  cg_Name :: string
  cg_WorkingDir :: string
  cg_ConfigFiles :: "string list"
  cg_Containers :: "containerInspect list"
  cg_WasRunning :: "(string \<times> bool) list"

definition newGroup :: "containerInspect \<Rightarrow> string \<Rightarrow> composeProjectGroup" where
  "newGroup i project = \<lparr>cg_Name = project, cg_WorkingDir = label (ci_Labels i) ComposeWorkingDirLabel,
     cg_ConfigFiles = composeConfigFiles i, cg_Containers = [], cg_WasRunning = []\<rparr>"

definition joinGroup :: "(string \<Rightarrow> bool) \<Rightarrow> containerInspect \<Rightarrow> composeProjectGroup \<Rightarrow> composeProjectGroup" where
  "joinGroup wasUp i g =
     (let name = containerName i;
          g1 = (if cg_WorkingDir g = '''' then g\<lparr>cg_WorkingDir := label (ci_Labels i) ComposeWorkingDirLabel\<rparr> else g);
          g2 = (if cg_ConfigFiles g1 = [] then g1\<lparr>cg_ConfigFiles := composeConfigFiles i\<rparr> else g1)
      in g2\<lparr>cg_Containers := cg_Containers g2 @ [i], cg_WasRunning := AList.update name (wasUp name) (cg_WasRunning g2)\<rparr>)"

fun group_loop ::
    "(string \<Rightarrow> bool) \<Rightarrow> containerInspect list \<Rightarrow> (string \<times> composeProjectGroup) list \<Rightarrow> containerInspect list
      \<Rightarrow> (string \<times> composeProjectGroup) list \<times> containerInspect list" where
  "group_loop wasUp [] byProject standalone = (byProject, standalone)"
| "group_loop wasUp (i # is) byProject standalone =
     (let project = composeProjectName i in
      if project = '''' then group_loop wasUp is byProject (standalone @ [i])
      else
        let g = (case map_of byProject project of Some g \<Rightarrow> g | None \<Rightarrow> newGroup i project)
        in group_loop wasUp is (AList.update project (joinGroup wasUp i g) byProject) standalone)"

text \<open>The order in which Go walks the map of projects is an argument.\<close>

definition groupContainersByComposeProject ::
    "(string list \<Rightarrow> string list) \<Rightarrow> containerInspect list \<Rightarrow> (string \<Rightarrow> bool) \<Rightarrow> composeProjectGroup list \<times> containerInspect list" where
  "groupContainersByComposeProject walk inspects wasUp =
     (let (byProject, standalone) = group_loop wasUp inspects [] [];
          groups = List.map_filter (map_of byProject) (walk (map fst byProject))
      in (sort_Slice (\<lambda>a b. cg_Name a < cg_Name b) groups, standalone))"

section \<open>The compose file\<close>

text \<open>
  A decoded YAML document.  The decoder gives a mapping node as many values as keys, so its content is a list of pairs;
  an alias stands for the node of its anchor and has no content.
\<close>

datatype ynode =
    YScalar string string
  | YMapping "yentry list"
  | YSequence "ynode list"
  | YDocument "ynode list"
  | YAlias string
and yentry = YEntry (entry_key: ynode) (entry_value: ynode)

fun node_Value :: "ynode \<Rightarrow> string" where
  "node_Value (YScalar _ v) = v"
| "node_Value (YAlias v) = v"
| "node_Value _ = ''''"

definition has_key :: "string \<Rightarrow> yentry \<Rightarrow> bool" where
  "has_key key kv \<longleftrightarrow> node_Value (entry_key kv) = key"

fun findComposeServicesNode :: "ynode \<Rightarrow> ynode option"
and find_pairs :: "yentry list \<Rightarrow> ynode option"
and find_nodes :: "ynode list \<Rightarrow> ynode option" where
  "findComposeServicesNode (YScalar _ _) = None"
| "findComposeServicesNode (YAlias _) = None"
| "findComposeServicesNode (YMapping kvs) =
     (case find (has_key ''services'') kvs of Some kv \<Rightarrow> Some (entry_value kv) | None \<Rightarrow> find_pairs kvs)"
| "findComposeServicesNode (YSequence ns) = find_nodes ns"
| "findComposeServicesNode (YDocument ns) = find_nodes ns"
| "find_pairs [] = None"
| "find_pairs (YEntry k v # kvs) =
     (case findComposeServicesNode k of
        Some n \<Rightarrow> Some n
      | None \<Rightarrow> (case findComposeServicesNode v of Some n \<Rightarrow> Some n | None \<Rightarrow> find_pairs kvs))"
| "find_nodes [] = None"
| "find_nodes (n # ns) = (case findComposeServicesNode n of Some m \<Rightarrow> Some m | None \<Rightarrow> find_nodes ns)"

text \<open>Go changes the found node in place: the same walk, with the node replaced.\<close>

fun upd_first :: "('a \<Rightarrow> bool) \<Rightarrow> ('a \<Rightarrow> 'a) \<Rightarrow> 'a list \<Rightarrow> 'a list" where
  "upd_first P f [] = []"
| "upd_first P f (x # xs) = (if P x then f x # xs else x # upd_first P f xs)"

fun onServices :: "(ynode \<Rightarrow> ynode) \<Rightarrow> ynode \<Rightarrow> ynode"
and on_pairs :: "(ynode \<Rightarrow> ynode) \<Rightarrow> yentry list \<Rightarrow> yentry list"
and on_nodes :: "(ynode \<Rightarrow> ynode) \<Rightarrow> ynode list \<Rightarrow> ynode list" where
  "onServices f (YScalar t v) = YScalar t v"
| "onServices f (YAlias v) = YAlias v"
| "onServices f (YMapping kvs) =
     YMapping (case find (has_key ''services'') kvs of
                 Some _ \<Rightarrow> upd_first (has_key ''services'') (\<lambda>kv. YEntry (entry_key kv) (f (entry_value kv))) kvs
               | None \<Rightarrow> on_pairs f kvs)"
| "onServices f (YSequence ns) = YSequence (on_nodes f ns)"
| "onServices f (YDocument ns) = YDocument (on_nodes f ns)"
| "on_pairs f [] = []"
| "on_pairs f (YEntry k v # kvs) =
     (if findComposeServicesNode k \<noteq> None then YEntry (onServices f k) v # kvs
      else if findComposeServicesNode v \<noteq> None then YEntry k (onServices f v) # kvs
      else YEntry k v # on_pairs f kvs)"
| "on_nodes f [] = []"
| "on_nodes f (n # ns) = (if findComposeServicesNode n \<noteq> None then onServices f n # ns else n # on_nodes f ns)"

fun remove_first :: "('a \<Rightarrow> bool) \<Rightarrow> 'a list \<Rightarrow> 'a list" where
  "remove_first P [] = []"
| "remove_first P (x # xs) = (if P x then xs else x # remove_first P xs)"

fun removeComposeMappingKey :: "string \<Rightarrow> ynode \<Rightarrow> ynode" where
  "removeComposeMappingKey key (YMapping kvs) = YMapping (remove_first (has_key key) kvs)"
| "removeComposeMappingKey key n = n"

fun setComposeMappingValue :: "string \<Rightarrow> string \<Rightarrow> ynode \<Rightarrow> ynode" where
  "setComposeMappingValue key v (YMapping kvs) =
     YMapping (if list_ex (has_key key) kvs then upd_first (has_key key) (\<lambda>kv. YEntry (entry_key kv) (YScalar ''!!str'' v)) kvs
               else kvs @ [YEntry (YScalar '''' key) (YScalar ''!!str'' v)])"
| "setComposeMappingValue key v n = n"

definition patchService :: "(string \<times> string) list \<Rightarrow> yentry \<Rightarrow> yentry" where
  "patchService serviceImages kv =
     (case map_of serviceImages (node_Value (entry_key kv)) of
        None \<Rightarrow> kv
      | Some img \<Rightarrow>
          if img = '''' then kv
          else YEntry (entry_key kv) (setComposeMappingValue ''image'' img (removeComposeMappingKey ''build'' (entry_value kv))))"

fun patchServices :: "(string \<times> string) list \<Rightarrow> ynode \<Rightarrow> ynode" where
  "patchServices serviceImages (YMapping kvs) = YMapping (map (patchService serviceImages) kvs)"
| "patchServices serviceImages n = n"

section \<open>Staging\<close>

text \<open>
  The host: the home directory, the file system calls and the YAML package.  A directory tree is what
  \<open>filepath.Walk\<close> meets, in its order, with the error it passes on where it cannot look.
\<close>

datatype fnode = FDir "fentry list" | FRegular | FOther | FFailed go_error
and fentry = FEntry string fnode

record 'w StageEnv =
  se_home :: "string result"
  se_Stat :: "string \<Rightarrow> 'w \<Rightarrow> go_error option \<times> 'w"
  se_RemoveAll :: "string \<Rightarrow> 'w \<Rightarrow> go_error option \<times> 'w"
  se_MkdirAll :: "string \<Rightarrow> 'w \<Rightarrow> go_error option \<times> 'w"
  se_Walk :: "string \<Rightarrow> 'w \<Rightarrow> fnode \<times> 'w"
  se_CopyData :: "string \<Rightarrow> string \<Rightarrow> 'w \<Rightarrow> go_error option \<times> 'w"
  se_ReadFile :: "string \<Rightarrow> 'w \<Rightarrow> string result \<times> 'w"
  se_WriteFile :: "string \<Rightarrow> string \<Rightarrow> 'w \<Rightarrow> go_error option \<times> 'w"
  se_Unmarshal :: "string \<Rightarrow> ynode result"
  se_Marshal :: "ynode \<Rightarrow> string result"

definition andThen :: "go_error option \<times> 'w \<Rightarrow> ('w \<Rightarrow> go_error option \<times> 'w) \<Rightarrow> go_error option \<times> 'w" where
  "andThen r f = (case r of (Some err, w) \<Rightarrow> (Some err, w) | (None, w) \<Rightarrow> f w)"

definition patchComposeForMigration :: "'w StageEnv \<Rightarrow> string \<Rightarrow> (string \<times> string) list \<Rightarrow> 'w \<Rightarrow> go_error option \<times> 'w" where
  "patchComposeForMigration env composePath serviceImages w =
     (if serviceImages = [] then (None, w)
      else case se_ReadFile env composePath w of
        (Inl err, w1) \<Rightarrow> (Some err, w1)
      | (Inr data, w1) \<Rightarrow>
          (case se_Unmarshal env data of
             Inl err \<Rightarrow> (Some err, w1)
           | Inr tree \<Rightarrow>
               (case findComposeServicesNode tree of
                  Some (YMapping _) \<Rightarrow>
                    (case se_Marshal env (onServices (patchServices serviceImages) tree) of
                       Inl err \<Rightarrow> (Some err, w1)
                     | Inr patched \<Rightarrow> se_WriteFile env composePath patched w1)
                | _ \<Rightarrow> (None, w1))))"

definition copyFile :: "'w StageEnv \<Rightarrow> string \<Rightarrow> string \<Rightarrow> 'w \<Rightarrow> go_error option \<times> 'w" where
  "copyFile env source dest w = andThen (se_MkdirAll env (filepath_Dir dest) w) (se_CopyData env source dest)"

definition ComposeStageSkipDirs :: "string list" where
  "ComposeStageSkipDirs = [''.git'', ''node_modules'', ''vendor'', ''.next'', ''dist'', ''build'', ''__pycache__'']"

text \<open>The callback of \<open>filepath.Walk\<close> on a node, its path below the source being \<open>rel\<close>, and on the entries of a directory.\<close>

fun copy_node :: "'w StageEnv \<Rightarrow> string \<Rightarrow> string \<Rightarrow> string list \<Rightarrow> fnode \<Rightarrow> 'w \<Rightarrow> go_error option \<times> 'w"
and copy_entries :: "'w StageEnv \<Rightarrow> string \<Rightarrow> string \<Rightarrow> string list \<Rightarrow> fentry list \<Rightarrow> 'w \<Rightarrow> go_error option \<times> 'w" where
  "copy_node env source dest rel (FFailed err) w = (Some err, w)"
| "copy_node env source dest rel (FDir es) w =
     (if rel \<noteq> [] \<and> hd rel \<in> set ComposeStageSkipDirs then (None, w)
      else andThen (se_MkdirAll env (filepath_Join dest (Join rel ''/'')) w) (copy_entries env source dest rel es))"
| "copy_node env source dest rel FRegular w =
     (if rel \<noteq> [] \<and> hd rel \<in> set ComposeStageSkipDirs then (None, w)
      else copyFile env (filepath_Join source (Join rel ''/'')) (filepath_Join dest (Join rel ''/'')) w)"
| "copy_node env source dest rel FOther w = (None, w)"
| "copy_entries env source dest rel [] w = (None, w)"
| "copy_entries env source dest rel (FEntry name n # es) w =
     andThen (copy_node env source dest (rel @ [name]) n w) (copy_entries env source dest rel es)"

definition copyDir :: "'w StageEnv \<Rightarrow> string \<Rightarrow> string \<Rightarrow> 'w \<Rightarrow> go_error option \<times> 'w" where
  "copyDir env source dest w = (let (tree, w1) = se_Walk env source w in copy_node env source dest [] tree w1)"

definition relInside :: "string \<Rightarrow> string \<Rightarrow> string option" where
  "relInside workingDir configFile =
     (case filepath_Rel workingDir configFile of Inl _ \<Rightarrow> None | Inr rel \<Rightarrow> if HasPrefix rel ''..'' then None else Some rel)"

fun composeFile_loop :: "'w StageEnv \<Rightarrow> string \<Rightarrow> string \<Rightarrow> string list \<Rightarrow> string list \<Rightarrow> 'w \<Rightarrow> string list result \<times> 'w" where
  "composeFile_loop env workingDir destDir [] candidates w = (Inr candidates, w)"
| "composeFile_loop env workingDir destDir (configFile # files) candidates w =
     (case relInside workingDir configFile of
        Some rel \<Rightarrow> composeFile_loop env workingDir destDir files (candidates @ [filepath_Join destDir rel]) w
      | None \<Rightarrow>
          (case se_Stat env configFile w of
             (Some _, w1) \<Rightarrow> composeFile_loop env workingDir destDir files candidates w1
           | (None, w1) \<Rightarrow>
               let dest = filepath_Join destDir (filepath_Base configFile) in
               (case copyFile env configFile dest w1 of
                  (Some err, w2) \<Rightarrow> (Inl err, w2)
                | (None, w2) \<Rightarrow> composeFile_loop env workingDir destDir files (candidates @ [dest]) w2)))"

fun first_existing :: "'w StageEnv \<Rightarrow> string list \<Rightarrow> 'w \<Rightarrow> string option \<times> 'w" where
  "first_existing env [] w = (None, w)"
| "first_existing env (candidate # cs) w =
     (case se_Stat env candidate w of (None, w1) \<Rightarrow> (Some candidate, w1) | (Some _, w1) \<Rightarrow> first_existing env cs w1)"

definition composeFileNames :: "string list" where
  "composeFileNames = [''docker-compose.yml'', ''docker-compose.yaml'', ''compose.yml'', ''compose.yaml'']"

definition resolveComposeFile :: "'w StageEnv \<Rightarrow> composeProjectGroup \<Rightarrow> string \<Rightarrow> 'w \<Rightarrow> string result \<times> 'w" where
  "resolveComposeFile env g destDir w =
     (case composeFile_loop env (cg_WorkingDir g) destDir (cg_ConfigFiles g) [] w of
        (Inl err, w1) \<Rightarrow> (Inl err, w1)
      | (Inr candidates, w1) \<Rightarrow>
          (case first_existing env (candidates @ map (filepath_Join destDir) composeFileNames) w1 of
             (None, w2) \<Rightarrow> (Inl (Errorf (''compose file not found for project '' @ cg_Name g)), w2)
           | (Some candidate, w2) \<Rightarrow> (Inr candidate, w2)))"

definition stageDir :: "string \<Rightarrow> composeProjectGroup \<Rightarrow> string" where
  "stageDir mountsRoot g = filepath_Join (filepath_Join mountsRoot ''compose'') (SanitizeFileName (cg_Name g))"

definition stageComposeProject :: "'w StageEnv \<Rightarrow> composeProjectGroup \<Rightarrow> string \<Rightarrow> 'w \<Rightarrow> (string \<times> string) result \<times> 'w" where
  "stageComposeProject env g mountsRoot w =
     (if cg_WorkingDir g = '''' then (Inl (Errorf (''compose project '' @ cg_Name g @ '' has no working dir'')), w)
      else case se_Stat env (cg_WorkingDir g) w of
        (Some err, w1) \<Rightarrow> (Inl (Wrap (''compose working dir '' @ cg_WorkingDir g) err), w1)
      | (None, w1) \<Rightarrow>
          let destDir = stageDir mountsRoot g in
          (case andThen (andThen (se_RemoveAll env destDir w1) (se_MkdirAll env destDir)) (copyDir env (cg_WorkingDir g) destDir) of
             (Some err, w2) \<Rightarrow> (Inl err, w2)
           | (None, w2) \<Rightarrow>
               (case resolveComposeFile env g destDir w2 of
                  (Inl err, w3) \<Rightarrow> (Inl err, w3)
                | (Inr composePath, w3) \<Rightarrow>
                    (case patchComposeForMigration env composePath (composeServiceImages (cg_Containers g)) w3 of
                       (Some err, w4) \<Rightarrow> (Inl err, w4)
                     | (None, w4) \<Rightarrow>
                         (case HostMountToVMPath (se_home env) destDir of
                            Inl err \<Rightarrow> (Inl (Wrap ''map compose project directory to VM path'' err), w4)
                          | Inr vmDir \<Rightarrow>
                              (case HostMountToVMPath (se_home env) composePath of
                                 Inl err \<Rightarrow> (Inl (Wrap ''map compose file to VM path'' err), w4)
                               | Inr vmComposePath \<Rightarrow> (Inr (vmDir, vmComposePath), w4)))))))"

section \<open>Facts about projects\<close>

text \<open>What the loop has collected for a project: the containers with its label, in their order, and which of them ran.\<close>

definition group_ok :: "(string \<Rightarrow> bool) \<Rightarrow> containerInspect list \<Rightarrow> string \<Rightarrow> composeProjectGroup \<Rightarrow> bool" where
  "group_ok wasUp is p g \<longleftrightarrow> cg_Name g = p \<and> cg_Containers g = filter (\<lambda>i. composeProjectName i = p) is
     \<and> map_of (cg_WasRunning g) = (\<lambda>n. if n \<in> containerName ` set (cg_Containers g) then Some (wasUp n) else None)"

definition collected :: "(string \<Rightarrow> bool) \<Rightarrow> containerInspect list \<Rightarrow> (string \<times> composeProjectGroup) list \<Rightarrow> bool" where
  "collected wasUp is byProject \<longleftrightarrow> distinct (map fst byProject) \<and>
     fst ` set byProject = {p \<in> composeProjectName ` set is. p \<noteq> ''''} \<and>
     (\<forall>p g. (p, g) \<in> set byProject \<longrightarrow> group_ok wasUp is p g)"

lemma group_ok_join: "group_ok wasUp is p g \<Longrightarrow> composeProjectName i = p \<Longrightarrow> group_ok wasUp (is @ [i]) p (joinGroup wasUp i g)"
  by (auto simp: group_ok_def joinGroup_def Let_def AList.update_conv fun_eq_iff)

lemma group_ok_other: "group_ok wasUp is p g \<Longrightarrow> composeProjectName i \<noteq> p \<Longrightarrow> group_ok wasUp (is @ [i]) p g"
  by (simp add: group_ok_def)

lemma group_ok_new: "p \<notin> composeProjectName ` set is \<Longrightarrow> group_ok wasUp is p (newGroup i p)"
  by (auto simp: group_ok_def newGroup_def fun_eq_iff filter_empty_conv intro!: sym [of "filter _ _" "[]"])

lemma update_member:
  assumes "distinct (map fst m)" "(q, k) \<in> set (AList.update p h m)"
  shows "q = p \<and> k = h \<or> q \<noteq> p \<and> (q, k) \<in> set m"
proof -
  have "map_of (AList.update p h m) q = Some k" using assms by (simp add: AList.distinct_update)
  then show ?thesis by (auto simp: AList.update_conv split: if_splits dest: map_of_SomeD)
qed

lemma collected_step:
  assumes "collected wasUp is byProject" "composeProjectName i = p" "p \<noteq> ''''"
    "g = (case map_of byProject p of Some g \<Rightarrow> g | None \<Rightarrow> newGroup i p)"
  shows "collected wasUp (is @ [i]) (AList.update p (joinGroup wasUp i g) byProject)"
proof -
  have g: "group_ok wasUp is p g"
  proof (cases "map_of byProject p")
    case None
    then have "p \<notin> composeProjectName ` set is" using assms(1,3) by (auto simp: collected_def map_of_eq_None_iff)
    then show ?thesis using None assms(4) by (simp add: group_ok_new)
  next
    case (Some h)
    then have "(p, h) \<in> set byProject" by (rule map_of_SomeD)
    then show ?thesis using Some assms(1,4) by (simp add: collected_def)
  qed
  have d: "distinct (map fst byProject)" using assms(1) by (simp add: collected_def)
  have "fst ` set (AList.update p (joinGroup wasUp i g) byProject) = insert p (fst ` set byProject)"
    by (simp add: AList.dom_update)
  moreover have "group_ok wasUp (is @ [i]) q k" if m: "(q, k) \<in> set (AList.update p (joinGroup wasUp i g) byProject)" for q k
  proof (cases "q = p")
    case True
    then show ?thesis using update_member [OF d m] group_ok_join [OF g assms(2)] by simp
  next
    case False
    then have "group_ok wasUp is q k" using update_member [OF d m] assms(1) by (simp add: collected_def)
    then show ?thesis using False assms(2) by (metis group_ok_other)
  qed
  ultimately show ?thesis using assms(1-3) d by (auto simp: collected_def AList.distinct_update)
qed

lemma collected_skip:
  assumes "collected wasUp is byProject" "composeProjectName i = ''''"
  shows "collected wasUp (is @ [i]) byProject"
proof -
  have "p \<noteq> ''''" if "(p, g) \<in> set byProject" for p g using assms(1) that by (force simp: collected_def)
  with assms have "group_ok wasUp (is @ [i]) p g" if "(p, g) \<in> set byProject" for p g
    using that group_ok_other [of wasUp "is" p g i] by (metis collected_def)
  then show ?thesis using assms by (auto simp: collected_def)
qed

lemma group_loop_collected:
  "collected wasUp before byProject \<Longrightarrow> standalone = filter (\<lambda>i. composeProjectName i = '''') before \<Longrightarrow>
   group_loop wasUp is byProject standalone = (bp, sa) \<Longrightarrow>
   collected wasUp (before @ is) bp \<and> sa = filter (\<lambda>i. composeProjectName i = '''') (before @ is)"
proof (induction "is" arbitrary: before byProject standalone)
  case (Cons i "is")
  show ?case
  proof (cases "composeProjectName i = ''''")
    case True
    with Cons.IH [OF collected_skip [OF Cons.prems(1)], of i "standalone @ [i]"] Cons.prems show ?thesis by simp
  next
    case False
    let ?g = "case map_of byProject (composeProjectName i) of Some g \<Rightarrow> g | None \<Rightarrow> newGroup i (composeProjectName i)"
    have "collected wasUp (before @ [i]) (AList.update (composeProjectName i) (joinGroup wasUp i ?g) byProject)"
      by (rule collected_step [OF Cons.prems(1) refl False refl])
    with Cons.IH [of "before @ [i]" _ standalone] Cons.prems False show ?thesis by (simp add: Let_def)
  qed
qed simp

interpretation by_name: sort_less "\<lambda>a b. cg_Name a < cg_Name b"
  by unfold_locales auto

lemma map_filter_total: "(\<And>x. x \<in> set xs \<Longrightarrow> f x = Some (g x)) \<Longrightarrow> List.map_filter f xs = map g xs"
  by (induction xs) auto

lemma grouped:
  assumes "groupContainersByComposeProject walk is wasUp = (groups, standalone)" "\<And>ks. mset (walk ks) = mset ks"
  shows "standalone = filter (\<lambda>i. composeProjectName i = '''') is
    \<and> map cg_Name groups = sorted_list_of_set {p \<in> composeProjectName ` set is. p \<noteq> ''''}
    \<and> list_all (\<lambda>g. group_ok wasUp is (cg_Name g) g) groups"
proof -
  obtain bp sa where l: "group_loop wasUp is [] [] = (bp, sa)" by (cases "group_loop wasUp is [] []")
  have "collected wasUp [] []" by (simp add: collected_def)
  from group_loop_collected [OF this _ l] have c: "collected wasUp is bp" and "sa = filter (\<lambda>i. composeProjectName i = '''') is" by simp_all
  then have s: "standalone = filter (\<lambda>i. composeProjectName i = '''') is"
    using assms(1) l by (simp add: groupContainersByComposeProject_def)
  define gs where "gs = List.map_filter (map_of bp) (walk (map fst bp))"
  have w: "set (walk (map fst bp)) = fst ` set bp" using assms(2) by (metis list.set_map set_mset_mset)
  have "map_of bp p = Some (the (map_of bp p))" if "p \<in> set (walk (map fst bp))" for p
    using that w by (cases "map_of bp p") (auto simp: map_of_eq_None_iff)
  then have gs: "gs = map (\<lambda>p. the (map_of bp p)) (walk (map fst bp))" unfolding gs_def by (rule map_filter_total)
  have ok: "group_ok wasUp is p (the (map_of bp p))" if m: "p \<in> fst ` set bp" for p
  proof -
    obtain g where "map_of bp p = Some g" using m by (cases "map_of bp p") (auto simp: map_of_eq_None_iff)
    then show ?thesis using c by (auto simp: collected_def dest: map_of_SomeD)
  qed
  have names: "map cg_Name gs = walk (map fst bp)" unfolding gs using ok w by (auto simp: group_ok_def intro!: map_idI)
  have groups: "groups = sort_Slice (\<lambda>a b. cg_Name a < cg_Name b) gs"
    using assms(1) l by (simp add: groupContainersByComposeProject_def gs_def)
  have "sorted (map cg_Name groups)"
    using by_name.sort_Slice_sorted [of gs] unfolding groups by (simp add: sorted_map not_less)
  moreover have "mset (map cg_Name groups) = mset (map fst bp)" using names assms(2) unfolding groups by (metis mset_map mset_sort_Slice)
  then have "distinct (map cg_Name groups) \<and> set (map cg_Name groups) = fst ` set bp"
    using c by (metis collected_def list.set_map mset_eq_imp_distinct_iff set_mset_mset)
  ultimately have "map cg_Name groups = sorted_list_of_set (fst ` set bp)"
    by (metis sorted_list_of_set.idem_if_sorted_distinct)
  moreover have "fst ` set bp = {p \<in> composeProjectName ` set is. p \<noteq> ''''}" using c by (simp add: collected_def)
  moreover have "list_all (\<lambda>g. group_ok wasUp is (cg_Name g) g) groups"
    using ok w unfolding groups gs by (auto simp: group_ok_def list_all_iff)
  ultimately show ?thesis using s by simp
qed

lemma sum_filters:
  "finite S \<Longrightarrow> (\<Sum>p\<in>S. length (filter (\<lambda>i. f i = p) xs)) = length (filter (\<lambda>i. f i \<in> S) xs)"
proof (induction xs)
  case (Cons x xs)
  have "(\<Sum>p\<in>S. length (filter (\<lambda>i. f i = p) (x # xs))) = (\<Sum>p\<in>S. (if f x = p then 1 else 0) + length (filter (\<lambda>i. f i = p) xs))"
    by (rule sum.cong) auto
  then show ?case using Cons by (simp add: sum.distrib)
qed simp

lemma grouped_lengths:
  assumes "groupContainersByComposeProject walk is wasUp = (groups, standalone)" "\<And>ks. mset (walk ks) = mset ks"
  shows "sum_list (map (\<lambda>g. length (cg_Containers g)) groups) + length standalone = length is"
proof -
  let ?S = "{p \<in> composeProjectName ` set is. p \<noteq> ''''}"
  let ?n = "\<lambda>p. length (filter (\<lambda>i. composeProjectName i = p) is)"
  note g = grouped [OF assms]
  have "\<forall>h \<in> set groups. cg_Containers h = filter (\<lambda>i. composeProjectName i = cg_Name h) is"
    using g by (simp add: list_all_iff group_ok_def)
  then have "map (\<lambda>g. length (cg_Containers g)) groups = map ?n (map cg_Name groups)" by simp
  then have "sum_list (map (\<lambda>g. length (cg_Containers g)) groups) = sum ?n ?S"
    using g by (simp add: sum_list_distinct_conv_sum_set del: map_map)
  also have "\<dots> = length (filter (\<lambda>i. composeProjectName i \<in> ?S) is)" by (rule sum_filters) simp
  also have "filter (\<lambda>i. composeProjectName i \<in> ?S) is = filter (\<lambda>i. composeProjectName i \<noteq> '''') is" by (rule filter_cong) auto
  finally show ?thesis using g sum_length_filter_compl [of "\<lambda>i. composeProjectName i = ''''" "is"] by simp
qed

text \<open>
  C31: The containers of Docker Desktop are split into compose projects and single containers: each container is in
  exactly one part, a project has exactly the containers with its label, in their order, with whether each ran, and
  projects are in the order of their names, however Go walks its map.
\<close>

theorem projects_partition_containers:
  assumes "groupContainersByComposeProject walk is wasUp = (groups, standalone)" "\<And>ks. mset (walk ks) = mset ks"
  shows "standalone = filter (\<lambda>i. composeProjectName i = '''') is
    \<and> map cg_Name groups = sorted_list_of_set {p \<in> composeProjectName ` set is. p \<noteq> ''''}
    \<and> list_all (\<lambda>g. group_ok wasUp is (cg_Name g) g) groups
    \<and> sum_list (map (\<lambda>g. length (cg_Containers g)) groups) + length standalone = length is"
  using grouped [OF assms] grouped_lengths [OF assms] by simp

section \<open>Facts about the compose file\<close>

lemma onServices_Value [simp]: "node_Value (onServices f n) = node_Value n"
  by (cases n) auto

lemma has_key_YEntry [simp]: "has_key key (YEntry k v) \<longleftrightarrow> node_Value k = key"
  by (simp add: has_key_def)

lemma on_pairs_keys [simp]: "map (\<lambda>e. node_Value (entry_key e)) (on_pairs f kvs) = map (\<lambda>e. node_Value (entry_key e)) kvs"
proof (induction kvs)
  case (Cons e kvs)
  then show ?case by (cases e) auto
qed simp

lemma find_has_key: "find (has_key key) kvs = None \<longleftrightarrow> key \<notin> set (map (\<lambda>e. node_Value (entry_key e)) kvs)"
  by (auto simp: find_None_iff has_key_def)

lemma on_pairs_find [simp]: "find (has_key key) kvs = None \<Longrightarrow> find (has_key key) (on_pairs f kvs) = None"
  using on_pairs_keys [of f kvs] by (metis find_has_key)

lemma find_upd_first: "find P xs = Some x \<Longrightarrow> P (f x) \<Longrightarrow> find P (upd_first P f xs) = Some (f x)"
  by (induction xs) (auto split: if_splits)

lemma upd_first_twice: "(\<And>x. P x \<Longrightarrow> P (f x)) \<Longrightarrow> upd_first P g (upd_first P f xs) = upd_first P (\<lambda>x. g (f x)) xs"
  by (induction xs) auto

lemma upd_first_same: "find P xs = Some x \<Longrightarrow> f x = x \<Longrightarrow> upd_first P f xs = xs"
  by (induction xs) (auto split: if_splits)

lemma find_onServices:
  "findComposeServicesNode n = Some s \<Longrightarrow> findComposeServicesNode (onServices f n) = Some (f s)"
  "find_pairs kvs = Some s \<Longrightarrow> find_pairs (on_pairs f kvs) = Some (f s)"
  "find_nodes ns = Some s \<Longrightarrow> find_nodes (on_nodes f ns) = Some (f s)"
proof (induction n and kvs and ns rule: findComposeServicesNode_find_pairs_find_nodes.induct)
  case (3 kvs)
  show ?case
  proof (cases "find (has_key ''services'') kvs")
    case None
    then show ?thesis using 3 by simp
  next
    case (Some kv)
    then have "has_key ''services'' kv" by (auto simp: find_Some_iff)
    then show ?thesis using Some 3 find_upd_first [OF Some, of "\<lambda>kv. YEntry (entry_key kv) (f (entry_value kv))"] by (simp add: has_key_def)
  qed
qed (auto split: option.splits if_splits)

lemma onServices_twice:
  "onServices g (onServices f n) = onServices (\<lambda>s. g (f s)) n"
  "on_pairs g (on_pairs f kvs) = on_pairs (\<lambda>s. g (f s)) kvs"
  "on_nodes g (on_nodes f ns) = on_nodes (\<lambda>s. g (f s)) ns"
proof (induction n and kvs and ns rule: findComposeServicesNode_find_pairs_find_nodes.induct)
  case (3 kvs)
  show ?case
  proof (cases "find (has_key ''services'') kvs")
    case None
    then show ?thesis using 3 by simp
  next
    case (Some kv)
    then have "has_key ''services'' kv" by (auto simp: find_Some_iff)
    moreover have "upd_first (has_key ''services'') (\<lambda>kv. YEntry (entry_key kv) (g (entry_value kv)))
        (upd_first (has_key ''services'') (\<lambda>kv. YEntry (entry_key kv) (f (entry_value kv))) kvs)
      = upd_first (has_key ''services'') (\<lambda>kv. YEntry (entry_key kv) (g (f (entry_value kv)))) kvs"
      by (subst upd_first_twice) (simp_all add: has_key_def)
    ultimately show ?thesis using Some find_upd_first [OF Some, of "\<lambda>kv. YEntry (entry_key kv) (f (entry_value kv))"]
      by (simp add: has_key_def)
  qed
qed (auto dest: find_onServices(1) [of _ _ f])

lemma onServices_same:
  "findComposeServicesNode n = Some s \<Longrightarrow> onServices (\<lambda>_. s) n = n"
  "find_pairs kvs = Some s \<Longrightarrow> on_pairs (\<lambda>_. s) kvs = kvs"
  "find_nodes ns = Some s \<Longrightarrow> on_nodes (\<lambda>_. s) ns = ns"
proof (induction n and kvs and ns rule: findComposeServicesNode_find_pairs_find_nodes.induct)
  case (3 kvs)
  then show ?case by (cases "find (has_key ''services'') kvs") (auto intro!: upd_first_same)
qed (auto split: option.splits if_splits)

text \<open>How an entry of the services may differ after the patch: its image is set, its build is gone, the rest is kept.\<close>

definition entry_of :: "string \<Rightarrow> yentry list \<Rightarrow> ynode option" where
  "entry_of key kvs = map_option entry_value (find (has_key key) kvs)"

definition unique_keys :: "yentry list \<Rightarrow> bool" where
  "unique_keys kvs \<longleftrightarrow> distinct (map (\<lambda>e. node_Value (entry_key e)) kvs)"

definition other_keys :: "yentry list \<Rightarrow> yentry list" where
  "other_keys kvs = filter (\<lambda>e. \<not> has_key ''image'' e \<and> \<not> has_key ''build'' e) kvs"

definition runs_image :: "string \<Rightarrow> yentry list \<Rightarrow> yentry list \<Rightarrow> bool" where
  "runs_image img old new \<longleftrightarrow> entry_of ''image'' new = Some (YScalar ''!!str'' img)
     \<and> (unique_keys old \<longrightarrow> entry_of ''build'' new = None) \<and> other_keys new = other_keys old"

fun patched_entry :: "(string \<times> string) list \<Rightarrow> yentry \<Rightarrow> yentry \<Rightarrow> bool" where
  "patched_entry images (YEntry k v) (YEntry k' v') \<longleftrightarrow> k' = k \<and>
     (case map_of images (node_Value k) of
        None \<Rightarrow> v' = v
      | Some img \<Rightarrow>
          (case v of YMapping m \<Rightarrow> if img = '''' then v' = v else \<exists>m'. v' = YMapping m' \<and> runs_image img m m' | _ \<Rightarrow> v' = v))"

lemma remove_first_find: "unique_keys kvs \<Longrightarrow> find (has_key key) (remove_first (has_key key) kvs) = None"
  by (induction kvs) (auto simp: unique_keys_def has_key_def find_None_iff image_iff)

lemma remove_first_other: "(\<And>x. Q x \<Longrightarrow> \<not> P x) \<Longrightarrow> filter Q (remove_first P xs) = filter Q xs"
  by (induction xs) auto

lemma upd_first_other: "(\<And>x. P x \<Longrightarrow> \<not> Q x \<and> \<not> Q (f x)) \<Longrightarrow> filter Q (upd_first P f xs) = filter Q xs"
  by (induction xs) auto

lemma find_upd_first_other: "(\<And>x. P x \<Longrightarrow> \<not> Q x \<and> \<not> Q (f x)) \<Longrightarrow> find Q (upd_first P f xs) = find Q xs"
  by (induction xs) auto

lemma set_image_entry:
  "setComposeMappingValue ''image'' img (YMapping m) = YMapping m' \<Longrightarrow>
     entry_of ''image'' m' = Some (YScalar ''!!str'' img) \<and> find (has_key ''build'') m' = find (has_key ''build'') m
     \<and> other_keys m' = other_keys m"
proof (cases "list_ex (has_key ''image'') m")
  case True
  then obtain kv where kv: "find (has_key ''image'') m = Some kv" by (cases "find (has_key ''image'') m") (auto simp: find_None_iff list_ex_iff)
  then have "has_key ''image'' kv" by (auto simp: find_Some_iff)
  moreover assume "setComposeMappingValue ''image'' img (YMapping m) = YMapping m'"
  then have m': "m' = upd_first (has_key ''image'') (\<lambda>kv. YEntry (entry_key kv) (YScalar ''!!str'' img)) m" using True by simp
  ultimately have "entry_of ''image'' m' = Some (YScalar ''!!str'' img)"
    using find_upd_first [OF kv, of "\<lambda>kv. YEntry (entry_key kv) (YScalar ''!!str'' img)"] by (simp add: entry_of_def has_key_def)
  moreover have "find (has_key ''build'') m' = find (has_key ''build'') m" unfolding m' by (rule find_upd_first_other) (simp add: has_key_def)
  moreover have "other_keys m' = other_keys m" unfolding m' other_keys_def by (rule upd_first_other) (simp add: has_key_def)
  ultimately show ?thesis by simp
next
  case False
  assume "setComposeMappingValue ''image'' img (YMapping m) = YMapping m'"
  then have m': "m' = m @ [YEntry (YScalar '''' ''image'') (YScalar ''!!str'' img)]" using False by simp
  moreover have "find (has_key ''image'') m = None" using False by (simp add: find_None_iff list_ex_iff)
  ultimately show ?thesis by (simp add: entry_of_def other_keys_def find_append split: option.split)
qed

lemma patchService_ok: "patched_entry images kv (patchService images kv)"
proof (cases kv)
  case (YEntry k v)
  show ?thesis
  proof (cases "map_of images (node_Value k)")
    case (Some img)
    show ?thesis
    proof (cases v)
      case (YMapping m)
      define m1 where "m1 = remove_first (has_key ''build'') m"
      obtain m' where m': "setComposeMappingValue ''image'' img (YMapping m1) = YMapping m'" by simp
      have "other_keys m1 = other_keys m" unfolding m1_def other_keys_def by (rule remove_first_other) simp
      then have "runs_image img m m'" using set_image_entry [OF m'] remove_first_find [of m "''build''"]
        by (simp add: runs_image_def m1_def entry_of_def)
      then show ?thesis using YEntry Some YMapping m' by (simp add: patchService_def m1_def)
    qed (use YEntry Some in \<open>simp_all add: patchService_def\<close>)
  qed (use YEntry in \<open>simp add: patchService_def\<close>)
qed

text \<open>
  C32: In the staged compose file every service that was migrated with an image runs that image and no longer has a
  build of its own, its other settings, the other services and the rest of the document being kept.
\<close>

theorem services_run_migrated_images:
  assumes "findComposeServicesNode tree = Some (YMapping kvs)"
  shows "\<exists>kvs'. findComposeServicesNode (onServices (patchServices images) tree) = Some (YMapping kvs')
    \<and> list_all2 (patched_entry images) kvs kvs'
    \<and> onServices (\<lambda>_. YMapping kvs) (onServices (patchServices images) tree) = tree"
proof (intro exI conjI)
  show "findComposeServicesNode (onServices (patchServices images) tree) = Some (YMapping (map (patchService images) kvs))"
    using find_onServices(1) [OF assms] by simp
  show "list_all2 (patched_entry images) kvs (map (patchService images) kvs)"
    by (simp add: list.rel_map list.rel_refl patchService_ok)
  show "onServices (\<lambda>_. YMapping kvs) (onServices (patchServices images) tree) = tree"
    using onServices_same(1) [OF assms] by (simp add: onServices_twice)
qed

section \<open>Examples\<close>

definition desktop_container :: "string \<Rightarrow> string \<Rightarrow> string \<Rightarrow> containerInspect" where
  "desktop_container name project img = \<lparr>ci_Name = ''/'' @ name, ci_Image = img, ci_Env = [], ci_Cmd = [], ci_Entrypoint = [],
     ci_WorkingDir = '''', ci_Hostname = '''', ci_User = '''',
     ci_Labels = (if project = '''' then [] else [(ComposeProjectLabel, project), (ComposeServiceLabel, name)]),
     ci_NetworkMode = '''', ci_Binds = [], ci_ExtraHosts = [], ci_PortBindings = [], ci_RestartPolicy = '''', ci_Mounts = [],
     ci_Status = ''running''\<rparr>"

theorem projects_partition_containers_witness:
  "let is = [desktop_container ''web'' ''shop'' ''shop-web'', desktop_container ''db'' '''' ''postgres'', desktop_container ''api'' ''shop'' ''shop-api''];
       (groups, standalone) = groupContainersByComposeProject id is (\<lambda>_. True)
   in map containerName standalone = [''db''] \<and> map cg_Name groups = [''shop'']
     \<and> list_all (\<lambda>g. group_ok (\<lambda>_. True) is (cg_Name g) g) groups"
proof -
  let ?is = "[desktop_container ''web'' ''shop'' ''shop-web'', desktop_container ''db'' '''' ''postgres'', desktop_container ''api'' ''shop'' ''shop-api'']"
  obtain groups standalone where r: "groupContainersByComposeProject id ?is (\<lambda>_. True) = (groups, standalone)"
    by (cases "groupContainersByComposeProject id ?is (\<lambda>_. True)")
  have p: "composeProjectName (desktop_container n q i) = q" for n q i
    by (simp add: composeProjectName_def desktop_container_def label_def ComposeProjectLabel_def ComposeServiceLabel_def)
  have "{q. (q = ''shop'' \<or> q = '''' \<or> q = ''shop'') \<and> q \<noteq> ''''} = {''shop''}" by auto
  moreover have "containerName (desktop_container ''db'' '''' ''postgres'') = ''db''"
    by (simp add: containerName_def desktop_container_def TrimPrefix_def HasPrefix_def)
  ultimately show ?thesis using projects_partition_containers [OF r] r p by simp
qed

definition demo_compose :: ynode where
  "demo_compose = YDocument [YMapping [YEntry (YScalar '''' ''services'')
     (YMapping [YEntry (YScalar '''' ''web'') (YMapping [YEntry (YScalar '''' ''build'') (YScalar '''' ''.''), YEntry (YScalar '''' ''restart'') (YScalar '''' ''always'')]),
                YEntry (YScalar '''' ''db'') (YMapping [YEntry (YScalar '''' ''image'') (YScalar '''' ''postgres'')])])]]"

theorem services_run_migrated_images_witness:
  "\<exists>kvs. findComposeServicesNode demo_compose = Some (YMapping kvs) \<and> length kvs = 2 \<and>
     (\<exists>kvs'. findComposeServicesNode (onServices (patchServices [(''web'', ''shop-web'')]) demo_compose) = Some (YMapping kvs')
       \<and> list_all2 (patched_entry [(''web'', ''shop-web'')]) kvs kvs'
       \<and> onServices (\<lambda>_. YMapping kvs) (onServices (patchServices [(''web'', ''shop-web'')]) demo_compose) = demo_compose)"
proof -
  obtain kvs where k: "findComposeServicesNode demo_compose = Some (YMapping kvs)" "length kvs = 2" by (simp add: demo_compose_def)
  from services_run_migrated_images [OF k(1)] k show ?thesis by blast
qed

text \<open>A build that a service gets through a merge key stays: the patch looks only at the entries of the service itself.\<close>

lemma merged_build_stays:
  "patchService [(''web'', img)] (YEntry (YScalar '''' ''web'') (YMapping [YEntry (YScalar ''!!merge'' ''<<'') (YAlias ''base'')]))
     = (if img = '''' then YEntry (YScalar '''' ''web'') (YMapping [YEntry (YScalar ''!!merge'' ''<<'') (YAlias ''base'')])
        else YEntry (YScalar '''' ''web'') (YMapping [YEntry (YScalar ''!!merge'' ''<<'') (YAlias ''base''),
               YEntry (YScalar '''' ''image'') (YScalar ''!!str'' img)]))"
  by (simp add: patchService_def)

text \<open>A project label of two dots makes the root of all mounts the staging directory, which is emptied first.\<close>

lemma dotted_project_stages_in_root:
  "cg_Name g = ''..'' \<Longrightarrow> stageDir ''/h/.config/calf/mounts'' g = ''/h/.config/calf/mounts''"
  by (simp add: stageDir_def SanitizeFileName_def) code_simp

end
