(* ===== verification/Calf_Migration.thy ===== *)
theory Calf_Migration
  imports Calf_Compose Calf_Config Calf_Builds Calf_Sizes
begin

text \<open>
  The migration from Docker Desktop: \<open>migration/docker_desktop.go\<close>, \<open>disk.go\<close>, \<open>status.go\<close> and \<open>dockerexec/run.go\<close>.
  Both engines are reached through one function that runs \<open>docker\<close> against a socket and changes a world of any type.
  The statuses passed to \<open>OnStatus\<close> are collected; log output is left out.
\<close>

section \<open>Status\<close>

record Summary =
  su_ConfigApplied :: bool
  su_ImagesTotal :: int
  su_ImagesOK :: int
  su_VolumesTotal :: int
  su_VolumesOK :: int
  su_ContainersTotal :: int
  su_ContainersOK :: int
  su_BuildsTotal :: int
  su_BuildsOK :: int

record migStatus =
  ms_Phase :: string
  ms_Step :: string
  ms_Progress :: int
  ms_Message :: string
  ms_Error :: string
  ms_Summary :: Summary

definition MigrationPhaseIdle :: string where "MigrationPhaseIdle = ''idle''"

definition MigrationPhaseRunning :: string where "MigrationPhaseRunning = ''running''"

definition MigrationPhaseCompleted :: string where "MigrationPhaseCompleted = ''completed''"

definition MigrationPhaseFailed :: string where "MigrationPhaseFailed = ''failed''"

definition emptySummary :: Summary where
  "emptySummary = \<lparr>su_ConfigApplied = False, su_ImagesTotal = 0, su_ImagesOK = 0, su_VolumesTotal = 0, su_VolumesOK = 0,
     su_ContainersTotal = 0, su_ContainersOK = 0, su_BuildsTotal = 0, su_BuildsOK = 0\<rparr>"

definition IdleStatus :: migStatus where
  "IdleStatus = \<lparr>ms_Phase = MigrationPhaseIdle, ms_Step = ''idle'', ms_Progress = 0, ms_Message = ''Ready to migrate'', ms_Error = '''',
     ms_Summary = emptySummary\<rparr>"

definition formatCompletionMessage :: "Summary \<Rightarrow> string" where
  "formatCompletionMessage s =
     (if su_ImagesOK s < su_ImagesTotal s \<or> su_VolumesOK s < su_VolumesTotal s \<or> su_ContainersOK s < su_ContainersTotal s
      then ''Migration completed with warnings (images '' @ show_int (su_ImagesOK s) @ ''/'' @ show_int (su_ImagesTotal s)
         @ '', volumes '' @ show_int (su_VolumesOK s) @ ''/'' @ show_int (su_VolumesTotal s)
         @ '', containers '' @ show_int (su_ContainersOK s) @ ''/'' @ show_int (su_ContainersTotal s)
         @ '', builds '' @ show_int (su_BuildsOK s) @ ''/'' @ show_int (su_BuildsTotal s) @ '')''
      else ''Migration completed'')"

section \<open>The outside\<close>

record dockerSettings =
  ds_CPUs :: int
  ds_MemoryMiB :: int
  ds_SwapMiB :: int

record parsedSettings =
  pa_CPUs :: int
  pa_MemoryGB :: int
  pa_SwapGB :: int

text \<open>A failed command has an error and its output.  \<open>me_walk\<close> is the order in which Go walks the keys of a map.\<close>

record 'w MigEnv =
  me_stage :: "'w StageEnv"
  me_docker :: "string \<Rightarrow> string list \<Rightarrow> 'w \<Rightarrow> ((go_error \<times> string) + string) \<times> 'w"
  me_LookPath :: "'w \<Rightarrow> go_error option \<times> 'w"
  me_Remove :: "string \<Rightarrow> 'w \<Rightarrow> 'w"
  me_settings :: "string \<Rightarrow> dockerSettings result"
  me_inspects :: "string \<Rightarrow> containerInspect list result"
  me_row :: "string \<Rightarrow> Row result"
  me_now :: "'w \<Rightarrow> Time \<times> 'w"
  me_walk :: "string list \<Rightarrow> string list"

record 'w Options =
  op_CalfSocket :: string
  op_VMName :: string
  op_RunNerdctl :: "(string list \<Rightarrow> 'w \<Rightarrow> go_error option \<times> 'w) option"
  op_SaveConfig :: "(Config \<Rightarrow> 'w \<Rightarrow> go_error option \<times> 'w) option"
  op_AddBuild :: "(Build \<Rightarrow> 'w \<Rightarrow> 'w) option"

definition docker_Run :: "'w MigEnv \<Rightarrow> string \<Rightarrow> 'w runner" where
  "docker_Run env socket args w =
     (case me_docker env socket args w of
        (Inl (err, output), w1) \<Rightarrow> (Inl (Wrap (''docker '' @ Join args '' '') (Suffixed err (TrimSpace output))), w1)
      | (Inr output, w1) \<Rightarrow> (Inr output, w1))"

definition RunError :: "'w MigEnv \<Rightarrow> string \<Rightarrow> string list \<Rightarrow> 'w \<Rightarrow> go_error option \<times> 'w" where
  "RunError env socket args w = (case docker_Run env socket args w of (Inl err, w1) \<Rightarrow> (Some err, w1) | (Inr _, w1) \<Rightarrow> (None, w1))"

text \<open>Commands for the engine of calf go through nerdctl where it is given, and through docker otherwise.\<close>

definition onCalf :: "'w MigEnv \<Rightarrow> 'w Options \<Rightarrow> string list \<Rightarrow> 'w \<Rightarrow> go_error option \<times> 'w" where
  "onCalf env opts args w =
     (case op_RunNerdctl opts of Some run \<Rightarrow> run args w | None \<Rightarrow> RunError env (op_CalfSocket opts) args w)"

section \<open>Disk space (disk.go)\<close>

definition MigrationHeadroomBytes :: int where "MigrationHeadroomBytes = 2 * BytesPerGiB"

fun estimate_loop :: "string list \<Rightarrow> int \<Rightarrow> int result" where
  "estimate_loop [] acc = Inr acc"
| "estimate_loop (line # ls) acc =
     (case Split (TrimSpace line) (CHR 0x09) of
        [kind, sz] \<Rightarrow>
          if kind \<in> {''Images'', ''Local Volumes'', ''Containers''}
          then (case ParseDockerHumanSize sz of Inl err \<Rightarrow> Inl err | Inr n \<Rightarrow> estimate_loop ls (acc + n))
          else estimate_loop ls acc
      | _ \<Rightarrow> estimate_loop ls acc)"

definition dfFormat :: string where
  "dfFormat = ''{{.Type}}'' @ [CHR 0x09] @ ''{{.Size}}''"

definition estimateMigrationBytes :: "'w MigEnv \<Rightarrow> string \<Rightarrow> 'w \<Rightarrow> int result \<times> 'w" where
  "estimateMigrationBytes env ddSocket w =
     (case docker_Run env ddSocket [''system'', ''df'', ''--format'', dfFormat] w of
        (Inl err, w1) \<Rightarrow> (Inl err, w1)
      | (Inr output, w1) \<Rightarrow>
          (case estimate_loop (Split output (CHR 0x0A)) 0 of
             Inl err \<Rightarrow> (Inl err, w1)
           | Inr acc \<Rightarrow> (Inr (acc + MigrationHeadroomBytes), w1)))"

fun avail_loop :: "string list \<Rightarrow> int option" where
  "avail_loop [] = None"
| "avail_loop (l # ls) =
     (let line = TrimSpace l in
      if line = '''' \<or> EqualFold line ''Avail'' then avail_loop ls
      else case ParseInt64 line of Some avail \<Rightarrow> Some avail | None \<Rightarrow> avail_loop ls)"

definition parseAvailBytes :: "string \<Rightarrow> int result" where
  "parseAvailBytes output =
     (case avail_loop (Split output (CHR 0x0A)) of
        Some avail \<Rightarrow> Inr avail
      | None \<Rightarrow> Inl (Errorf (''parse df output: '' @ Quote (TrimSpace output))))"

definition engineFreeBytes :: "'w MigEnv \<Rightarrow> string \<Rightarrow> 'w \<Rightarrow> int result \<times> 'w" where
  "engineFreeBytes env calfSocket w =
     (case docker_Run env calfSocket [''run'', ''--rm'', ''--privileged'', AlpineSmokeImage, ''sh'', ''-c'',
                                      ''df -B1 / | awk '' @ [CHR 0x27] @ ''NR==2 {print $4}'' @ [CHR 0x27]] w of
        (Inl err, w1) \<Rightarrow> (Inl err, w1)
      | (Inr output, w1) \<Rightarrow> (parseAvailBytes output, w1))"

definition bytesToGiB :: "int \<Rightarrow> int" where
  "bytesToGiB bytes = (bytes + BytesPerGiB - 1) div BytesPerGiB"

text \<open>The sizes of the message are printed by \<open>FormatBytes\<close>, which panics for a pebibyte and more: the outer \<open>None\<close>.\<close>

definition checkMigrationDiskSpace :: "'w MigEnv \<Rightarrow> string \<Rightarrow> string \<Rightarrow> 'w \<Rightarrow> go_error option option \<times> 'w" where
  "checkMigrationDiskSpace env calfSocket ddSocket w =
     (case estimateMigrationBytes env ddSocket w of
        (Inl err, w1) \<Rightarrow> (Some (Some (Wrap ''estimate migration size'' err)), w1)
      | (Inr required, w1) \<Rightarrow>
          (case engineFreeBytes env calfSocket w1 of
             (Inl err, w2) \<Rightarrow> (Some (Some (Wrap ''check engine disk space'' err)), w2)
           | (Inr free, w2) \<Rightarrow>
               if free \<ge> required then (Some None, w2)
               else (case (FormatBytes free, FormatBytes required) of
                       (Some f, Some r) \<Rightarrow>
                         (Some (Some (Errorf (''engine has '' @ f @ '' free but migration needs ~'' @ r @ '' (~''
                            @ show_int (bytesToGiB required + 10)
                            @ '' GiB recommended). Free space in the guest or rebuild the guest disk (make guest-disk), then retry''))), w2)
                     | _ \<Rightarrow> (None, w2))))"

section \<open>What is read from Docker Desktop (docker\_desktop.go)\<close>

definition joined :: "string \<Rightarrow> string list \<Rightarrow> string" where
  "joined dir parts = fold (\<lambda>part path. filepath_Join path part) parts dir"

definition DockerDesktopSocket :: "'w MigEnv \<Rightarrow> 'w \<Rightarrow> string \<times> 'w" where
  "DockerDesktopSocket env w =
     (case se_home (me_stage env) of
        Inl _ \<Rightarrow> ('''', w)
      | Inr h \<Rightarrow>
          (case first_existing (me_stage env) [joined h [''.docker'', ''run'', ''docker.sock''],
             joined h [''Library'', ''Containers'', ''com.docker.docker'', ''Data'', ''docker-cli.sock'']] w of
             (None, w1) \<Rightarrow> ('''', w1)
           | (Some candidate, w1) \<Rightarrow> (candidate, w1)))"

definition MountsSubdir :: "'w StageEnv \<Rightarrow> string \<Rightarrow> 'w \<Rightarrow> string result \<times> 'w" where
  "MountsSubdir env name w =
     (case MountsDir (se_home env) of
        Inl err \<Rightarrow> (Inl err, w)
      | Inr dir \<Rightarrow>
          let path = filepath_Join dir name in
          (case se_MkdirAll env path w of
             (Some err, w1) \<Rightarrow> (Inl (Wrap (''create '' @ path) err), w1)
           | (None, w1) \<Rightarrow> (Inr path, w1)))"

definition StagingDir :: "'w StageEnv \<Rightarrow> 'w \<Rightarrow> string result \<times> 'w" where
  "StagingDir env w = MountsSubdir env ''migrate'' w"

definition EnsureMountsDir :: "'w StageEnv \<Rightarrow> 'w \<Rightarrow> string result \<times> 'w" where
  "EnsureMountsDir env w =
     (case MountsDir (se_home env) of
        Inl err \<Rightarrow> (Inl err, w)
      | Inr dir \<Rightarrow>
          (case se_MkdirAll env dir w of
             (Some err, w1) \<Rightarrow> (Inl (Wrap (''create '' @ dir) err), w1)
           | (None, w1) \<Rightarrow> (Inr dir, w1)))"

definition parsedSettingsOf :: "dockerSettings \<Rightarrow> parsedSettings" where
  "parsedSettingsOf raw = \<lparr>pa_CPUs = (if ds_CPUs raw \<le> 0 then cf_CPUs Default else ds_CPUs raw),
     pa_MemoryGB = (if ds_MemoryMiB raw \<le> 0 then cf_MemoryGB Default else MaxInt (ds_MemoryMiB raw div 1024) 1),
     pa_SwapGB = (if ds_SwapMiB raw \<le> 0 then cf_MemorySwapGB Default else ds_SwapMiB raw div 1024)\<rparr>"

fun settings_loop :: "'w MigEnv \<Rightarrow> string list \<Rightarrow> 'w \<Rightarrow> parsedSettings option \<times> 'w" where
  "settings_loop env [] w = (None, w)"
| "settings_loop env (path # paths) w =
     (case se_ReadFile (me_stage env) path w of
        (Inl _, w1) \<Rightarrow> settings_loop env paths w1
      | (Inr data, w1) \<Rightarrow>
          (case me_settings env data of Inl _ \<Rightarrow> settings_loop env paths w1 | Inr raw \<Rightarrow> (Some (parsedSettingsOf raw), w1)))"

definition readDockerDesktopSettings :: "'w MigEnv \<Rightarrow> 'w \<Rightarrow> parsedSettings option \<times> 'w" where
  "readDockerDesktopSettings env w =
     (case se_home (me_stage env) of
        Inl _ \<Rightarrow> (None, w)
      | Inr h \<Rightarrow>
          let group = joined h [''Library'', ''Group Containers'', ''group.com.docker'']
          in settings_loop env [filepath_Join group ''settings-store.json'', filepath_Join group ''settings.json''] w)"

definition listed :: "'w MigEnv \<Rightarrow> string \<Rightarrow> string list \<Rightarrow> (string \<Rightarrow> bool) option \<Rightarrow> 'w \<Rightarrow> string list result \<times> 'w" where
  "listed env socket args keep w =
     (case docker_Run env socket args w of (Inl err, w1) \<Rightarrow> (Inl err, w1) | (Inr output, w1) \<Rightarrow> (Inr (ParseLines output keep), w1))"

definition listImageRefs :: "'w MigEnv \<Rightarrow> string \<Rightarrow> 'w \<Rightarrow> string list result \<times> 'w" where
  "listImageRefs env socket w =
     listed env socket [''images'', ''--format'', ''{{.Repository}}:{{.Tag}}''] (Some (\<lambda>ref. \<not> HasPrefix ref ''<none>'')) w"

definition listVolumeNames :: "'w MigEnv \<Rightarrow> string \<Rightarrow> 'w \<Rightarrow> string list result \<times> 'w" where
  "listVolumeNames env socket w = listed env socket [''volume'', ''ls'', ''--format'', ''{{.Name}}''] None w"

definition listContainerIDs :: "'w MigEnv \<Rightarrow> string \<Rightarrow> 'w \<Rightarrow> string list result \<times> 'w" where
  "listContainerIDs env socket w = listed env socket [''ps'', ''-a'', ''--format'', ''{{.ID}}''] None w"

definition inspectOnDesktop :: "'w MigEnv \<Rightarrow> string \<Rightarrow> string \<Rightarrow> 'w \<Rightarrow> (containerInspect \<times> bool) result \<times> 'w" where
  "inspectOnDesktop env socket cid w =
     (case docker_Run env socket [''inspect'', cid] w of
        (Inl err, w1) \<Rightarrow> (Inl err, w1)
      | (Inr output, w1) \<Rightarrow>
          (case me_inspects env output of
             Inr (row # _) \<Rightarrow> (Inr (row, EqualFold (ci_Status row) ''running''), w1)
           | _ \<Rightarrow> (Inl (Errorf (''inspect container '' @ cid)), w1)))"

section \<open>Containers on calf\<close>

definition mountSpec :: "string \<Rightarrow> inspectMount \<Rightarrow> string" where
  "mountSpec source m = source @ '':'' @ im_Destination m
     @ (if im_Mode m \<noteq> '''' then '':'' @ im_Mode m else if \<not> im_RW m then '':ro'' else '''')"

definition mountBind :: "inspectMount \<Rightarrow> string option" where
  "mountBind m =
     (if im_Type m = ''bind'' then (if im_Source m = '''' \<or> im_Destination m = '''' then None else Some (mountSpec (im_Source m) m))
      else if im_Type m = ''volume'' then (if im_Destination m = '''' \<or> im_Name m = '''' then None else Some (mountSpec (im_Name m) m))
      else None)"

definition containerBindMounts :: "containerInspect \<Rightarrow> string list" where
  "containerBindMounts i = (if ci_Binds i \<noteq> [] then ci_Binds i else List.map_filter mountBind (ci_Mounts i))"

definition flag :: "string \<Rightarrow> string list \<Rightarrow> string list" where
  "flag name vs = concat (map (\<lambda>v. [name, v]) vs)"

definition unlessEmpty :: "string \<Rightarrow> string list" where
  "unlessEmpty v = (if v = '''' then [] else [v])"

definition portMapping :: "string \<Rightarrow> string \<times> string \<Rightarrow> string" where
  "portMapping port binding =
     (let mapping = snd binding @ '':'' @ hd (Split port (CHR ''/''))
      in if fst binding \<noteq> '''' \<and> fst binding \<noteq> ''0.0.0.0'' then fst binding @ '':'' @ mapping else mapping)"

definition networkArgs :: "string \<Rightarrow> string list" where
  "networkArgs mode =
     (if mode = ''host'' then [''--network'', ''host'']
      else if mode \<in> {'''', ''default'', ''bridge''} then []
      else if HasPrefix mode ''container:'' then [] else [''--network'', mode])"

definition portArgs :: "(string list \<Rightarrow> string list) \<Rightarrow> (string \<times> (string \<times> string) list) list \<Rightarrow> string list" where
  "portArgs walk ports =
     concat (map (\<lambda>port. flag ''-p'' (map (portMapping port) (case map_of ports port of Some bs \<Rightarrow> bs | None \<Rightarrow> []))) (walk (map fst ports)))"

definition createArgs :: "(string list \<Rightarrow> string list) \<Rightarrow> containerInspect \<Rightarrow> string list" where
  "createArgs walk i =
     ''create'' # flag ''--name'' (unlessEmpty (containerName i))
     @ flag ''--label'' (map (\<lambda>(k, v). k @ ''='' @ v) (migrationLabels i))
     @ flag ''-e'' (ci_Env i) @ flag ''-v'' (containerBindMounts i)
     @ flag ''-w'' (unlessEmpty (ci_WorkingDir i)) @ flag ''--hostname'' (unlessEmpty (ci_Hostname i))
     @ flag ''--user'' (unlessEmpty (ci_User i)) @ flag ''--add-host'' (ci_ExtraHosts i)
     @ flag ''--restart'' (if ci_RestartPolicy i = ''no'' then [] else unlessEmpty (ci_RestartPolicy i))
     @ networkArgs (ci_NetworkMode i) @ portArgs walk (ci_PortBindings i)
     @ flag ''--entrypoint'' (take 1 (ci_Entrypoint i)) @ [ci_Image i] @ ci_Cmd i"

definition createContainerOnCalf :: "'w MigEnv \<Rightarrow> 'w Options \<Rightarrow> containerInspect \<Rightarrow> 'w \<Rightarrow> go_error option \<times> 'w" where
  "createContainerOnCalf env opts i w = onCalf env opts (createArgs (me_walk env) i) w"

definition loadImageOnCalf :: "'w MigEnv \<Rightarrow> 'w Options \<Rightarrow> string \<Rightarrow> 'w \<Rightarrow> go_error option \<times> 'w" where
  "loadImageOnCalf env opts tarPath w =
     (case op_RunNerdctl opts of
        Some run \<Rightarrow>
          (case HostMountToVMPath (se_home (me_stage env)) tarPath of
             Inl err \<Rightarrow> (Some (Wrap ''map image tar path to VM path'' err), w)
           | Inr vmTarPath \<Rightarrow> run [''load'', ''-i'', vmTarPath] w)
      | None \<Rightarrow> RunError env (op_CalfSocket opts) [''load'', ''-i'', tarPath] w)"

definition createVolumeOnCalf :: "'w MigEnv \<Rightarrow> 'w Options \<Rightarrow> string \<Rightarrow> 'w \<Rightarrow> go_error option \<times> 'w" where
  "createVolumeOnCalf env opts name w = onCalf env opts [''volume'', ''create'', name] w"

definition importVolumeOnCalf :: "'w MigEnv \<Rightarrow> 'w Options \<Rightarrow> string \<Rightarrow> string \<Rightarrow> 'w \<Rightarrow> go_error option \<times> 'w" where
  "importVolumeOnCalf env opts name tarName w =
     onCalf env opts [''run'', ''--rm'', ''-v'', name @ '':/to'', ''-v'', ''/mnt/calf/migrate:/from:ro'', AlpineSmokeImage,
                      ''sh'', ''-c'', ''cd /to && tar xzf /from/'' @ tarName] w"

fun stop_idle :: "'w MigEnv \<Rightarrow> 'w Options \<Rightarrow> (string \<times> bool) list \<Rightarrow> string list \<Rightarrow> 'w \<Rightarrow> 'w" where
  "stop_idle env opts wasRunning [] w = w"
| "stop_idle env opts wasRunning (name # names) w =
     stop_idle env opts wasRunning names (if map_of wasRunning name = Some False then snd (onCalf env opts [''stop'', name] w) else w)"

definition migrateComposeProject :: "'w MigEnv \<Rightarrow> 'w Options \<Rightarrow> composeProjectGroup \<Rightarrow> string \<Rightarrow> 'w \<Rightarrow> go_error option \<times> 'w" where
  "migrateComposeProject env opts g mountsRoot w =
     (case stageComposeProject (me_stage env) g mountsRoot w of
        (Inl err, w1) \<Rightarrow> (Some err, w1)
      | (Inr (vmDir, vmComposePath), w1) \<Rightarrow>
          (case onCalf env opts [''compose'', ''-p'', cg_Name g, ''-f'', vmComposePath, ''--project-directory'', vmDir, ''up'', ''-d''] w1 of
             (Some err, w2) \<Rightarrow> (Some err, w2)
           | (None, w2) \<Rightarrow> (None, stop_idle env opts (cg_WasRunning g) (me_walk env (map fst (cg_WasRunning g))) w2)))"

section \<open>The run\<close>

text \<open>The status of the run, the statuses shown so far, oldest first, and the world.\<close>

record 'w mig =
  mg_status :: migStatus
  mg_shown :: "migStatus list"
  mg_world :: 'w

definition emit :: "(migStatus \<Rightarrow> migStatus) \<Rightarrow> 'w mig \<Rightarrow> 'w mig" where
  "emit f g = (let s = f (mg_status g) in g\<lparr>mg_status := s, mg_shown := mg_shown g @ [s]\<rparr>)"

definition inWorld :: "('w \<Rightarrow> 'a \<times> 'w) \<Rightarrow> 'w mig \<Rightarrow> 'a \<times> 'w mig" where
  "inWorld f g = (let (r, w) = f (mg_world g) in (r, g\<lparr>mg_world := w\<rparr>))"

definition onSummary :: "(Summary \<Rightarrow> Summary) \<Rightarrow> migStatus \<Rightarrow> migStatus" where
  "onSummary f s = s\<lparr>ms_Summary := f (ms_Summary s)\<rparr>"

definition migrateConfig :: "'w MigEnv \<Rightarrow> 'w Options \<Rightarrow> 'w mig \<Rightarrow> go_error option \<times> 'w mig" where
  "migrateConfig env opts g =
     (let g1 = emit (\<lambda>s. s\<lparr>ms_Step := ''config'', ms_Progress := 5, ms_Message := ''Migrating Docker Desktop settings''\<rparr>) g in
      case inWorld (readDockerDesktopSettings env) g1 of
        (None, g2) \<Rightarrow> (None, g2)
      | (Some settings, g2) \<Rightarrow>
          (case op_SaveConfig opts of
             None \<Rightarrow> (None, g2)
           | Some save \<Rightarrow>
               let cfg = Default\<lparr>cf_CPUs := pa_CPUs settings, cf_MemoryGB := pa_MemoryGB settings, cf_MemorySwapGB := pa_SwapGB settings\<rparr> in
               (case inWorld (save cfg) g2 of
                  (Some err, g3) \<Rightarrow> (Some (Wrap ''save config'' err), g3)
                | (None, g3) \<Rightarrow> (None, emit (onSummary (\<lambda>u. u\<lparr>su_ConfigApplied := True\<rparr>)) g3))))"

text \<open>The three loops show a progress and a message before each item.\<close>

fun run_steps ::
    "int \<Rightarrow> int \<Rightarrow> ('x \<Rightarrow> string) \<Rightarrow> (int \<Rightarrow> 'x \<Rightarrow> 'w mig \<Rightarrow> 'w mig) \<Rightarrow> int \<Rightarrow> int \<Rightarrow> 'x list \<Rightarrow> 'w mig \<Rightarrow> 'w mig" where
  "run_steps base width text step n index [] g = g"
| "run_steps base width text step n index (x # xs) g =
     run_steps base width text step n (index + 1) xs
       (step index x (emit (\<lambda>s. s\<lparr>ms_Progress := base + (index * width) div MaxInt n 1, ms_Message := text x\<rparr>) g))"

definition image_step :: "'w MigEnv \<Rightarrow> string \<Rightarrow> 'w Options \<Rightarrow> string \<Rightarrow> int \<Rightarrow> string \<Rightarrow> 'w mig \<Rightarrow> 'w mig" where
  "image_step env ddSocket opts staging index ref g =
     (let tarPath = filepath_Join staging (''image-'' @ show_int index @ ''.tar'') in
      case inWorld (docker_Run env ddSocket [''save'', ''-o'', tarPath, ref]) g of
        (Inl _, g1) \<Rightarrow> g1
      | (Inr _, g1) \<Rightarrow>
          let (err, g2) = inWorld (loadImageOnCalf env opts tarPath) g1;
              g3 = g2\<lparr>mg_world := me_Remove env tarPath (mg_world g2)\<rparr>
          in emit (onSummary (\<lambda>u. if err = None then u\<lparr>su_ImagesOK := su_ImagesOK u + 1\<rparr> else u)) g3)"

definition migrateImages :: "'w MigEnv \<Rightarrow> string \<Rightarrow> 'w Options \<Rightarrow> string \<Rightarrow> 'w mig \<Rightarrow> go_error option \<times> 'w mig" where
  "migrateImages env ddSocket opts staging g =
     (case inWorld (listImageRefs env ddSocket) (emit (\<lambda>s. s\<lparr>ms_Step := ''images'', ms_Message := ''Migrating images''\<rparr>) g) of
        (Inl err, g1) \<Rightarrow> (Some err, g1)
      | (Inr refs, g1) \<Rightarrow>
          let n = int (length refs)
          in (None, run_steps 10 35 (\<lambda>ref. ''Migrating image '' @ ref) (image_step env ddSocket opts staging) n 0 refs
                (emit (onSummary (\<lambda>u. u\<lparr>su_ImagesTotal := n\<rparr>)) g1)))"

definition exportVolumeArgs :: "string \<Rightarrow> string \<Rightarrow> string \<Rightarrow> string list" where
  "exportVolumeArgs name staging tarName =
     [''run'', ''--rm'', ''-v'', name @ '':/from:ro'', ''-v'', staging @ '':/to'', AlpineSmokeImage,
      ''tar'', ''czf'', ''/to/'' @ tarName, ''-C'', ''/from'', ''.'']"

definition volume_step :: "'w MigEnv \<Rightarrow> string \<Rightarrow> 'w Options \<Rightarrow> string \<Rightarrow> int \<Rightarrow> string \<Rightarrow> 'w mig \<Rightarrow> 'w mig" where
  "volume_step env ddSocket opts staging index name g =
     (let tarName = SanitizeFileName name @ ''.tar.gz'';
          tarPath = filepath_Join staging tarName;
          gone = (\<lambda>g. g\<lparr>mg_world := me_Remove env tarPath (mg_world g)\<rparr>)
      in case inWorld (docker_Run env ddSocket (exportVolumeArgs name staging tarName)) g of
           (Inl _, g1) \<Rightarrow> g1
         | (Inr _, g1) \<Rightarrow>
             (case inWorld (createVolumeOnCalf env opts name) g1 of
                (Some _, g2) \<Rightarrow> gone g2
              | (None, g2) \<Rightarrow>
                  let (err, g3) = inWorld (importVolumeOnCalf env opts name tarName) g2
                  in emit (onSummary (\<lambda>u. if err = None then u\<lparr>su_VolumesOK := su_VolumesOK u + 1\<rparr> else u)) (gone g3)))"

definition pullHelper :: "'w MigEnv \<Rightarrow> string \<Rightarrow> 'w Options \<Rightarrow> 'w \<Rightarrow> unit \<times> 'w" where
  "pullHelper env ddSocket opts w =
     (let w1 = snd (docker_Run env ddSocket [''pull'', AlpineSmokeImage] w)
      in ((), case op_RunNerdctl opts of None \<Rightarrow> w1 | Some run \<Rightarrow> snd (run [''pull'', AlpineSmokeImage] w1)))"

definition migrateVolumes :: "'w MigEnv \<Rightarrow> string \<Rightarrow> 'w Options \<Rightarrow> string \<Rightarrow> 'w mig \<Rightarrow> go_error option \<times> 'w mig" where
  "migrateVolumes env ddSocket opts staging g =
     (let g1 = emit (\<lambda>s. s\<lparr>ms_Step := ''volumes'', ms_Progress := 50, ms_Message := ''Migrating volumes''\<rparr>) g;
          g2 = snd (inWorld (pullHelper env ddSocket opts) g1)
      in case inWorld (listVolumeNames env ddSocket) g2 of
           (Inl err, g3) \<Rightarrow> (Some err, g3)
         | (Inr names, g3) \<Rightarrow>
             let n = int (length names)
             in (None, run_steps 50 20 (\<lambda>name. ''Migrating volume '' @ name) (volume_step env ddSocket opts staging) n 0 names
                   (emit (onSummary (\<lambda>u. u\<lparr>su_VolumesTotal := n\<rparr>)) g3)))"

text \<open>Which containers there are and which of them run; those that run are stopped.\<close>

fun inspect_loop :: "'w MigEnv \<Rightarrow> string \<Rightarrow> string list \<Rightarrow> containerInspect list \<Rightarrow> (string \<Rightarrow> bool) \<Rightarrow> 'w
    \<Rightarrow> (containerInspect list \<times> (string \<Rightarrow> bool)) \<times> 'w" where
  "inspect_loop env ddSocket [] inspects wasUp w = ((inspects, wasUp), w)"
| "inspect_loop env ddSocket (cid # ids) inspects wasUp w =
     (case inspectOnDesktop env ddSocket cid w of
        (Inl _, w1) \<Rightarrow> inspect_loop env ddSocket ids inspects wasUp w1
      | (Inr (i, up), w1) \<Rightarrow> inspect_loop env ddSocket ids (inspects @ [i]) (wasUp(containerName i := up)) w1)"

fun stop_loop :: "'w MigEnv \<Rightarrow> string \<Rightarrow> (string \<Rightarrow> bool) \<Rightarrow> containerInspect list \<Rightarrow> string list \<Rightarrow> 'w \<Rightarrow> string list \<times> 'w" where
  "stop_loop env ddSocket wasUp [] stopped w = (stopped, w)"
| "stop_loop env ddSocket wasUp (i # is) stopped w =
     (let name = containerName i in
      if \<not> wasUp name then stop_loop env ddSocket wasUp is stopped w
      else case docker_Run env ddSocket [''stop'', name] w of
        (Inl _, w1) \<Rightarrow> stop_loop env ddSocket wasUp is stopped w1
      | (Inr _, w1) \<Rightarrow> stop_loop env ddSocket wasUp is (stopped @ [name]) w1)"

fun project_loop :: "'w MigEnv \<Rightarrow> 'w Options \<Rightarrow> string \<Rightarrow> composeProjectGroup list \<Rightarrow> string list \<Rightarrow> 'w mig \<Rightarrow> string list \<times> 'w mig" where
  "project_loop env opts mountsRoot [] migrated g = (migrated, g)"
| "project_loop env opts mountsRoot (grp # groups) migrated g =
     (let g1 = emit (\<lambda>s. s\<lparr>ms_Message := ''Migrating compose project '' @ cg_Name grp\<rparr>) g in
      case inWorld (migrateComposeProject env opts grp mountsRoot) g1 of
        (Some _, g2) \<Rightarrow> project_loop env opts mountsRoot groups migrated g2
      | (None, g2) \<Rightarrow>
          let ok = int (length (cg_Containers grp))
          in project_loop env opts mountsRoot groups (migrated @ map containerName (cg_Containers grp))
               (emit (onSummary (\<lambda>u. u\<lparr>su_ContainersOK := su_ContainersOK u + ok\<rparr>)) g2))"

definition startOnCalf :: "'w MigEnv \<Rightarrow> 'w Options \<Rightarrow> bool \<Rightarrow> string \<Rightarrow> 'w \<Rightarrow> go_error option \<times> 'w" where
  "startOnCalf env opts up name w = (if up then onCalf env opts [''start'', name] w else (None, w))"

definition container_step :: "'w MigEnv \<Rightarrow> 'w Options \<Rightarrow> (string \<Rightarrow> bool) \<Rightarrow> int \<Rightarrow> containerInspect \<Rightarrow> 'w mig \<Rightarrow> 'w mig" where
  "container_step env opts wasUp index i g =
     (let name = containerName i in
      case inWorld (\<lambda>w. andThen (createContainerOnCalf env opts i w) (startOnCalf env opts (wasUp name) name)) g of
        (Some _, g1) \<Rightarrow> g1
      | (None, g1) \<Rightarrow> emit (onSummary (\<lambda>u. u\<lparr>su_ContainersOK := su_ContainersOK u + 1\<rparr>)) g1)"

fun restart_loop :: "'w MigEnv \<Rightarrow> string \<Rightarrow> string list \<Rightarrow> string list \<Rightarrow> 'w \<Rightarrow> 'w" where
  "restart_loop env ddSocket migrated [] w = w"
| "restart_loop env ddSocket migrated (name # names) w =
     restart_loop env ddSocket migrated names
       (if name \<in> set migrated then w else snd (docker_Run env ddSocket [''start'', name] w))"

text \<open>The part under the deferred restart: the names that count as migrated, and the error.\<close>

definition moveContainers ::
    "'w MigEnv \<Rightarrow> 'w Options \<Rightarrow> (string \<Rightarrow> bool) \<Rightarrow> containerInspect list \<Rightarrow> 'w mig \<Rightarrow> (go_error option \<times> string list) \<times> 'w mig" where
  "moveContainers env opts wasUp inspects g =
     (let (groups, standalone) = groupContainersByComposeProject (me_walk env) inspects wasUp in
      case inWorld (EnsureMountsDir (me_stage env)) g of
        (Inl err, g1) \<Rightarrow> ((Some err, []), g1)
      | (Inr mountsRoot, g1) \<Rightarrow>
          let (migrated, g2) = project_loop env opts mountsRoot groups [] g1;
              left = standalone @ filter (\<lambda>i. containerName i \<notin> set migrated) (concat (map cg_Containers groups))
          in ((None, migrated), run_steps 75 20 (\<lambda>i. ''Migrating container '' @ containerName i) (container_step env opts wasUp)
                                 (int (length left)) 0 left g2))"

definition migrateContainers :: "'w MigEnv \<Rightarrow> string \<Rightarrow> 'w Options \<Rightarrow> 'w mig \<Rightarrow> go_error option \<times> 'w mig" where
  "migrateContainers env ddSocket opts g =
     (let g1 = emit (\<lambda>s. s\<lparr>ms_Step := ''containers'', ms_Progress := 75, ms_Message := ''Migrating containers''\<rparr>) g in
      case inWorld (listContainerIDs env ddSocket) g1 of
        (Inl err, g2) \<Rightarrow> (Some err, g2)
      | (Inr ids, g2) \<Rightarrow>
          let g3 = emit (onSummary (\<lambda>u. u\<lparr>su_ContainersTotal := int (length ids)\<rparr>)) g2;
              ((inspects, wasUp), g4) = inWorld (inspect_loop env ddSocket ids [] (\<lambda>_. False)) g3;
              (stopped, g5) = inWorld (stop_loop env ddSocket wasUp inspects []) g4;
              ((err, migrated), g6) = moveContainers env opts wasUp inspects g5
          in (err, g6\<lparr>mg_world := restart_loop env ddSocket migrated stopped (mg_world g6)\<rparr>))"

fun add_builds :: "'w MigEnv \<Rightarrow> (Build \<Rightarrow> 'w \<Rightarrow> 'w) \<Rightarrow> Row list \<Rightarrow> 'w \<Rightarrow> 'w" where
  "add_builds env add [] w = w"
| "add_builds env add (row # rows) w =
     (let (createdAt, w1) = (if BuildCreatedAt row = '''' then (let (t, w1) = me_now env w in (FormatRFC3339 t, w1)) else (BuildCreatedAt row, w));
          status = (if BuildStatus row = '''' then ''migrated'' else BuildStatus row)
      in add_builds env add rows
           (add (emptyBuild\<lparr>bd_Tag := NormalizeTag (BuildName row), bd_Context := ''docker-desktop'', bd_Status := status, bd_CreatedAt := createdAt\<rparr>) w1))"

definition importRows :: "'w MigEnv \<Rightarrow> (Build \<Rightarrow> 'w \<Rightarrow> 'w) \<Rightarrow> Row list \<Rightarrow> 'w mig \<Rightarrow> 'w mig" where
  "importRows env add rows g =
     (let n = int (length rows);
          g1 = emit (onSummary (\<lambda>u. u\<lparr>su_BuildsTotal := n\<rparr>)) g
      in emit (onSummary (\<lambda>u. u\<lparr>su_BuildsOK := su_BuildsOK u + n\<rparr>)) (g1\<lparr>mg_world := add_builds env add rows (mg_world g1)\<rparr>))"

definition migrateBuilds :: "'w MigEnv \<Rightarrow> string \<Rightarrow> 'w Options \<Rightarrow> 'w mig \<Rightarrow> 'w mig" where
  "migrateBuilds env ddSocket opts g =
     (let g1 = emit (\<lambda>s. s\<lparr>ms_Step := ''builds'', ms_Progress := 95, ms_Message := ''Migrating build history''\<rparr>) g in
      case op_AddBuild opts of
        None \<Rightarrow> g1
      | Some add \<Rightarrow>
          (case inWorld (history_List (me_row env) (docker_Run env ddSocket)) g1 of
             (Inr rows, g2) \<Rightarrow> importRows env add rows g2
           | (Inl _, g2) \<Rightarrow>
               (case inWorld (docker_Run env ddSocket [''buildx'', ''ls'', ''--format'', ''{{json .}}'']) g2 of
                  (Inl _, g3) \<Rightarrow> g3
                | (Inr output, g3) \<Rightarrow> importRows env add (ParsePlaintextRows (me_row env) output) g3)))"

definition failWith :: "string \<Rightarrow> 'w mig \<Rightarrow> 'w mig" where
  "failWith err g = emit (\<lambda>s. s\<lparr>ms_Phase := MigrationPhaseFailed, ms_Error := err\<rparr>) g"

text \<open>The steps after the checks, in their order: the first that fails ends the run.\<close>

definition orFail :: "('w mig \<Rightarrow> go_error option \<times> 'w mig) \<Rightarrow> ('w mig \<Rightarrow> 'w mig) \<Rightarrow> 'w mig \<Rightarrow> 'w mig" where
  "orFail f k g = (case f g of (Some err, g1) \<Rightarrow> failWith (Error err) g1 | (None, g1) \<Rightarrow> k g1)"

definition completeRun :: "'w mig \<Rightarrow> 'w mig" where
  "completeRun g = emit (\<lambda>s. s\<lparr>ms_Phase := MigrationPhaseCompleted, ms_Step := ''done'', ms_Progress := 100,
     ms_Message := formatCompletionMessage (ms_Summary s)\<rparr>) g"

definition migrateAll :: "'w MigEnv \<Rightarrow> string \<Rightarrow> 'w Options \<Rightarrow> string \<Rightarrow> 'w mig \<Rightarrow> 'w mig" where
  "migrateAll env ddSocket opts staging =
     orFail (migrateConfig env opts) (orFail (migrateImages env ddSocket opts staging) (orFail (migrateVolumes env ddSocket opts staging)
       (orFail (migrateContainers env ddSocket opts) (\<lambda>g. completeRun (migrateBuilds env ddSocket opts g)))))"

definition startStatus :: migStatus where
  "startStatus = \<lparr>ms_Phase = MigrationPhaseRunning, ms_Step = ''preflight'', ms_Progress = 0, ms_Message = ''Checking Docker Desktop'',
     ms_Error = '''', ms_Summary = emptySummary\<rparr>"

definition preflight :: "'w MigEnv \<Rightarrow> 'w Options \<Rightarrow> 'w \<Rightarrow> (string \<times> string) result \<times> 'w" where
  "preflight env opts w =
     (case DockerDesktopSocket env w of (ddSocket, w1) \<Rightarrow>
        if ddSocket = '''' then (Inl (Errorf ''Docker Desktop socket not found''), w1)
        else case me_LookPath env w1 of
          (Some _, w2) \<Rightarrow> (Inl (Errorf ''docker CLI not found in PATH''), w2)
        | (None, w2) \<Rightarrow>
            (case docker_Run env ddSocket [''info''] w2 of
               (Inl _, w3) \<Rightarrow> (Inl (Errorf ''Docker Desktop is not running''), w3)
             | (Inr _, w3) \<Rightarrow>
                 if op_CalfSocket opts = '''' then (Inl (Errorf ''calf docker socket is not configured''), w3)
                 else case se_Stat (me_stage env) (op_CalfSocket opts) w3 of
                   (Some _, w4) \<Rightarrow> (Inl (Errorf ''calf runtime is not running''), w4)
                 | (None, w4) \<Rightarrow>
                     (case StagingDir (me_stage env) w4 of
                        (Inl err, w5) \<Rightarrow> (Inl err, w5)
                      | (Inr staging, w5) \<Rightarrow> (Inr (ddSocket, staging), w5))))"

definition RunFromDockerDesktop :: "'w MigEnv \<Rightarrow> 'w Options \<Rightarrow> 'w \<Rightarrow> 'w mig option" where
  "RunFromDockerDesktop env opts w =
     (let g = emit id \<lparr>mg_status = startStatus, mg_shown = [], mg_world = w\<rparr> in
      case inWorld (preflight env opts) g of
        (Inl err, g1) \<Rightarrow> Some (failWith (Error err) g1)
      | (Inr (ddSocket, staging), g1) \<Rightarrow>
          let g2 = emit (\<lambda>s. s\<lparr>ms_Step := ''preflight'', ms_Progress := 2, ms_Message := ''Checking disk space''\<rparr>) g1 in
          (case inWorld (checkMigrationDiskSpace env (op_CalfSocket opts) ddSocket) g2 of
             (None, _) \<Rightarrow> None
           | (Some (Some err), g3) \<Rightarrow> Some (failWith (Error err) g3)
           | (Some None, g3) \<Rightarrow> Some (migrateAll env ddSocket opts staging g3)))"

section \<open>Invariants of a run\<close>

text \<open>
  No count exceeds its total, and what was shown so far: phases, progress and counts of a run that has not ended, the last
  status shown being the current one.
\<close>

definition counts_ok :: "Summary \<Rightarrow> bool" where
  "counts_ok u \<longleftrightarrow> 0 \<le> su_ImagesOK u \<and> su_ImagesOK u \<le> su_ImagesTotal u \<and> 0 \<le> su_VolumesOK u \<and> su_VolumesOK u \<le> su_VolumesTotal u
     \<and> 0 \<le> su_ContainersOK u \<and> su_ContainersOK u \<le> su_ContainersTotal u \<and> 0 \<le> su_BuildsOK u \<and> su_BuildsOK u \<le> su_BuildsTotal u"

definition shown_ok :: "migStatus list \<Rightarrow> bool" where
  "shown_ok ss \<longleftrightarrow> ss \<noteq> [] \<and> sorted (map ms_Progress ss)
     \<and> (\<forall>s \<in> set ss. 0 \<le> ms_Progress s \<and> counts_ok (ms_Summary s) \<and> ms_Phase s = MigrationPhaseRunning)"

definition going :: "int \<Rightarrow> 'w mig \<Rightarrow> bool" where
  "going p g \<longleftrightarrow> shown_ok (mg_shown g) \<and> last (mg_shown g) = mg_status g \<and> ms_Progress (mg_status g) \<le> p"

definition later :: "nat \<Rightarrow> Summary \<Rightarrow> bool" where
  "later k u \<longleftrightarrow> (k \<le> 0 \<longrightarrow> su_ImagesOK u = 0) \<and> (k \<le> 1 \<longrightarrow> su_VolumesOK u = 0) \<and> (k \<le> 2 \<longrightarrow> su_ContainersOK u = 0) \<and> su_BuildsOK u = 0"

lemma going_mono: "going p g \<Longrightarrow> p \<le> q \<Longrightarrow> going q g"
  by (simp add: going_def)

lemma going_world [simp]: "going p (g\<lparr>mg_world := w\<rparr>) = going p g"
  by (simp add: going_def)

lemma inWorld_frame: "inWorld f g = (r, g') \<Longrightarrow> mg_status g' = mg_status g \<and> mg_shown g' = mg_shown g"
  by (auto simp: inWorld_def split: prod.splits)

lemma going_inWorld: "inWorld f g = (r, g') \<Longrightarrow> going p g' = going p g"
  using inWorld_frame [of f g r g'] by (simp add: going_def)

lemma going_status: "going p g \<Longrightarrow> counts_ok (ms_Summary (mg_status g)) \<and> ms_Phase (mg_status g) = MigrationPhaseRunning \<and> 0 \<le> ms_Progress (mg_status g)"
  by (metis going_def last_in_set shown_ok_def)

lemma emit_status [simp]: "mg_status (emit f g) = f (mg_status g)"
  by (simp add: emit_def Let_def)

lemma sorted_snoc: "sorted (xs @ [x]) \<longleftrightarrow> sorted xs \<and> (xs = [] \<or> last xs \<le> (x :: int))"
  by (induction xs rule: rev_induct) (auto simp: sorted_append)

lemma going_emit:
  assumes "going p g" "ms_Progress (mg_status g) \<le> ms_Progress (f (mg_status g))" "ms_Progress (f (mg_status g)) \<le> q"
    "ms_Phase (f (mg_status g)) = ms_Phase (mg_status g)" "counts_ok (ms_Summary (f (mg_status g)))"
  shows "going q (emit f g)"
proof -
  have "last (map ms_Progress (mg_shown g)) = ms_Progress (mg_status g)" using assms(1) by (simp add: going_def shown_ok_def last_map)
  then show ?thesis using assms going_status [OF assms(1)] by (auto simp: going_def shown_ok_def emit_def Let_def sorted_snoc)
qed

lemma onSummary_sel [simp]: "ms_Progress (onSummary f s) = ms_Progress s" "ms_Phase (onSummary f s) = ms_Phase s"
  "ms_Summary (onSummary f s) = f (ms_Summary s)"
  by (simp_all add: onSummary_def)

lemma going_count:
  assumes "going p g" "counts_ok (f (ms_Summary (mg_status g)))"
  shows "going p (emit (onSummary f) g)"
  using going_emit [OF assms(1), of "onSummary f" p] assms by (simp add: going_def)

lemma share_bound: "0 \<le> i \<Longrightarrow> i \<le> n \<Longrightarrow> 0 \<le> c \<Longrightarrow> (i * c) div MaxInt n 1 \<le> c" for i n c :: int
proof -
  assume a: "0 \<le> i" "i \<le> n" "0 \<le> c"
  then have "(i * c) div MaxInt n 1 \<le> (MaxInt n 1 * c) div MaxInt n 1"
    by (intro zdiv_mono1 mult_right_mono) (auto simp: MaxInt_def)
  also have "\<dots> = c" using a by (simp add: MaxInt_def)
  finally show ?thesis .
qed

lemma share_mono: "0 \<le> c \<Longrightarrow> (i * c) div MaxInt n 1 \<le> ((i + 1) * c) div MaxInt n 1" for i n c :: int
  by (intro zdiv_mono1 mult_right_mono) (auto simp: MaxInt_def)

text \<open>
  What the three loops have in common: a step keeps the run going and takes at most one from what may still be counted.
\<close>

locale counted_step =
  fixes step :: "int \<Rightarrow> 'x \<Rightarrow> 'w mig \<Rightarrow> 'w mig" and room :: "nat \<Rightarrow> Summary \<Rightarrow> bool"
  assumes step_room: "going p g \<Longrightarrow> room (Suc k) (ms_Summary (mg_status g)) \<Longrightarrow>
    going p (step i x g) \<and> room k (ms_Summary (mg_status (step i x g)))"
begin

lemma steps_room:
  "going (base + index * width div MaxInt n 1) g \<Longrightarrow> 0 \<le> index \<Longrightarrow> index + int (length xs) = n \<Longrightarrow> 0 \<le> width \<Longrightarrow> 0 \<le> base \<Longrightarrow>
   room (length xs) (ms_Summary (mg_status g)) \<Longrightarrow>
   going (base + width) (run_steps base width text step n index xs g)
   \<and> room 0 (ms_Summary (mg_status (run_steps base width text step n index xs g)))"
proof (induction xs arbitrary: index g)
  case Nil
  then have "index * width div MaxInt n 1 \<le> width" using share_bound [of index n width] by simp
  with Nil show ?case by (auto intro: going_mono)
next
  case (Cons x xs)
  let ?p = "base + index * width div MaxInt n 1"
  let ?g = "emit (\<lambda>s. s\<lparr>ms_Progress := ?p, ms_Message := text x\<rparr>) g"
  have "going ?p ?g" using Cons.prems(1) going_status [OF Cons.prems(1)] by (intro going_emit [OF Cons.prems(1)]) (simp_all add: going_def)
  moreover have "room (Suc (length xs)) (ms_Summary (mg_status ?g))" using Cons.prems(6) by simp
  ultimately have s: "going ?p (step index x ?g)" "room (length xs) (ms_Summary (mg_status (step index x ?g)))" using step_room by blast+
  have "?p \<le> base + (index + 1) * width div MaxInt n 1" using share_mono [OF Cons.prems(4)] by simp
  with s(1) have "going (base + (index + 1) * width div MaxInt n 1) (step index x ?g)" by (rule going_mono)
  from Cons.IH [OF this _ _ Cons.prems(4,5) s(2)] show ?case using Cons.prems(2,3) by simp
qed

end

definition image_room :: "nat \<Rightarrow> Summary \<Rightarrow> bool" where
  "image_room k u \<longleftrightarrow> counts_ok u \<and> later 1 u \<and> su_ImagesOK u + int k \<le> su_ImagesTotal u"

definition volume_room :: "nat \<Rightarrow> Summary \<Rightarrow> bool" where
  "volume_room k u \<longleftrightarrow> counts_ok u \<and> later 2 u \<and> su_VolumesOK u + int k \<le> su_VolumesTotal u"

definition container_room :: "nat \<Rightarrow> Summary \<Rightarrow> bool" where
  "container_room k u \<longleftrightarrow> counts_ok u \<and> later 3 u \<and> su_ContainersOK u + int k \<le> su_ContainersTotal u"

lemma image_room_count [simp]:
  "image_room (Suc k) u \<Longrightarrow> image_room k (if b then u\<lparr>su_ImagesOK := su_ImagesOK u + 1\<rparr> else u) \<and> counts_ok (if b then u\<lparr>su_ImagesOK := su_ImagesOK u + 1\<rparr> else u)"
  by (auto simp: image_room_def counts_ok_def later_def)

lemma volume_room_count [simp]:
  "volume_room (Suc k) u \<Longrightarrow> volume_room k (if b then u\<lparr>su_VolumesOK := su_VolumesOK u + 1\<rparr> else u) \<and> counts_ok (if b then u\<lparr>su_VolumesOK := su_VolumesOK u + 1\<rparr> else u)"
  by (auto simp: volume_room_def counts_ok_def later_def)

lemma container_room_count [simp]:
  "container_room (Suc k) u \<Longrightarrow> container_room k (u\<lparr>su_ContainersOK := su_ContainersOK u + 1\<rparr>) \<and> counts_ok (u\<lparr>su_ContainersOK := su_ContainersOK u + 1\<rparr>)"
  by (auto simp: container_room_def counts_ok_def later_def)

lemma room_less: "image_room (Suc k) u \<Longrightarrow> image_room k u" "volume_room (Suc k) u \<Longrightarrow> volume_room k u" "container_room (Suc k) u \<Longrightarrow> container_room k u"
  by (auto simp: image_room_def volume_room_def container_room_def)

interpretation images: counted_step "image_step env ddSocket opts staging" image_room for env ddSocket opts staging
proof
  fix p :: int and g :: "'a mig" and k i x
  assume a: "going p g" "image_room (Suc k) (ms_Summary (mg_status g))"
  define tarPath where "tarPath = filepath_Join staging (''image-'' @ show_int i @ ''.tar'')"
  obtain r g1 where g1: "inWorld (docker_Run env ddSocket [''save'', ''-o'', tarPath, x]) g = (r, g1)" by fastforce
  obtain err g2 where g2: "inWorld (loadImageOnCalf env opts tarPath) g1 = (err, g2)" by fastforce
  note f = inWorld_frame [OF g1] inWorld_frame [OF g2]
  show "going p (image_step env ddSocket opts staging i x g) \<and> image_room k (ms_Summary (mg_status (image_step env ddSocket opts staging i x g)))"
  proof (cases r)
    case (Inl e)
    then show ?thesis using a g1 f going_inWorld [OF g1] room_less by (simp add: image_step_def tarPath_def)
  next
    case (Inr out)
    let ?f = "\<lambda>u. if err = None then u\<lparr>su_ImagesOK := su_ImagesOK u + 1\<rparr> else u"
    let ?h = "g2\<lparr>mg_world := me_Remove env tarPath (mg_world g2)\<rparr>"
    have "going p (emit (onSummary ?f) ?h)"
      using a f going_inWorld [OF g1] going_inWorld [OF g2] image_room_count [OF a(2), of "err = None"] by (intro going_count) simp_all
    then show ?thesis using Inr a f g1 g2 image_room_count [OF a(2), of "err = None"] by (simp add: image_step_def tarPath_def)
  qed
qed

interpretation volumes: counted_step "volume_step env ddSocket opts staging" volume_room for env ddSocket opts staging
proof
  fix p :: int and g :: "'a mig" and k i x
  assume a: "going p g" "volume_room (Suc k) (ms_Summary (mg_status g))"
  define tarName where "tarName = SanitizeFileName x @ ''.tar.gz''"
  define tarPath where "tarPath = filepath_Join staging tarName"
  obtain r g1 where g1: "inWorld (docker_Run env ddSocket (exportVolumeArgs x staging tarName)) g = (r, g1)" by fastforce
  obtain e g2 where g2: "inWorld (createVolumeOnCalf env opts x) g1 = (e, g2)" by fastforce
  obtain err g3 where g3: "inWorld (importVolumeOnCalf env opts x tarName) g2 = (err, g3)" by fastforce
  note f = inWorld_frame [OF g1] inWorld_frame [OF g2] inWorld_frame [OF g3]
  note w = going_inWorld [OF g1] going_inWorld [OF g2] going_inWorld [OF g3]
  note d = volume_step_def [of env ddSocket opts staging i x g] tarName_def tarPath_def
  show "going p (volume_step env ddSocket opts staging i x g) \<and> volume_room k (ms_Summary (mg_status (volume_step env ddSocket opts staging i x g)))"
  proof (cases r)
    case (Inl s)
    then show ?thesis using a g1 f w room_less by (simp add: d)
  next
    case (Inr out)
    note r = this
    show ?thesis
    proof (cases e)
      case (Some s)
      then show ?thesis using a r g1 g2 f w room_less by (simp add: d)
    next
      case None
      let ?f = "\<lambda>u. if err = None then u\<lparr>su_VolumesOK := su_VolumesOK u + 1\<rparr> else u"
      let ?h = "g3\<lparr>mg_world := me_Remove env tarPath (mg_world g3)\<rparr>"
      have "going p (emit (onSummary ?f) ?h)"
        using a f w volume_room_count [OF a(2), of "err = None"] by (intro going_count) simp_all
      then show ?thesis using r None a f g1 g2 g3 volume_room_count [OF a(2), of "err = None"] by (simp add: d)
    qed
  qed
qed

interpretation containers: counted_step "container_step env opts wasUp" container_room for env opts wasUp
proof
  fix p :: int and g :: "'a mig" and k i x
  assume a: "going p g" "container_room (Suc k) (ms_Summary (mg_status g))"
  let ?act = "\<lambda>w. andThen (createContainerOnCalf env opts x w) (startOnCalf env opts (wasUp (containerName x)) (containerName x))"
  obtain r g1 where g1: "inWorld ?act g = (r, g1)" by fastforce
  have "going p (emit (onSummary (\<lambda>u. u\<lparr>su_ContainersOK := su_ContainersOK u + 1\<rparr>)) g1)"
    using a inWorld_frame [OF g1] going_inWorld [OF g1] container_room_count [OF a(2)] by (intro going_count) simp_all
  then show "going p (container_step env opts wasUp i x g) \<and> container_room k (ms_Summary (mg_status (container_step env opts wasUp i x g)))"
    using a g1 inWorld_frame [OF g1] going_inWorld [OF g1] room_less container_room_count [OF a(2)]
    by (cases r) (simp_all add: container_step_def)
qed

text \<open>The steps of the run keep it going, each up to the progress it may show.\<close>

lemma going_stage:
  assumes "going p g" "p \<le> q" "\<And>s. ms_Progress (f s) = q \<or> ms_Progress (f s) = ms_Progress s" "\<And>s. ms_Phase (f s) = ms_Phase s" "\<And>s. ms_Summary (f s) = ms_Summary s"
  shows "going q (emit f g)"
  using assms(2) assms(3) [of "mg_status g"] going_status [OF assms(1)] assms(1,4,5)
  by (intro going_emit [OF assms(1)]) (auto simp: going_def)

lemma migrateConfig_going:
  assumes "going 2 g" "later 0 (ms_Summary (mg_status g))" "migrateConfig env opts g = (err, g')"
  shows "going 5 g' \<and> later 0 (ms_Summary (mg_status g'))"
proof -
  define g1 where "g1 = emit (\<lambda>s. s\<lparr>ms_Step := ''config'', ms_Progress := 5, ms_Message := ''Migrating Docker Desktop settings''\<rparr>) g"
  have g1: "going 5 g1" unfolding g1_def using assms(1) by (rule going_stage) simp_all
  obtain r g2 where g2: "inWorld (readDockerDesktopSettings env) g1 = (r, g2)" by fastforce
  have s2: "going 5 g2" "ms_Summary (mg_status g2) = ms_Summary (mg_status g)"
    using g1 going_inWorld [OF g2] inWorld_frame [OF g2] by (simp_all add: g1_def)
  show ?thesis
  proof (cases r)
    case None
    then show ?thesis using assms(2,3) s2 g2 by (simp add: migrateConfig_def g1_def)
  next
    case (Some st)
    note r = this
    show ?thesis
    proof (cases "op_SaveConfig opts")
      case None
      then show ?thesis using assms(2,3) s2 g2 r by (simp add: migrateConfig_def g1_def)
    next
      case (Some save)
      let ?cfg = "Default\<lparr>cf_CPUs := pa_CPUs st, cf_MemoryGB := pa_MemoryGB st, cf_MemorySwapGB := pa_SwapGB st\<rparr>"
      obtain e g3 where g3: "inWorld (save ?cfg) g2 = (e, g3)" by fastforce
      have s3: "going 5 g3" "ms_Summary (mg_status g3) = ms_Summary (mg_status g)"
        using s2 going_inWorld [OF g3] inWorld_frame [OF g3] by simp_all
      have "going 5 (emit (onSummary (\<lambda>u. u\<lparr>su_ConfigApplied := True\<rparr>)) g3)"
        using going_status [OF s3(1)] by (intro going_count [OF s3(1)]) (simp add: counts_ok_def)
      then show ?thesis using assms(2,3) s3 g2 g3 r Some by (cases e) (auto simp: migrateConfig_def g1_def Let_def later_def)
    qed
  qed
qed


lemma migrateImages_going:
  assumes "going 5 g" "later 0 (ms_Summary (mg_status g))" "migrateImages env ddSocket opts staging g = (err, g')"
  shows "going 45 g' \<and> later 1 (ms_Summary (mg_status g'))"
proof -
  define g1 where "g1 = emit (\<lambda>s. s\<lparr>ms_Step := ''images'', ms_Message := ''Migrating images''\<rparr>) g"
  have g1: "going 5 g1" unfolding g1_def using assms(1) by (rule going_stage) simp_all
  obtain r g2 where g2: "inWorld (listImageRefs env ddSocket) g1 = (r, g2)" by fastforce
  have s2: "going 5 g2" "ms_Summary (mg_status g2) = ms_Summary (mg_status g)"
    using g1 going_inWorld [OF g2] inWorld_frame [OF g2] by (simp_all add: g1_def)
  show ?thesis
  proof (cases r)
    case (Inl e)
    then show ?thesis using assms(2,3) s2 g2 going_mono [OF s2(1), of 45] by (simp add: migrateImages_def g1_def later_def)
  next
    case (Inr refs)
    let ?n = "int (length refs)"
    let ?g = "emit (onSummary (\<lambda>u. u\<lparr>su_ImagesTotal := ?n\<rparr>)) g2"
    have "image_room (length refs) (ms_Summary (mg_status ?g))"
      using going_status [OF s2(1)] assms(2) s2 by (simp add: image_room_def counts_ok_def later_def)
    note room = this
    then have "going 5 ?g" by (intro going_count [OF s2(1)]) (simp add: image_room_def)
    then have start: "going (10 + 0 * 35 div MaxInt ?n 1) ?g" by (rule going_mono) simp
    have g': "g' = run_steps 10 35 ((@) ''Migrating image '') (image_step env ddSocket opts staging) ?n 0 refs ?g"
      using assms(3) g2 Inr by (simp add: migrateImages_def g1_def Let_def)
    show ?thesis unfolding g' using images.steps_room [OF start _ _ _ _ room] by (simp add: image_room_def)
  qed
qed

lemma migrateVolumes_going:
  assumes "going 45 g" "later 1 (ms_Summary (mg_status g))" "migrateVolumes env ddSocket opts staging g = (err, g')"
  shows "going 70 g' \<and> later 2 (ms_Summary (mg_status g'))"
proof -
  define g1 where "g1 = emit (\<lambda>s. s\<lparr>ms_Step := ''volumes'', ms_Progress := 50, ms_Message := ''Migrating volumes''\<rparr>) g"
  have g1: "going 50 g1" unfolding g1_def using assms(1) by (rule going_stage) simp_all
  obtain u g2 where g2: "inWorld (pullHelper env ddSocket opts) g1 = (u, g2)" by (metis surj_pair)
  obtain r g3 where g3: "inWorld (listVolumeNames env ddSocket) g2 = (r, g3)" by fastforce
  have s3: "going 50 g3" "ms_Summary (mg_status g3) = ms_Summary (mg_status g)"
    using g1 going_inWorld [OF g2] inWorld_frame [OF g2] going_inWorld [OF g3] inWorld_frame [OF g3] by (simp_all add: g1_def)
  show ?thesis
  proof (cases r)
    case (Inl e)
    then show ?thesis using assms(2,3) s3 g2 g3 going_mono [OF s3(1), of 70] by (simp add: migrateVolumes_def g1_def later_def Let_def)
  next
    case (Inr names)
    let ?n = "int (length names)"
    let ?g = "emit (onSummary (\<lambda>u. u\<lparr>su_VolumesTotal := ?n\<rparr>)) g3"
    have "volume_room (length names) (ms_Summary (mg_status ?g))"
      using going_status [OF s3(1)] assms(2) s3 by (simp add: volume_room_def counts_ok_def later_def)
    note room = this
    then have "going 50 ?g" by (intro going_count [OF s3(1)]) (simp add: volume_room_def)
    then have start: "going (50 + 0 * 20 div MaxInt ?n 1) ?g" by (rule going_mono) simp
    have g': "g' = run_steps 50 20 ((@) ''Migrating volume '') (volume_step env ddSocket opts staging) ?n 0 names ?g"
      using assms(3) g2 g3 Inr by (simp add: migrateVolumes_def g1_def Let_def)
    show ?thesis unfolding g' using volumes.steps_room [OF start _ _ _ _ room] by (simp add: volume_room_def)
  qed
qed

lemma inspect_loop_length:
  "inspect_loop env dd ids acc up w = ((is, up'), w') \<Longrightarrow> length is \<le> length acc + length ids"
  by (induction env dd ids acc up w rule: inspect_loop.induct) (fastforce split: prod.splits sum.splits)+

lemma project_loop_room:
  "project_loop env opts mountsRoot groups migrated g = (migrated', g') \<Longrightarrow> going p g \<Longrightarrow>
   container_room (sum_list (map (\<lambda>h. length (cg_Containers h)) groups) + k) (ms_Summary (mg_status g)) \<Longrightarrow>
   set migrated \<subseteq> set migrated' \<and> going p g' \<and>
   container_room (length (filter (\<lambda>i. containerName i \<notin> set migrated') (concat (map cg_Containers groups))) + k) (ms_Summary (mg_status g'))"
proof (induction groups arbitrary: migrated g k)
  case (Cons grp groups)
  define g1 where "g1 = emit (\<lambda>s. s\<lparr>ms_Message := ''Migrating compose project '' @ cg_Name grp\<rparr>) g"
  have g1: "going p g1" unfolding g1_def using Cons.prems(2) by (rule going_stage) simp_all
  obtain r g2 where g2: "inWorld (migrateComposeProject env opts grp mountsRoot) g1 = (r, g2)" by fastforce
  have s2: "going p g2" "ms_Summary (mg_status g2) = ms_Summary (mg_status g)"
    using g1 going_inWorld [OF g2] inWorld_frame [OF g2] by (simp_all add: g1_def)
  let ?l = "length (cg_Containers grp)" and ?s = "sum_list (map (\<lambda>h. length (cg_Containers h)) groups)"
  show ?case
  proof (cases r)
    case (Some e)
    then have l: "project_loop env opts mountsRoot groups migrated g2 = (migrated', g')"
      using Cons.prems(1) g2 by (simp add: g1_def Let_def)
    have "container_room (?s + (?l + k)) (ms_Summary (mg_status g2))" using Cons.prems(3) s2 by (simp add: ac_simps)
    note ih = Cons.IH [OF l s2(1) this]
    obtain m where "length (filter (\<lambda>i. containerName i \<notin> set migrated') (cg_Containers grp)) = m" "m \<le> ?l" by simp
    then show ?thesis using ih by (auto simp: container_room_def)
  next
    case None
    let ?g = "emit (onSummary (\<lambda>u. u\<lparr>su_ContainersOK := su_ContainersOK u + int ?l\<rparr>)) g2"
    have l: "project_loop env opts mountsRoot groups (migrated @ map containerName (cg_Containers grp)) ?g = (migrated', g')"
      using None Cons.prems(1) g2 by (simp add: g1_def Let_def)
    have c: "container_room (?s + k) (ms_Summary (mg_status ?g))"
      using Cons.prems(3) s2(2) by (auto simp: container_room_def counts_ok_def later_def)
    then have "going p ?g" by (intro going_count [OF s2(1)]) (simp add: container_room_def)
    note ih = Cons.IH [OF l this c]
    have "filter (\<lambda>i. containerName i \<notin> set migrated') (cg_Containers grp) = []" using ih by (auto simp: filter_empty_conv)
    then show ?thesis using ih by simp
  qed
qed simp

lemma moveContainers_going:
  assumes "going 75 g" "container_room (length is) (ms_Summary (mg_status g))" "moveContainers env opts wasUp is g = (r, g')"
    "\<And>ks. mset (me_walk env ks) = mset ks"
  shows "going 95 g' \<and> later 3 (ms_Summary (mg_status g'))"
proof -
  obtain groups standalone where gs: "groupContainersByComposeProject (me_walk env) is wasUp = (groups, standalone)" by fastforce
  obtain m g1 where g1: "inWorld (EnsureMountsDir (me_stage env)) g = (m, g1)" by fastforce
  have s1: "going 75 g1" "mg_status g1 = mg_status g" using assms(1) going_inWorld [OF g1] inWorld_frame [OF g1] by simp_all
  show ?thesis
  proof (cases m)
    case (Inl e)
    then show ?thesis using assms(2,3) gs g1 s1 going_mono [OF s1(1), of 95] by (simp add: moveContainers_def container_room_def)
  next
    case (Inr mountsRoot)
    obtain migrated g2 where g2: "project_loop env opts mountsRoot groups [] g1 = (migrated, g2)" by fastforce
    let ?left = "standalone @ filter (\<lambda>i. containerName i \<notin> set migrated) (concat (map cg_Containers groups))"
    have "container_room (sum_list (map (\<lambda>h. length (cg_Containers h)) groups) + length standalone) (ms_Summary (mg_status g1))"
      using assms(2) s1 grouped_lengths [OF gs assms(4)] by simp
    from project_loop_room [OF g2 s1(1) this]
    have s2: "going 75 g2" "container_room (length ?left) (ms_Summary (mg_status g2))" by (simp_all add: add.commute)
    have start: "going (75 + 0 * 20 div MaxInt (int (length ?left)) 1) g2" using s2(1) by simp
    have "g' = run_steps 75 20 (\<lambda>i. ''Migrating container '' @ containerName i) (container_step env opts wasUp) (int (length ?left)) 0 ?left g2"
      using assms(3) gs g1 g2 Inr by (simp add: moveContainers_def Let_def)
    then show ?thesis using containers.steps_room [OF start _ _ _ _ s2(2)] by (simp add: container_room_def)
  qed
qed

lemma migrateContainers_going:
  assumes "going 70 g" "later 2 (ms_Summary (mg_status g))" "migrateContainers env ddSocket opts g = (err, g')"
    "\<And>ks. mset (me_walk env ks) = mset ks"
  shows "going 95 g' \<and> later 3 (ms_Summary (mg_status g'))"
proof -
  define g1 where "g1 = emit (\<lambda>s. s\<lparr>ms_Step := ''containers'', ms_Progress := 75, ms_Message := ''Migrating containers''\<rparr>) g"
  have g1: "going 75 g1" unfolding g1_def using assms(1) by (rule going_stage) simp_all
  obtain r g2 where g2: "inWorld (listContainerIDs env ddSocket) g1 = (r, g2)" by fastforce
  have s2: "going 75 g2" "ms_Summary (mg_status g2) = ms_Summary (mg_status g)"
    using g1 going_inWorld [OF g2] inWorld_frame [OF g2] by (simp_all add: g1_def)
  show ?thesis
  proof (cases r)
    case (Inl e)
    then show ?thesis using assms(2,3) s2 g2 going_mono [OF s2(1), of 95] by (simp add: migrateContainers_def g1_def later_def Let_def)
  next
    case (Inr ids)
    define g3 where "g3 = emit (onSummary (\<lambda>u. u\<lparr>su_ContainersTotal := int (length ids)\<rparr>)) g2"
    have r3: "container_room (length ids) (ms_Summary (mg_status g3))"
      using going_status [OF s2(1)] assms(2) s2 by (simp add: g3_def container_room_def counts_ok_def later_def)
    have s3: "going 75 g3" unfolding g3_def using r3 by (intro going_count [OF s2(1)]) (simp add: g3_def container_room_def)
    obtain rows wasUp g4 where g4: "inWorld (inspect_loop env ddSocket ids [] (\<lambda>_. False)) g3 = ((rows, wasUp), g4)" by (metis surj_pair)
    have "length rows \<le> length ids" using inspect_loop_length g4 by (fastforce simp: inWorld_def split: prod.splits)
    then have r4: "container_room (length rows) (ms_Summary (mg_status g4))" using r3 inWorld_frame [OF g4] by (simp add: container_room_def)
    obtain stopped g5 where g5: "inWorld (stop_loop env ddSocket wasUp rows []) g4 = (stopped, g5)" by fastforce
    obtain e migrated g6 where g6: "moveContainers env opts wasUp rows g5 = ((e, migrated), g6)" by (metis surj_pair)
    have "going 75 g5" "container_room (length rows) (ms_Summary (mg_status g5))"
      using s3 r4 going_inWorld [OF g4] going_inWorld [OF g5] inWorld_frame [OF g5] by simp_all
    note moved = moveContainers_going [OF this g6 assms(4)]
    have "g' = g6\<lparr>mg_world := restart_loop env ddSocket migrated stopped (mg_world g6)\<rparr>"
      using assms(3) Inr g2 g4 g5 g6 by (simp add: migrateContainers_def g1_def g3_def Let_def)
    then show ?thesis using moved by simp
  qed
qed

lemma importRows_going:
  assumes "going p g" "later 3 (ms_Summary (mg_status g))"
  shows "going p (importRows env add rows g)"
proof -
  define g1 where "g1 = emit (onSummary (\<lambda>u. u\<lparr>su_BuildsTotal := int (length rows)\<rparr>)) g"
  have c: "counts_ok (ms_Summary (mg_status g))" using going_status [OF assms(1)] by simp
  then have "going p g1" unfolding g1_def using assms(2) by (intro going_count [OF assms(1)]) (auto simp: counts_ok_def later_def)
  then have "going p (g1\<lparr>mg_world := add_builds env add rows (mg_world g1)\<rparr>)" by simp
  then show ?thesis unfolding importRows_def Let_def g1_def [symmetric] using c assms(2)
    by (intro going_count) (simp_all add: g1_def counts_ok_def later_def)
qed

lemma migrateBuilds_going:
  assumes "going 95 g" "later 3 (ms_Summary (mg_status g))"
  shows "going 95 (migrateBuilds env ddSocket opts g)"
proof -
  define g1 where "g1 = emit (\<lambda>s. s\<lparr>ms_Step := ''builds'', ms_Progress := 95, ms_Message := ''Migrating build history''\<rparr>) g"
  have g1: "going 95 g1" unfolding g1_def using assms(1) by (rule going_stage) simp_all
  obtain r g2 where g2: "inWorld (history_List (me_row env) (docker_Run env ddSocket)) g1 = (r, g2)" by fastforce
  obtain q g3 where g3: "inWorld (docker_Run env ddSocket [''buildx'', ''ls'', ''--format'', ''{{json .}}'']) g2 = (q, g3)" by fastforce
  have "mg_status g3 = mg_status g1" "mg_status g2 = mg_status g1" using inWorld_frame [OF g2] inWorld_frame [OF g3] by simp_all
  moreover have "ms_Summary (mg_status g1) = ms_Summary (mg_status g)" by (simp add: g1_def)
  ultimately show ?thesis
    using g1 assms(2) going_inWorld [OF g2] going_inWorld [OF g3]
    by (auto simp: migrateBuilds_def g1_def [symmetric] g2 g3 intro: importRows_going split: option.split sum.split)
qed

section \<open>What a migration shows\<close>

text \<open>A run that ended: it went on up to the last status it showed, which is its result.\<close>

definition run_over :: "'w mig \<Rightarrow> bool" where
  "run_over g \<longleftrightarrow> (\<exists>ss. mg_shown g = ss @ [mg_status g] \<and> shown_ok ss \<and> ms_Progress (last ss) \<le> ms_Progress (mg_status g)
     \<and> ms_Progress (mg_status g) \<le> 100 \<and> counts_ok (ms_Summary (mg_status g))
     \<and> (ms_Phase (mg_status g) = MigrationPhaseCompleted \<and> ms_Progress (mg_status g) = 100 \<or> ms_Phase (mg_status g) = MigrationPhaseFailed))"

lemma over_emit:
  assumes "going p g" "ms_Progress (mg_status g) \<le> ms_Progress (f (mg_status g))" "ms_Progress (f (mg_status g)) \<le> 100"
    "ms_Summary (f (mg_status g)) = ms_Summary (mg_status g)"
    "ms_Phase (f (mg_status g)) = MigrationPhaseCompleted \<and> ms_Progress (f (mg_status g)) = 100 \<or> ms_Phase (f (mg_status g)) = MigrationPhaseFailed"
  shows "run_over (emit f g)"
  using assms going_status [OF assms(1)] by (auto simp: run_over_def going_def emit_def Let_def)

lemma failWith_over: "going p g \<Longrightarrow> p \<le> 100 \<Longrightarrow> run_over (failWith e g)"
  unfolding failWith_def by (rule over_emit) (auto simp: going_def)

lemma completeRun_over: "going p g \<Longrightarrow> p \<le> 100 \<Longrightarrow> run_over (completeRun g)"
  unfolding completeRun_def by (rule over_emit) (auto simp: going_def)

lemma orFail_over:
  assumes "\<And>err g'. f g = (err, g') \<Longrightarrow> going p g' \<and> Q g'" "p \<le> 100" "\<And>g'. going p g' \<Longrightarrow> Q g' \<Longrightarrow> run_over (k g')"
  shows "run_over (orFail f k g)"
proof -
  obtain err g' where r: "f g = (err, g')" by fastforce
  then show ?thesis using assms(1) [OF r] assms(2,3) by (cases err) (auto simp: orFail_def intro: failWith_over)
qed

lemma migrateAll_over:
  assumes "going 2 g" "later 0 (ms_Summary (mg_status g))" "\<And>ks. mset (me_walk env ks) = mset ks"
  shows "run_over (migrateAll env ddSocket opts staging g)"
  unfolding migrateAll_def
proof (rule orFail_over [where p = 5 and Q = "\<lambda>g. later 0 (ms_Summary (mg_status g))"])
  fix g1 :: "'a mig"
  assume "going 5 g1" "later 0 (ms_Summary (mg_status g1))"
  note images = migrateImages_going [OF this]
  show "run_over (orFail (migrateImages env ddSocket opts staging) (orFail (migrateVolumes env ddSocket opts staging)
    (orFail (migrateContainers env ddSocket opts) (\<lambda>g. completeRun (migrateBuilds env ddSocket opts g)))) g1)"
  proof (rule orFail_over [where p = 45 and Q = "\<lambda>g. later 1 (ms_Summary (mg_status g))"])
    fix g2 :: "'a mig"
    assume "going 45 g2" "later 1 (ms_Summary (mg_status g2))"
    note volumes = migrateVolumes_going [OF this]
    show "run_over (orFail (migrateVolumes env ddSocket opts staging)
      (orFail (migrateContainers env ddSocket opts) (\<lambda>g. completeRun (migrateBuilds env ddSocket opts g))) g2)"
    proof (rule orFail_over [where p = 70 and Q = "\<lambda>g. later 2 (ms_Summary (mg_status g))"])
      fix g3 :: "'a mig"
      assume "going 70 g3" "later 2 (ms_Summary (mg_status g3))"
      note containers = migrateContainers_going [OF this]
      show "run_over (orFail (migrateContainers env ddSocket opts) (\<lambda>g. completeRun (migrateBuilds env ddSocket opts g)) g3)"
        by (rule orFail_over [where p = 95 and Q = "\<lambda>g. later 3 (ms_Summary (mg_status g))"])
          (use containers assms(3) in \<open>auto intro: completeRun_over [where p = 95] migrateBuilds_going\<close>)
    qed (use volumes in auto)
  qed (use images in auto)
qed (use migrateConfig_going [OF assms(1,2)] in auto)

lemma disk_check_returns:
  assumes "\<And>w r w'. estimateMigrationBytes env ddSocket w = (Inr r, w') \<Longrightarrow> r < 1024 ^ 5"
  shows "fst (checkMigrationDiskSpace env calf ddSocket w) \<noteq> None"
proof -
  obtain e w1 where e: "estimateMigrationBytes env ddSocket w = (e, w1)" by fastforce
  obtain f w2 where f: "engineFreeBytes env calf w1 = (f, w2)" by fastforce
  show ?thesis
  proof (cases e)
    case (Inr required)
    then have "FormatBytes required \<noteq> None" using assms e FormatBytes_None_iff [of required] by fastforce
    moreover have "FormatBytes n \<noteq> None" if "n < required" for n
      using assms e Inr that FormatBytes_None_iff [of n] by fastforce
    ultimately show ?thesis using e f Inr by (fastforce simp: checkMigrationDiskSpace_def not_le split: sum.split option.split)
  qed (simp add: checkMigrationDiskSpace_def e)
qed

lemma run_is_over:
  assumes "\<And>ks. mset (me_walk env ks) = mset ks"
    and "\<And>ddSocket w r w'. estimateMigrationBytes env ddSocket w = (Inr r, w') \<Longrightarrow> r < 1024 ^ 5"
  shows "\<exists>g. RunFromDockerDesktop env opts w = Some g \<and> run_over g"
proof -
  define g where "g = emit id \<lparr>mg_status = startStatus, mg_shown = [], mg_world = w\<rparr>"
  have "going 0 g" "later 0 (ms_Summary (mg_status g))"
    by (simp_all add: g_def emit_def going_def shown_ok_def startStatus_def counts_ok_def emptySummary_def later_def Let_def)
  note g = this
  obtain r g1 where g1: "inWorld (preflight env opts) g = (r, g1)" by fastforce
  have s1: "going 0 g1" "mg_status g1 = mg_status g" using g going_inWorld [OF g1] inWorld_frame [OF g1] by simp_all
  show ?thesis
  proof (cases r)
    case (Inl e)
    then show ?thesis using g1 failWith_over [OF s1(1)] by (simp add: RunFromDockerDesktop_def g_def)
  next
    case (Inr p)
    obtain ddSocket staging where p: "p = (ddSocket, staging)" by fastforce
    define g2 where "g2 = emit (\<lambda>s. s\<lparr>ms_Step := ''preflight'', ms_Progress := 2, ms_Message := ''Checking disk space''\<rparr>) g1"
    have g2: "going 2 g2" unfolding g2_def using s1(1) by (rule going_stage) simp_all
    obtain c g3 where g3: "inWorld (checkMigrationDiskSpace env (op_CalfSocket opts) ddSocket) g2 = (c, g3)" by fastforce
    have s3: "going 2 g3" "later 0 (ms_Summary (mg_status g3))"
      using g2 g(2) s1(2) going_inWorld [OF g3] inWorld_frame [OF g3] by (simp_all add: g2_def)
    have "fst (checkMigrationDiskSpace env (op_CalfSocket opts) ddSocket (mg_world g2)) \<noteq> None"
      using assms(2) by (rule disk_check_returns)
    then have "c \<noteq> None" using g3 by (auto simp: inWorld_def split: prod.splits)
    then obtain d where d: "c = Some d" by auto
    then have run: "RunFromDockerDesktop env opts w = Some (case d of Some err \<Rightarrow> failWith (Error err) g3 | None \<Rightarrow> migrateAll env ddSocket opts staging g3)"
      using g1 g3 Inr p by (simp add: RunFromDockerDesktop_def g_def [symmetric] g2_def [symmetric] Let_def split: option.split)
    show ?thesis
      unfolding run using failWith_over [OF s3(1)] migrateAll_over [OF s3 assms(1)] by (auto split: option.split)
  qed
qed


text \<open>
  C4: A migration from Docker Desktop always comes to an end that is shown: whatever the commands, the file system and the
  decoders answer, and below a pebibyte to move, the statuses shown before the last are those of a running migration, the
  progress never goes back and stays between 0 and 100, no count of migrated images, volumes, containers or builds ever
  exceeds its total, and the last status is the result, completed at 100 or failed.
\<close>

theorem migration_progress:
  assumes "\<And>ks. mset (me_walk env ks) = mset ks"
    and "\<And>ddSocket w r w'. estimateMigrationBytes env ddSocket w = (Inr r, w') \<Longrightarrow> r < 1024 ^ 5"
  shows "\<exists>g. RunFromDockerDesktop env opts w = Some g \<and> run_over g"
  using assms by (rule run_is_over)

text \<open>A machine with one image, one volume and one running container that belongs to no project; the world is the list of commands.\<close>

definition lone_container :: containerInspect where
  "lone_container = \<lparr>ci_Name = ''/web'', ci_Image = ''web:1'', ci_Env = [], ci_Cmd = [''b''], ci_Entrypoint = [''sh'', ''-c''], ci_WorkingDir = '''',
     ci_Hostname = '''', ci_User = '''', ci_Labels = [], ci_NetworkMode = ''bridge'', ci_Binds = [], ci_ExtraHosts = [],
     ci_PortBindings = [(''53/udp'', [(''0.0.0.0'', ''53'')])], ci_RestartPolicy = ''no'', ci_Mounts = [], ci_Status = ''running''\<rparr>"

definition lone_docker :: "string \<Rightarrow> string list \<Rightarrow> (string \<times> string list) list \<Rightarrow> ((go_error \<times> string) + string) \<times> (string \<times> string list) list" where
  "lone_docker socket args w =
     (Inr (case hd args of
             CHR ''r'' # _ \<Rightarrow> ''99999999999''
           | CHR ''i'' # CHR ''m'' # _ \<Rightarrow> ''web:1''
           | CHR ''v'' # _ \<Rightarrow> ''data''
           | CHR ''p'' # CHR ''s'' # _ \<Rightarrow> ''c1''
           | _ \<Rightarrow> ''''), w @ [(socket, args)])"

definition lone_env :: "(string \<times> string list) list MigEnv" where
  "lone_env = \<lparr>
     me_stage = \<lparr>se_home = Inr ''/h'', se_Stat = (\<lambda>_ w. (None, w)), se_RemoveAll = (\<lambda>_ w. (None, w)), se_MkdirAll = (\<lambda>_ w. (None, w)),
       se_Walk = (\<lambda>_ w. (FRegular, w)), se_CopyData = (\<lambda>_ _ w. (None, w)), se_ReadFile = (\<lambda>_ w. (Inl (Errorf ''none''), w)),
       se_WriteFile = (\<lambda>_ _ w. (None, w)), se_Unmarshal = (\<lambda>_. Inl (Errorf ''none'')), se_Marshal = (\<lambda>_. Inl (Errorf ''none''))\<rparr>,
     me_docker = lone_docker, me_LookPath = (\<lambda>w. (None, w)), me_Remove = (\<lambda>_ w. w), me_settings = (\<lambda>_. Inl (Errorf ''none'')),
     me_inspects = (\<lambda>_. Inr [lone_container]), me_row = (\<lambda>_. Inl (Errorf ''none'')), me_now = (\<lambda>w. (0, w)), me_walk = id\<rparr>"

definition lone_options :: "(string \<times> string list) list Options" where
  "lone_options = \<lparr>op_CalfSocket = ''calf'', op_VMName = ''calf'', op_RunNerdctl = None, op_SaveConfig = None, op_AddBuild = None\<rparr>"

theorem migration_progress_witness:
  "\<exists>g. RunFromDockerDesktop lone_env lone_options [] = Some g \<and> run_over g"
proof (rule migration_progress)
  show "mset (me_walk lone_env ks) = mset ks" for ks by (simp add: lone_env_def)
  show "r < 1024 ^ 5" if "estimateMigrationBytes lone_env ddSocket w = (Inr r, w')" for ddSocket w r w'
    using that by (auto simp: estimateMigrationBytes_def docker_Run_def lone_env_def lone_docker_def TrimSpace_def
      TrimLeftSpace_def TrimRightSpace_def MigrationHeadroomBytes_def BytesPerGiB_def)
qed

text \<open>
  Containers that belong to no project never count as migrated: every one of them that was stopped is started again on
  Docker Desktop, also when it has been moved to calf and started there.
\<close>

lemma standalone_started_twice:
  assumes "\<forall>i \<in> set is. composeProjectName i = ''''" "\<And>ks. mset (me_walk env ks) = mset ks"
    and "moveContainers env opts wasUp is g = ((err, migrated), g')"
  shows "migrated = [] \<and> restart_loop env ddSocket migrated stopped w = fold (\<lambda>name. snd \<circ> docker_Run env ddSocket [''start'', name]) stopped w"
proof -
  obtain groups standalone where gs: "groupContainersByComposeProject (me_walk env) is wasUp = (groups, standalone)" by fastforce
  have "{p \<in> composeProjectName ` set is. p \<noteq> ''''} = {}" using assms(1) by auto
  then have "map cg_Name groups = []" using grouped [OF gs assms(2)] by simp
  then have "groups = []" by simp
  then have m: "migrated = []" using assms(3) gs by (auto simp: moveContainers_def Let_def split: sum.splits prod.splits)
  have "restart_loop env ddSocket [] stopped w = fold (\<lambda>name. snd \<circ> docker_Run env ddSocket [''start'', name]) stopped w"
    by (induction stopped arbitrary: w) simp_all
  with m show ?thesis by simp
qed

text \<open>The entry point of a container loses every word but the first, and a UDP port is published as a TCP port.\<close>

lemma entrypoint_is_cut:
  "createArgs walk (i\<lparr>ci_Entrypoint := e # es\<rparr>) = createArgs walk (i\<lparr>ci_Entrypoint := [e]\<rparr>)"
  by (simp add: createArgs_def containerName_def migrationLabels_def containerBindMounts_def)

lemma udp_port_is_lost: "portMapping ''53/udp'' b = portMapping ''53'' b"
  by (simp add: portMapping_def)
end
