(* ===== verification/Calf_Troubleshoot.thy ===== *)
theory Calf_Troubleshoot
  imports Calf_Migration Calf_Idle Calf_Http Calf_Login
begin

text \<open>
  What the daemon does on the request of a user in trouble: purging the engine's data and the reset to factory settings
  (\<open>daemon/troubleshoot.go\<close>), opening the log file again (\<open>config/logger.go\<close>), and running a migration, one at a time
  (\<open>daemon/migrate.go\<close>), with the HTTP handlers (\<open>api/troubleshoot.go\<close>, \<open>api/migrate.go\<close>, \<open>api/registry\_login.go\<close>).
  The stores of the configuration and of the builds are those of their theories; other files are paths.
\<close>

section \<open>The log file (logger.go)\<close>

text \<open>
  A \<open>rotatingFile\<close> is an object: the variable \<open>logFile\<close> and the logger refer to one by its index.  A file that is removed
  while it is open goes on as \<open>Unlinked\<close>: what is written to it is in no file.  The home directory does not change, so
  every object has the current path.
\<close>

datatype logHandle = Shut | Linked | Unlinked

record logging =
  lo_handles :: "logHandle list"
  lo_var :: "nat option"
  lo_out :: "nat option"
  lo_dir :: bool
  lo_file :: "string option"
  lo_backup :: "string option"

record logFaults =
  lf_mkdir :: "go_error option"
  lf_rename :: "go_error option"
  lf_open :: "go_error option"

text \<open>Opening fails where the directory of the log is missing.\<close>

definition open_error :: "logFaults \<Rightarrow> logging \<Rightarrow> go_error option" where
  "open_error f l = (if lo_dir l then lf_open f else Some (Sentinel ErrNotExist))"

definition file_view :: "logHandle \<Rightarrow> logging \<Rightarrow> rotatingFile" where
  "file_view h l = \<lparr>rf_open = (h \<noteq> Shut), rf_file = lo_file l, rf_backup = lo_backup l\<rparr>"

definition of_view :: "nat \<Rightarrow> rotatingFile \<Rightarrow> logging \<Rightarrow> logging" where
  "of_view i v l = l\<lparr>lo_handles := (lo_handles l)[i := if rf_open v then Linked else Shut], lo_file := rf_file v, lo_backup := rf_backup v\<rparr>"

definition reopenObject :: "logFaults \<Rightarrow> nat \<Rightarrow> logging \<Rightarrow> go_error option \<times> logging" where
  "reopenObject f i l =
     (case Reopen (lf_rename f) (open_error f l) (file_view (lo_handles l ! i) l) of (err, v) \<Rightarrow> (err, of_view i v l))"

definition closeObject :: "nat \<Rightarrow> logging \<Rightarrow> logging" where
  "closeObject i l = l\<lparr>lo_handles := (lo_handles l)[i := Shut]\<rparr>"

text \<open>The result is the writer: an object, or \<open>None\<close> for \<open>io.Discard\<close>.\<close>

definition openLogFileLocked :: "string result \<Rightarrow> logFaults \<Rightarrow> logging \<Rightarrow> nat option \<times> logging" where
  "openLogFileLocked hm f l =
     (case LogFilePath hm of
        Inl _ \<Rightarrow> (None, l)
      | Inr _ \<Rightarrow>
          (case lf_mkdir f of
             Some _ \<Rightarrow> (None, l)
           | None \<Rightarrow>
               let l1 = l\<lparr>lo_dir := True\<rparr>; i = length (lo_handles l1) in
               (case newRotatingFile (lf_rename f) (open_error f l1) (file_view Shut l1) of
                  (Some _, v) \<Rightarrow> (None, l1\<lparr>lo_file := rf_file v, lo_backup := rf_backup v\<rparr>)
                | (None, v) \<Rightarrow> (Some i, of_view i v (l1\<lparr>lo_handles := lo_handles l1 @ [Shut], lo_var := Some i\<rparr>)))))"

definition ReopenLogFile :: "string result \<Rightarrow> logFaults \<Rightarrow> logging \<Rightarrow> nat option \<times> logging" where
  "ReopenLogFile hm f l =
     (case lo_var l of
        None \<Rightarrow> openLogFileLocked hm f l
      | Some i \<Rightarrow>
          (case (case LogFilePath hm of Inl err \<Rightarrow> (Some err, l) | Inr _ \<Rightarrow> reopenObject f i l) of
             (None, l1) \<Rightarrow> (Some i, l1)
           | (Some _, l1) \<Rightarrow> openLogFileLocked hm f (closeObject i l1\<lparr>lo_var := None\<rparr>)))"

definition NewLogger :: "string result \<Rightarrow> logFaults \<Rightarrow> string \<Rightarrow> logging \<Rightarrow> Level \<times> logging" where
  "NewLogger hm f level l =
     (case ReopenLogFile hm f l of (writer, l1) \<Rightarrow> (SetLogLevel level, l1\<lparr>lo_out := writer\<rparr>))"

text \<open>
  A line that the logger writes: the \<open>Write\<close> of its object, or nothing for \<open>io.Discard\<close>.  The size of a file that was
  removed while it was open is not known here: \<open>full\<close> tells whether the line is too much for it, in which case
  the file at the path is opened.
\<close>

definition logger_Write :: "logFaults \<Rightarrow> bool \<Rightarrow> string \<Rightarrow> logging \<Rightarrow> go_error option \<times> logging" where
  "logger_Write f full p l =
     (case lo_out l of
        None \<Rightarrow> (None, l)
      | Some i \<Rightarrow>
          let h = lo_handles l ! i; view = file_view h l in
          if h = Unlinked then
            if full then
              (case Reopen (lf_rename f) (open_error f l) view of
                 (Some e, v) \<Rightarrow> (Some e, of_view i v l)
               | (None, v) \<Rightarrow> (None, of_view i (v\<lparr>rf_file := Some (or_else (rf_file v) '''' @ p)\<rparr>) l))
            else (None, l)
          else (case rotating_Write (lf_rename f) (open_error f l) p view of (e, v) \<Rightarrow> (e, of_view i v l)))"

section \<open>Removing files\<close>

text \<open>
  The daemon: saver, snapshot and runtime, the builds, the configuration, the log, and the paths of all other files.
  \<open>tr_stuck\<close> tells which files cannot be removed; \<open>os.RemoveAll\<close> removes all others and returns the first error.
\<close>

record 'w daemon =
  dm_core :: "'w Core"
  dm_builds :: BuildCore
  dm_conf :: confCore
  dm_log :: logging
  dm_other :: "string list"

record 'w troubleEnv =
  tr_home :: "string result"
  tr_faults :: "string faults"
  tr_logFaults :: logFaults
  tr_stuck :: "string \<Rightarrow> go_error option"
  tr_engine :: "'w Engine"
  tr_wait :: "'w \<Rightarrow> go_error option \<times> 'w"

definition below :: "string \<Rightarrow> string \<Rightarrow> bool" where
  "below path k \<longleftrightarrow> k = path \<or> HasPrefix k (path @ ''/'')"

definition log_paths :: "string result \<Rightarrow> logging \<Rightarrow> string list" where
  "log_paths hm l =
     (case LogsDir hm of
        Inl _ \<Rightarrow> []
      | Inr dir \<Rightarrow>
          (if lo_dir l then [dir] else [])
          @ (if lo_file l = None then [] else [filepath_Join dir ''calf.log''])
          @ (if lo_backup l = None then [] else [filepath_Join dir ''calf.log.1'']))"

definition all_paths :: "string result \<Rightarrow> 'w daemon \<Rightarrow> string list" where
  "all_paths hm s = map fst (cc_Disk (dm_conf s)) @ map fst (bc_Disk (dm_builds s)) @ log_paths hm (dm_log s) @ dm_other s"

definition keep_log :: "string result \<Rightarrow> (string \<Rightarrow> bool) \<Rightarrow> logging \<Rightarrow> logging" where
  "keep_log hm gone l =
     (case LogsDir hm of
        Inl _ \<Rightarrow> l
      | Inr dir \<Rightarrow>
          let logGone = gone (filepath_Join dir ''calf.log''); backupGone = gone (filepath_Join dir ''calf.log.1'') in
          l\<lparr>lo_handles := (if logGone then map (\<lambda>h. if h = Linked then Unlinked else h) (lo_handles l) else lo_handles l),
            lo_file := (if logGone then None else lo_file l),
            lo_backup := (if backupGone then None else lo_backup l),
            lo_dir := (lo_dir l \<and> \<not> (gone dir \<and> (logGone \<or> lo_file l = None) \<and> (backupGone \<or> lo_backup l = None)))\<rparr>)"

definition os_RemoveAll :: "'w troubleEnv \<Rightarrow> string \<Rightarrow> 'w daemon \<Rightarrow> go_error option \<times> 'w daemon" where
  "os_RemoveAll env path s =
     (let gone = (\<lambda>k. below path k \<and> tr_stuck env k = None);
          errs = List.map_filter (\<lambda>k. if below path k then tr_stuck env k else None) (all_paths (tr_home env) s)
      in (if errs = [] then None else Some (hd errs),
          s\<lparr>dm_conf := (dm_conf s)\<lparr>cc_Disk := filter (\<lambda>(k, _). \<not> gone k) (cc_Disk (dm_conf s))\<rparr>,
            dm_builds := (dm_builds s)\<lparr>bc_Disk := filter (\<lambda>(k, _). \<not> gone k) (bc_Disk (dm_builds s))\<rparr>,
            dm_log := keep_log (tr_home env) gone (dm_log s),
            dm_other := filter (\<lambda>k. \<not> gone k) (dm_other s)\<rparr>))"

definition removePathIfExists :: "'w troubleEnv \<Rightarrow> string \<Rightarrow> 'w daemon \<Rightarrow> go_error option \<times> 'w daemon" where
  "removePathIfExists env path s =
     (if path = '''' then (None, s)
      else case os_RemoveAll env path s of
        (Some err, s1) \<Rightarrow> (if err = Sentinel ErrNotExist then None else Some err, s1)
      | (None, s1) \<Rightarrow> (None, s1))"

section \<open>Purge and reset (troubleshoot.go)\<close>

definition onEngine :: "('w Core \<Rightarrow> 'a \<times> 'w Core) \<Rightarrow> 'w daemon \<Rightarrow> 'a \<times> 'w daemon" where
  "onEngine f s = (case f (dm_core s) of (r, c) \<Rightarrow> (r, s\<lparr>dm_core := c\<rparr>))"

definition stopRuntimeForTroubleshoot :: "'w troubleEnv \<Rightarrow> 'w daemon \<Rightarrow> go_error option \<times> 'w daemon" where
  "stopRuntimeForTroubleshoot env s =
     (case onEngine (ForceStopRuntime (tr_engine env)) s of
        (Some err, s1) \<Rightarrow> (Some (Wrap ''stop runtime'' err), s1)
      | (None, s1) \<Rightarrow> onEngine (call (tr_wait env)) (s1\<lparr>dm_core := ClearResourceSaver (dm_core s1)\<rparr>))"

definition forgetState :: "'w daemon \<Rightarrow> 'w daemon" where
  "forgetState s = s\<lparr>dm_builds := (dm_builds s)\<lparr>bc_Builds := [], bc_Seq := 0\<rparr>,
                     dm_core := clearResourceSnapshot (ClearResourceSaver (dm_core s))\<rparr>"

definition PurgeData :: "'w troubleEnv \<Rightarrow> 'w daemon \<Rightarrow> go_error option \<times> 'w daemon" where
  "PurgeData env s =
     (case stopRuntimeForTroubleshoot env s of
        (Some err, s1) \<Rightarrow> (Some err, s1)
      | (None, s1) \<Rightarrow>
          (case ConfigDir (tr_home env) of
             Inl err \<Rightarrow> (Some (Wrap ''resolve config dir'' err), s1)
           | Inr cfgDir \<Rightarrow>
               (case removePathIfExists env (filepath_Join cfgDir ''guest'') s1 of
                  (Some err, s2) \<Rightarrow> (Some (Wrap ''remove guest data'' err), s2)
                | (None, s2) \<Rightarrow>
                    (case BuildsFilePath (tr_home env) of
                       Inl err \<Rightarrow> (Some (Wrap ''resolve builds path'' err), s2)
                     | Inr bpath \<Rightarrow>
                         (case removePathIfExists env bpath s2 of
                            (Some err, s3) \<Rightarrow> (Some (Wrap ''remove builds history'' err), s3)
                          | (None, s3) \<Rightarrow> (None, forgetState s3))))))"

text \<open>\<open>os.ReadDir\<close>: the names in the directory, in order; a missing directory has none.\<close>

definition child :: "string \<Rightarrow> string \<Rightarrow> string option" where
  "child dir k = (if HasPrefix k (dir @ ''/'') then Some (takeWhile (\<lambda>c. c \<noteq> CHR ''/'') (drop (length dir + 1) k)) else None)"

definition dir_entries :: "string \<Rightarrow> string list \<Rightarrow> string list" where
  "dir_entries dir ks = sort (remdups (List.map_filter (child dir) ks))"

fun remove_loop :: "'w troubleEnv \<Rightarrow> string \<Rightarrow> string list \<Rightarrow> 'w daemon \<Rightarrow> go_error option \<times> 'w daemon" where
  "remove_loop env dir [] s = (None, s)"
| "remove_loop env dir (name # names) s =
     (let path = filepath_Join dir name in
      case os_RemoveAll env path s of
        (Some err, s1) \<Rightarrow> (Some (Wrap (''remove '' @ path) err), s1)
      | (None, s1) \<Rightarrow> remove_loop env dir names s1)"

definition FactoryReset :: "'w troubleEnv \<Rightarrow> 'w daemon \<Rightarrow> go_error option \<times> 'w daemon" where
  "FactoryReset env s =
     (case stopRuntimeForTroubleshoot env s of
        (Some err, s1) \<Rightarrow> (Some err, s1)
      | (None, s1) \<Rightarrow>
          (case ConfigDir (tr_home env) of
             Inl err \<Rightarrow> (Some (Wrap ''resolve config dir'' err), s1)
           | Inr cfgDir \<Rightarrow>
               (case tr_faults env OpReadDir cfgDir of
                  Some f \<Rightarrow> (Some (Wrap ''read config dir'' (fault_error f)), s1)
                | None \<Rightarrow>
                    (case remove_loop env cfgDir (dir_entries cfgDir (all_paths (tr_home env) s1)) s1 of
                       (Some err, s2) \<Rightarrow> (Some err, s2)
                     | (None, s2) \<Rightarrow>
                         (case Config_Save (tr_faults env) (tr_home env) (cc_Disk (dm_conf s2)) Default of
                            (Some err, d) \<Rightarrow> (Some (Wrap ''write default config'' err), s2\<lparr>dm_conf := (dm_conf s2)\<lparr>cc_Disk := d\<rparr>\<rparr>)
                          | (None, d) \<Rightarrow>
                              let s3 = forgetState (s2\<lparr>dm_conf := (dm_conf s2)\<lparr>cc_Disk := d, cc_Cfg := Default\<rparr>\<rparr>)
                              in (None, s3\<lparr>dm_conf := (dm_conf s3)\<lparr>cc_Level := SetLogLevel (cf_LogLevel Default)\<rparr>,
                                   dm_log := snd (ReopenLogFile (tr_home env) (tr_logFaults env) (dm_log s3))\<rparr>))))))"

section \<open>Migrations, one at a time (migrate.go)\<close>

text \<open>\<open>mc_pending\<close> counts the goroutines that were started and have not begun.\<close>

record migCore =
  mc_running :: bool
  mc_status :: migStatus
  mc_pending :: nat

definition MigrationStatus :: "migCore \<Rightarrow> migStatus" where
  "MigrationStatus c = mc_status c"

definition TryStartMigration :: "migCore \<Rightarrow> (migStatus \<times> bool) \<times> migCore" where
  "TryStartMigration c =
     (if mc_running c then ((mc_status c, False), c)
      else
        let st = \<lparr>ms_Phase = MigrationPhaseRunning, ms_Step = ''starting'', ms_Progress = 0, ms_Message = ''Starting migration'',
                  ms_Error = '''', ms_Summary = emptySummary\<rparr>
        in ((st, True), c\<lparr>mc_running := True, mc_status := st\<rparr>))"

text \<open>What a migration changes in the daemon, and the rest of the world.\<close>

record 'w migWorld =
  mw_conf :: confCore
  mw_builds :: BuildCore
  mw_rest :: 'w

definition saveMigrated :: "host \<Rightarrow> Config \<Rightarrow> 'w migWorld \<Rightarrow> go_error option \<times> 'w migWorld" where
  "saveMigrated = (\<lambda>(io, hm) cfg w.
     let c = mw_conf w;
         cfg1 = (cc_Cfg c)\<lparr>cf_CPUs := cf_CPUs cfg, cf_MemoryGB := cf_MemoryGB cfg, cf_MemorySwapGB := cf_MemorySwapGB cfg\<rparr>;
         (err, d) = Config_Save io hm (cc_Disk c) cfg1
     in (err, w\<lparr>mw_conf := c\<lparr>cc_Cfg := cfg1, cc_Disk := d\<rparr>\<rparr>))"

definition migrationOptions :: "host \<Rightarrow> string \<Rightarrow> 'w migWorld \<Rightarrow> 'w migWorld Options" where
  "migrationOptions h socket w =
     \<lparr>op_CalfSocket = socket, op_VMName = cf_VMName (cc_Cfg (mw_conf w)), op_RunNerdctl = None, op_SaveConfig = Some (saveMigrated h),
      op_AddBuild = Some (\<lambda>b w. w\<lparr>mw_builds := AddMigratedBuild h b (mw_builds w)\<rparr>)\<rparr>"

text \<open>The goroutine: the statuses it shows, in order, and what it leaves; \<open>None\<close> is the panic of \<open>FormatBytes\<close>.\<close>

definition RunDockerDesktopMigration ::
    "'w migWorld MigEnv \<Rightarrow> host \<Rightarrow> string \<Rightarrow> ('w migWorld \<Rightarrow> go_error option \<times> 'w migWorld) \<Rightarrow> 'w migWorld \<Rightarrow> (migStatus list \<times> 'w migWorld) option" where
  "RunDockerDesktopMigration env h socket activate w =
     map_option (\<lambda>g.
       let w1 = mg_world g; managed = cf_DockerContextManaged (cc_Cfg (mw_conf w1)) in
       (mg_shown g @ [mg_status g],
        if ms_Phase (mg_status g) = MigrationPhaseCompleted \<and> managed then snd (activate w1) else w1))
     (RunFromDockerDesktop env (migrationOptions h socket w) w)"

section \<open>Handlers\<close>

definition handleTroubleshootPurge :: "'w troubleEnv \<Rightarrow> ('w daemon, unit) handler" where
  "handleTroubleshootPurge env r s =
     (case PurgeData env s of (Some _, s1) \<Rightarrow> (WriteError 500 ''failed to purge engine data'', s1) | (None, s1) \<Rightarrow> (WriteOK, s1))"

definition handleTroubleshootFactoryReset :: "'w troubleEnv \<Rightarrow> ('w daemon, unit) handler" where
  "handleTroubleshootFactoryReset env r s =
     (case FactoryReset env s of (Some _, s1) \<Rightarrow> (WriteError 500 ''failed to factory-reset calf'', s1) | (None, s1) \<Rightarrow> (WriteOK, s1))"

definition handleDockerDesktopMigrationStatus :: "(migCore, migStatus) handler" where
  "handleDockerDesktopMigrationStatus r c = (WriteJSON 200 (MigrationStatus c), c)"

definition handleDockerDesktopMigrationStart :: "(migCore, migStatus) handler" where
  "handleDockerDesktopMigrationStart r c =
     (case TryStartMigration c of
        ((_, False), c1) \<Rightarrow> (WriteError 409 ''migration already running'', c1)
      | ((status, True), c1) \<Rightarrow> (WriteJSON 202 status, c1\<lparr>mc_pending := mc_pending c1 + 1\<rparr>))"

text \<open>The answers of the login handlers: what starts a login, and its state (status, user name and error).\<close>

datatype loginView = LoginStarted RegistryDeviceLoginStart | LoginState "string \<times> string \<times> string"

definition handleRegistryDeviceLoginStart :: "string \<Rightarrow> DeviceCode result \<Rightarrow> (logins, loginView) handler" where
  "handleRegistryDeviceLoginStart sid answer r lg =
     (case StartRegistryDeviceLogin sid answer lg of
        (Inl err, lg1) \<Rightarrow> (WriteError 502 (Error err), lg1)
      | (Inr start, lg1) \<Rightarrow> (WriteJSON 200 (LoginStarted start), lg1))"

definition handleRegistryDeviceLoginStatus :: "string \<Rightarrow> (logins, loginView) handler" where
  "handleRegistryDeviceLoginStatus sid r lg =
     (case RegistryDeviceLoginStatus sid lg of
        None \<Rightarrow> (WriteError 404 ''login session not found'', lg)
      | Some v \<Rightarrow> (WriteJSON 200 (LoginState v), lg))"

definition handleRegistryDeviceLoginCancel :: "string \<Rightarrow> (logins, loginView) handler" where
  "handleRegistryDeviceLoginCancel sid r lg =
     (case CancelRegistryDeviceLogin sid lg of
        (False, lg1) \<Rightarrow> (WriteError 404 ''login session not found'', lg1)
      | (True, lg1) \<Rightarrow> (WriteOK, lg1))"

section \<open>Facts about paths\<close>

lemma Join_abs:
  assumes "HasPrefix h ''/''" "plain_seg c"
  shows "filepath_Join h c = rooted_path (abs_segs h @ [c])"
proof -
  have "filepath_Join h c = (if rooted_path (abs_segs h) = ''/'' then [] else rooted_path (abs_segs h)) @ ''/'' @ c"
    using filepath_Join_component [OF assms(1), of c] assms by (simp add: plain_seg_def Clean_abs)
  moreover have "rooted_path (abs_segs h) = ''/'' \<longleftrightarrow> abs_segs h = []"
    using rooted_path_inj [OF abs_segs_plain, of "[]" h] by (simp add: rooted_path_def)
  ultimately show ?thesis by (cases "abs_segs h = []") (simp_all add: Join_snoc rooted_path_def)
qed

definition config_root :: "string \<Rightarrow> string" where
  "config_root h = rooted_path (abs_segs h @ [''.config'', ''calf''])"

lemma Join_below:
  assumes "plain_seg c" "segs \<noteq> []" "list_all plain_seg segs"
  shows "filepath_Join (rooted_path segs) c = rooted_path segs @ ''/'' @ c"
  using Join_abs [of "rooted_path segs" c] assms by (simp add: abs_segs_rooted rooted_path_snoc)

lemma config_segs: "list_all plain_seg (abs_segs h @ [''.config'', ''calf''])"
  using abs_segs_plain [of h] by (simp add: plain_seg_def)

lemma config_paths:
  assumes "HasPrefix h ''/''"
  shows "ConfigDir (Inr h) = Inr (config_root h)"
    and "plain_seg c \<Longrightarrow> filepath_Join (config_root h) c = config_root h @ ''/'' @ c"
    and "BuildsFilePath (Inr h) = Inr (config_root h @ ''/builds.json'')"
    and "Path (Inr h) = Inr (config_root h @ ''/config.yaml'')"
    and "LogsDir (Inr h) = Inr (config_root h @ ''/logs'')"
    and "filepath_Join (config_root h @ ''/logs'') ''calf.log'' = config_root h @ ''/logs/calf.log''"
    and "filepath_Join (config_root h @ ''/logs'') ''calf.log.1'' = config_root h @ ''/logs/calf.log.1''"
proof -
  have c: "ConfigDir (Inr h) = Inr (config_root h)"
    using abs_segs_plain [of h] by (simp add: ConfigDir_def Join_abs assms plain_seg_def abs_segs_rooted config_root_def)
  have j: "filepath_Join (config_root h) c = config_root h @ ''/'' @ c" if "plain_seg c" for c
    unfolding config_root_def using that config_segs by (intro Join_below) simp_all
  show "ConfigDir (Inr h) = Inr (config_root h)" and "plain_seg c \<Longrightarrow> filepath_Join (config_root h) c = config_root h @ ''/'' @ c"
    using c j by simp_all
  show "BuildsFilePath (Inr h) = Inr (config_root h @ ''/builds.json'')" "Path (Inr h) = Inr (config_root h @ ''/config.yaml'')"
    "LogsDir (Inr h) = Inr (config_root h @ ''/logs'')"
    by (simp_all add: BuildsFilePath_def Path_def LogsDir_def c j plain_seg_def)
  have "config_root h @ ''/logs'' = rooted_path (abs_segs h @ [''.config'', ''calf'', ''logs''])"
    using rooted_path_snoc [of "abs_segs h @ [''.config'', ''calf'']" "''logs''"] by (simp add: config_root_def)
  moreover have "list_all plain_seg (abs_segs h @ [''.config'', ''calf'', ''logs''])" using abs_segs_plain [of h] by (simp add: plain_seg_def)
  ultimately show "filepath_Join (config_root h @ ''/logs'') ''calf.log'' = config_root h @ ''/logs/calf.log''"
    "filepath_Join (config_root h @ ''/logs'') ''calf.log.1'' = config_root h @ ''/logs/calf.log.1''"
    using Join_below [of "''calf.log''" "abs_segs h @ [''.config'', ''calf'', ''logs'']"]
      Join_below [of "''calf.log.1''" "abs_segs h @ [''.config'', ''calf'', ''logs'']"] by (simp_all add: plain_seg_def)
qed

lemma below_root: "HasPrefix (d @ CHR ''/'' # x) (d @ ''/'')"
  by (simp add: HasPrefix_def)

lemma below_append: "below path k \<Longrightarrow> below path (k @ ''/'' @ rest)"
  by (auto simp: below_def HasPrefix_def prefix_def)

text \<open>Two names in a directory: nothing is below both.\<close>

lemma below_other: "below (d @ ''/'' @ a) (d @ ''/'' @ b) \<longleftrightarrow> below a b"
  by (simp add: below_def HasPrefix_def)

section \<open>What is removed\<close>

definition removed :: "string \<Rightarrow> 'w troubleEnv \<Rightarrow> 'w daemon \<Rightarrow> 'w daemon \<Rightarrow> bool" where
  "removed path env s s' \<longleftrightarrow> set (all_paths (tr_home env) s') = {k \<in> set (all_paths (tr_home env) s). \<not> below path k}"

lemma map_filter_empty: "List.map_filter f xs = [] \<longleftrightarrow> (\<forall>x \<in> set xs. f x = None)"
  by (induction xs) (auto simp: List.map_filter_def)

lemma keys_filter: "set (map fst (filter (\<lambda>(k, _). \<not> P k) d)) = {k \<in> set (map fst d). \<not> P k}"
  by (induction d) auto

lemma log_kept:
  assumes "LogsDir hm = Inr dir" "gone dir \<Longrightarrow> lo_file l \<noteq> None \<Longrightarrow> gone (filepath_Join dir ''calf.log'')"
    "gone dir \<Longrightarrow> lo_backup l \<noteq> None \<Longrightarrow> gone (filepath_Join dir ''calf.log.1'')"
  shows "set (log_paths hm (keep_log hm gone l)) = {k \<in> set (log_paths hm l). \<not> gone k}"
proof -
  define F where "F = filepath_Join dir ''calf.log''"
  define B where "B = filepath_Join dir ''calf.log.1''"
  show ?thesis using assms(2,3) unfolding log_paths_def keep_log_def assms(1) sum.case Let_def F_def [symmetric] B_def [symmetric]
    by (cases "lo_file l"; cases "lo_backup l"; cases "lo_dir l") auto
qed

lemma RemoveAll_removed:
  assumes "os_RemoveAll env path s = (None, s')" "tr_home env = Inr h" "HasPrefix h ''/''"
  shows "removed path env s s'"
proof -
  define gone where "gone = (\<lambda>k. below path k \<and> tr_stuck env k = None)"
  have free: "\<forall>k \<in> set (all_paths (tr_home env) s). below path k \<longrightarrow> tr_stuck env k = None"
    using assms(1) by (auto simp: os_RemoveAll_def Let_def map_filter_empty split: if_splits)
  then have g: "gone k \<longleftrightarrow> below path k" if "k \<in> set (all_paths (tr_home env) s)" for k
    using that by (auto simp: gone_def)
  have s': "cc_Disk (dm_conf s') = filter (\<lambda>(k, _). \<not> gone k) (cc_Disk (dm_conf s))"
    "bc_Disk (dm_builds s') = filter (\<lambda>(k, _). \<not> gone k) (bc_Disk (dm_builds s))"
    "dm_log s' = keep_log (tr_home env) gone (dm_log s)" "dm_other s' = filter (\<lambda>k. \<not> gone k) (dm_other s)"
    using assms(1) by (auto simp: os_RemoveAll_def Let_def gone_def split: if_splits)
  let ?l = "dm_log s" and ?d = "config_root h @ ''/logs''"
  have sub: "below path ?d \<Longrightarrow> below path (config_root h @ ''/logs/calf.log'')" "below path ?d \<Longrightarrow> below path (config_root h @ ''/logs/calf.log.1'')"
    using below_append [of path ?d "''calf.log''"] below_append [of path ?d "''calf.log.1''"] by simp_all
  have in_paths: "lo_dir ?l \<Longrightarrow> ?d \<in> set (all_paths (tr_home env) s)"
    "lo_file ?l \<noteq> None \<Longrightarrow> config_root h @ ''/logs/calf.log'' \<in> set (all_paths (tr_home env) s)"
    "lo_backup ?l \<noteq> None \<Longrightarrow> config_root h @ ''/logs/calf.log.1'' \<in> set (all_paths (tr_home env) s)"
    by (auto simp: all_paths_def log_paths_def assms config_paths)
  have "gone (config_root h @ ''/logs/calf.log'')" if "gone ?d" "lo_file ?l \<noteq> None"
    using that sub(1) g [OF in_paths(2)] by (simp add: gone_def)
  moreover have "gone (config_root h @ ''/logs/calf.log.1'')" if "gone ?d" "lo_backup ?l \<noteq> None"
    using that sub(2) g [OF in_paths(3)] by (simp add: gone_def)
  ultimately have "set (log_paths (tr_home env) (dm_log s')) = {k \<in> set (log_paths (tr_home env) (dm_log s)). \<not> gone k}"
    unfolding s'(3) assms(2) by (intro log_kept [OF config_paths(5) [OF assms(3)]], unfold config_paths(6,7) [OF assms(3)]) blast+
  then have "set (all_paths (tr_home env) s') = {k \<in> set (all_paths (tr_home env) s). \<not> gone k}"
    unfolding all_paths_def s'(1,2,4) set_append keys_filter set_filter by blast
  then show ?thesis unfolding removed_def using g by auto
qed


lemma entry_filter: "entry (filter (\<lambda>(k, _). \<not> P k) d) k = (if P k then None else entry d k)"
  by (induction d) (auto simp: entry_def)

lemma RemoveAll_frame:
  assumes "os_RemoveAll env path s = (e, s')"
  shows "dm_core s' = dm_core s" "cc_Cfg (dm_conf s') = cc_Cfg (dm_conf s)"
    "entry (cc_Disk (dm_conf s')) k = (if below path k \<and> tr_stuck env k = None then None else entry (cc_Disk (dm_conf s)) k)"
    "entry (bc_Disk (dm_builds s')) k = (if below path k \<and> tr_stuck env k = None then None else entry (bc_Disk (dm_builds s)) k)"
    "dm_log s' = keep_log (tr_home env) (\<lambda>k. below path k \<and> tr_stuck env k = None) (dm_log s)"
  using assms entry_filter [of "\<lambda>k. below path k \<and> tr_stuck env k = None" "cc_Disk (dm_conf s)" k]
    entry_filter [of "\<lambda>k. below path k \<and> tr_stuck env k = None" "bc_Disk (dm_builds s)" k]
  by (auto simp: os_RemoveAll_def Let_def split: if_splits)

lemma keep_log_same:
  assumes "HasPrefix h ''/''" "\<not> gone (config_root h @ ''/logs'')" "\<not> gone (config_root h @ ''/logs/calf.log'')"
    "\<not> gone (config_root h @ ''/logs/calf.log.1'')"
  shows "keep_log (Inr h) gone l = l"
  using assms(2-4) by (simp add: keep_log_def Let_def config_paths [OF assms(1)])

lemma stop_frame:
  assumes "stopRuntimeForTroubleshoot env s = (e, s')"
  shows "s' = s\<lparr>dm_core := dm_core s'\<rparr>" "e = None \<Longrightarrow> \<not> co_active (dm_core s')"
  using assms
  by (auto simp: stopRuntimeForTroubleshoot_def onEngine_def call_def ClearResourceSaver_def Saver_Clear_def Let_def
      split: prod.splits option.splits)

text \<open>The errors of \<open>os.RemoveAll\<close> are not about missing files.\<close>

definition real_errors :: "'w troubleEnv \<Rightarrow> bool" where
  "real_errors env \<longleftrightarrow> (\<forall>k. tr_stuck env k \<noteq> Some (Sentinel ErrNotExist))"

lemma removePath_RemoveAll:
  assumes "removePathIfExists env path s = (None, s')" "path \<noteq> ''''" "real_errors env"
  shows "os_RemoveAll env path s = (None, s')"
proof -
  obtain e s1 where r: "os_RemoveAll env path s = (e, s1)" by fastforce
  have "e \<noteq> Some (Sentinel ErrNotExist)"
  proof
    assume "e = Some (Sentinel ErrNotExist)"
    then have "\<exists>k. tr_stuck env k = Some (Sentinel ErrNotExist)"
      using r hd_in_set [of "List.map_filter (\<lambda>k. if below path k then tr_stuck env k else None) (all_paths (tr_home env) s)"]
      by (fastforce simp: os_RemoveAll_def Let_def List.map_filter_def split: if_splits)
    then show False using assms(3) by (auto simp: real_errors_def)
  qed
  then show ?thesis using assms(1,2) r by (auto simp: removePathIfExists_def split: option.splits if_splits)
qed

text \<open>A purge that succeeded, step by step.\<close>

lemma purge_steps:
  assumes "PurgeData env s = (None, s')" "tr_home env = Inr h" "HasPrefix h ''/''" "real_errors env"
  obtains s1 s2 s3 where "stopRuntimeForTroubleshoot env s = (None, s1)"
    "os_RemoveAll env (config_root h @ ''/guest'') s1 = (None, s2)"
    "os_RemoveAll env (config_root h @ ''/builds.json'') s2 = (None, s3)" "s' = forgetState s3"
proof -
  obtain e s1 where s1: "stopRuntimeForTroubleshoot env s = (e, s1)" by fastforce
  have e: "e = None" using assms(1) s1 by (cases e) (simp_all add: PurgeData_def)
  obtain f s2 where s2: "removePathIfExists env (config_root h @ ''/guest'') s1 = (f, s2)" by fastforce
  have j: "filepath_Join (config_root h) ''guest'' = config_root h @ ''/guest''" using config_paths(2) [OF assms(3), of "''guest''"] by (simp add: plain_seg_def)
  have f: "f = None" using assms(1,2) s1 s2 e j by (cases f) (simp_all add: PurgeData_def config_paths [OF assms(3)])
  obtain g s3 where s3: "removePathIfExists env (config_root h @ ''/builds.json'') s2 = (g, s3)" by fastforce
  have g: "g = None" "s' = forgetState s3"
    using assms(1,2) s1 s2 s3 e f j by (cases g; simp add: PurgeData_def config_paths [OF assms(3)])+
  show ?thesis using that s1 s2 s3 e f g assms(4) by (simp add: removePath_RemoveAll)
qed


definition guest_path :: "string \<Rightarrow> string" where
  "guest_path h = config_root h @ ''/guest''"

lemma not_below_names:
  "\<not> below (config_root h @ ''/guest'') (config_root h @ ''/config.yaml'')" "\<not> below (config_root h @ ''/builds.json'') (config_root h @ ''/config.yaml'')"
  "\<not> below (config_root h @ ''/guest'') (config_root h @ ''/logs'')" "\<not> below (config_root h @ ''/builds.json'') (config_root h @ ''/logs'')"
  "\<not> below (config_root h @ ''/guest'') (config_root h @ ''/logs/calf.log'')" "\<not> below (config_root h @ ''/builds.json'') (config_root h @ ''/logs/calf.log'')"
  "\<not> below (config_root h @ ''/guest'') (config_root h @ ''/logs/calf.log.1'')" "\<not> below (config_root h @ ''/builds.json'') (config_root h @ ''/logs/calf.log.1'')"
  by (simp_all add: below_def HasPrefix_def)

lemma forget_frame [simp]:
  "dm_conf (forgetState s) = dm_conf s" "dm_log (forgetState s) = dm_log s" "bc_Disk (dm_builds (forgetState s)) = bc_Disk (dm_builds s)"
  "bc_Builds (dm_builds (forgetState s)) = []" "bc_Seq (dm_builds (forgetState s)) = 0"
  "all_paths hm (forgetState s) = all_paths hm s" "dm_other (forgetState s) = dm_other s"
  by (simp_all add: forgetState_def all_paths_def)

lemma forget_core:
  "\<not> ResourceSaverActive (dm_core (forgetState s))"
  "co_snapshot (dm_core (forgetState s)) = \<lparr>sn_containers = [], sn_images = [], sn_volumes = [], sn_networks = []\<rparr>"
  by (simp_all add: forgetState_def ClearResourceSaver_def Saver_Clear_def clearResourceSnapshot_def ResourceSaverActive_def
      replaceNetworks_def replaceVolumes_def replaceImages_def replaceContainers_def)

text \<open>A daemon that has nothing of the engine left, in memory and for the next process.\<close>

definition nothing_kept :: "string result \<Rightarrow> string faults \<Rightarrow> 'w daemon \<Rightarrow> bool" where
  "nothing_kept hm io s \<longleftrightarrow> bc_Builds (dm_builds s) = [] \<and> Load io hm (bc_Disk (dm_builds s)) = Inr \<lparr>bf_Builds = [], bf_Seq = 0\<rparr>
     \<and> \<not> ResourceSaverActive (dm_core s)
     \<and> co_snapshot (dm_core s) = \<lparr>sn_containers = [], sn_images = [], sn_volumes = [], sn_networks = []\<rparr>"

lemma no_builds_file:
  assumes "entry d (config_root h @ ''/builds.json'') = None" "HasPrefix h ''/''" "io OpRead (config_root h @ ''/builds.json'') = None"
  shows "Load io (Inr h) d = Inr \<lparr>bf_Builds = [], bf_Seq = 0\<rparr>"
  using assms by (simp add: Load_def config_paths ReadFile_def)

lemma entry_None_paths: "k \<notin> set (all_paths hm s) \<Longrightarrow> entry (bc_Disk (dm_builds s)) k = None"
  by (auto simp: all_paths_def entry_def map_of_eq_None_iff)

text \<open>
  A purge that is answered with 200 removed what it names and nothing else that matters: no file is left below the
  guest directory, there are no builds, neither in memory nor after a restart, the resource saver is off and the snapshot
  empty; the configuration, in memory and on disk, and the log are as before.
\<close>

theorem purge_keeps_settings:
  assumes "handleTroubleshootPurge env r s = (Response 200 b, s')" "tr_home env = Inr h" "HasPrefix h ''/''" "real_errors env"
    "io OpRead (config_root h @ ''/builds.json'') = None"
  shows "\<not> (\<exists>k \<in> set (all_paths (tr_home env) s'). below (guest_path h) k) \<and> nothing_kept (tr_home env) io s'
    \<and> cc_Cfg (dm_conf s') = cc_Cfg (dm_conf s)
    \<and> entry (cc_Disk (dm_conf s')) (config_root h @ ''/config.yaml'') = entry (cc_Disk (dm_conf s)) (config_root h @ ''/config.yaml'')
    \<and> dm_log s' = dm_log s"
proof -
  have "PurgeData env s = (None, s')"
    using assms(1) by (auto simp: handleTroubleshootPurge_def WriteError_def split: prod.splits option.splits)
  then obtain s1 s2 s3 where s1: "stopRuntimeForTroubleshoot env s = (None, s1)"
    and s2: "os_RemoveAll env (config_root h @ ''/guest'') s1 = (None, s2)"
    and s3: "os_RemoveAll env (config_root h @ ''/builds.json'') s2 = (None, s3)" and s': "s' = forgetState s3"
    using assms(2-4) by (rule purge_steps)
  note st = stop_frame(1) [OF s1]
  have m: "dm_conf s1 = dm_conf s" "dm_log s1 = dm_log s" by (subst st, simp)+
  note nb = not_below_names [of h]
  have k2: "set (all_paths (tr_home env) s2) = {k \<in> set (all_paths (tr_home env) s1). \<not> below (guest_path h) k}"
    and k3: "set (all_paths (tr_home env) s3) = {k \<in> set (all_paths (tr_home env) s2). \<not> below (config_root h @ ''/builds.json'') k}"
    using RemoveAll_removed [OF s2 assms(2,3)] RemoveAll_removed [OF s3 assms(2,3)] by (simp_all add: removed_def guest_path_def)
  have l2: "dm_log s2 = dm_log s1" unfolding RemoveAll_frame(5) [OF s2] assms(2) using nb by (intro keep_log_same [OF assms(3)]) simp_all
  have l3: "dm_log s3 = dm_log s2" unfolding RemoveAll_frame(5) [OF s3] assms(2) using nb by (intro keep_log_same [OF assms(3)]) simp_all
  have "config_root h @ ''/builds.json'' \<notin> set (all_paths (tr_home env) s3)" unfolding k3 by (simp add: below_def)
  then have "Load io (tr_home env) (bc_Disk (dm_builds s3)) = Inr \<lparr>bf_Builds = [], bf_Seq = 0\<rparr>"
    unfolding assms(2) by (intro no_builds_file assms(3,5)) (rule entry_None_paths)
  then have n: "nothing_kept (tr_home env) io s'" by (simp add: nothing_kept_def s' forget_core)
  have "\<not> (\<exists>k \<in> set (all_paths (tr_home env) s'). below (guest_path h) k)" unfolding s' using k2 k3 by auto
  moreover have "cc_Cfg (dm_conf s') = cc_Cfg (dm_conf s)"
    unfolding s' using RemoveAll_frame(2) [OF s2] RemoveAll_frame(2) [OF s3] m by simp
  moreover have "entry (cc_Disk (dm_conf s')) (config_root h @ ''/config.yaml'') = entry (cc_Disk (dm_conf s)) (config_root h @ ''/config.yaml'')"
    unfolding s' using RemoveAll_frame(3) [OF s2] RemoveAll_frame(3) [OF s3] m nb by simp
  ultimately show ?thesis using n l2 l3 m by (simp add: s')
qed


section \<open>The reset\<close>

lemma remove_loop_removed:
  assumes "remove_loop env dir names s = (None, s')" "tr_home env = Inr h" "HasPrefix h ''/''"
  shows "set (all_paths (tr_home env) s') = {k \<in> set (all_paths (tr_home env) s). \<forall>n \<in> set names. \<not> below (filepath_Join dir n) k}"
  using assms(1)
proof (induction names arbitrary: s)
  case (Cons n names)
  obtain e s1 where s1: "os_RemoveAll env (filepath_Join dir n) s = (e, s1)" by fastforce
  then have "e = None" "remove_loop env dir names s1 = (None, s')" using Cons.prems by (cases e; simp add: Let_def)+
  then show ?case using Cons.IH RemoveAll_removed [OF _ assms(2,3)] s1 by (auto simp: removed_def)
qed simp

lemma remove_loop_log:
  "remove_loop env dir names s = (e, s') \<Longrightarrow> lo_var (dm_log s') = lo_var (dm_log s) \<and> lo_out (dm_log s') = lo_out (dm_log s)
     \<and> length (lo_handles (dm_log s')) = length (lo_handles (dm_log s))"
proof (induction names arbitrary: s)
  case (Cons n names)
  obtain f s1 where s1: "os_RemoveAll env (filepath_Join dir n) s = (f, s1)" by fastforce
  have "lo_var (dm_log s1) = lo_var (dm_log s) \<and> lo_out (dm_log s1) = lo_out (dm_log s)
      \<and> length (lo_handles (dm_log s1)) = length (lo_handles (dm_log s))"
    unfolding RemoveAll_frame(5) [OF s1] by (simp add: keep_log_def Let_def split: sum.split)
  then show ?case using Cons s1 by (cases f) (simp_all add: Let_def)
qed simp

text \<open>The names in the configuration directory are names of files.\<close>

definition named_entries :: "string \<Rightarrow> 'w troubleEnv \<Rightarrow> 'w daemon \<Rightarrow> bool" where
  "named_entries h env s \<longleftrightarrow> list_all plain_seg (dir_entries (config_root h) (all_paths (tr_home env) s))"

lemma child_below: "child dir k = Some n \<Longrightarrow> below (dir @ ''/'' @ n) k"
proof -
  assume "child dir k = Some n"
  then obtain rest where k: "k = dir @ ''/'' @ rest" and n: "n = takeWhile (\<lambda>c. c \<noteq> CHR ''/'') rest"
    by (auto simp: child_def HasPrefix_def prefix_def split: if_splits)
  have "rest = n @ dropWhile (\<lambda>c. c \<noteq> CHR ''/'') rest" by (simp add: n)
  moreover have "dropWhile (\<lambda>c. c \<noteq> CHR ''/'') rest = [] \<or> (\<exists>t. dropWhile (\<lambda>c. c \<noteq> CHR ''/'') rest = CHR ''/'' # t)"
    by (cases "dropWhile (\<lambda>c. c \<noteq> CHR ''/'') rest") (auto simp: dropWhile_eq_Cons_conv)
  ultimately have "rest = n \<or> (\<exists>t. rest = n @ CHR ''/'' # t)" by (metis append_Nil2)
  then show ?thesis unfolding k below_def by (auto simp: HasPrefix_def)
qed

lemma reset_empties:
  assumes "remove_loop env (config_root h) (dir_entries (config_root h) (all_paths (tr_home env) s)) s = (None, s')"
    "tr_home env = Inr h" "HasPrefix h ''/''" "named_entries h env s"
  shows "\<forall>k \<in> set (all_paths (tr_home env) s'). \<not> HasPrefix k (config_root h @ ''/'')"
proof
  fix k assume k: "k \<in> set (all_paths (tr_home env) s')"
  show "\<not> HasPrefix k (config_root h @ ''/'')"
  proof
    assume p: "HasPrefix k (config_root h @ ''/'')"
    then obtain n where n: "child (config_root h) k = Some n" by (simp add: child_def)
    have "k \<in> set (all_paths (tr_home env) s)" using k remove_loop_removed [OF assms(1-3)] by simp
    then have e: "n \<in> set (dir_entries (config_root h) (all_paths (tr_home env) s))"
      using n by (force simp: dir_entries_def List.map_filter_def)
    then have "filepath_Join (config_root h) n = config_root h @ ''/'' @ n"
      using assms(4) config_paths(2) [OF assms(3)] by (simp add: named_entries_def list_all_iff)
    then show False using k e child_below [OF n] remove_loop_removed [OF assms(1-3)] by auto
  qed
qed

text \<open>Opening the log again when its directory is gone: a new object takes the place of the one the logger writes to.\<close>

lemma openLogFileLocked_fresh:
  assumes "lo_file l = None" "openLogFileLocked hm f l = (r, l')"
  shows "lo_backup l' = lo_backup l \<and> lo_out l' = lo_out l \<and> (\<exists>hs. lo_handles l' = lo_handles l @ hs)
    \<and> lo_var l' \<in> {lo_var l, Some (length (lo_handles l))}"
proof (cases "LogFilePath hm")
  case (Inr path)
  show ?thesis
  proof (cases "lf_mkdir f")
    case None
    then show ?thesis using assms Inr
      by (cases "lf_open f") (auto simp: openLogFileLocked_def Let_def newRotatingFile_def Reopen_def rotateIfNeeded_def file_view_def
          openAppend_def open_error_def of_view_def)
  qed (use assms Inr in \<open>auto simp: openLogFileLocked_def\<close>)
qed (use assms in \<open>auto simp: openLogFileLocked_def\<close>)

lemma reopenObject_no_dir:
  assumes "\<not> lo_dir l" "lo_file l = None"
  shows "reopenObject f i l = (Some (Sentinel ErrNotExist), l\<lparr>lo_handles := (lo_handles l)[i := Shut]\<rparr>)"
  using assms by (simp add: reopenObject_def open_error_def file_view_def of_view_def Reopen_def rotateIfNeeded_def openAppend_def)

lemma reopen_fresh:
  assumes "\<not> lo_dir l" "lo_file l = None" "ReopenLogFile hm f l = (r, l')"
  shows "lo_backup l' = lo_backup l \<and> lo_out l' = lo_out l
    \<and> (\<forall>i. lo_var l = Some i \<longrightarrow> i < length (lo_handles l) \<longrightarrow> i < length (lo_handles l') \<and> lo_handles l' ! i = Shut \<and> lo_var l' \<noteq> Some i)"
proof (cases "lo_var l")
  case None
  then show ?thesis using assms(2,3) openLogFileLocked_fresh by (simp add: ReopenLogFile_def)
next
  case (Some i)
  define l1 where "l1 = l\<lparr>lo_handles := (lo_handles l)[i := Shut], lo_var := None\<rparr>"
  have "openLogFileLocked hm f l1 = (r, l')"
    using assms Some reopenObject_no_dir [OF assms(1,2)] by (auto simp: ReopenLogFile_def closeObject_def l1_def split: sum.splits)
  then have "lo_backup l' = lo_backup l1 \<and> lo_out l' = lo_out l1 \<and> (\<exists>hs. lo_handles l' = lo_handles l1 @ hs)
      \<and> lo_var l' \<in> {lo_var l1, Some (length (lo_handles l1))}"
    using assms(2) by (intro openLogFileLocked_fresh) (simp_all add: l1_def)
  then show ?thesis using Some by (auto simp: l1_def nth_append)
qed

text \<open>A reset that succeeded, step by step.\<close>

lemma reset_steps:
  assumes "FactoryReset env s = (None, s')" "tr_home env = Inr h" "HasPrefix h ''/''"
  obtains s1 s2 d where "stopRuntimeForTroubleshoot env s = (None, s1)"
    "remove_loop env (config_root h) (dir_entries (config_root h) (all_paths (tr_home env) s1)) s1 = (None, s2)"
    "Config_Save (tr_faults env) (tr_home env) (cc_Disk (dm_conf s2)) Default = (None, d)"
    "s' = (forgetState s2)\<lparr>dm_conf := (dm_conf s2)\<lparr>cc_Disk := d, cc_Cfg := Default, cc_Level := SetLogLevel (cf_LogLevel Default)\<rparr>,
       dm_log := snd (ReopenLogFile (tr_home env) (tr_logFaults env) (dm_log s2))\<rparr>"
proof -
  obtain e s1 where s1: "stopRuntimeForTroubleshoot env s = (e, s1)" by fastforce
  have e: "e = None" using assms(1) s1 by (cases e) (simp_all add: FactoryReset_def)
  obtain f s2 where s2: "remove_loop env (config_root h) (dir_entries (config_root h) (all_paths (tr_home env) s1)) s1 = (f, s2)" by fastforce
  have rd: "tr_faults env OpReadDir (config_root h) = None" using assms(1,2) s1 e
    by (cases "tr_faults env OpReadDir (config_root h)") (simp_all add: FactoryReset_def config_paths [OF assms(3)])
  have f: "f = None" using assms(1,2) s1 s2 e rd by (cases f) (simp_all add: FactoryReset_def config_paths [OF assms(3)])
  obtain g d where g: "Config_Save (tr_faults env) (tr_home env) (cc_Disk (dm_conf s2)) Default = (g, d)" by fastforce
  have "g = None" using assms(1,2) s1 s2 e rd f g by (cases g) (simp_all add: FactoryReset_def config_paths [OF assms(3)])
  then show ?thesis using that [OF _ s2 [unfolded f]] assms(1,2) s1 s2 e rd f g
    by (simp add: FactoryReset_def config_paths [OF assms(3)] forgetState_def Let_def)
qed


lemma fresh_log_after_reset:
  assumes "\<forall>k \<in> set (all_paths (tr_home env) s). \<not> HasPrefix k (config_root h @ ''/'')" "tr_home env = Inr h" "HasPrefix h ''/''"
  shows "\<not> lo_dir (dm_log s) \<and> lo_file (dm_log s) = None \<and> lo_backup (dm_log s) = None"
proof -
  have "lo_dir (dm_log s) \<Longrightarrow> config_root h @ ''/logs'' \<in> set (all_paths (tr_home env) s)"
    "lo_file (dm_log s) \<noteq> None \<Longrightarrow> config_root h @ ''/logs/calf.log'' \<in> set (all_paths (tr_home env) s)"
    "lo_backup (dm_log s) \<noteq> None \<Longrightarrow> config_root h @ ''/logs/calf.log.1'' \<in> set (all_paths (tr_home env) s)"
    by (auto simp: all_paths_def log_paths_def assms config_paths)
  then show ?thesis using assms(1) below_root [of "config_root h"] by blast
qed

lemma saved_keys:
  assumes "Config_Save io (Inr h) d c = (None, d')" "HasPrefix h ''/''"
  shows "set (map fst d') = insert (config_root h @ ''/config.yaml'') (set (map fst d))"
  using assms put_keys [of "config_root h @ ''/config.yaml''" _ d]
  by (auto simp: Config_Save_def config_paths WriteFile_def split: option.splits node.splits)

lemma withDefaults_Default: "withDefaults Default = Default"
  by (simp add: withDefaults_def Default_def defaultListen_def DefaultListenAddr_def positiveOr_def clampTimeout_def DefaultVMName_def
      DefaultPollIntervalMS_def TimeoutMinSec_def TimeoutMaxSec_def Let_def TrimSpace_def)

text \<open>
  C16: A factory reset that is answered with 200 leaves a daemon like a new one: the configuration is the default one, in
  memory and for the next process, there are no builds, neither in memory nor after a restart, the resource saver is off,
  and of everything that was in the configuration directory there is only the new configuration file and a new, empty log.
\<close>

theorem reset_is_complete:
  assumes "handleTroubleshootFactoryReset env r s = (Response 200 b, s')" "tr_home env = Inr h" "HasPrefix h ''/''"
    "\<And>s1. stopRuntimeForTroubleshoot env s = (None, s1) \<Longrightarrow> named_entries h env s1" "io = no_faults"
  shows "cc_Cfg (dm_conf s') = Default \<and> fst (Config_Load io (tr_home env) (cc_Disk (dm_conf s'))) = Inr Default
    \<and> nothing_kept (tr_home env) io s'
    \<and> (\<forall>k \<in> set (all_paths (tr_home env) s'). HasPrefix k (config_root h @ ''/'') \<longrightarrow>
         k \<in> {config_root h @ ''/config.yaml'', config_root h @ ''/logs'', config_root h @ ''/logs/calf.log''})"
proof -
  have "FactoryReset env s = (None, s')"
    using assms(1) by (auto simp: handleTroubleshootFactoryReset_def WriteError_def split: prod.splits option.splits)
  then obtain s1 s2 d where s1: "stopRuntimeForTroubleshoot env s = (None, s1)"
    and s2: "remove_loop env (config_root h) (dir_entries (config_root h) (all_paths (tr_home env) s1)) s1 = (None, s2)"
    and d: "Config_Save (tr_faults env) (tr_home env) (cc_Disk (dm_conf s2)) Default = (None, d)"
    and s': "s' = (forgetState s2)\<lparr>dm_conf := (dm_conf s2)\<lparr>cc_Disk := d, cc_Cfg := Default, cc_Level := SetLogLevel (cf_LogLevel Default)\<rparr>,
       dm_log := snd (ReopenLogFile (tr_home env) (tr_logFaults env) (dm_log s2))\<rparr>"
    using assms(2,3) by (rule reset_steps)
  have empty: "\<forall>k \<in> set (all_paths (tr_home env) s2). \<not> HasPrefix k (config_root h @ ''/'')"
    using reset_empties [OF s2 assms(2,3)] assms(4) s1 by simp
  obtain w l where l: "ReopenLogFile (tr_home env) (tr_logFaults env) (dm_log s2) = (w, l)" by fastforce
  have "lo_backup l = None" using fresh_log_after_reset [OF empty assms(2,3)] reopen_fresh [OF _ _ l] by simp
  then have lp: "set (log_paths (tr_home env) l) \<subseteq> {config_root h @ ''/logs'', config_root h @ ''/logs/calf.log''}"
    by (auto simp: log_paths_def assms(2) config_paths [OF assms(3)])
  have "\<not> HasPrefix k (config_root h @ ''/'')" if "k \<in> set (map fst (cc_Disk (dm_conf s2))) \<union> set (map fst (bc_Disk (dm_builds s2))) \<union> set (dm_other s2)" for k
    using empty that by (auto simp: all_paths_def)
  moreover have "set (all_paths (tr_home env) s') = insert (config_root h @ ''/config.yaml'') (set (map fst (cc_Disk (dm_conf s2))))
      \<union> set (map fst (bc_Disk (dm_builds s2))) \<union> set (log_paths (tr_home env) l) \<union> set (dm_other s2)"
    unfolding saved_keys [OF d [unfolded assms(2)] assms(3), symmetric] by (simp add: all_paths_def s' l Un_assoc)
  ultimately have "\<forall>k \<in> set (all_paths (tr_home env) s'). HasPrefix k (config_root h @ ''/'') \<longrightarrow>
         k \<in> {config_root h @ ''/config.yaml'', config_root h @ ''/logs'', config_root h @ ''/logs/calf.log''}"
    using lp by blast
  moreover have "fst (Config_Load io (tr_home env) d) = Inr Default"
    using Load_after_Save [OF d, of _ io] assms(5) withDefaults_Default by (simp add: assms(2) config_paths [OF assms(3)] no_faults_def)
  moreover have "config_root h @ ''/builds.json'' \<notin> set (all_paths (tr_home env) s2)" using empty below_root by blast
  then have "Load io (tr_home env) (bc_Disk (dm_builds s2)) = Inr \<lparr>bf_Builds = [], bf_Seq = 0\<rparr>"
    unfolding assms(2) by (intro no_builds_file assms(3) entry_None_paths) (simp_all add: assms(5) no_faults_def)
  then have "nothing_kept (tr_home env) io s'" using forget_core [of s2] by (simp add: nothing_kept_def s')
  ultimately show ?thesis by (simp add: s')
qed

text \<open>
  What may happen to the log after a reset: lines are written, files are removed, and the log is opened again by
  another reset.
\<close>

inductive log_later :: "string result \<Rightarrow> logging \<Rightarrow> logging \<Rightarrow> bool" for hm l0 where
  later_now: "log_later hm l0 l0"
| later_write: "log_later hm l0 l \<Longrightarrow> logger_Write f full p l = (e, l') \<Longrightarrow> log_later hm l0 l'"
| later_removed: "log_later hm l0 l \<Longrightarrow> log_later hm l0 (keep_log hm gone l)"
| later_reopened: "log_later hm l0 l \<Longrightarrow> ReopenLogFile hm f l = (w, l') \<Longrightarrow> log_later hm l0 l'"

text \<open>The logger has an object that is closed and that the variable no longer refers to.\<close>

definition deaf :: "nat \<Rightarrow> logging \<Rightarrow> bool" where
  "deaf i l \<longleftrightarrow> lo_out l = Some i \<and> i < length (lo_handles l) \<and> lo_handles l ! i = Shut \<and> lo_var l \<noteq> Some i"

lemma deaf_write:
  assumes "deaf i l"
  shows "logger_Write f full p l = (Some ErrClosed, l)"
proof -
  have "(lo_handles l)[i := Shut] = lo_handles l" using assms by (metis deaf_def list_update_id)
  then show ?thesis using assms by (simp add: deaf_def logger_Write_def file_view_def rotating_Write_def of_view_def)
qed

lemma deaf_open:
  assumes "deaf i l" "openLogFileLocked hm f l = (w, l')"
  shows "deaf i l'"
  using assms
  by (auto simp: openLogFileLocked_def deaf_def of_view_def nth_append Let_def split: sum.splits option.splits prod.splits)

lemma deaf_reopen:
  assumes "deaf i l" "ReopenLogFile hm f l = (w, l')"
  shows "deaf i l'"
proof (cases "lo_var l")
  case None
  then show ?thesis using assms deaf_open [OF assms(1)] by (auto simp: ReopenLogFile_def)
next
  case (Some j)
  then have ij: "i \<noteq> j" using assms(1) by (auto simp: deaf_def)
  have ro: "deaf i l1" if "reopenObject f j l = (e, l1)" for e l1
    using that assms(1) ij by (auto simp: reopenObject_def deaf_def of_view_def split: prod.splits)
  have cl: "deaf i (closeObject j l1\<lparr>lo_var := None\<rparr>)" if "deaf i l1" for l1
    using that ij by (auto simp: deaf_def closeObject_def)
  obtain e l1 where r: "(case LogFilePath hm of Inl err \<Rightarrow> (Some err, l) | Inr _ \<Rightarrow> reopenObject f j l) = (e, l1)" by (metis surj_pair)
  then have d: "deaf i l1" using ro assms(1) by (auto split: sum.splits)
  show ?thesis
  proof (cases e)
    case (Some err)
    then have "openLogFileLocked hm f (closeObject j l1\<lparr>lo_var := None\<rparr>) = (w, l')"
      using assms(2) \<open>lo_var l = Some j\<close> r by (simp add: ReopenLogFile_def)
    from deaf_open [OF cl [OF d] this] show ?thesis .
  qed (use assms(2) Some r d in \<open>simp add: ReopenLogFile_def\<close>)
qed

lemma deaf_later: "log_later hm l0 l \<Longrightarrow> deaf i l0 \<Longrightarrow> deaf i l"
proof (induction rule: log_later.induct)
  case (later_write l f full p e l')
  then show ?case using deaf_write by fastforce
next
  case (later_removed l gone)
  then show ?case by (auto simp: deaf_def keep_log_def Let_def split: sum.splits)
next
  case (later_reopened l f w l')
  then show ?case using deaf_reopen by blast
qed simp

text \<open>
  C40: After a factory reset that is answered with 200, the logger never reaches the log file again in this process: after any number
  of lines, removals of files and further resets, writing a line fails as on a closed file and changes nothing. The directory of
  the log is among what was removed, so the object of the logger cannot be opened again; the new log file belongs to a
  new object, which the logger does not know, and only a new process makes a new logger.
\<close>

theorem reset_ends_logging:
  assumes "handleTroubleshootFactoryReset env r s = (Response 200 b, s')" "tr_home env = Inr h" "HasPrefix h ''/''"
    "\<And>s1. stopRuntimeForTroubleshoot env s = (None, s1) \<Longrightarrow> named_entries h env s1"
    "lo_out (dm_log s) = lo_var (dm_log s)" "lo_var (dm_log s) = Some i" "i < length (lo_handles (dm_log s))"
    "log_later (tr_home env) (dm_log s') l"
  shows "logger_Write f full p l = (Some ErrClosed, l)"
proof -
  have "FactoryReset env s = (None, s')"
    using assms(1) by (auto simp: handleTroubleshootFactoryReset_def WriteError_def split: prod.splits option.splits)
  then obtain s1 s2 d where s1: "stopRuntimeForTroubleshoot env s = (None, s1)"
    and s2: "remove_loop env (config_root h) (dir_entries (config_root h) (all_paths (tr_home env) s1)) s1 = (None, s2)"
    and s': "s' = (forgetState s2)\<lparr>dm_conf := (dm_conf s2)\<lparr>cc_Disk := d, cc_Cfg := Default, cc_Level := SetLogLevel (cf_LogLevel Default)\<rparr>,
       dm_log := snd (ReopenLogFile (tr_home env) (tr_logFaults env) (dm_log s2))\<rparr>"
    using assms(2,3) by (rule reset_steps)
  obtain w l where l: "ReopenLogFile (tr_home env) (tr_logFaults env) (dm_log s2) = (w, l)" by fastforce
  have "dm_log s1 = dm_log s" by (subst stop_frame(1) [OF s1]) simp
  then have "lo_out (dm_log s2) = Some i" "lo_var (dm_log s2) = Some i" "i < length (lo_handles (dm_log s2))"
    using remove_loop_log [OF s2] assms(5-7) by simp_all
  then have "deaf i l"
    using fresh_log_after_reset [OF reset_empties [OF s2 assms(2,3)] assms(2,3)] assms(4) [OF s1] reopen_fresh [OF _ _ l]
    by (simp add: deaf_def)
  then have "deaf i (dm_log s')" by (simp add: s' l)
  then show ?thesis by (rule deaf_write [OF deaf_later [OF assms(8)]])
qed

text \<open>A daemon with a guest disk, a build, a configuration file and an open log.\<close>

definition trouble_env :: "Mock troubleEnv" where
  "trouble_env = \<lparr>tr_home = Inr ''/h'', tr_faults = no_faults, tr_logFaults = \<lparr>lf_mkdir = None, lf_rename = None, lf_open = None\<rparr>,
     tr_stuck = (\<lambda>_. None), tr_engine = mock_engine, tr_wait = (\<lambda>w. (None, w))\<rparr>"

definition used_daemon :: "Mock daemon" where
  "used_daemon = \<lparr>dm_core = idle_core, dm_builds = orphan_core,
     dm_conf = \<lparr>cc_Cfg = Default\<lparr>cf_CPUs := 2\<rparr>, cc_Disk = [(''/h/.config/calf/config.yaml'', File (Json (yaml_of (Default\<lparr>cf_CPUs := 2\<rparr>))))],
       cc_Level = LevelInfo, cc_proxyJobs = [], cc_activations = 0\<rparr>,
     dm_log = \<lparr>lo_handles = [Linked], lo_var = Some 0, lo_out = Some 0, lo_dir = True, lo_file = Some ''line'', lo_backup = None\<rparr>,
     dm_other = [''/h/.config/calf/guest/calf/disk.raw'']\<rparr>"

lemma root_of_h: "config_root ''/h'' = ''/h/.config/calf''"
  by (simp add: config_root_def abs_segs_def clean_step.simps rooted_path_def)

lemma used_stop: "stopRuntimeForTroubleshoot trouble_env used_daemon = (None, s1) \<Longrightarrow> all_paths (Inr ''/h'') s1 = all_paths (Inr ''/h'') used_daemon"
  by (drule stop_frame(1), erule ssubst) (simp add: all_paths_def)

lemma used_paths: "all_paths (Inr ''/h'') used_daemon = [''/h/.config/calf/config.yaml'', ''/h/.config/calf/builds.json'', ''/h/.config/calf/logs'',
    ''/h/.config/calf/logs/calf.log'', ''/h/.config/calf/guest/calf/disk.raw'']"
  using config_paths [of "''/h''"] by (simp add: all_paths_def log_paths_def used_daemon_def orphan_core_def root_of_h HasPrefix_def buildsPath_def)

lemma used_facts: "tr_home trouble_env = Inr ''/h''" "HasPrefix ''/h'' ''/''" "real_errors trouble_env"
  by (simp_all add: trouble_env_def HasPrefix_def real_errors_def)

lemma used_purge: "fst (PurgeData trouble_env used_daemon) = None"
  by code_simp

lemma used_reset: "fst (FactoryReset trouble_env used_daemon) = None"
  by code_simp

theorem purge_keeps_settings_witness:
  "\<exists>s'. handleTroubleshootPurge trouble_env put_request used_daemon = (WriteOK, s') \<and> nothing_kept (Inr ''/h'') no_faults s'
    \<and> \<not> (\<exists>k \<in> set (all_paths (Inr ''/h'') s'). below (guest_path ''/h'') k) \<and> cc_Cfg (dm_conf s') = Default\<lparr>cf_CPUs := 2\<rparr>"
proof -
  obtain s' where "PurgeData trouble_env used_daemon = (None, s')" using used_purge by (metis prod.collapse)
  then have p: "handleTroubleshootPurge trouble_env put_request used_daemon = (Response 200 OkBody, s')"
    by (simp add: handleTroubleshootPurge_def WriteOK_def)
  have "no_faults OpRead (config_root ''/h'' @ ''/builds.json'') = None" by (simp add: no_faults_def)
  then show ?thesis using purge_keeps_settings [OF p used_facts, of no_faults] p used_facts(1) by (auto simp: WriteOK_def used_daemon_def)
qed

lemma used_entries: "stopRuntimeForTroubleshoot trouble_env used_daemon = (None, s1) \<Longrightarrow> named_entries ''/h'' trouble_env s1"
proof -
  assume "stopRuntimeForTroubleshoot trouble_env used_daemon = (None, s1)"
  then have "all_paths (Inr ''/h'') s1 = all_paths (Inr ''/h'') used_daemon" by (rule used_stop)
  then have "dir_entries (config_root ''/h'') (all_paths (tr_home trouble_env) s1)
      = sort (remdups [''config.yaml'', ''builds.json'', ''logs'', ''logs'', ''guest''])"
    unfolding used_facts(1) dir_entries_def root_of_h by (simp add: used_paths List.map_filter_def child_def HasPrefix_def)
  then show ?thesis by (simp add: named_entries_def list_all_iff plain_seg_def)
qed

theorem reset_is_complete_witness:
  "\<exists>s'. handleTroubleshootFactoryReset trouble_env put_request used_daemon = (WriteOK, s') \<and> cc_Cfg (dm_conf s') = Default
    \<and> nothing_kept (Inr ''/h'') no_faults s'"
proof -
  obtain s' where "FactoryReset trouble_env used_daemon = (None, s')" using used_reset by (metis prod.collapse)
  then have p: "handleTroubleshootFactoryReset trouble_env put_request used_daemon = (Response 200 OkBody, s')"
    by (simp add: handleTroubleshootFactoryReset_def WriteOK_def)
  from reset_is_complete [OF p used_facts(1,2) used_entries refl] show ?thesis using p used_facts(1) by (auto simp: WriteOK_def)
qed

theorem reset_ends_logging_witness:
  "\<exists>s'. handleTroubleshootFactoryReset trouble_env put_request used_daemon = (WriteOK, s')
    \<and> fst (logger_Write (tr_logFaults trouble_env) False ''more'' (dm_log used_daemon)) = None
    \<and> logger_Write (tr_logFaults trouble_env) False ''more'' (dm_log s') = (Some ErrClosed, dm_log s')"
proof -
  obtain s' where "FactoryReset trouble_env used_daemon = (None, s')" using used_reset by (metis prod.collapse)
  then have p: "handleTroubleshootFactoryReset trouble_env put_request used_daemon = (Response 200 OkBody, s')"
    by (simp add: handleTroubleshootFactoryReset_def WriteOK_def)
  have w: "fst (logger_Write (tr_logFaults trouble_env) False ''more'' (dm_log used_daemon)) = None" by code_simp
  from reset_ends_logging [OF p used_facts(1,2) used_entries, of 0, OF _ _ _ _ later_now] show ?thesis
    using p w by (auto simp: WriteOK_def used_daemon_def)
qed

text \<open>
  The numbers of the builds start again after a purge: a job that was running before it finishes the first build that is
  started after it, since both have the ID \<open>build-1\<close>.
\<close>

lemma purge_reuses_ids:
  assumes "PurgeData env s = (None, s')" "NewBuild h now cp tag df pf st (dm_builds s') = (b, c)"
  shows "bd_ID b = ''build-1'' \<and> bc_Builds (finishJob h ''build-1'' result err ctx fin dur git c) = [finishedBuild result err ctx fin dur git b]"
proof -
  obtain s3 where "s' = forgetState s3"
    using assms(1) by (auto simp: PurgeData_def split: prod.splits option.splits sum.splits)
  then have e: "bc_Builds (dm_builds s') = []" "bc_Seq (dm_builds s') = 0" by simp_all
  have "show_int 1 = ''1''" by code_simp
  then have "bd_ID b = ''build-1''" "bc_Builds c = [b]"
    using e assms(2) by (auto simp: NewBuild_def Let_def persisted_def persistBuildsLocked_def MaxBuilds_def split: prod.splits)
  then show ?thesis by (simp add: finishJob_def GetBuild_def persisted_def persistBuildsLocked_def MaxBuilds_def split: prod.splits)
qed

text \<open>A guest disk that the configuration puts elsewhere is still there after a purge.\<close>

lemma removePath_other:
  "removePathIfExists env p s = (e, s') \<Longrightarrow> k \<in> set (dm_other s) \<Longrightarrow> \<not> below p k \<Longrightarrow> k \<in> set (dm_other s')"
  by (auto simp: removePathIfExists_def os_RemoveAll_def Let_def split: if_splits)

lemma custom_disk_survives:
  assumes "PurgeData env s = (e, s')" "tr_home env = Inr h" "HasPrefix h ''/''" "EffectiveDiskImage (tr_home env) (cc_Cfg (dm_conf s)) = path"
    "\<not> HasPrefix path (config_root h @ ''/'')" "path \<in> set (dm_other s)"
  shows "path \<in> set (dm_other s')"
proof -
  obtain f s1 where s1: "stopRuntimeForTroubleshoot env s = (f, s1)" by fastforce
  have o1: "path \<in> set (dm_other s1)" using assms(6) by (subst stop_frame(1) [OF s1]) simp
  have nb: "\<not> below (config_root h @ CHR ''/'' # x) path" for x using assms(5) by (auto simp: below_def HasPrefix_def prefix_def)
  have j: "filepath_Join (config_root h) ''guest'' = config_root h @ ''/guest''" using config_paths(2) [OF assms(3), of "''guest''"] by (simp add: plain_seg_def)
  obtain g s2 where s2: "removePathIfExists env (config_root h @ ''/guest'') s1 = (g, s2)" by fastforce
  obtain i s3 where s3: "removePathIfExists env (config_root h @ ''/builds.json'') s2 = (i, s3)" by fastforce
  have o2: "path \<in> set (dm_other s2)" using removePath_other [OF s2 o1 nb] .
  have "path \<in> set (dm_other s3)" using removePath_other [OF s3 o2 nb] .
  then show ?thesis using assms(1,2) s1 o1 s2 o2 s3
    by (cases f; cases g; cases i) (auto simp: PurgeData_def config_paths [OF assms(3)] j)
qed

section \<open>One migration at a time\<close>

text \<open>
  Requests and goroutines, interleaved.  A goroutine is what it still has to show; with nothing left it lets the next
  migration start.
\<close>

definition showStatus :: "migStatus \<Rightarrow> migCore \<Rightarrow> migCore" where
  "showStatus st c = c\<lparr>mc_status := st\<rparr>"

definition endMigration :: "migCore \<Rightarrow> migCore" where
  "endMigration c = c\<lparr>mc_running := False\<rparr>"

inductive mstep :: "'w migWorld MigEnv \<Rightarrow> migCore \<times> migStatus list list \<Rightarrow> migCore \<times> migStatus list list \<Rightarrow> bool"
  for env :: "'w migWorld MigEnv" where
  m_start: "handleDockerDesktopMigrationStart r c = (resp, c') \<Longrightarrow> mstep env (c, js) (c', js)"
| m_status: "handleDockerDesktopMigrationStatus r c = (resp, c') \<Longrightarrow> mstep env (c, js) (c', js)"
| m_begin: "mc_pending c = Suc n \<Longrightarrow> RunDockerDesktopMigration env h socket activate w = Some (ss, w') \<Longrightarrow>
     mstep env (c, js) (c\<lparr>mc_pending := n\<rparr>, ss # js)"
| m_show: "mstep env (c, us @ (st # ss) # vs) (showStatus st c, us @ ss # vs)"
| m_end: "mstep env (c, us @ [] # vs) (endMigration c, us @ vs)"

inductive mreach :: "'w migWorld MigEnv \<Rightarrow> migCore \<times> migStatus list list \<Rightarrow> bool" for env :: "'w migWorld MigEnv" where
  mr_init: "mreach env (\<lparr>mc_running = False, mc_status = IdleStatus, mc_pending = 0\<rparr>, [])"
| mr_step: "mreach env p \<Longrightarrow> mstep env p p' \<Longrightarrow> mreach env p'"

definition settled_phase :: "migStatus \<Rightarrow> bool" where
  "settled_phase st \<longleftrightarrow> ms_Phase st \<in> {MigrationPhaseIdle, MigrationPhaseCompleted, MigrationPhaseFailed}"

definition sound_status :: "migStatus \<Rightarrow> bool" where
  "sound_status st \<longleftrightarrow> 0 \<le> ms_Progress st \<and> ms_Progress st \<le> 100 \<and> counts_ok (ms_Summary st)"

text \<open>At most one goroutine, started or running; what it still shows is sound and ends with a result.\<close>

definition mig_ok :: "migCore \<times> migStatus list list \<Rightarrow> bool" where
  "mig_ok p \<longleftrightarrow> (case p of (c, js) \<Rightarrow>
     mc_pending c + length js = (if mc_running c then 1 else 0) \<and> sound_status (mc_status c)
     \<and> (\<not> mc_running c \<longrightarrow> settled_phase (mc_status c))
     \<and> (\<forall>ss \<in> set js. list_all sound_status ss \<and> settled_phase (last (mc_status c # ss))))"

lemma over_script:
  assumes "run_over g"
  shows "list_all sound_status (mg_shown g @ [mg_status g]) \<and> settled_phase (mg_status g)"
proof -
  obtain ss where ss: "mg_shown g = ss @ [mg_status g]" "shown_ok ss" "ms_Progress (last ss) \<le> ms_Progress (mg_status g)"
    "ms_Progress (mg_status g) \<le> 100" "counts_ok (ms_Summary (mg_status g))"
    "ms_Phase (mg_status g) = MigrationPhaseCompleted \<and> ms_Progress (mg_status g) = 100 \<or> ms_Phase (mg_status g) = MigrationPhaseFailed"
    using assms unfolding run_over_def by blast
  have "0 \<le> ms_Progress (last ss)" using ss(2) last_in_set [of ss] by (simp add: shown_ok_def)
  then have p: "0 \<le> ms_Progress (mg_status g)" using ss(3) by simp
  have "ms_Progress st \<le> 100" if "st \<in> set ss" for st
  proof -
    obtain us where us: "ss = us @ [last ss]" using ss(2) by (metis append_butlast_last_id shown_ok_def)
    then have "sorted (map ms_Progress us @ [ms_Progress (last ss)])" using ss(2) by (metis list.map map_append shown_ok_def)
    moreover have "st \<in> set us \<or> st = last ss" using that by (subst (asm) us) auto
    ultimately have "ms_Progress st \<le> ms_Progress (last ss)" by (auto simp: sorted_append)
    then show ?thesis using ss(3,4) by simp
  qed
  then show ?thesis using ss p by (auto simp: list_all_iff sound_status_def shown_ok_def settled_phase_def)
qed


lemma begun_script:
  assumes "RunDockerDesktopMigration env h socket activate w = Some (ss, w')" "\<And>ks. mset (me_walk env ks) = mset ks"
    "\<And>ddSocket w r w'. estimateMigrationBytes env ddSocket w = (Inr r, w') \<Longrightarrow> r < 1024 ^ 5"
  shows "list_all sound_status ss \<and> ss \<noteq> [] \<and> settled_phase (last ss)"
proof -
  obtain g where g: "RunFromDockerDesktop env (migrationOptions h socket w) w = Some g" "run_over g"
    using run_is_over [where opts = "migrationOptions h socket w" and w = w] assms(2,3) by blast
  then have "ss = mg_shown g @ [mg_status g]" using assms(1) by (auto simp: RunDockerDesktopMigration_def Let_def)
  then show ?thesis using over_script [OF g(2)] by simp
qed

lemma mig_ok_step:
  assumes "mstep env p p'" "mig_ok p" "\<And>ks. mset (me_walk env ks) = mset ks"
    "\<And>ddSocket w r w'. estimateMigrationBytes env ddSocket w = (Inr r, w') \<Longrightarrow> r < 1024 ^ 5"
  shows "mig_ok p'"
  using assms(1,2)
proof cases
  case (m_start r c resp c' js)
  then show ?thesis using assms(2)
    by (cases "mc_running c") (auto simp: handleDockerDesktopMigrationStart_def TryStartMigration_def mig_ok_def sound_status_def
        counts_ok_def emptySummary_def Let_def)
next
  case (m_status r c resp c' js)
  then show ?thesis using assms(2) by (simp add: handleDockerDesktopMigrationStatus_def)
next
  case (m_begin c n h socket activate w ss w' js)
  then have "js = []" "n = 0" "mc_running c" using assms(2) by (auto simp: mig_ok_def split: if_splits)
  then show ?thesis using begun_script [OF m_begin(4) assms(3,4)] m_begin assms(2) by (auto simp: mig_ok_def)
next
  case (m_show c us st ss vs)
  then have "us = []" "vs = []" "mc_running c" using assms(2) by (auto simp: mig_ok_def split: if_splits)
  then show ?thesis using m_show assms(2) by (auto simp: mig_ok_def showStatus_def)
next
  case (m_end c us vs)
  then have "us = []" "vs = []" "mc_running c" "mc_pending c = 0" using assms(2) by (auto simp: mig_ok_def split: if_splits)
  then show ?thesis using m_end assms(2) by (auto simp: mig_ok_def endMigration_def)
qed

lemma mreach_ok:
  assumes "mreach env p" "\<And>ks. mset (me_walk env ks) = mset ks"
    "\<And>ddSocket w r w'. estimateMigrationBytes env ddSocket w = (Inr r, w') \<Longrightarrow> r < 1024 ^ 5"
  shows "mig_ok p"
  using assms(1)
proof induction
  case mr_init
  then show ?case by (simp add: mig_ok_def sound_status_def settled_phase_def IdleStatus_def emptySummary_def counts_ok_def)
next
  case (mr_step p p')
  then show ?case using mig_ok_step assms(2,3) by blast
qed

text \<open>
  C10: However requests and goroutines interleave, there is at most one migration: a request to start one is answered with
  409 exactly while there is one, and with 202 otherwise.  The status that a client reads has a progress between 0 and 100
  and counts within their totals, and while no migration is going on it is idle or the result of the last one.
\<close>

theorem one_migration_at_a_time:
  assumes "mreach env (c, js)" "\<And>ks. mset (me_walk env ks) = mset ks"
    "\<And>ddSocket w r w'. estimateMigrationBytes env ddSocket w = (Inr r, w') \<Longrightarrow> r < 1024 ^ 5"
  shows "mc_pending c + length js \<le> 1
    \<and> resp_status (fst (handleDockerDesktopMigrationStart r c)) = (if mc_pending c + length js = 1 then 409 else 202)
    \<and> fst (handleDockerDesktopMigrationStatus r c) = WriteJSON 200 (mc_status c) \<and> sound_status (mc_status c)
    \<and> (mc_pending c + length js = 0 \<longrightarrow> settled_phase (mc_status c))"
proof -
  have "mig_ok (c, js)" using assms by (rule mreach_ok)
  then show ?thesis
    by (auto simp: mig_ok_def handleDockerDesktopMigrationStart_def TryStartMigration_def handleDockerDesktopMigrationStatus_def
        MigrationStatus_def WriteError_def WriteJSON_def Let_def split: if_splits)
qed


text \<open>A machine on which every command fails.\<close>

definition down_env :: "unit migWorld MigEnv" where
  "down_env = \<lparr>
     me_stage = \<lparr>se_home = Inr ''/h'', se_Stat = (\<lambda>_ w. (None, w)), se_RemoveAll = (\<lambda>_ w. (None, w)), se_MkdirAll = (\<lambda>_ w. (None, w)),
       se_Walk = (\<lambda>_ w. (FRegular, w)), se_CopyData = (\<lambda>_ _ w. (None, w)), se_ReadFile = (\<lambda>_ w. (Inl (Errorf ''none''), w)),
       se_WriteFile = (\<lambda>_ _ w. (None, w)), se_Unmarshal = (\<lambda>_. Inl (Errorf ''none'')), se_Marshal = (\<lambda>_. Inl (Errorf ''none''))\<rparr>,
     me_docker = (\<lambda>_ _ w. (Inl (Errorf ''down'', ''''), w)), me_LookPath = (\<lambda>w. (None, w)), me_Remove = (\<lambda>_ w. w),
     me_settings = (\<lambda>_. Inl (Errorf ''none'')), me_inspects = (\<lambda>_. Inl (Errorf ''none'')), me_row = (\<lambda>_. Inl (Errorf ''none'')),
     me_now = (\<lambda>w. (0, w)), me_walk = id\<rparr>"

theorem one_migration_at_a_time_witness:
  "\<exists>c. mreach down_env (c, []) \<and> resp_status (fst (handleDockerDesktopMigrationStart put_request c)) = 409"
proof -
  let ?c0 = "\<lparr>mc_running = False, mc_status = IdleStatus, mc_pending = 0\<rparr>"
  obtain resp c where c: "handleDockerDesktopMigrationStart put_request ?c0 = (resp, c)" by fastforce
  then have p: "mc_pending c = 1" by (auto simp: handleDockerDesktopMigrationStart_def TryStartMigration_def Let_def)
  have m: "mreach down_env (c, [])" using mr_init mstep.m_start [OF c] by (rule mr_step)
  have "resp_status (fst (handleDockerDesktopMigrationStart put_request c)) = (if mc_pending c + length [] = 1 then 409 else 202)"
    using one_migration_at_a_time [OF m, of put_request]
    by (simp add: down_env_def estimateMigrationBytes_def docker_Run_def)
  then show ?thesis using m p by auto
qed

end
