(* ===== verification/Calf_Ports.thy ===== *)
theory Calf_Ports
  imports Calf_Listing
begin

text \<open>
  Published ports on macOS.  The localhost proxies of \<open>internal/runtime/localhost_proxy.go\<close> listen on \<open>::1\<close>
  for the ports of running containers; the listening sockets of the process are explicit, so that a
  socket that is open but in no table shows.  The second half are the forwards of \<open>krunkit_darwin.go\<close>, which
  asks gvproxy over HTTP to expose the same ports; the HTTP exchange is an argument.
\<close>

section \<open>Addresses (net.SplitHostPort, net.JoinHostPort)\<close>

definition SplitHostPort :: "string \<Rightarrow> (string \<times> string) option" where
  "SplitHostPort hostport =
     (let i = LastIndex hostport (CHR '':'') in
      if i < 0 then None
      else let n = nat i; portText = drop (Suc n) hostport in
        if hd hostport = CHR ''['' then
          (if CHR '']'' \<notin> set hostport then None
           else let k = length (takeWhile (\<lambda>c. c \<noteq> CHR '']'') hostport) in
             if Suc k \<noteq> n then None
             else if CHR ''['' \<in> set (drop 1 hostport) then None
             else if CHR '']'' \<in> set (drop (Suc k) hostport) then None
             else Some (drop 1 (take k hostport), portText))
        else
          (let hostText = take n hostport in
           if CHR '':'' \<in> set hostText then None
           else if CHR ''['' \<in> set hostport \<or> CHR '']'' \<in> set hostport then None
           else Some (hostText, portText)))"

definition JoinHostPort :: "string \<Rightarrow> string \<Rightarrow> string" where
  "JoinHostPort h p = (if CHR '':'' \<in> set h then ''['' @ h @ '']:'' @ p else h @ '':'' @ p)"

section \<open>Data (localhost\_proxy.go)\<close>

text \<open>The maps of the struct are association lists: Go walks them in any order.\<close>

record localhostProxies =
  lp_listeners :: "(int \<times> nat) list"
  lp_conflicts :: "(int \<times> PortConflict) list"
  lp_reserved :: "int list"

text \<open>
  The sockets that this process has open on \<open>::1\<close>, as handle and port, and the accept loops.  \<open>taken\<close> are the
  ports that cannot be bound for another reason, and \<open>lsof\<close> is the output of the program for a port, asked
  for the first and for the second time.
\<close>

record sockets =
  sk_open :: "(nat \<times> int) list"
  sk_next :: nat
  sk_serving :: "(nat \<times> int) list"

record porthost =
  ph_taken :: "int \<Rightarrow> bool"
  ph_lsof :: "int \<Rightarrow> nat \<Rightarrow> string result"

definition net_Listen :: "porthost \<Rightarrow> int \<Rightarrow> sockets \<Rightarrow> nat option \<times> sockets" where
  "net_Listen h port s =
     (if ph_taken h port \<or> port \<in> snd ` set (sk_open s) then (None, s)
      else (Some (sk_next s), s\<lparr>sk_open := (sk_next s, port) # sk_open s, sk_next := Suc (sk_next s)\<rparr>))"

definition listener_Close :: "nat \<Rightarrow> sockets \<Rightarrow> sockets" where
  "listener_Close l s = s\<lparr>sk_open := filter (\<lambda>(l', _). l' \<noteq> l) (sk_open s)\<rparr>"

section \<open>Operations\<close>

text \<open>Methods accept the nil receiver, which \<open>newLocalhostProxies\<close> returns on other systems than macOS.\<close>

definition newLocalhostProxies :: "string \<Rightarrow> localhostProxies option" where
  "newLocalhostProxies goos =
     (if goos \<noteq> ''darwin'' then None else Some \<lparr>lp_listeners = [], lp_conflicts = [], lp_reserved = []\<rparr>)"

definition ParseListenPort :: "string \<Rightarrow> int" where
  "ParseListenPort addr =
     (case SplitHostPort addr of
        None \<Rightarrow> 0
      | Some (_, portValue) \<Rightarrow> (case ParseInt64 portValue of None \<Rightarrow> 0 | Some port \<Rightarrow> if port \<le> 0 then 0 else port))"

definition setReservedPorts :: "int list \<Rightarrow> localhostProxies option \<Rightarrow> localhostProxies option" where
  "setReservedPorts ports = map_option (\<lambda>p. p\<lparr>lp_reserved := filter (\<lambda>port. port > 0) ports\<rparr>)"

definition conflictsSnapshot :: "localhostProxies option \<Rightarrow> PortConflict list" where
  "conflictsSnapshot p = (case p of None \<Rightarrow> [] | Some q \<Rightarrow> map snd (lp_conflicts q))"

definition closeListeners :: "(int \<times> nat) list \<Rightarrow> sockets \<Rightarrow> sockets" where
  "closeListeners ls s = foldl (\<lambda>s (_, l). listener_Close l s) s ls"

definition stopAll :: "localhostProxies option \<Rightarrow> sockets \<Rightarrow> localhostProxies option \<times> sockets" where
  "stopAll p s =
     (case p of
        None \<Rightarrow> (None, s)
      | Some q \<Rightarrow> (Some (q\<lparr>lp_listeners := [], lp_conflicts := []\<rparr>), closeListeners (lp_listeners q) s))"

definition HostPortHeldByCalfForwarder :: "string \<Rightarrow> bool" where
  "HostPortHeldByCalfForwarder processName = EqualFold (TrimSpace processName) ''gvproxy''"

fun blocker_loop :: "string \<Rightarrow> string list \<Rightarrow> string" where
  "blocker_loop portSuffix [] = ''another process''"
| "blocker_loop portSuffix (line # rest) =
     (if HasPrefix line ''COMMAND'' \<or> line = '''' then blocker_loop portSuffix rest
      else let fs = Fields line in
        if length fs < 2 then blocker_loop portSuffix rest
        else case find (\<lambda>f. Contains f portSuffix) fs of
          None \<Rightarrow> blocker_loop portSuffix rest
        | Some address \<Rightarrow>
            if address = '''' \<or> HasPrefix address ''127.0.0.1:'' then blocker_loop portSuffix rest else hd fs)"

definition findLocalhostPortBlocker :: "int \<Rightarrow> string result \<Rightarrow> string" where
  "findLocalhostPortBlocker port lsof =
     (case lsof of
        Inl _ \<Rightarrow> ''another process''
      | Inr output \<Rightarrow> blocker_loop ('':'' @ show_int port) (Split output newline))"

definition localhostPortConflict :: "int \<Rightarrow> string result \<Rightarrow> PortConflict" where
  "localhostPortConflict port lsof =
     (let process = findLocalhostPortBlocker port lsof in
      \<lparr>pc_Port = port, pc_Process = process,
       pc_Hint = ''localhost:'' @ show_int port @ '' is used by '' @ process
         @ ''; stop that process or container so calf can forward the port.''\<rparr>)"

text \<open>The three loops of \<open>sync\<close>.\<close>

definition dropPort :: "int list \<Rightarrow> localhostProxies \<times> sockets \<Rightarrow> int \<times> nat \<Rightarrow> localhostProxies \<times> sockets" where
  "dropPort ports ps entry =
     (case (ps, entry) of
        ((p, s), (port, l)) \<Rightarrow>
          if port \<in> set ports then (p, s)
          else (p\<lparr>lp_listeners := AList.delete port (lp_listeners p), lp_conflicts := AList.delete port (lp_conflicts p)\<rparr>,
                listener_Close l s))"

definition dropUnpublished :: "int list \<Rightarrow> localhostProxies \<Rightarrow> sockets \<Rightarrow> localhostProxies \<times> sockets" where
  "dropUnpublished ports p s = foldl (dropPort ports) (p, s) (lp_listeners p)"

definition syncPort :: "porthost \<Rightarrow> int \<Rightarrow> localhostProxies \<times> sockets \<Rightarrow> localhostProxies \<times> sockets" where
  "syncPort h port ps =
     (let (p, s) = ps; settled = p\<lparr>lp_conflicts := AList.delete port (lp_conflicts p)\<rparr> in
      if port \<in> set (lp_reserved p) then
        (case map_of (lp_listeners p) port of
           Some l \<Rightarrow> (settled\<lparr>lp_listeners := AList.delete port (lp_listeners p)\<rparr>, listener_Close l s)
         | None \<Rightarrow> (settled, s))
      else if map_of (lp_listeners p) port \<noteq> None then (settled, s)
      else case net_Listen h port s of
        (None, s1) \<Rightarrow>
          if HostPortHeldByCalfForwarder (findLocalhostPortBlocker port (ph_lsof h port 0)) then (settled, s1)
          else (p\<lparr>lp_conflicts := AList.update port (localhostPortConflict port (ph_lsof h port 1)) (lp_conflicts p)\<rparr>, s1)
      | (Some l, s1) \<Rightarrow>
          (settled\<lparr>lp_listeners := AList.update port l (lp_listeners p)\<rparr>, s1\<lparr>sk_serving := (l, port) # sk_serving s1\<rparr>))"

definition localhostProxies_sync ::
    "porthost \<Rightarrow> int list \<Rightarrow> bool \<Rightarrow> localhostProxies option \<Rightarrow> sockets \<Rightarrow> localhostProxies option \<times> sockets" where
  "localhostProxies_sync h ports force p s =
     (case p of
        None \<Rightarrow> (None, s)
      | Some q \<Rightarrow>
          let (q1, s1) = (if force then (q\<lparr>lp_listeners := [], lp_conflicts := []\<rparr>, closeListeners (lp_listeners q) s) else (q, s));
              (q2, s2) = fold (syncPort h) ports (dropUnpublished ports q1 s1)
          in (Some q2, s2))"

text \<open>
  The end of an accept loop: \<open>Accept\<close> has failed, because the listener was closed or for want of descriptors.
  The listener is not closed here.
\<close>

definition serve_ends :: "nat \<times> int \<Rightarrow> localhostProxies option \<Rightarrow> sockets \<Rightarrow> localhostProxies option \<times> sockets" where
  "serve_ends lp p s =
     (case lp of
        (l, port) \<Rightarrow>
          (map_option (\<lambda>q. if map_of (lp_listeners q) port = Some l then q\<lparr>lp_listeners := AList.delete port (lp_listeners q)\<rparr> else q) p,
           s\<lparr>sk_serving := remove1 (l, port) (sk_serving s)\<rparr>))"

definition containerIsRunning :: "Container \<Rightarrow> bool" where
  "containerIsRunning c \<longleftrightarrow> ToLower (TrimSpace (ct_State c)) = ''running'' \<or> HasPrefix (ToLower (TrimSpace (ct_Status c))) ''up''"

definition publishedTCPPorts :: "Container list \<Rightarrow> int list" where
  "publishedTCPPorts cs = remdups (concat (map (\<lambda>c. ParsePublishedTCPPorts (ct_Ports c)) (filter containerIsRunning cs)))"


section \<open>Addresses are read back\<close>

lemma last_index_loop_append:
  "last_index_loop c (a @ b) i found = last_index_loop c b (i + int (length a)) (last_index_loop c a i found)"
  by (induction a arbitrary: i found) (simp_all add: algebra_simps)

lemma last_index_loop_absent: "c \<notin> set b \<Longrightarrow> last_index_loop c b i found = found"
  by (induction b arbitrary: i found) auto

lemma LastIndex_last: "c \<notin> set b \<Longrightarrow> LastIndex (a @ c # b) c = int (length a)"
  by (simp add: LastIndex_def last_index_loop_append last_index_loop_absent)

lemma SplitHostPort_JoinHostPort:
  assumes "set p \<inter> {CHR '':'', CHR ''['', CHR '']''} = {}" "set h \<inter> {CHR ''['', CHR '']''} = {}"
  shows "SplitHostPort (JoinHostPort h p) = Some (h, p)"
proof (cases "CHR '':'' \<in> set h")
  case True
  have h: "\<forall>c\<in>set h. c \<noteq> CHR '']''" using assms(2) by auto
  have "LastIndex (JoinHostPort h p) (CHR '':'') = int (Suc (Suc (length h)))"
    using LastIndex_last [of "CHR '':''" p "''['' @ h @ '']''"] assms(1) True by (simp add: JoinHostPort_def)
  moreover have "takeWhile (\<lambda>c. c \<noteq> CHR '']'') (JoinHostPort h p) = CHR ''['' # h"
    using True h by (simp add: JoinHostPort_def takeWhile_tail)
  moreover have "nat (2 + int n) = Suc (Suc n)" for n by simp
  ultimately show ?thesis
    using assms True by (simp add: SplitHostPort_def JoinHostPort_def Let_def)
next
  case False
  have "LastIndex (JoinHostPort h p) (CHR '':'') = int (length h)"
    using LastIndex_last [of "CHR '':''" p h] assms(1) False by (simp add: JoinHostPort_def)
  moreover have "hd (JoinHostPort h p) \<noteq> CHR ''[''" using False assms(2) by (cases h) (auto simp: JoinHostPort_def)
  ultimately show ?thesis
    using assms False by (simp add: SplitHostPort_def JoinHostPort_def Let_def)
qed

lemma show_int_inj [simp]: "show_int i = show_int j \<longleftrightarrow> i = j"
proof -
  have d: "show_nat n \<noteq> CHR ''-'' # xs" for n xs
    using show_nat_digits [of "CHR ''-''" n] by (auto simp: is_digit_def less_eq_char_def)
  show ?thesis using d d [symmetric] by (auto simp: show_int_def)
qed

lemma ParseInt64_show_int:
  assumes "0 \<le> i" "i < 2 ^ 63"
  shows "ParseInt64 (show_int i) = Some i"
proof -
  have n: "show_nat n \<noteq> []" for n by (subst show_nat.simps) simp
  have d: "list_all is_digit (show_nat n)" for n using show_nat_digits by (auto simp: list_all_iff)
  have "hd (show_nat n) \<noteq> CHR ''-'' \<and> hd (show_nat n) \<noteq> CHR ''+''" for n
    using d [of n] n [of n] by (cases "show_nat n") (auto simp: is_digit_def less_eq_char_def)
  then have "int_text (show_nat (nat i)) = Some (False, show_nat (nat i))" using n d by (simp add: int_text_def)
  then show ?thesis using assms by (simp add: ParseInt64_def show_int_def signed_val_def)
qed

lemma show_int_no_mark: "0 \<le> i \<Longrightarrow> set (show_int i) \<inter> {CHR '':'', CHR ''['', CHR '']''} = {}"
  using show_nat_digits [of _ "nat i"] by (fastforce simp: show_int_def is_digit_def less_eq_char_def)

lemma ParseListenPort_of_address:
  assumes "0 < port" "port < 2 ^ 63" "set h \<inter> {CHR ''['', CHR '']''} = {}"
  shows "ParseListenPort (JoinHostPort h (show_int port)) = port"
  using assms by (simp add: ParseListenPort_def SplitHostPort_JoinHostPort show_int_no_mark ParseInt64_show_int)


section \<open>The proxies follow the published ports\<close>

text \<open>
  What every operation keeps: a port has one listener or one conflict and not both, and the listener is
  an open socket on that port.
\<close>

definition proxies_ok :: "localhostProxies \<Rightarrow> sockets \<Rightarrow> bool" where
  "proxies_ok p s \<longleftrightarrow> distinct (map fst (lp_listeners p)) \<and> distinct (map fst (lp_conflicts p))
     \<and> fst ` set (lp_listeners p) \<inter> fst ` set (lp_conflicts p) = {}
     \<and> (\<forall>(port, l)\<in>set (lp_listeners p). (l, port) \<in> set (sk_open s))
     \<and> distinct (map fst (sk_open s)) \<and> distinct (map snd (sk_open s)) \<and> (\<forall>(l, _)\<in>set (sk_open s). l < sk_next s)"

text \<open>
  A socket without an accept loop is an orphan.  The sockets with one are the listeners.
\<close>

definition orphans :: "sockets \<Rightarrow> (nat \<times> int) set" where
  "orphans s = set (sk_open s) - set (sk_serving s)"

definition loops_ok :: "localhostProxies \<Rightarrow> sockets \<Rightarrow> bool" where
  "loops_ok p s \<longleftrightarrow> distinct (sk_serving s) \<and> (\<forall>(l, _)\<in>set (sk_serving s). l < sk_next s)
     \<and> (\<forall>l port. (port, l) \<in> set (lp_listeners p) \<longleftrightarrow> (l, port) \<in> set (sk_open s) \<inter> set (sk_serving s))"

text \<open>Whether a port is served, before the proxies are changed.\<close>

definition served :: "localhostProxies \<Rightarrow> int \<Rightarrow> bool" where
  "served p port \<longleftrightarrow> port \<in> fst ` set (lp_listeners p)"

lemma open_port_unique: "proxies_ok p s \<Longrightarrow> (l, port) \<in> set (sk_open s) \<Longrightarrow> (l', port) \<in> set (sk_open s) \<Longrightarrow> l = l'"
  unfolding proxies_ok_def using inj_on_contraD [of snd "set (sk_open s)" "(l, port)" "(l', port)"]
  by (auto simp: distinct_map)

lemma open_handle_unique: "proxies_ok p s \<Longrightarrow> (l, port) \<in> set (sk_open s) \<Longrightarrow> (l, q) \<in> set (sk_open s) \<Longrightarrow> port = q"
  unfolding proxies_ok_def using inj_on_contraD [of fst "set (sk_open s)" "(l, port)" "(l, q)"]
  by (auto simp: distinct_map)

text \<open>Closing the listener of a port and forgetting it.\<close>

definition unbind :: "int \<Rightarrow> nat \<Rightarrow> localhostProxies \<times> sockets \<Rightarrow> localhostProxies \<times> sockets" where
  "unbind port l ps =
     ((fst ps)\<lparr>lp_listeners := AList.delete port (lp_listeners (fst ps)), lp_conflicts := AList.delete port (lp_conflicts (fst ps))\<rparr>,
      listener_Close l (snd ps))"

lemma distinct_filter_map: "distinct (map f xs) \<Longrightarrow> distinct (map f (filter P xs))"
  by (simp add: distinct_map_filter)

lemma unbind_ok:
  assumes "proxies_ok p s" "(port, l) \<in> set (lp_listeners p)"
  shows "proxies_ok (fst (unbind port l (p, s))) (snd (unbind port l (p, s)))"
proof -
  have o: "(l', q) \<in> set (sk_open s)" if "(q, l') \<in> set (lp_listeners p)" for q l'
    using that assms(1) by (auto simp: proxies_ok_def)
  have "l' \<noteq> l" if "(q, l') \<in> set (lp_listeners p)" "q \<noteq> port" for q l'
    using that(2) open_handle_unique [OF assms(1) o [OF assms(2)]] o [OF that(1)] by blast
  then show ?thesis using assms(1)
    by (auto simp: proxies_ok_def unbind_def listener_Close_def AList.delete_eq distinct_filter_map)
qed

lemma loops_okI:
  assumes "distinct (sk_serving s)" "\<And>l q. (l, q) \<in> set (sk_serving s) \<Longrightarrow> l < sk_next s"
    "\<And>port l. (port, l) \<in> set (lp_listeners p) \<longleftrightarrow> (l, port) \<in> set (sk_open s) \<inter> set (sk_serving s)"
  shows "loops_ok p s"
  unfolding loops_ok_def using assms by blast

lemma loops_okD:
  assumes "loops_ok p s"
  shows "distinct (sk_serving s)" "(l, q) \<in> set (sk_serving s) \<Longrightarrow> l < sk_next s"
    "(port, l) \<in> set (lp_listeners p) \<longleftrightarrow> (l, port) \<in> set (sk_open s) \<inter> set (sk_serving s)"
  using assms unfolding loops_ok_def by blast+

lemma unbind_loops:
  assumes "proxies_ok p s" "loops_ok p s" "(port, l) \<in> set (lp_listeners p)"
  shows "loops_ok (fst (unbind port l (p, s))) (snd (unbind port l (p, s)))" "orphans (snd (unbind port l (p, s))) = orphans s"
proof -
  have o: "(l, port) \<in> set (sk_open s)" "(l, port) \<in> set (sk_serving s)" using assms(2,3) by (auto simp: loops_ok_def)
  have u: "q = port" if "(l, q) \<in> set (sk_open s)" for q using open_handle_unique [OF assms(1) o(1) that] by simp
  have v: "l' = l" if "(l', port) \<in> set (sk_open s)" for l' using open_port_unique [OF assms(1) that o(1)] .
  have lo: "(q, l') \<in> set (lp_listeners p) \<longleftrightarrow> (l', q) \<in> set (sk_open s) \<inter> set (sk_serving s)" for q l'
    using assms(2) by (simp add: loops_ok_def)
  have "q \<noteq> port \<longleftrightarrow> l' \<noteq> l" if "(l', q) \<in> set (sk_open s)" for q l'
    using that u v by blast
  then have "(q, l') \<in> set (AList.delete port (lp_listeners p)) \<longleftrightarrow> (l', q) \<in> set (filter (\<lambda>(x, _). x \<noteq> l) (sk_open s)) \<inter> set (sk_serving s)" for q l'
    unfolding AList.delete_eq set_filter mem_Collect_eq prod.case Int_iff lo by blast
  then show "loops_ok (fst (unbind port l (p, s))) (snd (unbind port l (p, s)))"
    using loops_okD(1,2) [OF assms(2)] unfolding unbind_def listener_Close_def by (intro loops_okI) simp_all
  show "orphans (snd (unbind port l (p, s))) = orphans s"
  proof -
    have "{x \<in> set (sk_open s). case x of (l', _) \<Rightarrow> l' \<noteq> l} = set (sk_open s) - {(l, port)}" using u o(1) by fast
    then show ?thesis using o(2) by (auto simp: orphans_def unbind_def listener_Close_def)
  qed
qed

lemma no_conflict_at_listener:
  assumes "proxies_ok p s" "(port, l) \<in> set (lp_listeners p)"
  shows "AList.delete port (lp_conflicts p) = lp_conflicts p"
proof (rule AList.delete_id)
  have "port \<in> fst ` set (lp_listeners p)" using assms(2) by (rule rev_image_eqI) simp
  moreover have "fst ` set (lp_listeners p) \<inter> fst ` set (lp_conflicts p) = {}" using assms(1) by (simp add: proxies_ok_def)
  ultimately show "port \<notin> fst ` set (lp_conflicts p)" by blast
qed

lemma drop_loop:
  assumes "proxies_ok p s" "loops_ok p s" "set xs \<subseteq> set (lp_listeners p)" "distinct (map fst xs)"
  shows "\<exists>p' s'. foldl (dropPort ports) (p, s) xs = (p', s') \<and> proxies_ok p' s' \<and> loops_ok p' s' \<and> orphans s' = orphans s
    \<and> lp_listeners p' = filter (\<lambda>(q, _). q \<in> set ports \<or> q \<notin> fst ` set xs) (lp_listeners p)
    \<and> lp_conflicts p' = lp_conflicts p \<and> lp_reserved p' = lp_reserved p"
  using assms
proof (induction xs arbitrary: p s)
  case Nil
  then show ?case by (auto intro: exI [of _ p])
next
  case (Cons x xs)
  obtain port l where x: "x = (port, l)" by (cases x)
  show ?case
  proof (cases "port \<in> set ports")
    case True
    then have "foldl (dropPort ports) (p, s) (x # xs) = foldl (dropPort ports) (p, s) xs" by (simp add: dropPort_def x)
    moreover have "filter (\<lambda>(q, _). q \<in> set ports \<or> q \<notin> fst ` set (x # xs)) (lp_listeners p)
        = filter (\<lambda>(q, _). q \<in> set ports \<or> q \<notin> fst ` set xs) (lp_listeners p)"
      by (rule filter_cong) (use True x in auto)
    ultimately show ?thesis using Cons.IH [of p s] Cons.prems by simp
  next
    case False
    define p1 s1 where "p1 = fst (unbind port l (p, s))" and "s1 = snd (unbind port l (p, s))"
    have m: "(port, l) \<in> set (lp_listeners p)" using Cons.prems(3) x by simp
    have "foldl (dropPort ports) (p, s) (x # xs) = foldl (dropPort ports) (p1, s1) xs" using False by (simp add: dropPort_def x p1_def s1_def unbind_def)
    moreover have ok: "proxies_ok p1 s1" using unbind_ok [OF Cons.prems(1) m] by (simp add: p1_def s1_def)
    moreover have "loops_ok p1 s1" "orphans s1 = orphans s" using unbind_loops [OF Cons.prems(1,2) m] by (simp_all add: p1_def s1_def)
    moreover have "set xs \<subseteq> set (lp_listeners p1)" using Cons.prems(3,4) x by (force simp: p1_def unbind_def AList.delete_eq)
    moreover have "lp_conflicts p1 = lp_conflicts p" "lp_reserved p1 = lp_reserved p"
      using no_conflict_at_listener [OF Cons.prems(1) m] by (simp_all add: p1_def unbind_def)
    moreover have "filter (\<lambda>(q, _). q \<in> set ports \<or> q \<notin> fst ` set xs) (lp_listeners p1)
        = filter (\<lambda>(q, _). q \<in> set ports \<or> q \<notin> fst ` set (x # xs)) (lp_listeners p)"
      using False by (auto simp: p1_def unbind_def AList.delete_eq x intro: filter_cong)
    ultimately show ?thesis using Cons.IH [of p1 s1] Cons.prems(4) by fastforce
  qed
qed

lemma dropUnpublished_result:
  assumes "proxies_ok p s" "loops_ok p s"
  shows "\<exists>p' s'. dropUnpublished ports p s = (p', s') \<and> proxies_ok p' s' \<and> loops_ok p' s' \<and> orphans s' = orphans s
    \<and> lp_listeners p' = filter (\<lambda>(q, _). q \<in> set ports) (lp_listeners p)
    \<and> lp_conflicts p' = lp_conflicts p \<and> lp_reserved p' = lp_reserved p"
proof -
  have "filter (\<lambda>(q, _). q \<in> set ports \<or> q \<notin> fst ` set (lp_listeners p)) (lp_listeners p)
      = filter (\<lambda>(q, _). q \<in> set ports) (lp_listeners p)"
    by (rule filter_cong) (auto intro: rev_image_eqI)
  moreover have "distinct (map fst (lp_listeners p))" using assms(1) by (simp add: proxies_ok_def)
  ultimately show ?thesis
    using drop_loop [OF assms order_refl, of ports] by (simp add: dropUnpublished_def)
qed

text \<open>What \<open>syncPort\<close> does to its port; other ports are as before.\<close>

definition port_result :: "porthost \<Rightarrow> (nat \<times> int) set \<Rightarrow> int \<Rightarrow> localhostProxies \<Rightarrow> localhostProxies \<Rightarrow> bool" where
  "port_result h orph port p p' \<longleftrightarrow>
     (served p' port \<longleftrightarrow> port \<notin> set (lp_reserved p) \<and> (served p port \<or> \<not> ph_taken h port \<and> port \<notin> snd ` orph))
   \<and> map_of (lp_conflicts p') port =
       (if port \<in> set (lp_reserved p) \<or> served p' port
          \<or> HostPortHeldByCalfForwarder (findLocalhostPortBlocker port (ph_lsof h port 0)) then None
        else Some (localhostPortConflict port (ph_lsof h port 1)))"

lemma served_map_of: "served p port \<longleftrightarrow> map_of (lp_listeners p) port \<noteq> None"
  by (simp add: served_def map_of_eq_None_iff)

lemma open_iff_served:
  assumes "loops_ok p s"
  shows "port \<in> snd ` set (sk_open s) \<longleftrightarrow> served p port \<or> port \<in> snd ` orphans s"
proof -
  have "(\<exists>l. (l, port) \<in> set (sk_open s)) \<longleftrightarrow> (\<exists>l. (port, l) \<in> set (lp_listeners p)) \<or> (\<exists>l. (l, port) \<in> orphans s)"
    using assms by (auto simp: loops_ok_def orphans_def)
  then show ?thesis by (auto simp: served_def image_iff Bex_def)
qed

lemma settle_ok: "proxies_ok p s \<Longrightarrow> proxies_ok (p\<lparr>lp_conflicts := AList.delete port (lp_conflicts p)\<rparr>) s"
  using AList.dom_delete_subset [of port "lp_conflicts p"] by (auto simp: proxies_ok_def AList.distinct_delete)

lemma conflict_ok:
  "proxies_ok p s \<Longrightarrow> \<not> served p port \<Longrightarrow> proxies_ok (p\<lparr>lp_conflicts := AList.update port c (lp_conflicts p)\<rparr>) s"
  by (simp add: proxies_ok_def served_def AList.dom_update AList.distinct_update)

lemma update_new: "k \<notin> fst ` set al \<Longrightarrow> AList.update k v al = al @ [(k, v)]"
  by (induction al) auto

lemma bind_ok:
  assumes "proxies_ok p s" "\<not> served p port" "port \<notin> snd ` set (sk_open s)"
  shows "proxies_ok (p\<lparr>lp_conflicts := AList.delete port (lp_conflicts p), lp_listeners := AList.update port (sk_next s) (lp_listeners p)\<rparr>)
    (s\<lparr>sk_open := (sk_next s, port) # sk_open s, sk_next := Suc (sk_next s), sk_serving := v\<rparr>)"
proof -
  have n: "sk_next s \<notin> fst ` set (sk_open s)" using assms(1) by (auto simp: proxies_ok_def)
  have c: "port \<notin> fst ` set (AList.delete port (lp_conflicts p))" by (rule AList.delete_notin_dom)
  have u: "AList.update port (sk_next s) (lp_listeners p) = lp_listeners p @ [(port, sk_next s)]"
    using assms(2) by (simp add: served_def update_new)
  have o: "\<forall>(l, _)\<in>set (sk_open s). l < Suc (sk_next s)" using assms(1) by (auto simp: proxies_ok_def)
  have l: "\<forall>(q, l)\<in>set (lp_listeners p). l = sk_next s \<and> q = port \<or> (l, q) \<in> set (sk_open s)"
    using assms(1) by (auto simp: proxies_ok_def)
  have "proxies_ok (p\<lparr>lp_conflicts := AList.delete port (lp_conflicts p)\<rparr>) s" using assms(1) by (rule settle_ok)
  then show ?thesis using n c u o l assms(2,3) by (simp add: proxies_ok_def served_def)
qed

lemma bind_loops:
  fixes p :: localhostProxies and s :: sockets and c :: "(int \<times> PortConflict) list" and port :: int
  assumes "loops_ok p s" "\<not> served p port" "\<forall>(l, _)\<in>set (sk_open s). l < sk_next s"
  defines "p' \<equiv> p\<lparr>lp_conflicts := c, lp_listeners := AList.update port (sk_next s) (lp_listeners p)\<rparr>"
    and "s' \<equiv> s\<lparr>sk_open := (sk_next s, port) # sk_open s, sk_next := Suc (sk_next s), sk_serving := (sk_next s, port) # sk_serving s\<rparr>"
  shows "loops_ok p' s'" "orphans s' = orphans s"
proof -
  have n: "(sk_next s, q) \<notin> set (sk_open s)" "(sk_next s, q) \<notin> set (sk_serving s)" for q
    using assms(1,3) by (auto simp: loops_ok_def)
  show "loops_ok p' s'" using assms(1,2) n by (auto simp: p'_def s'_def loops_ok_def served_def update_new less_Suc_eq)
  show "orphans s' = orphans s" using n by (auto simp: s'_def orphans_def)
qed

lemma syncPort_result:
  assumes "proxies_ok p s" "loops_ok p s"
  shows "\<exists>p' s'. syncPort h port (p, s) = (p', s') \<and> proxies_ok p' s' \<and> loops_ok p' s' \<and> orphans s' = orphans s
    \<and> port_result h (orphans s) port p p'
    \<and> (\<forall>q. q \<noteq> port \<longrightarrow> map_of (lp_listeners p') q = map_of (lp_listeners p) q \<and> map_of (lp_conflicts p') q = map_of (lp_conflicts p) q)
    \<and> lp_reserved p' = lp_reserved p"
proof (cases "map_of (lp_listeners p) port")
  case (Some l)
  then have m: "(port, l) \<in> set (lp_listeners p)" by (rule map_of_SomeD)
  show ?thesis
  proof (cases "port \<in> set (lp_reserved p)")
    case True
    then have "syncPort h port (p, s) = unbind port l (p, s)" using Some by (simp add: syncPort_def unbind_def)
    then show ?thesis using unbind_ok [OF assms(1) m] unbind_loops [OF assms m] True
      by (cases "unbind port l (p, s)") (auto simp: unbind_def port_result_def served_map_of AList.delete_conv')
  next
    case False
    then have "syncPort h port (p, s) = (p\<lparr>lp_conflicts := AList.delete port (lp_conflicts p)\<rparr>, s)" using Some by (simp add: syncPort_def)
    then show ?thesis using settle_ok [OF assms(1)] assms(2) False Some
      by (simp add: loops_ok_def port_result_def served_map_of AList.delete_conv')
  qed
next
  case None
  then have ns: "\<not> served p port" by (simp add: served_map_of)
  define held where "held = HostPortHeldByCalfForwarder (findLocalhostPortBlocker port (ph_lsof h port 0))"
  define busy where "busy \<longleftrightarrow> ph_taken h port \<or> port \<in> snd ` orphans s"
  have fr: "ph_taken h port \<or> port \<in> snd ` set (sk_open s) \<longleftrightarrow> busy" using open_iff_served [OF assms(2)] ns by (simp add: busy_def)
  consider (settled) "port \<in> set (lp_reserved p) \<or> busy \<and> held" | (conflict) "port \<notin> set (lp_reserved p)" "busy" "\<not> held"
    | (bound) "port \<notin> set (lp_reserved p)" "\<not> busy" by blast
  then show ?thesis
  proof cases
    case settled
    then have "syncPort h port (p, s) = (p\<lparr>lp_conflicts := AList.delete port (lp_conflicts p)\<rparr>, s)"
      using None by (auto simp: syncPort_def net_Listen_def fr held_def Let_def)
    then show ?thesis using settle_ok [OF assms(1)] assms(2) settled None
      by (auto simp: loops_ok_def port_result_def served_map_of AList.delete_conv' busy_def held_def)
  next
    case conflict
    then have "syncPort h port (p, s) = (p\<lparr>lp_conflicts := AList.update port (localhostPortConflict port (ph_lsof h port 1)) (lp_conflicts p)\<rparr>, s)"
      using None by (simp add: syncPort_def net_Listen_def fr held_def)
    then show ?thesis using conflict_ok [OF assms(1) ns] assms(2) conflict None
      by (auto simp: loops_ok_def port_result_def served_map_of AList.update_conv' busy_def held_def)
  next
    case bound
    then have "syncPort h port (p, s) = (p\<lparr>lp_conflicts := AList.delete port (lp_conflicts p), lp_listeners := AList.update port (sk_next s) (lp_listeners p)\<rparr>,
        s\<lparr>sk_open := (sk_next s, port) # sk_open s, sk_next := Suc (sk_next s), sk_serving := (sk_next s, port) # sk_serving s\<rparr>)"
      using None by (simp add: syncPort_def net_Listen_def fr)
    moreover have "port \<notin> snd ` set (sk_open s)" using bound fr by blast
    moreover have "\<forall>(l, _)\<in>set (sk_open s). l < sk_next s" using assms(1) by (simp add: proxies_ok_def)
    ultimately show ?thesis
      using bind_ok [OF assms(1) ns] bind_loops [OF assms(2) ns] bound
      by (simp add: port_result_def served_map_of AList.delete_conv' AList.update_conv' busy_def)
  qed
qed

lemma syncPorts_result:
  assumes "proxies_ok p s" "loops_ok p s" "distinct ports"
  shows "\<exists>p' s'. fold (syncPort h) ports (p, s) = (p', s') \<and> proxies_ok p' s' \<and> loops_ok p' s' \<and> orphans s' = orphans s
    \<and> (\<forall>port\<in>set ports. port_result h (orphans s) port p p')
    \<and> (\<forall>q. q \<notin> set ports \<longrightarrow> map_of (lp_listeners p') q = map_of (lp_listeners p) q \<and> map_of (lp_conflicts p') q = map_of (lp_conflicts p) q)
    \<and> lp_reserved p' = lp_reserved p"
  using assms
proof (induction ports arbitrary: p s)
  case Nil
  then show ?case by simp
next
  case (Cons port ports)
  obtain p1 s1 where 1: "syncPort h port (p, s) = (p1, s1)" "proxies_ok p1 s1" "loops_ok p1 s1" "orphans s1 = orphans s"
    "port_result h (orphans s) port p p1"
    "\<And>q. q \<noteq> port \<Longrightarrow> map_of (lp_listeners p1) q = map_of (lp_listeners p) q \<and> map_of (lp_conflicts p1) q = map_of (lp_conflicts p) q"
    "lp_reserved p1 = lp_reserved p" using syncPort_result [OF Cons.prems(1,2)] by metis
  obtain p2 s2 where 2: "fold (syncPort h) ports (p1, s1) = (p2, s2)" "proxies_ok p2 s2" "loops_ok p2 s2" "orphans s2 = orphans s1"
    "\<forall>port\<in>set ports. port_result h (orphans s1) port p1 p2"
    "\<And>q. q \<notin> set ports \<Longrightarrow> map_of (lp_listeners p2) q = map_of (lp_listeners p1) q \<and> map_of (lp_conflicts p2) q = map_of (lp_conflicts p1) q"
    "lp_reserved p2 = lp_reserved p1" using Cons.IH [OF 1(2,3)] Cons.prems(3) by auto
  have "port \<notin> set ports" using Cons.prems(3) by simp
  then have "port_result h (orphans s) port p p2" using 1(5) 2(6) by (simp add: port_result_def served_map_of)
  moreover have "port_result h (orphans s) q p p2" if "q \<in> set ports" for q
  proof -
    have "q \<noteq> port" using that \<open>port \<notin> set ports\<close> by blast
    then have "served p1 q = served p q" using 1(6) by (simp add: served_map_of)
    then show ?thesis using 2(5) that 1(4,7) by (simp add: port_result_def)
  qed
  ultimately show ?case using 1 2 by simp
qed

lemma closeListeners_open: "set (sk_open (closeListeners ls s)) = {(l, port) \<in> set (sk_open s). l \<notin> snd ` set ls}"
  unfolding closeListeners_def by (induction ls arbitrary: s) (auto simp: listener_Close_def split: prod.splits)

lemma closeListeners_keeps:
  "distinct (map f (sk_open s)) \<Longrightarrow> distinct (map f (sk_open (closeListeners ls s)))" "sk_next (closeListeners ls s) = sk_next s"
  unfolding closeListeners_def
  by (induction ls arbitrary: s) (auto simp: listener_Close_def distinct_map_filter split: prod.splits)

lemma force_ok:
  assumes "proxies_ok p s"
  shows "proxies_ok (p\<lparr>lp_listeners := [], lp_conflicts := []\<rparr>) (closeListeners (lp_listeners p) s)"
  using assms by (auto simp: proxies_ok_def closeListeners_open closeListeners_keeps)

lemma closeListeners_serving [simp]: "sk_serving (closeListeners ls s) = sk_serving s"
  unfolding closeListeners_def by (induction ls arbitrary: s) (auto simp: listener_Close_def split: prod.splits)

lemma force_open:
  assumes "proxies_ok p s" "loops_ok p s"
  shows "set (sk_open (closeListeners (lp_listeners p) s)) = orphans s"
proof -
  have "l \<notin> snd ` set (lp_listeners p)" if "(l, port) \<in> orphans s" for l port
  proof
    assume "l \<in> snd ` set (lp_listeners p)"
    then obtain q where "(l, q) \<in> set (sk_open s)" "(l, q) \<in> set (sk_serving s)" using assms(2) by (auto simp: loops_ok_def)
    then show False using that open_handle_unique [OF assms(1), of l port q] by (auto simp: orphans_def)
  qed
  moreover have "l \<in> snd ` set (lp_listeners p)" if "(l, port) \<in> set (sk_open s) \<inter> set (sk_serving s)" for l port
  proof -
    have "(port, l) \<in> set (lp_listeners p)" using assms(2) that by (simp add: loops_ok_def)
    then show ?thesis by (rule rev_image_eqI) simp
  qed
  ultimately show ?thesis by (auto simp: closeListeners_open orphans_def)
qed

lemma force_loops:
  assumes "proxies_ok p s" "loops_ok p s"
  shows "loops_ok (p\<lparr>lp_listeners := [], lp_conflicts := []\<rparr>) (closeListeners (lp_listeners p) s)"
    "orphans (closeListeners (lp_listeners p) s) = orphans s"
  using assms(2) force_open [OF assms] by (auto simp: loops_ok_def orphans_def closeListeners_keeps)

lemma sync_result:
  assumes "proxies_ok p s" "loops_ok p s" "distinct ports" "localhostProxies_sync h ports force (Some p) s = (Some p', s')"
  shows "proxies_ok p' s' \<and> loops_ok p' s' \<and> orphans s' = orphans s \<and> lp_reserved p' = lp_reserved p"
    and "served p' port \<longleftrightarrow> port \<in> set ports \<and> port \<notin> set (lp_reserved p)
      \<and> (\<not> force \<and> served p port \<or> \<not> ph_taken h port \<and> port \<notin> snd ` orphans s)"
    and "port \<in> set ports \<Longrightarrow> map_of (lp_conflicts p') port =
      (if port \<in> set (lp_reserved p) \<or> served p' port
         \<or> HostPortHeldByCalfForwarder (findLocalhostPortBlocker port (ph_lsof h port 0)) then None
       else Some (localhostPortConflict port (ph_lsof h port 1)))"
    and "port \<notin> set ports \<Longrightarrow> map_of (lp_conflicts p') port = (if force then None else map_of (lp_conflicts p) port)"
proof -
  define p0 s0 where "p0 = (if force then p\<lparr>lp_listeners := [], lp_conflicts := []\<rparr> else p)"
    and "s0 = (if force then closeListeners (lp_listeners p) s else s)"
  have 0: "proxies_ok p0 s0" "loops_ok p0 s0" "orphans s0 = orphans s" "lp_reserved p0 = lp_reserved p"
    using assms(1,2) force_ok [OF assms(1)] force_loops [OF assms(1,2)] by (simp_all add: p0_def s0_def)
  obtain p1 s1 where 1: "dropUnpublished ports p0 s0 = (p1, s1)" "proxies_ok p1 s1" "loops_ok p1 s1" "orphans s1 = orphans s0"
    "lp_listeners p1 = filter (\<lambda>(q, _). q \<in> set ports) (lp_listeners p0)" "lp_conflicts p1 = lp_conflicts p0" "lp_reserved p1 = lp_reserved p0"
    using dropUnpublished_result [OF 0(1,2), of ports] by auto
  have e: "fold (syncPort h) ports (p1, s1) = (p', s')"
    using assms(4) 1(1) by (auto simp: localhostProxies_sync_def p0_def s0_def split: if_splits prod.splits)
  have 2: "proxies_ok p' s'" "loops_ok p' s'" "orphans s' = orphans s1" "lp_reserved p' = lp_reserved p1"
    "\<And>port. port \<in> set ports \<Longrightarrow> port_result h (orphans s1) port p1 p'"
    "\<And>q. q \<notin> set ports \<Longrightarrow> map_of (lp_listeners p') q = map_of (lp_listeners p1) q \<and> map_of (lp_conflicts p') q = map_of (lp_conflicts p1) q"
    using syncPorts_result [OF 1(2,3) assms(3), of h] e by auto
  have sv: "served p1 port \<longleftrightarrow> port \<in> set ports \<and> \<not> force \<and> served p port" for port
    using 1(5) by (force simp: served_def p0_def)
  have o: "orphans s1 = orphans s" using 0(3) 1(4) by simp
  show "proxies_ok p' s' \<and> loops_ok p' s' \<and> orphans s' = orphans s \<and> lp_reserved p' = lp_reserved p" using 0 1 2 by simp
  show "served p' port \<longleftrightarrow> port \<in> set ports \<and> port \<notin> set (lp_reserved p)
      \<and> (\<not> force \<and> served p port \<or> \<not> ph_taken h port \<and> port \<notin> snd ` orphans s)"
    using 2(5,6) [of port] sv [of port] 0(4) 1(7) by (cases "port \<in> set ports") (simp_all add: port_result_def served_map_of o)
  show "map_of (lp_conflicts p') port =
      (if port \<in> set (lp_reserved p) \<or> served p' port
         \<or> HostPortHeldByCalfForwarder (findLocalhostPortBlocker port (ph_lsof h port 0)) then None
       else Some (localhostPortConflict port (ph_lsof h port 1)))" if "port \<in> set ports"
    using 2(5) [OF that] 0(4) 1(7) by (simp add: port_result_def)
  show "map_of (lp_conflicts p') port = (if force then None else map_of (lp_conflicts p) port)" if "port \<notin> set ports"
    using 2(6) [OF that] 1(6) by (simp add: p0_def)
qed


text \<open>
  The states that a daemon on macOS reaches.  An accept loop may end at any time: because its listener was closed, or
  because \<open>Accept\<close> failed for another reason.
\<close>

inductive proxies_reach :: "localhostProxies option \<Rightarrow> sockets \<Rightarrow> bool" where
  init: "proxies_reach (newLocalhostProxies ''darwin'') \<lparr>sk_open = [], sk_next = 0, sk_serving = []\<rparr>"
| reserve: "proxies_reach p s \<Longrightarrow> proxies_reach (setReservedPorts ports p) s"
| stop: "proxies_reach p s \<Longrightarrow> stopAll p s = (p', s') \<Longrightarrow> proxies_reach p' s'"
| sync: "proxies_reach p s \<Longrightarrow> localhostProxies_sync h (publishedTCPPorts cs) force p s = (p', s') \<Longrightarrow> proxies_reach p' s'"
| serve: "proxies_reach p s \<Longrightarrow> (l, port) \<in> set (sk_serving s) \<Longrightarrow> serve_ends (l, port) p s = (p', s') \<Longrightarrow> proxies_reach p' s'"

lemma serve_ends_ok:
  assumes "proxies_ok p s" "loops_ok p s" "(l, port) \<in> set (sk_serving s)" "serve_ends (l, port) (Some p) s = (p', s')"
  shows "\<exists>q. p' = Some q \<and> proxies_ok q s' \<and> loops_ok q s'"
proof -
  have m: "map_of (lp_listeners p) port = Some l \<longleftrightarrow> (port, l) \<in> set (lp_listeners p)"
    using assms(1) by (simp add: proxies_ok_def)
  have u: "l' = l" if "(port, l') \<in> set (lp_listeners p)" "(port, l) \<in> set (lp_listeners p)" for l'
    using that assms(1) by (auto simp: proxies_ok_def) (metis map_of_is_SomeI option.inject)
  show ?thesis
  proof (cases "(port, l) \<in> set (lp_listeners p)")
    case True
    let ?q = "p\<lparr>lp_listeners := AList.delete port (lp_listeners p)\<rparr>" and ?s = "s\<lparr>sk_serving := remove1 (l, port) (sk_serving s)\<rparr>"
    have e: "p' = Some ?q" "s' = ?s" using assms(4) m True by (auto simp: serve_ends_def)
    have "proxies_ok ?q ?s" using assms(1) by (auto simp: proxies_ok_def AList.delete_eq distinct_filter_map)
    moreover have "(q, l') \<in> set (AList.delete port (lp_listeners p)) \<longleftrightarrow> (l', q) \<in> set (sk_open s) \<inter> (set (sk_serving s) - {(l, port)})" for q l'
    proof -
      have "(q, l') \<in> set (lp_listeners p) \<longleftrightarrow> (l', q) \<in> set (sk_open s) \<inter> set (sk_serving s)" using assms(2) by (simp add: loops_ok_def)
      moreover have "q \<noteq> port \<longleftrightarrow> (l', q) \<noteq> (l, port)" if "(q, l') \<in> set (lp_listeners p)" using that u True by blast
      ultimately show ?thesis unfolding AList.delete_eq set_filter mem_Collect_eq prod.case Int_iff Diff_iff singleton_iff by blast
    qed
    then have "loops_ok ?q ?s" using loops_okD(1,2) [OF assms(2)] notin_set_remove1
      by (intro loops_okI) (simp_all, blast dest: notin_set_remove1)
    ultimately show ?thesis using e by simp
  next
    case False
    let ?s = "s\<lparr>sk_serving := remove1 (l, port) (sk_serving s)\<rparr>"
    have e: "p' = Some p" "s' = ?s" using assms(4) m False by (auto simp: serve_ends_def)
    have "(l, port) \<notin> set (sk_open s)" using False assms(2,3) by (auto simp: loops_ok_def)
    then have "loops_ok p ?s" using assms(2) by (auto simp: loops_ok_def)
    moreover have "proxies_ok p ?s" using assms(1) by (simp add: proxies_ok_def)
    ultimately show ?thesis using e by simp
  qed
qed

lemma sync_Some: "\<exists>q' s'. localhostProxies_sync h ports force (Some q) s = (Some q', s')"
  by (simp add: localhostProxies_sync_def split: prod.splits)

lemma proxies_reach_ok: "proxies_reach p s \<Longrightarrow> \<exists>q. p = Some q \<and> proxies_ok q s \<and> loops_ok q s"
proof (induction rule: proxies_reach.induct)
  case init
  then show ?case by (simp add: newLocalhostProxies_def proxies_ok_def loops_ok_def)
next
  case (reserve p s ports)
  then show ?case by (auto simp: setReservedPorts_def proxies_ok_def loops_ok_def)
next
  case (stop p s p' s')
  then obtain q where q: "p = Some q" "proxies_ok q s" "loops_ok q s" by blast
  then show ?case using stop.hyps(2) force_ok [OF q(2)] force_loops [OF q(2,3)] by (auto simp: stopAll_def)
next
  case (sync p s h cs force p' s')
  then obtain q where q: "p = Some q" "proxies_ok q s" "loops_ok q s" by blast
  then obtain q' where "p' = Some q'" using sync.hyps(2) sync_Some by (metis prod.inject)
  then show ?case using sync_result(1) [OF q(2,3), of "publishedTCPPorts cs" h force q' s'] sync.hyps(2) q(1)
    by (auto simp: publishedTCPPorts_def)
next
  case (serve p s l port p' s')
  then obtain q where q: "p = Some q" "proxies_ok q s" "loops_ok q s" by blast
  show ?case using serve_ends_ok [OF q(2,3) serve.hyps(2)] serve.hyps(3) q(1) by blast
qed

text \<open>
  C18: A synchronisation of the localhost proxies with the listed containers, after any run of the daemon, in which accept
  loops may also have failed, each leaving an open socket that nothing accepts from. Afterwards exactly those published ports are
  served that are not reserved and that were served already or could be bound, which needs that neither another process
  nor such an orphaned socket is in the way. Each served port has an open socket with a running accept loop. A port that is
  not served has a conflict that names the process in its way, unless it is reserved or held by calf's own forwarder.
  The synchronisation leaks no socket: the open ones are those of the served ports and the orphans of before.
\<close>

theorem proxies_follow_ports:
  fixes s :: sockets
  defines "orphaned \<equiv> {x \<in> set (sk_open s). x \<notin> set (sk_serving s)}"
  assumes "proxies_reach (Some p) s" "localhostProxies_sync h (publishedTCPPorts cs) force (Some p) s = (Some p', s')"
  shows "(\<forall>port. served p' port \<longleftrightarrow> port \<in> set (publishedTCPPorts cs) \<and> port \<notin> set (lp_reserved p)
            \<and> (\<not> force \<and> served p port \<or> \<not> ph_taken h port \<and> port \<notin> snd ` orphaned))
    \<and> (\<forall>port\<in>set (publishedTCPPorts cs). map_of (lp_conflicts p') port =
         (if port \<in> set (lp_reserved p) \<or> served p' port
            \<or> HostPortHeldByCalfForwarder (findLocalhostPortBlocker port (ph_lsof h port 0)) then None
          else Some (localhostPortConflict port (ph_lsof h port 1))))
    \<and> (\<forall>l port. (port, l) \<in> set (lp_listeners p') \<longleftrightarrow> (l, port) \<in> set (sk_open s') \<and> (l, port) \<in> set (sk_serving s'))
    \<and> set (sk_open s') = {(l, port). (port, l) \<in> set (lp_listeners p')} \<union> orphaned"
proof -
  have ok: "proxies_ok p s" "loops_ok p s" using proxies_reach_ok [OF assms(2)] by auto
  have d: "distinct (publishedTCPPorts cs)" by (simp add: publishedTCPPorts_def)
  have o: "orphaned = orphans s" by (auto simp: orphaned_def orphans_def)
  note r = sync_result [OF ok d assms(3)]
  have l: "(port, l) \<in> set (lp_listeners p') \<longleftrightarrow> (l, port) \<in> set (sk_open s') \<and> (l, port) \<in> set (sk_serving s')" for l port
    using r(1) by (auto simp: loops_ok_def)
  moreover have "set (sk_open s') = {(l, port). (port, l) \<in> set (lp_listeners p')} \<union> orphaned"
    using r(1) l by (auto simp: orphans_def o)
  ultimately show ?thesis using r(2,3) unfolding o by blast
qed

definition webserver :: Container where
  "webserver = \<lparr>ct_ID = ''c1'', ct_Name = ''web'', ct_Image = ''nginx'', ct_State = ''running'', ct_Status = ''Up 2 minutes'',
     ct_Ports = ''0.0.0.0:80->80/tcp, 0.0.0.0:53->53/udp'', ct_Created = '''', ct_ComposeProject = '''', ct_ComposeService = ''''\<rparr>"

definition quiet_host :: porthost where
  "quiet_host = \<lparr>ph_taken = (\<lambda>_. False), ph_lsof = (\<lambda>_ _. Inl (Errorf ''exit status 1''))\<rparr>"

definition fresh_sockets :: sockets where
  "fresh_sockets = \<lparr>sk_open = [], sk_next = 0, sk_serving = []\<rparr>"

definition fresh_proxies :: localhostProxies where
  "fresh_proxies = \<lparr>lp_listeners = [], lp_conflicts = [], lp_reserved = []\<rparr>"

lemma webserver_port: "publishedTCPPorts [webserver] = [80]"
  by code_simp

lemma web_sync:
  "localhostProxies_sync quiet_host (publishedTCPPorts [webserver]) False (Some fresh_proxies) fresh_sockets
     = (Some \<lparr>lp_listeners = [(80, 0)], lp_conflicts = [], lp_reserved = []\<rparr>,
        \<lparr>sk_open = [(0, 80)], sk_next = 1, sk_serving = [(0, 80)]\<rparr>)"
  by code_simp

theorem proxies_follow_ports_witness:
  "served \<lparr>lp_listeners = [(80, 0)], lp_conflicts = [], lp_reserved = []\<rparr> 80"
proof -
  have "proxies_reach (Some fresh_proxies) fresh_sockets"
    using proxies_reach.init by (simp add: newLocalhostProxies_def fresh_proxies_def fresh_sockets_def)
  then show ?thesis using proxies_follow_ports [OF _ web_sync] webserver_port by (simp add: quiet_host_def fresh_proxies_def fresh_sockets_def)
qed


section \<open>Two defects of the localhost proxies\<close>

text \<open>
  A conflict outlives its container: the port is no longer published, but without a forced
  synchronisation the conflict is still reported.  The deletion in the loop over the listeners has no
  effect, because a port with a listener has no conflict.
\<close>

theorem stale_conflict_stays:
  assumes "proxies_reach (Some p) s" "port \<notin> set (publishedTCPPorts cs)"
    "localhostProxies_sync h (publishedTCPPorts cs) False (Some p) s = (Some p', s')"
  shows "map_of (lp_conflicts p') port = map_of (lp_conflicts p) port"
proof -
  have "proxies_ok p s" "loops_ok p s" using proxies_reach_ok [OF assms(1)] by auto
  then show ?thesis using sync_result(4) [OF _ _ _ assms(3,2)] by (simp add: publishedTCPPorts_def)
qed

text \<open>
  A socket whose accept loop has failed is open but in no table.  It is never closed, so the port cannot be
  bound again, and the daemon reports a conflict with itself.
\<close>

theorem accept_failure_leaks:
  assumes "proxies_reach (Some p) s" "map_of (lp_listeners p) port = Some l" "serve_ends (l, port) (Some p) s = (Some p', s')"
  shows "(l, port) \<in> orphans s'" "\<not> served p' port"
proof -
  have ok: "proxies_ok p s" "loops_ok p s" using proxies_reach_ok [OF assms(1)] by auto
  have "(l, port) \<in> set (sk_open s)" "distinct (sk_serving s)" using ok(2) map_of_SomeD [OF assms(2)] by (auto simp: loops_ok_def)
  then show "(l, port) \<in> orphans s'" using assms(2,3) by (auto simp: serve_ends_def orphans_def)
  show "\<not> served p' port" using assms(2,3) by (auto simp: serve_ends_def served_map_of AList.delete_conv')
qed

theorem orphan_is_never_closed:
  assumes "proxies_reach (Some p) s" "(l, port) \<in> orphans s"
    "localhostProxies_sync h (publishedTCPPorts cs) force (Some p) s = (Some p', s')"
  shows "(l, port) \<in> orphans s'" "\<not> served p' port"
proof -
  have ok: "proxies_ok p s" "loops_ok p s" using proxies_reach_ok [OF assms(1)] by auto
  have d: "distinct (publishedTCPPorts cs)" by (simp add: publishedTCPPorts_def)
  note r = sync_result [OF ok d assms(3)]
  show "(l, port) \<in> orphans s'" using r(1) assms(2) by simp
  have "\<not> served p port"
  proof
    assume "served p port"
    then obtain l' where "(port, l') \<in> set (lp_listeners p)" by (auto simp: served_def)
    then have "(l', port) \<in> set (sk_open s)" "(l', port) \<in> set (sk_serving s)" using ok(2) by (auto simp: loops_ok_def)
    then show False using assms(2) open_port_unique [OF ok(1), of l' port l] by (auto simp: orphans_def)
  qed
  moreover have "port \<in> snd ` orphans s" using assms(2) by (rule rev_image_eqI) simp
  ultimately show "\<not> served p' port" using r(2) [of port] by simp
qed

definition self_host :: porthost where
  "self_host = \<lparr>ph_taken = (\<lambda>_. False),
     ph_lsof = (\<lambda>_ _. Inr (''COMMAND PID USER FD TYPE NODE NAME'' @ [newline] @ ''calf 7 me 9u IPv6 TCP [::1]:80 (LISTEN)''))\<rparr>"

lemma conflict_with_itself:
  "(case localhostProxies_sync quiet_host [80] False (Some fresh_proxies) fresh_sockets of
      (p, s) \<Rightarrow> (case serve_ends (0, 80) p s of
        (p, s) \<Rightarrow> map pc_Process (conflictsSnapshot (fst (localhostProxies_sync self_host [80] True p s))))) = [''calf'']"
  by code_simp

section \<open>Forwards of gvproxy (krunkit\_darwin.go)\<close>

record gvproxyForward =
  gf_Local :: string
  gf_Remote :: string
  gf_Protocol :: string

text \<open>A request to gvproxy: method, URL and the value that is sent as JSON.\<close>

datatype gvBody = NoBody | ForwardBody gvproxyForward | LocalBody string

type_synonym gvRequest = "string \<times> string \<times> gvBody"

type_synonym 'w gvClient = "gvRequest \<Rightarrow> 'w \<Rightarrow> (int \<times> string) result \<times> 'w"

definition localForwardPort :: "string \<Rightarrow> int option" where
  "localForwardPort local0 =
     (let local1 = TrimSpace local0; positive = (\<lambda>n. if n > (0 :: int) then Some n else None) in
      if local1 = '''' then None
      else if HasPrefix local1 '':'' then Option.bind (ParseInt64 (drop 1 local1)) positive
      else case SplitHostPort local1 of
        None \<Rightarrow> None
      | Some (_, portStr) \<Rightarrow> Option.bind (ParseInt64 portStr) positive)"

definition listRequest :: gvRequest where
  "listRequest = (''GET'', ''http://gvproxy/services/forwarder/all'', NoBody)"

definition exposeRequest :: "string \<Rightarrow> int \<Rightarrow> gvRequest" where
  "exposeRequest guestIP port = (''POST'', ''http://gvproxy/services/forwarder/expose'',
     ForwardBody \<lparr>gf_Local = '':'' @ show_int port, gf_Remote = JoinHostPort guestIP (show_int port), gf_Protocol = ''''\<rparr>)"

definition unexposeRequest :: "int \<Rightarrow> gvRequest" where
  "unexposeRequest port = (''POST'', ''http://gvproxy/services/forwarder/unexpose'', LocalBody ('':'' @ show_int port))"

definition gvproxyListForwardPorts ::
    "'w gvClient \<Rightarrow> (string \<Rightarrow> gvproxyForward list result) \<Rightarrow> 'w \<Rightarrow> int list result \<times> 'w" where
  "gvproxyListForwardPorts client decode w =
     (case client listRequest w of
        (Inl err, w1) \<Rightarrow> (Inl err, w1)
      | (Inr (code, body), w1) \<Rightarrow>
          (if code \<ge> 300 then Inl (Errorf (''list forwards status '' @ show_int code))
           else case decode body of
             Inl err \<Rightarrow> Inl err
           | Inr forwards \<Rightarrow> Inr (remdups (List.map_filter (\<lambda>f. localForwardPort (gf_Local f)) forwards)), w1))"

definition gvproxyExpose :: "'w gvClient \<Rightarrow> int \<Rightarrow> string \<Rightarrow> 'w \<Rightarrow> go_error option \<times> 'w" where
  "gvproxyExpose client port guestIP w =
     (case client (exposeRequest guestIP port) w of
        (Inl err, w1) \<Rightarrow> (Some err, w1)
      | (Inr (code, body), w1) \<Rightarrow>
          (if code < 300 then None
           else let text = TrimSpace (take 512 body) in
             if code = 500 \<and> Contains (ToLower text) ''already'' then None
             else if text = '''' then Some (Errorf (''expose status '' @ show_int code))
             else Some (Errorf (''expose status '' @ show_int code @ '': '' @ text)), w1))"

definition gvproxyUnexpose :: "'w gvClient \<Rightarrow> int \<Rightarrow> 'w \<Rightarrow> go_error option \<times> 'w" where
  "gvproxyUnexpose client port w =
     (case client (unexposeRequest port) w of
        (Inl err, w1) \<Rightarrow> (Some err, w1)
      | (Inr (code, body), w1) \<Rightarrow> (if code \<ge> 300 then Some (Errorf (''unexpose status '' @ show_int code)) else None, w1))"

definition guestIP :: string where "guestIP = ''192.168.127.2''"

text \<open>The two loops: forwards that are no longer wanted, and wanted ports without a forward.\<close>

fun unexpose_loop :: "'w gvClient \<Rightarrow> int list \<Rightarrow> int list \<Rightarrow> 'w \<Rightarrow> int list \<times> 'w" where
  "unexpose_loop client ports [] w = ([], w)"
| "unexpose_loop client ports (port # rest) w =
     (if port \<in> set ports then (case unexpose_loop client ports rest w of (kept, w1) \<Rightarrow> (port # kept, w1))
      else case gvproxyUnexpose client port w of (_, w1) \<Rightarrow> unexpose_loop client ports rest w1)"

fun expose_loop :: "'w gvClient \<Rightarrow> int list \<Rightarrow> int list \<Rightarrow> 'w \<Rightarrow> int list \<times> 'w" where
  "expose_loop client [] forwarded w = (forwarded, w)"
| "expose_loop client (port # rest) forwarded w =
     (if port \<in> set forwarded then expose_loop client rest forwarded w
      else case gvproxyExpose client port guestIP w of
        (Some _, w1) \<Rightarrow> expose_loop client rest forwarded w1
      | (None, w1) \<Rightarrow> expose_loop client rest (forwarded @ [port]) w1)"

definition syncGvproxyForwards ::
    "'w gvClient \<Rightarrow> (string \<Rightarrow> gvproxyForward list result) \<Rightarrow> int list \<Rightarrow> int list \<Rightarrow> 'w \<Rightarrow> int list \<times> 'w" where
  "syncGvproxyForwards client decode ports forwarded w =
     (let (existing, w1) = gvproxyListForwardPorts client decode w;
          adopted = (case existing of
                       Inl _ \<Rightarrow> forwarded
                     | Inr ps \<Rightarrow> forwarded @ filter (\<lambda>p. p \<in> set ports \<and> p \<notin> set forwarded) ps);
          (kept, w2) = unexpose_loop client ports adopted w1
      in expose_loop client ports kept w2)"


text \<open>A client that notes each request and its reply, for any gvproxy behind it.\<close>

type_synonym gvExchange = "gvRequest \<times> (int \<times> string) result"

definition traced :: "'w gvClient \<Rightarrow> ('w \<times> gvExchange list) gvClient" where
  "traced client r wt = (case client r (fst wt) of (x, w1) \<Rightarrow> (x, (w1, snd wt @ [(r, x)])))"

text \<open>What the replies say: the ports of the listed forwards, and whether a port was exposed.\<close>

definition listed_ports :: "(string \<Rightarrow> gvproxyForward list result) \<Rightarrow> (int \<times> string) result \<Rightarrow> int set" where
  "listed_ports decode reply =
     (case reply of
        Inl _ \<Rightarrow> {}
      | Inr (code, body) \<Rightarrow>
          (if code \<ge> 300 then {}
           else case decode body of Inl _ \<Rightarrow> {} | Inr fs \<Rightarrow> {port. \<exists>f \<in> set fs. localForwardPort (gf_Local f) = Some port}))"

definition exposed_reply :: "(int \<times> string) result \<Rightarrow> bool" where
  "exposed_reply reply =
     (case reply of
        Inl _ \<Rightarrow> False
      | Inr (code, body) \<Rightarrow> code < 300 \<or> code = 500 \<and> Contains (ToLower (TrimSpace (take 512 body))) ''already'')"

lemma traced_list:
  "gvproxyListForwardPorts (traced client) decode (w, t) = (existing, (w', t')) \<Longrightarrow>
    \<exists>x. t' = t @ [(listRequest, x)] \<and> (case existing of Inl _ \<Rightarrow> {} | Inr ps \<Rightarrow> set ps) = listed_ports decode x"
proof -
  assume g: "gvproxyListForwardPorts (traced client) decode (w, t) = (existing, (w', t'))"
  obtain x w1 where c: "client listRequest w = (x, w1)" by (metis surj_pair)
  have s: "set (List.map_filter f fs) = {port. \<exists>y \<in> set fs. f y = Some port}" for f :: "gvproxyForward \<Rightarrow> int option" and fs
    by (force simp: List.map_filter_def)
  have "t' = t @ [(listRequest, x)]" "(case existing of Inl _ \<Rightarrow> {} | Inr ps \<Rightarrow> set ps) = listed_ports decode x"
    using g by (auto simp: traced_def gvproxyListForwardPorts_def listed_ports_def c s split: sum.splits prod.splits if_splits)
  then show ?thesis by blast
qed

lemma traced_unexpose:
  "gvproxyUnexpose (traced client) port (w, t) = (e, (w', t')) \<Longrightarrow> \<exists>x. t' = t @ [(unexposeRequest port, x)]"
  by (auto simp: traced_def gvproxyUnexpose_def split: prod.splits sum.splits)

lemma traced_expose:
  "gvproxyExpose (traced client) port ip (w, t) = (e, (w', t')) \<Longrightarrow>
    \<exists>x. t' = t @ [(exposeRequest ip port, x)] \<and> (e = None \<longleftrightarrow> exposed_reply x)"
proof -
  assume g: "gvproxyExpose (traced client) port ip (w, t) = (e, (w', t'))"
  obtain x w1 where c: "client (exposeRequest ip port) w = (x, w1)" by (metis surj_pair)
  have "t' = t @ [(exposeRequest ip port, x)]" "e = None \<longleftrightarrow> exposed_reply x"
    using g by (auto simp: traced_def gvproxyExpose_def exposed_reply_def c Let_def split: sum.splits prod.splits if_split_asm)
  then show ?thesis by blast
qed

lemma request_inj [simp]:
  "exposeRequest ip port = exposeRequest ip q \<longleftrightarrow> port = q" "unexposeRequest port = unexposeRequest q \<longleftrightarrow> port = q"
  "exposeRequest ip port \<noteq> unexposeRequest q" "unexposeRequest q \<noteq> exposeRequest ip port"
  "exposeRequest ip port \<noteq> listRequest" "unexposeRequest port \<noteq> listRequest"
  by (auto simp: exposeRequest_def unexposeRequest_def listRequest_def)

lemma unexpose_loop_requests:
  "unexpose_loop (traced client) ports xs (w, t) = (kept, (w', t'))
     \<Longrightarrow> kept = filter (\<lambda>p. p \<in> set ports) xs
       \<and> (\<exists>u. t' = t @ u \<and> map fst u = map unexposeRequest (filter (\<lambda>p. p \<notin> set ports) xs))"
proof (induction xs arbitrary: w t kept w' t')
  case (Cons port xs)
  show ?case
  proof (cases "port \<in> set ports")
    case True
    obtain k where k: "unexpose_loop (traced client) ports xs (w, t) = (k, (w', t'))" "kept = port # k"
      using Cons.prems True by (auto split: prod.splits)
    then show ?thesis using Cons.IH [OF k(1)] True by simp
  next
    case False
    obtain e w1 t1 where g: "gvproxyUnexpose (traced client) port (w, t) = (e, (w1, t1))" by (metis surj_pair)
    obtain x where x: "t1 = t @ [(unexposeRequest port, x)]" using traced_unexpose [OF g] by blast
    have "unexpose_loop (traced client) ports xs (w1, t1) = (kept, (w', t'))" using Cons.prems g False by simp
    from Cons.IH [OF this] obtain u where "kept = filter (\<lambda>p. p \<in> set ports) xs" "t' = t1 @ u"
      "map fst u = map unexposeRequest (filter (\<lambda>p. p \<notin> set ports) xs)" by blast
    then show ?thesis using x False by (auto intro!: exI [of _ "(unexposeRequest port, x) # u"])
  qed
qed simp

lemma expose_loop_requests:
  "expose_loop (traced client) ports fwd (w, t) = (fwd', (w', t')) \<Longrightarrow> distinct ports
     \<Longrightarrow> \<exists>u. t' = t @ u \<and> map fst u = map (exposeRequest guestIP) (filter (\<lambda>p. p \<notin> set fwd) ports)
        \<and> set fwd' = set fwd \<union> {p \<in> set ports. \<exists>x. (exposeRequest guestIP p, x) \<in> set u \<and> exposed_reply x}"
proof (induction ports arbitrary: fwd w t)
  case (Cons port ports)
  show ?case
  proof (cases "port \<in> set fwd")
    case True
    then have "expose_loop (traced client) ports fwd (w, t) = (fwd', (w', t'))" using Cons.prems by simp
    then obtain u where "t' = t @ u" and u: "map fst u = map (exposeRequest guestIP) (filter (\<lambda>p. p \<notin> set fwd) ports)"
      and f: "set fwd' = set fwd \<union> {p \<in> set ports. \<exists>x. (exposeRequest guestIP p, x) \<in> set u \<and> exposed_reply x}"
      using Cons.IH [of fwd w t] Cons.prems(2) by auto
    then show ?thesis using True by (intro exI [of _ u]) auto
  next
    case False
    obtain e w1 t1 where g: "gvproxyExpose (traced client) port guestIP (w, t) = (e, (w1, t1))" by (metis surj_pair)
    obtain x where x: "t1 = t @ [(exposeRequest guestIP port, x)]" "e = None \<longleftrightarrow> exposed_reply x"
      using traced_expose [OF g] by blast
    define nf where "nf = (case e of None \<Rightarrow> fwd @ [port] | Some _ \<Rightarrow> fwd)"
    have "expose_loop (traced client) ports nf (w1, t1) = (fwd', (w', t'))"
      using Cons.prems g False by (simp add: nf_def split: option.splits)
    then obtain u where u: "t' = t1 @ u" "map fst u = map (exposeRequest guestIP) (filter (\<lambda>p. p \<notin> set nf) ports)"
      and f: "set fwd' = set nf \<union> {p \<in> set ports. \<exists>x. (exposeRequest guestIP p, x) \<in> set u \<and> exposed_reply x}"
      using Cons.IH [of nf w1 t1] Cons.prems(2) by auto
    have "port \<notin> set ports" using Cons.prems(2) by simp
    then have fl: "filter (\<lambda>p. p \<notin> set nf) ports = filter (\<lambda>p. p \<notin> set fwd) ports"
      by (auto simp: nf_def split: option.splits intro!: filter_cong)
    have "exposeRequest guestIP port \<notin> fst ` set u"
    proof
      assume "exposeRequest guestIP port \<in> fst ` set u"
      then have "exposeRequest guestIP port \<in> set (map (exposeRequest guestIP) (filter (\<lambda>p. p \<notin> set nf) ports))"
        using u(2) by (metis set_map)
      then show False using \<open>port \<notin> set ports\<close> by auto
    qed
    then have p: "(exposeRequest guestIP port, y) \<notin> set u" for y by force
    have n: "set nf = set fwd \<union> (if exposed_reply x then {port} else {})" using x(2) by (auto simp: nf_def split: option.splits)
    show ?thesis
      by (intro exI [of _ "(exposeRequest guestIP port, x) # u"])
         (use u(1) u(2) [unfolded fl] x(1) f n p False \<open>port \<notin> set ports\<close> in \<open>auto split: if_splits\<close>)
  qed
qed simp

lemma sync_requests:
  assumes "syncGvproxyForwards (traced client) decode ports forwarded (w, []) = (forwarded', (w', sent))" "distinct ports"
  shows "\<exists>x u. sent = (listRequest, x) # u
    \<and> map fst u = map unexposeRequest (filter (\<lambda>p. p \<notin> set ports) forwarded)
        @ map (exposeRequest guestIP) (filter (\<lambda>p. p \<notin> set forwarded \<union> listed_ports decode x) ports)
    \<and> set forwarded' = {p \<in> set ports. p \<in> set forwarded \<or> p \<in> listed_ports decode x
        \<or> (\<exists>y. (exposeRequest guestIP p, y) \<in> set u \<and> exposed_reply y)}"
proof -
  obtain existing w1 t1 where l: "gvproxyListForwardPorts (traced client) decode (w, []) = (existing, (w1, t1))" by (metis surj_pair)
  obtain x where x: "t1 = [(listRequest, x)]" "(case existing of Inl _ \<Rightarrow> {} | Inr ps \<Rightarrow> set ps) = listed_ports decode x"
    using traced_list [OF l] by auto
  define adopted where "adopted = (case existing of Inl _ \<Rightarrow> forwarded
      | Inr ps \<Rightarrow> forwarded @ filter (\<lambda>p. p \<in> set ports \<and> p \<notin> set forwarded) ps)"
  have ad: "filter (\<lambda>p. p \<notin> set ports) adopted = filter (\<lambda>p. p \<notin> set ports) forwarded"
    by (auto simp: adopted_def filter_empty_conv split: sum.splits)
  have as: "p \<in> set adopted \<longleftrightarrow> p \<in> set forwarded \<or> p \<in> listed_ports decode x" if "p \<in> set ports" for p
    using that x(2) [symmetric] by (auto simp: adopted_def split: sum.splits)
  obtain kept w2 t2 where u: "unexpose_loop (traced client) ports adopted (w1, t1) = (kept, (w2, t2))" by (metis surj_pair)
  obtain v where v: "kept = filter (\<lambda>p. p \<in> set ports) adopted" "t2 = t1 @ v"
    "map fst v = map unexposeRequest (filter (\<lambda>p. p \<notin> set ports) forwarded)"
    using unexpose_loop_requests [OF u] ad by auto
  have "expose_loop (traced client) ports kept (w2, t2) = (forwarded', (w', sent))"
    using assms(1) l u by (simp add: syncGvproxyForwards_def adopted_def)
  from expose_loop_requests [OF this assms(2)]
  obtain z where z: "sent = t2 @ z" "map fst z = map (exposeRequest guestIP) (filter (\<lambda>p. p \<notin> set kept) ports)"
    "set forwarded' = set kept \<union> {p \<in> set ports. \<exists>x. (exposeRequest guestIP p, x) \<in> set z \<and> exposed_reply x}" by blast
  have f: "filter (\<lambda>p. p \<notin> set kept) ports = filter (\<lambda>p. p \<notin> set forwarded \<union> listed_ports decode x) ports"
    by (rule filter_cong) (use v(1) as in auto)
  have nv: "(exposeRequest guestIP p, y) \<notin> set v" for p y
  proof
    assume "(exposeRequest guestIP p, y) \<in> set v"
    then have "exposeRequest guestIP p \<in> set (map fst v)" by force
    then show False unfolding v(3) by auto
  qed
  have "set forwarded' = {p \<in> set ports. p \<in> set forwarded \<or> p \<in> listed_ports decode x
        \<or> (\<exists>y. (exposeRequest guestIP p, y) \<in> set (v @ z) \<and> exposed_reply y)}"
    using z(3) v(1) as nv by auto
  then show ?thesis using x(1) v(2,3) z(1,2) f by (intro exI [of _ x] exI [of _ "v @ z"]) simp
qed

text \<open>
  C23: Synchronising the forwards of gvproxy with the published ports, whatever gvproxy answers. The requests sent are exactly
  these: one for the list of forwards, one to remove each tracked forward that is no longer wanted, and one to
  expose each wanted port that is neither tracked nor listed, to the same port of the guest. Afterwards the tracked ports are
  exactly the wanted ones that were tracked before, or are listed, or whose request was answered with success or with the
  error that the forward already exists.
\<close>

theorem forwards_follow_ports:
  defines "unexpose \<equiv> \<lambda>port. (''POST'', ''http://gvproxy/services/forwarder/unexpose'', LocalBody ('':'' @ show_int port))"
    and "expose \<equiv> \<lambda>port. (''POST'', ''http://gvproxy/services/forwarder/expose'',
        ForwardBody \<lparr>gf_Local = '':'' @ show_int port, gf_Remote = ''192.168.127.2:'' @ show_int port, gf_Protocol = ''''\<rparr>)"
  assumes "syncGvproxyForwards (traced client) decode ports forwarded (w, []) = (forwarded', (w', sent))" "distinct ports"
  shows "\<exists>reply rest. sent = ((''GET'', ''http://gvproxy/services/forwarder/all'', NoBody), reply) # rest
    \<and> map fst rest = map unexpose (filter (\<lambda>p. p \<notin> set ports) forwarded)
        @ map expose (filter (\<lambda>p. p \<notin> set forwarded \<and> p \<notin> listed_ports decode reply) ports)
    \<and> (\<forall>p. p \<in> set forwarded' \<longleftrightarrow> p \<in> set ports \<and> (p \<in> set forwarded \<or> p \<in> listed_ports decode reply
        \<or> (\<exists>code body. (expose p, Inr (code, body)) \<in> set rest
              \<and> (code < 300 \<or> code = 500 \<and> Contains (ToLower (TrimSpace (take 512 body))) ''already''))))"
proof -
  have e: "expose = exposeRequest guestIP" "unexpose = unexposeRequest"
    by (simp_all add: expose_def unexpose_def exposeRequest_def unexposeRequest_def guestIP_def JoinHostPort_def fun_eq_iff)
  obtain x u where s: "sent = (listRequest, x) # u"
    and m: "map fst u = map unexpose (filter (\<lambda>p. p \<notin> set ports) forwarded)
        @ map expose (filter (\<lambda>p. p \<notin> set forwarded \<union> listed_ports decode x) ports)"
    and f: "set forwarded' = {p \<in> set ports. p \<in> set forwarded \<or> p \<in> listed_ports decode x
        \<or> (\<exists>y. (expose p, y) \<in> set u \<and> exposed_reply y)}"
    using sync_requests [OF assms(3,4)] unfolding e by blast
  have r: "(\<exists>y. (r, y) \<in> set u \<and> exposed_reply y) \<longleftrightarrow> (\<exists>code body. (r, Inr (code, body)) \<in> set u
      \<and> (code < 300 \<or> code = 500 \<and> Contains (ToLower (TrimSpace (take 512 body))) ''already''))" for r
  proof -
    have "exposed_reply y \<longleftrightarrow> (\<exists>code body. y = Inr (code, body)
        \<and> (code < 300 \<or> code = 500 \<and> Contains (ToLower (TrimSpace (take 512 body))) ''already''))" for y
      by (cases y) (auto simp: exposed_reply_def)
    then show ?thesis by metis
  qed
  show ?thesis using s m f unfolding r listRequest_def by (intro exI [of _ x] exI [of _ u]) simp
qed

text \<open>A gvproxy that accepts everything and lists one forward, for examples.\<close>

definition open_gvproxy :: "unit gvClient" where
  "open_gvproxy r w = (Inr (200, ''''), w)"

definition one_forward :: "string \<Rightarrow> gvproxyForward list result" where
  "one_forward body = Inr [\<lparr>gf_Local = ''127.0.0.1:2'', gf_Remote = ''192.168.127.2:22'', gf_Protocol = ''tcp''\<rparr>]"

lemma gv_run:
  "syncGvproxyForwards (traced open_gvproxy) one_forward [2, 80] [7] ((), [])
     = ([2, 80], ((), [(listRequest, Inr (200, '''')), (unexposeRequest 7, Inr (200, '''')), (exposeRequest guestIP 80, Inr (200, ''''))]))"
  by code_simp

theorem forwards_follow_ports_witness:
  "fst (exposeRequest guestIP 80, ()) = (''POST'', ''http://gvproxy/services/forwarder/expose'',
     ForwardBody \<lparr>gf_Local = '':80'', gf_Remote = ''192.168.127.2:80'', gf_Protocol = ''''\<rparr>)"
proof -
  have "localForwardPort ''127.0.0.1:2'' = Some 2" by code_simp
  then have s: "listed_ports one_forward (Inr (200, '''')) = {2}" by (simp add: listed_ports_def one_forward_def)
  have i: "show_int 80 = ''80''" by code_simp
  show ?thesis using forwards_follow_ports [OF gv_run] by (auto simp: s i)
qed

text \<open>
  Two consequences.  A forward that an earlier daemon left and that no container wants is never removed, and
  neither is one whose removal failed once, since both are untracked.
\<close>

theorem untracked_forward_stays:
  assumes "syncGvproxyForwards (traced client) decode ports forwarded (w, []) = (forwarded', (w', sent))" "distinct ports"
    "port \<notin> set ports" "port \<notin> set forwarded"
  shows "unexposeRequest port \<notin> fst ` set sent \<and> port \<notin> set forwarded'"
proof -
  obtain x u where s: "sent = (listRequest, x) # u"
    and m: "map fst u = map unexposeRequest (filter (\<lambda>p. p \<notin> set ports) forwarded)
        @ map (exposeRequest guestIP) (filter (\<lambda>p. p \<notin> set forwarded \<union> listed_ports decode x) ports)"
    and f: "set forwarded' \<subseteq> set ports"
    using sync_requests [OF assms(1,2)] by blast
  have "unexposeRequest port \<notin> set (map fst u)" unfolding m using assms(4) by auto
  then show ?thesis using s f assms(3) by auto
qed

text \<open>
  Any listed forward of the same port counts as the wanted one, whatever its address, target and protocol:
  here port 2 leads to the SSH server of the guest, and the container's port is never exposed.
\<close>

lemma foreign_forward_is_adopted:
  "exposeRequest guestIP 2 \<notin> fst ` set (snd (snd (syncGvproxyForwards (traced open_gvproxy) one_forward [2, 80] [7] ((), []))))"
  by (simp add: gv_run)

end
