(* ===== verification/Calf_Guest.thy ===== *)
theory Calf_Guest
  imports Calf_Ports Calf_Details
begin

text \<open>
  The guest of the macOS runtime (\<open>internal/runtime/guest_darwin.go\<close>): construction and defaults, the status,
  the shared list of containers with its cache and its single flight, and the commands that run in the
  guest.  Docker is the argument \<open>run\<close>, waiting is the argument \<open>sleep\<close>.
\<close>

section \<open>The list of containers and its cache\<close>

text \<open>
  The fields under \<open>listMu\<close>.  Copying a slice of no elements with \<open>append\<close> gives nil, so nil and the empty list are
  the same value here as in the code.  Channels are numbered; \<open>lc_closed\<close> are the closed ones.
\<close>

record listCache =
  lc_cache :: "Container list"
  lc_cacheAt :: int
  lc_inflight :: "nat option"
  lc_inflightErr :: "go_error option"
  lc_inflightValue :: "Container list"
  lc_closed :: "nat list"
  lc_nextChan :: nat

definition containersListCacheTTL :: int where "containersListCacheTTL = 2 * 1000000000"

definition emptyListCache :: listCache where
  "emptyListCache = \<lparr>lc_cache = [], lc_cacheAt = 0, lc_inflight = None, lc_inflightErr = None, lc_inflightValue = [],
     lc_closed = [], lc_nextChan = 0\<rparr>"

text \<open>The sections of \<open>cachedListContainers\<close> under the mutex: the beginning, the end of a wait, the end of a flight.\<close>

datatype listEntry = Hit "Container list" | Await nat | Lead nat

definition cachedList_enter :: "int \<Rightarrow> listCache \<Rightarrow> listEntry \<times> listCache" where
  "cachedList_enter now lc =
     (if lc_cache lc \<noteq> [] \<and> now - lc_cacheAt lc < containersListCacheTTL then (Hit (lc_cache lc), lc)
      else case lc_inflight lc of
        Some ch \<Rightarrow> (Await ch, lc)
      | None \<Rightarrow> (Lead (lc_nextChan lc), lc\<lparr>lc_inflight := Some (lc_nextChan lc), lc_nextChan := Suc (lc_nextChan lc)\<rparr>))"

definition cachedList_woken :: "listCache \<Rightarrow> Container list result" where
  "cachedList_woken lc = (case lc_inflightErr lc of Some err \<Rightarrow> Inl err | None \<Rightarrow> Inr (lc_inflightValue lc))"

definition cachedList_finish :: "int \<Rightarrow> nat \<Rightarrow> Container list result \<Rightarrow> listCache \<Rightarrow> Container list result \<times> listCache" where
  "cachedList_finish now ch live lc =
     (let lc1 = (case live of Inr cs \<Rightarrow> lc\<lparr>lc_cache := cs, lc_cacheAt := now\<rparr> | Inl _ \<Rightarrow> lc);
          (cs, err) = (case live of Inr cs \<Rightarrow> (cs, None) | Inl e \<Rightarrow> KeepLastList (lc_cache lc) [] (Some e))
      in (case err of Some e \<Rightarrow> Inl e | None \<Rightarrow> Inr cs,
          lc1\<lparr>lc_inflightErr := err, lc_inflightValue := cs, lc_closed := ch # lc_closed lc1, lc_inflight := None\<rparr>))"

definition invalidateContainersCache :: "listCache \<Rightarrow> listCache" where
  "invalidateContainersCache lc = lc\<lparr>lc_cache := [], lc_cacheAt := 0\<rparr>"

text \<open>The whole function when nothing interleaves.\<close>

definition cachedListContainers ::
    "('w \<Rightarrow> int) \<Rightarrow> ('w \<Rightarrow> Container list result \<times> 'w) \<Rightarrow> listCache \<Rightarrow> 'w \<Rightarrow> (Container list result \<times> listCache \<times> 'w) option" where
  "cachedListContainers now list lc w =
     (case cachedList_enter (now w) lc of
        (Hit cs, lc1) \<Rightarrow> Some (Inr cs, lc1, w)
      | (Await _, lc1) \<Rightarrow> None
      | (Lead ch, lc1) \<Rightarrow>
          (case list w of (live, w1) \<Rightarrow> (case cachedList_finish (now w1) ch live lc1 of (r, lc2) \<Rightarrow> Some (r, lc2, w1))))"

section \<open>The guest (NewGuest, Status, ListContainers)\<close>

record Guest =
  g_vmName :: string
  g_dockerSocket :: string
  g_engineSocket :: string
  g_cpus :: int
  g_memoryGB :: int
  g_diskGB :: int
  g_diskImage :: string
  g_vmKeepAlive :: bool
  g_proxy :: ProxyConfig
  g_dataDir :: string
  g_started :: bool
  g_starting :: bool
  g_proxyResync :: bool
  g_localhostProxy :: "localhostProxies option"
  g_gatedSock :: string
  g_gatedLn :: bool
  g_list :: listCache

definition joinPath :: "string list \<Rightarrow> string" where
  "joinPath parts = (case parts of [] \<Rightarrow> '''' | p # ps \<Rightarrow> foldl filepath_Join p ps)"

text \<open>
  \<open>home\<close> is the home directory or the error of looking it up, \<open>tmp\<close> the directory for temporary files, \<open>memoryEnv\<close> the
  variable \<open>CALF_GUEST_MEMORY_GB\<close>, and \<open>gated\<close> the outcome of \<open>startGatedEngineProxy\<close>.
\<close>

definition NewGuest ::
    "string result \<Rightarrow> string \<Rightarrow> string \<Rightarrow> bool \<Rightarrow> string \<Rightarrow> string \<Rightarrow> int \<Rightarrow> int \<Rightarrow> int \<Rightarrow> string \<Rightarrow> int \<Rightarrow> bool \<Rightarrow> ProxyConfig \<Rightarrow> Guest" where
  "NewGuest homeDir tmp memoryEnv gated vmName0 dockerSocket0 cpus memoryGB diskGB diskImage apiListenPort keepAlive proxy =
     (let vmName = (if vmName0 = '''' then DefaultVMName else vmName0);
          dockerSocket = (if dockerSocket0 = '''' then DefaultDockerSocketPath homeDir else dockerSocket0);
          homePath = (case homeDir of Inl _ \<Rightarrow> tmp | Inr h \<Rightarrow> h);
          memoryGB1 = (if memoryGB < 1 then 4 else memoryGB);
          memoryGB2 = (if memoryEnv \<noteq> '''' then (case ParseInt64 memoryEnv of Some n \<Rightarrow> if n > 0 then n else memoryGB1 | None \<Rightarrow> memoryGB1) else memoryGB1);
          dataDir = joinPath [homePath, ''.config'', ''calf'', ''guest'', vmName];
          disk = TrimSpace diskImage
      in \<lparr>g_vmName = vmName, g_dockerSocket = dockerSocket, g_engineSocket = filepath_Join dataDir ''docker-engine.sock'',
          g_cpus = (if cpus < 1 then 4 else cpus), g_memoryGB = memoryGB2, g_diskGB = (if diskGB < 1 then 100 else diskGB),
          g_diskImage = (if disk = '''' then filepath_Join dataDir ''disk.raw'' else disk), g_vmKeepAlive = keepAlive, g_proxy = proxy,
          g_dataDir = dataDir, g_started = False, g_starting = False, g_proxyResync = False,
          g_localhostProxy = setReservedPorts [apiListenPort] (newLocalhostProxies ''darwin''),
          g_gatedSock = filepath_Join dataDir ''docker-gated.sock'', g_gatedLn = gated, g_list = emptyListCache\<rparr>)"

text \<open>\<open>ready\<close> is \<open>dockerAPIReady\<close>, the ping of the engine.\<close>

definition Guest_Status :: "('w \<Rightarrow> bool \<times> 'w) \<Rightarrow> Guest \<times> 'w \<Rightarrow> Status result \<times> Guest \<times> 'w" where
  "Guest_Status ready gw =
     (case gw of (g, w) \<Rightarrow>
        let st = (\<lambda>state g. \<lparr>st_Mode = ''vm'', st_State = state, st_DockerSocket = g_dockerSocket g, st_Rootless = False,
                    st_VMName = g_vmName g, st_PortConflicts = conflictsSnapshot (g_localhostProxy g), st_Log = ''''\<rparr>) in
        if g_started g then (Inr (st RuntimeStateRunning g), g, w)
        else if g_starting g then (Inr (st RuntimeStateStarting g), g, w)
        else case ready w of
          (True, w1) \<Rightarrow> (Inr (st RuntimeStateRunning g), g\<lparr>g_started := True, g_proxyResync := True\<rparr>, w1)
        | (False, w1) \<Rightarrow> (Inr (st RuntimeStateStopped g), g, w1))"

definition engineCLISocket :: "Guest \<Rightarrow> string" where
  "engineCLISocket g = (if g_gatedLn g \<and> g_gatedSock g \<noteq> '''' then g_gatedSock g else g_engineSocket g)"

text \<open>
  \<open>ListContainers\<close>: the list, and the localhost proxies brought in line with it.  The sockets are part of the state.
\<close>

definition syncProxies :: "porthost \<Rightarrow> Container list \<Rightarrow> Guest \<times> sockets \<Rightarrow> Guest \<times> sockets" where
  "syncProxies h cs gs =
     (case gs of (g, s) \<Rightarrow>
        let force = g_proxyResync g;
            (p, s1) = localhostProxies_sync h (publishedTCPPorts cs) force (g_localhostProxy g) s
        in (g\<lparr>g_localhostProxy := p, g_proxyResync := (if force then False else g_proxyResync g)\<rparr>, s1))"

definition Guest_ListContainers ::
    "('w \<Rightarrow> bool \<times> 'w) \<Rightarrow> ('w \<Rightarrow> int) \<Rightarrow> ('w \<Rightarrow> Container list result \<times> 'w) \<Rightarrow> porthost \<Rightarrow> Guest \<Rightarrow> sockets \<Rightarrow> 'w
       \<Rightarrow> (Container list result \<times> Guest \<times> sockets \<times> 'w) option" where
  "Guest_ListContainers ready now list h g s w =
     (case Guest_Status ready (g, w) of
        (Inl err, g1, w1) \<Rightarrow> Some (Inl err, g1, s, w1)
      | (Inr status, g1, w1) \<Rightarrow>
          if st_State status \<noteq> RuntimeStateRunning then Some (Inr [], g1, s, w1)
          else if \<not> g_started g1 then Some (Inr [], g1, s, w1)
          else case cachedListContainers now list (g_list g1) w1 of
            None \<Rightarrow> None
          | Some (Inl err, lc, w2) \<Rightarrow> Some (Inl err, g1\<lparr>g_list := lc\<rparr>, s, w2)
          | Some (Inr cs, lc, w2) \<Rightarrow> (case syncProxies h cs (g1\<lparr>g_list := lc\<rparr>, s) of (g2, s2) \<Rightarrow> Some (Inr cs, g2, s2, w2)))"

text \<open>Starting, stopping and removing a container drop the cache, whether docker succeeds or not.\<close>

definition guestMutate :: "('w \<Rightarrow> bool \<times> 'w) \<Rightarrow> 'w runner \<Rightarrow> string list \<Rightarrow> Guest \<Rightarrow> 'w \<Rightarrow> go_error option \<times> Guest \<times> 'w" where
  "guestMutate ready run args g w =
     (case requireRunning (Guest_Status ready) (g, w) of
        (Some err, gw) \<Rightarrow> (Some err, gw)
      | (None, g1, w1) \<Rightarrow>
          (case run args w1 of
             (r, w2) \<Rightarrow> (case r of Inl err \<Rightarrow> Some err | Inr _ \<Rightarrow> None, g1\<lparr>g_list := invalidateContainersCache (g_list g1)\<rparr>, w2)))"

definition Guest_StartContainer :: "('w \<Rightarrow> bool \<times> 'w) \<Rightarrow> 'w runner \<Rightarrow> string \<Rightarrow> Guest \<Rightarrow> 'w \<Rightarrow> go_error option \<times> Guest \<times> 'w" where
  "Guest_StartContainer ready run cid = guestMutate ready run [''nerdctl'', ''start'', cid]"

definition Guest_StopContainer :: "('w \<Rightarrow> bool \<times> 'w) \<Rightarrow> 'w runner \<Rightarrow> string \<Rightarrow> Guest \<Rightarrow> 'w \<Rightarrow> go_error option \<times> Guest \<times> 'w" where
  "Guest_StopContainer ready run cid = guestMutate ready run [''nerdctl'', ''stop'', cid]"

definition Guest_RemoveContainer :: "('w \<Rightarrow> bool \<times> 'w) \<Rightarrow> 'w runner \<Rightarrow> string \<Rightarrow> Guest \<Rightarrow> 'w \<Rightarrow> go_error option \<times> Guest \<times> 'w" where
  "Guest_RemoveContainer ready run cid = guestMutate ready run [''nerdctl'', ''rm'', ''-f'', cid]"


section \<open>Interleaved listings\<close>

text \<open>
  Callers of \<open>cachedListContainers\<close> in any interleaving, with \<open>docker ps\<close>, changes of the engine, dropping of the
  cache, cancelled contexts and the clock.  \<open>sy_log\<close> notes every successful listing and when it was stored.
\<close>

datatype callphase = Idle | Waiting nat | Leading nat | Listed nat "Container list result" | Returned "Container list result"

record listSys =
  sy_lc :: listCache
  sy_phase :: "nat \<Rightarrow> callphase"
  sy_engine :: "Container list"
  sy_now :: int
  sy_log :: "(int \<times> Container list) list"

definition after_enter :: "listEntry \<Rightarrow> callphase" where
  "after_enter e = (case e of Hit cs \<Rightarrow> Returned (Inr cs) | Await ch \<Rightarrow> Waiting ch | Lead ch \<Rightarrow> Leading ch)"

definition logged_list :: "int \<Rightarrow> Container list result \<Rightarrow> (int \<times> Container list) list" where
  "logged_list now live = (case live of Inl _ \<Rightarrow> [] | Inr cs \<Rightarrow> [(now, cs)])"

inductive list_step :: "listSys \<Rightarrow> listSys \<Rightarrow> bool" where
  enter: "sy_phase s i = Idle \<Longrightarrow> cachedList_enter (sy_now s) (sy_lc s) = (e, lc)
    \<Longrightarrow> list_step s (s\<lparr>sy_lc := lc, sy_phase := (sy_phase s)(i := after_enter e)\<rparr>)"
| ps: "sy_phase s i = Leading ch \<Longrightarrow> live = Inr (sy_engine s) \<or> live = Inl err
    \<Longrightarrow> list_step s (s\<lparr>sy_phase := (sy_phase s)(i := Listed ch live)\<rparr>)"
| finish: "sy_phase s i = Listed ch live \<Longrightarrow> cachedList_finish (sy_now s) ch live (sy_lc s) = (r, lc)
    \<Longrightarrow> list_step s (s\<lparr>sy_lc := lc, sy_phase := (sy_phase s)(i := Returned r), sy_log := logged_list (sy_now s) live @ sy_log s\<rparr>)"
| wake: "sy_phase s i = Waiting ch \<Longrightarrow> ch \<in> set (lc_closed (sy_lc s))
    \<Longrightarrow> list_step s (s\<lparr>sy_phase := (sy_phase s)(i := Returned (cachedList_woken (sy_lc s)))\<rparr>)"
| cancel: "sy_phase s i = Waiting ch \<Longrightarrow> list_step s (s\<lparr>sy_phase := (sy_phase s)(i := Returned (Inl err))\<rparr>)"
| again: "sy_phase s i = Returned r \<Longrightarrow> list_step s (s\<lparr>sy_phase := (sy_phase s)(i := Idle)\<rparr>)"
| change: "list_step s (s\<lparr>sy_engine := cs\<rparr>)"
| invalidate: "list_step s (s\<lparr>sy_lc := invalidateContainersCache (sy_lc s)\<rparr>)"
| tick: "sy_now s \<le> t \<Longrightarrow> list_step s (s\<lparr>sy_now := t\<rparr>)"

definition list_init :: "Container list \<Rightarrow> int \<Rightarrow> listSys" where
  "list_init cs t = \<lparr>sy_lc = emptyListCache, sy_phase = (\<lambda>_. Idle), sy_engine = cs, sy_now = t, sy_log = []\<rparr>"

definition list_reach :: "listSys \<Rightarrow> bool" where
  "list_reach s \<longleftrightarrow> (\<exists>cs t. list_step\<^sup>*\<^sup>* (list_init cs t) s)"

fun leads :: "callphase \<Rightarrow> nat \<Rightarrow> bool" where
  "leads (Leading ch) c \<longleftrightarrow> ch = c"
| "leads (Listed ch _) c \<longleftrightarrow> ch = c"
| "leads _ c \<longleftrightarrow> False"

text \<open>The parts of the invariant: the flight has one leader, waits have an end, and lists come from docker.\<close>

definition leaders :: "(nat \<Rightarrow> callphase) \<Rightarrow> (nat \<times> nat) set" where
  "leaders ph = {(i, c). leads (ph i) c}"

definition flight_ok :: "listSys \<Rightarrow> bool" where
  "flight_ok s \<longleftrightarrow> (case lc_inflight (sy_lc s) of None \<Rightarrow> leaders (sy_phase s) = {} | Some c \<Rightarrow> (\<exists>i. leaders (sy_phase s) = {(i, c)}))"

definition waits_ok :: "listSys \<Rightarrow> bool" where
  "waits_ok s \<longleftrightarrow> (\<forall>i c. sy_phase s i = Waiting c \<longrightarrow> c \<in> set (lc_closed (sy_lc s)) \<or> lc_inflight (sy_lc s) = Some c)"

definition from_docker :: "listSys \<Rightarrow> Container list \<Rightarrow> bool" where
  "from_docker s cs \<longleftrightarrow> (\<exists>t. (t, cs) \<in> set (sy_log s))"

definition listings_ok :: "listSys \<Rightarrow> bool" where
  "listings_ok s \<longleftrightarrow> (lc_cache (sy_lc s) \<noteq> [] \<longrightarrow> (lc_cacheAt (sy_lc s), lc_cache (sy_lc s)) \<in> set (sy_log s))
     \<and> (lc_closed (sy_lc s) \<noteq> [] \<and> lc_inflightErr (sy_lc s) = None \<longrightarrow> from_docker s (lc_inflightValue (sy_lc s)))
     \<and> (\<forall>i cs. sy_phase s i = Returned (Inr cs) \<longrightarrow> from_docker s cs)"

lemma leads_after_enter [simp]: "leads (after_enter e) c \<longleftrightarrow> e = Lead c"
  by (auto simp: after_enter_def split: listEntry.splits)

lemma enter_cases:
  assumes "cachedList_enter now lc = (e, lc')"
  obtains (hit) "e = Hit (lc_cache lc)" "lc' = lc" "lc_cache lc \<noteq> []" "now - lc_cacheAt lc < containersListCacheTTL"
  | (await) ch where "e = Await ch" "lc' = lc" "lc_inflight lc = Some ch"
  | (lead) "e = Lead (lc_nextChan lc)" "lc_inflight lc = None"
      "lc' = lc\<lparr>lc_inflight := Some (lc_nextChan lc), lc_nextChan := Suc (lc_nextChan lc)\<rparr>"
proof (cases "lc_cache lc \<noteq> [] \<and> now - lc_cacheAt lc < containersListCacheTTL")
  case True
  then show ?thesis using assms by (intro hit) (auto simp: cachedList_enter_def)
next
  case False
  show ?thesis
  proof (cases "lc_inflight lc")
    case None
    then show ?thesis using assms False unfolding cachedList_enter_def by (intro lead) (simp_all only: if_False option.case prod.inject)
  next
    case (Some ch)
    then show ?thesis using assms False unfolding cachedList_enter_def by (intro await [of ch]) (simp_all only: if_False option.case prod.inject)
  qed
qed

lemma finish_fields:
  assumes "cachedList_finish now ch live lc = (r, lc')"
  shows "lc_inflight lc' = None" "lc_closed lc' = ch # lc_closed lc"
    "case live of Inr cs \<Rightarrow> r = Inr cs \<and> lc_cache lc' = cs \<and> lc_cacheAt lc' = now \<and> lc_inflightErr lc' = None \<and> lc_inflightValue lc' = cs
     | Inl e \<Rightarrow> lc_cache lc' = lc_cache lc \<and> lc_cacheAt lc' = lc_cacheAt lc
         \<and> (if lc_cache lc = [] then r = Inl e \<and> lc_inflightErr lc' = Some e
            else r = Inr (lc_cache lc) \<and> lc_inflightErr lc' = None \<and> lc_inflightValue lc' = lc_cache lc)"
proof -
  show "lc_inflight lc' = None" "lc_closed lc' = ch # lc_closed lc"
    using assms by (cases live; cases "lc_cache lc = []"; auto simp: cachedList_finish_def KeepLastList_def)+
  show "case live of Inr cs \<Rightarrow> r = Inr cs \<and> lc_cache lc' = cs \<and> lc_cacheAt lc' = now \<and> lc_inflightErr lc' = None \<and> lc_inflightValue lc' = cs
     | Inl e \<Rightarrow> lc_cache lc' = lc_cache lc \<and> lc_cacheAt lc' = lc_cacheAt lc
         \<and> (if lc_cache lc = [] then r = Inl e \<and> lc_inflightErr lc' = Some e
            else r = Inr (lc_cache lc) \<and> lc_inflightErr lc' = None \<and> lc_inflightValue lc' = lc_cache lc)"
    using assms by (cases live; cases "lc_cache lc = []"; auto simp: cachedList_finish_def KeepLastList_def)
qed

lemma in_leaders: "(i, c) \<in> leaders ph \<longleftrightarrow> leads (ph i) c"
  by (simp add: leaders_def)

lemma leaders_same: "(\<And>c. leads p c = leads (ph i) c) \<Longrightarrow> leaders (ph(i := p)) = leaders ph"
  by (auto simp: leaders_def split: if_splits)

lemma leaders_new: "leaders ph = {} \<Longrightarrow> (\<And>d. leads p d \<longleftrightarrow> d = c) \<Longrightarrow> leaders (ph(i := p)) = {(i, c)}"
  by (auto simp: leaders_def split: if_splits)

lemma leaders_gone:
  assumes "leaders ph = {(i, c)}" "\<And>d. \<not> leads p d"
  shows "leaders (ph(i := p)) = {}"
proof -
  have "\<not> leads (ph j) d" if "j \<noteq> i" for j d using assms(1) that in_leaders [of j d ph] by simp
  then show ?thesis using assms(2) by (auto simp: leaders_def)
qed

lemma leader_is:
  assumes "flight_ok s" "leads (sy_phase s i) c"
  shows "lc_inflight (sy_lc s) = Some c \<and> leaders (sy_phase s) = {(i, c)}"
proof -
  have "(i, c) \<in> leaders (sy_phase s)" using assms(2) by (simp add: in_leaders)
  then show ?thesis using assms(1) by (auto simp: flight_ok_def split: option.splits)
qed

lemma flight_step: "list_step s s' \<Longrightarrow> flight_ok s \<Longrightarrow> flight_ok s'"
proof (induction rule: list_step.induct)
  case (enter s i e lc)
  from enter.hyps(2) show ?case
  proof (cases rule: enter_cases)
    case lead
    then have "leaders (sy_phase s) = {}" using enter.prems by (simp add: flight_ok_def)
    then have "leaders ((sy_phase s)(i := after_enter e)) = {(i, lc_nextChan (sy_lc s))}"
      by (rule leaders_new) (use lead in auto)
    then show ?thesis using lead by (simp add: flight_ok_def)
  qed (use enter in \<open>simp_all add: flight_ok_def leaders_same cong: option.case_cong\<close>)
next
  case (finish s i ch live r lc)
  have "leaders (sy_phase s) = {(i, ch)}" using leader_is [OF finish.prems, of i ch] finish.hyps(1) by simp
  then have "leaders ((sy_phase s)(i := Returned r)) = {}" by (rule leaders_gone) simp
  then show ?case using finish_fields(1) [OF finish.hyps(2)] by (simp add: flight_ok_def)
qed (simp_all add: flight_ok_def leaders_same invalidateContainersCache_def cong: option.case_cong)

lemma waits_step: "list_step s s' \<Longrightarrow> flight_ok s \<Longrightarrow> waits_ok s \<Longrightarrow> waits_ok s'"
proof (induction rule: list_step.induct)
  case (enter s i e lc)
  from enter.hyps(2) show ?case
    by (cases rule: enter_cases) (use enter.prems in \<open>auto simp: waits_ok_def after_enter_def\<close>)
next
  case (finish s i ch live r lc)
  have "lc_inflight (sy_lc s) = Some ch" using leader_is [OF finish.prems(1), of i ch] finish.hyps(1) by simp
  then show ?case using finish_fields(1,2) [OF finish.hyps(2)] finish.prems(2) by (auto simp: waits_ok_def)
qed (auto simp: waits_ok_def invalidateContainersCache_def)

lemma from_docker_more: "from_docker s cs \<Longrightarrow> set (sy_log s) \<subseteq> set (sy_log s') \<Longrightarrow> from_docker s' cs"
  by (auto simp: from_docker_def)

lemma lists_step: "list_step s s' \<Longrightarrow> listings_ok s \<Longrightarrow> listings_ok s'"
proof (induction rule: list_step.induct)
  case (enter s i e lc)
  from enter.hyps(2) show ?case
    by (cases rule: enter_cases) (use enter.prems in \<open>auto simp: listings_ok_def after_enter_def from_docker_def\<close>)
next
  case (finish s i ch live r lc)
  show ?case
  proof (cases live)
    case (Inl e)
    then show ?thesis using finish_fields [OF finish.hyps(2)] finish.prems
      by (auto simp: listings_ok_def from_docker_def logged_list_def split: if_splits)
  next
    case (Inr cs)
    then show ?thesis using finish_fields [OF finish.hyps(2)] finish.prems
      by (auto simp: listings_ok_def from_docker_def logged_list_def)
  qed
next
  case (wake s i ch)
  then have "lc_closed (sy_lc s) \<noteq> []" by auto
  then show ?case using wake.prems by (auto simp: listings_ok_def cachedList_woken_def from_docker_def split: option.splits)
qed (auto simp: listings_ok_def from_docker_def invalidateContainersCache_def)

lemma list_reach_ok: "list_reach s \<Longrightarrow> flight_ok s \<and> waits_ok s \<and> listings_ok s"
proof -
  assume "list_reach s"
  then obtain cs t where "list_step\<^sup>*\<^sup>* (list_init cs t) s" by (auto simp: list_reach_def)
  then show ?thesis
  proof (induction rule: rtranclp_induct)
    case base
    then show ?case by (simp add: flight_ok_def waits_ok_def listings_ok_def list_init_def emptyListCache_def leaders_def)
  next
    case (step s s')
    then show ?case using flight_step waits_step lists_step by blast
  qed
qed


text \<open>
  C12: However listings interleave with changes, cancelled requests and dropped caches, at most one \<open>docker ps\<close> runs
  for the shared list, every waiting request waits for a flight that is over or still has its leader, a
  request answered from the cache gets a listing stored less than two seconds before, and every list
  returned is one that docker has printed.
\<close>

theorem listings_share_one_flight:
  assumes "list_reach s"
  shows "(\<forall>i j c d. leads (sy_phase s i) c \<longrightarrow> leads (sy_phase s j) d \<longrightarrow> i = j \<and> c = d)
    \<and> (\<forall>i c. sy_phase s i = Waiting c \<longrightarrow> c \<in> set (lc_closed (sy_lc s)) \<or> (\<exists>j. leads (sy_phase s j) c))
    \<and> (\<forall>cs lc. cachedList_enter (sy_now s) (sy_lc s) = (Hit cs, lc) \<longrightarrow>
         (\<exists>t. (t, cs) \<in> set (sy_log s) \<and> sy_now s - t < containersListCacheTTL))
    \<and> (\<forall>i cs. sy_phase s i = Returned (Inr cs) \<longrightarrow> (\<exists>t. (t, cs) \<in> set (sy_log s)))"
proof -
  have ok: "flight_ok s" "waits_ok s" "listings_ok s" using list_reach_ok [OF assms] by auto
  have "i = j \<and> c = d" if "leads (sy_phase s i) c" "leads (sy_phase s j) d" for i j c d
    using leader_is [OF ok(1) that(1)] leader_is [OF ok(1) that(2)] by simp
  moreover have "\<exists>j. leads (sy_phase s j) c" if fl: "lc_inflight (sy_lc s) = Some c" for c
  proof -
    obtain j where "leaders (sy_phase s) = {(j, c)}" using ok(1) fl by (auto simp: flight_ok_def)
    then show ?thesis using in_leaders [of j c "sy_phase s"] by auto
  qed
  moreover have "\<exists>t. (t, cs) \<in> set (sy_log s) \<and> sy_now s - t < containersListCacheTTL"
    if "cachedList_enter (sy_now s) (sy_lc s) = (Hit cs, lc)" for cs lc
    using that ok(3) by (cases rule: enter_cases) (auto simp: listings_ok_def)
  moreover have "\<forall>i c. sy_phase s i = Waiting c \<longrightarrow> c \<in> set (lc_closed (sy_lc s)) \<or> lc_inflight (sy_lc s) = Some c"
    using ok(2) by (simp add: waits_ok_def)
  moreover have "\<forall>i cs. sy_phase s i = Returned (Inr cs) \<longrightarrow> (\<exists>t. (t, cs) \<in> set (sy_log s))"
    using ok(3) by (simp add: listings_ok_def from_docker_def)
  ultimately show ?thesis by blast
qed

text \<open>A run: a leader, a waiting request, the end of the flight.\<close>

definition led :: listSys where
  "led = (list_init [webserver] 5)\<lparr>sy_lc := emptyListCache\<lparr>lc_inflight := Some 0, lc_nextChan := 1\<rparr>, sy_phase := (\<lambda>_. Idle)(0 := Leading 0)\<rparr>"

lemma led_reach: "list_reach led"
proof -
  have "cachedList_enter 5 emptyListCache = (Lead 0, emptyListCache\<lparr>lc_inflight := Some 0, lc_nextChan := 1\<rparr>)"
    by (simp add: cachedList_enter_def emptyListCache_def)
  then have "list_step (list_init [webserver] 5) led"
    using list_step.enter [of "list_init [webserver] 5" 0] by (simp add: led_def list_init_def after_enter_def)
  then show ?thesis unfolding list_reach_def by blast
qed

theorem listings_share_one_flight_witness: "leads (sy_phase led 0) 0 \<and> \<not> leads (sy_phase led 1) 1"
  using listings_share_one_flight [OF led_reach] by (simp add: led_def)

text \<open>
  Dropping the cache does not reach a listing in flight: here a container is removed and the cache dropped
  while \<open>docker ps\<close> has read its list; the flight then stores the old list, and the next request, which
  begins after the removal, is answered with the removed container.
\<close>

definition dropped :: listSys where
  "dropped = led\<lparr>sy_phase := (\<lambda>_. Idle)(0 := Listed 0 (Inr [webserver])), sy_engine := []\<rparr>"

definition stored_late :: listSys where
  "stored_late = dropped\<lparr>sy_lc := emptyListCache\<lparr>lc_cache := [webserver], lc_cacheAt := 5, lc_inflightValue := [webserver], lc_closed := [0], lc_nextChan := 1\<rparr>,
     sy_phase := (\<lambda>_. Idle)(0 := Returned (Inr [webserver])), sy_log := [(5, [webserver])]\<rparr>"

lemma dropped_reach: "list_reach dropped"
proof -
  have "list_step led (led\<lparr>sy_phase := (sy_phase led)(0 := Listed 0 (Inr (sy_engine led)))\<rparr>)"
    by (rule list_step.ps) (simp_all add: led_def)
  moreover have "list_step \<dots> (led\<lparr>sy_phase := (sy_phase led)(0 := Listed 0 (Inr (sy_engine led))), sy_engine := []\<rparr>)"
    using list_step.change [of "led\<lparr>sy_phase := (sy_phase led)(0 := Listed 0 (Inr (sy_engine led)))\<rparr>" "[]"] by simp
  moreover have "list_step \<dots> dropped"
    using list_step.invalidate [of "led\<lparr>sy_phase := (sy_phase led)(0 := Listed 0 (Inr (sy_engine led))), sy_engine := []\<rparr>"]
    by (simp add: led_def dropped_def list_init_def invalidateContainersCache_def emptyListCache_def)
  ultimately show ?thesis using led_reach unfolding list_reach_def by (meson rtranclp.rtrancl_into_rtrancl)
qed

theorem removed_container_is_listed:
  "\<exists>s s'. list_reach s \<and> sy_engine s = [] \<and> lc_cache (sy_lc s) = [] \<and> sy_phase s 1 = Idle
     \<and> list_step\<^sup>*\<^sup>* s s' \<and> sy_engine s' = [] \<and> sy_phase s' 1 = Returned (Inr [webserver])"
proof -
  have "cachedList_finish 5 0 (Inr [webserver]) (sy_lc dropped) = (Inr [webserver], sy_lc stored_late)"
    by (simp add: cachedList_finish_def dropped_def led_def stored_late_def list_init_def emptyListCache_def)
  then have 1: "list_step dropped stored_late"
    using list_step.finish [of dropped 0 0 "Inr [webserver]"]
    by (simp add: dropped_def led_def list_init_def stored_late_def logged_list_def)
  have "cachedList_enter 5 (sy_lc stored_late) = (Hit [webserver], sy_lc stored_late)"
    by (simp add: cachedList_enter_def stored_late_def containersListCacheTTL_def)
  then have 2: "list_step stored_late (stored_late\<lparr>sy_phase := (sy_phase stored_late)(1 := Returned (Inr [webserver]))\<rparr>)"
    using list_step.enter [of stored_late 1 "Hit [webserver]" "sy_lc stored_late"]
    by (simp add: stored_late_def dropped_def led_def list_init_def after_enter_def)
  show ?thesis
    by (rule exI [of _ dropped], rule exI [of _ "stored_late\<lparr>sy_phase := (sy_phase stored_late)(1 := Returned (Inr [webserver]))\<rparr>"])
      (use 1 2 dropped_reach in \<open>auto simp: dropped_def stored_late_def led_def list_init_def emptyListCache_def intro: rtranclp_trans\<close>)
qed

text \<open>Without containers nothing is cached: every request runs \<open>docker ps\<close>.\<close>

lemma empty_list_is_not_cached:
  assumes "cachedList_finish now ch (Inr []) lc = (r, lc')"
  shows "\<exists>c lc2. cachedList_enter t lc' = (Lead c, lc2)"
  using finish_fields [OF assms] by (simp add: cachedList_enter_def)


section \<open>Commands in the guest\<close>

text \<open>
  \<open>run\<close> is \<open>runLocal\<close>.  \<open>sleep\<close> is the \<open>select\<close> between the context and a delay: an error means that the context is
  over.  \<open>rest\<close> is the same for the context of the clean-up, where only the end matters.
\<close>

definition DefaultCommandRetryDelay :: int where "DefaultCommandRetryDelay = 200 * 1000000"
definition DockerAPIReadyPollMax :: int where "DockerAPIReadyPollMax = 2 * 1000000000"


definition nextPollDelay :: "int \<Rightarrow> int" where
  "nextPollDelay delay = (if delay < DockerAPIReadyPollMax then min (delay * 2) DockerAPIReadyPollMax else delay)"

definition inspectCommand :: "string \<Rightarrow> string list" where
  "inspectCommand cid = [''docker'', ''inspect'', ''-f'', ''{{.State.Status}} {{.State.ExitCode}}'', cid]"

text \<open>One round of \<open>pollGuestCmdExit\<close>: the answer, or the error that the end of the context reports.\<close>

definition poll_round :: "string result \<Rightarrow> string result + go_error option" where
  "poll_round out =
     (case out of
        Inr text \<Rightarrow>
          (case ParseInspectStateLine text of (status, code, ok) \<Rightarrow>
             if ok \<and> InspectStateExited status then Inl (Inr code) else Inr None)
      | Inl err \<Rightarrow>
          if isNoSuchContainerError (Some err) then Inl (Inl err)
          else if \<not> IsTransientCommandError (Some err) then Inl (Inl err)
          else Inr (Some err))"

partial_function (option) pollGuestCmdExit ::
    "'w runner \<Rightarrow> (int \<Rightarrow> 'w \<Rightarrow> go_error option \<times> 'w) \<Rightarrow> string \<Rightarrow> int \<Rightarrow> 'w \<Rightarrow> (string result \<times> 'w) option" where
  "pollGuestCmdExit run sleep cid delay w =
     (case run (inspectCommand cid) w of
        (out, w1) \<Rightarrow>
          (case poll_round out of
             Inl answer \<Rightarrow> Some (answer, w1)
           | Inr lastErr \<Rightarrow>
               (case sleep delay w1 of
                  (Some ctxErr, w2) \<Rightarrow> Some (Inl (case lastErr of Some e \<Rightarrow> e | None \<Rightarrow> ctxErr), w2)
                | (None, w2) \<Rightarrow> pollGuestCmdExit run sleep cid (nextPollDelay delay) w2)))"

fun rm_targets :: "'w runner \<Rightarrow> string list \<Rightarrow> 'w \<Rightarrow> bool \<times> 'w" where
  "rm_targets run [] w = (False, w)"
| "rm_targets run (t # ts) w =
     (case run [''docker'', ''rm'', ''-f'', t] w of
        (Inr _, w1) \<Rightarrow> (True, w1)
      | (Inl err, w1) \<Rightarrow> if isNoSuchContainerError (Some err) then (True, w1) else rm_targets run ts w1)"

fun rm_attempts :: "'w runner \<Rightarrow> ('w \<Rightarrow> bool \<times> 'w) \<Rightarrow> string list \<Rightarrow> nat \<Rightarrow> 'w \<Rightarrow> 'w" where
  "rm_attempts run rest targets 0 w = w"
| "rm_attempts run rest targets (Suc n) w =
     (case rm_targets run targets w of
        (True, w1) \<Rightarrow> w1
      | (False, w1) \<Rightarrow> (case rest w1 of (True, w2) \<Rightarrow> w2 | (False, w2) \<Rightarrow> rm_attempts run rest targets n w2))"

definition rmTargets :: "string \<Rightarrow> string \<Rightarrow> string list" where
  "rmTargets cid name =
     (if TrimSpace cid \<noteq> '''' then [TrimSpace cid] else []) @ (if TrimSpace name \<noteq> '''' \<and> TrimSpace name \<noteq> cid then [TrimSpace name] else [])"

definition removeGuestCmdContainer :: "'w runner \<Rightarrow> ('w \<Rightarrow> bool \<times> 'w) \<Rightarrow> string \<Rightarrow> string \<Rightarrow> 'w \<Rightarrow> 'w" where
  "removeGuestCmdContainer run rest cid name w =
     (if rmTargets cid name = [] then w else rm_attempts run rest (rmTargets cid name) 3 w)"

definition guestCmdName :: "int \<Rightarrow> string" where
  "guestCmdName now = ''calf-guestcmd-'' @ show_int now"

definition createCommand :: "string \<Rightarrow> string \<Rightarrow> string list" where
  "createCommand name script = [''docker'', ''create'', ''--name'', name, ''--label'', ''calf.guestcmd=1'', ''--privileged'', ''--pid=host'',
     AlpineSmokeImage, ''nsenter'', ''-t'', ''1'', ''-m'', ''-u'', ''-i'', ''-n'', ''--'', ''sh'', ''-c'', script]"

text \<open>The result once the script has run; the text is returned beside the error.\<close>

definition guestOutcome :: "string result \<Rightarrow> string result \<Rightarrow> string \<times> go_error option" where
  "guestOutcome exit logs =
     (let text = (case logs of Inl _ \<Rightarrow> '''' | Inr l \<Rightarrow> l) in
      case exit of
        Inl waitErr \<Rightarrow> (text, WrapGuestWaitError (Some waitErr) text)
      | Inr code \<Rightarrow>
          if code \<noteq> ''0'' then
            (text, Some (Errorf (if FormatCommandError text = '''' then ''guest command exit '' @ code else FormatCommandError text)))
          else case logs of Inl err \<Rightarrow> ('''', Some (Wrap ''guest logs'' err)) | Inr l \<Rightarrow> (l, None))"

definition runGuestRoot ::
    "'w runner \<Rightarrow> (int \<Rightarrow> 'w \<Rightarrow> go_error option \<times> 'w) \<Rightarrow> ('w \<Rightarrow> bool \<times> 'w) \<Rightarrow> int \<Rightarrow> string \<Rightarrow> 'w
       \<Rightarrow> ((string \<times> go_error option) \<times> 'w) option" where
  "runGuestRoot run sleep rest now script w =
     (let name = guestCmdName now in
      case run (createCommand name script) w of
        (Inl err, w1) \<Rightarrow> Some (('''', Some (Wrap ''guest create'' err)), removeGuestCmdContainer run rest '''' name w1)
      | (Inr createOut, w1) \<Rightarrow>
          let cid = (if TrimSpace createOut = '''' then name else TrimSpace createOut) in
          (case run [''docker'', ''start'', cid] w1 of
             (Inl err, w2) \<Rightarrow> Some (('''', Some (Wrap ''guest start'' err)), removeGuestCmdContainer run rest cid name w2)
           | (Inr _, w2) \<Rightarrow>
               (case pollGuestCmdExit run sleep cid DefaultCommandRetryDelay w2 of
                  None \<Rightarrow> None
                | Some (exit, w3) \<Rightarrow>
                    (case run [''docker'', ''logs'', cid] w3 of
                       (logs, w4) \<Rightarrow> Some (guestOutcome exit logs, removeGuestCmdContainer run rest cid name w4)))))"

text \<open>Leftovers of interrupted scripts.\<close>

definition rmAll :: "'w runner \<Rightarrow> string list \<Rightarrow> 'w \<Rightarrow> 'w" where
  "rmAll run ids w = fold (\<lambda>cid w. snd (run [''docker'', ''rm'', ''-f'', cid] w)) ids w"

definition pruneStaleGuestCmds :: "'w runner \<Rightarrow> 'w \<Rightarrow> 'w" where
  "pruneStaleGuestCmds run w =
     fold (\<lambda>flt w.
         (case run [''docker'', ''ps'', ''-aq'', ''--filter'', flt] w of
            (Inl _, w1) \<Rightarrow> w1
          | (Inr out, w1) \<Rightarrow> if TrimSpace out = '''' then w1 else rmAll run (Fields out) w1))
       [''label=calf.guestcmd=1'', ''name=calf-guestcmd-''] w"

text \<open>How an argument list becomes a script.\<close>

definition dockerCLIShellCommand :: "string list \<Rightarrow> string" where
  "dockerCLIShellCommand args =
     Join (''docker'' # map (\<lambda>arg. [CHR 0x27] @ ReplaceAll arg [CHR 0x27] [CHR 0x27, CHR 0x5C, CHR 0x27, CHR 0x27] @ [CHR 0x27]) args) '' ''"

datatype guestCall = Local "string list" | Root string

definition guestRoute :: "string list \<Rightarrow> guestCall" where
  "guestRoute cmd =
     (case cmd of
        [] \<Rightarrow> Root ''''
      | command # args \<Rightarrow>
          if command = ''nerdctl'' \<or> command = ''docker'' then
            (if args \<noteq> [] \<and> hd args = ''buildx'' then Root (dockerCLIShellCommand args) else Local cmd)
          else if command = ''bash'' \<and> length args \<ge> 2 \<and> args ! 0 = ''-lc'' then Root (args ! 1)
          else if command = ''sudo'' \<and> length args \<ge> 1 then Root (Join args '' '')
          else Root (Join cmd '' ''))"

definition guestCommandRunner ::
    "'w runner \<Rightarrow> (string \<Rightarrow> 'w \<Rightarrow> string result \<times> 'w) \<Rightarrow> 'w runner" where
  "guestCommandRunner run guestRoot cmd w =
     (case guestRoute cmd of Local args \<Rightarrow> run args w | Root script \<Rightarrow> guestRoot script w)"

definition Guest_ListVolumeFiles ::
    "(Status, 'w) query \<Rightarrow> decoder \<Rightarrow> 'w runner \<Rightarrow> (string \<Rightarrow> 'w \<Rightarrow> string result \<times> 'w) \<Rightarrow> string \<Rightarrow> string
       \<Rightarrow> (ContainerFileEntry list, 'w) query" where
  "Guest_ListVolumeFiles status decode run guestRoot name path w =
     (case requireRunning status w of
        (Some err, w1) \<Rightarrow> (Inl err, w1)
      | (None, w1) \<Rightarrow>
          if \<not> isValidContainerPath path then (Inl (Errorf ''invalid path''), w1)
          else listVolumeFiles decode (guestCommandRunner run guestRoot) name path w1)"

definition Guest_ApplyProxy ::
    "(Guest \<times> 'w \<Rightarrow> Status result \<times> Guest \<times> 'w) \<Rightarrow> ('w runner) \<Rightarrow> (string \<Rightarrow> 'w \<Rightarrow> string result \<times> 'w) \<Rightarrow> ProxyConfig
       \<Rightarrow> Guest \<Rightarrow> 'w \<Rightarrow> go_error option \<times> Guest \<times> 'w" where
  "Guest_ApplyProxy status run guestRoot proxy g w =
     (case requireRunning status (g\<lparr>g_proxy := proxy\<rparr>, w) of
        (Some err, gw) \<Rightarrow> (Some err, gw)
      | (None, g1, w1) \<Rightarrow> (case applyProxyInVM (guestCommandRunner run guestRoot) proxy w1 of (e, w2) \<Rightarrow> (e, g1, w2)))"


section \<open>Every helper container is removed\<close>

text \<open>What is known of a docker whose commands are noted in its state, and of waiting, which notes nothing.\<close>

locale noted_docker =
  fixes run :: "'w runner" and sleep :: "int \<Rightarrow> 'w \<Rightarrow> go_error option \<times> 'w" and rest :: "'w \<Rightarrow> bool \<times> 'w"
    and sent :: "'w \<Rightarrow> string list list"
  assumes run_sent: "run args w = (r, w') \<Longrightarrow> sent w' = sent w @ [args]"
    and sleep_sent: "sleep d w = (e, w') \<Longrightarrow> sent w' = sent w"
    and rest_sent: "rest w = (b, w') \<Longrightarrow> sent w' = sent w"
begin

abbreviation rm :: "string \<Rightarrow> string list" where "rm t \<equiv> [''docker'', ''rm'', ''-f'', t]"

lemma rm_targets_sent:
  "rm_targets run ts w = (b, w') \<Longrightarrow> \<exists>us. sent w' = sent w @ map rm us \<and> set us \<subseteq> set ts \<and> (ts \<noteq> [] \<longrightarrow> us \<noteq> [])"
proof (induction ts arbitrary: w)
  case (Cons t ts)
  obtain r w1 where r: "run (rm t) w = (r, w1)" by (cases "run (rm t) w")
  show ?case
  proof (cases "b = True \<and> w' = w1")
    case True
    then show ?thesis using run_sent [OF r] by (intro exI [of _ "[t]"]) simp
  next
    case False
    then have "rm_targets run ts w1 = (b, w')" using Cons.prems r by (auto split: sum.splits if_splits)
    then obtain us where "sent w' = sent w1 @ map rm us" "set us \<subseteq> set ts" using Cons.IH by blast
    then show ?thesis using run_sent [OF r] by (intro exI [of _ "t # us"]) auto
  qed
qed simp

lemma rm_attempts_sent:
  "\<exists>us. sent (rm_attempts run rest ts n w) = sent w @ map rm us \<and> set us \<subseteq> set ts \<and> (ts \<noteq> [] \<and> n > 0 \<longrightarrow> us \<noteq> [])"
proof (induction n arbitrary: w)
  case (Suc n)
  obtain b w1 where t: "rm_targets run ts w = (b, w1)" by (cases "rm_targets run ts w")
  obtain e w2 where s: "rest w1 = (e, w2)" by (cases "rest w1")
  obtain us where us: "sent w1 = sent w @ map rm us" "set us \<subseteq> set ts" "ts \<noteq> [] \<longrightarrow> us \<noteq> []" using rm_targets_sent [OF t] by blast
  obtain vs where vs: "sent (rm_attempts run rest ts n w2) = sent w2 @ map rm vs" "set vs \<subseteq> set ts" using Suc.IH by blast
  show ?case
  proof (cases "b \<or> e")
    case True
    then show ?thesis using t s us rest_sent [OF s] by (intro exI [of _ us]) (cases b; simp)
  next
    case False
    then show ?thesis using t s us vs rest_sent [OF s] by (intro exI [of _ "us @ vs"]) auto
  qed
qed simp

lemma remove_sent:
  assumes "rmTargets cid name \<noteq> []"
  shows "\<exists>us. sent (removeGuestCmdContainer run rest cid name w) = sent w @ map rm us \<and> us \<noteq> [] \<and> set us \<subseteq> set (rmTargets cid name)"
  using rm_attempts_sent [of "rmTargets cid name" 3 w] assms by (auto simp: removeGuestCmdContainer_def)

lemma poll_sent:
  assumes ret: "pollGuestCmdExit run sleep cid delay w = Some (r, w')"
  shows "\<exists>k. sent w' = sent w @ replicate k (inspectCommand cid)"
proof -
  let ?P = "\<lambda>run' sleep' cid delay w x. run' = run \<longrightarrow> sleep' = sleep \<longrightarrow> (\<exists>k. sent (snd x) = sent w @ replicate k (inspectCommand cid))"
  have "?P run sleep cid delay w (r, w')"
  proof (rule pollGuestCmdExit.raw_induct [where P = ?P, OF _ ret])
    fix f run' sleep' cid delay w x
    assume IH: "\<And>run' sleep' cid delay w x. f run' sleep' cid delay w = Some x \<Longrightarrow> ?P run' sleep' cid delay w x"
      and step: "(case run' (inspectCommand cid) w of (out, w1) \<Rightarrow>
          case poll_round out of Inl answer \<Rightarrow> Some (answer, w1)
          | Inr lastErr \<Rightarrow> case sleep' delay w1 of
              (None, w2) \<Rightarrow> f run' sleep' cid (nextPollDelay delay) w2
            | (Some ctxErr, w2) \<Rightarrow> Some (Inl (case lastErr of None \<Rightarrow> ctxErr | Some e \<Rightarrow> e), w2)) = Some x"
    show "?P run' sleep' cid delay w x"
    proof (intro impI)
      assume e: "run' = run" "sleep' = sleep"
      obtain out w1 where o: "run (inspectCommand cid) w = (out, w1)" by (cases "run (inspectCommand cid) w")
      obtain c w2 where s: "sleep delay w1 = (c, w2)" by (cases "sleep delay w1")
      consider "sent (snd x) = sent w1" | "f run sleep cid (nextPollDelay delay) w2 = Some x"
        using step e o s sleep_sent [OF s] by (auto split: sum.splits option.splits)
      then show "\<exists>k. sent (snd x) = sent w @ replicate k (inspectCommand cid)"
      proof cases
        case 1
        then show ?thesis using run_sent [OF o] by (intro exI [of _ 1]) simp
      next
        case 2
        then obtain k where "sent (snd x) = sent w2 @ replicate k (inspectCommand cid)" using IH by blast
        then show ?thesis using run_sent [OF o] sleep_sent [OF s] by (intro exI [of _ "Suc k"]) simp
      qed
    qed
  qed
  then show ?thesis by simp
qed

lemma run_root_sent:
  assumes "runGuestRoot run sleep rest now script w = Some (r, w')"
  defines "name \<equiv> guestCmdName now"
  shows "\<exists>cid middle removals. sent w' = sent w @ createCommand name script # middle @ map rm removals \<and> removals \<noteq> []
    \<and> set removals \<subseteq> set (rmTargets cid name)
    \<and> (\<forall>c\<in>set middle. c \<in> {[''docker'', ''start'', cid], inspectCommand cid, [''docker'', ''logs'', cid]})
    \<and> (cid = '''' \<or> cid = name \<or> (\<exists>out. fst (run (createCommand name script) w) = Inr out \<and> cid = TrimSpace out))"
proof -
  have n: "TrimSpace name \<noteq> ''''" unfolding name_def guestCmdName_def by simp (rule TrimSpace_visible; simp add: space1_def)
  obtain c w1 where c: "run (createCommand name script) w = (c, w1)" by (cases "run (createCommand name script) w")
  note s1 = run_sent [OF c]
  show ?thesis
  proof (cases c)
    case (Inl err)
    then have "w' = removeGuestCmdContainer run rest '''' name w1"
      using assms(1) c by (simp add: runGuestRoot_def name_def [symmetric])
    moreover obtain us where "sent (removeGuestCmdContainer run rest '''' name w1) = sent w1 @ map rm us" "us \<noteq> []" "set us \<subseteq> set (rmTargets '''' name)"
      using remove_sent [of "''''" name w1] n by (auto simp: rmTargets_def)
    ultimately have "sent w' = sent w @ createCommand name script # [] @ map rm us \<and> us \<noteq> [] \<and> set us \<subseteq> set (rmTargets '''' name)
        \<and> (\<forall>c\<in>set []. c \<in> {[''docker'', ''start'', ''''], inspectCommand '''', [''docker'', ''logs'', '''']})" using s1 by simp
    then show ?thesis by blast
  next
    case (Inr out)
    define cid where "cid = (if TrimSpace out = '''' then name else TrimSpace out)"
    have t: "rmTargets cid name \<noteq> []" using n by (auto simp: rmTargets_def cid_def)
    obtain st w2 where st: "run [''docker'', ''start'', cid] w1 = (st, w2)" by (cases "run [''docker'', ''start'', cid] w1")
    note s2 = run_sent [OF st]
    show ?thesis
    proof (cases st)
      case (Inl err)
      then have "w' = removeGuestCmdContainer run rest cid name w2"
        using assms(1) c Inr st by (simp add: runGuestRoot_def name_def [symmetric] cid_def [symmetric])
      then show ?thesis using remove_sent [OF t, of w2] s1 s2 c Inr
        by (intro exI [of _ cid] exI [of _ "[[''docker'', ''start'', cid]]"]) (auto simp: cid_def)
    next
      case (Inr x)
      then obtain ex w3 where p: "pollGuestCmdExit run sleep cid DefaultCommandRetryDelay w2 = Some (ex, w3)"
        using assms(1) c \<open>c = Inr out\<close> st by (auto simp: runGuestRoot_def name_def [symmetric] cid_def [symmetric] split: option.splits)
      obtain k where s3: "sent w3 = sent w2 @ replicate k (inspectCommand cid)" using poll_sent [OF p] by blast
      obtain l w4 where l: "run [''docker'', ''logs'', cid] w3 = (l, w4)" by (cases "run [''docker'', ''logs'', cid] w3")
      have "w' = removeGuestCmdContainer run rest cid name w4"
        using assms(1) c \<open>c = Inr out\<close> st Inr p l by (simp add: runGuestRoot_def name_def [symmetric] cid_def [symmetric])
      then show ?thesis using remove_sent [OF t, of w4] s1 s2 s3 run_sent [OF l] c \<open>c = Inr out\<close>
        by (intro exI [of _ cid] exI [of _ "[''docker'', ''start'', cid] # replicate k (inspectCommand cid) @ [[''docker'', ''logs'', cid]]"])
          (auto simp: cid_def)
    qed
  qed
qed

end


text \<open>Any docker can be noted.\<close>

definition noted :: "'w runner \<Rightarrow> ('w \<times> string list list) runner" where
  "noted run args wt = (case run args (fst wt) of (r, w) \<Rightarrow> (r, w, snd wt @ [args]))"

definition quietly :: "('a \<Rightarrow> 'w \<Rightarrow> 'b \<times> 'w) \<Rightarrow> 'a \<Rightarrow> 'w \<times> 't \<Rightarrow> 'b \<times> 'w \<times> 't" where
  "quietly f a wt = (case f a (fst wt) of (b, w) \<Rightarrow> (b, w, snd wt))"

interpretation nd: noted_docker "noted run" "quietly sleep" "quietly rest ()" snd for run sleep rest
  by unfold_locales (auto simp: noted_def quietly_def split: prod.splits)

text \<open>
  C17: A script for the guest runs in a helper container that is created first and removed last: whatever fails in
  between, the last commands remove it, by the identifier docker printed or by its name, and nothing else
  is started, inspected or removed.
\<close>

theorem guest_helper_is_removed:
  assumes "runGuestRoot (noted run) (quietly sleep) (quietly rest ()) now script (w, []) = Some (r, w', sent)"
  shows "\<exists>cid middle removals.
    sent = createCommand (guestCmdName now) script # middle @ map (\<lambda>t. [''docker'', ''rm'', ''-f'', t]) removals \<and> removals \<noteq> []
    \<and> set removals \<subseteq> set (rmTargets cid (guestCmdName now))
    \<and> (\<forall>c\<in>set middle. c \<in> {[''docker'', ''start'', cid], inspectCommand cid, [''docker'', ''logs'', cid]})
    \<and> (cid = '''' \<or> cid = guestCmdName now
       \<or> (\<exists>out. fst (noted run (createCommand (guestCmdName now) script) (w, [])) = Inr out \<and> cid = TrimSpace out))"
  using nd.run_root_sent [OF assms] by simp

text \<open>A docker that prints an identifier and reports the end of the script with code 0.\<close>

definition good_docker :: "unit runner" where
  "good_docker args w = (if args ! 1 = ''create'' then Inr ''abc'' else if args ! 1 = ''inspect'' then Inr ''exited 0'' else Inr ''out'', w)"

definition no_wait :: "'a \<Rightarrow> unit \<Rightarrow> go_error option \<times> unit" where "no_wait d w = (None, w)"

definition no_rest :: "unit \<Rightarrow> unit \<Rightarrow> bool \<times> unit" where "no_rest d w = (True, w)"

lemma abc_trim: "TrimSpace ''abc'' = ''abc''"
  by code_simp

lemma exited_0: "poll_round (Inr ''exited 0'') = Inl (Inr ''0'')"
  by code_simp

lemma good_run:
  "runGuestRoot (noted good_docker) (quietly no_wait) (quietly no_rest ()) 7 ''true'' ((), [])
     = Some ((''out'', None), (), [createCommand ''calf-guestcmd-7'' ''true'', [''docker'', ''start'', ''abc''], inspectCommand ''abc'',
         [''docker'', ''logs'', ''abc''], [''docker'', ''rm'', ''-f'', ''abc'']])"
proof -
  have "show_int 7 = ''7''" by code_simp
  then have n: "guestCmdName 7 = ''calf-guestcmd-7''" by (simp add: guestCmdName_def)
  show ?thesis
    by (simp add: runGuestRoot_def Let_def n abc_trim noted_def good_docker_def createCommand_def inspectCommand_def exited_0 guestOutcome_def
        pollGuestCmdExit.simps removeGuestCmdContainer_def rmTargets_def numeral_3_eq_3)
qed

theorem guest_helper_is_removed_witness:
  "\<exists>middle removals. [createCommand ''calf-guestcmd-7'' ''true'', [''docker'', ''start'', ''abc''], inspectCommand ''abc'',
         [''docker'', ''logs'', ''abc''], [''docker'', ''rm'', ''-f'', ''abc'']]
     = createCommand (guestCmdName 7) ''true'' # middle @ map (\<lambda>t. [''docker'', ''rm'', ''-f'', t]) removals \<and> removals \<noteq> []"
  using guest_helper_is_removed [OF good_run] by blast

lemma poll_ends:
  assumes "\<And>args w. left (snd (run args w)) \<le> (left w :: nat)" "\<And>d w w'. sleep d w = (None, w') \<Longrightarrow> left w' < left w"
  shows "\<exists>x. pollGuestCmdExit run sleep cid delay w = Some x"
proof (induction "left w" arbitrary: w delay rule: less_induct)
  case less
  obtain out w1 where o: "run (inspectCommand cid) w = (out, w1)" by (cases "run (inspectCommand cid) w")
  have l: "left w1 \<le> left w" using assms(1) [of "inspectCommand cid" w] o by simp
  obtain e w2 where s: "sleep delay w1 = (e, w2)" by (cases "sleep delay w1")
  have "\<exists>x. pollGuestCmdExit run sleep cid (nextPollDelay delay) w2 = Some x" if "e = None"
    using less [of w2] assms(2) [of delay w1 w2] s that l by simp
  then show ?case by (subst pollGuestCmdExit.simps) (auto simp: o s split: sum.splits option.splits)
qed

text \<open>
  C36: Running a script in the guest comes to an end, whatever the engine answers, when every wait brings the end of
  the request's context nearer: \<open>left\<close> bounds the waits until then.
\<close>

theorem guest_command_ends:
  assumes "\<And>args w. left (snd (run args w)) \<le> (left w :: nat)" "\<And>d w w'. sleep d w = (None, w') \<Longrightarrow> left w' < left w"
  shows "\<exists>r w'. runGuestRoot run sleep rest now script w = Some (r, w')"
proof -
  have p: "pollGuestCmdExit run sleep cid delay v \<noteq> None" for cid delay v using poll_ends [of left run sleep cid delay v] assms by auto
  have "runGuestRoot run sleep rest now script w \<noteq> None"
    by (simp add: runGuestRoot_def Let_def p split: prod.split sum.split option.split)
  then show ?thesis by auto
qed

text \<open>A script that never exits, with time for nine waits.\<close>

definition endless_docker :: "nat runner" where
  "endless_docker args w = (Inr (if args ! 1 = ''inspect'' then ''running 0'' else ''abc''), w)"

definition deadline_wait :: "int \<Rightarrow> nat \<Rightarrow> go_error option \<times> nat" where
  "deadline_wait d w = (if w = 0 then (Some (Errorf ''context deadline exceeded''), 0) else (None, w - 1))"

theorem guest_command_ends_witness:
  "\<exists>r w'. runGuestRoot endless_docker deadline_wait (Pair False) 7 ''sleep infinity'' 9 = Some (r, w')"
  by (rule guest_command_ends [where left = id]) (auto simp: endless_docker_def deadline_wait_def split: if_splits)


section \<open>Scripts made from arguments\<close>

abbreviation quotedArg :: "string \<Rightarrow> string" where
  "quotedArg arg \<equiv> [CHR 0x27] @ ReplaceAll arg [CHR 0x27] [CHR 0x27, CHR 0x5C, CHR 0x27, CHR 0x27] @ [CHR 0x27]"

lemma sh_words_args: "sh_scan False True (rev word) (concat (map (\<lambda>arg. '' '' @ quotedArg arg) args)) = Some (word # args)"
proof (induction args arbitrary: word)
  case (Cons arg args)
  then show ?case by (simp add: sh_scan_quoted)
qed simp

lemma Join_args: "Join (w # map f args) '' '' = w @ concat (map (\<lambda>arg. '' '' @ f arg) args)"
  by (induction args arbitrary: w) simp_all

text \<open>
  The script for a \<open>docker\<close> call in the guest is read by the shell as exactly the given arguments, whatever they
  contain.
\<close>

theorem docker_arguments_arrive: "sh_words (dockerCLIShellCommand args) = Some (''docker'' # args)"
proof -
  have "sh_words (dockerCLIShellCommand args) = sh_scan False True (rev ''docker'') (concat (map (\<lambda>arg. '' '' @ quotedArg arg) args))"
    unfolding dockerCLIShellCommand_def Join_args sh_words_def by (simp add: plain_def is_letter_def less_eq_char_def)
  then show ?thesis using sh_words_args [of "''docker''" args] by simp
qed

text \<open>
  Other commands are joined by blanks without quoting.  So the path of a request to list files of a volume
  becomes part of a script that the guest runs as root.
\<close>

definition volume_row :: decoder where
  "volume_row out = Inr [\<lparr>vi_CreatedAt = '''', vi_Driver = ''local'', vi_Mountpoint = ''/m'', vi_Name = ''v''\<rparr>]"

definition up_status :: "(Status, 'w) query" where
  "up_status w = (Inr \<lparr>st_Mode = ''vm'', st_State = RuntimeStateRunning, st_DockerSocket = '''', st_Rootless = False, st_VMName = ''calf'',
     st_PortConflicts = [], st_Log = ''''\<rparr>, w)"

theorem volume_path_is_executed:
  "snd (Guest_ListVolumeFiles up_status volume_row (\<lambda>_ scripts. (Inr '''', scripts)) (\<lambda>script scripts. (Inr '''', scripts @ [script]))
     ''v'' ''/;reboot'' []) = [''ls -la /m/;reboot'']"
  by code_simp

text \<open>
  For the same reason the installation of buildx does not update the package lists: of the quoted script only the
  first word reaches \<open>bash -c\<close>.
\<close>

definition buildxInstall :: string where
  "buildxInstall = ''DEBIAN_FRONTEND=noninteractive apt-get update -qq && DEBIAN_FRONTEND=noninteractive apt-get install -y docker-buildx''"

lemma buildx_install_is_cut:
  "guestRoute [''sudo'', ''bash'', ''-c'', buildxInstall]
     = Root (''bash -c DEBIAN_FRONTEND=noninteractive apt-get update -qq'' @ drop 49 buildxInstall)"
  "sh_words ''bash -c DEBIAN_FRONTEND=noninteractive apt-get update -qq''
     = Some [''bash'', ''-c'', ''DEBIAN_FRONTEND=noninteractive'', ''apt-get'', ''update'', ''-qq'']"
  by code_simp+
end
