(* ===== verification/Calf_Guest_Disk.thy ===== *)
theory Calf_Guest_Disk
  imports Calf_Guest Calf_Sizes
begin

text \<open>
  The disk of the guest (\<open>internal/runtime/guest_disk_fetch_darwin.go\<close>, and \<open>ensureGuestDisk\<close>, \<open>resolveSeedArchive\<close> of
  \<open>guest_darwin.go\<close>): an existing file, a local compressed seed, or a download, extracted through a partial file.
  Files are a map from paths to contents; the network, the decoder and the faults of the file system are
  arguments.
\<close>

section \<open>The host\<close>

type_synonym files = "string \<Rightarrow> string option"

text \<open>
  The answer to a GET: status, body, and whether reading the body ended with an error.  \<open>de_zstdReader\<close> is the error of
  making a decoder for an archive, \<open>de_zstd\<close> decodes a whole one, \<open>de_frameSize\<close> is the content size in the header of its first frame.
\<close>

record diskEnv =
  de_uname :: "string result"
  de_goarch :: string
  de_exe :: "string result"
  de_getenv :: "string \<Rightarrow> string"
  de_get :: "string \<Rightarrow> (int \<times> string \<times> go_error option) result"
  de_zstdReader :: "string \<Rightarrow> go_error option"
  de_zstd :: "string \<Rightarrow> string result"
  de_frameSize :: "string \<Rightarrow> int option"
  de_free :: "string \<Rightarrow> int option"
  de_mkdir :: "string \<Rightarrow> go_error option"
  de_create :: "string \<Rightarrow> go_error option"
  de_close :: "string \<Rightarrow> go_error option"
  de_rename :: "string \<Rightarrow> go_error option"

section \<open>Names\<close>

definition guestDiskArch :: "diskEnv \<Rightarrow> string" where
  "guestDiskArch env =
     (let fallback = (if de_goarch env = ''arm64'' then ''arm64'' else ''amd64'') in
      case de_uname env of
        Inl _ \<Rightarrow> fallback
      | Inr out \<Rightarrow>
          let m = TrimSpace out in
          if m = ''arm64'' \<or> m = ''aarch64'' then ''arm64'' else if m = ''x86_64'' \<or> m = ''amd64'' then ''amd64'' else fallback)"

definition GuestDiskAssetPrefix :: string where "GuestDiskAssetPrefix = ''calf-guest-disk''"
definition GuestEFIAssetPrefix :: string where "GuestEFIAssetPrefix = ''calf-guest-efi''"

definition guestDiskAssetName :: "diskEnv \<Rightarrow> string" where
  "guestDiskAssetName env = GuestDiskAssetPrefix @ ''-'' @ guestDiskArch env @ ''.raw.zst''"

definition guestEFIAssetName :: "diskEnv \<Rightarrow> string" where
  "guestEFIAssetName env = GuestEFIAssetPrefix @ ''-'' @ guestDiskArch env @ ''.zst''"

definition efiPath :: "Guest \<Rightarrow> string" where "efiPath g = filepath_Join (g_dataDir g) ''efi-store''"

definition partialPath :: "string \<Rightarrow> string" where "partialPath dest = dest @ ''.partial''"

section \<open>Writing a file through a partial one\<close>

text \<open>
  The common end of \<open>decompressZstdFile\<close> and \<open>downloadFile\<close>: \<open>content\<close> is what is copied and \<open>copyErr\<close> the error of
  copying.  The partial file stays behind when it cannot be renamed.
\<close>

definition writeThrough :: "diskEnv \<Rightarrow> string \<Rightarrow> string \<Rightarrow> go_error option \<Rightarrow> files \<Rightarrow> go_error option \<times> files" where
  "writeThrough env dest content copyErr fs =
     (let tmp = partialPath dest in
      case de_create env tmp of
        Some err \<Rightarrow> (Some err, fs)
      | None \<Rightarrow>
          (case copyErr of
             Some err \<Rightarrow> (Some err, fs(tmp := None))
           | None \<Rightarrow>
               (case de_close env tmp of
                  Some err \<Rightarrow> (Some err, fs(tmp := None))
                | None \<Rightarrow>
                    (case de_rename env tmp of
                       Some err \<Rightarrow> (Some err, fs(tmp := Some content))
                     | None \<Rightarrow> (None, fs(tmp := None, dest := Some content))))))"

definition decompressZstdFile :: "diskEnv \<Rightarrow> string \<Rightarrow> string \<Rightarrow> files \<Rightarrow> go_error option \<times> files" where
  "decompressZstdFile env srcPath destPath fs =
     (case fs srcPath of
        None \<Rightarrow> (Some (Errorf (''open '' @ srcPath @ '': no such file or directory'')), fs)
      | Some archive \<Rightarrow>
          (case de_zstdReader env archive of
             Some err \<Rightarrow> (Some err, fs)
           | None \<Rightarrow>
               (case de_zstd env archive of
                  Inl err \<Rightarrow> writeThrough env destPath '''' (Some err) fs
                | Inr raw \<Rightarrow> writeThrough env destPath raw None fs)))"

definition extractGuestSeed :: "diskEnv \<Rightarrow> Guest \<Rightarrow> string \<Rightarrow> files \<Rightarrow> go_error option \<times> files" where
  "extractGuestSeed env g seed fs =
     (case decompressZstdFile env seed (g_diskImage g) fs of
        (Some err, fs1) \<Rightarrow> (Some (Wrap (''extract guest disk from '' @ seed) err), fs1)
      | (None, fs1) \<Rightarrow>
          let efi1 = (if HasSuffix seed ''disk.raw.zst'' then TrimSuffix seed ''disk.raw.zst'' @ ''efi-store.zst'' else '''');
              efiSeed = (if HasPrefix (filepath_Base seed) GuestDiskAssetPrefix then filepath_Join (filepath_Dir seed) (guestEFIAssetName env) else efi1)
          in if efiSeed \<noteq> '''' \<and> fs1 efiSeed \<noteq> None then (None, snd (decompressZstdFile env efiSeed (efiPath g) fs1)) else (None, fs1))"

section \<open>Downloads\<close>

definition httpError :: "string \<Rightarrow> int \<Rightarrow> string \<Rightarrow> go_error" where
  "httpError url code body = Errorf (url @ '': HTTP '' @ show_int code @ '' '' @ TrimSpace (take 512 body))"

definition downloadFile :: "diskEnv \<Rightarrow> string \<Rightarrow> string \<Rightarrow> files \<Rightarrow> go_error option \<times> files" where
  "downloadFile env url destPath fs =
     (case de_get env url of
        Inl err \<Rightarrow> (Some err, fs)
      | Inr (code, body, readErr) \<Rightarrow>
          if code \<noteq> 200 then (Some (httpError url code body), fs) else writeThrough env destPath body readErr fs)"

record githubReleaseAsset =
  ga_Name :: string
  ga_BrowserDownloadURL :: string

record githubRelease =
  gr_TagName :: string
  gr_Assets :: "githubReleaseAsset list"

text \<open>\<open>getJSON\<close>, with the decoder of the expected type as argument.\<close>

definition getJSON :: "diskEnv \<Rightarrow> (string \<Rightarrow> 'a result) \<Rightarrow> string \<Rightarrow> 'a result" where
  "getJSON env decode url =
     (case de_get env url of
        Inl err \<Rightarrow> Inl err
      | Inr (code, body, _) \<Rightarrow> if code \<noteq> 200 then Inl (httpError url code body) else decode body)"

definition findAsset :: "string \<Rightarrow> githubReleaseAsset list \<Rightarrow> string option" where
  "findAsset assetName assets =
     map_option ga_BrowserDownloadURL (find (\<lambda>a. ga_Name a = assetName \<and> ga_BrowserDownloadURL a \<noteq> '''') assets)"

definition releasesAPI :: string where "releasesAPI = ''https://api.github.com/repos/enegalan/calf/releases''"

definition releaseAssetURL :: "diskEnv \<Rightarrow> (string \<Rightarrow> githubRelease result) \<Rightarrow> string \<Rightarrow> string \<Rightarrow> string result" where
  "releaseAssetURL env decode tag assetName =
     (case getJSON env decode (releasesAPI @ ''/tags/'' @ tag) of
        Inl err \<Rightarrow> Inl err
      | Inr rel \<Rightarrow> (case findAsset assetName (gr_Assets rel) of
          Some url \<Rightarrow> Inr url | None \<Rightarrow> Inl (Errorf (''asset '' @ assetName @ '' not in release '' @ tag))))"

definition latestReleaseAssetURL :: "diskEnv \<Rightarrow> (string \<Rightarrow> githubRelease result) \<Rightarrow> string \<Rightarrow> string result" where
  "latestReleaseAssetURL env decode assetName =
     (case getJSON env decode (releasesAPI @ ''/latest'') of
        Inl err \<Rightarrow> Inl err
      | Inr rel \<Rightarrow> (case findAsset assetName (gr_Assets rel) of
          Some url \<Rightarrow> Inr url | None \<Rightarrow> Inl (Errorf (''asset '' @ assetName @ '' not in latest release '' @ gr_TagName rel))))"

definition anyReleaseAssetURL :: "diskEnv \<Rightarrow> (string \<Rightarrow> githubRelease list result) \<Rightarrow> string \<Rightarrow> string result" where
  "anyReleaseAssetURL env decode assetName =
     (case getJSON env decode (releasesAPI @ ''?per_page=30'') of
        Inl err \<Rightarrow> Inl err
      | Inr releases \<Rightarrow> (case findAsset assetName (concat (map gr_Assets releases)) of
          Some url \<Rightarrow> Inr url | None \<Rightarrow> Inl (Errorf (''asset '' @ assetName @ '' not found in recent releases''))))"

record decoders =
  dc_release :: "string \<Rightarrow> githubRelease result"
  dc_releases :: "string \<Rightarrow> githubRelease list result"

definition version :: string where "version = ''1.0.23''"

definition resolveGuestDiskDownloadURL :: "diskEnv \<Rightarrow> decoders \<Rightarrow> string result" where
  "resolveGuestDiskDownloadURL env dc =
     (let want = guestDiskAssetName env in
      case releaseAssetURL env (dc_release dc) (''v'' @ version) want of
        Inr url \<Rightarrow> Inr url
      | Inl _ \<Rightarrow>
          (case latestReleaseAssetURL env (dc_release dc) want of
             Inr url \<Rightarrow> Inr url
           | Inl _ \<Rightarrow>
               (case anyReleaseAssetURL env (dc_releases dc) want of
                  Inr url \<Rightarrow> Inr url
                | Inl lastErr \<Rightarrow>
                    Inl (Wrap (''no GitHub release asset '' @ Quote want @ '' for v'' @ version @ '' or recent releases'') lastErr))))"

text \<open>\<open>strings.Replace(s, old, new, 1)\<close>.\<close>

definition ReplaceFirst :: "string \<Rightarrow> string \<Rightarrow> string \<Rightarrow> string" where
  "ReplaceFirst s old new = (case Index s old of None \<Rightarrow> s | Some i \<Rightarrow> take i s @ new @ drop (i + length old) s)"

text \<open>Both archives, once the address of the disk is known; the store of EFI variables is optional.\<close>

definition downloadAssets :: "diskEnv \<Rightarrow> Guest \<Rightarrow> string \<Rightarrow> files \<Rightarrow> string result \<times> files" where
  "downloadAssets env g url fs =
     (let dest = filepath_Join (g_dataDir g) (guestDiskAssetName env) in
      case downloadFile env url dest fs of
        (Some err, fs1) \<Rightarrow> (Inl (Wrap ''download guest disk'' err), fs1)
      | (None, fs1) \<Rightarrow>
          let givenEfi = TrimSpace (de_getenv env ''CALF_GUEST_EFI_URL'');
              efiURL = (if givenEfi = '''' then ReplaceFirst url (guestDiskAssetName env) (guestEFIAssetName env) else givenEfi);
              efiDest = filepath_Join (g_dataDir g) (guestEFIAssetName env)
          in case downloadFile env efiURL efiDest fs1 of
               (None, fs2) \<Rightarrow> (Inr dest, fs2)
             | (Some _, fs2) \<Rightarrow> (Inr dest, fs2(efiDest := None)))"

definition downloadGuestDisk :: "diskEnv \<Rightarrow> decoders \<Rightarrow> Guest \<Rightarrow> files \<Rightarrow> string result \<times> files" where
  "downloadGuestDisk env dc g fs =
     (if TrimSpace (de_getenv env ''CALF_GUEST_NO_DOWNLOAD'') = ''1''
      then (Inl (Errorf ''guest disk download disabled (CALF_GUEST_NO_DOWNLOAD=1)''), fs)
      else
        let given = TrimSpace (de_getenv env ''CALF_GUEST_DISK_URL'') in
        case (if given = '''' then resolveGuestDiskDownloadURL env dc else Inr given) of
          Inl err \<Rightarrow> (Inl err, fs)
        | Inr url \<Rightarrow> downloadAssets env g url fs)"

section \<open>Space\<close>

definition GuestDiskMinFreeBytes :: int where "GuestDiskMinFreeBytes = 20 * (1024 * 1024 * 1024)"

definition guestDiskUncompressedBytes :: "diskEnv \<Rightarrow> string \<Rightarrow> files \<Rightarrow> int" where
  "guestDiskUncompressedBytes env seed fs =
     (case fs seed of
        None \<Rightarrow> 0
      | Some archive \<Rightarrow>
          if archive = '''' then 0
          else case de_frameSize env archive of None \<Rightarrow> 0 | Some n \<Rightarrow> if n = 0 \<or> n > 2 ^ 46 then 0 else n)"

text \<open>\<open>%.1f\<close> of a double.\<close>

definition fixed1 :: "rat \<Rightarrow> string" where
  "fixed1 x = (let t = round_even (x * 10) in show_int (t div 10) @ ''.'' @ show_int (t mod 10))"

fun byte_units :: "rat \<Rightarrow> string list \<Rightarrow> string" where
  "byte_units v [] = fixed1 (v / 1024) @ '' PiB''"
| "byte_units v (u # us) = (let v1 = v / 1024 in if v1 < 1024 then fixed1 v1 @ '' '' @ u else byte_units v1 us)"

definition formatByteSize :: "int \<Rightarrow> string" where
  "formatByteSize n =
     (if n < 1024 then show_int n @ '' B'' else byte_units (to_double (of_int n)) [''KiB'', ''MiB'', ''GiB'', ''TiB''])"

definition ensureHostSpaceForGuestExtract :: "diskEnv \<Rightarrow> string \<Rightarrow> string \<Rightarrow> files \<Rightarrow> go_error option" where
  "ensureHostSpaceForGuestExtract env dataDir seed fs =
     (let required0 = guestDiskUncompressedBytes env seed fs;
          required = (if required0 \<le> 0 then GuestDiskMinFreeBytes else required0)
      in case de_free env dataDir of
           None \<Rightarrow> None
         | Some free \<Rightarrow>
             if free \<ge> required then None
             else Some (Errorf (''not enough free disk space to extract the guest disk: need ~'' @ formatByteSize required @ '' free, have ''
                    @ formatByteSize free @ ''. Free space on this Mac and retry'')))"

section \<open>The disk (guest\_darwin.go)\<close>

definition resolveSeedArchive :: "diskEnv \<Rightarrow> string \<Rightarrow> files \<Rightarrow> string" where
  "resolveSeedArchive env dataDir fs =
     (let override = TrimSpace (de_getenv env ''CALF_GUEST_DISK_ZST'') in
      if override \<noteq> '''' \<and> fs override \<noteq> None then override
      else
        let candidates = [filepath_Join dataDir ''disk.raw.zst'', filepath_Join dataDir (guestDiskAssetName env)]
              @ (case de_exe env of
                   Inl _ \<Rightarrow> []
                 | Inr exe \<Rightarrow> let dir = filepath_Dir exe in
                     [filepath_Join dir ''disk.raw.zst'', joinPath [dir, ''..'', ''Resources'', ''disk.raw.zst''],
                      joinPath [dir, ''..'', ''Resources'', ''guest-disk.raw.zst'']])
        in (case find (\<lambda>p. fs p \<noteq> None) candidates of Some p \<Rightarrow> p | None \<Rightarrow> ''''))"

text \<open>The error that is wrapped in the middle of the message for a missing disk is kept as text: nothing looks for it.\<close>

definition ensureGuestDisk :: "diskEnv \<Rightarrow> decoders \<Rightarrow> Guest \<Rightarrow> files \<Rightarrow> go_error option \<times> files" where
  "ensureGuestDisk env dc g fs =
     (if fs (g_diskImage g) \<noteq> None then (None, fs)
      else case de_mkdir env (g_dataDir g) of
        Some err \<Rightarrow> (Some err, fs)
      | None \<Rightarrow>
          (case de_mkdir env (filepath_Dir (g_diskImage g)) of
             Some err \<Rightarrow> (Some err, fs)
           | None \<Rightarrow>
               let found = resolveSeedArchive env (g_dataDir g) fs in
               (case (if found = '''' then downloadGuestDisk env dc g fs else (Inr found, fs)) of
                  (Inl err, fs1) \<Rightarrow>
                    (Some (Errorf (''guest disk missing at '' @ g_diskImage g @ '' ('' @ Error err @ ''); run make guest-disk or set CALF_GUEST_DISK_URL'')), fs1)
                | (Inr seed, fs1) \<Rightarrow>
                    (case ensureHostSpaceForGuestExtract env (g_dataDir g) seed fs1 of
                       Some err \<Rightarrow> (Some err, fs1)
                     | None \<Rightarrow> extractGuestSeed env g seed fs1))))"


section \<open>The disk is whole or not there\<close>

lemma partial_neq [simp]: "partialPath p \<noteq> p" "p \<noteq> partialPath p"
  by (simp_all add: partialPath_def)

lemma writeThrough_other:
  assumes "writeThrough env dest content ce fs = (e, fs')" "p \<noteq> dest" "p \<noteq> partialPath dest"
  shows "fs' p = fs p"
  using assms by (auto simp: writeThrough_def Let_def split: option.splits)

lemma writeThrough_dest:
  assumes "writeThrough env dest content ce fs = (e, fs')"
  shows "e = None \<Longrightarrow> ce = None \<and> fs' dest = Some content" "e \<noteq> None \<Longrightarrow> fs' dest = fs dest"
  using assms by (auto simp: writeThrough_def Let_def split: option.splits)

lemma decompress_other:
  assumes "decompressZstdFile env src dest fs = (e, fs')" "p \<noteq> dest" "p \<noteq> partialPath dest"
  shows "fs' p = fs p"
  using assms writeThrough_other by (auto simp: decompressZstdFile_def split: option.splits sum.splits)

lemma decompress_dest:
  assumes "decompressZstdFile env src dest fs = (e, fs')"
  shows "e = None \<Longrightarrow> \<exists>archive raw. fs src = Some archive \<and> de_zstd env archive = Inr raw \<and> fs' dest = Some raw" "e \<noteq> None \<Longrightarrow> fs' dest = fs dest"
  using assms writeThrough_dest by (fastforce simp: decompressZstdFile_def split: option.splits sum.splits)+

lemma download_other:
  assumes "downloadFile env url dest fs = (e, fs')" "p \<noteq> dest" "p \<noteq> partialPath dest"
  shows "fs' p = fs p"
  using assms writeThrough_other by (auto simp: downloadFile_def split: sum.splits if_splits)

lemma download_dest:
  assumes "downloadFile env url dest fs = (None, fs')"
  shows "\<exists>body. de_get env url = Inr (200, body, None) \<and> fs' dest = Some body"
  using assms writeThrough_dest by (fastforce simp: downloadFile_def split: sum.splits if_splits)

text \<open>The paths that are written beside the disk.\<close>

definition sidePaths :: "diskEnv \<Rightarrow> Guest \<Rightarrow> string list" where
  "sidePaths env g =
     (let ps = [filepath_Join (g_dataDir g) (guestDiskAssetName env), filepath_Join (g_dataDir g) (guestEFIAssetName env), efiPath g]
      in ps @ map partialPath ps)"

lemma downloadAssets_result:
  assumes "downloadAssets env g url fs = (r, fs')" "filepath_Join (g_dataDir g) (guestDiskAssetName env) \<notin>
      {filepath_Join (g_dataDir g) (guestEFIAssetName env), partialPath (filepath_Join (g_dataDir g) (guestEFIAssetName env))}"
  shows "p \<notin> set (sidePaths env g) \<Longrightarrow> fs' p = fs p"
    "r = Inr seed \<Longrightarrow> \<exists>body. de_get env url = Inr (200, body, None) \<and> fs' seed = Some body"
proof -
  let ?dest = "filepath_Join (g_dataDir g) (guestDiskAssetName env)"
  let ?efi = "filepath_Join (g_dataDir g) (guestEFIAssetName env)"
  obtain e1 fs1 where d: "downloadFile env url ?dest fs = (e1, fs1)" by fastforce
  have "(fs' p = fs p \<or> p \<in> set (sidePaths env g)) \<and> (r = Inr seed \<longrightarrow> (\<exists>body. de_get env url = Inr (200, body, None) \<and> fs' seed = Some body))"
  proof (cases e1)
    case (Some e)
    then show ?thesis using assms(1) d download_other [OF d, of p] by (auto simp: downloadAssets_def sidePaths_def)
  next
    case None
    obtain x fs2 efiURL where x: "downloadFile env efiURL ?efi fs1 = (x, fs2)" "r = Inr ?dest" "fs' = (if x = None then fs2 else fs2(?efi := None))"
      using assms(1) d None by (auto simp: downloadAssets_def Let_def split: prod.splits option.splits)
    have "fs' ?dest = fs1 ?dest" using x(3) assms(2) download_other [OF x(1), of ?dest] by auto
    then have s: "r = Inr seed \<longrightarrow> (\<exists>body. de_get env url = Inr (200, body, None) \<and> fs' seed = Some body)"
      using x(2) download_dest [OF d [unfolded None]] by auto
    show ?thesis
    proof (cases "p \<in> set (sidePaths env g)")
      case False
      then have p: "p \<noteq> ?dest" "p \<noteq> partialPath ?dest" "p \<noteq> ?efi" "p \<noteq> partialPath ?efi" by (auto simp: sidePaths_def)
      then have "fs' p = fs p" using x(3) download_other [OF d p(1,2)] download_other [OF x(1) p(3,4)] by simp
      then show ?thesis using s by simp
    qed (use s in simp)
  qed
  then show "p \<notin> set (sidePaths env g) \<Longrightarrow> fs' p = fs p"
    "r = Inr seed \<Longrightarrow> \<exists>body. de_get env url = Inr (200, body, None) \<and> fs' seed = Some body" by auto
qed

lemma downloadGuestDisk_result:
  assumes "downloadGuestDisk env dc g fs = (r, fs')" "filepath_Join (g_dataDir g) (guestDiskAssetName env) \<notin>
      {filepath_Join (g_dataDir g) (guestEFIAssetName env), partialPath (filepath_Join (g_dataDir g) (guestEFIAssetName env))}"
  shows "p \<notin> set (sidePaths env g) \<Longrightarrow> fs' p = fs p"
    "r = Inr seed \<Longrightarrow> \<exists>url body. de_get env url = Inr (200, body, None) \<and> fs' seed = Some body"
proof -
  have "(\<exists>e. r = Inl e \<and> fs' = fs) \<or> (\<exists>url. downloadAssets env g url fs = (r, fs'))"
  proof (cases "if TrimSpace (de_getenv env ''CALF_GUEST_DISK_URL'') = '''' then resolveGuestDiskDownloadURL env dc
      else Inr (TrimSpace (de_getenv env ''CALF_GUEST_DISK_URL''))")
    case (Inl e)
    then have "downloadGuestDisk env dc g fs = (if TrimSpace (de_getenv env ''CALF_GUEST_NO_DOWNLOAD'') = ''1''
        then (Inl (Errorf ''guest disk download disabled (CALF_GUEST_NO_DOWNLOAD=1)''), fs) else (Inl e, fs))"
      by (simp add: downloadGuestDisk_def)
    then show ?thesis using assms(1) by (metis prod.inject)
  next
    case (Inr url)
    then have "downloadGuestDisk env dc g fs = (if TrimSpace (de_getenv env ''CALF_GUEST_NO_DOWNLOAD'') = ''1''
        then (Inl (Errorf ''guest disk download disabled (CALF_GUEST_NO_DOWNLOAD=1)''), fs) else downloadAssets env g url fs)"
      by (simp add: downloadGuestDisk_def)
    then show ?thesis using assms(1) by (metis prod.inject)
  qed
  then show "p \<notin> set (sidePaths env g) \<Longrightarrow> fs' p = fs p"
    "r = Inr seed \<Longrightarrow> \<exists>url body. de_get env url = Inr (200, body, None) \<and> fs' seed = Some body"
    using downloadAssets_result [OF _ assms(2)] by blast+
qed

lemma extract_result:
  assumes "extractGuestSeed env g seed fs = (e, fs')" "g_diskImage g \<notin> {efiPath g, partialPath (efiPath g)}"
  shows "e = None \<Longrightarrow> \<exists>archive raw. fs seed = Some archive \<and> de_zstd env archive = Inr raw \<and> fs' (g_diskImage g) = Some raw"
    "e \<noteq> None \<Longrightarrow> fs' (g_diskImage g) = fs (g_diskImage g)"
proof -
  obtain e1 fs1 where d: "decompressZstdFile env seed (g_diskImage g) fs = (e1, fs1)" by fastforce
  have efi: "snd (decompressZstdFile env s (efiPath g) fs1) (g_diskImage g) = fs1 (g_diskImage g)" for s
    using decompress_other [of env s "efiPath g" fs1 _ _ "g_diskImage g"] assms(2) by (metis insert_iff prod.collapse)
  have "(e = None \<longrightarrow> e1 = None) \<and> (e \<noteq> None \<longrightarrow> e1 \<noteq> None) \<and> fs' (g_diskImage g) = fs1 (g_diskImage g)"
    using assms(1) d efi by (auto simp: extractGuestSeed_def Let_def split: option.splits if_splits)
  then show "e = None \<Longrightarrow> \<exists>archive raw. fs seed = Some archive \<and> de_zstd env archive = Inr raw \<and> fs' (g_diskImage g) = Some raw"
    "e \<noteq> None \<Longrightarrow> fs' (g_diskImage g) = fs (g_diskImage g)" using decompress_dest [OF d] by auto
qed

text \<open>Where making sure of the disk ends: before anything is written, after the archive was found, or with its extraction.\<close>

lemma ensure_cases:
  assumes "ensureGuestDisk env dc g fs = (e, fs')" "fs (g_diskImage g) = None"
    "(if resolveSeedArchive env (g_dataDir g) fs = [] then downloadGuestDisk env dc g fs
      else (Inr (resolveSeedArchive env (g_dataDir g) fs), fs)) = (r, fs1)"
  obtains "e \<noteq> None" "fs' = fs" | "e \<noteq> None" "fs' = fs1" | seed where "r = Inr seed" "extractGuestSeed env g seed fs1 = (e, fs')"
proof (cases "de_mkdir env (g_dataDir g)")
  case m1: None
  show ?thesis
  proof (cases "de_mkdir env (filepath_Dir (g_diskImage g))")
    case m2: None
    show ?thesis
    proof (cases r)
      case (Inl err)
      then show ?thesis using that(2) assms m1 m2 by (auto simp: ensureGuestDisk_def)
    next
      case (Inr seed)
      have d: "ensureGuestDisk env dc g fs = (case ensureHostSpaceForGuestExtract env (g_dataDir g) seed fs1 of
          Some err \<Rightarrow> (Some err, fs1) | None \<Rightarrow> extractGuestSeed env g seed fs1)"
        using assms(2,3) m1 m2 Inr by (simp add: ensureGuestDisk_def)
      show ?thesis
      proof (cases "ensureHostSpaceForGuestExtract env (g_dataDir g) seed fs1")
        case None
        then show ?thesis using that(3) [OF Inr] d assms(1) by simp
      next
        case (Some a)
        then have "e = Some a" "fs' = fs1" using d assms(1) by simp_all
        then show ?thesis using that(2) by simp
      qed
    qed
  next
    case (Some a)
    then have "e = Some a" "fs' = fs" using assms(1,2) m1 by (simp_all add: ensureGuestDisk_def)
    then show ?thesis using that(1) by simp
  qed
next
  case (Some a)
  then have "e = Some a" "fs' = fs" using assms(1,2) by (simp_all add: ensureGuestDisk_def)
  then show ?thesis using that(1) by simp
qed

text \<open>
  C11: Making sure that the guest has a disk never leaves part of one: an existing disk is kept as it is; success means
  that the disk is the complete content of an archive that was there or was downloaded completely; and
  after a failure there is still no disk.
\<close>

theorem guest_disk_is_whole:
  assumes "ensureGuestDisk env dc g fs = (e, fs')" "g_diskImage g \<notin> set (sidePaths env g)"
    "filepath_Join (g_dataDir g) (guestDiskAssetName env) \<notin>
      {filepath_Join (g_dataDir g) (guestEFIAssetName env), partialPath (filepath_Join (g_dataDir g) (guestEFIAssetName env))}"
  shows "if fs (g_diskImage g) \<noteq> None then e = None \<and> fs' = fs
    else if e = None then \<exists>archive raw. de_zstd env archive = Inr raw \<and> fs' (g_diskImage g) = Some raw
       \<and> ((\<exists>p. fs p = Some archive) \<or> (\<exists>url. de_get env url = Inr (200, archive, None)))
    else fs' (g_diskImage g) = None"
proof (cases "fs (g_diskImage g)")
  case None
  define found where "found = resolveSeedArchive env (g_dataDir g) fs"
  obtain r fs1 where r: "(if found = '''' then downloadGuestDisk env dc g fs else (Inr found, fs)) = (r, fs1)" by fastforce
  have kept: "fs1 (g_diskImage g) = None"
    using r None downloadGuestDisk_result(1) [OF _ assms(3,2), of dc fs r fs1] by (auto split: if_splits)
  have src: "(\<exists>p. fs p = Some archive) \<or> (\<exists>url. de_get env url = Inr (200, archive, None))" if "r = Inr seed" "fs1 seed = Some archive" for seed archive
    using r that downloadGuestDisk_result(2) [OF _ assms(3), of dc fs r fs1 seed] by (auto split: if_splits)
  have ap: "g_diskImage g \<notin> {efiPath g, partialPath (efiPath g)}" using assms(2) by (auto simp: sidePaths_def)
  from ensure_cases [OF assms(1) None r [unfolded found_def]] show ?thesis
  proof cases
    case 3
    show ?thesis
    proof (cases "e = None")
      case True
      then show ?thesis using extract_result(1) [OF 3(2) ap] src [OF 3(1)] None by fastforce
    next
      case False
      then show ?thesis using extract_result(2) [OF 3(2) ap] kept None by simp
    qed
  qed (use kept None in auto)
qed (use assms(1) in \<open>simp add: ensureGuestDisk_def\<close>)


text \<open>A Mac that downloads from a given address, with a decoder that takes off a mark.\<close>

definition mac_env :: diskEnv where
  "mac_env = \<lparr>de_uname = Inr ''arm64'', de_goarch = ''arm64'', de_exe = Inl (Errorf ''no''),
     de_getenv = (\<lambda>v. if v = ''CALF_GUEST_DISK_URL'' then ''http://h/d'' else ''''),
     de_get = (\<lambda>url. if url = ''http://h/d'' then Inr (200, ''zdisk'', None) else Inl (Errorf ''404'')),
     de_zstdReader = (\<lambda>_. None), de_zstd = (\<lambda>a. case a of c # raw \<Rightarrow> if c = CHR ''z'' then Inr raw else Inl (Errorf ''bad'') | [] \<Rightarrow> Inl (Errorf ''bad'')),
     de_frameSize = (\<lambda>_. Some 4), de_free = (\<lambda>_. Some 100), de_mkdir = (\<lambda>_. None), de_create = (\<lambda>_. None), de_close = (\<lambda>_. None),
     de_rename = (\<lambda>_. None)\<rparr>"

definition no_decoders :: decoders where
  "no_decoders = \<lparr>dc_release = (\<lambda>_. Inl (Errorf '''')), dc_releases = (\<lambda>_. Inl (Errorf ''''))\<rparr>"

definition mac_guest :: Guest where
  "mac_guest = NewGuest (Inr ''/u'') ''/t'' '''' True ''vm'' ''/s'' 2 2 8 '''' 7 False \<lparr>px_HTTPProxy = '''', px_HTTPSProxy = '''', px_NoProxy = ''''\<rparr>"

lemma mac_paths:
  "g_diskImage mac_guest = ''/u/.config/calf/guest/vm/disk.raw''" "g_dataDir mac_guest = ''/u/.config/calf/guest/vm''"
  "efiPath mac_guest = ''/u/.config/calf/guest/vm/efi-store''" "guestDiskAssetName mac_env = ''calf-guest-disk-arm64.raw.zst''"
  "guestEFIAssetName mac_env = ''calf-guest-efi-arm64.zst''"
  by code_simp+


definition mac_run :: "go_error option \<times> files" where
  "mac_run = ensureGuestDisk mac_env no_decoders mac_guest (\<lambda>_. None)"

lemma mac_run_eval: "fst mac_run = None" "snd mac_run (g_diskImage mac_guest) = Some ''disk''" "snd mac_run (efiPath mac_guest) = Some ''disk''"
  by code_simp+

lemma mac_apart: "g_diskImage mac_guest \<notin> set (sidePaths mac_env mac_guest)"
  "filepath_Join (g_dataDir mac_guest) (guestDiskAssetName mac_env) \<notin>
      {filepath_Join (g_dataDir mac_guest) (guestEFIAssetName mac_env), partialPath (filepath_Join (g_dataDir mac_guest) (guestEFIAssetName mac_env))}"
  by code_simp+

theorem guest_disk_is_whole_witness:
  "fst mac_run = None \<and> (\<exists>archive raw. de_zstd mac_env archive = Inr raw \<and> snd mac_run (g_diskImage mac_guest) = Some raw)"
proof -
  have "ensureGuestDisk mac_env no_decoders mac_guest (\<lambda>_. None) = (fst mac_run, snd mac_run)" by (simp add: mac_run_def)
  from guest_disk_is_whole [OF this mac_apart] show ?thesis using mac_run_eval(1) by auto
qed

text \<open>
  The same run shows a defect.  The address of the EFI variables is made by replacing the name of the disk asset in the
  address of the disk; an address of one's own that does not contain the name stays as it is, so the disk is
  downloaded again and extracted as the store of EFI variables.
\<close>

lemma ReplaceFirst_absent: "\<not> sublist old s \<Longrightarrow> ReplaceFirst s old new = s"
  using Index_None [of s old] by (simp add: ReplaceFirst_def)

theorem disk_becomes_efi_store:
  "fst mac_run = None \<and> snd mac_run (efiPath mac_guest) = snd mac_run (g_diskImage mac_guest)"
  using mac_run_eval by simp

text \<open>
  An archive that cannot be decoded stays where it was found, so every later attempt fails in the same way and nothing is
  downloaded again.
\<close>

theorem bad_archive_blocks:
  assumes "fs (g_diskImage g) = None" "fs (partialPath (g_diskImage g)) = None" "resolveSeedArchive env (g_dataDir g) fs = seed" "seed \<noteq> ''''"
    "fs seed = Some archive" "de_zstd env archive = Inl err" "ensureGuestDisk env dc g fs = (e, fs')"
  shows "e \<noteq> None \<and> fs' = fs"
proof -
  obtain a where "writeThrough env (g_diskImage g) '''' (Some err) fs = (Some a, fs)"
    using assms(2) by (cases "de_create env (partialPath (g_diskImage g))") (simp_all add: writeThrough_def fun_upd_idem)
  then obtain b where "decompressZstdFile env seed (g_diskImage g) fs = (Some b, fs)"
    using assms(5,6) by (cases "de_zstdReader env archive") (simp_all add: decompressZstdFile_def)
  then have "extractGuestSeed env g seed fs = (Some (Wrap (''extract guest disk from '' @ seed) b), fs)" by (simp add: extractGuestSeed_def)
  note extracted = this
  have "(if resolveSeedArchive env (g_dataDir g) fs = [] then downloadGuestDisk env dc g fs
      else (Inr (resolveSeedArchive env (g_dataDir g) fs), fs)) = (Inr seed, fs)" using assms(3,4) by simp
  from ensure_cases [OF assms(7,1) this] show ?thesis by cases (use extracted in auto)
qed

end
