(* ===== verification/Calf_Krunkit.thy ===== *)
theory Calf_Krunkit
  imports Calf_Guest_Disk
begin

text \<open>
  Starting and stopping the virtual machine (\<open>internal/runtime/krunkit_darwin.go\<close>): the two processes krunkit and
  gvproxy, their PID files and sockets, and the flags of the guest.  The host is explicit as far as these are
  concerned: which processes run, which of them the daemon has started, and the files.  What happens
  while the daemon waits, which polls fit before a deadline and what the started programs do are arguments.
\<close>

section \<open>The host\<close>

record mac =
  mc_alive :: "nat list"
  mc_children :: "nat list"
  mc_nextPid :: nat
  mc_files :: files

record macEnv =
  me_getenv :: "string \<Rightarrow> string"
  me_exe :: "string result"
  me_home :: "string result"
  me_tmp :: string
  me_lookPath :: "string \<Rightarrow> string result"
  me_disk :: "Guest \<Rightarrow> files \<Rightarrow> go_error option \<times> files"
  me_mkdir :: "string \<Rightarrow> go_error option"
  me_launch :: "string \<times> string list \<times> string list \<Rightarrow> go_error option"
  me_mayKill :: "nat \<Rightarrow> bool"
  me_canRemove :: "string \<Rightarrow> bool"
  me_beat :: "mac \<Rightarrow> mac"
  me_done :: "mac \<Rightarrow> go_error option"
  me_ready :: "mac \<Rightarrow> bool"
  me_stopRounds :: nat
  me_gvRounds :: nat
  me_bootRounds :: nat

definition exists_file :: "mac \<Rightarrow> string \<Rightarrow> bool" where
  "exists_file m path \<longleftrightarrow> mc_files m path \<noteq> None"

text \<open>\<open>os.Remove\<close>, whose error the callers ignore: a file that cannot be removed stays.\<close>

definition os_Remove :: "macEnv \<Rightarrow> string \<Rightarrow> mac \<Rightarrow> mac" where
  "os_Remove env path m = (if me_canRemove env path then m\<lparr>mc_files := (mc_files m)(path := None)\<rparr> else m)"

text \<open>A signal that ends the process, if the daemon may send it.\<close>

definition kill_pid :: "macEnv \<Rightarrow> nat \<Rightarrow> mac \<Rightarrow> mac" where
  "kill_pid env pid m = (if me_mayKill env pid then m\<lparr>mc_alive := removeAll pid (mc_alive m)\<rparr> else m)"

text \<open>\<open>cmd.Start\<close> of a program with its arguments and the variables added to its environment.\<close>

definition launch :: "macEnv \<Rightarrow> string \<times> string list \<times> string list \<Rightarrow> mac \<Rightarrow> nat result \<times> mac" where
  "launch env cmd m =
     (case me_launch env cmd of
        Some err \<Rightarrow> (Inl err, m)
      | None \<Rightarrow> (Inr (mc_nextPid m), m\<lparr>mc_alive := mc_nextPid m # mc_alive m, mc_children := mc_nextPid m # mc_children m,
                  mc_nextPid := Suc (mc_nextPid m)\<rparr>))"

section \<open>The runtime\<close>

text \<open>What the start does in the guest once the engine answers; each of these is a part of its own.\<close>

datatype guestStep = PruneStale | PruneCorrupt | VirtiofsShares | GuestNetwork | EnsureBuildx | HostDockerInternal
  | ApplyProxyAsync ProxyConfig | WatchPorts nat

record Krunkit =
  kk_guest :: Guest
  kk_cmd :: "nat option"
  kk_gvproxyCmd :: "nat option"
  kk_forwardedPorts :: "int list"
  kk_watcher :: "nat option"
  kk_lives :: nat
  kk_did :: "guestStep list"

definition krunkitPidPath :: "Krunkit \<Rightarrow> string" where "krunkitPidPath k = filepath_Join (g_dataDir (kk_guest k)) ''krunkit.pid''"
definition gvproxyPidPath :: "Krunkit \<Rightarrow> string" where "gvproxyPidPath k = filepath_Join (g_dataDir (kk_guest k)) ''gvproxy.pid''"
definition gvproxySockPath :: "Krunkit \<Rightarrow> string" where "gvproxySockPath k = filepath_Join (g_dataDir (kk_guest k)) ''gvproxy.sock''"
definition gvproxyAPISockPath :: "Krunkit \<Rightarrow> string" where "gvproxyAPISockPath k = filepath_Join (g_dataDir (kk_guest k)) ''gvproxy-api.sock''"

definition resolveKrunkitBinary :: "macEnv \<Rightarrow> mac \<Rightarrow> string" where
  "resolveKrunkitBinary env m =
     (let override = TrimSpace (me_getenv env ''CALF_KRUNKIT_BIN'');
          beside = (case me_exe env of
                      Inl _ \<Rightarrow> []
                    | Inr exe \<Rightarrow> let dir = filepath_Dir exe in
                        [filepath_Join dir ''krunkit'', joinPath [dir, ''..'', ''Resources'', ''krunkit'', ''bin'', ''krunkit'']]);
          inHome = (case me_home env of Inl _ \<Rightarrow> [] | Inr h \<Rightarrow> [joinPath [h, ''.config'', ''calf'', ''krunkit'', ''bin'', ''krunkit'']])
      in if override \<noteq> '''' \<and> exists_file m override then override
         else case find (exists_file m) (beside @ inHome) of
           Some p \<Rightarrow> p
         | None \<Rightarrow> (case me_lookPath env ''krunkit'' of Inr p \<Rightarrow> p | Inl _ \<Rightarrow> ''''))"

definition resolveGvproxyBinary :: "macEnv \<Rightarrow> mac \<Rightarrow> string" where
  "resolveGvproxyBinary env m =
     (let override = TrimSpace (me_getenv env ''CALF_GVPROXY_BIN'');
          beside = (case me_exe env of Inl _ \<Rightarrow> [] | Inr exe \<Rightarrow> [filepath_Join (filepath_Dir exe) ''gvproxy''])
      in if override \<noteq> '''' \<and> exists_file m override then override
         else case find (exists_file m) beside of
           Some p \<Rightarrow> p
         | None \<Rightarrow> (case me_lookPath env ''gvproxy'' of Inr p \<Rightarrow> p | Inl _ \<Rightarrow> ''''))"

definition libkrunDirFor :: "macEnv \<Rightarrow> mac \<Rightarrow> string \<Rightarrow> string" where
  "libkrunDirFor env m krunkitBin =
     (let override = TrimSpace (me_getenv env ''CALF_LIBKRUN_DIR''); libDir = filepath_Clean (joinPath [filepath_Dir krunkitBin, ''..'', ''lib'']) in
      if override \<noteq> '''' \<and> exists_file m (filepath_Join override ''libkrun.1.dylib'') then override
      else if exists_file m (filepath_Join libDir ''libkrun.1.dylib'') then libDir else '''')"

text \<open>The PID in a file, if there is one.\<close>

definition pidIn :: "mac \<Rightarrow> string \<Rightarrow> nat option" where
  "pidIn m path =
     (case mc_files m path of
        None \<Rightarrow> None
      | Some text \<Rightarrow> (case ParseInt64 (TrimSpace text) of None \<Rightarrow> None | Some pid \<Rightarrow> if pid < 1 then None else Some (nat pid)))"

definition pidfileAlive :: "mac \<Rightarrow> string \<Rightarrow> bool" where
  "pidfileAlive m path = (case pidIn m path of None \<Rightarrow> False | Some pid \<Rightarrow> pid \<in> set (mc_alive m))"

definition krunkitAlive :: "Krunkit \<Rightarrow> mac \<Rightarrow> bool" where "krunkitAlive k m = pidfileAlive m (krunkitPidPath k)"
definition gvproxyAlive :: "Krunkit \<Rightarrow> mac \<Rightarrow> bool" where "gvproxyAlive k m = pidfileAlive m (gvproxyPidPath k)"

definition killPidfile :: "macEnv \<Rightarrow> string \<Rightarrow> mac \<Rightarrow> mac" where
  "killPidfile env path m = (case pidIn m path of None \<Rightarrow> m | Some pid \<Rightarrow> kill_pid env pid m)"

definition killChild :: "macEnv \<Rightarrow> nat option \<Rightarrow> mac \<Rightarrow> mac" where
  "killChild env cmd m = (case cmd of None \<Rightarrow> m | Some pid \<Rightarrow> kill_pid env pid m)"

definition stopGvproxy :: "macEnv \<Rightarrow> Krunkit \<Rightarrow> mac \<Rightarrow> Krunkit \<times> mac" where
  "stopGvproxy env k m =
     (let m1 = killPidfile env (gvproxyPidPath k) (killChild env (kk_gvproxyCmd k) m);
          m2 = os_Remove env (gvproxyAPISockPath k) (os_Remove env (gvproxySockPath k) (os_Remove env (gvproxyPidPath k) m1))
      in (k\<lparr>kk_gvproxyCmd := None, kk_forwardedPorts := []\<rparr>, m2))"

definition stopKrunkitStack :: "macEnv \<Rightarrow> Krunkit \<Rightarrow> mac \<Rightarrow> Krunkit \<times> mac" where
  "stopKrunkitStack env k m =
     (let m1 = os_Remove env (krunkitPidPath k) (killPidfile env (krunkitPidPath k) (killChild env (kk_cmd k) m))
      in stopGvproxy env (k\<lparr>kk_cmd := None\<rparr>) m1)"

section \<open>Stop\<close>

text \<open>The part that both stops share: cancelled watcher, closed proxies, cleared flags.\<close>

definition endLife :: "Krunkit \<Rightarrow> sockets \<Rightarrow> Krunkit \<times> sockets" where
  "endLife k s =
     (let (p, s1) = stopAll (g_localhostProxy (kk_guest k)) s
      in (k\<lparr>kk_watcher := None, kk_guest := (kk_guest k)\<lparr>g_localhostProxy := p, g_starting := False, g_started := False\<rparr>\<rparr>, s1))"

definition Krunkit_ForceStop :: "macEnv \<Rightarrow> Krunkit \<Rightarrow> sockets \<Rightarrow> mac \<Rightarrow> go_error option \<times> Krunkit \<times> sockets \<times> mac" where
  "Krunkit_ForceStop env k s m =
     (let (k1, s1) = endLife k s; (k2, m1) = stopKrunkitStack env k1 m in (None, k2, s1, os_Remove env (g_engineSocket (kk_guest k)) m1))"

definition Krunkit_Stop :: "macEnv \<Rightarrow> Krunkit \<Rightarrow> sockets \<Rightarrow> mac \<Rightarrow> go_error option \<times> Krunkit \<times> sockets \<times> mac" where
  "Krunkit_Stop env k s m =
     (if g_vmKeepAlive (kk_guest k) \<and> me_getenv env ''CALF_BENCHMARK'' \<noteq> ''1'' then (let (k1, s1) = endLife k s in (None, k1, s1, m))
      else Krunkit_ForceStop env k s m)"

section \<open>Start\<close>

text \<open>
  \<open>startGvproxy\<close>: the rounds are the polls that fit into five seconds.  A child that is no longer alive counts as
  exited.
\<close>

datatype gvWait = GvReady | GvExited | GvTimeout

fun gv_wait :: "macEnv \<Rightarrow> Krunkit \<Rightarrow> nat \<Rightarrow> nat \<Rightarrow> mac \<Rightarrow> gvWait \<times> mac" where
  "gv_wait env k pid 0 m = (GvTimeout, m)"
| "gv_wait env k pid (Suc n) m =
     (if exists_file m (gvproxySockPath k) \<and> exists_file m (gvproxyAPISockPath k) then (GvReady, m)
      else if pid \<notin> set (mc_alive m) then (GvExited, m)
      else gv_wait env k pid n (me_beat env m))"

definition gvproxyArgs :: "Krunkit \<Rightarrow> string list" where
  "gvproxyArgs k = [''-listen-vfkit'', ''unixgram://'' @ gvproxySockPath k, ''-services'', ''unix://'' @ gvproxyAPISockPath k,
     ''-pid-file'', gvproxyPidPath k, ''-mtu'', ''1500'']"

definition startGvproxy :: "macEnv \<Rightarrow> string \<Rightarrow> Krunkit \<Rightarrow> mac \<Rightarrow> go_error option \<times> Krunkit \<times> mac" where
  "startGvproxy env bin k m =
     (let m1 = os_Remove env (gvproxyAPISockPath k) (os_Remove env (gvproxyPidPath k) (os_Remove env (gvproxySockPath k) m)) in
      case launch env (bin, gvproxyArgs k, []) m1 of
        (Inl err, m2) \<Rightarrow> (Some (Wrap ''start gvproxy'' err), k, m2)
      | (Inr pid, m2) \<Rightarrow>
          let k1 = k\<lparr>kk_gvproxyCmd := Some pid\<rparr> in
          (case gv_wait env k1 pid (me_gvRounds env) m2 of
             (GvReady, m3) \<Rightarrow> (None, k1, m3)
           | (GvExited, m3) \<Rightarrow> (Some (Errorf (''gvproxy exited before creating '' @ gvproxySockPath k)), k1, m3)
           | (GvTimeout, m3) \<Rightarrow>
               if \<not> exists_file m3 (gvproxySockPath k) then
                 (case stopGvproxy env k1 m3 of (k2, m4) \<Rightarrow> (Some (Errorf (''gvproxy socket not ready at '' @ gvproxySockPath k)), k2, m4))
               else if \<not> exists_file m3 (gvproxyAPISockPath k) then
                 (case stopGvproxy env k1 m3 of (k2, m4) \<Rightarrow> (Some (Errorf (''gvproxy API socket not ready at '' @ gvproxyAPISockPath k)), k2, m4))
               else (None, k1, m3)))"

text \<open>The wait for the old processes and the wait for the engine; the context may end either.\<close>

fun wait_stopped :: "macEnv \<Rightarrow> Krunkit \<Rightarrow> nat \<Rightarrow> mac \<Rightarrow> go_error option \<times> mac" where
  "wait_stopped env k 0 m = (None, m)"
| "wait_stopped env k (Suc n) m =
     (if krunkitAlive k m \<or> gvproxyAlive k m then
        (case me_done env m of Some err \<Rightarrow> (Some err, m) | None \<Rightarrow> wait_stopped env k n (me_beat env m))
      else (None, m))"

fun waitForDockerAPI :: "macEnv \<Rightarrow> string \<Rightarrow> nat \<Rightarrow> mac \<Rightarrow> go_error option \<times> mac" where
  "waitForDockerAPI env vmName 0 m = (Some (Errorf (''docker API not ready for guest VM '' @ Quote vmName)), m)"
| "waitForDockerAPI env vmName (Suc n) m =
     (if me_ready env m then (None, m)
      else case me_done env m of Some err \<Rightarrow> (Some err, m) | None \<Rightarrow> waitForDockerAPI env vmName n (me_beat env m))"

definition resetLifecycle :: "Krunkit \<Rightarrow> Krunkit" where
  "resetLifecycle k = k\<lparr>kk_watcher := Some (kk_lives k), kk_lives := Suc (kk_lives k)\<rparr>"

text \<open>What follows when the engine answers: the same for a guest that was found and for one that was booted.\<close>

definition afterBoot :: "macEnv \<Rightarrow> Krunkit \<Rightarrow> Krunkit" where
  "afterBoot env k =
     (let g = kk_guest k in
      k\<lparr>kk_did := kk_did k @ [PruneStale, PruneCorrupt, VirtiofsShares, GuestNetwork, PruneStale, EnsureBuildx]
          @ (if me_getenv env ''CALF_BENCHMARK'' \<noteq> ''1'' then [HostDockerInternal] else [])
          @ (if g_proxy g \<noteq> \<lparr>px_HTTPProxy = '''', px_HTTPSProxy = '''', px_NoProxy = ''''\<rparr> then [ApplyProxyAsync (g_proxy g)] else [])
          @ [WatchPorts (case kk_watcher k of Some n \<Rightarrow> n | None \<Rightarrow> 0)],
        kk_guest := g\<lparr>g_started := True, g_proxyResync := True\<rparr>\<rparr>)"

definition krunkitArgs :: "macEnv \<Rightarrow> Krunkit \<Rightarrow> string list" where
  "krunkitArgs env k =
     (let g = kk_guest k; homePath = (case me_home env of Inl _ \<Rightarrow> me_tmp env | Inr h \<Rightarrow> h);
          mounts = joinPath [homePath, ''.config'', ''calf'', ''mounts''] in
      [''--cpus'', show_int (g_cpus g), ''--memory'', show_int (g_memoryGB g * 1024),
       ''--bootloader'', ''efi,variable-store='' @ efiPath g @ '',create'',
       ''--device'', ''virtio-blk,path='' @ g_diskImage g @ '',format=raw'',
       ''--device'', ''virtio-net,type=unixgram,path='' @ gvproxySockPath k @ '',mac=52:55:00:d1:55:01,offloading=on,vfkitMagic=on'',
       ''--device'', ''virtio-fs,sharedDir='' @ mounts @ '',mountTag=calf-mounts,permissionSemantics=simplified'',
       ''--device'', ''virtio-fs,sharedDir='' @ homePath @ '',mountTag=calf-home,permissionSemantics=simplified'',
       ''--device'', ''virtio-vsock,port=2375,socketURL='' @ g_engineSocket g @ '',connect'',
       ''--pidfile'', krunkitPidPath k, ''--krun-log-level'', ''2''])"

definition krunkitVars :: "macEnv \<Rightarrow> mac \<Rightarrow> string \<Rightarrow> string list" where
  "krunkitVars env m bin = (let dir = libkrunDirFor env m bin in if dir \<noteq> '''' then [''DYLD_LIBRARY_PATH='' @ dir] else [])"

text \<open>The end of a boot, once gvproxy runs.\<close>

definition bootKrunkit :: "macEnv \<Rightarrow> string \<Rightarrow> Krunkit \<Rightarrow> mac \<Rightarrow> go_error option \<times> Krunkit \<times> mac" where
  "bootKrunkit env krunkitBin k2 m4 =
     (case launch env (krunkitBin, krunkitArgs env k2, krunkitVars env m4 krunkitBin) m4 of
        (Inl err, m5) \<Rightarrow> (case stopKrunkitStack env k2 m5 of (k3, m6) \<Rightarrow> (Some (Wrap ''start krunkit'' err), k3, m6))
      | (Inr pid, m5) \<Rightarrow>
          let k3 = k2\<lparr>kk_cmd := Some pid\<rparr> in
          (case waitForDockerAPI env (g_vmName (kk_guest k3)) (me_bootRounds env) m5 of
             (Some err, m6) \<Rightarrow> (case stopKrunkitStack env k3 m6 of (k4, m7) \<Rightarrow> (Some err, k4, m7))
           | (None, m6) \<Rightarrow> (None, afterBoot env k3, m6)))"

text \<open>Booting: the old processes are stopped, gvproxy and krunkit are started, and the engine is waited for.\<close>

definition boot :: "macEnv \<Rightarrow> string \<Rightarrow> string \<Rightarrow> Krunkit \<Rightarrow> mac \<Rightarrow> go_error option \<times> Krunkit \<times> mac" where
  "boot env krunkitBin gvproxyBin k0 m0 =
     (let (k1, m1) = stopKrunkitStack env k0 m0 in
      case wait_stopped env k1 (me_stopRounds env) m1 of
        (Some err, m2) \<Rightarrow> (Some err, k1, m2)
      | (None, m2) \<Rightarrow>
          let m3 = os_Remove env (gvproxySockPath k1) (os_Remove env (g_engineSocket (kk_guest k1)) m2) in
          (case me_mkdir env (filepath_Dir (g_engineSocket (kk_guest k1))) of
             Some err \<Rightarrow> (Some err, k1, m3)
           | None \<Rightarrow>
               (case startGvproxy env gvproxyBin k1 m3 of
                  (Some err, k2, m4) \<Rightarrow> (Some err, k2, m4)
                | (None, k2, m4) \<Rightarrow> bootKrunkit env krunkitBin k2 m4)))"

text \<open>What must be there before anything is stopped or started: the programs, the disk and the directory.\<close>

definition startChecks :: "macEnv \<Rightarrow> Krunkit \<Rightarrow> mac \<Rightarrow> go_error option \<times> mac" where
  "startChecks env k m =
     (if resolveKrunkitBinary env m = '''' then
        (Some (Errorf ''krunkit not found: run make krunkit-stack, or install a release that bundles it (CALF_KRUNKIT_BIN overrides)''), m)
      else if resolveGvproxyBinary env m = '''' then
        (Some (Errorf ''gvproxy not found: brew install libkrun/krun/gvproxy, or use a release that bundles it (CALF_GVPROXY_BIN overrides)''), m)
      else case me_lookPath env ''docker'' of
        Inl _ \<Rightarrow> (Some (Errorf ''docker CLI not found: install docker CLI binary''), m)
      | Inr _ \<Rightarrow>
          (case me_disk env (kk_guest k) (mc_files m) of
             (Some err, fs) \<Rightarrow> (Some err, m\<lparr>mc_files := fs\<rparr>)
           | (None, fs) \<Rightarrow> (me_mkdir env (g_dataDir (kk_guest k)), m\<lparr>mc_files := fs\<rparr>)))"

text \<open>The flag \<open>starting\<close> is set throughout and cleared by the deferred call on every way out.\<close>

definition Krunkit_Start :: "macEnv \<Rightarrow> Krunkit \<Rightarrow> mac \<Rightarrow> go_error option \<times> Krunkit \<times> mac" where
  "Krunkit_Start env k0 m =
     (let k = k0\<lparr>kk_guest := (kk_guest k0)\<lparr>g_starting := False\<rparr>\<rparr>;
          krunkitBin = resolveKrunkitBinary env m; gvproxyBin = resolveGvproxyBinary env m in
      case startChecks env k m of
        (Some err, m1) \<Rightarrow> (Some err, k, m1)
      | (None, m1) \<Rightarrow>
          let k1 = resetLifecycle k in
          if me_ready env m1 \<and> krunkitAlive k1 m1 \<and> gvproxyAlive k1 m1 then (None, afterBoot env k1, m1)
          else boot env krunkitBin gvproxyBin k1 m1)"

section \<open>A failed start leaves nothing running\<close>

text \<open>
  While the daemon waits, processes it has started may end but not come back, and nobody else adds to them.
\<close>

definition beat_ok :: "macEnv \<Rightarrow> bool" where
  "beat_ok env \<longleftrightarrow> (\<forall>m. mc_children (me_beat env m) = mc_children m \<and> mc_nextPid m \<le> mc_nextPid (me_beat env m)
     \<and> (\<forall>p\<in>set (mc_children m). p \<in> set (mc_alive (me_beat env m)) \<longrightarrow> p \<in> set (mc_alive m)))"

definition calm :: "mac \<Rightarrow> mac \<Rightarrow> bool" where
  "calm m m' \<longleftrightarrow> mc_children m' = mc_children m \<and> mc_nextPid m \<le> mc_nextPid m'
     \<and> (\<forall>p\<in>set (mc_children m). p \<in> set (mc_alive m') \<longrightarrow> p \<in> set (mc_alive m))"

lemma calm_refl [simp]: "calm m m"
  by (simp add: calm_def)

lemma calm_trans: "calm m1 m2 \<Longrightarrow> calm m2 m3 \<Longrightarrow> calm m1 m3"
  by (auto simp: calm_def)

lemma calm_steps [simp]: "calm m (os_Remove env path m)" "calm m (kill_pid env pid m)" "calm m (m\<lparr>mc_files := fs\<rparr>)"
  by (auto simp: calm_def os_Remove_def kill_pid_def)

lemma calm_beat: "beat_ok env \<Longrightarrow> calm m (me_beat env m)"
  by (auto simp: calm_def beat_ok_def)

lemma calm_kills [simp]: "calm m (killPidfile env path m)" "calm m (killChild env cmd m)"
  by (auto simp: killPidfile_def killChild_def split: option.splits)

lemma calm_stopGvproxy: "stopGvproxy env k m = (k', m') \<Longrightarrow> calm m m'"
  unfolding stopGvproxy_def Let_def by (metis (no_types, lifting) calm_kills calm_steps(1) calm_trans prod.inject)

lemma calm_stop: "stopKrunkitStack env k m = (k', m') \<Longrightarrow> calm m m'"
  unfolding stopKrunkitStack_def Let_def by (metis (no_types, lifting) calm_kills calm_steps(1) calm_trans calm_stopGvproxy)

lemma alive_os_Remove [simp]: "mc_alive (os_Remove env path m) = mc_alive m" "mc_children (os_Remove env path m) = mc_children m"
  "mc_nextPid (os_Remove env path m) = mc_nextPid m"
  by (simp_all add: os_Remove_def)

lemma alive_kill: "set (mc_alive (killPidfile env path m)) \<subseteq> set (mc_alive m)"
  by (auto simp: killPidfile_def kill_pid_def split: option.splits if_splits)

lemma killed_child: "me_mayKill env pid \<Longrightarrow> pid \<notin> set (mc_alive (killChild env (Some pid) m))"
  by (simp add: killChild_def kill_pid_def)

lemma stop_kills_gvproxy:
  assumes "stopGvproxy env k m = (k', m')" "kk_gvproxyCmd k = Some pid" "me_mayKill env pid"
  shows "pid \<notin> set (mc_alive m')"
proof -
  have "mc_alive m' = mc_alive (killPidfile env (gvproxyPidPath k) (killChild env (Some pid) m))"
    using assms(1,2) by (auto simp: stopGvproxy_def Let_def)
  then show ?thesis using alive_kill killed_child [OF assms(3), of m] by fastforce
qed

lemma stop_kills_both:
  assumes "stopKrunkitStack env k m = (k', m')" "kk_cmd k = Some pid \<or> kk_gvproxyCmd k = Some pid" "me_mayKill env pid" "pid \<in> set (mc_children m)"
  shows "pid \<notin> set (mc_alive m')"
proof -
  define m1 where "m1 = os_Remove env (krunkitPidPath k) (killPidfile env (krunkitPidPath k) (killChild env (kk_cmd k) m))"
  have g: "stopGvproxy env (k\<lparr>kk_cmd := None\<rparr>) m1 = (k', m')" using assms(1) by (simp add: stopKrunkitStack_def m1_def)
  have c: "mc_children m1 = mc_children m" by (simp add: m1_def os_Remove_def killPidfile_def killChild_def kill_pid_def split: option.splits)
  show ?thesis
  proof (cases "kk_gvproxyCmd k = Some pid")
    case True
    then show ?thesis using stop_kills_gvproxy [OF g] assms(3) by simp
  next
    case False
    then have "kk_cmd k = Some pid" using assms(2) by simp
    then have "pid \<notin> set (mc_alive m1)" using alive_kill killed_child [OF assms(3), of m] by (fastforce simp: m1_def)
    then show ?thesis using calm_stopGvproxy [OF g] assms(4) c by (auto simp: calm_def)
  qed
qed

lemma calm_gv_wait: "beat_ok env \<Longrightarrow> gv_wait env k pid n m = (r, m') \<Longrightarrow> calm m m'"
proof (induction n arbitrary: m)
  case (Suc n)
  then show ?case using calm_beat calm_trans by (fastforce split: if_splits)
qed simp

lemma gv_wait_exited: "gv_wait env k pid n m = (GvExited, m') \<Longrightarrow> pid \<notin> set (mc_alive m')"
  by (induction n arbitrary: m) (auto split: if_splits)

lemma calm_wait_stopped: "beat_ok env \<Longrightarrow> wait_stopped env k n m = (r, m') \<Longrightarrow> calm m m'"
proof (induction n arbitrary: m)
  case (Suc n)
  then show ?case using calm_beat calm_trans by (fastforce split: if_splits option.splits)
qed simp

lemma calm_wait_api: "beat_ok env \<Longrightarrow> waitForDockerAPI env vm n m = (r, m') \<Longrightarrow> calm m m'"
proof (induction n arbitrary: m)
  case (Suc n)
  then show ?case using calm_beat calm_trans by (fastforce split: if_splits option.splits)
qed simp

lemma wait_api_ready: "waitForDockerAPI env vm n m = (None, m') \<Longrightarrow> me_ready env m'"
  by (induction n arbitrary: m) (auto split: if_splits option.splits)


text \<open>Launching, and what the first part of a boot has added.\<close>

lemma launch_cases:
  assumes "launch env cmd m = (r, m')"
  obtains (failed) err where "r = Inl err" "m' = m"
  | (running) "r = Inr (mc_nextPid m)" "mc_children m' = mc_nextPid m # mc_children m" "mc_nextPid m < mc_nextPid m'"
      "\<forall>p\<in>set (mc_children m). p \<in> set (mc_alive m') \<longrightarrow> p = mc_nextPid m \<or> p \<in> set (mc_alive m)"
  using assms by (auto simp: launch_def split: option.splits)

definition dead_new :: "mac \<Rightarrow> mac \<Rightarrow> bool" where
  "dead_new m m' \<longleftrightarrow> (\<exists>new. mc_children m' = new @ mc_children m \<and> (\<forall>p\<in>set new. p \<notin> set (mc_alive m')))"

lemma calm_dead_new: "calm m m' \<Longrightarrow> dead_new m m'"
  by (auto simp: calm_def dead_new_def)

lemma startGvproxy_result:
  assumes "beat_ok env" "\<forall>p\<ge>mc_nextPid m. me_mayKill env p" "startGvproxy env bin k m = (e, k', m')"
  shows "kk_cmd k' = kk_cmd k \<and> kk_guest k' = kk_guest k \<and> mc_nextPid m \<le> mc_nextPid m'"
    "e \<noteq> None \<Longrightarrow> dead_new m m'"
    "e = None \<Longrightarrow> \<exists>pid\<ge>mc_nextPid m. kk_gvproxyCmd k' = Some pid \<and> mc_children m' = pid # mc_children m"
proof -
  define m1 where "m1 = os_Remove env (gvproxyAPISockPath k) (os_Remove env (gvproxyPidPath k) (os_Remove env (gvproxySockPath k) m))"
  obtain r m2 where l: "launch env (bin, gvproxyArgs k, []) m1 = (r, m2)" by fastforce
  have "kk_cmd k' = kk_cmd k \<and> kk_guest k' = kk_guest k \<and> mc_nextPid m \<le> mc_nextPid m' \<and> (e \<noteq> None \<longrightarrow> dead_new m m')
      \<and> (e = None \<longrightarrow> (\<exists>pid\<ge>mc_nextPid m. kk_gvproxyCmd k' = Some pid \<and> mc_children m' = pid # mc_children m))"
    using l
  proof (cases rule: launch_cases)
    case (failed err)
    then have "e \<noteq> None" "k' = k" "m' = m1" using assms(3) l by (auto simp: startGvproxy_def m1_def [symmetric])
    moreover have "calm m m1" unfolding m1_def by (metis calm_steps(1) calm_trans)
    ultimately show ?thesis using calm_dead_new by (auto simp: calm_def)
  next
    case running
    let ?pid = "mc_nextPid m1"
    have n: "?pid = mc_nextPid m" "mc_children m1 = mc_children m" by (simp_all add: m1_def)
    define k1 where "k1 = k\<lparr>kk_gvproxyCmd := Some ?pid\<rparr>"
    obtain x m3 where w: "gv_wait env k1 ?pid (me_gvRounds env) m2 = (x, m3)" by fastforce
    have c: "calm m2 m3" using calm_gv_wait [OF assms(1) w] .
    then have ch: "mc_children m3 = ?pid # mc_children m" "mc_nextPid m \<le> mc_nextPid m3" using running n by (auto simp: calm_def)
    consider "e = None" "k' = k1" "m' = m3" | "e \<noteq> None" "k' = k1" "m' = m3" "x = GvExited" | "e \<noteq> None" "stopGvproxy env k1 m3 = (k', m')"
      using assms(3) l running(1) w unfolding startGvproxy_def Let_def m1_def [symmetric] k1_def
      by (auto split: gvWait.splits if_splits prod.splits)
    then show ?thesis
    proof cases
      case 1
      then show ?thesis using ch n by (simp add: k1_def)
    next
      case 2
      then show ?thesis using ch gv_wait_exited [of env k1 ?pid "me_gvRounds env" m2 m3] w by (auto simp: k1_def dead_new_def)
    next
      case 3
      have "?pid \<notin> set (mc_alive m')" using stop_kills_gvproxy [OF 3(2)] assms(2) n by (simp add: k1_def)
      moreover have "calm m3 m'" using calm_stopGvproxy [OF 3(2)] .
      moreover have "kk_cmd k' = kk_cmd k" "kk_guest k' = kk_guest k" using 3(2) by (auto simp: stopGvproxy_def Let_def k1_def)
      ultimately show ?thesis using ch 3(1) by (auto simp: dead_new_def calm_def)
    qed
  qed
  then show "kk_cmd k' = kk_cmd k \<and> kk_guest k' = kk_guest k \<and> mc_nextPid m \<le> mc_nextPid m'"
    "e \<noteq> None \<Longrightarrow> dead_new m m'"
    "e = None \<Longrightarrow> \<exists>pid\<ge>mc_nextPid m. kk_gvproxyCmd k' = Some pid \<and> mc_children m' = pid # mc_children m" by blast+
qed


lemma dead_new_calm:
  assumes "mc_children m1 = new @ mc_children m" "\<forall>p\<in>set new. p \<notin> set (mc_alive m1)" "calm m1 m2"
  shows "dead_new m m2"
  using assms by (auto simp: dead_new_def calm_def)

lemma calm_dead_new_trans: "calm m m1 \<Longrightarrow> dead_new m1 m2 \<Longrightarrow> dead_new m m2"
  by (simp add: calm_def dead_new_def)

lemma stop_keeps: "stopKrunkitStack env k m = (k', m') \<Longrightarrow> kk_guest k' = kk_guest k \<and> kk_watcher k' = kk_watcher k \<and> kk_cmd k' = None"
  by (auto simp: stopKrunkitStack_def stopGvproxy_def Let_def)

text \<open>What a successful boot has started: krunkit after gvproxy, both known to the runtime.\<close>

definition booted :: "macEnv \<Rightarrow> Krunkit \<Rightarrow> mac \<Rightarrow> mac \<Rightarrow> bool" where
  "booted env k m m' \<longleftrightarrow> me_ready env m' \<and> g_started (kk_guest k)
     \<and> (\<exists>a b. kk_cmd k = Some a \<and> kk_gvproxyCmd k = Some b \<and> mc_children m' = [a, b] @ mc_children m)"

lemma afterBoot_simps [simp]:
  "kk_cmd (afterBoot env k) = kk_cmd k" "kk_gvproxyCmd (afterBoot env k) = kk_gvproxyCmd k" "kk_watcher (afterBoot env k) = kk_watcher k"
  "g_started (kk_guest (afterBoot env k))" "g_starting (kk_guest (afterBoot env k)) = g_starting (kk_guest k)"
  by (simp_all add: afterBoot_def Let_def)

lemma bootKrunkit_result:
  assumes "beat_ok env" "\<forall>p\<ge>mc_nextPid m. me_mayKill env p" "kk_gvproxyCmd k = Some b" "mc_nextPid m \<le> b" "mc_nextPid m \<le> mc_nextPid m4"
    "mc_children m4 = b # mc_children m" "bootKrunkit env bin k m4 = (e, k', m')"
  shows "if e = None then booted env k' m m' else dead_new m m'"
proof -
  obtain r m5 where l: "launch env (bin, krunkitArgs env k, krunkitVars env m4 bin) m4 = (r, m5)" by fastforce
  have kb: "me_mayKill env b" using assms(2,4) by blast
  from l show ?thesis
  proof (cases rule: launch_cases)
    case (failed err)
    then obtain k3 m6 where s: "stopKrunkitStack env k m4 = (k3, m6)" "e \<noteq> None" "m' = m6"
      using assms(7) l by (auto simp: bootKrunkit_def split: prod.splits)
    have "b \<notin> set (mc_alive m6)" using stop_kills_both [OF s(1) _ kb] assms(3,6) by simp
    then show ?thesis using calm_stop [OF s(1)] assms(6) s(2,3) by (auto simp: dead_new_def calm_def)
  next
    case running
    let ?a = "mc_nextPid m4"
    define k3 where "k3 = k\<lparr>kk_cmd := Some ?a\<rparr>"
    have ka: "me_mayKill env ?a" using assms(2,5) by blast
    obtain x m6 where w: "waitForDockerAPI env (g_vmName (kk_guest k3)) (me_bootRounds env) m5 = (x, m6)" by fastforce
    have ch: "mc_children m6 = [?a, b] @ mc_children m" using calm_wait_api [OF assms(1) w] running(2) assms(6) by (simp add: calm_def)
    show ?thesis
    proof (cases x)
      case None
      then have "e = None" "k' = afterBoot env k3" "m' = m6" using assms(7) l running(1) w by (auto simp: bootKrunkit_def k3_def)
      then show ?thesis using wait_api_ready [OF w [unfolded None]] ch assms(3) by (simp add: booted_def k3_def)
    next
      case (Some err)
      then obtain k4 m7 where s: "stopKrunkitStack env k3 m6 = (k4, m7)" "e \<noteq> None" "m' = m7"
        using assms(7) l running(1) w by (auto simp: bootKrunkit_def k3_def split: prod.splits)
      have "?a \<notin> set (mc_alive m7)" "b \<notin> set (mc_alive m7)"
        using stop_kills_both [OF s(1) _ ka] stop_kills_both [OF s(1) _ kb] assms(3) ch by (simp_all add: k3_def)
      then show ?thesis using calm_stop [OF s(1)] ch s(2,3) by (auto simp: dead_new_def calm_def)
    qed
  qed
qed

lemma boot_result:
  assumes "beat_ok env" "\<forall>p\<ge>mc_nextPid m. me_mayKill env p" "boot env bin gbin k m = (e, k', m')"
  shows "if e = None then booted env k' m m' else dead_new m m'"
proof -
  obtain k1 m1 where s: "stopKrunkitStack env k m = (k1, m1)" by fastforce
  obtain x m2 where w: "wait_stopped env k1 (me_stopRounds env) m1 = (x, m2)" by fastforce
  define m3 where "m3 = os_Remove env (gvproxySockPath k1) (os_Remove env (g_engineSocket (kk_guest k1)) m2)"
  obtain y k2 m4 where g: "startGvproxy env gbin k1 m3 = (y, k2, m4)" by (metis surj_pair)
  have c2: "calm m m2" using calm_stop [OF s] calm_wait_stopped [OF assms(1) w] calm_trans by blast
  then have c3: "calm m m3" unfolding m3_def using calm_steps(1) calm_trans by blast
  have may: "\<forall>p\<ge>mc_nextPid m3. me_mayKill env p" using assms(2) c3 by (auto simp: calm_def)
  consider "e \<noteq> None" "m' = m2" | "e \<noteq> None" "m' = m3" | "e \<noteq> None" "y \<noteq> None" "m' = m4" | "y = None" "bootKrunkit env bin k2 m4 = (e, k', m')"
    using assms(3) s w g unfolding boot_def Let_def by (auto simp: m3_def [symmetric] split: option.splits) metis
  then show ?thesis
  proof cases
    case 3
    then show ?thesis using startGvproxy_result(2) [OF assms(1) may g] calm_dead_new_trans [OF c3] by auto
  next
    case 4
    obtain b where b: "b \<ge> mc_nextPid m3" "kk_gvproxyCmd k2 = Some b" "mc_children m4 = b # mc_children m3"
      using startGvproxy_result(3) [OF assms(1) may g] 4(1) by blast
    have n: "mc_nextPid m3 \<le> mc_nextPid m4" using startGvproxy_result(1) [OF assms(1) may g] by simp
    have "mc_children m3 = mc_children m" "mc_nextPid m \<le> mc_nextPid m3" using c3 by (simp_all add: calm_def)
    then show ?thesis using bootKrunkit_result [OF assms(1,2) b(2) _ _ _ 4(2)] b n by simp
  qed (use c2 c3 calm_dead_new in auto)
qed


lemma startChecks_calm: "startChecks env k m = (r, m1) \<Longrightarrow> calm m m1"
  by (auto simp: startChecks_def split: if_splits sum.splits prod.splits option.splits)

text \<open>
  C6: Starting the virtual machine is all or nothing.  On success the engine answers, the runtime counts as started, and
  either nothing was launched because everything ran already, or gvproxy and then krunkit were launched and
  are known to the runtime.  After an error none of the processes that the start has launched is alive.
\<close>

theorem start_is_all_or_nothing:
  assumes "beat_ok env" "\<forall>p\<ge>mc_nextPid m. me_mayKill env p" "Krunkit_Start env k m = (e, k', m')"
  shows "if e = None then booted env k' m m' \<or> me_ready env m' \<and> g_started (kk_guest k') \<and> mc_children m' = mc_children m
    else \<exists>new. mc_children m' = new @ mc_children m \<and> (\<forall>p\<in>set new. p \<notin> set (mc_alive m'))"
proof -
  define k0 where "k0 = k\<lparr>kk_guest := (kk_guest k)\<lparr>g_starting := False\<rparr>\<rparr>"
  obtain r m1 where r: "startChecks env k0 m = (r, m1)" by fastforce
  have c: "calm m m1" using startChecks_calm [OF r] .
  then have may: "\<forall>p\<ge>mc_nextPid m1. me_mayKill env p" and ch: "mc_children m1 = mc_children m" using assms(2) by (auto simp: calm_def)
  define up where "up \<longleftrightarrow> me_ready env m1 \<and> krunkitAlive (resetLifecycle k0) m1 \<and> gvproxyAlive (resetLifecycle k0) m1"
  have st: "Krunkit_Start env k m = (case r of Some err \<Rightarrow> (Some err, k0, m1) | None \<Rightarrow>
      if up then (None, afterBoot env (resetLifecycle k0), m1)
      else boot env (resolveKrunkitBinary env m) (resolveGvproxyBinary env m) (resetLifecycle k0) m1)"
    by (simp add: Krunkit_Start_def Let_def k0_def [symmetric] up_def r split: option.splits)
  show ?thesis
  proof (cases "r = None \<and> \<not> up")
    case True
    then have "boot env (resolveKrunkitBinary env m) (resolveGvproxyBinary env m) (resetLifecycle k0) m1 = (e, k', m')"
      using st assms(3) by simp
    from boot_result [OF assms(1) may this] show ?thesis using ch by (auto simp: booted_def dead_new_def split: if_splits)
  next
    case False
    then show ?thesis using st assms(3) calm_dead_new [OF c] ch by (cases r) (auto simp: dead_new_def up_def)
  qed
qed

text \<open>A Mac on which the programs are found and the sockets appear while the daemon waits.\<close>

definition boot_env :: macEnv where
  "boot_env = \<lparr>me_getenv = (\<lambda>_. ''''), me_exe = Inl (Errorf ''no''), me_home = Inr ''/u'', me_tmp = ''/t'', me_lookPath = (\<lambda>p. Inr p),
     me_disk = (\<lambda>_ fs. (None, fs)), me_mkdir = (\<lambda>_. None), me_launch = (\<lambda>_. None), me_mayKill = (\<lambda>_. True), me_canRemove = (\<lambda>_. True),
     me_beat = (\<lambda>m. m\<lparr>mc_files := (\<lambda>_. Some ''x'')\<rparr>), me_done = (\<lambda>_. None), me_ready = (\<lambda>m. length (mc_alive m) = 2),
     me_stopRounds = 1, me_gvRounds = 2, me_bootRounds = 1\<rparr>"

definition new_krunkit :: Krunkit where
  "new_krunkit = \<lparr>kk_guest = mac_guest, kk_cmd = None, kk_gvproxyCmd = None, kk_forwardedPorts = [], kk_watcher = None, kk_lives = 0, kk_did = []\<rparr>"

definition cold_mac :: mac where
  "cold_mac = \<lparr>mc_alive = [], mc_children = [], mc_nextPid = 5, mc_files = (\<lambda>_. None)\<rparr>"

definition boot_run :: "go_error option \<times> Krunkit \<times> mac" where
  "boot_run = Krunkit_Start boot_env new_krunkit cold_mac"

lemma boot_run_eval: "fst boot_run = None" "mc_children (snd (snd boot_run)) = [6, 5]"
  by code_simp+

theorem start_is_all_or_nothing_witness: "booted boot_env (fst (snd boot_run)) cold_mac (snd (snd boot_run))"
proof -
  have "Krunkit_Start boot_env new_krunkit cold_mac = (fst boot_run, fst (snd boot_run), snd (snd boot_run))" by (simp add: boot_run_def)
  moreover have "beat_ok boot_env" "\<forall>p\<ge>mc_nextPid cold_mac. me_mayKill boot_env p" by (simp_all add: beat_ok_def boot_env_def)
  ultimately have "booted boot_env (fst (snd boot_run)) cold_mac (snd (snd boot_run)) \<or> mc_children (snd (snd boot_run)) = mc_children cold_mac"
    using start_is_all_or_nothing [of boot_env cold_mac new_krunkit "fst boot_run" "fst (snd boot_run)" "snd (snd boot_run)"] boot_run_eval(1)
    by auto
  then show ?thesis using boot_run_eval(2) by (simp add: cold_mac_def)
qed

section \<open>Stopping\<close>

lemma files_os_Remove [simp]: "mc_files (os_Remove env path m) = (if me_canRemove env path then (mc_files m)(path := None) else mc_files m)"
  by (simp add: os_Remove_def)

lemma files_kill [simp]: "mc_files (killPidfile env path m) = mc_files m" "mc_files (killChild env cmd m) = mc_files m"
  by (simp_all add: killPidfile_def killChild_def kill_pid_def split: option.splits)

lemma stop_removes_files:
  assumes "stopKrunkitStack env k m = (k', m')"
  shows "mc_files m' path = (if path \<in> {krunkitPidPath k, gvproxyPidPath k, gvproxySockPath k, gvproxyAPISockPath k} \<and> me_canRemove env path
    then None else mc_files m path)"
  using assms by (auto simp: stopKrunkitStack_def stopGvproxy_def Let_def krunkitPidPath_def gvproxyPidPath_def gvproxySockPath_def gvproxyAPISockPath_def)

lemma stop_fields:
  assumes "stopKrunkitStack env k m = (k', m')"
  shows "k' = k\<lparr>kk_cmd := None, kk_gvproxyCmd := None, kk_forwardedPorts := []\<rparr>"
  using assms by (auto simp: stopKrunkitStack_def stopGvproxy_def Let_def)

lemma stopped_not_alive:
  assumes "stopKrunkitStack env k m = (k', m')" "me_canRemove env (krunkitPidPath k)" "me_canRemove env (gvproxyPidPath k)"
  shows "\<not> krunkitAlive k' m'" "\<not> gvproxyAlive k' m'"
proof -
  have "krunkitPidPath k' = krunkitPidPath k" "gvproxyPidPath k' = gvproxyPidPath k"
    using stop_fields [OF assms(1)] by (simp_all add: krunkitPidPath_def gvproxyPidPath_def)
  then show "\<not> krunkitAlive k' m'" "\<not> gvproxyAlive k' m'"
    using stop_removes_files [OF assms(1)] assms(2,3) by (simp_all add: krunkitAlive_def gvproxyAlive_def pidfileAlive_def pidIn_def)
qed

text \<open>The two PID files are different files: a joined path ends with the name that was joined.\<close>

lemma Join_ends:
  assumes "plain_seg n"
  shows "\<exists>pre. filepath_Join d n = pre @ n"
proof -
  have n: "Split n (CHR ''/'') = [n]" using assms by (simp add: plain_seg_def Split_plain)
  have j: "\<exists>pre. Join (xs @ [n]) sep = pre @ n" for xs sep
    by (cases "xs = []") (simp_all add: Join_snoc)
  show ?thesis
  proof (cases "d = ''''")
    case True
    have "\<not> HasPrefix n ''/''" using assms by (auto simp: HasPrefix_def prefix_def plain_seg_def)
    then show ?thesis using clean_fold_plain [of "[n]" False] assms n j [of "[]" "''/''"] True
      by (simp add: filepath_Join_def filepath_Clean_def plain_seg_def Let_def)
  next
    case False
    have f: "fold (clean_step r) (Split (d @ CHR ''/'' # n) (CHR ''/'')) [] = n # fold (clean_step r) (Split d (CHR ''/'')) []" for r
      using clean_fold_plain [of "[n]" r "fold (clean_step r) (Split d (CHR ''/'')) []"] assms n by (simp add: Split_append_sep)
    obtain pre where "Join (rev (fold (clean_step (HasPrefix (d @ ''/'' @ n) ''/'')) (Split d (CHR ''/'')) []) @ [n]) ''/'' = pre @ n" using j by blast
    then show ?thesis using False assms unfolding filepath_Join_def filepath_Clean_def Let_def
      by (auto simp: f plain_seg_def)
  qed
qed

lemma pid_paths_differ: "krunkitPidPath k \<noteq> gvproxyPidPath k"
proof
  assume e: "krunkitPidPath k = gvproxyPidPath k"
  have "plain_seg ''krunkit.pid''" "plain_seg ''gvproxy.pid''" by code_simp+
  then obtain p q where "krunkitPidPath k = p @ ''krunkit.pid''" "gvproxyPidPath k = q @ ''gvproxy.pid''"
    using Join_ends unfolding krunkitPidPath_def gvproxyPidPath_def by metis
  then show False using e by (simp add: append_eq_append_conv)
qed

text \<open>Who is killed: the two children and the processes that the PID files name.\<close>

definition stop_targets :: "Krunkit \<Rightarrow> mac \<Rightarrow> nat set" where
  "stop_targets k m = {pid. kk_cmd k = Some pid \<or> kk_gvproxyCmd k = Some pid
     \<or> pidIn m (krunkitPidPath k) = Some pid \<or> pidIn m (gvproxyPidPath k) = Some pid}"

lemma alive_killChild: "set (mc_alive (killChild env c m)) = set (mc_alive m) - {pid. c = Some pid \<and> me_mayKill env pid}"
  by (auto simp: killChild_def kill_pid_def split: option.splits)

lemma alive_killPidfile: "set (mc_alive (killPidfile env path m)) = set (mc_alive m) - {pid. pidIn m path = Some pid \<and> me_mayKill env pid}"
  by (auto simp: killPidfile_def kill_pid_def split: option.splits)

lemma pidIn_steps [simp]: "pidIn (killChild env c m) path = pidIn m path" "pidIn (killPidfile env p m) path = pidIn m path"
  "p \<noteq> path \<Longrightarrow> pidIn (os_Remove env p m) path = pidIn m path"
  by (simp_all add: pidIn_def)

lemma stop_kills_exactly:
  assumes "stopKrunkitStack env k m = (k', m')"
  shows "set (mc_alive m') = set (mc_alive m) - {pid \<in> stop_targets k m. me_mayKill env pid}"
proof -
  define m1 where "m1 = os_Remove env (krunkitPidPath k) (killPidfile env (krunkitPidPath k) (killChild env (kk_cmd k) m))"
  have "stopGvproxy env (k\<lparr>kk_cmd := None\<rparr>) m1 = (k', m')" using assms by (simp add: stopKrunkitStack_def m1_def)
  then have a: "mc_alive m' = mc_alive (killPidfile env (gvproxyPidPath k) (killChild env (kk_gvproxyCmd k) m1))"
    by (auto simp: stopGvproxy_def Let_def gvproxyPidPath_def)
  have "pidIn m1 (gvproxyPidPath k) = pidIn m (gvproxyPidPath k)" using pid_paths_differ by (simp add: m1_def)
  moreover have "set (mc_alive m1) = set (mc_alive m) - {pid. kk_cmd k = Some pid \<and> me_mayKill env pid}
      - {pid. pidIn m (krunkitPidPath k) = Some pid \<and> me_mayKill env pid}"
    by (simp add: m1_def alive_killChild alive_killPidfile)
  ultimately show ?thesis unfolding a by (auto simp: alive_killChild alive_killPidfile stop_targets_def)
qed

text \<open>
  C30: What a forced stop leaves behind, after any run of the daemon. It returns no error. The processes that have ended are exactly
  those it may kill among the two it started and the two that the PID files name; every other process still runs. The
  two PID files and three sockets are gone, save those that cannot be removed, whose errors are ignored, and no other file has changed. Of the
  localhost proxies only sockets are still open whose accept loop had failed before. No watcher runs, no child and no forward is
  tracked, and the runtime counts as stopped.
\<close>

theorem forced_stop_ends_everything:
  assumes "Krunkit_ForceStop env k s m = (e, k', s', m')" "proxies_reach (g_localhostProxy (kk_guest k)) s"
  shows "e = None
    \<and> set (mc_alive m') = {pid \<in> set (mc_alive m). \<not> (me_mayKill env pid \<and>
        (kk_cmd k = Some pid \<or> kk_gvproxyCmd k = Some pid
          \<or> pidIn m (krunkitPidPath k) = Some pid \<or> pidIn m (gvproxyPidPath k) = Some pid))}
    \<and> (\<forall>path. mc_files m' path =
        (if path \<in> {krunkitPidPath k, gvproxyPidPath k, gvproxySockPath k, gvproxyAPISockPath k, g_engineSocket (kk_guest k)}
            \<and> me_canRemove env path then None else mc_files m path))
    \<and> set (sk_open s') = {x \<in> set (sk_open s). x \<notin> set (sk_serving s)}
    \<and> kk_watcher k' = None \<and> kk_cmd k' = None \<and> kk_gvproxyCmd k' = None \<and> kk_forwardedPorts k' = []
    \<and> \<not> g_started (kk_guest k') \<and> \<not> g_starting (kk_guest k')"
proof -
  obtain k1 s1 where l: "endLife k s = (k1, s1)" by fastforce
  obtain k2 m1 where t: "stopKrunkitStack env k1 m = (k2, m1)" by fastforce
  have r: "e = None" "k' = k2" "s' = s1" "m' = os_Remove env (g_engineSocket (kk_guest k)) m1"
    using assms(1) l t by (auto simp: Krunkit_ForceStop_def)
  have k1: "kk_cmd k1 = kk_cmd k" "kk_gvproxyCmd k1 = kk_gvproxyCmd k" "kk_watcher k1 = None" "\<not> g_started (kk_guest k1)" "\<not> g_starting (kk_guest k1)"
    "krunkitPidPath k1 = krunkitPidPath k" "gvproxyPidPath k1 = gvproxyPidPath k" "gvproxySockPath k1 = gvproxySockPath k" "gvproxyAPISockPath k1 = gvproxyAPISockPath k"
    using l by (auto simp: endLife_def Let_def krunkitPidPath_def gvproxyPidPath_def gvproxySockPath_def gvproxyAPISockPath_def split: prod.splits)
  obtain q where q: "g_localhostProxy (kk_guest k) = Some q" "proxies_ok q s" "loops_ok q s" using proxies_reach_ok [OF assms(2)] by auto
  have "set (sk_open s1) = orphans s" using l q(1) force_open [OF q(2,3)] by (auto simp: endLife_def stopAll_def)
  moreover have "set (mc_alive m') = set (mc_alive m) - {pid \<in> stop_targets k m. me_mayKill env pid}"
    using stop_kills_exactly [OF t] k1 by (simp add: r(4) stop_targets_def)
  moreover have "mc_files m' path =
        (if path \<in> {krunkitPidPath k, gvproxyPidPath k, gvproxySockPath k, gvproxyAPISockPath k, g_engineSocket (kk_guest k)}
            \<and> me_canRemove env path then None else mc_files m path)" for path
  proof -
    have "mc_files m' path = (if path = g_engineSocket (kk_guest k) \<and> me_canRemove env path then None else mc_files m1 path)"
      by (auto simp: r(4))
    then show ?thesis unfolding stop_removes_files [OF t, of path] k1(6-9) by auto
  qed
  moreover have "k' = k1\<lparr>kk_cmd := None, kk_gvproxyCmd := None, kk_forwardedPorts := []\<rparr>" using stop_fields [OF t] r(2) by simp
  ultimately show ?thesis using r(1,3) k1(3-5) by (auto simp: stop_targets_def orphans_def)
qed

definition up_krunkit :: Krunkit where "up_krunkit = fst (snd boot_run)"
definition up_mac :: mac where "up_mac = snd (snd boot_run)"

lemma up_fields: "kk_cmd up_krunkit = Some 6" "kk_gvproxyCmd up_krunkit = Some 5" "mc_children up_mac = [6, 5]"
  "g_localhostProxy (kk_guest up_krunkit) = setReservedPorts [7] (newLocalhostProxies ''darwin'')"
  by code_simp+

theorem forced_stop_ends_everything_witness:
  "6 \<notin> set (mc_alive (snd (snd (snd (Krunkit_ForceStop boot_env up_krunkit fresh_sockets up_mac)))))"
proof -
  obtain e k' s' m' where x: "Krunkit_ForceStop boot_env up_krunkit fresh_sockets up_mac = (e, k', s', m')" by (metis surj_pair)
  have "proxies_reach (g_localhostProxy (kk_guest up_krunkit)) fresh_sockets"
    unfolding up_fields(4) fresh_sockets_def by (rule proxies_reach.reserve, rule proxies_reach.init)
  moreover have "me_mayKill boot_env 6" by (simp add: boot_env_def)
  ultimately show ?thesis using forced_stop_ends_everything [OF x] up_fields x by simp
qed


section \<open>Gaps\<close>

text \<open>
  The wait for the old processes looks at the PID files, which stopping them has just removed: it never waits.
\<close>

theorem stop_wait_is_vacuous:
  assumes "stopKrunkitStack env k m = (k', m')" "me_canRemove env (krunkitPidPath k)" "me_canRemove env (gvproxyPidPath k)"
  shows "wait_stopped env k' n m' = (None, m')"
  using stopped_not_alive [OF assms] by (cases n) simp_all

text \<open>
  With \<open>vm_keep_alive\<close> a stop leaves the engine running, so the next status call finds it and marks the runtime
  as started again; but the watcher that forwards ports is gone and only a start would bring it back.
\<close>

theorem keep_alive_stop_is_undone:
  assumes "g_vmKeepAlive (kk_guest k)" "me_getenv env ''CALF_BENCHMARK'' \<noteq> ''1''" "Krunkit_Stop env k s m = (e, k', s', m')"
    "ready w = (True, w1)" "Guest_Status ready (kk_guest k', w) = (Inr st, g, w2)"
  shows "e = None \<and> st_State st = RuntimeStateRunning \<and> g_started g \<and> kk_watcher k' = None"
proof -
  obtain k1 s1 where l: "endLife k s = (k1, s1)" by fastforce
  then have k: "k' = k1" "e = None" using assms(1-3) by (auto simp: Krunkit_Stop_def)
  have "\<not> g_started (kk_guest k1)" "\<not> g_starting (kk_guest k1)" "kk_watcher k1 = None"
    using l by (auto simp: endLife_def Let_def split: prod.splits)
  then show ?thesis using k assms(4,5) by (auto simp: Guest_Status_def Let_def)
qed

text \<open>
  A PID file that outlived its process names whatever process has the number now; stopping ends that one.
\<close>

theorem stale_pid_file_kills:
  assumes "pidIn m (krunkitPidPath k) = Some pid" "me_mayKill env pid" "kk_cmd k = None" "Krunkit_ForceStop env k s m = (e, k', s', m')"
  shows "pid \<notin> set (mc_alive m')"
proof -
  obtain k1 s1 where l: "endLife k s = (k1, s1)" by fastforce
  obtain k2 m2 where t: "stopKrunkitStack env k1 m = (k2, m2)" by fastforce
  have m': "mc_alive m' = mc_alive m2" using assms(4) l t by (auto simp: Krunkit_ForceStop_def)
  have k1: "kk_cmd k1 = None" "krunkitPidPath k1 = krunkitPidPath k"
    using l assms(3) by (auto simp: endLife_def Let_def krunkitPidPath_def split: prod.splits)
  define m1 where "m1 = os_Remove env (krunkitPidPath k) (killPidfile env (krunkitPidPath k) m)"
  have "stopGvproxy env (k1\<lparr>kk_cmd := None\<rparr>) m1 = (k2, m2)"
    using t k1 by (simp add: stopKrunkitStack_def killChild_def m1_def)
  then have a: "mc_alive m2 = mc_alive (killPidfile env (gvproxyPidPath k1) (killChild env (kk_gvproxyCmd k1) m1))"
    by (auto simp: stopGvproxy_def Let_def gvproxyPidPath_def)
  have "set (mc_alive (killChild env c m1)) \<subseteq> set (mc_alive m1)" for c
    by (auto simp: killChild_def kill_pid_def split: option.splits if_splits)
  moreover have "pid \<notin> set (mc_alive m1)" using assms(1,2) by (simp add: m1_def killPidfile_def kill_pid_def)
  ultimately show ?thesis using m' a alive_kill by fastforce
qed

text \<open>The configured size of the disk is used for nothing.\<close>

lemma disk_size_has_no_effect: "krunkitArgs env (k\<lparr>kk_guest := (kk_guest k)\<lparr>g_diskGB := n\<rparr>\<rparr>) = krunkitArgs env k"
  by (simp add: krunkitArgs_def Let_def efiPath_def gvproxySockPath_def krunkitPidPath_def)


section \<open>The port watcher\<close>

text \<open>
  One round of \<open>watchPortProxies\<close>: the list of containers, which also brings the localhost proxies in line, and then
  the forwards of gvproxy.  A failed listing asks for a full synchronisation next time.
\<close>

definition syncOnce ::
    "('w \<Rightarrow> bool \<times> 'w) \<Rightarrow> ('w \<Rightarrow> int) \<Rightarrow> ('w \<Rightarrow> Container list result \<times> 'w) \<Rightarrow> porthost \<Rightarrow> 'w gvClient \<Rightarrow> (string \<Rightarrow> gvproxyForward list result)
       \<Rightarrow> Krunkit \<Rightarrow> sockets \<Rightarrow> 'w \<Rightarrow> (Krunkit \<times> sockets \<times> 'w) option" where
  "syncOnce ready now list h client decode k s w =
     (case Guest_Status ready (kk_guest k, w) of
        (Inl _, g1, w1) \<Rightarrow> Some (k\<lparr>kk_guest := g1\<rparr>, s, w1)
      | (Inr st, g1, w1) \<Rightarrow>
          if st_State st \<noteq> RuntimeStateRunning \<or> \<not> g_started g1 then Some (k\<lparr>kk_guest := g1\<rparr>, s, w1)
          else case Guest_ListContainers ready now list h g1 s w1 of
            None \<Rightarrow> None
          | Some (Inl _, g2, s2, w2) \<Rightarrow> Some (k\<lparr>kk_guest := g2\<lparr>g_proxyResync := True\<rparr>\<rparr>, s2, w2)
          | Some (Inr cs, g2, s2, w2) \<Rightarrow>
              (case syncGvproxyForwards client decode (publishedTCPPorts cs) (kk_forwardedPorts k) w2 of
                 (fwd, w3) \<Rightarrow> Some (k\<lparr>kk_guest := g2, kk_forwardedPorts := fwd\<rparr>, s2, w3)))"

lemma unexpose_loop_kept: "unexpose_loop client ports xs w = (kept, w') \<Longrightarrow> set kept \<subseteq> set ports"
proof (induction xs arbitrary: w kept)
  case (Cons a xs)
  obtain e w1 where g: "gvproxyUnexpose client a w = (e, w1)" by fastforce
  show ?case
  proof (cases "a \<in> set ports")
    case True
    then obtain ks where "unexpose_loop client ports xs w = (ks, w')" "kept = a # ks" using Cons.prems by (auto split: prod.splits)
    then show ?thesis using Cons.IH [of w ks] True by simp
  next
    case False
    then show ?thesis using Cons.IH [of w1 kept] Cons.prems g by simp
  qed
qed simp

lemma expose_loop_tracked: "expose_loop client ports fwd w = (fwd', w') \<Longrightarrow> set fwd' \<subseteq> set fwd \<union> set ports"
proof (induction ports arbitrary: fwd w)
  case (Cons port ports)
  obtain e w1 where g: "gvproxyExpose client port guestIP w = (e, w1)" by fastforce
  show ?case
  proof (cases "port \<in> set fwd \<or> e \<noteq> None")
    case True
    then have "\<exists>v. expose_loop client ports fwd v = (fwd', w')" using Cons.prems g by (auto split: if_splits)
    then show ?thesis using Cons.IH by auto
  next
    case False
    then show ?thesis using Cons.IH [of "fwd @ [port]" w1] Cons.prems g by auto
  qed
qed simp

lemma sync_tracks_wanted:
  assumes "syncGvproxyForwards client decode ports fwd w = (fwd', w')"
  shows "set fwd' \<subseteq> set ports"
proof -
  obtain xs v kept v2 where "unexpose_loop client ports xs v = (kept, v2)" "expose_loop client ports kept v2 = (fwd', w')"
    using assms unfolding syncGvproxyForwards_def Let_def by (metis (no_types, lifting) prod.case_eq_if prod.collapse)
  then show ?thesis using unexpose_loop_kept expose_loop_tracked by fastforce
qed

text \<open>After a round with a listing, only published ports are tracked and the localhost proxies follow the same listing.\<close>

lemma watcher_round:
  assumes "Guest_Status ready (kk_guest k, w) = (Inr st, g1, w1)" "st_State st = RuntimeStateRunning" "g_started g1"
    "Guest_ListContainers ready now list h g1 s w1 = Some (Inr cs, g2, s2, w2)" "syncOnce ready now list h client decode k s w = Some (k', s', w')"
  shows "set (kk_forwardedPorts k') \<subseteq> set (publishedTCPPorts cs) \<and> kk_guest k' = g2 \<and> s' = s2"
proof -
  obtain fwd w3 where f: "syncGvproxyForwards client decode (publishedTCPPorts cs) (kk_forwardedPorts k) w2 = (fwd, w3)" by fastforce
  then have "k' = k\<lparr>kk_guest := g2, kk_forwardedPorts := fwd\<rparr>" "s' = s2" using assms by (auto simp: syncOnce_def)
  then show ?thesis using sync_tracks_wanted [OF f] by simp
qed
end
