(* ===== verification/Calf_Docker_Cli.thy ===== *)
theory Calf_Docker_Cli
  imports Calf_Cli Calf_Strings
begin

text \<open>
  The integration with the Docker CLI of the host (package \<open>dockercli\<close>): the context that points the CLI at calf's
  socket, and the repair of the plugins \<open>buildx\<close> and \<open>compose\<close>.  The CLI is an argument; the part of the file
  system where plugins live is a map from paths to files, links and directories.
\<close>

section \<open>Plugins (plugins.go)\<close>

datatype pluginNode = RegularFile bool | SymLink string | Directory

type_synonym nodes = "string \<Rightarrow> pluginNode option"

record pluginHost =
  pl_home :: "string result"
  pl_goos :: string
  pl_cwd :: "string result"
  pl_look :: "string \<Rightarrow> string result"
  pl_mkdir :: "string \<Rightarrow> go_error option"
  pl_canRemove :: "string \<Rightarrow> bool"
  pl_symlink :: "string \<Rightarrow> go_error option"

definition hostAbs :: "pluginHost \<Rightarrow> string \<Rightarrow> string result" where
  "hostAbs h path =
     (if filepath_IsAbs path then Inr (filepath_Clean path)
      else case pl_cwd h of Inl err \<Rightarrow> Inl err | Inr wd \<Rightarrow> Inr (filepath_Join wd path))"

text \<open>
  \<open>filepath.EvalSymlinks\<close>: the chain of links has at most 255.  The directories of the paths are taken to be no links
  themselves, so that only the last component is followed.
\<close>

fun followLinks :: "nat \<Rightarrow> nodes \<Rightarrow> string \<Rightarrow> string option" where
  "followLinks n fs path =
     (case fs path of
        None \<Rightarrow> None
      | Some (SymLink target) \<Rightarrow>
          (case n of
             0 \<Rightarrow> None
           | Suc k \<Rightarrow> followLinks k fs (if filepath_IsAbs target then target else filepath_Join (filepath_Dir path) target))
      | Some _ \<Rightarrow> Some path)"

declare followLinks.simps [simp del]

definition EvalSymlinks :: "nodes \<Rightarrow> string \<Rightarrow> string option" where "EvalSymlinks = followLinks 255"

definition pluginBuildx :: string where "pluginBuildx = ''docker-buildx''"
definition pluginCompose :: string where "pluginCompose = ''docker-compose''"

definition pluginInstallPath :: "pluginHost \<Rightarrow> string \<Rightarrow> string" where
  "pluginInstallPath h name =
     (case pl_home h of Inl _ \<Rightarrow> '''' | Inr d \<Rightarrow> filepath_Join (filepath_Join (filepath_Join d ''.docker'') ''cli-plugins'') name)"

definition pluginHealthy :: "pluginHost \<Rightarrow> nodes \<Rightarrow> string \<Rightarrow> bool" where
  "pluginHealthy h fs path \<longleftrightarrow> path \<noteq> '''' \<and>
     (case EvalSymlinks fs path of
        None \<Rightarrow> False
      | Some resolved \<Rightarrow> (case fs resolved of Some (RegularFile x) \<Rightarrow> pl_goos h = ''windows'' \<or> x | _ \<Rightarrow> False))"

definition isBrokenPluginPath :: "nodes \<Rightarrow> string \<Rightarrow> bool" where
  "isBrokenPluginPath fs path \<longleftrightarrow> path \<noteq> '''' \<and> (case fs path of Some (SymLink _) \<Rightarrow> EvalSymlinks fs path = None | _ \<Rightarrow> False)"

definition pluginCandidateDirs :: "pluginHost \<Rightarrow> string list" where
  "pluginCandidateDirs h =
     [''/opt/homebrew/lib/docker/cli-plugins'', ''/usr/local/lib/docker/cli-plugins'', ''/opt/homebrew/bin'', ''/usr/local/bin'',
      ''/usr/libexec/docker/cli-plugins'', ''/usr/lib/docker/cli-plugins'', ''/home/linuxbrew/.linuxbrew/lib/docker/cli-plugins'',
      ''/home/linuxbrew/.linuxbrew/bin'']
     @ (if pl_goos h = ''darwin''
        then [''/Applications/OrbStack.app/Contents/MacOS/xbin'', ''/Applications/Docker.app/Contents/Resources/cli-plugins''] else [])"

definition absolute :: "pluginHost \<Rightarrow> string \<Rightarrow> string" where
  "absolute h candidate = (case hostAbs h candidate of Inr p \<Rightarrow> p | Inl _ \<Rightarrow> candidate)"

definition findPluginCandidate :: "pluginHost \<Rightarrow> nodes \<Rightarrow> string \<Rightarrow> string" where
  "findPluginCandidate h fs name =
     (let onPath = (case pl_look h name of
                      Inl _ \<Rightarrow> []
                    | Inr p \<Rightarrow> (case hostAbs h p of Inl _ \<Rightarrow> [] | Inr a \<Rightarrow> [a]));
          known = map (\<lambda>dir. absolute h (filepath_Join dir name)) (pluginCandidateDirs h);
          beside = (case pl_look h ''docker'' of
                      Inl _ \<Rightarrow> []
                    | Inr d \<Rightarrow> let dir = filepath_Dir d in
                        [absolute h (filepath_Join dir name), absolute h (filepath_Join (filepath_Join dir ''cli-plugins'') name)])
      in case find (pluginHealthy h fs) (onPath @ known @ beside) of Some p \<Rightarrow> p | None \<Rightarrow> '''')"

text \<open>No operation of the file system acts on the empty path.\<close>

definition removeNode :: "pluginHost \<Rightarrow> string \<Rightarrow> nodes \<Rightarrow> nodes" where
  "removeNode h path fs = (if path \<noteq> '''' \<and> pl_canRemove h path then fs(path := None) else fs)"

text \<open>Linking fails when there is still something at the place of the link.\<close>

definition makeLink :: "pluginHost \<Rightarrow> string \<Rightarrow> string \<Rightarrow> nodes \<Rightarrow> go_error option \<times> nodes" where
  "makeLink h target path fs =
     (case pl_symlink h path of
        Some err \<Rightarrow> (Some err, fs)
      | None \<Rightarrow>
          if path = '''' then (Some (Errorf ''no such file or directory''), fs)
          else if fs path \<noteq> None then (Some (Errorf ''file exists''), fs)
          else (None, fs(path := Some (SymLink target))))"

definition ensurePlugin :: "pluginHost \<Rightarrow> string \<Rightarrow> nodes \<Rightarrow> bool result \<times> nodes" where
  "ensurePlugin h name fs =
     (let dest = pluginInstallPath h name in
      if pluginHealthy h fs dest then (Inr False, fs)
      else let candidate = findPluginCandidate h fs name in
        if candidate = '''' then (Inr False, if isBrokenPluginPath fs dest then removeNode h dest fs else fs)
        else case pl_mkdir h (filepath_Dir dest) of
          Some err \<Rightarrow> (Inl (Wrap ''create cli-plugins dir'' err), fs)
        | None \<Rightarrow>
            (case makeLink h candidate dest (removeNode h dest fs) of
               (Some err, fs1) \<Rightarrow> (Inl (Wrap (''symlink '' @ dest @ '' -> '' @ candidate) err), fs1)
             | (None, fs1) \<Rightarrow>
                 if \<not> pluginHealthy h fs1 dest
                 then (Inl (Errorf (''plugin still unusable after linking '' @ dest @ '' -> '' @ candidate)), fs1)
                 else (Inr True, fs1)))"

record PluginsStatus =
  ps_BuildxAvailable :: bool
  ps_ComposeAvailable :: bool
  ps_Hint :: string

definition pluginsHint :: "bool \<Rightarrow> bool \<Rightarrow> string" where
  "pluginsHint buildxOK composeOK =
     (if buildxOK \<and> composeOK then ''''
      else let missing = (if \<not> buildxOK then [''docker-buildx''] else []) @ (if \<not> composeOK then [''docker-compose''] else [])
        in ''Docker CLI plugins missing ('' @ Join missing '', '' @ ''). Install with: brew install '' @ Join missing '' '')"

definition ProbePlugins :: "pluginHost \<Rightarrow> nodes \<Rightarrow> PluginsStatus" where
  "ProbePlugins h fs =
     (let b = pluginHealthy h fs (pluginInstallPath h pluginBuildx); c = pluginHealthy h fs (pluginInstallPath h pluginCompose)
      in \<lparr>ps_BuildxAvailable = b, ps_ComposeAvailable = c, ps_Hint = pluginsHint b c\<rparr>)"

fun ensure_plugins_loop :: "pluginHost \<Rightarrow> string list \<Rightarrow> string list \<Rightarrow> nodes \<Rightarrow> (string list \<times> go_error option) \<times> nodes" where
  "ensure_plugins_loop h [] repaired fs = ((repaired, None), fs)"
| "ensure_plugins_loop h (name # names) repaired fs =
     (case ensurePlugin h name fs of
        (Inl err, fs1) \<Rightarrow> ((repaired, Some (Wrap (''repair '' @ name) err)), fs1)
      | (Inr did, fs1) \<Rightarrow> ensure_plugins_loop h names (if did then repaired @ [name] else repaired) fs1)"

definition EnsureCLIPlugins :: "pluginHost \<Rightarrow> nodes \<Rightarrow> (PluginsStatus \<times> string list \<times> go_error option) \<times> nodes" where
  "EnsureCLIPlugins h fs =
     (case ensure_plugins_loop h [pluginBuildx, pluginCompose] [] fs of
        ((repaired, err), fs1) \<Rightarrow> ((ProbePlugins h fs1, repaired, err), fs1))"

section \<open>The context (context.go)\<close>

definition DockerContextName :: string where "DockerContextName = ''calf''"

text \<open>
  \<open>docker\<close> runs the CLI and returns the output and the error of the process; \<open>current\<close> is the context named in
  \<open>config.json\<close>, empty when it cannot be read.
\<close>

record 'w contextEnv =
  ce_docker :: "string list \<Rightarrow> 'w \<Rightarrow> (string \<times> go_error option) \<times> 'w"
  ce_lookDocker :: bool
  ce_current :: "'w \<Rightarrow> string"
  ce_host :: pluginHost

definition contextExists :: "'w contextEnv \<Rightarrow> string \<Rightarrow> 'w \<Rightarrow> bool \<times> 'w" where
  "contextExists env name w =
     (case ce_docker env [''context'', ''inspect'', name, ''--format'', ''{{.Name}}''] w of
        ((_, Some _), w1) \<Rightarrow> (False, w1)
      | ((out, None), w1) \<Rightarrow> (TrimSpace out = name, w1))"

definition runContext :: "'w contextEnv \<Rightarrow> string \<Rightarrow> string list \<Rightarrow> 'w \<Rightarrow> go_error option \<times> 'w" where
  "runContext env what args w =
     (case ce_docker env args w of
        ((_, None), w1) \<Rightarrow> (None, w1)
      | ((out, Some err), w1) \<Rightarrow> (Some (WrapMsg what err (TrimSpace out)), w1))"

definition updateContext :: "'w contextEnv \<Rightarrow> string \<Rightarrow> 'w \<Rightarrow> go_error option \<times> 'w" where
  "updateContext env host = runContext env ''docker context update'' [''context'', ''update'', DockerContextName, ''--docker'', ''host='' @ host]"

definition EnsureContext :: "'w contextEnv \<Rightarrow> string \<Rightarrow> 'w \<Rightarrow> go_error option \<times> 'w" where
  "EnsureContext env socket w =
     (if socket = '''' then (Some (Errorf ''docker socket path is empty''), w)
      else if \<not> ce_lookDocker env then (Some (Errorf ''docker CLI not found''), w)
      else case hostAbs (ce_host env) socket of
        Inl err \<Rightarrow> (Some err, w)
      | Inr absSocket \<Rightarrow>
          let host = ''unix://'' @ absSocket in
          (case contextExists env DockerContextName w of
             (True, w1) \<Rightarrow> updateContext env host w1
           | (False, w1) \<Rightarrow>
               runContext env ''docker context create'' [''context'', ''create'', DockerContextName, ''--docker'', ''host='' @ host] w1))"

definition ActivateContext :: "'w contextEnv \<Rightarrow> 'w \<Rightarrow> go_error option \<times> 'w" where
  "ActivateContext env w =
     (if \<not> ce_lookDocker env then (Some (Errorf ''docker CLI not found''), w)
      else runContext env ''docker context use'' [''context'', ''use'', DockerContextName] w)"

definition EnsureAndActivate :: "'w contextEnv \<Rightarrow> string \<Rightarrow> 'w \<Rightarrow> go_error option \<times> 'w" where
  "EnsureAndActivate env socket w =
     (case EnsureContext env socket w of
        (Some err, w1) \<Rightarrow> (Some err, w1)
      | (None, w1) \<Rightarrow> if ce_current env w1 = DockerContextName then (None, w1) else ActivateContext env w1)"

record cliStatus =
  cs_Available :: bool
  cs_CurrentContext :: string
  cs_CalfActive :: bool
  cs_CalfExists :: bool
  cs_Managed :: bool
  cs_Socket :: string
  cs_BuildxAvailable :: bool
  cs_ComposeAvailable :: bool
  cs_PluginsHint :: string

definition StatusFor :: "'w contextEnv \<Rightarrow> string \<Rightarrow> bool \<Rightarrow> nodes \<Rightarrow> 'w \<Rightarrow> cliStatus \<times> nodes \<times> 'w" where
  "StatusFor env socket managed fs w =
     (let current = ce_current env w; ((plugins, _, _), fs1) = EnsureCLIPlugins (ce_host env) fs;
          st = \<lparr>cs_Available = False, cs_CurrentContext = current, cs_CalfActive = False, cs_CalfExists = False, cs_Managed = managed, cs_Socket = socket,
                cs_BuildxAvailable = ps_BuildxAvailable plugins, cs_ComposeAvailable = ps_ComposeAvailable plugins, cs_PluginsHint = ps_Hint plugins\<rparr>
      in if \<not> ce_lookDocker env then (st, fs1, w)
         else case contextExists env DockerContextName w of
           (ex, w1) \<Rightarrow> (st\<lparr>cs_Available := True, cs_CalfActive := (current = DockerContextName), cs_CalfExists := ex\<rparr>, fs1, w1))"

section \<open>The manager (manager.go)\<close>

definition Manager_Activate :: "'w contextEnv \<Rightarrow> string \<Rightarrow> nodes \<Rightarrow> 'w \<Rightarrow> go_error option \<times> nodes \<times> 'w" where
  "Manager_Activate env socket fs w =
     (let fs1 = snd (EnsureCLIPlugins (ce_host env) fs) in
      if socket = '''' then (None, fs1, w) else case EnsureAndActivate env socket w of (e, w1) \<Rightarrow> (e, fs1, w1))"

text \<open>One round of the loop; \<open>socketThere\<close> says whether the socket can be statted.\<close>

definition Manager_ensure :: "'w contextEnv \<Rightarrow> bool \<Rightarrow> string \<Rightarrow> bool \<Rightarrow> nodes \<Rightarrow> 'w \<Rightarrow> nodes \<times> 'w" where
  "Manager_ensure env managed socket socketThere fs w =
     (let fs1 = snd (EnsureCLIPlugins (ce_host env) fs) in
      if \<not> managed \<or> socket = '''' \<or> \<not> socketThere then (fs1, w) else (fs1, snd (EnsureAndActivate env socket w)))"


section \<open>Repairing plugins does no harm\<close>

lemma followLinks_mono: "\<lbrakk>followLinks n fs p = Some r; n \<le> m\<rbrakk> \<Longrightarrow> followLinks m fs p = Some r"
proof (induction n arbitrary: p m)
  case 0
  then show ?case by (simp add: followLinks.simps [of _ fs p] split: option.splits pluginNode.splits)
next
  case (Suc n)
  then obtain k where m: "m = Suc k" "n \<le> k" by (cases m) auto
  show ?case using Suc.prems(1) Suc.IH [OF _ m(2)] unfolding m(1)
    by (auto simp: followLinks.simps [of _ fs p] split: option.splits pluginNode.splits)
qed

text \<open>A chain that ends where no chain from \<open>d\<close> ends does not pass through \<open>d\<close>.\<close>

lemma followLinks_off:
  assumes "\<And>q. q \<noteq> d \<Longrightarrow> fs1 q = fs q"
  shows "\<lbrakk>followLinks n fs p = Some r; \<And>k. k \<le> n \<Longrightarrow> followLinks k fs d \<noteq> Some r\<rbrakk> \<Longrightarrow> followLinks n fs1 p = Some r"
proof (induction n arbitrary: p)
  case 0
  have "p \<noteq> d" using 0 by auto
  then show ?case using 0 assms by (auto simp: followLinks.simps [of _ _ p] split: option.splits pluginNode.splits)
next
  case (Suc n)
  have p: "p \<noteq> d" using Suc.prems by auto
  have IH: "followLinks n fs q = Some r \<Longrightarrow> followLinks n fs1 q = Some r" for q
    using Suc.IH [of q] Suc.prems(2) by simp
  show ?case using Suc.prems(1) IH assms [OF p]
    by (auto simp: followLinks.simps [of _ _ p] split: option.splits pluginNode.splits)
qed

lemma followLinks_end: "followLinks n fs p = Some r \<Longrightarrow> \<exists>x. fs r = Some x \<and> (\<forall>t. x \<noteq> SymLink t)"
proof (induction n arbitrary: p)
  case 0
  then show ?case by (auto simp: followLinks.simps [of _ fs p] split: option.splits pluginNode.splits)
next
  case (Suc n)
  show ?case using Suc.prems Suc.IH
    by (auto simp: followLinks.simps [of _ fs p] split: option.splits pluginNode.splits)
qed

lemma healthy_off:
  assumes bad: "\<not> pluginHealthy h fs d" "d \<noteq> ''''" and off: "\<And>q. q \<noteq> d \<Longrightarrow> fs1 q = fs q" and good: "pluginHealthy h fs p"
  shows "pluginHealthy h fs1 p"
proof -
  obtain r x where r: "followLinks 255 fs p = Some r" "fs r = Some (RegularFile x)" "pl_goos h = ''windows'' \<or> x" and p: "p \<noteq> ''''"
    using good by (auto simp: pluginHealthy_def EvalSymlinks_def split: option.splits pluginNode.splits)
  have no: "followLinks k fs d \<noteq> Some r" if "k \<le> 255" for k
    using bad r(2,3) followLinks_mono [OF _ that] by (force simp: pluginHealthy_def EvalSymlinks_def)
  have "r \<noteq> d" using no [of 0] r(2) by (auto simp: followLinks.simps [of _ fs d])
  then show ?thesis using followLinks_off [OF off r(1) no] r p off [of r] by (simp add: pluginHealthy_def EvalSymlinks_def)
qed

lemma removeNode_off [simp]: "q \<noteq> p \<Longrightarrow> removeNode h p fs q = fs q"
  by (simp add: removeNode_def)

lemma removeNode_empty [simp]: "removeNode h '''' fs = fs"
  by (simp add: removeNode_def)

lemma makeLink_cases:
  assumes "makeLink h t p fs = (e, fs1)"
  shows "(e \<noteq> None \<and> fs1 = fs) \<or> (e = None \<and> p \<noteq> '''' \<and> fs1 = fs(p := Some (SymLink t)))"
  using assms by (auto simp: makeLink_def split: option.splits if_splits)

text \<open>What one repair does to the file system.\<close>

lemma ensurePlugin_effect:
  assumes "ensurePlugin h name fs = (res, fs1)"
  defines "d \<equiv> pluginInstallPath h name"
  shows "(fs1 = fs \<or> (d \<noteq> '''' \<and> \<not> pluginHealthy h fs d \<and> (\<forall>q. q \<noteq> d \<longrightarrow> fs1 q = fs q)))
    \<and> (res = Inr True \<longrightarrow> \<not> pluginHealthy h fs d \<and> pluginHealthy h fs1 d)"
proof (cases "pluginHealthy h fs d")
  case True
  then show ?thesis using assms(1) by (auto simp: ensurePlugin_def d_def)
next
  case bad: False
  define c where "c = findPluginCandidate h fs name"
  note run = assms(1) [unfolded ensurePlugin_def Let_def, folded d_def c_def]
  show ?thesis
  proof (cases "c = '''' \<or> pl_mkdir h (filepath_Dir d) \<noteq> None")
    case True
    then show ?thesis using run bad by (auto simp: isBrokenPluginPath_def split: if_splits)
  next
    case False
    obtain e fs2 where ml: "makeLink h c d (removeNode h d fs) = (e, fs2)" by fastforce
    have res: "fs1 = fs2" "res = Inr True \<Longrightarrow> pluginHealthy h fs2 d"
      using run bad False ml by (auto split: option.splits if_splits)
    show ?thesis using makeLink_cases [OF ml] res bad by (cases "d = ''''") auto
  qed
qed

lemma ensurePlugin_keeps_healthy:
  "\<lbrakk>ensurePlugin h name fs = (res, fs1); pluginHealthy h fs p\<rbrakk> \<Longrightarrow> pluginHealthy h fs1 p \<and> fs1 p = fs p"
  using ensurePlugin_effect [of h name fs res fs1] healthy_off [of h fs "pluginInstallPath h name" fs1 p] by metis

lemma ensure_plugins_effect:
  assumes "ensure_plugins_loop h names rep fs = ((repaired, err), fs1)"
  shows "(\<forall>p. pluginHealthy h fs p \<longrightarrow> pluginHealthy h fs1 p \<and> fs1 p = fs p)
    \<and> (\<forall>p. p \<notin> pluginInstallPath h ` set names \<longrightarrow> fs1 p = fs p)
    \<and> (\<forall>n \<in> set repaired. n \<in> set rep \<or> n \<in> set names \<and> \<not> pluginHealthy h fs (pluginInstallPath h n) \<and> pluginHealthy h fs1 (pluginInstallPath h n))"
  using assms
proof (induction h names rep fs rule: ensure_plugins_loop.induct)
  case (1 h rep fs)
  then show ?case by simp
next
  case (2 h name names rep fs)
  obtain res fs2 where e: "ensurePlugin h name fs = (res, fs2)" by fastforce
  note eff = ensurePlugin_effect [OF e] and keep = ensurePlugin_keeps_healthy [OF e]
  show ?case
  proof (cases res)
    case (Inl err1)
    then show ?thesis using 2(2) e eff keep by auto
  next
    case (Inr did)
    have run: "ensure_plugins_loop h names (if did then rep @ [name] else rep) fs2 = ((repaired, err), fs1)"
      using 2(2) e Inr by simp
    note IH = 2(1) [OF e [symmetric] Inr run]
    have "did \<longrightarrow> \<not> pluginHealthy h fs (pluginInstallPath h name) \<and> pluginHealthy h fs1 (pluginInstallPath h name)"
      using eff IH Inr by blast
    then show ?thesis using IH eff keep by (auto split: if_splits)
  qed
qed

text \<open>
  C20: Repairing the plugins of the Docker CLI does no harm.  Every path that led to a working program before still does
  and is untouched, nothing but the two install paths changes, a plugin is reported as repaired only if it did not work before and works
  now, and the reported availability is that of the file system afterwards, also when a repair fails.
\<close>

theorem plugins_never_get_worse:
  assumes "EnsureCLIPlugins h fs = ((st, repaired, err), fs1)"
  shows "(pluginHealthy h fs p \<longrightarrow> pluginHealthy h fs1 p \<and> fs1 p = fs p)
    \<and> (p \<notin> {pluginInstallPath h pluginBuildx, pluginInstallPath h pluginCompose} \<longrightarrow> fs1 p = fs p)
    \<and> (name \<in> set repaired \<longrightarrow> \<not> pluginHealthy h fs (pluginInstallPath h name) \<and> pluginHealthy h fs1 (pluginInstallPath h name))
    \<and> ps_BuildxAvailable st = pluginHealthy h fs1 (pluginInstallPath h pluginBuildx)
    \<and> ps_ComposeAvailable st = pluginHealthy h fs1 (pluginInstallPath h pluginCompose)
    \<and> (ps_Hint st = '''' \<longleftrightarrow> ps_BuildxAvailable st \<and> ps_ComposeAvailable st)"
proof -
  have run: "ensure_plugins_loop h [pluginBuildx, pluginCompose] [] fs = ((repaired, err), fs1)" and st: "st = ProbePlugins h fs1"
    using assms by (auto simp: EnsureCLIPlugins_def split: prod.splits)
  note eff = ensure_plugins_effect [OF run]
  have "pluginHealthy h fs p \<longrightarrow> pluginHealthy h fs1 p \<and> fs1 p = fs p"
    and "p \<notin> {pluginInstallPath h pluginBuildx, pluginInstallPath h pluginCompose} \<longrightarrow> fs1 p = fs p"
    and "name \<in> set repaired \<longrightarrow> \<not> pluginHealthy h fs (pluginInstallPath h name) \<and> pluginHealthy h fs1 (pluginInstallPath h name)"
    using eff by auto
  then show ?thesis by (simp add: st ProbePlugins_def Let_def pluginsHint_def)
qed

definition brew :: pluginHost where
  "brew = \<lparr>pl_home = Inr ''/h'', pl_goos = ''darwin'', pl_cwd = Inr ''/'', pl_look = (\<lambda>_. Inl (Errorf ''not found'')),
     pl_mkdir = (\<lambda>_. None), pl_canRemove = (\<lambda>_. True), pl_symlink = (\<lambda>_. None)\<rparr>"

definition afterDesktop :: nodes where
  "afterDesktop = [''/h/.docker/cli-plugins/docker-buildx'' \<mapsto> SymLink ''/Applications/Docker.app/gone'',
     ''/opt/homebrew/bin/docker-buildx'' \<mapsto> SymLink ''../Cellar/buildx'', ''/opt/homebrew/Cellar/buildx'' \<mapsto> RegularFile True]"

text \<open>A dangling link of an uninstalled Docker Desktop is replaced by a link to the program of Homebrew.\<close>

theorem plugins_never_get_worse_witness:
  "fst (snd (fst (EnsureCLIPlugins brew afterDesktop))) = [''docker-buildx'']
    \<and> snd (EnsureCLIPlugins brew afterDesktop) ''/h/.docker/cli-plugins/docker-buildx'' = Some (SymLink ''/opt/homebrew/bin/docker-buildx'')
    \<and> pluginHealthy brew (snd (EnsureCLIPlugins brew afterDesktop)) (pluginInstallPath brew ''docker-buildx'')
    \<and> pluginHealthy brew (snd (EnsureCLIPlugins brew afterDesktop)) ''/opt/homebrew/bin/docker-buildx''"
proof -
  obtain st r e fs1 where run: "EnsureCLIPlugins brew afterDesktop = ((st, r, e), fs1)" by (metis surj_pair)
  have "fst (snd (fst (EnsureCLIPlugins brew afterDesktop))) = [''docker-buildx'']
    \<and> snd (EnsureCLIPlugins brew afterDesktop) ''/h/.docker/cli-plugins/docker-buildx'' = Some (SymLink ''/opt/homebrew/bin/docker-buildx'')
    \<and> pluginHealthy brew afterDesktop ''/opt/homebrew/bin/docker-buildx''"
    by code_simp
  then show ?thesis using plugins_never_get_worse [OF run, of "''/opt/homebrew/bin/docker-buildx''" "''docker-buildx''"]
    by (simp add: run)
qed


section \<open>The context points at the engine\<close>

text \<open>
  What the Docker CLI documents of its context commands, \<open>ctx\<close> being the contexts it knows with the hosts they point
  at: inspecting a context changes nothing and succeeds when there is one, \<open>create\<close> and \<open>update\<close> set the host of the
  named context, \<open>use\<close> makes an existing one current, and a command that fails changes nothing.
\<close>

definition contextCLI :: "'w contextEnv \<Rightarrow> ('w \<Rightarrow> string \<Rightarrow> string option) \<Rightarrow> bool" where
  "contextCLI env ctx \<longleftrightarrow>
     (\<forall>w out e w1. ce_docker env [''context'', ''inspect'', DockerContextName, ''--format'', ''{{.Name}}''] w = ((out, e), w1) \<longrightarrow>
        ctx w1 = ctx w \<and> ce_current env w1 = ce_current env w \<and> (e = None \<longleftrightarrow> ctx w DockerContextName \<noteq> None)
        \<and> (e = None \<longrightarrow> TrimSpace out = DockerContextName))
   \<and> (\<forall>w verb host out e w1. verb \<in> {''create'', ''update''} \<longrightarrow>
        ce_docker env [''context'', verb, DockerContextName, ''--docker'', ''host='' @ host] w = ((out, e), w1) \<longrightarrow>
        ce_current env w1 = ce_current env w \<and> (e = None \<longrightarrow> (ctx w DockerContextName = None \<longleftrightarrow> verb = ''create''))
        \<and> ctx w1 = (if e = None then (ctx w)(DockerContextName \<mapsto> host) else ctx w))
   \<and> (\<forall>w out e w1. ce_docker env [''context'', ''use'', DockerContextName] w = ((out, e), w1) \<longrightarrow>
        ctx w1 = ctx w \<and> ce_current env w1 = (if e = None then DockerContextName else ce_current env w) \<and> (e = None \<longrightarrow> ctx w DockerContextName \<noteq> None))"

lemma contextCLI_laws:
  assumes "contextCLI env ctx"
  shows "ce_docker env [''context'', ''inspect'', DockerContextName, ''--format'', ''{{.Name}}''] w = ((out, e), w1) \<Longrightarrow>
      ctx w1 = ctx w \<and> ce_current env w1 = ce_current env w \<and> (e = None \<longleftrightarrow> ctx w DockerContextName \<noteq> None) \<and> (e = None \<longrightarrow> TrimSpace out = DockerContextName)"
    and "\<lbrakk>verb \<in> {''create'', ''update''}; ce_docker env [''context'', verb, DockerContextName, ''--docker'', ''host='' @ host] w = ((out, e), w1)\<rbrakk> \<Longrightarrow>
      ce_current env w1 = ce_current env w \<and> (e = None \<longrightarrow> (ctx w DockerContextName = None \<longleftrightarrow> verb = ''create''))
      \<and> ctx w1 = (if e = None then (ctx w)(DockerContextName \<mapsto> host) else ctx w)"
    and "ce_docker env [''context'', ''use'', DockerContextName] w = ((out, e), w1) \<Longrightarrow>
      ctx w1 = ctx w \<and> ce_current env w1 = (if e = None then DockerContextName else ce_current env w) \<and> (e = None \<longrightarrow> ctx w DockerContextName \<noteq> None)"
proof -
  note laws = assms [unfolded contextCLI_def]
  note inspect = laws [THEN conjunct1] and set = laws [THEN conjunct2, THEN conjunct1] and use = laws [THEN conjunct2, THEN conjunct2]
  show "ce_docker env [''context'', ''inspect'', DockerContextName, ''--format'', ''{{.Name}}''] w = ((out, e), w1) \<Longrightarrow>
      ctx w1 = ctx w \<and> ce_current env w1 = ce_current env w \<and> (e = None \<longleftrightarrow> ctx w DockerContextName \<noteq> None) \<and> (e = None \<longrightarrow> TrimSpace out = DockerContextName)"
    by (erule inspect [THEN spec, THEN spec, THEN spec, THEN spec, THEN mp])
  show "\<lbrakk>verb \<in> {''create'', ''update''}; ce_docker env [''context'', verb, DockerContextName, ''--docker'', ''host='' @ host] w = ((out, e), w1)\<rbrakk> \<Longrightarrow>
      ce_current env w1 = ce_current env w \<and> (e = None \<longrightarrow> (ctx w DockerContextName = None \<longleftrightarrow> verb = ''create''))
      \<and> ctx w1 = (if e = None then (ctx w)(DockerContextName \<mapsto> host) else ctx w)"
    by (erule set [THEN spec, THEN spec, THEN spec, THEN spec, THEN spec, THEN spec, THEN mp, THEN mp])
  show "ce_docker env [''context'', ''use'', DockerContextName] w = ((out, e), w1) \<Longrightarrow>
      ctx w1 = ctx w \<and> ce_current env w1 = (if e = None then DockerContextName else ce_current env w) \<and> (e = None \<longrightarrow> ctx w DockerContextName \<noteq> None)"
    by (erule use [THEN spec, THEN spec, THEN spec, THEN spec, THEN mp])
qed

lemma contextExists_cli:
  assumes "contextCLI env ctx" "contextExists env DockerContextName w = (b, w1)"
  shows "ctx w1 = ctx w" "ce_current env w1 = ce_current env w" "b \<longleftrightarrow> ctx w DockerContextName \<noteq> None"
proof -
  obtain out e w2 where d: "ce_docker env [''context'', ''inspect'', DockerContextName, ''--format'', ''{{.Name}}''] w = ((out, e), w2)"
    by (metis surj_pair)
  from contextCLI_laws(1) [OF assms(1) d] show "ctx w1 = ctx w" "ce_current env w1 = ce_current env w" "b \<longleftrightarrow> ctx w DockerContextName \<noteq> None"
    using assms(2) d by (cases e; auto simp: contextExists_def)+
qed

lemma runContext_result:
  assumes "runContext env what args w = (e, w1)"
  obtains out e0 where "ce_docker env args w = ((out, e0), w1)" "e0 = None \<longleftrightarrow> e = None"
  using assms by (auto simp: runContext_def split: prod.splits option.splits)

lemma setContext_cli:
  assumes cli: "contextCLI env ctx" and verb: "verb \<in> {''create'', ''update''}"
    and run: "runContext env what [''context'', verb, DockerContextName, ''--docker'', ''host='' @ host] w = (e, w1)"
  shows "ce_current env w1 = ce_current env w" "ctx w1 = (if e = None then (ctx w)(DockerContextName \<mapsto> host) else ctx w)"
proof -
  obtain out e0 where d: "ce_docker env [''context'', verb, DockerContextName, ''--docker'', ''host='' @ host] w = ((out, e0), w1)" "e0 = None \<longleftrightarrow> e = None"
    using runContext_result [OF run] .
  show "ce_current env w1 = ce_current env w" "ctx w1 = (if e = None then (ctx w)(DockerContextName \<mapsto> host) else ctx w)"
    using contextCLI_laws(2) [OF cli verb d(1)] d(2) by auto
qed

lemma useContext_cli:
  assumes cli: "contextCLI env ctx" and run: "ActivateContext env w = (e, w1)"
  shows "ctx w1 = ctx w" "ce_current env w1 = (if e = None then DockerContextName else ce_current env w)"
proof -
  have "ctx w1 = ctx w \<and> ce_current env w1 = (if e = None then DockerContextName else ce_current env w)"
  proof (cases "ce_lookDocker env")
    case True
    then have r: "runContext env ''docker context use'' [''context'', ''use'', DockerContextName] w = (e, w1)"
      using run by (simp add: ActivateContext_def)
    obtain out e0 where d: "ce_docker env [''context'', ''use'', DockerContextName] w = ((out, e0), w1)" "e0 = None \<longleftrightarrow> e = None"
      using runContext_result [OF r] .
    show ?thesis using contextCLI_laws(3) [OF cli d(1)] d(2) by auto
  next
    case False
    then show ?thesis using run by (auto simp: ActivateContext_def)
  qed
  then show "ctx w1 = ctx w" "ce_current env w1 = (if e = None then DockerContextName else ce_current env w)" by auto
qed

lemma EnsureContext_cli:
  assumes cli: "contextCLI env ctx" and run: "EnsureContext env socket w = (e, w1)"
  shows "ce_current env w1 = ce_current env w
    \<and> (if e = None then \<exists>p. hostAbs (ce_host env) socket = Inr p \<and> ctx w1 = (ctx w)(DockerContextName \<mapsto> ''unix://'' @ p)
       else ctx w1 = ctx w)"
proof (cases "socket = '''' \<or> \<not> ce_lookDocker env")
  case True
  then have "e \<noteq> None" "w1 = w" using run unfolding EnsureContext_def by (simp_all split: if_splits) auto
  then show ?thesis by auto
next
  case False
  show ?thesis
  proof (cases "hostAbs (ce_host env) socket")
    case (Inl err)
    then show ?thesis using False run by (auto simp: EnsureContext_def)
  next
    case (Inr p)
    obtain b w2 where ex: "contextExists env DockerContextName w = (b, w2)" by fastforce
    obtain what verb where "verb \<in> {''create'', ''update''}"
      and "runContext env what [''context'', verb, DockerContextName, ''--docker'', ''host='' @ ''unix://'' @ p] w2 = (e, w1)"
      using run False Inr ex by (cases b) (auto simp: EnsureContext_def Let_def updateContext_def)
    from setContext_cli [OF cli this] contextExists_cli [OF cli ex] show ?thesis using Inr by simp
  qed
qed

text \<open>
  C24: When \<open>EnsureAndActivate\<close> succeeds, the Docker CLI's context named calf points at the absolute path of the
  engine's socket and is the current one; when it fails, the context in use stays what it was.  In both cases no other
  context is changed.
\<close>

theorem context_points_at_engine:
  assumes "contextCLI env ctx" "EnsureAndActivate env socket w = (e, w1)"
  shows "(\<forall>name. name \<noteq> DockerContextName \<longrightarrow> ctx w1 name = ctx w name)
    \<and> (if e = None
       then (\<exists>p. hostAbs (ce_host env) socket = Inr p \<and> ctx w1 DockerContextName = Some (''unix://'' @ p))
         \<and> ce_current env w1 = DockerContextName
       else ce_current env w1 = ce_current env w)"
proof -
  obtain e2 w2 where ens: "EnsureContext env socket w = (e2, w2)" by fastforce
  note eff = EnsureContext_cli [OF assms(1) ens]
  show ?thesis
  proof (cases "e2 = None \<and> ce_current env w2 \<noteq> DockerContextName")
    case True
    then have "ActivateContext env w2 = (e, w1)" using assms(2) ens by (simp add: EnsureAndActivate_def)
    from useContext_cli [OF assms(1) this] show ?thesis using eff True by auto
  next
    case False
    then have "e = e2" "w1 = w2" using assms(2) ens by (auto simp: EnsureAndActivate_def split: option.splits)
    then show ?thesis using eff False by auto
  qed
qed


text \<open>A Docker CLI with a table of contexts and the name of the current one.\<close>

definition tableCLI :: "string list \<Rightarrow> (string \<Rightarrow> string option) \<times> string \<Rightarrow> (string \<times> go_error option) \<times> ((string \<Rightarrow> string option) \<times> string)" where
  "tableCLI args w =
     (let no = ((''no such context'', Some (Errorf ''exit status 1'')), w) in
      if length args = 5 \<and> args ! 1 = ''inspect''
      then (if fst w (args ! 2) = None then no else ((args ! 2, None), w))
      else if length args = 5 \<and> args ! 1 = ''create''
      then (if fst w (args ! 2) \<noteq> None then no else (('''', None), ((fst w)(args ! 2 \<mapsto> drop 5 (args ! 4)), snd w)))
      else if length args = 5 \<and> args ! 1 = ''update''
      then (if fst w (args ! 2) = None then no else (('''', None), ((fst w)(args ! 2 \<mapsto> drop 5 (args ! 4)), snd w)))
      else if length args = 3 \<and> args ! 1 = ''use''
      then (if fst w (args ! 2) = None then no else (('''', None), (fst w, args ! 2)))
      else no)"

definition tableEnv :: "((string \<Rightarrow> string option) \<times> string) contextEnv" where
  "tableEnv = \<lparr>ce_docker = tableCLI, ce_lookDocker = True, ce_current = snd, ce_host = brew\<rparr>"


lemma tableCLI_contexts: "contextCLI tableEnv fst"
proof -
  have trim: "TrimSpace DockerContextName = DockerContextName" by code_simp
  have inspect: "tableCLI [''context'', ''inspect'', n, ''--format'', f] w =
      (if fst w n = None then ((''no such context'', Some (Errorf ''exit status 1'')), w) else ((n, None), w))" for n f w
    by (simp add: tableCLI_def Let_def)
  have create: "tableCLI [''context'', ''create'', n, ''--docker'', ''host='' @ h] w =
      (if fst w n = None then (('''', None), ((fst w)(n \<mapsto> h), snd w))
       else ((''no such context'', Some (Errorf ''exit status 1'')), w))" for n h w
    by (simp add: tableCLI_def Let_def)
  have update: "tableCLI [''context'', ''update'', n, ''--docker'', ''host='' @ h] w =
      (if fst w n = None then ((''no such context'', Some (Errorf ''exit status 1'')), w)
       else (('''', None), ((fst w)(n \<mapsto> h), snd w)))" for n h w
    by (simp add: tableCLI_def Let_def)
  have use: "tableCLI [''context'', ''use'', n] w =
      (if fst w n = None then ((''no such context'', Some (Errorf ''exit status 1'')), w) else (('''', None), (fst w, n)))" for n w
    by (simp add: tableCLI_def Let_def)
  show ?thesis unfolding contextCLI_def tableEnv_def contextEnv.simps
    by (intro conjI allI impI; (elim insertE emptyE)?)
      (auto simp: inspect use create [simplified] update [simplified] trim split: if_splits)
qed

definition desktopContexts :: "(string \<Rightarrow> string option) \<times> string" where
  "desktopContexts = ([''desktop-linux'' \<mapsto> ''unix:///d.sock'', ''calf'' \<mapsto> ''unix:///old.sock''], ''desktop-linux'')"

theorem context_points_at_engine_witness:
  "case EnsureAndActivate tableEnv ''run/calf.sock'' desktopContexts of
     (e, w1) \<Rightarrow> e = None \<and> fst w1 ''calf'' = Some ''unix:///run/calf.sock'' \<and> snd w1 = ''calf''
       \<and> fst w1 ''desktop-linux'' = Some ''unix:///d.sock''"
proof -
  obtain e w1 where run: "EnsureAndActivate tableEnv ''run/calf.sock'' desktopContexts = (e, w1)" by (rule prod.exhaust)
  have "fst (EnsureAndActivate tableEnv ''run/calf.sock'' desktopContexts) = None" by code_simp
  then have e: "e = None" by (simp add: run)
  have p: "hostAbs brew ''run/calf.sock'' = Inr ''/run/calf.sock''" by code_simp
  have "ce_host tableEnv = brew" "ce_current tableEnv = snd" by (simp_all add: tableEnv_def)
  then show ?thesis unfolding run using context_points_at_engine [OF tableCLI_contexts run] e p
    by (simp add: DockerContextName_def desktopContexts_def)
qed

end
