(* ===== verification/Calf_Native.thy ===== *)
theory Calf_Native
  imports Calf_Build_Enrich Calf_Details Calf_Login Calf_Docker_Proxy Calf_Guest
begin

text \<open>
  The Linux runtime that talks to the engine of the host (\<open>runtime/native.go\<close>): which socket it uses and whether that
  is a rootless one (\<open>runtime/rootless.go\<close>), the environment its commands run in, starting and the status; and the
  builds of both backends (\<open>runtime/buildx.go\<close> and \<open>runBuild\<close> of \<open>runtime/nerdctl.go\<close>).  The host (environment, home directory,
  file system and processes) is an argument.
\<close>

section \<open>Environments (rootless.go)\<close>

text \<open>An environment is a list of entries \<open>key=value\<close>.\<close>

fun setEnvVar :: "string list \<Rightarrow> string \<Rightarrow> string \<Rightarrow> string list" where
  "setEnvVar [] key value = [key @ ''='' @ value]"
| "setEnvVar (e # env) key value =
     (if HasPrefix e (key @ ''='') then (key @ ''='' @ value) # env else e # setEnvVar env key value)"

definition dockerHostEnvFrom :: "string list \<Rightarrow> string \<Rightarrow> string list" where
  "dockerHostEnvFrom env socket = setEnvVar env ''DOCKER_HOST'' (''unix://'' @ socket)"

definition dockerGuestEngineEnvFrom :: "string list \<Rightarrow> string \<Rightarrow> string list" where
  "dockerGuestEngineEnvFrom env socket = setEnvVar (dockerHostEnvFrom env socket) ''DOCKER_API_VERSION'' GuestDockerAPIVersion"

definition proxyEnvFrom :: "string list \<Rightarrow> ProxyConfig \<Rightarrow> string list" where
  "proxyEnvFrom env proxy =
     fold (\<lambda>(key, value) env. setEnvVar env key value)
       [(''HTTP_PROXY'', px_HTTPProxy proxy), (''HTTPS_PROXY'', px_HTTPSProxy proxy), (''NO_PROXY'', px_NoProxy proxy),
        (''http_proxy'', px_HTTPProxy proxy), (''https_proxy'', px_HTTPSProxy proxy), (''no_proxy'', px_NoProxy proxy)] env"

section \<open>Sockets (rootless.go)\<close>

text \<open>\<open>stat\<close> tells whether a path is a directory; it is undefined when there is nothing.\<close>

record linuxHost =
  lh_environ :: "string list"
  lh_XDG :: string
  lh_home :: "string result"
  lh_stat :: "string \<Rightarrow> bool option"

definition rootlessDockerSocketCandidates :: "linuxHost \<Rightarrow> string list" where
  "rootlessDockerSocketCandidates h =
     (if lh_XDG h \<noteq> '''' then [filepath_Join (lh_XDG h) ''docker.sock''] else [])
     @ (case lh_home h of
          Inl _ \<Rightarrow> []
        | Inr d \<Rightarrow> [filepath_Join (filepath_Join (filepath_Join d ''.docker'') ''run'') ''docker.sock'',
                    filepath_Join (filepath_Join d ''.docker'') ''docker.sock''])"

fun firstExistingSocket :: "linuxHost \<Rightarrow> string list \<Rightarrow> string" where
  "firstExistingSocket h [] = ''''"
| "firstExistingSocket h (path # paths) =
     (if path = '''' then firstExistingSocket h paths
      else case lh_stat h path of
        None \<Rightarrow> firstExistingSocket h paths
      | Some isDir \<Rightarrow> if isDir then firstExistingSocket h paths else path)"

definition pathHasPrefix :: "string \<Rightarrow> string \<Rightarrow> bool" where
  "pathHasPrefix path pre =
     (let cleanPath = filepath_Clean path; cleanPrefix = filepath_Clean pre in
      if cleanPath = cleanPrefix then True
      else if cleanPrefix = ''/'' then True
      else HasPrefix cleanPath (cleanPrefix @ ''/''))"

definition isRootlessSocketPath :: "linuxHost \<Rightarrow> string \<Rightarrow> bool" where
  "isRootlessSocketPath h path =
     (if path = '''' \<or> path = ''/var/run/docker.sock'' \<or> path = ''/run/docker.sock'' then False
      else if path \<in> set (rootlessDockerSocketCandidates h) then True
      else if lh_XDG h \<noteq> '''' \<and> pathHasPrefix path (lh_XDG h) then True
      else case lh_home h of Inl _ \<Rightarrow> False | Inr d \<Rightarrow> pathHasPrefix path (filepath_Join d ''.docker''))"

definition ResolveNativeDockerSocket :: "linuxHost \<Rightarrow> string \<Rightarrow> bool \<Rightarrow> string \<times> bool" where
  "ResolveNativeDockerSocket h dockerSocket rootless =
     (if dockerSocket \<noteq> '''' then (dockerSocket, isRootlessSocketPath h dockerSocket)
      else let userSocket = firstExistingSocket h (rootlessDockerSocketCandidates h) in
        if rootless \<and> userSocket \<noteq> '''' then (userSocket, True) else (''/var/run/docker.sock'', False))"

section \<open>The native runtime (native.go)\<close>

record Native =
  nv_dockerSocket :: string
  nv_rootless :: bool
  nv_proxy :: ProxyConfig

definition NewNative :: "linuxHost \<Rightarrow> string \<Rightarrow> bool \<Rightarrow> ProxyConfig \<Rightarrow> Native" where
  "NewNative h dockerSocket rootless proxy =
     (case ResolveNativeDockerSocket h dockerSocket rootless of
        (socket, usingRootless) \<Rightarrow> \<lparr>nv_dockerSocket = socket, nv_rootless = usingRootless, nv_proxy = proxy\<rparr>)"

definition noProxy :: ProxyConfig where "noProxy = \<lparr>px_HTTPProxy = '''', px_HTTPSProxy = '''', px_NoProxy = ''''\<rparr>"

text \<open>\<open>None\<close> stands for the environment of the daemon itself.\<close>

definition commandEnv :: "linuxHost \<Rightarrow> Native \<Rightarrow> string list option" where
  "commandEnv h n =
     (if nv_dockerSocket n = '''' \<and> nv_proxy n = noProxy then None
      else let env1 = (if nv_dockerSocket n \<noteq> '''' then dockerHostEnvFrom (lh_environ h) (nv_dockerSocket n) else lh_environ h)
        in Some (if nv_proxy n \<noteq> noProxy then proxyEnvFrom env1 (nv_proxy n) else env1))"

text \<open>
  \<open>exec env stdin argv\<close> runs a process; \<open>ctxErr\<close> and \<open>sleep\<close> are those of \<open>Calf_Commands\<close>.
\<close>

record 'w processes =
  pr_exec :: "string list option \<Rightarrow> string \<Rightarrow> string list \<Rightarrow> 'w \<Rightarrow> (string \<times> go_error option) \<times> 'w"
  pr_ctxErr :: "'w \<Rightarrow> go_error option"
  pr_sleep :: "int \<Rightarrow> 'w \<Rightarrow> go_error option \<times> 'w"

definition runEnv :: "'w processes \<Rightarrow> string list option \<Rightarrow> string \<Rightarrow> 'w runner" where
  "runEnv p env stdin argv = runCommandOnceEnv (pr_exec p env stdin argv) (pr_ctxErr p) (hd argv) (tl argv)"

definition DefaultCommandRetries :: int where "DefaultCommandRetries = 4"

definition runLocalWithStdin :: "'w processes \<Rightarrow> linuxHost \<Rightarrow> Native \<Rightarrow> string \<Rightarrow> 'w runner" where
  "runLocalWithStdin p h n stdin argv =
     (let once = runEnv p (commandEnv h n) stdin argv in
      if hd argv = ''nerdctl'' then runCommandWithRetryEnv once (pr_sleep p) DefaultCommandRetries DefaultCommandRetryDelay else once)"

definition runLocal :: "'w processes \<Rightarrow> linuxHost \<Rightarrow> Native \<Rightarrow> 'w runner" where
  "runLocal p h n = runLocalWithStdin p h n ''''"

definition Native_Start :: "'w processes \<Rightarrow> linuxHost \<Rightarrow> Native \<Rightarrow> 'w \<Rightarrow> go_error option \<times> 'w" where
  "Native_Start p h n w =
     (if lh_stat h (nv_dockerSocket n) = None
      then (Some (Errorf (if nv_rootless n
              then ''rootless docker socket not found at '' @ nv_dockerSocket n @ '': start rootless Docker (dockerd-rootless) or set docker_socket''
              else ''docker socket not found at '' @ nv_dockerSocket n @ '': ensure containerd/docker is running'')), w)
      else if nv_rootless n
      then (case runLocal p h n [''nerdctl'', ''info''] w of
              (Inl err, w1) \<Rightarrow> (Some (Wrap ''native rootless runtime unavailable'' err), w1)
            | (Inr _, w1) \<Rightarrow> (None, w1))
      else case runEnv p None '''' [''systemctl'', ''is-active'', ''containerd''] w of
        (Inr _, w1) \<Rightarrow> (None, w1)
      | (Inl _, w1) \<Rightarrow>
          (case runLocal p h n [''nerdctl'', ''info''] w1 of
             (Inl err, w2) \<Rightarrow> (Some (Wrap ''native runtime unavailable'' err), w2)
           | (Inr _, w2) \<Rightarrow> (None, w2)))"

definition Native_Stop :: "Native \<Rightarrow> 'w \<Rightarrow> go_error option \<times> 'w" where "Native_Stop n w = (None, w)"

definition Native_ForceStop :: "Native \<Rightarrow> 'w \<Rightarrow> go_error option \<times> 'w" where "Native_ForceStop = Native_Stop"

text \<open>The status is returned together with the error in Go; callers look at it only without one.\<close>

definition Native_Status :: "'w processes \<Rightarrow> linuxHost \<Rightarrow> Native \<Rightarrow> (Status, 'w) query" where
  "Native_Status p h n w =
     (let status = (\<lambda>state. \<lparr>st_Mode = ''native'', st_State = state, st_DockerSocket = nv_dockerSocket n, st_Rootless = nv_rootless n,
                      st_VMName = '''', st_PortConflicts = [], st_Log = ''''\<rparr>)
      in case runLocal p h n [''nerdctl'', ''info''] w of
           (Inr _, w1) \<Rightarrow> (Inr (status RuntimeStateRunning), w1)
         | (Inl err, w1) \<Rightarrow> if lh_stat h (nv_dockerSocket n) \<noteq> None then (Inr (status RuntimeStateRunning), w1) else (Inl err, w1))"

definition Native_ListContainers ::
    "'w processes \<Rightarrow> linuxHost \<Rightarrow> (string list \<Rightarrow> string list) \<Rightarrow> jsonlib \<Rightarrow> Native \<Rightarrow> (Container list, 'w) query" where
  "Native_ListContainers p h order js n = emptyIfStopped (Native_Status p h n) (listContainers order js (runLocal p h n))"

definition Native_ApplyProxy :: "'w processes \<Rightarrow> linuxHost \<Rightarrow> ProxyConfig \<Rightarrow> Native \<Rightarrow> 'w \<Rightarrow> go_error option \<times> Native \<times> 'w" where
  "Native_ApplyProxy p h proxy n0 w =
     (let n = n0\<lparr>nv_proxy := proxy\<rparr> in
      case requireRunning (Native_Status p h n) w of
        (Some err, w1) \<Rightarrow> (Some err, n, w1)
      | (None, w1) \<Rightarrow>
          if nv_rootless n then (None, n, w1)
          else case applyProxyInVM (runLocal p h n) proxy w1 of (e, w2) \<Rightarrow> (e, n, w2))"

definition Native_ListVolumeFiles ::
    "'w processes \<Rightarrow> linuxHost \<Rightarrow> decoder \<Rightarrow> Native \<Rightarrow> string \<Rightarrow> string \<Rightarrow> (ContainerFileEntry list, 'w) query" where
  "Native_ListVolumeFiles p h decode n name path w =
     (case requireRunning (Native_Status p h n) w of
        (Some err, w1) \<Rightarrow> (Inl err, w1)
      | (None, w1) \<Rightarrow>
          if \<not> isValidContainerPath path then (Inl (Errorf ''invalid path''), w1)
          else listVolumeFiles decode (runLocal p h n) name path w1)"

definition RunBuildxCLI :: "'w processes \<Rightarrow> linuxHost \<Rightarrow> Native \<Rightarrow> string list \<Rightarrow> (string, 'w) query" where
  "RunBuildxCLI p h n args = runLocal p h n (''nerdctl'' # args)"

definition registryConfigPaths :: "linuxHost \<Rightarrow> Native \<Rightarrow> string list" where
  "registryConfigPaths h n =
     (case lh_home h of
        Inl _ \<Rightarrow> if nv_rootless n then [] else [''/root/.docker/config.json'']
      | Inr d \<Rightarrow> filepath_Join (filepath_Join d ''.docker'') ''config.json'' # (if nv_rootless n then [] else [''/root/.docker/config.json'']))"

definition Native_RegistryStatus ::
    "'w processes \<Rightarrow> linuxHost \<Rightarrow> (string \<Rightarrow> dockerConfigFile option) \<Rightarrow> (string \<Rightarrow> string option) \<Rightarrow> Native \<Rightarrow> 'w \<Rightarrow> RegistryStatus \<times> 'w" where
  "Native_RegistryStatus p h decode decodeHelper n =
     registryStatus decode decodeHelper (runLocal p h n) (Some (runLocalWithStdin p h n)) (registryConfigPaths h n)"

section \<open>Builds (buildx.go, nerdctl.go)\<close>

definition isBuildxMissingError :: "go_error option \<Rightarrow> bool" where
  "isBuildxMissingError err =
     (case err of
        None \<Rightarrow> False
      | Some e \<Rightarrow>
          let message = ToLower (Error e) in
          if Contains message ''unknown flag'' \<and> Contains message ''format'' then True
          else Contains message ''buildx'' \<and>
            (Contains message ''not found'' \<or> Contains message ''unknown command'' \<or> Contains message ''is not a docker command''
             \<or> (Contains message ''plugin'' \<and> Contains message ''not'')))"

definition bootstrapBuilder :: "'w runner \<Rightarrow> 'w \<Rightarrow> go_error option \<times> 'w" where
  "bootstrapBuilder run w =
     (case run [''nerdctl'', ''buildx'', ''inspect'', ''--bootstrap''] w of
        (Inl err, w1) \<Rightarrow> (Some (Wrap ''bootstrap buildx builder'' err), w1)
      | (Inr _, w1) \<Rightarrow> (None, w1))"

definition ensureBuildx :: "'w runner \<Rightarrow> 'w \<Rightarrow> go_error option \<times> 'w" where
  "ensureBuildx run w =
     (case run [''nerdctl'', ''buildx'', ''version''] w of
        (Inr _, w1) \<Rightarrow> bootstrapBuilder run w1
      | (Inl err, w1) \<Rightarrow>
          if \<not> isBuildxMissingError (Some err) then (Some err, w1)
          else case run [''sudo'', ''bash'', ''-c'', buildxInstall] w1 of
            (Inl installErr, w2) \<Rightarrow> (Some (Wrap ''install docker-buildx'' installErr), w2)
          | (Inr _, w2) \<Rightarrow>
              (case run [''nerdctl'', ''buildx'', ''version''] w2 of
                 (Inl versionErr, w3) \<Rightarrow> (Some (Wrap ''buildx unavailable after install'' versionErr), w3)
               | (Inr _, w3) \<Rightarrow> bootstrapBuilder run w3))"

definition buildFlags :: "string \<Rightarrow> string \<Rightarrow> string list" where
  "buildFlags dockerfile platform =
     (if dockerfile \<noteq> '''' then [''-f'', dockerfile] else []) @ (if platform \<noteq> '''' then [''--platform'', platform] else [])"

definition BuildxBuildArgs :: "string \<Rightarrow> string \<Rightarrow> string \<Rightarrow> string \<Rightarrow> string list" where
  "BuildxBuildArgs tag dockerfile platform contextPath =
     [''buildx'', ''build'', ''--progress=plain'', ''--load'', ''-t'', tag] @ buildFlags dockerfile platform @ [contextPath]"

text \<open>A command that fails has no output: both callers then parse the empty text.\<close>

definition buildWith ::
    "'w BuildEnv \<Rightarrow> 'w runner \<Rightarrow> string list \<Rightarrow> string \<Rightarrow> string \<Rightarrow> string \<Rightarrow> string \<Rightarrow> 'w \<Rightarrow> ((BuildResult \<times> go_error option) \<times> 'w) option" where
  "buildWith env run args contextPath tag dockerfile platform w =
     (case run (''nerdctl'' # args) w of
        (Inl err, w1) \<Rightarrow> Some ((ParseBuildOutput '''', Some err), w1)
      | (Inr output, w1) \<Rightarrow>
          (case enrichBuildResult env run contextPath dockerfile tag platform (ParseBuildOutput output) w1 of
             None \<Rightarrow> None
           | Some (result, w2) \<Rightarrow> Some ((result, None), w2)))"

definition runBuild ::
    "'w BuildEnv \<Rightarrow> 'w runner \<Rightarrow> string \<Rightarrow> string \<Rightarrow> string \<Rightarrow> string \<Rightarrow> 'w \<Rightarrow> ((BuildResult \<times> go_error option) \<times> 'w) option" where
  "runBuild env run contextPath tag dockerfile platform =
     buildWith env run ([''build'', ''--progress=plain'', ''-t'', tag] @ buildFlags dockerfile platform @ [contextPath]) contextPath tag dockerfile platform"

definition runBuildx ::
    "'w BuildEnv \<Rightarrow> 'w runner \<Rightarrow> string \<Rightarrow> string \<Rightarrow> string \<Rightarrow> string \<Rightarrow> 'w \<Rightarrow> ((BuildResult \<times> go_error option) \<times> 'w) option" where
  "runBuildx env run contextPath tag dockerfile platform w =
     (if Contains platform '','' then Some ((noResult, Some (Errorf ''multi-platform builds are not supported yet; choose a single platform'')), w)
      else buildWith env run (BuildxBuildArgs tag dockerfile platform contextPath) contextPath tag dockerfile platform w)"

definition Native_RunBuild ::
    "'w processes \<Rightarrow> linuxHost \<Rightarrow> 'w BuildEnv \<Rightarrow> Native \<Rightarrow> string \<Rightarrow> string \<Rightarrow> string \<Rightarrow> string \<Rightarrow> 'w
       \<Rightarrow> ((BuildResult \<times> go_error option) \<times> 'w) option" where
  "Native_RunBuild p h env n contextPath tag dockerfile platform w =
     (case requireRunning (Native_Status p h n) w of
        (Some err, w1) \<Rightarrow> Some ((noResult, Some err), w1)
      | (None, w1) \<Rightarrow> runBuild env (runLocal p h n) contextPath tag dockerfile platform w1)"

text \<open>The build of the macOS guest prefers buildx.\<close>

definition Guest_RunBuild ::
    "(Status, 'w) query \<Rightarrow> 'w BuildEnv \<Rightarrow> 'w runner \<Rightarrow> (string \<Rightarrow> 'w \<Rightarrow> string result \<times> 'w) \<Rightarrow> string \<Rightarrow> string \<Rightarrow> string \<Rightarrow> string \<Rightarrow> 'w
       \<Rightarrow> ((BuildResult \<times> go_error option) \<times> 'w) option" where
  "Guest_RunBuild status env run guestRoot contextPath tag dockerfile platform w =
     (case requireRunning status w of
        (Some err, w1) \<Rightarrow> Some ((noResult, Some err), w1)
      | (None, w1) \<Rightarrow>
          (case runBuildx env (guestCommandRunner run guestRoot) contextPath tag dockerfile platform w1 of
             None \<Rightarrow> None
           | Some ((result, err), w2) \<Rightarrow>
               if err \<noteq> None \<and> isBuildxMissingError err then runBuild env run contextPath tag dockerfile platform w2
               else Some ((result, err), w2)))"

section \<open>Commands reach the engine\<close>

text \<open>What a process sees of its environment: the last entry for a key counts (\<open>os/exec\<close>).\<close>

definition getenv :: "string list \<Rightarrow> string \<Rightarrow> string option" where
  "getenv env key = map_option (drop (length key + 1)) (find (\<lambda>e. HasPrefix e (key @ ''='')) (rev env))"

definition single :: "string \<Rightarrow> string list \<Rightarrow> bool" where
  "single key env \<longleftrightarrow> length (filter (\<lambda>e. HasPrefix e (key @ ''='')) env) \<le> 1"

lemma key_prefix:
  assumes "CHR ''='' \<notin> set k" "CHR ''='' \<notin> set key"
  shows "HasPrefix (key @ ''='' @ v) (k @ ''='') \<longleftrightarrow> k = key"
  using assms
proof (induction k arbitrary: key)
  case Nil
  then show ?case by (cases key) (auto simp: HasPrefix_def)
next
  case (Cons c k)
  then show ?case by (cases key) (auto simp: HasPrefix_def)
qed

lemma key_prefix_excl:
  assumes "CHR ''='' \<notin> set k" "CHR ''='' \<notin> set key" "HasPrefix e (k @ ''='')" "HasPrefix e (key @ ''='')"
  shows "k = key"
proof -
  obtain v where "e = key @ ''='' @ v" using assms(4) by (auto simp: HasPrefix_def prefix_def)
  then show ?thesis using key_prefix [OF assms(1,2)] assms(3) by simp
qed

lemma setEnvVar_other:
  assumes "CHR ''='' \<notin> set k" "CHR ''='' \<notin> set key" "k \<noteq> key"
  shows "filter (\<lambda>e. HasPrefix e (k @ ''='')) (setEnvVar env key v) = filter (\<lambda>e. HasPrefix e (k @ ''='')) env"
proof (induction env)
  case Nil
  then show ?case using key_prefix [OF assms(1,2)] assms(3) by simp
next
  case (Cons e env)
  then show ?case using key_prefix [OF assms(1,2)] key_prefix_excl [OF assms(1,2), of e] assms(3) by auto
qed

lemma getenv_filter: "getenv env key = map_option (drop (length key + 1)) (find (\<lambda>_. True) (rev (filter (\<lambda>e. HasPrefix e (key @ ''='')) env)))"
proof -
  have "find P xs = find (\<lambda>_. True) (filter P xs)" for P and xs :: "string list" by (induction xs) auto
  then show ?thesis by (simp add: getenv_def rev_filter)
qed

lemma getenv_set_other:
  "\<lbrakk>CHR ''='' \<notin> set k; CHR ''='' \<notin> set key; k \<noteq> key\<rbrakk> \<Longrightarrow> getenv (setEnvVar env key v) k = getenv env k"
  unfolding getenv_filter by (simp add: setEnvVar_other)

lemma single_set_other:
  "\<lbrakk>CHR ''='' \<notin> set k; CHR ''='' \<notin> set key; k \<noteq> key\<rbrakk> \<Longrightarrow> single k (setEnvVar env key v) = single k env"
  unfolding single_def by (simp add: setEnvVar_other)

lemma setEnvVar_own: "single key env \<Longrightarrow> filter (\<lambda>e. HasPrefix e (key @ ''='')) (setEnvVar env key v) = [key @ ''='' @ v]"
proof (induction env)
  case Nil
  then show ?case by (simp add: HasPrefix_def)
next
  case (Cons e env)
  then show ?case by (auto simp: single_def HasPrefix_def)
qed

lemma getenv_set_own: "single key env \<Longrightarrow> getenv (setEnvVar env key v) key = Some v"
  unfolding getenv_filter by (simp add: setEnvVar_own)


definition proxyKeys :: "string list" where
  "proxyKeys = [''HTTP_PROXY'', ''HTTPS_PROXY'', ''NO_PROXY'', ''http_proxy'', ''https_proxy'', ''no_proxy'']"

lemma getenv_proxy:
  assumes "CHR ''='' \<notin> set k" "k \<notin> set proxyKeys"
  shows "getenv (proxyEnvFrom env proxy) k = getenv env k" "single k (proxyEnvFrom env proxy) = single k env"
  using assms by (simp_all add: proxyEnvFrom_def proxyKeys_def getenv_set_other single_set_other)

lemma getenv_proxy_own:
  assumes "\<forall>k\<in>set proxyKeys. single k env"
  shows "map (getenv (proxyEnvFrom env proxy)) proxyKeys
    = map Some [px_HTTPProxy proxy, px_HTTPSProxy proxy, px_NoProxy proxy, px_HTTPProxy proxy, px_HTTPSProxy proxy, px_NoProxy proxy]"
  using assms by (simp add: proxyEnvFrom_def proxyKeys_def getenv_set_other single_set_other getenv_set_own)

text \<open>
  The commands of the native runtime reach its engine: when no variable stands twice in the environment of the daemon, a
  command sees \<open>DOCKER_HOST\<close> with the socket of the runtime, the proxy variables as configured if a proxy is, and every
  other variable as the daemon does.
\<close>

theorem commands_reach_engine:
  assumes env: "commandEnv h n = Some env" and socket: "nv_dockerSocket n \<noteq> ''''"
    and once: "\<And>k. single k (lh_environ h)"
  shows "getenv env ''DOCKER_HOST'' = Some (''unix://'' @ nv_dockerSocket n)
    \<and> (if nv_proxy n = noProxy then map (getenv env) proxyKeys = map (getenv (lh_environ h)) proxyKeys
       else map (getenv env) proxyKeys = map Some (concat (replicate 2 [px_HTTPProxy (nv_proxy n), px_HTTPSProxy (nv_proxy n), px_NoProxy (nv_proxy n)])))
    \<and> (\<forall>k. CHR ''='' \<notin> set k \<and> k \<noteq> ''DOCKER_HOST'' \<and> k \<notin> set proxyKeys \<longrightarrow> getenv env k = getenv (lh_environ h) k)"
proof -
  define env1 where "env1 = dockerHostEnvFrom (lh_environ h) (nv_dockerSocket n)"
  have e: "env = (if nv_proxy n \<noteq> noProxy then proxyEnvFrom env1 (nv_proxy n) else env1)"
    using env socket by (auto simp: commandEnv_def env1_def Let_def)
  have own: "getenv env1 ''DOCKER_HOST'' = Some (''unix://'' @ nv_dockerSocket n)"
    unfolding env1_def dockerHostEnvFrom_def by (rule getenv_set_own [OF once])
  have other: "getenv env1 k = getenv (lh_environ h) k" "single k env1 = single k (lh_environ h)"
    if "CHR ''='' \<notin> set k" "k \<noteq> ''DOCKER_HOST''" for k
    using that by (simp_all add: env1_def dockerHostEnvFrom_def getenv_set_other single_set_other)
  have keys: "\<forall>k\<in>set proxyKeys. CHR ''='' \<notin> set k \<and> k \<noteq> ''DOCKER_HOST''" by (simp add: proxyKeys_def)
  show ?thesis
  proof (cases "nv_proxy n = noProxy")
    case True
    then show ?thesis using e own other(1) keys by simp
  next
    case False
    have p: "map (getenv env) proxyKeys = map Some (concat (replicate 2 [px_HTTPProxy (nv_proxy n), px_HTTPSProxy (nv_proxy n), px_NoProxy (nv_proxy n)]))"
      using getenv_proxy_own [of env1 "nv_proxy n"] other(2) keys once e False by (simp add: numeral_2_eq_2)
    have "getenv env ''DOCKER_HOST'' = Some (''unix://'' @ nv_dockerSocket n)"
      using getenv_proxy(1) [of "''DOCKER_HOST''" env1 "nv_proxy n"] own e False by (simp add: proxyKeys_def)
    moreover have "getenv env k = getenv (lh_environ h) k" if "CHR ''='' \<notin> set k" "k \<noteq> ''DOCKER_HOST''" "k \<notin> set proxyKeys" for k
      using getenv_proxy(1) [OF that(1,3), of env1 "nv_proxy n"] other(1) [OF that(1,2)] e False by simp
    ultimately show ?thesis using p False by auto
  qed
qed

definition ubuntu :: linuxHost where
  "ubuntu = \<lparr>lh_environ = [''HOME=/h'', ''DOCKER_HOST=tcp://old''], lh_XDG = ''/run/user/7'', lh_home = Inr ''/h'',
     lh_stat = [''/run/user/7/docker.sock'' \<mapsto> False]\<rparr>"

theorem commands_reach_engine_witness:
  "\<exists>env. commandEnv ubuntu (NewNative ubuntu '''' True noProxy) = Some env
     \<and> getenv env ''DOCKER_HOST'' = Some ''unix:///run/user/7/docker.sock'' \<and> getenv env ''HOME'' = getenv [''HOME=/h'', ''DOCKER_HOST=tcp://old''] ''HOME''"
proof -
  have s: "NewNative ubuntu '''' True noProxy = \<lparr>nv_dockerSocket = ''/run/user/7/docker.sock'', nv_rootless = True, nv_proxy = noProxy\<rparr>"
    by code_simp
  obtain env where env: "commandEnv ubuntu (NewNative ubuntu '''' True noProxy) = Some env"
    by (simp add: s commandEnv_def Let_def)
  have single: "single k (lh_environ ubuntu)" for k
    by (cases k; cases "hd k") (auto simp: single_def ubuntu_def HasPrefix_def)
  have e: "lh_environ ubuntu = [''HOME=/h'', ''DOCKER_HOST=tcp://old'']" by (simp add: ubuntu_def)
  have "getenv env ''DOCKER_HOST'' = Some ''unix:///run/user/7/docker.sock'' \<and> getenv env ''HOME'' = getenv (lh_environ ubuntu) ''HOME''"
    using commands_reach_engine [OF env _ single] by (simp add: s proxyKeys_def)
  then show ?thesis using env e by simp
qed

text \<open>With a variable that stands twice the old value stays in force.\<close>

lemma duplicate_variable_wins:
  "getenv (dockerHostEnvFrom [''DOCKER_HOST=tcp://a'', ''DOCKER_HOST=tcp://b''] ''/s'') ''DOCKER_HOST'' = Some ''tcp://b''"
  by code_simp

section \<open>Choosing a socket\<close>

text \<open>The segments of a cleaned rooted path; being below a directory is having its segments in front.\<close>

definition pathSegs :: "string \<Rightarrow> string list" where
  "pathSegs path = rev (fold (clean_step True) (Split path (CHR ''/'')) [])"

lemma pathSegs_plain: "\<forall>w \<in> set (pathSegs path). w \<noteq> [] \<and> CHR ''/'' \<notin> set w"
  using clean_segs [of "[]" "Split path (CHR ''/'')" True] Split_no_sep by (auto simp: pathSegs_def)

lemma Clean_pathSegs: "HasPrefix path ''/'' \<Longrightarrow> filepath_Clean path = ''/'' @ Join (pathSegs path) ''/''"
  by (simp add: filepath_Clean_def pathSegs_def)

lemma word_cut:
  assumes "CHR ''/'' \<notin> set v" "CHR ''/'' \<notin> set w" "prefix (v @ ''/'') (w @ r)" "r = [] \<or> hd r = CHR ''/''"
  shows "v = w" "r \<noteq> []"
proof -
  obtain t where t: "w @ r = v @ ''/'' @ t" using assms(3) by (auto simp: prefix_def)
  have tw: "takeWhile (\<lambda>c. c \<noteq> CHR ''/'') (v @ ''/'' @ t) = v" using assms(1) by (induction v) auto
  have "takeWhile (\<lambda>c. c \<noteq> CHR ''/'') (w @ r) = w" using assms(2,4) by (induction w) (cases r; auto)+
  then show "v = w" using t tw by simp
  then show "r \<noteq> []" using t by auto
qed

lemma Join_prefix:
  assumes "\<forall>w \<in> set vs. w \<noteq> [] \<and> CHR ''/'' \<notin> set w" "\<forall>w \<in> set ws. w \<noteq> [] \<and> CHR ''/'' \<notin> set w" "vs \<noteq> []"
  shows "prefix (Join vs ''/'' @ ''/'') (Join ws ''/'') \<longleftrightarrow> strict_prefix vs ws"
  using assms
proof (induction vs arbitrary: ws)
  case (Cons v vs)
  show ?case
  proof (cases ws)
    case Nil
    then show ?thesis by simp
  next
    case ws: (Cons w rest)
    define r where "r = (if rest = [] then [] else ''/'' @ Join rest ''/'')"
    have jw: "Join ws ''/'' = w @ r" by (cases rest) (simp_all add: ws r_def)
    have r: "r = [] \<or> hd r = CHR ''/''" by (simp add: r_def)
    have jv: "Join (v # vs) ''/'' @ ''/'' = v @ ''/'' @ (if vs = [] then [] else Join vs ''/'' @ ''/'')" by (cases vs) simp_all
    have cut: "v = w \<and> r \<noteq> []" if "prefix (v @ ''/'' @ x) (w @ r)" for x
      using word_cut [of v w r] Cons.prems(1,2) ws r that by (auto simp: prefix_def)
    show ?thesis
    proof (cases "v = w \<and> rest \<noteq> []")
      case True
      then have "prefix (Join (v # vs) ''/'' @ ''/'') (Join ws ''/'') \<longleftrightarrow> (vs = [] \<or> prefix (Join vs ''/'' @ ''/'') (Join rest ''/''))"
        unfolding jv jw by (simp add: r_def)
      also have "\<dots> \<longleftrightarrow> vs = [] \<or> strict_prefix vs rest" using Cons.IH [of rest] Cons.prems(1,2) ws by auto
      finally show ?thesis using True ws by (cases rest) (auto simp: strict_prefix_def)
    next
      case False
      then have "\<not> prefix (Join (v # vs) ''/'' @ ''/'') (Join ws ''/'')" unfolding jv jw using cut r_def by fastforce
      then show ?thesis using False ws by (auto simp: strict_prefix_def)
    qed
  qed
qed simp

lemma Join_inj:
  assumes "\<forall>w \<in> set vs. w \<noteq> [] \<and> CHR ''/'' \<notin> set w" "\<forall>w \<in> set ws. w \<noteq> [] \<and> CHR ''/'' \<notin> set w" "Join vs ''/'' = Join ws ''/''"
  shows "vs = ws"
proof -
  have split: "Split (Join us ''/'') (CHR ''/'') = us" if "us \<noteq> []" "\<forall>w \<in> set us. CHR ''/'' \<notin> set w" for us
    using that
  proof (induction us rule: rev_induct)
    case (snoc u us)
    then show ?case using Split_snoc_sep [of "CHR ''/''" u] Split_snoc_sep [of "CHR ''/''" u "Join us ''/''"]
      by (cases "us = []") (auto simp: Join_snoc)
  qed simp
  show ?thesis
  proof (cases "vs = [] \<or> ws = []")
    case True
    then show ?thesis using assms Join_segs(2) by metis
  next
    case False
    then show ?thesis using split [of vs] split [of ws] assms by metis
  qed
qed

theorem pathHasPrefix_is_containment:
  assumes "HasPrefix path ''/''" "HasPrefix pre ''/''"
  shows "pathHasPrefix path pre \<longleftrightarrow> prefix (pathSegs pre) (pathSegs path)"
proof -
  note clean = Clean_pathSegs [OF assms(1)] Clean_pathSegs [OF assms(2)]
  have eq: "Join (pathSegs path) ''/'' = Join (pathSegs pre) ''/'' \<longleftrightarrow> pathSegs path = pathSegs pre"
    using Join_inj [OF pathSegs_plain pathSegs_plain] by auto
  have empty: "Join (pathSegs pre) ''/'' = [] \<longleftrightarrow> pathSegs pre = []" by (rule Join_segs(2) [OF pathSegs_plain])
  show ?thesis using Join_prefix [OF pathSegs_plain pathSegs_plain, of pre path] eq empty
    by (auto simp: pathHasPrefix_def Let_def clean HasPrefix_def strict_prefix_def)
qed


text \<open>
  The chosen socket: a configured one is kept; a rootless one is only taken when asked for, and exists; the choice is marked
  rootless only with a socket of the user.
\<close>

lemma firstExistingSocket_cases:
  "firstExistingSocket h paths = '''' \<or> firstExistingSocket h paths \<in> set paths \<and> lh_stat h (firstExistingSocket h paths) = Some False"
  by (induction paths) (auto split: option.split)

theorem socket_choice:
  assumes "ResolveNativeDockerSocket h dockerSocket rootless = (socket, user)"
  shows "(dockerSocket \<noteq> '''' \<longrightarrow> socket = dockerSocket)
    \<and> (dockerSocket = '''' \<and> user \<longrightarrow> rootless \<and> socket \<in> set (rootlessDockerSocketCandidates h) \<and> lh_stat h socket = Some False)
    \<and> (dockerSocket = '''' \<and> \<not> user \<longrightarrow> socket = ''/var/run/docker.sock'')
    \<and> (user \<longrightarrow> socket \<noteq> '''')"
  using assms firstExistingSocket_cases [of h "rootlessDockerSocketCandidates h"]
  by (auto simp: ResolveNativeDockerSocket_def Let_def isRootlessSocketPath_def split: if_splits)

section \<open>Starting, the status and builds\<close>

text \<open>A native runtime that starts is running afterwards, since its socket is there; stopping it changes nothing.\<close>

lemma native_started_is_running:
  assumes "Native_Start p h n w = (None, w1)" "Native_Status p h n w2 = (r, w3)"
  shows "\<exists>s. r = Inr s \<and> st_State s = RuntimeStateRunning"
proof -
  have "lh_stat h (nv_dockerSocket n) \<noteq> None" using assms(1) unfolding Native_Start_def by (rule contrapos_pn) simp
  then show ?thesis using assms(2) by (auto simp: Native_Status_def Let_def split: prod.splits sum.splits)
qed

lemma native_stop_is_no_stop:
  "Native_Stop n w = (None, w)" "Native_Status p h n w = (Inr s, w1) \<Longrightarrow> st_State s = RuntimeStateRunning"
  by (auto simp: Native_Stop_def Native_Status_def Let_def split: prod.splits sum.splits if_splits)

text \<open>A build that fails has no steps and no log, whatever the builder printed.\<close>

theorem failed_build_has_no_log:
  assumes "buildWith env run args contextPath tag dockerfile platform w = Some ((result, Some err), w1)"
  shows "result = ParseBuildOutput '''' \<and> br_RawLog result = '''' \<and> br_Steps result = []"
proof -
  have "result = ParseBuildOutput ''''"
    using assms by (auto simp: buildWith_def split: prod.splits sum.splits option.splits)
  moreover have "br_Steps (ParseBuildOutput '''') = []" "br_RawLog (ParseBuildOutput '''') = ''''" by code_simp+
  ultimately show ?thesis by simp
qed

text \<open>Making sure of buildx: the plugin is installed only when it is missing, and success means that it answered and the builder is up.\<close>

lemma ensureBuildx_success:
  assumes "ensureBuildx run w = (None, w1)"
  shows "\<exists>v b. (\<exists>out w2. run [''nerdctl'', ''buildx'', ''version''] v = (Inr out, w2) \<and> run [''nerdctl'', ''buildx'', ''inspect'', ''--bootstrap''] w2 = (Inr b, w1))
    \<and> (v = w \<or> (\<exists>e w3 out. run [''nerdctl'', ''buildx'', ''version''] w = (Inl e, w3) \<and> isBuildxMissingError (Some e)
         \<and> run [''sudo'', ''bash'', ''-c'', buildxInstall] w3 = (Inr out, v)))"
proof (cases "run [''nerdctl'', ''buildx'', ''version''] w")
  case (Pair r w2)
  show ?thesis
  proof (cases r)
    case (Inr out)
    then show ?thesis using assms Pair by (auto simp: ensureBuildx_def bootstrapBuilder_def split: prod.splits sum.splits)
  next
    case (Inl e)
    obtain r3 w3 where i: "run [''sudo'', ''bash'', ''-c'', buildxInstall] w2 = (r3, w3)" by (rule prod.exhaust)
    obtain r4 w4 where v: "run [''nerdctl'', ''buildx'', ''version''] w3 = (r4, w4)" by (rule prod.exhaust)
    obtain r5 w5 where b: "run [''nerdctl'', ''buildx'', ''inspect'', ''--bootstrap''] w4 = (r5, w5)" by (rule prod.exhaust)
    have miss: "isBuildxMissingError (Some e)" using assms Pair Inl by (simp add: ensureBuildx_def split: if_splits)
    obtain o3 where o3: "r3 = Inr o3" using assms Pair Inl miss i by (cases r3) (simp_all add: ensureBuildx_def)
    obtain o4 where o4: "r4 = Inr o4" using assms Pair Inl miss i o3 v by (cases r4) (simp_all add: ensureBuildx_def)
    obtain o5 where o5: "r5 = Inr o5" "w5 = w1"
      using assms Pair Inl miss i o3 v o4 b by (cases r5) (simp_all add: ensureBuildx_def bootstrapBuilder_def)
    show ?thesis using Pair Inl miss i o3 v o4 b o5 by blast
  qed
qed

end
