(* ===== verification/Calf_Main.thy ===== *)
theory Calf_Main
  imports Calf_Ports Calf_Strings
begin

text \<open>
  The entry point \<open>cmd/calf/main.go\<close>: taking the listening port over from an earlier instance, the PID file, the search
  path of the process, the parent watchdog, and the order in which an instance starts and shuts down.  The
  operating system is an argument whose state is explicit.
\<close>

section \<open>The host\<close>

text \<open>
  \<open>bind\<close> tells whether an address could be listened on, \<open>output\<close> runs a command, \<open>signal\<close> sends SIGTERM (or
  kills, on Windows).
\<close>

record 'w mainHost =
  mh_goos :: string
  mh_pid :: int
  mh_ppid :: int
  mh_bind :: "string \<Rightarrow> 'w \<Rightarrow> bool \<times> 'w"
  mh_output :: "string list \<Rightarrow> 'w \<Rightarrow> string result \<times> 'w"
  mh_pidFile :: "'w \<Rightarrow> string result"
  mh_findProcess :: "int \<Rightarrow> bool"
  mh_signal :: "int \<Rightarrow> 'w \<Rightarrow> 'w"
  mh_sleep :: "'w \<Rightarrow> 'w"

section \<open>Taking over the port\<close>

definition portAvailable :: "'w mainHost \<Rightarrow> string \<Rightarrow> string \<Rightarrow> 'w \<Rightarrow> bool \<times> 'w" where
  "portAvailable h host port = mh_bind h (JoinHostPort host port)"

definition looksLikeCalfProcess :: "string \<Rightarrow> bool" where
  "looksLikeCalfProcess command =
     (let lower = ToLower (TrimSpace command) in
      Contains lower ''calf-daemon'' \<or> Contains lower ''cmd/calf'' \<or> Contains lower (''cmd'' @ [CHR 0x5C] @ ''calf''))"

definition isCalfListenerUnix :: "'w mainHost \<Rightarrow> int \<Rightarrow> 'w \<Rightarrow> bool \<times> 'w" where
  "isCalfListenerUnix h pid w =
     (case mh_output h [''ps'', ''-p'', show_int pid, ''-o'', ''args=''] w of
        (Inl _, w1) \<Rightarrow> (False, w1)
      | (Inr out, w1) \<Rightarrow> (looksLikeCalfProcess out, w1))"

definition isCalfListenerWindows :: "'w mainHost \<Rightarrow> int \<Rightarrow> 'w \<Rightarrow> bool \<times> 'w" where
  "isCalfListenerWindows h pid w =
     (case mh_output h [''tasklist'', ''/FI'', ''PID eq '' @ show_int pid, ''/FO'', ''CSV'', ''/NH''] w of
        (Inl _, w1) \<Rightarrow> (False, w1)
      | (Inr out, w1) \<Rightarrow> (looksLikeCalfProcess out, w1))"

definition isCalfListener :: "'w mainHost \<Rightarrow> int \<Rightarrow> 'w \<Rightarrow> bool \<times> 'w" where
  "isCalfListener h = (if mh_goos h = ''windows'' then isCalfListenerWindows h else isCalfListenerUnix h)"

fun lsof_pid :: "'w mainHost \<Rightarrow> string list \<Rightarrow> int result" where
  "lsof_pid h [] = Inl (Errorf ''no pid found on port'')"
| "lsof_pid h (raw # raws) =
     (case ParseInt64 (TrimSpace raw) of
        None \<Rightarrow> lsof_pid h raws
      | Some pid \<Rightarrow> if pid \<noteq> mh_pid h \<and> pid \<noteq> mh_ppid h then Inr pid else lsof_pid h raws)"

definition findPidOnPortUnix :: "'w mainHost \<Rightarrow> string \<Rightarrow> 'w \<Rightarrow> int result \<times> 'w" where
  "findPidOnPortUnix h port w =
     (case mh_output h [''lsof'', ''-ti'', '':'' @ port, ''-s'', ''TCP:LISTEN''] w of
        (Inl err, w1) \<Rightarrow> (Inl err, w1)
      | (Inr out, w1) \<Rightarrow> (lsof_pid h (Fields out), w1))"

fun netstat_pid :: "'w mainHost \<Rightarrow> string \<Rightarrow> string list \<Rightarrow> int result" where
  "netstat_pid h target [] = Inl (Errorf ''no pid found on port'')"
| "netstat_pid h target (line # ls) =
     (let fields = Fields (TrimSpace line) in
      if length fields < 5 \<or> fields ! 3 \<noteq> ''LISTENING'' then netstat_pid h target ls
      else if HasSuffix (fields ! 1) target
      then (case ParseInt64 (TrimSpace (last fields)) of
              None \<Rightarrow> netstat_pid h target ls
            | Some pid \<Rightarrow> if pid \<noteq> mh_pid h \<and> pid \<noteq> mh_ppid h then Inr pid else netstat_pid h target ls)
      else netstat_pid h target ls)"

definition findPidOnPortWindows :: "'w mainHost \<Rightarrow> string \<Rightarrow> 'w \<Rightarrow> int result \<times> 'w" where
  "findPidOnPortWindows h port w =
     (case mh_output h [''netstat'', ''-ano''] w of
        (Inl err, w1) \<Rightarrow> (Inl err, w1)
      | (Inr out, w1) \<Rightarrow> (netstat_pid h ('':'' @ port) (Split out newline), w1))"

definition findPidOnPort :: "'w mainHost \<Rightarrow> string \<Rightarrow> 'w \<Rightarrow> int result \<times> 'w" where
  "findPidOnPort h = (if mh_goos h = ''windows'' then findPidOnPortWindows h else findPidOnPortUnix h)"

definition readPidFile :: "'w mainHost \<Rightarrow> 'w \<Rightarrow> int result" where
  "readPidFile h w =
     (case mh_pidFile h w of
        Inl err \<Rightarrow> Inl err
      | Inr text \<Rightarrow> (case ParseInt64 text of None \<Rightarrow> Inl (Errorf (''parsing '' @ text)) | Some pid \<Rightarrow> Inr pid))"

fun wait_port :: "'w mainHost \<Rightarrow> string \<Rightarrow> string \<Rightarrow> nat \<Rightarrow> 'w \<Rightarrow> bool \<times> 'w" where
  "wait_port h host port 0 w = (False, w)"
| "wait_port h host port (Suc n) w =
     (case portAvailable h host port (mh_sleep h w) of (True, w1) \<Rightarrow> (True, w1) | (False, w1) \<Rightarrow> wait_port h host port n w1)"

definition stopListener :: "'w mainHost \<Rightarrow> string \<Rightarrow> string \<Rightarrow> string \<Rightarrow> int \<Rightarrow> 'w \<Rightarrow> go_error option \<times> 'w" where
  "stopListener h addr host port pid w =
     (if \<not> mh_findProcess h pid
      then (Some (Errorf (''port '' @ addr @ '' is in use by pid '' @ show_int pid @ '', but process not found'')), w)
      else case wait_port h host port 10 (mh_signal h pid w) of
        (True, w1) \<Rightarrow> (None, w1)
      | (False, w1) \<Rightarrow> (Some (Errorf (''port '' @ addr @ '' is still in use after cleanup; close the calf app and retry'')), w1))"

text \<open>Whether a process may be stopped: the PID file names it, or its command line looks like calf's.\<close>

definition mayReclaim :: "'w mainHost \<Rightarrow> int \<Rightarrow> 'w \<Rightarrow> bool \<times> 'w" where
  "mayReclaim h pid w = (if readPidFile h w = Inr pid then (True, w) else isCalfListener h pid w)"

definition ensurePort :: "'w mainHost \<Rightarrow> string \<Rightarrow> 'w \<Rightarrow> go_error option \<times> 'w" where
  "ensurePort h addr w =
     (case SplitHostPort addr of
        None \<Rightarrow> (Some (Errorf (''address '' @ addr @ '': invalid'')), w)
      | Some (host, port) \<Rightarrow>
          (case portAvailable h host port w of
             (True, w1) \<Rightarrow> (None, w1)
           | (False, w1) \<Rightarrow>
               (case findPidOnPort h port w1 of
                  (Inl _, w2) \<Rightarrow> (Some (Errorf (''port '' @ addr @ '' is in use; close the calf app or stop the other process'')), w2)
                | (Inr pid, w2) \<Rightarrow>
                    if pid = 0 then (Some (Errorf (''port '' @ addr @ '' is in use; close the calf app or stop the other process'')), w2)
                    else case mayReclaim h pid w2 of
                      (False, w3) \<Rightarrow>
                        (Some (Errorf (''port '' @ addr @ '' is in use by pid '' @ show_int pid @ ''; close the calf app or stop that process'')), w3)
                    | (True, w3) \<Rightarrow> stopListener h addr host port pid w3)))"

section \<open>The search path\<close>

definition inPath :: "string \<Rightarrow> string \<Rightarrow> bool" where "inPath dir path = (dir \<in> set (Split path (CHR '':'')))"

definition prependDir :: "string \<Rightarrow> string \<Rightarrow> string" where
  "prependDir dir existing = dir @ '':'' @ existing"

fun needed_dirs :: "(string \<Rightarrow> bool) \<Rightarrow> string list \<Rightarrow> string \<Rightarrow> string \<times> bool" where
  "needed_dirs stat [] existing = (existing, False)"
| "needed_dirs stat (dir # dirs) existing =
     (if list_ex (\<lambda>bin. stat (filepath_Join dir bin)) [''krunkit'', ''gvproxy'', ''docker''] \<and> \<not> inPath dir existing
      then (fst (needed_dirs stat dirs (prependDir dir existing)), True)
      else needed_dirs stat dirs existing)"

definition ensurePath :: "string \<Rightarrow> (string \<Rightarrow> bool) \<Rightarrow> string \<Rightarrow> string" where
  "ensurePath goos stat existing =
     (if goos = ''windows'' then existing
      else case needed_dirs stat [''/opt/homebrew/bin'', ''/usr/local/bin''] existing of
        (path, True) \<Rightarrow> path
      | (path, False) \<Rightarrow>
          fold (\<lambda>dir path. if inPath dir path then path else prependDir dir path)
            [''/opt/homebrew/bin'', ''/opt/homebrew/sbin'', ''/usr/local/bin''] path)"

section \<open>The parent watchdog (watchdog\_unix.go)\<close>

text \<open>What the watchdog sees at each tick: whether the context is over, and the parent.  It answers whether it called \<open>stop\<close>.\<close>

fun watchParent :: "bool \<Rightarrow> (bool \<times> int) list \<Rightarrow> bool" where
  "watchParent benchmark [] = False"
| "watchParent benchmark ((over, ppid) # ticks) =
     (if benchmark then False else if over then False else if ppid = 1 then True else watchParent benchmark ticks)"


section \<open>Only calf is stopped\<close>

text \<open>A host that notes the processes it has signalled.\<close>

definition noting_signals :: "'w mainHost \<Rightarrow> ('w \<times> int list) mainHost" where
  "noting_signals h =
     \<lparr>mh_goos = mh_goos h, mh_pid = mh_pid h, mh_ppid = mh_ppid h,
      mh_bind = (\<lambda>addr (w, ps). case mh_bind h addr w of (b, w1) \<Rightarrow> (b, w1, ps)),
      mh_output = (\<lambda>args (w, ps). case mh_output h args w of (r, w1) \<Rightarrow> (r, w1, ps)),
      mh_pidFile = (\<lambda>(w, ps). mh_pidFile h w), mh_findProcess = mh_findProcess h,
      mh_signal = (\<lambda>pid (w, ps). (mh_signal h pid w, ps @ [pid])), mh_sleep = (\<lambda>(w, ps). (mh_sleep h w, ps))\<rparr>"

lemma noting_probe: "portAvailable (noting_signals h) host port (w, ps) = (case portAvailable h host port w of (b, w1) \<Rightarrow> (b, w1, ps))"
  by (simp add: portAvailable_def noting_signals_def)

lemma noting_lsof: "lsof_pid (noting_signals h) raws = lsof_pid h raws"
  by (induction raws) (simp_all add: noting_signals_def split: option.split)

lemma noting_netstat: "netstat_pid (noting_signals h) target ls = netstat_pid h target ls"
  by (induction ls) (simp_all add: noting_signals_def Let_def split: option.split)

lemma noting_find: "findPidOnPort (noting_signals h) port (w, ps) = (case findPidOnPort h port w of (r, w1) \<Rightarrow> (r, w1, ps))"
proof -
  have out: "mh_output (noting_signals h) args (w, ps) = (case mh_output h args w of (r, w1) \<Rightarrow> (r, w1, ps))" for args
    by (simp add: noting_signals_def)
  have goos: "mh_goos (noting_signals h) = mh_goos h" by (simp add: noting_signals_def)
  show ?thesis
    by (simp add: findPidOnPort_def findPidOnPortUnix_def findPidOnPortWindows_def out goos noting_lsof noting_netstat split: prod.split sum.split)
qed

lemma noting_reclaim: "mayReclaim (noting_signals h) pid (w, ps) = (case mayReclaim h pid w of (b, w1) \<Rightarrow> (b, w1, ps))"
proof -
  have out: "mh_output (noting_signals h) args (w, ps) = (case mh_output h args w of (r, w1) \<Rightarrow> (r, w1, ps))" for args
    by (simp add: noting_signals_def)
  have goos: "mh_goos (noting_signals h) = mh_goos h" and pidf: "readPidFile (noting_signals h) (w, ps) = readPidFile h w"
    by (simp_all add: noting_signals_def readPidFile_def)
  show ?thesis
    by (simp add: mayReclaim_def isCalfListener_def isCalfListenerUnix_def isCalfListenerWindows_def out goos pidf split: prod.split sum.split)
qed

lemma noting_wait:
  assumes "wait_port (noting_signals h) host port n (w, ps) = (b, w1, ps1)"
  shows "ps1 = ps" "b \<Longrightarrow> \<exists>v. portAvailable h host port v = (True, w1)"
proof -
  have "ps1 = ps \<and> (b \<longrightarrow> (\<exists>v. portAvailable h host port v = (True, w1)))" using assms
  proof (induction n arbitrary: w)
    case (Suc n)
    have s: "mh_sleep (noting_signals h) (w, ps) = (mh_sleep h w, ps)" by (simp add: noting_signals_def)
    obtain c w2 where p: "portAvailable h host port (mh_sleep h w) = (c, w2)" by (rule prod.exhaust)
    show ?case using Suc.prems Suc.IH [of w2] p by (cases c) (auto simp: s noting_probe)
  qed simp
  then show "ps1 = ps" "b \<Longrightarrow> \<exists>v. portAvailable h host port v = (True, w1)" by auto
qed

lemma stopListener_noting:
  assumes "stopListener (noting_signals h) addr host port pid (w, []) = (e, w1, stopped)"
  shows "stopped = [] \<and> e \<noteq> None \<or> stopped = [pid] \<and> (e = None \<longrightarrow> (\<exists>v. portAvailable h host port v = (True, w1)))"
proof (cases "mh_findProcess h pid")
  case True
  have h: "mh_findProcess (noting_signals h) pid" "mh_signal (noting_signals h) pid (w, []) = (mh_signal h pid w, [pid])"
    using True by (simp_all add: noting_signals_def)
  obtain b w2 ps where p: "wait_port (noting_signals h) host port 10 (mh_signal h pid w, [pid]) = (b, w2, ps)" by (metis surj_pair)
  have "ps = [pid]" "b \<Longrightarrow> \<exists>v. portAvailable h host port v = (True, w2)" using noting_wait [OF p] by auto
  then show ?thesis using assms p by (cases b) (auto simp: stopListener_def h)
next
  case False
  then have "\<not> mh_findProcess (noting_signals h) pid" by (simp add: noting_signals_def)
  then show ?thesis using assms by (auto simp: stopListener_def)
qed

lemma found_is_other: "findPidOnPort h port w = (Inr pid, w1) \<Longrightarrow> pid \<noteq> mh_pid h \<and> pid \<noteq> mh_ppid h"
proof -
  have l: "lsof_pid h raws = Inr p \<Longrightarrow> p \<noteq> mh_pid h \<and> p \<noteq> mh_ppid h" for raws p
    by (induction raws) (auto split: option.splits if_splits)
  have n: "netstat_pid h target ls = Inr p \<Longrightarrow> p \<noteq> mh_pid h \<and> p \<noteq> mh_ppid h" for target ls p
    by (induction ls) (auto simp: Let_def split: option.splits if_splits)
  show "findPidOnPort h port w = (Inr pid, w1) \<Longrightarrow> pid \<noteq> mh_pid h \<and> pid \<noteq> mh_ppid h"
    by (auto simp: findPidOnPort_def findPidOnPortUnix_def findPidOnPortWindows_def split: prod.splits sum.splits if_splits dest: l n)
qed

text \<open>The question about a process: its command line, or on Windows the name of its image.\<close>

definition psQuery :: "'w mainHost \<Rightarrow> int \<Rightarrow> string list" where
  "psQuery h pid = (if mh_goos h = ''windows'' then [''tasklist'', ''/FI'', ''PID eq '' @ show_int pid, ''/FO'', ''CSV'', ''/NH'']
     else [''ps'', ''-p'', show_int pid, ''-o'', ''args=''])"

lemma mayReclaim_why:
  "mayReclaim h pid w = (True, w1) \<Longrightarrow>
     readPidFile h w = Inr pid \<or> (\<exists>out. fst (mh_output h (psQuery h pid) w) = Inr out \<and> looksLikeCalfProcess out)"
  by (auto simp: psQuery_def mayReclaim_def isCalfListener_def isCalfListenerUnix_def isCalfListenerWindows_def
      split: prod.splits sum.splits if_splits)

text \<open>
  C19: Taking over the listening port stops at most one process, never the daemon itself or its parent, and only one that the
  PID file names or whose command line looks like calf's; and when it succeeds, the last thing it did was to
  listen on the port without error.
\<close>

theorem reclaim_stops_only_calf:
  assumes "ensurePort (noting_signals h) addr (w, []) = (e, w1, stopped)"
  shows "(stopped = [] \<or> (\<exists>pid v. stopped = [pid] \<and> pid \<noteq> 0 \<and> pid \<noteq> mh_pid h \<and> pid \<noteq> mh_ppid h \<and>
      (readPidFile h v = Inr pid
       \<or> (\<exists>out. fst (mh_output h (psQuery h pid) v) = Inr out \<and> looksLikeCalfProcess out))))
    \<and> (e = None \<longrightarrow> (\<exists>host port v. SplitHostPort addr = Some (host, port) \<and> portAvailable h host port v = (True, w1)))"
proof (cases "SplitHostPort addr")
  case None
  then show ?thesis using assms by (auto simp: ensurePort_def)
next
  case (Some hp)
  obtain host port where hp: "hp = (host, port)" by (rule prod.exhaust)
  obtain a wa where a: "portAvailable h host port w = (a, wa)" by (rule prod.exhaust)
  obtain r wb where f: "findPidOnPort h port wa = (r, wb)" by (rule prod.exhaust)
  note run = assms [unfolded ensurePort_def Some hp option.case prod.case noting_probe a]
  show ?thesis
  proof (cases a)
    case True
    then show ?thesis using run Some hp a by auto
  next
    case False
    show ?thesis
    proof (cases "\<exists>pid. r = Inr pid \<and> pid \<noteq> 0")
      case True
      then obtain pid where pid: "r = Inr pid" "pid \<noteq> 0" by blast
      obtain b wc where b: "mayReclaim h pid wb = (b, wc)" by (rule prod.exhaust)
      have step: "(case b of False \<Rightarrow> stopped = [] \<and> e \<noteq> None
          | True \<Rightarrow> stopListener (noting_signals h) addr host port pid (wc, []) = (e, w1, stopped))"
        using run False f pid b by (cases b) (auto simp: noting_find noting_reclaim)
      show ?thesis
      proof (cases b)
        case True
        have s: "stopListener (noting_signals h) addr host port pid (wc, []) = (e, w1, stopped)" using step True by simp
        have "stopped = [] \<and> e \<noteq> None \<or> stopped = [pid] \<and> (e = None \<longrightarrow> (\<exists>v. portAvailable h host port v = (True, w1)))"
          using s by (rule stopListener_noting)
        moreover have "pid \<noteq> mh_pid h \<and> pid \<noteq> mh_ppid h" by (rule found_is_other [OF f [unfolded pid(1)]])
        moreover have "readPidFile h wb = Inr pid \<or> (\<exists>out. fst (mh_output h (psQuery h pid) wb) = Inr out \<and> looksLikeCalfProcess out)"
          by (rule mayReclaim_why [OF b [unfolded eqTrueI [OF True]]])
        moreover have "SplitHostPort addr = Some (host, port)" using Some hp by simp
        ultimately show ?thesis using pid(2) by (elim disjE conjE) (simp_all, blast+)
      qed (use step in auto)
    next
      case no: False
      then show ?thesis using run False f by (cases r) (auto simp: noting_find)
    qed
  qed
qed


text \<open>A host where an old instance holds the port until it is signalled: the state says whether it does.\<close>

definition occupied :: "string \<Rightarrow> bool mainHost" where
  "occupied cmdline = \<lparr>mh_goos = ''darwin'', mh_pid = 9, mh_ppid = 8, mh_bind = (\<lambda>addr w. (\<not> w, w)),
     mh_output = (\<lambda>args w. (Inr (if args ! 0 = ''lsof'' then ''8 7'' else cmdline), w)), mh_pidFile = (\<lambda>w. Inl (Errorf ''no file'')),
     mh_findProcess = (\<lambda>_. True), mh_signal = (\<lambda>_ _. False), mh_sleep = (\<lambda>w. w)\<rparr>"

lemma occupied_run: "ensurePort (noting_signals (occupied ''/opt/calf-daemon'')) ''127.0.0.1:80'' (True, []) = (None, False, [7])"
  by code_simp

theorem reclaim_stops_only_calf_witness:
  "ensurePort (noting_signals (occupied ''/opt/calf-daemon'')) ''127.0.0.1:80'' (True, []) = (None, False, [7])
   \<and> (\<exists>host port v. SplitHostPort ''127.0.0.1:80'' = Some (host, port) \<and> portAvailable (occupied ''/opt/calf-daemon'') host port v = (True, False))"
  using reclaim_stops_only_calf [OF occupied_run] occupied_run by blast

text \<open>The look of a command line is not proof: an editor server with a file of calf's sources open is stopped, too.\<close>

lemma lookalike_is_stopped:
  "ensurePort (noting_signals (occupied ''node server.js --open src/backend/cmd/calf/main.go'')) ''127.0.0.1:80'' (True, []) = (None, False, [7])"
  by code_simp

section \<open>The search path only grows\<close>

lemma Split_prepend: "CHR '':'' \<notin> set dir \<Longrightarrow> Split (prependDir dir path) (CHR '':'') = dir # Split path (CHR '':'')"
  unfolding prependDir_def by (induction dir) auto

lemma needed_dirs_grow:
  "\<lbrakk>\<forall>d \<in> set dirs. CHR '':'' \<notin> set d; distinct (Split path (CHR '':''))\<rbrakk> \<Longrightarrow>
     \<exists>new. Split (fst (needed_dirs stat dirs path)) (CHR '':'') = new @ Split path (CHR '':'') \<and> set new \<subseteq> set dirs
       \<and> distinct (new @ Split path (CHR '':''))"
proof (induction dirs arbitrary: path)
  case (Cons d dirs)
  show ?case
  proof (cases "list_ex (\<lambda>bin. stat (filepath_Join d bin)) [''krunkit'', ''gvproxy'', ''docker''] \<and> \<not> inPath d path")
    case True
    have s: "Split (prependDir d path) (CHR '':'') = d # Split path (CHR '':'')" using Cons.prems(1) by (simp add: Split_prepend)
    have "distinct (Split (prependDir d path) (CHR '':''))" using s True Cons.prems(2) by (simp add: inPath_def)
    with Cons.IH [of "prependDir d path"] Cons.prems(1) obtain new where
      "Split (fst (needed_dirs stat dirs (prependDir d path))) (CHR '':'') = new @ d # Split path (CHR '':'')" "set new \<subseteq> set dirs"
      "distinct (new @ d # Split path (CHR '':''))" using s by auto
    then show ?thesis using True by (intro exI [of _ "new @ [d]"]) auto
  next
    case False
    then show ?thesis using Cons.IH [of path] Cons.prems by (cases "inPath d path") auto
  qed
qed simp

lemma prepend_missing_grow:
  "\<lbrakk>\<forall>d \<in> set dirs. CHR '':'' \<notin> set d; distinct (Split path (CHR '':''))\<rbrakk> \<Longrightarrow>
     \<exists>new. Split (fold (\<lambda>dir path. if inPath dir path then path else prependDir dir path) dirs path) (CHR '':'') = new @ Split path (CHR '':'')
       \<and> set new \<subseteq> set dirs \<and> distinct (new @ Split path (CHR '':''))"
proof (induction dirs arbitrary: path)
  case (Cons d dirs)
  show ?case
  proof (cases "inPath d path")
    case True
    then show ?thesis using Cons.IH [of path] Cons.prems by auto
  next
    case False
    have s: "Split (prependDir d path) (CHR '':'') = d # Split path (CHR '':'')" using Cons.prems(1) by (simp add: Split_prepend)
    have "distinct (Split (prependDir d path) (CHR '':''))" using s False Cons.prems(2) by (simp add: inPath_def)
    with Cons.IH [of "prependDir d path"] Cons.prems(1) obtain new where
      "Split (fold (\<lambda>dir path. if inPath dir path then path else prependDir dir path) dirs (prependDir d path)) (CHR '':'') = new @ d # Split path (CHR '':'')"
      "set new \<subseteq> set dirs" "distinct (new @ d # Split path (CHR '':''))" using s by auto
    then show ?thesis using False by (intro exI [of _ "new @ [d]"]) auto
  qed
qed simp

theorem path_only_grows:
  assumes "distinct (Split path (CHR '':''))"
  shows "\<exists>new. Split (ensurePath goos stat path) (CHR '':'') = new @ Split path (CHR '':'')
    \<and> set new \<subseteq> {''/opt/homebrew/bin'', ''/opt/homebrew/sbin'', ''/usr/local/bin''} \<and> distinct (new @ Split path (CHR '':''))"
proof (cases "goos = ''windows''")
  case True
  then show ?thesis using assms by (intro exI [of _ "[]"]) (simp add: ensurePath_def)
next
  case False
  obtain p b where n: "needed_dirs stat [''/opt/homebrew/bin'', ''/usr/local/bin''] path = (p, b)" by (rule prod.exhaust)
  show ?thesis
  proof (cases b)
    case True
    then show ?thesis using needed_dirs_grow [of "[''/opt/homebrew/bin'', ''/usr/local/bin'']" path stat] assms n False
      by (auto simp: ensurePath_def)
  next
    case b: False
    have "p = path" using n b by (simp split: if_splits)
    then show ?thesis using prepend_missing_grow [of "[''/opt/homebrew/bin'', ''/opt/homebrew/sbin'', ''/usr/local/bin'']" path] assms n False b
      unfolding ensurePath_def by auto
  qed
qed

text \<open>Without a \<open>PATH\<close> the result ends in an empty entry, which stands for the working directory.\<close>

lemma empty_path_adds_cwd: "ensurePath ''darwin'' (\<lambda>p. p = ''/usr/local/bin/docker'') '''' = ''/usr/local/bin:''"
  by code_simp


section \<open>Instances one after the other\<close>

text \<open>
  The life of an instance in \<open>run\<close>: it makes sure of the port, writes the PID file, starts the engine in the background
  and listens; a signal makes it close its listener, then stop the engine, and last remove the PID file.  The PID file,
  the port and the engine are those of the machine.
\<close>

datatype mainPhase = Booting | Reserved | Serving | Draining | Closed | EngineStopped | Gone

record site =
  si_phase :: "int \<Rightarrow> mainPhase"
  si_port :: "int option"
  si_pidFile :: "int option"
  si_engine :: bool

abbreviation goes :: "int \<Rightarrow> mainPhase \<Rightarrow> site \<Rightarrow> site" where "goes p ph s \<equiv> s\<lparr>si_phase := (si_phase s)(p := ph)\<rparr>"

inductive main_step :: "site \<Rightarrow> site \<Rightarrow> bool" where
  reserve: "\<lbrakk>si_phase s p = Booting; si_port s = None\<rbrakk> \<Longrightarrow> main_step s ((goes p Reserved s)\<lparr>si_pidFile := Some p\<rparr>)"
| start_engine: "si_phase s p \<in> {Reserved, Serving} \<Longrightarrow> main_step s (s\<lparr>si_engine := True\<rparr>)"
| listen: "\<lbrakk>si_phase s p = Reserved; si_port s = None\<rbrakk> \<Longrightarrow> main_step s ((goes p Serving s)\<lparr>si_port := Some p\<rparr>)"
| listen_fails: "\<lbrakk>si_phase s p = Reserved; si_port s \<noteq> None\<rbrakk> \<Longrightarrow> main_step s (goes p Closed s)"
| terminate: "si_phase s p = Serving \<Longrightarrow> main_step s (goes p Draining s)"
| close: "si_phase s p = Draining \<Longrightarrow> main_step s ((goes p Closed s)\<lparr>si_port := None\<rparr>)"
| stop_engine: "si_phase s p = Closed \<Longrightarrow> main_step s ((goes p EngineStopped s)\<lparr>si_engine := False\<rparr>)"
| leave: "si_phase s p = EngineStopped \<Longrightarrow> main_step s ((goes p Gone s)\<lparr>si_pidFile := None\<rparr>)"

definition dark :: site where "dark = \<lparr>si_phase = (\<lambda>_. Booting), si_port = None, si_pidFile = None, si_engine = False\<rparr>"

inductive site_reach :: "site \<Rightarrow> bool" where
  site_init: "site_reach dark"
| site_next: "\<lbrakk>site_reach s; main_step s s'\<rbrakk> \<Longrightarrow> site_reach s'"

text \<open>The port is held by exactly the instance that serves, or is about to close its listener.\<close>

lemma port_holder: "site_reach s \<Longrightarrow> si_port s = Some p \<longleftrightarrow> si_phase s p \<in> {Serving, Draining}"
proof (induction arbitrary: p rule: site_reach.induct)
  case site_init
  then show ?case by (simp add: dark_def)
next
  case (site_next s s')
  have only: "q = q'" if "si_phase s q \<in> {Serving, Draining}" "si_phase s q' \<in> {Serving, Draining}" for q q'
    using site_next.IH [of q] site_next.IH [of q'] that by auto
  have free: "si_phase s q \<notin> {Serving, Draining}" if "si_port s = None" for q
    using site_next.IH [of q] that by auto
  from site_next.hyps(2) show ?case
  proof (cases rule: main_step.cases)
    case (listen q)
    then show ?thesis using free [of p] by auto
  next
    case (close q)
    then show ?thesis using only [of p q] by auto
  next
    case (terminate q)
    then show ?thesis using site_next.IH [of p] site_next.IH [of q] by auto
  qed (use site_next.IH [of p] in auto)
qed

theorem one_instance_serves:
  "\<lbrakk>site_reach s; si_phase s p = Serving; si_phase s q = Serving\<rbrakk> \<Longrightarrow> p = q"
  using port_holder [of s p] port_holder [of s q] by auto

text \<open>
  But the port is free before the old instance is done: the one that takes over writes its PID file, and
  the old one then stops the engine under it and removes that file.
\<close>

definition handedOver :: "int \<Rightarrow> int \<Rightarrow> site" where
  "handedOver old new = \<lparr>si_phase = (\<lambda>_. Booting)(old := Gone, new := Serving), si_port = Some new, si_pidFile = None, si_engine = False\<rparr>"

theorem takeover_loses_engine:
  assumes "old \<noteq> new"
  shows "site_reach (handedOver old new)"
proof -
  define s1 where "s1 = (goes old Reserved dark)\<lparr>si_pidFile := Some old\<rparr>"
  define s2 where "s2 = (goes old Serving s1)\<lparr>si_port := Some old\<rparr>"
  define s3 where "s3 = goes old Draining s2"
  define s4 where "s4 = (goes old Closed s3)\<lparr>si_port := None\<rparr>"
  define s5 where "s5 = (goes new Reserved s4)\<lparr>si_pidFile := Some new\<rparr>"
  define s6 where "s6 = (goes new Serving s5)\<lparr>si_port := Some new\<rparr>"
  define s7 where "s7 = s6\<lparr>si_engine := True\<rparr>"
  define s8 where "s8 = (goes old EngineStopped s7)\<lparr>si_engine := False\<rparr>"
  define s9 where "s9 = (goes old Gone s8)\<lparr>si_pidFile := None\<rparr>"
  note defs = s1_def s2_def s3_def s4_def s5_def s6_def s7_def s8_def s9_def dark_def
  have r1: "site_reach s1" unfolding s1_def by (rule site_next [OF site_init main_step.reserve [of _ old]]) (use assms in \<open>simp_all add: defs\<close>)
  have r2: "site_reach s2" unfolding s2_def by (rule site_next [OF r1 main_step.listen [of _ old]]) (use assms in \<open>simp_all add: defs\<close>)
  have r3: "site_reach s3" unfolding s3_def by (rule site_next [OF r2 main_step.terminate [of _ old]]) (use assms in \<open>simp_all add: defs\<close>)
  have r4: "site_reach s4" unfolding s4_def by (rule site_next [OF r3 main_step.close [of _ old]]) (use assms in \<open>simp_all add: defs\<close>)
  have r5: "site_reach s5" unfolding s5_def by (rule site_next [OF r4 main_step.reserve [of _ new]]) (use assms in \<open>simp_all add: defs\<close>)
  have r6: "site_reach s6" unfolding s6_def by (rule site_next [OF r5 main_step.listen [of _ new]]) (use assms in \<open>simp_all add: defs\<close>)
  have r7: "site_reach s7" unfolding s7_def by (rule site_next [OF r6 main_step.start_engine [of _ new]]) (use assms in \<open>simp_all add: defs\<close>)
  have r8: "site_reach s8" unfolding s8_def by (rule site_next [OF r7 main_step.stop_engine [of _ old]]) (use assms in \<open>simp_all add: defs\<close>)
  have r9: "site_reach s9" unfolding s9_def by (rule site_next [OF r8 main_step.leave [of _ old]]) (use assms in \<open>simp_all add: defs\<close>)
  have "s9 = handedOver old new" using assms by (auto simp: defs handedOver_def fun_eq_iff)
  then show ?thesis using r9 by simp
qed

end
