(* ===== verification/Spec2Isabelle.thy ===== *)
theory Spec2Isabelle
  imports Calf_Utils Calf_Volume_Api Calf_Idle Calf_Stats Calf_Broadcaster Calf_Builds
    Calf_Socket_Proxy Calf_Networks Calf_Gateway Calf_Login Calf_Migration Calf_Troubleshoot
    Calf_Krunkit Calf_Docker_Cli Calf_Native Calf_Main
begin

text \<open>
  \<^bold>\<open>Verification of the calf backend\<close>

  calf is a desktop container manager.  Its daemon, written in Go under \<open>src/backend\<close>, drives a container
  engine by running \<open>nerdctl\<close>, \<open>docker\<close> and \<open>buildx\<close>, and serves an HTTP API to the desktop application.
  This library models the daemon's own logic: what it decides, stores, schedules, parses and reports.
  The programs it runs, the file system, the clock, the JSON decoders and the zone data are arguments of
  the definitions.

  \<^bold>\<open>Parts of the program and theories\<close> (paths below \<open>src/backend/internal\<close>)

  \<^item> \<open>Calf_Prelude\<close>: Go strings (\<open>TrimSpace\<close>, \<open>Split\<close>, \<open>Quote\<close>, \<open>filepath.Clean\<close> and so on), errors with wrapping
    and sentinels, \<open>sort.Slice\<close>; \<open>Calf_Time\<close>: instants, civil dates, zones, RFC 3339; \<open>Calf_Files\<close>: directories,
    I/O faults, and the locales \<open>directory_laws\<close>, \<open>keyed_store\<close> and \<open>keyed_store_delete\<close>.
  \<^item> \<open>Calf_Utils\<close>, \<open>Calf_Sizes\<close>: \<open>utils\<close> (sanitising, lines, \<open>FormatBytes\<close>, \<open>ParseDockerHumanSize\<close>) and the
    doubles these functions compute with.
  \<^item> \<open>Calf_Schedule\<close>, \<open>Calf_Next_Run\<close>, \<open>Calf_Export_Names\<close>: \<open>volumeexport/schedule_timing.go\<close>, \<open>name_pattern.go\<close>,
    \<open>schedule_input.go\<close>: which schedules are accepted, when they run next, what their exports are called.
  \<^item> \<open>Calf_Schedule_Store\<close>, \<open>Calf_Export_Store\<close>: the JSON stores of schedules and exports (\<open>volumeexport/schedule.go\<close>,
    \<open>store.go\<close>), and \<open>daemon/export_runner.go\<close>; both interpret \<open>keyed_store\<close>.
  \<^item> \<open>Calf_Scheduler\<close>: the ticks of \<open>daemon/export_scheduler.go\<close> over both stores.
  \<^item> \<open>Calf_Runtime\<close>: the data and the interface of \<open>runtime/runtime.go\<close> as a record of functions on a world, with
    the locale \<open>runtime_contract\<close>; \<open>runtime/errors.go\<close>; the runtime for unsupported hosts.  \<open>Calf_Mock\<close>: the in-memory
    runtime \<open>runtime/mock.go\<close>.  Both are interpretations of the contract.
  \<^item> \<open>Calf_Prune\<close>: \<open>runtime/prune.go\<close> and \<open>system_df.go\<close>; \<open>Calf_Commands\<close>: \<open>runtime/exec.go\<close>, \<open>command_error.go\<close>,
    \<open>container_ghosts.go\<close>; \<open>Calf_Cli\<close>: \<open>runtime/cli_ops.go\<close>, \<open>volume_export.go\<close> and the parts of \<open>volume_detail.go\<close>,
    \<open>container_detail.go\<close>, \<open>registry.go\<close>, \<open>nerdctl.go\<close>, \<open>network.go\<close> that change something or check paths; \<open>config/paths.go\<close>.
  \<^item> \<open>Calf_Strings\<close>: more of \<open>strings\<close> and \<open>bytes\<close>; \<open>Calf_Listing\<close>: the listings of \<open>runtime/nerdctl.go\<close>; \<open>Calf_Details\<close>:
    \<open>container_detail.go\<close>, \<open>volume_detail.go\<close>, \<open>inspect_decode.go\<close>; \<open>Calf_Networks\<close>: \<open>runtime/network.go\<close>.
  \<^item> \<open>Calf_Docker_Proxy\<close>: \<open>runtime/docker_http_proxy.go\<close>, one request of the Docker API; \<open>Calf_Socket_Proxy\<close>:
    \<open>daemon/docker_socket_proxy.go\<close>, the public socket and the connections behind it.
  \<^item> \<open>Calf_Config\<close>: \<open>config/config.go\<close>, \<open>validate_proxy.go\<close>, \<open>log_file.go\<close>, \<open>logger.go\<close>, \<open>runtime/proxy.go\<close>, \<open>daemon/host.go\<close>,
    \<open>api/config.go\<close>, \<open>api/debug_logs.go\<close>.
  \<^item> \<open>Calf_Login\<close>: \<open>runtime/registry.go\<close>, \<open>oauth/dockerhub/device.go\<close>, \<open>daemon/registry_login.go\<close>.
  \<^item> \<open>Calf_Compose\<close>, \<open>Calf_Migration\<close>: the package \<open>migration\<close> and \<open>dockerexec\<close>; \<open>Calf_Troubleshoot\<close>: \<open>daemon/troubleshoot.go\<close>,
    \<open>daemon/migrate.go\<close>, opening the log again, and the handlers for them and for logins.
  \<^item> \<open>Calf_Ports\<close>: \<open>runtime/localhost_proxy.go\<close> and the forwards of gvproxy in \<open>krunkit_darwin.go\<close>; \<open>Calf_Guest\<close>: the shared listing,
    scripts in the guest and other operations of \<open>runtime/guest_darwin.go\<close>; \<open>Calf_Guest_Disk\<close>: \<open>guest_disk_fetch_darwin.go\<close>;
    \<open>Calf_Krunkit\<close>: start and stop of the machine in \<open>krunkit_darwin.go\<close>.
  \<^item> \<open>Calf_Native\<close>: \<open>runtime/native.go\<close>, \<open>rootless.go\<close>, \<open>buildx.go\<close>; \<open>Calf_Docker_Cli\<close>: the package \<open>dockercli\<close>; \<open>Calf_Main\<close>: \<open>cmd/calf\<close>
    (the listening port, the PID file, the search path, the order of start and shutdown).
  \<^item> \<open>Calf_Broadcaster\<close>: \<open>daemon/log_broadcaster.go\<close>; \<open>Calf_Stats\<close>: \<open>daemon/stats_history.go\<close>, \<open>stats_sampler.go\<close>;
    \<open>Calf_Idle\<close>: \<open>daemon/resource_saver.go\<close>, \<open>resource_snapshot.go\<close>, \<open>runtime_ready.go\<close>.
  \<^item> \<open>Calf_Build_Log\<close>, \<open>Calf_Build_Enrich\<close>, \<open>Calf_Builds\<close>: image builds: \<open>runtime/build.go\<close>, \<open>build_parser.go\<close>,
    \<open>build_enrich.go\<close>, the package \<open>buildhistory\<close>, \<open>buildstore/store.go\<close>, \<open>daemon/builds.go\<close>, \<open>build_sync.go\<close>.
  \<^item> \<open>Calf_Http\<close>: \<open>httpkit\<close> (routing and replies); \<open>Calf_Volume_Api\<close>: the handlers of \<open>api/volume_exports.go\<close> and
    \<open>volume_export_schedules.go\<close>; \<open>Calf_Gateway\<close>: the routes of \<open>api/gateway.go\<close>, the other handlers, and \<open>middleware\<close>.

  \<^bold>\<open>How state and operations correspond\<close>

  A struct is a record whose fields carry a short prefix (\<open>sched_\<close>, \<open>ct_\<close>, \<open>bd_\<close> and so on), a method is a function
  with the receiver's state among its arguments and results, and a method that two types have is named
  \<open>Type_Method\<close>.  A function that may fail returns \<open>go_error + 'a\<close>, a method returning only an error returns
  \<open>go_error option\<close>, and \<open>None\<close> of an outer option is a panic.  Whatever the code calls outside (engine,
  programs, files) is a function that changes a world of arbitrary type, so a theorem holds for every
  behaviour of the outside, failures at every point included.  A section under a mutex is one function;
  where sections of different goroutines can interleave, step relations are built from these sections:
  \<open>astep\<close> and \<open>istep\<close> for log streams, \<open>saver_run\<close> and \<open>fstep\<close> for the resource saver and shared starts,
  \<open>bstep\<close> for the build history, \<open>lstep\<close> for logins, \<open>gstep\<close> for connections, \<open>mstep\<close> for migrations, \<open>list_step\<close> for
  shared listings, \<open>main_step\<close> for instances of the daemon that follow one another.

  \<^bold>\<open>What the theorems show\<close>

  \<^item> Schedules: validation accepts exactly the usable schedules; the nested loops of \<open>computeNextRun\<close> find exactly
    the earliest slot of a specification by quantifiers; due windows; ticks touch only what is due; runs are
    recorded; and two gaps: schedules that miss their window never run again, and a schedule deleted during
    its run comes back.
  \<^item> Stores: what is saved is read back and nothing else changes; names cannot escape the directory; exports end
    in a final status; API replies and stored state agree.
  \<^item> Log streams: with uninterrupted operations every subscribed container has exactly one log process; with
    interleaved ones a subscriber can starve, which is proved from a concrete schedule and an invariant.
  \<^item> Resource saver: the engine is stopped only after a watched idle time; but a container started between the
    check and the stop is stopped with it.  Starts are shared and end.
  \<^item> Commands: retrying is equivalent to a specification; generated clean-up scripts contain only fixed commands;
    an export creates and writes no file but the one below the chosen folder, and its helper container is removed; the
    changing operations do nothing to a stopped runtime.
  \<^item> Prune: the preview offers the containers that are not running, the images that no container names, the volumes not
    in use and the networks that are not default ones; the commands that run are those of the selection; sizes and their
    printing.
  \<^item> Builds: the history stays well formed under all operations of builds, faults and restarts; saving is atomic; numbered
    steps of a plain log are read back; and defects: imports that never settle beyond 200 builds, builds that stay
    running after a restart, a history lost after one failed read, artifacts lost for several platforms.
  \<^item> Proxies: the socket proxy never waits for a loop that is not there and repairs its socket, but an accept loop that
    ended on an error is not started again while the socket is in place; at most four connections use the engine and one
    dials at a time, through the guest's gate as through the proxy's own; exactly one request of a connection is
    forwarded, but chunked bodies are cut.
  \<^item> Configuration: accepted updates fit the host and survive a restart; the log keeps the latest lines.
  \<^item> Listings: every container whose row passes the filter once, with the fields of its row; mounts are complete; names are
    one word of generated scripts.
  \<^item> Requests: which operation each path and method reaches; pages of other origins cannot read answers.
  \<^item> Logins: a session says complete only after the login it names, results are final, waiting ends.
  \<^item> Migration: projects partition the containers, staged services run the migrated images, progress and counts are
    sound, a run ends in a result, and there is one run at a time.
  \<^item> Purge and reset remove what they name and keep the rest; but after a reset every line written to the log fails until
    the process ends.
  \<^item> The machine: a start is all or nothing, a forced stop ends both processes and removes the files that can be removed, a
    disk is never left half written; localhost proxies and forwards follow the published ports, and a listener leaks
    exactly when its accept loop fails; concurrent listings share one \<open>docker ps\<close>; scripts for the
    guest end and their helper container is removed; and defects, such as a path of a request that the guest executes.
  \<^item> The host: repairing CLI plugins breaks none, the context \<open>calf\<close> points at the socket, commands of the native
    runtime see it, and only an instance of calf is stopped to free the port; but an instance that takes over loses its
    PID file and its engine to the one that leaves.

  \<^bold>\<open>Bounds, fuel and limits\<close>

  Only \<open>pollRunning\<close> and \<open>WaitForDeviceToken\<close> take fuel; \<open>start_terminates\<close> and \<open>device_wait_ends\<close> show that fuel above the
  remaining waits is enough.  The dialling loop takes the readings of the clock as a list, and \<open>dial_terminates\<close> shows that
  it ends.  \<open>pollGuestCmdExit\<close> is a partial function, and \<open>guest_command_ends\<close> shows that it returns.  The waits for the
  machine take the number of polls that fit before their deadline as arguments; their theorems hold for every number.
  All other loops are structural or have a termination proof.
  Strings are byte lists; \<open>ToLower\<close>, \<open>EqualFold\<close> and \<open>Quote\<close> treat ASCII only.  \<open>sort.Slice\<close> is the insertion
  sort that Go uses up to twelve elements, which fixes the order of equal elements.  A zone is a list of
  transitions without the rule that extends it.  JSON is the identity on typed data, or a decoder given as
  argument; nil and empty slices are not told apart.  Integers are unbounded except where the code
  converts or parses (\<open>int64\<close> of a double is the amd64 conversion, \<open>Atoi\<close> saturates).  The order in which Go
  walks a map is an argument.  Log output, contexts and timeouts are not modelled, except where a deadline ends a loop.

  \<^bold>\<open>Not modelled\<close>

  Byte streams: websocket sessions for logs and exec, the copying of connections, the gated engine socket of the guest.
  The texts of the scripts that set up the guest (network, file shares) and the readings of \<open>process_resources_darwin.go\<close>,
  which only pass on what the system reports; the wiring of objects in \<open>main.go\<close> and \<open>core.go\<close>; the code for Windows
  apart from the listening port; and the desktop application.
\<close>

end
